(* ===== verification/Prelude.thy ===== *)
theory Prelude
  imports Main "HOL-Library.Word" "HOL-Library.Monad_Syntax"
begin

text \<open>
  Shared vocabulary of the development: the machine integers of the Rust sources, the
  result type of fallible code, and the list operations of the Rust standard library
  (\<open>Iterator::find_map\<close>, \<open>Iterator::position\<close>, \<open>Vec::truncate\<close>, \<open>iter_mut().find\<close>) with the
  lemmas every component uses about them.

  Unsigned integers \<open>u32\<close>, \<open>u64\<close> and \<open>usize\<close> are natural numbers; wherever the sources
  saturate, check or wrap, the operation is written out against \<open>U32_MAX\<close> and \<open>U64_MAX\<close>
  (\<open>usize\<close> is 64 bits wide, as on every platform the program is released for).
  Bytes are \<open>8 word\<close> and hashes are \<open>64 word\<close>.
\<close>

named_theorems frame_simps \<open>fields that an operation leaves alone\<close>
named_theorems inv_intros \<open>preservation of the component invariants\<close>

subsection \<open>Machine integers\<close>

type_synonym u32 = nat
type_synonym u64 = nat
type_synonym usize = nat
type_synonym byte = "8 word"

definition U32_MAX :: nat where "U32_MAX = 4294967295"
definition U64_MAX :: nat where "U64_MAX = 18446744073709551615"

definition sat_add_u32 :: "u32 \<Rightarrow> u32 \<Rightarrow> u32" where
  "sat_add_u32 a b = min (a + b) U32_MAX"

definition sat_add_u64 :: "u64 \<Rightarrow> u64 \<Rightarrow> u64" where
  "sat_add_u64 a b = min (a + b) U64_MAX"

definition checked_add_u32 :: "u32 \<Rightarrow> u32 \<Rightarrow> u32 option" where
  "checked_add_u32 a b = (if a + b \<le> U32_MAX then Some (a + b) else None)"

definition checked_add_u64 :: "u64 \<Rightarrow> u64 \<Rightarrow> u64 option" where
  "checked_add_u64 a b = (if a + b \<le> U64_MAX then Some (a + b) else None)"

definition checked_sub :: "nat \<Rightarrow> nat \<Rightarrow> nat option" where
  "checked_sub a b = (if b \<le> a then Some (a - b) else None)"

lemma sat_add_u64_1_neq: "v < U64_MAX \<Longrightarrow> sat_add_u64 v 1 = Suc v"
  by (simp add: sat_add_u64_def)

lemma sat_add_u64_mono: "v \<le> U64_MAX \<Longrightarrow> v \<le> sat_add_u64 v n"
  by (simp add: sat_add_u64_def)

lemma sat_add_u64_le [simp]: "sat_add_u64 v n \<le> U64_MAX"
  by (simp add: sat_add_u64_def)

lemma sat_add_u32_le [simp]: "sat_add_u32 v n \<le> U32_MAX"
  by (simp add: sat_add_u32_def)

lemma sat_add_u64_id_iff: "v \<le> U64_MAX \<Longrightarrow> sat_add_u64 v 1 = v \<longleftrightarrow> v = U64_MAX"
  by (auto simp: sat_add_u64_def min_def)

subsection \<open>Results\<close>

text \<open>\<open>Result<T, E>\<close> is the sum \<open>'e + 't\<close>; \<open>?\<close> is \<open>bind_res\<close>.\<close>

type_synonym ('e, 'a) res = "'e + 'a"

definition bind_res :: "('e, 'a) res \<Rightarrow> ('a \<Rightarrow> ('e, 'b) res) \<Rightarrow> ('e, 'b) res" where
  "bind_res r f = (case r of Inl e \<Rightarrow> Inl e | Inr a \<Rightarrow> f a)"

lemma bind_res_simps [simp]:
  "bind_res (Inl e) f = Inl e"
  "bind_res (Inr a) f = f a"
  by (simp_all add: bind_res_def)

lemma bind_res_Inr_iff:
  "bind_res r f = Inr b \<longleftrightarrow> (\<exists>a. r = Inr a \<and> f a = Inr b)"
  by (cases r) auto

definition ok_or :: "'e \<Rightarrow> 'a option \<Rightarrow> ('e, 'a) res" where
  "ok_or e x = (case x of None \<Rightarrow> Inl e | Some a \<Rightarrow> Inr a)"

lemma ok_or_simps [simp]: "ok_or e None = Inl e" "ok_or e (Some a) = Inr a"
  by (simp_all add: ok_or_def)

definition guard_res :: "bool \<Rightarrow> 'e \<Rightarrow> ('e, unit) res" where
  "guard_res b e = (if b then Inr () else Inl e)"

lemma guard_res_simps [simp]: "guard_res True e = Inr ()" "guard_res False e = Inl e"
  by (simp_all add: guard_res_def)

lemma guard_res_Inr_iff [simp]: "guard_res b e = Inr u \<longleftrightarrow> b"
  by (simp add: guard_res_def)

fun each_res :: "('a \<Rightarrow> ('e, unit) res) \<Rightarrow> 'a list \<Rightarrow> ('e, unit) res" where
  "each_res f [] = Inr ()"
| "each_res f (x # xs) = bind_res (f x) (\<lambda>_. each_res f xs)"

lemma each_res_Inr_iff: "each_res f xs = Inr u \<longleftrightarrow> (\<forall>x \<in> set xs. f x = Inr ())"
  by (induction xs) (auto simp: bind_res_Inr_iff)

fun map_res :: "('a \<Rightarrow> ('e, 'b) res) \<Rightarrow> 'a list \<Rightarrow> ('e, 'b list) res" where
  "map_res f [] = Inr []"
| "map_res f (x # xs) = bind_res (f x) (\<lambda>y. bind_res (map_res f xs) (\<lambda>ys. Inr (y # ys)))"

lemma map_res_Inr_length: "map_res f xs = Inr ys \<Longrightarrow> length ys = length xs"
  by (induction xs arbitrary: ys) (auto simp: bind_res_Inr_iff)

lemma map_res_all_Inr: "(\<And>x. x \<in> set xs \<Longrightarrow> f x = Inr (g x)) \<Longrightarrow> map_res f xs = Inr (map g xs)"
  by (induction xs) auto

subsection \<open>Iterator and vector operations\<close>

primrec find_map :: "('a \<Rightarrow> 'b option) \<Rightarrow> 'a list \<Rightarrow> 'b option" where
  "find_map f [] = None"
| "find_map f (x # xs) = (case f x of None \<Rightarrow> find_map f xs | Some y \<Rightarrow> Some y)"

lemma find_map_cong [fundef_cong]:
  "xs = ys \<Longrightarrow> (\<And>x. x \<in> set ys \<Longrightarrow> f x = g x) \<Longrightarrow> find_map f xs = find_map g ys"
  by (induction xs arbitrary: ys) (auto split: option.splits)

lemma find_map_None_iff: "find_map f xs = None \<longleftrightarrow> (\<forall>x \<in> set xs. f x = None)"
  by (induction xs) (auto split: option.splits)

lemma find_map_SomeD: "find_map f xs = Some y \<Longrightarrow> \<exists>x \<in> set xs. f x = Some y"
  by (induction xs) (auto split: option.splits)

lemma find_map_append:
  "find_map f (xs @ ys) = (case find_map f xs of None \<Rightarrow> find_map f ys | Some y \<Rightarrow> Some y)"
  by (induction xs) (auto split: option.splits)

primrec update_first :: "('a \<Rightarrow> 'a option) \<Rightarrow> 'a list \<Rightarrow> 'a list option" where
  \<comment> \<open>\<open>iter_mut().find_map(f)\<close> followed by a write through the reference it returned\<close>
  "update_first f [] = None"
| "update_first f (x # xs) =
     (case f x of
        Some x' \<Rightarrow> Some (x' # xs)
      | None \<Rightarrow> map_option ((#) x) (update_first f xs))"

lemma update_first_cong [fundef_cong]:
  "xs = ys \<Longrightarrow> (\<And>x. x \<in> set ys \<Longrightarrow> f x = g x) \<Longrightarrow> update_first f xs = update_first g ys"
  by (induction xs arbitrary: ys) (auto split: option.splits)

lemma update_first_None_iff: "update_first f xs = None \<longleftrightarrow> (\<forall>x \<in> set xs. f x = None)"
  by (induction xs) (auto split: option.splits)

lemma update_first_SomeE:
  assumes "update_first f xs = Some ys"
  obtains us x x' vs where "xs = us @ x # vs" and "ys = us @ x' # vs" and "f x = Some x'"
    and "\<forall>u \<in> set us. f u = None"
  using assms
proof (induction xs arbitrary: ys thesis)
  case Nil
  then show ?case by simp
next
  case (Cons a xs)
  show ?case
  proof (cases "f a")
    case (Some a')
    with Cons.prems show ?thesis by (auto intro: Cons.prems(1) [of "[]"])
  next
    case None
    with Cons.prems(2) obtain zs where zs: "update_first f xs = Some zs" and "ys = a # zs"
      by auto
    obtain us x x' vs where "xs = us @ x # vs" "zs = us @ x' # vs" "f x = Some x'"
      "\<forall>u \<in> set us. f u = None"
      by (rule Cons.IH [OF _ zs])
    with None \<open>ys = a # zs\<close> show ?thesis
      by (intro Cons.prems(1) [of "a # us" x vs x']) auto
  qed
qed

lemma update_first_length: "update_first f xs = Some ys \<Longrightarrow> length ys = length xs"
  by (erule update_first_SomeE) simp

primrec position :: "('a \<Rightarrow> bool) \<Rightarrow> 'a list \<Rightarrow> nat option" where
  "position P [] = None"
| "position P (x # xs) = (if P x then Some 0 else map_option Suc (position P xs))"

lemma position_None_iff: "position P xs = None \<longleftrightarrow> (\<forall>x \<in> set xs. \<not> P x)"
  by (induction xs) auto

lemma position_SomeD:
  "position P xs = Some i \<Longrightarrow> i < length xs \<and> P (xs ! i) \<and> (\<forall>j < i. \<not> P (xs ! j))"
proof (induction xs arbitrary: i)
  case Nil
  then show ?case by simp
next
  case (Cons x xs)
  show ?case
  proof (cases "P x")
    case True
    with Cons.prems show ?thesis by simp
  next
    case False
    with Cons.prems obtain k where k: "position P xs = Some k" and "i = Suc k" by auto
    from Cons.IH [OF k] False \<open>i = Suc k\<close> show ?thesis
      by (auto simp: nth_Cons split: nat.splits)
  qed
qed

lemma find_position:
  "find P xs = (case position P xs of None \<Rightarrow> None | Some i \<Rightarrow> Some (xs ! i))"
  by (induction xs) (auto split: option.splits)

definition get :: "'a list \<Rightarrow> nat \<Rightarrow> 'a option" where
  \<comment> \<open>\<open>slice::get\<close>: out of range is \<open>None\<close>\<close>
  "get xs i = (if i < length xs then Some (xs ! i) else None)"

lemma get_simps: "i < length xs \<Longrightarrow> get xs i = Some (xs ! i)" "length xs \<le> i \<Longrightarrow> get xs i = None"
  by (simp_all add: get_def)

lemma get_eq_Some_iff: "get xs i = Some x \<longleftrightarrow> i < length xs \<and> xs ! i = x"
  by (auto simp: get_def)

lemma get_map: "get (map f xs) i = map_option f (get xs i)"
  by (simp add: get_def)

lemma get_take: "get (take n xs) i = (if i < n then get xs i else None)"
  by (simp add: get_def)

lemma list_eq_get_iff: "xs = ys \<longleftrightarrow> length xs = length ys \<and> (\<forall>i < length xs. get xs i = get ys i)"
  by (auto simp: list_eq_iff_nth_eq get_def)

definition option_is_some_and :: "('a \<Rightarrow> bool) \<Rightarrow> 'a option \<Rightarrow> bool" where
  "option_is_some_and P x = (case x of None \<Rightarrow> False | Some a \<Rightarrow> P a)"

lemma option_is_some_and_simps [simp]:
  "option_is_some_and P None = False" "option_is_some_and P (Some a) = P a"
  by (simp_all add: option_is_some_and_def)

subsection \<open>Lists in general\<close>

lemma distinct_map_Some: "inj_on f (set xs) \<Longrightarrow> distinct (map f xs) = distinct xs"
  by (simp add: distinct_map)

lemma map_nth_upt: "map (\<lambda>i. xs ! i) [0..<length xs] = xs"
  by (simp add: map_nth)

lemma take_map_upt: "n \<le> length xs \<Longrightarrow> map (\<lambda>i. xs ! i) [0..<n] = take n xs"
  by (rule nth_equalityI) auto

end
