(* ===== verification/Rust_Text.thy ===== *)
theory Rust_Text
  imports Prelude
begin

text \<open>
  Rust strings. A \<open>String\<close> is the list of its \<open>char\<close>s (Unicode scalar values, as naturals);
  \<open>as_bytes\<close> is its UTF-8 encoding. \<open>lit\<close> embeds the ASCII literals of the sources. The theory
  models what the sources use of \<open>std\<close>: UTF-8 encoding and (lossy) decoding, \<open>char::is_control\<close>,
  \<open>str::trim\<close>, \<open>str::replace\<close> for line ends, decimal printing and parsing, \<open>str::split\<close>.
  The main facts: decoding inverts encoding, both strictly and lossily; decimal
  parsing inverts printing.
\<close>

subsection \<open>Characters and strings\<close>

type_synonym uchar = nat
type_synonym ustring = "uchar list"

definition lit :: "string \<Rightarrow> ustring" where
  "lit s = map of_char s"

definition ascii :: "string \<Rightarrow> byte list" where
  "ascii s = map of_char s"

lemma lit_eq_iff [simp]: "lit s = lit t \<longleftrightarrow> s = t"
  by (simp add: lit_def inj_map_eq_map inj_def)

lemma lit_Nil [simp]: "lit [] = []"
  by (simp add: lit_def)

lemma lit_eq_Nil_iff [simp]: "lit s = [] \<longleftrightarrow> s = []"
  by (simp add: lit_def)

lemma length_lit [simp]: "length (lit s) = length s"
  by (simp add: lit_def)

definition scalar :: "uchar \<Rightarrow> bool" where
  \<comment> \<open>the values a Rust \<open>char\<close> can have\<close>
  "scalar c \<longleftrightarrow> c < 0xD800 \<or> (0xE000 \<le> c \<and> c < 0x110000)"

definition is_control :: "uchar \<Rightarrow> bool" where
  "is_control c \<longleftrightarrow> c < 0x20 \<or> (0x7F \<le> c \<and> c < 0xA0)"

definition is_ascii :: "uchar \<Rightarrow> bool" where
  "is_ascii c \<longleftrightarrow> c < 0x80"

definition is_whitespace :: "uchar \<Rightarrow> bool" where
  \<comment> \<open>Unicode \<open>White_Space\<close>, as \<open>char::is_whitespace\<close> has it\<close>
  "is_whitespace c \<longleftrightarrow>
     (9 \<le> c \<and> c \<le> 13) \<or> c = 32 \<or> c = 0x85 \<or> c = 0xA0 \<or> c = 0x1680 \<or>
     (0x2000 \<le> c \<and> c \<le> 0x200A) \<or> c = 0x2028 \<or> c = 0x2029 \<or> c = 0x202F \<or> c = 0x205F \<or> c = 0x3000"

definition trim :: "ustring \<Rightarrow> ustring" where
  "trim s = rev (dropWhile is_whitespace (rev (dropWhile is_whitespace s)))"

lemma scalar_ascii: "c < 0x80 \<Longrightarrow> scalar c"
  by (simp add: scalar_def)

lemma scalar_lit: "list_all (\<lambda>c. of_char c < (0x80::nat)) s \<Longrightarrow> list_all scalar (lit s)"
  by (induction s) (auto simp: lit_def scalar_def)

subsection \<open>UTF-8\<close>

definition utf8_char :: "uchar \<Rightarrow> byte list" where
  "utf8_char c =
     (if c < 0x80 then [of_nat c]
      else if c < 0x800 then [of_nat (0xC0 + c div 64), of_nat (0x80 + c mod 64)]
      else if c < 0x10000 then
        [of_nat (0xE0 + c div 4096), of_nat (0x80 + c div 64 mod 64), of_nat (0x80 + c mod 64)]
      else
        [of_nat (0xF0 + c div 262144), of_nat (0x80 + c div 4096 mod 64),
         of_nat (0x80 + c div 64 mod 64), of_nat (0x80 + c mod 64)])"

definition utf8_bytes :: "ustring \<Rightarrow> byte list" where
  "utf8_bytes s = concat (map utf8_char s)"

definition is_cont :: "byte \<Rightarrow> bool" where
  "is_cont b \<longleftrightarrow> 0x80 \<le> b \<and> b \<le> 0xBF"

definition cont_bits :: "byte \<Rightarrow> nat" where
  "cont_bits b = unat b mod 64"

definition second3_ok :: "byte \<Rightarrow> byte \<Rightarrow> bool" where
  \<comment> \<open>the second byte a three-byte lead allows: no overlong forms, no surrogates\<close>
  "second3_ok b0 b1 \<longleftrightarrow>
     (if b0 = 0xE0 then 0xA0 \<le> b1 \<and> b1 \<le> 0xBF
      else if b0 = 0xED then 0x80 \<le> b1 \<and> b1 \<le> 0x9F
      else is_cont b1)"

definition second4_ok :: "byte \<Rightarrow> byte \<Rightarrow> bool" where
  "second4_ok b0 b1 \<longleftrightarrow>
     (if b0 = 0xF0 then 0x90 \<le> b1 \<and> b1 \<le> 0xBF
      else if b0 = 0xF4 then 0x80 \<le> b1 \<and> b1 \<le> 0x8F
      else is_cont b1)"

text \<open>
  One step of the decoder on a non-empty input: the scalar value read, or \<open>None\<close> for an
  invalid sequence, and how many bytes the step consumes (for an invalid sequence: its
  maximal valid prefix, at least one byte, as \<open>Utf8Chunks\<close> does).
\<close>

fun utf8_step :: "byte list \<Rightarrow> uchar option \<times> nat" where
  "utf8_step [] = (None, 0)"
| "utf8_step (b0 # bs) =
     (if b0 < 0x80 then (Some (unat b0), 1)
      else if 0xC2 \<le> b0 \<and> b0 \<le> 0xDF then
        (case bs of
           b1 # _ \<Rightarrow>
             if is_cont b1 then (Some ((unat b0 mod 32) * 64 + cont_bits b1), 2) else (None, 1)
         | [] \<Rightarrow> (None, 1))
      else if 0xE0 \<le> b0 \<and> b0 \<le> 0xEF then
        (case bs of
           b1 # bs1 \<Rightarrow>
             if second3_ok b0 b1 then
               (case bs1 of
                  b2 # _ \<Rightarrow>
                    if is_cont b2
                    then (Some ((unat b0 mod 16) * 4096 + cont_bits b1 * 64 + cont_bits b2), 3)
                    else (None, 2)
                | [] \<Rightarrow> (None, 2))
             else (None, 1)
         | [] \<Rightarrow> (None, 1))
      else if 0xF0 \<le> b0 \<and> b0 \<le> 0xF4 then
        (case bs of
           b1 # bs1 \<Rightarrow>
             if second4_ok b0 b1 then
               (case bs1 of
                  b2 # bs2 \<Rightarrow>
                    if is_cont b2 then
                      (case bs2 of
                         b3 # _ \<Rightarrow>
                           if is_cont b3
                           then (Some ((unat b0 mod 8) * 262144 + cont_bits b1 * 4096
                                       + cont_bits b2 * 64 + cont_bits b3), 4)
                           else (None, 3)
                       | [] \<Rightarrow> (None, 3))
                    else (None, 2)
                | [] \<Rightarrow> (None, 2))
             else (None, 1)
         | [] \<Rightarrow> (None, 1))
      else (None, 1))"

lemma utf8_step_pos: "bs \<noteq> [] \<Longrightarrow> 0 < snd (utf8_step bs)"
  by (cases bs) (auto split: list.splits)

function utf8_lossy :: "byte list \<Rightarrow> ustring" where
  \<comment> \<open>\<open>String::from_utf8_lossy\<close>: each invalid sequence becomes U+FFFD\<close>
  "utf8_lossy bs =
     (if bs = [] then []
      else (case fst (utf8_step bs) of None \<Rightarrow> 0xFFFD | Some c \<Rightarrow> c)
           # utf8_lossy (drop (snd (utf8_step bs)) bs))"
  by pat_completeness auto
termination
  by (relation "measure length") (auto simp: utf8_step_pos)

declare utf8_lossy.simps [simp del]

lemma utf8_lossy_Nil [simp]: "utf8_lossy [] = []"
  by (simp add: utf8_lossy.simps)

function from_utf8 :: "byte list \<Rightarrow> ustring option" where
  \<comment> \<open>\<open>str::from_utf8\<close> and \<open>String::from_utf8\<close>\<close>
  "from_utf8 bs =
     (if bs = [] then Some []
      else (case fst (utf8_step bs) of
              None \<Rightarrow> None
            | Some c \<Rightarrow> map_option ((#) c) (from_utf8 (drop (snd (utf8_step bs)) bs))))"
  by pat_completeness auto
termination
  by (relation "measure length") (auto simp: utf8_step_pos)

declare from_utf8.simps [simp del]

lemma from_utf8_Nil [simp]: "from_utf8 [] = Some []"
  by (simp add: from_utf8.simps)

lemma from_utf8_imp_lossy: "from_utf8 bs = Some s \<Longrightarrow> utf8_lossy bs = s"
proof (induction bs arbitrary: s rule: from_utf8.induct)
  case (1 bs)
  show ?case
  proof (cases "bs = []")
    case True
    with 1 show ?thesis by simp
  next
    case False
    with "1.prems" obtain c t where "fst (utf8_step bs) = Some c"
      "from_utf8 (drop (snd (utf8_step bs)) bs) = Some t" "s = c # t"
      by (subst (asm) from_utf8.simps) (auto split: option.splits)
    with False "1.IH" show ?thesis
      by (subst utf8_lossy.simps) simp
  qed
qed

text \<open>The step reads back what the encoder wrote, whatever follows.\<close>

lemma unat_of_nat_byte: "n < 256 \<Longrightarrow> unat (of_nat n :: byte) = n"
  by (simp add: unat_of_nat)

lemmas byte_nat_simps = word_le_nat_alt word_less_nat_alt unat_of_nat_byte

lemma of_nat_byte_eq: "n < 256 \<Longrightarrow> m < 256 \<Longrightarrow> (of_nat n :: byte) = of_nat m \<longleftrightarrow> n = m"
  by (metis unat_of_nat_byte)

lemma mod_base: "k < m \<Longrightarrow> (m * q + k) mod m = (k::nat)"
  by simp

lemma cont_mod: "k < 64 \<Longrightarrow> (128 + k) mod 64 = (k::nat)"
  using mod_base [of k 64 2] by simp

lemma is_cont_of_nat: "k < 64 \<Longrightarrow> is_cont (of_nat (0x80 + k))"
  by (simp add: is_cont_def byte_nat_simps del: of_nat_add)

lemma cont_bits_of_nat: "k < 64 \<Longrightarrow> cont_bits (of_nat (0x80 + k)) = k"
  by (simp add: cont_bits_def byte_nat_simps cont_mod del: of_nat_add)

lemmas cont_simps = is_cont_of_nat cont_bits_of_nat

lemma utf8_step_char_1: "c < 0x80 \<Longrightarrow> utf8_step (utf8_char c @ rest) = (Some c, 1)"
  by (simp add: utf8_char_def byte_nat_simps)

lemma utf8_step_char_2:
  assumes "0x80 \<le> c" "c < 0x800"
  shows "utf8_step (utf8_char c @ rest) = (Some c, 2)"
proof -
  define h where "h = c div 64"
  have h: "2 \<le> h" "h < 32" and split: "h * 64 + c mod 64 = c" and m: "c mod 64 < 64"
    using assms by (auto simp: h_def)
  have mod: "(192 + h) mod 32 = h" using h mod_base [of h 32 6] by simp
  have u: "utf8_char c = [of_nat (0xC0 + h), of_nat (0x80 + c mod 64)]"
    using assms by (simp add: utf8_char_def h_def)
  show ?thesis
    unfolding u using h m split mod cont_simps [OF m]
    by (simp add: byte_nat_simps del: of_nat_add)
qed

lemma second3_ok_of_nat:
  assumes "e < 16" "k < 64" "e = 0 \<Longrightarrow> 32 \<le> k" "e = 13 \<Longrightarrow> k < 32"
  shows "second3_ok (of_nat (0xE0 + e)) (of_nat (0x80 + k))"
  using assms is_cont_of_nat [of k]
    of_nat_byte_eq [of "0xE0 + e" "0xE0"] of_nat_byte_eq [of "0xE0 + e" "0xED"]
  by (auto simp: second3_ok_def byte_nat_simps simp del: of_nat_add)

lemma second4_ok_of_nat:
  assumes "e < 5" "k < 64" "e = 0 \<Longrightarrow> 16 \<le> k" "e = 4 \<Longrightarrow> k < 16"
  shows "second4_ok (of_nat (0xF0 + e)) (of_nat (0x80 + k))"
  using assms is_cont_of_nat [of k]
    of_nat_byte_eq [of "0xF0 + e" "0xF0"] of_nat_byte_eq [of "0xF0 + e" "0xF4"]
  by (auto simp: second4_ok_def byte_nat_simps simp del: of_nat_add)

lemma utf8_step_char_3:
  assumes "0x800 \<le> c" "c < 0x10000" "scalar c"
  shows "utf8_step (utf8_char c @ rest) = (Some c, 3)"
proof -
  define e k l where "e = c div 4096" and "k = c div 64 mod 64" and "l = c mod 64"
  have e: "e < 16" and k: "k < 64" and l: "l < 64"
    using assms by (auto simp: e_def k_def l_def)
  have "c div 4096 = c div 64 div 64" by (simp add: div_mult2_eq [symmetric])
  then have "c div 64 = e * 64 + k" by (simp add: e_def k_def)
  moreover have "c = c div 64 * 64 + l" by (simp add: l_def)
  ultimately have split: "e * 4096 + k * 64 + l = c" by simp
  have e0: "e = 0 \<Longrightarrow> 32 \<le> k" and e13: "e = 13 \<Longrightarrow> k < 32"
    using assms split k l by (auto simp: scalar_def)
  have mod: "(224 + e) mod 16 = e" using e mod_base [of e 16 14] by simp
  have u: "utf8_char c = [of_nat (0xE0 + e), of_nat (0x80 + k), of_nat (0x80 + l)]"
    using assms by (simp add: utf8_char_def e_def k_def l_def)
  show ?thesis
    unfolding u using e k l split mod cont_simps [OF k] cont_simps [OF l]
      second3_ok_of_nat [OF e k e0 e13]
    by (simp add: byte_nat_simps del: of_nat_add)
qed

lemma utf8_step_char_4:
  assumes "0x10000 \<le> c" "c < 0x110000"
  shows "utf8_step (utf8_char c @ rest) = (Some c, 4)"
proof -
  define e k l m where "e = c div 262144" and "k = c div 4096 mod 64" and "l = c div 64 mod 64"
    and "m = c mod 64"
  have e: "e < 5" and k: "k < 64" and l: "l < 64" and m: "m < 64"
    using assms by (auto simp: e_def k_def l_def m_def)
  have "c div 262144 = c div 4096 div 64" "c div 4096 = c div 64 div 64"
    by (simp_all add: div_mult2_eq [symmetric])
  then have "c div 4096 = e * 64 + k" "c div 64 = (c div 4096) * 64 + l"
    by (simp_all add: e_def k_def l_def)
  moreover have "c = c div 64 * 64 + m" by (simp add: m_def)
  ultimately have split: "e * 262144 + k * 4096 + l * 64 + m = c" by simp
  have e0: "e = 0 \<Longrightarrow> 16 \<le> k" and e4: "e = 4 \<Longrightarrow> k < 16"
    using assms split l m by auto
  have mod: "(240 + e) mod 8 = e" using e mod_base [of e 8 30] by simp
  have u: "utf8_char c = [of_nat (0xF0 + e), of_nat (0x80 + k), of_nat (0x80 + l), of_nat (0x80 + m)]"
    using assms by (simp add: utf8_char_def e_def k_def l_def m_def)
  show ?thesis
    unfolding u using e k l m split mod cont_simps [OF k] cont_simps [OF l] cont_simps [OF m]
      second4_ok_of_nat [OF e k e0 e4]
    by (simp add: byte_nat_simps del: of_nat_add)
qed

lemma utf8_step_char:
  assumes "scalar c"
  shows "utf8_step (utf8_char c @ rest) = (Some c, length (utf8_char c))"
proof -
  have lt: "c < 0x110000" using assms by (auto simp: scalar_def)
  consider "c < 0x80" | "0x80 \<le> c" "c < 0x800" | "0x800 \<le> c" "c < 0x10000" | "0x10000 \<le> c"
    by linarith
  then show ?thesis
  proof cases
    case 1
    then have "length (utf8_char c) = 1" by (simp add: utf8_char_def)
    with 1 show ?thesis by (simp only: utf8_step_char_1)
  next
    case 2
    then have "length (utf8_char c) = 2" by (simp add: utf8_char_def)
    with 2 show ?thesis by (simp only: utf8_step_char_2)
  next
    case 3
    then have "length (utf8_char c) = 3" by (simp add: utf8_char_def)
    with 3 assms show ?thesis by (simp only: utf8_step_char_3)
  next
    case 4
    then have "length (utf8_char c) = 4" by (simp add: utf8_char_def)
    with 4 lt show ?thesis by (simp only: utf8_step_char_4)
  qed
qed

lemma utf8_char_nonempty [simp]: "utf8_char c \<noteq> []"
  by (simp add: utf8_char_def)

lemma utf8_bytes_simps [simp]:
  "utf8_bytes [] = []" "utf8_bytes (c # s) = utf8_char c @ utf8_bytes s"
  "utf8_bytes (s @ t) = utf8_bytes s @ utf8_bytes t"
  by (simp_all add: utf8_bytes_def)

text \<open>Strict decoding inverts encoding, hence so does lossy decoding.\<close>

lemma from_utf8_bytes: "list_all scalar s \<Longrightarrow> from_utf8 (utf8_bytes s) = Some s"
proof (induction s)
  case Nil
  then show ?case by simp
next
  case (Cons c s)
  then show ?case
    by (subst from_utf8.simps) (simp add: utf8_step_char)
qed

lemma utf8_lossy_bytes: "list_all scalar s \<Longrightarrow> utf8_lossy (utf8_bytes s) = s"
  by (rule from_utf8_imp_lossy) (rule from_utf8_bytes)

lemma utf8_bytes_inj:
  "list_all scalar s \<Longrightarrow> list_all scalar t \<Longrightarrow> utf8_bytes s = utf8_bytes t \<Longrightarrow> s = t"
  using from_utf8_bytes by (metis option.inject)

subsection \<open>Decimal numbers\<close>

fun dec_str :: "nat \<Rightarrow> ustring" where
  \<comment> \<open>\<open>to_string\<close> on an unsigned integer\<close>
  "dec_str n = (if n < 10 then [48 + n] else dec_str (n div 10) @ [48 + n mod 10])"

declare dec_str.simps [simp del]

definition int_str :: "int \<Rightarrow> ustring" where
  "int_str i = (if i < 0 then 45 # dec_str (nat (- i)) else dec_str (nat i))"

definition is_digit :: "uchar \<Rightarrow> bool" where
  "is_digit c \<longleftrightarrow> 48 \<le> c \<and> c \<le> 57"

primrec digits_value :: "nat \<Rightarrow> ustring \<Rightarrow> nat option" where
  "digits_value acc [] = Some acc"
| "digits_value acc (c # s) = (if is_digit c then digits_value (acc * 10 + (c - 48)) s else None)"

definition parse_digits :: "ustring \<Rightarrow> nat option" where
  "parse_digits s = (if s = [] then None else digits_value 0 s)"

definition parse_uint :: "nat \<Rightarrow> ustring \<Rightarrow> nat option" where
  \<comment> \<open>\<open>str::parse\<close> at an unsigned type whose largest value is \<open>m\<close>: a leading plus is accepted,
     an overflow is an error\<close>
  "parse_uint m s =
     (case parse_digits (case s of c # t \<Rightarrow> if c = 43 then t else s | [] \<Rightarrow> []) of
        None \<Rightarrow> None
      | Some n \<Rightarrow> if n \<le> m then Some n else None)"

definition parse_int :: "int \<Rightarrow> int \<Rightarrow> ustring \<Rightarrow> int option" where
  \<comment> \<open>\<open>str::parse\<close> at a signed type with the range \<open>lo..hi\<close>\<close>
  "parse_int lo hi s =
     (case s of
        [] \<Rightarrow> None
      | c # t \<Rightarrow>
          (let v = (if c = 45 then map_option (\<lambda>n. - int n) (parse_digits t)
                    else if c = 43 then map_option int (parse_digits t)
                    else map_option int (parse_digits s))
           in case v of None \<Rightarrow> None | Some i \<Rightarrow> if lo \<le> i \<and> i \<le> hi then Some i else None))"

definition parse_u64 :: "ustring \<Rightarrow> u64 option" where "parse_u64 = parse_uint U64_MAX"
definition parse_u32 :: "ustring \<Rightarrow> u32 option" where "parse_u32 = parse_uint U32_MAX"
definition parse_i64 :: "ustring \<Rightarrow> int option" where
  "parse_i64 = parse_int (- 9223372036854775808) 9223372036854775807"
definition parse_i8 :: "ustring \<Rightarrow> int option" where "parse_i8 = parse_int (- 128) 127"

lemma dec_str_nonempty [simp]: "dec_str n \<noteq> []"
  by (subst dec_str.simps) simp

lemma dec_str_digits: "c \<in> set (dec_str n) \<Longrightarrow> is_digit c"
proof (induction n rule: dec_str.induct)
  case (1 n)
  then show ?case
    by (cases "n < 10") (auto simp: dec_str.simps [of n] is_digit_def)
qed

lemma digits_value_append:
  "digits_value a (s @ t) = (case digits_value a s of None \<Rightarrow> None | Some b \<Rightarrow> digits_value b t)"
  by (induction s arbitrary: a) auto

lemma digits_value_dec_str: "digits_value 0 (dec_str n) = Some n"
proof (induction n rule: dec_str.induct)
  case (1 n)
  show ?case
  proof (cases "n < 10")
    case True
    then show ?thesis by (simp add: dec_str.simps [of n] is_digit_def)
  next
    case False
    with 1 have "digits_value 0 (dec_str (n div 10)) = Some (n div 10)" by simp
    moreover have "n mod 10 < 10" by simp
    ultimately show ?thesis using False
      by (simp add: dec_str.simps [of n] digits_value_append is_digit_def)
  qed
qed

lemma dec_str_inj: "dec_str m = dec_str n \<longleftrightarrow> m = n"
  using digits_value_dec_str by (metis option.inject)

lemma parse_digits_dec_str: "parse_digits (dec_str n) = Some n"
  by (simp add: parse_digits_def digits_value_dec_str)

lemma dec_str_hd_digit: "dec_str n = c # t \<Longrightarrow> is_digit c"
  using dec_str_digits [of c n] by simp

lemma parse_uint_dec_str: "n \<le> m \<Longrightarrow> parse_uint m (dec_str n) = Some n"
proof -
  assume "n \<le> m"
  obtain c t where ct: "dec_str n = c # t" by (cases "dec_str n") auto
  then have "is_digit c" by (rule dec_str_hd_digit)
  moreover have "parse_digits (c # t) = Some n"
    using parse_digits_dec_str [of n] ct by simp
  ultimately show ?thesis using \<open>n \<le> m\<close> ct
    by (auto simp: parse_uint_def is_digit_def)
qed

lemma parse_u64_dec_str: "n \<le> U64_MAX \<Longrightarrow> parse_u64 (dec_str n) = Some n"
  by (simp add: parse_u64_def parse_uint_dec_str)

lemma parse_u32_dec_str: "n \<le> U32_MAX \<Longrightarrow> parse_u32 (dec_str n) = Some n"
  by (simp add: parse_u32_def parse_uint_dec_str)

lemma parse_int_int_str: "lo \<le> i \<Longrightarrow> i \<le> hi \<Longrightarrow> parse_int lo hi (int_str i) = Some i"
proof -
  assume "lo \<le> i" "i \<le> hi"
  show ?thesis
  proof (cases "i < 0")
    case True
    with \<open>lo \<le> i\<close> \<open>i \<le> hi\<close> show ?thesis
      by (simp add: parse_int_def int_str_def parse_digits_dec_str)
  next
    case False
    obtain c t where ct: "dec_str (nat i) = c # t" by (cases "dec_str (nat i)") auto
    then have "is_digit c" by (rule dec_str_hd_digit)
    moreover have "parse_digits (c # t) = Some (nat i)"
      using parse_digits_dec_str [of "nat i"] ct by simp
    ultimately show ?thesis using False \<open>lo \<le> i\<close> \<open>i \<le> hi\<close> ct
      by (auto simp: parse_int_def int_str_def is_digit_def)
  qed
qed

lemma parse_i64_int_str:
  "- 9223372036854775808 \<le> i \<Longrightarrow> i \<le> 9223372036854775807 \<Longrightarrow> parse_i64 (int_str i) = Some i"
  by (simp add: parse_i64_def parse_int_int_str)

lemma parse_i8_int_str: "- 128 \<le> i \<Longrightarrow> i \<le> 127 \<Longrightarrow> parse_i8 (int_str i) = Some i"
  by (simp add: parse_i8_def parse_int_int_str)

subsection \<open>Line ends, splitting, joining\<close>

fun crlf_to_lf :: "ustring \<Rightarrow> ustring" where
  "crlf_to_lf [] = []"
| "crlf_to_lf [c] = [c]"
| "crlf_to_lf (c # d # s) =
     (if c = 13 \<and> d = 10 then 10 # crlf_to_lf s else c # crlf_to_lf (d # s))"

definition normalize_newlines :: "ustring \<Rightarrow> ustring" where
  \<comment> \<open>\<open>.replace("\\r\\n", "\\n").replace('\\r', "\\n")\<close>\<close>
  "normalize_newlines s = map (\<lambda>c. if c = 13 then 10 else c) (crlf_to_lf s)"

lemma normalize_newlines_no_cr: "13 \<notin> set (normalize_newlines s)"
  by (auto simp: normalize_newlines_def)

fun split_on :: "'a \<Rightarrow> 'a list \<Rightarrow> 'a list list" where
  \<comment> \<open>\<open>str::split\<close> and \<open>slice::split\<close> at a single element: always at least one piece\<close>
  "split_on c [] = [[]]"
| "split_on c (x # xs) =
     (if x = c then [] # split_on c xs
      else (case split_on c xs of [] \<Rightarrow> [[x]] | p # ps \<Rightarrow> (x # p) # ps))"

fun join_with :: "'a \<Rightarrow> 'a list list \<Rightarrow> 'a list" where
  \<comment> \<open>\<open>join\<close> with a one-element separator\<close>
  "join_with c [] = []"
| "join_with c [p] = p"
| "join_with c (p # q # ps) = p @ c # join_with c (q # ps)"

lemma split_on_nonempty [simp]: "split_on c xs \<noteq> []"
  by (induction xs) (auto split: list.splits)

lemma split_on_no_sep: "c \<notin> set p \<Longrightarrow> split_on c p = [p]"
  by (induction p) auto

lemma split_on_append_sep: "c \<notin> set p \<Longrightarrow> split_on c (p @ c # xs) = p # split_on c xs"
  by (induction p) auto

lemma split_on_join:
  "ps \<noteq> [] \<Longrightarrow> \<forall>p \<in> set ps. c \<notin> set p \<Longrightarrow> split_on c (join_with c ps) = ps"
  by (induction c ps rule: join_with.induct) (auto simp: split_on_no_sep split_on_append_sep)

lemma join_split_on: "join_with c (split_on c xs) = xs"
proof (induction xs)
  case Nil
  then show ?case by simp
next
  case (Cons x xs)
  obtain p ps where "split_on c xs = p # ps" by (cases "split_on c xs") auto
  with Cons show ?case by (cases ps) auto
qed

lemma set_join_with: "set (join_with c ps) \<subseteq> insert c (\<Union> (set ` set ps))"
  by (induction c ps rule: join_with.induct) auto

end
