(* ===== verification/Protocol.thy ===== *)
theory Protocol
  imports Rust_Text
begin

text \<open>
  The enumerations of the wire protocol (\<open>schema/nmux.fbs\<close>, as generated into
  \<open>nmux_generated.rs\<close>). FlatBuffers represents an enumeration by a newtype over its integer code, so
  a decoded value need not be one of the declared variants: each type has, besides the
  declared variants, a constructor for the codes outside the table, and \<open>..._known\<close> is
  \<open>variant_name().is_some()\<close>. Reading a code back inverts writing it.
\<close>

named_theorems enum_simps \<open>codes of the protocol enumerations\<close>

datatype split_axis = AxisNone | AxisHorizontal | AxisVertical | AxisCode int

fun split_axis_code :: "split_axis \<Rightarrow> int" where
  "split_axis_code AxisNone = 0"
| "split_axis_code AxisHorizontal = 1"
| "split_axis_code AxisVertical = 2"
| "split_axis_code (AxisCode n) = n"

definition split_axis_of_code :: "int \<Rightarrow> split_axis" where
  "split_axis_of_code n =
     (if n = 0 then AxisNone
      else if n = 1 then AxisHorizontal
      else if n = 2 then AxisVertical
      else AxisCode n)"

fun split_axis_known :: "split_axis \<Rightarrow> bool" where
  "split_axis_known (AxisCode _) = False"
| "split_axis_known _ = True"

lemma split_axis_of_code_code [enum_simps]: "split_axis_known x \<Longrightarrow> split_axis_of_code (split_axis_code x) = x"
  by (cases x) (simp_all add: split_axis_of_code_def)

lemma split_axis_code_of_code [enum_simps]: "split_axis_code (split_axis_of_code n) = n"
  by (simp add: split_axis_of_code_def)

lemma split_axis_code_range: "split_axis_known x \<Longrightarrow> 0 \<le> split_axis_code x \<and> split_axis_code x \<le> 2"
  by (cases x) simp_all

datatype surface_kind = SurfaceMain | SurfaceAlternate | SurfaceCode int

fun surface_kind_code :: "surface_kind \<Rightarrow> int" where
  "surface_kind_code SurfaceMain = 0"
| "surface_kind_code SurfaceAlternate = 1"
| "surface_kind_code (SurfaceCode n) = n"

definition surface_kind_of_code :: "int \<Rightarrow> surface_kind" where
  "surface_kind_of_code n =
     (if n = 0 then SurfaceMain
      else if n = 1 then SurfaceAlternate
      else SurfaceCode n)"

fun surface_kind_known :: "surface_kind \<Rightarrow> bool" where
  "surface_kind_known (SurfaceCode _) = False"
| "surface_kind_known _ = True"

lemma surface_kind_of_code_code [enum_simps]: "surface_kind_known x \<Longrightarrow> surface_kind_of_code (surface_kind_code x) = x"
  by (cases x) (simp_all add: surface_kind_of_code_def)

lemma surface_kind_code_of_code [enum_simps]: "surface_kind_code (surface_kind_of_code n) = n"
  by (simp add: surface_kind_of_code_def)

lemma surface_kind_code_range: "surface_kind_known x \<Longrightarrow> 0 \<le> surface_kind_code x \<and> surface_kind_code x \<le> 1"
  by (cases x) simp_all

datatype cursor_shape = ShapeBlock | ShapeBeam | ShapeUnderline | ShapeCode int

fun cursor_shape_code :: "cursor_shape \<Rightarrow> int" where
  "cursor_shape_code ShapeBlock = 0"
| "cursor_shape_code ShapeBeam = 1"
| "cursor_shape_code ShapeUnderline = 2"
| "cursor_shape_code (ShapeCode n) = n"

definition cursor_shape_of_code :: "int \<Rightarrow> cursor_shape" where
  "cursor_shape_of_code n =
     (if n = 0 then ShapeBlock
      else if n = 1 then ShapeBeam
      else if n = 2 then ShapeUnderline
      else ShapeCode n)"

fun cursor_shape_known :: "cursor_shape \<Rightarrow> bool" where
  "cursor_shape_known (ShapeCode _) = False"
| "cursor_shape_known _ = True"

lemma cursor_shape_of_code_code [enum_simps]: "cursor_shape_known x \<Longrightarrow> cursor_shape_of_code (cursor_shape_code x) = x"
  by (cases x) (simp_all add: cursor_shape_of_code_def)

lemma cursor_shape_code_of_code [enum_simps]: "cursor_shape_code (cursor_shape_of_code n) = n"
  by (simp add: cursor_shape_of_code_def)

lemma cursor_shape_code_range: "cursor_shape_known x \<Longrightarrow> 0 \<le> cursor_shape_code x \<and> cursor_shape_code x \<le> 2"
  by (cases x) simp_all

datatype mouse_tracking_mode = TrackNone | TrackX10 | TrackNormal | TrackButton | TrackAny | TrackCode int

fun mouse_tracking_mode_code :: "mouse_tracking_mode \<Rightarrow> int" where
  "mouse_tracking_mode_code TrackNone = 0"
| "mouse_tracking_mode_code TrackX10 = 1"
| "mouse_tracking_mode_code TrackNormal = 2"
| "mouse_tracking_mode_code TrackButton = 3"
| "mouse_tracking_mode_code TrackAny = 4"
| "mouse_tracking_mode_code (TrackCode n) = n"

definition mouse_tracking_mode_of_code :: "int \<Rightarrow> mouse_tracking_mode" where
  "mouse_tracking_mode_of_code n =
     (if n = 0 then TrackNone
      else if n = 1 then TrackX10
      else if n = 2 then TrackNormal
      else if n = 3 then TrackButton
      else if n = 4 then TrackAny
      else TrackCode n)"

fun mouse_tracking_mode_known :: "mouse_tracking_mode \<Rightarrow> bool" where
  "mouse_tracking_mode_known (TrackCode _) = False"
| "mouse_tracking_mode_known _ = True"

lemma mouse_tracking_mode_of_code_code [enum_simps]: "mouse_tracking_mode_known x \<Longrightarrow> mouse_tracking_mode_of_code (mouse_tracking_mode_code x) = x"
  by (cases x) (simp_all add: mouse_tracking_mode_of_code_def)

lemma mouse_tracking_mode_code_of_code [enum_simps]: "mouse_tracking_mode_code (mouse_tracking_mode_of_code n) = n"
  by (simp add: mouse_tracking_mode_of_code_def)

lemma mouse_tracking_mode_code_range: "mouse_tracking_mode_known x \<Longrightarrow> 0 \<le> mouse_tracking_mode_code x \<and> mouse_tracking_mode_code x \<le> 4"
  by (cases x) simp_all

datatype mouse_format = FormatX10 | FormatUtf8 | FormatSgr | FormatUrxvt | FormatSgrPixels | FormatCode int

fun mouse_format_code :: "mouse_format \<Rightarrow> int" where
  "mouse_format_code FormatX10 = 0"
| "mouse_format_code FormatUtf8 = 1"
| "mouse_format_code FormatSgr = 2"
| "mouse_format_code FormatUrxvt = 3"
| "mouse_format_code FormatSgrPixels = 4"
| "mouse_format_code (FormatCode n) = n"

definition mouse_format_of_code :: "int \<Rightarrow> mouse_format" where
  "mouse_format_of_code n =
     (if n = 0 then FormatX10
      else if n = 1 then FormatUtf8
      else if n = 2 then FormatSgr
      else if n = 3 then FormatUrxvt
      else if n = 4 then FormatSgrPixels
      else FormatCode n)"

fun mouse_format_known :: "mouse_format \<Rightarrow> bool" where
  "mouse_format_known (FormatCode _) = False"
| "mouse_format_known _ = True"

lemma mouse_format_of_code_code [enum_simps]: "mouse_format_known x \<Longrightarrow> mouse_format_of_code (mouse_format_code x) = x"
  by (cases x) (simp_all add: mouse_format_of_code_def)

lemma mouse_format_code_of_code [enum_simps]: "mouse_format_code (mouse_format_of_code n) = n"
  by (simp add: mouse_format_of_code_def)

lemma mouse_format_code_range: "mouse_format_known x \<Longrightarrow> 0 \<le> mouse_format_code x \<and> mouse_format_code x \<le> 4"
  by (cases x) simp_all

datatype resize_reason = ReasonFrontendViewport | ReasonUserCommand | ReasonAttach | ReasonPolicy | ReasonCode int

fun resize_reason_code :: "resize_reason \<Rightarrow> int" where
  "resize_reason_code ReasonFrontendViewport = 0"
| "resize_reason_code ReasonUserCommand = 1"
| "resize_reason_code ReasonAttach = 2"
| "resize_reason_code ReasonPolicy = 3"
| "resize_reason_code (ReasonCode n) = n"

definition resize_reason_of_code :: "int \<Rightarrow> resize_reason" where
  "resize_reason_of_code n =
     (if n = 0 then ReasonFrontendViewport
      else if n = 1 then ReasonUserCommand
      else if n = 2 then ReasonAttach
      else if n = 3 then ReasonPolicy
      else ReasonCode n)"

fun resize_reason_known :: "resize_reason \<Rightarrow> bool" where
  "resize_reason_known (ReasonCode _) = False"
| "resize_reason_known _ = True"

lemma resize_reason_of_code_code [enum_simps]: "resize_reason_known x \<Longrightarrow> resize_reason_of_code (resize_reason_code x) = x"
  by (cases x) (simp_all add: resize_reason_of_code_def)

lemma resize_reason_code_of_code [enum_simps]: "resize_reason_code (resize_reason_of_code n) = n"
  by (simp add: resize_reason_of_code_def)

lemma resize_reason_code_range: "resize_reason_known x \<Longrightarrow> 0 \<le> resize_reason_code x \<and> resize_reason_code x \<le> 3"
  by (cases x) simp_all

datatype resize_policy = ResizeFixed | ResizeLeader | ResizeActiveClient | ResizeManual | ResizeCode int

fun resize_policy_code :: "resize_policy \<Rightarrow> int" where
  "resize_policy_code ResizeFixed = 0"
| "resize_policy_code ResizeLeader = 1"
| "resize_policy_code ResizeActiveClient = 2"
| "resize_policy_code ResizeManual = 3"
| "resize_policy_code (ResizeCode n) = n"

definition resize_policy_of_code :: "int \<Rightarrow> resize_policy" where
  "resize_policy_of_code n =
     (if n = 0 then ResizeFixed
      else if n = 1 then ResizeLeader
      else if n = 2 then ResizeActiveClient
      else if n = 3 then ResizeManual
      else ResizeCode n)"

fun resize_policy_known :: "resize_policy \<Rightarrow> bool" where
  "resize_policy_known (ResizeCode _) = False"
| "resize_policy_known _ = True"

lemma resize_policy_of_code_code [enum_simps]: "resize_policy_known x \<Longrightarrow> resize_policy_of_code (resize_policy_code x) = x"
  by (cases x) (simp_all add: resize_policy_of_code_def)

lemma resize_policy_code_of_code [enum_simps]: "resize_policy_code (resize_policy_of_code n) = n"
  by (simp add: resize_policy_of_code_def)

lemma resize_policy_code_range: "resize_policy_known x \<Longrightarrow> 0 \<le> resize_policy_code x \<and> resize_policy_code x \<le> 3"
  by (cases x) simp_all

datatype patch_kind = PatchReplaceRows | PatchCursorOnly | PatchModeOnly | PatchFullRefreshRequired | PatchColorOnly | PatchCode int

fun patch_kind_code :: "patch_kind \<Rightarrow> int" where
  "patch_kind_code PatchReplaceRows = 0"
| "patch_kind_code PatchCursorOnly = 1"
| "patch_kind_code PatchModeOnly = 2"
| "patch_kind_code PatchFullRefreshRequired = 3"
| "patch_kind_code PatchColorOnly = 4"
| "patch_kind_code (PatchCode n) = n"

definition patch_kind_of_code :: "int \<Rightarrow> patch_kind" where
  "patch_kind_of_code n =
     (if n = 0 then PatchReplaceRows
      else if n = 1 then PatchCursorOnly
      else if n = 2 then PatchModeOnly
      else if n = 3 then PatchFullRefreshRequired
      else if n = 4 then PatchColorOnly
      else PatchCode n)"

fun patch_kind_known :: "patch_kind \<Rightarrow> bool" where
  "patch_kind_known (PatchCode _) = False"
| "patch_kind_known _ = True"

lemma patch_kind_of_code_code [enum_simps]: "patch_kind_known x \<Longrightarrow> patch_kind_of_code (patch_kind_code x) = x"
  by (cases x) (simp_all add: patch_kind_of_code_def)

lemma patch_kind_code_of_code [enum_simps]: "patch_kind_code (patch_kind_of_code n) = n"
  by (simp add: patch_kind_of_code_def)

lemma patch_kind_code_range: "patch_kind_known x \<Longrightarrow> 0 \<le> patch_kind_code x \<and> patch_kind_code x \<le> 4"
  by (cases x) simp_all

datatype attach_surface_state = AttachCurrent | AttachSnapshot | AttachPatch | AttachCode int

fun attach_surface_state_code :: "attach_surface_state \<Rightarrow> int" where
  "attach_surface_state_code AttachCurrent = 0"
| "attach_surface_state_code AttachSnapshot = 1"
| "attach_surface_state_code AttachPatch = 2"
| "attach_surface_state_code (AttachCode n) = n"

definition attach_surface_state_of_code :: "int \<Rightarrow> attach_surface_state" where
  "attach_surface_state_of_code n =
     (if n = 0 then AttachCurrent
      else if n = 1 then AttachSnapshot
      else if n = 2 then AttachPatch
      else AttachCode n)"

fun attach_surface_state_known :: "attach_surface_state \<Rightarrow> bool" where
  "attach_surface_state_known (AttachCode _) = False"
| "attach_surface_state_known _ = True"

lemma attach_surface_state_of_code_code [enum_simps]: "attach_surface_state_known x \<Longrightarrow> attach_surface_state_of_code (attach_surface_state_code x) = x"
  by (cases x) (simp_all add: attach_surface_state_of_code_def)

lemma attach_surface_state_code_of_code [enum_simps]: "attach_surface_state_code (attach_surface_state_of_code n) = n"
  by (simp add: attach_surface_state_of_code_def)

lemma attach_surface_state_code_range: "attach_surface_state_known x \<Longrightarrow> 0 \<le> attach_surface_state_code x \<and> attach_surface_state_code x \<le> 2"
  by (cases x) simp_all

datatype row_semantic_prompt = RowNone | RowPrompt | RowContinuation | RowCode int

fun row_semantic_prompt_code :: "row_semantic_prompt \<Rightarrow> int" where
  "row_semantic_prompt_code RowNone = 0"
| "row_semantic_prompt_code RowPrompt = 1"
| "row_semantic_prompt_code RowContinuation = 2"
| "row_semantic_prompt_code (RowCode n) = n"

definition row_semantic_prompt_of_code :: "int \<Rightarrow> row_semantic_prompt" where
  "row_semantic_prompt_of_code n =
     (if n = 0 then RowNone
      else if n = 1 then RowPrompt
      else if n = 2 then RowContinuation
      else RowCode n)"

fun row_semantic_prompt_known :: "row_semantic_prompt \<Rightarrow> bool" where
  "row_semantic_prompt_known (RowCode _) = False"
| "row_semantic_prompt_known _ = True"

lemma row_semantic_prompt_of_code_code [enum_simps]: "row_semantic_prompt_known x \<Longrightarrow> row_semantic_prompt_of_code (row_semantic_prompt_code x) = x"
  by (cases x) (simp_all add: row_semantic_prompt_of_code_def)

lemma row_semantic_prompt_code_of_code [enum_simps]: "row_semantic_prompt_code (row_semantic_prompt_of_code n) = n"
  by (simp add: row_semantic_prompt_of_code_def)

lemma row_semantic_prompt_code_range: "row_semantic_prompt_known x \<Longrightarrow> 0 \<le> row_semantic_prompt_code x \<and> row_semantic_prompt_code x \<le> 2"
  by (cases x) simp_all

datatype cell_semantic_content = CellOutput | CellInput | CellPrompt | CellCode int

fun cell_semantic_content_code :: "cell_semantic_content \<Rightarrow> int" where
  "cell_semantic_content_code CellOutput = 0"
| "cell_semantic_content_code CellInput = 1"
| "cell_semantic_content_code CellPrompt = 2"
| "cell_semantic_content_code (CellCode n) = n"

definition cell_semantic_content_of_code :: "int \<Rightarrow> cell_semantic_content" where
  "cell_semantic_content_of_code n =
     (if n = 0 then CellOutput
      else if n = 1 then CellInput
      else if n = 2 then CellPrompt
      else CellCode n)"

fun cell_semantic_content_known :: "cell_semantic_content \<Rightarrow> bool" where
  "cell_semantic_content_known (CellCode _) = False"
| "cell_semantic_content_known _ = True"

lemma cell_semantic_content_of_code_code [enum_simps]: "cell_semantic_content_known x \<Longrightarrow> cell_semantic_content_of_code (cell_semantic_content_code x) = x"
  by (cases x) (simp_all add: cell_semantic_content_of_code_def)

lemma cell_semantic_content_code_of_code [enum_simps]: "cell_semantic_content_code (cell_semantic_content_of_code n) = n"
  by (simp add: cell_semantic_content_of_code_def)

lemma cell_semantic_content_code_range: "cell_semantic_content_known x \<Longrightarrow> 0 \<le> cell_semantic_content_code x \<and> cell_semantic_content_code x \<le> 2"
  by (cases x) simp_all


datatype input_kind = InKey | InMouse | InPaste | InRawBytes | InFocus | InCode int

fun input_kind_code :: "input_kind \<Rightarrow> int" where
  "input_kind_code InKey = 0"
| "input_kind_code InMouse = 1"
| "input_kind_code InPaste = 2"
| "input_kind_code InRawBytes = 3"
| "input_kind_code InFocus = 4"
| "input_kind_code (InCode n) = n"

definition input_kind_of_code :: "int \<Rightarrow> input_kind" where
  "input_kind_of_code n =
     (if n = 0 then InKey
      else if n = 1 then InMouse
      else if n = 2 then InPaste
      else if n = 3 then InRawBytes
      else if n = 4 then InFocus
      else InCode n)"

fun input_kind_known :: "input_kind \<Rightarrow> bool" where
  "input_kind_known (InCode _) = False"
| "input_kind_known _ = True"

lemma input_kind_of_code_code [enum_simps]: "input_kind_known x \<Longrightarrow> input_kind_of_code (input_kind_code x) = x"
  by (cases x) (simp_all add: input_kind_of_code_def)

lemma input_kind_code_of_code [enum_simps]: "input_kind_code (input_kind_of_code n) = n"
  by (simp add: input_kind_of_code_def)

datatype wire_mouse_button = WireButtonNone | WireButtonLeft | WireButtonMiddle | WireButtonRight | WireWheelUp | WireWheelDown | WireButtonCode int

fun wire_mouse_button_code :: "wire_mouse_button \<Rightarrow> int" where
  "wire_mouse_button_code WireButtonNone = 0"
| "wire_mouse_button_code WireButtonLeft = 1"
| "wire_mouse_button_code WireButtonMiddle = 2"
| "wire_mouse_button_code WireButtonRight = 3"
| "wire_mouse_button_code WireWheelUp = 4"
| "wire_mouse_button_code WireWheelDown = 5"
| "wire_mouse_button_code (WireButtonCode n) = n"

definition wire_mouse_button_of_code :: "int \<Rightarrow> wire_mouse_button" where
  "wire_mouse_button_of_code n =
     (if n = 0 then WireButtonNone
      else if n = 1 then WireButtonLeft
      else if n = 2 then WireButtonMiddle
      else if n = 3 then WireButtonRight
      else if n = 4 then WireWheelUp
      else if n = 5 then WireWheelDown
      else WireButtonCode n)"

fun wire_mouse_button_known :: "wire_mouse_button \<Rightarrow> bool" where
  "wire_mouse_button_known (WireButtonCode _) = False"
| "wire_mouse_button_known _ = True"

lemma wire_mouse_button_of_code_code [enum_simps]: "wire_mouse_button_known x \<Longrightarrow> wire_mouse_button_of_code (wire_mouse_button_code x) = x"
  by (cases x) (simp_all add: wire_mouse_button_of_code_def)

lemma wire_mouse_button_code_of_code [enum_simps]: "wire_mouse_button_code (wire_mouse_button_of_code n) = n"
  by (simp add: wire_mouse_button_of_code_def)

datatype wire_mouse_action = WirePress | WireRelease | WireMotion | WireActionCode int

fun wire_mouse_action_code :: "wire_mouse_action \<Rightarrow> int" where
  "wire_mouse_action_code WirePress = 0"
| "wire_mouse_action_code WireRelease = 1"
| "wire_mouse_action_code WireMotion = 2"
| "wire_mouse_action_code (WireActionCode n) = n"

definition wire_mouse_action_of_code :: "int \<Rightarrow> wire_mouse_action" where
  "wire_mouse_action_of_code n =
     (if n = 0 then WirePress
      else if n = 1 then WireRelease
      else if n = 2 then WireMotion
      else WireActionCode n)"

fun wire_mouse_action_known :: "wire_mouse_action \<Rightarrow> bool" where
  "wire_mouse_action_known (WireActionCode _) = False"
| "wire_mouse_action_known _ = True"

lemma wire_mouse_action_of_code_code [enum_simps]: "wire_mouse_action_known x \<Longrightarrow> wire_mouse_action_of_code (wire_mouse_action_code x) = x"
  by (cases x) (simp_all add: wire_mouse_action_of_code_def)

lemma wire_mouse_action_code_of_code [enum_simps]: "wire_mouse_action_code (wire_mouse_action_of_code n) = n"
  by (simp add: wire_mouse_action_of_code_def)

datatype pane_kind = KindPty | KindAdapter | KindCode int

fun pane_kind_code :: "pane_kind \<Rightarrow> int" where
  "pane_kind_code KindPty = 0"
| "pane_kind_code KindAdapter = 1"
| "pane_kind_code (KindCode n) = n"

definition pane_kind_of_code :: "int \<Rightarrow> pane_kind" where
  "pane_kind_of_code n =
     (if n = 0 then KindPty
      else if n = 1 then KindAdapter
      else KindCode n)"

fun pane_kind_known :: "pane_kind \<Rightarrow> bool" where
  "pane_kind_known (KindCode _) = False"
| "pane_kind_known _ = True"

lemma pane_kind_of_code_code [enum_simps]: "pane_kind_known x \<Longrightarrow> pane_kind_of_code (pane_kind_code x) = x"
  by (cases x) (simp_all add: pane_kind_of_code_def)

lemma pane_kind_code_of_code [enum_simps]: "pane_kind_code (pane_kind_of_code n) = n"
  by (simp add: pane_kind_of_code_def)

datatype error_code = ErrUnknown | ErrProtocolVersionUnsupported | ErrSessionNotFound | ErrPaneNotFound | ErrPermissionDenied | ErrStaleVersion | ErrOther int

fun error_code_code :: "error_code \<Rightarrow> int" where
  "error_code_code ErrUnknown = 0"
| "error_code_code ErrProtocolVersionUnsupported = 1"
| "error_code_code ErrSessionNotFound = 2"
| "error_code_code ErrPaneNotFound = 3"
| "error_code_code ErrPermissionDenied = 4"
| "error_code_code ErrStaleVersion = 5"
| "error_code_code (ErrOther n) = n"

definition error_code_of_code :: "int \<Rightarrow> error_code" where
  "error_code_of_code n =
     (if n = 0 then ErrUnknown
      else if n = 1 then ErrProtocolVersionUnsupported
      else if n = 2 then ErrSessionNotFound
      else if n = 3 then ErrPaneNotFound
      else if n = 4 then ErrPermissionDenied
      else if n = 5 then ErrStaleVersion
      else ErrOther n)"

fun error_code_known :: "error_code \<Rightarrow> bool" where
  "error_code_known (ErrOther _) = False"
| "error_code_known _ = True"

lemma error_code_of_code_code [enum_simps]: "error_code_known x \<Longrightarrow> error_code_of_code (error_code_code x) = x"
  by (cases x) (simp_all add: error_code_of_code_def)

lemma error_code_code_of_code [enum_simps]: "error_code_code (error_code_of_code n) = n"
  by (simp add: error_code_of_code_def)

datatype wire_attach_mode = WireReadOnly | WireReadWrite | WireAttachCode int

fun wire_attach_mode_code :: "wire_attach_mode \<Rightarrow> int" where
  "wire_attach_mode_code WireReadOnly = 0"
| "wire_attach_mode_code WireReadWrite = 1"
| "wire_attach_mode_code (WireAttachCode n) = n"

definition wire_attach_mode_of_code :: "int \<Rightarrow> wire_attach_mode" where
  "wire_attach_mode_of_code n =
     (if n = 0 then WireReadOnly
      else if n = 1 then WireReadWrite
      else WireAttachCode n)"

fun wire_attach_mode_known :: "wire_attach_mode \<Rightarrow> bool" where
  "wire_attach_mode_known (WireAttachCode _) = False"
| "wire_attach_mode_known _ = True"

lemma wire_attach_mode_of_code_code [enum_simps]: "wire_attach_mode_known x \<Longrightarrow> wire_attach_mode_of_code (wire_attach_mode_code x) = x"
  by (cases x) (simp_all add: wire_attach_mode_of_code_def)

lemma wire_attach_mode_code_of_code [enum_simps]: "wire_attach_mode_code (wire_attach_mode_of_code n) = n"
  by (simp add: wire_attach_mode_of_code_def)

datatype presence_kind = PresenceJoined | PresenceUpdated | PresenceLeft | PresenceHealthProbe | PresenceHeartbeat | PresenceCode int

fun presence_kind_code :: "presence_kind \<Rightarrow> int" where
  "presence_kind_code PresenceJoined = 0"
| "presence_kind_code PresenceUpdated = 1"
| "presence_kind_code PresenceLeft = 2"
| "presence_kind_code PresenceHealthProbe = 3"
| "presence_kind_code PresenceHeartbeat = 4"
| "presence_kind_code (PresenceCode n) = n"

definition presence_kind_of_code :: "int \<Rightarrow> presence_kind" where
  "presence_kind_of_code n =
     (if n = 0 then PresenceJoined
      else if n = 1 then PresenceUpdated
      else if n = 2 then PresenceLeft
      else if n = 3 then PresenceHealthProbe
      else if n = 4 then PresenceHeartbeat
      else PresenceCode n)"

fun presence_kind_known :: "presence_kind \<Rightarrow> bool" where
  "presence_kind_known (PresenceCode _) = False"
| "presence_kind_known _ = True"

lemma presence_kind_of_code_code [enum_simps]: "presence_kind_known x \<Longrightarrow> presence_kind_of_code (presence_kind_code x) = x"
  by (cases x) (simp_all add: presence_kind_of_code_def)

lemma presence_kind_code_of_code [enum_simps]: "presence_kind_code (presence_kind_of_code n) = n"
  by (simp add: presence_kind_of_code_def)

datatype control_command_kind = CommandPaneSplit | CommandTabNew | CommandTabClose | CommandSessionKill | CommandTabSwitch | CommandSessionNew | CommandSessionList | CommandCode int

fun control_command_kind_code :: "control_command_kind \<Rightarrow> int" where
  "control_command_kind_code CommandPaneSplit = 0"
| "control_command_kind_code CommandTabNew = 1"
| "control_command_kind_code CommandTabClose = 2"
| "control_command_kind_code CommandSessionKill = 3"
| "control_command_kind_code CommandTabSwitch = 4"
| "control_command_kind_code CommandSessionNew = 5"
| "control_command_kind_code CommandSessionList = 6"
| "control_command_kind_code (CommandCode n) = n"

definition control_command_kind_of_code :: "int \<Rightarrow> control_command_kind" where
  "control_command_kind_of_code n =
     (if n = 0 then CommandPaneSplit
      else if n = 1 then CommandTabNew
      else if n = 2 then CommandTabClose
      else if n = 3 then CommandSessionKill
      else if n = 4 then CommandTabSwitch
      else if n = 5 then CommandSessionNew
      else if n = 6 then CommandSessionList
      else CommandCode n)"

fun control_command_kind_known :: "control_command_kind \<Rightarrow> bool" where
  "control_command_kind_known (CommandCode _) = False"
| "control_command_kind_known _ = True"

lemma control_command_kind_of_code_code [enum_simps]:
  "control_command_kind_known x \<Longrightarrow> control_command_kind_of_code (control_command_kind_code x) = x"
  by (cases x) (simp_all add: control_command_kind_of_code_def)

lemma control_command_kind_code_of_code [enum_simps]: "control_command_kind_code (control_command_kind_of_code n) = n"
  by (simp add: control_command_kind_of_code_def)

end
