(* ===== verification/Terminal_Types.thy ===== *)
theory Terminal_Types
  imports Protocol
begin

text \<open>
  The data of \<open>crates/nmux-core/src/terminal.rs\<close>: what a pane hands to its terminal engine
  (\<open>TerminalInput\<close>), what the engine answers (\<open>TerminalUpdate\<close>), cell runs, styles, colours,
  modes, and the plain rows an engine without structured cells produces. The trait
  \<open>TerminalEngine\<close> is the record of its methods; \<open>PaneTerminalEngines\<close> is the table of the
  engines, one per pane, created at first use.
\<close>

subsection \<open>Data\<close>

record terminal_cursor =
  tc_row :: u32
  tc_col :: u32
  tc_visible :: bool
  tc_shape :: cursor_shape
  tc_blinking :: bool

record terminal_modes =
  tm_bracketed_paste :: bool
  tm_mouse_tracking :: bool
  tm_focus_reporting :: bool
  tm_application_keypad :: bool
  tm_application_cursor :: bool
  tm_origin :: bool
  tm_wraparound :: bool
  tm_mouse_tracking_mode :: mouse_tracking_mode
  tm_mouse_format :: mouse_format

definition terminal_modes_default :: terminal_modes where
  "terminal_modes_default =
     \<lparr>tm_bracketed_paste = False, tm_mouse_tracking = False, tm_focus_reporting = False,
      tm_application_keypad = False, tm_application_cursor = False, tm_origin = False,
      tm_wraparound = True, tm_mouse_tracking_mode = TrackNone, tm_mouse_format = FormatX10\<rparr>"

record terminal_colors =
  tco_default_fg :: u32
  tco_default_bg :: u32
  tco_cursor :: u32
  tco_cursor_set :: bool
  tco_palette :: "u32 list"

definition terminal_colors_default :: terminal_colors where
  "terminal_colors_default =
     \<lparr>tco_default_fg = 0, tco_default_bg = 0, tco_cursor = 0, tco_cursor_set = False, tco_palette = []\<rparr>"

record pane_style =
  ps_fg :: u32
  ps_bg :: u32
  ps_underline :: u32
  ps_flags :: u32

definition pane_style_default :: pane_style where
  "pane_style_default = \<lparr>ps_fg = 0, ps_bg = 0, ps_underline = 0, ps_flags = 0\<rparr>"

record cell_run =
  cr_text :: ustring
  cr_cell_widths :: "byte list"
  cr_style_id :: u32
  cr_flags :: u32
  cr_hyperlink_id :: u32
  cr_semantic_content :: cell_semantic_content

definition cell_run_plain :: "ustring \<Rightarrow> cell_run" where
  "cell_run_plain text =
     \<lparr>cr_text = text, cr_cell_widths = replicate (length text) 1, cr_style_id = 0, cr_flags = 0,
      cr_hyperlink_id = 0, cr_semantic_content = CellOutput\<rparr>"

record terminal_input =
  ti_pane_id :: ustring
  ti_cols :: u32
  ti_rows :: u32
  ti_surface :: surface_kind
  ti_cursor :: terminal_cursor
  ti_modes :: terminal_modes
  ti_title :: ustring
  ti_working_directory :: ustring
  ti_colors :: terminal_colors
  ti_styles :: "pane_style list"
  ti_surface_lines :: "ustring list"
  ti_surface_row_runs :: "cell_run list list"
  ti_surface_semantic_prompts :: "row_semantic_prompt list"
  ti_surface_dirty_rows :: "bool list"
  ti_surface_kitty :: "bool list"
  ti_scrollback_lines :: "ustring list"
  ti_scrollback_row_runs :: "cell_run list list"
  ti_scrollback_semantic_prompts :: "row_semantic_prompt list"
  ti_scrollback_dirty_rows :: "bool list"
  ti_scrollback_kitty :: "bool list"

record terminal_update =
  tu_patch_kind :: patch_kind
  tu_surface :: surface_kind
  tu_preserve_scrollback :: bool
  tu_cursor :: terminal_cursor
  tu_modes :: terminal_modes
  tu_title :: ustring
  tu_working_directory :: ustring
  tu_colors :: terminal_colors
  tu_styles :: "pane_style list"
  tu_surface_lines :: "ustring list"
  tu_surface_row_runs :: "cell_run list list"
  tu_surface_semantic_prompts :: "row_semantic_prompt list"
  tu_surface_dirty_rows :: "bool list"
  tu_surface_kitty :: "bool list"
  tu_scrollback_lines :: "ustring list"
  tu_scrollback_row_runs :: "cell_run list list"
  tu_scrollback_semantic_prompts :: "row_semantic_prompt list"
  tu_scrollback_dirty_rows :: "bool list"
  tu_scrollback_kitty :: "bool list"

subsection \<open>Plain rows\<close>

definition plain_row_runs :: "ustring list \<Rightarrow> cell_run list list" where
  "plain_row_runs lines = map (\<lambda>line. [cell_run_plain line]) lines"

definition plain_row_semantic_prompts :: "ustring list \<Rightarrow> row_semantic_prompt list" where
  "plain_row_semantic_prompts lines = replicate (length lines) RowNone"

definition plain_row_dirty_flags :: "ustring list \<Rightarrow> bool list" where
  "plain_row_dirty_flags lines = replicate (length lines) False"

definition plain_row_kitty_placeholders :: "ustring list \<Rightarrow> bool list" where
  "plain_row_kitty_placeholders lines = replicate (length lines) False"

definition cell_runs_text :: "cell_run list \<Rightarrow> ustring" where
  "cell_runs_text runs = concat (map cr_text runs)"

lemma cr_text_plain [simp]: "cr_text (cell_run_plain t) = t"
  by (simp add: cell_run_plain_def)

lemma cr_style_id_plain [simp]: "cr_style_id (cell_run_plain t) = 0"
  by (simp add: cell_run_plain_def)

lemma cr_semantic_content_plain [simp]: "cr_semantic_content (cell_run_plain t) = CellOutput"
  by (simp add: cell_run_plain_def)

lemma cell_runs_text_simps [simp]:
  "cell_runs_text [] = []" "cell_runs_text (r # rs) = cr_text r @ cell_runs_text rs"
  by (simp_all add: cell_runs_text_def)

lemma length_plain [simp]:
  "length (plain_row_runs ls) = length ls"
  "length (plain_row_semantic_prompts ls) = length ls"
  "length (plain_row_dirty_flags ls) = length ls"
  "length (plain_row_kitty_placeholders ls) = length ls"
  by (simp_all add: plain_row_runs_def plain_row_semantic_prompts_def plain_row_dirty_flags_def
      plain_row_kitty_placeholders_def)

definition terminal_update_plain ::
  "patch_kind \<Rightarrow> surface_kind \<Rightarrow> terminal_cursor \<Rightarrow> ustring list \<Rightarrow> ustring list \<Rightarrow> terminal_update" where
  "terminal_update_plain kind surface cur surface_lines scrollback_lines =
     \<lparr>tu_patch_kind = kind, tu_surface = surface, tu_preserve_scrollback = False, tu_cursor = cur,
      tu_modes = terminal_modes_default, tu_title = [], tu_working_directory = [],
      tu_colors = terminal_colors_default, tu_styles = [pane_style_default],
      tu_surface_lines = surface_lines,
      tu_surface_row_runs = plain_row_runs surface_lines,
      tu_surface_semantic_prompts = plain_row_semantic_prompts surface_lines,
      tu_surface_dirty_rows = plain_row_dirty_flags surface_lines,
      tu_surface_kitty = plain_row_kitty_placeholders surface_lines,
      tu_scrollback_lines = scrollback_lines,
      tu_scrollback_row_runs = plain_row_runs scrollback_lines,
      tu_scrollback_semantic_prompts = plain_row_semantic_prompts scrollback_lines,
      tu_scrollback_dirty_rows = plain_row_dirty_flags scrollback_lines,
      tu_scrollback_kitty = plain_row_kitty_placeholders scrollback_lines\<rparr>"

subsection \<open>Engines\<close>

record key_terminal_input =
  ki_key_name :: ustring
  ki_modifiers :: u32
  ki_application_keypad :: bool
  ki_application_cursor :: bool

datatype mouse_action = MousePress | MouseRelease | MouseMotion

datatype mouse_button =
  ButtonNone | ButtonLeft | ButtonMiddle | ButtonRight | ButtonWheelUp | ButtonWheelDown

record mouse_terminal_input =
  mi_row :: u32
  mi_col :: u32
  mi_pixel_x :: "u32 option"
  mi_pixel_y :: "u32 option"
  mi_button :: mouse_button
  mi_action :: mouse_action
  mi_modifiers :: u32
  mi_mouse_format :: mouse_format
  mi_cols :: u32
  mi_rows :: u32

text \<open>
  A \<open>Box<dyn TerminalEngine>\<close>: the methods of the engine, over the state of the implementation.
  \<open>te_new\<close> is \<open>terminal_engine_for_kind\<close> at the kind of the table.
\<close>

record 'e terminal_engine =
  te_new :: 'e
  te_apply_output :: "'e \<Rightarrow> terminal_input \<Rightarrow> byte list \<Rightarrow> 'e \<times> terminal_update option"
  te_resize :: "'e \<Rightarrow> terminal_input \<Rightarrow> u32 \<Rightarrow> u32 \<Rightarrow> 'e \<times> terminal_update option"
  te_drain_pty_writes :: "'e \<Rightarrow> 'e \<times> byte list list"
  te_encode_key_input :: "'e \<Rightarrow> key_terminal_input \<Rightarrow> 'e \<times> byte list option"
  te_encode_mouse_input :: "'e \<Rightarrow> mouse_terminal_input \<Rightarrow> 'e \<times> byte list option"

type_synonym 'e pane_engines = "ustring \<rightharpoonup> 'e"

definition engines_new :: "'e pane_engines" where
  "engines_new = Map.empty"

definition engine_mut :: "'e terminal_engine \<Rightarrow> 'e pane_engines \<Rightarrow> ustring \<Rightarrow> 'e" where
  \<comment> \<open>the engine \<open>engine_mut\<close> returns; writing it back is \<open>engine_put\<close>, which also models the
     insertion that \<open>entry(..).or_insert_with(..)\<close> does for a new pane\<close>
  "engine_mut ops engines pane_id =
     (case engines pane_id of Some e \<Rightarrow> e | None \<Rightarrow> te_new ops)"

definition engine_put :: "'e pane_engines \<Rightarrow> ustring \<Rightarrow> 'e \<Rightarrow> 'e pane_engines" where
  "engine_put engines pane_id e = engines(pane_id \<mapsto> e)"

lemma engine_mut_put:
  "engine_mut ops (engine_put es p e) q = (if p = q then e else engine_mut ops es q)"
  by (simp add: engine_mut_def engine_put_def)

end
