(* ===== verification/Host_Spec.thy ===== *)
theory Host_Spec
  imports Rust_Text
begin

text \<open>
  Launch specifications of pane processes (\<open>HostSpec\<close>, \<open>CommandSpec\<close> of
  \<open>crates/nmux-core/src/host.rs\<close>) and the argument vectors the local, container and sandbox
  hosts spawn from them.
\<close>

datatype host_kind = LocalKind | ContainerKind ustring | SandboxKind ustring

record command_spec =
  cmd_program :: ustring
  cmd_args :: "ustring list"
  cmd_working_dir :: "ustring option"
  cmd_env :: "(ustring \<times> ustring) list"
  cmd_initial_size :: "(u32 \<times> u32) option"

record host_spec =
  hs_id :: ustring
  hs_kind :: host_kind
  hs_command :: command_spec

definition command_spec_new :: "ustring \<Rightarrow> command_spec" where
  "command_spec_new program =
     \<lparr>cmd_program = program, cmd_args = [], cmd_working_dir = None, cmd_env = [], cmd_initial_size = None\<rparr>"

definition host_spec_local :: "ustring \<Rightarrow> command_spec \<Rightarrow> host_spec" where
  "host_spec_local hid cmd = \<lparr>hs_id = hid, hs_kind = LocalKind, hs_command = cmd\<rparr>"

definition host_spec_sandbox :: "ustring \<Rightarrow> ustring \<Rightarrow> command_spec \<Rightarrow> host_spec" where
  "host_spec_sandbox hid profile cmd =
     \<lparr>hs_id = hid, hs_kind = SandboxKind profile, hs_command = cmd\<rparr>"

definition host_spec_container :: "ustring \<Rightarrow> ustring \<Rightarrow> command_spec \<Rightarrow> host_spec" where
  "host_spec_container hid img cmd =
     \<lparr>hs_id = hid, hs_kind = ContainerKind img, hs_command = cmd\<rparr>"

end
