(* ===== verification/Pane_Update.thy ===== *)
theory Pane_Update
  imports Terminal_Types Host_Spec
begin

text \<open>
  The state of a pane (\<open>Pane\<close> of \<open>crates/nmux-core/src/session.rs\<close>, without its children) and
  \<open>apply_terminal_update\<close>: how an engine's answer becomes the pane's new surface and
  scrollback, which version counters move, and what kind of patch describes the step.
  The lemmas say when versions change, that the parallel row vectors stay aligned and
  within the pane's height, and which patch kind each sort of change gets.
\<close>

subsection \<open>Data\<close>

record cursor =
  cu_row :: u32
  cu_col :: u32
  cu_visible :: bool
  cu_shape :: cursor_shape
  cu_blinking :: bool

record palette_diff =
  pd_start :: u32
  pd_colors :: "u32 list"

record pane_data =
  pn_id :: ustring
  pn_split_axis :: split_axis
  pn_host :: host_spec
  pn_surface_version :: u64
  pn_last_patch_kind :: patch_kind
  pn_last_row_update_indices :: "u32 list"
  pn_scrollback_version :: u64
  pn_cols :: u32
  pn_rows :: u32
  pn_resize_policy :: resize_policy
  pn_surface :: surface_kind
  pn_cursor :: cursor
  pn_modes :: terminal_modes
  pn_terminal_title :: ustring
  pn_terminal_working_directory :: ustring
  pn_colors :: terminal_colors
  pn_last_palette_diff :: "palette_diff option"
  pn_styles :: "pane_style list"
  pn_surface_lines :: "ustring list"
  pn_surface_row_runs :: "cell_run list list"
  pn_surface_semantic_prompts :: "row_semantic_prompt list"
  pn_surface_dirty_rows :: "bool list"
  pn_surface_kitty :: "bool list"
  pn_scrollback_lines :: "ustring list"
  pn_scrollback_row_runs :: "cell_run list list"
  pn_scrollback_semantic_prompts :: "row_semantic_prompt list"
  pn_scrollback_dirty_rows :: "bool list"
  pn_scrollback_kitty :: "bool list"

definition terminal_cursor_of_cursor :: "cursor \<Rightarrow> terminal_cursor" where
  "terminal_cursor_of_cursor c =
     \<lparr>tc_row = cu_row c, tc_col = cu_col c, tc_visible = cu_visible c, tc_shape = cu_shape c,
      tc_blinking = cu_blinking c\<rparr>"

definition cursor_of_terminal_cursor :: "terminal_cursor \<Rightarrow> cursor" where
  "cursor_of_terminal_cursor c =
     \<lparr>cu_row = tc_row c, cu_col = tc_col c, cu_visible = tc_visible c, cu_shape = tc_shape c,
      cu_blinking = tc_blinking c\<rparr>"

definition terminal_input_of_pane :: "pane_data \<Rightarrow> terminal_input" where
  \<comment> \<open>the \<open>TerminalInput\<close> both \<open>apply_pane_output_with_engine\<close> and
     \<open>commit_pane_resize_with_engine\<close> build\<close>
  "terminal_input_of_pane p =
     \<lparr>ti_pane_id = pn_id p, ti_cols = pn_cols p, ti_rows = pn_rows p, ti_surface = pn_surface p,
      ti_cursor = terminal_cursor_of_cursor (pn_cursor p), ti_modes = pn_modes p,
      ti_title = pn_terminal_title p, ti_working_directory = pn_terminal_working_directory p,
      ti_colors = pn_colors p, ti_styles = pn_styles p,
      ti_surface_lines = pn_surface_lines p, ti_surface_row_runs = pn_surface_row_runs p,
      ti_surface_semantic_prompts = pn_surface_semantic_prompts p,
      ti_surface_dirty_rows = pn_surface_dirty_rows p, ti_surface_kitty = pn_surface_kitty p,
      ti_scrollback_lines = pn_scrollback_lines p, ti_scrollback_row_runs = pn_scrollback_row_runs p,
      ti_scrollback_semantic_prompts = pn_scrollback_semantic_prompts p,
      ti_scrollback_dirty_rows = pn_scrollback_dirty_rows p, ti_scrollback_kitty = pn_scrollback_kitty p\<rparr>"

subsection \<open>Row vectors aligned with the lines\<close>

definition row_runs_for_lines :: "ustring list \<Rightarrow> cell_run list list \<Rightarrow> cell_run list list" where
  "row_runs_for_lines lines row_runs =
     (if length row_runs = length lines \<and> list_all2 (\<lambda>runs line. cell_runs_text runs = line) row_runs lines
      then row_runs else map (\<lambda>line. [cell_run_plain line]) lines)"

definition row_semantic_prompts_for_lines ::
  "ustring list \<Rightarrow> row_semantic_prompt list \<Rightarrow> row_semantic_prompt list" where
  "row_semantic_prompts_for_lines lines prompts =
     (if length prompts = length lines then prompts else plain_row_semantic_prompts lines)"

definition row_dirty_flags_for_lines :: "ustring list \<Rightarrow> bool list \<Rightarrow> bool list" where
  "row_dirty_flags_for_lines lines dirty =
     (if length dirty = length lines then dirty else plain_row_dirty_flags lines)"

definition row_kitty_placeholders_for_lines :: "ustring list \<Rightarrow> bool list \<Rightarrow> bool list" where
  "row_kitty_placeholders_for_lines lines kitty =
     (if length kitty = length lines then kitty else plain_row_kitty_placeholders lines)"

lemma length_row_runs_for_lines [simp]: "length (row_runs_for_lines ls rs) = length ls"
  by (simp add: row_runs_for_lines_def)

lemma length_row_vectors_for_lines [simp]:
  "length (row_semantic_prompts_for_lines ls ps) = length ls"
  "length (row_dirty_flags_for_lines ls ds) = length ls"
  "length (row_kitty_placeholders_for_lines ls ks) = length ls"
  by (simp_all add: row_semantic_prompts_for_lines_def row_dirty_flags_for_lines_def
      row_kitty_placeholders_for_lines_def)

lemma row_runs_for_lines_text: "map cell_runs_text (row_runs_for_lines ls rs) = ls"
  by (auto simp: row_runs_for_lines_def list_all2_conv_all_nth intro: nth_equalityI)

lemma row_runs_for_lines_id: "map cell_runs_text rs = ls \<Longrightarrow> row_runs_for_lines ls rs = rs"
  by (auto simp: row_runs_for_lines_def list_all2_conv_all_nth)

lemma row_vectors_for_lines_id:
  "length ps = length ls \<Longrightarrow> row_semantic_prompts_for_lines ls ps = ps"
  "length ds = length ls \<Longrightarrow> row_dirty_flags_for_lines ls ds = ds"
  "length ks = length ls \<Longrightarrow> row_kitty_placeholders_for_lines ls ks = ks"
  by (simp_all add: row_semantic_prompts_for_lines_def row_dirty_flags_for_lines_def
      row_kitty_placeholders_for_lines_def)

subsection \<open>What changed\<close>

definition make_palette_diff :: "u32 list \<Rightarrow> u32 list \<Rightarrow> palette_diff option" where
  \<comment> \<open>the function \<open>palette_diff\<close>\<close>
  "make_palette_diff old new =
     (if old = new then None
      else
        (let start = (case position (\<lambda>(a, b). a \<noteq> b) (zip old new) of
                        Some i \<Rightarrow> i | None \<Rightarrow> min (length old) (length new))
         in Some \<lparr>pd_start = start, pd_colors = drop start new\<rparr>))"

definition all_row_indices :: "nat \<Rightarrow> u32 list" where
  "all_row_indices len = [0..<len]"

definition surface_row_update_indices ::
  "pane_data \<Rightarrow> ustring list \<Rightarrow> cell_run list list \<Rightarrow> row_semantic_prompt list \<Rightarrow> bool list \<Rightarrow> bool list
     \<Rightarrow> bool \<Rightarrow> u32 list" where
  "surface_row_update_indices pane lines row_runs prompts dirty kitty force_all =
     (if force_all then all_row_indices (pn_rows pane)
      else if length (pn_surface_lines pane) \<noteq> length lines then all_row_indices (length lines)
      else filter
             (\<lambda>row. get (pn_surface_lines pane) row \<noteq> get lines row \<or>
                    get (pn_surface_row_runs pane) row \<noteq> get row_runs row \<or>
                    get (pn_surface_semantic_prompts pane) row \<noteq> get prompts row \<or>
                    get (pn_surface_dirty_rows pane) row \<noteq> get dirty row \<or>
                    get (pn_surface_kitty pane) row \<noteq> get kitty row)
             [0..<length lines])"

record terminal_patch_changes =
  ch_force_full_refresh :: bool
  ch_requested :: patch_kind
  ch_row_count :: bool
  ch_rows :: bool
  ch_row_runs :: bool
  ch_semantic_prompts :: bool
  ch_dirty_rows :: bool
  ch_kitty :: bool
  ch_surface_kind :: bool
  ch_styles :: bool
  ch_cursor :: bool
  ch_modes :: bool
  ch_title :: bool
  ch_working_directory :: bool
  ch_colors :: bool

definition rows_or_row_metadata_changed :: "terminal_patch_changes \<Rightarrow> bool" where
  "rows_or_row_metadata_changed c \<longleftrightarrow>
     ch_rows c \<or> ch_row_runs c \<or> ch_semantic_prompts c \<or> ch_dirty_rows c \<or> ch_kitty c"

definition terminal_patch_kind :: "terminal_patch_changes \<Rightarrow> patch_kind" where
  "terminal_patch_kind c =
     (if ch_force_full_refresh c \<or> ch_row_count c \<or> ch_surface_kind c \<or> ch_styles c \<or>
         (ch_colors c \<and> rows_or_row_metadata_changed c)
      then PatchFullRefreshRequired
      else if rows_or_row_metadata_changed c then PatchReplaceRows
      else if ch_colors c then PatchColorOnly
      else if ch_modes c then PatchModeOnly
      else if ch_cursor c \<or> ch_title c \<or> ch_working_directory c then PatchCursorOnly
      else ch_requested c)"

definition patch_changes :: "pane_data \<Rightarrow> terminal_update \<Rightarrow> bool \<Rightarrow> terminal_patch_changes" where
  \<comment> \<open>the comparisons of \<open>apply_terminal_update\<close>, all against the pane before the update\<close>
  "patch_changes pane update force =
     \<lparr>ch_force_full_refresh = force,
      ch_requested = tu_patch_kind update,
      ch_row_count = (force \<and> length (pn_surface_lines pane)
                              \<noteq> min (length (tu_surface_lines update)) (pn_rows pane)),
      ch_rows = (pn_surface_lines pane \<noteq> tu_surface_lines update),
      ch_row_runs = (pn_surface_row_runs pane
                     \<noteq> row_runs_for_lines (tu_surface_lines update) (tu_surface_row_runs update)),
      ch_semantic_prompts = (pn_surface_semantic_prompts pane
                     \<noteq> row_semantic_prompts_for_lines (tu_surface_lines update) (tu_surface_semantic_prompts update)),
      ch_dirty_rows = (pn_surface_dirty_rows pane
                     \<noteq> row_dirty_flags_for_lines (tu_surface_lines update) (tu_surface_dirty_rows update)),
      ch_kitty = (pn_surface_kitty pane
                     \<noteq> row_kitty_placeholders_for_lines (tu_surface_lines update) (tu_surface_kitty update)),
      ch_surface_kind = (pn_surface pane \<noteq> tu_surface update),
      ch_styles = (pn_styles pane \<noteq> tu_styles update),
      ch_cursor = (pn_cursor pane \<noteq> cursor_of_terminal_cursor (tu_cursor update)),
      ch_modes = (pn_modes pane \<noteq> tu_modes update),
      ch_title = (pn_terminal_title pane \<noteq> tu_title update),
      ch_working_directory = (pn_terminal_working_directory pane \<noteq> tu_working_directory update),
      ch_colors = (pn_colors pane \<noteq> tu_colors update)\<rparr>"

definition surface_changed :: "terminal_patch_changes \<Rightarrow> bool" where
  "surface_changed c \<longleftrightarrow>
     ch_force_full_refresh c \<or> ch_surface_kind c \<or> ch_styles c \<or> ch_rows c \<or> ch_row_runs c \<or>
     ch_semantic_prompts c \<or> ch_dirty_rows c \<or> ch_kitty c \<or> ch_cursor c \<or> ch_modes c \<or>
     ch_title c \<or> ch_working_directory c \<or> ch_colors c"

definition scrollback_changed :: "pane_data \<Rightarrow> terminal_update \<Rightarrow> bool" where
  "scrollback_changed pane update \<longleftrightarrow>
     \<not> tu_preserve_scrollback update \<and>
     (pn_scrollback_lines pane \<noteq> tu_scrollback_lines update \<or>
      pn_scrollback_row_runs pane
        \<noteq> row_runs_for_lines (tu_scrollback_lines update) (tu_scrollback_row_runs update) \<or>
      pn_scrollback_semantic_prompts pane
        \<noteq> row_semantic_prompts_for_lines (tu_scrollback_lines update) (tu_scrollback_semantic_prompts update) \<or>
      pn_scrollback_dirty_rows pane
        \<noteq> row_dirty_flags_for_lines (tu_scrollback_lines update) (tu_scrollback_dirty_rows update) \<or>
      pn_scrollback_kitty pane
        \<noteq> row_kitty_placeholders_for_lines (tu_scrollback_lines update) (tu_scrollback_kitty update))"

subsection \<open>Applying an update\<close>

definition update_scrollback :: "pane_data \<Rightarrow> terminal_update \<Rightarrow> pane_data" where
  "update_scrollback pane update =
     (if tu_preserve_scrollback update then pane
      else pane
        \<lparr>pn_scrollback_lines := tu_scrollback_lines update,
         pn_scrollback_row_runs :=
           row_runs_for_lines (tu_scrollback_lines update) (tu_scrollback_row_runs update),
         pn_scrollback_semantic_prompts :=
           row_semantic_prompts_for_lines (tu_scrollback_lines update) (tu_scrollback_semantic_prompts update),
         pn_scrollback_dirty_rows :=
           row_dirty_flags_for_lines (tu_scrollback_lines update) (tu_scrollback_dirty_rows update),
         pn_scrollback_kitty :=
           row_kitty_placeholders_for_lines (tu_scrollback_lines update) (tu_scrollback_kitty update)\<rparr>)"

definition update_surface :: "pane_data \<Rightarrow> terminal_update \<Rightarrow> pane_data" where
  \<comment> \<open>the assignments to the surface fields and the truncation to \<open>pane.rows\<close> after them\<close>
  "update_surface pane update =
     (let lines = tu_surface_lines update; max_rows = pn_rows pane in
      pane
        \<lparr>pn_surface := tu_surface update,
         pn_modes := tu_modes update,
         pn_terminal_title := tu_title update,
         pn_terminal_working_directory := tu_working_directory update,
         pn_colors := tu_colors update,
         pn_styles := tu_styles update,
         pn_surface_lines := take max_rows lines,
         pn_surface_row_runs := take max_rows (row_runs_for_lines lines (tu_surface_row_runs update)),
         pn_surface_semantic_prompts :=
           take max_rows (row_semantic_prompts_for_lines lines (tu_surface_semantic_prompts update)),
         pn_surface_dirty_rows :=
           take max_rows (row_dirty_flags_for_lines lines (tu_surface_dirty_rows update)),
         pn_surface_kitty :=
           take max_rows (row_kitty_placeholders_for_lines lines (tu_surface_kitty update)),
         pn_cursor := cursor_of_terminal_cursor (tu_cursor update)\<rparr>)"

definition update_row_indices :: "pane_data \<Rightarrow> terminal_update \<Rightarrow> bool \<Rightarrow> u32 list" where
  "update_row_indices pane update force =
     surface_row_update_indices pane (tu_surface_lines update)
       (row_runs_for_lines (tu_surface_lines update) (tu_surface_row_runs update))
       (row_semantic_prompts_for_lines (tu_surface_lines update) (tu_surface_semantic_prompts update))
       (row_dirty_flags_for_lines (tu_surface_lines update) (tu_surface_dirty_rows update))
       (row_kitty_placeholders_for_lines (tu_surface_lines update) (tu_surface_kitty update)) force"

definition apply_terminal_update :: "pane_data \<Rightarrow> terminal_update \<Rightarrow> bool \<Rightarrow> pane_data \<times> bool" where
  "apply_terminal_update pane update force =
     (let changes = patch_changes pane update force;
          diff = make_palette_diff (tco_palette (pn_colors pane)) (tco_palette (tu_colors update));
          indices = update_row_indices pane update force;
          sb_changed = scrollback_changed pane update;
          p1 = update_surface (update_scrollback pane update) update;
          p2 = (if sb_changed
                then p1\<lparr>pn_scrollback_version := sat_add_u64 (pn_scrollback_version p1) 1\<rparr> else p1);
          p3 = (if surface_changed changes then
                  (let kind = terminal_patch_kind changes in
                   p2\<lparr>pn_surface_version := sat_add_u64 (pn_surface_version p2) 1,
                      pn_last_patch_kind := kind,
                      pn_last_palette_diff := (if kind = PatchColorOnly then diff else None),
                      pn_last_row_update_indices :=
                        (if kind = PatchReplaceRows
                         then filter (\<lambda>row. row < pn_rows pane) indices else [])\<rparr>)
                else p2\<lparr>pn_last_palette_diff := None\<rparr>)
      in (p3, surface_changed changes \<or> sb_changed))"


subsection \<open>Invariants of a pane's rows\<close>

definition surface_rows_aligned :: "pane_data \<Rightarrow> bool" where
  \<comment> \<open>the five vectors of the surface run in parallel, and the runs spell the lines\<close>
  "surface_rows_aligned p \<longleftrightarrow>
     map cell_runs_text (pn_surface_row_runs p) = pn_surface_lines p \<and>
     length (pn_surface_semantic_prompts p) = length (pn_surface_lines p) \<and>
     length (pn_surface_dirty_rows p) = length (pn_surface_lines p) \<and>
     length (pn_surface_kitty p) = length (pn_surface_lines p)"

definition surface_rows_ok :: "pane_data \<Rightarrow> bool" where
  \<comment> \<open>and they fit the pane\<close>
  "surface_rows_ok p \<longleftrightarrow> surface_rows_aligned p \<and> length (pn_surface_lines p) \<le> pn_rows p"

definition scrollback_rows_ok :: "pane_data \<Rightarrow> bool" where
  "scrollback_rows_ok p \<longleftrightarrow>
     map cell_runs_text (pn_scrollback_row_runs p) = pn_scrollback_lines p \<and>
     length (pn_scrollback_semantic_prompts p) = length (pn_scrollback_lines p) \<and>
     length (pn_scrollback_dirty_rows p) = length (pn_scrollback_lines p) \<and>
     length (pn_scrollback_kitty p) = length (pn_scrollback_lines p)"

definition patch_meta_ok :: "pane_data \<Rightarrow> bool" where
  \<comment> \<open>a palette difference only with a colour patch; versions are \<open>u64\<close>\<close>
  "patch_meta_ok p \<longleftrightarrow>
     (pn_last_patch_kind p \<noteq> PatchColorOnly \<longrightarrow> pn_last_palette_diff p = None) \<and>
     pn_surface_version p \<le> U64_MAX \<and> pn_scrollback_version p \<le> U64_MAX"

definition pane_aligned :: "pane_data \<Rightarrow> bool" where
  \<comment> \<open>holds of every pane at all times\<close>
  "pane_aligned p \<longleftrightarrow> surface_rows_aligned p \<and> scrollback_rows_ok p \<and> patch_meta_ok p"

definition pane_bounded :: "pane_data \<Rightarrow> bool" where
  \<comment> \<open>holds from the first update of a pane on, until its height is halved by a split\<close>
  "pane_bounded p \<longleftrightarrow>
     length (pn_surface_lines p) \<le> pn_rows p \<and>
     (pn_last_patch_kind p = PatchReplaceRows \<longrightarrow> (\<forall>i \<in> set (pn_last_row_update_indices p). i < pn_rows p))"

definition pane_ok :: "pane_data \<Rightarrow> bool" where
  "pane_ok p \<longleftrightarrow> pane_aligned p \<and> pane_bounded p"

lemma pane_ok_rows: "pane_ok p \<Longrightarrow> surface_rows_ok p"
  by (simp add: pane_ok_def pane_aligned_def pane_bounded_def surface_rows_ok_def)

lemma surface_rows_aligned_length:
  "surface_rows_aligned p \<Longrightarrow> length (pn_surface_row_runs p) = length (pn_surface_lines p)"
  by (metis surface_rows_aligned_def length_map)

lemma surface_rows_ok_lengths:
  "surface_rows_ok p \<Longrightarrow> length (pn_surface_row_runs p) = length (pn_surface_lines p)"
  by (simp add: surface_rows_ok_def surface_rows_aligned_length)

subsection \<open>The fields an update leaves alone, and the fields it sets\<close>

lemmas apply_terminal_update_unfold =
  apply_terminal_update_def update_surface_def update_scrollback_def Let_def

lemma apply_terminal_update_frame [frame_simps]:
  "pn_id (fst (apply_terminal_update p u f)) = pn_id p"
  "pn_split_axis (fst (apply_terminal_update p u f)) = pn_split_axis p"
  "pn_host (fst (apply_terminal_update p u f)) = pn_host p"
  "pn_cols (fst (apply_terminal_update p u f)) = pn_cols p"
  "pn_rows (fst (apply_terminal_update p u f)) = pn_rows p"
  "pn_resize_policy (fst (apply_terminal_update p u f)) = pn_resize_policy p"
  by (simp_all add: apply_terminal_update_unfold)

lemma apply_terminal_update_surface:
  "pn_surface (fst (apply_terminal_update p u f)) = tu_surface u"
  "pn_cursor (fst (apply_terminal_update p u f)) = cursor_of_terminal_cursor (tu_cursor u)"
  "pn_modes (fst (apply_terminal_update p u f)) = tu_modes u"
  "pn_terminal_title (fst (apply_terminal_update p u f)) = tu_title u"
  "pn_terminal_working_directory (fst (apply_terminal_update p u f)) = tu_working_directory u"
  "pn_colors (fst (apply_terminal_update p u f)) = tu_colors u"
  "pn_styles (fst (apply_terminal_update p u f)) = tu_styles u"
  by (simp_all add: apply_terminal_update_unfold)

lemma apply_terminal_update_rows:
  "pn_surface_lines (fst (apply_terminal_update p u f)) = take (pn_rows p) (tu_surface_lines u)"
  "pn_surface_row_runs (fst (apply_terminal_update p u f)) =
     take (pn_rows p) (row_runs_for_lines (tu_surface_lines u) (tu_surface_row_runs u))"
  "pn_surface_semantic_prompts (fst (apply_terminal_update p u f)) =
     take (pn_rows p) (row_semantic_prompts_for_lines (tu_surface_lines u) (tu_surface_semantic_prompts u))"
  "pn_surface_dirty_rows (fst (apply_terminal_update p u f)) =
     take (pn_rows p) (row_dirty_flags_for_lines (tu_surface_lines u) (tu_surface_dirty_rows u))"
  "pn_surface_kitty (fst (apply_terminal_update p u f)) =
     take (pn_rows p) (row_kitty_placeholders_for_lines (tu_surface_lines u) (tu_surface_kitty u))"
  by (simp_all add: apply_terminal_update_unfold)

lemma apply_terminal_update_version:
  "pn_surface_version (fst (apply_terminal_update p u f)) =
     (if surface_changed (patch_changes p u f) then sat_add_u64 (pn_surface_version p) 1
      else pn_surface_version p)"
  "pn_scrollback_version (fst (apply_terminal_update p u f)) =
     (if scrollback_changed p u then sat_add_u64 (pn_scrollback_version p) 1
      else pn_scrollback_version p)"
  by (simp_all add: apply_terminal_update_unfold)

lemma apply_terminal_update_patch:
  "pn_last_patch_kind (fst (apply_terminal_update p u f)) =
     (if surface_changed (patch_changes p u f) then terminal_patch_kind (patch_changes p u f)
      else pn_last_patch_kind p)"
  "pn_last_row_update_indices (fst (apply_terminal_update p u f)) =
     (if surface_changed (patch_changes p u f)
      then (if terminal_patch_kind (patch_changes p u f) = PatchReplaceRows
            then filter (\<lambda>row. row < pn_rows p) (update_row_indices p u f) else [])
      else pn_last_row_update_indices p)"
  "pn_last_palette_diff (fst (apply_terminal_update p u f)) =
     (if surface_changed (patch_changes p u f) \<and> terminal_patch_kind (patch_changes p u f) = PatchColorOnly
      then make_palette_diff (tco_palette (pn_colors p)) (tco_palette (tu_colors u)) else None)"
  by (simp_all add: apply_terminal_update_unfold)

lemma apply_terminal_update_scrollback:
  "pn_scrollback_lines (fst (apply_terminal_update p u f)) =
     (if tu_preserve_scrollback u then pn_scrollback_lines p else tu_scrollback_lines u)"
  "pn_scrollback_row_runs (fst (apply_terminal_update p u f)) =
     (if tu_preserve_scrollback u then pn_scrollback_row_runs p
      else row_runs_for_lines (tu_scrollback_lines u) (tu_scrollback_row_runs u))"
  "pn_scrollback_semantic_prompts (fst (apply_terminal_update p u f)) =
     (if tu_preserve_scrollback u then pn_scrollback_semantic_prompts p
      else row_semantic_prompts_for_lines (tu_scrollback_lines u) (tu_scrollback_semantic_prompts u))"
  "pn_scrollback_dirty_rows (fst (apply_terminal_update p u f)) =
     (if tu_preserve_scrollback u then pn_scrollback_dirty_rows p
      else row_dirty_flags_for_lines (tu_scrollback_lines u) (tu_scrollback_dirty_rows u))"
  "pn_scrollback_kitty (fst (apply_terminal_update p u f)) =
     (if tu_preserve_scrollback u then pn_scrollback_kitty p
      else row_kitty_placeholders_for_lines (tu_scrollback_lines u) (tu_scrollback_kitty u))"
  by (simp_all add: apply_terminal_update_unfold)

lemma apply_terminal_update_result:
  "snd (apply_terminal_update p u f) \<longleftrightarrow> surface_changed (patch_changes p u f) \<or> scrollback_changed p u"
  by (simp add: apply_terminal_update_def Let_def)

lemmas apply_terminal_update_fields =
  apply_terminal_update_frame apply_terminal_update_surface apply_terminal_update_rows
  apply_terminal_update_version apply_terminal_update_patch apply_terminal_update_scrollback

subsection \<open>Preservation of the invariants\<close>

lemma apply_terminal_update_surface_rows_ok:
  "surface_rows_ok (fst (apply_terminal_update p u f))"
  by (auto simp: surface_rows_ok_def surface_rows_aligned_def apply_terminal_update_rows
      apply_terminal_update_frame take_map [symmetric] row_runs_for_lines_text)

lemma apply_terminal_update_scrollback_rows_ok:
  "scrollback_rows_ok p \<Longrightarrow> scrollback_rows_ok (fst (apply_terminal_update p u f))"
  by (auto simp: scrollback_rows_ok_def apply_terminal_update_scrollback row_runs_for_lines_text)

lemma apply_terminal_update_patch_meta_ok:
  "patch_meta_ok p \<Longrightarrow> patch_meta_ok (fst (apply_terminal_update p u f))"
  by (auto simp: patch_meta_ok_def apply_terminal_update_patch apply_terminal_update_version)

lemma apply_terminal_update_aligned [inv_intros]:
  "pane_aligned p \<Longrightarrow> pane_aligned (fst (apply_terminal_update p u f))"
  using apply_terminal_update_surface_rows_ok [of p u f]
  by (simp add: pane_aligned_def surface_rows_ok_def
      apply_terminal_update_scrollback_rows_ok apply_terminal_update_patch_meta_ok)

lemma apply_terminal_update_bounded:
  assumes "f \<or> pane_bounded p"
  shows "pane_bounded (fst (apply_terminal_update p u f))"
  using assms apply_terminal_update_surface_rows_ok [of p u f]
  by (auto simp: pane_bounded_def surface_rows_ok_def apply_terminal_update_patch
      apply_terminal_update_frame surface_changed_def patch_changes_def terminal_patch_kind_def)

lemma apply_terminal_update_pane_ok [inv_intros]:
  "pane_ok p \<Longrightarrow> pane_ok (fst (apply_terminal_update p u f))"
  by (simp add: pane_ok_def apply_terminal_update_aligned apply_terminal_update_bounded)

subsection \<open>What the version counter means\<close>

definition same_surface :: "pane_data \<Rightarrow> pane_data \<Rightarrow> bool" where
  "same_surface p q \<longleftrightarrow>
     pn_surface p = pn_surface q \<and> pn_cursor p = pn_cursor q \<and> pn_modes p = pn_modes q \<and>
     pn_terminal_title p = pn_terminal_title q \<and>
     pn_terminal_working_directory p = pn_terminal_working_directory q \<and>
     pn_colors p = pn_colors q \<and> pn_styles p = pn_styles q \<and>
     pn_surface_lines p = pn_surface_lines q \<and> pn_surface_row_runs p = pn_surface_row_runs q \<and>
     pn_surface_semantic_prompts p = pn_surface_semantic_prompts q \<and>
     pn_surface_dirty_rows p = pn_surface_dirty_rows q \<and> pn_surface_kitty p = pn_surface_kitty q"

lemma same_surface_refl [simp]: "same_surface p p"
  by (simp add: same_surface_def)

lemma patch_changes_fields:
  "ch_force_full_refresh (patch_changes p u f) = f"
  "ch_surface_kind (patch_changes p u f) = (pn_surface p \<noteq> tu_surface u)"
  "ch_styles (patch_changes p u f) = (pn_styles p \<noteq> tu_styles u)"
  "ch_cursor (patch_changes p u f) = (pn_cursor p \<noteq> cursor_of_terminal_cursor (tu_cursor u))"
  "ch_modes (patch_changes p u f) = (pn_modes p \<noteq> tu_modes u)"
  "ch_title (patch_changes p u f) = (pn_terminal_title p \<noteq> tu_title u)"
  "ch_working_directory (patch_changes p u f) = (pn_terminal_working_directory p \<noteq> tu_working_directory u)"
  "ch_colors (patch_changes p u f) = (pn_colors p \<noteq> tu_colors u)"
  "ch_row_count (patch_changes p u f) \<Longrightarrow> f"
  by (simp_all add: patch_changes_def)

definition rows_kept :: "pane_data \<Rightarrow> terminal_update \<Rightarrow> bool" where
  "rows_kept p u \<longleftrightarrow>
     pn_surface_lines p = tu_surface_lines u \<and>
     pn_surface_row_runs p = row_runs_for_lines (tu_surface_lines u) (tu_surface_row_runs u) \<and>
     pn_surface_semantic_prompts p =
       row_semantic_prompts_for_lines (tu_surface_lines u) (tu_surface_semantic_prompts u) \<and>
     pn_surface_dirty_rows p = row_dirty_flags_for_lines (tu_surface_lines u) (tu_surface_dirty_rows u) \<and>
     pn_surface_kitty p = row_kitty_placeholders_for_lines (tu_surface_lines u) (tu_surface_kitty u)"

lemma rows_changed_iff: "rows_or_row_metadata_changed (patch_changes p u f) \<longleftrightarrow> \<not> rows_kept p u"
  by (auto simp: rows_or_row_metadata_changed_def patch_changes_def rows_kept_def)

lemma rows_kept_same:
  assumes "surface_rows_ok p" and "rows_kept p u"
  shows "pn_surface_lines (fst (apply_terminal_update p u f)) = pn_surface_lines p"
    and "pn_surface_row_runs (fst (apply_terminal_update p u f)) = pn_surface_row_runs p"
    and "pn_surface_semantic_prompts (fst (apply_terminal_update p u f)) = pn_surface_semantic_prompts p"
    and "pn_surface_dirty_rows (fst (apply_terminal_update p u f)) = pn_surface_dirty_rows p"
    and "pn_surface_kitty (fst (apply_terminal_update p u f)) = pn_surface_kitty p"
  using assms surface_rows_ok_lengths [OF assms(1)]
  by (simp_all add: rows_kept_def surface_rows_ok_def surface_rows_aligned_def apply_terminal_update_rows)

lemma surface_changed_iff:
  "surface_changed c \<longleftrightarrow> ch_force_full_refresh c \<or> ch_surface_kind c \<or> ch_styles c \<or>
     rows_or_row_metadata_changed c \<or> ch_cursor c \<or> ch_modes c \<or> ch_title c \<or>
     ch_working_directory c \<or> ch_colors c"
  by (auto simp: surface_changed_def rows_or_row_metadata_changed_def)

lemma surface_unchanged_same:
  assumes "surface_rows_ok p" and "\<not> surface_changed (patch_changes p u f)"
  shows "same_surface (fst (apply_terminal_update p u f)) p"
proof -
  have "rows_kept p u"
    using assms(2) by (auto simp: surface_changed_iff rows_changed_iff)
  note rows_kept_same [OF assms(1) this, of f]
  with assms(2) show ?thesis
    by (auto simp: same_surface_def apply_terminal_update_surface surface_changed_iff patch_changes_fields)
qed

lemma version_kept_surface_same:
  assumes "pane_ok p" and "pn_surface_version p < U64_MAX"
    and "pn_surface_version (fst (apply_terminal_update p u f)) = pn_surface_version p"
  shows "same_surface (fst (apply_terminal_update p u f)) p"
  using assms sat_add_u64_1_neq [OF assms(2)]
  by (intro surface_unchanged_same pane_ok_rows) (auto simp: apply_terminal_update_version split: if_splits)

lemma unreported_update_changes_nothing:
  assumes "pane_ok p" and "\<not> snd (apply_terminal_update p u f)"
  shows "fst (apply_terminal_update p u f) = p\<lparr>pn_last_palette_diff := None\<rparr>"
proof -
  have no: "\<not> surface_changed (patch_changes p u f)" "\<not> scrollback_changed p u"
    using assms(2) by (simp_all add: apply_terminal_update_result)
  have rows: "rows_kept p u" using no(1) by (auto simp: surface_changed_iff rows_changed_iff)
  have ok: "surface_rows_ok p" using assms(1) by (rule pane_ok_rows)
  show ?thesis
    using no rows_kept_same [OF ok rows, of f]
    by (intro pane_data.equality)
      (auto simp: apply_terminal_update_fields scrollback_changed_def surface_changed_iff patch_changes_fields)
qed

subsection \<open>The kind of a patch\<close>

lemma terminal_patch_kind_total:
  "surface_changed c \<Longrightarrow> terminal_patch_kind (c\<lparr>ch_requested := k\<rparr>) = terminal_patch_kind c"
  by (auto simp: surface_changed_iff terminal_patch_kind_def rows_or_row_metadata_changed_def)

lemma patch_kind_incremental:
  assumes "surface_changed (patch_changes p u f)"
    and "terminal_patch_kind (patch_changes p u f) \<noteq> PatchFullRefreshRequired"
  shows "\<not> f \<and> pn_surface p = tu_surface u \<and> pn_styles p = tu_styles u \<and>
    (pn_colors p \<noteq> tu_colors u \<longrightarrow> rows_kept p u)"
  using assms by (auto simp: terminal_patch_kind_def patch_changes_fields rows_changed_iff split: if_splits)

lemma patch_kind_cases:
  assumes "surface_changed (patch_changes p u f)"
    and "terminal_patch_kind (patch_changes p u f) \<noteq> PatchFullRefreshRequired"
  shows "terminal_patch_kind (patch_changes p u f) =
    (if \<not> rows_kept p u then PatchReplaceRows
     else if pn_colors p \<noteq> tu_colors u then PatchColorOnly
     else if pn_modes p \<noteq> tu_modes u then PatchModeOnly
     else PatchCursorOnly)"
  using assms patch_changes_fields(9) [of p u f]
  by (auto simp: terminal_patch_kind_def patch_changes_fields rows_changed_iff surface_changed_iff
      split: if_splits)

lemma force_is_full_refresh:
  "pn_last_patch_kind (fst (apply_terminal_update p u True)) = PatchFullRefreshRequired"
  by (simp add: apply_terminal_update_patch surface_changed_iff patch_changes_fields terminal_patch_kind_def)

subsection \<open>Palette differences\<close>

lemma position_zip_neq_take:
  "position (\<lambda>(a, b). a \<noteq> b) (zip old new) = Some i \<Longrightarrow>
     i < length old \<and> i < length new \<and> take i old = take i new \<and> old ! i \<noteq> new ! i"
proof (drule position_SomeD, elim conjE)
  assume "i < length (zip old new)" and neq: "case zip old new ! i of (a, b) \<Rightarrow> a \<noteq> b"
    and eq: "\<forall>j<i. \<not> (case zip old new ! j of (a, b) \<Rightarrow> a \<noteq> b)"
  then have "i < length old" "i < length new" by simp_all
  then show ?thesis using neq eq by (auto intro: nth_equalityI)
qed

lemma position_zip_neq_None:
  "position (\<lambda>(a, b). a \<noteq> b) (zip old new) = None \<Longrightarrow>
     take (min (length old) (length new)) old = take (min (length old) (length new)) new"
proof (rule nth_equalityI)
  assume none: "position (\<lambda>(a, b). a \<noteq> b) (zip old new) = None"
  fix i assume i: "i < length (take (min (length old) (length new)) old)"
  then have "(old ! i, new ! i) \<in> set (zip old new)" by (force simp: set_zip)
  with none have "old ! i = new ! i" by (auto simp: position_None_iff)
  with i show "take (min (length old) (length new)) old ! i = take (min (length old) (length new)) new ! i"
    by simp
qed simp

lemma make_palette_diff_rebuilds:
  assumes "make_palette_diff old new = Some d"
  shows "pd_start d \<le> length old" and "pd_start d \<le> length new"
    and "take (pd_start d) old @ pd_colors d = new"
proof -
  have "pd_start d \<le> length old \<and> pd_start d \<le> length new \<and> take (pd_start d) old = take (pd_start d) new"
    using assms position_zip_neq_take [of old new] position_zip_neq_None [of old new]
    by (auto simp: make_palette_diff_def Let_def split: if_splits option.splits)
  moreover have "pd_colors d = drop (pd_start d) new"
    using assms by (auto simp: make_palette_diff_def Let_def split: if_splits)
  ultimately show "pd_start d \<le> length old" "pd_start d \<le> length new"
    "take (pd_start d) old @ pd_colors d = new" by simp_all
qed

lemma make_palette_diff_None_iff: "make_palette_diff old new = None \<longleftrightarrow> old = new"
  by (simp add: make_palette_diff_def Let_def)

definition palette_grows :: "u32 list \<Rightarrow> u32 list \<Rightarrow> bool" where
  \<comment> \<open>the new palette is not a proper prefix of the old one\<close>
  "palette_grows old new \<longleftrightarrow> \<not> (length new < length old \<and> take (length new) old = new)"

lemma make_palette_diff_nonempty:
  assumes "make_palette_diff old new = Some d"
  shows "pd_colors d \<noteq> [] \<longleftrightarrow> palette_grows old new"
proof -
  note r = make_palette_diff_rebuilds [OF assms]
  have d: "pd_colors d = drop (pd_start d) new"
    using assms by (auto simp: make_palette_diff_def Let_def split: if_splits)
  have "old \<noteq> new" using assms by (auto simp: make_palette_diff_def)
  show ?thesis
  proof
    assume ne: "pd_colors d \<noteq> []"
    show "palette_grows old new"
    proof (cases "position (\<lambda>(a, b). a \<noteq> b) (zip old new)")
      case (Some i)
      with position_zip_neq_take [OF Some] show ?thesis
        by (auto simp: palette_grows_def) (metis nth_take)
    next
      case None
      with assms \<open>old \<noteq> new\<close> ne d show ?thesis
        by (auto simp: palette_grows_def make_palette_diff_def Let_def)
    qed
  next
    assume "palette_grows old new"
    with r d \<open>old \<noteq> new\<close> show "pd_colors d \<noteq> []"
      by (auto simp: palette_grows_def)
  qed
qed

end
