(* ===== verification/Pane_Tree.thy ===== *)
theory Pane_Tree
  imports Pane_Update
begin

text \<open>
  The tree of panes of a tab (\<open>Pane\<close> with its \<open>children\<close>, and the functions at the end of
  \<open>crates/nmux-core/src/session.rs\<close>): search by id, update in place through the mutable
  reference \<open>pane_node_mut\<close> hands out, the leaves, and splitting a leaf.

  The abstract view of a tree is the list of its panes in search order
  (\<open>pane_list\<close>): lookup is \<open>find\<close> in it and update changes the first pane with the id.
  The locale \<open>keyed_store\<close> states what the callers rely on and is interpreted here for a
  tree, and in \<open>Workspace\<close> for the tabs of a session.
\<close>

subsection \<open>The first element with a property\<close>

primrec modify_first :: "('a \<Rightarrow> bool) \<Rightarrow> ('a \<Rightarrow> 'a) \<Rightarrow> 'a list \<Rightarrow> 'a list" where
  "modify_first P g [] = []"
| "modify_first P g (x # xs) = (if P x then g x # xs else x # modify_first P g xs)"

lemma modify_first_id: "\<forall>x \<in> set xs. \<not> P x \<Longrightarrow> modify_first P g xs = xs"
  by (induction xs) auto

lemma modify_first_append:
  "modify_first P g (xs @ ys) =
     (if \<exists>x \<in> set xs. P x then modify_first P g xs @ ys else xs @ modify_first P g ys)"
  by (induction xs) auto

lemma length_modify_first [simp]: "length (modify_first P g xs) = length xs"
  by (induction xs) auto

lemma set_modify_first: "y \<in> set (modify_first P g xs) \<Longrightarrow> y \<in> set xs \<or> (\<exists>x \<in> set xs. P x \<and> y = g x)"
  by (induction xs) (auto split: if_splits)

lemma map_modify_first: "(\<And>x. P x \<Longrightarrow> h (g x) = h x) \<Longrightarrow> map h (modify_first P g xs) = map h xs"
  by (induction xs) auto

lemma find_modify_first_same:
  "(\<And>x. P x \<Longrightarrow> P (g x)) \<Longrightarrow> find P (modify_first P g xs) = map_option g (find P xs)"
  by (induction xs) auto

lemma find_modify_first_other:
  "(\<And>x. P x \<Longrightarrow> \<not> Q x \<and> \<not> Q (g x)) \<Longrightarrow> find Q (modify_first P g xs) = find Q xs"
  by (induction xs) auto

lemma find_append: "find P (xs @ ys) = (case find P xs of None \<Rightarrow> find P ys | Some x \<Rightarrow> Some x)"
  by (induction xs) auto

lemma find_concat: "find P (concat xss) = find_map (find P) xss"
  by (induction xss) (auto simp: find_append split: option.splits)

lemma find_None: "List.find P xs = None \<longleftrightarrow> (\<forall>x \<in> set xs. \<not> P x)"
  by (induction xs) auto

lemma find_map_map: "find_map f (map h xs) = find_map (\<lambda>x. f (h x)) xs"
  by (induction xs) (auto split: option.splits)

lemma find_map_option_map: "find_map (\<lambda>x. map_option h (f x)) xs = map_option h (find_map f xs)"
  by (induction xs) (auto split: option.splits)

lemma update_first_concat:
  assumes "\<And>x x'. x \<in> set xs \<Longrightarrow> f x = Some x' \<Longrightarrow> l x' = modify_first P g (l x)"
    and "\<And>x. x \<in> set xs \<Longrightarrow> f x = None \<longleftrightarrow> (\<forall>y \<in> set (l x). \<not> P y)"
    and "update_first f xs = Some ys"
  shows "concat (map l ys) = modify_first P g (concat (map l xs))"
  using assms
proof (induction xs arbitrary: ys)
  case (Cons x xs)
  show ?case
  proof (cases "f x")
    case None
    with Cons.prems(3) obtain zs where zs: "update_first f xs = Some zs" "ys = x # zs" by auto
    with Cons.IH [OF _ _ zs(1)] Cons.prems(1,2) None show ?thesis
      by (auto simp: modify_first_append)
  next
    case (Some x')
    with Cons.prems(2) [of x] have ex: "\<exists>y \<in> set (l x). P y" by auto
    from Some Cons.prems(3) have "ys = x' # xs" by simp
    with Some ex Cons.prems(1) [of x x'] show ?thesis by (simp add: modify_first_append)
  qed
qed simp

subsection \<open>Stores addressed by pane id\<close>

locale keyed_store =
  fixes look :: "'s \<Rightarrow> ustring \<Rightarrow> 'd option"
    and upd :: "('d \<Rightarrow> 'd) \<Rightarrow> 's \<Rightarrow> ustring \<Rightarrow> 's option"
    and contents :: "'s \<Rightarrow> 'd list"
    and key :: "'d \<Rightarrow> ustring"
  assumes look_contents: "look s k = find (\<lambda>d. key d = k) (contents s)"
    and upd_None: "upd g s k = None \<longleftrightarrow> look s k = None"
    and upd_contents: "upd g s k = Some s' \<Longrightarrow> contents s' = modify_first (\<lambda>d. key d = k) g (contents s)"
begin

lemma look_key: "look s k = Some d \<Longrightarrow> key d = k"
  by (auto simp: look_contents find_Some_iff)

lemma look_in_contents: "look s k = Some d \<Longrightarrow> d \<in> set (contents s)"
  by (auto simp: look_contents find_Some_iff)

lemma upd_Some: "look s k = Some d \<Longrightarrow> \<exists>s'. upd g s k = Some s'"
  using upd_None [of g s k] by (cases "upd g s k") auto

lemma look_upd_same:
  assumes "\<And>d. key (g d) = key d" and "upd g s k = Some s'"
  shows "look s' k = map_option g (look s k)"
  using assms by (simp add: look_contents upd_contents find_modify_first_same)

lemma look_upd_other:
  assumes "\<And>d. key (g d) = key d" and "upd g s k = Some s'" and "q \<noteq> k"
  shows "look s' q = look s q"
  unfolding look_contents upd_contents [OF assms(2)]
  by (rule find_modify_first_other) (use assms(1,3) in auto)

lemma keys_upd:
  assumes "\<And>d. key (g d) = key d" and "upd g s k = Some s'"
  shows "map key (contents s') = map key (contents s)"
  using assms by (simp add: upd_contents map_modify_first)

lemma invariant_upd:
  assumes "\<And>d. P d \<Longrightarrow> P (g d)" and "\<forall>d \<in> set (contents s). P d" and "upd g s k = Some s'"
  shows "\<forall>d \<in> set (contents s'). P d"
  using assms by (auto simp: upd_contents dest!: set_modify_first)

end

subsection \<open>The tree\<close>

datatype pane = Pane (pane_fields: pane_data) (pane_children: "pane list")

fun pane_node :: "pane \<Rightarrow> ustring \<Rightarrow> pane option" where
  "pane_node (Pane d cs) pane_id =
     (if pn_id d = pane_id then Some (Pane d cs) else find_map (\<lambda>c. pane_node c pane_id) cs)"

fun pane_node_mut :: "(pane_data \<Rightarrow> pane_data) \<Rightarrow> pane \<Rightarrow> ustring \<Rightarrow> pane option" where
  \<comment> \<open>the tree after the caller has changed the fields of the pane behind the reference\<close>
  "pane_node_mut g (Pane d cs) pane_id =
     (if pn_id d = pane_id then Some (Pane (g d) cs)
      else map_option (Pane d) (update_first (\<lambda>c. pane_node_mut g c pane_id) cs))"

fun collect_leaf_pane_ids :: "pane \<Rightarrow> ustring list \<Rightarrow> ustring list" where
  "collect_leaf_pane_ids (Pane d cs) pane_ids =
     (if cs = [] then pane_ids @ [pn_id d]
      else foldl (\<lambda>ids c. collect_leaf_pane_ids c ids) pane_ids cs)"

fun pane_list :: "pane \<Rightarrow> pane_data list" where
  "pane_list (Pane d cs) = d # concat (map pane_list cs)"

fun leaf_list :: "pane \<Rightarrow> pane_data list" where
  "leaf_list (Pane d cs) = (if cs = [] then [d] else concat (map leaf_list cs))"

lemma pane_list_nonempty [simp]: "pane_list t \<noteq> []"
  by (cases t) simp

lemma leaf_list_nonempty [simp]: "leaf_list t \<noteq> []"
proof (induction t)
  case (Pane d cs)
  then show ?case by (cases cs) auto
qed

lemma leaf_list_subset: "set (leaf_list t) \<subseteq> set (pane_list t)"
  by (induction t) auto

lemma pane_node_is_find:
  "map_option pane_fields (pane_node t k) = find (\<lambda>d. pn_id d = k) (pane_list t)"
proof (induction t)
  case (Pane d cs)
  then have "find_map (\<lambda>c. map_option pane_fields (pane_node c k)) cs =
      find_map (\<lambda>c. find (\<lambda>d. pn_id d = k) (pane_list c)) cs"
    by (intro find_map_cong) auto
  then show ?case
    by (simp add: find_concat find_map_map find_map_option_map)
qed

lemma pane_node_None_iff: "pane_node t k = None \<longleftrightarrow> (\<forall>d \<in> set (pane_list t). pn_id d \<noteq> k)"
proof -
  have "pane_node t k = None \<longleftrightarrow> find (\<lambda>d. pn_id d = k) (pane_list t) = None"
    by (simp add: pane_node_is_find [symmetric])
  then show ?thesis by (simp only: find_None)
qed

lemma pane_node_mut_None_iff: "pane_node_mut g t k = None \<longleftrightarrow> pane_node t k = None"
  by (induction t) (auto simp: update_first_None_iff find_map_None_iff)

lemma pane_node_mut_pane_list:
  "pane_node_mut g t k = Some t' \<Longrightarrow> pane_list t' = modify_first (\<lambda>d. pn_id d = k) g (pane_list t)"
proof (induction t arbitrary: t')
  case (Pane d cs)
  show ?case
  proof (cases "pn_id d = k")
    case True
    with Pane.prems show ?thesis by auto
  next
    case False
    with Pane.prems obtain cs' where cs': "update_first (\<lambda>c. pane_node_mut g c k) cs = Some cs'"
      and t': "t' = Pane d cs'" by auto
    have "concat (map pane_list cs') = modify_first (\<lambda>d. pn_id d = k) g (concat (map pane_list cs))"
      by (rule update_first_concat [OF _ _ cs'])
        (auto simp: Pane.IH pane_node_mut_None_iff pane_node_None_iff)
    with False t' show ?thesis by simp
  qed
qed

definition node_data :: "pane \<Rightarrow> ustring \<Rightarrow> pane_data option" where
  "node_data t k = map_option pane_fields (pane_node t k)"

lemma node_data_None_iff: "node_data t k = None \<longleftrightarrow> pane_node t k = None"
  by (simp add: node_data_def)

interpretation tree: keyed_store node_data pane_node_mut pane_list pn_id
  by unfold_locales
    (auto simp: node_data_def pane_node_is_find pane_node_mut_None_iff pane_node_mut_pane_list
      pane_node_None_iff find_None)

lemma foldl_collect:
  "(\<And>c ids. c \<in> set cs \<Longrightarrow> f c ids = ids @ h c) \<Longrightarrow>
     foldl (\<lambda>ids c. f c ids) ids cs = ids @ concat (map h cs)"
  by (induction cs arbitrary: ids) auto

lemma collect_leaf_pane_ids_eq: "collect_leaf_pane_ids t ids = ids @ map pn_id (leaf_list t)"
proof (induction t arbitrary: ids)
  case (Pane d cs)
  then show ?case
    by (auto simp: foldl_collect [where h = "\<lambda>c. map pn_id (leaf_list c)"] map_concat comp_def)
qed

subsection \<open>New panes\<close>

definition boot_line :: ustring where "boot_line = lit ''booting nmux workspace''"
definition state_line :: ustring where "state_line = lit ''server-owned terminal state''"

definition new_pane_from_template :: "ustring \<Rightarrow> host_spec \<Rightarrow> u32 \<Rightarrow> u32 \<Rightarrow> pane_data" where
  "new_pane_from_template pane_id host cols rows =
     (let host = host\<lparr>hs_id := pane_id,
                      hs_command := (hs_command host)\<lparr>cmd_initial_size := Some (cols, rows)\<rparr>\<rparr>;
          surface_lines = [lit ''nmux '' @ pane_id, state_line];
          scrollback_lines = [boot_line, lit ''nmux '' @ pane_id, state_line]
      in \<lparr>pn_id = pane_id, pn_split_axis = AxisNone, pn_host = host, pn_surface_version = 1,
          pn_last_patch_kind = PatchReplaceRows,
          pn_last_row_update_indices = all_row_indices (length surface_lines),
          pn_scrollback_version = 1, pn_cols = cols, pn_rows = rows,
          pn_resize_policy = ResizeFixed, pn_surface = SurfaceMain,
          pn_cursor = \<lparr>cu_row = 1, cu_col = 0, cu_visible = True, cu_shape = ShapeBlock, cu_blinking = True\<rparr>,
          pn_modes = terminal_modes_default, pn_terminal_title = [], pn_terminal_working_directory = [],
          pn_colors = terminal_colors_default, pn_last_palette_diff = None,
          pn_styles = [pane_style_default],
          pn_surface_lines = surface_lines,
          pn_surface_row_runs =
            [[cell_run_plain (lit ''nmux '' @ pane_id)], [cell_run_plain state_line]],
          pn_surface_semantic_prompts = replicate (length surface_lines) RowNone,
          pn_surface_dirty_rows = replicate (length surface_lines) False,
          pn_surface_kitty = replicate (length surface_lines) False,
          pn_scrollback_lines = scrollback_lines,
          pn_scrollback_row_runs =
            [[cell_run_plain boot_line], [cell_run_plain (lit ''nmux '' @ pane_id)], [cell_run_plain state_line]],
          pn_scrollback_semantic_prompts = replicate (length scrollback_lines) RowNone,
          pn_scrollback_dirty_rows = replicate (length scrollback_lines) False,
          pn_scrollback_kitty = replicate (length scrollback_lines) False\<rparr>)"

lemma new_pane_id [simp]: "pn_id (new_pane_from_template k h c r) = k"
  by (simp add: new_pane_from_template_def Let_def)

lemma new_pane_size [simp]:
  "pn_cols (new_pane_from_template k h c r) = c" "pn_rows (new_pane_from_template k h c r) = r"
  by (simp_all add: new_pane_from_template_def Let_def)

lemma new_pane_aligned [inv_intros]: "pane_aligned (new_pane_from_template k h c r)"
  by (simp add: pane_aligned_def surface_rows_aligned_def scrollback_rows_ok_def patch_meta_ok_def
      new_pane_from_template_def Let_def U64_MAX_def)

lemma new_pane_bounded: "pane_bounded (new_pane_from_template k h c r) \<longleftrightarrow> 2 \<le> r"
  by (auto simp: pane_bounded_def new_pane_from_template_def Let_def all_row_indices_def)

subsection \<open>Splitting\<close>

definition split_child_sizes :: "u32 \<Rightarrow> u32 \<Rightarrow> split_axis \<Rightarrow> (u32 \<times> u32 \<times> u32 \<times> u32) option" where
  "split_child_sizes cols rows axis =
     (if axis = AxisHorizontal \<and> 2 \<le> rows
      then (let first_rows = rows div 2 in Some (cols, first_rows, cols, rows - first_rows))
      else if axis = AxisVertical \<and> 2 \<le> cols
      then (let first_cols = cols div 2 in Some (first_cols, rows, cols - first_cols, rows))
      else None)"

definition split_existing :: "pane_data \<Rightarrow> u32 \<Rightarrow> u32 \<Rightarrow> pane_data" where
  \<comment> \<open>the clone that becomes the first child\<close>
  "split_existing pane first_cols first_rows =
     pane\<lparr>pn_cols := first_cols, pn_rows := first_rows,
          pn_host := (pn_host pane)\<lparr>hs_command :=
             (hs_command (pn_host pane))\<lparr>cmd_initial_size := Some (first_cols, first_rows)\<rparr>\<rparr>,
          pn_surface_version := sat_add_u64 (pn_surface_version pane) 1,
          pn_last_patch_kind := PatchFullRefreshRequired,
          pn_last_row_update_indices := all_row_indices (length (pn_surface_lines pane)),
          pn_last_palette_diff := None\<rparr>"

definition split_container_id :: "ustring \<Rightarrow> ustring \<Rightarrow> ustring" where
  "split_container_id pane_id new_pane_id = lit ''split-'' @ pane_id @ lit ''-'' @ new_pane_id"

definition split_container ::
  "pane_data \<Rightarrow> ustring \<Rightarrow> split_axis \<Rightarrow> ustring \<Rightarrow> u32 \<times> u32 \<times> u32 \<times> u32 \<Rightarrow> pane_data" where
  "split_container pane pane_id axis new_pane_id sizes =
     (case sizes of (first_cols, first_rows, second_cols, second_rows) \<Rightarrow>
        pane\<lparr>pn_id := split_container_id pane_id new_pane_id,
             pn_split_axis := axis,
             pn_cols := (if axis = AxisHorizontal then max first_cols second_cols
                         else sat_add_u32 first_cols second_cols),
             pn_rows := (if axis = AxisHorizontal then sat_add_u32 first_rows second_rows
                         else max first_rows second_rows),
             pn_surface_version := 0,
             pn_last_patch_kind := PatchFullRefreshRequired,
             pn_last_row_update_indices := [],
             pn_last_palette_diff := None\<rparr>)"

fun split_pane_node :: "pane \<Rightarrow> ustring \<Rightarrow> split_axis \<Rightarrow> ustring \<Rightarrow> host_spec \<Rightarrow> pane option" where
  "split_pane_node (Pane d cs) pane_id axis new_pane_id new_host =
     (if pn_id d = pane_id then
        (if cs \<noteq> [] then None
         else case split_child_sizes (pn_cols d) (pn_rows d) axis of
             None \<Rightarrow> None
           | Some (first_cols, first_rows, second_cols, second_rows) \<Rightarrow>
               Some (Pane (split_container d pane_id axis new_pane_id
                             (first_cols, first_rows, second_cols, second_rows))
                       [Pane (split_existing d first_cols first_rows) [],
                        Pane (new_pane_from_template new_pane_id new_host second_cols second_rows) []]))
      else map_option (Pane d)
             (update_first (\<lambda>c. split_pane_node c pane_id axis new_pane_id new_host) cs))"

text \<open>The sizes of the halves: they partition the pane and neither is empty.\<close>

lemma split_child_sizes_Some:
  assumes "split_child_sizes cols rows axis = Some (c1, r1, c2, r2)"
  shows "axis = AxisHorizontal \<and> c1 = cols \<and> c2 = cols \<and> r1 + r2 = rows \<and> 0 < r1 \<and> r1 \<le> r2 \<and> r2 \<le> Suc r1 \<or>
         axis = AxisVertical \<and> r1 = rows \<and> r2 = rows \<and> c1 + c2 = cols \<and> 0 < c1 \<and> c1 \<le> c2 \<and> c2 \<le> Suc c1"
  using assms by (auto simp: split_child_sizes_def Let_def split: if_splits; linarith)

lemma split_container_size:
  assumes "split_child_sizes (pn_cols d) (pn_rows d) axis = Some sizes"
    and "pn_cols d \<le> U32_MAX" and "pn_rows d \<le> U32_MAX"
  shows "pn_cols (split_container d k axis n sizes) = pn_cols d"
    and "pn_rows (split_container d k axis n sizes) = pn_rows d"
proof -
  obtain c1 r1 c2 r2 where sizes: "sizes = (c1, r1, c2, r2)" by (metis prod_cases4)
  note split_child_sizes_Some [OF assms(1) [unfolded sizes]]
  with assms(2,3) show "pn_cols (split_container d k axis n sizes) = pn_cols d"
    and "pn_rows (split_container d k axis n sizes) = pn_rows d"
    by (auto simp: sizes split_container_def sat_add_u32_def)
qed

text \<open>What a split does to the panes and to the leaves.\<close>

definition split_at ::
  "pane_data \<Rightarrow> ustring \<Rightarrow> split_axis \<Rightarrow> ustring \<Rightarrow> host_spec \<Rightarrow> pane_data \<Rightarrow> pane_data \<Rightarrow> pane_data \<Rightarrow> bool" where
  "split_at d pane_id axis new_pane_id new_host box e n \<longleftrightarrow>
     pn_id d = pane_id \<and>
     (\<exists>c1 r1 c2 r2. split_child_sizes (pn_cols d) (pn_rows d) axis = Some (c1, r1, c2, r2) \<and>
        box = split_container d pane_id axis new_pane_id (c1, r1, c2, r2) \<and>
        e = split_existing d c1 r1 \<and>
        n = new_pane_from_template new_pane_id new_host c2 r2)"

lemma split_pane_node_lists:
  assumes "split_pane_node t k axis n h = Some t'"
  shows "\<exists>d box e w xs ys us vs. split_at d k axis n h box e w \<and>
     pane_list t = xs @ d # ys \<and> pane_list t' = xs @ box # e # w # ys \<and>
     leaf_list t = us @ d # vs \<and> leaf_list t' = us @ e # w # vs"
  using assms
proof (induction t arbitrary: t')
  case (Pane d cs)
  show ?case
  proof (cases "pn_id d = k")
    case True
    with Pane.prems obtain c1 r1 c2 r2 where "cs = []"
      "split_child_sizes (pn_cols d) (pn_rows d) axis = Some (c1, r1, c2, r2)"
      "t' = Pane (split_container d k axis n (c1, r1, c2, r2))
              [Pane (split_existing d c1 r1) [], Pane (new_pane_from_template n h c2 r2) []]"
      by (auto split: if_splits option.splits)
    with True show ?thesis
      by (intro exI [of _ d] exI [of _ "split_container d k axis n (c1, r1, c2, r2)"]
          exI [of _ "split_existing d c1 r1"] exI [of _ "new_pane_from_template n h c2 r2"]
          exI [of _ "[]"]) (auto simp: split_at_def)
  next
    case False
    with Pane.prems obtain cs' where up: "update_first (\<lambda>c. split_pane_node c k axis n h) cs = Some cs'"
      and t': "t' = Pane d cs'" by auto
    from up obtain as c c' bs where cs: "cs = as @ c # bs" and cs': "cs' = as @ c' # bs"
      and c': "split_pane_node c k axis n h = Some c'" by (rule update_first_SomeE)
    have "c \<in> set cs" by (simp add: cs)
    from Pane.IH [OF this c'] obtain e box x w xs ys us vs where
      at: "split_at e k axis n h box x w" and
      l: "pane_list c = xs @ e # ys" "pane_list c' = xs @ box # x # w # ys"
      "leaf_list c = us @ e # vs" "leaf_list c' = us @ x # w # vs" by blast
    have "pane_list (Pane d cs) = (d # concat (map pane_list as) @ xs) @ e # (ys @ concat (map pane_list bs))"
      by (simp add: cs l)
    moreover have "pane_list t' =
        (d # concat (map pane_list as) @ xs) @ box # x # w # (ys @ concat (map pane_list bs))"
      by (simp add: t' cs' l)
    moreover have "leaf_list (Pane d cs) = (concat (map leaf_list as) @ us) @ e # (vs @ concat (map leaf_list bs))"
      by (simp add: cs l)
    moreover have "leaf_list t' = (concat (map leaf_list as) @ us) @ x # w # (vs @ concat (map leaf_list bs))"
      by (simp add: t' cs' l)
    ultimately show ?thesis using at by blast
  qed
qed

lemma split_existing_id [simp]: "pn_id (split_existing d c r) = pn_id d"
  by (simp add: split_existing_def)

lemma split_container_fields [simp]: "pn_id (split_container d k a n sz) = split_container_id k n"
  by (simp add: split_container_def split: prod.split)

lemma split_existing_aligned: "pane_aligned d \<Longrightarrow> pane_aligned (split_existing d c r)"
  by (simp add: pane_aligned_def surface_rows_aligned_def scrollback_rows_ok_def patch_meta_ok_def
      split_existing_def)

lemma split_container_aligned: "pane_aligned d \<Longrightarrow> pane_aligned (split_container d k a n sz)"
  by (simp add: pane_aligned_def surface_rows_aligned_def scrollback_rows_ok_def patch_meta_ok_def
      split_container_def split: prod.split)

lemma split_at_facts:
  assumes "split_at d k axis n h box e w"
  shows "pn_id d = k" and "pn_id e = k" and "pn_id w = n" and "pn_id box = split_container_id k n"
    and "pane_aligned d \<Longrightarrow> pane_aligned box \<and> pane_aligned e \<and> pane_aligned w"
    and "pn_surface_version e = sat_add_u64 (pn_surface_version d) 1"
    and "pn_last_patch_kind e = PatchFullRefreshRequired"
proof -
  show "pn_id d = k" "pn_id e = k" "pn_id w = n" "pn_id box = split_container_id k n"
    "pane_aligned d \<Longrightarrow> pane_aligned box \<and> pane_aligned e \<and> pane_aligned w"
    using assms by (auto simp: split_at_def split_container_aligned split_existing_aligned new_pane_aligned)
  show "pn_surface_version e = sat_add_u64 (pn_surface_version d) 1"
    "pn_last_patch_kind e = PatchFullRefreshRequired"
    using assms by (auto simp: split_at_def split_existing_def)
qed

subsection \<open>The shape of the tree\<close>

fun tree_shape_ok :: "pane \<Rightarrow> bool" where
  \<comment> \<open>a pane is a leaf or has exactly two children side by side or on top of each other\<close>
  "tree_shape_ok (Pane d cs) \<longleftrightarrow>
     (cs = [] \<or> length cs = 2 \<and> pn_split_axis d \<in> {AxisHorizontal, AxisVertical}) \<and>
     (\<forall>c \<in> set cs. tree_shape_ok c)"

lemma tree_shape_split:
  assumes "split_pane_node t k axis n h = Some t'" and "tree_shape_ok t"
  shows "tree_shape_ok t'"
  using assms
proof (induction t arbitrary: t')
  case (Pane d cs)
  show ?case
  proof (cases "pn_id d = k")
    case True
    with Pane.prems show ?thesis
      using split_child_sizes_Some [of "pn_cols d" "pn_rows d" axis]
      by (auto simp: split_container_def split: if_splits option.splits)
  next
    case False
    with Pane.prems obtain cs' where up: "update_first (\<lambda>c. split_pane_node c k axis n h) cs = Some cs'"
      and t': "t' = Pane d cs'" by auto
    from up obtain as c c' bs where "cs = as @ c # bs" "cs' = as @ c' # bs"
      "split_pane_node c k axis n h = Some c'" by (rule update_first_SomeE)
    with t' Pane.prems(2) Pane.IH [of c c'] show ?thesis by auto
  qed
qed

lemma tree_shape_mut:
  assumes "pane_node_mut g t k = Some t'" and "tree_shape_ok t" and "\<And>d. pn_split_axis (g d) = pn_split_axis d"
  shows "tree_shape_ok t'"
  using assms(1,2)
proof (induction t arbitrary: t')
  case (Pane d cs)
  show ?case
  proof (cases "pn_id d = k")
    case True
    with Pane.prems assms(3) show ?thesis by auto
  next
    case False
    with Pane.prems obtain cs' where up: "update_first (\<lambda>c. pane_node_mut g c k) cs = Some cs'"
      and t': "t' = Pane d cs'" by auto
    from up obtain as c c' bs where "cs = as @ c # bs" "cs' = as @ c' # bs"
      "pane_node_mut g c k = Some c'" by (rule update_first_SomeE)
    with t' Pane.prems(2) Pane.IH [of c c'] show ?thesis by auto
  qed
qed

lemma leaf_list_mut:
  assumes "pane_node_mut g t k = Some t'" and "\<And>d. pn_id (g d) = pn_id d"
  shows "map pn_id (leaf_list t') = map pn_id (leaf_list t)"
  using assms(1)
proof (induction t arbitrary: t')
  case (Pane d cs)
  show ?case
  proof (cases "pn_id d = k")
    case True
    with Pane.prems assms(2) show ?thesis by auto
  next
    case False
    with Pane.prems obtain cs' where up: "update_first (\<lambda>c. pane_node_mut g c k) cs = Some cs'"
      and t': "t' = Pane d cs'" by auto
    from up obtain as c c' bs where "cs = as @ c # bs" "cs' = as @ c' # bs"
      "pane_node_mut g c k = Some c'" by (rule update_first_SomeE)
    with t' Pane.IH [of c c'] show ?thesis by auto
  qed
qed

subsection \<open>Origin chains\<close>

definition pane_origin_chain :: "ustring option \<Rightarrow> ustring \<Rightarrow> ustring" where
  "pane_origin_chain parent_origin_chain origin =
     (case map_option trim parent_origin_chain of
        Some parent \<Rightarrow> if parent \<noteq> [] then parent @ lit ''>'' @ origin else origin
      | None \<Rightarrow> origin)"

end
