(* ===== verification/Interim_Engine.thy ===== *)
theory Interim_Engine
  imports Terminal_Types
begin

text \<open>
  The interim text engine of \<open>crates/nmux-core/src/terminal.rs\<close>: the ANSI filter
  \<open>InterimAnsiParser\<close> that strips control sequences and tracks modes, and the line
  merger that turns process output into scrollback lines.
\<close>

subsection \<open>The ANSI filter\<close>

datatype ansi_state =
  Ground
| Escape
| Csi "byte list"
| Osc bool
| StringControl bool

definition set_interim_mouse_tracking :: "mouse_tracking_mode \<Rightarrow> bool \<Rightarrow> terminal_modes \<Rightarrow> terminal_modes" where
  "set_interim_mouse_tracking mode enabled m =
     (if enabled then m\<lparr>tm_mouse_tracking := True, tm_mouse_tracking_mode := mode\<rparr>
      else if tm_mouse_tracking_mode m = mode
      then m\<lparr>tm_mouse_tracking := False, tm_mouse_tracking_mode := TrackNone\<rparr>
      else m)"

definition set_interim_mouse_format :: "mouse_format \<Rightarrow> bool \<Rightarrow> terminal_modes \<Rightarrow> terminal_modes" where
  "set_interim_mouse_format format enabled m =
     (if enabled then m\<lparr>tm_mouse_format := format\<rparr>
      else if tm_mouse_format m = format then m\<lparr>tm_mouse_format := FormatX10\<rparr>
      else m)"

definition apply_interim_mode :: "bool \<Rightarrow> bool \<Rightarrow> terminal_modes \<Rightarrow> u32 \<Rightarrow> terminal_modes" where
  \<comment> \<open>the \<open>match (private, code)\<close> of \<open>apply_interim_mode_set\<close>\<close>
  "apply_interim_mode priv enabled m code =
     (if \<not> priv then m
      else if code = 1 then m\<lparr>tm_application_cursor := enabled\<rparr>
      else if code = 6 then m\<lparr>tm_origin := enabled\<rparr>
      else if code = 7 then m\<lparr>tm_wraparound := enabled\<rparr>
      else if code = 1000 then set_interim_mouse_tracking TrackNormal enabled m
      else if code = 1002 then set_interim_mouse_tracking TrackButton enabled m
      else if code = 1003 then set_interim_mouse_tracking TrackAny enabled m
      else if code = 1004 then m\<lparr>tm_focus_reporting := enabled\<rparr>
      else if code = 1006 then set_interim_mouse_format FormatSgr enabled m
      else if code = 1016 then set_interim_mouse_format FormatSgrPixels enabled m
      else if code = 2004 then m\<lparr>tm_bracketed_paste := enabled\<rparr>
      else m)"

definition apply_interim_mode_set :: "terminal_modes \<Rightarrow> byte list \<Rightarrow> bool \<Rightarrow> terminal_modes" where
  "apply_interim_mode_set m params enabled =
     (let priv = (case params of b # _ \<Rightarrow> b = 0x3F | [] \<Rightarrow> False);
          params' = (if priv then tl params else params)
      in foldl
           (\<lambda>m param.
              case from_utf8 param of
                None \<Rightarrow> m
              | Some s \<Rightarrow> (case parse_u32 s of None \<Rightarrow> m | Some code \<Rightarrow> apply_interim_mode priv enabled m code))
           m (split_on 0x3B params'))"

definition apply_interim_csi :: "terminal_modes \<Rightarrow> byte list \<Rightarrow> byte \<Rightarrow> terminal_modes" where
  "apply_interim_csi m params final_byte =
     (if final_byte = 0x68 then apply_interim_mode_set m params True
      else if final_byte = 0x6C then apply_interim_mode_set m params False
      else m)"

fun ansi_step :: "ansi_state \<Rightarrow> terminal_modes \<Rightarrow> byte \<Rightarrow> ansi_state \<times> terminal_modes \<times> byte list" where
  \<comment> \<open>one iteration of the loop of \<open>InterimAnsiParser::consume\<close>: next state, modes, text pushed\<close>
  "ansi_step Ground m b =
     (if b = 0x1B then (Escape, m, [])
      else if b = 0x9B then (Csi [], m, [])
      else (Ground, m, [b]))"
| "ansi_step Escape m b =
     (if b = 0x5B then (Csi [], m, [])
      else if b = 0x5D then (Osc False, m, [])
      else if b = 0x50 \<or> b = 0x58 \<or> b = 0x5E \<or> b = 0x5F then (StringControl False, m, [])
      else if b = 0x3D then (Ground, m\<lparr>tm_application_keypad := True\<rparr>, [])
      else if b = 0x3E then (Ground, m\<lparr>tm_application_keypad := False\<rparr>, [])
      else if b = 0x1B then (Escape, m, [])
      else (Ground, m, []))"
| "ansi_step (Csi buffer) m b =
     (if b = 0x1B then (Escape, m, [])
      else if 0x40 \<le> b \<and> b \<le> 0x7E then (Ground, apply_interim_csi m buffer b, [])
      else (Csi (buffer @ [b]), m, []))"
| "ansi_step (Osc escape_pending) m b =
     (if escape_pending then
        (if b = 0x5C then (Ground, m, []) else (Osc (b = 0x1B), m, []))
      else if b = 0x07 then (Ground, m, [])
      else if b = 0x1B then (Osc True, m, [])
      else (Osc False, m, []))"
| "ansi_step (StringControl escape_pending) m b =
     (if escape_pending then
        (if b = 0x5C then (Ground, m, []) else (StringControl (b = 0x1B), m, []))
      else if b = 0x1B then (StringControl True, m, [])
      else (StringControl False, m, []))"

fun ansi_consume ::
  "ansi_state \<Rightarrow> byte list \<Rightarrow> terminal_modes \<Rightarrow> ansi_state \<times> terminal_modes \<times> byte list" where
  "ansi_consume s [] m = (s, m, [])"
| "ansi_consume s (b # bs) m =
     (case ansi_step s m b of
        (s', m', t) \<Rightarrow> (case ansi_consume s' bs m' of (s'', m'', ts) \<Rightarrow> (s'', m'', t @ ts)))"

text \<open>The filter is a stream transducer: splitting the input does not change its output.\<close>

lemma ansi_consume_append:
  "ansi_consume s (as @ bs) m =
     (case ansi_consume s as m of
        (s', m', t) \<Rightarrow> (case ansi_consume s' bs m' of (s'', m'', u) \<Rightarrow> (s'', m'', t @ u)))"
  by (induction s as m rule: ansi_consume.induct) (simp_all split: prod.split)

lemma ansi_step_text: "ansi_step s m b = (s', m', t) \<Longrightarrow> x \<in> set t \<Longrightarrow> x \<noteq> 0x1B \<and> x \<noteq> 0x9B"
  by (cases s) (auto split: if_splits)

lemma ansi_consume_text:
  "ansi_consume s bs m = (s', m', t) \<Longrightarrow> x \<in> set t \<Longrightarrow> x \<noteq> 0x1B \<and> x \<noteq> 0x9B"
proof (induction s bs m arbitrary: s' m' t rule: ansi_consume.induct)
  case (2 s b bs m)
  obtain s1 m1 t1 where st: "ansi_step s m b = (s1, m1, t1)" by (metis prod_cases3)
  obtain s2 m2 t2 where rest: "ansi_consume s1 bs m1 = (s2, m2, t2)" by (metis prod_cases3)
  from "2.prems" st rest have "x \<in> set t1 \<or> x \<in> set t2" by auto
  then show ?case
  proof
    assume "x \<in> set t1"
    with st show ?thesis by (rule ansi_step_text)
  next
    assume "x \<in> set t2"
    with "2.IH" [OF st [symmetric] refl rest] show ?thesis by simp
  qed
qed simp

lemma ansi_consume_plain:
  "0x1B \<notin> set bs \<Longrightarrow> 0x9B \<notin> set bs \<Longrightarrow> ansi_consume Ground bs m = (Ground, m, bs)"
  by (induction bs) auto

lemma ansi_consume_csi_params:
  assumes "\<forall>b \<in> set ps. b \<noteq> 0x1B \<and> \<not> (0x40 \<le> b \<and> b \<le> 0x7E)"
  shows "ansi_consume (Csi buf) ps m = (Csi (buf @ ps), m, [])"
  using assms by (induction ps arbitrary: buf) auto

lemma ansi_consume_csi:
  assumes "\<forall>b \<in> set ps. b \<noteq> 0x1B \<and> \<not> (0x40 \<le> b \<and> b \<le> 0x7E)" and "0x40 \<le> f" "f \<le> 0x7E"
  shows "ansi_consume Ground (0x1B # 0x5B # ps @ [f]) m = (Ground, apply_interim_csi m ps f, [])"
proof -
  have "f \<noteq> 0x1B" using assms(2) by auto
  with assms show ?thesis
    by (simp add: ansi_consume_append ansi_consume_csi_params)
qed

subsection \<open>Merging process output into lines\<close>

definition line_width :: "ustring \<Rightarrow> u32" where
  "line_width line = min (length line) U32_MAX"

record merge_state =
  ms_lines :: "ustring list"
  ms_current :: ustring
  ms_appending :: bool
  ms_cursor_col :: u32
  ms_saw_output :: bool
  ms_ended_with_newline :: bool

definition merge_char :: "merge_state \<Rightarrow> uchar \<Rightarrow> merge_state" where
  \<comment> \<open>the body of the \<open>for ch in text.chars()\<close> loop\<close>
  "merge_char st ch =
     (let st = st\<lparr>ms_saw_output := True\<rparr> in
      if ch = 10 then
        (if ms_appending st then st\<lparr>ms_appending := False\<rparr>
         else st\<lparr>ms_lines := ms_lines st @ [ms_current st]\<rparr>)
          \<lparr>ms_current := [], ms_cursor_col := 0, ms_ended_with_newline := True\<rparr>
      else
        (let st = st\<lparr>ms_ended_with_newline := False\<rparr> in
         if ch \<noteq> 9 \<and> is_control ch then st
         else if ms_appending st then
           (let line = last (ms_lines st) @ [ch]
            in st\<lparr>ms_lines := butlast (ms_lines st) @ [line], ms_cursor_col := line_width line\<rparr>)
         else
           (let current = ms_current st @ [ch]
            in st\<lparr>ms_current := current, ms_cursor_col := line_width current\<rparr>)))"

definition merge_init :: "ustring list \<Rightarrow> bool \<Rightarrow> merge_state" where
  "merge_init previous_lines append_to_previous_line =
     (let appending = (append_to_previous_line \<and> previous_lines \<noteq> [])
      in \<lparr>ms_lines = previous_lines, ms_current = [], ms_appending = appending,
          ms_cursor_col = (if appending then line_width (last previous_lines) else 0),
          ms_saw_output = False, ms_ended_with_newline = False\<rparr>)"

definition merge_finish :: "merge_state \<Rightarrow> ustring list \<times> u32" where
  "merge_finish st =
     (let lines =
            (if \<not> ms_appending st \<and> (ms_current st \<noteq> [] \<or> (\<not> ms_saw_output st \<and> ms_lines st = []))
             then ms_lines st @ [ms_current st] else ms_lines st)
      in (lines, if ms_ended_with_newline st then 0 else ms_cursor_col st))"

definition merge_interim_pty_output :: "ustring list \<Rightarrow> bool \<Rightarrow> byte list \<Rightarrow> ustring list \<times> u32" where
  "merge_interim_pty_output previous_lines append_to_previous_line output =
     merge_finish
       (foldl merge_char (merge_init previous_lines append_to_previous_line)
          (normalize_newlines (utf8_lossy output)))"

subsection \<open>The engine\<close>

definition interim_text_update ::
  "surface_kind \<Rightarrow> terminal_cursor \<Rightarrow> terminal_modes \<Rightarrow> ustring \<Rightarrow> ustring \<Rightarrow> terminal_colors \<Rightarrow> u32
     \<Rightarrow> ustring list \<Rightarrow> u32 \<Rightarrow> terminal_update" where
  "interim_text_update surface previous_cursor modes title working_directory colors rows scrollback_lines cursor_col =
     (let visible_start = length scrollback_lines - rows;
          surface_lines = drop visible_start scrollback_lines;
          cur = \<lparr>tc_row = length surface_lines - 1, tc_col = cursor_col,
                 tc_visible = tc_visible previous_cursor, tc_shape = tc_shape previous_cursor,
                 tc_blinking = tc_blinking previous_cursor\<rparr>
      in (terminal_update_plain PatchReplaceRows surface cur surface_lines scrollback_lines)
           \<lparr>tu_modes := modes, tu_title := title, tu_working_directory := working_directory,
            tu_colors := colors\<rparr>)"

definition interim_apply_output ::
  "ansi_state \<Rightarrow> terminal_input \<Rightarrow> byte list \<Rightarrow> ansi_state \<times> terminal_update option" where
  "interim_apply_output s input output =
     (case ansi_consume s output (ti_modes input) of
        (s', modes, text) \<Rightarrow>
          (case merge_interim_pty_output (ti_scrollback_lines input) (0 < tc_col (ti_cursor input)) text of
             (scrollback_lines, cursor_col) \<Rightarrow>
               (s', Some (interim_text_update (ti_surface input) (ti_cursor input) modes (ti_title input)
                            (ti_working_directory input) (ti_colors input) (ti_rows input)
                            scrollback_lines cursor_col))))"

definition interim_resize ::
  "ansi_state \<Rightarrow> terminal_input \<Rightarrow> u32 \<Rightarrow> u32 \<Rightarrow> ansi_state \<times> terminal_update option" where
  "interim_resize s input cols rows =
     (s, Some (interim_text_update (ti_surface input) (ti_cursor input) (ti_modes input) (ti_title input)
                 (ti_working_directory input) (ti_colors input) rows
                 (ti_scrollback_lines input) (tc_col (ti_cursor input))))"

subsection \<open>The merger as writing at the end of a buffer of lines\<close>

text \<open>
  The abstract view: a non-empty buffer of lines with the write position at the end of the
  last one. A line feed opens a new line, other control characters vanish, everything else
  is appended to the last line.
\<close>

definition line_put :: "ustring list \<Rightarrow> uchar \<Rightarrow> ustring list" where
  "line_put v ch =
     (if ch = 10 then v @ [[]]
      else if ch \<noteq> 9 \<and> is_control ch then v
      else butlast v @ [last v @ [ch]])"

definition line_buffer :: "ustring list \<Rightarrow> bool \<Rightarrow> ustring \<Rightarrow> ustring list" where
  "line_buffer prev app cs =
     foldl line_put (if app \<and> prev \<noteq> [] then prev else prev @ [[]]) cs"

definition merge_rel :: "merge_state \<Rightarrow> ustring list \<Rightarrow> bool" where
  \<comment> \<open>how a merger state represents a buffer\<close>
  "merge_rel st v \<longleftrightarrow> v \<noteq> [] \<and> ms_cursor_col st = line_width (last v) \<and>
     (if ms_appending st then ms_lines st = v \<and> ms_current st = []
      else ms_lines st = butlast v \<and> ms_current st = last v)"

lemma line_width_Nil [simp]: "line_width [] = 0"
  by (simp add: line_width_def)

lemma line_width_pos: "0 < line_width l \<longleftrightarrow> l \<noteq> []"
  by (auto simp: line_width_def U32_MAX_def)

lemma line_put_nonempty [simp]: "line_put v ch \<noteq> [] \<longleftrightarrow> v \<noteq> [] \<or> \<not> (ch \<noteq> 10 \<and> ch \<noteq> 9 \<and> is_control ch)"
  by (auto simp: line_put_def)

lemma merge_rel_init: "merge_rel (merge_init prev app) (if app \<and> prev \<noteq> [] then prev else prev @ [[]])"
  by (auto simp: merge_rel_def merge_init_def Let_def)

lemma merge_rel_step: "merge_rel st v \<Longrightarrow> merge_rel (merge_char st ch) (line_put v ch)"
  by (auto simp: merge_rel_def merge_char_def line_put_def Let_def)

lemma merge_rel_fold:
  "merge_rel st v \<Longrightarrow> merge_rel (foldl merge_char st cs) (foldl line_put v cs)"
  by (induction cs arbitrary: st v) (auto simp: merge_rel_step)

lemma merge_fold_saw: "ms_saw_output (foldl merge_char st cs) = (ms_saw_output st \<or> cs \<noteq> [])"
  by (induction cs arbitrary: st) (auto simp: merge_char_def Let_def)

lemma merge_fold_ended:
  "ms_ended_with_newline (foldl merge_char st cs) =
     (if cs = [] then ms_ended_with_newline st else last cs = 10)"
proof (induction cs rule: rev_induct)
  case (snoc x cs)
  then show ?case by (auto simp: merge_char_def Let_def)
qed simp

lemma merge_fold_appending:
  "ms_appending (foldl merge_char st cs) = (ms_appending st \<and> 10 \<notin> set cs)"
  by (induction cs arbitrary: st) (auto simp: merge_char_def Let_def)

lemma foldl_line_put_last_newline:
  "cs \<noteq> [] \<Longrightarrow> last cs = 10 \<Longrightarrow> last (foldl line_put v cs) = []"
  by (cases cs rule: rev_cases) (auto simp: line_put_def)

lemma foldl_line_put_nonempty: "v \<noteq> [] \<Longrightarrow> foldl line_put v cs \<noteq> []"
  by (induction cs arbitrary: v) (auto simp del: line_put_nonempty simp: line_put_def)

lemma foldl_line_put_last_nonempty:
  "last v \<noteq> [] \<Longrightarrow> 10 \<notin> set cs \<Longrightarrow> last (foldl line_put v cs) \<noteq> []"
  by (induction cs arbitrary: v) (auto simp: line_put_def)

lemma line_buffer_nonempty [simp]: "line_buffer prev app cs \<noteq> []"
  by (simp add: line_buffer_def foldl_line_put_nonempty)

text \<open>
  What the merger returns: the buffer, without an empty last line unless that line was
  there before, and the width of the last line as the cursor column.
\<close>

definition merge_spec :: "ustring list \<Rightarrow> bool \<Rightarrow> ustring \<Rightarrow> ustring list \<times> u32" where
  "merge_spec prev app cs =
     (let v = line_buffer prev app cs
      in (if last v = [] \<and> \<not> (app \<and> prev \<noteq> [] \<and> 10 \<notin> set cs) \<and> \<not> (cs = [] \<and> prev = [])
          then butlast v else v,
          line_width (last v)))"

lemma merge_finish_rel:
  assumes "merge_rel st v" and "ms_ended_with_newline st \<Longrightarrow> last v = []"
  shows "merge_finish st =
     (if last v = [] \<and> \<not> ms_appending st \<and> \<not> (\<not> ms_saw_output st \<and> butlast v = []) then butlast v else v,
      line_width (last v))"
  using assms append_butlast_last_id [of v]
  by (cases "ms_appending st"; cases "butlast v = []") (auto simp: merge_rel_def merge_finish_def Let_def)

lemma merge_interim_is_spec:
  "merge_interim_pty_output prev app output =
     merge_spec prev app (normalize_newlines (utf8_lossy output))"
proof -
  let ?t = "normalize_newlines (utf8_lossy output)"
  let ?st = "foldl merge_char (merge_init prev app) ?t"
  let ?v0 = "if app \<and> prev \<noteq> [] then prev else prev @ [[]]"
  have rel: "merge_rel ?st (line_buffer prev app ?t)"
    unfolding line_buffer_def by (rule merge_rel_fold [OF merge_rel_init])
  have ended: "last (line_buffer prev app ?t) = []" if "ms_ended_with_newline ?st"
    using that by (cases "?t = []")
      (auto simp: merge_fold_ended merge_init_def Let_def line_buffer_def foldl_line_put_last_newline)
  have app: "ms_appending ?st \<longleftrightarrow> app \<and> prev \<noteq> [] \<and> 10 \<notin> set ?t"
    by (auto simp: merge_fold_appending merge_init_def Let_def)
  have saw: "ms_saw_output ?st \<longleftrightarrow> ?t \<noteq> []"
    by (simp add: merge_fold_saw merge_init_def Let_def)
  have emp: "butlast (line_buffer prev app ?t) = [] \<longleftrightarrow> prev = []"
    if "?t = []" "\<not> (app \<and> prev \<noteq> [] \<and> 10 \<notin> set ?t)"
    using that by (auto simp: line_buffer_def)
  have "merge_finish ?st =
     (if last (line_buffer prev app ?t) = [] \<and> \<not> ms_appending ?st \<and>
         \<not> (\<not> ms_saw_output ?st \<and> butlast (line_buffer prev app ?t) = [])
      then butlast (line_buffer prev app ?t) else line_buffer prev app ?t,
      line_width (last (line_buffer prev app ?t)))"
    using rel ended by (rule merge_finish_rel)
  then show ?thesis
    unfolding merge_interim_pty_output_def merge_spec_def Let_def app saw
    using emp by (auto split: if_splits)
qed

lemma line_buffer_append:
  "line_buffer prev app (s @ t) = foldl line_put (line_buffer prev app s) t"
  by (simp add: line_buffer_def)

text \<open>Merging two chunks one after the other is merging their concatenation.\<close>

lemma merge_spec_append:
  assumes s: "s \<noteq> []" and t: "t \<noteq> []"
    and prev: "app \<Longrightarrow> prev \<noteq> [] \<Longrightarrow> last prev \<noteq> []"
    and one: "merge_spec prev app s = (ls, col)"
  shows "merge_spec ls (0 < col) t = merge_spec prev app (s @ t)"
proof -
  let ?v = "line_buffer prev app s"
  have keep: "last ?v \<noteq> []" if "app" "prev \<noteq> []" "10 \<notin> set s"
    using that prev by (simp add: line_buffer_def foldl_line_put_last_nonempty)
  have ls: "ls = (if last ?v = [] then butlast ?v else ?v)" and col: "0 < col \<longleftrightarrow> last ?v \<noteq> []"
    using one keep s by (auto simp: merge_spec_def Let_def line_width_pos split: if_splits)
  have start: "(if 0 < col \<and> ls \<noteq> [] then ls else ls @ [[]]) = ?v"
    unfolding ls using col
    by (cases "last ?v = []") (auto, metis append_butlast_last_id line_buffer_nonempty)
  have buf: "line_buffer ls (0 < col) t = line_buffer prev app (s @ t)"
    unfolding line_buffer_append by (subst line_buffer_def) (simp only: start)
  have still: "last (line_buffer ls (0 < col) t) \<noteq> []" if "0 < col" "10 \<notin> set t"
    unfolding buf line_buffer_append using that col by (simp add: foldl_line_put_last_nonempty)
  have still': "last (line_buffer prev app (s @ t)) \<noteq> []"
    if "app" "prev \<noteq> []" "10 \<notin> set (s @ t)"
    unfolding line_buffer_append using that keep by (simp add: foldl_line_put_last_nonempty)
  show ?thesis
    using still still' s t unfolding merge_spec_def Let_def buf by auto
qed

lemma crlf_to_lf_id: "13 \<notin> set s \<Longrightarrow> crlf_to_lf s = s"
  by (induction s rule: crlf_to_lf.induct) auto

lemma normalize_newlines_id: "13 \<notin> set s \<Longrightarrow> normalize_newlines s = s"
  by (auto simp: normalize_newlines_def crlf_to_lf_id intro: map_idI)

end
