(* ===== verification/Key_Encoding.thy ===== *)
theory Key_Encoding
  imports Interim_Engine
begin

text \<open>
  The byte sequences keys and mouse events are sent to a pane as (\<open>named_key_bytes\<close>,
  \<open>modified_named_key_bytes\<close>, \<open>encode_sgr_mouse_input\<close> of \<open>crates/nmux-core/src/terminal.rs\<close>)
  and the interim engine as an implementation of \<open>TerminalEngine\<close>. The lemmas show that the
  modifier parameter is invertible, and that a mouse sequence determines the event it
  encodes.
\<close>

subsection \<open>Keys\<close>

definition esc :: "string \<Rightarrow> byte list" where
  \<comment> \<open>the literal \<open>b"\x1b..."\<close>\<close>
  "esc s = 0x1B # ascii s"

definition keypad_table :: "(string \<times> byte list \<times> byte list) list" where
  \<comment> \<open>the rows that depend on the keypad mode: name, numeric, application\<close>
  "keypad_table =
     [(''numpad-enter'', [13], esc ''OM''), (''numpad-0'', ascii ''0'', esc ''Op''),
      (''numpad-1'', ascii ''1'', esc ''Oq''), (''numpad-2'', ascii ''2'', esc ''Or''),
      (''numpad-3'', ascii ''3'', esc ''Os''), (''numpad-4'', ascii ''4'', esc ''Ot''),
      (''numpad-5'', ascii ''5'', esc ''Ou''), (''numpad-6'', ascii ''6'', esc ''Ov''),
      (''numpad-7'', ascii ''7'', esc ''Ow''), (''numpad-8'', ascii ''8'', esc ''Ox''),
      (''numpad-9'', ascii ''9'', esc ''Oy'')]"

definition cursor_key_table :: "(string \<times> byte list \<times> byte list) list" where
  \<comment> \<open>the rows that depend on the cursor key mode: name, normal, application\<close>
  "cursor_key_table =
     [(''arrow-up'', esc ''[A'', esc ''OA''), (''arrow-down'', esc ''[B'', esc ''OB''),
      (''arrow-right'', esc ''[C'', esc ''OC''), (''arrow-left'', esc ''[D'', esc ''OD'')]"

definition plain_key_table :: "(string \<times> byte list) list" where
  "plain_key_table =
     [(''enter'', [13]), (''tab'', [9]), (''space'', ascii '' ''), (''backspace'', [0x7F]),
      (''escape'', [0x1B]), (''insert'', esc ''[2~''), (''delete'', esc ''[3~''),
      (''home'', esc ''[H''), (''end'', esc ''[F''), (''page-up'', esc ''[5~''),
      (''page-down'', esc ''[6~''), (''f1'', esc ''OP''), (''f2'', esc ''OQ''), (''f3'', esc ''OR''),
      (''f4'', esc ''OS''), (''f5'', esc ''[15~''), (''f6'', esc ''[17~''), (''f7'', esc ''[18~''),
      (''f8'', esc ''[19~''), (''f9'', esc ''[20~''), (''f10'', esc ''[21~''), (''f11'', esc ''[23~''),
      (''f12'', esc ''[24~'')]"

definition table_get :: "(string \<times> 'a) list \<Rightarrow> ustring \<Rightarrow> 'a option" where
  \<comment> \<open>a \<open>match\<close> on a string: the first arm whose literal equals it\<close>
  "table_get t key = map_option snd (List.find (\<lambda>row. lit (fst row) = key) t)"

definition named_key_bytes :: "ustring \<Rightarrow> bool \<Rightarrow> bool \<Rightarrow> byte list option" where
  "named_key_bytes key_name application_keypad application_cursor =
     (case table_get keypad_table key_name of
        Some (num, app) \<Rightarrow> Some (if application_keypad then app else num)
      | None \<Rightarrow>
          (case table_get cursor_key_table key_name of
             Some (norm, app) \<Rightarrow> Some (if application_cursor then app else norm)
           | None \<Rightarrow> table_get plain_key_table key_name))"

definition xterm_modifier_param :: "u32 \<Rightarrow> u32 option" where
  \<comment> \<open>\<open>modifiers & 1\<close>, \<open>& 4\<close>, \<open>& 2\<close>, \<open>& 8\<close> are the bits 0, 2, 1, 3\<close>
  "xterm_modifier_param modifiers =
     (let param = 1;
          param = (if bit modifiers 0 then param + 1 else param);
          param = (if bit modifiers 2 then param + 2 else param);
          param = (if bit modifiers 1 then param + 4 else param);
          param = (if bit modifiers 3 then param + 8 else param)
      in Some param)"

definition modified_key_table :: "(string \<times> string \<times> string) list" where
  \<comment> \<open>the arms \<open>format!("\x1b[{number};{modifier_param}{final}")\<close>: key, number, final\<close>
  "modified_key_table =
     [(''arrow-up'', ''1'', ''A''), (''arrow-down'', ''1'', ''B''), (''arrow-right'', ''1'', ''C''),
      (''arrow-left'', ''1'', ''D''), (''home'', ''1'', ''H''), (''end'', ''1'', ''F''),
      (''insert'', ''2'', ''~''), (''delete'', ''3'', ''~''), (''page-up'', ''5'', ''~''),
      (''page-down'', ''6'', ''~''), (''f1'', ''1'', ''P''), (''f2'', ''1'', ''Q''),
      (''f3'', ''1'', ''R''), (''f4'', ''1'', ''S''), (''f5'', ''15'', ''~''), (''f6'', ''17'', ''~''),
      (''f7'', ''18'', ''~''), (''f8'', ''19'', ''~''), (''f9'', ''20'', ''~''), (''f10'', ''21'', ''~''),
      (''f11'', ''23'', ''~''), (''f12'', ''24'', ''~'')]"

definition modified_named_key_bytes :: "ustring \<Rightarrow> u32 \<Rightarrow> byte list option" where
  "modified_named_key_bytes key_name modifiers =
     (if modifiers = 0 \<or> 0x0F < modifiers then None
      else case xterm_modifier_param modifiers of
          None \<Rightarrow> None
        | Some modifier_param \<Rightarrow>
            (case table_get modified_key_table key_name of
               Some (num, fin) \<Rightarrow>
                 Some (utf8_bytes (27 # lit ''['' @ lit num @ lit '';'' @ dec_str modifier_param @ lit fin))
             | None \<Rightarrow> if key_name = lit ''tab'' \<and> modifiers = 1 then Some (utf8_bytes (27 # lit ''[Z'')) else None))"

subsection \<open>Mouse events\<close>

definition mouse_button_code :: "mouse_button \<Rightarrow> nat" where
  "mouse_button_code b =
     (case b of ButtonLeft \<Rightarrow> 0 | ButtonMiddle \<Rightarrow> 1 | ButtonRight \<Rightarrow> 2 | ButtonNone \<Rightarrow> 3
      | ButtonWheelUp \<Rightarrow> 64 | ButtonWheelDown \<Rightarrow> 65)"

definition mouse_code :: "mouse_terminal_input \<Rightarrow> nat" where
  \<comment> \<open>the variable \<open>code\<close> of \<open>encode_sgr_mouse_input\<close> after the four conditional additions\<close>
  "mouse_code i =
     (let code = mouse_button_code (mi_button i);
          code = (if mi_action i = MouseMotion then code + 32 else code);
          code = (if bit (mi_modifiers i) 0 then code + 4 else code);
          code = (if bit (mi_modifiers i) 2 then code + 8 else code)
      in if bit (mi_modifiers i) 1 then code + 16 else code)"

definition mouse_position :: "mouse_terminal_input \<Rightarrow> (nat \<times> nat) option" where
  "mouse_position i =
     (if mi_mouse_format i = FormatSgrPixels
      then Option.bind (mi_pixel_x i) (\<lambda>x. Option.bind (mi_pixel_y i) (\<lambda>y. Some (x, y)))
      else Option.bind (checked_add_u32 (mi_col i) 1)
             (\<lambda>x. Option.bind (checked_add_u32 (mi_row i) 1) (\<lambda>y. Some (x, y))))"

definition sgr_sequence :: "nat \<Rightarrow> nat \<Rightarrow> nat \<Rightarrow> bool \<Rightarrow> ustring" where
  "sgr_sequence code x y release =
     27 # lit ''[<'' @ dec_str code @ lit '';'' @ dec_str x @ lit '';'' @ dec_str y @
       (if release then lit ''m'' else lit ''M'')"

definition encode_sgr_mouse_input :: "mouse_terminal_input \<Rightarrow> byte list option" where
  "encode_sgr_mouse_input i =
     (if mi_mouse_format i \<noteq> FormatSgr \<and> mi_mouse_format i \<noteq> FormatSgrPixels then None
      else if mi_rows i \<le> mi_row i \<or> mi_cols i \<le> mi_col i then None
      else case mouse_position i of
          None \<Rightarrow> None
        | Some (x, y) \<Rightarrow> Some (utf8_bytes (sgr_sequence (mouse_code i) x y (mi_action i = MouseRelease))))"

subsection \<open>The interim engine\<close>

definition interim_encode_key_input :: "ansi_state \<Rightarrow> key_terminal_input \<Rightarrow> ansi_state \<times> byte list option" where
  "interim_encode_key_input s i =
     (s, if ki_modifiers i \<noteq> 0 then modified_named_key_bytes (ki_key_name i) (ki_modifiers i)
         else named_key_bytes (ki_key_name i) (ki_application_keypad i) (ki_application_cursor i))"

definition interim_engine :: "ansi_state terminal_engine" where
  "interim_engine =
     \<lparr>te_new = Ground, te_apply_output = interim_apply_output, te_resize = interim_resize,
      te_drain_pty_writes = (\<lambda>s. (s, [])),
      te_encode_key_input = interim_encode_key_input,
      te_encode_mouse_input = (\<lambda>s i. (s, encode_sgr_mouse_input i))\<rparr>"

subsection \<open>Modifiers\<close>

lemma xterm_modifier_param_eq:
  "xterm_modifier_param m =
     Some (1 + of_bool (bit m 0) + 2 * of_bool (bit m 2) + 4 * of_bool (bit m 1) + 8 * of_bool (bit m 3))"
  by (simp add: xterm_modifier_param_def Let_def)

lemma sum_bits4_inj:
  fixes a b c d a' b' c' d' :: bool
  shows "of_bool a + 2 * of_bool b + 4 * of_bool c + 8 * of_bool d =
      (of_bool a' + 2 * of_bool b' + 4 * of_bool c' + 8 * of_bool d' :: nat)
    \<longleftrightarrow> a = a' \<and> b = b' \<and> c = c' \<and> d = d'"
  by (cases a; cases b; cases c; cases d; cases a'; cases b'; cases c'; cases d'; simp)

lemma nat_bits4:
  fixes n :: nat
  assumes "n < 16"
  shows "n = of_bool (bit n 0) + 2 * of_bool (bit n 1) + 4 * of_bool (bit n 2) + 8 * of_bool (bit n (3::nat))"
proof -
  have "n \<in> set [0..<16]" using assms by simp
  then show ?thesis
    by (simp add: upt_rec bit_iff_odd) (elim disjE; simp)
qed

lemma xterm_modifier_param_inj:
  assumes "m < 16" and "n < 16" and "xterm_modifier_param m = xterm_modifier_param n"
  shows "m = n"
proof -
  have "bit m 0 = bit n 0 \<and> bit m 2 = bit n 2 \<and> bit m 1 = bit n 1 \<and> bit m (3::nat) = bit n 3"
    using assms(3) by (simp add: xterm_modifier_param_eq sum_bits4_inj)
  then show ?thesis using nat_bits4 [OF assms(1)] nat_bits4 [OF assms(2)] by simp
qed

lemma xterm_modifier_param_range: "m < 16 \<Longrightarrow> \<exists>p. xterm_modifier_param m = Some p \<and> 1 \<le> p \<and> p \<le> 16"
  by (auto simp: xterm_modifier_param_eq of_bool_def)

subsection \<open>Mouse sequences determine the event\<close>

lemma dec_str_no: "\<not> is_digit c \<Longrightarrow> c \<notin> set (dec_str n)"
  using dec_str_digits by blast

lemma dec_str_append_inj:
  assumes "dec_str a @ c # s = dec_str b @ d # t" and "\<not> is_digit c" and "\<not> is_digit d"
  shows "a = b \<and> c = d \<and> s = t"
proof -
  have "takeWhile is_digit (dec_str k @ e # r) = dec_str k" if "\<not> is_digit e" for k e r
    using that dec_str_digits by (subst takeWhile_append2) auto
  with assms have eq: "dec_str a = dec_str b" by metis
  with assms(1) show ?thesis by (simp add: dec_str_inj)
qed

lemma sgr_sequence_inj:
  "sgr_sequence c x y r = sgr_sequence c' x' y' r' \<longleftrightarrow> c = c' \<and> x = x' \<and> y = y' \<and> r = r'"
proof
  assume eq: "sgr_sequence c x y r = sgr_sequence c' x' y' r'"
  have nd: "\<not> is_digit 59" "\<not> is_digit 109" "\<not> is_digit 77" by (simp_all add: is_digit_def)
  have fin: "(if b then lit ''m'' else lit ''M'') = [if b then 109 else 77]" for b
    by (simp add: lit_def)
  have semi: "lit '';'' = [59]" by (simp add: lit_def)
  from eq have e: "dec_str c @ 59 # (dec_str x @ 59 # (dec_str y @ [if r then 109 else 77])) =
      dec_str c' @ 59 # (dec_str x' @ 59 # (dec_str y' @ [if r' then 109 else 77]))"
    by (simp add: sgr_sequence_def fin semi)
  from dec_str_append_inj [OF e nd(1) nd(1)]
  have c: "c = c'" and e2: "dec_str x @ 59 # (dec_str y @ [if r then 109 else 77]) =
      dec_str x' @ 59 # (dec_str y' @ [if r' then 109 else 77])" by auto
  from dec_str_append_inj [OF e2 nd(1) nd(1)]
  have x: "x = x'" and e3: "dec_str y @ [if r then 109 else 77] = dec_str y' @ [if r' then 109 else 77]"
    by auto
  from dec_str_append_inj [OF e3] nd
  have "y = y' \<and> (if r then 109 else 77::nat) = (if r' then 109 else 77)" by auto
  with c x show "c = c' \<and> x = x' \<and> y = y' \<and> r = r'" by (auto split: if_splits)
qed simp

lemma list_all_scalar_digits: "list_all scalar (dec_str n)"
  using dec_str_digits by (fastforce simp: list_all_iff scalar_def is_digit_def)

lemma sgr_sequence_scalar: "list_all scalar (sgr_sequence c x y r)"
  using list_all_scalar_digits by (auto simp: sgr_sequence_def lit_def scalar_def)

definition mouse_flags :: "mouse_terminal_input \<Rightarrow> nat" where
  "mouse_flags i = of_bool (bit (mi_modifiers i) 0) + 2 * of_bool (bit (mi_modifiers i) 2) +
     4 * of_bool (bit (mi_modifiers i) 1) + 8 * of_bool (mi_action i = MouseMotion)"

lemma mouse_code_eq: "mouse_code i = mouse_button_code (mi_button i) + 4 * mouse_flags i"
  by (simp add: mouse_code_def Let_def mouse_flags_def)

lemma mouse_flags_le: "mouse_flags i \<le> 15"
  by (simp add: mouse_flags_def of_bool_def)

lemma mouse_button_code_inj:
  assumes "mouse_button_code a + 4 * k = mouse_button_code b + 4 * l" and "k \<le> 15" and "l \<le> 15"
  shows "a = b \<and> k = l"
proof -
  have mod: "(mouse_button_code x + 4 * n) mod 4 = mouse_button_code x mod 4" for x n
    by simp
  have div: "(mouse_button_code x + 4 * n) div 64 = mouse_button_code x div 64" if "n \<le> 15" for x n
    using that by (cases x) (simp_all add: mouse_button_code_def)
  have code: "mouse_button_code x = mouse_button_code x mod 4 + 64 * (mouse_button_code x div 64)" for x
    by (cases x) (simp_all add: mouse_button_code_def)
  have "mouse_button_code a = mouse_button_code b"
    using assms mod [of a k] mod [of b l] div [of k a] div [of l b] code [of a] code [of b] by metis
  moreover from this have "a = b"
    by (cases a; cases b) (simp_all add: mouse_button_code_def)
  ultimately show ?thesis using assms(1) by simp
qed

lemma mouse_code_inj:
  assumes "mouse_code i = mouse_code j"
  shows "mi_button i = mi_button j \<and> (mi_action i = MouseMotion \<longleftrightarrow> mi_action j = MouseMotion) \<and>
    (\<forall>b < 3. bit (mi_modifiers i) b = bit (mi_modifiers j) b)"
proof -
  have "mi_button i = mi_button j" and "mouse_flags i = mouse_flags j"
    using mouse_button_code_inj [of "mi_button i" "mouse_flags i" "mi_button j" "mouse_flags j"]
      assms mouse_flags_le by (simp_all add: mouse_code_eq)
  then have "bit (mi_modifiers i) 0 = bit (mi_modifiers j) 0"
    and "bit (mi_modifiers i) 2 = bit (mi_modifiers j) 2"
    and "bit (mi_modifiers i) 1 = bit (mi_modifiers j) 1"
    and "mi_action i = MouseMotion \<longleftrightarrow> mi_action j = MouseMotion"
    unfolding mouse_flags_def sum_bits4_inj by blast+
  moreover have "b = 0 \<or> b = 1 \<or> b = 2" if "b < 3" for b :: nat using that by arith
  ultimately show ?thesis using \<open>mi_button i = mi_button j\<close> by blast
qed

lemma sgr_mouse_determines_event:
  assumes "encode_sgr_mouse_input i = Some bs" and "encode_sgr_mouse_input j = Some bs"
  shows "mi_button i = mi_button j \<and> mi_action i = mi_action j \<and> mouse_position i = mouse_position j \<and>
    (\<forall>b < 3. bit (mi_modifiers i) b = bit (mi_modifiers j) b)"
proof -
  from assms obtain x y x' y' where pos: "mouse_position i = Some (x, y)" "mouse_position j = Some (x', y')"
    and bytes: "utf8_bytes (sgr_sequence (mouse_code i) x y (mi_action i = MouseRelease)) =
      utf8_bytes (sgr_sequence (mouse_code j) x' y' (mi_action j = MouseRelease))"
    by (auto simp: encode_sgr_mouse_input_def split: if_splits option.splits)
  from utf8_bytes_inj [OF sgr_sequence_scalar sgr_sequence_scalar bytes]
  have "mouse_code i = mouse_code j" "x = x'" "y = y'"
    "(mi_action i = MouseRelease) = (mi_action j = MouseRelease)"
    by (simp_all add: sgr_sequence_inj)
  with mouse_code_inj [of i j] pos show ?thesis
    by (cases "mi_action i"; cases "mi_action j") auto
qed

end
