(* ===== verification/Workspace.thy ===== *)
theory Workspace
  imports Pane_Tree Key_Encoding
begin

text \<open>
  The workspace of a session (\<open>Session\<close>, \<open>Tab\<close> of \<open>crates/nmux-core/src/session.rs\<close>): tabs,
  their trees of panes, and every operation that changes them. An operation returns the
  new session and the \<open>bool\<close> the code returns; the operations that run a terminal engine
  take it as the record of its methods and its state.

  The lemmas: which fields each operation leaves alone, that a refused operation changes
  nothing, that an accepted one moves the version, and that \<open>workspace_ok\<close> (the active tab
  exists, tab ids and leaf ids are distinct, every tab's active pane is in its own tree,
  every tree is binary, every pane's rows are aligned) holds of the initial session and
  is preserved by every operation.
\<close>

subsection \<open>State and access\<close>

record tab =
  tb_id :: ustring
  tb_title :: ustring
  tb_active_pane_id :: ustring
  tb_root :: pane

record session =
  ss_id :: ustring
  ss_version :: u64
  ss_active_tab_id :: ustring
  ss_tabs :: "tab list"

definition session_pane :: "session \<Rightarrow> ustring \<Rightarrow> pane option" where
  "session_pane s pane_id = find_map (\<lambda>t. pane_node (tb_root t) pane_id) (ss_tabs s)"

definition session_pane_data :: "session \<Rightarrow> ustring \<Rightarrow> pane_data option" where
  "session_pane_data s pane_id = map_option pane_fields (session_pane s pane_id)"

definition tab_pane_mut :: "(pane_data \<Rightarrow> pane_data) \<Rightarrow> tab \<Rightarrow> ustring \<Rightarrow> tab option" where
  "tab_pane_mut g t pane_id =
     map_option (\<lambda>r. t\<lparr>tb_root := r\<rparr>) (pane_node_mut g (tb_root t) pane_id)"

definition session_pane_mut :: "(pane_data \<Rightarrow> pane_data) \<Rightarrow> session \<Rightarrow> ustring \<Rightarrow> session option" where
  \<comment> \<open>\<open>pane_mut\<close> followed by the writes \<open>g\<close> through the reference it returns\<close>
  "session_pane_mut g s pane_id =
     map_option (\<lambda>ts. s\<lparr>ss_tabs := ts\<rparr>) (update_first (\<lambda>t. tab_pane_mut g t pane_id) (ss_tabs s))"

definition session_panes :: "session \<Rightarrow> pane_data list" where
  "session_panes s = concat (map (\<lambda>t. pane_list (tb_root t)) (ss_tabs s))"

definition session_leaves :: "session \<Rightarrow> pane_data list" where
  "session_leaves s = concat (map (\<lambda>t. leaf_list (tb_root t)) (ss_tabs s))"

definition leaf_pane_ids :: "session \<Rightarrow> ustring list" where
  "leaf_pane_ids s = foldl (\<lambda>ids t. collect_leaf_pane_ids (tb_root t) ids) [] (ss_tabs s)"

definition bump :: "session \<Rightarrow> session" where
  \<comment> \<open>\<open>self.version = self.version.saturating_add(1)\<close>\<close>
  "bump s = s\<lparr>ss_version := sat_add_u64 (ss_version s) 1\<rparr>"

definition pane_mut_or :: "(pane_data \<Rightarrow> pane_data) \<Rightarrow> session \<Rightarrow> ustring \<Rightarrow> session" where
  "pane_mut_or g s pane_id = (case session_pane_mut g s pane_id of Some s' \<Rightarrow> s' | None \<Rightarrow> s)"

lemma tab_pane_mut_None_iff: "tab_pane_mut g t k = None \<longleftrightarrow> pane_node (tb_root t) k = None"
  by (simp add: tab_pane_mut_def pane_node_mut_None_iff)

lemma session_pane_mut_None_iff: "session_pane_mut g s k = None \<longleftrightarrow> session_pane s k = None"
  by (simp add: session_pane_mut_def session_pane_def update_first_None_iff find_map_None_iff
      tab_pane_mut_None_iff)

lemma session_pane_is_find:
  "session_pane_data s k = find (\<lambda>d. pn_id d = k) (session_panes s)"
proof -
  have "find_map (\<lambda>t. map_option pane_fields (pane_node (tb_root t) k)) (ss_tabs s) =
      find_map (\<lambda>t. find (\<lambda>d. pn_id d = k) (pane_list (tb_root t))) (ss_tabs s)"
    by (simp add: pane_node_is_find)
  then show ?thesis
    by (simp add: session_pane_data_def session_pane_def session_panes_def find_concat find_map_map
        find_map_option_map)
qed

lemma session_pane_data_None: "session_pane_data s k = None \<longleftrightarrow> session_pane s k = None"
  by (simp add: session_pane_data_def)

lemma session_pane_mut_panes:
  assumes "session_pane_mut g s k = Some s'"
  shows "session_panes s' = modify_first (\<lambda>d. pn_id d = k) g (session_panes s)"
proof -
  from assms obtain ts where ts: "update_first (\<lambda>t. tab_pane_mut g t k) (ss_tabs s) = Some ts"
    and s': "s' = s\<lparr>ss_tabs := ts\<rparr>" by (auto simp: session_pane_mut_def)
  have "concat (map (\<lambda>t. pane_list (tb_root t)) ts) =
      modify_first (\<lambda>d. pn_id d = k) g (concat (map (\<lambda>t. pane_list (tb_root t)) (ss_tabs s)))"
    by (rule update_first_concat [OF _ _ ts])
      (auto simp: tab_pane_mut_def pane_node_mut_pane_list pane_node_mut_None_iff pane_node_None_iff)
  then show ?thesis by (simp add: s' session_panes_def)
qed

interpretation ws: keyed_store session_pane_data session_pane_mut session_panes pn_id
  by unfold_locales
    (auto simp: session_pane_is_find session_pane_mut_panes session_pane_mut_None_iff
      session_pane_data_None [symmetric])

subsection \<open>The initial session\<close>

definition initial_pane :: pane_data where
  "initial_pane =
     (let surface_lines = [lit ''nmux pane-1'', state_line];
          scrollback_lines = [boot_line, lit ''nmux pane-1'', state_line]
      in \<lparr>pn_id = lit ''pane-1'', pn_split_axis = AxisNone,
          pn_host = host_spec_local (lit ''local'') (command_spec_new (lit ''sh'')),
          pn_surface_version = 2, pn_last_patch_kind = PatchReplaceRows,
          pn_last_row_update_indices = [0, 1], pn_scrollback_version = 1, pn_cols = 80, pn_rows = 24,
          pn_resize_policy = ResizeFixed, pn_surface = SurfaceMain,
          pn_cursor = \<lparr>cu_row = 1, cu_col = 0, cu_visible = True, cu_shape = ShapeBlock, cu_blinking = True\<rparr>,
          pn_modes = terminal_modes_default, pn_terminal_title = [], pn_terminal_working_directory = [],
          pn_colors = terminal_colors_default, pn_last_palette_diff = None,
          pn_styles = [pane_style_default],
          pn_surface_lines = surface_lines,
          pn_surface_row_runs = [[cell_run_plain (lit ''nmux pane-1'')], [cell_run_plain state_line]],
          pn_surface_semantic_prompts = replicate (length surface_lines) RowNone,
          pn_surface_dirty_rows = replicate (length surface_lines) False,
          pn_surface_kitty = replicate (length surface_lines) False,
          pn_scrollback_lines = scrollback_lines,
          pn_scrollback_row_runs =
            [[cell_run_plain boot_line], [cell_run_plain (lit ''nmux pane-1'')], [cell_run_plain state_line]],
          pn_scrollback_semantic_prompts = replicate (length scrollback_lines) RowNone,
          pn_scrollback_dirty_rows = replicate (length scrollback_lines) False,
          pn_scrollback_kitty = replicate (length scrollback_lines) False\<rparr>)"

definition session_initial :: session where
  "session_initial =
     \<lparr>ss_id = lit ''local'', ss_version = 1, ss_active_tab_id = lit ''tab-1'',
      ss_tabs = [\<lparr>tb_id = lit ''tab-1'', tb_title = lit ''local'', tb_active_pane_id = lit ''pane-1'',
                  tb_root = Pane initial_pane []\<rparr>]\<rparr>"

subsection \<open>Terminal output and resizing\<close>

definition apply_pane_output_with_engine ::
  "'e terminal_engine \<Rightarrow> session \<Rightarrow> ustring \<Rightarrow> byte list \<Rightarrow> 'e \<Rightarrow> session \<times> 'e \<times> bool" where
  "apply_pane_output_with_engine ops s pane_id output engine =
     (case session_pane_data s pane_id of
        None \<Rightarrow> (s, engine, False)
      | Some pane \<Rightarrow>
          (case te_apply_output ops engine (terminal_input_of_pane pane) output of
             (engine', None) \<Rightarrow> (s, engine', False)
           | (engine', Some update) \<Rightarrow>
               (pane_mut_or (\<lambda>p. fst (apply_terminal_update p update False)) s pane_id, engine',
                snd (apply_terminal_update pane update False))))"

definition apply_pane_output :: "session \<Rightarrow> ustring \<Rightarrow> byte list \<Rightarrow> session \<times> bool" where
  "apply_pane_output s pane_id output =
     (case apply_pane_output_with_engine interim_engine s pane_id output (te_new interim_engine) of
        (s', _, changed) \<Rightarrow> (s', changed))"

definition clear_rows :: "pane_data \<Rightarrow> pane_data" where
  "clear_rows p =
     p\<lparr>pn_surface_lines := [], pn_surface_row_runs := [], pn_surface_semantic_prompts := [],
       pn_surface_dirty_rows := [], pn_surface_kitty := [],
       pn_scrollback_lines := [], pn_scrollback_row_runs := [], pn_scrollback_semantic_prompts := [],
       pn_scrollback_dirty_rows := [], pn_scrollback_kitty := []\<rparr>"

definition session_from_pane_output :: "byte list \<Rightarrow> session" where
  "session_from_pane_output output =
     fst (apply_pane_output (pane_mut_or clear_rows session_initial (lit ''pane-1'')) (lit ''pane-1'') output)"

definition resize_pane_data :: "u32 \<Rightarrow> u32 \<Rightarrow> terminal_update \<Rightarrow> pane_data \<Rightarrow> pane_data" where
  "resize_pane_data cols rows update p =
     fst (apply_terminal_update (p\<lparr>pn_cols := cols, pn_rows := rows\<rparr>) update True)"

definition commit_pane_resize_with_engine ::
  "'e terminal_engine \<Rightarrow> session \<Rightarrow> ustring \<Rightarrow> u32 \<Rightarrow> u32 \<Rightarrow> 'e \<Rightarrow> session \<times> 'e \<times> bool" where
  "commit_pane_resize_with_engine ops s pane_id cols rows engine =
     (case session_pane_data s pane_id of
        None \<Rightarrow> (s, engine, False)
      | Some pane \<Rightarrow>
          if pn_cols pane = cols \<and> pn_rows pane = rows then (s, engine, False)
          else (case te_resize ops engine (terminal_input_of_pane pane) cols rows of
                  (engine', None) \<Rightarrow> (s, engine', False)
                | (engine', Some update) \<Rightarrow>
                    (bump (pane_mut_or (resize_pane_data cols rows update) s pane_id), engine', True)))"

definition commit_pane_resize :: "session \<Rightarrow> ustring \<Rightarrow> u32 \<Rightarrow> u32 \<Rightarrow> session \<times> bool" where
  "commit_pane_resize s pane_id cols rows =
     (case commit_pane_resize_with_engine interim_engine s pane_id cols rows (te_new interim_engine) of
        (s', _, changed) \<Rightarrow> (s', changed))"

definition pane_resize_policy :: "session \<Rightarrow> ustring \<Rightarrow> resize_policy option" where
  "pane_resize_policy s pane_id = map_option pn_resize_policy (session_pane_data s pane_id)"

definition set_pane_resize_policy :: "session \<Rightarrow> ustring \<Rightarrow> resize_policy \<Rightarrow> session \<times> bool" where
  "set_pane_resize_policy s pane_id policy =
     (case session_pane_data s pane_id of
        None \<Rightarrow> (s, False)
      | Some pane \<Rightarrow>
          if pn_resize_policy pane = policy then (s, False)
          else (bump (pane_mut_or (\<lambda>p. p\<lparr>pn_resize_policy := policy\<rparr>) s pane_id), True))"

definition nmux_env_keys :: "ustring list" where
  "nmux_env_keys =
     [lit ''NMUX'', lit ''NMUX_SESSION_ID'', lit ''NMUX_PANE_ID'', lit ''NMUX_SOCKET'', lit ''NMUX_ORIGIN'']"

definition set_nmux_environment ::
  "ustring \<Rightarrow> ustring \<Rightarrow> ustring \<Rightarrow> ustring option \<Rightarrow> pane_data \<Rightarrow> pane_data" where
  "set_nmux_environment session_id pane_id socket_endpoint parent_origin_chain p =
     (let host = pn_host p; cmd = hs_command host; origin = pane_origin_chain parent_origin_chain (hs_id host);
          kept = filter (\<lambda>(key, _). key \<notin> set nmux_env_keys) (cmd_env cmd);
          env = kept @ [(lit ''NMUX'', lit ''1''), (lit ''NMUX_SESSION_ID'', session_id),
                        (lit ''NMUX_PANE_ID'', pane_id), (lit ''NMUX_SOCKET'', socket_endpoint),
                        (lit ''NMUX_ORIGIN'', origin)]
      in p\<lparr>pn_host := host\<lparr>hs_command := cmd\<lparr>cmd_env := env\<rparr>\<rparr>\<rparr>)"

definition set_pane_nmux_environment ::
  "session \<Rightarrow> ustring \<Rightarrow> ustring \<Rightarrow> ustring option \<Rightarrow> session \<times> bool" where
  "set_pane_nmux_environment s pane_id socket_endpoint parent_origin_chain =
     (case session_pane_mut (set_nmux_environment (ss_id s) pane_id socket_endpoint parent_origin_chain) s pane_id of
        None \<Rightarrow> (s, False)
      | Some s' \<Rightarrow> (s', True))"

subsection \<open>Tabs, focus and splits\<close>

definition find_tab :: "session \<Rightarrow> ustring \<Rightarrow> tab option" where
  "find_tab s tab_id = find (\<lambda>t. tb_id t = tab_id) (ss_tabs s)"

definition active_pane_id :: "session \<Rightarrow> ustring option" where
  "active_pane_id s =
     Option.bind (find_tab s (ss_active_tab_id s))
       (\<lambda>t. if pane_node (tb_root t) (tb_active_pane_id t) \<noteq> None then Some (tb_active_pane_id t) else None)"

definition add_tab :: "session \<Rightarrow> ustring \<Rightarrow> ustring \<Rightarrow> ustring \<Rightarrow> host_spec \<Rightarrow> session \<times> bool" where
  "add_tab s tab_id title pane_id host =
     (if tab_id = [] \<or> pane_id = [] \<or> list_ex (\<lambda>t. tb_id t = tab_id) (ss_tabs s)
         \<or> session_pane s pane_id \<noteq> None
      then (s, False)
      else case find_tab s (ss_active_tab_id s) of
          None \<Rightarrow> (s, False)
        | Some t \<Rightarrow>
            (let root = pane_fields (tb_root t);
                 new = \<lparr>tb_id = tab_id, tb_title = title, tb_active_pane_id = pane_id,
                        tb_root = Pane (new_pane_from_template pane_id host (pn_cols root) (pn_rows root)) []\<rparr>
             in (bump (s\<lparr>ss_tabs := ss_tabs s @ [new]\<rparr>), True)))"

definition switch_tab :: "session \<Rightarrow> ustring \<Rightarrow> session \<times> bool" where
  "switch_tab s tab_id =
     (case find_tab s tab_id of
        None \<Rightarrow> (s, False)
      | Some t \<Rightarrow>
          if pane_node (tb_root t) (tb_active_pane_id t) = None then (s, False)
          else if ss_active_tab_id s = tab_id then (s, False)
          else (bump (s\<lparr>ss_active_tab_id := tab_id\<rparr>), True))"

definition remove_at :: "nat \<Rightarrow> 'a list \<Rightarrow> 'a list" where
  "remove_at i xs = take i xs @ drop (Suc i) xs"

definition close_tab :: "session \<Rightarrow> ustring \<Rightarrow> session \<times> bool" where
  "close_tab s tab_id =
     (if length (ss_tabs s) \<le> 1 then (s, False)
      else case position (\<lambda>t. tb_id t = tab_id) (ss_tabs s) of
          None \<Rightarrow> (s, False)
        | Some index \<Rightarrow>
            (let tabs = remove_at index (ss_tabs s);
                 s1 = s\<lparr>ss_tabs := tabs\<rparr>;
                 s2 = (if ss_active_tab_id s = tab_id
                       then s1\<lparr>ss_active_tab_id := tb_id (tabs ! min index (length tabs - 1))\<rparr>
                       else s1)
             in (bump s2, True)))"

definition focus_pane :: "session \<Rightarrow> ustring \<Rightarrow> session \<times> bool" where
  "focus_pane s pane_id =
     (case position (\<lambda>t. tb_id t = ss_active_tab_id s) (ss_tabs s) of
        None \<Rightarrow> (s, False)
      | Some tab_index \<Rightarrow>
          (let t = ss_tabs s ! tab_index in
           if pane_node (tb_root t) pane_id = None then (s, False)
           else if tb_active_pane_id t = pane_id then (s, False)
           else (bump (s\<lparr>ss_tabs := (ss_tabs s)[tab_index := t\<lparr>tb_active_pane_id := pane_id\<rparr>]\<rparr>), True)))"

definition split_pane ::
  "session \<Rightarrow> ustring \<Rightarrow> split_axis \<Rightarrow> ustring \<Rightarrow> host_spec \<Rightarrow> session \<times> bool" where
  "split_pane s pane_id axis new_pane_id new_host =
     (if axis \<noteq> AxisHorizontal \<and> axis \<noteq> AxisVertical then (s, False)
      else if new_pane_id = [] \<or> session_pane s new_pane_id \<noteq> None then (s, False)
      else case position (\<lambda>t. tb_id t = ss_active_tab_id s) (ss_tabs s) of
          None \<Rightarrow> (s, False)
        | Some tab_index \<Rightarrow>
            (let t = ss_tabs s ! tab_index in
             case split_pane_node (tb_root t) pane_id axis new_pane_id new_host of
               None \<Rightarrow> (s, False)
             | Some root \<Rightarrow>
                 (bump (s\<lparr>ss_tabs := (ss_tabs s)[tab_index :=
                            t\<lparr>tb_root := root, tb_active_pane_id := new_pane_id\<rparr>]\<rparr>), True)))"

definition split_active_pane :: "session \<Rightarrow> split_axis \<Rightarrow> ustring \<Rightarrow> host_spec \<Rightarrow> session \<times> bool" where
  "split_active_pane s axis new_pane_id new_host =
     (case active_pane_id s of
        None \<Rightarrow> (s, False)
      | Some pane_id \<Rightarrow> split_pane s pane_id axis new_pane_id new_host)"

definition resize_intent_allowed :: "resize_policy \<Rightarrow> resize_reason \<Rightarrow> bool" where
  "resize_intent_allowed policy reason \<longleftrightarrow>
     (if policy = ResizeManual then reason = ReasonUserCommand else True)"


subsection \<open>What other components read\<close>

datatype attach_mode = AttachReadOnly | AttachReadWrite

record session_actor_info =
  ac_id :: ustring
  ac_user_id :: ustring
  ac_display_name :: ustring
  ac_mode :: attach_mode
  ac_focused_pane_id :: "ustring option"

definition initial_actor :: "attach_mode \<Rightarrow> session_actor_info" where
  "initial_actor mode =
     \<lparr>ac_id = lit ''local-actor'', ac_user_id = lit ''local-user'', ac_display_name = lit ''local'',
      ac_mode = mode, ac_focused_pane_id = Some (lit ''pane-1'')\<rparr>"

definition input_allowed :: "session_actor_info \<Rightarrow> bool" where
  "input_allowed actor \<longleftrightarrow> ac_mode actor = AttachReadWrite"

record pane_surface =
  pf_pane_id :: ustring
  pf_version :: u64
  pf_cols :: u32
  pf_rows :: u32
  pf_surface :: surface_kind
  pf_cursor :: cursor
  pf_modes :: terminal_modes
  pf_title :: ustring
  pf_working_directory :: ustring
  pf_colors :: terminal_colors
  pf_styles :: "pane_style list"
  pf_lines :: "ustring list"
  pf_row_runs :: "cell_run list list"
  pf_semantic_prompts :: "row_semantic_prompt list"
  pf_dirty_rows :: "bool list"
  pf_kitty :: "bool list"

record pane_scrollback =
  pb_pane_id :: ustring
  pb_version :: u64
  pb_styles :: "pane_style list"
  pb_colors :: terminal_colors
  pb_lines :: "ustring list"
  pb_row_runs :: "cell_run list list"
  pb_semantic_prompts :: "row_semantic_prompt list"
  pb_dirty_rows :: "bool list"
  pb_kitty :: "bool list"

definition surface_of_pane :: "pane_data \<Rightarrow> pane_surface" where
  "surface_of_pane p =
     \<lparr>pf_pane_id = pn_id p, pf_version = pn_surface_version p, pf_cols = pn_cols p, pf_rows = pn_rows p,
      pf_surface = pn_surface p, pf_cursor = pn_cursor p, pf_modes = pn_modes p,
      pf_title = pn_terminal_title p, pf_working_directory = pn_terminal_working_directory p,
      pf_colors = pn_colors p, pf_styles = pn_styles p, pf_lines = pn_surface_lines p,
      pf_row_runs = row_runs_for_lines (pn_surface_lines p) (pn_surface_row_runs p),
      pf_semantic_prompts = row_semantic_prompts_for_lines (pn_surface_lines p) (pn_surface_semantic_prompts p),
      pf_dirty_rows = row_dirty_flags_for_lines (pn_surface_lines p) (pn_surface_dirty_rows p),
      pf_kitty = row_kitty_placeholders_for_lines (pn_surface_lines p) (pn_surface_kitty p)\<rparr>"

definition scrollback_of_pane :: "pane_data \<Rightarrow> pane_scrollback" where
  "scrollback_of_pane p =
     \<lparr>pb_pane_id = pn_id p, pb_version = pn_scrollback_version p, pb_styles = pn_styles p,
      pb_colors = pn_colors p, pb_lines = pn_scrollback_lines p,
      pb_row_runs = row_runs_for_lines (pn_scrollback_lines p) (pn_scrollback_row_runs p),
      pb_semantic_prompts =
        row_semantic_prompts_for_lines (pn_scrollback_lines p) (pn_scrollback_semantic_prompts p),
      pb_dirty_rows = row_dirty_flags_for_lines (pn_scrollback_lines p) (pn_scrollback_dirty_rows p),
      pb_kitty = row_kitty_placeholders_for_lines (pn_scrollback_lines p) (pn_scrollback_kitty p)\<rparr>"

definition pane_surface :: "session \<Rightarrow> ustring \<Rightarrow> pane_surface option" where
  "pane_surface s pane_id = map_option surface_of_pane (session_pane_data s pane_id)"

definition pane_scrollback :: "session \<Rightarrow> ustring \<Rightarrow> pane_scrollback option" where
  "pane_scrollback s pane_id = map_option scrollback_of_pane (session_pane_data s pane_id)"

definition surface_version :: "session \<Rightarrow> ustring \<Rightarrow> u64 option" where
  "surface_version s pane_id = map_option pn_surface_version (session_pane_data s pane_id)"

definition scrollback_version :: "session \<Rightarrow> ustring \<Rightarrow> u64 option" where
  "scrollback_version s pane_id = map_option pn_scrollback_version (session_pane_data s pane_id)"

definition surface_patch_kind :: "session \<Rightarrow> ustring \<Rightarrow> patch_kind option" where
  "surface_patch_kind s pane_id = map_option pn_last_patch_kind (session_pane_data s pane_id)"

definition pane_mode :: "(terminal_modes \<Rightarrow> bool) \<Rightarrow> session \<Rightarrow> ustring \<Rightarrow> bool" where
  "pane_mode f s pane_id = option_is_some_and (\<lambda>p. f (pn_modes p)) (session_pane_data s pane_id)"

definition pane_focus_reporting :: "session \<Rightarrow> ustring \<Rightarrow> bool" where
  "pane_focus_reporting = pane_mode tm_focus_reporting"

definition pane_bracketed_paste :: "session \<Rightarrow> ustring \<Rightarrow> bool" where
  "pane_bracketed_paste = pane_mode tm_bracketed_paste"

definition pane_mouse_tracking :: "session \<Rightarrow> ustring \<Rightarrow> bool" where
  "pane_mouse_tracking = pane_mode tm_mouse_tracking"

definition pane_mouse_tracking_mode :: "session \<Rightarrow> ustring \<Rightarrow> mouse_tracking_mode option" where
  "pane_mouse_tracking_mode s pane_id =
     map_option (\<lambda>p. tm_mouse_tracking_mode (pn_modes p)) (session_pane_data s pane_id)"

definition pane_mouse_format :: "session \<Rightarrow> ustring \<Rightarrow> mouse_format option" where
  "pane_mouse_format s pane_id =
     map_option (\<lambda>p. tm_mouse_format (pn_modes p)) (session_pane_data s pane_id)"

definition pane_size :: "session \<Rightarrow> ustring \<Rightarrow> (u32 \<times> u32) option" where
  "pane_size s pane_id = map_option (\<lambda>p. (pn_cols p, pn_rows p)) (session_pane_data s pane_id)"

definition session_pane_host :: "session \<Rightarrow> ustring \<Rightarrow> host_spec option" where
  "session_pane_host s pane_id = map_option pn_host (session_pane_data s pane_id)"

definition pane_application_keypad :: "session \<Rightarrow> ustring \<Rightarrow> bool" where
  "pane_application_keypad = pane_mode tm_application_keypad"

definition pane_application_cursor :: "session \<Rightarrow> ustring \<Rightarrow> bool" where
  "pane_application_cursor = pane_mode tm_application_cursor"

lemma leaf_pane_ids_eq: "leaf_pane_ids s = map pn_id (session_leaves s)"
  by (simp add: leaf_pane_ids_def session_leaves_def collect_leaf_pane_ids_eq map_concat comp_def
      foldl_collect [where h = "\<lambda>t. map pn_id (leaf_list (tb_root t))"])

lemma surface_of_pane_rows:
  "surface_rows_aligned p \<Longrightarrow>
     pf_row_runs (surface_of_pane p) = pn_surface_row_runs p \<and>
     pf_semantic_prompts (surface_of_pane p) = pn_surface_semantic_prompts p \<and>
     pf_dirty_rows (surface_of_pane p) = pn_surface_dirty_rows p \<and>
     pf_kitty (surface_of_pane p) = pn_surface_kitty p"
  by (simp add: surface_of_pane_def surface_rows_aligned_def row_runs_for_lines_id row_vectors_for_lines_id)

lemma scrollback_of_pane_rows:
  "scrollback_rows_ok p \<Longrightarrow>
     pb_row_runs (scrollback_of_pane p) = pn_scrollback_row_runs p \<and>
     pb_semantic_prompts (scrollback_of_pane p) = pn_scrollback_semantic_prompts p \<and>
     pb_dirty_rows (scrollback_of_pane p) = pn_scrollback_dirty_rows p \<and>
     pb_kitty (scrollback_of_pane p) = pn_scrollback_kitty p"
  by (simp add: scrollback_of_pane_def scrollback_rows_ok_def row_runs_for_lines_id row_vectors_for_lines_id)

subsection \<open>The invariant\<close>

definition tab_ok :: "tab \<Rightarrow> bool" where
  "tab_ok t \<longleftrightarrow> tree_shape_ok (tb_root t) \<and> pane_node (tb_root t) (tb_active_pane_id t) \<noteq> None"

definition workspace_ok :: "session \<Rightarrow> bool" where
  "workspace_ok s \<longleftrightarrow>
     find_tab s (ss_active_tab_id s) \<noteq> None \<and>
     distinct (map tb_id (ss_tabs s)) \<and>
     distinct (leaf_pane_ids s) \<and>
     (\<forall>t \<in> set (ss_tabs s). tab_ok t) \<and>
     (\<forall>p \<in> set (session_panes s). pane_aligned p)"

lemma find_tab_None: "find_tab s k = None \<longleftrightarrow> k \<notin> set (map tb_id (ss_tabs s))"
  by (auto simp: find_tab_def find_None)

lemma bump_fields [simp]:
  "ss_id (bump s) = ss_id s" "ss_active_tab_id (bump s) = ss_active_tab_id s"
  "ss_tabs (bump s) = ss_tabs s" "ss_version (bump s) = sat_add_u64 (ss_version s) 1"
  by (simp_all add: bump_def)

lemma bump_views [simp]:
  "find_tab (bump s) k = find_tab s k" "session_panes (bump s) = session_panes s"
  "session_leaves (bump s) = session_leaves s" "leaf_pane_ids (bump s) = leaf_pane_ids s"
  "session_pane (bump s) k = session_pane s k" "session_pane_data (bump s) k = session_pane_data s k"
  by (simp_all add: find_tab_def session_panes_def session_leaves_def leaf_pane_ids_def session_pane_def
      session_pane_data_def)

lemma workspace_ok_bump [simp]: "workspace_ok (bump s) = workspace_ok s"
  by (simp add: workspace_ok_def)

lemma workspace_ok_active: "workspace_ok s \<Longrightarrow> \<exists>k. active_pane_id s = Some k \<and> session_pane s k \<noteq> None"
proof -
  assume ok: "workspace_ok s"
  then obtain t where t: "find_tab s (ss_active_tab_id s) = Some t"
    by (auto simp: workspace_ok_def)
  then have mem: "t \<in> set (ss_tabs s)" by (auto simp: find_tab_def find_Some_iff)
  with ok have node: "pane_node (tb_root t) (tb_active_pane_id t) \<noteq> None"
    by (auto simp: workspace_ok_def tab_ok_def)
  with mem have "session_pane s (tb_active_pane_id t) \<noteq> None"
    by (auto simp: session_pane_def find_map_None_iff)
  with t node show ?thesis by (auto simp: active_pane_id_def)
qed

lemma initial_pane_ok: "pane_ok initial_pane"
  by (simp add: pane_ok_def pane_aligned_def pane_bounded_def surface_rows_aligned_def scrollback_rows_ok_def
      patch_meta_ok_def initial_pane_def Let_def U64_MAX_def)

lemma initial_workspace_ok: "workspace_ok session_initial"
  using initial_pane_ok
  by (simp add: workspace_ok_def session_initial_def find_tab_def leaf_pane_ids_def session_panes_def
      tab_ok_def pane_ok_def) (simp add: initial_pane_def Let_def)

subsection \<open>Writes to one pane\<close>

definition harmless :: "(pane_data \<Rightarrow> pane_data) \<Rightarrow> bool" where
  \<comment> \<open>what every write of a session operation to a pane respects\<close>
  "harmless g \<longleftrightarrow>
     (\<forall>p. pn_id (g p) = pn_id p \<and> pn_split_axis (g p) = pn_split_axis p \<and> (pane_aligned p \<longrightarrow> pane_aligned (g p)))"

lemma harmless_update [intro]: "harmless (\<lambda>p. fst (apply_terminal_update p u f))"
  by (simp add: harmless_def frame_simps apply_terminal_update_aligned)

lemma pane_aligned_resized [simp]: "pane_aligned (p\<lparr>pn_cols := c, pn_rows := r\<rparr>) = pane_aligned p"
  by (simp add: pane_aligned_def surface_rows_aligned_def scrollback_rows_ok_def patch_meta_ok_def)

lemma harmless_resize [intro]: "harmless (resize_pane_data c r u)"
  by (simp add: harmless_def resize_pane_data_def frame_simps apply_terminal_update_aligned)

lemma harmless_policy [intro]: "harmless (\<lambda>p. p\<lparr>pn_resize_policy := k\<rparr>)"
  by (simp add: harmless_def pane_aligned_def surface_rows_aligned_def scrollback_rows_ok_def patch_meta_ok_def)

lemma harmless_environment [intro]: "harmless (set_nmux_environment a b c d)"
  by (simp add: harmless_def pane_aligned_def surface_rows_aligned_def scrollback_rows_ok_def
      patch_meta_ok_def set_nmux_environment_def Let_def)

lemma harmless_clear [intro]: "harmless clear_rows"
  by (simp add: harmless_def pane_aligned_def surface_rows_aligned_def scrollback_rows_ok_def
      patch_meta_ok_def clear_rows_def)

lemma pane_node_None_ids: "pane_node t q = None \<longleftrightarrow> q \<notin> set (map pn_id (pane_list t))"
  by (auto simp: pane_node_None_iff)

lemma tab_pane_mut_ok:
  assumes "tab_pane_mut g t k = Some t'" and "harmless g"
  shows "tb_id t' = tb_id t" and "tb_title t' = tb_title t"
    and "tb_active_pane_id t' = tb_active_pane_id t"
    and "map pn_id (leaf_list (tb_root t')) = map pn_id (leaf_list (tb_root t))"
    and "tab_ok t \<Longrightarrow> tab_ok t'"
proof -
  from assms(1) obtain r where r: "pane_node_mut g (tb_root t) k = Some r" and t': "t' = t\<lparr>tb_root := r\<rparr>"
    by (auto simp: tab_pane_mut_def)
  have key: "\<And>d. pn_id (g d) = pn_id d" using assms(2) by (simp add: harmless_def)
  have "map pn_id (pane_list r) = map pn_id (pane_list (tb_root t))"
    using tree.keys_upd [OF key r] by simp
  then have "set (map pn_id (pane_list r)) = set (map pn_id (pane_list (tb_root t)))" by simp
  then have node: "pane_node r q = None \<longleftrightarrow> pane_node (tb_root t) q = None" for q
    by (simp only: pane_node_None_ids)
  show "tb_id t' = tb_id t" "tb_title t' = tb_title t" "tb_active_pane_id t' = tb_active_pane_id t"
    by (simp_all add: t')
  show "map pn_id (leaf_list (tb_root t')) = map pn_id (leaf_list (tb_root t))"
    using leaf_list_mut [OF r key] by (simp add: t')
  show "tab_ok t \<Longrightarrow> tab_ok t'"
    using tree_shape_mut [OF r] node assms(2) by (simp add: tab_ok_def t' harmless_def)
qed

lemma session_pane_mut_ok:
  assumes "session_pane_mut g s k = Some s'" and "harmless g"
  shows "ss_id s' = ss_id s" and "ss_version s' = ss_version s" and "ss_active_tab_id s' = ss_active_tab_id s"
    and "map tb_id (ss_tabs s') = map tb_id (ss_tabs s)"
    and "leaf_pane_ids s' = leaf_pane_ids s"
    and "workspace_ok s \<Longrightarrow> workspace_ok s'"
proof -
  from assms(1) obtain ts where ts: "update_first (\<lambda>t. tab_pane_mut g t k) (ss_tabs s) = Some ts"
    and s': "s' = s\<lparr>ss_tabs := ts\<rparr>" by (auto simp: session_pane_mut_def)
  from ts obtain us t t' vs where tabs: "ss_tabs s = us @ t # vs" and ts': "ts = us @ t' # vs"
    and t': "tab_pane_mut g t k = Some t'" by (rule update_first_SomeE)
  note t_ok = tab_pane_mut_ok [OF t' assms(2)]
  show "ss_id s' = ss_id s" "ss_version s' = ss_version s" and act: "ss_active_tab_id s' = ss_active_tab_id s"
    by (simp_all add: s')
  show ids: "map tb_id (ss_tabs s') = map tb_id (ss_tabs s)"
    using t_ok(1) by (simp add: s' ts' tabs)
  show leaves: "leaf_pane_ids s' = leaf_pane_ids s"
    using t_ok(4) by (simp add: leaf_pane_ids_eq session_leaves_def s' ts' tabs)
  show "workspace_ok s'" if ok: "workspace_ok s"
  proof -
    have "find_tab s' (ss_active_tab_id s') \<noteq> None"
      using ok ids act by (simp add: workspace_ok_def find_tab_None)
    moreover have "\<forall>t \<in> set (ss_tabs s'). tab_ok t"
      using ok t_ok(5) by (auto simp: workspace_ok_def s' ts' tabs)
    moreover have "\<forall>p \<in> set (session_panes s'). pane_aligned p"
      using ok assms(2) by (intro ws.invariant_upd [OF _ _ assms(1)]) (auto simp: workspace_ok_def harmless_def)
    ultimately show ?thesis using ok ids leaves by (simp add: workspace_ok_def)
  qed
qed

lemma pane_mut_or_ok [inv_intros]: "workspace_ok s \<Longrightarrow> harmless g \<Longrightarrow> workspace_ok (pane_mut_or g s k)"
  by (auto simp: pane_mut_or_def session_pane_mut_ok split: option.split)

lemma pane_mut_or_frame [frame_simps]:
  "harmless g \<Longrightarrow> ss_id (pane_mut_or g s k) = ss_id s"
  "harmless g \<Longrightarrow> ss_version (pane_mut_or g s k) = ss_version s"
  "harmless g \<Longrightarrow> ss_active_tab_id (pane_mut_or g s k) = ss_active_tab_id s"
  "harmless g \<Longrightarrow> leaf_pane_ids (pane_mut_or g s k) = leaf_pane_ids s"
  by (auto simp: pane_mut_or_def session_pane_mut_ok split: option.split)

lemma pane_mut_or_look:
  assumes "harmless g" and "session_pane_data s k = Some p"
  shows "session_pane_data (pane_mut_or g s k) q = (if q = k then Some (g p) else session_pane_data s q)"
proof -
  have key: "\<And>d. pn_id (g d) = pn_id d" using assms(1) by (simp add: harmless_def)
  from ws.upd_Some [OF assms(2)] obtain s' where "session_pane_mut g s k = Some s'" by blast
  then show ?thesis
    using ws.look_upd_same [OF key] ws.look_upd_other [OF key] assms(2) by (auto simp: pane_mut_or_def)
qed


subsection \<open>Every operation preserves the invariant\<close>

lemma apply_pane_output_ok [inv_intros]:
  "workspace_ok s \<Longrightarrow> workspace_ok (fst (apply_pane_output_with_engine ops s k out e))"
  by (auto simp: apply_pane_output_with_engine_def pane_mut_or_ok harmless_update
      split: option.split prod.split)

lemma commit_pane_resize_ok [inv_intros]:
  "workspace_ok s \<Longrightarrow> workspace_ok (fst (commit_pane_resize_with_engine ops s k c r e))"
  by (auto simp: commit_pane_resize_with_engine_def pane_mut_or_ok harmless_resize
      split: option.split prod.split)

lemma set_pane_resize_policy_ok [inv_intros]:
  "workspace_ok s \<Longrightarrow> workspace_ok (fst (set_pane_resize_policy s k pol))"
  by (auto simp: set_pane_resize_policy_def pane_mut_or_ok harmless_policy split: option.split)

lemma set_pane_nmux_environment_ok [inv_intros]:
  "workspace_ok s \<Longrightarrow> workspace_ok (fst (set_pane_nmux_environment s k e par))"
  by (auto simp: set_pane_nmux_environment_def session_pane_mut_ok(6) [OF _ harmless_environment]
      split: option.split)

lemma workspace_ok_retab:
  assumes "workspace_ok s" and "i < length (ss_tabs s)" and "tb_id t = tb_id (ss_tabs s ! i)" and "tab_ok t"
    and "distinct (leaf_pane_ids (s\<lparr>ss_tabs := (ss_tabs s)[i := t]\<rparr>))"
    and "\<forall>p \<in> set (pane_list (tb_root t)). pane_aligned p"
  shows "workspace_ok (s\<lparr>ss_tabs := (ss_tabs s)[i := t]\<rparr>)"
proof -
  have ids: "map tb_id ((ss_tabs s)[i := t]) = map tb_id (ss_tabs s)"
    using assms(2,3) by (metis list_update_id map_update nth_map)
  moreover have "\<forall>t' \<in> set ((ss_tabs s)[i := t]). tab_ok t' \<and> (\<forall>p \<in> set (pane_list (tb_root t')). pane_aligned p)"
    using assms(1,4,6) set_update_subset_insert [of "ss_tabs s" i t]
    by (auto simp: workspace_ok_def session_panes_def)
  ultimately show ?thesis
    using assms(1,5) by (auto simp: workspace_ok_def find_tab_None session_panes_def)
qed

lemma tab_index_facts:
  assumes "workspace_ok s" and "position (\<lambda>t. tb_id t = ss_active_tab_id s) (ss_tabs s) = Some i"
  shows "i < length (ss_tabs s)" and "tb_id (ss_tabs s ! i) = ss_active_tab_id s"
    and "tab_ok (ss_tabs s ! i)" and "\<forall>p \<in> set (pane_list (tb_root (ss_tabs s ! i))). pane_aligned p"
proof -
  show i: "i < length (ss_tabs s)" and "tb_id (ss_tabs s ! i) = ss_active_tab_id s"
    using position_SomeD [OF assms(2)] by auto
  show "tab_ok (ss_tabs s ! i)" "\<forall>p \<in> set (pane_list (tb_root (ss_tabs s ! i))). pane_aligned p"
    using assms(1) i by (auto simp: workspace_ok_def session_panes_def)
qed

lemma focus_pane_ok [inv_intros]: "workspace_ok s \<Longrightarrow> workspace_ok (fst (focus_pane s k))"
proof (cases "position (\<lambda>t. tb_id t = ss_active_tab_id s) (ss_tabs s)")
  case (Some i)
  assume ok: "workspace_ok s"
  note i = tab_index_facts [OF ok Some]
  let ?t = "(ss_tabs s ! i)\<lparr>tb_active_pane_id := k\<rparr>"
  have "workspace_ok (s\<lparr>ss_tabs := (ss_tabs s)[i := ?t]\<rparr>)"
    if "pane_node (tb_root (ss_tabs s ! i)) k \<noteq> None"
  proof (rule workspace_ok_retab [OF ok i(1)])
    have "map (\<lambda>t. leaf_list (tb_root t)) ((ss_tabs s)[i := ?t]) = map (\<lambda>t. leaf_list (tb_root t)) (ss_tabs s)"
      using i(1) by (simp add: map_update list_update_same_conv)
    then show "distinct (leaf_pane_ids (s\<lparr>ss_tabs := (ss_tabs s)[i := ?t]\<rparr>))"
      using ok by (simp add: workspace_ok_def leaf_pane_ids_eq session_leaves_def)
  qed (use i that in \<open>auto simp: tab_ok_def\<close>)
  with Some ok show ?thesis by (auto simp: focus_pane_def Let_def)
qed (simp add: focus_pane_def)

lemma switch_tab_ok [inv_intros]: "workspace_ok s \<Longrightarrow> workspace_ok (fst (switch_tab s k))"
  by (auto simp: switch_tab_def workspace_ok_def find_tab_def leaf_pane_ids_def session_panes_def
      split: option.split)

lemma set_remove_at: "set (remove_at i xs) \<subseteq> set xs"
  by (auto simp: remove_at_def dest: in_set_takeD in_set_dropD)

lemma remove_at_parts: "i < length xs \<Longrightarrow> \<exists>us vs. xs = us @ xs ! i # vs \<and> remove_at i xs = us @ vs \<and> length us = i"
  by (intro exI [of _ "take i xs"] exI [of _ "drop (Suc i) xs"])
    (simp add: remove_at_def Cons_nth_drop_Suc)

lemma distinct_drop_middle: "distinct (as @ bs @ cs) \<Longrightarrow> distinct (as @ cs)"
  by auto

lemma close_tab_ok [inv_intros]: "workspace_ok s \<Longrightarrow> workspace_ok (fst (close_tab s k))"
proof -
  assume ok: "workspace_ok s"
  show ?thesis
  proof (cases "length (ss_tabs s) \<le> 1 \<or> position (\<lambda>t. tb_id t = k) (ss_tabs s) = None")
    case False
    then obtain i where len: "1 < length (ss_tabs s)" and pos: "position (\<lambda>t. tb_id t = k) (ss_tabs s) = Some i"
      by auto
    from position_SomeD [OF pos] have i: "i < length (ss_tabs s)" and k: "tb_id (ss_tabs s ! i) = k" by auto
    from remove_at_parts [OF i] obtain us vs where tabs: "ss_tabs s = us @ ss_tabs s ! i # vs"
      and rest: "remove_at i (ss_tabs s) = us @ vs" by blast
    define act where "act = (if ss_active_tab_id s = k then tb_id ((us @ vs) ! min i (length (us @ vs) - 1))
                             else ss_active_tab_id s)"
    have fst: "fst (close_tab s k) = bump (s\<lparr>ss_tabs := us @ vs, ss_active_tab_id := act\<rparr>)"
      using len pos by (auto simp: close_tab_def Let_def rest act_def)
    have "us @ vs \<noteq> []" using len tabs by (metis append_self_conv2 length_Cons less_numeral_extra(4) list.size(3) One_nat_def append_is_Nil_conv)
    then have "0 < length (us @ vs)" by blast
    then have "min i (length (us @ vs) - 1) < length (us @ vs)" by linarith
    then have mem: "(us @ vs) ! min i (length (us @ vs) - 1) \<in> set (us @ vs)" by (rule nth_mem)
    have "act \<in> set (map tb_id (us @ vs))"
    proof (cases "ss_active_tab_id s = k")
      case True
      then have "act = tb_id ((us @ vs) ! min i (length (us @ vs) - 1))" by (simp add: act_def)
      with mem show ?thesis by (simp only: set_map image_eqI)
    next
      case False
      have "ss_active_tab_id s \<in> set (map tb_id (ss_tabs s))"
        using ok by (simp add: workspace_ok_def find_tab_None)
      then have "ss_active_tab_id s \<in> set (map tb_id (us @ ss_tabs s ! i # vs))" using tabs by simp
      with False k show ?thesis by (auto simp: act_def)
    qed
    moreover have "distinct (map tb_id us @ tb_id (ss_tabs s ! i) # map tb_id vs)"
      using ok tabs by (metis workspace_ok_def map_append list.simps(9))
    then have "distinct (map tb_id (us @ vs))" by simp
    moreover have "leaf_pane_ids s = map pn_id (concat (map (\<lambda>t. leaf_list (tb_root t)) us)) @
        map pn_id (leaf_list (tb_root (ss_tabs s ! i))) @ map pn_id (concat (map (\<lambda>t. leaf_list (tb_root t)) vs))"
      unfolding leaf_pane_ids_eq session_leaves_def by (subst tabs) simp
    then have "distinct (map pn_id (concat (map (\<lambda>t. leaf_list (tb_root t)) us)) @
        map pn_id (concat (map (\<lambda>t. leaf_list (tb_root t)) vs)))"
      using ok distinct_drop_middle by (metis workspace_ok_def)
    moreover have sub: "set (us @ vs) \<subseteq> set (ss_tabs s)" by (subst tabs) auto
    then have "\<forall>t \<in> set (us @ vs). tab_ok t \<and> (\<forall>p \<in> set (pane_list (tb_root t)). pane_aligned p)"
      using ok by (auto simp: workspace_ok_def session_panes_def)
    ultimately show ?thesis
      unfolding fst workspace_ok_bump workspace_ok_def leaf_pane_ids_eq session_leaves_def find_tab_None
      by (simp add: session_panes_def ball_Un)
  qed (use ok in \<open>auto simp: close_tab_def\<close>)
qed

lemma leaves_subset_panes: "set (session_leaves s) \<subseteq> set (session_panes s)"
  using leaf_list_subset by (fastforce simp: session_leaves_def session_panes_def)

lemma session_pane_None_ids: "session_pane s k = None \<longleftrightarrow> k \<notin> pn_id ` set (session_panes s)"
  by (auto simp: session_pane_data_None [symmetric] session_pane_is_find find_None)

lemma fresh_not_leaf: "session_pane s k = None \<Longrightarrow> k \<notin> set (leaf_pane_ids s)"
  using leaves_subset_panes [of s] by (auto simp: session_pane_None_ids leaf_pane_ids_eq)

lemma add_tab_ok [inv_intros]: "workspace_ok s \<Longrightarrow> workspace_ok (fst (add_tab s tid ti pid h))"
proof -
  assume ok: "workspace_ok s"
  show ?thesis
  proof (cases "snd (add_tab s tid ti pid h)")
    case True
    then obtain t where fresh: "tid \<notin> set (map tb_id (ss_tabs s))" "session_pane s pid = None"
      and t: "find_tab s (ss_active_tab_id s) = Some t"
      by (auto simp: add_tab_def list_ex_iff split: if_splits option.splits)
    have "pid \<notin> set (map pn_id (concat (map (\<lambda>t. leaf_list (tb_root t)) (ss_tabs s))))"
      using fresh_not_leaf [OF fresh(2)] by (simp add: leaf_pane_ids_eq session_leaves_def)
    moreover have "ss_active_tab_id s \<in> tb_id ` set (ss_tabs s)"
      using ok by (simp add: workspace_ok_def find_tab_None)
    ultimately show ?thesis using ok fresh t True
      by (auto simp: add_tab_def Let_def workspace_ok_def find_tab_None leaf_pane_ids_eq session_leaves_def
          session_panes_def tab_ok_def new_pane_aligned list_ex_iff split: if_splits option.splits)
  next
    case False
    then have "fst (add_tab s tid ti pid h) = s"
      by (auto simp: add_tab_def Let_def split: if_splits option.splits)
    with ok show ?thesis by simp
  qed
qed

lemma distinct_replace_leaf:
  "distinct (as @ k # bs) \<Longrightarrow> n \<notin> set (as @ k # bs) \<Longrightarrow> distinct (as @ k # n # bs)"
  by auto

lemma split_pane_ok [inv_intros]: "workspace_ok s \<Longrightarrow> workspace_ok (fst (split_pane s k axis n h))"
proof -
  assume ok: "workspace_ok s"
  show ?thesis
  proof (cases "snd (split_pane s k axis n h)")
    case False
    then have "fst (split_pane s k axis n h) = s"
      by (auto simp: split_pane_def Let_def split: if_splits option.splits)
    with ok show ?thesis by simp
  next
    case True
    then obtain i root where pos: "position (\<lambda>t. tb_id t = ss_active_tab_id s) (ss_tabs s) = Some i"
      and root: "split_pane_node (tb_root (ss_tabs s ! i)) k axis n h = Some root"
      and fresh: "session_pane s n = None"
      by (auto simp: split_pane_def Let_def split: if_splits option.splits)
    note i = tab_index_facts [OF ok pos]
    let ?t = "(ss_tabs s ! i)\<lparr>tb_root := root, tb_active_pane_id := n\<rparr>"
    have fst: "fst (split_pane s k axis n h) = bump (s\<lparr>ss_tabs := (ss_tabs s)[i := ?t]\<rparr>)"
      using True pos root fresh by (auto simp: split_pane_def Let_def split: if_splits)
    from split_pane_node_lists [OF root] obtain d box e w xs ys us vs where
      at: "split_at d k axis n h box e w" and
      l: "pane_list (tb_root (ss_tabs s ! i)) = xs @ d # ys" "pane_list root = xs @ box # e # w # ys"
      "leaf_list (tb_root (ss_tabs s ! i)) = us @ d # vs" "leaf_list root = us @ e # w # vs" by blast
    note at = split_at_facts [OF at]
    from i(1) obtain as bs where tabs: "ss_tabs s = as @ ss_tabs s ! i # bs" and up: "(ss_tabs s)[i := ?t] = as @ ?t # bs"
      by (metis id_take_nth_drop upd_conv_take_nth_drop)
    have leaves: "leaf_pane_ids s = (map pn_id (concat (map (\<lambda>t. leaf_list (tb_root t)) as) @ us)) @ k #
        (map pn_id (vs @ concat (map (\<lambda>t. leaf_list (tb_root t)) bs)))"
      unfolding leaf_pane_ids_eq session_leaves_def by (subst tabs) (simp add: l at)
    have "distinct (leaf_pane_ids (s\<lparr>ss_tabs := (ss_tabs s)[i := ?t]\<rparr>))"
      using ok fresh_not_leaf [OF fresh] distinct_replace_leaf [of _ k _ n]
      unfolding workspace_ok_def leaves unfolding leaf_pane_ids_eq session_leaves_def
      by (auto simp: up l at)
    moreover have "tab_ok ?t"
      using i(3) tree_shape_split [OF root] at(3) l(2)
      by (auto simp: tab_ok_def pane_node_None_iff)
    moreover have "\<forall>p \<in> set (pane_list (tb_root ?t)). pane_aligned p"
      using i(4) at(5) l by auto
    ultimately show ?thesis
      unfolding fst workspace_ok_bump by (intro workspace_ok_retab ok i(1)) simp_all
  qed
qed

lemma split_active_pane_ok [inv_intros]: "workspace_ok s \<Longrightarrow> workspace_ok (fst (split_active_pane s axis n h))"
  by (auto simp: split_active_pane_def split_pane_ok split: option.split)

lemma split_pane_leaves:
  assumes "workspace_ok s" and "snd (split_pane s k axis n h)"
  shows "\<exists>us vs. leaf_pane_ids s = us @ k # vs \<and> leaf_pane_ids (fst (split_pane s k axis n h)) = us @ k # n # vs"
proof -
  from assms(2) obtain i root where pos: "position (\<lambda>t. tb_id t = ss_active_tab_id s) (ss_tabs s) = Some i"
    and root: "split_pane_node (tb_root (ss_tabs s ! i)) k axis n h = Some root"
    and fst: "fst (split_pane s k axis n h) =
      bump (s\<lparr>ss_tabs := (ss_tabs s)[i := (ss_tabs s ! i)\<lparr>tb_root := root, tb_active_pane_id := n\<rparr>]\<rparr>)"
    by (auto simp: split_pane_def Let_def split: if_splits option.splits)
  note i = tab_index_facts [OF assms(1) pos]
  from split_pane_node_lists [OF root] obtain d box e w xs ys us vs where
    at: "split_at d k axis n h box e w" and
    l: "leaf_list (tb_root (ss_tabs s ! i)) = us @ d # vs" "leaf_list root = us @ e # w # vs" by blast
  note at = split_at_facts [OF at]
  from i(1) obtain as bs where tabs: "ss_tabs s = as @ ss_tabs s ! i # bs"
    and up: "\<And>t. (ss_tabs s)[i := t] = as @ t # bs"
    by (metis id_take_nth_drop upd_conv_take_nth_drop)
  have "leaf_pane_ids s = (map pn_id (concat (map (\<lambda>t. leaf_list (tb_root t)) as) @ us)) @ k #
      (map pn_id (vs @ concat (map (\<lambda>t. leaf_list (tb_root t)) bs)))"
    unfolding leaf_pane_ids_eq session_leaves_def by (subst tabs) (simp add: l at)
  moreover have "leaf_pane_ids (fst (split_pane s k axis n h)) =
      (map pn_id (concat (map (\<lambda>t. leaf_list (tb_root t)) as) @ us)) @ k # n #
      (map pn_id (vs @ concat (map (\<lambda>t. leaf_list (tb_root t)) bs)))"
    unfolding fst bump_views unfolding leaf_pane_ids_eq session_leaves_def by (simp add: up l at)
  ultimately show ?thesis by blast
qed

end
