(* ===== verification/Frames.thy ===== *)
theory Frames
  imports Workspace
begin

text \<open>
  The frames a session sends (\<open>crates/nmux-core/src/session.rs\<close>, the \<open>..._frame\<close> functions and the
  \<open>build_...\<close> helpers). FlatBuffers is not part of the sources: a frame is the tables the code
  hands to the builder, an optional field (string, vector, table) being an \<open>option\<close>, and reading
  a field gives what was stored. A surface row, a row update and a scrollback row have the
  same fields and share the record \<open>wire_row\<close>; the tables for cursor, modes and styles have the
  fields of the session's own records and reuse them.

  The two row hashes are written out: FNV-1a over the UTF-8 bytes of the line, and over the
  bytes \<open>std::hash::Hash\<close> feeds for the runs and the row metadata. The lemma
  \<open>row_state_bytes_inj\<close> shows that the second byte string determines the row.
\<close>

subsection \<open>Tables\<close>

record wire_run =
  wn_text :: "ustring option"
  wn_cell_widths :: "byte list option"
  wn_style_id :: u32
  wn_flags :: u32
  wn_hyperlink_id :: u32
  wn_semantic_content :: cell_semantic_content

record wire_row =
  wr_row :: u64
  wr_runs :: "wire_run list option"
  wr_dirty_hash :: "64 word"
  wr_row_state_hash :: "64 word"
  wr_semantic_prompt :: row_semantic_prompt
  wr_dirty :: bool
  wr_kitty :: bool

record wire_colors =
  wc_default_fg :: u32
  wc_default_bg :: u32
  wc_cursor :: u32
  wc_cursor_set :: bool
  wc_palette :: "u32 list option"
  wc_diff_start :: u32
  wc_diff :: "u32 list option"

record wire_metadata =
  wm_title :: "ustring option"
  wm_working_directory :: "ustring option"

record wire_hyperlink =
  wh_id :: u32
  wh_uri :: "ustring option"
  wh_osc8_id :: "ustring option"
  wh_params :: "ustring option"

record wire_snapshot =
  wsn_pane_id :: "ustring option"
  wsn_version :: u64
  wsn_surface :: surface_kind
  wsn_cols :: u32
  wsn_rows :: u32
  wsn_cursor :: "cursor option"
  wsn_modes :: "terminal_modes option"
  wsn_metadata :: "wire_metadata option"
  wsn_colors :: "wire_colors option"
  wsn_styles :: "pane_style list option"
  wsn_rows_data :: "wire_row list option"
  wsn_hyperlinks :: "wire_hyperlink list option"

record wire_patch =
  wpt_pane_id :: "ustring option"
  wpt_base_version :: u64
  wpt_version :: u64
  wpt_kind :: patch_kind
  wpt_row_updates :: "wire_row list option"
  wpt_cursor :: "cursor option"
  wpt_modes :: "terminal_modes option"
  wpt_metadata :: "wire_metadata option"
  wpt_colors :: "wire_colors option"

record wire_chunk =
  wck_pane_id :: "ustring option"
  wck_scrollback_version :: u64
  wck_start_line :: u64
  wck_total_lines :: u64
  wck_rows :: "wire_row list option"
  wck_styles :: "pane_style list option"
  wck_colors :: "wire_colors option"
  wck_hyperlinks :: "wire_hyperlink list option"

record wire_fetch =
  wf_pane_id :: "ustring option"
  wf_actor_id :: "ustring option"
  wf_start_line :: u64
  wf_line_count :: u32
  wf_known_version :: u64

record wire_presence =
  wp_actor_id :: "ustring option"
  wp_user_id :: "ustring option"
  wp_display_name :: "ustring option"
  wp_mode :: wire_attach_mode
  wp_kind :: presence_kind
  wp_focused_pane_id :: "ustring option"

record wire_attach_status =
  wst_pane_id :: "ustring option"
  wst_surface_version :: u64
  wst_surface_state :: attach_surface_state

record wire_error =
  we_code :: error_code
  we_message :: "ustring option"
  we_retryable :: bool
  we_pane_id :: "ustring option"
  we_input_seq :: u64

record wire_key =
  wk_text :: "ustring option"
  wk_key_name :: "ustring option"
  wk_modifiers :: u32

record wire_mouse =
  wmo_row :: u32
  wmo_col :: u32
  wmo_button :: wire_mouse_button
  wmo_modifiers :: u32
  wmo_action :: wire_mouse_action
  wmo_has_pixels :: bool
  wmo_pixel_x :: u32
  wmo_pixel_y :: u32

record wire_paste =
  wpa_text :: "ustring option"
  wpa_bracketed :: bool

record wire_input =
  wi_pane_id :: "ustring option"
  wi_actor_id :: "ustring option"
  wi_input_seq :: u64
  wi_kind :: input_kind
  wi_key :: "wire_key option"
  wi_mouse :: "wire_mouse option"
  wi_paste :: "wire_paste option"
  wi_raw :: "byte list option option"
  wi_focus :: "bool option"

record wire_resize =
  wre_pane_id :: "ustring option"
  wre_actor_id :: "ustring option"
  wre_cols :: u32
  wre_rows :: u32
  wre_reason :: resize_reason

datatype wire_pane_node =
  WirePaneNode (wpn_pane_id: "ustring option") (wpn_kind: pane_kind) (wpn_split_axis: split_axis)
    (wpn_children: "wire_pane_node list option") (wpn_surface_version: u64) (wpn_cols: u32)
    (wpn_rows: u32) (wpn_resize_policy: resize_policy)

record wire_tab =
  wtb_tab_id :: "ustring option"
  wtb_title :: "ustring option"
  wtb_root :: "wire_pane_node option"
  wtb_active_pane_id :: "ustring option"

record wire_workspace =
  wws_version :: u64
  wws_session_id :: "ustring option"
  wws_tabs :: "wire_tab list option"
  wws_active_tab_id :: "ustring option"

record wire_session_item =
  wsi_session_id :: "ustring option"
  wsi_title :: "ustring option"

record wire_session_inventory =
  wsn_active_session_id :: "ustring option"
  wsn_sessions :: "wire_session_item list option"

record wire_control_command =
  wcc_actor_id :: "ustring option"
  wcc_command_seq :: u64
  wcc_kind :: control_command_kind
  wcc_pane_id :: "ustring option"
  wcc_tab_id :: "ustring option"
  wcc_split_axis :: split_axis
  wcc_title :: "ustring option"
  wcc_session_id :: "ustring option"

record wire_ping =
  wpi_actor_id :: "ustring option"
  wpi_ping_seq :: u64

record wire_client_connection =
  wcl_connection_id :: "ustring option"
  wcl_actor_id :: "ustring option"
  wcl_user_id :: "ustring option"
  wcl_display_name :: "ustring option"
  wcl_hostname :: "ustring option"
  wcl_client_kind :: "ustring option"
  wcl_mode :: wire_attach_mode
  wcl_focused_pane_id :: "ustring option"
  wcl_connected_at_mono_ms :: u64
  wcl_last_seen_mono_ms :: u64
  wcl_has_last_input :: bool
  wcl_last_input_mono_ms :: u64

record wire_client_inventory =
  wci_version :: u64
  wci_clients :: "wire_client_connection list option"

record wire_client_inventory_patch =
  wcp_base_version :: u64
  wcp_version :: u64
  wcp_joined :: "wire_client_connection list option"
  wcp_updated :: "wire_client_connection list option"
  wcp_left :: "ustring list option"

record wire_known_surface =
  wks_pane_id :: "ustring option"
  wks_version :: u64

record wire_attach_request =
  war_actor_id :: "ustring option"
  war_user_id :: "ustring option"
  war_display_name :: "ustring option"
  war_mode :: wire_attach_mode
  war_focused_pane_id :: "ustring option"
  war_known_surfaces :: "wire_known_surface list option"
  war_hostname :: "ustring option"
  war_client_kind :: "ustring option"
  war_subscribe_client_inventory :: bool

datatype envelope_body =
  BodyWorkspace wire_workspace
| BodySessionInventory wire_session_inventory
| BodyControlCommand wire_control_command
| BodyPing wire_ping
| BodyPong wire_ping
| BodyClientInventory wire_client_inventory
| BodyClientInventoryPatch wire_client_inventory_patch
| BodyAttachRequest wire_attach_request
| BodySnapshot wire_snapshot
| BodyPatch wire_patch
| BodyInput wire_input
| BodyResize wire_resize
| BodyError wire_error
| BodyFetch wire_fetch
| BodyChunk wire_chunk
| BodyPresence wire_presence
| BodyAttachStatus wire_attach_status
| BodyOther nat

record envelope =
  en_protocol_version :: u32
  en_session_id :: "ustring option"
  en_connection_id :: "ustring option"
  en_seq :: u64
  en_ack :: u64
  en_sent_at_mono_ms :: u64
  en_body :: envelope_body

definition PROTOCOL_VERSION :: u32 where "PROTOCOL_VERSION = 1"

definition session_envelope :: "session \<Rightarrow> ustring \<Rightarrow> u64 \<Rightarrow> envelope_body \<Rightarrow> envelope" where
  \<comment> \<open>the \<open>EnvelopeArgs\<close> every frame function ends with\<close>
  "session_envelope s connection_id seq body =
     \<lparr>en_protocol_version = PROTOCOL_VERSION, en_session_id = Some (ss_id s),
      en_connection_id = Some connection_id, en_seq = seq, en_ack = 0, en_sent_at_mono_ms = 0,
      en_body = body\<rparr>"

subsection \<open>Row hashes\<close>

definition FNV_OFFSET :: "64 word" where "FNV_OFFSET = 0xCBF29CE484222325"
definition FNV_PRIME :: "64 word" where "FNV_PRIME = 0x00000100000001B3"

definition fnv_step :: "64 word \<Rightarrow> byte \<Rightarrow> 64 word" where
  "fnv_step hash b = (Bit_Operations.xor hash (ucast b)) * FNV_PRIME"

definition fnv_hash :: "byte list \<Rightarrow> 64 word" where
  "fnv_hash bs = foldl fnv_step FNV_OFFSET bs"

definition stable_row_hash :: "ustring \<Rightarrow> 64 word" where
  "stable_row_hash line = fnv_hash (utf8_bytes line)"

fun le_bytes :: "nat \<Rightarrow> nat \<Rightarrow> byte list" where
  \<comment> \<open>the \<open>k\<close> low bytes of a number, least significant first (\<open>to_ne_bytes\<close> on the
     little-endian targets of the program)\<close>
  "le_bytes 0 v = []"
| "le_bytes (Suc k) v = of_nat (v mod 256) # le_bytes k (v div 256)"

record row_state_metadata =
  rm_semantic_prompt :: row_semantic_prompt
  rm_dirty :: bool
  rm_kitty :: bool

definition run_state_bytes :: "cell_run \<Rightarrow> byte list" where
  \<comment> \<open>\<open>Hash for String\<close> writes the bytes and 0xFF, \<open>Hash for Vec<u8>\<close> the length as \<open>usize\<close> and the
     bytes, \<open>u32\<close> four bytes, \<open>i8\<close> and \<open>bool\<close> one\<close>
  "run_state_bytes run =
     utf8_bytes (cr_text run) @ [0xFF] @
     le_bytes 8 (length (cr_cell_widths run)) @ cr_cell_widths run @
     le_bytes 4 (cr_style_id run) @ le_bytes 4 (cr_flags run) @ le_bytes 4 (cr_hyperlink_id run) @
     [of_int (cell_semantic_content_code (cr_semantic_content run))]"

definition metadata_state_bytes :: "row_state_metadata \<Rightarrow> byte list" where
  "metadata_state_bytes m =
     [of_int (row_semantic_prompt_code (rm_semantic_prompt m)), of_bool (rm_dirty m), of_bool (rm_kitty m)]"

definition row_state_bytes :: "cell_run list \<Rightarrow> row_state_metadata \<Rightarrow> byte list" where
  "row_state_bytes runs m = concat (map run_state_bytes runs) @ metadata_state_bytes m"

definition row_state_hash :: "cell_run list \<Rightarrow> row_state_metadata \<Rightarrow> 64 word" where
  "row_state_hash runs m = fnv_hash (row_state_bytes runs m)"

subsection \<open>Building the tables\<close>

definition get_or :: "'a list \<Rightarrow> nat \<Rightarrow> 'a \<Rightarrow> 'a" where
  \<comment> \<open>\<open>.get(i).copied().unwrap_or(d)\<close>\<close>
  "get_or xs i d = (case get xs i of Some x \<Rightarrow> x | None \<Rightarrow> d)"

lemma get_or_in: "i < length xs \<Longrightarrow> get_or xs i d = xs ! i"
  by (simp add: get_or_def get_def)

definition build_cell_run :: "cell_run \<Rightarrow> wire_run" where
  "build_cell_run run =
     \<lparr>wn_text = Some (cr_text run), wn_cell_widths = Some (cr_cell_widths run),
      wn_style_id = cr_style_id run, wn_flags = cr_flags run, wn_hyperlink_id = 0,
      wn_semantic_content = cr_semantic_content run\<rparr>"

definition build_cell_runs :: "cell_run list \<Rightarrow> wire_run list" where
  "build_cell_runs runs = map build_cell_run runs"

definition row_metadata_at :: "row_semantic_prompt list \<Rightarrow> bool list \<Rightarrow> bool list \<Rightarrow> nat \<Rightarrow> row_state_metadata" where
  "row_metadata_at prompts dirty kitty row =
     \<lparr>rm_semantic_prompt = get_or prompts row RowNone, rm_dirty = get_or dirty row False,
      rm_kitty = get_or kitty row False\<rparr>"

definition build_wire_row :: "u64 \<Rightarrow> ustring \<Rightarrow> cell_run list \<Rightarrow> row_state_metadata \<Rightarrow> wire_row" where
  "build_wire_row row line line_runs m =
     \<lparr>wr_row = row, wr_runs = Some (build_cell_runs line_runs), wr_dirty_hash = stable_row_hash line,
      wr_row_state_hash = row_state_hash line_runs m, wr_semantic_prompt = rm_semantic_prompt m,
      wr_dirty = rm_dirty m, wr_kitty = rm_kitty m\<rparr>"

definition build_terminal_modes :: "terminal_modes \<Rightarrow> terminal_modes" where
  "build_terminal_modes modes =
     \<lparr>tm_bracketed_paste = tm_bracketed_paste modes, tm_mouse_tracking = tm_mouse_tracking modes,
      tm_focus_reporting = tm_focus_reporting modes, tm_application_keypad = tm_application_keypad modes,
      tm_application_cursor = tm_application_cursor modes, tm_origin = tm_origin modes,
      tm_wraparound = tm_wraparound modes, tm_mouse_tracking_mode = tm_mouse_tracking_mode modes,
      tm_mouse_format = tm_mouse_format modes\<rparr>"

definition build_cursor :: "cursor \<Rightarrow> cursor" where
  "build_cursor c =
     \<lparr>cu_row = cu_row c, cu_col = cu_col c, cu_visible = cu_visible c, cu_shape = cu_shape c,
      cu_blinking = cu_blinking c\<rparr>"

definition build_style :: "pane_style \<Rightarrow> pane_style" where
  "build_style s = \<lparr>ps_fg = ps_fg s, ps_bg = ps_bg s, ps_underline = ps_underline s, ps_flags = ps_flags s\<rparr>"

lemma build_ids [simp]: "build_terminal_modes m = m" "build_cursor c = c" "build_style s = s"
  by (simp_all add: build_terminal_modes_def build_cursor_def build_style_def)

definition build_terminal_metadata :: "ustring \<Rightarrow> ustring \<Rightarrow> wire_metadata" where
  "build_terminal_metadata title wd = \<lparr>wm_title = Some title, wm_working_directory = Some wd\<rparr>"

definition build_terminal_colors :: "terminal_colors \<Rightarrow> palette_diff option \<Rightarrow> bool \<Rightarrow> wire_colors" where
  "build_terminal_colors colors diff include_full_palette =
     \<lparr>wc_default_fg = tco_default_fg colors, wc_default_bg = tco_default_bg colors,
      wc_cursor = tco_cursor colors, wc_cursor_set = tco_cursor_set colors,
      wc_palette = (if include_full_palette then Some (tco_palette colors) else None),
      wc_diff_start = (case diff of None \<Rightarrow> 0 | Some d \<Rightarrow> pd_start d),
      wc_diff = map_option pd_colors diff\<rparr>"

subsection \<open>Surface frames\<close>

definition snapshot_rows :: "pane_surface \<Rightarrow> wire_row list" where
  "snapshot_rows f =
     map (\<lambda>(row, (line, line_runs)).
            build_wire_row row line line_runs
              (row_metadata_at (pf_semantic_prompts f) (pf_dirty_rows f) (pf_kitty f) row))
         (enumerate 0 (zip (pf_lines f) (pf_row_runs f)))"

definition pane_surface_frame_for_pane :: "session \<Rightarrow> ustring \<Rightarrow> u64 \<Rightarrow> ustring \<Rightarrow> envelope option" where
  "pane_surface_frame_for_pane s connection_id seq pane_id =
     (case pane_surface s pane_id of
        None \<Rightarrow> None
      | Some f \<Rightarrow>
          Some (session_envelope s connection_id seq (BodySnapshot
            \<lparr>wsn_pane_id = Some (pf_pane_id f), wsn_version = pf_version f, wsn_surface = pf_surface f,
             wsn_cols = pf_cols f, wsn_rows = pf_rows f,
             wsn_cursor = Some (build_cursor (pf_cursor f)),
             wsn_modes = Some (build_terminal_modes (pf_modes f)),
             wsn_metadata = Some (build_terminal_metadata (pf_title f) (pf_working_directory f)),
             wsn_colors = Some (build_terminal_colors (pf_colors f) None True),
             wsn_styles = Some (map build_style (pf_styles f)),
             wsn_rows_data = Some (snapshot_rows f),
             wsn_hyperlinks = Some []\<rparr>)))"

definition patch_row_update :: "pane_surface \<Rightarrow> nat \<Rightarrow> wire_row" where
  "patch_row_update f row =
     (let line = get_or (pf_lines f) row [];
          line_runs = (case get (pf_row_runs f) row of
                         Some runs \<Rightarrow> runs | None \<Rightarrow> [cell_run_plain line])
      in build_wire_row row line line_runs
           (row_metadata_at (pf_semantic_prompts f) (pf_dirty_rows f) (pf_kitty f) row))"

definition pane_surface_patch_frame_for_pane ::
  "session \<Rightarrow> ustring \<Rightarrow> u64 \<Rightarrow> ustring \<Rightarrow> u64 \<Rightarrow> envelope option" where
  "pane_surface_patch_frame_for_pane s connection_id seq pane_id base_version =
     (case pane_surface s pane_id of
        None \<Rightarrow> None
      | Some f \<Rightarrow>
          (let pane = session_pane_data s (pf_pane_id f);
               patch_kind = (case pane of Some p \<Rightarrow> pn_last_patch_kind p | None \<Rightarrow> PatchReplaceRows);
               indices = (case pane of Some p \<Rightarrow> pn_last_row_update_indices p | None \<Rightarrow> []);
               row_updates = (if patch_kind = PatchReplaceRows then map (patch_row_update f) indices else []);
               diff = (if patch_kind = PatchColorOnly
                       then Option.bind pane pn_last_palette_diff else None)
           in Some (session_envelope s connection_id seq (BodyPatch
            \<lparr>wpt_pane_id = Some (pf_pane_id f), wpt_base_version = base_version,
             wpt_version = pf_version f, wpt_kind = patch_kind,
             wpt_row_updates = Some row_updates,
             wpt_cursor = Some (build_cursor (pf_cursor f)),
             wpt_modes = Some (build_terminal_modes (pf_modes f)),
             wpt_metadata = Some (build_terminal_metadata (pf_title f) (pf_working_directory f)),
             wpt_colors = Some (build_terminal_colors (pf_colors f) diff
                                  (patch_kind \<noteq> PatchColorOnly))\<rparr>))))"

subsection \<open>Scrollback frames\<close>

definition selected_range :: "nat \<Rightarrow> u32 \<Rightarrow> 'a list \<Rightarrow> 'a list" where
  \<comment> \<open>\<open>lines.get(start..end)\<close> with \<open>end = (start + count).min(lines.len())\<close>; a start behind the end gives
     nothing\<close>
  "selected_range start count xs =
     (let stop = min (start + count) (length xs) in if start \<le> stop then drop start (take stop xs) else [])"

definition scrollback_chunk_frame_for_pane ::
  "session \<Rightarrow> ustring \<Rightarrow> u64 \<Rightarrow> ustring \<Rightarrow> u64 \<Rightarrow> u32 \<Rightarrow> envelope option" where
  "scrollback_chunk_frame_for_pane s connection_id seq pane_id start_line line_count =
     (if start_line = 0 \<or> line_count = 0 then None
      else case pane_scrollback s pane_id of
          None \<Rightarrow> None
        | Some b \<Rightarrow>
            (let start = start_line - 1;
                 selected = selected_range start line_count (pb_lines b);
                 rows = map (\<lambda>(offset, line).
                               let row_index = start + offset;
                                   line_runs = pb_row_runs b ! row_index
                               in build_wire_row (start_line + offset) line line_runs
                                    (row_metadata_at (pb_semantic_prompts b) (pb_dirty_rows b) (pb_kitty b) row_index))
                            (enumerate 0 selected)
             in Some (session_envelope s connection_id seq (BodyChunk
                  \<lparr>wck_pane_id = Some (pb_pane_id b), wck_scrollback_version = pb_version b,
                   wck_start_line = start_line, wck_total_lines = length (pb_lines b),
                   wck_rows = Some rows, wck_styles = Some (map build_style (pb_styles b)),
                   wck_colors = Some (build_terminal_colors (pb_colors b) None True),
                   wck_hyperlinks = Some []\<rparr>))))"

record input_context =
  ic_connection_id :: ustring
  ic_seq :: u64
  ic_actor_id :: ustring
  ic_pane_id :: ustring
  ic_input_seq :: u64

definition scrollback_fetch_frame :: "session \<Rightarrow> input_context \<Rightarrow> u64 \<Rightarrow> u32 \<Rightarrow> u64 \<Rightarrow> envelope" where
  "scrollback_fetch_frame s c start_line line_count known_scrollback_version =
     session_envelope s (ic_connection_id c) (ic_seq c) (BodyFetch
       \<lparr>wf_pane_id = Some (ic_pane_id c), wf_actor_id = Some (ic_actor_id c), wf_start_line = start_line,
        wf_line_count = line_count, wf_known_version = known_scrollback_version\<rparr>)"

subsection \<open>Presence, status and error frames\<close>

definition attach_mode_as_protocol :: "attach_mode \<Rightarrow> wire_attach_mode" where
  "attach_mode_as_protocol m = (case m of AttachReadOnly \<Rightarrow> WireReadOnly | AttachReadWrite \<Rightarrow> WireReadWrite)"

definition presence_update_frame :: "session \<Rightarrow> ustring \<Rightarrow> u64 \<Rightarrow> session_actor_info \<Rightarrow> envelope" where
  "presence_update_frame s connection_id seq actor =
     session_envelope s connection_id seq (BodyPresence
       \<lparr>wp_actor_id = Some (ac_id actor), wp_user_id = Some (ac_user_id actor),
        wp_display_name = Some (ac_display_name actor), wp_mode = attach_mode_as_protocol (ac_mode actor),
        wp_kind = PresenceJoined, wp_focused_pane_id = ac_focused_pane_id actor\<rparr>)"

definition attach_status_frame ::
  "session \<Rightarrow> ustring \<Rightarrow> u64 \<Rightarrow> ustring \<Rightarrow> attach_surface_state \<Rightarrow> envelope" where
  "attach_status_frame s connection_id seq pane_id surface_state =
     session_envelope s connection_id seq (BodyAttachStatus
       \<lparr>wst_pane_id = Some pane_id,
        wst_surface_version = (case surface_version s pane_id of Some v \<Rightarrow> v | None \<Rightarrow> 0),
        wst_surface_state = surface_state\<rparr>)"

definition error_frame_with_context ::
  "session \<Rightarrow> ustring \<Rightarrow> u64 \<Rightarrow> error_code \<Rightarrow> ustring \<Rightarrow> bool \<Rightarrow> ustring option \<Rightarrow> u64 \<Rightarrow> envelope" where
  "error_frame_with_context s connection_id seq code message retryable pane_id input_seq =
     session_envelope s connection_id seq (BodyError
       \<lparr>we_code = code, we_message = Some message, we_retryable = retryable, we_pane_id = pane_id,
        we_input_seq = input_seq\<rparr>)"

definition error_frame :: "session \<Rightarrow> ustring \<Rightarrow> u64 \<Rightarrow> error_code \<Rightarrow> ustring \<Rightarrow> bool \<Rightarrow> envelope" where
  "error_frame s connection_id seq code message retryable =
     error_frame_with_context s connection_id seq code message retryable None 0"

subsection \<open>Input and resize frames\<close>

definition input_event :: "input_context \<Rightarrow> input_kind \<Rightarrow> wire_input" where
  "input_event c kind =
     \<lparr>wi_pane_id = Some (ic_pane_id c), wi_actor_id = Some (ic_actor_id c), wi_input_seq = ic_input_seq c,
      wi_kind = kind, wi_key = None, wi_mouse = None, wi_paste = None, wi_raw = None, wi_focus = None\<rparr>"

definition input_frame :: "session \<Rightarrow> input_context \<Rightarrow> wire_input \<Rightarrow> envelope" where
  "input_frame s c i = session_envelope s (ic_connection_id c) (ic_seq c) (BodyInput i)"

definition key_input_frame :: "session \<Rightarrow> input_context \<Rightarrow> ustring \<Rightarrow> envelope" where
  "key_input_frame s c t =
     input_frame s c ((input_event c InKey)
       \<lparr>wi_key := Some \<lparr>wk_text = Some t, wk_key_name = None, wk_modifiers = 0\<rparr>\<rparr>)"

definition named_key_input_frame_with_modifiers :: "session \<Rightarrow> input_context \<Rightarrow> ustring \<Rightarrow> u32 \<Rightarrow> envelope" where
  "named_key_input_frame_with_modifiers s c key_name modifiers =
     input_frame s c ((input_event c InKey)
       \<lparr>wi_key := Some \<lparr>wk_text = None, wk_key_name = Some key_name, wk_modifiers = modifiers\<rparr>\<rparr>)"

definition raw_input_frame :: "session \<Rightarrow> input_context \<Rightarrow> byte list \<Rightarrow> envelope" where
  "raw_input_frame s c bytes = input_frame s c ((input_event c InRawBytes)\<lparr>wi_raw := Some (Some bytes)\<rparr>)"

definition paste_input_frame :: "session \<Rightarrow> input_context \<Rightarrow> ustring \<Rightarrow> bool \<Rightarrow> envelope" where
  "paste_input_frame s c t bracketed =
     input_frame s c ((input_event c InPaste)\<lparr>wi_paste := Some \<lparr>wpa_text = Some t, wpa_bracketed = bracketed\<rparr>\<rparr>)"

definition focus_input_frame :: "session \<Rightarrow> input_context \<Rightarrow> bool \<Rightarrow> envelope" where
  "focus_input_frame s c focused = input_frame s c ((input_event c InFocus)\<lparr>wi_focus := Some focused\<rparr>)"

record mouse_input_spec =
  ms_row :: u32
  ms_col :: u32
  ms_pixel_x :: "u32 option"
  ms_pixel_y :: "u32 option"
  ms_button :: wire_mouse_button
  ms_action :: wire_mouse_action
  ms_modifiers :: u32

definition unwrap_or_default :: "nat option \<Rightarrow> nat" where
  "unwrap_or_default x = (case x of Some v \<Rightarrow> v | None \<Rightarrow> 0)"

definition mouse_input_frame :: "session \<Rightarrow> input_context \<Rightarrow> mouse_input_spec \<Rightarrow> envelope" where
  "mouse_input_frame s c m =
     input_frame s c ((input_event c InMouse)
       \<lparr>wi_mouse := Some
          \<lparr>wmo_row = ms_row m, wmo_col = ms_col m, wmo_button = ms_button m,
           wmo_modifiers = ms_modifiers m, wmo_action = ms_action m,
           wmo_has_pixels = (ms_pixel_x m \<noteq> None \<and> ms_pixel_y m \<noteq> None),
           wmo_pixel_x = unwrap_or_default (ms_pixel_x m),
           wmo_pixel_y = unwrap_or_default (ms_pixel_y m)\<rparr>\<rparr>)"

definition resize_intent_frame ::
  "session \<Rightarrow> ustring \<Rightarrow> u64 \<Rightarrow> ustring \<Rightarrow> ustring \<Rightarrow> u32 \<Rightarrow> u32 \<Rightarrow> resize_reason \<Rightarrow> envelope" where
  "resize_intent_frame s connection_id seq actor_id pane_id cols rows reason =
     session_envelope s connection_id seq (BodyResize
       \<lparr>wre_pane_id = Some pane_id, wre_actor_id = Some actor_id, wre_cols = cols, wre_rows = rows,
        wre_reason = reason\<rparr>)"

subsection \<open>The workspace frame\<close>

fun build_pane_node :: "pane \<Rightarrow> wire_pane_node" where
  "build_pane_node (Pane d cs) =
     WirePaneNode (Some (pn_id d)) KindPty (pn_split_axis d)
       (if cs = [] then None else Some (map build_pane_node cs))
       (pn_surface_version d) (pn_cols d) (pn_rows d) (pn_resize_policy d)"

definition workspace_tree_frame :: "session \<Rightarrow> ustring \<Rightarrow> u64 \<Rightarrow> envelope" where
  "workspace_tree_frame s connection_id seq =
     session_envelope s connection_id seq (BodyWorkspace
       \<lparr>wws_version = ss_version s, wws_session_id = Some (ss_id s),
        wws_tabs = Some (map (\<lambda>t. \<lparr>wtb_tab_id = Some (tb_id t), wtb_title = Some (tb_title t),
                                   wtb_root = Some (build_pane_node (tb_root t)),
                                   wtb_active_pane_id = Some (tb_active_pane_id t)\<rparr>) (ss_tabs s)),
        wws_active_tab_id = Some (ss_active_tab_id s)\<rparr>)"

subsection \<open>The hashed bytes determine the row\<close>

lemma length_le_bytes [simp]: "length (le_bytes k v) = k"
  by (induction k arbitrary: v) auto

lemma le_bytes_inj: "v < 256 ^ k \<Longrightarrow> w < 256 ^ k \<Longrightarrow> le_bytes k v = le_bytes k w \<Longrightarrow> v = w"
proof (induction k arbitrary: v w)
  case (Suc k)
  then have "v div 256 = w div 256" by (simp add: less_mult_imp_div_less mult.commute)
  moreover from Suc.prems have "v mod 256 = w mod 256" by (simp add: of_nat_byte_eq)
  ultimately show ?case by (metis div_mult_mod_eq)
qed simp

lemma byte_ff_eq: "(0xFF :: byte) = of_nat n \<Longrightarrow> 255 \<le> n"
proof (rule ccontr)
  assume eq: "(0xFF :: byte) = of_nat n" and "\<not> 255 \<le> n"
  then have "n < 255" by simp
  then have "unat (of_nat n :: byte) = n" by (simp add: unat_of_nat_byte)
  moreover have "unat (0xFF :: byte) = 255" by simp
  ultimately show False using eq \<open>n < 255\<close> by (metis less_irrefl)
qed

lemma utf8_char_no_ff:
  assumes "scalar c" shows "0xFF \<notin> set (utf8_char c)"
proof
  assume "0xFF \<in> set (utf8_char c)"
  then consider "c < 0x80" "(0xFF :: byte) = of_nat c"
    | "0x80 \<le> c" "c < 0x800" "(0xFF :: byte) = of_nat (0xC0 + c div 64)"
    | "c < 0x10000" "(0xFF :: byte) = of_nat (0xE0 + c div 4096)"
    | "(0xFF :: byte) = of_nat (0xF0 + c div 262144)"
    | k where "k < 64" "(0xFF :: byte) = of_nat (0x80 + k)"
    unfolding utf8_char_def
    by (auto simp del: of_nat_add split: if_splits) (metis mod_less_divisor zero_less_numeral)+
  then show False
  proof cases
    case 1
    then show ?thesis using byte_ff_eq [OF 1(2)] by arith
  next
    case 2
    then show ?thesis using byte_ff_eq [OF 2(3)] by arith
  next
    case 5
    then show ?thesis using byte_ff_eq [OF 5(2)] by arith
  next
    case 3
    then show ?thesis using byte_ff_eq [OF 3(2)] by arith
  next
    case 4
    have "c < 0x110000" using assms by (auto simp: scalar_def)
    then show ?thesis using byte_ff_eq [OF 4] by arith
  qed
qed

lemma utf8_bytes_no_ff: "list_all scalar s \<Longrightarrow> 0xFF \<notin> set (utf8_bytes s)"
  by (induction s) (auto simp: utf8_char_no_ff)

definition run_encodable :: "cell_run \<Rightarrow> bool" where
  "run_encodable r \<longleftrightarrow>
     list_all scalar (cr_text r) \<and> length (cr_cell_widths r) \<le> U64_MAX \<and>
     cr_style_id r \<le> U32_MAX \<and> cr_flags r \<le> U32_MAX \<and> cr_hyperlink_id r \<le> U32_MAX \<and>
     cell_semantic_content_known (cr_semantic_content r)"

lemma split_at_first: "x \<notin> set as \<Longrightarrow> x \<notin> set bs \<Longrightarrow> as @ x # s = bs @ x # t \<Longrightarrow> as = bs \<and> s = t"
proof (induction as arbitrary: bs)
  case Nil
  then show ?case by (cases bs) auto
next
  case (Cons a as)
  then show ?case by (cases bs) auto
qed

lemma byte_of_int_inj:
  "0 \<le> i \<Longrightarrow> i < 256 \<Longrightarrow> 0 \<le> j \<Longrightarrow> j < 256 \<Longrightarrow> (of_int i :: byte) = of_int j \<Longrightarrow> i = j"
proof -
  assume b: "0 \<le> i" "i < 256" "0 \<le> j" "j < 256" and eq: "(of_int i :: byte) = of_int j"
  have i: "(of_int i :: byte) = of_nat (nat i)" using b(1) by (metis nat_0_le of_int_of_nat_eq)
  have j: "(of_int j :: byte) = of_nat (nat j)" using b(3) by (metis nat_0_le of_int_of_nat_eq)
  have lt: "nat i < 256" "nat j < 256" using b by simp_all
  have "(of_nat (nat i) :: byte) = of_nat (nat j)" using eq unfolding i j .
  then have "nat i = nat j" using of_nat_byte_eq [OF lt] by blast
  with b show "i = j" by simp
qed

lemma cell_semantic_content_byte:
  assumes "cell_semantic_content_known a" and "cell_semantic_content_known b"
    and "(of_int (cell_semantic_content_code a) :: byte) = of_int (cell_semantic_content_code b)"
  shows "a = b"
proof -
  have "cell_semantic_content_code a = cell_semantic_content_code b"
    using cell_semantic_content_code_range [OF assms(1)] cell_semantic_content_code_range [OF assms(2)] assms(3)
    by (intro byte_of_int_inj) auto
  then show ?thesis using assms(1,2) cell_semantic_content_of_code_code by metis
qed

lemma row_semantic_prompt_byte:
  assumes "row_semantic_prompt_known a" and "row_semantic_prompt_known b"
    and "(of_int (row_semantic_prompt_code a) :: byte) = of_int (row_semantic_prompt_code b)"
  shows "a = b"
proof -
  have "row_semantic_prompt_code a = row_semantic_prompt_code b"
    using row_semantic_prompt_code_range [OF assms(1)] row_semantic_prompt_code_range [OF assms(2)] assms(3)
    by (intro byte_of_int_inj) auto
  then show ?thesis using assms(1,2) row_semantic_prompt_of_code_code by metis
qed

lemma run_state_bytes_prefix:
  assumes "run_encodable r" and "run_encodable q"
    and eq: "run_state_bytes r @ s = run_state_bytes q @ t"
  shows "r = q \<and> s = t"
proof -
  have utf8_eq: "utf8_bytes (cr_text r) = utf8_bytes (cr_text q)" and
    rest: "le_bytes 8 (length (cr_cell_widths r)) @ cr_cell_widths r @
        le_bytes 4 (cr_style_id r) @ le_bytes 4 (cr_flags r) @ le_bytes 4 (cr_hyperlink_id r) @
        [of_int (cell_semantic_content_code (cr_semantic_content r))] @ s =
      le_bytes 8 (length (cr_cell_widths q)) @ cr_cell_widths q @
        le_bytes 4 (cr_style_id q) @ le_bytes 4 (cr_flags q) @ le_bytes 4 (cr_hyperlink_id q) @
        [of_int (cell_semantic_content_code (cr_semantic_content q))] @ t"
    using assms split_at_first [of "0xFF" "utf8_bytes (cr_text r)" "utf8_bytes (cr_text q)"]
    by (simp_all add: run_state_bytes_def run_encodable_def utf8_bytes_no_ff)
  from rest have len: "le_bytes 8 (length (cr_cell_widths r)) = le_bytes 8 (length (cr_cell_widths q))"
    by (simp add: append_eq_append_conv)
  then have "length (cr_cell_widths r) = length (cr_cell_widths q)"
    using assms(1,2) by (intro le_bytes_inj [OF _ _ len]) (auto simp: run_encodable_def U64_MAX_def)
  with rest len have parts: "cr_cell_widths r = cr_cell_widths q"
    "le_bytes 4 (cr_style_id r) = le_bytes 4 (cr_style_id q)"
    "le_bytes 4 (cr_flags r) = le_bytes 4 (cr_flags q)"
    "le_bytes 4 (cr_hyperlink_id r) = le_bytes 4 (cr_hyperlink_id q)"
    "(of_int (cell_semantic_content_code (cr_semantic_content r)) :: byte) =
       of_int (cell_semantic_content_code (cr_semantic_content q))" "s = t"
    by (auto simp: append_eq_append_conv)
  have "cr_text r = cr_text q" using utf8_eq assms(1,2) by (auto simp: run_encodable_def intro: utf8_bytes_inj)
  moreover have "cr_style_id r = cr_style_id q" "cr_flags r = cr_flags q" "cr_hyperlink_id r = cr_hyperlink_id q"
    using parts assms(1,2) by (auto simp: run_encodable_def U32_MAX_def intro!: le_bytes_inj [where k = 4])
  moreover have "cr_semantic_content r = cr_semantic_content q"
    using parts assms(1,2) by (auto simp: run_encodable_def intro: cell_semantic_content_byte)
  ultimately show ?thesis using parts by (auto intro: cell_run.equality)
qed

lemma length_run_state_bytes: "3 < length (run_state_bytes r)"
  by (simp add: run_state_bytes_def)

lemma row_state_bytes_inj:
  assumes "list_all run_encodable rs" and "list_all run_encodable qs"
    and "row_semantic_prompt_known (rm_semantic_prompt m)" and "row_semantic_prompt_known (rm_semantic_prompt n)"
    and "row_state_bytes rs m = row_state_bytes qs n"
  shows "rs = qs \<and> m = n"
  using assms(1,2,5)
proof (induction rs arbitrary: qs)
  case Nil
  then have "length (concat (map run_state_bytes qs)) = 0"
    by (auto simp: row_state_bytes_def metadata_state_bytes_def dest: arg_cong [of _ _ length])
  then have qs: "qs = []" using length_run_state_bytes [of "hd qs"] by (cases qs) auto
  with Nil show ?case
    using assms(3,4) row_semantic_prompt_byte
    by (auto simp: row_state_bytes_def metadata_state_bytes_def of_bool_eq_iff intro!: row_state_metadata.equality)
next
  case (Cons r rs)
  show ?case
  proof (cases qs)
    case Nil
    with Cons.prems(3) have "length (run_state_bytes r) \<le> 0"
      by (auto simp: row_state_bytes_def metadata_state_bytes_def dest: arg_cong [of _ _ length])
    with length_run_state_bytes [of r] show ?thesis by simp
  next
    case (Cons q qs')
    with Cons.prems have "run_state_bytes r @ row_state_bytes rs m = run_state_bytes q @ row_state_bytes qs' n"
      by (simp add: row_state_bytes_def)
    with run_state_bytes_prefix [of r q "row_state_bytes rs m" "row_state_bytes qs' n"] Cons.prems(1,2) Cons
    have "r = q \<and> row_state_bytes rs m = row_state_bytes qs' n"
      by simp
    with Cons.IH [of qs'] Cons.prems(1,2) Cons show ?thesis by simp
  qed
qed

end
