(* ===== verification/Client_Surface.thy ===== *)
theory Client_Surface
  imports Frames
begin

text \<open>
  The client side of surfaces (\<open>crates/nmux-cli/src/local/surface.rs\<close> and
  \<open>surface_update_from_frame\<close> of \<open>crates/nmux-cli/src/local.rs\<close>): decoding a frame into a
  \<open>SurfaceUpdate\<close>, the checks on it, the client's copy of a pane, building it from a
  snapshot and advancing it by a patch, and rendering.

  The summaries of cursor, modes, styles and cell runs have the fields of the session's
  records and reuse them. Errors are the constructors of \<open>client_error\<close>, one per message.
  What holds of these operations whatever the server sends is in \<open>Client_Laws\<close>.
\<close>

subsection \<open>Data\<close>

datatype client_error =
  UnknownSurfaceKind | UnknownPatchKind | UnknownCursorShape | UnknownMouseTrackingMode
| UnknownMouseFormat | UnknownRowSemanticPrompt | UnknownCellSemanticContent
| UnknownStyleId u32 | UnknownHyperlinkId u32
| HyperlinkReservedId | HyperlinkMissingUri u32 | HyperlinkDuplicate u32
| SnapshotCarriesPaletteDiff | PatchCarriesPaletteDiff | PaletteDiffStart u32 usize
| SnapshotMissingCols | SnapshotMissingRows
| RowOutside u32 usize | RowRepeated u32
| PatchPaneMismatch | PatchBaseMismatch | PatchChangesHyperlinks | PatchRequiresFullRefresh
| PatchCarriesRows | CursorPatchChangesColors | ModePatchChangesColors | ColorPatchMissingColors
| RowPatchChangesColors | UnsupportedPatchKind
| MissingString | EmptyString | MissingRows | UnexpectedBody | MissingBody
| AttachSurfacePaneMismatch | AttachSurfaceCurrent | AttachSurfaceMismatch
| UnknownInputKind | UnsupportedModifiers u32 | UnknownMouseAction | UnknownMouseButton
| UnknownResizeReason | UnknownPresenceKind | UnknownAttachMode | UnknownAttachSurfaceState
| UnknownErrorCode | UnknownResizePolicy | UnknownPaneKind | UnknownSplitAxis
| ChunkCarriesPaletteDiff | FetchStartLine | FetchLineCount | ChunkStartLine | ChunkRowLine
| ChunkRowOverflow | ChunkRowMismatch | ChunkRowBeyondTotal
| WorkspaceWithoutTabs | MissingInput | WorkspaceWithoutRoot | WorkspaceActiveTabMissing | WorkspaceActivePaneMissing
| PasteContainsTerminator | UnsupportedKeyName | UnsupportedModifiedKeyName | MousePaneMissing
| MouseNotEncodable

type_synonym 'a cres = "(client_error, 'a) res"

record color_summary =
  cs_default_fg :: u32
  cs_default_bg :: u32
  cs_cursor :: u32
  cs_cursor_set :: bool
  cs_palette :: "u32 list"
  cs_diff_start :: "u32 option"
  cs_diff :: "u32 list"

definition color_summary_default :: color_summary where
  "color_summary_default =
     \<lparr>cs_default_fg = 0, cs_default_bg = 0, cs_cursor = 0, cs_cursor_set = False, cs_palette = [],
      cs_diff_start = None, cs_diff = []\<rparr>"

record hyperlink_summary =
  hl_id :: u32
  hl_uri :: ustring
  hl_osc8_id :: ustring
  hl_params :: ustring

record row_update =
  ru_row :: u32
  ru_text :: ustring
  ru_runs :: "cell_run list"
  ru_dirty_hash :: "64 word"
  ru_row_state_hash :: "64 word"
  ru_semantic_prompt :: row_semantic_prompt
  ru_dirty :: bool
  ru_kitty :: bool

datatype surface_update_kind = UpdateSnapshot | UpdatePatch

record surface_update =
  su_kind :: surface_update_kind
  su_pane_id :: ustring
  su_version :: u64
  su_base_version :: "u64 option"
  su_patch_kind :: "patch_kind option"
  su_cols :: "u32 option"
  su_rows :: "u32 option"
  su_surface :: "surface_kind option"
  su_cursor :: "cursor option"
  su_modes :: terminal_modes
  su_title :: ustring
  su_working_directory :: ustring
  su_colors :: "color_summary option"
  su_row_updates :: "row_update list"
  su_styles :: "pane_style list"
  su_hyperlinks :: "hyperlink_summary list"
  su_text :: ustring

record client_pane =
  cp_pane_id :: ustring
  cp_version :: u64
  cp_cols :: u32
  cp_rows :: u32
  cp_surface :: surface_kind
  cp_cursor :: "cursor option"
  cp_modes :: terminal_modes
  cp_title :: ustring
  cp_working_directory :: ustring
  cp_colors :: color_summary
  cp_styles :: "pane_style list"
  cp_hyperlinks :: "hyperlink_summary list"
  cp_row_text :: "ustring list"
  cp_row_runs :: "cell_run list list"
  cp_row_dirty_hashes :: "64 word list"
  cp_row_semantic_prompts :: "row_semantic_prompt list"
  cp_row_dirty :: "bool list"
  cp_row_kitty :: "bool list"
  cp_row_state_hashes :: "64 word list"

subsection \<open>Decoding rows, styles and colours\<close>

definition unwrap_string :: "ustring option \<Rightarrow> ustring" where
  "unwrap_string s = (case s of Some t \<Rightarrow> t | None \<Rightarrow> [])"

definition unwrap_list :: "'a list option \<Rightarrow> 'a list" where
  "unwrap_list s = (case s of Some t \<Rightarrow> t | None \<Rightarrow> [])"

lemma unwrap_simps [simp]:
  "unwrap_string (Some t) = t" "unwrap_string None = []" "unwrap_list (Some xs) = xs" "unwrap_list None = []"
  by (simp_all add: unwrap_string_def unwrap_list_def)

definition decoded_cell_run :: "wire_run \<Rightarrow> cell_run" where
  "decoded_cell_run r =
     \<lparr>cr_text = unwrap_string (wn_text r), cr_cell_widths = unwrap_list (wn_cell_widths r),
      cr_style_id = wn_style_id r, cr_flags = wn_flags r, cr_hyperlink_id = wn_hyperlink_id r,
      cr_semantic_content = wn_semantic_content r\<rparr>"

definition decoded_cell_runs :: "wire_run list \<Rightarrow> cell_run list" where
  "decoded_cell_runs runs = map decoded_cell_run runs"

definition render_run_summaries :: "cell_run list \<Rightarrow> ustring" where
  "render_run_summaries runs = concat (map cr_text runs)"

definition decoded_surface_row :: "wire_row \<Rightarrow> row_update" where
  "decoded_surface_row r =
     (let runs = decoded_cell_runs (unwrap_list (wr_runs r))
      in \<lparr>ru_row = wr_row r, ru_text = render_run_summaries runs, ru_runs = runs,
          ru_dirty_hash = wr_dirty_hash r, ru_row_state_hash = wr_row_state_hash r,
          ru_semantic_prompt = wr_semantic_prompt r, ru_dirty = wr_dirty r, ru_kitty = wr_kitty r\<rparr>)"

definition decoded_styles :: "pane_style list \<Rightarrow> pane_style list" where
  "decoded_styles styles = map build_style styles"

definition default_style_summaries :: "pane_style list" where
  "default_style_summaries = [\<lparr>ps_fg = 0, ps_bg = 0, ps_underline = 0, ps_flags = 0\<rparr>]"

definition validate_hyperlink_table :: "hyperlink_summary list \<Rightarrow> unit cres" where
  "validate_hyperlink_table hs =
     each_res (\<lambda>index. let h = hs ! index in
         bind_res (guard_res (hl_id h \<noteq> 0) HyperlinkReservedId) (\<lambda>_.
         bind_res (guard_res (hl_uri h \<noteq> []) (HyperlinkMissingUri (hl_id h))) (\<lambda>_.
           guard_res (\<not> list_ex (\<lambda>e. hl_id e = hl_id h) (take index hs)) (HyperlinkDuplicate (hl_id h)))))
       [0..<length hs]"

definition decoded_hyperlinks :: "wire_hyperlink list \<Rightarrow> hyperlink_summary list cres" where
  "decoded_hyperlinks hs =
     (let decoded = map (\<lambda>h. \<lparr>hl_id = wh_id h, hl_uri = unwrap_string (wh_uri h),
                              hl_osc8_id = unwrap_string (wh_osc8_id h),
                              hl_params = unwrap_string (wh_params h)\<rparr>) hs
      in bind_res (validate_hyperlink_table decoded) (\<lambda>_. Inr decoded))"

definition decoded_terminal_colors :: "wire_colors option \<Rightarrow> color_summary option" where
  "decoded_terminal_colors colors =
     map_option (\<lambda>c.
        let diff = unwrap_list (wc_diff c)
        in \<lparr>cs_default_fg = wc_default_fg c, cs_default_bg = wc_default_bg c, cs_cursor = wc_cursor c,
            cs_cursor_set = wc_cursor_set c, cs_palette = unwrap_list (wc_palette c),
            cs_diff_start = (if diff = [] then None else Some (wc_diff_start c)), cs_diff = diff\<rparr>) colors"

definition terminal_colors_have_palette_diff :: "color_summary \<Rightarrow> bool" where
  "terminal_colors_have_palette_diff c \<longleftrightarrow> cs_diff_start c \<noteq> None \<or> cs_diff c \<noteq> []"

definition colors_materialize :: "color_summary \<Rightarrow> color_summary \<Rightarrow> color_summary cres" where
  \<comment> \<open>\<open>TerminalColorSummary::materialize\<close>\<close>
  "colors_materialize c base =
     bind_res
       (case cs_diff_start c of
          Some start \<Rightarrow>
            if length (cs_palette base) < start then Inl (PaletteDiffStart start (length (cs_palette base)))
            else Inr (take start (cs_palette base) @ cs_diff c)
        | None \<Rightarrow> Inr (if cs_palette c = [] then cs_palette base else cs_palette c))
       (\<lambda>palette. Inr (c\<lparr>cs_palette := palette, cs_diff_start := None, cs_diff := []\<rparr>))"

definition required_string :: "ustring option \<Rightarrow> ustring cres" where
  "required_string v =
     (case v of None \<Rightarrow> Inl MissingString | Some s \<Rightarrow> if s = [] then Inl EmptyString else Inr s)"

lemma required_string_Inr: "required_string v = Inr s \<longleftrightarrow> v = Some s \<and> s \<noteq> []"
  by (auto simp: required_string_def split: option.splits)

lemma required_string_Some [simp]: "s \<noteq> [] \<Longrightarrow> required_string (Some s) = Inr s"
  by (simp add: required_string_def)

subsection \<open>Checks\<close>

definition validate_palette_diff_scope ::
  "surface_update_kind \<Rightarrow> patch_kind option \<Rightarrow> color_summary option \<Rightarrow> unit cres" where
  "validate_palette_diff_scope kind patch_kind colors =
     (case colors of
        None \<Rightarrow> Inr ()
      | Some c \<Rightarrow>
          if \<not> terminal_colors_have_palette_diff c then Inr ()
          else case kind of
              UpdateSnapshot \<Rightarrow> Inl SnapshotCarriesPaletteDiff
            | UpdatePatch \<Rightarrow> if patch_kind = Some PatchColorOnly then Inr () else Inl PatchCarriesPaletteDiff)"

definition validate_no_row_patch_payload :: "patch_kind \<Rightarrow> row_update list \<Rightarrow> unit cres" where
  "validate_no_row_patch_payload kind rows =
     guard_res (rows = [] \<or>
        kind \<notin> {PatchCursorOnly, PatchModeOnly, PatchColorOnly, PatchFullRefreshRequired}) PatchCarriesRows"

definition validate_patch_kind :: "patch_kind \<Rightarrow> unit cres" where
  "validate_patch_kind kind = guard_res (patch_kind_known kind) UnknownPatchKind"

definition validate_surface_kind :: "surface_kind \<Rightarrow> unit cres" where
  "validate_surface_kind kind = guard_res (surface_kind_known kind) UnknownSurfaceKind"

definition validate_cursor_summary :: "cursor option \<Rightarrow> unit cres" where
  "validate_cursor_summary c =
     (case c of None \<Rightarrow> Inr () | Some c \<Rightarrow> guard_res (cursor_shape_known (cu_shape c)) UnknownCursorShape)"

definition validate_terminal_mode_summary :: "terminal_modes \<Rightarrow> unit cres" where
  "validate_terminal_mode_summary m =
     bind_res (guard_res (mouse_tracking_mode_known (tm_mouse_tracking_mode m)) UnknownMouseTrackingMode)
       (\<lambda>_. guard_res (mouse_format_known (tm_mouse_format m)) UnknownMouseFormat)"

fun validate_rows_from :: "bool list \<Rightarrow> row_update list \<Rightarrow> unit cres" where
  \<comment> \<open>the loop of \<open>validate_row_update_indices\<close> over \<open>seen\<close>\<close>
  "validate_rows_from seen [] = Inr ()"
| "validate_rows_from seen (r # rs) =
     (if length seen \<le> ru_row r then Inl (RowOutside (ru_row r) (length seen))
      else if seen ! ru_row r then Inl (RowRepeated (ru_row r))
      else validate_rows_from (seen[ru_row r := True]) rs)"

definition validate_row_update_indices :: "row_update list \<Rightarrow> nat \<Rightarrow> unit cres" where
  "validate_row_update_indices rows row_count = validate_rows_from (replicate row_count False) rows"

definition validate_row_semantic_prompt :: "row_semantic_prompt \<Rightarrow> unit cres" where
  "validate_row_semantic_prompt p = guard_res (row_semantic_prompt_known p) UnknownRowSemanticPrompt"

definition validate_cell_run_semantic_content :: "cell_run list \<Rightarrow> unit cres" where
  "validate_cell_run_semantic_content runs =
     each_res (\<lambda>r. guard_res (cell_semantic_content_known (cr_semantic_content r)) UnknownCellSemanticContent) runs"

definition validate_row_update_terminal_enums :: "row_update list \<Rightarrow> unit cres" where
  "validate_row_update_terminal_enums rows =
     each_res (\<lambda>r. bind_res (validate_row_semantic_prompt (ru_semantic_prompt r))
                     (\<lambda>_. validate_cell_run_semantic_content (ru_runs r))) rows"

definition validate_cell_run_style_ids :: "cell_run list \<Rightarrow> pane_style list \<Rightarrow> unit cres" where
  "validate_cell_run_style_ids runs styles =
     each_res (\<lambda>r. guard_res (cr_style_id r < max (length styles) 1) (UnknownStyleId (cr_style_id r))) runs"

definition validate_row_update_style_ids :: "row_update list \<Rightarrow> pane_style list \<Rightarrow> unit cres" where
  "validate_row_update_style_ids rows styles = each_res (\<lambda>r. validate_cell_run_style_ids (ru_runs r) styles) rows"

definition validate_cell_run_hyperlink_ids :: "cell_run list \<Rightarrow> hyperlink_summary list \<Rightarrow> unit cres" where
  "validate_cell_run_hyperlink_ids runs hs =
     each_res (\<lambda>r. guard_res (cr_hyperlink_id r = 0 \<or> list_ex (\<lambda>h. hl_id h = cr_hyperlink_id r) hs)
                     (UnknownHyperlinkId (cr_hyperlink_id r))) runs"

definition validate_row_update_hyperlink_ids :: "row_update list \<Rightarrow> hyperlink_summary list \<Rightarrow> unit cres" where
  "validate_row_update_hyperlink_ids rows hs = each_res (\<lambda>r. validate_cell_run_hyperlink_ids (ru_runs r) hs) rows"

definition validate_cached_row_hyperlink_ids :: "cell_run list list \<Rightarrow> hyperlink_summary list \<Rightarrow> unit cres" where
  "validate_cached_row_hyperlink_ids row_runs hs = each_res (\<lambda>r. validate_cell_run_hyperlink_ids r hs) row_runs"

definition validate_cached_row_style_ids :: "cell_run list list \<Rightarrow> pane_style list \<Rightarrow> unit cres" where
  "validate_cached_row_style_ids row_runs styles = each_res (\<lambda>r. validate_cell_run_style_ids r styles) row_runs"

subsection \<open>Decoding a surface frame\<close>

fun render_decoded_rows :: "row_update list \<Rightarrow> ustring" where
  "render_decoded_rows [] = []"
| "render_decoded_rows [r] = ru_text r"
| "render_decoded_rows (r # rs) = ru_text r @ [10] @ render_decoded_rows rs"

definition metadata_title :: "wire_metadata option \<Rightarrow> ustring" where
  "metadata_title m = unwrap_string (Option.bind m wm_title)"

definition metadata_working_directory :: "wire_metadata option \<Rightarrow> ustring" where
  "metadata_working_directory m = unwrap_string (Option.bind m wm_working_directory)"

definition unwrap_modes :: "terminal_modes option \<Rightarrow> terminal_modes" where
  "unwrap_modes m = (case m of Some x \<Rightarrow> build_terminal_modes x | None \<Rightarrow> terminal_modes_default)"

definition snapshot_update :: "wire_snapshot \<Rightarrow> surface_update cres" where
  "snapshot_update w =
     bind_res (validate_surface_kind (wsn_surface w)) (\<lambda>_.
     bind_res (ok_or MissingRows (wsn_rows_data w)) (\<lambda>rows.
     let styles = (case wsn_styles w of Some s \<Rightarrow> decoded_styles s | None \<Rightarrow> default_style_summaries) in
     bind_res (case wsn_hyperlinks w of Some h \<Rightarrow> decoded_hyperlinks h | None \<Rightarrow> Inr []) (\<lambda>hyperlinks.
     let row_updates = map decoded_surface_row rows in
     bind_res (validate_row_update_terminal_enums row_updates) (\<lambda>_.
     bind_res (validate_row_update_style_ids row_updates styles) (\<lambda>_.
     bind_res (validate_row_update_hyperlink_ids row_updates hyperlinks) (\<lambda>_.
     let cur = map_option build_cursor (wsn_cursor w) in
     bind_res (validate_cursor_summary cur) (\<lambda>_.
     let modes = unwrap_modes (wsn_modes w) in
     bind_res (validate_terminal_mode_summary modes) (\<lambda>_.
     let colors = decoded_terminal_colors (wsn_colors w) in
     bind_res (validate_palette_diff_scope UpdateSnapshot None colors) (\<lambda>_.
     bind_res (required_string (wsn_pane_id w)) (\<lambda>pane_id.
       Inr \<lparr>su_kind = UpdateSnapshot, su_pane_id = pane_id, su_version = wsn_version w,
            su_base_version = None, su_patch_kind = None, su_cols = Some (wsn_cols w),
            su_rows = Some (wsn_rows w), su_surface = Some (wsn_surface w), su_cursor = cur,
            su_modes = modes, su_title = metadata_title (wsn_metadata w),
            su_working_directory = metadata_working_directory (wsn_metadata w), su_colors = colors,
            su_row_updates = row_updates, su_styles = styles, su_hyperlinks = hyperlinks,
            su_text = render_decoded_rows row_updates\<rparr>))))))))))"

definition patch_update :: "wire_patch \<Rightarrow> surface_update cres" where
  "patch_update w =
     bind_res (validate_patch_kind (wpt_kind w)) (\<lambda>_.
     bind_res (ok_or MissingRows (wpt_row_updates w)) (\<lambda>rows.
     let row_updates = map decoded_surface_row rows in
     bind_res (validate_row_update_terminal_enums row_updates) (\<lambda>_.
     bind_res (validate_no_row_patch_payload (wpt_kind w) row_updates) (\<lambda>_.
     let cur = map_option build_cursor (wpt_cursor w) in
     bind_res (validate_cursor_summary cur) (\<lambda>_.
     let modes = unwrap_modes (wpt_modes w) in
     bind_res (validate_terminal_mode_summary modes) (\<lambda>_.
     let colors = decoded_terminal_colors (wpt_colors w) in
     bind_res (validate_palette_diff_scope UpdatePatch (Some (wpt_kind w)) colors) (\<lambda>_.
     bind_res (required_string (wpt_pane_id w)) (\<lambda>pane_id.
       Inr \<lparr>su_kind = UpdatePatch, su_pane_id = pane_id, su_version = wpt_version w,
            su_base_version = Some (wpt_base_version w), su_patch_kind = Some (wpt_kind w),
            su_cols = None, su_rows = None, su_surface = None, su_cursor = cur, su_modes = modes,
            su_title = metadata_title (wpt_metadata w),
            su_working_directory = metadata_working_directory (wpt_metadata w), su_colors = colors,
            su_row_updates = row_updates, su_styles = [], su_hyperlinks = [],
            su_text = render_decoded_rows row_updates\<rparr>))))))))"

definition surface_update_from_frame :: "envelope \<Rightarrow> surface_update cres" where
  "surface_update_from_frame e =
     (case en_body e of
        BodySnapshot w \<Rightarrow> snapshot_update w
      | BodyPatch w \<Rightarrow> patch_update w
      | _ \<Rightarrow> Inl UnexpectedBody)"

subsection \<open>The client's copy\<close>

definition row_runs_or_plain :: "row_update \<Rightarrow> cell_run list" where
  "row_runs_or_plain r = (if ru_runs r = [] then [cell_run_plain (ru_text r)] else ru_runs r)"

definition set_client_row :: "client_pane \<Rightarrow> row_update \<Rightarrow> client_pane" where
  \<comment> \<open>the assignments of one iteration of \<open>apply_rows\<close>\<close>
  "set_client_row c r =
     (let i = ru_row r in
      c\<lparr>cp_row_text := (cp_row_text c)[i := ru_text r],
        cp_row_runs := (cp_row_runs c)[i := row_runs_or_plain r],
        cp_row_dirty_hashes := (cp_row_dirty_hashes c)[i := ru_dirty_hash r],
        cp_row_semantic_prompts := (cp_row_semantic_prompts c)[i := ru_semantic_prompt r],
        cp_row_dirty := (cp_row_dirty c)[i := ru_dirty r],
        cp_row_kitty := (cp_row_kitty c)[i := ru_kitty r],
        cp_row_state_hashes := (cp_row_state_hashes c)[i := ru_row_state_hash r]\<rparr>)"

fun apply_rows :: "client_pane \<Rightarrow> row_update list \<Rightarrow> client_pane cres" where
  "apply_rows c [] = Inr c"
| "apply_rows c (r # rs) =
     (if length (cp_row_text c) \<le> ru_row r then Inl (RowOutside (ru_row r) (cp_rows c))
      else apply_rows (set_client_row c r) rs)"

definition client_from_snapshot :: "surface_update \<Rightarrow> client_pane cres" where
  \<comment> \<open>\<open>ClientPaneSurface::from_snapshot\<close>\<close>
  "client_from_snapshot u =
     bind_res (validate_palette_diff_scope UpdateSnapshot None (su_colors u)) (\<lambda>_.
     bind_res (ok_or SnapshotMissingCols (su_cols u)) (\<lambda>cols.
     bind_res (ok_or SnapshotMissingRows (su_rows u)) (\<lambda>rows.
     let surface = (case su_surface u of Some k \<Rightarrow> k | None \<Rightarrow> SurfaceMain);
         colors = (case su_colors u of Some c \<Rightarrow> c | None \<Rightarrow> color_summary_default);
         styles = (if su_styles u = [] then default_style_summaries else su_styles u);
         c = \<lparr>cp_pane_id = su_pane_id u, cp_version = su_version u, cp_cols = cols, cp_rows = rows,
              cp_surface = surface, cp_cursor = su_cursor u, cp_modes = su_modes u,
              cp_title = su_title u, cp_working_directory = su_working_directory u,
              cp_colors = colors, cp_styles = styles, cp_hyperlinks = su_hyperlinks u,
              cp_row_text = replicate rows [], cp_row_runs = replicate rows [],
              cp_row_dirty_hashes = replicate rows 0,
              cp_row_semantic_prompts = replicate rows RowNone,
              cp_row_dirty = replicate rows False, cp_row_kitty = replicate rows False,
              cp_row_state_hashes = replicate rows 0\<rparr>
     in
     bind_res (validate_surface_kind surface) (\<lambda>_.
     bind_res (validate_cursor_summary (su_cursor u)) (\<lambda>_.
     bind_res (validate_terminal_mode_summary (su_modes u)) (\<lambda>_.
     bind_res (validate_hyperlink_table (su_hyperlinks u)) (\<lambda>_.
     bind_res (validate_row_update_indices (su_row_updates u) rows) (\<lambda>_.
     bind_res (validate_row_update_style_ids (su_row_updates u) styles) (\<lambda>_.
     bind_res (validate_row_update_hyperlink_ids (su_row_updates u) (su_hyperlinks u)) (\<lambda>_.
       apply_rows c (su_row_updates u)))))))))))"

definition set_client_meta :: "surface_update \<Rightarrow> client_pane \<Rightarrow> client_pane" where
  \<comment> \<open>cursor, title, working directory and version, which every kind of patch sets\<close>
  "set_client_meta u c =
     c\<lparr>cp_cursor := su_cursor u, cp_title := su_title u,
       cp_working_directory := su_working_directory u, cp_version := su_version u\<rparr>"

definition colors_unchanged :: "surface_update \<Rightarrow> client_pane \<Rightarrow> bool" where
  "colors_unchanged u c \<longleftrightarrow> (case su_colors u of None \<Rightarrow> True | Some cols \<Rightarrow> cols = cp_colors c)"

definition client_apply_patch :: "client_pane \<Rightarrow> surface_update \<Rightarrow> client_pane cres" where
  "client_apply_patch c u =
     bind_res (guard_res (su_pane_id u = cp_pane_id c) PatchPaneMismatch) (\<lambda>_.
     bind_res (guard_res (su_base_version u = Some (cp_version c)) PatchBaseMismatch) (\<lambda>_.
     bind_res (case su_patch_kind u of Some k \<Rightarrow> validate_patch_kind k | None \<Rightarrow> Inr ()) (\<lambda>_.
     bind_res (validate_palette_diff_scope (su_kind u) (su_patch_kind u) (su_colors u)) (\<lambda>_.
     bind_res (validate_cursor_summary (su_cursor u)) (\<lambda>_.
     bind_res (validate_terminal_mode_summary (su_modes u)) (\<lambda>_.
     bind_res (guard_res (su_hyperlinks u = []) PatchChangesHyperlinks) (\<lambda>_.
     bind_res (case su_patch_kind u of
                 Some k \<Rightarrow> validate_no_row_patch_payload k (su_row_updates u) | None \<Rightarrow> Inr ()) (\<lambda>_.
     if su_patch_kind u = Some PatchFullRefreshRequired then Inl PatchRequiresFullRefresh
     else if su_patch_kind u = Some PatchCursorOnly then
       (if \<not> colors_unchanged u c then Inl CursorPatchChangesColors
        else Inr (set_client_meta u c))
     else if su_patch_kind u = Some PatchModeOnly then
       (if \<not> colors_unchanged u c then Inl ModePatchChangesColors
        else Inr ((set_client_meta u c)\<lparr>cp_modes := su_modes u\<rparr>))
     else if su_patch_kind u = Some PatchColorOnly then
       (case su_colors u of
          None \<Rightarrow> Inl ColorPatchMissingColors
        | Some colors \<Rightarrow>
            bind_res (colors_materialize colors (cp_colors c)) (\<lambda>colors.
              Inr ((set_client_meta u c)\<lparr>cp_modes := su_modes u, cp_colors := colors\<rparr>)))
     else if su_patch_kind u \<noteq> Some PatchReplaceRows then Inl UnsupportedPatchKind
     else if \<not> colors_unchanged u c then Inl RowPatchChangesColors
     else
       bind_res (validate_row_update_terminal_enums (su_row_updates u)) (\<lambda>_.
       bind_res (validate_row_update_indices (su_row_updates u) (length (cp_row_text c))) (\<lambda>_.
       bind_res (validate_row_update_style_ids (su_row_updates u) (cp_styles c)) (\<lambda>_.
       bind_res (validate_row_update_hyperlink_ids (su_row_updates u) (cp_hyperlinks c)) (\<lambda>_.
       bind_res (apply_rows c (su_row_updates u)) (\<lambda>c'.
         Inr ((set_client_meta u c')\<lparr>cp_modes := su_modes u\<rparr>))))))))))))))"

definition client_apply_update :: "client_pane \<Rightarrow> surface_update \<Rightarrow> client_pane cres" where
  "client_apply_update c u =
     (case su_kind u of
        UpdateSnapshot \<Rightarrow> client_from_snapshot u
      | UpdatePatch \<Rightarrow> client_apply_patch c u)"

definition validate_attach_surface_update :: "ustring \<Rightarrow> attach_surface_state \<Rightarrow> surface_update \<Rightarrow> unit cres" where
  "validate_attach_surface_update status_pane_id state u =
     (if su_pane_id u \<noteq> status_pane_id then Inl AttachSurfacePaneMismatch
      else if state = AttachSnapshot \<and> su_kind u = UpdateSnapshot \<or> state = AttachPatch \<and> su_kind u = UpdatePatch
      then Inr ()
      else if state = AttachCurrent then Inl AttachSurfaceCurrent
      else Inl AttachSurfaceMismatch)"

subsection \<open>Rendering\<close>

definition rposition_nonempty :: "'a list list \<Rightarrow> nat option" where
  "rposition_nonempty rows =
     (case position (\<lambda>r. r \<noteq> []) (rev rows) of None \<Rightarrow> None | Some i \<Rightarrow> Some (length rows - 1 - i))"

definition visible_row_count :: "client_pane \<Rightarrow> nat" where
  "visible_row_count c = (case rposition_nonempty (cp_row_text c) of Some i \<Rightarrow> i + 1 | None \<Rightarrow> 0)"

definition join_lines :: "ustring list \<Rightarrow> ustring" where
  "join_lines rows = join_with 10 rows"

definition render_text :: "client_pane \<Rightarrow> ustring" where
  "render_text c = join_lines (take (visible_row_count c) (cp_row_text c))"

definition be_byte :: "nat \<Rightarrow> u32 \<Rightarrow> nat" where
  \<comment> \<open>\<open>to_be_bytes()[k]\<close>\<close>
  "be_byte k v = v div 256 ^ (3 - k) mod 256"

definition rgb_params :: "u32 \<Rightarrow> ustring" where
  "rgb_params v = dec_str (be_byte 0 v) @ lit '';'' @ dec_str (be_byte 1 v) @ lit '';'' @ dec_str (be_byte 2 v)"

definition style_params :: "pane_style \<Rightarrow> ustring list" where
  "style_params st =
     (let f = ps_flags st in
      (if bit f 0 then [lit ''1''] else []) @
      (if bit f 2 then [lit ''2''] else []) @
      (if bit f 1 then [lit ''3''] else []) @
      (if bit f 8 then [lit ''4''] else if bit f 9 then [lit ''21'']
       else if f div 1024 mod 32 \<noteq> 0 then [lit ''4''] else []) @
      (if bit f 3 then [lit ''5''] else []) @
      (if bit f 4 then [lit ''7''] else []) @
      (if bit f 5 then [lit ''8''] else []) @
      (if bit f 6 then [lit ''9''] else []) @
      (if bit f 7 then [lit ''53''] else []) @
      (if ps_fg st \<noteq> 0 then [lit ''38;2;'' @ rgb_params (ps_fg st)] else []) @
      (if ps_bg st \<noteq> 0 then [lit ''48;2;'' @ rgb_params (ps_bg st)] else []))"

definition style_to_sgr :: "pane_style \<Rightarrow> ustring" where
  "style_to_sgr st =
     (let params = style_params st in
      if params = [] then [] else [27, 91] @ join_with 59 params @ lit ''m'')"

definition style_needs_sgr :: "pane_style \<Rightarrow> bool" where
  "style_needs_sgr s \<longleftrightarrow> ps_fg s \<noteq> 0 \<or> ps_bg s \<noteq> 0 \<or> ps_flags s \<noteq> 0"

definition render_styled_run :: "pane_style list \<Rightarrow> cell_run \<Rightarrow> ustring" where
  "render_styled_run styles r =
     (case get styles (cr_style_id r) of
        Some st \<Rightarrow> if style_needs_sgr st then style_to_sgr st @ cr_text r @ [27, 91, 48, 109] else cr_text r
      | None \<Rightarrow> cr_text r)"

definition render_styled_row :: "client_pane \<Rightarrow> nat \<Rightarrow> ustring" where
  "render_styled_row c row_index =
     (let runs = cp_row_runs c ! row_index in
      if runs = [] then cp_row_text c ! row_index
      else concat (map (render_styled_run (cp_styles c)) runs))"

definition render_styled_text :: "client_pane \<Rightarrow> ustring" where
  "render_styled_text c = join_lines (map (render_styled_row c) [0..<visible_row_count c])"

definition has_styled_runs :: "client_pane \<Rightarrow> bool" where
  "has_styled_runs c \<longleftrightarrow>
     1 < length (cp_styles c) \<or> option_is_some_and style_needs_sgr (get (cp_styles c) 0)"

record rendered_surface_summary =
  rs_pane_id :: ustring
  rs_version :: u64
  rs_cols :: u32
  rs_rows :: u32
  rs_colors :: color_summary
  rs_styles :: "pane_style list"
  rs_hyperlinks :: "hyperlink_summary list"
  rs_row_updates :: "row_update list"

definition client_row_update :: "client_pane \<Rightarrow> nat \<Rightarrow> row_update" where
  "client_row_update c i =
     \<lparr>ru_row = i, ru_text = cp_row_text c ! i, ru_runs = cp_row_runs c ! i,
      ru_dirty_hash = cp_row_dirty_hashes c ! i, ru_row_state_hash = cp_row_state_hashes c ! i,
      ru_semantic_prompt = cp_row_semantic_prompts c ! i, ru_dirty = cp_row_dirty c ! i,
      ru_kitty = cp_row_kitty c ! i\<rparr>"

definition client_summary :: "client_pane \<Rightarrow> rendered_surface_summary" where
  "client_summary c =
     \<lparr>rs_pane_id = cp_pane_id c, rs_version = cp_version c, rs_cols = cp_cols c, rs_rows = cp_rows c,
      rs_colors = cp_colors c, rs_styles = cp_styles c, rs_hyperlinks = cp_hyperlinks c,
      rs_row_updates = map (client_row_update c) [0..<visible_row_count c]\<rparr>"

definition row_runs_for_text :: "ustring list \<Rightarrow> cell_run list list \<Rightarrow> cell_run list list" where
  "row_runs_for_text row_text row_runs =
     map (\<lambda>(t, runs). if runs = [] \<or> render_run_summaries runs \<noteq> t then [cell_run_plain t] else runs)
         (zip row_text row_runs) @ drop (length row_text) row_runs"

definition sanitized_metadata_value :: "ustring \<Rightarrow> ustring" where
  "sanitized_metadata_value v = map (\<lambda>ch. if ch = 9 \<or> \<not> is_control ch then ch else 0xFFFD) v"

definition metadata_display_lines :: "ustring \<Rightarrow> ustring \<Rightarrow> ustring list" where
  "metadata_display_lines title wd =
     (if title \<noteq> [] then [lit ''title='' @ sanitized_metadata_value title] else []) @
     (if wd \<noteq> [] then [lit ''working-directory='' @ sanitized_metadata_value wd] else [])"

end
