(* ===== verification/Surface_Sync.thy ===== *)
theory Surface_Sync
  imports Client_Surface
begin

text \<open>
  The refinement between a pane of the session and the copy a client keeps of it.
  \<open>client_of p\<close> is the copy a client should have of the pane \<open>p\<close>. Decoding the snapshot frame
  of \<open>p\<close> and building a copy gives \<open>client_of p\<close>; when an engine's update turns \<open>p\<close> into \<open>p'\<close>
  and the session calls the step incremental, decoding the patch frame of \<open>p'\<close> and applying
  it to \<open>client_of p\<close> gives \<open>client_of p'\<close>.

  The patch theorem needs that the update has at least as many rows as the pane showed
  and that the new palette is not a proper prefix of the old one; the theory \<open>Surface_Limits\<close>
  shows what the client keeps without these.
\<close>

subsection \<open>The copy of a pane\<close>

definition wire_runs :: "cell_run list \<Rightarrow> cell_run list" where
  \<comment> \<open>the runs as a client sees them: hyperlinks are not sent\<close>
  "wire_runs runs = map (\<lambda>r. r\<lparr>cr_hyperlink_id := 0\<rparr>) runs"

definition client_runs :: "ustring \<Rightarrow> cell_run list \<Rightarrow> cell_run list" where
  "client_runs line runs = (if runs = [] then [cell_run_plain line] else wire_runs runs)"

definition pane_row_metadata :: "pane_data \<Rightarrow> nat \<Rightarrow> row_state_metadata" where
  "pane_row_metadata p i =
     row_metadata_at (pn_surface_semantic_prompts p) (pn_surface_dirty_rows p) (pn_surface_kitty p) i"

definition pad :: "nat \<Rightarrow> 'a \<Rightarrow> 'a list \<Rightarrow> 'a list" where
  "pad n d xs = xs @ replicate (n - length xs) d"

definition rows_map :: "(nat \<Rightarrow> 'a) \<Rightarrow> pane_data \<Rightarrow> 'a list" where
  "rows_map f p = map f [0..<length (pn_surface_lines p)]"

definition client_colors :: "terminal_colors \<Rightarrow> color_summary" where
  "client_colors c =
     \<lparr>cs_default_fg = tco_default_fg c, cs_default_bg = tco_default_bg c, cs_cursor = tco_cursor c,
      cs_cursor_set = tco_cursor_set c, cs_palette = tco_palette c, cs_diff_start = None, cs_diff = []\<rparr>"

definition client_styles :: "pane_style list \<Rightarrow> pane_style list" where
  "client_styles styles = (if styles = [] then default_style_summaries else styles)"

definition client_of :: "pane_data \<Rightarrow> client_pane" where
  "client_of p =
     \<lparr>cp_pane_id = pn_id p, cp_version = pn_surface_version p, cp_cols = pn_cols p, cp_rows = pn_rows p,
      cp_surface = pn_surface p, cp_cursor = Some (pn_cursor p), cp_modes = pn_modes p,
      cp_title = pn_terminal_title p, cp_working_directory = pn_terminal_working_directory p,
      cp_colors = client_colors (pn_colors p), cp_styles = client_styles (pn_styles p), cp_hyperlinks = [],
      cp_row_text = pad (pn_rows p) [] (pn_surface_lines p),
      cp_row_runs = pad (pn_rows p) []
        (rows_map (\<lambda>i. client_runs (pn_surface_lines p ! i) (pn_surface_row_runs p ! i)) p),
      cp_row_dirty_hashes = pad (pn_rows p) 0 (map stable_row_hash (pn_surface_lines p)),
      cp_row_semantic_prompts = pad (pn_rows p) RowNone (pn_surface_semantic_prompts p),
      cp_row_dirty = pad (pn_rows p) False (pn_surface_dirty_rows p),
      cp_row_kitty = pad (pn_rows p) False (pn_surface_kitty p),
      cp_row_state_hashes = pad (pn_rows p) 0
        (rows_map (\<lambda>i. row_state_hash (pn_surface_row_runs p ! i) (pane_row_metadata p i)) p)\<rparr>"

subsection \<open>What an engine has to respect for its panes to be sent\<close>

definition runs_sendable :: "pane_style list \<Rightarrow> cell_run list \<Rightarrow> bool" where
  "runs_sendable styles runs \<longleftrightarrow>
     (\<forall>r \<in> set runs. cell_semantic_content_known (cr_semantic_content r) \<and> cr_style_id r < max (length styles) 1)"

definition pane_sendable :: "pane_data \<Rightarrow> bool" where
  "pane_sendable p \<longleftrightarrow>
     pn_id p \<noteq> [] \<and> surface_kind_known (pn_surface p) \<and> cursor_shape_known (cu_shape (pn_cursor p)) \<and>
     mouse_tracking_mode_known (tm_mouse_tracking_mode (pn_modes p)) \<and>
     mouse_format_known (tm_mouse_format (pn_modes p)) \<and>
     (\<forall>x \<in> set (pn_surface_semantic_prompts p). row_semantic_prompt_known x) \<and>
     (\<forall>runs \<in> set (pn_surface_row_runs p). runs_sendable (pn_styles p) runs)"

subsection \<open>Padded rows\<close>

lemma length_pad [simp]: "length xs \<le> n \<Longrightarrow> length (pad n d xs) = n"
  by (simp add: pad_def)

lemma nth_pad: "i < n \<Longrightarrow> pad n d xs ! i = (if i < length xs then xs ! i else d)"
  by (simp add: pad_def nth_append)

lemma pad_Nil [simp]: "pad n d [] = replicate n d"
  by (simp add: pad_def)

lemma length_rows_map [simp]: "length (rows_map f p) = length (pn_surface_lines p)"
  by (simp add: rows_map_def)

lemma nth_rows_map [simp]: "i < length (pn_surface_lines p) \<Longrightarrow> rows_map f p ! i = f i"
  by (simp add: rows_map_def)

subsection \<open>Applying rows\<close>

definition put_all :: "('r \<Rightarrow> nat) \<Rightarrow> ('r \<Rightarrow> 'a) \<Rightarrow> 'a list \<Rightarrow> 'r list \<Rightarrow> 'a list" where
  "put_all idx f xs rs = foldl (\<lambda>xs r. xs[idx r := f r]) xs rs"

lemma put_all_simps [simp]:
  "put_all idx f xs [] = xs" "put_all idx f xs (r # rs) = put_all idx f (xs[idx r := f r]) rs"
  by (simp_all add: put_all_def)

lemma length_put_all [simp]: "length (put_all idx f xs rs) = length xs"
  by (induction rs arbitrary: xs) auto

lemma apply_rows_put_all:
  assumes "\<forall>r \<in> set rs. ru_row r < length (cp_row_text c)"
  shows "apply_rows c rs = Inr (c
     \<lparr>cp_row_text := put_all ru_row ru_text (cp_row_text c) rs,
      cp_row_runs := put_all ru_row row_runs_or_plain (cp_row_runs c) rs,
      cp_row_dirty_hashes := put_all ru_row ru_dirty_hash (cp_row_dirty_hashes c) rs,
      cp_row_semantic_prompts := put_all ru_row ru_semantic_prompt (cp_row_semantic_prompts c) rs,
      cp_row_dirty := put_all ru_row ru_dirty (cp_row_dirty c) rs,
      cp_row_kitty := put_all ru_row ru_kitty (cp_row_kitty c) rs,
      cp_row_state_hashes := put_all ru_row ru_row_state_hash (cp_row_state_hashes c) rs\<rparr>)"
  using assms
proof (induction rs arbitrary: c)
  case (Cons r rs)
  then show ?case by (simp add: set_client_row_def Let_def)
qed simp

lemma put_all_map:
  assumes "\<And>i. idx (g i) = i"
  shows "i < length xs \<Longrightarrow> put_all idx f xs (map g is) ! i = (if i \<in> set is then f (g i) else xs ! i)"
proof (induction "is" arbitrary: xs)
  case (Cons j js)
  then show ?case by (auto simp: assms nth_list_update)
qed simp

lemma put_all_pad:
  assumes "\<And>i. idx (g i) = i" and "length xs \<le> n" and "length ys \<le> n"
    and "\<And>i. i \<in> set is \<Longrightarrow> i < length ys \<and> f (g i) = ys ! i"
    and "\<And>i. i < n \<Longrightarrow> i \<notin> set is \<Longrightarrow> get xs i = get ys i"
  shows "put_all idx f (pad n d xs) (map g is) = pad n d ys"
proof (rule nth_equalityI)
  show "length (put_all idx f (pad n d xs) (map g is)) = length (pad n d ys)"
    using assms(2,3) by simp
  fix i assume "i < length (put_all idx f (pad n d xs) (map g is))"
  then have i: "i < n" using assms(2) by simp
  have "put_all idx f (pad n d xs) (map g is) ! i = (if i \<in> set is then f (g i) else pad n d xs ! i)"
    using i assms(2) by (intro put_all_map [of idx g, OF assms(1)]) simp
  also have "\<dots> = pad n d ys ! i"
    using assms(4,5) [of i] i by (auto simp: nth_pad get_def split: if_splits)
  finally show "put_all idx f (pad n d xs) (map g is) ! i = pad n d ys ! i" .
qed

subsection \<open>A row on the wire and back\<close>

definition pane_wire_row :: "pane_data \<Rightarrow> nat \<Rightarrow> wire_row" where
  "pane_wire_row p = patch_row_update (surface_of_pane p)"

definition pane_row_update :: "pane_data \<Rightarrow> nat \<Rightarrow> row_update" where
  "pane_row_update p i = decoded_surface_row (pane_wire_row p i)"

lemma decoded_build_run: "decoded_cell_run (build_cell_run r) = r\<lparr>cr_hyperlink_id := 0\<rparr>"
  by (simp add: decoded_cell_run_def build_cell_run_def)

lemma decoded_build_runs: "decoded_cell_runs (build_cell_runs rs) = wire_runs rs"
  by (simp add: decoded_cell_runs_def build_cell_runs_def wire_runs_def decoded_build_run)

lemma render_wire_runs: "render_run_summaries (wire_runs rs) = cell_runs_text rs"
  by (simp add: render_run_summaries_def wire_runs_def cell_runs_text_def comp_def)

lemma pane_row_update_row [simp]: "ru_row (pane_row_update p i) = i"
  by (simp add: pane_row_update_def pane_wire_row_def patch_row_update_def Let_def decoded_surface_row_def
      build_wire_row_def)

lemma surface_of_pane_fields [simp]:
  "pf_pane_id (surface_of_pane p) = pn_id p" "pf_version (surface_of_pane p) = pn_surface_version p"
  "pf_cols (surface_of_pane p) = pn_cols p" "pf_rows (surface_of_pane p) = pn_rows p"
  "pf_surface (surface_of_pane p) = pn_surface p" "pf_cursor (surface_of_pane p) = pn_cursor p"
  "pf_modes (surface_of_pane p) = pn_modes p" "pf_title (surface_of_pane p) = pn_terminal_title p"
  "pf_working_directory (surface_of_pane p) = pn_terminal_working_directory p"
  "pf_colors (surface_of_pane p) = pn_colors p" "pf_styles (surface_of_pane p) = pn_styles p"
  "pf_lines (surface_of_pane p) = pn_surface_lines p"
  by (simp_all add: surface_of_pane_def)

lemma pane_wire_row_eq:
  assumes "surface_rows_aligned p" and "i < length (pn_surface_lines p)"
  shows "pane_wire_row p i =
    build_wire_row i (pn_surface_lines p ! i) (pn_surface_row_runs p ! i) (pane_row_metadata p i)"
  using assms surface_of_pane_rows [OF assms(1)] surface_rows_aligned_length [OF assms(1)]
  by (simp add: pane_wire_row_def patch_row_update_def Let_def pane_row_metadata_def get_or_in get_def)

lemma pane_row_update_fields:
  assumes "surface_rows_aligned p" and "i < length (pn_surface_lines p)"
  shows "ru_text (pane_row_update p i) = pn_surface_lines p ! i"
    and "ru_runs (pane_row_update p i) = wire_runs (pn_surface_row_runs p ! i)"
    and "row_runs_or_plain (pane_row_update p i) =
         client_runs (pn_surface_lines p ! i) (pn_surface_row_runs p ! i)"
    and "ru_dirty_hash (pane_row_update p i) = stable_row_hash (pn_surface_lines p ! i)"
    and "ru_semantic_prompt (pane_row_update p i) = pn_surface_semantic_prompts p ! i"
    and "ru_dirty (pane_row_update p i) = pn_surface_dirty_rows p ! i"
    and "ru_kitty (pane_row_update p i) = pn_surface_kitty p ! i"
    and "ru_row_state_hash (pane_row_update p i) =
         row_state_hash (pn_surface_row_runs p ! i) (pane_row_metadata p i)"
proof -
  have txt': "cell_runs_text (pn_surface_row_runs p ! i) = pn_surface_lines p ! i"
    using assms surface_rows_aligned_length [OF assms(1)]
    by (metis nth_map surface_rows_aligned_def)
  have len: "i < length (pn_surface_semantic_prompts p)" "i < length (pn_surface_dirty_rows p)"
    "i < length (pn_surface_kitty p)"
    using assms by (simp_all add: surface_rows_aligned_def)
  note row = pane_row_update_def pane_wire_row_eq [OF assms] decoded_surface_row_def Let_def build_wire_row_def
    decoded_build_runs render_wire_runs
  show "ru_text (pane_row_update p i) = pn_surface_lines p ! i"
    and "ru_runs (pane_row_update p i) = wire_runs (pn_surface_row_runs p ! i)"
    and "ru_dirty_hash (pane_row_update p i) = stable_row_hash (pn_surface_lines p ! i)"
    and "ru_row_state_hash (pane_row_update p i) =
         row_state_hash (pn_surface_row_runs p ! i) (pane_row_metadata p i)"
    by (simp_all add: row txt')
  show "row_runs_or_plain (pane_row_update p i) =
         client_runs (pn_surface_lines p ! i) (pn_surface_row_runs p ! i)"
    by (simp add: row_runs_or_plain_def row txt' client_runs_def) (simp add: wire_runs_def)
  show "ru_semantic_prompt (pane_row_update p i) = pn_surface_semantic_prompts p ! i"
    and "ru_dirty (pane_row_update p i) = pn_surface_dirty_rows p ! i"
    and "ru_kitty (pane_row_update p i) = pn_surface_kitty p ! i"
    using len by (simp_all add: row pane_row_metadata_def row_metadata_at_def get_or_in)
qed

lemma snapshot_rows_eq:
  assumes "surface_rows_aligned p"
  shows "snapshot_rows (surface_of_pane p) = map (pane_wire_row p) [0..<length (pn_surface_lines p)]"
  using assms surface_of_pane_rows [OF assms] surface_rows_aligned_length [OF assms]
  by (intro nth_equalityI)
    (simp_all add: snapshot_rows_def nth_enumerate_eq pane_wire_row_eq pane_row_metadata_def)

subsection \<open>The checks accept the rows of a sendable pane\<close>

lemma wire_runs_hyperlinks: "validate_cell_run_hyperlink_ids (wire_runs rs) hs = Inr ()"
  by (auto simp: validate_cell_run_hyperlink_ids_def each_res_Inr_iff wire_runs_def)

lemma wire_runs_styles:
  "runs_sendable styles rs \<Longrightarrow> max (length styles') 1 = max (length styles) 1 \<Longrightarrow>
     validate_cell_run_style_ids (wire_runs rs) styles' = Inr ()"
  by (auto simp: validate_cell_run_style_ids_def each_res_Inr_iff wire_runs_def runs_sendable_def)

lemma wire_runs_enums: "runs_sendable styles rs \<Longrightarrow> validate_cell_run_semantic_content (wire_runs rs) = Inr ()"
  by (auto simp: validate_cell_run_semantic_content_def each_res_Inr_iff wire_runs_def runs_sendable_def)

lemma sendable_rows_checked:
  assumes "pane_sendable p" and "surface_rows_aligned p" and "\<forall>i \<in> set is. i < length (pn_surface_lines p)"
    and "max (length styles) 1 = max (length (pn_styles p)) 1"
  shows "validate_row_update_terminal_enums (map (pane_row_update p) is) = Inr ()"
    and "validate_row_update_style_ids (map (pane_row_update p) is) styles = Inr ()"
    and "validate_row_update_hyperlink_ids (map (pane_row_update p) is) hs = Inr ()"
proof -
  have run: "runs_sendable (pn_styles p) (pn_surface_row_runs p ! i)" if "i \<in> set is" for i
    using assms that surface_rows_aligned_length [OF assms(2)] by (auto simp: pane_sendable_def)
  have prompt: "row_semantic_prompt_known (pn_surface_semantic_prompts p ! i)" if "i \<in> set is" for i
    using assms that by (auto simp: pane_sendable_def surface_rows_aligned_def)
  show "validate_row_update_terminal_enums (map (pane_row_update p) is) = Inr ()"
    using run prompt assms(2,3)
    by (auto simp: validate_row_update_terminal_enums_def each_res_Inr_iff bind_res_Inr_iff
        validate_row_semantic_prompt_def pane_row_update_fields intro!: wire_runs_enums [OF run])
  show "validate_row_update_style_ids (map (pane_row_update p) is) styles = Inr ()"
    using run assms(2,3,4)
    by (auto simp: validate_row_update_style_ids_def each_res_Inr_iff pane_row_update_fields
        intro!: wire_runs_styles [OF run])
  show "validate_row_update_hyperlink_ids (map (pane_row_update p) is) hs = Inr ()"
    using assms(2,3)
    by (auto simp: validate_row_update_hyperlink_ids_def each_res_Inr_iff pane_row_update_fields wire_runs_hyperlinks)
qed

lemma validate_rows_from_ok:
  "distinct is \<Longrightarrow> \<forall>i \<in> set is. i < length seen \<and> \<not> seen ! i \<Longrightarrow>
     validate_rows_from seen (map (pane_row_update p) is) = Inr ()"
proof (induction "is" arbitrary: seen)
  case (Cons i js)
  then have "\<forall>j \<in> set js. j < length (seen[i := True]) \<and> \<not> seen[i := True] ! j"
    by (auto simp: nth_list_update)
  with Cons show ?case by simp
qed simp

lemma row_indices_ok:
  "distinct is \<Longrightarrow> \<forall>i \<in> set is. i < n \<Longrightarrow>
     validate_row_update_indices (map (pane_row_update p) is) n = Inr ()"
  by (simp add: validate_row_update_indices_def validate_rows_from_ok)

lemma sendable_scalars:
  assumes "pane_sendable p"
  shows "validate_surface_kind (pn_surface p) = Inr ()" and "validate_cursor_summary (Some (pn_cursor p)) = Inr ()"
    and "validate_terminal_mode_summary (pn_modes p) = Inr ()" and "required_string (Some (pn_id p)) = Inr (pn_id p)"
  using assms
  by (simp_all add: pane_sendable_def validate_surface_kind_def validate_cursor_summary_def
      validate_terminal_mode_summary_def)

lemma full_colors_decode:
  "decoded_terminal_colors (Some (build_terminal_colors c None True)) = Some (client_colors c)"
  by (simp add: decoded_terminal_colors_def build_terminal_colors_def client_colors_def)

lemma full_colors_scope: "validate_palette_diff_scope k pk (Some (client_colors c)) = Inr ()"
  by (simp add: validate_palette_diff_scope_def terminal_colors_have_palette_diff_def client_colors_def)

subsection \<open>Snapshots\<close>

definition pane_snapshot :: "pane_data \<Rightarrow> wire_snapshot" where
  \<comment> \<open>the table \<open>pane_surface_frame_for_pane\<close> sends for a pane\<close>
  "pane_snapshot p =
     \<lparr>wsn_pane_id = Some (pn_id p), wsn_version = pn_surface_version p, wsn_surface = pn_surface p,
      wsn_cols = pn_cols p, wsn_rows = pn_rows p, wsn_cursor = Some (pn_cursor p),
      wsn_modes = Some (pn_modes p),
      wsn_metadata = Some (build_terminal_metadata (pn_terminal_title p) (pn_terminal_working_directory p)),
      wsn_colors = Some (build_terminal_colors (pn_colors p) None True),
      wsn_styles = Some (pn_styles p),
      wsn_rows_data = Some (snapshot_rows (surface_of_pane p)), wsn_hyperlinks = Some []\<rparr>"

lemma pane_surface_frame_eq:
  "session_pane_data s k = Some p \<Longrightarrow>
     pane_surface_frame_for_pane s conn seq k = Some (session_envelope s conn seq (BodySnapshot (pane_snapshot p)))"
  by (simp add: pane_surface_frame_for_pane_def pane_surface_def pane_snapshot_def map_idI)

definition snapshot_summary :: "pane_data \<Rightarrow> surface_update" where
  "snapshot_summary p =
     \<lparr>su_kind = UpdateSnapshot, su_pane_id = pn_id p, su_version = pn_surface_version p,
      su_base_version = None, su_patch_kind = None, su_cols = Some (pn_cols p), su_rows = Some (pn_rows p),
      su_surface = Some (pn_surface p), su_cursor = Some (pn_cursor p), su_modes = pn_modes p,
      su_title = pn_terminal_title p, su_working_directory = pn_terminal_working_directory p,
      su_colors = Some (client_colors (pn_colors p)),
      su_row_updates = map (pane_row_update p) [0..<length (pn_surface_lines p)],
      su_styles = pn_styles p, su_hyperlinks = [],
      su_text = render_decoded_rows (map (pane_row_update p) [0..<length (pn_surface_lines p)])\<rparr>"

lemma decoded_hyperlinks_Nil [simp]: "decoded_hyperlinks [] = Inr []"
  by (simp add: decoded_hyperlinks_def validate_hyperlink_table_def)

lemma decoded_styles_id [simp]: "decoded_styles ss = ss"
  by (simp add: decoded_styles_def map_idI)

lemma unwrap_modes_Some [simp]: "unwrap_modes (Some m) = m"
  by (simp add: unwrap_modes_def)

lemma metadata_built [simp]:
  "metadata_title (Some (build_terminal_metadata t w)) = t"
  "metadata_working_directory (Some (build_terminal_metadata t w)) = w"
  by (simp_all add: metadata_title_def metadata_working_directory_def build_terminal_metadata_def)

lemma snapshot_decodes:
  assumes "pane_sendable p" and "surface_rows_aligned p"
  shows "snapshot_update (pane_snapshot p) = Inr (snapshot_summary p)"
proof -
  let ?is = "[0..<length (pn_surface_lines p)]"
  have rows: "map decoded_surface_row (snapshot_rows (surface_of_pane p)) = map (pane_row_update p) ?is"
    by (simp add: snapshot_rows_eq [OF assms(2)] pane_row_update_def comp_def)
  note checked = sendable_rows_checked [OF assms, of ?is "pn_styles p"]
  show ?thesis
    using checked sendable_scalars [OF assms(1)]
    by (simp add: snapshot_update_def pane_snapshot_def snapshot_summary_def rows Let_def
        full_colors_decode full_colors_scope)
qed

lemma rows_get_eq:
  "length xs = length (pn_surface_lines p) \<Longrightarrow> i < length (pn_surface_lines p) \<Longrightarrow> get xs i = Some (xs ! i)"
  by (simp add: get_def)

lemma client_rows_put:
  \<comment> \<open>writing the rows \<open>is\<close> of \<open>p'\<close> into the copy of \<open>p\<close>, where all other rows agree\<close>
  assumes ok: "surface_rows_ok p'" and len: "length (pn_surface_lines p) \<le> n" and n: "pn_rows p' = n"
    and ok0: "surface_rows_aligned p" and "is": "\<forall>i \<in> set is. i < length (pn_surface_lines p')"
    and rest: "\<And>i. i < n \<Longrightarrow> i \<notin> set is \<Longrightarrow>
      get (pn_surface_lines p) i = get (pn_surface_lines p') i \<and>
      get (pn_surface_row_runs p) i = get (pn_surface_row_runs p') i \<and>
      get (pn_surface_semantic_prompts p) i = get (pn_surface_semantic_prompts p') i \<and>
      get (pn_surface_dirty_rows p) i = get (pn_surface_dirty_rows p') i \<and>
      get (pn_surface_kitty p) i = get (pn_surface_kitty p') i"
  shows "put_all ru_row ru_text (pad n [] (pn_surface_lines p)) (map (pane_row_update p') is) =
      pad n [] (pn_surface_lines p')"
    and "put_all ru_row row_runs_or_plain
        (pad n [] (rows_map (\<lambda>i. client_runs (pn_surface_lines p ! i) (pn_surface_row_runs p ! i)) p))
        (map (pane_row_update p') is) =
      pad n [] (rows_map (\<lambda>i. client_runs (pn_surface_lines p' ! i) (pn_surface_row_runs p' ! i)) p')"
    and "put_all ru_row ru_dirty_hash (pad n 0 (map stable_row_hash (pn_surface_lines p)))
        (map (pane_row_update p') is) =
      pad n 0 (map stable_row_hash (pn_surface_lines p'))"
    and "put_all ru_row ru_semantic_prompt (pad n RowNone (pn_surface_semantic_prompts p))
        (map (pane_row_update p') is) =
      pad n RowNone (pn_surface_semantic_prompts p')"
    and "put_all ru_row ru_dirty (pad n False (pn_surface_dirty_rows p)) (map (pane_row_update p') is) =
      pad n False (pn_surface_dirty_rows p')"
    and "put_all ru_row ru_kitty (pad n False (pn_surface_kitty p)) (map (pane_row_update p') is) =
      pad n False (pn_surface_kitty p')"
    and "put_all ru_row ru_row_state_hash
        (pad n 0 (rows_map (\<lambda>i. row_state_hash (pn_surface_row_runs p ! i) (pane_row_metadata p i)) p))
        (map (pane_row_update p') is) =
      pad n 0 (rows_map (\<lambda>i. row_state_hash (pn_surface_row_runs p' ! i) (pane_row_metadata p' i)) p')"
proof -
  have al: "surface_rows_aligned p'" and len': "length (pn_surface_lines p') \<le> n"
    using ok n by (simp_all add: surface_rows_ok_def)
  note len_eq = surface_rows_aligned_length [OF ok0] surface_rows_aligned_length [OF al]
    ok0 [unfolded surface_rows_aligned_def] al [unfolded surface_rows_aligned_def]
  note fields = pane_row_update_fields [OF al]
  note put = put_all_pad [of ru_row "pane_row_update p'"]
  have same: "(i < length (pn_surface_lines p) \<longleftrightarrow> i < length (pn_surface_lines p')) \<and>
      (i < length (pn_surface_lines p) \<longrightarrow> pn_surface_lines p ! i = pn_surface_lines p' ! i \<and>
         pn_surface_row_runs p ! i = pn_surface_row_runs p' ! i)" if "i < n" "i \<notin> set is" for i
    using rest [OF that] len_eq(1,2) by (auto simp: get_def split: if_splits)
  have get_rows: "get (rows_map f p) i = get (rows_map f' p') i"
    if "i < n" "i \<notin> set is" "i < length (pn_surface_lines p') \<Longrightarrow> f i = f' i" for f f' i
    using same [OF that(1,2)] that(3) by (auto simp: get_def)
  show "put_all ru_row ru_text (pad n [] (pn_surface_lines p)) (map (pane_row_update p') is) =
      pad n [] (pn_surface_lines p')"
    using len len' "is" rest by (intro put) (auto simp: fields)
  show "put_all ru_row row_runs_or_plain
        (pad n [] (rows_map (\<lambda>i. client_runs (pn_surface_lines p ! i) (pn_surface_row_runs p ! i)) p))
        (map (pane_row_update p') is) =
      pad n [] (rows_map (\<lambda>i. client_runs (pn_surface_lines p' ! i) (pn_surface_row_runs p' ! i)) p')"
    using len len' "is" same by (intro put get_rows) (auto simp: fields)
  show "put_all ru_row ru_dirty_hash (pad n 0 (map stable_row_hash (pn_surface_lines p)))
        (map (pane_row_update p') is) =
      pad n 0 (map stable_row_hash (pn_surface_lines p'))"
    using len len' "is" rest by (intro put) (auto simp: fields get_map)
  show "put_all ru_row ru_semantic_prompt (pad n RowNone (pn_surface_semantic_prompts p))
        (map (pane_row_update p') is) = pad n RowNone (pn_surface_semantic_prompts p')"
    using len len' "is" rest len_eq by (intro put) (auto simp: fields)
  show "put_all ru_row ru_dirty (pad n False (pn_surface_dirty_rows p)) (map (pane_row_update p') is) =
      pad n False (pn_surface_dirty_rows p')"
    using len len' "is" rest len_eq by (intro put) (auto simp: fields)
  show "put_all ru_row ru_kitty (pad n False (pn_surface_kitty p)) (map (pane_row_update p') is) =
      pad n False (pn_surface_kitty p')"
    using len len' "is" rest len_eq by (intro put) (auto simp: fields)
  have meta: "pane_row_metadata p i = pane_row_metadata p' i" if "i < n" "i \<notin> set is" for i
    using rest [OF that] by (simp add: pane_row_metadata_def row_metadata_at_def get_or_def)
  show "put_all ru_row ru_row_state_hash
        (pad n 0 (rows_map (\<lambda>i. row_state_hash (pn_surface_row_runs p ! i) (pane_row_metadata p i)) p))
        (map (pane_row_update p') is) =
      pad n 0 (rows_map (\<lambda>i. row_state_hash (pn_surface_row_runs p' ! i) (pane_row_metadata p' i)) p')"
    using len len' "is" same meta by (intro put get_rows) (auto simp: fields)
qed


definition set_rows :: "nat \<Rightarrow> pane_data \<Rightarrow> client_pane \<Rightarrow> client_pane" where
  \<comment> \<open>the seven row vectors a copy of \<open>p\<close> has, at height \<open>n\<close>\<close>
  "set_rows n p c =
     c\<lparr>cp_row_text := pad n [] (pn_surface_lines p),
       cp_row_runs := pad n []
         (rows_map (\<lambda>i. client_runs (pn_surface_lines p ! i) (pn_surface_row_runs p ! i)) p),
       cp_row_dirty_hashes := pad n 0 (map stable_row_hash (pn_surface_lines p)),
       cp_row_semantic_prompts := pad n RowNone (pn_surface_semantic_prompts p),
       cp_row_dirty := pad n False (pn_surface_dirty_rows p),
       cp_row_kitty := pad n False (pn_surface_kitty p),
       cp_row_state_hashes := pad n 0
         (rows_map (\<lambda>i. row_state_hash (pn_surface_row_runs p ! i) (pane_row_metadata p i)) p)\<rparr>"

definition rows_agree :: "nat \<Rightarrow> nat list \<Rightarrow> pane_data \<Rightarrow> pane_data \<Rightarrow> bool" where
  \<comment> \<open>\<open>p\<close> and \<open>p'\<close> show the same in every row below \<open>n\<close> but those of \<open>is\<close>\<close>
  "rows_agree n is p p' \<longleftrightarrow>
     (\<forall>i < n. i \<notin> set is \<longrightarrow>
        get (pn_surface_lines p) i = get (pn_surface_lines p') i \<and>
        get (pn_surface_row_runs p) i = get (pn_surface_row_runs p') i \<and>
        get (pn_surface_semantic_prompts p) i = get (pn_surface_semantic_prompts p') i \<and>
        get (pn_surface_dirty_rows p) i = get (pn_surface_dirty_rows p') i \<and>
        get (pn_surface_kitty p) i = get (pn_surface_kitty p') i)"

lemma apply_rows_set_rows:
  assumes "surface_rows_ok p'" and "length (pn_surface_lines p) \<le> pn_rows p'" and "surface_rows_aligned p"
    and "is": "\<forall>i \<in> set is. i < length (pn_surface_lines p')"
    and "rows_agree (pn_rows p') is p p'"
    and c: "set_rows (pn_rows p') p c = c"
  shows "apply_rows c (map (pane_row_update p') is) = Inr (set_rows (pn_rows p') p' c)"
proof -
  let ?n = "pn_rows p'"
  have rest: "\<And>i. i < ?n \<Longrightarrow> i \<notin> set is \<Longrightarrow>
      get (pn_surface_lines p) i = get (pn_surface_lines p') i \<and>
      get (pn_surface_row_runs p) i = get (pn_surface_row_runs p') i \<and>
      get (pn_surface_semantic_prompts p) i = get (pn_surface_semantic_prompts p') i \<and>
      get (pn_surface_dirty_rows p) i = get (pn_surface_dirty_rows p') i \<and>
      get (pn_surface_kitty p) i = get (pn_surface_kitty p') i"
    using assms(5) by (simp add: rows_agree_def)
  note put = client_rows_put [OF assms(1,2) refl assms(3) "is" rest]
  have f: "cp_row_text c = cp_row_text (set_rows ?n p c)" "cp_row_runs c = cp_row_runs (set_rows ?n p c)"
    "cp_row_dirty_hashes c = cp_row_dirty_hashes (set_rows ?n p c)"
    "cp_row_semantic_prompts c = cp_row_semantic_prompts (set_rows ?n p c)"
    "cp_row_dirty c = cp_row_dirty (set_rows ?n p c)" "cp_row_kitty c = cp_row_kitty (set_rows ?n p c)"
    "cp_row_state_hashes c = cp_row_state_hashes (set_rows ?n p c)"
    by (simp_all add: c)
  have "length (cp_row_text c) = ?n" using f(1) assms(2) by (simp add: set_rows_def)
  moreover have "\<forall>i \<in> set is. i < ?n" using "is" assms(1) by (auto simp: surface_rows_ok_def)
  ultimately have "\<forall>r \<in> set (map (pane_row_update p') is). ru_row r < length (cp_row_text c)" by simp
  from apply_rows_put_all [OF this] show ?thesis
    unfolding f by (simp add: set_rows_def put)
qed

lemma client_of_set_rows: "client_of p = set_rows (pn_rows p) p (client_of p)"
  by (simp add: client_of_def set_rows_def)

lemma length_client_rows: "surface_rows_ok p \<Longrightarrow> length (cp_row_text (client_of p)) = pn_rows p"
  by (simp add: client_of_def surface_rows_ok_def)

lemma snapshot_builds_copy:
  assumes "pane_sendable p" and ok: "surface_rows_ok p"
  shows "client_from_snapshot (snapshot_summary p) = Inr (client_of p)"
proof -
  let ?is = "[0..<length (pn_surface_lines p)]"
  have al: "surface_rows_aligned p" and len: "length (pn_surface_lines p) \<le> pn_rows p"
    using ok by (simp_all add: surface_rows_ok_def)
  have idx: "validate_row_update_indices (map (pane_row_update p) ?is) (pn_rows p) = Inr ()"
    using len by (intro row_indices_ok) auto
  have max: "max (length (client_styles (pn_styles p))) 1 = max (length (pn_styles p)) 1"
    by (simp add: client_styles_def default_style_summaries_def)
  note checked = sendable_rows_checked [OF assms(1) al, of ?is "client_styles (pn_styles p)", OF _ max]
  have rows: "apply_rows c (map (pane_row_update p) ?is) = Inr (set_rows (pn_rows p) p c)"
    if "set_rows (pn_rows p) (clear_rows p) c = c" for c
    using that al surface_rows_aligned_length [OF al]
    by (intro apply_rows_set_rows [OF ok])
      (auto simp: clear_rows_def surface_rows_aligned_def rows_agree_def get_def)
  define blank where "blank =
     \<lparr>cp_pane_id = pn_id p, cp_version = pn_surface_version p, cp_cols = pn_cols p, cp_rows = pn_rows p,
      cp_surface = pn_surface p, cp_cursor = Some (pn_cursor p), cp_modes = pn_modes p,
      cp_title = pn_terminal_title p, cp_working_directory = pn_terminal_working_directory p,
      cp_colors = client_colors (pn_colors p), cp_styles = client_styles (pn_styles p), cp_hyperlinks = [],
      cp_row_text = replicate (pn_rows p) [], cp_row_runs = replicate (pn_rows p) [],
      cp_row_dirty_hashes = replicate (pn_rows p) 0,
      cp_row_semantic_prompts = replicate (pn_rows p) RowNone,
      cp_row_dirty = replicate (pn_rows p) False, cp_row_kitty = replicate (pn_rows p) False,
      cp_row_state_hashes = replicate (pn_rows p) 0\<rparr>"
  have "client_from_snapshot (snapshot_summary p) = apply_rows blank (map (pane_row_update p) ?is)"
    using idx checked(2) checked(3) [of "[]"] sendable_scalars [OF assms(1)]
    by (cases "pn_styles p = []")
      (simp_all add: client_from_snapshot_def snapshot_summary_def full_colors_scope Let_def
        validate_hyperlink_table_def client_styles_def blank_def)
  also have "set_rows (pn_rows p) (clear_rows p) blank = blank"
    by (simp add: blank_def set_rows_def clear_rows_def rows_map_def)
  then have "apply_rows blank (map (pane_row_update p) ?is) = Inr (set_rows (pn_rows p) p blank)" by (rule rows)
  also have "set_rows (pn_rows p) p blank = client_of p"
    by (simp add: blank_def set_rows_def client_of_def)
  finally show ?thesis .
qed

subsection \<open>Patches\<close>

definition pane_patch :: "pane_data \<Rightarrow> u64 \<Rightarrow> wire_patch" where
  \<comment> \<open>the table \<open>pane_surface_patch_frame_for_pane\<close> sends for a pane\<close>
  "pane_patch p base =
     (let kind = pn_last_patch_kind p in
      \<lparr>wpt_pane_id = Some (pn_id p), wpt_base_version = base, wpt_version = pn_surface_version p,
       wpt_kind = kind,
       wpt_row_updates = Some (if kind = PatchReplaceRows
                               then map (pane_wire_row p) (pn_last_row_update_indices p) else []),
       wpt_cursor = Some (pn_cursor p), wpt_modes = Some (pn_modes p),
       wpt_metadata = Some (build_terminal_metadata (pn_terminal_title p) (pn_terminal_working_directory p)),
       wpt_colors = Some (build_terminal_colors (pn_colors p)
          (if kind = PatchColorOnly then pn_last_palette_diff p else None) (kind \<noteq> PatchColorOnly))\<rparr>)"

lemma pane_surface_patch_frame_eq:
  assumes "session_pane_data s k = Some p"
  shows "pane_surface_patch_frame_for_pane s conn seq k base =
    Some (session_envelope s conn seq (BodyPatch (pane_patch p base)))"
proof -
  have "pn_id p = k" using ws.look_key [OF assms] .
  then show ?thesis
    using assms
    by (simp add: pane_surface_patch_frame_for_pane_def pane_surface_def pane_patch_def Let_def pane_wire_row_def)
qed

definition patch_colors :: "pane_data \<Rightarrow> color_summary" where
  \<comment> \<open>the colours a client decodes from a patch\<close>
  "patch_colors p =
     (if pn_last_patch_kind p = PatchColorOnly
      then (let d = (case pn_last_palette_diff p of Some d \<Rightarrow> pd_colors d | None \<Rightarrow> [])
            in (client_colors (pn_colors p))
                 \<lparr>cs_palette := [], cs_diff := d,
                  cs_diff_start := (if d = [] then None
                                    else (case pn_last_palette_diff p of Some x \<Rightarrow> Some (pd_start x) | None \<Rightarrow> Some 0))\<rparr>)
      else client_colors (pn_colors p))"

lemma patch_colors_decode:
  "decoded_terminal_colors (wpt_colors (pane_patch p base)) = Some (patch_colors p)"
  by (auto simp: pane_patch_def Let_def decoded_terminal_colors_def build_terminal_colors_def patch_colors_def
      client_colors_def split: option.split)

definition patch_summary :: "pane_data \<Rightarrow> u64 \<Rightarrow> surface_update" where
  "patch_summary p base =
     (let rows = (if pn_last_patch_kind p = PatchReplaceRows
                  then map (pane_row_update p) (pn_last_row_update_indices p) else [])
      in \<lparr>su_kind = UpdatePatch, su_pane_id = pn_id p, su_version = pn_surface_version p,
          su_base_version = Some base, su_patch_kind = Some (pn_last_patch_kind p), su_cols = None,
          su_rows = None, su_surface = None, su_cursor = Some (pn_cursor p), su_modes = pn_modes p,
          su_title = pn_terminal_title p, su_working_directory = pn_terminal_working_directory p,
          su_colors = Some (patch_colors p), su_row_updates = rows, su_styles = [],
          su_hyperlinks = [], su_text = render_decoded_rows rows\<rparr>)"

lemma patch_colors_scope:
  "validate_palette_diff_scope UpdatePatch (Some (pn_last_patch_kind p)) (Some (patch_colors p)) = Inr ()"
  by (simp add: validate_palette_diff_scope_def terminal_colors_have_palette_diff_def patch_colors_def
      client_colors_def Let_def)

lemma patch_decodes:
  assumes "pane_sendable p" and "surface_rows_aligned p" and "patch_kind_known (pn_last_patch_kind p)"
    and "pn_last_patch_kind p = PatchReplaceRows \<Longrightarrow>
      \<forall>i \<in> set (pn_last_row_update_indices p). i < length (pn_surface_lines p)"
  shows "patch_update (pane_patch p base) = Inr (patch_summary p base)"
proof -
  let ?ws = "if pn_last_patch_kind p = PatchReplaceRows
             then map (pane_wire_row p) (pn_last_row_update_indices p) else []"
  let ?rs = "if pn_last_patch_kind p = PatchReplaceRows
             then map (pane_row_update p) (pn_last_row_update_indices p) else []"
  have rows: "map decoded_surface_row ?ws = ?rs"
    by (simp add: pane_row_update_def comp_def)
  have fields: "wpt_kind (pane_patch p base) = pn_last_patch_kind p"
    "wpt_row_updates (pane_patch p base) = Some ?ws" "wpt_cursor (pane_patch p base) = Some (pn_cursor p)"
    "wpt_modes (pane_patch p base) = Some (pn_modes p)" "wpt_pane_id (pane_patch p base) = Some (pn_id p)"
    "wpt_metadata (pane_patch p base) =
       Some (build_terminal_metadata (pn_terminal_title p) (pn_terminal_working_directory p))"
    "wpt_version (pane_patch p base) = pn_surface_version p" "wpt_base_version (pane_patch p base) = base"
    by (simp_all add: pane_patch_def Let_def)
  have enums: "validate_row_update_terminal_enums ?rs = Inr ()"
    using sendable_rows_checked(1) [OF assms(1,2) assms(4)]
    by (auto simp: validate_row_update_terminal_enums_def)
  have payload: "validate_no_row_patch_payload (pn_last_patch_kind p) ?rs = Inr ()"
    by (simp add: validate_no_row_patch_payload_def)
  have kind: "validate_patch_kind (pn_last_patch_kind p) = Inr ()"
    using assms(3) by (simp add: validate_patch_kind_def)
  show ?thesis
    unfolding patch_update_def patch_colors_decode fields
    using enums payload kind sendable_scalars [OF assms(1)] patch_colors_scope [of p] rows
    by (simp only: bind_res_simps ok_or_simps Let_def option.map build_ids unwrap_modes_Some metadata_built
        patch_summary_def)
qed

lemma patch_colors_full: "pn_last_patch_kind p \<noteq> PatchColorOnly \<Longrightarrow> patch_colors p = client_colors (pn_colors p)"
  by (simp add: patch_colors_def)

lemma client_colors_eq_iff: "client_colors a = client_colors b \<longleftrightarrow> a = b"
  by (auto simp: client_colors_def intro: terminal_colors.equality)

text \<open>Applying each kind of patch to the copy, under what the session guarantees of it.\<close>

lemma apply_row_patch:
  assumes "pane_sendable p'" and ok: "surface_rows_ok p" "surface_rows_ok p'"
    and "pn_last_patch_kind p' = PatchReplaceRows"
    and same: "pn_id p' = pn_id p" "pn_cols p' = pn_cols p" "pn_rows p' = pn_rows p"
      "pn_surface p' = pn_surface p" "pn_colors p' = pn_colors p" "pn_styles p' = pn_styles p"
    and idx: "distinct (pn_last_row_update_indices p')"
      "\<forall>i \<in> set (pn_last_row_update_indices p'). i < length (pn_surface_lines p')"
    and agree: "rows_agree (pn_rows p') (pn_last_row_update_indices p') p p'"
  shows "client_apply_patch (client_of p) (patch_summary p' (pn_surface_version p)) = Inr (client_of p')"
proof -
  let ?is = "pn_last_row_update_indices p'"
  have al: "surface_rows_aligned p'" "surface_rows_aligned p" and len: "length (pn_surface_lines p) \<le> pn_rows p'"
    and len': "length (pn_surface_lines p') \<le> pn_rows p'"
    using ok same by (simp_all add: surface_rows_ok_def)
  have rows: "apply_rows (client_of p) (map (pane_row_update p') ?is) = Inr (set_rows (pn_rows p') p' (client_of p))"
    using client_of_set_rows [of p] same
    by (intro apply_rows_set_rows [OF ok(2) len al(2) idx(2) agree]) simp
  have max: "max (length (cp_styles (client_of p))) 1 = max (length (pn_styles p')) 1"
    using same by (simp add: client_of_def client_styles_def default_style_summaries_def)
  have indices: "validate_row_update_indices (map (pane_row_update p') ?is) (length (cp_row_text (client_of p))) = Inr ()"
    using idx len' by (intro row_indices_ok) (auto simp: length_client_rows [OF ok(1)] same)
  note checked = sendable_rows_checked [OF assms(1) al(1) idx(2) max]
  have unch: "colors_unchanged (patch_summary p' (pn_surface_version p)) (client_of p)"
    using same assms(4) by (simp add: colors_unchanged_def patch_summary_def Let_def patch_colors_full client_of_def)
  have base: "cp_pane_id (client_of p) = pn_id p" "cp_version (client_of p) = pn_surface_version p"
    by (simp_all add: client_of_def)
  have copy: "(set_client_meta (patch_summary p' (pn_surface_version p)) (set_rows (pn_rows p') p' (client_of p)))
      \<lparr>cp_modes := pn_modes p'\<rparr> = client_of p'"
    using same by (simp add: set_client_meta_def patch_summary_def Let_def set_rows_def client_of_def)
  show ?thesis
    using checked(1,2) checked(3) [of "cp_hyperlinks (client_of p)"] indices rows unch sendable_scalars [OF assms(1)] assms(4) same copy
      patch_colors_scope [of p']
    by (simp add: client_apply_patch_def patch_summary_def Let_def base validate_patch_kind_def
        validate_no_row_patch_payload_def)
qed

lemma apply_quiet_patch:
  \<comment> \<open>a patch without rows: cursor, modes or colours\<close>
  assumes "pane_sendable p'" and "pn_last_patch_kind p' \<in> {PatchCursorOnly, PatchModeOnly, PatchColorOnly}"
    and same: "pn_id p' = pn_id p" "pn_cols p' = pn_cols p" "pn_rows p' = pn_rows p"
      "pn_surface p' = pn_surface p" "pn_styles p' = pn_styles p"
      "pn_surface_lines p' = pn_surface_lines p" "pn_surface_row_runs p' = pn_surface_row_runs p"
      "pn_surface_semantic_prompts p' = pn_surface_semantic_prompts p"
      "pn_surface_dirty_rows p' = pn_surface_dirty_rows p" "pn_surface_kitty p' = pn_surface_kitty p"
    and cols: "pn_last_patch_kind p' \<noteq> PatchColorOnly \<Longrightarrow> pn_colors p' = pn_colors p"
    and modes: "pn_last_patch_kind p' = PatchCursorOnly \<Longrightarrow> pn_modes p' = pn_modes p"
    and diff: "pn_last_patch_kind p' = PatchColorOnly \<Longrightarrow>
      colors_materialize (patch_colors p') (client_colors (pn_colors p)) = Inr (client_colors (pn_colors p'))"
  shows "client_apply_patch (client_of p) (patch_summary p' (pn_surface_version p)) = Inr (client_of p')"
proof -
  have rm: "rows_map f p' = rows_map f p" for f :: "nat \<Rightarrow> 'z"
    using same by (simp add: rows_map_def)
  have meta: "pane_row_metadata p' = pane_row_metadata p"
    using same by (simp add: pane_row_metadata_def fun_eq_iff)
  note facts = sendable_scalars [OF assms(1)] patch_colors_scope [of p']
  from assms(2) consider "pn_last_patch_kind p' = PatchCursorOnly" | "pn_last_patch_kind p' = PatchModeOnly"
    | "pn_last_patch_kind p' = PatchColorOnly" by blast
  then show ?thesis
  proof cases
    case 1
    with facts same cols modes show ?thesis
      by (simp add: client_apply_patch_def patch_summary_def Let_def validate_patch_kind_def
          validate_no_row_patch_payload_def colors_unchanged_def patch_colors_full set_client_meta_def
          client_of_def rows_map_def meta)
  next
    case 2
    with facts same cols show ?thesis
      by (simp add: client_apply_patch_def patch_summary_def Let_def validate_patch_kind_def
          validate_no_row_patch_payload_def colors_unchanged_def patch_colors_full set_client_meta_def
          client_of_def rows_map_def meta)
  next
    case 3
    with facts same diff show ?thesis
      by (simp add: client_apply_patch_def patch_summary_def Let_def validate_patch_kind_def
          validate_no_row_patch_payload_def set_client_meta_def client_of_def rows_map_def meta)
  qed
qed

lemma palette_materializes:
  assumes "pn_last_patch_kind p' = PatchColorOnly"
    and "pn_last_palette_diff p' = make_palette_diff (tco_palette old) (tco_palette (pn_colors p'))"
    and "palette_grows (tco_palette old) (tco_palette (pn_colors p'))"
  shows "colors_materialize (patch_colors p') (client_colors old) = Inr (client_colors (pn_colors p'))"
proof (cases "pn_last_palette_diff p'")
  case None
  with assms(2) have "make_palette_diff (tco_palette old) (tco_palette (pn_colors p')) = None" by simp
  then have "tco_palette old = tco_palette (pn_colors p')" by (simp add: make_palette_diff_None_iff)
  with None assms(1) show ?thesis
    by (simp add: colors_materialize_def patch_colors_def Let_def client_colors_def)
next
  case (Some d)
  note r = make_palette_diff_rebuilds [OF assms(2) [unfolded Some, symmetric]]
  have "pd_colors d \<noteq> []"
    using make_palette_diff_nonempty [OF assms(2) [unfolded Some, symmetric]] assms(3) by simp
  with Some assms(1) r show ?thesis
    by (simp add: colors_materialize_def patch_colors_def Let_def client_colors_def)
qed


subsection \<open>Patches of updated panes\<close>

definition update_grows :: "pane_data \<Rightarrow> terminal_update \<Rightarrow> bool" where
  \<comment> \<open>no rows vanish and the palette is not cut short\<close>
  "update_grows p u \<longleftrightarrow>
     length (pn_surface_lines p) \<le> length (tu_surface_lines u) \<and>
     palette_grows (tco_palette (pn_colors p)) (tco_palette (tu_colors u))"

lemma updated_rows_get:
  assumes "i < pn_rows p"
  shows "get (pn_surface_lines (fst (apply_terminal_update p u f))) i = get (tu_surface_lines u) i"
    and "get (pn_surface_row_runs (fst (apply_terminal_update p u f))) i =
      get (row_runs_for_lines (tu_surface_lines u) (tu_surface_row_runs u)) i"
    and "get (pn_surface_semantic_prompts (fst (apply_terminal_update p u f))) i =
      get (row_semantic_prompts_for_lines (tu_surface_lines u) (tu_surface_semantic_prompts u)) i"
    and "get (pn_surface_dirty_rows (fst (apply_terminal_update p u f))) i =
      get (row_dirty_flags_for_lines (tu_surface_lines u) (tu_surface_dirty_rows u)) i"
    and "get (pn_surface_kitty (fst (apply_terminal_update p u f))) i =
      get (row_kitty_placeholders_for_lines (tu_surface_lines u) (tu_surface_kitty u)) i"
  using assms by (simp_all add: apply_terminal_update_rows get_take)

lemma update_row_indices_sound:
  assumes ok: "surface_rows_ok p" and len: "length (pn_surface_lines p) \<le> length (tu_surface_lines u)"
    and "is": "is = filter (\<lambda>row. row < pn_rows p) (update_row_indices p u False)"
    and p': "p' = fst (apply_terminal_update p u False)"
  shows "distinct is" and "\<forall>i \<in> set is. i < length (pn_surface_lines p')"
    and "rows_agree (pn_rows p') is p p'"
proof -
  have n: "pn_rows p' = pn_rows p" by (simp add: p' apply_terminal_update_frame)
  have lines: "length (pn_surface_lines p') = min (length (tu_surface_lines u)) (pn_rows p)"
    by (simp add: p' apply_terminal_update_rows)
  show "distinct is"
    by (simp add: "is" update_row_indices_def surface_row_update_indices_def all_row_indices_def)
  show "\<forall>i \<in> set is. i < length (pn_surface_lines p')"
    using lines
    by (auto simp: "is" update_row_indices_def surface_row_update_indices_def all_row_indices_def split: if_splits)
  show "rows_agree (pn_rows p') is p p'"
    unfolding rows_agree_def n
  proof (intro allI impI)
    fix i assume i: "i < pn_rows p" "i \<notin> set is"
    note g = updated_rows_get [OF i(1), of u False, folded p']
    show "get (pn_surface_lines p) i = get (pn_surface_lines p') i \<and>
        get (pn_surface_row_runs p) i = get (pn_surface_row_runs p') i \<and>
        get (pn_surface_semantic_prompts p) i = get (pn_surface_semantic_prompts p') i \<and>
        get (pn_surface_dirty_rows p) i = get (pn_surface_dirty_rows p') i \<and>
        get (pn_surface_kitty p) i = get (pn_surface_kitty p') i"
    proof (cases "i < length (tu_surface_lines u)")
      case True
      with i have "length (pn_surface_lines p) = length (tu_surface_lines u)"
        by (auto simp: "is" update_row_indices_def surface_row_update_indices_def all_row_indices_def
            split: if_splits)
      with i True show ?thesis
        unfolding g
        by (auto simp: "is" update_row_indices_def surface_row_update_indices_def split: if_splits)
    next
      case False
      with len ok surface_rows_ok_lengths [OF ok] show ?thesis
        unfolding g by (simp add: get_def surface_rows_ok_def surface_rows_aligned_def)
    qed
  qed
qed

text \<open>
  An incremental update, sent as a patch and applied, brings the copy of the old pane to the
  copy of the new one.
\<close>

lemma patch_syncs:
  assumes ok: "pane_ok p" and v: "pn_surface_version p < U64_MAX" and grows: "update_grows p u"
    and p': "p' = fst (apply_terminal_update p u False)"
    and changed: "pn_surface_version p' \<noteq> pn_surface_version p"
    and incr: "pn_last_patch_kind p' \<noteq> PatchFullRefreshRequired"
    and send: "pane_sendable p'"
  shows "patch_update (pane_patch p' (pn_surface_version p)) =
      Inr (patch_summary p' (pn_surface_version p)) \<and>
    client_apply_patch (client_of p) (patch_summary p' (pn_surface_version p)) = Inr (client_of p')"
proof -
  let ?c = "patch_changes p u False"
  have sc: "surface_changed ?c"
    using changed by (auto simp: p' apply_terminal_update_version split: if_splits)
  have kind: "pn_last_patch_kind p' = terminal_patch_kind ?c"
    using sc by (simp add: p' apply_terminal_update_patch)
  note kinds = patch_kind_cases [OF sc incr [unfolded kind]]
  note same = patch_kind_incremental [OF sc incr [unfolded kind]]
  have ok_rows: "surface_rows_ok p" using ok by (rule pane_ok_rows)
  have ok': "surface_rows_ok p'" by (simp add: p' apply_terminal_update_surface_rows_ok)
  then have al': "surface_rows_aligned p'" by (simp add: surface_rows_ok_def)
  have len: "length (pn_surface_lines p) \<le> length (tu_surface_lines u)"
    using grows by (simp add: update_grows_def)
  have base: "pn_id p' = pn_id p" "pn_cols p' = pn_cols p" "pn_rows p' = pn_rows p"
    "pn_surface p' = pn_surface p" "pn_styles p' = pn_styles p"
    using same by (simp_all add: p' apply_terminal_update_frame apply_terminal_update_surface)
  have known: "patch_kind_known (pn_last_patch_kind p')" using kinds by (simp add: kind)
  show ?thesis
  proof (cases "rows_kept p u")
    case False
    then have k: "pn_last_patch_kind p' = PatchReplaceRows" using kinds kind by simp
    have idx: "pn_last_row_update_indices p' =
        filter (\<lambda>row. row < pn_rows p) (update_row_indices p u False)"
      using sc k kind by (simp add: p' apply_terminal_update_patch)
    note sound = update_row_indices_sound [OF ok_rows len idx p']
    have cols: "pn_colors p' = pn_colors p"
      using same False by (simp add: p' apply_terminal_update_surface)
    from patch_decodes [OF send al' known] apply_row_patch [OF send ok_rows ok' k base(1-4) cols base(5) sound]
      sound(2) show ?thesis by blast
  next
    case True
    then have k: "pn_last_patch_kind p' \<in> {PatchCursorOnly, PatchModeOnly, PatchColorOnly}"
      using kinds kind by auto
    note rows = rows_kept_same [OF ok_rows True, of False, folded p']
    have cols: "pn_colors p' = pn_colors p" if "pn_last_patch_kind p' \<noteq> PatchColorOnly"
      using that kinds kind True by (auto simp: p' apply_terminal_update_surface split: if_splits)
    have modes: "pn_modes p' = pn_modes p" if "pn_last_patch_kind p' = PatchCursorOnly"
      using that kinds kind True by (auto simp: p' apply_terminal_update_surface split: if_splits)
    have "colors_materialize (patch_colors p') (client_colors (pn_colors p)) = Inr (client_colors (pn_colors p'))"
      if c: "pn_last_patch_kind p' = PatchColorOnly"
    proof (rule palette_materializes [OF c])
      show "pn_last_palette_diff p' = make_palette_diff (tco_palette (pn_colors p)) (tco_palette (pn_colors p'))"
        using sc c kind by (simp add: p' apply_terminal_update_patch apply_terminal_update_surface)
      show "palette_grows (tco_palette (pn_colors p)) (tco_palette (pn_colors p'))"
        using grows by (simp add: p' apply_terminal_update_surface update_grows_def)
    qed
    then have "client_apply_patch (client_of p) (patch_summary p' (pn_surface_version p)) = Inr (client_of p')"
      using cols modes by (intro apply_quiet_patch [OF send k base(1-5) rows]) auto
    moreover have "patch_update (pane_patch p' (pn_surface_version p)) =
        Inr (patch_summary p' (pn_surface_version p))"
      using k by (intro patch_decodes [OF send al' known]) auto
    ultimately show ?thesis by blast
  qed
qed

lemma snapshot_syncs:
  assumes "pane_sendable p" and "surface_rows_ok p"
  shows "snapshot_update (pane_snapshot p) = Inr (snapshot_summary p) \<and>
    client_from_snapshot (snapshot_summary p) = Inr (client_of p)"
  using snapshot_decodes [OF assms(1)] snapshot_builds_copy [OF assms] assms(2)
  by (simp add: surface_rows_ok_def)

lemma same_surface_copy:
  "same_surface p q \<Longrightarrow> pn_id p = pn_id q \<Longrightarrow> pn_cols p = pn_cols q \<Longrightarrow> pn_rows p = pn_rows q \<Longrightarrow>
     pn_surface_version p = pn_surface_version q \<Longrightarrow> client_of p = client_of q"
  by (simp add: same_surface_def client_of_def rows_map_def pane_row_metadata_def)

end
