(* ===== verification/Ordered_Map.thy ===== *)
theory Ordered_Map
  imports Prelude "HOL-Library.List_Lexorder" "HOL-Library.Product_Lexorder"
begin

text \<open>
  What the sources use of \<open>std::collections::BTreeMap\<close> and \<open>Iterator::min_by_key\<close>. A map is the
  list of its entries in key order. Strings compare by their characters, which is how their
  UTF-8 bytes compare.
\<close>

type_synonym ('k, 'v) btree = "('k \<times> 'v) list"

fun bt_put :: "'k::linorder \<Rightarrow> 'v \<Rightarrow> ('k, 'v) btree \<Rightarrow> ('k, 'v) btree" where
  "bt_put k v [] = [(k, v)]"
| "bt_put k v ((k', v') # m) =
     (if k < k' then (k, v) # (k', v') # m
      else if k = k' then (k, v) # m
      else (k', v') # bt_put k v m)"

definition bt_get :: "('k, 'v) btree \<Rightarrow> 'k \<Rightarrow> 'v option" where
  "bt_get m k = map_of m k"

definition bt_del :: "'k \<Rightarrow> ('k, 'v) btree \<Rightarrow> ('k, 'v) btree" where
  "bt_del k m = filter (\<lambda>e. fst e \<noteq> k) m"

primrec bt_set :: "'k \<Rightarrow> 'v \<Rightarrow> ('k, 'v) btree \<Rightarrow> ('k, 'v) btree" where
  \<comment> \<open>a write through \<open>get_mut\<close>\<close>
  "bt_set k v [] = []"
| "bt_set k v (e # m) = (if fst e = k then (k, v) # m else e # bt_set k v m)"

definition bt_sorted :: "('k::linorder, 'v) btree \<Rightarrow> bool" where
  "bt_sorted m \<longleftrightarrow> sorted_wrt (<) (map fst m)"

lemma bt_sorted_simps [simp]:
  "bt_sorted []"
  "bt_sorted ((k, v) # m) \<longleftrightarrow> (\<forall>e \<in> set m. k < fst e) \<and> bt_sorted m"
  by (auto simp: bt_sorted_def)

lemma set_bt_put: "fst ` set (bt_put k v m) = insert k (fst ` set m)"
  by (induction k v m rule: bt_put.induct) auto

lemma bt_get_Nil [simp]: "bt_get [] k = None"
  by (simp add: bt_get_def)

lemma bt_get_put: "bt_sorted m \<Longrightarrow> bt_get (bt_put k v m) q = (if q = k then Some v else bt_get m q)"
proof (induction k v m rule: bt_put.induct)
  case (2 k v k' v' m)
  have "map_of m k = None" if "k < k'"
    using that "2.prems" by (force simp: map_of_eq_None_iff)
  with 2 show ?case by (auto simp: bt_get_def)
qed (simp add: bt_get_def)

lemma bt_sorted_put: "bt_sorted m \<Longrightarrow> bt_sorted (bt_put k v m)"
proof (induction k v m rule: bt_put.induct)
  case (2 k v k' v' m)
  have "\<forall>e \<in> set (bt_put k v m). k' < fst e" if "k' < k"
    using that "2.prems" set_bt_put [of k v m] by (metis bt_sorted_simps(2) image_iff insertE)
  with 2 show ?case by force
qed simp

lemma bt_get_del: "bt_get (bt_del k m) q = (if q = k then None else bt_get m q)"
  by (induction m) (auto simp: bt_get_def bt_del_def)

lemma bt_sorted_del: "bt_sorted m \<Longrightarrow> bt_sorted (bt_del k m)"
  by (induction m) (auto simp: bt_del_def)

lemma bt_get_in: "bt_sorted m \<Longrightarrow> (k, v) \<in> set m \<longleftrightarrow> bt_get m k = Some v"
proof (induction m)
  case (Cons e m)
  obtain k' v' where e: "e = (k', v')" by (cases e)
  from Cons.prems have "k' \<notin> fst ` set m" by (auto simp: e)
  with Cons show ?case by (force simp: e bt_get_def)
qed simp

lemma bt_get_None_in: "bt_get m k = None \<longleftrightarrow> k \<notin> fst ` set m"
  by (simp add: bt_get_def map_of_eq_None_iff)

lemma bt_set_put: "bt_sorted m \<Longrightarrow> bt_get m k = Some w \<Longrightarrow> bt_set k v m = bt_put k v m"
proof (induction m)
  case (Cons e m)
  obtain k' v' where e: "e = (k', v')" by (cases e)
  show ?case
  proof (cases "k' = k")
    case False
    with Cons.prems(2) have "bt_get m k = Some w" by (simp add: e bt_get_def)
    moreover from this Cons.prems(1) have "k' < k"
      by (metis bt_get_in bt_sorted_simps(2) e fst_conv)
    ultimately show ?thesis using Cons e False by (auto simp: not_less_iff_gr_or_eq)
  qed (simp add: e)
qed simp

subsection \<open>The first entry with the least key\<close>

fun min_by_key :: "('a \<Rightarrow> 'b::linorder) \<Rightarrow> 'a list \<Rightarrow> 'a option" where
  "min_by_key f [] = None"
| "min_by_key f (x # xs) =
     (case min_by_key f xs of None \<Rightarrow> Some x | Some y \<Rightarrow> if f y < f x then Some y else Some x)"

lemma min_by_key_None_iff: "min_by_key f xs = None \<longleftrightarrow> xs = []"
  by (cases xs) (auto split: option.splits)

lemma min_by_key_Some: "min_by_key f xs = Some x \<Longrightarrow> x \<in> set xs \<and> (\<forall>y \<in> set xs. f x \<le> f y)"
proof (induction xs arbitrary: x)
  case (Cons a xs)
  show ?case
  proof (cases "min_by_key f xs")
    case None
    with Cons.prems show ?thesis by (simp add: min_by_key_None_iff)
  next
    case (Some y)
    from Cons.IH [OF Some] Cons.prems Some show ?thesis
      by (auto split: if_splits intro: order_trans less_imp_le)
  qed
qed simp

lemma min_by_key_unique:
  assumes "inj_on f (set xs)" and "x \<in> set xs" and "\<And>y. y \<in> set xs \<Longrightarrow> f x \<le> f y"
  shows "min_by_key f xs = Some x"
proof -
  obtain z where z: "min_by_key f xs = Some z"
    using assms(2) by (cases "min_by_key f xs") (auto simp: min_by_key_None_iff)
  from min_by_key_Some [OF z] assms have "f z = f x" by (metis order_antisym)
  with min_by_key_Some [OF z] assms(1,2) have "z = x" by (auto dest: inj_onD)
  with z show ?thesis by simp
qed

end
