(* ===== verification/Session_Core.thy ===== *)
theory Session_Core
  imports Workspace Ordered_Map
begin

text \<open>
  The event-sourced core of a session (\<open>SessionCore\<close>, \<open>SessionActor\<close>,
  \<open>DeterministicSessionScheduler\<close>, \<open>SessionTraceRing\<close>, \<open>SessionRegistry\<close> of
  \<open>crates/nmux-core/src/session.rs\<close>): events wait in one queue per source, the scheduler
  picks the front with the most urgent lane, the core gives it an index and applies it,
  and the trace keeps the last records.

  The locale \<open>event_queue\<close> states what draining relies on; it is interpreted on the
  scheduler. The lemmas: the order of a source's events survives scheduling, draining ends
  and loses nothing, indices are consecutive, the trace is the suffix of the history,
  replaying the accepted events rebuilds the core and the effects.
\<close>

subsection \<open>Events\<close>

datatype session_event =
  AddTab ustring ustring ustring host_spec
| SwitchTab ustring
| CloseTab ustring
| FocusPane ustring
| SplitPane ustring split_axis ustring host_spec
| SetPaneResizePolicy ustring resize_policy
| PaneOutput ustring "byte list"
| CommitPaneResize ustring u32 u32
| RequestSessionShutdown "ustring option"
| ForwardPaneInput ustring u64 "byte list"

datatype lane = LaneControl | LaneClient | LanePane | LaneTimer | LaneLifecycle

fun lane_priority :: "lane \<Rightarrow> nat" where
  "lane_priority LaneLifecycle = 0"
| "lane_priority LaneControl = 1"
| "lane_priority LaneClient = 2"
| "lane_priority LanePane = 3"
| "lane_priority LaneTimer = 4"

record accepted_metadata =
  am_event_index :: u64
  am_session_mono_ms :: u64
  am_source_id :: ustring
  am_lane :: lane

record accepted_event =
  ae_metadata :: accepted_metadata
  ae_event :: session_event

datatype session_effect =
  WorkspaceChanged u64 u64
| PaneSurfaceChanged u64 ustring u64 u64 patch_kind
| PaneResized u64 ustring u32 u32

record session_transition =
  tn_accepted :: accepted_event
  tn_effects :: "session_effect list"

record pending_event =
  pe_source_id :: ustring
  pe_lane :: lane
  pe_session_mono_ms :: u64
  pe_event :: session_event

record trace_record =
  tr_accepted :: accepted_event
  tr_effects :: "session_effect list"

definition trace_record_from_transition :: "session_transition \<Rightarrow> trace_record" where
  "trace_record_from_transition t = \<lparr>tr_accepted = tn_accepted t, tr_effects = tn_effects t\<rparr>"

subsection \<open>The trace\<close>

record trace_ring =
  rg_cap :: usize
  rg_records :: "trace_record list"

definition trace_ring_new :: "usize \<Rightarrow> trace_ring" where
  "trace_ring_new cap = \<lparr>rg_cap = cap, rg_records = []\<rparr>"

fun pop_front_while_full :: "usize \<Rightarrow> 'a list \<Rightarrow> 'a list" where
  \<comment> \<open>the \<open>while self.records.len() >= self.cap\<close> loop; \<open>pop_front\<close> on an empty queue does nothing,
     and the loop is only entered with a positive capacity\<close>
  "pop_front_while_full cap [] = []"
| "pop_front_while_full cap (r # rs) =
     (if cap \<le> length (r # rs) then pop_front_while_full cap rs else r # rs)"

definition trace_ring_push :: "trace_ring \<Rightarrow> trace_record \<Rightarrow> trace_ring" where
  "trace_ring_push ring r =
     (if rg_cap ring = 0 then ring
      else ring\<lparr>rg_records := pop_front_while_full (rg_cap ring) (rg_records ring) @ [r]\<rparr>)"

definition trace_accepted_events :: "trace_ring \<Rightarrow> accepted_event list" where
  "trace_accepted_events ring = map tr_accepted (rg_records ring)"

lemma pop_front_while_full_eq:
  "0 < cap \<Longrightarrow> pop_front_while_full cap xs = drop (Suc (length xs) - cap) xs"
proof (induction xs)
  case (Cons x xs)
  then show ?case
    by (cases "cap \<le> length (x # xs)") (simp_all add: Suc_diff_le)
qed simp

definition last_n :: "nat \<Rightarrow> 'a list \<Rightarrow> 'a list" where
  "last_n n xs = drop (length xs - n) xs"

text \<open>The trace of a history is its last \<open>cap\<close> records.\<close>

lemma trace_ring_push_last_n:
  assumes "rg_records ring = last_n (rg_cap ring) hist"
  shows "rg_records (trace_ring_push ring r) = last_n (rg_cap ring) (hist @ [r])"
    and "rg_cap (trace_ring_push ring r) = rg_cap ring"
proof -
  show "rg_cap (trace_ring_push ring r) = rg_cap ring" by (simp add: trace_ring_push_def)
  show "rg_records (trace_ring_push ring r) = last_n (rg_cap ring) (hist @ [r])"
  proof (cases "rg_cap ring = 0")
    case True
    with assms show ?thesis by (simp add: trace_ring_push_def last_n_def)
  next
    case False
    let ?c = "rg_cap ring"
    have "pop_front_while_full ?c (rg_records ring) = drop (Suc (length hist) - ?c) hist"
      using False assms
      by (cases "?c \<le> length hist") (simp_all add: pop_front_while_full_eq last_n_def Suc_diff_le)
    with False show ?thesis by (simp add: trace_ring_push_def last_n_def)
  qed
qed

lemma trace_ring_fold:
  "rg_records (foldl trace_ring_push (trace_ring_new cap) rs) = last_n cap rs \<and>
   rg_cap (foldl trace_ring_push (trace_ring_new cap) rs) = cap"
proof (induction rs rule: rev_induct)
  case Nil
  show ?case by (simp add: trace_ring_new_def last_n_def)
next
  case (snoc r rs)
  then show ?case using trace_ring_push_last_n [of "foldl trace_ring_push (trace_ring_new cap) rs" rs r] by simp
qed

subsection \<open>Queues that keep the order of each source\<close>

inductive pop_run :: "('q \<Rightarrow> ('e \<times> 'q) option) \<Rightarrow> 'q \<Rightarrow> 'e list \<Rightarrow> 'q \<Rightarrow> bool" for pop where
  pop_run_done: "pop q = None \<Longrightarrow> pop_run pop q [] q"
| pop_run_step: "pop q = Some (e, q') \<Longrightarrow> pop_run pop q' es q'' \<Longrightarrow> pop_run pop q (e # es) q''"

locale event_queue =
  fixes ok :: "'q \<Rightarrow> bool"
    and push :: "'q \<Rightarrow> 'e \<Rightarrow> 'q"
    and pop :: "'q \<Rightarrow> ('e \<times> 'q) option"
    and source :: "'e \<Rightarrow> 'k"
    and waiting :: "'q \<Rightarrow> 'k \<Rightarrow> 'e list"
  assumes push_ok: "ok q \<Longrightarrow> ok (push q e)"
    and waiting_push: "ok q \<Longrightarrow> waiting (push q e) k = (if k = source e then waiting q k @ [e] else waiting q k)"
    and pop_ok: "ok q \<Longrightarrow> pop q = Some (e, q') \<Longrightarrow> ok q'"
    and pop_None: "ok q \<Longrightarrow> pop q = None \<longleftrightarrow> (\<forall>k. waiting q k = [])"
    and pop_Some: "ok q \<Longrightarrow> pop q = Some (e, q') \<Longrightarrow>
      waiting q (source e) = e # waiting q' (source e) \<and> (\<forall>k. k \<noteq> source e \<longrightarrow> waiting q' k = waiting q k)"
begin

lemma pop_run_ok: "pop_run pop q es q' \<Longrightarrow> ok q \<Longrightarrow> ok q'"
  by (induction rule: pop_run.induct) (auto intro: pop_ok)

lemma pop_run_empties: "pop_run pop q es q' \<Longrightarrow> ok q \<Longrightarrow> waiting q' k = []"
  by (induction rule: pop_run.induct) (auto simp: pop_None intro: pop_ok)

text \<open>Each source's events come out in the order they went in, and all of them do.\<close>

lemma pop_run_fifo: "pop_run pop q es q' \<Longrightarrow> ok q \<Longrightarrow> filter (\<lambda>e. source e = k) es = waiting q k"
proof (induction rule: pop_run.induct)
  case (pop_run_done q)
  then show ?case by (simp add: pop_None)
next
  case (pop_run_step q e q' es q'')
  then show ?case using pop_Some [of q e q'] pop_ok [of q e q'] by auto
qed

lemma push_all_waiting:
  "ok q \<Longrightarrow> ok (foldl push q es) \<and> waiting (foldl push q es) k = waiting q k @ filter (\<lambda>e. source e = k) es"
  by (induction es arbitrary: q) (auto simp: push_ok waiting_push)

end

subsection \<open>The scheduler\<close>

type_synonym scheduler = "(ustring, pending_event list) btree"

definition scheduler_new :: scheduler where
  "scheduler_new = []"

definition scheduler_push :: "scheduler \<Rightarrow> pending_event \<Rightarrow> scheduler" where
  "scheduler_push q pending =
     (let queue = (case bt_get q (pe_source_id pending) of Some es \<Rightarrow> es | None \<Rightarrow> [])
      in bt_put (pe_source_id pending) (queue @ [pending]) q)"

definition scheduler_candidates :: "scheduler \<Rightarrow> (ustring \<times> lane) list" where
  \<comment> \<open>the source ids and lanes of the queue fronts, in key order\<close>
  "scheduler_candidates q =
     concat (map (\<lambda>(source_id, queue). case queue of [] \<Rightarrow> [] | e # _ \<Rightarrow> [(source_id, pe_lane e)]) q)"

definition candidate_key :: "ustring \<times> lane \<Rightarrow> nat \<times> ustring" where
  "candidate_key c = (lane_priority (snd c), fst c)"

definition scheduler_pop_next :: "scheduler \<Rightarrow> (pending_event \<times> scheduler) option" where
  "scheduler_pop_next q =
     (case min_by_key candidate_key (scheduler_candidates q) of
        None \<Rightarrow> None
      | Some (next_source_id, _) \<Rightarrow>
          (case bt_get q next_source_id of
             None \<Rightarrow> None
           | Some [] \<Rightarrow> None
           | Some (pending # queue) \<Rightarrow>
               Some (pending, if queue = [] then bt_del next_source_id q else bt_set next_source_id queue q)))"

definition scheduler_is_empty :: "scheduler \<Rightarrow> bool" where
  "scheduler_is_empty q \<longleftrightarrow> list_all (\<lambda>e. snd e = []) q"

definition scheduler_ok :: "scheduler \<Rightarrow> bool" where
  "scheduler_ok q \<longleftrightarrow> bt_sorted q \<and>
     (\<forall>(k, es) \<in> set q. es \<noteq> [] \<and> (\<forall>e \<in> set es. pe_source_id e = k))"

definition scheduler_waiting :: "scheduler \<Rightarrow> ustring \<Rightarrow> pending_event list" where
  "scheduler_waiting q k = (case bt_get q k of Some es \<Rightarrow> es | None \<Rightarrow> [])"

lemma scheduler_ok_get:
  "scheduler_ok q \<Longrightarrow> bt_get q k = Some es \<Longrightarrow> es \<noteq> [] \<and> (\<forall>e \<in> set es. pe_source_id e = k)"
  by (auto simp: scheduler_ok_def bt_get_in [symmetric])

lemma scheduler_ok_iff:
  "bt_sorted q \<Longrightarrow> scheduler_ok q \<longleftrightarrow>
     (\<forall>k es. bt_get q k = Some es \<longrightarrow> es \<noteq> [] \<and> (\<forall>e \<in> set es. pe_source_id e = k))"
  by (auto simp: scheduler_ok_def bt_get_in [symmetric])

lemma scheduler_ok_sorted: "scheduler_ok q \<Longrightarrow> bt_sorted q"
  by (simp add: scheduler_ok_def)

lemma scheduler_push_ok: "scheduler_ok q \<Longrightarrow> scheduler_ok (scheduler_push q e)"
  by (subst scheduler_ok_iff)
    (auto simp: scheduler_push_def Let_def bt_sorted_put scheduler_ok_sorted bt_get_put
      dest: scheduler_ok_get [OF _ sym] scheduler_ok_get split: option.splits if_splits)

lemma scheduler_push_waiting:
  "scheduler_ok q \<Longrightarrow> scheduler_waiting (scheduler_push q e) k =
     (if k = pe_source_id e then scheduler_waiting q k @ [e] else scheduler_waiting q k)"
  by (auto simp: scheduler_waiting_def scheduler_push_def Let_def bt_get_put scheduler_ok_sorted)

lemma scheduler_candidates_in:
  assumes "scheduler_ok q"
  shows "(k, l) \<in> set (scheduler_candidates q) \<longleftrightarrow> (\<exists>e es. bt_get q k = Some (e # es) \<and> l = pe_lane e)"
proof -
  have "(k, l) \<in> set (scheduler_candidates q) \<longleftrightarrow> (\<exists>e es. (k, e # es) \<in> set q \<and> l = pe_lane e)"
    by (force simp: scheduler_candidates_def split: list.splits)
  then show ?thesis using assms by (simp add: bt_get_in scheduler_ok_sorted)
qed

lemma scheduler_pop_Some:
  assumes ok: "scheduler_ok q" and pop: "scheduler_pop_next q = Some (e, q')"
  shows "\<exists>es. bt_get q (pe_source_id e) = Some (e # es) \<and>
      q' = (if es = [] then bt_del (pe_source_id e) q else bt_put (pe_source_id e) es q) \<and>
      (\<forall>k f fs. bt_get q k = Some (f # fs) \<longrightarrow>
         (lane_priority (pe_lane e), pe_source_id e) \<le> (lane_priority (pe_lane f), k))"
proof -
  obtain k l where min: "min_by_key candidate_key (scheduler_candidates q) = Some (k, l)"
    using pop by (cases "min_by_key candidate_key (scheduler_candidates q)")
      (auto simp: scheduler_pop_next_def)
  with pop obtain es where get: "bt_get q k = Some (e # es)"
    and "q' = (if es = [] then bt_del k q else bt_set k es q)"
    by (cases "bt_get q k"; cases "the (bt_get q k)") (auto simp: scheduler_pop_next_def)
  then have q': "q' = (if es = [] then bt_del k q else bt_put k es q)"
    using ok by (simp add: bt_set_put scheduler_ok_sorted)
  from scheduler_ok_get [OF ok get] have k: "pe_source_id e = k" by simp
  from min_by_key_Some [OF min] scheduler_candidates_in [OF ok, of k l] get
  have l: "l = pe_lane e" by auto
  have "(lane_priority (pe_lane e), pe_source_id e) \<le> (lane_priority (pe_lane f), k')"
    if "bt_get q k' = Some (f # fs)" for k' f fs
  proof -
    have "(k', pe_lane f) \<in> set (scheduler_candidates q)"
      using that by (simp add: scheduler_candidates_in [OF ok])
    with min_by_key_Some [OF min] have "candidate_key (k, l) \<le> candidate_key (k', pe_lane f)" by blast
    then show ?thesis by (simp add: candidate_key_def k l)
  qed
  with get q' k show ?thesis by blast
qed

lemma scheduler_pop_None:
  assumes ok: "scheduler_ok q"
  shows "scheduler_pop_next q = None \<longleftrightarrow> q = []"
proof
  assume none: "scheduler_pop_next q = None"
  show "q = []"
  proof (cases q)
    case (Cons x xs)
    obtain k es where x: "x = (k, es)" by (cases x)
    with Cons ok have "es \<noteq> []" by (auto simp: scheduler_ok_def)
    then have "scheduler_candidates q \<noteq> []" by (auto simp: scheduler_candidates_def Cons x split: list.splits)
    then obtain k l where
      min: "min_by_key candidate_key (scheduler_candidates q) = Some (k, l)"
      using min_by_key_None_iff [of candidate_key "scheduler_candidates q"]
      by (cases "min_by_key candidate_key (scheduler_candidates q)") auto
    from min_by_key_Some [OF min] scheduler_candidates_in [OF ok] obtain e es where
      "bt_get q k = Some (e # es)" by blast
    with min none show ?thesis by (simp add: scheduler_pop_next_def)
  qed
qed (simp add: scheduler_pop_next_def scheduler_candidates_def)

lemma scheduler_pop_ok:
  assumes ok: "scheduler_ok q" and pop: "scheduler_pop_next q = Some (e, q')"
  shows "scheduler_ok q'"
proof -
  from scheduler_pop_Some [OF ok pop] obtain es where get: "bt_get q (pe_source_id e) = Some (e # es)"
    and q': "q' = (if es = [] then bt_del (pe_source_id e) q else bt_put (pe_source_id e) es q)" by blast
  have "bt_sorted q'" using ok by (simp add: q' bt_sorted_del bt_sorted_put scheduler_ok_sorted)
  moreover have "fs \<noteq> [] \<and> (\<forall>f \<in> set fs. pe_source_id f = k)" if "bt_get q' k = Some fs" for k fs
  proof (cases "k = pe_source_id e")
    case True
    with that have "fs = es" "es \<noteq> []"
      by (auto simp: q' bt_get_del bt_get_put scheduler_ok_sorted [OF ok] split: if_splits)
    with scheduler_ok_get [OF ok get] True show ?thesis by simp
  next
    case False
    with that have "bt_get q k = Some fs"
      by (auto simp: q' bt_get_del bt_get_put scheduler_ok_sorted [OF ok] split: if_splits)
    then show ?thesis by (rule scheduler_ok_get [OF ok])
  qed
  ultimately show ?thesis by (simp add: scheduler_ok_iff)
qed

lemma scheduler_waiting_None: "scheduler_ok q \<Longrightarrow> (\<forall>k. scheduler_waiting q k = []) \<longleftrightarrow> q = []"
proof (cases q)
  case (Cons x xs)
  assume ok: "scheduler_ok q"
  obtain k es where x: "x = (k, es)" by (cases x)
  with ok Cons have "bt_get q k = Some es" "es \<noteq> []"
    by (auto simp: bt_get_in [symmetric] scheduler_ok_sorted scheduler_ok_def)
  then have "scheduler_waiting q k \<noteq> []" by (simp add: scheduler_waiting_def)
  with Cons show ?thesis by blast
qed (simp add: scheduler_waiting_def)

lemma scheduler_pop_waiting:
  assumes ok: "scheduler_ok q" and pop: "scheduler_pop_next q = Some (e, q')"
  shows "scheduler_waiting q (pe_source_id e) = e # scheduler_waiting q' (pe_source_id e) \<and>
    (\<forall>k. k \<noteq> pe_source_id e \<longrightarrow> scheduler_waiting q' k = scheduler_waiting q k)"
  using scheduler_pop_Some [OF ok pop] ok
  by (auto simp: scheduler_waiting_def bt_get_del bt_get_put scheduler_ok_sorted)

interpretation sched: event_queue scheduler_ok scheduler_push scheduler_pop_next pe_source_id scheduler_waiting
  by unfold_locales
    (simp_all add: scheduler_push_ok scheduler_push_waiting scheduler_pop_ok scheduler_pop_None
      scheduler_waiting_None scheduler_pop_waiting)

definition scheduler_size :: "scheduler \<Rightarrow> nat" where
  "scheduler_size q = sum_list (map (\<lambda>e. length (snd e)) q)"


lemma scheduler_size_del: "bt_get q k = Some es \<Longrightarrow> scheduler_size (bt_del k q) + length es \<le> scheduler_size q"
proof (induction q)
  case (Cons x q)
  have "scheduler_size (bt_del k q) \<le> scheduler_size q" by (induction q) (auto simp: scheduler_size_def bt_del_def)
  with Cons show ?case by (auto simp: scheduler_size_def bt_del_def bt_get_def split: if_splits)
qed (simp add: bt_get_def)

lemma scheduler_size_set: "bt_get q k = Some es \<Longrightarrow> scheduler_size (bt_set k fs q) + length es = scheduler_size q + length fs"
  by (induction q) (auto simp: scheduler_size_def bt_get_def)

lemma scheduler_pop_size: "scheduler_pop_next q = Some (e, q') \<Longrightarrow> scheduler_size q' < scheduler_size q"
proof -
  assume pop: "scheduler_pop_next q = Some (e, q')"
  then obtain k l where "min_by_key candidate_key (scheduler_candidates q) = Some (k, l)"
    by (cases "min_by_key candidate_key (scheduler_candidates q)") (auto simp: scheduler_pop_next_def)
  with pop obtain es where "bt_get q k = Some (e # es)"
    and "q' = (if es = [] then bt_del k q else bt_set k es q)"
    by (cases "bt_get q k"; cases "the (bt_get q k)") (auto simp: scheduler_pop_next_def)
  then show ?thesis using scheduler_size_del [of q k "e # es"] scheduler_size_set [of q k "e # es" es] by auto
qed

subsection \<open>The core\<close>

record 'e session_core =
  sc_session :: session
  sc_engines :: "'e pane_engines"
  sc_next_event_index :: u64

definition core_new :: "session \<Rightarrow> 'e session_core" where
  "core_new s = \<lparr>sc_session = s, sc_engines = engines_new, sc_next_event_index = 0\<rparr>"

definition pane_surface_effect :: "session \<Rightarrow> u64 \<Rightarrow> ustring \<Rightarrow> session_effect option" where
  "pane_surface_effect s event_index pane_id =
     Option.bind (surface_version s pane_id) (\<lambda>sv.
     Option.bind (scrollback_version s pane_id) (\<lambda>bv.
     Option.bind (surface_patch_kind s pane_id) (\<lambda>kind.
       Some (PaneSurfaceChanged event_index pane_id sv bv kind))))"

definition option_list :: "'a option \<Rightarrow> 'a list" where
  "option_list x = (case x of None \<Rightarrow> [] | Some a \<Rightarrow> [a])"

definition apply_pane_output_event ::
  "'e terminal_engine \<Rightarrow> 'e session_core \<Rightarrow> u64 \<Rightarrow> ustring \<Rightarrow> byte list \<Rightarrow> 'e session_core \<times> session_effect list" where
  "apply_pane_output_event ops core event_index pane_id bytes =
     (case apply_pane_output_with_engine ops (sc_session core) pane_id bytes
             (engine_mut ops (sc_engines core) pane_id) of
        (s, e, changed) \<Rightarrow>
          (core\<lparr>sc_session := s, sc_engines := engine_put (sc_engines core) pane_id e\<rparr>,
           if changed then option_list (pane_surface_effect s event_index pane_id) else []))"

definition apply_pane_resize_event ::
  "'e terminal_engine \<Rightarrow> 'e session_core \<Rightarrow> u64 \<Rightarrow> ustring \<Rightarrow> u32 \<Rightarrow> u32 \<Rightarrow> 'e session_core \<times> session_effect list" where
  "apply_pane_resize_event ops core event_index pane_id cols rows =
     (case commit_pane_resize_with_engine ops (sc_session core) pane_id cols rows
             (engine_mut ops (sc_engines core) pane_id) of
        (s, e, changed) \<Rightarrow>
          (core\<lparr>sc_session := s, sc_engines := engine_put (sc_engines core) pane_id e\<rparr>,
           if changed
           then [PaneResized event_index pane_id cols rows] @
                option_list (pane_surface_effect s event_index pane_id) @
                [WorkspaceChanged event_index (ss_version s)]
           else []))"

definition workspace_step :: "'e session_core \<Rightarrow> u64 \<Rightarrow> session \<times> bool \<Rightarrow> 'e session_core \<times> session_effect list" where
  \<comment> \<open>the tail of \<open>apply_accepted\<close> for the events that only change the workspace\<close>
  "workspace_step core event_index r =
     (core\<lparr>sc_session := fst r\<rparr>,
      if snd r then [WorkspaceChanged event_index (ss_version (fst r))] else [])"

definition apply_accepted ::
  "'e terminal_engine \<Rightarrow> 'e session_core \<Rightarrow> accepted_event \<Rightarrow> 'e session_core \<times> session_effect list" where
  "apply_accepted ops core accepted =
     (let event_index = am_event_index (ae_metadata accepted); s = sc_session core in
      case ae_event accepted of
        AddTab tab_id title pane_id host \<Rightarrow>
          workspace_step core event_index (add_tab s tab_id title pane_id host)
      | SwitchTab tab_id \<Rightarrow> workspace_step core event_index (switch_tab s tab_id)
      | CloseTab tab_id \<Rightarrow> workspace_step core event_index (close_tab s tab_id)
      | FocusPane pane_id \<Rightarrow> workspace_step core event_index (focus_pane s pane_id)
      | SplitPane pane_id axis new_pane_id new_host \<Rightarrow>
          workspace_step core event_index (split_pane s pane_id axis new_pane_id new_host)
      | SetPaneResizePolicy pane_id policy \<Rightarrow>
          workspace_step core event_index (set_pane_resize_policy s pane_id policy)
      | PaneOutput pane_id bytes \<Rightarrow> apply_pane_output_event ops core event_index pane_id bytes
      | CommitPaneResize pane_id cols rows \<Rightarrow>
          apply_pane_resize_event ops core event_index pane_id cols rows
      | RequestSessionShutdown _ \<Rightarrow> workspace_step core event_index (s, False)
      | ForwardPaneInput _ _ _ \<Rightarrow> workspace_step core event_index (s, False))"

definition accept_pending ::
  "'e terminal_engine \<Rightarrow> 'e session_core \<Rightarrow> pending_event \<Rightarrow> 'e session_core \<times> session_transition" where
  "accept_pending ops core pending =
     (let accepted =
            \<lparr>ae_metadata = \<lparr>am_event_index = sc_next_event_index core,
                            am_session_mono_ms = pe_session_mono_ms pending,
                            am_source_id = pe_source_id pending, am_lane = pe_lane pending\<rparr>,
             ae_event = pe_event pending\<rparr>;
          core1 = core\<lparr>sc_next_event_index := sat_add_u64 (sc_next_event_index core) 1\<rparr>
      in case apply_accepted ops core1 accepted of
           (core2, effects) \<Rightarrow> (core2, \<lparr>tn_accepted = accepted, tn_effects = effects\<rparr>))"

definition accept ::
  "'e terminal_engine \<Rightarrow> 'e session_core \<Rightarrow> ustring \<Rightarrow> lane \<Rightarrow> u64 \<Rightarrow> session_event \<Rightarrow>
     'e session_core \<times> session_transition" where
  "accept ops core source_id lane session_mono_ms event =
     accept_pending ops core
       \<lparr>pe_source_id = source_id, pe_lane = lane, pe_session_mono_ms = session_mono_ms, pe_event = event\<rparr>"

definition apply_event ::
  "'e terminal_engine \<Rightarrow> 'e session_core \<Rightarrow> session_event \<Rightarrow> 'e session_core \<times> session_effect list" where
  \<comment> \<open>\<open>SessionCore::apply\<close>\<close>
  "apply_event ops core event =
     (case accept ops core (lit ''legacy'') LaneControl 0 event of (core', t) \<Rightarrow> (core', tn_effects t))"

definition replay_step ::
  "'e terminal_engine \<Rightarrow> 'e session_core \<times> trace_record list \<Rightarrow> accepted_event \<Rightarrow> 'e session_core \<times> trace_record list" where
  "replay_step ops st accepted =
     (case st of (core, records) \<Rightarrow>
        (let core1 = core\<lparr>sc_next_event_index :=
                       max (sc_next_event_index core)
                           (sat_add_u64 (am_event_index (ae_metadata accepted)) 1)\<rparr>
         in case apply_accepted ops core1 accepted of
              (core2, effects) \<Rightarrow> (core2, records @ [\<lparr>tr_accepted = accepted, tr_effects = effects\<rparr>])))"

definition replay_accepted_events ::
  "'e terminal_engine \<Rightarrow> session \<Rightarrow> accepted_event list \<Rightarrow> 'e session_core \<times> trace_record list" where
  "replay_accepted_events ops s events = foldl (replay_step ops) (core_new s, []) events"

definition drain_pane_pty_writes ::
  "'e terminal_engine \<Rightarrow> 'e session_core \<Rightarrow> ustring \<Rightarrow> 'e session_core \<times> byte list list" where
  "drain_pane_pty_writes ops core pane_id =
     (case te_drain_pty_writes ops (engine_mut ops (sc_engines core) pane_id) of
        (e, writes) \<Rightarrow> (core\<lparr>sc_engines := engine_put (sc_engines core) pane_id e\<rparr>, writes))"

subsection \<open>The actor\<close>

record 'e session_actor =
  sa_core :: "'e session_core"
  sa_scheduler :: scheduler
  sa_trace :: trace_ring

definition actor_new :: "'e session_core \<Rightarrow> usize \<Rightarrow> 'e session_actor" where
  "actor_new core trace_cap =
     \<lparr>sa_core = core, sa_scheduler = scheduler_new, sa_trace = trace_ring_new trace_cap\<rparr>"

definition actor_enqueue :: "'e session_actor \<Rightarrow> pending_event \<Rightarrow> 'e session_actor" where
  "actor_enqueue a pending = a\<lparr>sa_scheduler := scheduler_push (sa_scheduler a) pending\<rparr>"

definition drain_next :: "'e terminal_engine \<Rightarrow> 'e session_actor \<Rightarrow> (trace_record \<times> 'e session_actor) option" where
  "drain_next ops a =
     (case scheduler_pop_next (sa_scheduler a) of
        None \<Rightarrow> None
      | Some (pending, q) \<Rightarrow>
          (case accept_pending ops (sa_core a) pending of
             (core, t) \<Rightarrow>
               (let record = trace_record_from_transition t
                in Some (record, a\<lparr>sa_core := core, sa_scheduler := q,
                                  sa_trace := trace_ring_push (sa_trace a) record\<rparr>))))"

lemma drain_next_size: "drain_next ops a = Some (r, a') \<Longrightarrow> scheduler_size (sa_scheduler a') < scheduler_size (sa_scheduler a)"
  by (auto simp: drain_next_def Let_def scheduler_pop_size split: option.splits prod.splits)

function drain_ready :: "'e terminal_engine \<Rightarrow> 'e session_actor \<Rightarrow> trace_record list \<times> 'e session_actor" where
  "drain_ready ops a =
     (case drain_next ops a of
        None \<Rightarrow> ([], a)
      | Some (r, a') \<Rightarrow> (case drain_ready ops a' of (rs, a'') \<Rightarrow> (r # rs, a'')))"
  by pat_completeness auto
termination
  by (relation "measure (\<lambda>(ops, a). scheduler_size (sa_scheduler a))") (auto dest: drain_next_size)

declare drain_ready.simps [simp del]

definition actor_is_idle :: "'e session_actor \<Rightarrow> bool" where
  "actor_is_idle a \<longleftrightarrow> scheduler_is_empty (sa_scheduler a)"

subsection \<open>The registry\<close>

type_synonym 'e session_registry = "(ustring, 'e session_actor) btree"

definition registry_insert :: "'e session_registry \<Rightarrow> 'e session_actor \<Rightarrow> 'e session_registry \<times> bool" where
  "registry_insert reg actor =
     (let session_id = ss_id (sc_session (sa_core actor)) in
      if bt_get reg session_id \<noteq> None then (reg, False)
      else (bt_put session_id actor reg, True))"

definition registry_get :: "'e session_registry \<Rightarrow> ustring \<Rightarrow> 'e session_actor option" where
  "registry_get reg session_id = bt_get reg session_id"

definition registry_remove :: "'e session_registry \<Rightarrow> ustring \<Rightarrow> 'e session_registry \<times> 'e session_actor option" where
  "registry_remove reg session_id = (bt_del session_id reg, bt_get reg session_id)"


subsection \<open>Events preserve the workspace\<close>

lemma workspace_step_fields [simp]:
  "sc_session (fst (workspace_step core i r)) = fst r"
  "sc_next_event_index (fst (workspace_step core i r)) = sc_next_event_index core"
  "sc_engines (fst (workspace_step core i r)) = sc_engines core"
  "snd (workspace_step core i r) = (if snd r then [WorkspaceChanged i (ss_version (fst r))] else [])"
  by (simp_all add: workspace_step_def)

lemma apply_accepted_workspace_ok [inv_intros]:
  assumes "workspace_ok (sc_session core)"
  shows "workspace_ok (sc_session (fst (apply_accepted ops core a)))"
proof -
  have out: "workspace_ok (sc_session (fst (apply_pane_output_event ops core i k bs)))" for i k bs
    using apply_pane_output_ok [OF assms, of ops k bs "engine_mut ops (sc_engines core) k"]
    by (auto simp: apply_pane_output_event_def split: prod.split)
  have res: "workspace_ok (sc_session (fst (apply_pane_resize_event ops core i k c r)))" for i k c r
    using commit_pane_resize_ok [OF assms, of ops k c r "engine_mut ops (sc_engines core) k"]
    by (auto simp: apply_pane_resize_event_def split: prod.split)
  show ?thesis
    using assms out res
    by (cases "ae_event a")
      (simp_all add: apply_accepted_def Let_def add_tab_ok switch_tab_ok close_tab_ok focus_pane_ok
        split_pane_ok set_pane_resize_policy_ok)
qed

lemma apply_accepted_next_index [frame_simps]:
  "sc_next_event_index (fst (apply_accepted ops core a)) = sc_next_event_index core"
  by (cases "ae_event a")
    (simp_all add: apply_accepted_def Let_def apply_pane_output_event_def apply_pane_resize_event_def
      split: prod.split)

lemma accept_pending_workspace_ok [inv_intros]:
  assumes "workspace_ok (sc_session core)"
  shows "workspace_ok (sc_session (fst (accept_pending ops core p)))"
  using apply_accepted_workspace_ok [of "core\<lparr>sc_next_event_index := sat_add_u64 (sc_next_event_index core) 1\<rparr>"]
    assms
  by (simp add: accept_pending_def Let_def case_prod_beta)

subsection \<open>Runs\<close>

fun accept_all ::
  "'e terminal_engine \<Rightarrow> 'e session_core \<Rightarrow> pending_event list \<Rightarrow> 'e session_core \<times> session_transition list" where
  \<comment> \<open>accepting one pending event after the other\<close>
  "accept_all ops core [] = (core, [])"
| "accept_all ops core (p # ps) =
     (case accept_pending ops core p of
        (core1, t) \<Rightarrow> (case accept_all ops core1 ps of (core2, ts) \<Rightarrow> (core2, t # ts)))"

definition core_ok :: "'e session_core \<Rightarrow> bool" where
  "core_ok core \<longleftrightarrow> workspace_ok (sc_session core) \<and> sc_next_event_index core \<le> U64_MAX"

lemma accept_pending_fields:
  "sc_next_event_index (fst (accept_pending ops core p)) = sat_add_u64 (sc_next_event_index core) 1"
  "am_event_index (ae_metadata (tn_accepted (snd (accept_pending ops core p)))) = sc_next_event_index core"
  "am_source_id (ae_metadata (tn_accepted (snd (accept_pending ops core p)))) = pe_source_id p"
  "am_lane (ae_metadata (tn_accepted (snd (accept_pending ops core p)))) = pe_lane p"
  "ae_event (tn_accepted (snd (accept_pending ops core p))) = pe_event p"
  using apply_accepted_next_index [of ops "core\<lparr>sc_next_event_index := sat_add_u64 (sc_next_event_index core) 1\<rparr>"]
  by (simp_all add: accept_pending_def Let_def case_prod_beta)

lemma accept_pending_core_ok [inv_intros]: "core_ok core \<Longrightarrow> core_ok (fst (accept_pending ops core p))"
  by (simp add: core_ok_def accept_pending_fields accept_pending_workspace_ok)

lemma accept_all_core_ok [inv_intros]: "core_ok core \<Longrightarrow> core_ok (fst (accept_all ops core ps))"
proof (induction ps arbitrary: core)
  case (Cons p ps)
  from Cons.IH [OF accept_pending_core_ok [OF Cons.prems, of ops p]] show ?case
    by (simp add: case_prod_beta)
qed simp

lemma accept_all_events:
  "accept_all ops core ps = (core', ts) \<Longrightarrow>
     map (\<lambda>t. ae_event (tn_accepted t)) ts = map pe_event ps \<and>
     map (\<lambda>t. am_source_id (ae_metadata (tn_accepted t))) ts = map pe_source_id ps"
proof (induction ps arbitrary: core core' ts)
  case (Cons p ps)
  obtain core1 t where one: "accept_pending ops core p = (core1, t)" by fastforce
  obtain core2 us where rest: "accept_all ops core1 ps = (core2, us)" by fastforce
  from Cons.prems one rest Cons.IH [OF rest] accept_pending_fields [of ops core p] show ?case by auto
qed simp

lemma accept_all_indices:
  "accept_all ops core ps = (core', ts) \<Longrightarrow> sc_next_event_index core + length ps \<le> U64_MAX \<Longrightarrow>
     map (\<lambda>t. am_event_index (ae_metadata (tn_accepted t))) ts =
       [sc_next_event_index core ..< sc_next_event_index core + length ps] \<and>
     sc_next_event_index core' = sc_next_event_index core + length ps"
proof (induction ps arbitrary: core core' ts)
  case (Cons p ps)
  obtain core1 t where one: "accept_pending ops core p = (core1, t)" by fastforce
  obtain core2 us where rest: "accept_all ops core1 ps = (core2, us)" by fastforce
  have n: "sc_next_event_index core1 = Suc (sc_next_event_index core)"
    using accept_pending_fields(1) [of ops core p] Cons.prems(2) one by (simp add: sat_add_u64_def)
  have "am_event_index (ae_metadata (tn_accepted t)) = sc_next_event_index core"
    using accept_pending_fields(2) [of ops core p] one by simp
  with Cons.prems one rest Cons.IH [OF rest] n
  show ?case
    by (auto simp: upt_conv_Cons [of "sc_next_event_index core" "Suc (sc_next_event_index core + length ps)"]
        simp del: upt_Suc)
qed simp

subsection \<open>Replay\<close>

lemma replay_step_accept:
  assumes "accept_pending ops core p = (core', t)" and "sc_next_event_index core \<le> U64_MAX"
  shows "replay_step ops (core, rs) (tn_accepted t) = (core', rs @ [trace_record_from_transition t])"
proof -
  have idx: "am_event_index (ae_metadata (tn_accepted t)) = sc_next_event_index core"
    using accept_pending_fields(2) [of ops core p] assms(1) by simp
  have "max (sc_next_event_index core) (sat_add_u64 (sc_next_event_index core) 1) =
      sat_add_u64 (sc_next_event_index core) 1"
    using sat_add_u64_mono [OF assms(2)] by (simp add: max_def)
  then show ?thesis
    using assms(1) idx
    by (auto simp: replay_step_def Let_def accept_pending_def trace_record_from_transition_def
        split: prod.splits)
qed

lemma replay_accept_all:
  "accept_all ops core ps = (core', ts) \<Longrightarrow> sc_next_event_index core \<le> U64_MAX \<Longrightarrow>
     foldl (replay_step ops) (core, rs) (map tn_accepted ts) = (core', rs @ map trace_record_from_transition ts)"
proof (induction ps arbitrary: core core' ts rs)
  case (Cons p ps)
  obtain core1 t where one: "accept_pending ops core p = (core1, t)" by fastforce
  obtain core2 us where rest: "accept_all ops core1 ps = (core2, us)" by fastforce
  have n: "sc_next_event_index core1 \<le> U64_MAX"
    using accept_pending_fields(1) [of ops core p] one by simp
  from Cons.prems(1) one rest have eq: "core' = core2" "ts = t # us" by auto
  show ?case
    using Cons.IH [OF rest n] replay_step_accept [OF one Cons.prems(2)] by (simp add: eq)
qed simp

lemma replay_rebuilds:
  assumes "accept_all ops (core_new s) ps = (core, ts)"
  shows "replay_accepted_events ops s (map tn_accepted ts) = (core, map trace_record_from_transition ts)"
  using replay_accept_all [OF assms, of "[]"] by (simp add: core_new_def replay_accepted_events_def)

subsection \<open>Draining\<close>

lemma drain_ready_run:
  assumes "drain_ready ops a = (rs, a')"
  shows "\<exists>ps ts. pop_run scheduler_pop_next (sa_scheduler a) ps (sa_scheduler a') \<and>
     accept_all ops (sa_core a) ps = (sa_core a', ts) \<and>
     rs = map trace_record_from_transition ts \<and>
     sa_trace a' = foldl trace_ring_push (sa_trace a) rs"
  using assms
proof (induction ops a arbitrary: rs a' rule: drain_ready.induct)
  case (1 ops a)
  show ?case
  proof (cases "scheduler_pop_next (sa_scheduler a)")
    case None
    with "1.prems" have "rs = []" "a' = a" by (auto simp: drain_ready.simps [of ops a] drain_next_def)
    with None show ?thesis by (auto intro!: exI [of _ "[]"] pop_run_done)
  next
    case (Some pq)
    obtain p q where pq: "pq = (p, q)" by fastforce
    obtain core t where acc: "accept_pending ops (sa_core a) p = (core, t)" by fastforce
    let ?r = "trace_record_from_transition t"
    let ?a = "a\<lparr>sa_core := core, sa_scheduler := q, sa_trace := trace_ring_push (sa_trace a) ?r\<rparr>"
    have nxt: "drain_next ops a = Some (?r, ?a)"
      using Some pq acc by (simp add: drain_next_def Let_def)
    obtain us b where rest: "drain_ready ops ?a = (us, b)" by fastforce
    from "1.prems" nxt rest have eq: "rs = ?r # us" "a' = b"
      by (auto simp: drain_ready.simps [of ops a])
    from "1.IH" [OF nxt refl rest] obtain ps ts where
      "pop_run scheduler_pop_next q ps (sa_scheduler b)"
      "accept_all ops core ps = (sa_core b, ts)" "us = map trace_record_from_transition ts"
      "sa_trace b = foldl trace_ring_push (trace_ring_push (sa_trace a) ?r) us" by auto
    with Some pq acc eq show ?thesis
      by (intro exI [of _ "p # ps"] exI [of _ "t # ts"]) (auto intro: pop_run_step)
  qed
qed

lemma scheduler_new_ok [simp]: "scheduler_ok scheduler_new"
  by (simp add: scheduler_ok_def scheduler_new_def)

lemma scheduler_waiting_new [simp]: "scheduler_waiting scheduler_new k = []"
  by (simp add: scheduler_waiting_def scheduler_new_def)

lemma scheduler_is_empty_iff: "scheduler_ok q \<Longrightarrow> scheduler_is_empty q \<longleftrightarrow> q = []"
  by (cases q) (auto simp: scheduler_is_empty_def scheduler_ok_def)

definition record_source :: "trace_record \<Rightarrow> ustring" where
  "record_source r = am_source_id (ae_metadata (tr_accepted r))"

definition record_event :: "trace_record \<Rightarrow> session_event" where
  "record_event r = ae_event (tr_accepted r)"

lemma filter_map_source:
  assumes "map f xs = map g ys" and "map h xs = map l ys"
  shows "map h (filter (\<lambda>x. f x = k) xs) = map l (filter (\<lambda>y. g y = k) ys)"
proof -
  from assms(1) have "length xs = length ys" using map_eq_imp_length_eq by blast
  then show ?thesis using assms by (induction xs ys rule: list_induct2) auto
qed

text \<open>Draining empties the scheduler and applies every source's events in their order.\<close>

lemma drain_ready_fifo:
  assumes "scheduler_ok (sa_scheduler a)" and "drain_ready ops a = (rs, a')"
  shows "sa_scheduler a' = []"
    and "map record_event (filter (\<lambda>r. record_source r = k) rs) =
         map pe_event (scheduler_waiting (sa_scheduler a) k)"
proof -
  from drain_ready_run [OF assms(2)] obtain ps ts where
    run: "pop_run scheduler_pop_next (sa_scheduler a) ps (sa_scheduler a')" and
    acc: "accept_all ops (sa_core a) ps = (sa_core a', ts)" and
    rs: "rs = map trace_record_from_transition ts" by blast
  show "sa_scheduler a' = []"
    using sched.pop_run_empties [OF run assms(1)] scheduler_waiting_None [OF sched.pop_run_ok [OF run assms(1)]]
    by blast
  have "map record_source rs = map pe_source_id ps" "map record_event rs = map pe_event ps"
    using accept_all_events [OF acc]
    by (simp_all add: rs record_source_def record_event_def trace_record_from_transition_def comp_def)
  from filter_map_source [OF this, of k]
  show "map record_event (filter (\<lambda>r. record_source r = k) rs) =
      map pe_event (scheduler_waiting (sa_scheduler a) k)"
    using sched.pop_run_fifo [OF run assms(1)] by simp
qed

subsection \<open>A silent event changes nothing a client can see\<close>

definition seen_pane :: "pane_data \<Rightarrow> pane_data" where
  \<comment> \<open>a pane up to the cached palette difference\<close>
  "seen_pane p = p\<lparr>pn_last_palette_diff := None\<rparr>"

definition same_view :: "session \<Rightarrow> session \<Rightarrow> bool" where
  "same_view s s' \<longleftrightarrow>
     ss_id s' = ss_id s \<and> ss_version s' = ss_version s \<and> ss_active_tab_id s' = ss_active_tab_id s \<and>
     leaf_pane_ids s' = leaf_pane_ids s \<and>
     (\<forall>k. map_option seen_pane (session_pane_data s' k) = map_option seen_pane (session_pane_data s k))"

lemma same_view_refl [simp]: "same_view s s"
  by (simp add: same_view_def)

lemma refused_unchanged:
  "\<not> snd (add_tab s a b c d) \<Longrightarrow> fst (add_tab s a b c d) = s"
  "\<not> snd (switch_tab s k) \<Longrightarrow> fst (switch_tab s k) = s"
  "\<not> snd (close_tab s k) \<Longrightarrow> fst (close_tab s k) = s"
  "\<not> snd (focus_pane s k) \<Longrightarrow> fst (focus_pane s k) = s"
  "\<not> snd (split_pane s k ax n h) \<Longrightarrow> fst (split_pane s k ax n h) = s"
  "\<not> snd (set_pane_resize_policy s k pol) \<Longrightarrow> fst (set_pane_resize_policy s k pol) = s"
  by (auto simp: add_tab_def switch_tab_def close_tab_def focus_pane_def split_pane_def
      set_pane_resize_policy_def Let_def split: if_splits option.splits)

lemma accepted_bumps:
  "snd (add_tab s a b c d) \<Longrightarrow> ss_version (fst (add_tab s a b c d)) = sat_add_u64 (ss_version s) 1"
  "snd (switch_tab s k) \<Longrightarrow> ss_version (fst (switch_tab s k)) = sat_add_u64 (ss_version s) 1"
  "snd (close_tab s k) \<Longrightarrow> ss_version (fst (close_tab s k)) = sat_add_u64 (ss_version s) 1"
  "snd (focus_pane s k) \<Longrightarrow> ss_version (fst (focus_pane s k)) = sat_add_u64 (ss_version s) 1"
  "snd (split_pane s k ax n h) \<Longrightarrow> ss_version (fst (split_pane s k ax n h)) = sat_add_u64 (ss_version s) 1"
  "snd (set_pane_resize_policy s k pol) \<Longrightarrow>
     ss_version (fst (set_pane_resize_policy s k pol)) = sat_add_u64 (ss_version s) 1"
  by (auto simp: add_tab_def switch_tab_def close_tab_def focus_pane_def split_pane_def
      set_pane_resize_policy_def Let_def pane_mut_or_frame harmless_policy split: if_splits option.splits)

lemma silent_output:
  assumes ok: "\<forall>p \<in> set (session_panes s). pane_ok p"
    and "apply_pane_output_with_engine ops s k bs e = (s', e', False)"
  shows "same_view s s'"
proof (cases "s' = s")
  case False
  with assms(2) obtain p u where p: "session_pane_data s k = Some p"
    and s': "s' = pane_mut_or (\<lambda>p. fst (apply_terminal_update p u False)) s k"
    and no: "\<not> snd (apply_terminal_update p u False)"
    by (auto simp: apply_pane_output_with_engine_def split: option.splits prod.splits)
  have "pane_ok p" using ok ws.look_in_contents [OF p] by blast
  from unreported_update_changes_nothing [OF this no]
  have "seen_pane (fst (apply_terminal_update p u False)) = seen_pane p"
    by (simp add: seen_pane_def)
  then show ?thesis
    using pane_mut_or_look [OF harmless_update p] p
    by (simp add: same_view_def s' pane_mut_or_frame harmless_update)
qed simp

lemma refused_resize:
  "commit_pane_resize_with_engine ops s k c r e = (s', e', False) \<Longrightarrow> s' = s"
  by (auto simp: commit_pane_resize_with_engine_def split: option.splits if_splits prod.splits)

lemma pane_surface_effect_some:
  "session_pane_data s k \<noteq> None \<Longrightarrow> option_list (pane_surface_effect s i k) \<noteq> []"
  by (auto simp: pane_surface_effect_def surface_version_def scrollback_version_def surface_patch_kind_def
      option_list_def)

lemma output_changed_pane:
  assumes "apply_pane_output_with_engine ops s k bs e = (s', e', True)"
  shows "session_pane_data s' k \<noteq> None"
proof -
  from assms obtain p u where "session_pane_data s k = Some p"
    "s' = pane_mut_or (\<lambda>p. fst (apply_terminal_update p u False)) s k"
    by (auto simp: apply_pane_output_with_engine_def split: option.splits prod.splits)
  then show ?thesis using pane_mut_or_look [OF harmless_update] by simp
qed

lemma silent_event_same_view:
  assumes ok: "\<forall>p \<in> set (session_panes (sc_session core)). pane_ok p"
    and silent: "snd (apply_accepted ops core a) = []"
  shows "same_view (sc_session core) (sc_session (fst (apply_accepted ops core a)))"
proof (cases "ae_event a")
  case (PaneOutput k bs)
  let ?e = "engine_mut ops (sc_engines core) k"
  obtain s' e' ch where r: "apply_pane_output_with_engine ops (sc_session core) k bs ?e = (s', e', ch)"
    by (metis prod_cases3)
  have "\<not> ch"
    using silent output_changed_pane [of ops "sc_session core" k bs ?e s' e'] r
      pane_surface_effect_some [of s' k "am_event_index (ae_metadata a)"]
    by (cases ch) (simp_all add: PaneOutput apply_accepted_def apply_pane_output_event_def)
  with silent_output [OF ok, of ops k bs ?e s' e'] r show ?thesis
    by (simp add: PaneOutput apply_accepted_def apply_pane_output_event_def)
next
  case (CommitPaneResize k c r)
  let ?e = "engine_mut ops (sc_engines core) k"
  obtain s' e' ch where res: "commit_pane_resize_with_engine ops (sc_session core) k c r ?e = (s', e', ch)"
    by (metis prod_cases3)
  with silent have "\<not> ch"
    by (cases ch) (auto simp: CommitPaneResize apply_accepted_def apply_pane_resize_event_def Let_def)
  with res refused_resize [of ops "sc_session core" k c r ?e s' e'] show ?thesis
    by (simp add: CommitPaneResize apply_accepted_def apply_pane_resize_event_def)
qed (use silent in \<open>simp_all add: apply_accepted_def Let_def refused_unchanged split: if_splits\<close>)

end
