(* ===== verification/Surface_Delivery.thy ===== *)
theory Surface_Delivery
  imports Surface_Sync Session_Core
begin

text \<open>
  Which frame a client is sent for a pane it knows at some version
  (\<open>surface_response_for_known_version\<close>, \<open>surface_frame_bundle_for_pane\<close>,
  \<open>write_changed_surface_frames\<close> of \<open>crates/nmux-cli/src/local.rs\<close>), and what that does to the
  client's copy over any number of terminal updates and resizes in between.

  The locale \<open>engine_contract\<close> states what a terminal engine must promise for the copies to
  stay in step; it is interpreted on the interim engine.
\<close>

subsection \<open>The decision\<close>

datatype surface_response = ResponseSnapshot | ResponsePatch u64

definition surface_response_for_known_version :: "u64 \<Rightarrow> u64 \<Rightarrow> patch_kind \<Rightarrow> surface_response option" where
  "surface_response_for_known_version current known patch_kind =
     (if known = current then None
      else if patch_kind = PatchFullRefreshRequired then Some ResponseSnapshot
      else if checked_add_u64 known 1 = Some current then Some (ResponsePatch known)
      else Some ResponseSnapshot)"

definition attach_surface_state :: "surface_response option \<Rightarrow> attach_surface_state" where
  "attach_surface_state response =
     (case response of
        Some ResponseSnapshot \<Rightarrow> AttachSnapshot
      | Some (ResponsePatch _) \<Rightarrow> AttachPatch
      | None \<Rightarrow> AttachCurrent)"

definition surface_response ::
  "(ustring \<times> u64) list \<Rightarrow> session \<Rightarrow> ustring \<Rightarrow> surface_response option" where
  \<comment> \<open>\<open>AttachRequest::surface_response\<close>, on the \<open>known_surfaces\<close> of the request\<close>
  "surface_response known_surfaces s pane_id =
     Option.bind (surface_version s pane_id) (\<lambda>current.
       case find (\<lambda>known. fst known = pane_id) known_surfaces of
         None \<Rightarrow> Some ResponseSnapshot
       | Some known \<Rightarrow>
           surface_response_for_known_version current (snd known)
             (case surface_patch_kind s pane_id of Some k \<Rightarrow> k | None \<Rightarrow> PatchReplaceRows))"

definition local_client :: ustring where "local_client = lit ''local-client''"

definition surface_response_frame :: "session \<Rightarrow> ustring \<Rightarrow> surface_response \<Rightarrow> u64 \<Rightarrow> envelope option" where
  "surface_response_frame s pane_id response seq =
     (case response of
        ResponseSnapshot \<Rightarrow> pane_surface_frame_for_pane s local_client seq pane_id
      | ResponsePatch base_version \<Rightarrow>
          pane_surface_patch_frame_for_pane s local_client seq pane_id base_version)"

record 'f surface_frame_bundle =
  fb_version :: u64
  fb_snapshot :: 'f
  fb_patch :: "(u64 \<times> 'f) option"

definition surface_frame_bundle_for_pane :: "session \<Rightarrow> ustring \<Rightarrow> u64 \<Rightarrow> envelope surface_frame_bundle option" where
  "surface_frame_bundle_for_pane s pane_id seq =
     Option.bind (surface_version s pane_id) (\<lambda>version.
     Option.bind (pane_surface_frame_for_pane s local_client seq pane_id) (\<lambda>snapshot.
       let patch =
             (if (case surface_patch_kind s pane_id of Some k \<Rightarrow> k | None \<Rightarrow> PatchReplaceRows)
                 = PatchFullRefreshRequired
              then None
              else Option.bind (checked_sub version 1) (\<lambda>base_version.
                     map_option (Pair base_version)
                       (pane_surface_patch_frame_for_pane s local_client seq pane_id base_version)))
       in Some \<lparr>fb_version = version, fb_snapshot = snapshot, fb_patch = patch\<rparr>))"

fun write_changed_surface_frames ::
  "session \<Rightarrow> u64 \<Rightarrow> ustring list \<Rightarrow> (ustring, u64) btree \<Rightarrow> envelope list \<times> u64 \<times> (ustring, u64) btree" where
  \<comment> \<open>the frames written, the next sequence number, the known versions\<close>
  "write_changed_surface_frames s seq [] known = ([], seq, known)"
| "write_changed_surface_frames s seq (pane_id # pane_ids) known =
     (case surface_version s pane_id of
        None \<Rightarrow> write_changed_surface_frames s seq pane_ids known
      | Some current \<Rightarrow>
          (let response =
                 (case bt_get known pane_id of
                    Some k \<Rightarrow> surface_response_for_known_version current k
                      (case surface_patch_kind s pane_id of Some p \<Rightarrow> p | None \<Rightarrow> PatchReplaceRows)
                  | None \<Rightarrow> Some ResponseSnapshot);
               frame = Option.bind response (\<lambda>r. surface_response_frame s pane_id r seq);
               seq' = (case frame of Some _ \<Rightarrow> seq + 1 | None \<Rightarrow> seq)
           in case write_changed_surface_frames s seq' pane_ids (bt_put pane_id current known) of
                (frames, seq'', known') \<Rightarrow> (option_list frame @ frames, seq'', known')))"

subsection \<open>Sequences of updates\<close>

type_synonym pane_step = "(u32 \<times> u32) option \<times> terminal_update"

definition pane_step :: "pane_data \<Rightarrow> pane_step \<Rightarrow> pane_data" where
  \<comment> \<open>an output (\<open>None\<close>) or a resize to the given size, with the engine's answer\<close>
  "pane_step p s =
     (case fst s of
        None \<Rightarrow> fst (apply_terminal_update p (snd s) False)
      | Some (cols, rows) \<Rightarrow> resize_pane_data cols rows (snd s) p)"

fun pane_run :: "pane_data \<Rightarrow> pane_step list \<Rightarrow> pane_data" where
  "pane_run p [] = p"
| "pane_run p (s # ss) = pane_run (pane_step p s) ss"

fun steps_ok :: "pane_data \<Rightarrow> pane_step list \<Rightarrow> bool" where
  "steps_ok p [] = True"
| "steps_ok p (s # ss) =
     (pane_sendable (pane_step p s) \<and> (fst s = None \<longrightarrow> update_grows p (snd s)) \<and> steps_ok (pane_step p s) ss)"

lemma pane_run_append: "pane_run p (as @ bs) = pane_run (pane_run p as) bs"
  by (induction as arbitrary: p) auto

lemma steps_ok_append: "steps_ok p (as @ bs) \<longleftrightarrow> steps_ok p as \<and> steps_ok (pane_run p as) bs"
  by (induction as arbitrary: p) auto

lemma pane_ok_resize: "pane_aligned p \<Longrightarrow> pane_ok (resize_pane_data c r u p)"
  by (simp add: resize_pane_data_def pane_ok_def apply_terminal_update_aligned apply_terminal_update_bounded)

lemma pane_step_ok: "pane_ok p \<Longrightarrow> pane_ok (pane_step p s)"
  by (auto simp: pane_step_def apply_terminal_update_pane_ok pane_ok_resize pane_ok_def [of p]
      split: option.split)

lemma pane_run_ok: "pane_ok p \<Longrightarrow> pane_ok (pane_run p ss)"
  by (induction ss arbitrary: p) (auto simp: pane_step_ok)

lemma pane_step_id [simp]: "pn_id (pane_step p s) = pn_id p"
  by (auto simp: pane_step_def resize_pane_data_def apply_terminal_update_frame split: option.split)

lemma pane_run_id [simp]: "pn_id (pane_run p ss) = pn_id p"
  by (induction ss arbitrary: p) auto

lemma pane_step_version:
  "pn_surface_version p < U64_MAX \<Longrightarrow>
     pn_surface_version (pane_step p s) = pn_surface_version p \<or>
     pn_surface_version (pane_step p s) = Suc (pn_surface_version p)"
  by (auto simp: pane_step_def resize_pane_data_def apply_terminal_update_version sat_add_u64_def
      split: option.split)

lemma pane_run_version_le:
  "pn_surface_version p + length ss \<le> U64_MAX \<Longrightarrow>
     pn_surface_version p \<le> pn_surface_version (pane_run p ss) \<and>
     pn_surface_version (pane_run p ss) \<le> pn_surface_version p + length ss"
proof (induction ss arbitrary: p)
  case (Cons s ss)
  then have "pn_surface_version p < U64_MAX" by simp
  from pane_step_version [OF this, of s] Cons.prems Cons.IH [of "pane_step p s"] show ?case by auto
qed simp

lemma quiet_step:
  assumes "pane_ok p" and "pn_surface_version p < U64_MAX"
    and "pn_surface_version (pane_step p s) = pn_surface_version p"
  shows "fst s = None" and "same_surface (pane_step p s) p"
    and "pn_cols (pane_step p s) = pn_cols p" and "pn_rows (pane_step p s) = pn_rows p"
    and "pn_last_patch_kind (pane_step p s) = pn_last_patch_kind p"
    and "pn_last_row_update_indices (pane_step p s) = pn_last_row_update_indices p"
proof -
  have v: "sat_add_u64 (pn_surface_version p) 1 \<noteq> pn_surface_version p"
    using assms(2) by (simp add: sat_add_u64_def)
  show none: "fst s = None"
    using assms(3) v
    by (auto simp: pane_step_def resize_pane_data_def apply_terminal_update_version surface_changed_def
        patch_changes_def split: option.splits)
  have no: "\<not> surface_changed (patch_changes p (snd s) False)"
    using assms(3) v none by (auto simp: pane_step_def apply_terminal_update_version split: if_splits)
  show "same_surface (pane_step p s) p"
    using surface_unchanged_same [OF pane_ok_rows [OF assms(1)] no] none by (simp add: pane_step_def)
  show "pn_cols (pane_step p s) = pn_cols p" "pn_rows (pane_step p s) = pn_rows p"
    "pn_last_patch_kind (pane_step p s) = pn_last_patch_kind p"
    "pn_last_row_update_indices (pane_step p s) = pn_last_row_update_indices p"
    using none no by (simp_all add: pane_step_def apply_terminal_update_frame apply_terminal_update_patch)
qed

lemma same_surface_trans: "same_surface p q \<Longrightarrow> same_surface q r \<Longrightarrow> same_surface p r"
  by (simp add: same_surface_def)

lemma quiet_run:
  assumes "pane_ok p" and "pn_surface_version p + length ss \<le> U64_MAX"
    and "pn_surface_version (pane_run p ss) = pn_surface_version p"
  shows "same_surface (pane_run p ss) p \<and> pn_cols (pane_run p ss) = pn_cols p \<and>
    pn_rows (pane_run p ss) = pn_rows p \<and>
    pn_last_patch_kind (pane_run p ss) = pn_last_patch_kind p \<and>
    pn_last_row_update_indices (pane_run p ss) = pn_last_row_update_indices p"
  using assms
proof (induction ss arbitrary: p)
  case (Cons s ss)
  let ?q = "pane_step p s"
  have lt: "pn_surface_version p < U64_MAX" using Cons.prems by simp
  from pane_step_version [OF lt, of s] Cons.prems(2) have le: "pn_surface_version ?q + length ss \<le> U64_MAX"
    by auto
  have "pn_surface_version ?q = pn_surface_version p"
    using pane_step_version [OF lt, of s] pane_run_version_le [OF le] Cons.prems(3) by auto
  note q = quiet_step [OF Cons.prems(1) lt this]
  from Cons.IH [OF pane_step_ok [OF Cons.prems(1)] le] Cons.prems(3) \<open>pn_surface_version ?q = _\<close> q
  show ?case by (auto intro: same_surface_trans)
qed simp

lemma one_step_run:
  assumes "pn_surface_version p + length ss \<le> U64_MAX"
    and "pn_surface_version (pane_run p ss) = Suc (pn_surface_version p)"
  shows "\<exists>as s bs. ss = as @ s # bs \<and> pn_surface_version (pane_run p as) = pn_surface_version p \<and>
    pn_surface_version (pane_step (pane_run p as) s) = Suc (pn_surface_version p)"
  using assms
proof (induction ss arbitrary: p)
  case (Cons s ss)
  let ?q = "pane_step p s"
  have lt: "pn_surface_version p < U64_MAX" using Cons.prems by simp
  from pane_step_version [OF lt, of s] show ?case
  proof
    assume eq: "pn_surface_version ?q = pn_surface_version p"
    with Cons.IH [of ?q] Cons.prems obtain as t bs where
      "ss = as @ t # bs" "pn_surface_version (pane_run ?q as) = pn_surface_version p"
      "pn_surface_version (pane_step (pane_run ?q as) t) = Suc (pn_surface_version p)" by auto
    with eq show ?thesis by (intro exI [of _ "s # as"] exI [of _ t] exI [of _ bs]) auto
  next
    assume "pn_surface_version ?q = Suc (pn_surface_version p)"
    then show ?thesis by (intro exI [of _ "[]"] exI [of _ s] exI [of _ ss]) auto
  qed
qed simp

lemma resize_is_full_refresh:
  "fst s \<noteq> None \<Longrightarrow> pn_last_patch_kind (pane_step p s) = PatchFullRefreshRequired"
  by (auto simp: pane_step_def resize_pane_data_def force_is_full_refresh split: option.split)

subsection \<open>The response keeps the copy in step\<close>

definition diff_still_there :: "pane_data \<Rightarrow> pane_step list \<Rightarrow> bool" where
  \<comment> \<open>no silent update has come after a change of colours only\<close>
  "diff_still_there p ss \<longleftrightarrow>
     (pn_last_patch_kind (pane_run p ss) = PatchColorOnly \<longrightarrow> ss = [] \<or>
      pn_surface_version (pane_run p ss) \<noteq> pn_surface_version (pane_run p (butlast ss)))"

definition client_after :: "client_pane \<Rightarrow> pane_data \<Rightarrow> surface_response option \<Rightarrow> client_pane cres" where
  \<comment> \<open>the client's copy after it decoded and applied the frame of the response\<close>
  "client_after c p response =
     (case response of
        None \<Rightarrow> Inr c
      | Some ResponseSnapshot \<Rightarrow> bind_res (snapshot_update (pane_snapshot p)) (client_apply_update c)
      | Some (ResponsePatch base) \<Rightarrow> bind_res (patch_update (pane_patch p base)) (client_apply_update c))"

lemma quiet_run_copy:
  assumes "pane_ok p" and "pn_surface_version p + length ss \<le> U64_MAX"
    and "pn_surface_version (pane_run p ss) = pn_surface_version p"
  shows "client_of (pane_run p ss) = client_of p"
  using quiet_run [OF assms] assms(3) by (intro same_surface_copy) auto

lemma same_surface_patch:
  assumes "same_surface p q" and "pn_id p = pn_id q" and "pn_surface_version p = pn_surface_version q"
    and "pn_last_patch_kind p = pn_last_patch_kind q"
    and "pn_last_row_update_indices p = pn_last_row_update_indices q"
    and "pn_cols p = pn_cols q" and "pn_rows p = pn_rows q"
    and "pn_last_patch_kind q = PatchColorOnly \<Longrightarrow> pn_last_palette_diff p = pn_last_palette_diff q"
  shows "pane_patch p base = pane_patch q base"
proof -
  have "surface_of_pane p = surface_of_pane q"
    using assms(1-3,6,7) by (simp add: surface_of_pane_def same_surface_def)
  then have "pane_wire_row p = pane_wire_row q" by (simp add: pane_wire_row_def)
  then show ?thesis using assms by (simp add: pane_patch_def Let_def same_surface_def)
qed

lemma response_keeps_copy:
  assumes ok: "pane_ok p" and v: "pn_surface_version p + length ss \<le> U64_MAX"
    and steps: "steps_ok p ss" and send: "pane_sendable p" and diff: "diff_still_there p ss"
    and p': "p' = pane_run p ss"
  shows "client_after (client_of p) p'
      (surface_response_for_known_version (pn_surface_version p') (pn_surface_version p) (pn_last_patch_kind p')) =
    Inr (client_of p')"
proof -
  let ?r = "surface_response_for_known_version (pn_surface_version p') (pn_surface_version p) (pn_last_patch_kind p')"
  have ok': "pane_ok p'" using ok by (simp add: p' pane_run_ok)
  have send': "pane_sendable p'"
    using steps send unfolding p' by (induction ss arbitrary: p) auto
  have snap: "client_after c p' (Some ResponseSnapshot) = Inr (client_of p')" for c
    using snapshot_syncs [OF send' pane_ok_rows [OF ok']]
    by (simp add: client_after_def client_apply_update_def snapshot_summary_def)
  show ?thesis
  proof (cases ?r)
    case None
    then have "pn_surface_version p' = pn_surface_version p"
      by (auto simp: surface_response_for_known_version_def split: if_splits)
    then have "client_of p' = client_of p" using quiet_run_copy [OF ok v] by (simp add: p')
    with None show ?thesis by (simp add: client_after_def)
  next
    case (Some resp)
    show ?thesis
    proof (cases resp)
      case ResponseSnapshot
      with Some snap show ?thesis by simp
    next
      case (ResponsePatch base)
      with Some have base: "base = pn_surface_version p"
        and next_v: "pn_surface_version p' = Suc (pn_surface_version p)"
        and incr: "pn_last_patch_kind p' \<noteq> PatchFullRefreshRequired"
        by (auto simp: surface_response_for_known_version_def checked_add_u64_def split: if_splits)
      from one_step_run [OF v] next_v obtain as s bs where ss: "ss = as @ s # bs"
        and as: "pn_surface_version (pane_run p as) = pn_surface_version p"
        and s: "pn_surface_version (pane_step (pane_run p as) s) = Suc (pn_surface_version p)"
        by (auto simp: p')
      define q where "q = pane_run p as"
      define q' where "q' = pane_step q s"
      have p'_run: "p' = pane_run q' bs" by (simp add: p' ss pane_run_append q_def q'_def)
      have ok_q: "pane_ok q" "pane_ok q'" using ok by (simp_all add: q_def q'_def pane_run_ok pane_step_ok)
      have v_q: "pn_surface_version q = pn_surface_version p" "pn_surface_version q' = Suc (pn_surface_version p)"
        using as s by (simp_all add: q_def q'_def)
      have copy_q: "client_of q = client_of p"
        using quiet_run_copy [OF ok _ as] v by (simp add: q_def ss)
      have le: "pn_surface_version q' + length bs \<le> U64_MAX" using v v_q by (simp add: ss)
      have same_v: "pn_surface_version (pane_run q' bs) = pn_surface_version q'"
        using next_v v_q p'_run by simp
      note quiet = quiet_run [OF ok_q(2) le same_v, folded p'_run]
      have copy_p': "client_of p' = client_of q'" using quiet_run_copy [OF ok_q(2) le same_v] by (simp add: p'_run)
      have kind: "pn_last_patch_kind q' \<noteq> PatchFullRefreshRequired" using incr quiet by simp
      have out: "fst s = None" using resize_is_full_refresh [of s q] kind by (cases "fst s") (auto simp: q'_def)
      have q'_eq: "q' = fst (apply_terminal_update q (snd s) False)" by (simp add: q'_def pane_step_def out)
      have grows: "update_grows q (snd s)" and send_q': "pane_sendable q'"
        using steps out by (simp_all add: ss steps_ok_append q_def q'_def)
      have "bs = []" if "pn_last_patch_kind q' = PatchColorOnly"
      proof (rule ccontr)
        assume "bs \<noteq> []"
        then have "pane_run p (butlast ss) = pane_run q' (butlast bs)"
          by (simp add: ss butlast_append pane_run_append q_def q'_def)
        moreover have "pn_surface_version (pane_run q' (butlast bs)) = pn_surface_version q'"
        proof -
          have bs: "bs = butlast bs @ [last bs]" using \<open>bs \<noteq> []\<close> by simp
          have le1: "pn_surface_version q' + length (butlast bs) \<le> U64_MAX" using le by (simp add: \<open>bs \<noteq> []\<close>)
          note lo = pane_run_version_le [OF le1]
          have lt: "pn_surface_version (pane_run q' (butlast bs)) < U64_MAX"
            using lo le \<open>bs \<noteq> []\<close> by (cases bs) auto
          have "pane_run q' bs = pane_step (pane_run q' (butlast bs)) (last bs)"
            by (subst bs) (simp add: pane_run_append)
          with pane_step_version [OF lt, of "last bs"] lo same_v show ?thesis by auto
        qed
        ultimately show False
          using diff that quiet p' ss same_v p'_run v_q by (auto simp: diff_still_there_def)
      qed
      then have "pn_last_palette_diff p' = pn_last_palette_diff q'" if "pn_last_patch_kind q' = PatchColorOnly"
        using that p'_run by simp
      then have "pane_patch p' base = pane_patch q' base"
        using quiet same_v by (intro same_surface_patch) (auto simp: p'_run)
      moreover have "pn_surface_version q < U64_MAX" using v v_q by (simp add: ss)
      ultimately show ?thesis
        using patch_syncs [OF ok_q(1) _ grows q'_eq _ kind send_q'] v_q copy_q copy_p' Some ResponsePatch base
        by (simp add: client_after_def client_apply_update_def patch_summary_def Let_def)
    qed
  qed
qed


subsection \<open>What an engine promises\<close>

locale engine_contract =
  fixes ops :: "'e terminal_engine"
    and accepts :: "pane_data \<Rightarrow> bool"
  assumes accepts_ok: "accepts p \<Longrightarrow> pane_ok p \<and> pane_sendable p"
    and output_ok: "accepts p \<Longrightarrow> te_apply_output ops e (terminal_input_of_pane p) bs = (e', Some u) \<Longrightarrow>
      update_grows p u \<and> accepts (fst (apply_terminal_update p u False))"
    and resize_ok: "accepts p \<Longrightarrow> te_resize ops e (terminal_input_of_pane p) c r = (e', Some u) \<Longrightarrow>
      accepts (resize_pane_data c r u p)"

datatype engine_op = OpOutput "byte list" | OpResize u32 u32

definition engine_step :: "'e terminal_engine \<Rightarrow> 'e \<Rightarrow> pane_data \<Rightarrow> engine_op \<Rightarrow> 'e \<times> pane_step option" where
  \<comment> \<open>what the session asks the engine of a pane, and the step its answer makes\<close>
  "engine_step ops e p x =
     (case x of
        OpOutput bs \<Rightarrow>
          (case te_apply_output ops e (terminal_input_of_pane p) bs of (e', u) \<Rightarrow> (e', map_option (Pair None) u))
      | OpResize c r \<Rightarrow>
          if pn_cols p = c \<and> pn_rows p = r then (e, None)
          else (case te_resize ops e (terminal_input_of_pane p) c r of
                  (e', u) \<Rightarrow> (e', map_option (Pair (Some (c, r))) u)))"

fun engine_run :: "'e terminal_engine \<Rightarrow> 'e \<Rightarrow> pane_data \<Rightarrow> engine_op list \<Rightarrow> 'e \<times> pane_step list" where
  "engine_run ops e p [] = (e, [])"
| "engine_run ops e p (x # xs) =
     (case engine_step ops e p x of
        (e', None) \<Rightarrow> engine_run ops e' p xs
      | (e', Some s) \<Rightarrow> (case engine_run ops e' (pane_step p s) xs of (e'', ss) \<Rightarrow> (e'', s # ss)))"

context engine_contract
begin

lemma engine_step_ok:
  assumes "accepts p" and "engine_step ops e p x = (e', Some s)"
  shows "accepts (pane_step p s) \<and> (fst s = None \<longrightarrow> update_grows p (snd s))"
proof (cases x)
  case (OpOutput bs)
  with assms(2) obtain u where "te_apply_output ops e (terminal_input_of_pane p) bs = (e', Some u)" "s = (None, u)"
    by (auto simp: engine_step_def split: prod.splits)
  with output_ok [OF assms(1)] show ?thesis by (auto simp: pane_step_def)
next
  case (OpResize c r)
  with assms(2) obtain u where "te_resize ops e (terminal_input_of_pane p) c r = (e', Some u)" "s = (Some (c, r), u)"
    by (auto simp: engine_step_def split: prod.splits if_splits)
  with resize_ok [OF assms(1)] show ?thesis by (auto simp: pane_step_def)
qed

lemma engine_run_ok:
  "accepts p \<Longrightarrow> engine_run ops e p xs = (e', ss) \<Longrightarrow>
     accepts (pane_run p ss) \<and> steps_ok p ss \<and> length ss \<le> length xs"
proof (induction xs arbitrary: e e' p ss)
  case (Cons x xs)
  obtain e1 o1 where st: "engine_step ops e p x = (e1, o1)" by fastforce
  show ?case
  proof (cases o1)
    case None
    with Cons.prems st Cons.IH [of p e1 e' ss] show ?thesis by auto
  next
    case (Some s)
    obtain e2 ss' where rest: "engine_run ops e1 (pane_step p s) xs = (e2, ss')" by fastforce
    note ok = engine_step_ok [OF Cons.prems(1) st [unfolded Some]]
    then have acc: "accepts (pane_step p s)" by simp
    have "ss = s # ss'" using Cons.prems(2) st Some rest by simp
    with Cons.IH [OF acc rest] ok accepts_ok [OF acc] show ?thesis by simp
  qed
qed simp

lemma engine_run_keeps_copy:
  assumes "accepts p" and "engine_run ops e p xs = (e', ss)"
    and "pn_surface_version p + length xs \<le> U64_MAX" and "diff_still_there p ss"
  shows "client_after (client_of p) (pane_run p ss)
      (surface_response_for_known_version (pn_surface_version (pane_run p ss)) (pn_surface_version p)
         (pn_last_patch_kind (pane_run p ss))) =
    Inr (client_of (pane_run p ss))"
  using assms engine_run_ok [OF assms(1,2)] accepts_ok [OF assms(1)]
  by (intro response_keeps_copy) auto

end

subsection \<open>The interim engine keeps the contract\<close>

definition interim_accepts :: "pane_data \<Rightarrow> bool" where
  "interim_accepts p \<longleftrightarrow> pane_ok p \<and> pane_sendable p \<and>
     length (pn_surface_lines p) \<le> length (pn_scrollback_lines p) \<and> pn_last_patch_kind p \<noteq> PatchColorOnly"

definition modes_known :: "terminal_modes \<Rightarrow> bool" where
  "modes_known m \<longleftrightarrow> mouse_tracking_mode_known (tm_mouse_tracking_mode m) \<and> mouse_format_known (tm_mouse_format m)"

lemma apply_interim_mode_known: "modes_known m \<Longrightarrow> modes_known (apply_interim_mode priv en m code)"
  by (auto simp: modes_known_def apply_interim_mode_def set_interim_mouse_tracking_def set_interim_mouse_format_def)

lemma foldl_invariant: "P a \<Longrightarrow> (\<And>a x. P a \<Longrightarrow> P (f a x)) \<Longrightarrow> P (foldl f a xs)"
  by (induction xs arbitrary: a) auto

lemma apply_interim_csi_known: "modes_known m \<Longrightarrow> modes_known (apply_interim_csi m ps b)"
  by (auto simp: apply_interim_csi_def apply_interim_mode_set_def Let_def apply_interim_mode_known
      intro!: foldl_invariant [where P = modes_known] split: option.splits)

lemma ansi_step_known: "modes_known m \<Longrightarrow> ansi_step s m b = (s', m', t) \<Longrightarrow> modes_known m'"
proof (cases s)
  case (Csi ps)
  then show "modes_known m \<Longrightarrow> ansi_step s m b = (s', m', t) \<Longrightarrow> modes_known m'"
    by (auto simp: apply_interim_csi_known split: if_splits)
qed (auto simp: modes_known_def split: if_splits)

lemma ansi_consume_known: "modes_known m \<Longrightarrow> ansi_consume s bs m = (s', m', t) \<Longrightarrow> modes_known m'"
proof (induction s bs m arbitrary: s' m' t rule: ansi_consume.induct)
  case (2 s b bs m)
  obtain s1 m1 t1 where st: "ansi_step s m b = (s1, m1, t1)" by (metis prod_cases3)
  obtain s2 m2 t2 where rest: "ansi_consume s1 bs m1 = (s2, m2, t2)" by (metis prod_cases3)
  from "2.IH" [OF st [symmetric] refl ansi_step_known [OF "2.prems"(1) st] rest] "2.prems"(2) st rest
  show ?case by simp
qed simp

lemma foldl_line_put_grows: "length v \<le> length (foldl line_put v cs)"
proof (induction cs arbitrary: v)
  case (Cons c cs)
  have "length v \<le> length (line_put v c)" by (cases v rule: rev_cases) (auto simp: line_put_def)
  then show ?case using Cons.IH [of "line_put v c"] by simp
qed simp

lemma foldl_line_put_newline: "v \<noteq> [] \<Longrightarrow> 10 \<in> set cs \<Longrightarrow> length v < length (foldl line_put v cs)"
proof (induction cs arbitrary: v)
  case (Cons c cs)
  show ?case
  proof (cases "c = 10")
    case True
    have "line_put v 10 = v @ [[]]" by (simp add: line_put_def)
    with True show ?thesis using foldl_line_put_grows [of "line_put v 10" cs] by simp
  next
    case False
    have "line_put v c \<noteq> []" "length v \<le> length (line_put v c)"
      using Cons.prems(1) by (cases v rule: rev_cases; auto simp: line_put_def)+
    with Cons.IH [of "line_put v c"] Cons.prems False show ?thesis by simp
  qed
qed simp

lemma merge_spec_grows: "length prev \<le> length (fst (merge_spec prev app cs))"
proof -
  let ?v = "line_buffer prev app cs"
  show ?thesis
  proof (cases "app \<and> prev \<noteq> []")
    case True
    then have "?v = foldl line_put prev cs" by (simp add: line_buffer_def)
    with True foldl_line_put_grows [of prev cs] foldl_line_put_newline [of prev cs] show ?thesis
      by (auto simp: merge_spec_def Let_def)
  next
    case False
    then have "?v = foldl line_put (prev @ [[]]) cs" by (auto simp: line_buffer_def)
    with foldl_line_put_grows [of "prev @ [[]]" cs] have "length prev \<le> length ?v - 1" by simp
    then show ?thesis by (auto simp: merge_spec_def Let_def)
  qed
qed

lemma merge_interim_grows: "merge_interim_pty_output prev app out = (ls, col) \<Longrightarrow> length prev \<le> length ls"
  using merge_spec_grows [of prev app] by (simp add: merge_interim_is_spec) (metis fst_conv)

lemma interim_update_fields:
  "tu_surface (interim_text_update k c m t w cols rows sb col) = k"
  "tu_modes (interim_text_update k c m t w cols rows sb col) = m"
  "tu_colors (interim_text_update k c m t w cols rows sb col) = cols"
  "tu_styles (interim_text_update k c m t w cols rows sb col) = [pane_style_default]"
  "tu_surface_lines (interim_text_update k c m t w cols rows sb col) = drop (length sb - rows) sb"
  "tu_surface_row_runs (interim_text_update k c m t w cols rows sb col) = plain_row_runs (drop (length sb - rows) sb)"
  "tu_surface_semantic_prompts (interim_text_update k c m t w cols rows sb col) =
     plain_row_semantic_prompts (drop (length sb - rows) sb)"
  "tu_scrollback_lines (interim_text_update k c m t w cols rows sb col) = sb"
  "tu_preserve_scrollback (interim_text_update k c m t w cols rows sb col) = False"
  "tc_shape (tu_cursor (interim_text_update k c m t w cols rows sb col)) = tc_shape c"
  by (simp_all add: interim_text_update_def Let_def terminal_update_plain_def)

lemma kept_colors_not_color_only:
  assumes "tu_colors u = pn_colors p" and "pn_last_patch_kind p \<noteq> PatchColorOnly"
  shows "pn_last_patch_kind (fst (apply_terminal_update p u f)) \<noteq> PatchColorOnly"
proof -
  have c: "\<not> ch_colors (patch_changes p u f)" using assms(1) by (simp add: patch_changes_def)
  have "terminal_patch_kind (patch_changes p u f) \<noteq> PatchColorOnly" if "surface_changed (patch_changes p u f)"
    using that c
    by (auto simp: terminal_patch_kind_def surface_changed_def rows_or_row_metadata_changed_def)
  with assms(2) show ?thesis by (simp add: apply_terminal_update_patch)
qed

lemma interim_update_accepted:
  assumes acc: "interim_accepts p" and m: "modes_known m"
    and u: "u = interim_text_update (pn_surface p) (terminal_cursor_of_cursor (pn_cursor p)) m t w cols rows sb col"
    and q: "q = fst (apply_terminal_update p0 u f)" and q_ok: "pane_ok q"
    and p0: "pn_id p0 = pn_id p" "pn_rows p0 = rows" "pn_colors p0 = cols"
      "pn_last_patch_kind p0 = pn_last_patch_kind p"
  shows "interim_accepts q"
proof -
  let ?ls = "drop (length sb - rows) sb"
  have lines: "pn_surface_lines q = take rows ?ls" and styles: "pn_styles q = [pane_style_default]"
    by (simp_all add: q apply_terminal_update_rows apply_terminal_update_surface u interim_update_fields p0)
  have runs: "pn_surface_row_runs q = take rows (plain_row_runs ?ls)"
    by (simp add: q apply_terminal_update_rows u interim_update_fields p0 row_runs_for_lines_id
        plain_row_runs_def comp_def)
  have prompts: "pn_surface_semantic_prompts q = take rows (plain_row_semantic_prompts ?ls)"
    by (simp add: q apply_terminal_update_rows u interim_update_fields p0 row_vectors_for_lines_id)
  have sb: "pn_scrollback_lines q = sb"
    by (simp add: q apply_terminal_update_scrollback u interim_update_fields)
  have "pane_sendable q"
    unfolding pane_sendable_def styles runs prompts
  proof (intro conjI)
    show "pn_id q \<noteq> []" "surface_kind_known (pn_surface q)" "cursor_shape_known (cu_shape (pn_cursor q))"
      using acc by (simp_all add: interim_accepts_def pane_sendable_def q apply_terminal_update_frame
          apply_terminal_update_surface u interim_update_fields p0 cursor_of_terminal_cursor_def
          terminal_cursor_of_cursor_def)
    show "mouse_tracking_mode_known (tm_mouse_tracking_mode (pn_modes q))"
      "mouse_format_known (tm_mouse_format (pn_modes q))"
      using m by (simp_all add: modes_known_def q apply_terminal_update_surface u interim_update_fields)
    show "\<forall>x \<in> set (take rows (plain_row_semantic_prompts ?ls)). row_semantic_prompt_known x"
      by (auto simp: plain_row_semantic_prompts_def dest!: in_set_takeD)
    show "\<forall>runs \<in> set (take rows (plain_row_runs ?ls)). runs_sendable [pane_style_default] runs"
      by (auto simp: plain_row_runs_def runs_sendable_def dest!: in_set_takeD)
  qed
  moreover have "pn_last_patch_kind q \<noteq> PatchColorOnly"
    using acc kept_colors_not_color_only [of u p0 f]
    by (simp add: q interim_accepts_def u interim_update_fields p0)
  ultimately show ?thesis using q_ok by (simp add: interim_accepts_def lines sb)
qed

interpretation interim: engine_contract interim_engine interim_accepts
proof
  fix p assume "interim_accepts p"
  then show "pane_ok p \<and> pane_sendable p" by (simp add: interim_accepts_def)
next
  fix p e bs e' u
  assume acc: "interim_accepts p"
    and out: "te_apply_output interim_engine e (terminal_input_of_pane p) bs = (e', Some u)"
  then obtain m t ls col where
    cons: "ansi_consume e bs (pn_modes p) = (e', m, t)" and
    merge: "merge_interim_pty_output (pn_scrollback_lines p) (0 < cu_col (pn_cursor p)) t = (ls, col)" and
    u: "u = interim_text_update (pn_surface p) (terminal_cursor_of_cursor (pn_cursor p)) m
        (pn_terminal_title p) (pn_terminal_working_directory p) (pn_colors p) (pn_rows p) ls col"
    by (auto simp: interim_engine_def interim_apply_output_def terminal_input_of_pane_def
        terminal_cursor_of_cursor_def split: prod.splits)
  have ok: "pane_ok p" using acc by (simp add: interim_accepts_def)
  have "modes_known (pn_modes p)" using acc by (simp add: interim_accepts_def pane_sendable_def modes_known_def)
  from ansi_consume_known [OF this cons] have m: "modes_known m" .
  have "interim_accepts (fst (apply_terminal_update p u False))"
    using interim_update_accepted [OF acc m u refl apply_terminal_update_pane_ok [OF ok] refl refl refl refl] by simp
  moreover have "update_grows p u"
    using acc merge_interim_grows [OF merge] pane_ok_rows [OF ok]
    by (auto simp: update_grows_def u interim_update_fields palette_grows_def interim_accepts_def surface_rows_ok_def)
  ultimately show "update_grows p u \<and> interim_accepts (fst (apply_terminal_update p u False))" by simp
next
  fix p e c r e' u
  assume acc: "interim_accepts p"
    and res: "te_resize interim_engine e (terminal_input_of_pane p) c r = (e', Some u)"
  then have u: "u = interim_text_update (pn_surface p) (terminal_cursor_of_cursor (pn_cursor p)) (pn_modes p)
        (pn_terminal_title p) (pn_terminal_working_directory p) (pn_colors p) r
        (pn_scrollback_lines p) (cu_col (pn_cursor p))"
    by (auto simp: interim_engine_def interim_resize_def terminal_input_of_pane_def terminal_cursor_of_cursor_def)
  have "pane_aligned p" using acc by (simp add: interim_accepts_def pane_ok_def)
  from pane_ok_resize [OF this] have "pane_ok (resize_pane_data c r u p)" .
  moreover have "modes_known (pn_modes p)"
    using acc by (simp add: interim_accepts_def pane_sendable_def modes_known_def)
  ultimately show "interim_accepts (resize_pane_data c r u p)"
    using interim_update_accepted [OF acc _ u] by (simp add: resize_pane_data_def)
qed

subsection \<open>From the session to the client\<close>

definition session_engine_step ::
  "'e terminal_engine \<Rightarrow> ustring \<Rightarrow> engine_op \<Rightarrow> session \<times> 'e \<Rightarrow> session \<times> 'e" where
  \<comment> \<open>the session's own operations on one pane, with the pane's engine\<close>
  "session_engine_step ops pane_id x st =
     (case x of
        OpOutput bs \<Rightarrow>
          (case apply_pane_output_with_engine ops (fst st) pane_id bs (snd st) of (s, e, _) \<Rightarrow> (s, e))
      | OpResize c r \<Rightarrow>
          (case commit_pane_resize_with_engine ops (fst st) pane_id c r (snd st) of (s, e, _) \<Rightarrow> (s, e)))"

definition receive_frame :: "client_pane \<Rightarrow> envelope option \<Rightarrow> client_pane cres" where
  \<comment> \<open>the client decodes the frame, if it was sent one, and applies it\<close>
  "receive_frame c frame =
     (case frame of
        None \<Rightarrow> Inr c
      | Some f \<Rightarrow> bind_res (surface_update_from_frame f) (client_apply_update c))"

definition changed_frame :: "session \<Rightarrow> u64 \<Rightarrow> ustring \<Rightarrow> u64 \<Rightarrow> envelope option" where
  \<comment> \<open>what \<open>write_changed_surface_frames\<close> writes for one pane known at a version\<close>
  "changed_frame s seq pane_id known =
     (case fst (write_changed_surface_frames s seq [pane_id] [(pane_id, known)]) of [] \<Rightarrow> None | f # _ \<Rightarrow> Some f)"

lemma harmless_step: "harmless (\<lambda>p. fst (apply_terminal_update p u f))" "harmless (resize_pane_data c r u)"
  by (simp_all add: harmless_def resize_pane_data_def apply_terminal_update_frame apply_terminal_update_aligned)

lemma bump_look [simp]: "session_pane_data (bump s) q = session_pane_data s q"
  by (simp add: bump_def session_pane_data_def session_pane_def)

lemma session_engine_step_look:
  assumes "session_pane_data s k = Some p" and "engine_step ops e p x = (e', o1)"
  shows "snd (session_engine_step ops k x (s, e)) = e' \<and>
    session_pane_data (fst (session_engine_step ops k x (s, e))) k =
      Some (case o1 of None \<Rightarrow> p | Some st \<Rightarrow> pane_step p st)"
  using assms
  by (auto simp: session_engine_step_def engine_step_def apply_pane_output_with_engine_def
      commit_pane_resize_with_engine_def pane_step_def pane_mut_or_look harmless_step
      split: engine_op.splits prod.splits option.splits if_splits)

lemma session_run_look:
  assumes "session_pane_data s k = Some p" and "engine_run ops e p xs = (e', ss)"
  shows "\<exists>s'. fold (session_engine_step ops k) xs (s, e) = (s', e') \<and>
    session_pane_data s' k = Some (pane_run p ss)"
  using assms
proof (induction xs arbitrary: s e p ss)
  case (Cons x xs)
  obtain e1 o1 where st: "engine_step ops e p x = (e1, o1)" by fastforce
  note look = session_engine_step_look [OF Cons.prems(1) st]
  obtain s1 where s1: "session_engine_step ops k x (s, e) = (s1, e1)"
    using look by (cases "session_engine_step ops k x (s, e)") auto
  show ?case
  proof (cases o1)
    case None
    with Cons.IH [of s1 p e1 ss] Cons.prems st look s1 show ?thesis by simp
  next
    case (Some t)
    obtain e2 ss' where rest: "engine_run ops e1 (pane_step p t) xs = (e2, ss')" by fastforce
    with Cons.prems(2) st Some have "ss = t # ss'" "e2 = e'" by simp_all
    with Cons.IH [of s1 "pane_step p t" e1 ss'] rest look s1 Some show ?thesis by simp
  qed
qed simp

lemma changed_frame_response:
  assumes "session_pane_data s k = Some p"
  shows "receive_frame c (changed_frame s seq k known) =
    client_after c p (surface_response_for_known_version (pn_surface_version p) known (pn_last_patch_kind p))"
proof -
  let ?r = "surface_response_for_known_version (pn_surface_version p) known (pn_last_patch_kind p)"
  have v: "surface_version s k = Some (pn_surface_version p)" "surface_patch_kind s k = Some (pn_last_patch_kind p)"
    "bt_get [(k, known)] k = Some known"
    using assms by (simp_all add: surface_version_def surface_patch_kind_def bt_get_def)
  have frame: "surface_response_frame s k r seq =
      Some (session_envelope s local_client seq (case r of
        ResponseSnapshot \<Rightarrow> BodySnapshot (pane_snapshot p) | ResponsePatch base \<Rightarrow> BodyPatch (pane_patch p base)))" for r
    by (simp add: surface_response_frame_def pane_surface_frame_eq [OF assms] pane_surface_patch_frame_eq [OF assms]
        split: surface_response.split)
  have "changed_frame s seq k known = Option.bind ?r (\<lambda>r. surface_response_frame s k r seq)"
    by (cases "?r") (simp_all add: changed_frame_def v frame option_list_def Let_def)
  then show ?thesis
    by (cases "?r") (auto simp: receive_frame_def client_after_def frame surface_update_from_frame_def
        session_envelope_def split: surface_response.split)
qed

context engine_contract
begin

lemma session_run_delivers:
  assumes "session_pane_data s k = Some p" and "accepts p"
    and "pn_surface_version p + length xs \<le> U64_MAX"
    and run: "engine_run ops e p xs = (e', ss)" and "diff_still_there p ss"
    and s': "s' = fst (fold (session_engine_step ops k) xs (s, e))"
  shows "\<exists>p'. session_pane_data s' k = Some p' \<and> accepts p' \<and>
    receive_frame (client_of p) (changed_frame s' seq k (pn_surface_version p)) = Inr (client_of p')"
proof -
  have look: "session_pane_data s' k = Some (pane_run p ss)"
    using session_run_look [OF assms(1) run] by (auto simp: s')
  with changed_frame_response [OF look] engine_run_keeps_copy [OF assms(2) run assms(3,5)]
    engine_run_ok [OF assms(2) run] show ?thesis by simp
qed

end

lemma interim_session_delivers:
  assumes "session_pane_data s k = Some p" and "interim_accepts p"
    and "pn_surface_version p + length xs \<le> U64_MAX"
    and "s' = fst (fold (session_engine_step interim_engine k) xs (s, e))"
  shows "\<exists>p'. session_pane_data s' k = Some p' \<and> interim_accepts p' \<and>
    receive_frame (client_of p) (changed_frame s' seq k (pn_surface_version p)) = Inr (client_of p')"
proof -
  obtain e' ss where run: "engine_run interim_engine e p xs = (e', ss)" by fastforce
  have "interim_accepts (pane_run p ss)" using interim.engine_run_ok [OF assms(2) run] by simp
  then have "diff_still_there p ss" by (simp add: diff_still_there_def interim_accepts_def)
  from interim.session_run_delivers [OF assms(1-3) run this assms(4)] show ?thesis .
qed

end
