(* ===== verification/Client_Laws.thy ===== *)
theory Client_Laws
  imports Client_Surface
begin

text \<open>
  What holds of a client's copy whatever the server sends: the copy keeps its height and its
  seven row vectors in parallel, a patch writes the rows it names and no others, it is
  refused unless it starts from the copy's version, and the copy takes the version of the
  update it accepted.
\<close>

definition client_ok :: "client_pane \<Rightarrow> bool" where
  "client_ok c \<longleftrightarrow>
     length (cp_row_text c) = cp_rows c \<and> length (cp_row_runs c) = cp_rows c \<and>
     length (cp_row_dirty_hashes c) = cp_rows c \<and> length (cp_row_semantic_prompts c) = cp_rows c \<and>
     length (cp_row_dirty c) = cp_rows c \<and> length (cp_row_kitty c) = cp_rows c \<and>
     length (cp_row_state_hashes c) = cp_rows c"

definition same_client_row :: "client_pane \<Rightarrow> client_pane \<Rightarrow> nat \<Rightarrow> bool" where
  "same_client_row c c' i \<longleftrightarrow>
     get (cp_row_text c') i = get (cp_row_text c) i \<and> get (cp_row_runs c') i = get (cp_row_runs c) i \<and>
     get (cp_row_dirty_hashes c') i = get (cp_row_dirty_hashes c) i \<and>
     get (cp_row_semantic_prompts c') i = get (cp_row_semantic_prompts c) i \<and>
     get (cp_row_dirty c') i = get (cp_row_dirty c) i \<and> get (cp_row_kitty c') i = get (cp_row_kitty c) i \<and>
     get (cp_row_state_hashes c') i = get (cp_row_state_hashes c) i"

lemma same_client_row_refl [simp]: "same_client_row c c i"
  by (simp add: same_client_row_def)

lemma same_client_row_trans: "same_client_row a b i \<Longrightarrow> same_client_row b c i \<Longrightarrow> same_client_row a c i"
  by (simp add: same_client_row_def)

lemma set_client_row_frame:
  "cp_pane_id (set_client_row c r) = cp_pane_id c" "cp_version (set_client_row c r) = cp_version c"
  "cp_rows (set_client_row c r) = cp_rows c" "cp_cols (set_client_row c r) = cp_cols c"
  "cp_styles (set_client_row c r) = cp_styles c" "cp_colors (set_client_row c r) = cp_colors c"
  "length (cp_row_text (set_client_row c r)) = length (cp_row_text c)"
  "client_ok (set_client_row c r) = client_ok c"
  "i \<noteq> ru_row r \<Longrightarrow> same_client_row c (set_client_row c r) i"
  by (auto simp: set_client_row_def Let_def client_ok_def same_client_row_def get_def)

lemma apply_rows_frame:
  "apply_rows c rs = Inr c' \<Longrightarrow>
     cp_pane_id c' = cp_pane_id c \<and> cp_version c' = cp_version c \<and> cp_rows c' = cp_rows c \<and>
     cp_cols c' = cp_cols c \<and> cp_styles c' = cp_styles c \<and> cp_colors c' = cp_colors c \<and>
     client_ok c' = client_ok c \<and> (\<forall>i. i \<notin> ru_row ` set rs \<longrightarrow> same_client_row c c' i)"
proof (induction rs arbitrary: c)
  case (Cons r rs)
  then have run: "apply_rows (set_client_row c r) rs = Inr c'" by (auto split: if_splits)
  from Cons.IH [OF run] show ?case
    by (auto simp: set_client_row_frame intro: same_client_row_trans [OF set_client_row_frame(9)])
qed simp

lemma apply_rows_within: "apply_rows c rs = Inr c' \<Longrightarrow> r \<in> set rs \<Longrightarrow> ru_row r < length (cp_row_text c)"
proof (induction rs arbitrary: c)
  case (Cons a rs)
  then have run: "apply_rows (set_client_row c a) rs = Inr c'" and a: "ru_row a < length (cp_row_text c)"
    by (auto split: if_splits)
  from Cons.IH [OF run] a Cons.prems(2) show ?case by (auto simp: set_client_row_frame)
qed simp

lemma client_from_snapshot_ok:
  assumes "client_from_snapshot u = Inr c"
  shows "client_ok c" and "su_rows u = Some (cp_rows c)" and "su_cols u = Some (cp_cols c)"
    and "cp_pane_id c = su_pane_id u" and "cp_version c = su_version u"
    and "i \<notin> ru_row ` set (su_row_updates u) \<Longrightarrow> i < cp_rows c \<Longrightarrow> cp_row_text c ! i = []"
proof -
  obtain cols rows where size: "su_cols u = Some cols" "su_rows u = Some rows"
    using assms by (cases "su_cols u"; cases "su_rows u") (auto simp: client_from_snapshot_def bind_res_Inr_iff)
  with assms obtain c0 where run: "apply_rows c0 (su_row_updates u) = Inr c"
    and c0: "client_ok c0" "cp_rows c0 = rows" "cp_cols c0 = cols" "cp_pane_id c0 = su_pane_id u"
      "cp_version c0 = su_version u" "cp_row_text c0 = replicate rows []"
    by (auto simp: client_from_snapshot_def bind_res_Inr_iff Let_def client_ok_def)
  note f = apply_rows_frame [OF run]
  show "client_ok c" "su_rows u = Some (cp_rows c)" "su_cols u = Some (cp_cols c)"
    "cp_pane_id c = su_pane_id u" "cp_version c = su_version u"
    using f c0 size by simp_all
  assume i: "i \<notin> ru_row ` set (su_row_updates u)" "i < cp_rows c"
  with f c0 have "get (cp_row_text c) i = get (replicate rows []) i" by (auto simp: same_client_row_def)
  with i f c0 show "cp_row_text c ! i = []" by (auto simp: get_def client_ok_def split: if_splits)
qed

lemma client_apply_patch_elim:
  assumes "client_apply_patch c u = Inr c'"
  shows "su_pane_id u = cp_pane_id c" and "su_base_version u = Some (cp_version c)"
    and "\<exists>c1 m cols. c' = (set_client_meta u c1)\<lparr>cp_modes := m, cp_colors := cols\<rparr> \<and>
      (c1 = c \<or> su_patch_kind u = Some PatchReplaceRows \<and> apply_rows c (su_row_updates u) = Inr c1)"
proof -
  show "su_pane_id u = cp_pane_id c" "su_base_version u = Some (cp_version c)"
    using assms by (auto simp: client_apply_patch_def bind_res_Inr_iff)
  have keep: "set_client_meta u x = (set_client_meta u x)\<lparr>cp_modes := cp_modes x, cp_colors := cp_colors x\<rparr>"
    "(set_client_meta u x)\<lparr>cp_modes := m\<rparr> = (set_client_meta u x)\<lparr>cp_modes := m, cp_colors := cp_colors x\<rparr>"
    for x m
    by (simp_all add: set_client_meta_def)
  have cases: "c' = set_client_meta u c \<or> (\<exists>m. c' = (set_client_meta u c)\<lparr>cp_modes := m\<rparr>) \<or>
      (\<exists>m cols. c' = (set_client_meta u c)\<lparr>cp_modes := m, cp_colors := cols\<rparr>) \<or>
      (\<exists>m c1. su_patch_kind u = Some PatchReplaceRows \<and> apply_rows c (su_row_updates u) = Inr c1 \<and>
        c' = (set_client_meta u c1)\<lparr>cp_modes := m\<rparr>)"
  proof (cases "su_patch_kind u = Some PatchReplaceRows")
    case True
    with assms show ?thesis by (simp add: client_apply_patch_def bind_res_Inr_iff split: if_split_asm) blast
  next
    case False
    with assms show ?thesis
      by (simp add: client_apply_patch_def bind_res_Inr_iff split: if_split_asm option.split_asm) blast+
  qed
  from cases show "\<exists>c1 m cols. c' = (set_client_meta u c1)\<lparr>cp_modes := m, cp_colors := cols\<rparr> \<and>
      (c1 = c \<or> su_patch_kind u = Some PatchReplaceRows \<and> apply_rows c (su_row_updates u) = Inr c1)"
    using keep by blast
qed

text \<open>The contract of an accepted patch.\<close>

lemma client_apply_patch_contract:
  assumes "client_apply_patch c u = Inr c'"
  shows "cp_pane_id c' = cp_pane_id c" and "cp_version c' = su_version u"
    and "cp_rows c' = cp_rows c" and "cp_cols c' = cp_cols c" and "cp_styles c' = cp_styles c"
    and "client_ok c' = client_ok c"
    and "i \<notin> ru_row ` set (su_row_updates u) \<Longrightarrow> same_client_row c c' i"
    and "su_patch_kind u \<noteq> Some PatchReplaceRows \<Longrightarrow> same_client_row c c' i"
proof -
  obtain c1 m cols where c': "c' = (set_client_meta u c1)\<lparr>cp_modes := m, cp_colors := cols\<rparr>"
    and c1: "c1 = c \<or> su_patch_kind u = Some PatchReplaceRows \<and> apply_rows c (su_row_updates u) = Inr c1"
    using client_apply_patch_elim(3) [OF assms] by blast
  have rows: "same_client_row c c' i = same_client_row c c1 i" "client_ok c' = client_ok c1" for i
    by (simp_all add: c' set_client_meta_def same_client_row_def client_ok_def)
  from c1 apply_rows_frame [of c "su_row_updates u" c1]
  show "cp_pane_id c' = cp_pane_id c" "cp_version c' = su_version u" "cp_rows c' = cp_rows c"
    "cp_cols c' = cp_cols c" "cp_styles c' = cp_styles c" "client_ok c' = client_ok c"
    "i \<notin> ru_row ` set (su_row_updates u) \<Longrightarrow> same_client_row c c' i"
    "su_patch_kind u \<noteq> Some PatchReplaceRows \<Longrightarrow> same_client_row c c' i"
    unfolding rows by (auto simp: c' set_client_meta_def)
qed

lemma stale_patch_refused:
  "su_pane_id u = cp_pane_id c \<Longrightarrow> su_base_version u \<noteq> Some (cp_version c) \<Longrightarrow>
     client_apply_patch c u = Inl PatchBaseMismatch"
  by (simp add: client_apply_patch_def)

lemma client_apply_update_ok:
  "client_ok c \<Longrightarrow> client_apply_update c u = Inr c' \<Longrightarrow> client_ok c' \<and> cp_version c' = su_version u"
  by (auto simp: client_apply_update_def client_from_snapshot_ok client_apply_patch_contract
      split: surface_update_kind.splits)

end
