(* ===== verification/Surface_Limits.thy ===== *)
theory Surface_Limits
  imports Surface_Delivery Client_Laws
begin

text \<open>
  Where the copies of the clients fall out of step. \<open>Surface_Sync\<close> and \<open>Surface_Delivery\<close>
  assume that an update keeps at least the pane's rows, that a new palette is no proper
  prefix of the old one, and that no silent update follows a change of colours. Each lemma
  here drops one of these and shows that the client then accepts the patch and keeps the
  old rows or the old palette.
\<close>

subsection \<open>Fewer rows\<close>

lemma row_patch_accepted:
  assumes "pane_sendable p'" and ok: "surface_rows_ok p" "surface_rows_ok p'"
    and kind: "pn_last_patch_kind p' = PatchReplaceRows"
    and same: "pn_id p' = pn_id p" "pn_rows p' = pn_rows p" "pn_colors p' = pn_colors p"
      "pn_styles p' = pn_styles p"
    and idx: "distinct (pn_last_row_update_indices p')"
      "\<forall>i \<in> set (pn_last_row_update_indices p'). i < length (pn_surface_lines p')"
  shows "\<exists>c. client_apply_patch (client_of p) (patch_summary p' (pn_surface_version p)) = Inr c"
proof -
  let ?is = "pn_last_row_update_indices p'"
  have al: "surface_rows_aligned p'" and len': "length (pn_surface_lines p') \<le> pn_rows p'"
    using ok same by (simp_all add: surface_rows_ok_def)
  have max: "max (length (cp_styles (client_of p))) 1 = max (length (pn_styles p')) 1"
    using same by (simp add: client_of_def client_styles_def default_style_summaries_def)
  have indices: "validate_row_update_indices (map (pane_row_update p') ?is) (length (cp_row_text (client_of p))) = Inr ()"
    using idx len' by (intro row_indices_ok) (auto simp: length_client_rows [OF ok(1)] same)
  note checked = sendable_rows_checked [OF assms(1) al(1) idx(2) max]
  have unch: "colors_unchanged (patch_summary p' (pn_surface_version p)) (client_of p)"
    using same kind by (simp add: colors_unchanged_def patch_summary_def Let_def patch_colors_full client_of_def)
  have base: "cp_pane_id (client_of p) = pn_id p" "cp_version (client_of p) = pn_surface_version p"
    by (simp_all add: client_of_def)
  have "\<forall>r \<in> set (map (pane_row_update p') ?is). ru_row r < length (cp_row_text (client_of p))"
    using idx len' by (auto simp: length_client_rows [OF ok(1)] same)
  from apply_rows_put_all [OF this] show ?thesis
    using checked(1,2) checked(3) [of "cp_hyperlinks (client_of p)"] indices unch
      sendable_scalars [OF assms(1)] kind same patch_colors_scope [of p']
    by (simp add: client_apply_patch_def patch_summary_def Let_def base validate_patch_kind_def
        validate_no_row_patch_payload_def)
qed

lemma shrink_leaves_stale_row:
  assumes ok: "pane_ok p" and p': "p' = fst (apply_terminal_update p u False)"
    and send: "pane_sendable p'" and kind: "pn_last_patch_kind p' = PatchReplaceRows"
    and changed: "pn_surface_version p' \<noteq> pn_surface_version p"
    and shrunk: "length (tu_surface_lines u) < length (pn_surface_lines p)"
  shows "\<exists>c. client_after (client_of p) p' (Some (ResponsePatch (pn_surface_version p))) = Inr c \<and>
    cp_version c = pn_surface_version p' \<and>
    (\<forall>i. length (pn_surface_lines p') \<le> i \<and> i < length (pn_surface_lines p) \<longrightarrow>
       cp_row_text c ! i = pn_surface_lines p ! i)"
proof -
  have ok_p: "surface_rows_ok p" and ok_p': "surface_rows_ok p'"
    using ok by (simp_all add: pane_ok_rows p' apply_terminal_update_surface_rows_ok)
  have len: "length (pn_surface_lines p) \<le> pn_rows p" using ok_p by (simp add: surface_rows_ok_def)
  have sc: "surface_changed (patch_changes p u False)"
    using changed by (auto simp: p' apply_terminal_update_version split: if_splits)
  have k: "terminal_patch_kind (patch_changes p u False) = PatchReplaceRows"
    using sc kind by (simp add: p' apply_terminal_update_patch)
  note same = patch_kind_incremental [OF sc, unfolded k, simplified]
  have idx: "pn_last_row_update_indices p' =
      filter (\<lambda>row. row < pn_rows p) [0..<length (tu_surface_lines u)]"
    using sc k shrunk
    by (simp add: p' apply_terminal_update_patch update_row_indices_def surface_row_update_indices_def
        all_row_indices_def)
  have lines: "length (pn_surface_lines p') = length (tu_surface_lines u)"
    using shrunk len by (simp add: p' apply_terminal_update_rows)
  have kept: "\<not> rows_kept p u" using shrunk by (auto simp: rows_kept_def)
  have fields: "pn_id p' = pn_id p" "pn_rows p' = pn_rows p" "pn_colors p' = pn_colors p" "pn_styles p' = pn_styles p"
    using same kept by (simp_all add: p' apply_terminal_update_frame apply_terminal_update_surface)
  have dist: "distinct (pn_last_row_update_indices p')"
    "\<forall>i \<in> set (pn_last_row_update_indices p'). i < length (pn_surface_lines p')"
    using idx lines by simp_all
  obtain c where c: "client_apply_patch (client_of p) (patch_summary p' (pn_surface_version p)) = Inr c"
    using row_patch_accepted [OF send ok_p ok_p' kind fields dist] by blast
  have "patch_update (pane_patch p' (pn_surface_version p)) = Inr (patch_summary p' (pn_surface_version p))"
    using ok_p' dist kind by (intro patch_decodes [OF send]) (auto simp: surface_rows_ok_def)
  then have after: "client_after (client_of p) p' (Some (ResponsePatch (pn_surface_version p))) = Inr c"
    using c by (simp add: client_after_def client_apply_update_def patch_summary_def Let_def)
  have "cp_row_text c ! i = pn_surface_lines p ! i"
    if "length (pn_surface_lines p') \<le> i" "i < length (pn_surface_lines p)" for i
  proof -
    have "i \<notin> ru_row ` set (su_row_updates (patch_summary p' (pn_surface_version p)))"
      using that dist(2) by (auto simp: patch_summary_def Let_def)
    from client_apply_patch_contract(7) [OF c this] that len show ?thesis
      by (auto simp: same_client_row_def client_of_def get_def pad_def nth_append split: if_splits)
  qed
  with after client_apply_patch_contract(2) [OF c] show ?thesis
    by (auto simp: patch_summary_def Let_def)
qed

subsection \<open>Colours\<close>

lemma empty_diff_keeps_palette:
  \<comment> \<open>a patch of colours whose diff is missing or empty\<close>
  assumes send: "pane_sendable p'" and ok: "surface_rows_aligned p'"
    and kind: "pn_last_patch_kind p' = PatchColorOnly"
    and same: "pn_id p' = pn_id p"
    and diff: "\<forall>d. pn_last_palette_diff p' = Some d \<longrightarrow> pd_colors d = []"
  shows "\<exists>c. client_after (client_of p) p' (Some (ResponsePatch (pn_surface_version p))) = Inr c \<and>
    cp_version c = pn_surface_version p' \<and> cs_palette (cp_colors c) = tco_palette (pn_colors p)"
proof -
  have colors: "colors_materialize (patch_colors p') (client_colors (pn_colors p)) =
      Inr ((client_colors (pn_colors p'))\<lparr>cs_palette := tco_palette (pn_colors p)\<rparr>)"
    using kind diff
    by (cases "pn_last_palette_diff p'") (simp_all add: colors_materialize_def patch_colors_def client_colors_def Let_def)
  have "patch_update (pane_patch p' (pn_surface_version p)) = Inr (patch_summary p' (pn_surface_version p))"
    using kind by (intro patch_decodes [OF send ok]) auto
  then show ?thesis
    using colors kind same sendable_scalars [OF send] patch_colors_scope [of p']
    by (simp add: client_after_def client_apply_update_def patch_summary_def Let_def client_apply_patch_def
        validate_patch_kind_def validate_no_row_patch_payload_def set_client_meta_def client_of_def)
qed

lemma palette_prefix_is_lost:
  assumes ok: "pane_ok p" and p': "p' = fst (apply_terminal_update p u False)"
    and send: "pane_sendable p'" and changed: "pn_surface_version p' \<noteq> pn_surface_version p"
    and kind: "pn_last_patch_kind p' = PatchColorOnly"
    and pre: "tco_palette (pn_colors p) = tco_palette (tu_colors u) @ x # xs"
  shows "\<exists>c. client_after (client_of p) p' (Some (ResponsePatch (pn_surface_version p))) = Inr c \<and>
    cp_version c = pn_surface_version p' \<and>
    cs_palette (cp_colors c) \<noteq> tco_palette (pn_colors p')"
proof -
  have sc: "surface_changed (patch_changes p u False)"
    using changed by (auto simp: p' apply_terminal_update_version split: if_splits)
  have "pn_last_palette_diff p' = make_palette_diff (tco_palette (pn_colors p)) (tco_palette (tu_colors u))"
    using sc kind by (simp add: p' apply_terminal_update_patch)
  moreover have "position (\<lambda>(a, b). a \<noteq> b) (zip (ys @ x # xs) ys) = None" for ys :: "u32 list"
    by (induction ys) auto
  ultimately have "\<forall>d. pn_last_palette_diff p' = Some d \<longrightarrow> pd_colors d = []"
    by (auto simp: make_palette_diff_def pre Let_def split: if_splits)
  moreover have "surface_rows_ok p'" by (simp add: p' apply_terminal_update_surface_rows_ok)
  moreover have "pn_id p' = pn_id p" "tco_palette (pn_colors p') = tco_palette (tu_colors u)"
    by (simp_all add: p' apply_terminal_update_frame apply_terminal_update_surface)
  ultimately show ?thesis
    using empty_diff_keeps_palette [OF send _ kind] pre by (fastforce simp: surface_rows_ok_def)
qed

lemma silent_update_loses_palette:
  \<comment> \<open>the same update twice: the second is silent, and drops the diff of the first\<close>
  assumes ok: "pane_ok p" and p': "p' = fst (apply_terminal_update p u False)"
    and p'': "p'' = fst (apply_terminal_update p' u' False)"
    and send: "pane_sendable p''" and changed: "pn_surface_version p' = Suc (pn_surface_version p)"
    and kind: "pn_last_patch_kind p' = PatchColorOnly"
    and silent: "\<not> surface_changed (patch_changes p' u' False)"
    and palette: "tco_palette (pn_colors p') \<noteq> tco_palette (pn_colors p)"
    and v_p: "pn_surface_version p < U64_MAX"
  shows "surface_response_for_known_version (pn_surface_version p'') (pn_surface_version p) (pn_last_patch_kind p'') =
      Some (ResponsePatch (pn_surface_version p))"
    and "\<exists>c. client_after (client_of p) p'' (Some (ResponsePatch (pn_surface_version p))) = Inr c \<and>
      cp_version c = pn_surface_version p'' \<and>
      cs_palette (cp_colors c) \<noteq> tco_palette (pn_colors p'')"
proof -
  have v: "pn_surface_version p'' = pn_surface_version p'" and k: "pn_last_patch_kind p'' = PatchColorOnly"
    and d: "pn_last_palette_diff p'' = None"
    using silent kind by (simp_all add: p'' apply_terminal_update_version apply_terminal_update_patch)
  show "surface_response_for_known_version (pn_surface_version p'') (pn_surface_version p) (pn_last_patch_kind p'') =
      Some (ResponsePatch (pn_surface_version p))"
    using v k changed v_p by (auto simp: surface_response_for_known_version_def checked_add_u64_def)
  have ok': "surface_rows_ok p'" by (simp add: p' apply_terminal_update_surface_rows_ok)
  have al: "surface_rows_aligned p''" "pn_id p'' = pn_id p"
    using apply_terminal_update_surface_rows_ok [of p' u' False]
    by (simp_all add: p'' p' apply_terminal_update_frame surface_rows_ok_def)
  have "pn_colors p'' = pn_colors p'"
    using surface_unchanged_same [OF ok' silent] by (simp add: p'' same_surface_def)
  with empty_diff_keeps_palette [OF send al(1) k al(2)] d palette
  show "\<exists>c. client_after (client_of p) p'' (Some (ResponsePatch (pn_surface_version p))) = Inr c \<and>
      cp_version c = pn_surface_version p'' \<and>
      cs_palette (cp_colors c) \<noteq> tco_palette (pn_colors p'')" by fastforce
qed

subsection \<open>A split with rows to spare\<close>

text \<open>A split halves the rows of the pane and keeps all its lines. Until the next update of the pane its
  snapshot names rows that do not exist, and the client refuses it.\<close>

lemma validated_rows_bound:
  "validate_rows_from seen rs = Inr () \<Longrightarrow> r \<in> set rs \<Longrightarrow> ru_row r < length seen"
  by (induction seen rs rule: validate_rows_from.induct) (auto split: if_splits)

lemma split_half_is_refused:
  assumes send: "pane_sendable p" and al: "surface_rows_aligned p" and lines: "rows < length (pn_surface_lines p)"
    and e: "e = split_existing p cols rows"
  shows "\<exists>err. bind_res (snapshot_update (pane_snapshot e)) client_from_snapshot = Inl err"
proof -
  have e': "pane_sendable e" "surface_rows_aligned e" "pn_rows e = rows" "pn_surface_lines e = pn_surface_lines p"
    using send al by (simp_all add: e split_existing_def pane_sendable_def surface_rows_aligned_def)
  have "client_from_snapshot (snapshot_summary e) \<noteq> Inr c" for c
  proof
    assume "client_from_snapshot (snapshot_summary e) = Inr c"
    then have "validate_row_update_indices (su_row_updates (snapshot_summary e)) rows = Inr ()"
      by (auto simp: client_from_snapshot_def bind_res_Inr_iff ok_or_def Let_def snapshot_summary_def e'(3))
    then have "ru_row (pane_row_update e rows) < length (replicate rows False)"
      unfolding validate_row_update_indices_def
      by (rule validated_rows_bound) (simp add: snapshot_summary_def e' lines)
    then show False by simp
  qed
  then obtain err where "client_from_snapshot (snapshot_summary e) = Inl err"
    by (cases "client_from_snapshot (snapshot_summary e)") auto
  then show ?thesis by (simp add: snapshot_decodes [OF e'(1,2)])
qed

end
