(* ===== verification/State_File.thy ===== *)
theory State_File
  imports Client_Laws
begin

text \<open>
  The fields of the client's state file: numbers, flags, enumerations and hexadecimal strings
  (\<open>crates/nmux-cli/src/local/state_file.rs\<close>), and \<open>str::lines\<close> of the standard library, which
  cuts the file. The lemmas are the round trips of every field.
\<close>

unbundle bit_operations_syntax

datatype state_error =
  StateNumber | StateEnum | StateBool | StatePalette | StateOddHex | StateHexDigit | StateUtf8
| StateHeader | StateScrollbackStart | StateScrollbackCount | StateSurfaceLine | StateUnterminated
| StateRowIndex | StateBodyLine | StateTable client_error

type_synonym 'a sres = "(state_error, 'a) res"

definition parse_state_u64 :: "ustring \<Rightarrow> u64 sres" where
  "parse_state_u64 v = ok_or StateNumber (parse_u64 v)"

definition parse_state_i64 :: "ustring \<Rightarrow> int sres" where
  "parse_state_i64 v = ok_or StateNumber (parse_i64 v)"

definition parse_state_u32 :: "ustring \<Rightarrow> u32 sres" where
  "parse_state_u32 v = ok_or StateNumber (parse_u32 v)"

definition parse_state_i8 :: "ustring \<Rightarrow> int sres" where
  "parse_state_i8 v = ok_or StateNumber (parse_i8 v)"

definition parse_state_usize :: "ustring \<Rightarrow> usize sres" where
  \<comment> \<open>\<open>usize\<close> has 64 bits\<close>
  "parse_state_usize v = ok_or StateNumber (parse_u64 v)"

definition parse_state_surface_kind :: "ustring \<Rightarrow> surface_kind sres" where
  "parse_state_surface_kind v = bind_res (parse_state_i8 v) (\<lambda>i.
     let k = surface_kind_of_code i in if surface_kind_known k then Inr k else Inl StateEnum)"

definition parse_state_cursor_shape :: "ustring \<Rightarrow> cursor_shape sres" where
  "parse_state_cursor_shape v = bind_res (parse_state_i8 v) (\<lambda>i.
     let k = cursor_shape_of_code i in if cursor_shape_known k then Inr k else Inl StateEnum)"

definition parse_state_row_semantic_prompt :: "ustring \<Rightarrow> row_semantic_prompt sres" where
  "parse_state_row_semantic_prompt v = bind_res (parse_state_i8 v) (\<lambda>i.
     let k = row_semantic_prompt_of_code i in if row_semantic_prompt_known k then Inr k else Inl StateEnum)"

definition parse_state_cell_semantic_content :: "ustring \<Rightarrow> cell_semantic_content sres" where
  "parse_state_cell_semantic_content v = bind_res (parse_state_i8 v) (\<lambda>i.
     let k = cell_semantic_content_of_code i in if cell_semantic_content_known k then Inr k else Inl StateEnum)"

definition parse_state_mouse_tracking_mode :: "ustring \<Rightarrow> mouse_tracking_mode sres" where
  "parse_state_mouse_tracking_mode v = bind_res (parse_state_i8 v) (\<lambda>i.
     let k = mouse_tracking_mode_of_code i in if mouse_tracking_mode_known k then Inr k else Inl StateEnum)"

definition parse_state_mouse_format :: "ustring \<Rightarrow> mouse_format sres" where
  "parse_state_mouse_format v = bind_res (parse_state_i8 v) (\<lambda>i.
     let k = mouse_format_of_code i in if mouse_format_known k then Inr k else Inl StateEnum)"

definition parse_state_bool :: "ustring \<Rightarrow> bool sres" where
  "parse_state_bool v = (if v = lit ''0'' then Inr False else if v = lit ''1'' then Inr True else Inl StateBool)"

subsection \<open>Hexadecimal strings\<close>

definition hex_digit :: "byte \<Rightarrow> uchar" where
  \<comment> \<open>\<open>HEX[n as usize] as char\<close>\<close>
  "hex_digit n = lit ''0123456789abcdef'' ! unat n"

definition hex_encode :: "byte list \<Rightarrow> ustring" where
  "hex_encode bytes = concat (map (\<lambda>b. [hex_digit (drop_bit 4 b), hex_digit (b AND 0x0F)]) bytes)"

definition state_hex_field :: "byte list \<Rightarrow> ustring" where
  "state_hex_field bytes = (if bytes = [] then lit ''-'' else hex_encode bytes)"

definition hex_value :: "byte \<Rightarrow> byte sres" where
  "hex_value b =
     (if 0x30 \<le> b \<and> b \<le> 0x39 then Inr (b - 0x30)
      else if 0x61 \<le> b \<and> b \<le> 0x66 then Inr (b - 0x61 + 10)
      else if 0x41 \<le> b \<and> b \<le> 0x46 then Inr (b - 0x41 + 10)
      else Inl StateHexDigit)"

fun hex_pairs :: "byte list \<Rightarrow> byte list sres" where
  \<comment> \<open>the loop over \<open>bytes.chunks_exact(2)\<close>\<close>
  "hex_pairs (h # l # bs) =
     bind_res (hex_value h) (\<lambda>high.
     bind_res (hex_value l) (\<lambda>low.
     bind_res (hex_pairs bs) (\<lambda>rest. Inr ((push_bit 4 high OR low) # rest))))"
| "hex_pairs _ = Inr []"

definition hex_decode :: "ustring \<Rightarrow> byte list sres" where
  "hex_decode encoded =
     (let bytes = utf8_bytes encoded in
      if odd (length bytes) then Inl StateOddHex else hex_pairs bytes)"

definition decode_state_hex_field :: "ustring \<Rightarrow> byte list sres" where
  "decode_state_hex_field encoded = (if encoded = lit ''-'' then Inr [] else hex_decode encoded)"

definition utf8_field :: "byte list sres \<Rightarrow> ustring sres" where
  \<comment> \<open>\<open>String::from_utf8(..).map_err(..)\<close> on a decoded field\<close>
  "utf8_field r = bind_res r (\<lambda>bytes. ok_or StateUtf8 (from_utf8 bytes))"

fun be_u32s :: "byte list \<Rightarrow> u32 list" where
  \<comment> \<open>\<open>chunks_exact(4).map(u32::from_be_bytes)\<close>\<close>
  "be_u32s (a # b # c # d # bs) =
     (unat a * 2 ^ 24 + unat b * 2 ^ 16 + unat c * 2 ^ 8 + unat d) # be_u32s bs"
| "be_u32s _ = []"

definition u32_be_bytes :: "u32 \<Rightarrow> byte list" where
  "u32_be_bytes v = [of_nat (v div 2 ^ 24), of_nat (v div 2 ^ 16), of_nat (v div 2 ^ 8), of_nat v]"

definition decode_palette_rgba :: "ustring \<Rightarrow> u32 list sres" where
  "decode_palette_rgba encoded =
     bind_res (hex_decode encoded) (\<lambda>bytes.
       if length bytes mod 4 \<noteq> 0 then Inl StatePalette else Inr (be_u32s bytes))"

subsection \<open>Lines\<close>

definition strip_cr :: "ustring \<Rightarrow> ustring" where
  "strip_cr l = (if l \<noteq> [] \<and> last l = 13 then butlast l else l)"

definition str_lines :: "ustring \<Rightarrow> ustring list" where
  \<comment> \<open>\<open>str::lines\<close>: a carriage return is dropped only in front of a line feed\<close>
  "str_lines s =
     (let ps = split_on 10 s in map strip_cr (butlast ps) @ (if last ps = [] then [] else [last ps]))"

subsection \<open>Round trips\<close>

named_theorems state_fields

lemma number_fields [state_fields]:
  "n \<le> U64_MAX \<Longrightarrow> parse_state_u64 (dec_str n) = Inr n"
  "n \<le> U32_MAX \<Longrightarrow> parse_state_u32 (dec_str n) = Inr n"
  "n \<le> U64_MAX \<Longrightarrow> parse_state_usize (dec_str n) = Inr n"
  "- (2 ^ 63) \<le> i \<Longrightarrow> i < 2 ^ 63 \<Longrightarrow> parse_state_i64 (int_str i) = Inr i"
  by (simp_all add: parse_state_u64_def parse_state_u32_def parse_state_usize_def parse_state_i64_def
      parse_u64_dec_str parse_u32_dec_str parse_i64_int_str)

lemma enum_fields [state_fields]:
  "surface_kind_known k \<Longrightarrow> parse_state_surface_kind (int_str (surface_kind_code k)) = Inr k"
  "cursor_shape_known s \<Longrightarrow> parse_state_cursor_shape (int_str (cursor_shape_code s)) = Inr s"
  "row_semantic_prompt_known p \<Longrightarrow> parse_state_row_semantic_prompt (int_str (row_semantic_prompt_code p)) = Inr p"
  "cell_semantic_content_known c \<Longrightarrow>
     parse_state_cell_semantic_content (int_str (cell_semantic_content_code c)) = Inr c"
  "mouse_tracking_mode_known m \<Longrightarrow> parse_state_mouse_tracking_mode (int_str (mouse_tracking_mode_code m)) = Inr m"
  "mouse_format_known f \<Longrightarrow> parse_state_mouse_format (int_str (mouse_format_code f)) = Inr f"
  subgoal using surface_kind_code_range [of k] by (simp add: parse_state_surface_kind_def parse_state_i8_def parse_i8_int_str enum_simps Let_def)
  subgoal using cursor_shape_code_range [of s] by (simp add: parse_state_cursor_shape_def parse_state_i8_def parse_i8_int_str enum_simps Let_def)
  subgoal using row_semantic_prompt_code_range [of p] by (simp add: parse_state_row_semantic_prompt_def parse_state_i8_def parse_i8_int_str enum_simps Let_def)
  subgoal using cell_semantic_content_code_range [of c] by (simp add: parse_state_cell_semantic_content_def parse_state_i8_def parse_i8_int_str enum_simps Let_def)
  subgoal using mouse_tracking_mode_code_range [of m] by (simp add: parse_state_mouse_tracking_mode_def parse_state_i8_def parse_i8_int_str enum_simps Let_def)
  subgoal using mouse_format_code_range [of f] by (simp add: parse_state_mouse_format_def parse_state_i8_def parse_i8_int_str enum_simps Let_def)
  done

definition flag_str :: "bool \<Rightarrow> ustring" where
  \<comment> \<open>\<open>if flag { "1" } else { "0" }\<close>\<close>
  "flag_str b = (if b then lit ''1'' else lit ''0'')"

lemma flag_field [state_fields]: "parse_state_bool (flag_str b) = Inr b"
  by (simp add: parse_state_bool_def flag_str_def)

lemma nibble_cases:
  fixes b :: byte
  assumes "unat b < 16"
  shows "b \<in> of_nat ` set [0..<16]"
proof
  show "b = of_nat (unat b)" by simp
  show "unat b \<in> set [0..<16]" using assms by simp
qed

lemma hex_digit_value:
  assumes "unat b < 16"
  shows "hex_value (of_nat (hex_digit b)) = Inr b" and "hex_digit b < 0x80" and "32 < hex_digit b"
  using nibble_cases [OF assms] by (auto simp: hex_digit_def hex_value_def lit_def upt_conv_Cons)

lemma nibbles:
  fixes b :: byte
  shows "unat (drop_bit 4 b) < 16" and "unat (b AND 0x0F) < 16" and "push_bit 4 (drop_bit 4 b) OR (b AND 0x0F) = b"
proof -
  show "unat (drop_bit 4 b) < 16"
  proof -
    have "unat b < 2 ^ LENGTH(8)" by (rule unsigned_less)
    then show ?thesis by (simp add: drop_bit_eq_div unat_div)
  qed
  have mask: "b AND 0x0F = take_bit 4 b" by (simp add: take_bit_eq_mask mask_eq_exp_minus_1)
  show "unat (b AND 0x0F) < 16" unfolding mask by (simp add: take_bit_eq_mod unat_mod)
  show "push_bit 4 (drop_bit 4 b) OR (b AND 0x0F) = b"
    unfolding mask by (rule bit_word_eqI) (auto simp: bit_simps)
qed

lemma hex_encode_simps [simp]:
  "hex_encode [] = []"
  "hex_encode (b # bs) = hex_digit (drop_bit 4 b) # hex_digit (b AND 0x0F) # hex_encode bs"
  by (simp_all add: hex_encode_def)

lemma hex_encode_chars: "c \<in> set (hex_encode bs) \<Longrightarrow> 32 < c \<and> c < 0x80"
  by (induction bs) (auto simp: hex_digit_value nibbles)

lemma hex_round_trip [state_fields]: "hex_decode (hex_encode bs) = Inr bs"
proof -
  have ascii: "utf8_char (hex_digit b) = [of_nat (hex_digit b)]" if "unat b < 16" for b
    using hex_digit_value(2) [OF that] by (simp add: utf8_char_def)
  have "even (length (utf8_bytes (hex_encode bs)))" by (induction bs) (simp_all add: ascii nibbles)
  moreover have "hex_pairs (utf8_bytes (hex_encode bs)) = Inr bs"
    by (induction bs) (simp_all add: ascii nibbles hex_digit_value)
  ultimately show ?thesis by (simp add: hex_decode_def Let_def)
qed

lemma hex_encode_eq_Nil [simp]: "hex_encode bs = [] \<longleftrightarrow> bs = []"
  by (cases bs) simp_all

lemma hex_field_round_trip [state_fields]: "decode_state_hex_field (state_hex_field bs) = Inr bs"
proof (cases bs)
  case (Cons b bs')
  then have "hex_encode bs \<noteq> lit ''-''" by (simp add: lit_def)
  with Cons hex_round_trip [of bs] show ?thesis by (simp add: decode_state_hex_field_def state_hex_field_def)
qed (simp add: decode_state_hex_field_def state_hex_field_def)

lemma utf8_field_round_trip [state_fields]: "list_all scalar s \<Longrightarrow> utf8_field (Inr (utf8_bytes s)) = Inr s"
  by (simp add: utf8_field_def from_utf8_bytes)

lemma u32_be_round_trip: "v \<le> U32_MAX \<Longrightarrow> be_u32s (u32_be_bytes v @ bs) = v # be_u32s bs"
proof -
  assume "v \<le> U32_MAX"
  then have v: "v < 2 ^ 32" by (simp add: U32_MAX_def)
  have sum: "q24 * 2 ^ 24 + m16 * 2 ^ 16 + m8 * 2 ^ 8 + m = w"
    if "q16 = 256 * q24 + m16" "q8 = 256 * q16 + m8" "w = 256 * q8 + m" for q24 q16 q8 m16 m8 m w :: nat
    using that by simp
  have "v div 2 ^ 16 = 256 * (v div 2 ^ 24) + v div 2 ^ 16 mod 256"
    "v div 2 ^ 8 = 256 * (v div 2 ^ 16) + v div 2 ^ 8 mod 256" "v = 256 * (v div 2 ^ 8) + v mod 256"
    using div_mult2_eq [of v "2 ^ 16" 256] div_mult2_eq [of v "2 ^ 8" 256] by simp_all
  then have
    "v div 2 ^ 24 * 2 ^ 24 + v div 2 ^ 16 mod 256 * 2 ^ 16 + v div 2 ^ 8 mod 256 * 2 ^ 8 + v mod 256 = v"
    by (metis sum)
  then show ?thesis using v by (simp add: u32_be_bytes_def unat_of_nat)
qed

lemma palette_round_trip [state_fields]:
  assumes "\<forall>v \<in> set vs. v \<le> U32_MAX"
  shows "decode_palette_rgba (hex_encode (concat (map u32_be_bytes vs))) = Inr vs"
proof -
  have "be_u32s (concat (map u32_be_bytes vs)) = vs" using assms by (induction vs) (simp_all add: u32_be_round_trip)
  moreover have "length (concat (map u32_be_bytes vs)) = 4 * length vs"
    by (induction vs) (simp_all add: u32_be_bytes_def)
  ultimately show ?thesis by (simp add: decode_palette_rgba_def hex_round_trip)
qed

lemma str_lines_unlines:
  assumes "\<forall>l \<in> set ls. 10 \<notin> set l \<and> 13 \<notin> set l"
  shows "str_lines (concat (map (\<lambda>l. l @ [10]) ls)) = ls"
proof -
  have "split_on 10 (concat (map (\<lambda>l. l @ [10]) ls)) = ls @ [[]]"
    using assms by (induction ls) (simp_all add: split_on_append_sep)
  moreover have "strip_cr l = l" if "13 \<notin> set l" for l
    using that by (metis last_in_set strip_cr_def)
  then have "map strip_cr ls = ls" using assms by (simp add: map_idI)
  ultimately show ?thesis by (simp add: str_lines_def)
qed

lemma field_chars [simp]:
  "32 < c \<Longrightarrow> 32 \<notin> set [c]"
  "c \<in> set (dec_str n) \<Longrightarrow> 32 < c"
  using dec_str_digits [of c n] by (auto simp: is_digit_def)

end
