(* ===== verification/Messages.thy ===== *)
theory Messages
  imports Surface_Sync Key_Encoding
begin

text \<open>
  The other messages of the protocol as the receiver decodes them
  (\<open>crates/nmux-cli/src/local.rs\<close>): the workspace tree, input events, resize intents, presence,
  attach status, errors, scrollback requests and chunks, with the checks each decoder makes,
  and what the server forwards to a pane for an input event (\<open>InputSummary\<close>).

  For each kind of frame a round trip: decoding what \<open>Frames\<close> builds gives the summary of what
  was sent. For pasted text: what the pane receives contains the terminator of a bracketed
  paste at its end and nowhere else.
\<close>

subsection \<open>Validation of enums\<close>

definition validate_resize_policy :: "resize_policy \<Rightarrow> resize_policy cres" where
  "validate_resize_policy policy = (if resize_policy_known policy then Inr policy else Inl UnknownResizePolicy)"

definition validate_pane_kind :: "pane_kind \<Rightarrow> pane_kind cres" where
  "validate_pane_kind kind = (if pane_kind_known kind then Inr kind else Inl UnknownPaneKind)"

definition validate_split_axis :: "split_axis \<Rightarrow> split_axis cres" where
  "validate_split_axis axis = (if split_axis_known axis then Inr axis else Inl UnknownSplitAxis)"

definition validate_resize_reason :: "resize_reason \<Rightarrow> resize_reason cres" where
  "validate_resize_reason reason = (if resize_reason_known reason then Inr reason else Inl UnknownResizeReason)"

definition validate_error_code :: "error_code \<Rightarrow> error_code cres" where
  "validate_error_code code = (if error_code_known code then Inr code else Inl UnknownErrorCode)"

definition validate_attach_surface_state :: "attach_surface_state \<Rightarrow> attach_surface_state cres" where
  "validate_attach_surface_state state =
     (if attach_surface_state_known state then Inr state else Inl UnknownAttachSurfaceState)"

definition validate_presence_kind :: "presence_kind \<Rightarrow> presence_kind cres" where
  "validate_presence_kind kind = (if presence_kind_known kind then Inr kind else Inl UnknownPresenceKind)"

definition attach_mode_from_protocol :: "wire_attach_mode \<Rightarrow> attach_mode cres" where
  "attach_mode_from_protocol mode =
     (case mode of WireReadOnly \<Rightarrow> Inr AttachReadOnly | WireReadWrite \<Rightarrow> Inr AttachReadWrite
      | WireAttachCode _ \<Rightarrow> Inl UnknownAttachMode)"

lemmas validate_defs =
  validate_resize_policy_def validate_pane_kind_def validate_split_axis_def validate_resize_reason_def
  validate_error_code_def validate_attach_surface_state_def validate_presence_kind_def

lemma attach_mode_round_trip [simp]: "attach_mode_from_protocol (attach_mode_as_protocol m) = Inr m"
  by (cases m) (simp_all add: attach_mode_from_protocol_def attach_mode_as_protocol_def)

definition optional_string :: "ustring option \<Rightarrow> ustring option cres" where
  \<comment> \<open>\<open>field.map(|x| required_string(Some(x), ..)).transpose()?\<close>\<close>
  "optional_string v = (case v of None \<Rightarrow> Inr None | Some s \<Rightarrow> bind_res (required_string (Some s)) (\<lambda>s. Inr (Some s)))"

lemma optional_string_ok: "v \<noteq> Some [] \<Longrightarrow> optional_string v = Inr v"
  by (cases v) (auto simp: optional_string_def)

subsection \<open>The workspace tree\<close>

datatype workspace_pane_summary =
  WorkspacePaneSummary (wp_id: ustring) (wp_cols: u32) (wp_rows: u32) (wp_policy: resize_policy)
    (wp_axis: split_axis) (wp_children: "workspace_pane_summary list")

record workspace_tab_summary =
  wt_tab_id :: ustring
  wt_title :: ustring
  wt_active_pane_id :: ustring
  wt_root :: workspace_pane_summary

record workspace_summary =
  wk_session_id :: ustring
  wk_tab_id :: ustring
  wk_pane_id :: ustring
  wk_cols :: u32
  wk_rows :: u32
  wk_policy :: resize_policy
  wk_pane_tree :: "workspace_pane_summary option"
  wk_tabs :: "workspace_tab_summary list"

lemma each_res_cong [fundef_cong]:
  "xs = ys \<Longrightarrow> (\<And>x. x \<in> set ys \<Longrightarrow> f x = g x) \<Longrightarrow> each_res f xs = each_res g ys"
  by (induction xs arbitrary: ys) auto

lemma map_res_cong [fundef_cong]:
  "xs = ys \<Longrightarrow> (\<And>x. x \<in> set ys \<Longrightarrow> f x = g x) \<Longrightarrow> map_res f xs = map_res g ys"
  by (induction xs arbitrary: ys) auto

fun validate_pane_node :: "wire_pane_node \<Rightarrow> unit cres" where
  "validate_pane_node (WirePaneNode pid kind axis children ver cols rows policy) =
     bind_res (required_string pid) (\<lambda>_.
     bind_res (validate_pane_kind kind) (\<lambda>_.
     bind_res (validate_split_axis axis) (\<lambda>_.
     bind_res (validate_resize_policy policy) (\<lambda>_.
       case children of None \<Rightarrow> Inr () | Some cs \<Rightarrow> each_res validate_pane_node cs))))"

fun find_pane_node :: "wire_pane_node \<Rightarrow> ustring \<Rightarrow> wire_pane_node option" where
  "find_pane_node (WirePaneNode pid kind axis children ver cols rows policy) pane_id =
     (if pid = Some pane_id then Some (WirePaneNode pid kind axis children ver cols rows policy)
      else case children of None \<Rightarrow> None | Some cs \<Rightarrow> find_map (\<lambda>c. find_pane_node c pane_id) cs)"

fun workspace_pane_summary_from_node :: "wire_pane_node \<Rightarrow> workspace_pane_summary cres" where
  "workspace_pane_summary_from_node (WirePaneNode pid kind axis children ver cols rows policy) =
     bind_res (case children of None \<Rightarrow> Inr [] | Some cs \<Rightarrow> map_res workspace_pane_summary_from_node cs) (\<lambda>summaries.
     bind_res (required_string pid) (\<lambda>pane_id.
     bind_res (validate_resize_policy policy) (\<lambda>policy.
     bind_res (validate_split_axis axis) (\<lambda>axis.
       Inr (WorkspacePaneSummary pane_id cols rows policy axis summaries)))))"

definition workspace_tab_summary_from_tab :: "wire_tab \<Rightarrow> workspace_tab_summary cres" where
  \<comment> \<open>one iteration of the loop of \<open>workspace_summary_from_frame\<close>\<close>
  "workspace_tab_summary_from_tab t =
     bind_res (required_string (wtb_tab_id t)) (\<lambda>tab_id.
     bind_res (required_string (wtb_title t)) (\<lambda>title.
     bind_res (required_string (wtb_active_pane_id t)) (\<lambda>active.
     bind_res (ok_or WorkspaceWithoutRoot (wtb_root t)) (\<lambda>root.
     bind_res (validate_pane_node root) (\<lambda>_.
     bind_res (workspace_pane_summary_from_node root) (\<lambda>summary.
       Inr \<lparr>wt_tab_id = tab_id, wt_title = title, wt_active_pane_id = active, wt_root = summary\<rparr>))))))"

definition workspace_summary_from_frame :: "envelope \<Rightarrow> workspace_summary cres" where
  "workspace_summary_from_frame e =
     (case en_body e of
        BodyWorkspace w \<Rightarrow>
          bind_res (ok_or WorkspaceWithoutTabs (wws_tabs w)) (\<lambda>tabs.
          bind_res (required_string (wws_session_id w)) (\<lambda>session_id.
          bind_res (required_string (wws_active_tab_id w)) (\<lambda>active_tab_id.
          bind_res (map_res workspace_tab_summary_from_tab tabs) (\<lambda>tab_summaries.
          bind_res (ok_or WorkspaceActiveTabMissing (List.find (\<lambda>t. wtb_tab_id t = Some active_tab_id) tabs)) (\<lambda>tab.
          bind_res (required_string (wtb_active_pane_id tab)) (\<lambda>active_pane_id.
          bind_res (ok_or WorkspaceWithoutRoot (wtb_root tab)) (\<lambda>root.
          bind_res (ok_or WorkspaceActivePaneMissing (find_pane_node root active_pane_id)) (\<lambda>pane.
          bind_res (workspace_pane_summary_from_node root) (\<lambda>pane_tree.
          bind_res (required_string (wtb_tab_id tab)) (\<lambda>tab_id.
          bind_res (required_string (wpn_pane_id pane)) (\<lambda>pane_id.
          bind_res (validate_resize_policy (wpn_resize_policy pane)) (\<lambda>policy.
            Inr \<lparr>wk_session_id = session_id, wk_tab_id = tab_id, wk_pane_id = pane_id,
                 wk_cols = wpn_cols pane, wk_rows = wpn_rows pane, wk_policy = policy,
                 wk_pane_tree = Some pane_tree, wk_tabs = tab_summaries\<rparr>))))))))))))
      | _ \<Rightarrow> Inl UnexpectedBody)"

text \<open>What the client should see of a session.\<close>

fun pane_summary :: "pane \<Rightarrow> workspace_pane_summary" where
  "pane_summary (Pane d cs) =
     WorkspacePaneSummary (pn_id d) (pn_cols d) (pn_rows d) (pn_resize_policy d) (pn_split_axis d)
       (map pane_summary cs)"

definition tab_summary :: "tab \<Rightarrow> workspace_tab_summary" where
  "tab_summary t =
     \<lparr>wt_tab_id = tb_id t, wt_title = tb_title t, wt_active_pane_id = tb_active_pane_id t,
      wt_root = pane_summary (tb_root t)\<rparr>"

definition pane_named :: "pane_data \<Rightarrow> bool" where
  "pane_named d \<longleftrightarrow> pn_id d \<noteq> [] \<and> resize_policy_known (pn_resize_policy d) \<and> split_axis_known (pn_split_axis d)"

definition workspace_named :: "session \<Rightarrow> bool" where
  "workspace_named s \<longleftrightarrow> ss_id s \<noteq> [] \<and>
     (\<forall>t \<in> set (ss_tabs s). tb_id t \<noteq> [] \<and> tb_title t \<noteq> [] \<and> (\<forall>d \<in> set (pane_list (tb_root t)). pane_named d))"

lemma built_node_valid: "\<forall>d \<in> set (pane_list p). pane_named d \<Longrightarrow> validate_pane_node (build_pane_node p) = Inr ()"
  by (induction p) (auto simp: validate_defs pane_named_def each_res_Inr_iff)

lemma built_node_summary:
  "\<forall>d \<in> set (pane_list p). pane_named d \<Longrightarrow>
     workspace_pane_summary_from_node (build_pane_node p) = Inr (pane_summary p)"
proof (induction p)
  case (Pane d cs)
  then have "map_res workspace_pane_summary_from_node (map build_pane_node cs) = Inr (map pane_summary cs)"
    by (induction cs) auto
  with Pane.prems show ?case by (cases cs) (auto simp: validate_defs pane_named_def)
qed

lemma find_map_cong_map: "(\<And>c. c \<in> set cs \<Longrightarrow> f (h c) = map_option h (g c)) \<Longrightarrow>
    find_map f (map h cs) = map_option h (find_map g cs)"
  by (induction cs) (auto split: option.splits)

lemma built_node_find: "find_pane_node (build_pane_node p) k = map_option build_pane_node (pane_node p k)"
proof (induction p)
  case (Pane d cs)
  then have "find_map (\<lambda>c. find_pane_node c k) (map build_pane_node cs) =
      map_option build_pane_node (find_map (\<lambda>c. pane_node c k) cs)"
    by (intro find_map_cong_map) auto
  then show ?case by (cases cs) auto
qed

lemma built_tab_summary:
  "tb_id t \<noteq> [] \<Longrightarrow> tb_title t \<noteq> [] \<Longrightarrow> tb_active_pane_id t \<noteq> [] \<Longrightarrow>
     \<forall>d \<in> set (pane_list (tb_root t)). pane_named d \<Longrightarrow>
     workspace_tab_summary_from_tab
       \<lparr>wtb_tab_id = Some (tb_id t), wtb_title = Some (tb_title t), wtb_root = Some (build_pane_node (tb_root t)),
        wtb_active_pane_id = Some (tb_active_pane_id t)\<rparr> = Inr (tab_summary t)"
  by (simp add: workspace_tab_summary_from_tab_def built_node_valid built_node_summary tab_summary_def)

lemma pane_node_named: "pane_node p k = Some q \<Longrightarrow> \<forall>d \<in> set (pane_list p). pane_named d \<Longrightarrow>
    pn_id (pane_fields q) = k \<and> pane_named (pane_fields q)"
proof (induction p)
  case (Pane d cs)
  then show ?case by (auto split: if_splits dest!: find_map_SomeD)
qed

lemma built_node_fields:
  "wpn_pane_id (build_pane_node q) = Some (pn_id (pane_fields q))"
  "wpn_cols (build_pane_node q) = pn_cols (pane_fields q)" "wpn_rows (build_pane_node q) = pn_rows (pane_fields q)"
  "wpn_resize_policy (build_pane_node q) = pn_resize_policy (pane_fields q)"
  by (cases q; simp)+

lemma find_map_built:
  "(\<And>t. P (f t) = Q t) \<Longrightarrow> List.find P (map f ts) = map_option f (List.find Q ts)"
  by (induction ts) auto

lemma workspace_frame_decodes:
  assumes ok: "workspace_ok s" and named: "workspace_named s"
  shows "\<exists>t q. find_tab s (ss_active_tab_id s) = Some t \<and> pane_node (tb_root t) (tb_active_pane_id t) = Some q \<and>
    workspace_summary_from_frame (workspace_tree_frame s conn seq) =
      Inr \<lparr>wk_session_id = ss_id s, wk_tab_id = tb_id t, wk_pane_id = tb_active_pane_id t,
           wk_cols = pn_cols (pane_fields q), wk_rows = pn_rows (pane_fields q),
           wk_policy = pn_resize_policy (pane_fields q), wk_pane_tree = Some (pane_summary (tb_root t)),
           wk_tabs = map tab_summary (ss_tabs s)\<rparr>"
proof -
  let ?f = "\<lambda>t. \<lparr>wtb_tab_id = Some (tb_id t), wtb_title = Some (tb_title t),
                wtb_root = Some (build_pane_node (tb_root t)), wtb_active_pane_id = Some (tb_active_pane_id t)\<rparr>"
  obtain t where t: "find_tab s (ss_active_tab_id s) = Some t" using ok by (auto simp: workspace_ok_def)
  then have mem: "t \<in> set (ss_tabs s)" and tid: "tb_id t = ss_active_tab_id s"
    by (auto simp: find_tab_def find_Some_iff)
  have active: "pane_node (tb_root t') (tb_active_pane_id t') \<noteq> None" if "t' \<in> set (ss_tabs s)" for t'
    using ok that by (auto simp: workspace_ok_def tab_ok_def)
  have nm: "tb_id t' \<noteq> []" "tb_title t' \<noteq> []" "\<forall>d \<in> set (pane_list (tb_root t')). pane_named d"
    "tb_active_pane_id t' \<noteq> []" if mem': "t' \<in> set (ss_tabs s)" for t'
  proof -
    show *: "tb_id t' \<noteq> []" "tb_title t' \<noteq> []" "\<forall>d \<in> set (pane_list (tb_root t')). pane_named d"
      using named mem' by (auto simp: workspace_named_def)
    from active [OF mem'] *(3) show "tb_active_pane_id t' \<noteq> []"
      by (auto simp: pane_named_def dest!: pane_node_named)
  qed
  from active [OF mem] obtain q where q: "pane_node (tb_root t) (tb_active_pane_id t) = Some q" by blast
  note qn = pane_node_named [OF q nm(3) [OF mem]]
  have tabs: "map_res workspace_tab_summary_from_tab (map ?f (ss_tabs s)) = Inr (map tab_summary (ss_tabs s))"
  proof -
    have "workspace_tab_summary_from_tab (?f t') = Inr (tab_summary t')" if "t' \<in> set (ss_tabs s)" for t'
      using nm [OF that] by (intro built_tab_summary)
    then have "map_res workspace_tab_summary_from_tab (map ?f ts) = Inr (map tab_summary ts)"
      if "set ts \<subseteq> set (ss_tabs s)" for ts
      using that by (induction ts) simp_all
    then show ?thesis by simp
  qed
  have find: "List.find (\<lambda>x. wtb_tab_id x = Some (ss_active_tab_id s)) (map ?f (ss_tabs s)) = Some (?f t)"
    using t find_map_built [where P = "\<lambda>x. wtb_tab_id x = Some (ss_active_tab_id s)" and f = ?f
        and Q = "\<lambda>t. tb_id t = ss_active_tab_id s" and ts = "ss_tabs s"]
    by (simp add: find_tab_def)
  have "ss_active_tab_id s \<noteq> []" "ss_id s \<noteq> []" using nm(1) [OF mem] named by (auto simp: tid workspace_named_def)
  then have "workspace_summary_from_frame (workspace_tree_frame s conn seq) =
      Inr \<lparr>wk_session_id = ss_id s, wk_tab_id = tb_id t, wk_pane_id = tb_active_pane_id t,
           wk_cols = pn_cols (pane_fields q), wk_rows = pn_rows (pane_fields q),
           wk_policy = pn_resize_policy (pane_fields q), wk_pane_tree = Some (pane_summary (tb_root t)),
           wk_tabs = map tab_summary (ss_tabs s)\<rparr>"
    using nm [OF mem] qn q
    by (simp add: workspace_summary_from_frame_def workspace_tree_frame_def session_envelope_def tabs find
        built_node_find built_node_fields built_node_summary pane_named_def validate_defs)
  with t q show ?thesis by blast
qed

subsection \<open>Input events\<close>

record mouse_summary =
  mo_row :: u32
  mo_col :: u32
  mo_pixel_x :: "u32 option"
  mo_pixel_y :: "u32 option"
  mo_button :: mouse_button
  mo_action :: mouse_action
  mo_modifiers :: u32

record input_summary_parts =
  ip_bytes :: "byte list"
  ip_paste_text :: "ustring option"
  ip_key_name :: "ustring option"
  ip_key_modifiers :: u32
  ip_mouse :: "mouse_summary option"
  ip_requires_focus_reporting :: bool
  ip_requires_mouse_tracking :: bool

definition input_summary_parts_default :: input_summary_parts where
  "input_summary_parts_default =
     \<lparr>ip_bytes = [], ip_paste_text = None, ip_key_name = None, ip_key_modifiers = 0, ip_mouse = None,
      ip_requires_focus_reporting = False, ip_requires_mouse_tracking = False\<rparr>"

record input_summary =
  is_pane_id :: ustring
  is_actor_id :: ustring
  is_input_seq :: u64
  is_text :: ustring
  is_parts :: input_summary_parts
  \<comment> \<open>the remaining fields of \<open>InputSummary\<close> are those of the parts\<close>

definition validate_input_modifiers :: "u32 \<Rightarrow> u32 cres" where
  \<comment> \<open>\<open>modifiers & !0x0f != 0\<close>: a bit above the fourth\<close>
  "validate_input_modifiers modifiers =
     (if modifiers div 16 \<noteq> 0 then Inl (UnsupportedModifiers modifiers) else Inr modifiers)"

definition mouse_action_from_protocol :: "wire_mouse_action \<Rightarrow> mouse_action cres" where
  "mouse_action_from_protocol action =
     (case action of WirePress \<Rightarrow> Inr MousePress | WireRelease \<Rightarrow> Inr MouseRelease | WireMotion \<Rightarrow> Inr MouseMotion
      | WireActionCode _ \<Rightarrow> Inl UnknownMouseAction)"

definition mouse_button_from_protocol :: "wire_mouse_button \<Rightarrow> mouse_button cres" where
  "mouse_button_from_protocol button =
     (case button of
        WireButtonNone \<Rightarrow> Inr ButtonNone | WireButtonLeft \<Rightarrow> Inr ButtonLeft | WireButtonMiddle \<Rightarrow> Inr ButtonMiddle
      | WireButtonRight \<Rightarrow> Inr ButtonRight | WireWheelUp \<Rightarrow> Inr ButtonWheelUp | WireWheelDown \<Rightarrow> Inr ButtonWheelDown
      | WireButtonCode _ \<Rightarrow> Inl UnknownMouseButton)"

definition input_parts :: "wire_input \<Rightarrow> input_summary_parts cres" where
  \<comment> \<open>the \<open>match input.kind()\<close> of \<open>input_summary_from_frame\<close>\<close>
  "input_parts i =
     (case wi_kind i of
        InKey \<Rightarrow>
          bind_res (ok_or MissingInput (wi_key i)) (\<lambda>key.
          bind_res (validate_input_modifiers (wk_modifiers key)) (\<lambda>modifiers.
            Inr (input_summary_parts_default
              \<lparr>ip_bytes := utf8_bytes (unwrap_string (wk_text key)), ip_key_name := wk_key_name key,
               ip_key_modifiers := modifiers\<rparr>)))
      | InRawBytes \<Rightarrow>
          bind_res (ok_or MissingInput (wi_raw i)) (\<lambda>raw.
            Inr (input_summary_parts_default\<lparr>ip_bytes := unwrap_list raw\<rparr>))
      | InPaste \<Rightarrow>
          bind_res (ok_or MissingInput (wi_paste i)) (\<lambda>paste.
            let paste_text = unwrap_string (wpa_text paste) in
            Inr (input_summary_parts_default
              \<lparr>ip_bytes := utf8_bytes paste_text, ip_paste_text := Some paste_text\<rparr>))
      | InFocus \<Rightarrow>
          bind_res (ok_or MissingInput (wi_focus i)) (\<lambda>focused.
            Inr (input_summary_parts_default
              \<lparr>ip_bytes := (if focused then esc ''[I'' else esc ''[O''), ip_requires_focus_reporting := True\<rparr>))
      | InMouse \<Rightarrow>
          bind_res (ok_or MissingInput (wi_mouse i)) (\<lambda>mouse.
          bind_res (mouse_button_from_protocol (wmo_button mouse)) (\<lambda>button.
          bind_res (mouse_action_from_protocol (wmo_action mouse)) (\<lambda>action.
          bind_res (validate_input_modifiers (wmo_modifiers mouse)) (\<lambda>modifiers.
            Inr (input_summary_parts_default
              \<lparr>ip_mouse := Some
                 \<lparr>mo_row = wmo_row mouse, mo_col = wmo_col mouse,
                  mo_pixel_x = (if wmo_has_pixels mouse then Some (wmo_pixel_x mouse) else None),
                  mo_pixel_y = (if wmo_has_pixels mouse then Some (wmo_pixel_y mouse) else None),
                  mo_button = button, mo_action = action, mo_modifiers = modifiers\<rparr>,
               ip_requires_mouse_tracking := True\<rparr>)))))
      | InCode _ \<Rightarrow> Inl UnknownInputKind)"

definition input_summary_from_frame :: "envelope \<Rightarrow> input_summary cres" where
  "input_summary_from_frame e =
     (case en_body e of
        BodyInput i \<Rightarrow>
          bind_res (input_parts i) (\<lambda>parts.
          bind_res (required_string (wi_pane_id i)) (\<lambda>pane_id.
          bind_res (required_string (wi_actor_id i)) (\<lambda>actor_id.
            Inr \<lparr>is_pane_id = pane_id, is_actor_id = actor_id, is_input_seq = wi_input_seq i,
                 is_text = utf8_lossy (ip_bytes parts), is_parts = parts\<rparr>)))
      | _ \<Rightarrow> Inl UnexpectedBody)"

definition summary_for :: "input_context \<Rightarrow> input_summary_parts \<Rightarrow> input_summary" where
  "summary_for c parts =
     \<lparr>is_pane_id = ic_pane_id c, is_actor_id = ic_actor_id c, is_input_seq = ic_input_seq c,
      is_text = utf8_lossy (ip_bytes parts), is_parts = parts\<rparr>"

lemma input_frame_decodes:
  assumes "ic_pane_id c \<noteq> []" and "ic_actor_id c \<noteq> []"
    and "wi_pane_id i = Some (ic_pane_id c)" and "wi_actor_id i = Some (ic_actor_id c)"
    and "wi_input_seq i = ic_input_seq c" and "input_parts i = Inr parts"
  shows "input_summary_from_frame (input_frame s c i) = Inr (summary_for c parts)"
  using assms by (simp add: input_summary_from_frame_def input_frame_def session_envelope_def summary_for_def)

lemma input_frames_decode:
  assumes c: "ic_pane_id c \<noteq> []" "ic_actor_id c \<noteq> []"
  shows "input_summary_from_frame (key_input_frame s c t) =
      Inr (summary_for c (input_summary_parts_default\<lparr>ip_bytes := utf8_bytes t\<rparr>))"
    and "m < 16 \<Longrightarrow> input_summary_from_frame (named_key_input_frame_with_modifiers s c k m) =
      Inr (summary_for c (input_summary_parts_default\<lparr>ip_key_name := Some k, ip_key_modifiers := m\<rparr>))"
    and "input_summary_from_frame (raw_input_frame s c bs) =
      Inr (summary_for c (input_summary_parts_default\<lparr>ip_bytes := bs\<rparr>))"
    and "input_summary_from_frame (paste_input_frame s c t b) =
      Inr (summary_for c (input_summary_parts_default\<lparr>ip_bytes := utf8_bytes t, ip_paste_text := Some t\<rparr>))"
    and "input_summary_from_frame (focus_input_frame s c f) =
      Inr (summary_for c (input_summary_parts_default
        \<lparr>ip_bytes := (if f then esc ''[I'' else esc ''[O''), ip_requires_focus_reporting := True\<rparr>))"
  unfolding key_input_frame_def named_key_input_frame_with_modifiers_def raw_input_frame_def paste_input_frame_def
    focus_input_frame_def
  by (rule input_frame_decodes [OF c];
      simp add: input_event_def input_parts_def unwrap_string_def unwrap_list_def validate_input_modifiers_def
        input_summary_parts_default_def Let_def)+

fun mouse_button_as_protocol :: "mouse_button \<Rightarrow> wire_mouse_button" where
  "mouse_button_as_protocol ButtonNone = WireButtonNone"
| "mouse_button_as_protocol ButtonLeft = WireButtonLeft"
| "mouse_button_as_protocol ButtonMiddle = WireButtonMiddle"
| "mouse_button_as_protocol ButtonRight = WireButtonRight"
| "mouse_button_as_protocol ButtonWheelUp = WireWheelUp"
| "mouse_button_as_protocol ButtonWheelDown = WireWheelDown"

fun mouse_action_as_protocol :: "mouse_action \<Rightarrow> wire_mouse_action" where
  "mouse_action_as_protocol MousePress = WirePress"
| "mouse_action_as_protocol MouseRelease = WireRelease"
| "mouse_action_as_protocol MouseMotion = WireMotion"

lemma mouse_enums_round_trip [simp]:
  "mouse_button_from_protocol (mouse_button_as_protocol b) = Inr b"
  "mouse_action_from_protocol (mouse_action_as_protocol a) = Inr a"
  by (cases b; simp add: mouse_button_from_protocol_def) (cases a; simp add: mouse_action_from_protocol_def)

definition mouse_spec_of :: "mouse_summary \<Rightarrow> mouse_input_spec" where
  "mouse_spec_of m =
     \<lparr>ms_row = mo_row m, ms_col = mo_col m, ms_pixel_x = mo_pixel_x m, ms_pixel_y = mo_pixel_y m,
      ms_button = mouse_button_as_protocol (mo_button m), ms_action = mouse_action_as_protocol (mo_action m),
      ms_modifiers = mo_modifiers m\<rparr>"

lemma mouse_frame_decodes:
  assumes c: "ic_pane_id c \<noteq> []" "ic_actor_id c \<noteq> []"
    and m: "mo_modifiers m < 16" and px: "mo_pixel_x m = None \<longleftrightarrow> mo_pixel_y m = None"
  shows "input_summary_from_frame (mouse_input_frame s c (mouse_spec_of m)) =
    Inr (summary_for c (input_summary_parts_default\<lparr>ip_mouse := Some m, ip_requires_mouse_tracking := True\<rparr>))"
proof -
  have "input_parts ((input_event c InMouse)\<lparr>wi_mouse := Some
      \<lparr>wmo_row = ms_row (mouse_spec_of m), wmo_col = ms_col (mouse_spec_of m), wmo_button = ms_button (mouse_spec_of m),
       wmo_modifiers = ms_modifiers (mouse_spec_of m), wmo_action = ms_action (mouse_spec_of m),
       wmo_has_pixels = (ms_pixel_x (mouse_spec_of m) \<noteq> None \<and> ms_pixel_y (mouse_spec_of m) \<noteq> None),
       wmo_pixel_x = unwrap_or_default (ms_pixel_x (mouse_spec_of m)),
       wmo_pixel_y = unwrap_or_default (ms_pixel_y (mouse_spec_of m))\<rparr>\<rparr>) =
    Inr (input_summary_parts_default\<lparr>ip_mouse := Some m, ip_requires_mouse_tracking := True\<rparr>)"
    using m px
    by (cases "mo_pixel_x m"; cases "mo_pixel_y m")
      (auto simp: input_parts_def input_event_def mouse_spec_of_def validate_input_modifiers_def
        unwrap_or_default_def input_summary_parts_default_def intro: mouse_summary.equality)
  then show ?thesis
    unfolding mouse_input_frame_def by (intro input_frame_decodes [OF c]) (simp_all add: input_event_def)
qed

subsection \<open>What is forwarded to the pane\<close>

definition contains :: "'a list \<Rightarrow> 'a list \<Rightarrow> bool" where
  \<comment> \<open>\<open>str::contains\<close>\<close>
  "contains hay needle \<longleftrightarrow> list_ex (\<lambda>k. take (length needle) (drop k hay) = needle) [0..<length hay + 1]"

definition paste_terminator :: ustring where "paste_terminator = 27 # lit ''[201~''"

definition paste_input_bytes :: "ustring \<Rightarrow> bool \<Rightarrow> byte list cres" where
  \<comment> \<open>\<open>BracketedPasteMode\<close> is its \<open>Enabled\<close> flag\<close>
  "paste_input_bytes t bracketed =
     (if contains t paste_terminator then Inl PasteContainsTerminator
      else if \<not> bracketed then Inr (utf8_bytes t)
      else Inr (esc ''[200~'' @ utf8_bytes t @ esc ''[201~''))"

datatype input_rejection =
  FocusReportingDisabled
| MouseTrackingDisabled
| MouseCoordinatesOutOfBounds
| MouseActionRejected mouse_tracking_mode

definition mouse_input_allowed :: "mouse_tracking_mode \<Rightarrow> mouse_summary \<Rightarrow> bool" where
  "mouse_input_allowed mode mouse =
     (case mode of
        TrackNone \<Rightarrow> False
      | TrackX10 \<Rightarrow> mo_action mouse = MousePress
      | TrackNormal \<Rightarrow> mo_action mouse = MousePress \<or> mo_action mouse = MouseRelease
      | TrackButton \<Rightarrow>
          (case mo_action mouse of
             MousePress \<Rightarrow> True | MouseRelease \<Rightarrow> True | MouseMotion \<Rightarrow> mo_button mouse \<noteq> ButtonNone)
      | TrackAny \<Rightarrow> True
      | TrackCode _ \<Rightarrow> False)"

definition mouse_forwarding_rejection :: "input_summary \<Rightarrow> session \<Rightarrow> input_rejection option" where
  "mouse_forwarding_rejection i s =
     (case ip_mouse (is_parts i) of
        None \<Rightarrow> if pane_mouse_tracking s (is_pane_id i) then None else Some MouseTrackingDisabled
      | Some mouse \<Rightarrow>
          (case pane_mouse_tracking_mode s (is_pane_id i) of
             None \<Rightarrow> Some MouseTrackingDisabled
           | Some mode \<Rightarrow>
               if mode = TrackNone then Some MouseTrackingDisabled
               else (case pane_size s (is_pane_id i) of
                       None \<Rightarrow> None
                     | Some (cols, rows) \<Rightarrow>
                         if rows \<le> mo_row mouse \<or> cols \<le> mo_col mouse then Some MouseCoordinatesOutOfBounds
                         else if mouse_input_allowed mode mouse then None
                         else Some (MouseActionRejected mode))))"

definition forwarding_rejection :: "input_summary \<Rightarrow> session \<Rightarrow> input_rejection option" where
  "forwarding_rejection i s =
     (if ip_requires_focus_reporting (is_parts i) \<and> \<not> pane_focus_reporting s (is_pane_id i)
      then Some FocusReportingDisabled
      else if ip_requires_mouse_tracking (is_parts i) then mouse_forwarding_rejection i s
      else None)"

definition forwarded_bytes ::
  "'e terminal_engine \<Rightarrow> input_summary \<Rightarrow> session \<Rightarrow> 'e pane_engines \<Rightarrow> 'e pane_engines \<times> byte list cres" where
  "forwarded_bytes ops i s engines =
     (let pane_id = is_pane_id i; parts = is_parts i; engine = engine_mut ops engines pane_id in
      case ip_key_name parts of
        Some key_name \<Rightarrow>
          (let application_keypad = pane_application_keypad s pane_id;
               application_cursor = pane_application_cursor s pane_id
           in case te_encode_key_input ops engine
                  \<lparr>ki_key_name = key_name, ki_modifiers = ip_key_modifiers parts,
                   ki_application_keypad = application_keypad, ki_application_cursor = application_cursor\<rparr> of
                (engine', out) \<Rightarrow>
                  (engine_put engines pane_id engine',
                   (case out of
                      Some bytes \<Rightarrow> Inr bytes
                    | None \<Rightarrow>
                        if ip_key_modifiers parts \<noteq> 0
                        then ok_or UnsupportedModifiedKeyName
                               (modified_named_key_bytes key_name (ip_key_modifiers parts))
                        else ok_or UnsupportedKeyName
                               (named_key_bytes key_name application_keypad application_cursor))))
      | None \<Rightarrow>
      case ip_mouse parts of
        Some mouse \<Rightarrow>
          (case (pane_size s pane_id, pane_mouse_format s pane_id) of
             (Some (cols, rows), Some format) \<Rightarrow>
               (let input = \<lparr>mi_row = mo_row mouse, mi_col = mo_col mouse, mi_pixel_x = mo_pixel_x mouse,
                             mi_pixel_y = mo_pixel_y mouse, mi_button = mo_button mouse,
                             mi_action = mo_action mouse, mi_modifiers = mo_modifiers mouse,
                             mi_mouse_format = format, mi_cols = cols, mi_rows = rows\<rparr>
                in case te_encode_mouse_input ops engine input of
                     (engine', out) \<Rightarrow>
                       (engine_put engines pane_id engine',
                        ok_or MouseNotEncodable
                          (case out of Some bytes \<Rightarrow> Some bytes | None \<Rightarrow> encode_sgr_mouse_input input)))
           | _ \<Rightarrow> (engines, Inl MousePaneMissing))
      | None \<Rightarrow>
      case ip_paste_text parts of
        Some paste_text \<Rightarrow> (engines, paste_input_bytes paste_text (pane_bracketed_paste s pane_id))
      | None \<Rightarrow> (engines, Inr (ip_bytes parts)))"

subsection \<open>A paste ends where it ends\<close>

lemma contains_iff: "contains hay needle \<longleftrightarrow> (\<exists>x y. hay = x @ needle @ y)"
proof
  assume "contains hay needle"
  then obtain k where k: "k \<le> length hay" "take (length needle) (drop k hay) = needle"
    unfolding contains_def list_ex_iff by (metis Suc_eq_plus1 atLeastLessThan_upt atLeastLessThan_iff less_Suc_eq_le)
  have "hay = take k hay @ take (length needle) (drop k hay) @ drop (length needle) (drop k hay)"
    by (simp only: append_take_drop_id)
  with k show "\<exists>x y. hay = x @ needle @ y" by metis
next
  assume "\<exists>x y. hay = x @ needle @ y"
  then obtain x y where "hay = x @ needle @ y" by blast
  then show "contains hay needle"
    by (auto simp: contains_def list_ex_iff intro!: bexI [of _ "length x"])
qed

lemma utf8_char_tail: "b \<in> set (tl (utf8_char c)) \<Longrightarrow> 0x80 \<le> unat b"
proof -
  assume "b \<in> set (tl (utf8_char c))"
  then obtain k where "k < 64" "b = of_nat (0x80 + k)"
    unfolding utf8_char_def by (auto simp del: of_nat_add split: if_splits) (metis mod_less_divisor zero_less_numeral)+
  then show ?thesis by (simp add: unat_of_nat_byte del: of_nat_add)
qed

lemma utf8_char_head:
  assumes "scalar c" shows "unat (hd (utf8_char c)) < 0x80 \<Longrightarrow> c < 0x80"
proof (rule ccontr)
  assume h: "unat (hd (utf8_char c)) < 0x80" and c: "\<not> c < 0x80"
  have "c < 0x110000" using assms by (auto simp: scalar_def)
  then have lt: "c < 0x800 \<Longrightarrow> 0xC0 + c div 64 < 256" "c < 0x10000 \<Longrightarrow> 0xE0 + c div 4096 < 256"
    "0xF0 + c div 262144 < 256" by arith+
  show False
    using h c lt unfolding utf8_char_def by (auto simp: unat_of_nat_byte simp del: of_nat_add split: if_splits)
qed

lemma utf8_ascii_prefix:
  assumes "list_all (\<lambda>c. c < 0x80) v" and "list_all scalar w" and "utf8_bytes w = utf8_bytes v @ Y"
  shows "\<exists>y. w = v @ y \<and> Y = utf8_bytes y"
  using assms
proof (induction v arbitrary: w)
  case (Cons a v)
  have a: "utf8_char a = [of_nat a]" "a < 0x80" using Cons.prems(1) by (simp_all add: utf8_char_def)
  from Cons.prems(3) obtain c w' where w: "w = c # w'" by (cases w) (auto simp: a)
  have "hd (utf8_char c @ utf8_bytes w') = of_nat a" using Cons.prems(3) by (simp add: w a)
  then have hd: "hd (utf8_char c) = of_nat a" by simp
  then have "unat (hd (utf8_char c)) < 0x80" using a(2) by (simp add: unat_of_nat_byte)
  then have c: "c < 0x80" using Cons.prems(2) utf8_char_head by (simp add: w)
  then have "utf8_char c = [of_nat c]" by (simp add: utf8_char_def)
  with hd c a have "c = a" by (simp add: of_nat_byte_eq)
  with Cons.IH [of w'] Cons.prems show ?case by (simp add: w)
qed simp

lemma utf8_ascii_infix:
  assumes v: "list_all (\<lambda>c. c < 0x80) v" "v \<noteq> []" and "list_all scalar w"
    and "utf8_bytes w = X @ utf8_bytes v @ Y"
  shows "\<exists>x y. w = x @ v @ y \<and> X = utf8_bytes x \<and> Y = utf8_bytes y"
  using assms(3,4)
proof (induction w arbitrary: X)
  case Nil
  then show ?case using v by (cases v) auto
next
  case (Cons c w)
  show ?case
  proof (cases "X = []")
    case True
    with utf8_ascii_prefix [OF v(1) Cons.prems(1)] Cons.prems(2) show ?thesis
      by (metis append_Nil utf8_bytes_simps(1))
  next
    case False
    from Cons.prems(2) have "utf8_char c @ utf8_bytes w = X @ (utf8_bytes v @ Y)" by simp
    then consider us where "utf8_char c = X @ us" "us @ utf8_bytes w = utf8_bytes v @ Y"
      | us where "X = utf8_char c @ us" "utf8_bytes w = us @ utf8_bytes v @ Y"
      by (auto simp: append_eq_append_conv2)
    then show ?thesis
    proof cases
      case 1
      show ?thesis
      proof (cases "us = []")
        case True
        with 1(2) utf8_ascii_prefix [OF v(1), of w Y] Cons.prems(1) obtain y
          where y: "w = v @ y" "Y = utf8_bytes y" by auto
        from 1(1) True have "X = utf8_bytes [c]" by simp
        with y show ?thesis by (metis append_Cons append_Nil)
      next
        case nonempty: False
        obtain a v' where a: "v = a # v'" "a < 0x80" using v by (cases v) auto
        have "hd us = of_nat a" using 1(2) nonempty by (cases us) (auto simp: a utf8_char_def)
        moreover have "hd us \<in> set (tl (utf8_char c))"
          using 1(1) False nonempty by (cases X; cases us) auto
        ultimately show ?thesis using utf8_char_tail a(2) by (fastforce simp: unat_of_nat_byte)
      qed
    next
      case 2
      from Cons.IH [OF _ 2(2)] Cons.prems(1) obtain x y where "w = x @ v @ y" "us = utf8_bytes x" "Y = utf8_bytes y"
        by auto
      with 2(1) show ?thesis by (intro exI [of _ "c # x"] exI [of _ y]) simp
    qed
  qed
qed

lemma paste_frame_unique:
  assumes "\<not> contains t paste_terminator"
    and eq: "(27 # lit ''[200~'') @ t @ paste_terminator = x @ paste_terminator @ y"
  shows "y = []"
proof (rule ccontr)
  assume y: "y \<noteq> []"
  let ?G = "27 # lit ''[200~'' :: ustring" and ?V = paste_terminator
  have esc_once: "27 \<notin> set (lit ''[200~'')" "27 \<notin> set (lit ''[201~'')" by (simp_all add: lit_def)
  from eq have "(?G @ t) @ ?V = x @ (?V @ y)" by simp
  from this [unfolded append_eq_append_conv2 [of "?G @ t"]]
  consider r where "x = (?G @ t) @ r" "?V = r @ ?V @ y" | r where "?G @ t = x @ r" "r @ ?V = ?V @ y"
    by (metis append.assoc)
  then show False
  proof cases
    case 1
    from arg_cong [OF 1(2), of length] y show ?thesis by simp
  next
    case 2
    from 2(2) have "r \<noteq> []" using y by (auto dest: arg_cong [of _ _ length])
    from 2(2) obtain us where "r = ?V @ us \<or> r @ us = ?V \<and> ?V = us @ y" by (auto simp: append_eq_append_conv2)
    then consider r' where "r = ?V @ r'" | r' where "?V = r @ r'" "?V = r' @ y" "r' \<noteq> []"
      by (metis append_Nil2)
    then show ?thesis
    proof cases
      case 1
      with 2(1) have all: "?G @ t = x @ ?V @ r'" by simp
      show ?thesis
      proof (cases x)
        case Nil
        with all show ?thesis by (simp add: paste_terminator_def lit_def)
      next
        case (Cons b x1)
        with all have "lit ''[200~'' @ t = x1 @ (?V @ r')" by simp
        then obtain us where "lit ''[200~'' = x1 @ us \<and> us @ t = ?V @ r' \<or> lit ''[200~'' @ us = x1 \<and> t = us @ ?V @ r'"
          unfolding append_eq_append_conv2 by blast
        then consider "lit ''[200~'' = x1 @ us" "us @ t = ?V @ r'" | "t = us @ ?V @ r'" by blast
        then show ?thesis
        proof cases
          case 1
          show ?thesis
          proof (cases us)
            case Nil
            with 1(2) have "t = [] @ ?V @ r'" by simp
            with assms(1) show ?thesis by (metis contains_iff)
          next
            case (Cons u us')
            with 1(2) have "27 \<in> set us" by (simp add: paste_terminator_def)
            with 1(1) esc_once(1) show ?thesis by simp
          qed
        next
          case 2
          with assms(1) show ?thesis by (auto simp: contains_iff)
        qed
      qed
    next
      case 2
      from 2(2,3) have "27 \<in> set r'" by (cases r') (auto simp: paste_terminator_def)
      moreover obtain r1 where "r = 27 # r1" using 2(1) \<open>r \<noteq> []\<close> by (cases r) (auto simp: paste_terminator_def)
      ultimately show ?thesis using 2(1) esc_once(2) by (auto simp: paste_terminator_def)
    qed
  qed
qed

lemma paste_ends_once:
  assumes "paste_input_bytes t True = Inr bs" and "list_all scalar t"
    and bs: "bs = X @ esc ''[201~'' @ Y"
  shows "Y = []" and "bs = esc ''[200~'' @ utf8_bytes t @ esc ''[201~''"
proof -
  have no: "\<not> contains t paste_terminator" and bs': "bs = esc ''[200~'' @ utf8_bytes t @ esc ''[201~''"
    using assms(1) by (auto simp: paste_input_bytes_def split: if_splits)
  show "bs = esc ''[200~'' @ utf8_bytes t @ esc ''[201~''" by (rule bs')
  have V: "utf8_bytes paste_terminator = esc ''[201~''" "utf8_bytes (27 # lit ''[200~'') = esc ''[200~''"
    by (simp_all add: paste_terminator_def esc_def ascii_def lit_def utf8_char_def)
  have "utf8_bytes ((27 # lit ''[200~'') @ t @ paste_terminator) = X @ utf8_bytes paste_terminator @ Y"
    using bs bs' by (simp only: utf8_bytes_simps(3) V)
  moreover have "list_all (\<lambda>c. c < 0x80) paste_terminator" "paste_terminator \<noteq> []"
    by (simp_all add: paste_terminator_def lit_def)
  moreover have "list_all scalar ((27 # lit ''[200~'') @ t @ paste_terminator)"
    using assms(2) by (simp add: paste_terminator_def lit_def scalar_def)
  ultimately obtain x y where "(27 # lit ''[200~'') @ t @ paste_terminator = x @ paste_terminator @ y" "Y = utf8_bytes y"
    using utf8_ascii_infix by blast
  with paste_frame_unique [OF no, of x y] show "Y = []" by auto
qed

subsection \<open>Resize, presence, status and error messages\<close>

record resize_intent_summary =
  rs_pane_id :: ustring
  rs_actor_id :: ustring
  rs_cols :: u32
  rs_rows :: u32
  rs_reason :: resize_reason

definition resize_intent_from_frame :: "envelope \<Rightarrow> resize_intent_summary cres" where
  "resize_intent_from_frame e =
     (case en_body e of
        BodyResize r \<Rightarrow>
          bind_res (required_string (wre_pane_id r)) (\<lambda>pane_id.
          bind_res (required_string (wre_actor_id r)) (\<lambda>actor_id.
          bind_res (validate_resize_reason (wre_reason r)) (\<lambda>reason.
            Inr \<lparr>rs_pane_id = pane_id, rs_actor_id = actor_id, rs_cols = wre_cols r, rs_rows = wre_rows r,
                 rs_reason = reason\<rparr>)))
      | _ \<Rightarrow> Inl UnexpectedBody)"

record presence_summary =
  pr_actor_id :: ustring
  pr_user_id :: ustring
  pr_display_name :: ustring
  pr_mode :: attach_mode
  pr_kind :: presence_kind
  pr_focused_pane_id :: "ustring option"

definition presence_from_frame :: "envelope \<Rightarrow> presence_summary cres" where
  "presence_from_frame e =
     (case en_body e of
        BodyPresence p \<Rightarrow>
          bind_res (validate_presence_kind (wp_kind p)) (\<lambda>kind.
          bind_res (optional_string (wp_focused_pane_id p)) (\<lambda>focused.
          bind_res (required_string (wp_actor_id p)) (\<lambda>actor_id.
          bind_res (required_string (wp_user_id p)) (\<lambda>user_id.
          bind_res (required_string (wp_display_name p)) (\<lambda>display_name.
          bind_res (attach_mode_from_protocol (wp_mode p)) (\<lambda>mode.
            Inr \<lparr>pr_actor_id = actor_id, pr_user_id = user_id, pr_display_name = display_name,
                 pr_mode = mode, pr_kind = kind, pr_focused_pane_id = focused\<rparr>))))))
      | _ \<Rightarrow> Inl UnexpectedBody)"

record attach_status_summary =
  as_pane_id :: ustring
  as_surface_version :: u64
  as_surface_state :: attach_surface_state

definition attach_status_from_frame :: "envelope \<Rightarrow> attach_status_summary cres" where
  "attach_status_from_frame e =
     (case en_body e of
        BodyAttachStatus a \<Rightarrow>
          bind_res (required_string (wst_pane_id a)) (\<lambda>pane_id.
          bind_res (validate_attach_surface_state (wst_surface_state a)) (\<lambda>state.
            Inr \<lparr>as_pane_id = pane_id, as_surface_version = wst_surface_version a, as_surface_state = state\<rparr>))
      | _ \<Rightarrow> Inl UnexpectedBody)"

record error_summary =
  er_code :: error_code
  er_message :: ustring
  er_retryable :: bool
  er_pane_id :: "ustring option"
  er_input_seq :: u64

definition error_summary_from_frame :: "envelope \<Rightarrow> error_summary cres" where
  "error_summary_from_frame e =
     (case en_body e of
        BodyError r \<Rightarrow>
          bind_res (optional_string (we_pane_id r)) (\<lambda>pane_id.
          bind_res (validate_error_code (we_code r)) (\<lambda>code.
          bind_res (required_string (we_message r)) (\<lambda>message.
            Inr \<lparr>er_code = code, er_message = message, er_retryable = we_retryable r, er_pane_id = pane_id,
                 er_input_seq = we_input_seq r\<rparr>)))
      | _ \<Rightarrow> Inl UnexpectedBody)"

lemma resize_frame_decodes:
  "pane_id \<noteq> [] \<Longrightarrow> actor_id \<noteq> [] \<Longrightarrow> resize_reason_known reason \<Longrightarrow>
     resize_intent_from_frame (resize_intent_frame s conn seq actor_id pane_id cols rows reason) =
       Inr \<lparr>rs_pane_id = pane_id, rs_actor_id = actor_id, rs_cols = cols, rs_rows = rows, rs_reason = reason\<rparr>"
  by (simp add: resize_intent_from_frame_def resize_intent_frame_def session_envelope_def validate_defs)

lemma presence_frame_decodes:
  "ac_id a \<noteq> [] \<Longrightarrow> ac_user_id a \<noteq> [] \<Longrightarrow> ac_display_name a \<noteq> [] \<Longrightarrow> ac_focused_pane_id a \<noteq> Some [] \<Longrightarrow>
     presence_from_frame (presence_update_frame s conn seq a) =
       Inr \<lparr>pr_actor_id = ac_id a, pr_user_id = ac_user_id a, pr_display_name = ac_display_name a,
            pr_mode = ac_mode a, pr_kind = PresenceJoined, pr_focused_pane_id = ac_focused_pane_id a\<rparr>"
  by (simp add: presence_from_frame_def presence_update_frame_def session_envelope_def validate_defs
      optional_string_ok)

lemma attach_status_frame_decodes:
  "pane_id \<noteq> [] \<Longrightarrow> attach_surface_state_known state \<Longrightarrow>
     attach_status_from_frame (attach_status_frame s conn seq pane_id state) =
       Inr \<lparr>as_pane_id = pane_id,
            as_surface_version = (case surface_version s pane_id of Some v \<Rightarrow> v | None \<Rightarrow> 0),
            as_surface_state = state\<rparr>"
  by (simp add: attach_status_from_frame_def attach_status_frame_def session_envelope_def validate_defs)

lemma error_frame_decodes:
  "error_code_known code \<Longrightarrow> message \<noteq> [] \<Longrightarrow> pane_id \<noteq> Some [] \<Longrightarrow>
     error_summary_from_frame (error_frame_with_context s conn seq code message retryable pane_id input_seq) =
       Inr \<lparr>er_code = code, er_message = message, er_retryable = retryable, er_pane_id = pane_id,
            er_input_seq = input_seq\<rparr>"
  by (simp add: error_summary_from_frame_def error_frame_with_context_def session_envelope_def validate_defs
      optional_string_ok)

subsection \<open>Scrollback\<close>

record scrollback_fetch_summary =
  sf_pane_id :: ustring
  sf_actor_id :: ustring
  sf_start_line :: u64
  sf_line_count :: u32
  sf_known_version :: u64

definition validate_scrollback_fetch_range :: "u64 \<Rightarrow> u32 \<Rightarrow> unit cres" where
  "validate_scrollback_fetch_range start_line line_count =
     (if start_line = 0 then Inl FetchStartLine else if line_count = 0 then Inl FetchLineCount else Inr ())"

definition scrollback_fetch_from_frame :: "envelope \<Rightarrow> scrollback_fetch_summary cres" where
  "scrollback_fetch_from_frame e =
     (case en_body e of
        BodyFetch f \<Rightarrow>
          bind_res (validate_scrollback_fetch_range (wf_start_line f) (wf_line_count f)) (\<lambda>_.
          bind_res (required_string (wf_pane_id f)) (\<lambda>pane_id.
          bind_res (required_string (wf_actor_id f)) (\<lambda>actor_id.
            Inr \<lparr>sf_pane_id = pane_id, sf_actor_id = actor_id, sf_start_line = wf_start_line f,
                 sf_line_count = wf_line_count f, sf_known_version = wf_known_version f\<rparr>)))
      | _ \<Rightarrow> Inl UnexpectedBody)"

record scrollback_line =
  sl_line :: u64
  sl_text :: ustring
  sl_runs :: "cell_run list"
  sl_dirty_hash :: "64 word"
  sl_row_state_hash :: "64 word"
  sl_semantic_prompt :: row_semantic_prompt
  sl_dirty :: bool
  sl_kitty :: bool

record scrollback_chunk_summary =
  sc_pane_id :: ustring
  sc_scrollback_version :: u64
  sc_start_line :: u64
  sc_total_lines :: u64
  sc_styles :: "pane_style list"
  sc_hyperlinks :: "hyperlink_summary list"
  sc_colors :: color_summary
  sc_lines :: "scrollback_line list"

definition validate_scrollback_row_public_range :: "u64 \<Rightarrow> u64 \<Rightarrow> nat \<Rightarrow> u64 \<Rightarrow> unit cres" where
  "validate_scrollback_row_public_range start_line total_lines index row_line =
     bind_res (ok_or ChunkRowOverflow (checked_add_u64 start_line index)) (\<lambda>expected.
       if row_line \<noteq> expected then Inl ChunkRowMismatch
       else if total_lines < row_line then Inl ChunkRowBeyondTotal
       else Inr ())"

definition scrollback_line_from_row ::
  "pane_style list \<Rightarrow> hyperlink_summary list \<Rightarrow> u64 \<Rightarrow> u64 \<Rightarrow> nat \<times> wire_row \<Rightarrow> scrollback_line cres" where
  \<comment> \<open>one iteration of the loop of \<open>scrollback_chunk_from_frame\<close>\<close>
  "scrollback_line_from_row styles hyperlinks start_line total_lines ir =
     (let row = snd ir; runs = (case wr_runs row of None \<Rightarrow> [] | Some rs \<Rightarrow> decoded_cell_runs rs) in
      bind_res (validate_row_semantic_prompt (wr_semantic_prompt row)) (\<lambda>_.
      bind_res (validate_cell_run_semantic_content runs) (\<lambda>_.
      bind_res (validate_cell_run_style_ids runs styles) (\<lambda>_.
      bind_res (validate_cell_run_hyperlink_ids runs hyperlinks) (\<lambda>_.
      bind_res (guard_res (wr_row row \<noteq> 0) ChunkRowLine) (\<lambda>_.
      bind_res (validate_scrollback_row_public_range start_line total_lines (fst ir) (wr_row row)) (\<lambda>_.
        Inr \<lparr>sl_line = wr_row row, sl_text = render_run_summaries runs, sl_runs = runs,
             sl_dirty_hash = wr_dirty_hash row, sl_row_state_hash = wr_row_state_hash row,
             sl_semantic_prompt = wr_semantic_prompt row, sl_dirty = wr_dirty row, sl_kitty = wr_kitty row\<rparr>)))))))"

definition scrollback_chunk_from_frame :: "envelope \<Rightarrow> scrollback_chunk_summary cres" where
  "scrollback_chunk_from_frame e =
     (case en_body e of
        BodyChunk c \<Rightarrow>
          (let styles = (case wck_styles c of None \<Rightarrow> [] | Some ss \<Rightarrow> decoded_styles ss) in
           bind_res (case wck_hyperlinks c of None \<Rightarrow> Inr [] | Some hs \<Rightarrow> decoded_hyperlinks hs) (\<lambda>hyperlinks.
           let colors = (case decoded_terminal_colors (wck_colors c) of
                           None \<Rightarrow> color_summary_default | Some c \<Rightarrow> c) in
           bind_res (guard_res (\<not> terminal_colors_have_palette_diff colors) ChunkCarriesPaletteDiff) (\<lambda>_.
           bind_res (ok_or MissingRows (wck_rows c)) (\<lambda>rows.
           bind_res (guard_res (wck_start_line c \<noteq> 0) ChunkStartLine) (\<lambda>_.
           bind_res (map_res (scrollback_line_from_row styles hyperlinks (wck_start_line c) (wck_total_lines c))
                       (enumerate 0 rows)) (\<lambda>lines.
           bind_res (required_string (wck_pane_id c)) (\<lambda>pane_id.
             Inr \<lparr>sc_pane_id = pane_id, sc_scrollback_version = wck_scrollback_version c,
                  sc_start_line = wck_start_line c, sc_total_lines = wck_total_lines c, sc_styles = styles,
                  sc_hyperlinks = hyperlinks, sc_colors = colors, sc_lines = lines\<rparr>)))))))
      | _ \<Rightarrow> Inl UnexpectedBody)"

lemma fetch_frame_decodes:
  "ic_pane_id c \<noteq> [] \<Longrightarrow> ic_actor_id c \<noteq> [] \<Longrightarrow> start \<noteq> 0 \<Longrightarrow> n \<noteq> 0 \<Longrightarrow>
     scrollback_fetch_from_frame (scrollback_fetch_frame s c start n v) =
       Inr \<lparr>sf_pane_id = ic_pane_id c, sf_actor_id = ic_actor_id c, sf_start_line = start, sf_line_count = n,
            sf_known_version = v\<rparr>"
  by (simp add: scrollback_fetch_from_frame_def scrollback_fetch_frame_def session_envelope_def
      validate_scrollback_fetch_range_def)

definition scrollback_sendable :: "pane_data \<Rightarrow> bool" where
  "scrollback_sendable p \<longleftrightarrow> pn_id p \<noteq> [] \<and> length (pn_scrollback_lines p) \<le> U64_MAX \<and>
     (\<forall>x \<in> set (pn_scrollback_semantic_prompts p). row_semantic_prompt_known x) \<and>
     (\<forall>runs \<in> set (pn_scrollback_row_runs p). runs_sendable (pn_styles p) runs)"

definition scrollback_line_of :: "pane_data \<Rightarrow> nat \<Rightarrow> scrollback_line" where
  \<comment> \<open>the line at index \<open>i\<close>, as the client should have it\<close>
  "scrollback_line_of p i =
     (let m = row_metadata_at (pn_scrollback_semantic_prompts p) (pn_scrollback_dirty_rows p) (pn_scrollback_kitty p) i
      in \<lparr>sl_line = Suc i, sl_text = pn_scrollback_lines p ! i, sl_runs = wire_runs (pn_scrollback_row_runs p ! i),
          sl_dirty_hash = stable_row_hash (pn_scrollback_lines p ! i),
          sl_row_state_hash = row_state_hash (pn_scrollback_row_runs p ! i) m,
          sl_semantic_prompt = pn_scrollback_semantic_prompts p ! i, sl_dirty = pn_scrollback_dirty_rows p ! i,
          sl_kitty = pn_scrollback_kitty p ! i\<rparr>)"

lemma scrollback_row_decodes:
  assumes ok: "scrollback_rows_ok p" and send: "scrollback_sendable p"
    and i: "start + j < length (pn_scrollback_lines p)" and start: "s0 = Suc start"
    and styles: "max (length styles) 1 = max (length (pn_styles p)) 1"
  shows "scrollback_line_from_row styles [] s0 (length (pn_scrollback_lines p))
      (j, build_wire_row (s0 + j) (pn_scrollback_lines p ! (start + j)) (pn_scrollback_row_runs p ! (start + j))
            (row_metadata_at (pn_scrollback_semantic_prompts p) (pn_scrollback_dirty_rows p)
               (pn_scrollback_kitty p) (start + j))) =
    Inr (scrollback_line_of p (start + j))"
proof -
  let ?i = "start + j"
  have len: "length (pn_scrollback_row_runs p) = length (pn_scrollback_lines p)"
    "length (pn_scrollback_semantic_prompts p) = length (pn_scrollback_lines p)"
    "length (pn_scrollback_dirty_rows p) = length (pn_scrollback_lines p)"
    "length (pn_scrollback_kitty p) = length (pn_scrollback_lines p)"
    using ok by (auto simp: scrollback_rows_ok_def dest: arg_cong [of _ _ length])
  have line: "pn_scrollback_lines p ! ?i = cell_runs_text (pn_scrollback_row_runs p ! ?i)"
    using ok i len by (metis nth_map scrollback_rows_ok_def)
  have runs: "runs_sendable (pn_styles p) (pn_scrollback_row_runs p ! ?i)"
    using send i len by (auto simp: scrollback_sendable_def)
  have prompt: "row_semantic_prompt_known (pn_scrollback_semantic_prompts p ! ?i)"
    using send i len by (auto simp: scrollback_sendable_def)
  have le: "Suc ?i \<le> U64_MAX" using send i by (simp add: scrollback_sendable_def)
  show ?thesis
    using i le prompt wire_runs_enums [OF runs] wire_runs_styles [OF runs styles] len
    by (simp add: scrollback_line_from_row_def build_wire_row_def Let_def decoded_build_runs wire_runs_hyperlinks
        validate_row_semantic_prompt_def validate_scrollback_row_public_range_def checked_add_u64_def start
        scrollback_line_of_def row_metadata_at_def get_or_in render_wire_runs line option_is_some_and_def)
qed

lemma map_res_map: "map_res f (map g xs) = map_res (\<lambda>x. f (g x)) xs"
  by (induction xs) auto

lemma map_upt_shift: "map (\<lambda>j. f (a + j)) [0..<b - a] = map f [a..<b]"
  by (rule nth_equalityI) (auto simp: nth_upt less_diff_conv add.commute)

lemma selected_range_enumerate:
  "enumerate 0 (selected_range a n xs) = map (\<lambda>j. (j, xs ! (a + j))) [0..<min (a + n) (length xs) - a]"
proof (rule nth_equalityI)
  show "length (enumerate 0 (selected_range a n xs)) =
      length (map (\<lambda>j. (j, xs ! (a + j))) [0..<min (a + n) (length xs) - a])"
    by (simp add: selected_range_def Let_def)
  fix i assume i: "i < length (enumerate 0 (selected_range a n xs))"
  then have "a + i < min (a + n) (length xs)"
    by (simp add: selected_range_def Let_def less_diff_conv add.commute split: if_splits)
  with i show "enumerate 0 (selected_range a n xs) ! i =
      map (\<lambda>j. (j, xs ! (a + j))) [0..<min (a + n) (length xs) - a] ! i"
    by (simp add: nth_enumerate_eq selected_range_def Let_def)
qed

lemma scrollback_chunk_decodes:
  assumes look: "session_pane_data s k = Some p" and ok: "scrollback_rows_ok p" and send: "scrollback_sendable p"
    and start: "0 < start" and n: "0 < n"
  shows "\<exists>e c. scrollback_chunk_frame_for_pane s conn seq k start n = Some e \<and>
    scrollback_chunk_from_frame e = Inr c \<and> sc_pane_id c = k \<and>
    sc_scrollback_version c = pn_scrollback_version p \<and> sc_start_line c = start \<and>
    sc_total_lines c = length (pn_scrollback_lines p) \<and>
    sc_lines c = map (scrollback_line_of p) [start - 1..<min (start - 1 + n) (length (pn_scrollback_lines p))]"
proof -
  obtain a where a: "start = Suc a" using start by (cases start) auto
  define b where "b = scrollback_of_pane p"
  have id: "pn_id p = k" using ws.look_key [OF look] .
  have rows: "pb_lines b = pn_scrollback_lines p" "pb_row_runs b = pn_scrollback_row_runs p"
    "pb_semantic_prompts b = pn_scrollback_semantic_prompts p" "pb_dirty_rows b = pn_scrollback_dirty_rows p"
    "pb_kitty b = pn_scrollback_kitty p" "pb_styles b = pn_styles p" "pb_pane_id b = k"
    "pb_version b = pn_scrollback_version p" "pb_colors b = pn_colors p"
    using scrollback_of_pane_rows [OF ok] id by (simp_all add: b_def scrollback_of_pane_def)
  let ?L = "pn_scrollback_lines p" and ?a = a
  let ?m = "min (?a + n) (length ?L) - ?a"
  let ?row = "\<lambda>j. build_wire_row (Suc (a + j)) (?L ! (?a + j)) (pn_scrollback_row_runs p ! (?a + j))
      (row_metadata_at (pn_scrollback_semantic_prompts p) (pn_scrollback_dirty_rows p) (pn_scrollback_kitty p) (?a + j))"
  have sel: "enumerate 0 (selected_range ?a n ?L) = map (\<lambda>j. (j, ?L ! (?a + j))) [0..<?m]"
    by (rule selected_range_enumerate)
  have wire: "map (\<lambda>(offset, line).
        let row_index = ?a + offset; line_runs = pn_scrollback_row_runs p ! row_index
        in build_wire_row (start + offset) line line_runs
             (row_metadata_at (pn_scrollback_semantic_prompts p) (pn_scrollback_dirty_rows p) (pn_scrollback_kitty p) row_index))
      (enumerate 0 (selected_range ?a n ?L)) = map ?row [0..<?m]"
    unfolding sel by (simp add: Let_def comp_def a)
  have enum: "enumerate 0 (map ?row [0..<?m]) = map (\<lambda>j. (j, ?row j)) [0..<?m]"
    by (rule nth_equalityI) (auto simp: nth_enumerate_eq)
  have dec: "map_res (scrollback_line_from_row (pn_styles p) [] start (length ?L)) (map (\<lambda>j. (j, ?row j)) [0..<?m]) =
      Inr (map (\<lambda>j. scrollback_line_of p (?a + j)) [0..<?m])"
    unfolding map_res_map
    using scrollback_row_decodes [OF ok send _ a refl] by (intro map_res_all_Inr) (auto simp: a)
  have shift: "map (\<lambda>j. scrollback_line_of p (?a + j)) [0..<?m] =
      map (scrollback_line_of p) [?a..<min (?a + n) (length ?L)]"
    by (rule map_upt_shift)
  let ?e = "session_envelope s conn seq (BodyChunk
      \<lparr>wck_pane_id = Some k, wck_scrollback_version = pn_scrollback_version p, wck_start_line = start,
       wck_total_lines = length ?L, wck_rows = Some (map ?row [0..<?m]), wck_styles = Some (pn_styles p),
       wck_colors = Some (build_terminal_colors (pn_colors p) None True), wck_hyperlinks = Some []\<rparr>)"
  have "scrollback_chunk_frame_for_pane s conn seq k start n = Some ?e"
    using n look wire
    by (simp add: scrollback_chunk_frame_for_pane_def pane_scrollback_def b_def [symmetric] rows Let_def a map_idI)
  moreover have "scrollback_chunk_from_frame ?e = Inr
      \<lparr>sc_pane_id = k, sc_scrollback_version = pn_scrollback_version p, sc_start_line = start,
       sc_total_lines = length ?L, sc_styles = pn_styles p, sc_hyperlinks = [],
       sc_colors = client_colors (pn_colors p),
       sc_lines = map (scrollback_line_of p) [?a..<min (?a + n) (length ?L)]\<rparr>"
    using a id send
    by (simp add: scrollback_chunk_from_frame_def session_envelope_def full_colors_decode enum dec [unfolded a] shift
        scrollback_sendable_def terminal_colors_have_palette_diff_def client_colors_def Let_def)
  ultimately show ?thesis by (simp add: a)
qed

end
