(* ===== verification/Client_State.thy ===== *)
theory Client_State
  imports State_File Messages
begin

text \<open>
  What a client keeps between runs: its copies of panes and the scrollback ranges it has seen, the scope
  they belong to, and the text file they are stored in
  (\<open>ClientAttachState\<close> of \<open>crates/nmux-cli/src/local/client_state.rs\<close>).

  \<open>encode\<close> writes one line per item; \<open>decode\<close> reads the lines of every version of the format. The
  body of a surface is read into a \<^typ>\<open>client_pane\<close>, whose fields are the local variables of the loop.
  The lemmas: a storable state is read back as it was written, rows never overflow the surface, a broken
  file is refused.
\<close>

record socket_identity =
  si_dev :: u64
  si_ino :: u64
  si_ctime :: int
  si_ctime_nsec :: int

record client_scrollback =
  cb_pane_id :: ustring
  cb_version :: u64
  cb_start_line :: u64
  cb_line_count :: u32
  cb_total_lines :: u64

record client_attach_state =
  ca_scope :: "socket_identity option"
  ca_surfaces :: "client_pane list"
  ca_scrollbacks :: "client_scrollback list"

definition client_attach_state_default :: client_attach_state where
  "client_attach_state_default = \<lparr>ca_scope = None, ca_surfaces = [], ca_scrollbacks = []\<rparr>"

subsection \<open>Writing\<close>

definition line_of :: "ustring list \<Rightarrow> ustring" where
  \<comment> \<open>fields separated by a space\<close>
  "line_of fs = join_with 32 fs"

definition encode_scope :: "socket_identity \<Rightarrow> ustring" where
  "encode_scope i = line_of [lit ''scope'', lit ''socket'', dec_str (si_dev i), dec_str (si_ino i),
     int_str (si_ctime i), int_str (si_ctime_nsec i)]"

definition encode_scrollback :: "client_scrollback \<Rightarrow> ustring" where
  "encode_scrollback b = line_of [lit ''scrollback'', hex_encode (utf8_bytes (cb_pane_id b)), dec_str (cb_version b),
     dec_str (cb_start_line b), dec_str (cb_line_count b), dec_str (cb_total_lines b)]"

definition encode_surface_line :: "client_pane \<Rightarrow> ustring" where
  "encode_surface_line c = line_of [lit ''surface'', hex_encode (utf8_bytes (cp_pane_id c)), dec_str (cp_version c),
     dec_str (cp_cols c), dec_str (cp_rows c), int_str (surface_kind_code (cp_surface c))]"

definition encode_cursor :: "cursor option \<Rightarrow> ustring" where
  "encode_cursor cur =
     (case cur of
        Some c \<Rightarrow> line_of [lit ''cursor'', dec_str (cu_row c), dec_str (cu_col c), flag_str (cu_visible c),
                    int_str (cursor_shape_code (cu_shape c)), flag_str (cu_blinking c)]
      | None \<Rightarrow> line_of [lit ''cursor'', lit ''none''])"

definition encode_modes :: "terminal_modes \<Rightarrow> ustring" where
  "encode_modes m = line_of [lit ''modes'', flag_str (tm_bracketed_paste m), flag_str (tm_mouse_tracking m),
     flag_str (tm_focus_reporting m), flag_str (tm_application_keypad m), flag_str (tm_application_cursor m),
     flag_str (tm_origin m), flag_str (tm_wraparound m), int_str (mouse_tracking_mode_code (tm_mouse_tracking_mode m)),
     int_str (mouse_format_code (tm_mouse_format m))]"

definition encode_colors :: "color_summary \<Rightarrow> ustring" where
  "encode_colors c = line_of [lit ''colors'', dec_str (cs_default_fg c), dec_str (cs_default_bg c),
     dec_str (cs_cursor c), flag_str (cs_cursor_set c), hex_encode (concat (map u32_be_bytes (cs_palette c)))]"

definition encode_style :: "pane_style \<Rightarrow> ustring" where
  "encode_style s = line_of [lit ''style'', dec_str (ps_fg s), dec_str (ps_bg s), dec_str (ps_underline s),
     dec_str (ps_flags s)]"

definition encode_hyperlink :: "hyperlink_summary \<Rightarrow> ustring" where
  "encode_hyperlink h = line_of [lit ''hyperlink'', dec_str (hl_id h), hex_encode (utf8_bytes (hl_uri h)),
     state_hex_field (utf8_bytes (hl_osc8_id h)), state_hex_field (utf8_bytes (hl_params h))]"

definition encode_row :: "nat \<Rightarrow> ustring \<Rightarrow> ustring" where
  "encode_row index row = line_of [lit ''row'', dec_str index, hex_encode (utf8_bytes row)]"

definition encode_rowmeta :: "client_pane \<Rightarrow> nat \<Rightarrow> ustring" where
  "encode_rowmeta c index = line_of [lit ''rowmeta'', dec_str index,
     int_str (row_semantic_prompt_code (cp_row_semantic_prompts c ! index)), flag_str (cp_row_dirty c ! index),
     flag_str (cp_row_kitty c ! index), dec_str (unat (cp_row_state_hashes c ! index)),
     dec_str (unat (cp_row_dirty_hashes c ! index))]"

definition encode_run :: "nat \<Rightarrow> cell_run \<Rightarrow> ustring" where
  "encode_run index run = line_of [lit ''run'', dec_str index, hex_encode (utf8_bytes (cr_text run)),
     hex_encode (cr_cell_widths run), dec_str (cr_style_id run), dec_str (cr_flags run), dec_str (cr_hyperlink_id run),
     int_str (cell_semantic_content_code (cr_semantic_content run))]"

definition encode_row_lines :: "client_pane \<Rightarrow> nat \<times> ustring \<Rightarrow> ustring list" where
  \<comment> \<open>one iteration of the loop over \<open>row_text\<close>\<close>
  "encode_row_lines c ir =
     encode_row (fst ir) (snd ir) # encode_rowmeta c (fst ir) # map (encode_run (fst ir)) (cp_row_runs c ! fst ir)"

definition encode_body_lines :: "client_pane \<Rightarrow> ustring list" where
  "encode_body_lines c =
     [encode_cursor (cp_cursor c), encode_modes (cp_modes c),
      line_of [lit ''title'', hex_encode (utf8_bytes (cp_title c))],
      line_of [lit ''pwd'', hex_encode (utf8_bytes (cp_working_directory c))],
      encode_colors (cp_colors c)] @
     map encode_style (cp_styles c) @ map encode_hyperlink (cp_hyperlinks c) @
     concat (map (encode_row_lines c) (enumerate 0 (cp_row_text c)))"

definition encode_surface_lines :: "client_pane \<Rightarrow> ustring list" where
  "encode_surface_lines c = encode_surface_line c # encode_body_lines c @ [lit ''end'']"

definition encode_state :: "client_attach_state \<Rightarrow> ustring" where
  \<comment> \<open>\<open>ClientAttachState::encode\<close>; every item ends with a line feed\<close>
  "encode_state s = concat (map (\<lambda>l. l @ [10])
     ([lit ''NMUX_CLIENT_STATE 8''] @
      (case ca_scope s of Some i \<Rightarrow> [encode_scope i] | None \<Rightarrow> []) @
      map encode_scrollback (ca_scrollbacks s) @
      concat (map encode_surface_lines (ca_surfaces s))))"

subsection \<open>Reading the body of a surface\<close>

definition utf8_hex :: "ustring \<Rightarrow> ustring sres" where
  \<comment> \<open>\<open>String::from_utf8(hex_decode(..)?)\<close>\<close>
  "utf8_hex v = utf8_field (hex_decode v)"

definition state_cursor :: "ustring list \<Rightarrow> cursor option sres" where
  "state_cursor args =
     (case args of
        [x] \<Rightarrow> if x = lit ''none'' then Inr None else Inl StateBodyLine
      | [row, col, visible, shape] \<Rightarrow>
          bind_res (parse_state_u32 row) (\<lambda>row.
          bind_res (parse_state_u32 col) (\<lambda>col.
          bind_res (parse_state_bool visible) (\<lambda>visible.
          bind_res (parse_state_cursor_shape shape) (\<lambda>shape.
            Inr (Some \<lparr>cu_row = row, cu_col = col, cu_visible = visible, cu_shape = shape, cu_blinking = True\<rparr>)))))
      | [row, col, visible, shape, blinking] \<Rightarrow>
          bind_res (parse_state_u32 row) (\<lambda>row.
          bind_res (parse_state_u32 col) (\<lambda>col.
          bind_res (parse_state_bool visible) (\<lambda>visible.
          bind_res (parse_state_cursor_shape shape) (\<lambda>shape.
          bind_res (parse_state_bool blinking) (\<lambda>blinking.
            Inr (Some \<lparr>cu_row = row, cu_col = col, cu_visible = visible, cu_shape = shape, cu_blinking = blinking\<rparr>))))))
      | _ \<Rightarrow> Inl StateBodyLine)"

definition state_mode_flags :: "ustring list \<Rightarrow> mouse_tracking_mode sres \<Rightarrow> mouse_format sres \<Rightarrow> terminal_modes sres" where
  \<comment> \<open>the record of the two arms for \<open>modes\<close>, the last two fields given\<close>
  "state_mode_flags flags mode format =
     bind_res (map_res parse_state_bool flags) (\<lambda>fs.
     bind_res mode (\<lambda>mode.
     bind_res format (\<lambda>format.
       Inr \<lparr>tm_bracketed_paste = fs ! 0, tm_mouse_tracking = fs ! 1, tm_focus_reporting = fs ! 2,
            tm_application_keypad = fs ! 3, tm_application_cursor = fs ! 4, tm_origin = fs ! 5,
            tm_wraparound = fs ! 6, tm_mouse_tracking_mode = mode, tm_mouse_format = format\<rparr>)))"

definition state_modes :: "ustring list \<Rightarrow> terminal_modes sres" where
  "state_modes args =
     (if length args = 7
      then state_mode_flags args (Inr (tm_mouse_tracking_mode terminal_modes_default))
             (Inr (tm_mouse_format terminal_modes_default))
      else if length args = 9
      then state_mode_flags (take 7 args) (parse_state_mouse_tracking_mode (args ! 7)) (parse_state_mouse_format (args ! 8))
      else Inl StateBodyLine)"

definition state_colors :: "ustring list \<Rightarrow> color_summary sres" where
  "state_colors args =
     (case args of
        [fg, bg, cur, palette] \<Rightarrow>
          bind_res (parse_state_u32 cur) (\<lambda>cur.
          bind_res (parse_state_u32 fg) (\<lambda>fg.
          bind_res (parse_state_u32 bg) (\<lambda>bg.
          bind_res (decode_palette_rgba palette) (\<lambda>palette.
            Inr \<lparr>cs_default_fg = fg, cs_default_bg = bg, cs_cursor = cur, cs_cursor_set = (cur \<noteq> 0),
                 cs_palette = palette, cs_diff_start = None, cs_diff = []\<rparr>))))
      | [fg, bg, cur, cur_set, palette] \<Rightarrow>
          bind_res (parse_state_u32 fg) (\<lambda>fg.
          bind_res (parse_state_u32 bg) (\<lambda>bg.
          bind_res (parse_state_u32 cur) (\<lambda>cur.
          bind_res (parse_state_bool cur_set) (\<lambda>cur_set.
          bind_res (decode_palette_rgba palette) (\<lambda>palette.
            Inr \<lparr>cs_default_fg = fg, cs_default_bg = bg, cs_cursor = cur, cs_cursor_set = cur_set,
                 cs_palette = palette, cs_diff_start = None, cs_diff = []\<rparr>)))))
      | _ \<Rightarrow> Inl StateBodyLine)"

definition state_style :: "ustring list \<Rightarrow> pane_style sres" where
  "state_style args =
     (case args of
        [fg, bg, ul, flags] \<Rightarrow>
          bind_res (parse_state_u32 fg) (\<lambda>fg.
          bind_res (parse_state_u32 bg) (\<lambda>bg.
          bind_res (parse_state_u32 ul) (\<lambda>ul.
          bind_res (parse_state_u32 flags) (\<lambda>flags.
            Inr \<lparr>ps_fg = fg, ps_bg = bg, ps_underline = ul, ps_flags = flags\<rparr>))))
      | _ \<Rightarrow> Inl StateBodyLine)"

definition state_hyperlink :: "ustring list \<Rightarrow> hyperlink_summary sres" where
  "state_hyperlink args =
     (case args of
        [hid, uri, osc8, params] \<Rightarrow>
          bind_res (parse_state_u32 hid) (\<lambda>hid.
          bind_res (utf8_hex uri) (\<lambda>uri.
          bind_res (utf8_field (decode_state_hex_field osc8)) (\<lambda>osc8.
          bind_res (utf8_field (decode_state_hex_field params)) (\<lambda>params.
            Inr \<lparr>hl_id = hid, hl_uri = uri, hl_osc8_id = osc8, hl_params = params\<rparr>))))
      | _ \<Rightarrow> Inl StateBodyLine)"

definition state_row :: "client_pane \<Rightarrow> ustring list \<Rightarrow> client_pane sres" where
  "state_row p args =
     (case args of
        [row, t] \<Rightarrow>
          bind_res (parse_state_usize row) (\<lambda>row.
          bind_res (guard_res (row < length (cp_row_text p)) StateRowIndex) (\<lambda>_.
          bind_res (utf8_hex t) (\<lambda>t. Inr (p\<lparr>cp_row_text := (cp_row_text p)[row := t]\<rparr>))))
      | _ \<Rightarrow> Inl StateBodyLine)"

text \<open>The five arms for \<open>rowmeta\<close> differ in how many fields they set; an arm first takes a mutable
  reference into every vector it sets, then parses.\<close>

definition put_prompt :: "nat \<Rightarrow> ustring \<Rightarrow> client_pane \<Rightarrow> client_pane sres" where
  "put_prompt row v p = bind_res (parse_state_row_semantic_prompt v) (\<lambda>x.
     Inr (p\<lparr>cp_row_semantic_prompts := (cp_row_semantic_prompts p)[row := x]\<rparr>))"

definition put_dirty :: "nat \<Rightarrow> ustring \<Rightarrow> client_pane \<Rightarrow> client_pane sres" where
  "put_dirty row v p = bind_res (parse_state_bool v) (\<lambda>x. Inr (p\<lparr>cp_row_dirty := (cp_row_dirty p)[row := x]\<rparr>))"

definition put_kitty :: "nat \<Rightarrow> ustring \<Rightarrow> client_pane \<Rightarrow> client_pane sres" where
  "put_kitty row v p = bind_res (parse_state_bool v) (\<lambda>x. Inr (p\<lparr>cp_row_kitty := (cp_row_kitty p)[row := x]\<rparr>))"

definition put_state_hash :: "nat \<Rightarrow> ustring \<Rightarrow> client_pane \<Rightarrow> client_pane sres" where
  "put_state_hash row v p = bind_res (parse_state_u64 v) (\<lambda>x.
     Inr (p\<lparr>cp_row_state_hashes := (cp_row_state_hashes p)[row := of_nat x]\<rparr>))"

definition put_dirty_hash :: "nat \<Rightarrow> ustring \<Rightarrow> client_pane \<Rightarrow> client_pane sres" where
  "put_dirty_hash row v p = bind_res (parse_state_u64 v) (\<lambda>x.
     Inr (p\<lparr>cp_row_dirty_hashes := (cp_row_dirty_hashes p)[row := of_nat x]\<rparr>))"

definition rowmeta_targets :: "client_pane \<Rightarrow> nat \<Rightarrow> nat \<Rightarrow> bool" where
  \<comment> \<open>the \<open>get_mut(row)\<close> of the first \<open>n\<close> vectors all succeed\<close>
  "rowmeta_targets p row n \<longleftrightarrow> list_all (\<lambda>len. row < len)
     (take n [length (cp_row_semantic_prompts p), length (cp_row_dirty p), length (cp_row_kitty p),
              length (cp_row_state_hashes p), length (cp_row_dirty_hashes p)])"

definition state_rowmeta :: "client_pane \<Rightarrow> ustring list \<Rightarrow> client_pane sres" where
  "state_rowmeta p args =
     (case args of
        [row, prompt] \<Rightarrow>
          bind_res (parse_state_usize row) (\<lambda>row.
          bind_res (guard_res (rowmeta_targets p row 1) StateRowIndex) (\<lambda>_. put_prompt row prompt p))
      | [row, prompt, dirty] \<Rightarrow>
          bind_res (parse_state_usize row) (\<lambda>row.
          bind_res (guard_res (rowmeta_targets p row 2) StateRowIndex) (\<lambda>_.
          bind_res (put_prompt row prompt p) (put_dirty row dirty)))
      | [row, prompt, dirty, kitty] \<Rightarrow>
          bind_res (parse_state_usize row) (\<lambda>row.
          bind_res (guard_res (rowmeta_targets p row 3) StateRowIndex) (\<lambda>_.
          bind_res (put_prompt row prompt p) (\<lambda>p.
          bind_res (put_dirty row dirty p) (put_kitty row kitty))))
      | [row, prompt, dirty, kitty, state_hash] \<Rightarrow>
          bind_res (parse_state_usize row) (\<lambda>row.
          bind_res (guard_res (rowmeta_targets p row 4) StateRowIndex) (\<lambda>_.
          bind_res (put_prompt row prompt p) (\<lambda>p.
          bind_res (put_dirty row dirty p) (\<lambda>p.
          bind_res (put_kitty row kitty p) (put_state_hash row state_hash)))))
      | [row, prompt, dirty, kitty, state_hash, dirty_hash] \<Rightarrow>
          bind_res (parse_state_usize row) (\<lambda>row.
          bind_res (guard_res (rowmeta_targets p row 5) StateRowIndex) (\<lambda>_.
          bind_res (put_prompt row prompt p) (\<lambda>p.
          bind_res (put_dirty row dirty p) (\<lambda>p.
          bind_res (put_kitty row kitty p) (\<lambda>p.
          bind_res (put_state_hash row state_hash p) (put_dirty_hash row dirty_hash))))))
      | _ \<Rightarrow> Inl StateBodyLine)"

definition push_run :: "client_pane \<Rightarrow> ustring \<Rightarrow> ustring list \<Rightarrow> u32 sres \<Rightarrow> cell_semantic_content sres \<Rightarrow> client_pane sres" where
  \<comment> \<open>the common part of the three arms for \<open>run\<close>; \<open>fs\<close> are text, widths, style and flags\<close>
  "push_run p row fs hyperlink content =
     bind_res (parse_state_usize row) (\<lambda>row.
     bind_res (guard_res (row < length (cp_row_runs p)) StateRowIndex) (\<lambda>_.
     bind_res (utf8_hex (fs ! 0)) (\<lambda>t.
     bind_res (hex_decode (fs ! 1)) (\<lambda>widths.
     bind_res (parse_state_u32 (fs ! 2)) (\<lambda>style.
     bind_res (parse_state_u32 (fs ! 3)) (\<lambda>flags.
     bind_res hyperlink (\<lambda>hyperlink.
     bind_res content (\<lambda>content.
       Inr (p\<lparr>cp_row_runs := (cp_row_runs p)[row := cp_row_runs p ! row @
         [\<lparr>cr_text = t, cr_cell_widths = widths, cr_style_id = style, cr_flags = flags,
           cr_hyperlink_id = hyperlink, cr_semantic_content = content\<rparr>]]\<rparr>)))))))))"

definition state_run :: "client_pane \<Rightarrow> ustring list \<Rightarrow> client_pane sres" where
  "state_run p args =
     (case args of
        [row, t, widths, style, flags] \<Rightarrow> push_run p row [t, widths, style, flags] (Inr 0) (Inr CellOutput)
      | [row, t, widths, style, flags, hyperlink] \<Rightarrow>
          push_run p row [t, widths, style, flags] (parse_state_u32 hyperlink) (Inr CellOutput)
      | [row, t, widths, style, flags, hyperlink, content] \<Rightarrow>
          push_run p row [t, widths, style, flags] (parse_state_u32 hyperlink)
            (parse_state_cell_semantic_content content)
      | _ \<Rightarrow> Inl StateBodyLine)"

definition state_text :: "ustring list \<Rightarrow> ustring sres" where
  "state_text args = (case args of [v] \<Rightarrow> utf8_hex v | _ \<Rightarrow> Inl StateBodyLine)"

definition decode_body_line :: "client_pane \<Rightarrow> ustring \<Rightarrow> client_pane sres" where
  "decode_body_line p line =
     (case split_on 32 line of
        [] \<Rightarrow> Inl StateBodyLine
      | kw # args \<Rightarrow>
          if kw = lit ''cursor'' then bind_res (state_cursor args) (\<lambda>c. Inr (p\<lparr>cp_cursor := c\<rparr>))
          else if kw = lit ''modes'' then bind_res (state_modes args) (\<lambda>m. Inr (p\<lparr>cp_modes := m\<rparr>))
          else if kw = lit ''title'' then bind_res (state_text args) (\<lambda>t. Inr (p\<lparr>cp_title := t\<rparr>))
          else if kw = lit ''pwd'' then bind_res (state_text args) (\<lambda>t. Inr (p\<lparr>cp_working_directory := t\<rparr>))
          else if kw = lit ''colors'' then bind_res (state_colors args) (\<lambda>c. Inr (p\<lparr>cp_colors := c\<rparr>))
          else if kw = lit ''style'' then bind_res (state_style args) (\<lambda>s. Inr (p\<lparr>cp_styles := cp_styles p @ [s]\<rparr>))
          else if kw = lit ''hyperlink''
               then bind_res (state_hyperlink args) (\<lambda>h. Inr (p\<lparr>cp_hyperlinks := cp_hyperlinks p @ [h]\<rparr>))
          else if kw = lit ''row'' then state_row p args
          else if kw = lit ''rowmeta'' then state_rowmeta p args
          else if kw = lit ''run'' then state_run p args
          else Inl StateBodyLine)"

fun decode_body :: "client_pane \<Rightarrow> ustring list \<Rightarrow> (client_pane \<times> ustring list) sres" where
  \<comment> \<open>the inner loop; the second component is what is left of \<open>lines\<close>\<close>
  "decode_body p [] = Inl StateUnterminated"
| "decode_body p (line # lines) =
     (if line = lit ''end'' then Inr (p, lines)
      else bind_res (decode_body_line p line) (\<lambda>p. decode_body p lines))"

lemma decode_body_shorter: "decode_body p lines = Inr (q, rest) \<Longrightarrow> length rest < length lines"
  by (induction lines arbitrary: p) (fastforce simp: bind_res_Inr_iff split: if_splits)+

subsection \<open>Reading the file\<close>

definition state_surface_start :: "ustring list \<Rightarrow> client_pane sres" where
  \<comment> \<open>the fields of a \<open>surface\<close> line after the keyword, and the initial values of the loop's variables\<close>
  "state_surface_start args =
     (if length args = 4 \<or> length args = 5 then
        bind_res (utf8_hex (args ! 0)) (\<lambda>pane_id.
        bind_res (parse_state_u64 (args ! 1)) (\<lambda>version.
        bind_res (parse_state_u32 (args ! 2)) (\<lambda>cols.
        bind_res (parse_state_u32 (args ! 3)) (\<lambda>rows.
        bind_res (if length args = 5 then parse_state_surface_kind (args ! 4) else Inr SurfaceMain) (\<lambda>surface.
          Inr \<lparr>cp_pane_id = pane_id, cp_version = version, cp_cols = cols, cp_rows = rows,
               cp_surface = surface, cp_cursor = None, cp_modes = terminal_modes_default,
               cp_title = [], cp_working_directory = [], cp_colors = color_summary_default,
               cp_styles = [], cp_hyperlinks = [],
               cp_row_text = replicate rows [], cp_row_runs = replicate rows [],
               cp_row_dirty_hashes = replicate rows 0, cp_row_semantic_prompts = replicate rows RowNone,
               cp_row_dirty = replicate rows False, cp_row_kitty = replicate rows False,
               cp_row_state_hashes = replicate rows 0\<rparr>)))))
      else Inl StateSurfaceLine)"

definition state_table :: "unit cres \<Rightarrow> unit sres" where
  \<comment> \<open>\<open>map_err\<close> of the validators' errors\<close>
  "state_table r = (case r of Inl e \<Rightarrow> Inl (StateTable e) | Inr u \<Rightarrow> Inr u)"

definition state_surface_finish :: "client_pane \<Rightarrow> client_pane sres" where
  \<comment> \<open>what follows the inner loop\<close>
  "state_surface_finish p =
     bind_res (state_table (validate_hyperlink_table (cp_hyperlinks p))) (\<lambda>_.
     let row_runs = row_runs_for_text (cp_row_text p) (cp_row_runs p);
         styles = (if cp_styles p = [] then default_style_summaries else cp_styles p) in
     bind_res (state_table (validate_cached_row_style_ids row_runs styles)) (\<lambda>_.
     bind_res (state_table (validate_cached_row_hyperlink_ids row_runs (cp_hyperlinks p))) (\<lambda>_.
       Inr (p\<lparr>cp_row_runs := row_runs, cp_styles := styles\<rparr>))))"

definition state_scrollback :: "ustring list \<Rightarrow> client_scrollback sres" where
  \<comment> \<open>the five fields of a \<open>scrollback\<close> line\<close>
  "state_scrollback args =
     bind_res (parse_state_u64 (args ! 2)) (\<lambda>start_line.
     bind_res (parse_state_u32 (args ! 3)) (\<lambda>line_count.
     if start_line = 0 then Inl StateScrollbackStart
     else if line_count = 0 then Inl StateScrollbackCount
     else
       bind_res (utf8_hex (args ! 0)) (\<lambda>pane_id.
       bind_res (parse_state_u64 (args ! 1)) (\<lambda>version.
       bind_res (parse_state_u64 (args ! 4)) (\<lambda>total_lines.
         Inr \<lparr>cb_pane_id = pane_id, cb_version = version, cb_start_line = start_line,
              cb_line_count = line_count, cb_total_lines = total_lines\<rparr>)))))"

definition state_scope :: "ustring list \<Rightarrow> socket_identity sres" where
  \<comment> \<open>the two or four fields after \<open>scope socket\<close>\<close>
  "state_scope args =
     bind_res (parse_state_u64 (args ! 0)) (\<lambda>dev.
     bind_res (parse_state_u64 (args ! 1)) (\<lambda>ino.
     bind_res (if length args = 4 then parse_state_i64 (args ! 2) else Inr 0) (\<lambda>ctime.
     bind_res (if length args = 4 then parse_state_i64 (args ! 3) else Inr 0) (\<lambda>ctime_nsec.
       Inr \<lparr>si_dev = dev, si_ino = ino, si_ctime = ctime, si_ctime_nsec = ctime_nsec\<rparr>))))"

definition is_scope_line :: "ustring list \<Rightarrow> bool" where
  "is_scope_line parts \<longleftrightarrow> take 2 parts = [lit ''scope'', lit ''socket''] \<and> (length parts = 4 \<or> length parts = 6)"

function decode_lines :: "client_attach_state \<Rightarrow> ustring list \<Rightarrow> client_attach_state sres" where
  \<comment> \<open>the outer loop\<close>
  "decode_lines s [] = Inr s"
| "decode_lines s (line # lines) =
     (let parts = split_on 32 line in
      if is_scope_line parts then
        bind_res (state_scope (drop 2 parts)) (\<lambda>i. decode_lines (s\<lparr>ca_scope := Some i\<rparr>) lines)
      else if length parts = 6 \<and> hd parts = lit ''scrollback'' then
        bind_res (state_scrollback (tl parts)) (\<lambda>b.
          decode_lines (s\<lparr>ca_scrollbacks := ca_scrollbacks s @ [b]\<rparr>) lines)
      else if hd parts \<noteq> lit ''surface'' then Inl StateSurfaceLine
      else
        bind_res (state_surface_start (tl parts)) (\<lambda>p.
          case decode_body p lines of
            Inl e \<Rightarrow> Inl e
          | Inr (p, rest) \<Rightarrow>
              bind_res (state_surface_finish p) (\<lambda>p.
                decode_lines (s\<lparr>ca_surfaces := ca_surfaces s @ [p]\<rparr>) rest)))"
  by pat_completeness auto
termination
  by (relation "measure (\<lambda>(s, lines). length lines)") (auto dest: decode_body_shorter)

declare decode_lines.simps [simp del]

definition state_headers :: "ustring list" where
  "state_headers = map (\<lambda>v. lit ''NMUX_CLIENT_STATE '' @ lit v)
     [''1'', ''2'', ''3'', ''4'', ''5'', ''6'', ''7'', ''8'']"

definition decode_state :: "ustring \<Rightarrow> client_attach_state sres" where
  \<comment> \<open>\<open>ClientAttachState::decode\<close>\<close>
  "decode_state encoded =
     (case str_lines encoded of
        [] \<Rightarrow> Inl StateHeader
      | header # lines \<Rightarrow>
          if header \<notin> set state_headers then Inl StateHeader
          else decode_lines client_attach_state_default lines)"

subsection \<open>Fields and lines\<close>

definition token :: "ustring \<Rightarrow> bool" where "token t \<longleftrightarrow> list_all (\<lambda>c. 32 < c) t"

definition printable :: "ustring \<Rightarrow> bool" where "printable l \<longleftrightarrow> list_all (\<lambda>c. 32 \<le> c) l"

lemma token_no_space: "token t \<Longrightarrow> 32 \<notin> set t"
  by (auto simp: token_def list_all_iff)

lemma token_printable: "token t \<Longrightarrow> printable t"
  by (auto simp: token_def printable_def list_all_iff dest: less_imp_le)

lemma tokens [simp]:
  "token (dec_str n)" "token (int_str i)" "token (hex_encode bs)" "token (flag_str b)" "token (state_hex_field bs)"
proof -
  have d: "token (dec_str n)" for n using field_chars(2) by (fastforce simp: token_def list_all_iff)
  have h: "token (hex_encode bs)" for bs using hex_encode_chars by (fastforce simp: token_def list_all_iff)
  show "token (dec_str n)" "token (hex_encode bs)" by (rule d h)+
  show "token (int_str i)" using d by (simp add: int_str_def token_def)
  show "token (flag_str b)" by (simp add: token_def flag_str_def lit_def)
  show "token (state_hex_field bs)" using h [of bs] by (simp add: state_hex_field_def token_def lit_def)
qed

lemmas token_facts [simp] = tokens [THEN token_no_space] tokens [THEN token_printable]

lemma printable_lit: "list_all (\<lambda>c. 32 \<le> (of_char c :: nat)) s \<Longrightarrow> printable (lit s)"
  by (auto simp: printable_def lit_def list_all_iff)

lemma printable_line_of: "list_all printable ts \<Longrightarrow> printable (line_of ts)"
  using set_join_with [of 32 ts] by (auto simp: printable_def line_of_def list_all_iff)

fun decode_all :: "client_pane \<Rightarrow> ustring list \<Rightarrow> client_pane sres" where
  "decode_all p [] = Inr p"
| "decode_all p (l # ls) = bind_res (decode_body_line p l) (\<lambda>p. decode_all p ls)"

lemma decode_all_append: "decode_all p (xs @ ys) = bind_res (decode_all p xs) (\<lambda>p. decode_all p ys)"
  by (induction xs arbitrary: p) (auto simp: bind_res_def split: sum.splits)

lemma decode_body_line_end: "decode_body_line p (lit ''end'') = Inl StateBodyLine"
proof -
  have "split_on 32 (lit ''end'') = [lit ''end'']" by (rule split_on_no_sep) (simp add: lit_def)
  then show ?thesis by (simp add: decode_body_line_def)
qed

lemma decode_body_all:
  "decode_all p ls = Inr q \<Longrightarrow> decode_body p (ls @ lit ''end'' # rest) = Inr (q, rest)"
  by (induction ls arbitrary: p) (auto simp: bind_res_Inr_iff decode_body_line_end)

subsection \<open>What can be stored\<close>

definition run_storable :: "cell_run \<Rightarrow> bool" where
  "run_storable r \<longleftrightarrow> list_all scalar (cr_text r) \<and> cr_style_id r \<le> U32_MAX \<and> cr_flags r \<le> U32_MAX \<and>
     cr_hyperlink_id r \<le> U32_MAX \<and> cell_semantic_content_known (cr_semantic_content r)"

definition colors_storable :: "color_summary \<Rightarrow> bool" where
  "colors_storable c \<longleftrightarrow> cs_default_fg c \<le> U32_MAX \<and> cs_default_bg c \<le> U32_MAX \<and> cs_cursor c \<le> U32_MAX \<and>
     (\<forall>v \<in> set (cs_palette c). v \<le> U32_MAX) \<and> cs_diff_start c = None \<and> cs_diff c = []"

definition surface_storable :: "client_pane \<Rightarrow> bool" where
  \<comment> \<open>numbers within their Rust types, strings of scalar values, known enumerators, a valid table of
     styles and hyperlinks\<close>
  "surface_storable c \<longleftrightarrow> client_ok c \<and> list_all scalar (cp_pane_id c) \<and> cp_version c \<le> U64_MAX \<and>
     cp_cols c \<le> U32_MAX \<and> cp_rows c \<le> U32_MAX \<and> surface_kind_known (cp_surface c) \<and>
     (\<forall>cur \<in> set_option (cp_cursor c).
        cu_row cur \<le> U32_MAX \<and> cu_col cur \<le> U32_MAX \<and> cursor_shape_known (cu_shape cur)) \<and>
     mouse_tracking_mode_known (tm_mouse_tracking_mode (cp_modes c)) \<and> mouse_format_known (tm_mouse_format (cp_modes c)) \<and>
     list_all scalar (cp_title c) \<and> list_all scalar (cp_working_directory c) \<and> colors_storable (cp_colors c) \<and>
     cp_styles c \<noteq> [] \<and>
     (\<forall>s \<in> set (cp_styles c). ps_fg s \<le> U32_MAX \<and> ps_bg s \<le> U32_MAX \<and> ps_underline s \<le> U32_MAX \<and> ps_flags s \<le> U32_MAX) \<and>
     (\<forall>h \<in> set (cp_hyperlinks c).
        hl_id h \<le> U32_MAX \<and> list_all scalar (hl_uri h) \<and> list_all scalar (hl_osc8_id h) \<and> list_all scalar (hl_params h)) \<and>
     validate_hyperlink_table (cp_hyperlinks c) = Inr () \<and>
     (\<forall>t \<in> set (cp_row_text c). list_all scalar t) \<and>
     (\<forall>x \<in> set (cp_row_semantic_prompts c). row_semantic_prompt_known x) \<and>
     (\<forall>runs \<in> set (cp_row_runs c). \<forall>r \<in> set runs. run_storable r) \<and>
     validate_cached_row_style_ids (cp_row_runs c) (cp_styles c) = Inr () \<and>
     validate_cached_row_hyperlink_ids (cp_row_runs c) (cp_hyperlinks c) = Inr ()"

definition reopened :: "client_pane \<Rightarrow> client_pane" where
  \<comment> \<open>the runs a row loses when it is stored: a row without runs, or with runs that do not spell it, comes
     back as one plain run\<close>
  "reopened c = c\<lparr>cp_row_runs := row_runs_for_text (cp_row_text c) (cp_row_runs c)\<rparr>"

definition state_storable :: "client_attach_state \<Rightarrow> bool" where
  "state_storable s \<longleftrightarrow>
     (\<forall>i \<in> set_option (ca_scope s). si_dev i \<le> U64_MAX \<and> si_ino i \<le> U64_MAX \<and>
        - (2 ^ 63) \<le> si_ctime i \<and> si_ctime i < 2 ^ 63 \<and> - (2 ^ 63) \<le> si_ctime_nsec i \<and> si_ctime_nsec i < 2 ^ 63) \<and>
     (\<forall>b \<in> set (ca_scrollbacks s). list_all scalar (cb_pane_id b) \<and> cb_version b \<le> U64_MAX \<and>
        0 < cb_start_line b \<and> cb_start_line b \<le> U64_MAX \<and> 0 < cb_line_count b \<and> cb_line_count b \<le> U32_MAX \<and>
        cb_total_lines b \<le> U64_MAX) \<and>
     (\<forall>c \<in> set (ca_surfaces s). surface_storable c)"

subsection \<open>Lines are read as they were written\<close>

lemma lit_no_space: "list_all (\<lambda>c. of_char c \<noteq> (32::nat)) s \<Longrightarrow> 32 \<notin> set (lit s)"
  by (auto simp: lit_def list_all_iff)

lemma decode_fields:
  assumes "list_all (\<lambda>c. of_char c \<noteq> (32::nat)) kw" and "\<forall>t \<in> set ts. 32 \<notin> set t"
  shows "split_on 32 (line_of (lit kw # ts)) = lit kw # ts"
  using assms lit_no_space [of kw] by (simp add: line_of_def split_on_join)

lemma cursor_line:
  assumes "\<forall>cur \<in> set_option cur. cu_row cur \<le> U32_MAX \<and> cu_col cur \<le> U32_MAX \<and> cursor_shape_known (cu_shape cur)"
  shows "decode_body_line p (encode_cursor cur) = Inr (p\<lparr>cp_cursor := cur\<rparr>)"
proof (cases cur)
  case None
  have "split_on 32 (line_of [lit ''cursor'', lit ''none'']) = [lit ''cursor'', lit ''none'']"
    by (rule decode_fields) (simp_all add: lit_def)
  with None show ?thesis by (simp add: encode_cursor_def decode_body_line_def state_cursor_def)
next
  case (Some c)
  then show ?thesis using assms
    by (simp add: encode_cursor_def decode_fields decode_body_line_def state_cursor_def state_fields)
qed

lemma modes_line:
  assumes "mouse_tracking_mode_known (tm_mouse_tracking_mode m)" and "mouse_format_known (tm_mouse_format m)"
  shows "decode_body_line p (encode_modes m) = Inr (p\<lparr>cp_modes := m\<rparr>)"
  using assms
  by (simp add: encode_modes_def decode_fields decode_body_line_def state_modes_def state_mode_flags_def state_fields)

lemma text_lines:
  assumes "list_all scalar t"
  shows "decode_body_line p (line_of [lit ''title'', hex_encode (utf8_bytes t)]) = Inr (p\<lparr>cp_title := t\<rparr>)"
    and "decode_body_line p (line_of [lit ''pwd'', hex_encode (utf8_bytes t)]) = Inr (p\<lparr>cp_working_directory := t\<rparr>)"
  using assms by (simp_all add: decode_fields decode_body_line_def state_text_def utf8_hex_def state_fields)

lemma colors_line:
  "colors_storable c \<Longrightarrow> decode_body_line p (encode_colors c) = Inr (p\<lparr>cp_colors := c\<rparr>)"
  by (simp add: encode_colors_def decode_fields decode_body_line_def state_colors_def state_fields colors_storable_def)

lemma style_lines:
  assumes "\<forall>s \<in> set ss. ps_fg s \<le> U32_MAX \<and> ps_bg s \<le> U32_MAX \<and> ps_underline s \<le> U32_MAX \<and> ps_flags s \<le> U32_MAX"
  shows "decode_all p (map encode_style ss) = Inr (p\<lparr>cp_styles := cp_styles p @ ss\<rparr>)"
  using assms
proof (induction ss arbitrary: p)
  case (Cons s ss)
  then have "decode_body_line p (encode_style s) = Inr (p\<lparr>cp_styles := cp_styles p @ [s]\<rparr>)"
    by (simp add: encode_style_def decode_fields decode_body_line_def state_style_def state_fields)
  with Cons show ?case by simp
qed simp

lemma hyperlink_lines:
  assumes "\<forall>h \<in> set hs. hl_id h \<le> U32_MAX \<and> list_all scalar (hl_uri h) \<and> list_all scalar (hl_osc8_id h) \<and>
    list_all scalar (hl_params h)"
  shows "decode_all p (map encode_hyperlink hs) = Inr (p\<lparr>cp_hyperlinks := cp_hyperlinks p @ hs\<rparr>)"
  using assms
proof (induction hs arbitrary: p)
  case (Cons h hs)
  then have "decode_body_line p (encode_hyperlink h) = Inr (p\<lparr>cp_hyperlinks := cp_hyperlinks p @ [h]\<rparr>)"
    by (simp add: encode_hyperlink_def decode_fields decode_body_line_def state_hyperlink_def state_fields utf8_hex_def)
  with Cons show ?case by simp
qed simp

lemma run_lines:
  assumes "\<forall>r \<in> set rs. run_storable r" and "i < length (cp_row_runs p)" and "i \<le> U64_MAX"
  shows "decode_all p (map (encode_run i) rs) =
    Inr (p\<lparr>cp_row_runs := (cp_row_runs p)[i := cp_row_runs p ! i @ rs]\<rparr>)"
  using assms
proof (induction rs arbitrary: p)
  case (Cons r rs)
  then have "decode_body_line p (encode_run i r) =
      Inr (p\<lparr>cp_row_runs := (cp_row_runs p)[i := cp_row_runs p ! i @ [r]]\<rparr>)"
    by (cases r) (simp add: encode_run_def decode_fields decode_body_line_def state_run_def push_run_def state_fields
        utf8_hex_def run_storable_def)
  moreover from Cons.prems have "decode_all (p\<lparr>cp_row_runs := (cp_row_runs p)[i := cp_row_runs p ! i @ [r]]\<rparr>)
      (map (encode_run i) rs) = Inr (p\<lparr>cp_row_runs := (cp_row_runs p)[i := cp_row_runs p ! i @ r # rs]\<rparr>)"
    by (subst Cons.IH) simp_all
  ultimately show ?case by simp
qed simp

lemma rowmeta_line:
  assumes "client_ok c" and "client_ok p" and "cp_rows p = cp_rows c" and "i < cp_rows c" and "i \<le> U64_MAX"
    and "\<forall>x \<in> set (cp_row_semantic_prompts c). row_semantic_prompt_known x"
  shows "decode_body_line p (encode_rowmeta c i) = Inr (p
    \<lparr>cp_row_semantic_prompts := (cp_row_semantic_prompts p)[i := cp_row_semantic_prompts c ! i],
     cp_row_dirty := (cp_row_dirty p)[i := cp_row_dirty c ! i],
     cp_row_kitty := (cp_row_kitty p)[i := cp_row_kitty c ! i],
     cp_row_state_hashes := (cp_row_state_hashes p)[i := cp_row_state_hashes c ! i],
     cp_row_dirty_hashes := (cp_row_dirty_hashes p)[i := cp_row_dirty_hashes c ! i]\<rparr>)"
proof -
  have known: "row_semantic_prompt_known (cp_row_semantic_prompts c ! i)"
    using assms(1,4,6) by (simp add: client_ok_def)
  have hash: "unat h \<le> U64_MAX" for h :: "64 word"
  proof -
    have "unat h < 2 ^ LENGTH(64)" by (rule unsigned_less)
    then show ?thesis by (simp add: U64_MAX_def)
  qed
  have targets: "rowmeta_targets p i 5" using assms(2-4) by (simp add: rowmeta_targets_def client_ok_def)
  show ?thesis
    using assms(5) known targets
    by (simp add: encode_rowmeta_def decode_fields decode_body_line_def state_rowmeta_def put_prompt_def put_dirty_def
        put_kitty_def put_state_hash_def put_dirty_hash_def state_fields hash)
qed

lemma row_line:
  assumes "list_all scalar t" and "i < length (cp_row_text p)" and "i \<le> U64_MAX"
  shows "decode_body_line p (encode_row i t) = Inr (p\<lparr>cp_row_text := (cp_row_text p)[i := t]\<rparr>)"
  using assms by (simp add: encode_row_def decode_fields decode_body_line_def state_row_def state_fields utf8_hex_def)

subsection \<open>All rows\<close>

definition rows_so_far :: "client_pane \<Rightarrow> nat \<Rightarrow> client_pane \<Rightarrow> client_pane" where
  \<comment> \<open>\<open>p\<close> after the lines of the first \<open>k\<close> rows of \<open>c\<close>\<close>
  "rows_so_far c k p =
     p\<lparr>cp_row_text := take k (cp_row_text c) @ drop k (cp_row_text p),
       cp_row_runs := take k (cp_row_runs c) @ drop k (cp_row_runs p),
       cp_row_dirty_hashes := take k (cp_row_dirty_hashes c) @ drop k (cp_row_dirty_hashes p),
       cp_row_semantic_prompts := take k (cp_row_semantic_prompts c) @ drop k (cp_row_semantic_prompts p),
       cp_row_dirty := take k (cp_row_dirty c) @ drop k (cp_row_dirty p),
       cp_row_kitty := take k (cp_row_kitty c) @ drop k (cp_row_kitty p),
       cp_row_state_hashes := take k (cp_row_state_hashes c) @ drop k (cp_row_state_hashes p)\<rparr>"

lemma prefix_step:
  "k < length xs \<Longrightarrow> k < length ys \<Longrightarrow> (take k xs @ drop k ys)[k := xs ! k] = take (Suc k) xs @ drop (Suc k) ys"
  by (simp add: list_update_append take_Suc_conv_app_nth Cons_nth_drop_Suc [symmetric])

lemma rows_so_far_ok: "client_ok c \<Longrightarrow> client_ok p \<Longrightarrow> cp_rows p = cp_rows c \<Longrightarrow> k \<le> cp_rows c \<Longrightarrow>
    client_ok (rows_so_far c k p) \<and> cp_rows (rows_so_far c k p) = cp_rows c"
  by (auto simp: client_ok_def rows_so_far_def)

lemma row_block:
  assumes c: "surface_storable c" and p: "client_ok p" "cp_rows p = cp_rows c" and k: "k < cp_rows c"
    and empty: "\<forall>i < cp_rows c. cp_row_runs p ! i = []"
  shows "decode_all (rows_so_far c k p) (encode_row_lines c (k, cp_row_text c ! k)) = Inr (rows_so_far c (Suc k) p)"
proof -
  let ?q = "rows_so_far c k p"
  have ok: "client_ok c" "list_all scalar (cp_row_text c ! k)" "\<forall>r \<in> set (cp_row_runs c ! k). run_storable r"
    "\<forall>x \<in> set (cp_row_semantic_prompts c). row_semantic_prompt_known x"
    using c k by (auto simp: surface_storable_def client_ok_def)
  have le: "k \<le> U64_MAX" using c k by (auto simp: surface_storable_def U32_MAX_def U64_MAX_def)
  note q = rows_so_far_ok [OF ok(1) p, of k]
  have len: "k < length (cp_row_text c)" "k < length (cp_row_text p)" "k < length (cp_row_runs c)"
    "k < length (cp_row_runs p)" "k < length (cp_row_dirty_hashes c)" "k < length (cp_row_dirty_hashes p)"
    "k < length (cp_row_semantic_prompts c)" "k < length (cp_row_semantic_prompts p)" "k < length (cp_row_dirty c)"
    "k < length (cp_row_dirty p)" "k < length (cp_row_kitty c)" "k < length (cp_row_kitty p)"
    "k < length (cp_row_state_hashes c)" "k < length (cp_row_state_hashes p)"
    using ok(1) p k by (simp_all add: client_ok_def)
  let ?q1 = "?q\<lparr>cp_row_text := (cp_row_text ?q)[k := cp_row_text c ! k]\<rparr>"
  have 1: "decode_body_line ?q (encode_row k (cp_row_text c ! k)) = Inr ?q1"
    using q k len by (intro row_line [OF ok(2) _ le]) (simp add: client_ok_def)
  have q1: "client_ok ?q1" "cp_rows ?q1 = cp_rows c" using q k by (simp_all add: client_ok_def)
  note 2 = rowmeta_line [OF ok(1) q1 k le ok(4)]
  have none: "(take k (cp_row_runs c) @ drop k (cp_row_runs p)) ! k = []"
    using empty k len by (simp add: nth_append)
  show ?thesis
    unfolding encode_row_lines_def fst_conv snd_conv decode_all.simps 1 bind_res_simps 2
    using len le none
    by (subst run_lines [OF ok(3)])
      (simp_all add: rows_so_far_def prefix_step)
qed

lemma all_rows:
  assumes c: "surface_storable c" and p: "client_ok p" "cp_rows p = cp_rows c"
    and empty: "\<forall>i < cp_rows c. cp_row_runs p ! i = []"
  shows "k \<le> cp_rows c \<Longrightarrow> decode_all p (concat (map (encode_row_lines c) (map (\<lambda>i. (i, cp_row_text c ! i)) [0..<k]))) =
    Inr (rows_so_far c k p)"
proof (induction k)
  case 0
  then show ?case by (simp add: rows_so_far_def)
next
  case (Suc k)
  then show ?case using row_block [OF c p _ empty, of k] by (simp add: decode_all_append)
qed

subsection \<open>A surface\<close>

definition surface_opened :: "client_pane \<Rightarrow> client_pane" where
  \<comment> \<open>the variables after the \<open>surface\<close> line of \<open>c\<close>\<close>
  "surface_opened c =
     c\<lparr>cp_cursor := None, cp_modes := terminal_modes_default, cp_title := [], cp_working_directory := [],
       cp_colors := color_summary_default, cp_styles := [], cp_hyperlinks := [],
       cp_row_text := replicate (cp_rows c) [], cp_row_runs := replicate (cp_rows c) [],
       cp_row_dirty_hashes := replicate (cp_rows c) 0, cp_row_semantic_prompts := replicate (cp_rows c) RowNone,
       cp_row_dirty := replicate (cp_rows c) False, cp_row_kitty := replicate (cp_rows c) False,
       cp_row_state_hashes := replicate (cp_rows c) 0\<rparr>"

lemma surface_line:
  assumes "surface_storable c"
  shows "state_surface_start (tl (split_on 32 (encode_surface_line c))) = Inr (surface_opened c)"
    and "hd (split_on 32 (encode_surface_line c)) = lit ''surface''"
  using assms
  by (simp_all add: encode_surface_line_def decode_fields state_surface_start_def state_fields utf8_hex_def
      surface_storable_def surface_opened_def)

lemma body_lines:
  assumes c: "surface_storable c"
  shows "decode_all (surface_opened c) (encode_body_lines c) = Inr c"
proof -
  note s = c [unfolded surface_storable_def]
  have len: "length (cp_row_text c) = cp_rows c" using s by (simp add: client_ok_def)
  let ?p = "(surface_opened c)\<lparr>cp_cursor := cp_cursor c, cp_modes := cp_modes c, cp_title := cp_title c,
      cp_working_directory := cp_working_directory c, cp_colors := cp_colors c, cp_styles := cp_styles c,
      cp_hyperlinks := cp_hyperlinks c\<rparr>"
  have p: "client_ok ?p" "cp_rows ?p = cp_rows c" "\<forall>i < cp_rows c. cp_row_runs ?p ! i = []"
    by (simp_all add: surface_opened_def client_ok_def)
  have enum: "enumerate 0 (cp_row_text c) = map (\<lambda>i. (i, cp_row_text c ! i)) [0..<cp_rows c]"
    using len by (intro nth_equalityI) (simp_all add: nth_enumerate_eq)
  have rows: "decode_all ?p (concat (map (encode_row_lines c) (enumerate 0 (cp_row_text c)))) =
      Inr (rows_so_far c (cp_rows c) ?p)"
    unfolding enum using all_rows [OF c p, of "cp_rows c"] by simp
  have all: "rows_so_far c (cp_rows c) ?p = c"
    using s by (cases c) (simp add: rows_so_far_def surface_opened_def client_ok_def)
  show ?thesis
    using s rows all
    by (simp add: encode_body_lines_def decode_all_append cursor_line modes_line text_lines colors_line style_lines
        hyperlink_lines surface_opened_def)
qed

lemma row_runs_for_text_in:
  assumes "length row_runs = length row_text" and "runs \<in> set (row_runs_for_text row_text row_runs)"
  shows "runs \<in> set row_runs \<or> (\<exists>t. runs = [cell_run_plain t])"
  using assms by (auto simp: row_runs_for_text_def dest: set_zip_rightD split: if_splits)

lemma surface_finish:
  assumes "surface_storable c" shows "state_surface_finish c = Inr (reopened c)"
proof -
  note s = assms [unfolded surface_storable_def]
  have plain: "validate_cell_run_style_ids [cell_run_plain t] ss = Inr ()"
    "validate_cell_run_hyperlink_ids [cell_run_plain t] hs = Inr ()" for t ss hs
    by (simp_all add: validate_cell_run_style_ids_def validate_cell_run_hyperlink_ids_def cell_run_plain_def
        less_max_iff_disj)
  have len: "length (cp_row_runs c) = length (cp_row_text c)" using s by (simp add: client_ok_def)
  have "validate_cached_row_style_ids (cp_row_runs (reopened c)) (cp_styles c) = Inr ()"
    "validate_cached_row_hyperlink_ids (cp_row_runs (reopened c)) (cp_hyperlinks c) = Inr ()"
    using s row_runs_for_text_in [OF len] plain
    by (fastforce simp: reopened_def validate_cached_row_style_ids_def validate_cached_row_hyperlink_ids_def each_res_Inr_iff)+
  then show ?thesis using s by (simp add: state_surface_finish_def state_table_def Let_def reopened_def)
qed

subsection \<open>The file\<close>

lemma surface_read:
  assumes c: "surface_storable c"
  shows "decode_lines s (encode_surface_lines c @ rest) =
    decode_lines (s\<lparr>ca_surfaces := ca_surfaces s @ [reopened c]\<rparr>) rest"
proof -
  have parts: "split_on 32 (encode_surface_line c) = [lit ''surface'', hex_encode (utf8_bytes (cp_pane_id c)),
      dec_str (cp_version c), dec_str (cp_cols c), dec_str (cp_rows c), int_str (surface_kind_code (cp_surface c))]"
    by (simp add: encode_surface_line_def decode_fields)
  have "decode_body (surface_opened c) (encode_body_lines c @ [lit ''end''] @ rest) = Inr (c, rest)"
    using decode_body_all [OF body_lines [OF c], of rest] by simp
  with surface_line [OF c] surface_finish [OF c] show ?thesis
    unfolding parts by (simp add: encode_surface_lines_def decode_lines.simps(2) parts is_scope_line_def Let_def)
qed

lemma surfaces_read:
  "\<forall>c \<in> set cs. surface_storable c \<Longrightarrow>
     decode_lines s (concat (map encode_surface_lines cs)) = Inr (s\<lparr>ca_surfaces := ca_surfaces s @ map reopened cs\<rparr>)"
proof (induction cs arbitrary: s)
  case (Cons c cs)
  then show ?case using surface_read [of c s "concat (map encode_surface_lines cs)"] by simp
qed (simp add: decode_lines.simps)

lemma scrollback_read:
  assumes "list_all scalar (cb_pane_id b) \<and> cb_version b \<le> U64_MAX \<and> 0 < cb_start_line b \<and> cb_start_line b \<le> U64_MAX \<and>
    0 < cb_line_count b \<and> cb_line_count b \<le> U32_MAX \<and> cb_total_lines b \<le> U64_MAX"
  shows "decode_lines s (encode_scrollback b # rest) =
    decode_lines (s\<lparr>ca_scrollbacks := ca_scrollbacks s @ [b]\<rparr>) rest"
  using assms
  by (cases b) (simp add: encode_scrollback_def decode_lines.simps(2) decode_fields is_scope_line_def state_scrollback_def
      state_fields utf8_hex_def)

lemma scrollbacks_read:
  "\<forall>b \<in> set bs. list_all scalar (cb_pane_id b) \<and> cb_version b \<le> U64_MAX \<and> 0 < cb_start_line b \<and>
      cb_start_line b \<le> U64_MAX \<and> 0 < cb_line_count b \<and> cb_line_count b \<le> U32_MAX \<and> cb_total_lines b \<le> U64_MAX \<Longrightarrow>
     decode_lines s (map encode_scrollback bs @ rest) = decode_lines (s\<lparr>ca_scrollbacks := ca_scrollbacks s @ bs\<rparr>) rest"
proof (induction bs arbitrary: s)
  case (Cons b bs)
  then show ?case by (simp add: scrollback_read)
qed simp

lemma scope_read:
  assumes "si_dev i \<le> U64_MAX \<and> si_ino i \<le> U64_MAX \<and> - (2 ^ 63) \<le> si_ctime i \<and> si_ctime i < 2 ^ 63 \<and>
    - (2 ^ 63) \<le> si_ctime_nsec i \<and> si_ctime_nsec i < 2 ^ 63"
  shows "decode_lines s (encode_scope i # rest) = decode_lines (s\<lparr>ca_scope := Some i\<rparr>) rest"
proof -
  have parts: "split_on 32 (encode_scope i) = [lit ''scope'', lit ''socket'', dec_str (si_dev i), dec_str (si_ino i),
      int_str (si_ctime i), int_str (si_ctime_nsec i)]"
    unfolding encode_scope_def by (rule decode_fields) (simp_all add: lit_def)
  have "state_scope (drop 2 (split_on 32 (encode_scope i))) = Inr i"
    using assms unfolding parts by (cases i) (simp add: state_scope_def state_fields)
  then show ?thesis by (simp add: decode_lines.simps(2) parts is_scope_line_def)
qed

lemma printable_line: "printable l \<Longrightarrow> 10 \<notin> set l \<and> 13 \<notin> set l"
  by (auto simp: printable_def list_all_iff)

lemma encoded_lines_printable:
  "list_all printable (encode_surface_lines c)" "printable (encode_scrollback b)" "printable (encode_scope i)"
proof -
  have kw: "printable (lit s)" if "s \<in> {''scope'', ''socket'', ''scrollback'', ''surface'', ''cursor'', ''none'', ''modes'', ''title'',
      ''pwd'', ''colors'', ''style'', ''hyperlink'', ''row'', ''rowmeta'', ''run'', ''end''}" for s
    using that by (auto intro!: printable_lit)
  note d = encode_surface_lines_def encode_body_lines_def encode_cursor_def encode_modes_def encode_colors_def
    encode_style_def encode_hyperlink_def encode_row_lines_def encode_row_def encode_rowmeta_def encode_run_def
    encode_surface_line_def
  show "printable (encode_scrollback b)" "printable (encode_scope i)"
    by (simp_all add: encode_scrollback_def encode_scope_def printable_line_of kw)
  show "list_all printable (encode_surface_lines c)"
    by (auto simp: d list_all_iff kw intro!: printable_line_of split: option.splits)
qed

lemma state_lines_printable:
  "list_all printable (concat (map encode_surface_lines cs))" "list_all printable (map encode_scrollback bs)"
  using encoded_lines_printable by (auto simp: list_all_iff)

lemma decode_encode_state:
  assumes "state_storable s"
  shows "decode_state (encode_state s) = Inr (s\<lparr>ca_surfaces := map reopened (ca_surfaces s)\<rparr>)"
proof -
  let ?header = "lit ''NMUX_CLIENT_STATE 8''"
  let ?ls = "(case ca_scope s of Some i \<Rightarrow> [encode_scope i] | None \<Rightarrow> []) @
      map encode_scrollback (ca_scrollbacks s) @ concat (map encode_surface_lines (ca_surfaces s))"
  have "list_all printable ?ls"
    using encoded_lines_printable(3) state_lines_printable by (auto split: option.splits)
  moreover have "printable ?header" by (rule printable_lit) simp
  ultimately have lines: "str_lines (encode_state s) = ?header # ?ls"
    unfolding encode_state_def
    by (subst str_lines_unlines) (auto simp: list_all_iff dest!: printable_line)
  have header: "?header \<in> set state_headers" by (simp add: state_headers_def lit_def)
  have "decode_lines client_attach_state_default ?ls = Inr (s\<lparr>ca_surfaces := map reopened (ca_surfaces s)\<rparr>)"
  proof (cases "ca_scope s")
    case None
    with assms show ?thesis
      by (cases s) (simp add: state_storable_def scrollbacks_read surfaces_read client_attach_state_default_def)
  next
    case (Some i)
    with assms show ?thesis
      by (cases s) (simp add: state_storable_def scope_read scrollbacks_read surfaces_read client_attach_state_default_def)
  qed
  with header show ?thesis by (simp add: decode_state_def lines)
qed

subsection \<open>What a file can bring in\<close>

lemma put_ok:
  "put_prompt i v p = Inr q \<Longrightarrow> client_ok p \<Longrightarrow> client_ok q"
  "put_dirty i v p = Inr q \<Longrightarrow> client_ok p \<Longrightarrow> client_ok q"
  "put_kitty i v p = Inr q \<Longrightarrow> client_ok p \<Longrightarrow> client_ok q"
  "put_state_hash i v p = Inr q \<Longrightarrow> client_ok p \<Longrightarrow> client_ok q"
  "put_dirty_hash i v p = Inr q \<Longrightarrow> client_ok p \<Longrightarrow> client_ok q"
  by (auto simp: put_prompt_def put_dirty_def put_kitty_def put_state_hash_def put_dirty_hash_def bind_res_Inr_iff
      client_ok_def)

lemma state_rowmeta_ok: "state_rowmeta p args = Inr q \<Longrightarrow> client_ok p \<Longrightarrow> client_ok q"
  by (auto simp: state_rowmeta_def bind_res_Inr_iff split: list.split_asm dest!: put_ok)

lemma push_run_ok: "push_run p row fs h c = Inr q \<Longrightarrow> client_ok p \<Longrightarrow> client_ok q"
  by (auto simp: push_run_def bind_res_Inr_iff client_ok_def)

lemma state_row_ok: "state_row p args = Inr q \<Longrightarrow> client_ok p \<Longrightarrow> client_ok q"
  by (auto simp: state_row_def bind_res_Inr_iff client_ok_def split: list.split_asm)

lemma state_run_ok: "state_run p args = Inr q \<Longrightarrow> client_ok p \<Longrightarrow> client_ok q"
  by (auto simp: state_run_def split: list.split_asm dest: push_run_ok)

lemma client_ok_other_fields [simp]:
  "client_ok (p\<lparr>cp_cursor := a\<rparr>) = client_ok p" "client_ok (p\<lparr>cp_modes := b\<rparr>) = client_ok p"
  "client_ok (p\<lparr>cp_title := c\<rparr>) = client_ok p" "client_ok (p\<lparr>cp_working_directory := d\<rparr>) = client_ok p"
  "client_ok (p\<lparr>cp_colors := e\<rparr>) = client_ok p" "client_ok (p\<lparr>cp_styles := f\<rparr>) = client_ok p"
  "client_ok (p\<lparr>cp_hyperlinks := g\<rparr>) = client_ok p"
  by (simp_all add: client_ok_def)

lemma decode_body_line_ok: "decode_body_line p l = Inr q \<Longrightarrow> client_ok p \<Longrightarrow> client_ok q"
  by (auto simp: decode_body_line_def bind_res_Inr_iff split: list.split_asm if_split_asm
      dest: state_row_ok state_rowmeta_ok state_run_ok)

lemma decode_body_ok: "decode_body p ls = Inr (q, rest) \<Longrightarrow> client_ok p \<Longrightarrow> client_ok q"
  by (induction ls arbitrary: p) (auto simp: bind_res_Inr_iff split: if_split_asm dest: decode_body_line_ok)

definition surface_checked :: "client_pane \<Rightarrow> bool" where
  \<comment> \<open>what the client relies on: parallel row vectors, a valid hyperlink table, a style table, and runs that
     refer to both\<close>
  "surface_checked c \<longleftrightarrow> client_ok c \<and> validate_hyperlink_table (cp_hyperlinks c) = Inr () \<and> cp_styles c \<noteq> [] \<and>
     validate_cached_row_style_ids (cp_row_runs c) (cp_styles c) = Inr () \<and>
     validate_cached_row_hyperlink_ids (cp_row_runs c) (cp_hyperlinks c) = Inr () \<and>
     map render_run_summaries (cp_row_runs c) = cp_row_text c"

lemma row_runs_for_text_spell:
  "length row_runs = length row_text \<Longrightarrow> map render_run_summaries (row_runs_for_text row_text row_runs) = row_text"
  by (rule nth_equalityI) (auto simp: row_runs_for_text_def render_run_summaries_def cell_run_plain_def)

lemma state_table_Inr_iff [simp]: "state_table r = Inr u \<longleftrightarrow> r = Inr ()"
  by (simp add: state_table_def split: sum.split)

lemma state_surface_finish_checked:
  assumes fin: "state_surface_finish p = Inr q" and p: "client_ok p" shows "surface_checked q"
proof -
  let ?runs = "row_runs_for_text (cp_row_text p) (cp_row_runs p)"
  let ?styles = "if cp_styles p = [] then default_style_summaries else cp_styles p"
  from fin have v: "validate_hyperlink_table (cp_hyperlinks p) = Inr ()"
      "validate_cached_row_style_ids ?runs ?styles = Inr ()" "validate_cached_row_hyperlink_ids ?runs (cp_hyperlinks p) = Inr ()"
    and q: "q = p\<lparr>cp_row_runs := ?runs, cp_styles := ?styles\<rparr>"
    by (simp_all add: state_surface_finish_def bind_res_Inr_iff Let_def)
  have len: "length (cp_row_runs p) = length (cp_row_text p)" using p by (simp add: client_ok_def)
  have "length ?runs = cp_rows p" using p by (simp add: client_ok_def row_runs_for_text_def)
  then have "client_ok q" using p by (simp add: q client_ok_def)
  moreover have "?styles \<noteq> []" by (simp add: default_style_summaries_def)
  ultimately show ?thesis using v row_runs_for_text_spell [OF len] by (simp add: surface_checked_def q)
qed

lemma state_surface_start_ok: "state_surface_start args = Inr p \<Longrightarrow> client_ok p"
  by (auto simp: state_surface_start_def bind_res_Inr_iff client_ok_def split: if_split_asm)

lemma decode_lines_checked:
  "decode_lines s ls = Inr s' \<Longrightarrow> \<forall>c \<in> set (ca_surfaces s). surface_checked c \<Longrightarrow>
     \<forall>c \<in> set (ca_surfaces s'). surface_checked c"
proof (induction s ls arbitrary: s' rule: decode_lines.induct)
  case (2 s line lines)
  let ?parts = "split_on 32 line"
  note step = "2.prems"(1) [unfolded decode_lines.simps(2) Let_def]
  consider (scope) "is_scope_line ?parts"
    | (scrollback) "\<not> is_scope_line ?parts" "length ?parts = 6 \<and> hd ?parts = lit ''scrollback''"
    | (surface) "\<not> is_scope_line ?parts" "\<not> (length ?parts = 6 \<and> hd ?parts = lit ''scrollback'')" by blast
  then show ?case
  proof cases
    case scope
    with step obtain i where "decode_lines (s\<lparr>ca_scope := Some i\<rparr>) lines = Inr s'" by (auto simp: bind_res_Inr_iff)
    from "2.IH"(1) [OF refl scope this] "2.prems"(2) show ?thesis by simp
  next
    case scrollback
    with step obtain b where "decode_lines (s\<lparr>ca_scrollbacks := ca_scrollbacks s @ [b]\<rparr>) lines = Inr s'"
      by (auto simp: bind_res_Inr_iff)
    from "2.IH"(2) [OF refl scrollback this] "2.prems"(2) show ?thesis by simp
  next
    case surface
    with step have hd: "\<not> hd ?parts \<noteq> lit ''surface''" by (auto split: if_split_asm)
    note tail = step [unfolded if_not_P [OF surface(1)] if_not_P [OF surface(2)] if_not_P [OF hd]]
    from tail obtain p where start: "state_surface_start (tl ?parts) = Inr p" by (auto simp: bind_res_Inr_iff)
    with tail obtain q rest where body: "decode_body p lines = Inr (q, rest)" by (cases "decode_body p lines") auto
    from tail have "bind_res (state_surface_finish q) (\<lambda>c. decode_lines (s\<lparr>ca_surfaces := ca_surfaces s @ [c]\<rparr>) rest) =
        Inr s'" by (simp only: start body bind_res_simps sum.case prod.case)
    then obtain c where "state_surface_finish q = Inr c"
      and rec: "decode_lines (s\<lparr>ca_surfaces := ca_surfaces s @ [c]\<rparr>) rest = Inr s'"
      unfolding bind_res_Inr_iff by blast
    note dec = start body this(1)
    have "surface_checked c"
      using dec state_surface_start_ok decode_body_ok state_surface_finish_checked by blast
    then have "\<forall>x \<in> set (ca_surfaces (s\<lparr>ca_surfaces := ca_surfaces s @ [c]\<rparr>)). surface_checked x"
      using "2.prems"(2) by simp
    with "2.IH"(3) [OF refl surface hd dec(2) refl rec] show ?thesis by blast
  qed
qed (simp add: decode_lines.simps)

end
