(* ===== verification/Client_Cache.thy ===== *)
theory Client_Cache
  imports Client_State Surface_Delivery
begin

text \<open>
  The operations on the client's cache: what it tells the server it knows, how an attach is rendered, how
  updates and scrollback chunks enter it (\<open>ClientAttachState\<close> of
  \<open>crates/nmux-cli/src/local/client_state.rs\<close>).

  The lemmas: the cache keeps one well formed surface per pane, operations touch no other pane, a rendered
  attach shows the version the server announced, and an attach against the server's session ends with the
  server's pane.
\<close>

record known_surface_version =
  ks_pane_id :: ustring
  ks_version :: u64

record known_scrollback_version =
  kb_pane_id :: ustring
  kb_start_line :: u64
  kb_line_count :: u32
  kb_version :: u64

record state_surface_summary =
  zs_pane_id :: ustring
  zs_version :: u64
  zs_cols :: u32
  zs_rows :: u32
  zs_surface_kind :: surface_kind
  zs_title :: ustring
  zs_working_directory :: ustring
  zs_cursor :: "cursor option"
  zs_modes :: terminal_modes

record client_state_summary =
  zz_scope :: "socket_identity option"
  zz_surfaces :: "state_surface_summary list"
  zz_scrollbacks :: "client_scrollback list"

record metadata_summary =
  md_title :: ustring
  md_working_directory :: ustring

record cached_surface =
  cc_surface_kind :: surface_kind
  cc_cursor :: "cursor option"
  cc_modes :: terminal_modes

record attach_snapshot =
  at_workspace :: workspace_summary
  at_presence :: presence_summary
  at_status :: attach_status_summary
  at_surface :: "surface_update option"
  at_scrollback :: "scrollback_chunk_summary option"

record rendered_attach =
  ra_workspace :: workspace_summary
  ra_status :: attach_status_summary
  ra_surface_metadata :: metadata_summary
  ra_surface_kind :: surface_kind
  ra_cursor :: "cursor option"
  ra_modes :: terminal_modes
  ra_surface :: rendered_surface_summary
  ra_surface_text :: "ustring option"
  ra_scrollback :: "scrollback_chunk_summary option"

datatype cache_error =
  CacheClient client_error
| CacheNeedsSurface attach_surface_state
| CacheNoSurface ustring
| CacheVersion ustring u64 u64
| CacheNoSnapshot ustring

subsection \<open>Looking things up\<close>

definition cached :: "client_attach_state \<Rightarrow> ustring \<Rightarrow> client_pane option" where
  \<comment> \<open>\<open>self.surfaces.iter().find(|surface| surface.pane_id == pane_id)\<close>\<close>
  "cached s pane_id = find (\<lambda>c. cp_pane_id c = pane_id) (ca_surfaces s)"

definition state_summary :: "client_attach_state \<Rightarrow> client_state_summary" where
  "state_summary s =
     \<lparr>zz_scope = ca_scope s,
      zz_surfaces = map (\<lambda>c. \<lparr>zs_pane_id = cp_pane_id c, zs_version = cp_version c, zs_cols = cp_cols c,
        zs_rows = cp_rows c, zs_surface_kind = cp_surface c, zs_title = cp_title c,
        zs_working_directory = cp_working_directory c, zs_cursor = cp_cursor c, zs_modes = cp_modes c\<rparr>) (ca_surfaces s),
      zz_scrollbacks = ca_scrollbacks s\<rparr>"

definition known_surfaces :: "client_attach_state \<Rightarrow> known_surface_version list" where
  "known_surfaces s = map (\<lambda>c. \<lparr>ks_pane_id = cp_pane_id c, ks_version = cp_version c\<rparr>) (ca_surfaces s)"

definition known_surfaces_for_scope :: "client_attach_state \<Rightarrow> socket_identity option \<Rightarrow> known_surface_version list" where
  "known_surfaces_for_scope s scope = (if ca_scope s = scope then known_surfaces s else [])"

definition same_range :: "ustring \<Rightarrow> u64 \<Rightarrow> u32 \<Rightarrow> client_scrollback \<Rightarrow> bool" where
  "same_range pane_id start_line line_count b \<longleftrightarrow>
     cb_pane_id b = pane_id \<and> cb_start_line b = start_line \<and> cb_line_count b = line_count"

definition cached_scrollback_version :: "client_attach_state \<Rightarrow> ustring \<Rightarrow> u64 \<Rightarrow> u32 \<Rightarrow> u64 option" where
  "cached_scrollback_version s pane_id start_line line_count =
     map_option cb_version (find (same_range pane_id start_line line_count) (ca_scrollbacks s))"

definition cached_scrollback_version_for_scope ::
  "client_attach_state \<Rightarrow> socket_identity option \<Rightarrow> ustring \<Rightarrow> u64 \<Rightarrow> u32 \<Rightarrow> u64 option" where
  "cached_scrollback_version_for_scope s scope pane_id start_line line_count =
     (if ca_scope s \<noteq> scope then None else cached_scrollback_version s pane_id start_line line_count)"

definition known_scrollback_versions_for_scope ::
  "client_attach_state \<Rightarrow> socket_identity option \<Rightarrow> known_scrollback_version list" where
  "known_scrollback_versions_for_scope s scope =
     (if ca_scope s \<noteq> scope then []
      else map (\<lambda>b. \<lparr>kb_pane_id = cb_pane_id b, kb_start_line = cb_start_line b, kb_line_count = cb_line_count b,
                     kb_version = cb_version b\<rparr>) (ca_scrollbacks s))"

definition apply_scope :: "client_attach_state \<Rightarrow> socket_identity option \<Rightarrow> client_attach_state" where
  "apply_scope s scope =
     (let s = (if ca_scope s \<noteq> scope then s\<lparr>ca_surfaces := [], ca_scrollbacks := []\<rparr> else s) in s\<lparr>ca_scope := scope\<rparr>)"

definition metadata_from_surface :: "client_pane \<Rightarrow> metadata_summary" where
  "metadata_from_surface c = \<lparr>md_title = cp_title c, md_working_directory = cp_working_directory c\<rparr>"

definition render_surface :: "bool \<Rightarrow> client_pane \<Rightarrow> ustring" where
  \<comment> \<open>\<open>if styled && surface.has_styled_runs()\<close>\<close>
  "render_surface styled c = (if styled \<and> has_styled_runs c then render_styled_text c else render_text c)"

definition cached_surface_text :: "client_attach_state \<Rightarrow> ustring \<Rightarrow> ustring option" where
  "cached_surface_text s pane_id = map_option render_text (cached s pane_id)"

definition cached_surface_text_styled :: "client_attach_state \<Rightarrow> ustring \<Rightarrow> bool \<Rightarrow> ustring option" where
  "cached_surface_text_styled s pane_id styled = map_option (render_surface styled) (cached s pane_id)"

definition cached_surface_metadata :: "client_attach_state \<Rightarrow> ustring \<Rightarrow> metadata_summary option" where
  "cached_surface_metadata s pane_id = map_option metadata_from_surface (cached s pane_id)"

definition cached_surface_modes :: "client_attach_state \<Rightarrow> ustring \<Rightarrow> terminal_modes option" where
  "cached_surface_modes s pane_id = map_option cp_modes (cached s pane_id)"

definition cached_surface_summary :: "client_attach_state \<Rightarrow> ustring \<Rightarrow> cached_surface option" where
  "cached_surface_summary s pane_id =
     map_option (\<lambda>c. \<lparr>cc_surface_kind = cp_surface c, cc_cursor = cp_cursor c, cc_modes = cp_modes c\<rparr>) (cached s pane_id)"

definition cached_rendered_surface_summary :: "client_attach_state \<Rightarrow> ustring \<Rightarrow> rendered_surface_summary option" where
  "cached_rendered_surface_summary s pane_id = map_option client_summary (cached s pane_id)"

definition cached_current_surface :: "client_attach_state \<Rightarrow> ustring \<Rightarrow> u64 \<Rightarrow> (cache_error, client_pane) res" where
  "cached_current_surface s pane_id version =
     (case cached s pane_id of
        None \<Rightarrow> Inl (CacheNoSurface pane_id)
      | Some c \<Rightarrow> if cp_version c \<noteq> version then Inl (CacheVersion pane_id (cp_version c) version) else Inr c)"

subsection \<open>Changing the cache\<close>

definition apply_surface_update_styled ::
  "client_attach_state \<Rightarrow> surface_update \<Rightarrow> bool \<Rightarrow> client_attach_state \<times> (cache_error, ustring) res" where
  \<comment> \<open>a refused update leaves the surface as it is: \<open>apply_patch\<close> checks before it assigns\<close>
  "apply_surface_update_styled s u styled =
     (case cached s (su_pane_id u) of
        Some c \<Rightarrow>
          (case client_apply_update c u of
             Inl e \<Rightarrow> (s, Inl (CacheClient e))
           | Inr c' \<Rightarrow>
               (s\<lparr>ca_surfaces := modify_first (\<lambda>c. cp_pane_id c = su_pane_id u) (\<lambda>_. c') (ca_surfaces s)\<rparr>,
                Inr (render_surface styled c')))
      | None \<Rightarrow>
          if su_kind u \<noteq> UpdateSnapshot then (s, Inl (CacheNoSnapshot (su_pane_id u)))
          else
            (case client_from_snapshot u of
               Inl e \<Rightarrow> (s, Inl (CacheClient e))
             | Inr c \<Rightarrow> (s\<lparr>ca_surfaces := ca_surfaces s @ [c]\<rparr>, Inr (render_surface styled c))))"

definition apply_surface_update ::
  "client_attach_state \<Rightarrow> surface_update \<Rightarrow> client_attach_state \<times> (cache_error, ustring) res" where
  "apply_surface_update s u = apply_surface_update_styled s u False"

definition cache_scrollback_chunk :: "client_attach_state \<Rightarrow> scrollback_chunk_summary \<Rightarrow> client_attach_state" where
  "cache_scrollback_chunk s chunk =
     (if sc_lines chunk = [] then s
      else
        (let line_count = (if length (sc_lines chunk) \<le> U32_MAX then length (sc_lines chunk) else U32_MAX);
             b = \<lparr>cb_pane_id = sc_pane_id chunk, cb_version = sc_scrollback_version chunk,
                  cb_start_line = sc_start_line chunk, cb_line_count = line_count, cb_total_lines = sc_total_lines chunk\<rparr>;
             same = same_range (cb_pane_id b) (cb_start_line b) (cb_line_count b)
         in if find same (ca_scrollbacks s) \<noteq> None
            then s\<lparr>ca_scrollbacks := modify_first same (\<lambda>_. b) (ca_scrollbacks s)\<rparr>
            else s\<lparr>ca_scrollbacks := ca_scrollbacks s @ [b]\<rparr>))"

definition render_attach_surface ::
  "client_attach_state \<Rightarrow> attach_snapshot \<Rightarrow> client_attach_state \<times> (cache_error, ustring option) res" where
  \<comment> \<open>the value of \<open>surface_text\<close>\<close>
  "render_attach_surface s snapshot =
     (let status = at_status snapshot in
      case at_surface snapshot of
        Some u \<Rightarrow>
          (case validate_attach_surface_update (as_pane_id status) (as_surface_state status) u of
             Inl e \<Rightarrow> (s, Inl (CacheClient e))
           | Inr _ \<Rightarrow> (case apply_surface_update s u of (s', r) \<Rightarrow> (s', bind_res r (\<lambda>t. Inr (Some t)))))
      | None \<Rightarrow>
          if as_surface_state status \<noteq> AttachCurrent then (s, Inl (CacheNeedsSurface (as_surface_state status)))
          else (s, bind_res (cached_current_surface s (as_pane_id status) (as_surface_version status))
                     (\<lambda>c. Inr (Some (render_text c)))))"

definition render_attach ::
  "client_attach_state \<Rightarrow> attach_snapshot \<Rightarrow> client_attach_state \<times> (cache_error, rendered_attach) res" where
  "render_attach s snapshot =
     (let status = at_status snapshot in
      case render_attach_surface s snapshot of
        (s, Inl e) \<Rightarrow> (s, Inl e)
      | (s, Inr surface_text) \<Rightarrow>
          (case cached_current_surface s (as_pane_id status) (as_surface_version status) of
             Inl e \<Rightarrow> (s, Inl e)
           | Inr c \<Rightarrow>
               ((case at_scrollback snapshot of None \<Rightarrow> s | Some chunk \<Rightarrow> cache_scrollback_chunk s chunk),
                Inr \<lparr>ra_workspace = at_workspace snapshot, ra_status = status,
                     ra_surface_metadata = metadata_from_surface c, ra_surface_kind = cp_surface c,
                     ra_cursor = cp_cursor c, ra_modes = cp_modes c, ra_surface = client_summary c,
                     ra_surface_text = surface_text, ra_scrollback = at_scrollback snapshot\<rparr>)))"

subsection \<open>One surface per pane\<close>

definition cache_ok :: "client_attach_state \<Rightarrow> bool" where
  "cache_ok s \<longleftrightarrow> distinct (map cp_pane_id (ca_surfaces s)) \<and> (\<forall>c \<in> set (ca_surfaces s). client_ok c)"

lemma cached_key: "cached s k = Some c \<Longrightarrow> cp_pane_id c = k \<and> c \<in> set (ca_surfaces s)"
  by (auto simp: cached_def find_Some_iff)

lemma cached_None: "cached s k = None \<longleftrightarrow> k \<notin> cp_pane_id ` set (ca_surfaces s)"
  by (auto simp: cached_def find_None_iff)

lemma cached_append: "cached (s\<lparr>ca_surfaces := ca_surfaces s @ [c]\<rparr>) k =
    (case cached s k of None \<Rightarrow> if cp_pane_id c = k then Some c else None | Some x \<Rightarrow> Some x)"
  by (auto simp: cached_def find_append split: option.split)

lemma cached_replace:
  assumes "cp_pane_id c' = j"
  shows "cached (s\<lparr>ca_surfaces := modify_first (\<lambda>c. cp_pane_id c = j) (\<lambda>_. c') (ca_surfaces s)\<rparr>) k =
    (if k = j then map_option (\<lambda>_. c') (cached s j) else cached s k)"
  using assms by (auto simp: cached_def find_modify_first_same find_modify_first_other)

lemma client_apply_update_pane:
  assumes "client_apply_update c u = Inr c'" and "su_pane_id u = cp_pane_id c"
  shows "cp_pane_id c' = cp_pane_id c"
  using assms
  by (auto simp: client_apply_update_def client_from_snapshot_ok client_apply_patch_contract
      split: surface_update_kind.split_asm)

lemma apply_surface_update_styled_Inr:
  assumes "apply_surface_update_styled s u styled = (s', Inr t)"
  shows "\<exists>c'. cached s' (su_pane_id u) = Some c' \<and> t = render_surface styled c' \<and> cp_version c' = su_version u \<and>
    (\<forall>k. k \<noteq> su_pane_id u \<longrightarrow> cached s' k = cached s k) \<and>
    (case cached s (su_pane_id u) of
       Some c \<Rightarrow> client_apply_update c u = Inr c' | None \<Rightarrow> client_from_snapshot u = Inr c')"
proof (cases "cached s (su_pane_id u)")
  case None
  with assms obtain c' where c': "client_from_snapshot u = Inr c'" "s' = s\<lparr>ca_surfaces := ca_surfaces s @ [c']\<rparr>"
    "t = render_surface styled c'"
    by (auto simp: apply_surface_update_styled_def split: if_split_asm sum.split_asm)
  have "cp_pane_id c' = su_pane_id u" "cp_version c' = su_version u" using client_from_snapshot_ok [OF c'(1)] by simp_all
  with c' None show ?thesis by (auto simp: cached_append split: option.split)
next
  case (Some c)
  with assms obtain c' where c': "client_apply_update c u = Inr c'" "t = render_surface styled c'"
    "s' = s\<lparr>ca_surfaces := modify_first (\<lambda>c. cp_pane_id c = su_pane_id u) (\<lambda>_. c') (ca_surfaces s)\<rparr>"
    by (auto simp: apply_surface_update_styled_def split: sum.split_asm)
  have id: "cp_pane_id c' = su_pane_id u"
    using client_apply_update_pane [OF c'(1)] cached_key [OF Some] by simp
  have v: "cp_version c' = su_version u"
    using c'(1) by (auto simp: client_apply_update_def client_from_snapshot_ok client_apply_patch_contract
        split: surface_update_kind.split_asm)
  show ?thesis
    using c' id v Some
    by (simp add: cached_replace)
qed

lemma apply_surface_update_keeps_ok:
  assumes "cache_ok s" shows "cache_ok (fst (apply_surface_update_styled s u styled))"
proof (cases "cached s (su_pane_id u)")
  case None
  have "su_pane_id u \<notin> cp_pane_id ` set (ca_surfaces s)" using None by (simp add: cached_None)
  with None assms show ?thesis
    by (auto simp: apply_surface_update_styled_def cache_ok_def client_from_snapshot_ok split: sum.split)
next
  case (Some c)
  have "client_ok c" using cached_key [OF Some] assms by (simp add: cache_ok_def)
  then have new: "client_ok c' \<and> cp_pane_id c' = su_pane_id u" if "client_apply_update c u = Inr c'" for c'
    using that cached_key [OF Some] client_apply_update_ok client_apply_update_pane by metis
  let ?P = "\<lambda>c. cp_pane_id c = su_pane_id u"
  have keys: "map cp_pane_id (modify_first ?P (\<lambda>_. c') xs) = map cp_pane_id xs" if "?P c'" for c' xs
    using that by (induction xs) auto
  show ?thesis
    using Some assms new keys
    by (auto simp: apply_surface_update_styled_def cache_ok_def dest!: set_modify_first split: sum.split)
qed

lemma cache_scrollback_chunk_surfaces [simp]:
  "ca_surfaces (cache_scrollback_chunk s chunk) = ca_surfaces s" "ca_scope (cache_scrollback_chunk s chunk) = ca_scope s"
  by (simp_all add: cache_scrollback_chunk_def Let_def)

lemma cached_cong: "ca_surfaces s = ca_surfaces t \<Longrightarrow> cached s k = cached t k"
  by (simp add: cached_def)

lemma cache_ok_cong: "ca_surfaces s = ca_surfaces t \<Longrightarrow> cache_ok s = cache_ok t"
  by (simp add: cache_ok_def)

lemma render_attach_surfaces: "ca_surfaces (fst (render_attach s a)) = ca_surfaces (fst (render_attach_surface s a))"
  by (auto simp: render_attach_def Let_def split: prod.split sum.split option.split)

lemma render_attach_surface_fst:
  "fst (render_attach_surface s a) = s \<or> (\<exists>u. fst (render_attach_surface s a) = fst (apply_surface_update_styled s u False))"
  by (auto simp: render_attach_surface_def apply_surface_update_def Let_def case_prod_beta split: option.split sum.split)

lemma render_attach_keeps_ok: "cache_ok s \<Longrightarrow> cache_ok (fst (render_attach s a))"
  using render_attach_surface_fst [of s a] apply_surface_update_keeps_ok [of s]
  by (metis cache_ok_cong render_attach_surfaces)

text \<open>What a rendered attach shows.\<close>

lemma render_attach_Inr:
  assumes "render_attach s a = (s', Inr r)"
  shows "\<exists>c. cached s' (as_pane_id (at_status a)) = Some c \<and> cp_version c = as_surface_version (at_status a) \<and>
    ra_surface_text r = Some (render_text c) \<and> ra_surface r = client_summary c \<and>
    (\<forall>k. k \<noteq> as_pane_id (at_status a) \<longrightarrow> cached s' k = cached s k)"
proof -
  let ?k = "as_pane_id (at_status a)" and ?v = "as_surface_version (at_status a)"
  obtain s1 t where surf: "render_attach_surface s a = (s1, Inr t)"
    using assms by (auto simp: render_attach_def Let_def split: prod.split_asm sum.split_asm)
  with assms obtain c where c: "cached_current_surface s1 ?k ?v = Inr c"
    and r: "ra_surface_text r = t" "ra_surface r = client_summary c" and s': "ca_surfaces s' = ca_surfaces s1"
    by (auto simp: render_attach_def Let_def split: sum.split_asm option.split_asm)
  have cur: "cached s1 ?k = Some c" "cp_version c = ?v"
    using c by (auto simp: cached_current_surface_def split: option.split_asm if_split_asm)
  have "t = Some (render_text c) \<and> (\<forall>k. k \<noteq> ?k \<longrightarrow> cached s1 k = cached s k)"
  proof (cases "at_surface a")
    case None
    with surf cur show ?thesis
      by (auto simp: render_attach_surface_def Let_def bind_res_Inr_iff cached_current_surface_def
          split: if_split_asm option.split_asm)
  next
    case (Some u)
    with surf obtain v where "apply_surface_update_styled s u False = (s1, Inr v)" "t = Some v"
      and "su_pane_id u = ?k"
      by (auto simp: render_attach_surface_def Let_def apply_surface_update_def bind_res_Inr_iff
          validate_attach_surface_update_def split: sum.split_asm prod.split_asm if_split_asm)
    with apply_surface_update_styled_Inr [OF this(1)] cur show ?thesis by (auto simp: render_surface_def)
  qed
  with cur r cached_cong [OF s'] show ?thesis by auto
qed

subsection \<open>An attach against the server\<close>

definition attach_surface_update :: "session \<Rightarrow> ustring \<Rightarrow> u64 \<Rightarrow> surface_response option \<Rightarrow> surface_update option" where
  \<comment> \<open>what the client decodes from the surface frame the server sends with the response\<close>
  "attach_surface_update s pane_id seq response =
     Option.bind response (\<lambda>r.
     Option.bind (surface_response_frame s pane_id r seq) (\<lambda>e.
       case surface_update_from_frame e of Inl _ \<Rightarrow> None | Inr u \<Rightarrow> Some u))"

definition known_pairs :: "client_attach_state \<Rightarrow> (ustring \<times> u64) list" where
  "known_pairs st = map (\<lambda>k. (ks_pane_id k, ks_version k)) (known_surfaces st)"

lemma known_pairs_find:
  "find (\<lambda>x. fst x = k) (known_pairs st) = map_option (\<lambda>c. (cp_pane_id c, cp_version c)) (cached st k)"
proof -
  have "find (\<lambda>x. fst x = k) (map (\<lambda>c. (cp_pane_id c, cp_version c)) cs) =
      map_option (\<lambda>c. (cp_pane_id c, cp_version c)) (find (\<lambda>c. cp_pane_id c = k) cs)" for cs
    by (induction cs) auto
  then show ?thesis by (simp add: known_pairs_def known_surfaces_def cached_def comp_def)
qed

lemma update_kinds:
  "snapshot_update w = Inr u \<Longrightarrow> su_kind u = UpdateSnapshot"
  "patch_update x = Inr u \<Longrightarrow> su_kind u = UpdatePatch"
  by (auto simp: snapshot_update_def patch_update_def bind_res_Inr_iff Let_def)

lemma attach_with_update:
  assumes "client_apply_update c u = Inr c'" and "cp_pane_id c' = k" and "cached st k = None \<or> cached st k = Some c"
    and "cached st k = None \<Longrightarrow> su_kind u = UpdateSnapshot" and "su_pane_id u = k" and "cp_version c' = v"
    and "as_pane_id (at_status a) = k" and "as_surface_version (at_status a) = v" and "at_surface a = Some u"
    and "as_surface_state (at_status a) = (case su_kind u of UpdateSnapshot \<Rightarrow> AttachSnapshot | UpdatePatch \<Rightarrow> AttachPatch)"
  shows "\<exists>st' r. render_attach st a = (st', Inr r) \<and> cached st' k = Some c' \<and> ra_surface_text r = Some (render_text c')"
proof -
  have valid: "validate_attach_surface_update k (as_surface_state (at_status a)) u = Inr ()"
    using assms(5,10) by (cases "su_kind u") (simp_all add: validate_attach_surface_update_def)
  obtain st1 where up: "apply_surface_update st u = (st1, Inr (render_text c'))" and look: "cached st1 k = Some c'"
  proof (cases "cached st k")
    case None
    with assms have "apply_surface_update st u = (st\<lparr>ca_surfaces := ca_surfaces st @ [c']\<rparr>, Inr (render_text c'))"
      by (simp add: apply_surface_update_def apply_surface_update_styled_def client_apply_update_def render_surface_def)
    moreover have "cached (st\<lparr>ca_surfaces := ca_surfaces st @ [c']\<rparr>) k = Some c'"
      using None assms(2) by (simp add: cached_append)
    ultimately show ?thesis by (rule that)
  next
    case (Some x)
    let ?st = "st\<lparr>ca_surfaces := modify_first (\<lambda>c. cp_pane_id c = k) (\<lambda>_. c') (ca_surfaces st)\<rparr>"
    from Some assms have "apply_surface_update st u = (?st, Inr (render_text c'))"
      by (simp add: apply_surface_update_def apply_surface_update_styled_def render_surface_def)
    moreover have "cached ?st k = Some c'" using Some assms(2) by (simp add: cached_replace)
    ultimately show ?thesis by (rule that)
  qed
  have "cached_current_surface st1 k v = Inr c'" using look assms(6) by (simp add: cached_current_surface_def)
  then show ?thesis
    using up look valid assms(7-9)
    by (auto simp: render_attach_def render_attach_surface_def cached_cong [OF cache_scrollback_chunk_surfaces(1)]
        split: option.split)
qed

lemma attach_catches_up:
  assumes look: "session_pane_data s k = Some p'" and ok: "pane_ok p'" and send: "pane_sendable p'"
    and cache: "cached st k = None \<or> (\<exists>p ss. cached st k = Some (client_of p) \<and> p' = pane_run p ss \<and> pane_ok p \<and>
      pane_sendable p \<and> pn_surface_version p + length ss \<le> U64_MAX \<and> steps_ok p ss \<and> diff_still_there p ss)"
    and resp: "response = surface_response (known_pairs st) s k"
    and status: "at_status a = \<lparr>as_pane_id = k, as_surface_version = pn_surface_version p',
      as_surface_state = attach_surface_state response\<rparr>"
    and surface: "at_surface a = attach_surface_update s k seq response"
  shows "\<exists>st' r. render_attach st a = (st', Inr r) \<and> cached st' k = Some (client_of p') \<and>
    ra_surface_text r = Some (render_text (client_of p'))"
proof -
  have id: "pn_id p' = k" using ws.look_key [OF look] .
  have copy: "cp_pane_id (client_of p') = k" "cp_version (client_of p') = pn_surface_version p'"
    using id by (simp_all add: client_of_def)
  have v: "surface_version s k = Some (pn_surface_version p')" "surface_patch_kind s k = Some (pn_last_patch_kind p')"
    using look by (simp_all add: surface_version_def surface_patch_kind_def)
  have frames: "attach_surface_update s k seq (Some ResponseSnapshot) =
      (case snapshot_update (pane_snapshot p') of Inl _ \<Rightarrow> None | Inr u \<Rightarrow> Some u)"
    "attach_surface_update s k seq (Some (ResponsePatch base)) =
      (case patch_update (pane_patch p' base) of Inl _ \<Rightarrow> None | Inr u \<Rightarrow> Some u)" for base
    by (simp_all add: attach_surface_update_def surface_response_frame_def pane_surface_frame_eq [OF look]
        pane_surface_patch_frame_eq [OF look] surface_update_from_frame_def session_envelope_def)
  note [simp] = status copy
  have snapshot: ?thesis if r: "response = Some ResponseSnapshot" and c: "cached st k = None \<or> cached st k = Some c" for c
  proof -
    from snapshot_syncs [OF send pane_ok_rows [OF ok]] obtain u
      where u: "snapshot_update (pane_snapshot p') = Inr u" "client_from_snapshot u = Inr (client_of p')" by blast
    have kind: "su_kind u = UpdateSnapshot" using update_kinds(1) [OF u(1)] .
    show ?thesis
      using c u kind client_from_snapshot_ok(4) [OF u(2)] r surface frames(1)
      by (intro attach_with_update [where c = c and u = u])
        (simp_all add: client_apply_update_def attach_surface_state_def)
  qed
  show ?thesis
  proof (cases "cached st k")
    case None
    then have "response = Some ResponseSnapshot" by (simp add: resp surface_response_def v known_pairs_find)
    with None show ?thesis using snapshot by blast
  next
    case (Some c)
    with cache obtain p ss where c: "c = client_of p" and p': "p' = pane_run p ss" and p: "pane_ok p" "pane_sendable p"
      "pn_surface_version p + length ss \<le> U64_MAX" "steps_ok p ss" "diff_still_there p ss" by auto
    have r: "response = surface_response_for_known_version (pn_surface_version p') (pn_surface_version p) (pn_last_patch_kind p')"
      using Some by (simp add: resp surface_response_def v known_pairs_find c client_of_def)
    note after = response_keeps_copy [OF p(1,3,4,2,5) p', folded r]
    show ?thesis
    proof (cases response)
      case None
      then have same: "client_of p' = c" using after by (simp add: client_after_def c)
      with Some None show ?thesis
        by (auto simp: render_attach_def render_attach_surface_def surface attach_surface_update_def attach_surface_state_def
            cached_current_surface_def copy [unfolded same] cached_cong [OF cache_scrollback_chunk_surfaces(1)]
            split: option.split)
    next
      case (Some x)
      show ?thesis
      proof (cases x)
        case ResponseSnapshot
        with Some \<open>cached st k = Some c\<close> show ?thesis using snapshot by blast
      next
        case (ResponsePatch base)
        with Some after obtain u where u: "patch_update (pane_patch p' base) = Inr u" "client_apply_update c u = Inr (client_of p')"
          by (auto simp: client_after_def bind_res_Inr_iff c)
        have kind: "su_kind u = UpdatePatch" using update_kinds(2) [OF u(1)] .
        have "su_pane_id u = k"
          using u(2) kind cached_key [OF \<open>cached st k = Some c\<close>] client_apply_patch_elim(1)
          by (auto simp: client_apply_update_def)
        with u kind \<open>cached st k = Some c\<close> Some ResponsePatch surface frames(2) show ?thesis
          by (intro attach_with_update [where c = c and u = u]) (simp_all add: attach_surface_state_def)
      qed
    qed
  qed
qed

end
