(* ===== verification/Speculative_Echo.thy ===== *)
theory Speculative_Echo
  imports Client_Cache
begin

text \<open>
  The echo a client shows before the server has answered a key
  (\<open>crates/nmux-cli/src/speculative_echo.rs\<close>, and \<open>render_speculative_echo\<close> of
  \<open>local/client_state.rs\<close>). The escape sequences that switch underlining on and off come from a
  library and are the parameter \<open>set_attribute\<close>.

  The overlay is a state machine: a key makes a prediction, an update of the surface confirms it, refutes it
  or leaves it pending; after two refuted predictions in a row three keys pass without one. The lemmas: the
  counters stay within their bounds, suppression ends, a confirmed prediction was right, and the text shown
  is that of the surface with the key typed in.
\<close>

record echo_prediction =
  ep_pane_id :: ustring
  ep_base_version :: u64
  ep_input_seq :: u64
  ep_row :: u32
  ep_col :: u32
  ep_text :: ustring

record echo_overlay =
  eo_prediction :: "echo_prediction option"
  eo_consecutive_misses :: nat
  eo_suppressed_keys :: nat

definition echo_overlay_default :: echo_overlay where
  "echo_overlay_default = \<lparr>eo_prediction = None, eo_consecutive_misses = 0, eo_suppressed_keys = 0\<rparr>"

datatype echo_reconcile = NoPrediction | PendingEcho | ConfirmedEcho | MismatchedEcho

datatype prediction_decoration = DecorationPlain | DecorationUnderlined
datatype speculative_surface_style = PlainText | StructuredSgr
datatype text_attribute = Underlined | NoUnderline

definition MAX_CONSECUTIVE_MISSES :: nat where "MAX_CONSECUTIVE_MISSES = 2"
definition RECOVERY_PREDICTABLE_KEYS :: nat where "RECOVERY_PREDICTABLE_KEYS = 3"

definition sat_add_u8 :: "nat \<Rightarrow> nat \<Rightarrow> nat" where "sat_add_u8 a b = min (a + b) 255"

definition single_predictable_char :: "ustring \<Rightarrow> uchar option" where
  "single_predictable_char t =
     (case t of
        [] \<Rightarrow> None
      | ch # rest \<Rightarrow> if rest \<noteq> [] \<or> is_control ch \<or> \<not> is_ascii ch then None else Some ch)"

definition prediction_suppressed :: "echo_overlay \<Rightarrow> bool" where
  "prediction_suppressed ov \<longleftrightarrow> MAX_CONSECUTIVE_MISSES \<le> eo_consecutive_misses ov"

definition record_suppressed_predictable_key :: "echo_overlay \<Rightarrow> echo_overlay" where
  "record_suppressed_predictable_key ov =
     (let ov = ov\<lparr>eo_suppressed_keys := sat_add_u8 (eo_suppressed_keys ov) 1\<rparr>
      in if RECOVERY_PREDICTABLE_KEYS \<le> eo_suppressed_keys ov
         then ov\<lparr>eo_consecutive_misses := 0, eo_suppressed_keys := 0\<rparr> else ov)"

subsection \<open>Rendering\<close>

definition render_with_speculative_style ::
  "(text_attribute \<Rightarrow> ustring) \<Rightarrow> echo_overlay \<Rightarrow> client_pane \<Rightarrow> prediction_decoration \<Rightarrow> speculative_surface_style \<Rightarrow>
     ustring option" where
  "render_with_speculative_style set_attribute ov c decoration surface_style =
     Option.bind (eo_prediction ov) (\<lambda>p.
       if ep_pane_id p \<noteq> cp_pane_id c \<or> ep_base_version p \<noteq> cp_version c then None
       else
         Option.bind (get (cp_row_text c) (ep_row p)) (\<lambda>row.
           if ep_col p \<noteq> length row then None
           else
             (let visible_rows = max (visible_row_count c) (ep_row p + 1);
                  rendered_row = (\<lambda>current_row.
                    let r = (case surface_style of
                               PlainText \<Rightarrow> cp_row_text c ! current_row
                             | StructuredSgr \<Rightarrow> render_styled_row c current_row)
                    in if current_row = ep_row p
                       then (case decoration of
                               DecorationPlain \<Rightarrow> r @ ep_text p
                             | DecorationUnderlined \<Rightarrow> r @ set_attribute Underlined @ ep_text p @ set_attribute NoUnderline)
                       else r)
              in Some (join_with 10 (map rendered_row [0..<visible_rows])))))"

definition echo_render :: "(text_attribute \<Rightarrow> ustring) \<Rightarrow> echo_overlay \<Rightarrow> client_pane \<Rightarrow> ustring option" where
  "echo_render a ov c = render_with_speculative_style a ov c DecorationPlain PlainText"

definition echo_render_underlined :: "(text_attribute \<Rightarrow> ustring) \<Rightarrow> echo_overlay \<Rightarrow> client_pane \<Rightarrow> ustring option" where
  "echo_render_underlined a ov c = render_with_speculative_style a ov c DecorationUnderlined PlainText"

definition echo_render_underlined_styled :: "(text_attribute \<Rightarrow> ustring) \<Rightarrow> echo_overlay \<Rightarrow> client_pane \<Rightarrow> ustring option" where
  "echo_render_underlined_styled a ov c = render_with_speculative_style a ov c DecorationUnderlined StructuredSgr"

subsection \<open>Predicting\<close>

definition predict_printable_key ::
  "(text_attribute \<Rightarrow> ustring) \<Rightarrow> echo_overlay \<Rightarrow> client_pane \<Rightarrow> u64 \<Rightarrow> ustring \<Rightarrow> echo_overlay \<times> ustring option" where
  "predict_printable_key a ov c input_seq t =
     (if eo_prediction ov \<noteq> None then (ov, None)
      else case single_predictable_char t of
        None \<Rightarrow> (ov, None)
      | Some ch \<Rightarrow>
      case cp_cursor c of
        None \<Rightarrow> (ov, None)
      | Some cur \<Rightarrow>
          if cp_surface c \<noteq> SurfaceMain \<or> \<not> cu_visible cur \<or> cp_rows c \<le> cu_row cur \<or> cp_cols c \<le> cu_col cur
          then (ov, None)
          else case get (cp_row_text c) (cu_row cur) of
            None \<Rightarrow> (ov, None)
          | Some row_text \<Rightarrow>
              if cu_col cur \<noteq> length row_text then (ov, None)
              else if cp_cols c < cu_col cur + 1 then (ov, None)
              else if prediction_suppressed ov then (record_suppressed_predictable_key ov, None)
              else
                (let ov = ov\<lparr>eo_prediction := Some
                       \<lparr>ep_pane_id = cp_pane_id c, ep_base_version = cp_version c, ep_input_seq = input_seq,
                        ep_row = cu_row cur, ep_col = cu_col cur, ep_text = [ch]\<rparr>\<rparr>
                 in (ov, echo_render a ov c)))"

definition render_speculative_echo ::
  "(text_attribute \<Rightarrow> ustring) \<Rightarrow> client_attach_state \<Rightarrow> echo_overlay \<Rightarrow> ustring \<Rightarrow> u64 \<Rightarrow> ustring \<Rightarrow> bool \<Rightarrow>
     echo_overlay \<times> ustring option" where
  \<comment> \<open>\<open>ClientAttachState::render_speculative_echo\<close>\<close>
  "render_speculative_echo a s ov pane_id input_seq t styled =
     (case cached s pane_id of
        None \<Rightarrow> (ov, None)
      | Some c \<Rightarrow>
          (case predict_printable_key a ov c input_seq t of
             (ov, None) \<Rightarrow> (ov, None)
           | (ov, Some _) \<Rightarrow>
               (ov, if styled then echo_render_underlined_styled a ov c else echo_render_underlined a ov c)))"

subsection \<open>Reconciling\<close>

definition rebase_pending_prediction :: "echo_overlay \<Rightarrow> surface_update \<Rightarrow> echo_overlay \<times> echo_reconcile" where
  "rebase_pending_prediction ov u =
     (ov\<lparr>eo_prediction := map_option (\<lambda>p. p\<lparr>ep_base_version := su_version u\<rparr>) (eo_prediction ov)\<rparr>, PendingEcho)"

definition clear_confirmed :: "echo_overlay \<Rightarrow> echo_overlay \<times> echo_reconcile" where
  "clear_confirmed ov =
     (ov\<lparr>eo_prediction := None, eo_consecutive_misses := 0, eo_suppressed_keys := 0\<rparr>, ConfirmedEcho)"

definition clear_mismatched :: "echo_overlay \<Rightarrow> echo_overlay \<times> echo_reconcile" where
  "clear_mismatched ov =
     (ov\<lparr>eo_prediction := None, eo_consecutive_misses := sat_add_u8 (eo_consecutive_misses ov) 1,
         eo_suppressed_keys := 0\<rparr>, MismatchedEcho)"

definition clear_displaced :: "echo_overlay \<Rightarrow> echo_overlay \<times> echo_reconcile" where
  "clear_displaced ov = (ov\<lparr>eo_prediction := None, eo_suppressed_keys := 0\<rparr>, MismatchedEcho)"

definition reconcile_update :: "echo_overlay \<Rightarrow> surface_update \<Rightarrow> echo_overlay \<times> echo_reconcile" where
  "reconcile_update ov u =
     (case eo_prediction ov of
        None \<Rightarrow> (ov, NoPrediction)
      | Some p \<Rightarrow>
          if ep_pane_id p \<noteq> su_pane_id u then (ov, PendingEcho)
          else if su_kind u = UpdateSnapshot \<or> option_is_some_and (\<lambda>k. k \<noteq> SurfaceMain) (su_surface u)
          then clear_mismatched ov
          else if su_version u \<le> ep_base_version p then (ov, PendingEcho)
          else if option_is_some_and (\<lambda>cur. cu_row cur \<noteq> ep_row p \<or> cu_col cur < ep_col p) (su_cursor u)
          then clear_displaced ov
          else case find (\<lambda>r. ru_row r = ep_row p) (su_row_updates u) of
            None \<Rightarrow> rebase_pending_prediction ov u
          | Some row \<Rightarrow>
              (case get (ru_text row) (ep_col p) of
                 Some ch \<Rightarrow> if [ch] = ep_text p then clear_confirmed ov else clear_mismatched ov
               | None \<Rightarrow> clear_displaced ov))"

definition prediction_allowed :: "echo_overlay \<Rightarrow> bool" where
  "prediction_allowed ov \<longleftrightarrow> \<not> prediction_suppressed ov"

subsection \<open>The state machine\<close>

inductive echo_step :: "echo_overlay \<Rightarrow> echo_overlay \<Rightarrow> bool" where
  key: "predict_printable_key a ov c input_seq t = (ov', r) \<Longrightarrow> echo_step ov ov'"
| update: "reconcile_update ov u = (ov', r) \<Longrightarrow> echo_step ov ov'"

inductive_cases echo_stepE: "echo_step ov ov'"

definition echo_ok :: "echo_overlay \<Rightarrow> bool" where
  "echo_ok ov \<longleftrightarrow> eo_consecutive_misses ov \<le> 2 \<and> eo_suppressed_keys ov \<le> 2 \<and>
     (eo_consecutive_misses ov < 2 \<longrightarrow> eo_suppressed_keys ov = 0) \<and>
     (eo_prediction ov \<noteq> None \<longrightarrow> eo_consecutive_misses ov < 2)"

lemmas echo_counters = MAX_CONSECUTIVE_MISSES_def RECOVERY_PREDICTABLE_KEYS_def sat_add_u8_def prediction_suppressed_def

lemma predict_ok:
  assumes "echo_ok ov" shows "echo_ok (fst (predict_printable_key a ov c input_seq t))"
proof -
  have rec: "echo_ok (record_suppressed_predictable_key ov)" if "eo_prediction ov = None" "prediction_suppressed ov"
    using assms that by (auto simp: echo_ok_def record_suppressed_predictable_key_def echo_counters Let_def)
  have pred: "echo_ok (ov\<lparr>eo_prediction := Some p\<rparr>)" if "\<not> prediction_suppressed ov" for p
    using assms that by (auto simp: echo_ok_def echo_counters)
  show ?thesis
    using assms rec pred
    by (simp add: predict_printable_key_def Let_def split: option.split)
qed

lemma reconcile_ok:
  assumes "echo_ok ov" shows "echo_ok (fst (reconcile_update ov u))"
proof (cases "eo_prediction ov")
  case (Some p)
  then have few: "eo_consecutive_misses ov < 2" using assms by (simp add: echo_ok_def)
  then have "echo_ok (fst (clear_mismatched ov))" "echo_ok (fst (clear_displaced ov))" "echo_ok (fst (clear_confirmed ov))"
    "echo_ok (fst (rebase_pending_prediction ov u))"
    using assms
    by (auto simp: clear_mismatched_def clear_displaced_def clear_confirmed_def rebase_pending_prediction_def echo_ok_def
        echo_counters)
  with Some assms show ?thesis by (simp add: reconcile_update_def split: option.split)
qed (use assms in \<open>simp add: reconcile_update_def\<close>)

lemma echo_step_ok: "echo_step ov ov' \<Longrightarrow> echo_ok ov \<Longrightarrow> echo_ok ov'"
  by (elim echo_stepE) (metis fst_conv predict_ok, metis fst_conv reconcile_ok)

lemma echo_reachable_ok: "echo_step\<^sup>*\<^sup>* echo_overlay_default ov \<Longrightarrow> echo_ok ov"
proof (induction rule: rtranclp_induct)
  case base
  show ?case by (simp add: echo_ok_def echo_overlay_default_def)
next
  case (step y z)
  then show ?case using echo_step_ok by blast
qed

subsection \<open>Suppression ends\<close>

definition predictable :: "client_pane \<Rightarrow> ustring \<Rightarrow> bool" where
  \<comment> \<open>the key is printable and the cursor stands at the end of its row\<close>
  "predictable c t \<longleftrightarrow> single_predictable_char t \<noteq> None \<and> cp_surface c = SurfaceMain \<and>
     (\<exists>cur. cp_cursor c = Some cur \<and> cu_visible cur \<and> cu_row cur < cp_rows c \<and> cu_col cur < cp_cols c \<and>
       map_option length (get (cp_row_text c) (cu_row cur)) = Some (cu_col cur))"

lemma predictable_step:
  assumes "predictable c t" and "eo_prediction ov = None"
  shows "fst (predict_printable_key a ov c input_seq t) =
    (if prediction_suppressed ov then record_suppressed_predictable_key ov
     else ov\<lparr>eo_prediction := eo_prediction (fst (predict_printable_key a ov c input_seq t))\<rparr>)"
    and "\<not> prediction_suppressed ov \<Longrightarrow> eo_prediction (fst (predict_printable_key a ov c input_seq t)) \<noteq> None"
  using assms by (auto simp: predictable_def predict_printable_key_def Let_def split: option.split_asm)

lemma suppression_ends:
  assumes ok: "echo_ok ov" and sup: "prediction_suppressed ov"
    and keys: "\<forall>(c, input_seq, t) \<in> set ks. predictable c t" and len: "length ks = 4"
  shows "eo_prediction (fold (\<lambda>(c, input_seq, t) ov. fst (predict_printable_key a ov c input_seq t)) ks ov) \<noteq> None"
proof -
  let ?f = "\<lambda>(c, input_seq, t) ov. fst (predict_printable_key a ov c input_seq t)"
  have keep: "eo_prediction ov \<noteq> None \<Longrightarrow> eo_prediction (fold ?f ks ov) \<noteq> None" for ks ov
    by (induction ks arbitrary: ov) (auto simp: predict_printable_key_def)
  have made: "eo_prediction (fold ?f ks ov) \<noteq> None"
    if "\<forall>(c, input_seq, t) \<in> set ks. predictable c t" "ks \<noteq> []" "\<not> prediction_suppressed ov" for ks ov
  proof (cases "eo_prediction ov")
    case None
    from that obtain k ks' where "ks = k # ks'" by (cases ks) auto
    with that None keep predictable_step(2) [OF _ None that(3)] show ?thesis by (cases k) auto
  qed (use keep in auto)
  have main: "eo_prediction (fold ?f ks ov) \<noteq> None"
    if "\<forall>(c, input_seq, t) \<in> set ks. predictable c t" "echo_ok ov" "prediction_suppressed ov"
      "3 - eo_suppressed_keys ov < length ks" for ks ov
    using that
  proof (induction ks arbitrary: ov)
    case (Cons k ks)
    obtain c q t where k: "k = (c, q, t)" by (cases k)
    have none: "eo_prediction ov = None" using Cons.prems(2,3) by (auto simp: echo_ok_def echo_counters)
    have step: "?f k ov = record_suppressed_predictable_key ov"
      using predictable_step(1) [OF _ none, of c t a q] Cons.prems(1,3) by (simp add: k)
    have "echo_ok (?f k ov)" using predict_ok [OF Cons.prems(2)] by (simp add: k)
    moreover have "prediction_suppressed (record_suppressed_predictable_key ov) \<Longrightarrow>
        eo_suppressed_keys (record_suppressed_predictable_key ov) = Suc (eo_suppressed_keys ov)"
      and "ks \<noteq> []"
      using Cons.prems(2,4)
      by (auto simp: record_suppressed_predictable_key_def echo_counters Let_def echo_ok_def split: if_split_asm)
    moreover have "eo_suppressed_keys ov \<le> 2" using Cons.prems(2) by (simp add: echo_ok_def)
    ultimately show ?case
      using Cons.IH [of "?f k ov"] made [of ks "?f k ov"] Cons.prems(1,4)
      by (cases "prediction_suppressed (?f k ov)") (simp_all add: step)
  qed simp
  show ?thesis using main [OF keys ok sup] len ok by (simp add: echo_ok_def)
qed

subsection \<open>What is shown\<close>

lemma rposition_nonempty_iff:
  "rposition_nonempty rows = Some i \<longleftrightarrow> i < length rows \<and> rows ! i \<noteq> [] \<and> (\<forall>j < length rows. i < j \<longrightarrow> rows ! j = [])"
proof
  assume "rposition_nonempty rows = Some i"
  then obtain k where k: "position (\<lambda>r. r \<noteq> []) (rev rows) = Some k" and i: "i = length rows - 1 - k"
    by (auto simp: rposition_nonempty_def split: option.split_asm)
  from position_SomeD [OF k] have kl: "k < length rows" "rev rows ! k \<noteq> []" "\<forall>j < k. rev rows ! j = []" by simp_all
  have "rows ! j = []" if "j < length rows" "i < j" for j
  proof -
    have "rev rows ! (length rows - 1 - j) = []" using kl(1,3) that i by simp
    then show ?thesis using that by (simp add: rev_nth)
  qed
  with kl i show "i < length rows \<and> rows ! i \<noteq> [] \<and> (\<forall>j < length rows. i < j \<longrightarrow> rows ! j = [])"
    by (simp add: rev_nth)
next
  assume r: "i < length rows \<and> rows ! i \<noteq> [] \<and> (\<forall>j < length rows. i < j \<longrightarrow> rows ! j = [])"
  then have "rows ! i \<in> set (rev rows)" by simp
  with r have "position (\<lambda>r. r \<noteq> []) (rev rows) \<noteq> None" unfolding position_None_iff by blast
  then obtain k where k: "position (\<lambda>r. r \<noteq> []) (rev rows) = Some k" by blast
  from position_SomeD [OF k] have kl: "k < length rows" "rev rows ! k \<noteq> []" "\<forall>j < k. rev rows ! j = []" by simp_all
  have at_k: "rows ! (length rows - Suc k) \<noteq> []" using kl(1,2) by (simp add: rev_nth)
  have "\<not> k < length rows - 1 - i"
  proof
    assume "k < length rows - 1 - i"
    then have "i < length rows - Suc k" by simp
    with r kl(1) at_k show False by (metis diff_less length_greater_0_conv list.size(3) not_less_zero zero_less_Suc)
  qed
  moreover have "\<not> length rows - 1 - i < k"
  proof
    assume "length rows - 1 - i < k"
    with kl(3) have "rev rows ! (length rows - 1 - i) = []" by blast
    moreover have "rev rows ! (length rows - 1 - i) = rows ! i" using r by (subst rev_nth) auto
    ultimately show False using r by simp
  qed
  ultimately have "k = length rows - 1 - i" by simp
  with r show "rposition_nonempty rows = Some i" by (simp add: rposition_nonempty_def k)
qed

definition typed :: "client_pane \<Rightarrow> nat \<Rightarrow> uchar \<Rightarrow> client_pane" where
  \<comment> \<open>the surface with a character added at the end of a row\<close>
  "typed c row ch = c\<lparr>cp_row_text := (cp_row_text c)[row := cp_row_text c ! row @ [ch]]\<rparr>"

lemma visible_row_count_typed:
  assumes "row < length (cp_row_text c)"
  shows "visible_row_count (typed c row ch) = max (visible_row_count c) (row + 1)"
proof (cases "rposition_nonempty (cp_row_text c)")
  case None
  have empty: "\<forall>r \<in> set (cp_row_text c). r = []"
    using None by (auto simp: rposition_nonempty_def position_None_iff split: option.split_asm)
  have "rposition_nonempty (cp_row_text (typed c row ch)) = Some row"
    using assms empty by (simp add: rposition_nonempty_iff typed_def nth_list_update)
  with None show ?thesis by (simp add: visible_row_count_def)
next
  case (Some i)
  note i = Some [unfolded rposition_nonempty_iff]
  have "rposition_nonempty (cp_row_text (typed c row ch)) = Some (max i row)"
    using assms i by (auto simp: rposition_nonempty_iff typed_def nth_list_update max_def)
  with Some show ?thesis by (simp add: visible_row_count_def)
qed

lemma prediction_is_typed_surface:
  assumes "predict_printable_key a ov c input_seq t = (ov', Some shown)"
  shows "\<exists>ch cur. t = [ch] \<and> cp_cursor c = Some cur \<and> shown = render_text (typed c (cu_row cur) ch)"
proof -
  from assms obtain ch cur row where ch: "single_predictable_char t = Some ch" and cur: "cp_cursor c = Some cur"
    and row: "get (cp_row_text c) (cu_row cur) = Some row" "cu_col cur = length row"
    and shown: "Some shown = echo_render a (ov\<lparr>eo_prediction := Some
       \<lparr>ep_pane_id = cp_pane_id c, ep_base_version = cp_version c, ep_input_seq = input_seq,
        ep_row = cu_row cur, ep_col = cu_col cur, ep_text = [ch]\<rparr>\<rparr>) c"
    by (auto simp: predict_printable_key_def Let_def split: if_split_asm option.split_asm)
  let ?r = "cu_row cur" and ?rows = "cp_row_text c"
  have r: "?r < length ?rows" "?rows ! ?r = row" using row(1) by (simp_all add: get_eq_Some_iff)
  let ?n = "max (visible_row_count c) (?r + 1)"
  have n: "?n \<le> length ?rows"
    using r by (auto simp: visible_row_count_def rposition_nonempty_iff split: option.split)
  have "map (\<lambda>i. if i = ?r then ?rows ! i @ [ch] else ?rows ! i) [0..<?n] = take ?n (cp_row_text (typed c ?r ch))"
    using n r by (intro nth_equalityI) (auto simp: typed_def nth_list_update)
  then have "shown = render_text (typed c ?r ch)"
    using shown row r visible_row_count_typed [OF r(1), of ch]
    by (simp add: echo_render_def render_with_speculative_style_def render_text_def join_lines_def Let_def cong: if_cong)
  moreover have "t = [ch]" using ch by (auto simp: single_predictable_char_def split: list.split_asm if_split_asm)
  ultimately show ?thesis using cur by blast
qed

lemma confirmed_was_right:
  assumes "reconcile_update ov u = (ov', ConfirmedEcho)"
  shows "\<exists>p r. eo_prediction ov = Some p \<and> r \<in> set (su_row_updates u) \<and> su_pane_id u = ep_pane_id p \<and>
    ep_base_version p < su_version u \<and> ru_row r = ep_row p \<and>
    map_option (\<lambda>ch. [ch]) (get (ru_text r) (ep_col p)) = Some (ep_text p) \<and> ov' = echo_overlay_default"
proof -
  from assms obtain p where p: "eo_prediction ov = Some p" by (cases "eo_prediction ov") (auto simp: reconcile_update_def)
  with assms have base: "ep_pane_id p = su_pane_id u" "ep_base_version p < su_version u"
    by (auto simp: reconcile_update_def clear_mismatched_def split: if_split_asm)
  from p assms obtain r where r: "find (\<lambda>r. ru_row r = ep_row p) (su_row_updates u) = Some r"
    by (cases "find (\<lambda>r. ru_row r = ep_row p) (su_row_updates u)")
      (auto simp: reconcile_update_def clear_mismatched_def clear_displaced_def rebase_pending_prediction_def
        split: if_split_asm)
  from p r assms obtain ch where "get (ru_text r) (ep_col p) = Some ch" "[ch] = ep_text p" "(ov', ConfirmedEcho) = clear_confirmed ov"
    by (auto simp: reconcile_update_def clear_mismatched_def clear_displaced_def split: if_split_asm option.split_asm)
  moreover from r have "r \<in> set (su_row_updates u)" "ru_row r = ep_row p" by (auto simp: find_Some_iff)
  ultimately show ?thesis using p base by (auto simp: clear_confirmed_def echo_overlay_default_def)
qed

end
