(* ===== verification/Trace_Container.thy ===== *)
theory Trace_Container
  imports Session_Core Frames Key_Encoding
begin

text \<open>
  The file accepted events and their effects are traced to
  (\<open>crates/nmux-core/src/replay.rs\<close>): a header, then for every record a segment with the event and
  one with the effects, each with its kind and length. The writing itself, on a thread of its own, is not
  modelled; \<open>write_all\<close> appends.

  The code has no reader. The lemmas show that there could be one: the bytes determine the segments, and a
  segment determines the index, time, source, lane and kind of the event, and the effects.
\<close>

datatype trace_segment_kind = SegAcceptedEvent | SegOutputTrace | SegSnapshot | SegMetadata

fun segment_kind_code :: "trace_segment_kind \<Rightarrow> byte" where
  "segment_kind_code SegAcceptedEvent = 1"
| "segment_kind_code SegOutputTrace = 2"
| "segment_kind_code SegSnapshot = 3"
| "segment_kind_code SegMetadata = 4"

definition CONTAINER_MAGIC :: "byte list" where "CONTAINER_MAGIC = ascii ''NMUXTRACE'' @ [0]"
definition SEGMENT_MAGIC :: "byte list" where "SEGMENT_MAGIC = ascii ''NMS1''"
definition CONTAINER_VERSION :: u32 where "CONTAINER_VERSION = 1"

definition container_new :: "byte list" where
  \<comment> \<open>\<open>TraceContainerWriter::new\<close> on an empty writer\<close>
  "container_new = CONTAINER_MAGIC @ le_bytes 4 CONTAINER_VERSION"

definition write_segment :: "byte list \<Rightarrow> trace_segment_kind \<Rightarrow> byte list \<Rightarrow> byte list" where
  "write_segment w kind payload =
     w @ SEGMENT_MAGIC @ [segment_kind_code kind] @ le_bytes 8 (length payload) @ payload"

subsection \<open>The text of events and effects\<close>

definition escape_char :: "uchar \<Rightarrow> ustring" where
  "escape_char ch =
     (if ch = 92 then [92, 92] else if ch = 10 then [92, 110] else if ch = 13 then [92, 114]
      else if ch = 9 then [92, 116] else if ch = 32 then [92, 115] else [ch])"

definition escape_field :: "ustring \<Rightarrow> ustring" where
  "escape_field v = concat (map escape_char v)"

fun lane_name :: "lane \<Rightarrow> string" where
  "lane_name LaneControl = ''control''"
| "lane_name LaneClient = ''client''"
| "lane_name LanePane = ''pane''"
| "lane_name LaneTimer = ''timer''"
| "lane_name LaneLifecycle = ''lifecycle''"

fun event_name :: "session_event \<Rightarrow> string" where
  "event_name (AddTab _ _ _ _) = ''add_tab''"
| "event_name (SwitchTab _) = ''switch_tab''"
| "event_name (CloseTab _) = ''close_tab''"
| "event_name (FocusPane _) = ''focus_pane''"
| "event_name (SplitPane _ _ _ _) = ''split_pane''"
| "event_name (SetPaneResizePolicy _ _) = ''set_pane_resize_policy''"
| "event_name (PaneOutput _ _) = ''pane_output''"
| "event_name (CommitPaneResize _ _ _) = ''commit_pane_resize''"
| "event_name (RequestSessionShutdown _) = ''request_session_shutdown''"
| "event_name (ForwardPaneInput _ _ _) = ''forward_pane_input''"

fun patch_kind_name :: "patch_kind \<Rightarrow> string" where
  "patch_kind_name PatchReplaceRows = ''replace_rows''"
| "patch_kind_name PatchFullRefreshRequired = ''full_refresh_required''"
| "patch_kind_name PatchColorOnly = ''color_only''"
| "patch_kind_name PatchModeOnly = ''mode_only''"
| "patch_kind_name PatchCursorOnly = ''cursor_only''"
| "patch_kind_name _ = ''unknown''"

definition encode_accepted_event :: "accepted_event \<Rightarrow> ustring" where
  "encode_accepted_event a =
     (let m = ae_metadata a in
      lit ''event_index='' @ dec_str (am_event_index m) @ [10] @
      lit ''session_mono_ms='' @ dec_str (am_session_mono_ms m) @ [10] @
      lit ''source_id='' @ escape_field (am_source_id m) @ [10] @
      lit ''lane='' @ lit (lane_name (am_lane m)) @ [10] @
      lit ''event='' @ lit (event_name (ae_event a)) @ [10])"

fun encode_effect :: "session_effect \<Rightarrow> ustring" where
  \<comment> \<open>one iteration of the loop of \<open>encode_effects\<close>\<close>
  "encode_effect (WorkspaceChanged event_index version) =
     lit ''effect=workspace_changed'' @ [32] @ lit ''event_index='' @ dec_str event_index @ [32] @
     lit ''version='' @ dec_str version @ [10]"
| "encode_effect (PaneSurfaceChanged event_index pane_id sv bv kind) =
     lit ''effect=pane_surface_changed'' @ [32] @ lit ''event_index='' @ dec_str event_index @ [32] @
     lit ''pane_id='' @ escape_field pane_id @ [32] @ lit ''surface_version='' @ dec_str sv @ [32] @
     lit ''scrollback_version='' @ dec_str bv @ [32] @
     lit ''patch_kind='' @ lit (patch_kind_name kind) @ [10]"
| "encode_effect (PaneResized event_index pane_id cols rows) =
     lit ''effect=pane_resized'' @ [32] @ lit ''event_index='' @ dec_str event_index @ [32] @
     lit ''pane_id='' @ escape_field pane_id @ [32] @ lit ''cols='' @ dec_str cols @ [32] @
     lit ''rows='' @ dec_str rows @ [10]"

definition encode_effects :: "session_effect list \<Rightarrow> ustring" where
  "encode_effects effects = concat (map encode_effect effects)"

definition write_record :: "byte list \<Rightarrow> trace_record \<Rightarrow> byte list" where
  "write_record w r =
     (let w = write_segment w SegAcceptedEvent (utf8_bytes (encode_accepted_event (tr_accepted r)))
      in write_segment w SegOutputTrace (utf8_bytes (encode_effects (tr_effects r))))"

definition write_trace :: "trace_record list \<Rightarrow> byte list" where
  \<comment> \<open>the bytes of a file after the records\<close>
  "write_trace rs = foldl write_record container_new rs"

subsection \<open>Escaped fields\<close>

lemma escape_field_simps [simp]:
  "escape_field [] = []" "escape_field (c # cs) = escape_char c @ escape_field cs"
  by (simp_all add: escape_field_def)

lemma escape_field_clean: "c \<in> {9, 10, 13, 32} \<Longrightarrow> c \<notin> set (escape_field v)"
  by (induction v) (auto simp: escape_char_def)

lemma escape_char_split:
  assumes "escape_char a @ s = escape_char b @ t" shows "a = b \<and> s = t"
  using assms by (auto simp: escape_char_def split: if_split_asm)

lemma escape_field_inj: "escape_field v = escape_field w \<Longrightarrow> v = w"
proof (induction v arbitrary: w)
  case Nil
  then show ?case by (cases w) (auto simp: escape_char_def split: if_split_asm)
next
  case (Cons a v)
  then obtain b w' where "w = b # w'" by (cases w) (auto simp: escape_char_def split: if_split_asm)
  with Cons escape_char_split [of a "escape_field v" b "escape_field w'"] show ?case by simp
qed

subsection \<open>Lines determine events and effects\<close>

lemma lane_name_inj: "lane_name a = lane_name b \<Longrightarrow> a = b"
  by (cases a; cases b) simp_all

lemma patch_kind_name_inj: "patch_kind_name a = patch_kind_name b \<Longrightarrow> patch_kind_known a \<Longrightarrow> patch_kind_known b \<Longrightarrow> a = b"
  by (cases a; cases b) simp_all

lemma clean_names:
  "10 \<notin> set (lit (lane_name l))" "10 \<notin> set (lit (event_name e))" "10 \<notin> set (lit (patch_kind_name k))"
  subgoal by (cases l) (simp_all add: lit_def)
  subgoal by (cases e) (simp_all add: lit_def)
  subgoal by (cases k) (simp_all add: lit_def)
  done

lemma clean_fields [simp]:
  "10 \<notin> set (dec_str n)" "32 \<notin> set (dec_str n)" "10 \<notin> set (escape_field v)" "32 \<notin> set (escape_field v)"
  by (simp_all add: dec_str_no is_digit_def escape_field_clean)

lemma field_cut: "x \<notin> set as \<Longrightarrow> x \<notin> set bs \<Longrightarrow> (as @ x # s = bs @ x # t) = (as = bs \<and> s = t)"
  using split_at_first [of x as bs s t] by auto

lemma encode_accepted_event_inj:
  assumes "encode_accepted_event a = encode_accepted_event b"
  shows "ae_metadata a = ae_metadata b \<and> event_name (ae_event a) = event_name (ae_event b)"
proof -
  let ?m = "ae_metadata a" and ?n = "ae_metadata b"
  from assms have "am_event_index ?m = am_event_index ?n \<and> am_session_mono_ms ?m = am_session_mono_ms ?n \<and>
      escape_field (am_source_id ?m) = escape_field (am_source_id ?n) \<and>
      lane_name (am_lane ?m) = lane_name (am_lane ?n) \<and> event_name (ae_event a) = event_name (ae_event b)"
    by (simp add: encode_accepted_event_def Let_def field_cut clean_names dec_str_inj)
  then show ?thesis using escape_field_inj lane_name_inj by (metis accepted_metadata.equality old.unit.exhaust)
qed

definition effect_known :: "session_effect \<Rightarrow> bool" where
  "effect_known e \<longleftrightarrow> (case e of PaneSurfaceChanged _ _ _ _ k \<Rightarrow> patch_kind_known k | _ \<Rightarrow> True)"

lemma effect_lines:
  assumes "encode_effect e @ s = encode_effect f @ t" and "effect_known e" and "effect_known f"
  shows "e = f \<and> s = t"
proof (cases e; cases f)
  fix i v j w
  assume c: "e = WorkspaceChanged i v" "f = WorkspaceChanged j w"
  with assms(1) show ?thesis
    by (simp add: field_cut dec_str_inj)
next
  fix i p sv bv k j q sw bw l
  assume c: "e = PaneSurfaceChanged i p sv bv k" "f = PaneSurfaceChanged j q sw bw l"
  with assms(1) have "i = j \<and> escape_field p = escape_field q \<and> sv = sw \<and> bv = bw \<and>
      patch_kind_name k = patch_kind_name l \<and> s = t"
    by (simp add: field_cut clean_names dec_str_inj)
  with c assms(2,3) show ?thesis by (simp add: effect_known_def escape_field_inj patch_kind_name_inj)
next
  fix i p cols rows j q cols' rows'
  assume c: "e = PaneResized i p cols rows" "f = PaneResized j q cols' rows'"
  with assms(1) have "i = j \<and> escape_field p = escape_field q \<and> cols = cols' \<and> rows = rows' \<and> s = t"
    by (simp add: field_cut dec_str_inj)
  with c show ?thesis by (simp add: escape_field_inj)
qed (use assms(1) in \<open>simp add: lit_def\<close>)+

lemma encode_effect_nonempty: "encode_effect e \<noteq> []"
  by (cases e) (simp_all add: lit_def)

lemma encode_effects_inj:
  "encode_effects es = encode_effects fs \<Longrightarrow> \<forall>e \<in> set es. effect_known e \<Longrightarrow> \<forall>e \<in> set fs. effect_known e \<Longrightarrow> es = fs"
proof (induction es arbitrary: fs)
  case Nil
  then show ?case by (cases fs) (auto simp: encode_effects_def encode_effect_nonempty)
next
  case (Cons e es)
  then obtain f fs' where fs: "fs = f # fs'"
    by (cases fs) (auto simp: encode_effects_def encode_effect_nonempty)
  with Cons.prems have "encode_effect e @ encode_effects es = encode_effect f @ encode_effects fs'"
    by (simp add: encode_effects_def)
  from effect_lines [OF this] Cons.prems fs have "e = f \<and> encode_effects es = encode_effects fs'" by simp
  with Cons.IH [of fs'] Cons.prems fs show ?case by simp
qed

subsection \<open>Segments\<close>

definition effect_scalar :: "session_effect \<Rightarrow> bool" where
  "effect_scalar e \<longleftrightarrow>
     (case e of WorkspaceChanged _ _ \<Rightarrow> True | PaneSurfaceChanged _ k _ _ _ \<Rightarrow> list_all scalar k
      | PaneResized _ k _ _ \<Rightarrow> list_all scalar k)"

definition record_storable :: "trace_record \<Rightarrow> bool" where
  \<comment> \<open>strings of scalar values, known kinds of patches, segments shorter than \<open>2 ^ 64\<close> bytes\<close>
  "record_storable r \<longleftrightarrow> list_all scalar (am_source_id (ae_metadata (tr_accepted r))) \<and>
     (\<forall>e \<in> set (tr_effects r). effect_known e \<and> effect_scalar e) \<and>
     length (utf8_bytes (encode_accepted_event (tr_accepted r))) < 256 ^ 8 \<and>
     length (utf8_bytes (encode_effects (tr_effects r))) < 256 ^ 8"

definition record_view :: "trace_record \<Rightarrow> accepted_metadata \<times> string \<times> session_effect list" where
  "record_view r = (ae_metadata (tr_accepted r), event_name (ae_event (tr_accepted r)), tr_effects r)"

lemma scalar_escape_field: "list_all scalar (escape_field v) = list_all scalar v"
  by (induction v) (auto simp: escape_char_def scalar_def)

lemma scalar_names:
  "list_all scalar (lit (lane_name l))" "list_all scalar (lit (event_name e))" "list_all scalar (lit (patch_kind_name k))"
  subgoal by (cases l) (simp_all add: lit_def scalar_def)
  subgoal by (cases e) (simp_all add: lit_def scalar_def)
  subgoal by (cases k) (simp_all add: lit_def scalar_def)
  done

lemma scalar_encoded_event:
  "list_all scalar (am_source_id (ae_metadata a)) \<Longrightarrow> list_all scalar (encode_accepted_event a)"
  by (simp add: encode_accepted_event_def Let_def scalar_escape_field scalar_names list_all_scalar_digits)
    (simp add: lit_def scalar_def)

lemma scalar_encoded_effects: "\<forall>e \<in> set es. effect_scalar e \<Longrightarrow> list_all scalar (encode_effects es)"
proof (induction es)
  case (Cons e es)
  have "list_all scalar (encode_effect e)" using Cons.prems
    by (cases e) (simp_all add: effect_scalar_def scalar_escape_field scalar_names list_all_scalar_digits,
        simp_all add: lit_def scalar_def)
  with Cons show ?case by (simp add: encode_effects_def)
qed (simp add: encode_effects_def)

definition segment :: "trace_segment_kind \<Rightarrow> byte list \<Rightarrow> byte list" where
  "segment kind payload = SEGMENT_MAGIC @ [segment_kind_code kind] @ le_bytes 8 (length payload) @ payload"

lemma segment_cut:
  assumes "segment k p @ s = segment k q @ t" and "length p < 256 ^ 8" and "length q < 256 ^ 8"
  shows "p = q \<and> s = t"
proof -
  from assms(1) have "le_bytes 8 (length p) @ p @ s = le_bytes 8 (length q) @ q @ t" by (simp add: segment_def)
  then have "le_bytes 8 (length p) = le_bytes 8 (length q)" and rest: "p @ s = q @ t" by (simp_all add: append_eq_append_conv)
  then have "length p = length q" using assms(2,3) le_bytes_inj by blast
  with rest show ?thesis by (simp add: append_eq_append_conv)
qed

definition record_bytes :: "trace_record \<Rightarrow> byte list" where
  "record_bytes r = segment SegAcceptedEvent (utf8_bytes (encode_accepted_event (tr_accepted r))) @
     segment SegOutputTrace (utf8_bytes (encode_effects (tr_effects r)))"

lemma write_trace_eq: "write_trace rs = container_new @ concat (map record_bytes rs)"
proof -
  have "foldl write_record w rs = w @ concat (map record_bytes rs)" for w
    by (induction rs arbitrary: w) (simp_all add: write_record_def write_segment_def record_bytes_def segment_def Let_def)
  then show ?thesis by (simp add: write_trace_def)
qed

lemma record_bytes_nonempty: "record_bytes r \<noteq> []"
  by (simp add: record_bytes_def segment_def)

lemma record_bytes_cut:
  assumes "record_bytes r @ s = record_bytes q @ t" and "record_storable r" and "record_storable q"
  shows "record_view r = record_view q \<and> s = t"
proof -
  note ok = assms(2,3) [unfolded record_storable_def]
  from assms(1) have e: "utf8_bytes (encode_accepted_event (tr_accepted r)) = utf8_bytes (encode_accepted_event (tr_accepted q))"
    and rest: "segment SegOutputTrace (utf8_bytes (encode_effects (tr_effects r))) @ s =
      segment SegOutputTrace (utf8_bytes (encode_effects (tr_effects q))) @ t"
    using segment_cut [OF assms(1) [unfolded record_bytes_def append_assoc]] ok by simp_all
  from segment_cut [OF rest] ok have f: "utf8_bytes (encode_effects (tr_effects r)) = utf8_bytes (encode_effects (tr_effects q))"
    and st: "s = t" by simp_all
  have "encode_accepted_event (tr_accepted r) = encode_accepted_event (tr_accepted q)"
    using utf8_bytes_inj [OF scalar_encoded_event scalar_encoded_event e] ok by simp
  note event = encode_accepted_event_inj [OF this]
  have "encode_effects (tr_effects r) = encode_effects (tr_effects q)"
    using utf8_bytes_inj [OF scalar_encoded_effects scalar_encoded_effects f] ok by simp
  then have "tr_effects r = tr_effects q" using ok by (intro encode_effects_inj) auto
  with event st show ?thesis by (simp add: record_view_def)
qed

lemma trace_determines_records:
  assumes "write_trace rs = write_trace qs" and "\<forall>r \<in> set rs. record_storable r" and "\<forall>q \<in> set qs. record_storable q"
  shows "map record_view rs = map record_view qs"
proof -
  have "concat (map record_bytes rs) = concat (map record_bytes qs)" using assms(1) by (simp add: write_trace_eq)
  then show ?thesis
    using assms(2,3)
  proof (induction rs arbitrary: qs)
    case Nil
    then show ?case by (cases qs) (auto simp: record_bytes_nonempty)
  next
    case (Cons r rs)
    then obtain q qs' where qs: "qs = q # qs'" by (cases qs) (auto simp: record_bytes_nonempty)
    with Cons.prems record_bytes_cut [of r "concat (map record_bytes rs)" q "concat (map record_bytes qs')"]
    have "record_view r = record_view q" "concat (map record_bytes rs) = concat (map record_bytes qs')" by simp_all
    with Cons.IH [of qs'] Cons.prems qs show ?case by simp
  qed
qed

end
