(* ===== verification/Wire_Frames.thy ===== *)
theory Wire_Frames
  imports Frames
begin

text \<open>
  Frames on a byte stream (\<open>crates/nmux-proto/src/wire.rs\<close>). A frame is a FlatBuffer with its length
  in front. What the FlatBuffers library makes of the bytes is the parameter \<open>root\<close>: the protocol
  version of the envelope, or \<open>None\<close> when the verifier rejects it. A stream is the list of bytes left;
  reading past its end is the error of \<open>read_exact\<close>.

  The lemmas: frames written are the frames read, in order and to the last byte, oversized and foreign frames
  are refused on both sides, and a refused frame writes nothing.
\<close>

datatype wire_error =
  WireUnexpectedEof
| FrameTooLarge usize usize
| ProtocolVersionUnsupported u32 u32
| InvalidFlatbuffer

definition DEFAULT_MAX_FRAME_LEN :: usize where "DEFAULT_MAX_FRAME_LEN = 16 * 1024 * 1024"

fun le_value :: "byte list \<Rightarrow> nat" where
  \<comment> \<open>\<open>u32::from_le_bytes\<close>\<close>
  "le_value [] = 0"
| "le_value (b # bs) = unat b + 256 * le_value bs"

definition read_exact :: "nat \<Rightarrow> byte list \<Rightarrow> (wire_error, byte list \<times> byte list) res" where
  "read_exact n stream = (if length stream < n then Inl WireUnexpectedEof else Inr (take n stream, drop n stream))"

definition validate_protocol_version :: "(byte list \<Rightarrow> u32 option) \<Rightarrow> byte list \<Rightarrow> (wire_error, unit) res" where
  "validate_protocol_version root frame =
     (case root frame of
        None \<Rightarrow> Inl InvalidFlatbuffer
      | Some version \<Rightarrow>
          if version \<noteq> PROTOCOL_VERSION then Inl (ProtocolVersionUnsupported version PROTOCOL_VERSION) else Inr ())"

definition read_frame ::
  "(byte list \<Rightarrow> u32 option) \<Rightarrow> usize \<Rightarrow> byte list \<Rightarrow> (wire_error, byte list \<times> byte list) res" where
  \<comment> \<open>the frame and the rest of the stream\<close>
  "read_frame root max_len stream =
     bind_res (read_exact 4 stream) (\<lambda>(prefix, stream).
     let payload_len = le_value prefix in
     if max_len < payload_len then Inl (FrameTooLarge payload_len max_len)
     else
       bind_res (read_exact payload_len stream) (\<lambda>(payload, stream).
       let frame = prefix @ payload in
       bind_res (validate_protocol_version root frame) (\<lambda>_. Inr (frame, stream))))"

definition write_frame ::
  "(byte list \<Rightarrow> u32 option) \<Rightarrow> usize \<Rightarrow> byte list \<Rightarrow> byte list \<Rightarrow> (wire_error, byte list) res" where
  \<comment> \<open>what the writer holds afterwards, from what it held before\<close>
  "write_frame root max_len written frame =
     (let payload_len = (if length frame < 4 then 0 else le_value (take 4 frame)) in
      if max_len < payload_len then Inl (FrameTooLarge payload_len max_len)
      else bind_res (validate_protocol_version root frame) (\<lambda>_. Inr (written @ frame)))"

definition read_default_frame :: "(byte list \<Rightarrow> u32 option) \<Rightarrow> byte list \<Rightarrow> (wire_error, byte list \<times> byte list) res" where
  "read_default_frame root stream = read_frame root DEFAULT_MAX_FRAME_LEN stream"

definition write_default_frame :: "(byte list \<Rightarrow> u32 option) \<Rightarrow> byte list \<Rightarrow> byte list \<Rightarrow> (wire_error, byte list) res" where
  "write_default_frame root written frame = write_frame root DEFAULT_MAX_FRAME_LEN written frame"

subsection \<open>A frame is what it says\<close>

definition framed :: "byte list \<Rightarrow> bool" where
  \<comment> \<open>the length in front is that of the rest, as the builder's size prefix is\<close>
  "framed frame \<longleftrightarrow> 4 \<le> length frame \<and> length frame = 4 + le_value (take 4 frame)"

lemma read_frame_framed:
  assumes "read_frame root max_len stream = Inr (frame, rest)" shows "framed frame \<and> stream = frame @ rest"
proof -
  let ?n = "le_value (take 4 stream)"
  from assms have len: "4 \<le> length stream" "?n \<le> length stream - 4"
    and frame: "frame = take 4 stream @ take ?n (drop 4 stream)" and rest: "rest = drop ?n (drop 4 stream)"
    by (auto simp: read_frame_def read_exact_def bind_res_Inr_iff Let_def split: if_split_asm)
  have "take 4 frame = take 4 stream" "length frame = 4 + ?n" using len by (simp_all add: frame)
  then have "framed frame" by (simp add: framed_def)
  moreover have "frame @ rest = stream" by (simp only: frame rest append_assoc append_take_drop_id)
  ultimately show ?thesis by simp
qed

lemma read_frame_accepts:
  "read_frame root max_len stream = Inr (frame, rest) \<Longrightarrow>
     root frame = Some PROTOCOL_VERSION \<and> le_value (take 4 frame) \<le> max_len"
  by (auto simp: read_frame_def read_exact_def bind_res_Inr_iff validate_protocol_version_def Let_def min_def
      split: if_split_asm option.split_asm)

lemma write_frame_accepts:
  "write_frame root max_len written frame = Inr w \<Longrightarrow>
     w = written @ frame \<and> root frame = Some PROTOCOL_VERSION \<and> (framed frame \<longrightarrow> le_value (take 4 frame) \<le> max_len)"
  by (auto simp: write_frame_def bind_res_Inr_iff validate_protocol_version_def Let_def framed_def
      split: if_split_asm option.split_asm)

lemma read_written_frame:
  assumes "framed frame" and "root frame = Some PROTOCOL_VERSION" and "le_value (take 4 frame) \<le> max_len"
  shows "read_frame root max_len (frame @ rest) = Inr (frame, rest)"
proof -
  have "take 4 (frame @ rest) = take 4 frame" "drop 4 (frame @ rest) = drop 4 frame @ rest"
    "length (drop 4 frame) = le_value (take 4 frame)" "take 4 frame @ drop 4 frame = frame"
    using assms(1) by (simp_all add: framed_def)
  with assms show ?thesis
    by (simp add: read_frame_def read_exact_def validate_protocol_version_def framed_def Let_def)
qed

subsection \<open>Streams\<close>

fun write_frames ::
  "(byte list \<Rightarrow> u32 option) \<Rightarrow> usize \<Rightarrow> byte list \<Rightarrow> byte list list \<Rightarrow> (wire_error, byte list) res" where
  "write_frames root max_len written [] = Inr written"
| "write_frames root max_len written (f # fs) =
     bind_res (write_frame root max_len written f) (\<lambda>w. write_frames root max_len w fs)"

fun read_frames ::
  "(byte list \<Rightarrow> u32 option) \<Rightarrow> usize \<Rightarrow> nat \<Rightarrow> byte list \<Rightarrow> (wire_error, byte list list \<times> byte list) res" where
  \<comment> \<open>\<open>n\<close> reads in a row\<close>
  "read_frames root max_len 0 stream = Inr ([], stream)"
| "read_frames root max_len (Suc n) stream =
     bind_res (read_frame root max_len stream) (\<lambda>(f, rest).
     bind_res (read_frames root max_len n rest) (\<lambda>(fs, rest). Inr (f # fs, rest)))"

lemma write_frames_append:
  "write_frames root max_len written fs = Inr w \<Longrightarrow> w = written @ concat fs \<and> (\<forall>f \<in> set fs. root f = Some PROTOCOL_VERSION \<and>
     (framed f \<longrightarrow> le_value (take 4 f) \<le> max_len))"
proof (induction fs arbitrary: written)
  case (Cons f fs)
  then obtain w1 where "write_frame root max_len written f = Inr w1" "write_frames root max_len w1 fs = Inr w"
    by (auto simp: bind_res_Inr_iff)
  with Cons.IH [of w1] write_frame_accepts [of root max_len written f w1] show ?case by auto
qed simp

lemma frames_round_trip:
  assumes "write_frames root max_len [] fs = Inr w" and "\<forall>f \<in> set fs. framed f"
  shows "read_frames root max_len (length fs) (w @ rest) = Inr (fs, rest)"
proof -
  from write_frames_append [OF assms(1)] have w: "w = concat fs"
    and ok: "\<forall>f \<in> set fs. root f = Some PROTOCOL_VERSION \<and> (framed f \<longrightarrow> le_value (take 4 f) \<le> max_len)" by simp_all
  have "read_frames root max_len (length fs) (concat fs @ rest) = Inr (fs, rest)"
    using ok assms(2) by (induction fs) (simp_all add: read_written_frame)
  then show ?thesis by (simp add: w)
qed

text \<open>An oversized frame is refused before any of its payload is read.\<close>

lemma oversized_refused:
  "4 \<le> length stream \<Longrightarrow> max_len < le_value (take 4 stream) \<Longrightarrow>
     read_frame root max_len stream = Inl (FrameTooLarge (le_value (take 4 stream)) max_len)"
  by (simp add: read_frame_def read_exact_def Let_def)

end
