(* ===== verification/Tmux_Adapter.thy ===== *)
theory Tmux_Adapter
  imports Workspace
begin

text \<open>
  A tmux inventory shown as an nmux session (\<open>crates/nmux-core/src/tmux.rs\<close>): a tab per window, with the
  window's active pane as its only pane.

  The lemmas: the session of an inventory is a well formed workspace whose active tab is the active window, when
  the windows' ids are distinct and the ids are free of colons, as tmux's are; an inventory without windows or
  with an empty window is refused.
\<close>

record tmux_pane =
  tp_id :: ustring
  tp_title :: ustring
  tp_cols :: u32
  tp_rows :: u32
  tp_active :: bool

record tmux_window =
  tw_id :: ustring
  tw_title :: ustring
  tw_active :: bool
  tw_panes :: "tmux_pane list"

record tmux_session =
  tx_name :: ustring
  tx_windows :: "tmux_window list"

datatype tmux_mapping_error = EmptySession ustring | EmptyWindow ustring ustring

definition tmux_session_id :: "ustring \<Rightarrow> ustring" where
  "tmux_session_id session_name = lit ''tmux:'' @ session_name"

definition tmux_window_tab_id :: "ustring \<Rightarrow> ustring \<Rightarrow> ustring" where
  "tmux_window_tab_id session_name window = lit ''tmux:'' @ session_name @ lit '':window:'' @ window"

definition tmux_pane_id :: "ustring \<Rightarrow> ustring \<Rightarrow> ustring \<Rightarrow> ustring" where
  "tmux_pane_id session_name window pane_name =
     lit ''tmux:'' @ session_name @ lit '':window:'' @ window @ lit '':pane:'' @ pane_name"

definition tmux_pane_host :: "ustring \<Rightarrow> ustring \<Rightarrow> ustring \<Rightarrow> host_spec" where
  "tmux_pane_host session_name window pane_name =
     host_spec_local (lit ''tmux:'' @ session_name @ lit '':adapter'')
       ((command_spec_new (lit ''tmux''))
          \<lparr>cmd_args := [lit ''send-keys'', lit ''-t'', session_name @ lit '':'' @ window @ lit ''.'' @ pane_name]\<rparr>)"

definition tmux_root :: "ustring \<Rightarrow> ustring \<Rightarrow> tmux_pane \<Rightarrow> pane_data" where
  \<comment> \<open>the \<open>Pane\<close> of \<open>window_to_tab\<close>\<close>
  "tmux_root session_name window p =
     \<lparr>pn_id = tmux_pane_id session_name window (tp_id p), pn_split_axis = AxisNone,
      pn_host = tmux_pane_host session_name window (tp_id p), pn_surface_version = 1,
      pn_last_patch_kind = PatchReplaceRows, pn_last_row_update_indices = [], pn_scrollback_version = 1,
      pn_cols = tp_cols p, pn_rows = tp_rows p, pn_resize_policy = ResizeFixed, pn_surface = SurfaceMain,
      pn_cursor = \<lparr>cu_row = 0, cu_col = 0, cu_visible = True, cu_shape = ShapeBlock, cu_blinking = True\<rparr>,
      pn_modes = terminal_modes_default, pn_terminal_title = [], pn_terminal_working_directory = [],
      pn_colors = terminal_colors_default, pn_last_palette_diff = None, pn_styles = [pane_style_default],
      pn_surface_lines = [], pn_surface_row_runs = [], pn_surface_semantic_prompts = [], pn_surface_dirty_rows = [],
      pn_surface_kitty = [], pn_scrollback_lines = [], pn_scrollback_row_runs = [],
      pn_scrollback_semantic_prompts = [], pn_scrollback_dirty_rows = [], pn_scrollback_kitty = []\<rparr>"

definition tmux_active_pane :: "tmux_window \<Rightarrow> tmux_pane option" where
  \<comment> \<open>\<open>find(|pane| pane.active).or_else(|| panes.first())\<close>\<close>
  "tmux_active_pane w =
     (case find tp_active (tw_panes w) of Some p \<Rightarrow> Some p | None \<Rightarrow> get (tw_panes w) 0)"

definition window_to_tab :: "ustring \<Rightarrow> tmux_window \<Rightarrow> (tmux_mapping_error, tab) res" where
  "window_to_tab session_name w =
     bind_res (ok_or (EmptyWindow session_name (tw_id w)) (tmux_active_pane w)) (\<lambda>p.
       let pane_id = tmux_pane_id session_name (tw_id w) (tp_id p) in
       Inr \<lparr>tb_id = tmux_window_tab_id session_name (tw_id w), tb_title = tw_title w, tb_active_pane_id = pane_id,
            tb_root = Pane (tmux_root session_name (tw_id w) p) []\<rparr>)"

definition to_nmux_session :: "tmux_session \<Rightarrow> (tmux_mapping_error, session) res" where
  "to_nmux_session t =
     (if tx_windows t = [] then Inl (EmptySession (tx_name t))
      else
        (let active_window = (case find tw_active (tx_windows t) of Some w \<Rightarrow> w | None \<Rightarrow> tx_windows t ! 0);
             active_tab_id = tmux_window_tab_id (tx_name t) (tw_id active_window)
         in bind_res (map_res (window_to_tab (tx_name t)) (tx_windows t)) (\<lambda>tabs.
              Inr \<lparr>ss_id = tmux_session_id (tx_name t), ss_version = 1, ss_active_tab_id = active_tab_id,
                   ss_tabs = tabs\<rparr>)))"

subsection \<open>Identifiers\<close>

lemma tab_id_inj [simp]: "tmux_window_tab_id s w = tmux_window_tab_id s v \<longleftrightarrow> w = v"
  by (simp add: tmux_window_tab_id_def)

lemma pane_id_inj:
  assumes "58 \<notin> set w" and "58 \<notin> set v" and "tmux_pane_id s w p = tmux_pane_id s v q"
  shows "w = v \<and> p = q"
proof -
  have colon: "lit '':pane:'' @ x = 58 # lit ''pane:'' @ x" for x by (simp add: lit_def)
  from assms(3) have e: "w @ 58 # (lit ''pane:'' @ p) = v @ 58 # (lit ''pane:'' @ q)"
    unfolding tmux_pane_id_def same_append_eq colon .
  have "takeWhile (\<lambda>c. c \<noteq> 58) (x @ 58 # y) = x" if "58 \<notin> set x" for x y :: ustring
    using that by (subst takeWhile_append2) auto
  from this [OF assms(1)] this [OF assms(2)] have "w = v" using e by metis
  with e show ?thesis by simp
qed

subsection \<open>The session of an inventory\<close>

lemma window_to_tab_facts:
  assumes "window_to_tab s w = Inr t"
  shows "\<exists>p \<in> set (tw_panes w). t = \<lparr>tb_id = tmux_window_tab_id s (tw_id w), tb_title = tw_title w,
    tb_active_pane_id = tmux_pane_id s (tw_id w) (tp_id p), tb_root = Pane (tmux_root s (tw_id w) p) []\<rparr>"
proof -
  from assms obtain p where p: "tmux_active_pane w = Some p"
    and t: "t = \<lparr>tb_id = tmux_window_tab_id s (tw_id w), tb_title = tw_title w,
      tb_active_pane_id = tmux_pane_id s (tw_id w) (tp_id p), tb_root = Pane (tmux_root s (tw_id w) p) []\<rparr>"
    by (cases "tmux_active_pane w") (auto simp: window_to_tab_def Let_def)
  have "p \<in> set (tw_panes w)"
    using p by (auto simp: tmux_active_pane_def find_Some_iff get_eq_Some_iff split: option.split_asm)
  with t show ?thesis by blast
qed

lemma map_res_Inr_all2: "map_res f xs = Inr ys \<Longrightarrow> list_all2 (\<lambda>x y. f x = Inr y) xs ys"
  by (induction xs arbitrary: ys) (auto simp: bind_res_Inr_iff)

lemma tmux_root_aligned: "pane_aligned (tmux_root s w p)"
  by (simp add: tmux_root_def pane_aligned_def surface_rows_aligned_def scrollback_rows_ok_def patch_meta_ok_def U64_MAX_def)

lemma tmux_root_id [simp]: "pn_id (tmux_root s w p) = tmux_pane_id s w (tp_id p)"
  by (simp add: tmux_root_def)

lemma to_nmux_session_ok:
  assumes "to_nmux_session t = Inr s" and "distinct (map tw_id (tx_windows t))"
    and "\<forall>w \<in> set (tx_windows t). 58 \<notin> set (tw_id w)"
  shows "workspace_ok s" and "map tb_title (ss_tabs s) = map tw_title (tx_windows t)"
proof -
  let ?n = "tx_name t" and ?ws = "tx_windows t"
  from assms(1) have ne: "?ws \<noteq> []" by (auto simp: to_nmux_session_def split: if_split_asm)
  with assms(1) obtain ts where ts: "map_res (window_to_tab ?n) ?ws = Inr ts" and tabs: "ss_tabs s = ts"
    and act: "ss_active_tab_id s = tmux_window_tab_id ?n
      (tw_id (case find tw_active ?ws of Some w \<Rightarrow> w | None \<Rightarrow> ?ws ! 0))"
    by (auto simp: to_nmux_session_def bind_res_Inr_iff Let_def)
  have len: "length ts = length ?ws" using map_res_Inr_length [OF ts] .
  have "\<forall>i < length ts. \<exists>p. ts ! i = \<lparr>tb_id = tmux_window_tab_id ?n (tw_id (?ws ! i)), tb_title = tw_title (?ws ! i),
      tb_active_pane_id = tmux_pane_id ?n (tw_id (?ws ! i)) (tp_id p),
      tb_root = Pane (tmux_root ?n (tw_id (?ws ! i)) p) []\<rparr>"
    using map_res_Inr_all2 [OF ts] window_to_tab_facts unfolding list_all2_conv_all_nth by metis
  then obtain f where at: "ts ! i = \<lparr>tb_id = tmux_window_tab_id ?n (tw_id (?ws ! i)), tb_title = tw_title (?ws ! i),
      tb_active_pane_id = tmux_pane_id ?n (tw_id (?ws ! i)) (tp_id (f i)),
      tb_root = Pane (tmux_root ?n (tw_id (?ws ! i)) (f i)) []\<rparr>" if "i < length ts" for i
    by metis
  show "map tb_title (ss_tabs s) = map tw_title ?ws"
    unfolding tabs by (rule nth_equalityI) (simp_all add: len at)
  have ids: "map tb_id ts = map (tmux_window_tab_id ?n) (map tw_id ?ws)"
    by (rule nth_equalityI) (simp_all add: len at)
  then have "distinct (map tb_id ts)" using assms(2) by (simp add: distinct_map inj_on_def)
  moreover have "leaf_pane_ids s = map tb_active_pane_id ts"
  proof -
    have "\<forall>x \<in> set ts. leaf_list (tb_root x) = [pane_fields (tb_root x)] \<and> pn_id (pane_fields (tb_root x)) = tb_active_pane_id x"
      by (auto simp: in_set_conv_nth at)
    then have "map pn_id (concat (map (\<lambda>t. leaf_list (tb_root t)) ts)) = map tb_active_pane_id ts" by (induction ts) auto
    then show ?thesis by (simp add: leaf_pane_ids_eq session_leaves_def tabs)
  qed
  moreover have "distinct (map tb_active_pane_id ts)"
  proof -
    have "i = j" if "i < length ts" "j < length ts" "tb_active_pane_id (ts ! i) = tb_active_pane_id (ts ! j)" for i j
    proof -
      have "tw_id (?ws ! i) = tw_id (?ws ! j)"
        using that assms(3) len pane_id_inj [of "tw_id (?ws ! i)" "tw_id (?ws ! j)"] by (simp add: at)
      then show ?thesis using assms(2) that len by (simp add: distinct_conv_nth) metis
    qed
    then show ?thesis by (auto simp: distinct_conv_nth)
  qed
  moreover have "\<forall>x \<in> set ts. tab_ok x" by (auto simp: in_set_conv_nth at tab_ok_def)
  moreover have "\<forall>p \<in> set (session_panes s). pane_aligned p"
    by (auto simp: session_panes_def tabs in_set_conv_nth [of _ ts] at tmux_root_aligned)
  moreover have "find_tab s (ss_active_tab_id s) \<noteq> None"
  proof -
    have "(case find tw_active ?ws of Some w \<Rightarrow> w | None \<Rightarrow> ?ws ! 0) \<in> set ?ws"
      using ne by (auto simp: find_Some_iff split: option.split)
    then show ?thesis unfolding find_tab_None tabs ids act by auto
  qed
  ultimately show "workspace_ok s" by (simp add: workspace_ok_def tabs)
qed

end
