(* ===== verification/Requests.thy ===== *)
theory Requests
  imports Client_Cache
begin

text \<open>
  What a client says before and besides input (\<open>crates/nmux-cli/src/local.rs\<close>): the attach request, control
  commands, pings, the inventory of clients and of sessions, and the first frame a server reads from a
  connection. For each: the frame that is built, the function that decodes it, and the lemma that decoding
  gives back what was sent. At the end the sequence numbers of a client and what it does with the frames it
  receives.
\<close>

datatype request_error =
  RequestMissing | RequestEmpty | RequestBody
| RequestUnknownKind int | RequestUnknownAxis int
| RequestFrame client_error
| RequestPresence presence_kind

type_synonym 'a rres = "(request_error, 'a) res"

definition required_io_string :: "ustring option \<Rightarrow> ustring rres" where
  "required_io_string v =
     (case v of None \<Rightarrow> Inl RequestMissing | Some s \<Rightarrow> if s = [] then Inl RequestEmpty else Inr s)"

definition optional_io_string :: "ustring option \<Rightarrow> ustring option rres" where
  "optional_io_string v =
     (case v of None \<Rightarrow> Inr None | Some s \<Rightarrow> if s = [] then Inl RequestEmpty else Inr (Some s))"

definition map_frame_error :: "'a cres \<Rightarrow> 'a rres" where
  "map_frame_error r = (case r of Inl e \<Rightarrow> Inl (RequestFrame e) | Inr x \<Rightarrow> Inr x)"

lemma io_strings [simp]:
  "s \<noteq> [] \<Longrightarrow> required_io_string (Some s) = Inr s" "v \<noteq> Some [] \<Longrightarrow> optional_io_string v = Inr v"
  "map_frame_error (Inr x) = Inr x"
  by (auto simp: required_io_string_def optional_io_string_def map_frame_error_def split: option.split)

subsection \<open>Attaching\<close>

record attach_request =
  aq_actor_id :: ustring
  aq_user_id :: ustring
  aq_display_name :: ustring
  aq_mode :: attach_mode
  aq_focused_pane_id :: "ustring option"
  aq_known_surfaces :: "known_surface_version list"
  aq_hostname :: ustring
  aq_client_kind :: ustring
  aq_subscribe_client_inventory :: bool

definition client_envelope :: "ustring option \<Rightarrow> u64 \<Rightarrow> envelope_body \<Rightarrow> envelope" where
  \<comment> \<open>the \<open>EnvelopeArgs\<close> of a frame a client sends\<close>
  "client_envelope session_id seq body =
     \<lparr>en_protocol_version = PROTOCOL_VERSION, en_session_id = session_id, en_connection_id = Some local_client,
      en_seq = seq, en_ack = 0, en_sent_at_mono_ms = 0, en_body = body\<rparr>"

definition attach_request_frame :: "attach_request \<Rightarrow> ustring option \<Rightarrow> envelope" where
  "attach_request_frame r session_id =
     client_envelope session_id 0 (BodyAttachRequest
       \<lparr>war_actor_id = Some (aq_actor_id r), war_user_id = Some (aq_user_id r),
        war_display_name = Some (aq_display_name r), war_mode = attach_mode_as_protocol (aq_mode r),
        war_focused_pane_id = aq_focused_pane_id r,
        war_known_surfaces = Some (map (\<lambda>k. \<lparr>wks_pane_id = Some (ks_pane_id k), wks_version = ks_version k\<rparr>)
          (aq_known_surfaces r)),
        war_hostname = Some (aq_hostname r), war_client_kind = Some (aq_client_kind r),
        war_subscribe_client_inventory = aq_subscribe_client_inventory r\<rparr>)"

definition known_surface_from_wire :: "wire_known_surface \<Rightarrow> known_surface_version rres" where
  "known_surface_from_wire k =
     bind_res (required_io_string (wks_pane_id k)) (\<lambda>pane_id.
       Inr \<lparr>ks_pane_id = pane_id, ks_version = wks_version k\<rparr>)"

definition attach_request_from_frame :: "envelope \<Rightarrow> attach_request rres" where
  "attach_request_from_frame e =
     (case en_body e of
        BodyAttachRequest r \<Rightarrow>
          bind_res (map_res known_surface_from_wire (case war_known_surfaces r of Some ks \<Rightarrow> ks | None \<Rightarrow> [])) (\<lambda>known.
          bind_res (optional_io_string (war_focused_pane_id r)) (\<lambda>focused.
          bind_res (required_io_string (war_actor_id r)) (\<lambda>actor_id.
          bind_res (required_io_string (war_user_id r)) (\<lambda>user_id.
          bind_res (required_io_string (war_display_name r)) (\<lambda>display_name.
          bind_res (map_frame_error (attach_mode_from_protocol (war_mode r))) (\<lambda>mode.
            Inr \<lparr>aq_actor_id = actor_id, aq_user_id = user_id, aq_display_name = display_name, aq_mode = mode,
                 aq_focused_pane_id = focused, aq_known_surfaces = known,
                 aq_hostname = unwrap_string (war_hostname r),
                 aq_client_kind = (case war_client_kind r of Some k \<Rightarrow> k | None \<Rightarrow> lit ''nmux''),
                 aq_subscribe_client_inventory = war_subscribe_client_inventory r\<rparr>))))))
      | _ \<Rightarrow> Inl RequestBody)"

definition attach_request_ok :: "attach_request \<Rightarrow> bool" where
  "attach_request_ok r \<longleftrightarrow> aq_actor_id r \<noteq> [] \<and> aq_user_id r \<noteq> [] \<and> aq_display_name r \<noteq> [] \<and>
     aq_focused_pane_id r \<noteq> Some [] \<and> (\<forall>k \<in> set (aq_known_surfaces r). ks_pane_id k \<noteq> [])"

lemma known_surfaces_decode:
  "\<forall>k \<in> set ks. ks_pane_id k \<noteq> [] \<Longrightarrow>
     map_res known_surface_from_wire (map (\<lambda>k. \<lparr>wks_pane_id = Some (ks_pane_id k), wks_version = ks_version k\<rparr>) ks) = Inr ks"
  by (induction ks) (auto simp: known_surface_from_wire_def)

lemma attach_request_decodes:
  assumes "attach_request_ok r" shows "attach_request_from_frame (attach_request_frame r session_id) = Inr r"
  using assms
  by (simp add: attach_request_from_frame_def attach_request_frame_def client_envelope_def attach_request_ok_def
      known_surfaces_decode unwrap_string_def)

lemma attach_request_decoded_ok:
  assumes "attach_request_from_frame e = Inr r" shows "attach_request_ok r"
proof -
  have "\<forall>k \<in> set known. ks_pane_id k \<noteq> []" if "map_res known_surface_from_wire ks = Inr known" for ks known
    using that
    by (induction ks arbitrary: known) (auto simp: bind_res_Inr_iff known_surface_from_wire_def required_io_string_def
        split: option.splits if_splits)
  with assms show ?thesis
    by (auto simp: attach_request_from_frame_def bind_res_Inr_iff required_io_string_def optional_io_string_def
        attach_request_ok_def split: envelope_body.splits option.splits if_splits)
qed

definition request_actor :: "attach_request \<Rightarrow> session_actor_info" where
  \<comment> \<open>\<open>AttachRequest::actor\<close>\<close>
  "request_actor r =
     \<lparr>ac_id = aq_actor_id r, ac_user_id = aq_user_id r, ac_display_name = aq_display_name r, ac_mode = aq_mode r,
      ac_focused_pane_id = aq_focused_pane_id r\<rparr>"

definition request_surface_response :: "attach_request \<Rightarrow> session \<Rightarrow> ustring \<Rightarrow> surface_response option" where
  "request_surface_response r s pane_id =
     surface_response (map (\<lambda>k. (ks_pane_id k, ks_version k)) (aq_known_surfaces r)) s pane_id"

subsection \<open>Control commands\<close>

record control_command =
  cm_actor_id :: ustring
  cm_command_seq :: u64
  cm_kind :: control_command_kind
  cm_pane_id :: "ustring option"
  cm_tab_id :: "ustring option"
  cm_split_axis :: split_axis
  cm_title :: "ustring option"
  cm_session_id :: "ustring option"

definition control_command_frame :: "control_command \<Rightarrow> envelope" where
  "control_command_frame c =
     client_envelope (Some (lit ''local'')) (cm_command_seq c) (BodyControlCommand
       \<lparr>wcc_actor_id = Some (cm_actor_id c), wcc_command_seq = cm_command_seq c, wcc_kind = cm_kind c,
        wcc_pane_id = cm_pane_id c, wcc_tab_id = cm_tab_id c, wcc_split_axis = cm_split_axis c,
        wcc_title = cm_title c, wcc_session_id = cm_session_id c\<rparr>)"

definition validate_control_command_kind_io :: "control_command_kind \<Rightarrow> control_command_kind rres" where
  "validate_control_command_kind_io kind =
     (if control_command_kind_known kind then Inr kind
      else Inl (RequestUnknownKind (control_command_kind_code kind)))"

definition validate_split_axis_io :: "split_axis \<Rightarrow> split_axis rres" where
  "validate_split_axis_io axis =
     (if split_axis_known axis then Inr axis else Inl (RequestUnknownAxis (split_axis_code axis)))"

definition control_command_from_frame :: "envelope \<Rightarrow> control_command rres" where
  "control_command_from_frame e =
     (case en_body e of
        BodyControlCommand c \<Rightarrow>
          bind_res (required_io_string (wcc_actor_id c)) (\<lambda>actor_id.
          bind_res (validate_control_command_kind_io (wcc_kind c)) (\<lambda>kind.
          bind_res (optional_io_string (wcc_pane_id c)) (\<lambda>pane_id.
          bind_res (optional_io_string (wcc_tab_id c)) (\<lambda>tab_id.
          bind_res (validate_split_axis_io (wcc_split_axis c)) (\<lambda>axis.
          bind_res (optional_io_string (wcc_title c)) (\<lambda>title.
          bind_res (optional_io_string (wcc_session_id c)) (\<lambda>session_id.
            Inr \<lparr>cm_actor_id = actor_id, cm_command_seq = wcc_command_seq c, cm_kind = kind, cm_pane_id = pane_id,
                 cm_tab_id = tab_id, cm_split_axis = axis, cm_title = title, cm_session_id = session_id\<rparr>)))))))
      | _ \<Rightarrow> Inl RequestBody)"

definition control_command_ok :: "control_command \<Rightarrow> bool" where
  "control_command_ok c \<longleftrightarrow> cm_actor_id c \<noteq> [] \<and> control_command_kind_known (cm_kind c) \<and> split_axis_known (cm_split_axis c) \<and>
     cm_pane_id c \<noteq> Some [] \<and> cm_tab_id c \<noteq> Some [] \<and> cm_title c \<noteq> Some [] \<and> cm_session_id c \<noteq> Some []"

lemma control_command_decodes:
  assumes "control_command_ok c" shows "control_command_from_frame (control_command_frame c) = Inr c"
  using assms
  by (simp add: control_command_from_frame_def control_command_frame_def client_envelope_def control_command_ok_def
      validate_control_command_kind_io_def validate_split_axis_io_def)

lemma control_command_decoded_ok:
  assumes "control_command_from_frame e = Inr c" shows "control_command_ok c"
  using assms
  by (auto simp: control_command_from_frame_def bind_res_Inr_iff required_io_string_def optional_io_string_def
      validate_control_command_kind_io_def validate_split_axis_io_def control_command_ok_def
      split: envelope_body.splits option.splits if_splits)

subsection \<open>Presence, pings and the first frame\<close>

definition frame_envelope :: "ustring \<Rightarrow> ustring \<Rightarrow> u64 \<Rightarrow> envelope_body \<Rightarrow> envelope" where
  \<comment> \<open>the \<open>EnvelopeArgs\<close> of the summaries' \<open>frame\<close> functions\<close>
  "frame_envelope session_id connection_id seq body =
     \<lparr>en_protocol_version = PROTOCOL_VERSION, en_session_id = Some session_id, en_connection_id = Some connection_id,
      en_seq = seq, en_ack = 0, en_sent_at_mono_ms = 0, en_body = body\<rparr>"

definition presence_frame :: "presence_summary \<Rightarrow> ustring \<Rightarrow> ustring \<Rightarrow> u64 \<Rightarrow> envelope" where
  "presence_frame p session_id connection_id seq =
     frame_envelope session_id connection_id seq (BodyPresence
       \<lparr>wp_actor_id = Some (pr_actor_id p), wp_user_id = Some (pr_user_id p), wp_display_name = Some (pr_display_name p),
        wp_mode = attach_mode_as_protocol (pr_mode p), wp_kind = pr_kind p, wp_focused_pane_id = pr_focused_pane_id p\<rparr>)"

definition presence_ok :: "presence_summary \<Rightarrow> bool" where
  "presence_ok p \<longleftrightarrow> pr_actor_id p \<noteq> [] \<and> pr_user_id p \<noteq> [] \<and> pr_display_name p \<noteq> [] \<and>
     pr_focused_pane_id p \<noteq> Some [] \<and> presence_kind_known (pr_kind p)"

lemma presence_summary_decodes:
  assumes "presence_ok p" shows "presence_from_frame (presence_frame p session_id conn seq) = Inr p"
  using assms
  by (simp add: presence_from_frame_def presence_frame_def frame_envelope_def presence_ok_def validate_defs
      optional_string_ok)

record ping_summary =
  pi_actor_id :: ustring
  pi_ping_seq :: u64

definition ping_frame :: "ping_summary \<Rightarrow> ustring \<Rightarrow> ustring \<Rightarrow> u64 \<Rightarrow> bool \<Rightarrow> envelope" where
  \<comment> \<open>the last argument selects \<open>EnvelopeBody::Pong\<close>; other bodies panic and are never asked for\<close>
  "ping_frame p session_id connection_id seq pong =
     frame_envelope session_id connection_id seq
       ((if pong then BodyPong else BodyPing)
          \<lparr>wpi_actor_id = Some (pi_actor_id p), wpi_ping_seq = pi_ping_seq p\<rparr>)"

definition ping_summary_from :: "wire_ping \<Rightarrow> ping_summary cres" where
  "ping_summary_from p =
     bind_res (required_string (wpi_actor_id p)) (\<lambda>actor_id.
       Inr \<lparr>pi_actor_id = actor_id, pi_ping_seq = wpi_ping_seq p\<rparr>)"

definition ping_from_frame :: "envelope \<Rightarrow> ping_summary cres" where
  "ping_from_frame e = (case en_body e of BodyPing p \<Rightarrow> ping_summary_from p | _ \<Rightarrow> Inl UnexpectedBody)"

definition pong_from_frame :: "envelope \<Rightarrow> ping_summary cres" where
  "pong_from_frame e = (case en_body e of BodyPong p \<Rightarrow> ping_summary_from p | _ \<Rightarrow> Inl UnexpectedBody)"

lemma ping_decodes:
  assumes "pi_actor_id p \<noteq> []"
  shows "ping_from_frame (ping_frame p s conn seq False) = Inr p" and "pong_from_frame (ping_frame p s conn seq True) = Inr p"
  using assms
  by (simp_all add: ping_from_frame_def pong_from_frame_def ping_frame_def frame_envelope_def ping_summary_from_def
      required_string_def)

datatype client_initial_frame =
  InitialAttach "ustring option" attach_request
| InitialControl control_command
| InitialHealthProbe presence_summary

definition read_client_initial_frame :: "envelope \<Rightarrow> client_initial_frame rres" where
  "read_client_initial_frame e =
     (case en_body e of
        BodyAttachRequest _ \<Rightarrow>
          bind_res (optional_io_string (en_session_id e)) (\<lambda>target_session_id.
          bind_res (attach_request_from_frame e) (\<lambda>request. Inr (InitialAttach target_session_id request)))
      | BodyControlCommand _ \<Rightarrow> bind_res (control_command_from_frame e) (\<lambda>c. Inr (InitialControl c))
      | BodyPresence _ \<Rightarrow>
          bind_res (map_frame_error (presence_from_frame e)) (\<lambda>p.
            if pr_kind p \<noteq> PresenceHealthProbe then Inl (RequestPresence (pr_kind p)) else Inr (InitialHealthProbe p))
      | _ \<Rightarrow> Inl RequestBody)"

lemma initial_frames_decode:
  "attach_request_ok r \<Longrightarrow> session_id \<noteq> Some [] \<Longrightarrow>
     read_client_initial_frame (attach_request_frame r session_id) = Inr (InitialAttach session_id r)"
  "control_command_ok c \<Longrightarrow> read_client_initial_frame (control_command_frame c) = Inr (InitialControl c)"
  "presence_ok p \<Longrightarrow> pr_kind p = PresenceHealthProbe \<Longrightarrow>
     read_client_initial_frame (presence_frame p s conn seq) = Inr (InitialHealthProbe p)"
  using attach_request_decodes [of r session_id] control_command_decodes [of c] presence_summary_decodes [of p s conn seq]
  by (simp_all add: read_client_initial_frame_def attach_request_frame_def control_command_frame_def presence_frame_def
      client_envelope_def frame_envelope_def)

subsection \<open>Inventories\<close>

record client_connection =
  cl_connection_id :: ustring
  cl_actor_id :: ustring
  cl_user_id :: ustring
  cl_display_name :: ustring
  cl_hostname :: ustring
  cl_client_kind :: ustring
  cl_mode :: attach_mode
  cl_focused_pane_id :: "ustring option"
  cl_connected_at_mono_ms :: u64
  cl_last_seen_mono_ms :: u64
  cl_last_input_mono_ms :: "u64 option"

definition client_connection_create :: "client_connection \<Rightarrow> wire_client_connection" where
  "client_connection_create c =
     \<lparr>wcl_connection_id = Some (cl_connection_id c), wcl_actor_id = Some (cl_actor_id c), wcl_user_id = Some (cl_user_id c),
      wcl_display_name = Some (cl_display_name c), wcl_hostname = Some (cl_hostname c),
      wcl_client_kind = Some (cl_client_kind c), wcl_mode = attach_mode_as_protocol (cl_mode c),
      wcl_focused_pane_id = cl_focused_pane_id c, wcl_connected_at_mono_ms = cl_connected_at_mono_ms c,
      wcl_last_seen_mono_ms = cl_last_seen_mono_ms c, wcl_has_last_input = (cl_last_input_mono_ms c \<noteq> None),
      wcl_last_input_mono_ms = unwrap_or_default (cl_last_input_mono_ms c)\<rparr>"

definition client_connection_from_wire :: "wire_client_connection \<Rightarrow> client_connection cres" where
  "client_connection_from_wire w =
     bind_res (required_string (wcl_connection_id w)) (\<lambda>connection_id.
     bind_res (required_string (wcl_actor_id w)) (\<lambda>actor_id.
     bind_res (required_string (wcl_user_id w)) (\<lambda>user_id.
     bind_res (required_string (wcl_display_name w)) (\<lambda>display_name.
     bind_res (attach_mode_from_protocol (wcl_mode w)) (\<lambda>mode.
     bind_res (optional_string (wcl_focused_pane_id w)) (\<lambda>focused.
       Inr \<lparr>cl_connection_id = connection_id, cl_actor_id = actor_id, cl_user_id = user_id,
            cl_display_name = display_name, cl_hostname = unwrap_string (wcl_hostname w),
            cl_client_kind = unwrap_string (wcl_client_kind w), cl_mode = mode, cl_focused_pane_id = focused,
            cl_connected_at_mono_ms = wcl_connected_at_mono_ms w, cl_last_seen_mono_ms = wcl_last_seen_mono_ms w,
            cl_last_input_mono_ms = (if wcl_has_last_input w then Some (wcl_last_input_mono_ms w) else None)\<rparr>))))))"

definition decoded_client_connections :: "wire_client_connection list option \<Rightarrow> client_connection list cres" where
  "decoded_client_connections clients =
     (case clients of None \<Rightarrow> Inr [] | Some cs \<Rightarrow> map_res client_connection_from_wire cs)"

record client_inventory_snapshot =
  ci_version :: u64
  ci_clients :: "client_connection list"

record client_inventory_patch =
  ip_base_version :: u64
  ip_version :: u64
  ip_joined :: "client_connection list"
  ip_updated :: "client_connection list"
  ip_left_connection_ids :: "ustring list"

definition client_inventory_snapshot_frame :: "client_inventory_snapshot \<Rightarrow> ustring \<Rightarrow> ustring \<Rightarrow> u64 \<Rightarrow> envelope" where
  "client_inventory_snapshot_frame i session_id connection_id seq =
     frame_envelope session_id connection_id seq (BodyClientInventory
       \<lparr>wci_version = ci_version i, wci_clients = Some (map client_connection_create (ci_clients i))\<rparr>)"

definition client_inventory_patch_frame :: "client_inventory_patch \<Rightarrow> ustring \<Rightarrow> ustring \<Rightarrow> u64 \<Rightarrow> envelope" where
  "client_inventory_patch_frame i session_id connection_id seq =
     frame_envelope session_id connection_id seq (BodyClientInventoryPatch
       \<lparr>wcp_base_version = ip_base_version i, wcp_version = ip_version i,
        wcp_joined = Some (map client_connection_create (ip_joined i)),
        wcp_updated = Some (map client_connection_create (ip_updated i)),
        wcp_left = Some (ip_left_connection_ids i)\<rparr>)"

definition client_inventory_snapshot_from_frame :: "envelope \<Rightarrow> client_inventory_snapshot cres" where
  "client_inventory_snapshot_from_frame e =
     (case en_body e of
        BodyClientInventory i \<Rightarrow>
          bind_res (decoded_client_connections (wci_clients i)) (\<lambda>clients.
            Inr \<lparr>ci_version = wci_version i, ci_clients = clients\<rparr>)
      | _ \<Rightarrow> Inl UnexpectedBody)"

definition client_inventory_patch_from_frame :: "envelope \<Rightarrow> client_inventory_patch cres" where
  "client_inventory_patch_from_frame e =
     (case en_body e of
        BodyClientInventoryPatch i \<Rightarrow>
          bind_res (case wcp_left i of None \<Rightarrow> Inr [] | Some ids \<Rightarrow> map_res (\<lambda>k. required_string (Some k)) ids) (\<lambda>left.
          bind_res (decoded_client_connections (wcp_joined i)) (\<lambda>joined.
          bind_res (decoded_client_connections (wcp_updated i)) (\<lambda>updated.
            Inr \<lparr>ip_base_version = wcp_base_version i, ip_version = wcp_version i, ip_joined = joined,
                 ip_updated = updated, ip_left_connection_ids = left\<rparr>)))
      | _ \<Rightarrow> Inl UnexpectedBody)"

definition connection_ok :: "client_connection \<Rightarrow> bool" where
  "connection_ok c \<longleftrightarrow> cl_connection_id c \<noteq> [] \<and> cl_actor_id c \<noteq> [] \<and> cl_user_id c \<noteq> [] \<and> cl_display_name c \<noteq> [] \<and>
     cl_focused_pane_id c \<noteq> Some []"

lemma connection_decodes: "connection_ok c \<Longrightarrow> client_connection_from_wire (client_connection_create c) = Inr c"
  by (cases "cl_last_input_mono_ms c")
    (simp_all add: client_connection_from_wire_def client_connection_create_def connection_ok_def required_string_def
      optional_string_ok unwrap_string_def unwrap_or_default_def)

lemma connections_decode:
  "\<forall>c \<in> set cs. connection_ok c \<Longrightarrow> decoded_client_connections (Some (map client_connection_create cs)) = Inr cs"
  by (induction cs) (auto simp: decoded_client_connections_def connection_decodes)

lemma inventory_decodes:
  "\<forall>c \<in> set (ci_clients i). connection_ok c \<Longrightarrow>
     client_inventory_snapshot_from_frame (client_inventory_snapshot_frame i s conn seq) = Inr i"
  by (simp add: client_inventory_snapshot_from_frame_def client_inventory_snapshot_frame_def frame_envelope_def
      connections_decode)

lemma left_ids_decode: "[] \<notin> set ids \<Longrightarrow> map_res (\<lambda>k. required_string (Some k)) ids = Inr ids"
  by (induction ids) (auto simp: required_string_def)

lemma inventory_patch_decodes:
  "\<forall>c \<in> set (ip_joined i @ ip_updated i). connection_ok c \<Longrightarrow> [] \<notin> set (ip_left_connection_ids i) \<Longrightarrow>
     client_inventory_patch_from_frame (client_inventory_patch_frame i s conn seq) = Inr i"
  by (simp add: client_inventory_patch_from_frame_def client_inventory_patch_frame_def frame_envelope_def
      connections_decode left_ids_decode)

record session_inventory_item =
  si_session_id :: ustring
  si_title :: ustring

record session_inventory =
  sn_active_session_id :: ustring
  sn_sessions :: "session_inventory_item list"

definition session_inventory_frame :: "session_inventory \<Rightarrow> ustring \<Rightarrow> u64 \<Rightarrow> envelope" where
  "session_inventory_frame i connection_id seq =
     frame_envelope (sn_active_session_id i) connection_id seq (BodySessionInventory
       \<lparr>wsn_active_session_id = Some (sn_active_session_id i),
        wsn_sessions = Some (map (\<lambda>x. \<lparr>wsi_session_id = Some (si_session_id x), wsi_title = Some (si_title x)\<rparr>)
          (sn_sessions i))\<rparr>)"

definition session_item_from_wire :: "wire_session_item \<Rightarrow> session_inventory_item cres" where
  "session_item_from_wire w =
     bind_res (required_string (wsi_session_id w)) (\<lambda>session_id.
     bind_res (required_string (wsi_title w)) (\<lambda>title. Inr \<lparr>si_session_id = session_id, si_title = title\<rparr>))"

definition session_inventory_from_frame :: "envelope \<Rightarrow> session_inventory cres" where
  "session_inventory_from_frame e =
     (case en_body e of
        BodySessionInventory i \<Rightarrow>
          bind_res (required_string (wsn_active_session_id i)) (\<lambda>active.
          bind_res (ok_or MissingRows (wsn_sessions i)) (\<lambda>items.
          bind_res (map_res session_item_from_wire items) (\<lambda>sessions.
            Inr \<lparr>sn_active_session_id = active, sn_sessions = sessions\<rparr>)))
      | _ \<Rightarrow> Inl UnexpectedBody)"

lemma session_items_decode:
  "\<forall>x \<in> set xs. si_session_id x \<noteq> [] \<and> si_title x \<noteq> [] \<Longrightarrow>
     map_res session_item_from_wire
       (map (\<lambda>x. \<lparr>wsi_session_id = Some (si_session_id x), wsi_title = Some (si_title x)\<rparr>) xs) = Inr xs"
  by (induction xs) (auto simp: session_item_from_wire_def required_string_def)

lemma session_inventory_decodes:
  "sn_active_session_id i \<noteq> [] \<Longrightarrow> \<forall>x \<in> set (sn_sessions i). si_session_id x \<noteq> [] \<and> si_title x \<noteq> [] \<Longrightarrow>
     session_inventory_from_frame (session_inventory_frame i conn seq) = Inr i"
  by (simp add: session_inventory_from_frame_def session_inventory_frame_def frame_envelope_def session_items_decode
      required_string_def ok_or_def)

subsection \<open>Sequence numbers of a client\<close>

record client_frame_sequence =
  fq_next_envelope_seq :: u64
  fq_next_input_seq :: u64
  fq_next_ping_seq :: u64

definition client_frame_sequence_default :: client_frame_sequence where
  "client_frame_sequence_default = \<lparr>fq_next_envelope_seq = 1, fq_next_input_seq = 1, fq_next_ping_seq = 1\<rparr>"

definition next_envelope_seq :: "client_frame_sequence \<Rightarrow> u64 \<times> client_frame_sequence" where
  "next_envelope_seq q = (fq_next_envelope_seq q, q\<lparr>fq_next_envelope_seq := fq_next_envelope_seq q + 1\<rparr>)"

definition next_input_seq :: "client_frame_sequence \<Rightarrow> u64 \<times> client_frame_sequence" where
  "next_input_seq q = (fq_next_input_seq q, q\<lparr>fq_next_input_seq := fq_next_input_seq q + 1\<rparr>)"

definition next_ping_seq :: "client_frame_sequence \<Rightarrow> u64 \<times> client_frame_sequence" where
  "next_ping_seq q = (fq_next_ping_seq q, q\<lparr>fq_next_ping_seq := fq_next_ping_seq q + 1\<rparr>)"

fun take_input_seqs :: "nat \<Rightarrow> client_frame_sequence \<Rightarrow> u64 list \<times> client_frame_sequence" where
  \<comment> \<open>the numbers of a run of inputs\<close>
  "take_input_seqs 0 q = ([], q)"
| "take_input_seqs (Suc n) q =
     (let (k, q1) = next_input_seq q; (ks, q2) = take_input_seqs n q1 in (k # ks, q2))"

lemma take_input_seqs_run:
  "take_input_seqs n q =
     ([fq_next_input_seq q ..< fq_next_input_seq q + n], q\<lparr>fq_next_input_seq := fq_next_input_seq q + n\<rparr>)"
  by (induction n arbitrary: q) (simp_all add: next_input_seq_def upt_conv_Cons del: upt_Suc)

subsection \<open>What a client does with the frames it receives\<close>

datatype frame_read =
  \<comment> \<open>what \<open>wire::read_default_frame\<close> and the check of the envelope give\<close>
  FrameRead envelope
| ReadTimedOut | ReadEof | ReadReset | ReadFailed

datatype read_error =
  ServerSaid error_summary
| ReadFrameError client_error
| ReadStream frame_read
| ReadUnexpected
| ReadSurfaceState attach_surface_state

type_synonym 'a reads = "(read_error, 'a \<times> frame_read list) res"

definition read_frame_from :: "frame_read list \<Rightarrow> envelope reads" where
  \<comment> \<open>the next frame; a stream that has nothing more is at its end\<close>
  "read_frame_from rs =
     (case rs of [] \<Rightarrow> Inl (ReadStream ReadEof)
      | FrameRead e # rest \<Rightarrow> Inr (e, rest)
      | r # rest \<Rightarrow> Inl (ReadStream r))"

definition decoded :: "'a cres \<Rightarrow> (read_error, 'a) res" where
  "decoded r = (case r of Inl e \<Rightarrow> Inl (ReadFrameError e) | Inr x \<Rightarrow> Inr x)"

definition server_error :: "envelope \<Rightarrow> (read_error, 'a) res" where
  \<comment> \<open>an error frame of the server ends the call\<close>
  "server_error e = bind_res (decoded (error_summary_from_frame e)) (\<lambda>s. Inl (ServerSaid s))"

lemma read_frame_from_simps [simp]:
  "read_frame_from (FrameRead e # rest) = Inr (e, rest)" "read_frame_from [] = Inl (ReadStream ReadEof)"
  by (simp_all add: read_frame_from_def)

lemma decoded_Inr [simp]: "decoded (Inr x) = Inr x" "decoded r = Inr y \<longleftrightarrow> r = Inr y"
  by (auto simp: decoded_def split: sum.split)

lemma read_frame_from_shorter: "read_frame_from rs = Inr (e, rest) \<Longrightarrow> rs = FrameRead e # rest"
  by (auto simp: read_frame_from_def split: list.splits frame_read.splits)

fun read_control_command_response :: "frame_read list \<Rightarrow> workspace_summary reads" where
  "read_control_command_response [] = Inl (ReadStream ReadEof)"
| "read_control_command_response (FrameRead e # rest) =
     (case en_body e of
        BodyWorkspace w \<Rightarrow> bind_res (decoded (workspace_summary_from_frame e)) (\<lambda>s. Inr (s, rest))
      | BodyError r \<Rightarrow> server_error e
      | BodyPresence p \<Rightarrow> read_control_command_response rest
      | _ \<Rightarrow> Inl ReadUnexpected)"
| "read_control_command_response (r # rest) = Inl (ReadStream r)"

fun read_session_inventory_command_response :: "frame_read list \<Rightarrow> session_inventory reads" where
  "read_session_inventory_command_response [] = Inl (ReadStream ReadEof)"
| "read_session_inventory_command_response (FrameRead e # rest) =
     (case en_body e of
        BodySessionInventory i \<Rightarrow> bind_res (decoded (session_inventory_from_frame e)) (\<lambda>s. Inr (s, rest))
      | BodyError r \<Rightarrow> server_error e
      | BodyPresence p \<Rightarrow> read_session_inventory_command_response rest
      | _ \<Rightarrow> Inl ReadUnexpected)"
| "read_session_inventory_command_response (r # rest) = Inl (ReadStream r)"

fun read_health_probe_response :: "frame_read list \<Rightarrow> presence_summary reads" where
  "read_health_probe_response [] = Inl (ReadStream ReadEof)"
| "read_health_probe_response (FrameRead e # rest) =
     (case en_body e of
        BodyPresence p \<Rightarrow>
          (case decoded (presence_from_frame e) of Inl x \<Rightarrow> Inl x
           | Inr s \<Rightarrow> if pr_kind s = PresenceHeartbeat then Inr (s, rest) else read_health_probe_response rest)
      | BodyError r \<Rightarrow> server_error e
      | BodyWorkspace w \<Rightarrow> read_health_probe_response rest
      | BodySnapshot w \<Rightarrow> read_health_probe_response rest
      | BodyPatch w \<Rightarrow> read_health_probe_response rest
      | _ \<Rightarrow> Inl ReadUnexpected)"
| "read_health_probe_response (r # rest) = Inl (ReadStream r)"

datatype live_surface_read =
  LiveWorkspace workspace_summary
| LivePresence presence_summary
| LiveClientInventorySnapshot client_inventory_snapshot
| LiveClientInventoryPatch client_inventory_patch
| LiveUpdate surface_update
| LivePong ping_summary
| LiveError error_summary
| LiveNoFrame
| LiveClosed

definition live_frame_read :: "envelope \<Rightarrow> live_surface_read cres" where
  \<comment> \<open>the match on the body in \<open>read_live_surface_update_from_stream\<close>\<close>
  "live_frame_read e =
     (case en_body e of
        BodyWorkspace w \<Rightarrow> bind_res (workspace_summary_from_frame e) (\<lambda>s. Inr (LiveWorkspace s))
      | BodySnapshot w \<Rightarrow> bind_res (surface_update_from_frame e) (\<lambda>s. Inr (LiveUpdate s))
      | BodyPatch w \<Rightarrow> bind_res (surface_update_from_frame e) (\<lambda>s. Inr (LiveUpdate s))
      | BodyError r \<Rightarrow> bind_res (error_summary_from_frame e) (\<lambda>s. Inr (LiveError s))
      | BodyPresence p \<Rightarrow> bind_res (presence_from_frame e) (\<lambda>s. Inr (LivePresence s))
      | BodyClientInventory i \<Rightarrow>
          bind_res (client_inventory_snapshot_from_frame e) (\<lambda>s. Inr (LiveClientInventorySnapshot s))
      | BodyClientInventoryPatch i \<Rightarrow>
          bind_res (client_inventory_patch_from_frame e) (\<lambda>s. Inr (LiveClientInventoryPatch s))
      | BodyPong p \<Rightarrow> bind_res (pong_from_frame e) (\<lambda>s. Inr (LivePong s))
      | _ \<Rightarrow> Inl UnexpectedBody)"

fun read_live_surface_update_from_stream :: "frame_read \<Rightarrow> (read_error, live_surface_read) res" where
  "read_live_surface_update_from_stream (FrameRead e) = decoded (live_frame_read e)"
| "read_live_surface_update_from_stream ReadTimedOut = Inr LiveNoFrame"
| "read_live_surface_update_from_stream ReadEof = Inr LiveClosed"
| "read_live_surface_update_from_stream ReadReset = Inr LiveClosed"
| "read_live_surface_update_from_stream ReadFailed = Inl (ReadStream ReadFailed)"

datatype scrollback_read = ScrollbackReadChunk scrollback_chunk_summary | ScrollbackReadError error_summary

fun read_scrollback_response_from_stream ::
  "frame_read list \<Rightarrow> surface_update list option \<Rightarrow> live_surface_read list option \<Rightarrow>
     (scrollback_read \<times> surface_update list option \<times> live_surface_read list option) reads" where
  \<comment> \<open>frames that are not the answer are kept in the pending lists of a caller that has them\<close>
  "read_scrollback_response_from_stream [] us ls = Inl (ReadStream ReadEof)"
| "read_scrollback_response_from_stream (FrameRead e # rest) us ls =
     (case en_body e of
        BodyChunk c \<Rightarrow>
          bind_res (decoded (scrollback_chunk_from_frame e)) (\<lambda>s. Inr ((ScrollbackReadChunk s, us, ls), rest))
      | BodyError r \<Rightarrow>
          bind_res (decoded (error_summary_from_frame e)) (\<lambda>s. Inr ((ScrollbackReadError s, us, ls), rest))
      | BodyPresence p \<Rightarrow> read_scrollback_response_from_stream rest us ls
      | BodyWorkspace w \<Rightarrow> read_scrollback_response_from_stream rest us ls
      | BodySnapshot w \<Rightarrow>
          (case us of None \<Rightarrow> Inl ReadUnexpected
           | Some u \<Rightarrow> (case decoded (surface_update_from_frame e) of Inl x \<Rightarrow> Inl x
              | Inr s \<Rightarrow> read_scrollback_response_from_stream rest (Some (u @ [s])) ls))
      | BodyPatch w \<Rightarrow>
          (case us of None \<Rightarrow> Inl ReadUnexpected
           | Some u \<Rightarrow> (case decoded (surface_update_from_frame e) of Inl x \<Rightarrow> Inl x
              | Inr s \<Rightarrow> read_scrollback_response_from_stream rest (Some (u @ [s])) ls))
      | BodyClientInventory i \<Rightarrow>
          (case ls of None \<Rightarrow> Inl ReadUnexpected
           | Some l \<Rightarrow> (case decoded (client_inventory_snapshot_from_frame e) of Inl x \<Rightarrow> Inl x
              | Inr s \<Rightarrow> read_scrollback_response_from_stream rest us (Some (l @ [LiveClientInventorySnapshot s]))))
      | BodyClientInventoryPatch i \<Rightarrow>
          (case ls of None \<Rightarrow> Inl ReadUnexpected
           | Some l \<Rightarrow> (case decoded (client_inventory_patch_from_frame e) of Inl x \<Rightarrow> Inl x
              | Inr s \<Rightarrow> read_scrollback_response_from_stream rest us (Some (l @ [LiveClientInventoryPatch s]))))
      | _ \<Rightarrow> Inl ReadUnexpected)"
| "read_scrollback_response_from_stream (r # rest) us ls = Inl (ReadStream r)"

definition surface_frame :: "envelope \<Rightarrow> bool" where
  "surface_frame e = (case en_body e of BodySnapshot w \<Rightarrow> True | BodyPatch w \<Rightarrow> True | _ \<Rightarrow> False)"

definition answer_frame :: "envelope \<Rightarrow> bool" where
  "answer_frame e = (case en_body e of BodyChunk c \<Rightarrow> True | BodyError r \<Rightarrow> True | _ \<Rightarrow> False)"

definition updates_before :: "frame_read list \<Rightarrow> frame_read list \<Rightarrow> surface_update list \<Rightarrow> bool" where
  \<comment> \<open>the answer comes just before the rest, and these are the updates that come before the answer\<close>
  "updates_before rs rest new \<longleftrightarrow>
     (\<exists>before e. rs = map FrameRead before @ FrameRead e # rest \<and> answer_frame e \<and>
        list_all (\<lambda>x. \<not> answer_frame x) before \<and>
        map_res surface_update_from_frame (filter surface_frame before) = Inr new)"

lemma updates_before_step:
  assumes "\<not> answer_frame e" and "updates_before rs rest new"
  shows "\<not> surface_frame e \<Longrightarrow> updates_before (FrameRead e # rs) rest new"
    and "surface_frame e \<Longrightarrow> surface_update_from_frame e = Inr s \<Longrightarrow> updates_before (FrameRead e # rs) rest (s # new)"
proof -
  from assms(2) obtain before e1 where b: "rs = map FrameRead before @ FrameRead e1 # rest" "answer_frame e1"
    "list_all (\<lambda>x. \<not> answer_frame x) before" "map_res surface_update_from_frame (filter surface_frame before) = Inr new"
    by (auto simp: updates_before_def)
  show "updates_before (FrameRead e # rs) rest new" if "\<not> surface_frame e"
    unfolding updates_before_def using b assms(1) that by (intro exI [of _ "e # before"] exI [of _ e1]) simp
  show "updates_before (FrameRead e # rs) rest (s # new)" if "surface_frame e" "surface_update_from_frame e = Inr s"
    unfolding updates_before_def using b assms(1) that by (intro exI [of _ "e # before"] exI [of _ e1]) simp
qed

lemma updates_before_answer: "answer_frame e \<Longrightarrow> updates_before (FrameRead e # rest) rest []"
  unfolding updates_before_def by (intro exI [of _ "[]"] exI [of _ e]) simp

lemma scrollback_read_keeps_updates:
  assumes "read_scrollback_response_from_stream rs (Some us) ls = Inr ((r, us', ls'), rest)"
  shows "\<exists>new. updates_before rs rest new \<and> us' = Some (us @ new)"
  using assms
proof (induction rs "Some us" ls arbitrary: us rule: read_scrollback_response_from_stream.induct)
  case (2 e rest1 ls)
  show ?case
  proof (cases "answer_frame e")
    case True
    with 2(7) updates_before_answer [OF True, of rest1] show ?thesis
      by (intro exI [of _ "[]"])
        (auto simp: answer_frame_def bind_res_Inr_iff split: envelope_body.splits)
  next
    case False
    show ?thesis
    proof (cases "surface_frame e")
      case True
      obtain u where u: "surface_update_from_frame e = Inr u"
        "read_scrollback_response_from_stream rest1 (Some (us @ [u])) ls = Inr ((r, us', ls'), rest)"
        using 2(7) True by (auto simp: surface_frame_def split: envelope_body.splits sum.splits)
      have "\<exists>new. updates_before rest1 rest new \<and> us' = Some ((us @ [u]) @ new)"
        using True u 2(4,5)
        by (cases "en_body e") (simp_all add: surface_frame_def del: append_assoc)
      then show ?thesis using updates_before_step(2) [OF False _ True u(1)] by auto
    next
      case no: False
      have "\<exists>new. updates_before rest1 rest new \<and> us' = Some (us @ new)"
        using 2(7) False no
        by (cases "en_body e") (auto simp: surface_frame_def answer_frame_def split: option.splits sum.splits
            intro: 2(1,2,3,6))
      then show ?thesis using updates_before_step(1) [OF False _ no] by auto
    qed
  qed
qed auto

end
