(* ===== verification/Host_Interface.thy ===== *)
theory Host_Interface
  imports Host_Spec
begin

text \<open>
  The interface between the server and what runs in the panes (\<open>crates/nmux-core/src/host.rs\<close>): the traits
  \<open>ProcessHost\<close> and \<open>ProcessOutput\<close> as a record of operations on a host's state, \<open>HostError\<close>, the
  two implementations that involve no operating system (\<open>PlanningHost\<close>, \<open>UnsupportedSandboxHost\<close>), the
  queue of \<open>RecordingOutput\<close>, and the argument vectors that containers and sandboxes are spawned with.

  The locales \<open>pane_supervisor\<close> and \<open>output_source\<close> state what the server relies on: which panes run
  after each operation, and that output is read in order and without loss. They are interpreted on the
  hosts above.
\<close>

datatype process_status = StatusRunning | StatusExited

record pane_process =
  pp_pane_id :: ustring
  pp_host_id :: ustring
  pp_status :: process_status

datatype host_error =
  UnsupportedHostKind ustring host_kind
| UnsupportedOperation ustring string
| AlreadyRunning ustring
| NotRunning ustring
| HostIo ustring string ustring

definition host_error_text :: "(host_kind \<Rightarrow> ustring) \<Rightarrow> host_error \<Rightarrow> ustring" where
  \<comment> \<open>the derived \<open>Debug\<close> of \<open>HostKind\<close> is the first argument\<close>
  "host_error_text kind_debug e =
     (case e of
        UnsupportedHostKind host_id kind \<Rightarrow>
          lit ''unsupported host kind for '' @ host_id @ lit '': '' @ kind_debug kind
      | UnsupportedOperation pane_id operation \<Rightarrow>
          lit ''unsupported host operation '' @ lit operation @ lit '' for '' @ pane_id
      | AlreadyRunning pane_id \<Rightarrow> lit ''pane process is already running: '' @ pane_id
      | NotRunning pane_id \<Rightarrow> lit ''pane process is not running: '' @ pane_id
      | HostIo pane_id operation message \<Rightarrow>
          lit ''host I/O error during '' @ lit operation @ lit '' for '' @ pane_id @ lit '': '' @ message)"

type_synonym ('h, 'a) host_result = "'h \<times> (host_error, 'a) res"

record 'h process_host =
  ph_start :: "'h \<Rightarrow> ustring \<Rightarrow> host_spec \<Rightarrow> ('h, pane_process) host_result"
  ph_check :: "'h \<Rightarrow> ustring \<Rightarrow> ('h, unit) host_result"
  ph_write :: "'h \<Rightarrow> ustring \<Rightarrow> byte list \<Rightarrow> ('h, unit) host_result"
  ph_resize :: "'h \<Rightarrow> ustring \<Rightarrow> u32 \<Rightarrow> u32 \<Rightarrow> ('h, unit) host_result"
  ph_stop :: "'h \<Rightarrow> ustring \<Rightarrow> ('h, pane_process) host_result"
  ph_try_read :: "'h \<Rightarrow> ustring \<Rightarrow> usize \<Rightarrow> ('h, byte list) host_result"
  ph_kind_debug :: "host_kind \<Rightarrow> ustring"

subsection \<open>The planning host\<close>

datatype host_event =
  HostStarted ustring ustring host_kind
| HostInput ustring "byte list"
| HostResized ustring u32 u32
| HostStopped ustring

record planning_host =
  pl_processes :: "ustring \<rightharpoonup> pane_process"
  pl_events :: "host_event list"

definition planning_host_default :: planning_host where
  "planning_host_default = \<lparr>pl_processes = Map.empty, pl_events = []\<rparr>"

definition running_process :: "planning_host \<Rightarrow> ustring \<Rightarrow> (host_error, pane_process) res" where
  "running_process h pane_id =
     (case pl_processes h pane_id of
        Some p \<Rightarrow> if pp_status p = StatusRunning then Inr p else Inl (NotRunning pane_id)
      | None \<Rightarrow> Inl (NotRunning pane_id))"

definition push_event :: "host_event \<Rightarrow> planning_host \<Rightarrow> planning_host" where
  "push_event e h = h\<lparr>pl_events := pl_events h @ [e]\<rparr>"

definition planning_start :: "planning_host \<Rightarrow> ustring \<Rightarrow> host_spec \<Rightarrow> (planning_host, pane_process) host_result" where
  "planning_start h pane_id spec =
     (if option_is_some_and (\<lambda>p. pp_status p = StatusRunning) (pl_processes h pane_id)
      then (h, Inl (AlreadyRunning pane_id))
      else
        (let p = \<lparr>pp_pane_id = pane_id, pp_host_id = hs_id spec, pp_status = StatusRunning\<rparr>
         in (push_event (HostStarted pane_id (hs_id spec) (hs_kind spec))
               (h\<lparr>pl_processes := (pl_processes h)(pane_id \<mapsto> p)\<rparr>), Inr p)))"

definition planning_check :: "planning_host \<Rightarrow> ustring \<Rightarrow> (planning_host, unit) host_result" where
  "planning_check h pane_id = (h, bind_res (running_process h pane_id) (\<lambda>_. Inr ()))"

definition planning_write :: "planning_host \<Rightarrow> ustring \<Rightarrow> byte list \<Rightarrow> (planning_host, unit) host_result" where
  "planning_write h pane_id bytes =
     (case running_process h pane_id of
        Inl e \<Rightarrow> (h, Inl e) | Inr _ \<Rightarrow> (push_event (HostInput pane_id bytes) h, Inr ()))"

definition planning_resize :: "planning_host \<Rightarrow> ustring \<Rightarrow> u32 \<Rightarrow> u32 \<Rightarrow> (planning_host, unit) host_result" where
  "planning_resize h pane_id cols rows =
     (case running_process h pane_id of
        Inl e \<Rightarrow> (h, Inl e) | Inr _ \<Rightarrow> (push_event (HostResized pane_id cols rows) h, Inr ()))"

definition planning_stop :: "planning_host \<Rightarrow> ustring \<Rightarrow> (planning_host, pane_process) host_result" where
  "planning_stop h pane_id =
     (case running_process h pane_id of
        Inl e \<Rightarrow> (h, Inl e)
      | Inr p \<Rightarrow>
          (let p = p\<lparr>pp_status := StatusExited\<rparr>
           in (push_event (HostStopped pane_id) (h\<lparr>pl_processes := (pl_processes h)(pane_id \<mapsto> p)\<rparr>), Inr p)))"

definition planning_try_read :: "planning_host \<Rightarrow> ustring \<Rightarrow> usize \<Rightarrow> (planning_host, byte list) host_result" where
  "planning_try_read h pane_id len = (h, bind_res (running_process h pane_id) (\<lambda>_. Inr []))"

definition planning_ops :: "(host_kind \<Rightarrow> ustring) \<Rightarrow> planning_host process_host" where
  "planning_ops debug = \<lparr>ph_start = planning_start, ph_check = planning_check, ph_write = planning_write,
     ph_resize = planning_resize, ph_stop = planning_stop, ph_try_read = planning_try_read, ph_kind_debug = debug\<rparr>"

definition planning_running :: "planning_host \<Rightarrow> ustring set" where
  "planning_running h = {k. option_is_some_and (\<lambda>p. pp_status p = StatusRunning) (pl_processes h k)}"

subsection \<open>The host without a sandbox\<close>

definition unsupported_ops :: "(host_kind \<Rightarrow> ustring) \<Rightarrow> unit process_host" where
  "unsupported_ops debug =
     \<lparr>ph_start = (\<lambda>h _ spec. (h, Inl (UnsupportedHostKind (hs_id spec) (hs_kind spec)))),
      ph_check = (\<lambda>h pane_id. (h, Inl (NotRunning pane_id))),
      ph_write = (\<lambda>h pane_id _. (h, Inl (NotRunning pane_id))),
      ph_resize = (\<lambda>h pane_id _ _. (h, Inl (NotRunning pane_id))),
      ph_stop = (\<lambda>h pane_id. (h, Inl (NotRunning pane_id))),
      ph_try_read = (\<lambda>h pane_id _. (h, Inl (NotRunning pane_id))),
      ph_kind_debug = debug\<rparr>"

subsection \<open>Recorded output\<close>

type_synonym recording_output = "ustring \<rightharpoonup> byte list"

definition push_output :: "recording_output \<Rightarrow> ustring \<Rightarrow> byte list \<Rightarrow> recording_output" where
  "push_output o1 pane_id bytes =
     o1(pane_id \<mapsto> (case o1 pane_id of Some queue \<Rightarrow> queue | None \<Rightarrow> []) @ bytes)"

definition recording_try_read :: "recording_output \<Rightarrow> ustring \<Rightarrow> usize \<Rightarrow> (recording_output, byte list) host_result" where
  "recording_try_read o1 pane_id len =
     (case o1 pane_id of
        None \<Rightarrow> (o1, Inr [])
      | Some queue \<Rightarrow>
          (let count = min len (length queue)
           in (o1(pane_id \<mapsto> drop count queue), Inr (take count queue))))"

definition recorded :: "recording_output \<Rightarrow> ustring \<Rightarrow> byte list" where
  "recorded o1 pane_id = (case o1 pane_id of Some queue \<Rightarrow> queue | None \<Rightarrow> [])"

subsection \<open>Spawn commands\<close>

record host_spawn_command =
  sp_program :: ustring
  sp_args :: "ustring list"
  sp_working_dir :: "ustring option"
  sp_env :: "(ustring \<times> ustring) list"

definition spawn_from_command :: "command_spec \<Rightarrow> host_spawn_command" where
  "spawn_from_command cmd =
     \<lparr>sp_program = cmd_program cmd, sp_args = cmd_args cmd, sp_working_dir = cmd_working_dir cmd, sp_env = cmd_env cmd\<rparr>"

definition container_spawn_command :: "ustring option \<Rightarrow> ustring \<Rightarrow> command_spec \<Rightarrow> bool \<Rightarrow> host_spawn_command" where
  \<comment> \<open>the first argument is the environment variable \<open>NMUX_CONTAINER_RUNTIME\<close>\<close>
  "container_spawn_command runtime_var img cmd allocate_tty =
     \<lparr>sp_program = (case runtime_var of Some r \<Rightarrow> r | None \<Rightarrow> lit ''docker''),
      sp_args = [lit ''run'', lit ''--rm'', lit ''-i''] @ (if allocate_tty then [lit ''-t''] else []) @
        (case cmd_working_dir cmd of Some dir \<Rightarrow> [lit ''--workdir'', dir] | None \<Rightarrow> []) @
        concat (map (\<lambda>(key, v). [lit ''-e'', key @ lit ''='' @ v]) (cmd_env cmd)) @
        [img, cmd_program cmd] @ cmd_args cmd,
      sp_working_dir = None, sp_env = []\<rparr>"

definition sandbox_spawn_command :: "bool \<Rightarrow> ustring \<Rightarrow> ustring \<Rightarrow> command_spec \<Rightarrow> (host_error, host_spawn_command) res" where
  \<comment> \<open>the first argument is \<open>cfg(target_os = "macos")\<close>\<close>
  "sandbox_spawn_command macos host_id profile cmd =
     (if macos then
        Inr \<lparr>sp_program = lit ''sandbox-exec'', sp_args = [lit ''-p'', profile, cmd_program cmd] @ cmd_args cmd,
             sp_working_dir = cmd_working_dir cmd, sp_env = cmd_env cmd\<rparr>
      else Inl (UnsupportedHostKind host_id (SandboxKind profile)))"

definition spawn_command_for_host ::
  "bool \<Rightarrow> ustring option \<Rightarrow> host_spec \<Rightarrow> bool \<Rightarrow> (host_error, host_spawn_command) res" where
  "spawn_command_for_host macos runtime_var spec allocate_tty =
     (case hs_kind spec of
        LocalKind \<Rightarrow> Inr (spawn_from_command (hs_command spec))
      | ContainerKind img \<Rightarrow> Inr (container_spawn_command runtime_var img (hs_command spec) allocate_tty)
      | SandboxKind profile \<Rightarrow> sandbox_spawn_command macos (hs_id spec) profile (hs_command spec))"

lemma container_runs_command:
  "\<exists>flags. sp_args (container_spawn_command r img cmd tty) = flags @ [img, cmd_program cmd] @ cmd_args cmd \<and>
     (\<forall>(key, v) \<in> set (cmd_env cmd). key @ lit ''='' @ v \<in> set flags)"
  by (force simp: container_spawn_command_def)

subsection \<open>What the server relies on\<close>

locale pane_supervisor =
  fixes ops :: "'h process_host" and running :: "'h \<Rightarrow> ustring set"
  assumes start_ok: "ph_start ops h k spec = (h', Inr p) \<Longrightarrow> k \<notin> running h \<and> running h' = insert k (running h)"
    and start_fails: "ph_start ops h k spec = (h', Inl e) \<Longrightarrow> running h' = running h"
    and stop_ok: "ph_stop ops h k = (h', Inr p) \<Longrightarrow> k \<in> running h \<and> running h' = running h - {k}"
    and stop_runs: "k \<in> running h \<Longrightarrow> \<exists>h' p. ph_stop ops h k = (h', Inr p)"
    and others: "running (fst (ph_check ops h k)) = running h" "running (fst (ph_write ops h k bs)) = running h"
      "running (fst (ph_resize ops h k cols rows)) = running h" "running (fst (ph_try_read ops h k n)) = running h"
begin

lemma stop_removes: "k \<in> running h \<Longrightarrow> running (fst (ph_stop ops h k)) = running h - {k}"
  using stop_runs [of k h] stop_ok by fastforce

end

locale output_source =
  fixes try_read :: "'o \<Rightarrow> ustring \<Rightarrow> usize \<Rightarrow> ('o, byte list) host_result" and pending :: "'o \<Rightarrow> ustring \<Rightarrow> byte list"
  assumes read_front: "try_read o1 k n = (o2, Inr bs) \<Longrightarrow>
      pending o1 k = bs @ pending o2 k \<and> length bs \<le> n \<and> (\<forall>j. j \<noteq> k \<longrightarrow> pending o2 j = pending o1 j)"
    and read_progress: "try_read o1 k n = (o2, Inr []) \<Longrightarrow> 0 < n \<Longrightarrow> pending o1 k = []"
begin

lemma read_shorter: "try_read o1 k n = (o2, Inr bs) \<Longrightarrow> bs \<noteq> [] \<Longrightarrow> length (pending o2 k) < length (pending o1 k)"
  using read_front [of o1 k n o2 bs] by auto

end

lemmas planning_defs = planning_ops_def planning_start_def planning_check_def planning_write_def planning_resize_def
  planning_stop_def planning_try_read_def running_process_def push_event_def planning_running_def

interpretation planning: pane_supervisor "planning_ops debug" planning_running
  by unfold_locales (auto simp: planning_defs option_is_some_and_def Let_def bind_res_def
      split: if_splits option.splits sum.splits)

interpretation unsupported: pane_supervisor "unsupported_ops debug" "\<lambda>_. {}"
  by unfold_locales (auto simp: unsupported_ops_def)

interpretation recording: output_source recording_try_read recorded
  by unfold_locales (auto simp: recording_try_read_def recorded_def Let_def min_def split: option.splits if_splits)

interpretation planning_output: output_source planning_try_read "\<lambda>_ _. []"
  by unfold_locales (auto simp: planning_defs bind_res_def split: option.splits sum.splits if_splits)

end
