(* ===== verification/Control_Commands.thy ===== *)
theory Control_Commands
  imports Requests Host_Interface
begin

text \<open>
  The commands that change a session from outside (\<open>crates/nmux-cli/src/local/control.rs\<close>): splitting a pane,
  opening, closing and switching tabs, ending the session. The source has each command twice, on a bare
  \<open>Session\<close> and on a \<open>SessionActor\<close> whose queue the change goes through. Both are modelled; a command
  returns the changed session or actor, the changed host and a result.

  The lemmas: on an idle actor the two variants agree; the identifiers that are made up are fresh, and the
  least such; and the processes of the host stay the ones of the leaf panes.
\<close>

datatype control_command_outcome = OutcomeContinue | OutcomeShutdown

record control_error =
  ce_code :: error_code
  ce_message :: ustring
  ce_pane_id :: "ustring option"

definition control_pane_not_found :: "ustring \<Rightarrow> control_error" where
  "control_pane_not_found pane_id =
     \<lparr>ce_code = ErrPaneNotFound, ce_message = lit ''pane not found: '' @ pane_id, ce_pane_id = Some pane_id\<rparr>"

definition control_unknown :: "ustring \<Rightarrow> ustring option \<Rightarrow> control_error" where
  "control_unknown message pane_id = \<lparr>ce_code = ErrUnknown, ce_message = message, ce_pane_id = pane_id\<rparr>"

subsection \<open>Identifiers\<close>

definition pane_name :: "nat \<Rightarrow> ustring" where "pane_name n = lit ''pane-'' @ dec_str n"
definition tab_name :: "nat \<Rightarrow> ustring" where "tab_name n = lit ''tab-'' @ dec_str n"

lemma names_inject [simp]: "pane_name m = pane_name n \<longleftrightarrow> m = n" "tab_name m = tab_name n \<longleftrightarrow> m = n"
  by (simp_all add: pane_name_def tab_name_def dec_str_inj)

definition names_left :: "(nat \<Rightarrow> ustring) \<Rightarrow> ustring list \<Rightarrow> nat \<Rightarrow> nat" where
  \<comment> \<open>how many of the names from this index on are among the used ones\<close>
  "names_left name used n = card {m. n \<le> m \<and> name m \<in> set used}"

lemma names_left_decreases:
  assumes "inj name" and "name n \<in> set used"
  shows "names_left name used (Suc n) < names_left name used n"
proof -
  have "finite {m. n \<le> m \<and> name m \<in> set used}"
    by (rule finite_subset [of _ "name -` set used"]) (auto intro: finite_vimageI assms(1))
  moreover have "{m. Suc n \<le> m \<and> name m \<in> set used} \<subset> {m. n \<le> m \<and> name m \<in> set used}"
    using assms(2) by (intro psubsetI) (auto dest: equalityD2 [THEN subsetD, of _ _ n])
  ultimately show ?thesis unfolding names_left_def by (rule psubset_card_mono)
qed

definition used_pane_ids :: "session \<Rightarrow> ustring list" where
  "used_pane_ids s = map pn_id (session_panes s)"

lemma pane_host_used: "session_pane_host s k \<noteq> None \<longleftrightarrow> k \<in> set (used_pane_ids s)"
  by (auto simp: session_pane_host_def used_pane_ids_def session_pane_is_find find_None_iff)

function next_pane_id_from :: "session \<Rightarrow> nat \<Rightarrow> ustring" where
  \<comment> \<open>the loop of \<open>next_pane_id\<close>; its counter is an \<open>i32\<close>, which a session does not exhaust\<close>
  "next_pane_id_from s next1 =
     (if session_pane_host s (pane_name next1) = None then pane_name next1 else next_pane_id_from s (Suc next1))"
  by pat_completeness auto
termination
  by (relation "measure (\<lambda>(s, n). names_left pane_name (used_pane_ids s) n)")
    (use pane_host_used in \<open>auto intro!: names_left_decreases injI\<close>)

declare next_pane_id_from.simps [simp del]

definition next_pane_id :: "session \<Rightarrow> ustring" where
  "next_pane_id s = next_pane_id_from s 1"

function next_tab_id_from :: "session \<Rightarrow> nat \<Rightarrow> ustring" where
  "next_tab_id_from s next1 =
     (if \<not> list_ex (\<lambda>t. tb_id t = tab_name next1) (ss_tabs s) then tab_name next1 else next_tab_id_from s (Suc next1))"
  by pat_completeness auto
termination
  by (relation "measure (\<lambda>(s, n). names_left tab_name (map tb_id (ss_tabs s)) n)")
    (simp_all, rule names_left_decreases, auto simp: list_ex_iff inj_def intro: rev_image_eqI)

declare next_tab_id_from.simps [simp del]

definition next_tab_id :: "session \<Rightarrow> ustring" where
  "next_tab_id s = next_tab_id_from s 1"

lemma next_pane_id_from_least:
  "\<exists>m \<ge> n. next_pane_id_from s n = pane_name m \<and> session_pane_host s (pane_name m) = None \<and>
     (\<forall>j. n \<le> j \<and> j < m \<longrightarrow> session_pane_host s (pane_name j) \<noteq> None)"
proof (induction s n rule: next_pane_id_from.induct)
  case (1 s n)
  show ?case
  proof (cases "session_pane_host s (pane_name n) = None")
    case True
    then show ?thesis by (intro exI [of _ n]) (auto simp: next_pane_id_from.simps)
  next
    case False
    from 1 [OF False] obtain m where m: "Suc n \<le> m" "next_pane_id_from s (Suc n) = pane_name m"
      "session_pane_host s (pane_name m) = None" "\<forall>j. Suc n \<le> j \<and> j < m \<longrightarrow> session_pane_host s (pane_name j) \<noteq> None"
      by blast
    have "\<forall>j. n \<le> j \<and> j < m \<longrightarrow> session_pane_host s (pane_name j) \<noteq> None"
      using m(4) False by (metis not_less_eq_eq order_antisym_conv)
    with m False show ?thesis
      by (intro exI [of _ m]) (auto simp: next_pane_id_from.simps [of s n])
  qed
qed

lemma next_tab_id_from_least:
  "\<exists>m \<ge> n. next_tab_id_from s n = tab_name m \<and> find_tab s (tab_name m) = None \<and>
     (\<forall>j. n \<le> j \<and> j < m \<longrightarrow> find_tab s (tab_name j) \<noteq> None)"
proof (induction s n rule: next_tab_id_from.induct)
  case (1 s n)
  have ex: "list_ex (\<lambda>t. tb_id t = k) (ss_tabs s) \<longleftrightarrow> find_tab s k \<noteq> None" for k
    by (auto simp: find_tab_def find_None_iff list_ex_iff)
  show ?case
  proof (cases "find_tab s (tab_name n) = None")
    case True
    then show ?thesis by (intro exI [of _ n]) (auto simp: next_tab_id_from.simps ex)
  next
    case False
    then have "list_ex (\<lambda>t. tb_id t = tab_name n) (ss_tabs s)" by (simp add: ex)
    with 1 obtain m where m: "Suc n \<le> m" "next_tab_id_from s (Suc n) = tab_name m"
      "find_tab s (tab_name m) = None" "\<forall>j. Suc n \<le> j \<and> j < m \<longrightarrow> find_tab s (tab_name j) \<noteq> None"
      by blast
    have "\<forall>j. n \<le> j \<and> j < m \<longrightarrow> find_tab s (tab_name j) \<noteq> None"
      using m(4) False by (metis not_less_eq_eq order_antisym_conv)
    with m False show ?thesis
      by (intro exI [of _ m]) (auto simp: next_tab_id_from.simps [of s n] ex)
  qed
qed

lemma next_pane_id_fresh: "session_pane s (next_pane_id s) = None" "next_pane_id s \<noteq> []"
  using next_pane_id_from_least [of 1 s]
  by (auto simp: next_pane_id_def session_pane_host_def session_pane_data_None pane_name_def)

lemma next_tab_id_fresh: "find_tab s (next_tab_id s) = None" "next_tab_id s \<noteq> []"
  using next_tab_id_from_least [of 1 s] by (auto simp: next_tab_id_def tab_name_def)

definition host_with_pane_environment :: "host_spec \<Rightarrow> ustring \<Rightarrow> ustring \<Rightarrow> host_spec" where
  "host_with_pane_environment host session_id pane_id =
     (let cmd = hs_command host;
          socket = (case map_of (cmd_env cmd) (lit ''NMUX_SOCKET'') of Some v \<Rightarrow> v | None \<Rightarrow> []);
          previous_origin = (case map_of (cmd_env cmd) (lit ''NMUX_ORIGIN'') of Some v \<Rightarrow> v | None \<Rightarrow> hs_id host);
          env = filter (\<lambda>(key, _). key \<notin> {lit ''NMUX'', lit ''NMUX_SESSION_ID'', lit ''NMUX_PANE_ID'',
                                       lit ''NMUX_SOCKET'', lit ''NMUX_ORIGIN''}) (cmd_env cmd) @
            [(lit ''NMUX'', lit ''1''), (lit ''NMUX_SESSION_ID'', session_id), (lit ''NMUX_PANE_ID'', pane_id),
             (lit ''NMUX_SOCKET'', socket), (lit ''NMUX_ORIGIN'', previous_origin)]
      in host\<lparr>hs_command := cmd\<lparr>cmd_env := env\<rparr>\<rparr>)"

definition tab_leaf_pane_ids :: "tab \<Rightarrow> ustring list" where
  "tab_leaf_pane_ids t = collect_leaf_pane_ids (tb_root t) []"

subsection \<open>Commands on a session\<close>

definition session_title :: "session \<Rightarrow> ustring" where
  "session_title s = (case find_tab s (ss_active_tab_id s) of Some t \<Rightarrow> tb_title t | None \<Rightarrow> ss_id s)"

definition session_inventory_for_session :: "session \<Rightarrow> session_inventory" where
  "session_inventory_for_session s =
     \<lparr>sn_active_session_id = ss_id s, sn_sessions = [\<lparr>si_session_id = ss_id s, si_title = session_title s\<rparr>]\<rparr>"

definition pane_split_plan ::
  "session \<Rightarrow> control_command \<Rightarrow> (control_error, ustring \<times> ustring \<times> host_spec) res" where
  \<comment> \<open>both variants of the split up to \<open>start_pane\<close>: the pane to split, the new pane and what it runs\<close>
  "pane_split_plan s c =
     bind_res (case cm_pane_id c of Some k \<Rightarrow> Inr k
               | None \<Rightarrow> ok_or (control_pane_not_found (lit ''active pane'')) (active_pane_id s)) (\<lambda>target.
     if cm_split_axis c \<noteq> AxisHorizontal \<and> cm_split_axis c \<noteq> AxisVertical then
       Inl (control_unknown (lit ''pane split requires horizontal or vertical axis'') (Some target))
     else
       bind_res (ok_or (control_pane_not_found target) (session_pane_host s target)) (\<lambda>template.
         let new_pane_id = next_pane_id s
         in Inr (target, new_pane_id, host_with_pane_environment template (ss_id s) new_pane_id)))"

definition start_failed :: "'h process_host \<Rightarrow> host_error \<Rightarrow> ustring \<Rightarrow> control_error" where
  "start_failed ops e pane_id = control_unknown (host_error_text (ph_kind_debug ops) e) (Some pane_id)"

definition split_failed :: "ustring \<Rightarrow> control_error" where
  "split_failed target = control_unknown (lit ''failed to split pane: '' @ target) (Some target)"

definition apply_pane_split_command ::
  "'h process_host \<Rightarrow> session \<Rightarrow> 'h \<Rightarrow> control_command \<Rightarrow> session \<times> 'h \<times> (control_error, unit) res" where
  "apply_pane_split_command ops s h c =
     (case pane_split_plan s c of
        Inl e \<Rightarrow> (s, h, Inl e)
      | Inr (target, new_pane_id, new_host) \<Rightarrow>
          (case ph_start ops h new_pane_id new_host of
             (h1, Inl e) \<Rightarrow> (s, h1, Inl (start_failed ops e new_pane_id))
           | (h1, Inr _) \<Rightarrow>
               (case split_pane s target (cm_split_axis c) new_pane_id new_host of
                  (s1, ok) \<Rightarrow>
                    if ok then (s1, h1, Inr ())
                    else (s1, fst (ph_stop ops h1 new_pane_id), Inl (split_failed target)))))"

definition tab_new_plan ::
  "session \<Rightarrow> control_command \<Rightarrow> (control_error, ustring \<times> ustring \<times> ustring \<times> host_spec) res" where
  \<comment> \<open>both variants of the new tab up to \<open>start_pane\<close>: tab id, title, pane id and what it runs\<close>
  "tab_new_plan s c =
     bind_res (ok_or (control_pane_not_found (lit ''active pane'')) (active_pane_id s)) (\<lambda>active.
     bind_res (ok_or (control_pane_not_found active) (session_pane_host s active)) (\<lambda>template.
       let tab_id = (case cm_tab_id c of Some k \<Rightarrow> k | None \<Rightarrow> next_tab_id s) in
       if list_ex (\<lambda>t. tb_id t = tab_id) (ss_tabs s) then
         Inl (control_unknown (lit ''tab already exists: '' @ tab_id) None)
       else
         (let pane_id = tab_id @ lit ''-pane-1'';
              title = (case cm_title c of Some t \<Rightarrow> t | None \<Rightarrow> tab_id)
          in Inr (tab_id, title, pane_id, host_with_pane_environment template (ss_id s) pane_id))))"

definition tab_new_failed :: "ustring \<Rightarrow> control_error" where
  "tab_new_failed tab_id = control_unknown (lit ''failed to create tab: '' @ tab_id) None"

definition apply_tab_new_command ::
  "'h process_host \<Rightarrow> session \<Rightarrow> 'h \<Rightarrow> control_command \<Rightarrow> session \<times> 'h \<times> (control_error, unit) res" where
  "apply_tab_new_command ops s h c =
     (case tab_new_plan s c of
        Inl e \<Rightarrow> (s, h, Inl e)
      | Inr (tab_id, title, pane_id, new_host) \<Rightarrow>
          (case ph_start ops h pane_id new_host of
             (h1, Inl e) \<Rightarrow> (s, h1, Inl (start_failed ops e pane_id))
           | (h1, Inr _) \<Rightarrow>
               (case add_tab s tab_id title pane_id new_host of
                  (s1, False) \<Rightarrow> (s1, fst (ph_stop ops h1 pane_id), Inl (tab_new_failed tab_id))
                | (s1, True) \<Rightarrow>
                    (case switch_tab s1 tab_id of
                       (s2, switched) \<Rightarrow>
                         if \<not> switched \<and> ss_active_tab_id s2 \<noteq> tab_id
                         then (s2, fst (ph_stop ops h1 pane_id), Inl (tab_new_failed tab_id))
                         else (s2, h1, Inr ())))))"

fun stop_panes :: "'h process_host \<Rightarrow> 'h \<Rightarrow> ustring list \<Rightarrow> 'h \<times> (control_error, unit) res" where
  \<comment> \<open>the loop at the end of both variants of closing a tab; it ends at the first error\<close>
  "stop_panes ops h [] = (h, Inr ())"
| "stop_panes ops h (k # ks) =
     (case ph_stop ops h k of
        (h1, Inl e) \<Rightarrow> (h1, Inl (control_unknown (host_error_text (ph_kind_debug ops) e) (Some k)))
      | (h1, Inr _) \<Rightarrow> stop_panes ops h1 ks)"

definition stop_panes_if_host :: "'h process_host \<Rightarrow> 'h option \<Rightarrow> ustring list \<Rightarrow> 'h option \<times> (control_error, unit) res" where
  "stop_panes_if_host ops h ks =
     (case h of None \<Rightarrow> (None, Inr ()) | Some h1 \<Rightarrow> (case stop_panes ops h1 ks of (h2, r) \<Rightarrow> (Some h2, r)))"

definition apply_tab_close_command ::
  "'h process_host \<Rightarrow> session \<Rightarrow> 'h option \<Rightarrow> control_command \<Rightarrow> session \<times> 'h option \<times> (control_error, unit) res" where
  "apply_tab_close_command ops s h c =
     (let tab_id = (case cm_tab_id c of Some k \<Rightarrow> k | None \<Rightarrow> ss_active_tab_id s) in
      case find_tab s tab_id of
        None \<Rightarrow> (s, h, Inl (control_unknown (lit ''tab not found: '' @ tab_id) None))
      | Some t \<Rightarrow>
          (case close_tab s tab_id of
             (s1, False) \<Rightarrow> (s1, h, Inl (control_unknown (lit ''failed to close tab: '' @ tab_id) None))
           | (s1, True) \<Rightarrow> (s1, stop_panes_if_host ops h (tab_leaf_pane_ids t))))"

definition required_control_tab_id :: "control_command \<Rightarrow> (control_error, ustring) res" where
  "required_control_tab_id c =
     (case cm_tab_id c of
        Some k \<Rightarrow> if k = [] then Inl (control_unknown (lit ''tab switch requires a tab ID'') None) else Inr k
      | None \<Rightarrow> Inl (control_unknown (lit ''tab switch requires a tab ID'') None))"

definition apply_tab_switch_command :: "session \<Rightarrow> control_command \<Rightarrow> session \<times> (control_error, unit) res" where
  "apply_tab_switch_command s c =
     (case required_control_tab_id c of
        Inl e \<Rightarrow> (s, Inl e)
      | Inr tab_id \<Rightarrow>
          if \<not> list_ex (\<lambda>t. tb_id t = tab_id) (ss_tabs s) then
            (s, Inl (control_unknown (lit ''tab not found: '' @ tab_id) None))
          else (case switch_tab s tab_id of
             (s1, switched) \<Rightarrow>
               if \<not> switched \<and> ss_active_tab_id s1 \<noteq> tab_id
               then (s1, Inl (control_unknown (lit ''failed to switch tab: '' @ tab_id) None))
               else (s1, Inr ())))"

definition apply_session_kill_command :: "session \<Rightarrow> control_command \<Rightarrow> (control_error, unit) res" where
  "apply_session_kill_command s c =
     (case cm_session_id c of
        Some k \<Rightarrow>
          if k \<noteq> ss_id s then
            Inl \<lparr>ce_code = ErrSessionNotFound, ce_message = lit ''session not found: '' @ k, ce_pane_id = None\<rparr>
          else Inr ()
      | None \<Rightarrow> Inr ())"

definition continue_with ::
  "'s \<times> 'h \<times> (control_error, unit) res \<Rightarrow> 's \<times> 'h \<times> (control_error, control_command_outcome) res" where
  "continue_with r = (case r of (s, h, x) \<Rightarrow> (s, h, bind_res x (\<lambda>_. Inr OutcomeContinue)))"

definition with_host :: "'s \<times> 'h \<times> 'r \<Rightarrow> 's \<times> 'h option \<times> 'r" where
  "with_host r = (case r of (s, h, x) \<Rightarrow> (s, Some h, x))"

definition without_host :: "'h option \<Rightarrow> 's \<times> 'r \<Rightarrow> 's \<times> 'h option \<times> 'r" where
  "without_host h r = (case r of (s, x) \<Rightarrow> (s, h, x))"

definition apply_control_command ::
  "'h process_host \<Rightarrow> session \<Rightarrow> 'h option \<Rightarrow> control_command \<Rightarrow>
     session \<times> 'h option \<times> (control_error, control_command_outcome) res" where
  "apply_control_command ops s h c =
     (case cm_kind c of
        CommandPaneSplit \<Rightarrow>
          (case h of
             None \<Rightarrow> (s, h, Inl (control_unknown (lit ''pane split requires a process host'') (cm_pane_id c)))
           | Some h1 \<Rightarrow> continue_with (with_host (apply_pane_split_command ops s h1 c)))
      | CommandTabNew \<Rightarrow>
          (case h of
             None \<Rightarrow> (s, h, Inl (control_unknown (lit ''tab new requires a process host'') None))
           | Some h1 \<Rightarrow> continue_with (with_host (apply_tab_new_command ops s h1 c)))
      | CommandTabClose \<Rightarrow> continue_with (apply_tab_close_command ops s h c)
      | CommandTabSwitch \<Rightarrow> continue_with (without_host h (apply_tab_switch_command s c))
      | CommandSessionNew \<Rightarrow> (s, h, Inl (control_unknown (lit ''session new requires daemon registry routing'') None))
      | CommandSessionKill \<Rightarrow>
          (s, h, bind_res (apply_session_kill_command s c) (\<lambda>_. Inr OutcomeShutdown))
      | k \<Rightarrow> (s, h, Inl (control_unknown
                 (lit ''unknown control command kind '' @ int_str (control_command_kind_code k)) (cm_pane_id c))))"

definition serve_control_command ::
  "'h process_host \<Rightarrow> session \<Rightarrow> 'h option \<Rightarrow> control_command \<Rightarrow>
     session \<times> 'h option \<times> envelope \<times> control_command_outcome" where
  \<comment> \<open>with the frame that is written\<close>
  "serve_control_command ops s h c =
     (if cm_kind c = CommandSessionList then
        (s, h, session_inventory_frame (session_inventory_for_session s) local_client 1, OutcomeContinue)
      else case apply_control_command ops s h c of
          (s1, h1, Inr outcome) \<Rightarrow> (s1, h1, workspace_tree_frame s1 local_client 1, outcome)
        | (s1, h1, Inl e) \<Rightarrow>
            (s1, h1, error_frame_with_context s1 local_client 1 (ce_code e) (ce_message e) False (ce_pane_id e)
                       (cm_command_seq c), OutcomeContinue))"

subsection \<open>Commands on an actor\<close>

definition enqueue_and_drain ::
  "'e terminal_engine \<Rightarrow> 'e session_actor \<Rightarrow> control_command \<Rightarrow> lane \<Rightarrow> session_event \<Rightarrow> trace_record list \<times> 'e session_actor" where
  "enqueue_and_drain eops a c lane event =
     drain_ready eops (actor_enqueue a
       \<lparr>pe_source_id = cm_actor_id c, pe_lane = lane, pe_session_mono_ms = cm_command_seq c, pe_event = event\<rparr>)"

definition enqueue_control_session_event ::
  "'e terminal_engine \<Rightarrow> 'e session_actor \<Rightarrow> control_command \<Rightarrow> session_event \<Rightarrow> 'e session_actor \<times> bool" where
  "enqueue_control_session_event eops a c event =
     (case enqueue_and_drain eops a c LaneControl event of
        (records, a1) \<Rightarrow> (a1, list_ex (\<lambda>r. tr_effects r \<noteq> []) records))"

definition enqueue_lifecycle_session_event ::
  "'e terminal_engine \<Rightarrow> 'e session_actor \<Rightarrow> control_command \<Rightarrow> session_event \<Rightarrow> 'e session_actor" where
  "enqueue_lifecycle_session_event eops a c event = snd (enqueue_and_drain eops a c LaneLifecycle event)"

definition actor_session :: "'e session_actor \<Rightarrow> session" where
  "actor_session a = sc_session (sa_core a)"

definition actor_pane_split_command ::
  "'e terminal_engine \<Rightarrow> 'h process_host \<Rightarrow> 'e session_actor \<Rightarrow> 'h \<Rightarrow> control_command \<Rightarrow>
     'e session_actor \<times> 'h \<times> (control_error, unit) res" where
  "actor_pane_split_command eops ops a h c =
     (case pane_split_plan (actor_session a) c of
        Inl e \<Rightarrow> (a, h, Inl e)
      | Inr (target, new_pane_id, new_host) \<Rightarrow>
          (case ph_start ops h new_pane_id new_host of
             (h1, Inl e) \<Rightarrow> (a, h1, Inl (start_failed ops e new_pane_id))
           | (h1, Inr _) \<Rightarrow>
               (case enqueue_control_session_event eops a c (SplitPane target (cm_split_axis c) new_pane_id new_host) of
                  (a1, ok) \<Rightarrow>
                    if ok then (a1, h1, Inr ())
                    else (a1, fst (ph_stop ops h1 new_pane_id), Inl (split_failed target)))))"

definition actor_tab_new_command ::
  "'e terminal_engine \<Rightarrow> 'h process_host \<Rightarrow> 'e session_actor \<Rightarrow> 'h \<Rightarrow> control_command \<Rightarrow>
     'e session_actor \<times> 'h \<times> (control_error, unit) res" where
  "actor_tab_new_command eops ops a h c =
     (case tab_new_plan (actor_session a) c of
        Inl e \<Rightarrow> (a, h, Inl e)
      | Inr (tab_id, title, pane_id, new_host) \<Rightarrow>
          (case ph_start ops h pane_id new_host of
             (h1, Inl e) \<Rightarrow> (a, h1, Inl (start_failed ops e pane_id))
           | (h1, Inr _) \<Rightarrow>
               (case enqueue_control_session_event eops a c (AddTab tab_id title pane_id new_host) of
                  (a1, added) \<Rightarrow>
                    (case enqueue_control_session_event eops a1 c (SwitchTab tab_id) of
                       (a2, switched) \<Rightarrow>
                         if \<not> added \<or> (\<not> switched \<and> ss_active_tab_id (actor_session a2) \<noteq> tab_id)
                         then (a2, fst (ph_stop ops h1 pane_id), Inl (tab_new_failed tab_id))
                         else (a2, h1, Inr ())))))"

definition actor_tab_close_command ::
  "'e terminal_engine \<Rightarrow> 'h process_host \<Rightarrow> 'e session_actor \<Rightarrow> 'h option \<Rightarrow> control_command \<Rightarrow>
     'e session_actor \<times> 'h option \<times> (control_error, unit) res" where
  "actor_tab_close_command eops ops a h c =
     (let tab_id = (case cm_tab_id c of Some k \<Rightarrow> k | None \<Rightarrow> ss_active_tab_id (actor_session a)) in
      case find_tab (actor_session a) tab_id of
        None \<Rightarrow> (a, h, Inl (control_unknown (lit ''tab not found: '' @ tab_id) None))
      | Some t \<Rightarrow>
          (case enqueue_control_session_event eops a c (CloseTab tab_id) of
             (a1, False) \<Rightarrow> (a1, h, Inl (control_unknown (lit ''failed to close tab: '' @ tab_id) None))
           | (a1, True) \<Rightarrow> (a1, stop_panes_if_host ops h (tab_leaf_pane_ids t))))"

definition actor_tab_switch_command ::
  "'e terminal_engine \<Rightarrow> 'e session_actor \<Rightarrow> control_command \<Rightarrow> 'e session_actor \<times> (control_error, unit) res" where
  "actor_tab_switch_command eops a c =
     (case required_control_tab_id c of
        Inl e \<Rightarrow> (a, Inl e)
      | Inr tab_id \<Rightarrow>
          if \<not> list_ex (\<lambda>t. tb_id t = tab_id) (ss_tabs (actor_session a)) then
            (a, Inl (control_unknown (lit ''tab not found: '' @ tab_id) None))
          else (case enqueue_control_session_event eops a c (SwitchTab tab_id) of
             (a1, switched) \<Rightarrow>
               if \<not> switched \<and> ss_active_tab_id (actor_session a1) \<noteq> tab_id
               then (a1, Inl (control_unknown (lit ''failed to switch tab: '' @ tab_id) None))
               else (a1, Inr ())))"

definition actor_control_command ::
  "'e terminal_engine \<Rightarrow> 'h process_host \<Rightarrow> 'e session_actor \<Rightarrow> 'h option \<Rightarrow> control_command \<Rightarrow>
     'e session_actor \<times> 'h option \<times> (control_error, control_command_outcome) res" where
  \<comment> \<open>\<open>apply_control_command_with_session_actor\<close>\<close>
  "actor_control_command eops ops a h c =
     (case cm_kind c of
        CommandPaneSplit \<Rightarrow>
          (case h of
             None \<Rightarrow> (a, h, Inl (control_unknown (lit ''pane split requires a process host'') (cm_pane_id c)))
           | Some h1 \<Rightarrow> continue_with (with_host (actor_pane_split_command eops ops a h1 c)))
      | CommandTabNew \<Rightarrow>
          (case h of
             None \<Rightarrow> (a, h, Inl (control_unknown (lit ''tab new requires a process host'') None))
           | Some h1 \<Rightarrow> continue_with (with_host (actor_tab_new_command eops ops a h1 c)))
      | CommandTabClose \<Rightarrow> continue_with (actor_tab_close_command eops ops a h c)
      | CommandTabSwitch \<Rightarrow> continue_with (without_host h (actor_tab_switch_command eops a c))
      | CommandSessionNew \<Rightarrow> (a, h, Inl (control_unknown (lit ''session new requires daemon registry routing'') None))
      | CommandSessionKill \<Rightarrow>
          (case apply_session_kill_command (actor_session a) c of
             Inl e \<Rightarrow> (a, h, Inl e)
           | Inr _ \<Rightarrow>
               (enqueue_lifecycle_session_event eops a c (RequestSessionShutdown (cm_session_id c)), h, Inr OutcomeShutdown))
      | k \<Rightarrow> (a, h, Inl (control_unknown
                 (lit ''unknown control command kind '' @ int_str (control_command_kind_code k)) (cm_pane_id c))))"

definition serve_control_command_with_session_actor ::
  "'e terminal_engine \<Rightarrow> 'h process_host \<Rightarrow> 'e session_actor \<Rightarrow> 'h option \<Rightarrow> control_command \<Rightarrow>
     'e session_actor \<times> 'h option \<times> envelope \<times> control_command_outcome" where
  "serve_control_command_with_session_actor eops ops a h c =
     (if cm_kind c = CommandSessionList then
        (a, h, session_inventory_frame (session_inventory_for_session (actor_session a)) local_client 1, OutcomeContinue)
      else case actor_control_command eops ops a h c of
          (a1, h1, Inr outcome) \<Rightarrow> (a1, h1, workspace_tree_frame (actor_session a1) local_client 1, outcome)
        | (a1, h1, Inl e) \<Rightarrow>
            (a1, h1, error_frame_with_context (actor_session a1) local_client 1 (ce_code e) (ce_message e) False
                       (ce_pane_id e) (cm_command_seq c), OutcomeContinue))"

subsection \<open>The two variants agree on an idle actor\<close>

definition rests :: "'e session_actor \<Rightarrow> bool" where
  \<comment> \<open>nothing waits, and the queue keeps no empty entries\<close>
  "rests a \<longleftrightarrow> actor_is_idle a \<and> scheduler_ok (sa_scheduler a)"

lemma rests_iff: "rests a \<longleftrightarrow> sa_scheduler a = []"
  by (cases "sa_scheduler a") (auto simp: rests_def actor_is_idle_def scheduler_is_empty_def scheduler_ok_def)

lemma drain_empty: "sa_scheduler a = [] \<Longrightarrow> drain_ready eops a = ([], a)"
  by (simp add: drain_ready.simps drain_next_def scheduler_pop_next_def scheduler_candidates_def)

lemma drain_one:
  assumes "rests a" and "accept_pending eops (sa_core a) p = (core, t)"
  shows "\<exists>a'. drain_ready eops (actor_enqueue a p) = ([trace_record_from_transition t], a') \<and> rests a' \<and> sa_core a' = core"
proof -
  have q: "sa_scheduler a = []" using assms(1) by (simp add: rests_iff)
  have pop: "scheduler_pop_next (scheduler_push [] p) = Some (p, [])"
    by (simp add: scheduler_push_def scheduler_pop_next_def scheduler_candidates_def bt_get_def bt_del_def)
  define a' where "a' = a\<lparr>sa_core := core, sa_trace := trace_ring_push (sa_trace a) (trace_record_from_transition t)\<rparr>"
  have "drain_next eops (actor_enqueue a p) = Some (trace_record_from_transition t, a')"
    using q assms(2) by (simp add: drain_next_def actor_enqueue_def pop Let_def a'_def)
  then have "drain_ready eops (actor_enqueue a p) = ([trace_record_from_transition t], a')"
    using q by (simp add: drain_ready.simps [of eops "actor_enqueue a p"] drain_empty a'_def)
  then show ?thesis using q by (simp add: rests_iff a'_def)
qed

definition workspace_event :: "session \<Rightarrow> session_event \<Rightarrow> (session \<times> bool) option" where
  \<comment> \<open>what the events of commands do to a session\<close>
  "workspace_event s ev =
     (case ev of AddTab tab_id title pane_id host \<Rightarrow> Some (add_tab s tab_id title pane_id host)
      | SwitchTab tab_id \<Rightarrow> Some (switch_tab s tab_id) | CloseTab tab_id \<Rightarrow> Some (close_tab s tab_id)
      | SplitPane pane_id axis new_pane_id host \<Rightarrow> Some (split_pane s pane_id axis new_pane_id host)
      | RequestSessionShutdown k \<Rightarrow> Some (s, False) | _ \<Rightarrow> None)"

lemma accept_workspace_event:
  assumes "workspace_event (sc_session core) (pe_event p) = Some r"
  shows "\<exists>core' t. accept_pending eops core p = (core', t) \<and> sc_session core' = fst r \<and> (tn_effects t \<noteq> [] \<longleftrightarrow> snd r)"
  using assms
  by (auto simp: workspace_event_def accept_pending_def apply_accepted_def Let_def workspace_step_def
      split: session_event.splits)

lemma enqueue_on_rest:
  assumes "rests a" and "workspace_event (actor_session a) ev = Some r"
  shows "\<exists>a'. enqueue_control_session_event eops a c ev = (a', snd r) \<and> rests a' \<and> actor_session a' = fst r"
    and "\<exists>a'. enqueue_lifecycle_session_event eops a c ev = a' \<and> rests a' \<and> actor_session a' = fst r"
proof -
  have "\<exists>a' t. enqueue_and_drain eops a c lane ev = ([trace_record_from_transition t], a') \<and> rests a' \<and>
      actor_session a' = fst r \<and> (tn_effects t \<noteq> [] \<longleftrightarrow> snd r)" for lane
  proof -
    let ?p = "\<lparr>pe_source_id = cm_actor_id c, pe_lane = lane, pe_session_mono_ms = cm_command_seq c, pe_event = ev\<rparr>"
    obtain core t where "accept_pending eops (sa_core a) ?p = (core, t)" "sc_session core = fst r"
      "tn_effects t \<noteq> [] \<longleftrightarrow> snd r"
      using accept_workspace_event [of "sa_core a" ?p r eops] assms(2) by (auto simp: actor_session_def)
    with drain_one [OF assms(1) this(1)] show ?thesis by (auto simp: enqueue_and_drain_def actor_session_def)
  qed
  note e = this
  show "\<exists>a'. enqueue_control_session_event eops a c ev = (a', snd r) \<and> rests a' \<and> actor_session a' = fst r"
    using e [of LaneControl] by (auto simp: enqueue_control_session_event_def trace_record_from_transition_def)
  show "\<exists>a'. enqueue_lifecycle_session_event eops a c ev = a' \<and> rests a' \<and> actor_session a' = fst r"
    using e [of LaneLifecycle] by (auto simp: enqueue_lifecycle_session_event_def)
qed

definition agrees :: "'e session_actor \<times> 'r \<Rightarrow> session \<times> 'r \<Rightarrow> bool" where
  \<comment> \<open>an actor that rests, with the session and the result\<close>
  "agrees x y \<longleftrightarrow> rests (fst x) \<and> actor_session (fst x) = fst y \<and> snd x = snd y"

lemma agreesI [intro]: "rests a \<Longrightarrow> actor_session a = s \<Longrightarrow> agrees (a, r) (s, r)"
  by (simp add: agrees_def)

lemma enqueue_agrees:
  assumes "rests a" and "workspace_event (actor_session a) ev = Some r"
  obtains a' where "enqueue_control_session_event eops a c ev = (a', snd r)" "rests a'" "actor_session a' = fst r"
  using enqueue_on_rest(1) [OF assms, of eops c] by blast

lemma split_agrees:
  assumes "rests a"
  shows "agrees (actor_pane_split_command eops ops a h c) (apply_pane_split_command ops (actor_session a) h c)"
proof (cases "pane_split_plan (actor_session a) c")
  case (Inr x)
  obtain target new host where x: "x = (target, new, host)" by (cases x)
  obtain a' where "enqueue_control_session_event eops a c (SplitPane target (cm_split_axis c) new host) =
      (a', snd (split_pane (actor_session a) target (cm_split_axis c) new host))" "rests a'"
    "actor_session a' = fst (split_pane (actor_session a) target (cm_split_axis c) new host)"
    by (rule enqueue_agrees [OF assms]) (auto simp: workspace_event_def)
  with Inr assms show ?thesis
    by (auto simp: actor_pane_split_command_def apply_pane_split_command_def x agrees_def split: prod.split sum.split)
qed (use assms in \<open>auto simp: actor_pane_split_command_def apply_pane_split_command_def\<close>)

lemma switch_missing: "find_tab s k = None \<Longrightarrow> switch_tab s k = (s, False)"
  by (simp add: switch_tab_def)

lemma tab_new_agrees:
  assumes "rests a"
  shows "agrees (actor_tab_new_command eops ops a h c) (apply_tab_new_command ops (actor_session a) h c)"
proof (cases "tab_new_plan (actor_session a) c")
  case (Inr x)
  obtain tab title pane host where x: "x = (tab, title, pane, host)" by (cases x)
  let ?add = "add_tab (actor_session a) tab title pane host"
  have "\<not> list_ex (\<lambda>t. tb_id t = tab) (ss_tabs (actor_session a))"
    using Inr by (auto simp: x tab_new_plan_def Let_def bind_res_Inr_iff split: if_splits)
  then have gone: "find_tab (actor_session a) tab = None" by (auto simp: find_tab_def find_None_iff list_ex_iff)
  have kept: "fst ?add = actor_session a" if "\<not> snd ?add"
    using that by (auto simp: add_tab_def Let_def split: if_splits option.splits)
  obtain a1 where a1: "enqueue_control_session_event eops a c (AddTab tab title pane host) = (a1, snd ?add)" "rests a1"
    "actor_session a1 = fst ?add"
    by (rule enqueue_agrees [OF assms]) (auto simp: workspace_event_def)
  obtain a2 where a2: "enqueue_control_session_event eops a1 c (SwitchTab tab) = (a2, snd (switch_tab (fst ?add) tab))"
    "rests a2" "actor_session a2 = fst (switch_tab (fst ?add) tab)"
    by (rule enqueue_agrees [OF a1(2)]) (auto simp: workspace_event_def a1(3))
  show ?thesis
    using Inr assms a1 a2 gone kept
    by (cases "snd ?add")
      (auto simp: actor_tab_new_command_def apply_tab_new_command_def x agrees_def switch_missing
        split: prod.split sum.split bool.split)
qed (use assms in \<open>auto simp: actor_tab_new_command_def apply_tab_new_command_def\<close>)

lemma tab_close_agrees:
  assumes "rests a"
  shows "agrees (actor_tab_close_command eops ops a h c) (apply_tab_close_command ops (actor_session a) h c)"
proof -
  define k where "k = (case cm_tab_id c of Some k \<Rightarrow> k | None \<Rightarrow> ss_active_tab_id (actor_session a))"
  obtain a1 where "enqueue_control_session_event eops a c (CloseTab k) = (a1, snd (close_tab (actor_session a) k))"
    "rests a1" "actor_session a1 = fst (close_tab (actor_session a) k)"
    by (rule enqueue_agrees [OF assms]) (auto simp: workspace_event_def)
  with assms show ?thesis
    unfolding actor_tab_close_command_def apply_tab_close_command_def k_def [symmetric] Let_def
    by (auto simp: agrees_def split: prod.split option.split bool.split)
qed

lemma tab_switch_agrees:
  assumes "rests a"
  shows "agrees (actor_tab_switch_command eops a c) (apply_tab_switch_command (actor_session a) c)"
proof (cases "required_control_tab_id c")
  case (Inr k)
  obtain a1 where "enqueue_control_session_event eops a c (SwitchTab k) = (a1, snd (switch_tab (actor_session a) k))"
    "rests a1" "actor_session a1 = fst (switch_tab (actor_session a) k)"
    by (rule enqueue_agrees [OF assms]) (auto simp: workspace_event_def)
  with assms Inr show ?thesis
    by (auto simp: actor_tab_switch_command_def apply_tab_switch_command_def agrees_def split: prod.split)
qed (use assms in \<open>auto simp: actor_tab_switch_command_def apply_tab_switch_command_def\<close>)

lemma agrees_wrap:
  "agrees x y \<Longrightarrow> agrees (continue_with x) (continue_with y)"
  "agrees x y \<Longrightarrow> agrees (with_host x) (with_host y)"
  "agrees u v \<Longrightarrow> agrees (without_host h u) (without_host h v)"
  by (auto simp: agrees_def continue_with_def with_host_def without_host_def split: prod.split)

lemma commands_agree:
  assumes "rests a"
  shows "agrees (actor_control_command eops ops a h c) (apply_control_command ops (actor_session a) h c)"
proof -
  have kill: "rests (enqueue_lifecycle_session_event eops a c (RequestSessionShutdown k))"
    "actor_session (enqueue_lifecycle_session_event eops a c (RequestSessionShutdown k)) = actor_session a" for k
    using enqueue_on_rest(2) [OF assms, of "RequestSessionShutdown k" "(actor_session a, False)" eops c]
    by (auto simp: workspace_event_def)
  show ?thesis
    using assms kill
    by (auto simp: actor_control_command_def apply_control_command_def split_agrees tab_new_agrees tab_close_agrees
        tab_switch_agrees bind_res_def intro!: agrees_wrap split: control_command_kind.split option.split sum.split)
qed

lemma served_commands_agree:
  assumes "rests a"
  shows "agrees (serve_control_command_with_session_actor eops ops a h c)
    (serve_control_command ops (actor_session a) h c)"
  using commands_agree [OF assms, of eops ops h c] assms
  by (auto simp: serve_control_command_with_session_actor_def serve_control_command_def agrees_def
      split: prod.split sum.split)

subsection \<open>Every leaf pane has its process\<close>

lemma tab_leaf_pane_ids_eq: "tab_leaf_pane_ids t = map pn_id (leaf_list (tb_root t))"
  by (simp add: tab_leaf_pane_ids_def collect_leaf_pane_ids_eq)

lemma leaf_ids_of_tabs: "leaf_pane_ids s = concat (map tab_leaf_pane_ids (ss_tabs s))"
  by (simp add: leaf_pane_ids_eq session_leaves_def map_concat comp_def tab_leaf_pane_ids_eq [abs_def])

lemma add_tab_leaves:
  assumes "snd (add_tab s tab_id title pane_id host)"
  shows "leaf_pane_ids (fst (add_tab s tab_id title pane_id host)) = leaf_pane_ids s @ [pane_id]"
  using assms
  by (auto simp: add_tab_def Let_def leaf_ids_of_tabs tab_leaf_pane_ids_eq new_pane_from_template_def
      split: if_splits option.splits)

lemma switch_tab_leaves: "leaf_pane_ids (fst (switch_tab s k)) = leaf_pane_ids s"
  by (auto simp: switch_tab_def leaf_ids_of_tabs split: option.split)

lemma close_tab_leaves:
  assumes "workspace_ok s" and "find_tab s k = Some t" and "snd (close_tab s k)"
  shows "set (leaf_pane_ids (fst (close_tab s k))) = set (leaf_pane_ids s) - set (tab_leaf_pane_ids t)"
    and "set (tab_leaf_pane_ids t) \<subseteq> set (leaf_pane_ids s)" and "distinct (tab_leaf_pane_ids t)"
proof -
  from assms(3) obtain i where pos: "position (\<lambda>t. tb_id t = k) (ss_tabs s) = Some i"
    and tabs: "ss_tabs (fst (close_tab s k)) = remove_at i (ss_tabs s)"
    by (auto simp: close_tab_def Let_def split: if_splits option.splits)
  have i: "i < length (ss_tabs s)" using position_SomeD [OF pos] by simp
  have t: "ss_tabs s ! i = t" using assms(2) pos by (simp add: find_tab_def find_position)
  obtain us vs where parts: "ss_tabs s = us @ t # vs" "remove_at i (ss_tabs s) = us @ vs"
    using remove_at_parts [OF i] t by blast
  have all: "leaf_pane_ids s = concat (map tab_leaf_pane_ids us) @ tab_leaf_pane_ids t @ concat (map tab_leaf_pane_ids vs)"
    by (simp add: leaf_ids_of_tabs parts)
  have d: "distinct (leaf_pane_ids s)" using assms(1) by (simp add: workspace_ok_def)
  have rest: "leaf_pane_ids (fst (close_tab s k)) = concat (map tab_leaf_pane_ids us) @ concat (map tab_leaf_pane_ids vs)"
    unfolding leaf_ids_of_tabs tabs parts(2) by simp
  show "set (leaf_pane_ids (fst (close_tab s k))) = set (leaf_pane_ids s) - set (tab_leaf_pane_ids t)"
    using d unfolding all rest distinct_append set_append by blast
  show "set (tab_leaf_pane_ids t) \<subseteq> set (leaf_pane_ids s)" "distinct (tab_leaf_pane_ids t)"
    using d by (auto simp: all)
qed

lemma refused_keeps:
  "\<not> snd (split_pane s k axis n host) \<Longrightarrow> fst (split_pane s k axis n host) = s"
  "\<not> snd (add_tab s k title n host) \<Longrightarrow> fst (add_tab s k title n host) = s"
  "\<not> snd (close_tab s k) \<Longrightarrow> fst (close_tab s k) = s"
  by (auto simp: split_pane_def add_tab_def close_tab_def Let_def split: if_splits option.splits)

lemma add_then_switch:
  assumes "snd (add_tab s k title n host)"
  shows "ss_active_tab_id (fst (switch_tab (fst (add_tab s k title n host)) k)) = k"
proof -
  from assms obtain new rest where new: "fst (add_tab s k title n host) = bump (s\<lparr>ss_tabs := ss_tabs s @ [new]\<rparr>)"
    "tb_id new = k" "tb_active_pane_id new = n" "tb_root new = Pane rest []" "pn_id rest = n"
    and fresh: "\<not> list_ex (\<lambda>t. tb_id t = k) (ss_tabs s)"
    by (auto simp: add_tab_def Let_def new_pane_from_template_def split: if_splits option.splits)
  have "find (\<lambda>t. tb_id t = k) (ss_tabs s @ [new]) = Some new"
    using fresh new(2) by (auto simp: find_Some_iff list_ex_iff nth_append intro!: exI [of _ "length (ss_tabs s)"])
  then show ?thesis using new by (simp add: switch_tab_def find_tab_def)
qed

definition in_step :: "('h \<Rightarrow> ustring set) \<Rightarrow> session \<Rightarrow> 'h \<Rightarrow> bool" where
  "in_step running s h \<longleftrightarrow> running h = set (leaf_pane_ids s)"

context pane_supervisor
begin

lemma stop_panes_all:
  "set ks \<subseteq> running h \<Longrightarrow> distinct ks \<Longrightarrow>
     \<exists>h'. stop_panes ops h ks = (h', Inr ()) \<and> running h' = running h - set ks"
proof (induction ks arbitrary: h)
  case (Cons k ks)
  obtain h1 p where h1: "ph_stop ops h k = (h1, Inr p)" using stop_runs [of k h] Cons.prems(1) by auto
  have r: "running h1 = running h - {k}" using stop_ok [OF h1] by simp
  obtain h2 where "stop_panes ops h1 ks = (h2, Inr ())" "running h2 = running h1 - set ks"
    using Cons.IH [of h1] Cons.prems r by auto
  with h1 r show ?case by auto
qed simp

lemma split_keeps_step:
  assumes "workspace_ok s" and "in_step running s h" and "apply_pane_split_command ops s h c = (s', h', r)"
  shows "in_step running s' h'"
proof (cases "pane_split_plan s c")
  case (Inr x)
  obtain target new host where x: "x = (target, new, host)" by (cases x)
  show ?thesis
  proof (cases "ph_start ops h new host")
    case (Pair h1 y)
    show ?thesis
    proof (cases y)
      case (Inl e)
      with assms Inr Pair start_fails [of h new host h1 e] show ?thesis
        by (auto simp: apply_pane_split_command_def x in_step_def)
    next
      case (Inr p)
      have run: "new \<notin> running h" "running h1 = insert new (running h)" using start_ok [of h new host h1 p] Pair Inr by auto
      let ?split = "split_pane s target (cm_split_axis c) new host"
      show ?thesis
      proof (cases "snd ?split")
        case True
        then have "set (leaf_pane_ids (fst ?split)) = insert new (set (leaf_pane_ids s))"
          using split_pane_leaves [OF assms(1) True] by auto
        with True assms \<open>pane_split_plan s c = Inr x\<close> Pair Inr run show ?thesis
          by (auto simp: apply_pane_split_command_def x in_step_def case_prod_beta)
      next
        case False
        with assms \<open>pane_split_plan s c = Inr x\<close> Pair Inr run refused_keeps(1) [OF False] stop_removes [of new h1]
        show ?thesis by (auto simp: apply_pane_split_command_def x in_step_def case_prod_beta)
      qed
    qed
  qed
qed (use assms in \<open>simp add: apply_pane_split_command_def\<close>)

lemma tab_new_keeps_step:
  assumes "in_step running s h" and "apply_tab_new_command ops s h c = (s', h', r)"
  shows "in_step running s' h'"
proof (cases "tab_new_plan s c")
  case (Inr x)
  obtain tab title new host where x: "x = (tab, title, new, host)" by (cases x)
  show ?thesis
  proof (cases "ph_start ops h new host")
    case (Pair h1 y)
    show ?thesis
    proof (cases y)
      case (Inl e)
      with assms Inr Pair start_fails [of h new host h1 e] show ?thesis
        by (auto simp: apply_tab_new_command_def x in_step_def)
    next
      case (Inr p)
      have run: "new \<notin> running h" "running h1 = insert new (running h)" using start_ok [of h new host h1 p] Pair Inr by auto
      let ?add = "add_tab s tab title new host"
      show ?thesis
      proof (cases "snd ?add")
        case True
        have "s' = fst (switch_tab (fst ?add) tab) \<and> h' = h1"
          using assms(2) \<open>tab_new_plan s c = Inr x\<close> Pair Inr True add_then_switch [OF True]
          by (cases ?add; cases "switch_tab (fst ?add) tab") (auto simp: apply_tab_new_command_def x)
        with assms(1) run switch_tab_leaves [of "fst ?add" tab] add_tab_leaves [OF True] show ?thesis
          by (simp add: in_step_def)
      next
        case False
        with assms \<open>tab_new_plan s c = Inr x\<close> Pair Inr run refused_keeps(2) [OF False] stop_removes [of new h1]
        show ?thesis by (auto simp: apply_tab_new_command_def x in_step_def split: prod.splits)
      qed
    qed
  qed
qed (use assms in \<open>simp add: apply_tab_new_command_def\<close>)

lemma tab_close_keeps_step:
  assumes "workspace_ok s" and "in_step running s h" and "apply_tab_close_command ops s (Some h) c = (s', h', r)"
  shows "\<exists>h1. h' = Some h1 \<and> in_step running s' h1"
proof -
  define k where "k = (case cm_tab_id c of Some k \<Rightarrow> k | None \<Rightarrow> ss_active_tab_id s)"
  have eq: "apply_tab_close_command ops s (Some h) c =
     (case find_tab s k of
        None \<Rightarrow> (s, Some h, Inl (control_unknown (lit ''tab not found: '' @ k) None))
      | Some t \<Rightarrow>
          (case close_tab s k of
             (s1, False) \<Rightarrow> (s1, Some h, Inl (control_unknown (lit ''failed to close tab: '' @ k) None))
           | (s1, True) \<Rightarrow> (s1, stop_panes_if_host ops (Some h) (tab_leaf_pane_ids t))))"
    unfolding apply_tab_close_command_def k_def Let_def by (rule refl)
  show ?thesis
  proof (cases "find_tab s k")
    case (Some t)
    show ?thesis
    proof (cases "snd (close_tab s k)")
      case True
      note l = close_tab_leaves [OF assms(1) Some True]
      obtain h1 where "stop_panes ops h (tab_leaf_pane_ids t) = (h1, Inr ())"
        "running h1 = running h - set (tab_leaf_pane_ids t)"
        using stop_panes_all [of "tab_leaf_pane_ids t" h] l assms(2) by (auto simp: in_step_def)
      with assms(2,3) Some True l show ?thesis
        by (cases "close_tab s k") (auto simp: eq stop_panes_if_host_def in_step_def)
    next
      case False
      with assms(2,3) Some refused_keeps(3) [OF False] show ?thesis
        by (cases "close_tab s k") (auto simp: eq)
    qed
  qed (use assms(2,3) in \<open>auto simp: eq\<close>)
qed

lemma command_keeps_step:
  assumes "workspace_ok s" and "in_step running s h" and "apply_control_command ops s (Some h) c = (s', h', r)"
  shows "\<exists>h1. h' = Some h1 \<and> in_step running s' h1"
proof -
  have split: "in_step running (fst (apply_pane_split_command ops s h c)) (fst (snd (apply_pane_split_command ops s h c)))"
    using split_keeps_step [OF assms(1,2), of c] by (metis prod.collapse)
  have new: "in_step running (fst (apply_tab_new_command ops s h c)) (fst (snd (apply_tab_new_command ops s h c)))"
    using tab_new_keeps_step [OF assms(2), of c] by (metis prod.collapse)
  obtain h1 where close: "fst (snd (apply_tab_close_command ops s (Some h) c)) = Some h1"
      "in_step running (fst (apply_tab_close_command ops s (Some h) c)) h1"
    using tab_close_keeps_step [OF assms(1,2), of c] by (metis prod.collapse)
  have switch: "in_step running (fst (apply_tab_switch_command s c)) h"
    using assms(2)
    by (auto simp: apply_tab_switch_command_def in_step_def switch_tab_leaves case_prod_beta split: sum.split)
  show ?thesis
    using assms(2,3) split new close(2) switch
    by (auto simp: close(1) apply_control_command_def continue_with_def with_host_def without_host_def case_prod_beta
        split: control_command_kind.splits)
qed

end

subsection \<open>A session stays readable for clients\<close>

lemma split_at_named:
  assumes "split_at d k axis n host box e w" and "pane_named d" and "n \<noteq> []" and "axis = AxisHorizontal \<or> axis = AxisVertical"
  shows "pane_named box" and "pane_named e" and "pane_named w"
  using assms
  by (auto simp: split_at_def pane_named_def split_container_def split_container_id_def split_existing_def
      new_pane_from_template_def Let_def)

lemma split_pane_named:
  assumes "workspace_named s" shows "workspace_named (fst (split_pane s k axis n host))"
proof (cases "snd (split_pane s k axis n host)")
  case False
  with assms refused_keeps(1) [OF False] show ?thesis by simp
next
  case True
  then obtain i root where pos: "position (\<lambda>t. tb_id t = ss_active_tab_id s) (ss_tabs s) = Some i"
    and root: "split_pane_node (tb_root (ss_tabs s ! i)) k axis n host = Some root"
    and n: "n \<noteq> []" "axis = AxisHorizontal \<or> axis = AxisVertical"
    and fst: "fst (split_pane s k axis n host) =
      bump (s\<lparr>ss_tabs := (ss_tabs s)[i := (ss_tabs s ! i)\<lparr>tb_root := root, tb_active_pane_id := n\<rparr>]\<rparr>)"
    by (auto simp: split_pane_def Let_def split: if_splits option.splits)
  have i: "ss_tabs s ! i \<in> set (ss_tabs s)" using position_SomeD [OF pos] by simp
  from split_pane_node_lists [OF root] obtain d box e w xs ys where
    at: "split_at d k axis n host box e w" and
    l: "pane_list (tb_root (ss_tabs s ! i)) = xs @ d # ys" "pane_list root = xs @ box # e # w # ys" by blast
  have old: "\<forall>p \<in> set (xs @ d # ys). pane_named p" "tb_id (ss_tabs s ! i) \<noteq> []" "tb_title (ss_tabs s ! i) \<noteq> []"
    using assms i by (auto simp: workspace_named_def l(1) [symmetric])
  with split_at_named [OF at _ n] have "\<forall>p \<in> set (pane_list root). pane_named p" by (simp add: l)
  with assms old show ?thesis
    by (auto simp: fst workspace_named_def dest!: set_update_subset_insert [THEN subsetD])
qed

lemma add_tab_named:
  assumes "workspace_named s" and "title \<noteq> []" shows "workspace_named (fst (add_tab s k title n host))"
  using assms
  by (auto simp: add_tab_def workspace_named_def Let_def pane_named_def new_pane_from_template_def split: option.split)

lemma switch_close_named:
  assumes "workspace_named s"
  shows "workspace_named (fst (switch_tab s k))" and "workspace_named (fst (close_tab s k))"
  using assms set_remove_at
  by (fastforce simp: switch_tab_def close_tab_def workspace_named_def Let_def split: option.split)+

definition commanded :: "session \<Rightarrow> session \<Rightarrow> bool" where
  \<comment> \<open>the second session has the id of the first and satisfies what the first does\<close>
  "commanded s s' \<longleftrightarrow> ss_id s' = ss_id s \<and> (workspace_ok s \<longrightarrow> workspace_ok s') \<and> (workspace_named s \<longrightarrow> workspace_named s')"

lemma operations_keep_id [simp]:
  "ss_id (fst (split_pane s k axis n host)) = ss_id s" "ss_id (fst (add_tab s k title n host)) = ss_id s"
  "ss_id (fst (switch_tab s k)) = ss_id s" "ss_id (fst (close_tab s k)) = ss_id s"
  by (auto simp: split_pane_def add_tab_def switch_tab_def close_tab_def Let_def split: option.split if_splits)

lemma session_named_iff:
  "workspace_named s \<longleftrightarrow> ss_id s \<noteq> [] \<and> (\<forall>x \<in> set (map (\<lambda>t. (tb_id t, tb_title t)) (ss_tabs s)). fst x \<noteq> [] \<and> snd x \<noteq> []) \<and>
     (\<forall>d \<in> set (session_panes s). pane_named d)"
  by (auto simp: workspace_named_def session_panes_def)

lemma pane_mut_titles:
  assumes "session_pane_mut g s k = Some s'"
  shows "map (\<lambda>t. (tb_id t, tb_title t)) (ss_tabs s') = map (\<lambda>t. (tb_id t, tb_title t)) (ss_tabs s)"
proof -
  from assms obtain ts where ts: "update_first (\<lambda>t. tab_pane_mut g t k) (ss_tabs s) = Some ts"
    and s': "s' = s\<lparr>ss_tabs := ts\<rparr>" by (auto simp: session_pane_mut_def)
  from ts obtain us t t' vs where "ss_tabs s = us @ t # vs" "ts = us @ t' # vs" "tab_pane_mut g t k = Some t'"
    by (rule update_first_SomeE)
  then show ?thesis by (auto simp: s' tab_pane_mut_def split: option.splits)
qed

lemma pane_mut_or_named:
  assumes "workspace_named s" and "harmless g" and "\<And>d. pane_named d \<Longrightarrow> pane_named (g d)"
  shows "workspace_named (pane_mut_or g s k)"
proof (cases "session_pane_mut g s k")
  case (Some s')
  have "\<forall>d \<in> set (session_panes s'). pane_named d"
    using assms(1,3) by (intro ws.invariant_upd [OF _ _ Some]) (auto simp: session_named_iff)
  with assms(1) pane_mut_titles [OF Some] session_pane_mut_ok(1) [OF Some assms(2)] Some show ?thesis
    by (simp add: session_named_iff pane_mut_or_def)
qed (use assms(1) in \<open>simp add: pane_mut_or_def\<close>)

lemma update_keeps_name: "pane_named d \<Longrightarrow> pane_named (fst (apply_terminal_update d u b))"
  by (simp add: pane_named_def frame_simps)

lemma output_named:
  "workspace_named s \<Longrightarrow> workspace_named (fst (apply_pane_output_with_engine eops s k out e))"
  by (auto simp: apply_pane_output_with_engine_def harmless_update update_keeps_name intro!: pane_mut_or_named
      split: option.split prod.split)

lemma commanded_steps:
  "commanded s s" "commanded s s1 \<Longrightarrow> commanded s1 s2 \<Longrightarrow> commanded s s2"
  "commanded s (fst (split_pane s k axis n host))" "title \<noteq> [] \<Longrightarrow> commanded s (fst (add_tab s k title n host))"
  "commanded s (fst (switch_tab s k))" "commanded s (fst (close_tab s k))"
  by (auto simp: commanded_def split_pane_ok split_pane_named add_tab_ok add_tab_named switch_tab_ok close_tab_ok
      switch_close_named)

lemma output_commanded: "commanded s (fst (apply_pane_output_with_engine eops s k out e))"
proof -
  have "ss_id (fst (apply_pane_output_with_engine eops s k out e)) = ss_id s"
    by (auto simp: apply_pane_output_with_engine_def harmless_update frame_simps split: option.split prod.split)
  then show ?thesis by (simp add: commanded_def apply_pane_output_ok output_named)
qed

lemma tab_new_plan_title:
  assumes "tab_new_plan s c = Inr (k, title, n, host)" and "cm_title c \<noteq> Some []" and "cm_tab_id c \<noteq> Some []"
  shows "title \<noteq> []"
  using assms next_tab_id_fresh [of s]
  by (auto simp: tab_new_plan_def Let_def bind_res_Inr_iff split: if_splits option.splits)

lemma command_keeps_session:
  assumes "cm_title c \<noteq> Some []" and "cm_tab_id c \<noteq> Some []"
  shows "commanded s (fst (apply_control_command ops s h c))"
proof -
  have split: "commanded s (fst (apply_pane_split_command ops s h1 c))" for h1
    by (auto simp: apply_pane_split_command_def commanded_steps case_prod_beta split: sum.split)
  have new: "commanded s (fst (apply_tab_new_command ops s h1 c))" for h1
  proof (cases "tab_new_plan s c")
    case (Inr x)
    obtain k title n host where x: "x = (k, title, n, host)" by (cases x)
    have "title \<noteq> []" using tab_new_plan_title Inr assms x by blast
    then have "commanded s (fst (add_tab s k title n host))"
      "commanded s (fst (switch_tab (fst (add_tab s k title n host)) k))"
      using commanded_steps(2,4,5) by blast+
    with Inr show ?thesis
      by (auto simp: apply_tab_new_command_def x commanded_steps(1) split: prod.splits sum.split bool.split)
  qed (simp add: apply_tab_new_command_def commanded_steps)
  have close: "commanded s (fst (apply_tab_close_command ops s h c))"
  proof -
    have "commanded s s1" if "close_tab s k = (s1, b)" for k s1 b
      using commanded_steps(6) [of s k] that by simp
    then show ?thesis
      by (auto simp: apply_tab_close_command_def Let_def commanded_steps(1) split: option.split prod.split bool.split)
  qed
  have switch: "commanded s (fst (apply_tab_switch_command s c))"
    by (auto simp: apply_tab_switch_command_def commanded_steps case_prod_beta split: sum.split)
  show ?thesis
    using split new close switch
    by (auto simp: apply_control_command_def continue_with_def with_host_def without_host_def case_prod_beta
        commanded_steps(1) split: control_command_kind.split option.split)
qed

lemma serve_command_session:
  "fst (serve_control_command ops s h c) = (if cm_kind c = CommandSessionList then s else fst (apply_control_command ops s h c))"
  "fst (snd (serve_control_command ops s h c)) =
     (if cm_kind c = CommandSessionList then h else fst (snd (apply_control_command ops s h c)))"
  by (auto simp: serve_control_command_def split: prod.split sum.split)

fun serve_commands ::
  "'h process_host \<Rightarrow> session \<Rightarrow> 'h option \<Rightarrow> control_command list \<Rightarrow> session \<times> 'h option" where
  \<comment> \<open>one connection after the other brings a command\<close>
  "serve_commands ops s h [] = (s, h)"
| "serve_commands ops s h (c # cs) =
     (case serve_control_command ops s h c of (s1, h1, _, _) \<Rightarrow> serve_commands ops s1 h1 cs)"

context pane_supervisor
begin

lemma commands_keep_step:
  "workspace_ok s \<Longrightarrow> workspace_named s \<Longrightarrow> in_step running s h \<Longrightarrow> list_all control_command_ok cs \<Longrightarrow>
     \<exists>s' h'. serve_commands ops s (Some h) cs = (s', Some h') \<and> workspace_ok s' \<and> workspace_named s' \<and> in_step running s' h'"
proof (induction cs arbitrary: s h)
  case (Cons c cs)
  obtain s1 h1 e o1 where serve: "serve_control_command ops s (Some h) c = (s1, h1, e, o1)" by (metis prod_cases4)
  have "commanded s s1"
    using command_keeps_session [of c s ops "Some h"] serve_command_session(1) [of ops s "Some h" c] Cons.prems(4) serve
    by (auto simp: control_command_ok_def commanded_steps(1) split: if_splits)
  then have ok: "workspace_ok s1" "workspace_named s1" using Cons.prems by (auto simp: commanded_def)
  have "\<exists>h2. h1 = Some h2 \<and> in_step running s1 h2"
  proof (cases "cm_kind c = CommandSessionList")
    case True
    with serve Cons.prems(3) show ?thesis by (auto simp: serve_control_command_def)
  next
    case False
    obtain s2 h2 r where a: "apply_control_command ops s (Some h) c = (s2, h2, r)" by (metis prod_cases3)
    from command_keeps_step [OF Cons.prems(1,3) a] show ?thesis
      using serve_command_session [of ops s "Some h" c] serve False a by auto
  qed
  then obtain h2 where "h1 = Some h2" "in_step running s1 h2" by blast
  with Cons.IH [OF ok, of h2] Cons.prems serve show ?case by simp
qed auto

end

subsection \<open>The client reads the answer\<close>

definition control_error_ok :: "control_error \<Rightarrow> bool" where
  "control_error_ok e \<longleftrightarrow> error_code_known (ce_code e) \<and> ce_message e \<noteq> [] \<and> ce_pane_id e \<noteq> Some []"

lemma host_error_text_nonempty: "host_error_text d e \<noteq> []"
  by (cases e) (simp_all add: host_error_text_def lit_def)

lemma control_errors_ok [simp]:
  "control_error_ok (control_unknown m k) \<longleftrightarrow> m \<noteq> [] \<and> k \<noteq> Some []"
  "control_error_ok (control_pane_not_found j) \<longleftrightarrow> j \<noteq> []"
  "control_error_ok (start_failed ops e j) \<longleftrightarrow> j \<noteq> []"
  "control_error_ok (split_failed j) \<longleftrightarrow> j \<noteq> []"
  "control_error_ok (tab_new_failed j)"
  by (auto simp: control_error_ok_def control_unknown_def control_pane_not_found_def start_failed_def split_failed_def
      tab_new_failed_def host_error_text_nonempty lit_def)

lemma active_pane_named:
  assumes "workspace_named s" and "active_pane_id s = Some k" shows "k \<noteq> []"
proof -
  obtain t where t: "find_tab s (ss_active_tab_id s) = Some t" "pane_node (tb_root t) k \<noteq> None"
    using assms(2) by (auto simp: active_pane_id_def split: if_splits bind_splits)
  then have mem: "t \<in> set (ss_tabs s)" by (auto simp: find_tab_def find_Some_iff)
  from t(2) have "k \<in> pn_id ` set (pane_list (tb_root t))" by (auto simp: pane_node_None_ids)
  with mem assms(1) show ?thesis by (auto simp: workspace_named_def pane_named_def)
qed

lemma tab_leaves_named:
  assumes "workspace_named s" and "find_tab s k = Some t" shows "[] \<notin> set (tab_leaf_pane_ids t)"
proof -
  have "t \<in> set (ss_tabs s)" using assms(2) by (auto simp: find_tab_def find_Some_iff)
  then show ?thesis
    using assms(1) leaf_list_subset [of "tb_root t"]
    by (fastforce simp: workspace_named_def pane_named_def tab_leaf_pane_ids_eq)
qed

lemma stop_panes_error: "[] \<notin> set ks \<Longrightarrow> stop_panes ops h ks = (h', Inl e) \<Longrightarrow> control_error_ok e"
  by (induction ks arbitrary: h) (auto simp: host_error_text_nonempty split: prod.splits sum.splits)

lemma command_error_ok:
  assumes "workspace_named s" and "control_command_ok c" and "apply_control_command ops s h c = (s1, h1, Inl e)"
  shows "control_error_ok e"
proof -
  have c: "cm_pane_id c \<noteq> Some []" "cm_tab_id c \<noteq> Some []" using assms(2) by (auto simp: control_command_ok_def)
  have split: "control_error_ok e" if "apply_pane_split_command ops s h1 c = (s1, h2, Inl e)" for h1 s1 h2 e
    using that active_pane_named [OF assms(1)] c next_pane_id_fresh(2) [of s]
    by (auto simp: apply_pane_split_command_def pane_split_plan_def Let_def bind_res_def ok_or_def lit_def
        split: sum.splits option.splits if_splits prod.splits)
  have new: "control_error_ok e" if "apply_tab_new_command ops s h1 c = (s1, h2, Inl e)" for h1 s1 h2 e
    using that active_pane_named [OF assms(1)]
    by (auto simp: apply_tab_new_command_def tab_new_plan_def Let_def bind_res_def ok_or_def lit_def
        split: sum.splits option.splits if_splits prod.splits bool.splits)
  have close: "control_error_ok e" if "apply_tab_close_command ops s h1 c = (s1, h2, Inl e)" for h1 s1 h2 e
    using that
    by (auto dest!: stop_panes_error [OF tab_leaves_named [OF assms(1)]] simp: apply_tab_close_command_def Let_def stop_panes_if_host_def lit_def
        split: option.splits prod.splits bool.splits)
  have switch: "control_error_ok e" if "apply_tab_switch_command s c = (s1, Inl e)" for s1 e
    using that
    by (auto simp: apply_tab_switch_command_def required_control_tab_id_def lit_def
        split: option.splits prod.splits if_splits)
  have kill: "control_error_ok e" if "apply_session_kill_command s c = Inl e" for e
    using that by (auto simp: apply_session_kill_command_def control_error_ok_def lit_def split: option.splits if_splits)
  show ?thesis
    using assms(3) c kill
    by (auto simp: apply_control_command_def continue_with_def with_host_def without_host_def bind_res_def lit_def
        split: control_command_kind.splits option.splits prod.splits sum.splits dest: split new close switch)
qed

lemma control_reply_read:
  assumes "workspace_ok s" and "workspace_named s" and "control_command_ok c" and "cm_kind c \<noteq> CommandSessionList"
    and "apply_control_command ops s h c = (s1, h1, r)" and "serve_control_command ops s h c = (s1, h1, frame, outcome)"
  shows "case r of
      Inr x \<Rightarrow> outcome = x \<and> (\<exists>w. workspace_summary_from_frame frame = Inr w \<and> wk_tabs w = map tab_summary (ss_tabs s1) \<and>
        wk_tab_id w = ss_active_tab_id s1 \<and> read_control_command_response (FrameRead frame # rest) = Inr (w, rest))
    | Inl e \<Rightarrow> outcome = OutcomeContinue \<and> read_control_command_response (FrameRead frame # rest) =
        Inl (ServerSaid \<lparr>er_code = ce_code e, er_message = ce_message e, er_retryable = False,
                         er_pane_id = ce_pane_id e, er_input_seq = cm_command_seq c\<rparr>)"
proof (cases r)
  case (Inr x)
  have "commanded s s1" using command_keeps_session [of c s ops h] assms(3,5) by (auto simp: control_command_ok_def)
  then have ok: "workspace_ok s1" "workspace_named s1" using assms(1,2) by (auto simp: commanded_def)
  have frame: "frame = workspace_tree_frame s1 local_client 1" "outcome = x"
    using assms(4-6) Inr by (auto simp: serve_control_command_def)
  obtain t q where t: "find_tab s1 (ss_active_tab_id s1) = Some t" and
    w: "workspace_summary_from_frame (workspace_tree_frame s1 local_client 1) =
      Inr \<lparr>wk_session_id = ss_id s1, wk_tab_id = tb_id t, wk_pane_id = tb_active_pane_id t,
           wk_cols = pn_cols (pane_fields q), wk_rows = pn_rows (pane_fields q),
           wk_policy = pn_resize_policy (pane_fields q), wk_pane_tree = Some (pane_summary (tb_root t)),
           wk_tabs = map tab_summary (ss_tabs s1)\<rparr>"
    using workspace_frame_decodes [OF ok] by blast
  have "tb_id t = ss_active_tab_id s1" using t by (auto simp: find_tab_def find_Some_iff)
  moreover have "\<exists>b. en_body frame = BodyWorkspace b" by (simp add: frame workspace_tree_frame_def session_envelope_def)
  ultimately show ?thesis using Inr w by (auto simp: frame)
next
  case (Inl e)
  have e: "control_error_ok e" using command_error_ok [OF assms(2,3)] assms(5) Inl by blast
  have frame: "frame = error_frame_with_context s1 local_client 1 (ce_code e) (ce_message e) False (ce_pane_id e) (cm_command_seq c)"
    "outcome = OutcomeContinue"
    using assms(4-6) Inl by (auto simp: serve_control_command_def)
  have "\<exists>b. en_body frame = BodyError b" by (simp add: frame error_frame_with_context_def session_envelope_def)
  then show ?thesis
    using Inl e error_frame_decodes [of "ce_code e" "ce_message e" "ce_pane_id e"]
    by (auto simp: frame(2) server_error_def control_error_ok_def) (simp add: frame(1))
qed

end
