(* ===== verification/Output_Pump.thy ===== *)
theory Output_Pump
  imports Control_Commands
begin

text \<open>
  How the output of processes reaches a session (\<open>crates/nmux-cli/src/local.rs\<close>): reading all that a host
  has, applying it directly or handing it in bounded pieces to the queue of a \<open>SessionActor\<close>, and writing
  the terminal's answers back to the process. A loop that reads until nothing comes may not end on an
  arbitrary host, so it is a partial function; on an \<open>output_source\<close> it ends.
\<close>

definition PANE_OUTPUT_HANDOFF_CHUNK_BYTES :: nat where "PANE_OUTPUT_HANDOFF_CHUNK_BYTES = 4096"
definition PANE_OUTPUT_HANDOFF_MAX_CHUNKS :: nat where "PANE_OUTPUT_HANDOFF_MAX_CHUNKS = 16"

subsection \<open>Directly into a session\<close>

partial_function (option) read_output_loop ::
  "'h process_host \<Rightarrow> 'h \<Rightarrow> ustring \<Rightarrow> byte list \<Rightarrow> ('h \<times> (host_error, byte list) res) option" where
  "read_output_loop ops h pane_id pumped =
     (case ph_try_read ops h pane_id 4096 of
        (h1, Inl e) \<Rightarrow> Some (h1, Inl e)
      | (h1, Inr bs) \<Rightarrow> if bs = [] then Some (h1, Inr pumped) else read_output_loop ops h1 pane_id (pumped @ bs))"

definition read_available_pane_output ::
  "'h process_host \<Rightarrow> 'h \<Rightarrow> ustring \<Rightarrow> ('h \<times> (host_error, byte list) res) option" where
  "read_available_pane_output ops h pane_id = read_output_loop ops h pane_id []"

definition apply_pumped_pane_output ::
  "'e terminal_engine \<Rightarrow> session \<Rightarrow> 'e pane_engines \<Rightarrow> ustring \<Rightarrow> byte list \<Rightarrow> session \<times> 'e pane_engines \<times> bool" where
  "apply_pumped_pane_output eops s engines pane_id pumped =
     (if pumped = [] then (s, engines, False)
      else case apply_pane_output_with_engine eops s pane_id pumped (engine_mut eops engines pane_id) of
          (s1, e1, changed) \<Rightarrow> (s1, engine_put engines pane_id e1, changed))"

fun write_pty_inputs :: "'h process_host \<Rightarrow> 'h \<Rightarrow> ustring \<Rightarrow> byte list list \<Rightarrow> ('h, unit) host_result" where
  \<comment> \<open>the loop that writes the terminal's answers; the first error ends it\<close>
  "write_pty_inputs ops h pane_id [] = (h, Inr ())"
| "write_pty_inputs ops h pane_id (bs # bss) =
     (case ph_write ops h pane_id bs of
        (h1, Inl e) \<Rightarrow> (h1, Inl e)
      | (h1, Inr _) \<Rightarrow> write_pty_inputs ops h1 pane_id bss)"

definition poll_pane_output_with_host_and_engines ::
  "'e terminal_engine \<Rightarrow> 'h process_host \<Rightarrow> session \<times> 'e pane_engines \<times> 'h \<Rightarrow> ustring \<Rightarrow>
     ((session \<times> 'e pane_engines \<times> 'h) \<times> (host_error, bool) res) option" where
  "poll_pane_output_with_host_and_engines eops ops st pane_id =
     (case st of (s, engines, h) \<Rightarrow>
        Option.bind (read_available_pane_output ops h pane_id) (\<lambda>(h1, r).
          case r of
            Inl e \<Rightarrow> Some ((s, engines, h1), Inl e)
          | Inr pumped \<Rightarrow>
              (case apply_pumped_pane_output eops s engines pane_id pumped of
                 (s1, engines1, changed) \<Rightarrow>
                   (case te_drain_pty_writes eops (engine_mut eops engines1 pane_id) of
                      (e2, writes) \<Rightarrow>
                        (case write_pty_inputs ops h1 pane_id writes of
                           (h2, Inl e) \<Rightarrow> Some ((s1, engine_put engines1 pane_id e2, h2), Inl e)
                         | (h2, Inr _) \<Rightarrow>
                             Some ((s1, engine_put engines1 pane_id e2, h2), Inr (changed \<or> writes \<noteq> [])))))))"

subsection \<open>Through the queue of an actor\<close>

record pane_output_handoff =
  hf_pane_id :: ustring
  hf_source_id :: ustring
  hf_chunks :: "byte list list"
  hf_queued_bytes :: nat

definition handoff_new :: "ustring \<Rightarrow> pane_output_handoff" where
  "handoff_new pane_id =
     \<lparr>hf_pane_id = pane_id, hf_source_id = pane_id @ lit '':pty'', hf_chunks = [], hf_queued_bytes = 0\<rparr>"

definition handoff_is_full :: "pane_output_handoff \<Rightarrow> bool" where
  "handoff_is_full f \<longleftrightarrow> PANE_OUTPUT_HANDOFF_MAX_CHUNKS \<le> length (hf_chunks f)"

definition handoff_push_chunk :: "pane_output_handoff \<Rightarrow> byte list \<Rightarrow> pane_output_handoff" where
  "handoff_push_chunk f bs = f\<lparr>hf_queued_bytes := hf_queued_bytes f + length bs, hf_chunks := hf_chunks f @ [bs]\<rparr>"

definition handoff_pop_chunk :: "pane_output_handoff \<Rightarrow> (byte list \<times> pane_output_handoff) option" where
  "handoff_pop_chunk f =
     (case hf_chunks f of [] \<Rightarrow> None
      | c # cs \<Rightarrow> Some (c, f\<lparr>hf_chunks := cs, hf_queued_bytes := hf_queued_bytes f - length c\<rparr>))"

function handoff_drain :: "pane_output_handoff \<Rightarrow> byte list \<Rightarrow> byte list \<times> pane_output_handoff" where
  "handoff_drain f out =
     (case handoff_pop_chunk f of None \<Rightarrow> (out, f) | Some (bs, f1) \<Rightarrow> handoff_drain f1 (out @ bs))"
  by pat_completeness auto
termination
  by (relation "measure (\<lambda>(f, out). length (hf_chunks f))") (auto simp: handoff_pop_chunk_def split: list.splits)

declare handoff_drain.simps [simp del]

definition pane_output_event :: "pane_output_handoff \<Rightarrow> u64 \<Rightarrow> byte list \<Rightarrow> pending_event" where
  "pane_output_event f session_mono_ms bs =
     \<lparr>pe_source_id = hf_source_id f, pe_lane = LanePane, pe_session_mono_ms = session_mono_ms,
      pe_event = PaneOutput (hf_pane_id f) bs\<rparr>"

definition flush_pane_output_handoff ::
  "'e terminal_engine \<Rightarrow> 'e session_actor \<Rightarrow> pane_output_handoff \<Rightarrow> u64 \<Rightarrow>
     'e session_actor \<times> pane_output_handoff \<times> bool" where
  "flush_pane_output_handoff eops a f session_mono_ms =
     (if hf_chunks f = [] then (a, f, False)
      else (let (out, f1) = handoff_drain f [];
                (records, a1) = drain_ready eops (actor_enqueue a (pane_output_event f session_mono_ms out))
            in (a1, f1, list_ex (\<lambda>r. tr_effects r \<noteq> []) records)))"

partial_function (option) actor_output_loop ::
  "'e terminal_engine \<Rightarrow> 'h process_host \<Rightarrow> u64 \<Rightarrow> ustring \<Rightarrow> 'e session_actor \<times> 'h \<times> pane_output_handoff \<times> bool \<Rightarrow>
     (('e session_actor \<times> 'h \<times> pane_output_handoff \<times> bool) \<times> (host_error, unit) res) option" where
  "actor_output_loop eops ops ms pane_id st =
     (case st of (a, h, f, changed) \<Rightarrow>
        (case ph_try_read ops h pane_id PANE_OUTPUT_HANDOFF_CHUNK_BYTES of
           (h1, Inl e) \<Rightarrow> Some ((a, h1, f, changed), Inl e)
         | (h1, Inr bs) \<Rightarrow>
             if bs = [] then Some ((a, h1, f, changed), Inr ())
             else (let f1 = handoff_push_chunk f bs in
                   if handoff_is_full f1
                   then (case flush_pane_output_handoff eops a f1 ms of
                           (a2, f2, c) \<Rightarrow> actor_output_loop eops ops ms pane_id (a2, h1, f2, changed \<or> c))
                   else actor_output_loop eops ops ms pane_id (a, h1, f1, changed))))"

definition poll_pane_output_with_session_actor ::
  "'e terminal_engine \<Rightarrow> 'h process_host \<Rightarrow> u64 \<Rightarrow> 'e session_actor \<times> 'h \<Rightarrow> ustring \<Rightarrow>
     (('e session_actor \<times> 'h) \<times> (host_error, bool) res) option" where
  "poll_pane_output_with_session_actor eops ops session_mono_ms st pane_id =
     (case st of (a, h) \<Rightarrow>
        Option.bind (actor_output_loop eops ops session_mono_ms pane_id (a, h, handoff_new pane_id, False))
          (\<lambda>((a1, h1, f1, changed1), r).
             case r of
               Inl e \<Rightarrow> Some ((a1, h1), Inl e)
             | Inr _ \<Rightarrow>
                 (case flush_pane_output_handoff eops a1 f1 session_mono_ms of
                    (a2, _, c) \<Rightarrow>
                      (case drain_pane_pty_writes eops (sa_core a2) pane_id of
                         (core, writes) \<Rightarrow>
                           (case write_pty_inputs ops h1 pane_id writes of
                              (h2, Inl e) \<Rightarrow> Some ((a2\<lparr>sa_core := core\<rparr>, h2), Inl e)
                            | (h2, Inr _) \<Rightarrow>
                                Some ((a2\<lparr>sa_core := core\<rparr>, h2), Inr (changed1 \<or> c \<or> writes \<noteq> [])))))))"

subsection \<open>Several panes\<close>

fun poll_each :: "('s \<Rightarrow> ustring \<Rightarrow> ('s \<times> (host_error, bool) res) option) \<Rightarrow> 's \<Rightarrow> ustring list \<Rightarrow> bool \<Rightarrow>
    ('s \<times> (host_error, bool) res) option" where
  \<comment> \<open>a loop \<open>for pane_id in .. { changed |= poll(..)?; }\<close>\<close>
  "poll_each poll st [] changed = Some (st, Inr changed)"
| "poll_each poll st (k # ks) changed =
     Option.bind (poll st k) (\<lambda>(st1, r).
       case r of Inl e \<Rightarrow> Some (st1, Inl e) | Inr c \<Rightarrow> poll_each poll st1 ks (changed \<or> c))"

definition poll_once ::
  "('s \<Rightarrow> ustring \<Rightarrow> ('s \<times> (host_error, bool) res) option) \<Rightarrow> 's \<Rightarrow> ustring list \<Rightarrow> ustring list \<Rightarrow>
     ('s \<times> (host_error, bool) res) option" where
  \<comment> \<open>the priority panes first, then the others\<close>
  "poll_once poll st pane_ids priority_pane_ids =
     Option.bind (poll_each poll st priority_pane_ids False) (\<lambda>(st1, r).
       case r of Inl e \<Rightarrow> Some (st1, Inl e)
       | Inr changed \<Rightarrow> poll_each poll st1 (filter (\<lambda>k. k \<notin> set priority_pane_ids) pane_ids) changed)"

definition poll_panes_output_with_host_once ::
  "'e terminal_engine \<Rightarrow> 'h process_host \<Rightarrow> session \<times> 'e pane_engines \<times> 'h \<Rightarrow> ustring list \<Rightarrow> ustring list \<Rightarrow>
     ((session \<times> 'e pane_engines \<times> 'h) \<times> (host_error, bool) res) option" where
  "poll_panes_output_with_host_once eops ops = poll_once (poll_pane_output_with_host_and_engines eops ops)"

definition poll_panes_output_with_session_actor_once ::
  "'e terminal_engine \<Rightarrow> 'h process_host \<Rightarrow> u64 \<Rightarrow> 'e session_actor \<times> 'h \<Rightarrow> ustring list \<Rightarrow> ustring list \<Rightarrow>
     (('e session_actor \<times> 'h) \<times> (host_error, bool) res) option" where
  "poll_panes_output_with_session_actor_once eops ops ms = poll_once (poll_pane_output_with_session_actor eops ops ms)"

partial_function (option) until_quiet ::
  "('s \<Rightarrow> ustring \<Rightarrow> ('s \<times> (host_error, bool) res) option) \<Rightarrow> (nat \<Rightarrow> nat) \<Rightarrow> ustring list \<Rightarrow> nat \<Rightarrow>
     's \<Rightarrow> nat \<Rightarrow> nat option \<Rightarrow> bool \<Rightarrow> ('s \<times> (host_error, bool) res) option" where
  \<comment> \<open>the loop of \<open>poll_panes_output_with_host_until_quiet\<close>: \<open>clock n\<close> is what the \<open>n\<close>th call of
     \<open>Instant::now\<close> gives, in milliseconds\<close>
  "until_quiet poll clock pane_ids deadline st n quiet_since changed =
     Option.bind (poll_each poll st pane_ids False) (\<lambda>(st1, r).
       case r of
         Inl e \<Rightarrow> Some (st1, Inl e)
       | Inr cycle_changed \<Rightarrow>
           if cycle_changed then
             (if deadline \<le> clock n then Some (st1, Inr True)
              else until_quiet poll clock pane_ids deadline st1 (n + 1) None True)
           else if changed then
             (let (quiet_start, n1) = (case quiet_since of Some q \<Rightarrow> (q, n) | None \<Rightarrow> (clock n, n + 1)) in
              if 20 \<le> clock n1 - quiet_start then Some (st1, Inr True)
              else if deadline \<le> clock (n1 + 1) then Some (st1, Inr changed)
              else until_quiet poll clock pane_ids deadline st1 (n1 + 2) (Some quiet_start) changed)
           else if deadline \<le> clock n then Some (st1, Inr False)
           else if deadline \<le> clock (n + 1) then Some (st1, Inr changed)
           else until_quiet poll clock pane_ids deadline st1 (n + 2) quiet_since changed)"

definition LIVE_HOST_OUTPUT_POLL_DEADLINE :: nat where "LIVE_HOST_OUTPUT_POLL_DEADLINE = 120"

definition poll_until_quiet ::
  "('s \<Rightarrow> ustring \<Rightarrow> ('s \<times> (host_error, bool) res) option) \<Rightarrow> (nat \<Rightarrow> nat) \<Rightarrow> ustring list \<Rightarrow> 's \<Rightarrow>
     ('s \<times> (host_error, bool) res) option" where
  "poll_until_quiet poll clock pane_ids st =
     until_quiet poll clock pane_ids (clock 0 + LIVE_HOST_OUTPUT_POLL_DEADLINE) st 1 None False"

definition poll_panes_output_with_host_until_quiet ::
  "'e terminal_engine \<Rightarrow> 'h process_host \<Rightarrow> (nat \<Rightarrow> nat) \<Rightarrow> ustring list \<Rightarrow> session \<times> 'e pane_engines \<times> 'h \<Rightarrow>
     ((session \<times> 'e pane_engines \<times> 'h) \<times> (host_error, bool) res) option" where
  "poll_panes_output_with_host_until_quiet eops ops = poll_until_quiet (poll_pane_output_with_host_and_engines eops ops)"

definition poll_panes_output_with_session_actor_until_quiet ::
  "'e terminal_engine \<Rightarrow> 'h process_host \<Rightarrow> u64 \<Rightarrow> (nat \<Rightarrow> nat) \<Rightarrow> ustring list \<Rightarrow> 'e session_actor \<times> 'h \<Rightarrow>
     (('e session_actor \<times> 'h) \<times> (host_error, bool) res) option" where
  "poll_panes_output_with_session_actor_until_quiet eops ops ms =
     poll_until_quiet (poll_pane_output_with_session_actor eops ops ms)"

definition host_error_pane_id :: "host_error \<Rightarrow> ustring" where
  "host_error_pane_id e =
     (case e of UnsupportedHostKind host_id _ \<Rightarrow> host_id | UnsupportedOperation pane_id _ \<Rightarrow> pane_id
      | AlreadyRunning pane_id \<Rightarrow> pane_id | NotRunning pane_id \<Rightarrow> pane_id | HostIo pane_id _ _ \<Rightarrow> pane_id)"

definition input_write_target_exited :: "host_error \<Rightarrow> ustring \<Rightarrow> bool" where
  "input_write_target_exited e pane_id \<longleftrightarrow> e = NotRunning pane_id"

subsection \<open>On a source of output\<close>

locale pump_source = output_source "ph_try_read ops" pending
  for ops :: "'h process_host" and pending
begin

lemma read_output_loop_ends:
  "\<exists>h' r. read_output_loop ops h k acc = Some (h', r) \<and>
     (\<forall>bs. r = Inr bs \<longrightarrow> bs = acc @ pending h k \<and> pending h' k = [] \<and> (\<forall>j. j \<noteq> k \<longrightarrow> pending h' j = pending h j))"
proof (induction "length (pending h k)" arbitrary: h acc rule: less_induct)
  case less
  obtain h1 r where read: "ph_try_read ops h k 4096 = (h1, r)" by (cases "ph_try_read ops h k 4096")
  show ?case
  proof (cases r)
    case (Inl e)
    with read show ?thesis by (simp add: read_output_loop.simps [of ops h])
  next
    case (Inr bs)
    note front = read_front [OF read [unfolded Inr]]
    show ?thesis
    proof (cases "bs = []")
      case True
      with read Inr front read_progress [of h k 4096 h1] show ?thesis by (simp add: read_output_loop.simps [of ops h])
    next
      case False
      with less [OF read_shorter [OF read [unfolded Inr] False], of "acc @ bs"] read Inr front
      show ?thesis by (auto simp: read_output_loop.simps [of ops h])
    qed
  qed
qed

lemma read_all:
  "\<exists>h' r. read_available_pane_output ops h k = Some (h', r) \<and>
     (\<forall>bs. r = Inr bs \<longrightarrow> bs = pending h k \<and> pending h' k = [] \<and> (\<forall>j. j \<noteq> k \<longrightarrow> pending h' j = pending h j))"
  using read_output_loop_ends [of h k "[]"] by (simp add: read_available_pane_output_def)

lemma direct_poll_ends: "\<exists>st' r. poll_pane_output_with_host_and_engines eops ops st k = Some (st', r)"
  using read_all [of "snd (snd st)" k]
  by (auto simp: poll_pane_output_with_host_and_engines_def split: prod.splits sum.splits)

end

subsubsection \<open>The handoff\<close>

definition handoff_ok :: "pane_output_handoff \<Rightarrow> bool" where
  \<comment> \<open>the bytes are counted, no chunk is empty or larger than the buffer, and there is room for one more\<close>
  "handoff_ok f \<longleftrightarrow> hf_queued_bytes f = sum_list (map length (hf_chunks f)) \<and>
     (\<forall>c \<in> set (hf_chunks f). c \<noteq> [] \<and> length c \<le> PANE_OUTPUT_HANDOFF_CHUNK_BYTES) \<and>
     length (hf_chunks f) < PANE_OUTPUT_HANDOFF_MAX_CHUNKS"

lemma handoff_drain_all:
  "handoff_drain f out = (out @ concat (hf_chunks f),
     f\<lparr>hf_chunks := [], hf_queued_bytes := foldl (\<lambda>n c. n - length c) (hf_queued_bytes f) (hf_chunks f)\<rparr>)"
proof (induction f out rule: handoff_drain.induct)
  case (1 f out)
  show ?case
  proof (cases "hf_chunks f")
    case Nil
    then show ?thesis by (subst handoff_drain.simps, cases f) (simp add: handoff_pop_chunk_def)
  next
    case (Cons c cs)
    with 1 show ?thesis by (simp add: handoff_drain.simps [of f] handoff_pop_chunk_def)
  qed
qed

lemma drained_count: "foldl (\<lambda>n c. n - length c) (sum_list (map length cs)) cs = 0"
proof -
  have "foldl (\<lambda>n c. n - length c) (sum_list (map length cs) + m) cs = m" for m
    by (induction cs) (simp_all add: add.assoc)
  from this [of 0] show ?thesis by simp
qed

lemma handoff_new_ok [simp]: "handoff_ok (handoff_new k)" "hf_chunks (handoff_new k) = []"
  "hf_pane_id (handoff_new k) = k" "hf_source_id (handoff_new k) = k @ lit '':pty''"
  by (simp_all add: handoff_ok_def handoff_new_def PANE_OUTPUT_HANDOFF_MAX_CHUNKS_def)

lemma handoff_empty: "handoff_ok f \<Longrightarrow> hf_chunks f = [] \<Longrightarrow> hf_pane_id f = k \<Longrightarrow> hf_source_id f = k @ lit '':pty'' \<Longrightarrow>
    f = handoff_new k"
  by (cases f) (simp add: handoff_ok_def handoff_new_def)

definition output_piece_ok :: "byte list \<Rightarrow> bool" where
  "output_piece_ok bs \<longleftrightarrow> bs \<noteq> [] \<and> length bs \<le> PANE_OUTPUT_HANDOFF_MAX_CHUNKS * PANE_OUTPUT_HANDOFF_CHUNK_BYTES"

lemma chunks_bounded:
  assumes "\<forall>c \<in> set cs. c \<noteq> [] \<and> length c \<le> m" and "length cs \<le> n" and "cs \<noteq> []"
  shows "concat cs \<noteq> [] \<and> length (concat cs) \<le> n * m"
proof -
  have "length (concat cs) \<le> length cs * m" using assms(1) by (induction cs) auto
  also have "\<dots> \<le> n * m" using assms(2) by (rule mult_le_mono1)
  finally show ?thesis using assms(1,3) by (cases cs) auto
qed

lemma accept_output_event:
  assumes "accept_pending eops core (pane_output_event f ms bs) = (core', t)"
  shows "sc_session core' = fst (apply_pane_output_with_engine eops (sc_session core) (hf_pane_id f) bs
      (engine_mut eops (sc_engines core) (hf_pane_id f)))"
    and "sc_engines core' = engine_put (sc_engines core) (hf_pane_id f)
      (fst (snd (apply_pane_output_with_engine eops (sc_session core) (hf_pane_id f) bs
        (engine_mut eops (sc_engines core) (hf_pane_id f)))))"
  using assms
  by (auto simp: accept_pending_def apply_accepted_def pane_output_event_def Let_def apply_pane_output_event_def
      split: prod.splits)

fun apply_pieces ::
  "'e terminal_engine \<Rightarrow> session \<times> 'e pane_engines \<Rightarrow> ustring \<Rightarrow> byte list list \<Rightarrow> session \<times> 'e pane_engines" where
  \<comment> \<open>the output applied directly, piece by piece\<close>
  "apply_pieces eops st k [] = st"
| "apply_pieces eops st k (bs # bss) =
     (case apply_pumped_pane_output eops (fst st) (snd st) k bs of (s, es, _) \<Rightarrow> apply_pieces eops (s, es) k bss)"

lemma apply_pieces_append: "apply_pieces eops st k (as @ bs) = apply_pieces eops (apply_pieces eops st k as) k bs"
  by (induction as arbitrary: st) (auto split: prod.splits)

lemma pumped_commanded: "apply_pumped_pane_output eops s es k bs = (s', x) \<Longrightarrow> commanded s s'"
  using output_commanded [of s eops k bs "engine_mut eops es k"]
  by (auto simp: apply_pumped_pane_output_def commanded_steps(1) split: if_splits prod.splits)

lemma apply_pieces_commanded: "commanded (fst st) (fst (apply_pieces eops st k bss))"
proof (induction bss arbitrary: st)
  case (Cons bs bss)
  obtain s es c where p: "apply_pumped_pane_output eops (fst st) (snd st) k bs = (s, es, c)" by (metis prod_cases3)
  then have "commanded (fst st) s" by (rule pumped_commanded)
  with Cons.IH [of "(s, es)"] p commanded_steps(2) show ?case by fastforce
qed (simp add: commanded_steps)

lemma direct_poll_commanded:
  assumes "poll_pane_output_with_host_and_engines eops ops st k = Some (st', r)"
  shows "commanded (fst st) (fst st')"
proof -
  obtain s es h where st: "st = (s, es, h)" by (cases st)
  obtain h1 x where x: "read_available_pane_output ops h k = Some (h1, x)"
    and rest: "(case x of Inl e \<Rightarrow> Some ((s, es, h1), Inl e)
      | Inr pumped \<Rightarrow>
          (case apply_pumped_pane_output eops s es k pumped of
             (s1, es1, changed) \<Rightarrow>
               (case te_drain_pty_writes eops (engine_mut eops es1 k) of
                  (e2, writes) \<Rightarrow>
                    (case write_pty_inputs ops h1 k writes of
                       (h2, Inl e) \<Rightarrow> Some ((s1, engine_put es1 k e2, h2), Inl e)
                     | (h2, Inr _) \<Rightarrow> Some ((s1, engine_put es1 k e2, h2), Inr (changed \<or> writes \<noteq> [])))))) = Some (st', r)"
    using assms by (auto simp: poll_pane_output_with_host_and_engines_def st bind_eq_Some_conv)
  show ?thesis
  proof (cases x)
    case (Inl e)
    with rest show ?thesis by (auto simp: st commanded_steps(1))
  next
    case (Inr bs)
    obtain s1 es1 changed where p: "apply_pumped_pane_output eops s es k bs = (s1, es1, changed)" by (metis prod_cases3)
    then have "fst st' = s1" using rest Inr by (auto split: prod.splits sum.splits)
    with pumped_commanded [OF p] show ?thesis by (simp add: st)
  qed
qed

lemma flush_applies:
  assumes "rests a" and "hf_chunks f \<noteq> []" and "concat (hf_chunks f) \<noteq> []"
  shows "\<exists>a' f' c. flush_pane_output_handoff eops a f ms = (a', f', c) \<and> rests a' \<and>
     f' = f\<lparr>hf_chunks := [], hf_queued_bytes := foldl (\<lambda>n c. n - length c) (hf_queued_bytes f) (hf_chunks f)\<rparr> \<and>
     (sc_session (sa_core a'), sc_engines (sa_core a')) =
       apply_pieces eops (sc_session (sa_core a), sc_engines (sa_core a)) (hf_pane_id f) [concat (hf_chunks f)]"
proof -
  let ?e = "pane_output_event f ms (concat (hf_chunks f))"
  obtain core t where acc: "accept_pending eops (sa_core a) ?e = (core, t)" by (cases "accept_pending eops (sa_core a) ?e")
  from drain_one [OF assms(1) acc] obtain a' where
    a': "drain_ready eops (actor_enqueue a ?e) = ([trace_record_from_transition t], a')" "rests a'" "sa_core a' = core"
    by blast
  show ?thesis
    using a' assms(2,3) accept_output_event [OF acc]
    by (auto simp: flush_pane_output_handoff_def handoff_drain_all apply_pumped_pane_output_def split: prod.splits)
qed

definition held :: "'e session_actor \<Rightarrow> session \<times> 'e pane_engines" where
  "held a = (sc_session (sa_core a), sc_engines (sa_core a))"

definition handoff_of :: "ustring \<Rightarrow> pane_output_handoff \<Rightarrow> bool" where
  "handoff_of k f \<longleftrightarrow> handoff_ok f \<and> hf_pane_id f = k \<and> hf_source_id f = k @ lit '':pty''"

lemma flush_full:
  assumes "rests a" and "handoff_of k f" and "bs \<noteq> []" and "length bs \<le> PANE_OUTPUT_HANDOFF_CHUNK_BYTES"
  shows "\<exists>a' c. flush_pane_output_handoff eops a (handoff_push_chunk f bs) ms = (a', handoff_new k, c) \<and> rests a' \<and>
     output_piece_ok (concat (hf_chunks f) @ bs) \<and> held a' = apply_pieces eops (held a) k [concat (hf_chunks f) @ bs]"
proof -
  let ?f = "handoff_push_chunk f bs"
  have f: "hf_chunks ?f = hf_chunks f @ [bs]" "hf_pane_id ?f = k" "hf_source_id ?f = k @ lit '':pty''"
    "hf_queued_bytes ?f = sum_list (map length (hf_chunks ?f))"
    using assms(2) by (simp_all add: handoff_push_chunk_def handoff_of_def handoff_ok_def)
  have "output_piece_ok (concat (hf_chunks f @ [bs]))"
    unfolding output_piece_ok_def using assms(2-4)
    by (intro chunks_bounded) (auto simp: handoff_of_def handoff_ok_def)
  moreover obtain a' c where "flush_pane_output_handoff eops a ?f ms = (a', ?f\<lparr>hf_chunks := [], hf_queued_bytes := 0\<rparr>, c)"
    "rests a'" "held a' = apply_pieces eops (held a) k [concat (hf_chunks f) @ bs]"
    using flush_applies [of a ?f eops ms] assms(1,3) drained_count [of "hf_chunks ?f"]
    by (auto simp: f(1,2,4) held_def)
  moreover have "?f\<lparr>hf_chunks := [], hf_queued_bytes := 0\<rparr> = handoff_new k"
    using f(2,3) by (cases ?f) (simp add: handoff_new_def)
  ultimately show ?thesis by simp
qed

lemma push_keeps:
  assumes "handoff_of k f" and "bs \<noteq> []" and "length bs \<le> PANE_OUTPUT_HANDOFF_CHUNK_BYTES"
    and "\<not> handoff_is_full (handoff_push_chunk f bs)"
  shows "handoff_of k (handoff_push_chunk f bs)"
  using assms by (auto simp: handoff_of_def handoff_ok_def handoff_push_chunk_def handoff_is_full_def)

lemma flush_rest:
  assumes "rests a" and "handoff_of k f"
  shows "\<exists>a' f' c bss. flush_pane_output_handoff eops a f ms = (a', f', c) \<and> rests a' \<and> list_all output_piece_ok bss \<and>
     concat bss = concat (hf_chunks f) \<and> held a' = apply_pieces eops (held a) k bss"
proof (cases "hf_chunks f = []")
  case True
  with assms show ?thesis
    by (intro exI [of _ a] exI [of _ f] exI [of _ False] exI [of _ "[]"]) (simp add: flush_pane_output_handoff_def)
next
  case False
  have ok: "output_piece_ok (concat (hf_chunks f))"
    unfolding output_piece_ok_def using assms(2) False
    by (intro chunks_bounded) (auto simp: handoff_of_def handoff_ok_def)
  with flush_applies [OF assms(1) False, of eops ms] assms(2) show ?thesis
    by (fastforce simp: held_def handoff_of_def output_piece_ok_def intro!: exI [of _ "[concat (hf_chunks f)]"])
qed

context pump_source
begin

lemma actor_output_loop_ends:
  "rests a \<Longrightarrow> handoff_of k f \<Longrightarrow>
     \<exists>a' h' f' c' r bss. actor_output_loop eops ops ms k (a, h, f, c) = Some ((a', h', f', c'), r) \<and>
       rests a' \<and> handoff_of k f' \<and> list_all output_piece_ok bss \<and> held a' = apply_pieces eops (held a) k bss \<and>
       (\<forall>u. r = Inr u \<longrightarrow> concat (hf_chunks f) @ pending h k = concat bss @ concat (hf_chunks f') \<and>
          pending h' k = [] \<and> (\<forall>j. j \<noteq> k \<longrightarrow> pending h' j = pending h j))"
proof (induction "length (pending h k)" arbitrary: a h f c rule: less_induct)
  case less
  obtain h1 r where read: "ph_try_read ops h k PANE_OUTPUT_HANDOFF_CHUNK_BYTES = (h1, r)"
    by (cases "ph_try_read ops h k PANE_OUTPUT_HANDOFF_CHUNK_BYTES")
  show ?case
  proof (cases r)
    case (Inl e)
    with read less(2,3) show ?thesis
      by (intro exI [of _ a] exI [of _ h1] exI [of _ f] exI [of _ c] exI [of _ "Inl e"] exI [of _ "[]"])
        (simp add: actor_output_loop.simps [of eops ops ms k])
  next
    case (Inr bs)
    note read = read [unfolded Inr]
    note front = read_front [OF read]
    show ?thesis
    proof (cases "bs = []")
      case True
      with read front less(2,3) read_progress [of h k PANE_OUTPUT_HANDOFF_CHUNK_BYTES h1] show ?thesis
        by (intro exI [of _ a] exI [of _ h1] exI [of _ f] exI [of _ c] exI [of _ "Inr ()"] exI [of _ "[]"])
          (simp add: actor_output_loop.simps [of eops ops ms k] PANE_OUTPUT_HANDOFF_CHUNK_BYTES_def)
    next
      case False
      have len: "length bs \<le> PANE_OUTPUT_HANDOFF_CHUNK_BYTES" using front by simp
      note IH = less(1) [OF read_shorter [OF read False]]
      show ?thesis
      proof (cases "handoff_is_full (handoff_push_chunk f bs)")
        case True
        from flush_full [OF less(2,3) False len, of eops ms] obtain a1 c1 where
          flush: "flush_pane_output_handoff eops a (handoff_push_chunk f bs) ms = (a1, handoff_new k, c1)" "rests a1"
          "output_piece_ok (concat (hf_chunks f) @ bs)" "held a1 = apply_pieces eops (held a) k [concat (hf_chunks f) @ bs]"
          by blast
        have "handoff_of k (handoff_new k)" by (simp add: handoff_of_def)
        from IH [OF flush(2) this, of "c \<or> c1"] obtain a' h' f' c' r bss where
          res: "actor_output_loop eops ops ms k (a1, h1, handoff_new k, c \<or> c1) = Some ((a', h', f', c'), r)"
          "rests a'" "handoff_of k f'" "list_all output_piece_ok bss" "held a' = apply_pieces eops (held a1) k bss"
          "\<forall>u. r = Inr u \<longrightarrow> pending h1 k = concat bss @ concat (hf_chunks f') \<and>
             pending h' k = [] \<and> (\<forall>j. j \<noteq> k \<longrightarrow> pending h' j = pending h1 j)" by auto
        have "actor_output_loop eops ops ms k (a, h, f, c) = Some ((a', h', f', c'), r)"
          using read False True flush(1) res(1) by (simp add: actor_output_loop.simps [of eops ops ms k "(a, h, f, c)"])
        moreover have "held a' = apply_pieces eops (held a) k ((concat (hf_chunks f) @ bs) # bss)"
          using flush(4) res(5) by (simp split: prod.splits)
        ultimately show ?thesis
          using res flush(3) front
          by (intro exI [of _ a'] exI [of _ h'] exI [of _ f'] exI [of _ c'] exI [of _ r]
              exI [of _ "(concat (hf_chunks f) @ bs) # bss"]) (simp del: apply_pieces.simps)
      next
        case no: False
        note f1 = push_keeps [OF less(3) False len no]
        from IH [OF less(2) f1, of c] obtain a' h' f' c' r bss where
          res: "actor_output_loop eops ops ms k (a, h1, handoff_push_chunk f bs, c) = Some ((a', h', f', c'), r)"
          "rests a'" "handoff_of k f'" "list_all output_piece_ok bss" "held a' = apply_pieces eops (held a) k bss"
          "\<forall>u. r = Inr u \<longrightarrow> concat (hf_chunks f) @ bs @ pending h1 k = concat bss @ concat (hf_chunks f') \<and>
             pending h' k = [] \<and> (\<forall>j. j \<noteq> k \<longrightarrow> pending h' j = pending h1 j)"
          by (auto simp: handoff_push_chunk_def)
        have "actor_output_loop eops ops ms k (a, h, f, c) = Some ((a', h', f', c'), r)"
          using read False no res(1) by (simp add: actor_output_loop.simps [of eops ops ms k "(a, h, f, c)"])
        then show ?thesis
          using res front
          by (intro exI [of _ a'] exI [of _ h'] exI [of _ f'] exI [of _ c'] exI [of _ r] exI [of _ bss]) simp
      qed
    qed
  qed
qed

end

context pump_source
begin

lemma actor_poll_ends:
  assumes "rests a"
  shows "\<exists>a' h' r bss. poll_pane_output_with_session_actor eops ops ms (a, h) k = Some ((a', h'), r) \<and> rests a' \<and>
     list_all output_piece_ok bss \<and> actor_session a' = fst (apply_pieces eops (held a) k bss) \<and>
     (\<forall>b. r = Inr b \<longrightarrow> concat bss = pending h k)"
proof -
  have new: "handoff_of k (handoff_new k)" by (simp add: handoff_of_def)
  from actor_output_loop_ends [OF assms new, of eops ms h False] obtain a1 h1 f1 c1 r1 bss1 where
    loop: "actor_output_loop eops ops ms k (a, h, handoff_new k, False) = Some ((a1, h1, f1, c1), r1)"
      "rests a1" "handoff_of k f1" "list_all output_piece_ok bss1" "held a1 = apply_pieces eops (held a) k bss1"
      "\<forall>u. r1 = Inr u \<longrightarrow> pending h k = concat bss1 @ concat (hf_chunks f1)" by auto
  show ?thesis
  proof (cases r1)
    case (Inl e)
    with loop show ?thesis
      by (intro exI [of _ a1] exI [of _ h1] exI [of _ "Inl e"] exI [of _ bss1])
        (simp add: poll_pane_output_with_session_actor_def actor_session_def held_def, metis fst_conv)
  next
    case (Inr u)
    from flush_rest [OF loop(2,3), of eops ms] obtain a2 f2 c2 bss2 where
      flush: "flush_pane_output_handoff eops a1 f1 ms = (a2, f2, c2)" "rests a2" "list_all output_piece_ok bss2"
        "concat bss2 = concat (hf_chunks f1)" "held a2 = apply_pieces eops (held a1) k bss2" by blast
    obtain core writes where drain: "drain_pane_pty_writes eops (sa_core a2) k = (core, writes)"
      by (cases "drain_pane_pty_writes eops (sa_core a2) k")
    have core: "sc_session core = sc_session (sa_core a2)"
      using drain by (auto simp: drain_pane_pty_writes_def split: prod.splits)
    obtain h2 r2 where w: "write_pty_inputs ops h1 k writes = (h2, r2)" by (cases "write_pty_inputs ops h1 k writes")
    let ?a = "a2\<lparr>sa_core := core\<rparr>"
    have "\<exists>r. poll_pane_output_with_session_actor eops ops ms (a, h) k = Some ((?a, h2), r)"
      using loop(1) Inr flush(1) drain w by (cases r2) (auto simp: poll_pane_output_with_session_actor_def)
    moreover have "rests ?a" using flush(2) by (simp add: rests_iff)
    moreover have "held a2 = apply_pieces eops (held a) k (bss1 @ bss2)"
      using flush(5) loop(5) by (simp add: apply_pieces_append)
    then have "actor_session ?a = fst (apply_pieces eops (held a) k (bss1 @ bss2))"
      by (metis actor_session_def core fst_conv held_def session_actor.simps(1) session_actor.simps(5)
          session_actor.select_convs(1) session_actor.update_convs(1) session_actor.surjective)
    ultimately show ?thesis
      using loop(4,6) flush(3,4) Inr by (intro exI [of _ ?a] exI [of _ h2]) (auto intro!: exI [of _ "bss1 @ bss2"])
  qed
qed

lemma actor_poll_commanded:
  assumes "rests (fst st)"
  shows "\<exists>st' r. poll_pane_output_with_session_actor eops ops ms st k = Some (st', r) \<and> rests (fst st') \<and>
    commanded (actor_session (fst st)) (actor_session (fst st'))"
proof -
  from actor_poll_ends [OF assms, of eops ms "snd st" k] obtain a' h' r bss where
    "poll_pane_output_with_session_actor eops ops ms st k = Some ((a', h'), r)" "rests a'"
    "actor_session a' = fst (apply_pieces eops (held (fst st)) k bss)" by auto
  with apply_pieces_commanded [of "held (fst st)" eops k bss] show ?thesis
    by (intro exI [of _ "(a', h')"] exI [of _ r]) (simp add: held_def actor_session_def)
qed

end

definition quiet_result :: "('s \<Rightarrow> bool) \<Rightarrow> bool \<Rightarrow> ('s \<times> (host_error, bool) res) option \<Rightarrow> bool" where
  \<comment> \<open>there is a result, its state is a good one, and a change that was seen is not denied\<close>
  "quiet_result P changed x \<longleftrightarrow> (\<exists>st r. x = Some (st, r) \<and> P st \<and> (changed \<longrightarrow> r \<noteq> Inr False))"

lemma quiet_result_simps [simp]:
  "quiet_result P c (Some (st, r)) \<longleftrightarrow> P st \<and> (c \<longrightarrow> r \<noteq> Inr False)" "\<not> quiet_result P c None"
  by (auto simp: quiet_result_def)

lemma poll_each_ends:
  assumes "\<And>st k. P st \<Longrightarrow> \<exists>st' r. poll st k = Some (st', r) \<and> P st'" and "P st"
  shows "\<exists>st' r. poll_each poll st ks c = Some (st', r) \<and> P st'"
  using assms(2)
proof (induction ks arbitrary: st c)
  case (Cons k ks)
  from assms(1) [OF Cons.prems, of k] obtain st1 r where "poll st k = Some (st1, r)" "P st1" by blast
  with Cons.IH show ?case by (cases r) auto
qed simp

lemma poll_once_ends:
  assumes "\<And>st k. P st \<Longrightarrow> \<exists>st' r. poll st k = Some (st', r) \<and> P st'" and "P st"
  shows "\<exists>st' r. poll_once poll st ks ps = Some (st', r) \<and> P st'"
proof -
  from poll_each_ends [of P poll, OF assms] obtain st1 r where "poll_each poll st ps False = Some (st1, r)" "P st1" by blast
  with poll_each_ends [of P poll, OF assms(1)] show ?thesis by (cases r) (auto simp: poll_once_def)
qed

lemma until_quiet_ends:
  assumes poll: "\<And>st k. P st \<Longrightarrow> \<exists>st' r. poll st k = Some (st', r) \<and> P st'" and "P st"
    and clock: "\<And>m. N \<le> m \<Longrightarrow> deadline \<le> clock m"
  shows "quiet_result P c (until_quiet poll clock ks deadline st n q c)"
  using \<open>P st\<close>
proof (induction "N - n" arbitrary: st n q c rule: less_induct)
  case less
  from poll_each_ends [of P poll, OF poll less(2)] obtain st1 r where
    st1: "poll_each poll st ks False = Some (st1, r)" "P st1" by blast
  have rec: "quiet_result P c' (until_quiet poll clock ks deadline st1 m q' c')"
    if "\<not> deadline \<le> clock j" "n \<le> j" "n < m" for j m q' c'
  proof -
    have "j < N" using clock [of j] that(1) by (meson not_le_imp_less)
    then have "N - m < N - n" using that by linarith
    from less(1) [OF this st1(2)] show ?thesis .
  qed
  have weaken: "quiet_result P True x \<Longrightarrow> quiet_result P c x" for x by (auto simp: quiet_result_def)
  show ?case
  proof (cases r)
    case (Inl e)
    with st1 show ?thesis by (simp add: until_quiet.simps [of poll clock ks deadline st])
  next
    case (Inr cycle)
    consider "cycle" | "\<not> cycle" "c" "q = None" | s where "\<not> cycle" "c" "q = Some s" | "\<not> cycle" "\<not> c" by (cases q) blast+
    then show ?thesis
    proof cases
      case 1
      with st1 Inr rec [where j = n and m = "n + 1" and q' = None and c' = True] weaken show ?thesis
        by (simp add: until_quiet.simps [of poll clock ks deadline st])
    next
      case 2
      with st1 Inr rec [where j = "n + 2" and m = "n + 3"] show ?thesis
        by (simp add: until_quiet.simps [of poll clock ks deadline st] numeral_eq_Suc)
    next
      case 3
      with st1 Inr rec [where j = "n + 1" and m = "n + 2"] show ?thesis
        by (simp add: until_quiet.simps [of poll clock ks deadline st])
    next
      case 4
      with st1 Inr rec [where j = n and m = "n + 2"] show ?thesis
        by (simp add: until_quiet.simps [of poll clock ks deadline st])
    qed
  qed
qed

end
