(* ===== verification/Local_Hosts.thy ===== *)
theory Local_Hosts
  imports Host_Interface Ordered_Map
begin

text \<open>
  The hosts that run processes (\<open>LocalPtyHost\<close> and \<open>LocalProcessHost\<close> of \<open>crates/nmux-core/src/host.rs\<close>)
  and the view of one session on a shared host (\<open>ScopedLocalPtyHost\<close> of \<open>crates/nmux-cli/src/daemon.rs\<close>).
  The operating system is a parameter: a record of what it answers for a child process. The thread that pumps
  the output of a pseudo terminal is the queue of chunks it has sent.
\<close>

subsection \<open>A process on a pseudo terminal\<close>

record 'c child_os =
  co_open :: "nat \<Rightarrow> nat \<Rightarrow> (ustring, unit) res"
  co_spawn :: "host_spawn_command \<Rightarrow> (string \<times> ustring, 'c) res"
  co_try_wait :: "'c \<Rightarrow> 'c \<times> (ustring, bool) res"
  co_write :: "'c \<Rightarrow> byte list \<Rightarrow> 'c \<times> (bool \<times> ustring, unit) res"
  co_resize :: "'c \<Rightarrow> nat \<Rightarrow> nat \<Rightarrow> 'c \<times> (ustring, unit) res"
  co_kill :: "'c \<Rightarrow> 'c \<times> (bool \<times> ustring, unit) res"
  co_wait :: "'c \<Rightarrow> 'c \<times> (ustring, unit) res"

text \<open>
  \<open>co_write\<close> and \<open>co_kill\<close> report, with the message, whether the error is the one the source treats specially: a
  closed pane (\<open>closed_pane_write_error\<close>), and an invalid argument (\<open>EINVAL\<close>).
\<close>

record 'c local_pty_process =
  lp_process :: pane_process
  lp_child :: 'c
  lp_output :: "byte list list"
  lp_pending_output :: "byte list"

type_synonym 'c local_pty_host = "ustring \<rightharpoonup> 'c local_pty_process"

definition host_io_error :: "ustring \<Rightarrow> string \<Rightarrow> ustring \<Rightarrow> host_error" where
  "host_io_error pane_id operation e = HostIo pane_id operation e"

definition pty_running :: "'c local_pty_process \<Rightarrow> bool" where
  "pty_running p \<longleftrightarrow> pp_status (lp_process p) = StatusRunning"

definition pty_exited :: "'c local_pty_process \<Rightarrow> 'c local_pty_process" where
  "pty_exited p = p\<lparr>lp_process := (lp_process p)\<lparr>pp_status := StatusExited\<rparr>\<rparr>"

definition reap_exited_process ::
  "'c child_os \<Rightarrow> 'c local_pty_host \<Rightarrow> ustring \<Rightarrow> ('c local_pty_host, bool) host_result" where
  "reap_exited_process os h pane_id =
     (case h pane_id of
        None \<Rightarrow> (h, Inl (NotRunning pane_id))
      | Some p \<Rightarrow>
          if \<not> pty_running p then (h, Inr True)
          else (case co_try_wait os (lp_child p) of
             (c, Inl e) \<Rightarrow> (h(pane_id \<mapsto> p\<lparr>lp_child := c\<rparr>), Inl (host_io_error pane_id ''try_wait'' e))
           | (c, Inr exited) \<Rightarrow>
               (h(pane_id \<mapsto> (if exited then pty_exited (p\<lparr>lp_child := c\<rparr>) else p\<lparr>lp_child := c\<rparr>)), Inr exited)))"

definition drain_pumped_output :: "'c local_pty_process \<Rightarrow> nat \<Rightarrow> 'c local_pty_process \<times> byte list" where
  "drain_pumped_output p len =
     (let pending = lp_pending_output p @ concat (lp_output p);
          count = min len (length pending)
      in (p\<lparr>lp_output := [], lp_pending_output := drop count pending\<rparr>, take count pending))"

definition pty_try_read :: "'c child_os \<Rightarrow> 'c local_pty_host \<Rightarrow> ustring \<Rightarrow> usize \<Rightarrow> ('c local_pty_host, byte list) host_result" where
  "pty_try_read os h pane_id len =
     (case h pane_id of
        None \<Rightarrow> (h, Inl (NotRunning pane_id))
      | Some p \<Rightarrow>
          (case drain_pumped_output p len of
             (p1, bs) \<Rightarrow>
               if bs \<noteq> [] then (h(pane_id \<mapsto> p1), Inr bs)
               else if \<not> pty_running p1 then (h(pane_id \<mapsto> p1), Inr [])
               else (case co_try_wait os (lp_child p1) of
                  (c, Inl e) \<Rightarrow> (h(pane_id \<mapsto> p1\<lparr>lp_child := c\<rparr>), Inl (host_io_error pane_id ''try_wait'' e))
                | (c, Inr exited) \<Rightarrow>
                    (h(pane_id \<mapsto> (if exited then pty_exited (p1\<lparr>lp_child := c\<rparr>) else p1\<lparr>lp_child := c\<rparr>)), Inr []))))"

definition u16_or_max :: "u32 \<Rightarrow> nat" where
  \<comment> \<open>\<open>u16::try_from(..).unwrap_or(u16::MAX)\<close>\<close>
  "u16_or_max n = min n 65535"

definition pty_start ::
  "'c child_os \<Rightarrow> bool \<Rightarrow> ustring option \<Rightarrow> 'c local_pty_host \<Rightarrow> ustring \<Rightarrow> host_spec \<Rightarrow> ('c local_pty_host, pane_process) host_result" where
  "pty_start os macos runtime_var h pane_id spec =
     (if option_is_some_and pty_running (h pane_id) then (h, Inl (AlreadyRunning pane_id))
      else
        (let (cols, rows) = (case cmd_initial_size (hs_command spec) of Some sz \<Rightarrow> sz | None \<Rightarrow> (80, 24)) in
         case co_open os (u16_or_max rows) (u16_or_max cols) of
           Inl e \<Rightarrow> (h, Inl (host_io_error pane_id ''openpty'' e))
         | Inr _ \<Rightarrow>
             (case spawn_command_for_host macos runtime_var spec True of
                Inl e \<Rightarrow> (h, Inl e)
              | Inr cmd \<Rightarrow>
                  (case co_spawn os cmd of
                     Inl (operation, e) \<Rightarrow> (h, Inl (host_io_error pane_id operation e))
                   | Inr child \<Rightarrow>
                       (let process = \<lparr>pp_pane_id = pane_id, pp_host_id = hs_id spec, pp_status = StatusRunning\<rparr>
                        in (h(pane_id \<mapsto> \<lparr>lp_process = process, lp_child = child, lp_output = [], lp_pending_output = []\<rparr>),
                            Inr process))))))"

definition pty_process_then ::
  "'c local_pty_host \<Rightarrow> ustring \<Rightarrow> ('c local_pty_process \<Rightarrow> ('c local_pty_host, 'a) host_result) \<Rightarrow> ('c local_pty_host, 'a) host_result" where
  \<comment> \<open>\<open>process_mut\<close> with the question mark behind it\<close>
  "pty_process_then h pane_id f =
     (case h pane_id of
        None \<Rightarrow> (h, Inl (NotRunning pane_id))
      | Some p \<Rightarrow> if pty_running p then f p else (h, Inl (NotRunning pane_id)))"

definition unless_exited ::
  "'c child_os \<Rightarrow> 'c local_pty_host \<Rightarrow> ustring \<Rightarrow> ('c local_pty_host \<Rightarrow> ('c local_pty_host, 'a) host_result) \<Rightarrow>
     ('c local_pty_host, 'a) host_result" where
  \<comment> \<open>the check at the start of \<open>check_pane\<close>, \<open>write_input\<close> and \<open>resize_pane\<close>\<close>
  "unless_exited os h pane_id f =
     (case reap_exited_process os h pane_id of
        (h1, Inl e) \<Rightarrow> (h1, Inl e)
      | (h1, Inr exited) \<Rightarrow> if exited then (h1, Inl (NotRunning pane_id)) else f h1)"

definition pty_check :: "'c child_os \<Rightarrow> 'c local_pty_host \<Rightarrow> ustring \<Rightarrow> ('c local_pty_host, unit) host_result" where
  "pty_check os h pane_id =
     unless_exited os h pane_id (\<lambda>h1. pty_process_then h1 pane_id (\<lambda>_. (h1, Inr ())))"

definition pty_write :: "'c child_os \<Rightarrow> 'c local_pty_host \<Rightarrow> ustring \<Rightarrow> byte list \<Rightarrow> ('c local_pty_host, unit) host_result" where
  "pty_write os h pane_id bytes =
     unless_exited os h pane_id (\<lambda>h1.
       pty_process_then h1 pane_id (\<lambda>p.
         case co_write os (lp_child p) bytes of
           (c, Inr _) \<Rightarrow> (h1(pane_id \<mapsto> p\<lparr>lp_child := c\<rparr>), Inr ())
         | (c, Inl (closed, e)) \<Rightarrow>
             (let h2 = h1(pane_id \<mapsto> p\<lparr>lp_child := c\<rparr>) in
              if closed then
                (case reap_exited_process os h2 pane_id of
                   (h3, Inl e1) \<Rightarrow> (h3, Inl e1)
                 | (h3, Inr exited) \<Rightarrow>
                     (h3, Inl (if exited then NotRunning pane_id else host_io_error pane_id ''write_input'' e)))
              else (h2, Inl (host_io_error pane_id ''write_input'' e)))))"

definition pty_resize :: "'c child_os \<Rightarrow> 'c local_pty_host \<Rightarrow> ustring \<Rightarrow> u32 \<Rightarrow> u32 \<Rightarrow> ('c local_pty_host, unit) host_result" where
  \<comment> \<open>\<open>as u16\<close> cuts the size to its low 16 bits\<close>
  "pty_resize os h pane_id cols rows =
     unless_exited os h pane_id (\<lambda>h1.
       pty_process_then h1 pane_id (\<lambda>p.
         case co_resize os (lp_child p) (rows mod 65536) (cols mod 65536) of
           (c, Inr _) \<Rightarrow> (h1(pane_id \<mapsto> p\<lparr>lp_child := c\<rparr>), Inr ())
         | (c, Inl e) \<Rightarrow> (h1(pane_id \<mapsto> p\<lparr>lp_child := c\<rparr>), Inl (host_io_error pane_id ''resize_pane'' e))))"

definition stop_child :: "'c child_os \<Rightarrow> ustring \<Rightarrow> 'c \<Rightarrow> (host_error, unit) res" where
  \<comment> \<open>killing and waiting; the child is dropped afterwards\<close>
  "stop_child os pane_id c =
     (case co_try_wait os c of
        (_, Inl e) \<Rightarrow> Inl (host_io_error pane_id ''stop'' e)
      | (c1, Inr exited) \<Rightarrow>
          bind_res
            (if exited then Inr c1
             else (case co_kill os c1 of
                (c2, Inr _) \<Rightarrow> Inr c2
              | (c2, Inl (invalid, e)) \<Rightarrow>
                  if invalid then
                    (case co_try_wait os c2 of
                       (_, Inl e1) \<Rightarrow> Inl (host_io_error pane_id ''stop'' e1)
                     | (c3, Inr gone) \<Rightarrow> if gone then Inr c3 else Inl (host_io_error pane_id ''stop'' e))
                  else Inl (host_io_error pane_id ''stop'' e)))
            (\<lambda>c4. case co_wait os c4 of (_, Inl e) \<Rightarrow> Inl (host_io_error pane_id ''stop'' e) | (_, Inr _) \<Rightarrow> Inr ()))"

definition pty_stop :: "'c child_os \<Rightarrow> 'c local_pty_host \<Rightarrow> ustring \<Rightarrow> ('c local_pty_host, pane_process) host_result" where
  \<comment> \<open>the process is taken out of the table first, whatever happens then\<close>
  "pty_stop os h pane_id =
     (case h pane_id of
        None \<Rightarrow> (h, Inl (NotRunning pane_id))
      | Some p \<Rightarrow>
          (h(pane_id := None),
           if pp_status (lp_process p) = StatusExited then Inr (lp_process p)
           else bind_res (stop_child os pane_id (lp_child p))
             (\<lambda>_. Inr ((lp_process p)\<lparr>pp_status := StatusExited\<rparr>))))"

definition pty_ops ::
  "'c child_os \<Rightarrow> bool \<Rightarrow> ustring option \<Rightarrow> (host_kind \<Rightarrow> ustring) \<Rightarrow> 'c local_pty_host process_host" where
  "pty_ops os macos runtime_var debug =
     \<lparr>ph_start = pty_start os macos runtime_var, ph_check = pty_check os, ph_write = pty_write os,
      ph_resize = pty_resize os, ph_stop = pty_stop os, ph_try_read = pty_try_read os, ph_kind_debug = debug\<rparr>"

definition pump_chunk :: "'c local_pty_host \<Rightarrow> ustring \<Rightarrow> byte list \<Rightarrow> 'c local_pty_host" where
  \<comment> \<open>what the pump thread does with a chunk it has read\<close>
  "pump_chunk h pane_id chunk = (case h pane_id of None \<Rightarrow> h | Some p \<Rightarrow> h(pane_id \<mapsto> p\<lparr>lp_output := lp_output p @ [chunk]\<rparr>))"

definition pty_pending :: "'c local_pty_host \<Rightarrow> ustring \<Rightarrow> byte list" where
  "pty_pending h pane_id = (case h pane_id of None \<Rightarrow> [] | Some p \<Rightarrow> lp_pending_output p @ concat (lp_output p))"

lemma pump_chunk_pending:
  "h k \<noteq> None \<Longrightarrow> pty_pending (pump_chunk h k chunk) j = pty_pending h j @ (if j = k then chunk else [])"
  by (auto simp: pump_chunk_def pty_pending_def split: option.split)

lemma pty_exited_queue [simp]:
  "lp_output (pty_exited p) = lp_output p" "lp_pending_output (pty_exited p) = lp_pending_output p"
  "lp_child (pty_exited p) = lp_child p"
  by (simp_all add: pty_exited_def)

lemma pty_try_read_cases:
  assumes "pty_try_read os h k n = (h', Inr bs)"
  shows "\<exists>q. h' = h(k \<mapsto> q) \<and> h k \<noteq> None \<and> bs = take n (pty_pending h k) \<and> lp_output q = [] \<and>
    lp_pending_output q = drop n (pty_pending h k)"
proof -
  obtain p where p: "h k = Some p" using assms by (cases "h k") (simp_all add: pty_try_read_def)
  let ?pending = "lp_pending_output p @ concat (lp_output p)"
  obtain p1 bs1 where d: "drain_pumped_output p n = (p1, bs1)" by (cases "drain_pumped_output p n")
  have q: "lp_output p1 = []" "lp_pending_output p1 = drop n ?pending" "bs1 = take n ?pending"
    using d by (auto simp: drain_pumped_output_def Let_def min_def)
  have all: "pty_pending h k = ?pending" by (simp add: pty_pending_def p)
  obtain c r where w: "co_try_wait os (lp_child p1) = (c, r)" by (cases "co_try_wait os (lp_child p1)")
  have "\<exists>q. h' = h(k \<mapsto> q) \<and> lp_output q = [] \<and> lp_pending_output q = lp_pending_output p1 \<and> bs = bs1"
    using assms d q(1)
    by (cases "bs1 = []"; cases "pty_running p1"; cases r)
      (auto simp: pty_try_read_def p w intro: exI [of _ p1] split: if_splits)
  with q show ?thesis by (auto simp: all p)
qed

interpretation pty_output: output_source "pty_try_read os" pty_pending
proof
  fix o1 o2 :: "'a local_pty_host" and k n bs
  assume "pty_try_read os o1 k n = (o2, Inr bs)"
  then obtain q where q: "o2 = o1(k \<mapsto> q)" "bs = take n (pty_pending o1 k)" "lp_output q = []"
    "lp_pending_output q = drop n (pty_pending o1 k)" using pty_try_read_cases by blast
  then show "pty_pending o1 k = bs @ pty_pending o2 k \<and> length bs \<le> n \<and> (\<forall>j. j \<noteq> k \<longrightarrow> pty_pending o2 j = pty_pending o1 j)"
    by (simp add: pty_pending_def)
next
  fix o1 o2 :: "'a local_pty_host" and k and n :: usize
  assume "pty_try_read os o1 k n = (o2, Inr [])" "0 < n"
  then show "pty_pending o1 k = []" using pty_try_read_cases [of os o1 k n o2 "[]"] by (auto simp: take_eq_Nil)
qed

subsection \<open>A process on pipes\<close>

record 'c local_process =
  lc_process :: pane_process
  lc_child :: 'c
  lc_stdin :: bool

type_synonym 'c local_process_host = "ustring \<rightharpoonup> 'c local_process"

definition lc_running :: "'c local_process \<Rightarrow> bool" where
  "lc_running p \<longleftrightarrow> pp_status (lc_process p) = StatusRunning"

definition pipe_start ::
  "'c child_os \<Rightarrow> bool \<Rightarrow> ustring option \<Rightarrow> 'c local_process_host \<Rightarrow> ustring \<Rightarrow> host_spec \<Rightarrow>
     ('c local_process_host, pane_process) host_result" where
  \<comment> \<open>the operating system gives the child its standard input, which was asked for as a pipe\<close>
  "pipe_start os macos runtime_var h pane_id spec =
     (if option_is_some_and lc_running (h pane_id) then (h, Inl (AlreadyRunning pane_id))
      else case spawn_command_for_host macos runtime_var spec False of
          Inl e \<Rightarrow> (h, Inl e)
        | Inr cmd \<Rightarrow>
            (case co_spawn os cmd of
               Inl (_, e) \<Rightarrow> (h, Inl (host_io_error pane_id ''start'' e))
             | Inr child \<Rightarrow>
                 (let process = \<lparr>pp_pane_id = pane_id, pp_host_id = hs_id spec, pp_status = StatusRunning\<rparr>
                  in (h(pane_id \<mapsto> \<lparr>lc_process = process, lc_child = child, lc_stdin = True\<rparr>), Inr process))))"

definition pipe_process_then ::
  "'c local_process_host \<Rightarrow> ustring \<Rightarrow> ('c local_process \<Rightarrow> ('c local_process_host, 'a) host_result) \<Rightarrow>
     ('c local_process_host, 'a) host_result" where
  "pipe_process_then h pane_id f =
     (case h pane_id of
        None \<Rightarrow> (h, Inl (NotRunning pane_id))
      | Some p \<Rightarrow> if lc_running p then f p else (h, Inl (NotRunning pane_id)))"

definition pipe_reap_exited_process ::
  "'c child_os \<Rightarrow> 'c local_process_host \<Rightarrow> ustring \<Rightarrow> ('c local_process_host, bool) host_result" where
  "pipe_reap_exited_process os h pane_id =
     (case h pane_id of
        None \<Rightarrow> (h, Inl (NotRunning pane_id))
      | Some p \<Rightarrow>
          if \<not> lc_running p then (h, Inr True)
          else (case co_try_wait os (lc_child p) of
             (c, Inl e) \<Rightarrow> (h(pane_id \<mapsto> p\<lparr>lc_child := c\<rparr>), Inl (host_io_error pane_id ''try_wait'' e))
           | (c, Inr exited) \<Rightarrow>
               (h(pane_id \<mapsto> (if exited then p\<lparr>lc_child := c, lc_process := (lc_process p)\<lparr>pp_status := StatusExited\<rparr>\<rparr>
                              else p\<lparr>lc_child := c\<rparr>)), Inr exited)))"

definition pipe_write :: "'c child_os \<Rightarrow> 'c local_process_host \<Rightarrow> ustring \<Rightarrow> byte list \<Rightarrow> ('c local_process_host, unit) host_result" where
  "pipe_write os h pane_id bytes =
     pipe_process_then h pane_id (\<lambda>p.
       if \<not> lc_stdin p then (h, Inl (NotRunning pane_id))
       else (case co_write os (lc_child p) bytes of
          (c, Inr _) \<Rightarrow> (h(pane_id \<mapsto> p\<lparr>lc_child := c\<rparr>), Inr ())
        | (c, Inl (_, e)) \<Rightarrow> (h(pane_id \<mapsto> p\<lparr>lc_child := c\<rparr>), Inl (host_io_error pane_id ''write_input'' e))))"

definition pipe_resize :: "'c local_process_host \<Rightarrow> ustring \<Rightarrow> u32 \<Rightarrow> u32 \<Rightarrow> ('c local_process_host, unit) host_result" where
  "pipe_resize h pane_id cols rows =
     pipe_process_then h pane_id (\<lambda>_. (h, Inl (UnsupportedOperation pane_id ''resize_pane'')))"

definition pipe_stop :: "'c child_os \<Rightarrow> 'c local_process_host \<Rightarrow> ustring \<Rightarrow> ('c local_process_host, pane_process) host_result" where
  "pipe_stop os h pane_id =
     (case h pane_id of
        None \<Rightarrow> (h, Inl (NotRunning pane_id))
      | Some p \<Rightarrow>
          (h(pane_id := None),
           if \<not> lc_running p then Inl (NotRunning pane_id)
           else (case co_try_wait os (lc_child p) of
              (_, Inl e) \<Rightarrow> Inl (host_io_error pane_id ''stop'' e)
            | (c1, Inr exited) \<Rightarrow>
                bind_res (if exited then Inr c1
                          else (case co_kill os c1 of (c2, Inr _) \<Rightarrow> Inr c2
                                | (_, Inl (_, e)) \<Rightarrow> Inl (host_io_error pane_id ''stop'' e)))
                  (\<lambda>c3. case co_wait os c3 of
                     (_, Inl e) \<Rightarrow> Inl (host_io_error pane_id ''stop'' e)
                   | (_, Inr _) \<Rightarrow> Inr ((lc_process p)\<lparr>pp_status := StatusExited\<rparr>)))))"

subsection \<open>The panes of one session on a shared host\<close>

definition strip_prefix :: "ustring \<Rightarrow> ustring \<Rightarrow> ustring option" where
  "strip_prefix p s = (if take (length p) s = p then Some (drop (length p) s) else None)"

definition host_pane_id :: "ustring \<Rightarrow> ustring \<Rightarrow> ustring" where
  "host_pane_id session_id pane_id = session_id @ lit '':'' @ pane_id"

definition client_pane_id :: "ustring \<Rightarrow> ustring \<Rightarrow> ustring" where
  "client_pane_id session_id k =
     (case Option.bind (strip_prefix session_id k) (strip_prefix (lit '':'')) of Some s \<Rightarrow> s | None \<Rightarrow> k)"

definition client_process :: "ustring \<Rightarrow> pane_process \<Rightarrow> pane_process" where
  "client_process session_id p = p\<lparr>pp_pane_id := client_pane_id session_id (pp_pane_id p)\<rparr>"

definition client_error_of :: "ustring \<Rightarrow> host_error \<Rightarrow> host_error" where
  \<comment> \<open>\<open>client_error\<close>\<close>
  "client_error_of session_id e =
     (case e of
        UnsupportedHostKind host_id kind \<Rightarrow> e
      | UnsupportedOperation k operation \<Rightarrow> UnsupportedOperation (client_pane_id session_id k) operation
      | AlreadyRunning k \<Rightarrow> AlreadyRunning (client_pane_id session_id k)
      | NotRunning k \<Rightarrow> NotRunning (client_pane_id session_id k)
      | HostIo k operation message \<Rightarrow> HostIo (client_pane_id session_id k) operation message)"

definition scoped :: "ustring \<Rightarrow> ('a \<Rightarrow> 'b) \<Rightarrow> ('h, 'a) host_result \<Rightarrow> ('h, 'b) host_result" where
  "scoped session_id f r =
     (fst r, case snd r of Inl e \<Rightarrow> Inl (client_error_of session_id e) | Inr x \<Rightarrow> Inr (f x))"

definition scoped_ops :: "ustring \<Rightarrow> 'h process_host \<Rightarrow> 'h process_host" where
  "scoped_ops session_id ops =
     \<lparr>ph_start = (\<lambda>h k spec. scoped session_id (client_process session_id) (ph_start ops h (host_pane_id session_id k) spec)),
      ph_check = (\<lambda>h k. scoped session_id id (ph_check ops h (host_pane_id session_id k))),
      ph_write = (\<lambda>h k bs. scoped session_id id (ph_write ops h (host_pane_id session_id k) bs)),
      ph_resize = (\<lambda>h k cols rows. scoped session_id id (ph_resize ops h (host_pane_id session_id k) cols rows)),
      ph_stop = (\<lambda>h k. scoped session_id (client_process session_id) (ph_stop ops h (host_pane_id session_id k))),
      ph_try_read = (\<lambda>h k n. scoped session_id id (ph_try_read ops h (host_pane_id session_id k) n)),
      ph_kind_debug = ph_kind_debug ops\<rparr>"

lemma host_pane_id_inject [simp]: "host_pane_id s j = host_pane_id s k \<longleftrightarrow> j = k"
  by (simp add: host_pane_id_def)

lemma client_of_host_pane_id [simp]: "client_pane_id s (host_pane_id s k) = k"
  by (simp add: client_pane_id_def host_pane_id_def strip_prefix_def)

lemma scoped_iff:
  "scoped s f r = (h, Inr y) \<longleftrightarrow> (\<exists>x. r = (h, Inr x) \<and> y = f x)"
  "scoped s f r = (h, Inl e) \<longleftrightarrow> (\<exists>x. r = (h, Inl x) \<and> e = client_error_of s x)"
  "fst (scoped s f r) = fst r"
  by (cases r; auto simp: scoped_def split: sum.split)+

definition scoped_running :: "ustring \<Rightarrow> ('h \<Rightarrow> ustring set) \<Rightarrow> 'h \<Rightarrow> ustring set" where
  "scoped_running s running h = {k. host_pane_id s k \<in> running h}"

lemma scoped_supervisor:
  assumes "pane_supervisor ops running" shows "pane_supervisor (scoped_ops s ops) (scoped_running s running)"
proof -
  note laws = pane_supervisor.start_ok [OF assms] pane_supervisor.start_fails [OF assms]
    pane_supervisor.stop_ok [OF assms]
  show ?thesis
  proof
    fix h k assume "k \<in> scoped_running s running h"
    then obtain h1 q where "ph_stop ops h (host_pane_id s k) = (h1, Inr q)"
      using pane_supervisor.stop_runs [OF assms, of "host_pane_id s k" h] by (auto simp: scoped_running_def)
    then show "\<exists>h' p. ph_stop (scoped_ops s ops) h k = (h', Inr p)" by (auto simp: scoped_ops_def scoped_iff)
  qed (auto simp: scoped_ops_def scoped_iff scoped_running_def pane_supervisor.others [OF assms] dest: laws)
qed

lemma scoped_output:
  assumes "output_source (ph_try_read ops) pending"
  shows "output_source (ph_try_read (scoped_ops s ops)) (\<lambda>h k. pending h (host_pane_id s k))"
  using output_source.read_front [OF assms] output_source.read_progress [OF assms]
  by unfold_locales (auto simp: scoped_ops_def scoped_iff)

lemma scoped_ids_apart:
  assumes "58 \<notin> set s" and "58 \<notin> set t" and "s \<noteq> t" shows "host_pane_id s j \<noteq> host_pane_id t k"
proof
  assume "host_pane_id s j = host_pane_id t k"
  then have "split_on 58 (host_pane_id s j) = split_on 58 (host_pane_id t k)" by simp
  then have "hd (split_on 58 (s @ 58 # j)) = hd (split_on 58 (t @ 58 # k))" by (simp add: host_pane_id_def lit_def)
  with assms show False by (simp add: split_on_append_sep)
qed

lemma scoped_ids_collide: "host_pane_id (lit ''s'') (lit ''t:x'') = host_pane_id (lit ''s:t'') (lit ''x'')"
  by (simp add: host_pane_id_def lit_def)

lemma resize_cuts_size:
  assumes "h k = Some p" and "pty_running p" and "co_try_wait os (lp_child p) = (c, Inr False)"
  shows "pty_resize os h k (65536 + cols) (65536 + rows) = pty_resize os h k cols rows"
  using assms by (simp add: pty_resize_def unless_exited_def reap_exited_process_def pty_process_then_def pty_running_def)

interpretation scoped_planning: pane_supervisor "scoped_ops s (planning_ops debug)" "scoped_running s planning_running"
  by (rule scoped_supervisor, rule planning.pane_supervisor_axioms)

interpretation scoped_pty: output_source "ph_try_read (scoped_ops s (pty_ops os macos runtime_var debug))"
  "\<lambda>h k. pty_pending h (host_pane_id s k)"
  by (rule scoped_output) (simp add: pty_ops_def pty_output.output_source_axioms)

end
