(* ===== verification/Serving.thy ===== *)
theory Serving
  imports Output_Pump Local_Hosts
begin

text \<open>
  Serving one connection (\<open>crates/nmux-cli/src/local.rs\<close>): the error frames, the frames of an attach, a
  client that is attached without following the session live, the health probe, and the dispatch on the first
  frame. What is written to the socket is a list of envelopes; what is read from it a list of \<open>frame_read\<close>. A
  write is taken to succeed: the source ends the handler at the first one that fails.

  The lemmas: the frames written to a client that cannot write are numbered without a gap, such a client changes
  nothing but the active tab, the errors of a client that can write all carry the number four, and a health
  probe is answered with one frame on every host whose output can be pumped.
\<close>

datatype serve_error =
  ServeRequest request_error
| ServeFrame client_error
| ServeRead frame_read
| ServeUnexpected
| ServeHost host_error
| ServeSessionShutdown

record ('e, 'h) server =
  sv_session :: session
  sv_engines :: "'e pane_engines"
  sv_host :: "'h option"

subsection \<open>Output of the processes on pseudo terminals\<close>

interpretation pty_pump: pump_source "pty_ops os macos runtime_var debug" pty_pending
  by (intro pump_source.intro) (simp add: pty_ops_def pty_output.output_source_axioms)

interpretation scoped_pump: pump_source "scoped_ops s (pty_ops os macos runtime_var debug)"
  "\<lambda>h k. pty_pending h (host_pane_id s k)"
  by (intro pump_source.intro scoped_pty.output_source_axioms)

subsection \<open>Error frames\<close>

definition protocol_error :: "session \<Rightarrow> u64 \<Rightarrow> error_code \<Rightarrow> ustring \<Rightarrow> ustring option \<Rightarrow> u64 \<Rightarrow> envelope" where
  \<comment> \<open>\<open>write_protocol_error\<close>\<close>
  "protocol_error s seq code message pane_id input_seq =
     error_frame_with_context s local_client seq code message False pane_id input_seq"

definition retryable_error :: "session \<Rightarrow> u64 \<Rightarrow> error_code \<Rightarrow> ustring \<Rightarrow> ustring option \<Rightarrow> u64 \<Rightarrow> envelope" where
  \<comment> \<open>\<open>write_protocol_error_with_retryability\<close> where it is called with \<open>Retryable\<close>\<close>
  "retryable_error s seq code message pane_id input_seq =
     error_frame_with_context s local_client seq code message True pane_id input_seq"

definition pane_not_found_error_with_input_seq :: "session \<Rightarrow> u64 \<Rightarrow> ustring \<Rightarrow> u64 \<Rightarrow> envelope" where
  "pane_not_found_error_with_input_seq s seq pane_id input_seq =
     protocol_error s seq ErrPaneNotFound (lit ''pane not found: '' @ pane_id) (Some pane_id) input_seq"

definition pane_not_found_error :: "session \<Rightarrow> u64 \<Rightarrow> ustring \<Rightarrow> envelope" where
  "pane_not_found_error s seq pane_id = pane_not_found_error_with_input_seq s seq pane_id 0"

definition active_pane_not_found_error :: "session \<Rightarrow> u64 \<Rightarrow> envelope" where
  "active_pane_not_found_error s seq =
     (case find_tab s (ss_active_tab_id s) of
        None \<Rightarrow> protocol_error s seq ErrPaneNotFound (lit ''active tab not found: '' @ ss_active_tab_id s) None 0
      | Some t \<Rightarrow>
          protocol_error s seq ErrPaneNotFound (lit ''active pane not found: '' @ tb_active_pane_id t)
            (Some (tb_active_pane_id t)) 0)"

definition target_not_found_error :: "session \<Rightarrow> u64 \<Rightarrow> ustring option \<Rightarrow> envelope" where
  \<comment> \<open>\<open>write_attach_target_not_found_error\<close> and \<open>write_presence_target_not_found_error\<close>\<close>
  "target_not_found_error s seq focused =
     (case focused of Some pane_id \<Rightarrow> pane_not_found_error s seq pane_id | None \<Rightarrow> active_pane_not_found_error s seq)"

definition attach_session_not_found_error :: "session \<Rightarrow> u64 \<Rightarrow> ustring \<Rightarrow> envelope" where
  "attach_session_not_found_error s seq target =
     protocol_error s seq ErrSessionNotFound (lit ''session not found: '' @ target) None 0"

definition host_output_error :: "'h process_host \<Rightarrow> session \<Rightarrow> u64 \<Rightarrow> ustring \<Rightarrow> host_error \<Rightarrow> envelope" where
  "host_output_error ops s seq pane_id e =
     protocol_error s seq ErrUnknown (lit ''output polling failed: '' @ host_error_text (ph_kind_debug ops) e) (Some pane_id) 0"

definition scrollback_fetch_error_code :: "session \<Rightarrow> scrollback_fetch_summary \<Rightarrow> error_code option" where
  "scrollback_fetch_error_code s f =
     Option.bind (scrollback_version s (sf_pane_id f)) (\<lambda>current.
       if sf_known_version f \<noteq> 0 \<and> sf_known_version f \<noteq> current then Some ErrStaleVersion else None)"

definition scrollback_fetch_error :: "session \<Rightarrow> u64 \<Rightarrow> scrollback_fetch_summary \<Rightarrow> error_code \<Rightarrow> envelope" where
  "scrollback_fetch_error s seq f code =
     (case scrollback_version s (sf_pane_id f) of
        None \<Rightarrow> pane_not_found_error s seq (sf_pane_id f)
      | Some current \<Rightarrow>
          protocol_error s seq code
            (lit ''stale scrollback version for '' @ sf_pane_id f @ lit '': client='' @ dec_str (sf_known_version f) @
             lit '' server='' @ dec_str current) (Some (sf_pane_id f)) 0)"

fun rejection_message :: "input_rejection \<Rightarrow> ustring" where
  "rejection_message FocusReportingDisabled = lit ''input rejected: focus reporting is disabled''"
| "rejection_message MouseTrackingDisabled = lit ''input rejected: mouse tracking is disabled''"
| "rejection_message MouseCoordinatesOutOfBounds = lit ''input rejected: mouse coordinates are outside pane bounds''"
| "rejection_message (MouseActionRejected mode) =
     (case mode of
        TrackX10 \<Rightarrow> lit ''input rejected: X10 mouse tracking accepts press events only''
      | TrackNormal \<Rightarrow> lit ''input rejected: normal mouse tracking accepts press and release events only''
      | TrackButton \<Rightarrow> lit ''input rejected: button mouse tracking requires a pressed button for motion''
      | TrackNone \<Rightarrow> lit ''input rejected: mouse tracking is disabled''
      | _ \<Rightarrow> lit ''input rejected: mouse action is not accepted by current tracking mode'')"

definition forwarding_error_text :: "input_summary \<Rightarrow> client_error \<Rightarrow> ustring" where
  \<comment> \<open>the text of the errors \<open>forwarded_bytes\<close> gives\<close>
  "forwarding_error_text i e =
     (let key = (case ip_key_name (is_parts i) of Some k \<Rightarrow> k | None \<Rightarrow> []) in
      case e of
        UnsupportedModifiedKeyName \<Rightarrow> lit ''terminal engine cannot encode modified key name: '' @ key
      | UnsupportedKeyName \<Rightarrow> lit ''unsupported key name: '' @ key
      | MousePaneMissing \<Rightarrow> lit ''mouse input pane is missing''
      | MouseNotEncodable \<Rightarrow> lit ''terminal engine cannot encode mouse input''
      | _ \<Rightarrow> lit ''paste input contains a bracketed paste terminator'')"

subsection \<open>The frames of an attach\<close>

definition tab_target :: "session \<Rightarrow> ustring \<Rightarrow> ustring option" where
  \<comment> \<open>the active pane of the tab with this id, if it has a surface\<close>
  "tab_target s target_id =
     Option.bind (find_tab s target_id) (\<lambda>t.
       map_option (\<lambda>_. tb_active_pane_id t) (surface_version s (tb_active_pane_id t)))"

definition presence_target_pane_id :: "session \<Rightarrow> ustring option \<Rightarrow> ustring option" where
  "presence_target_pane_id s focused =
     (case focused of
        Some target_id \<Rightarrow> if surface_version s target_id \<noteq> None then Some target_id else tab_target s target_id
      | None \<Rightarrow> active_pane_id s)"

definition attach_target_pane_id :: "session \<Rightarrow> attach_request \<Rightarrow> session \<times> ustring option" where
  "attach_target_pane_id s request =
     (case aq_focused_pane_id request of
        Some target_id \<Rightarrow>
          if surface_version s target_id \<noteq> None then (s, Some target_id)
          else (case tab_target s target_id of
             None \<Rightarrow> (s, None)
           | Some pane_id \<Rightarrow>
               (if ss_active_tab_id s \<noteq> target_id then fst (switch_tab s target_id) else s, Some pane_id))
      | None \<Rightarrow> (s, active_pane_id s))"

definition attach_target_session_mismatch :: "session \<Rightarrow> ustring option \<Rightarrow> ustring option" where
  "attach_target_session_mismatch s target =
     (case target of Some t \<Rightarrow> if t \<noteq> ss_id s then Some t else None | None \<Rightarrow> None)"

definition request_actor_for_pane :: "attach_request \<Rightarrow> ustring \<Rightarrow> session_actor_info" where
  "request_actor_for_pane request pane_id =
     (let actor = request_actor request in
      if ac_focused_pane_id actor = None then actor\<lparr>ac_focused_pane_id := Some pane_id\<rparr> else actor)"

definition write_attach_handshake ::
  "session \<Rightarrow> attach_request \<Rightarrow> u64 \<Rightarrow> session \<times> envelope list \<times> u64 \<times> (ustring \<times> session_actor_info) option" where
  "write_attach_handshake s0 request seq =
     (case attach_target_pane_id s0 request of
        (s, None) \<Rightarrow> (s, [target_not_found_error s seq (aq_focused_pane_id request)], seq + 1, None)
      | (s, Some pane_id) \<Rightarrow>
          (let actor = request_actor_for_pane request pane_id;
               response = request_surface_response request s pane_id;
               frames =
                 [workspace_tree_frame s local_client seq,
                  presence_update_frame s local_client (seq + 1) actor,
                  attach_status_frame s local_client (seq + 2) pane_id (Surface_Delivery.attach_surface_state response)]
           in case Option.bind response (\<lambda>r. surface_response_frame s pane_id r (seq + 3)) of
                None \<Rightarrow> (s, frames, seq + 3, Some (pane_id, actor))
              | Some f \<Rightarrow> (s, frames @ [f], seq + 4, Some (pane_id, actor))))"

definition write_live_attach_initial :: "session \<Rightarrow> attach_request \<Rightarrow> ustring \<Rightarrow> u64 \<Rightarrow> envelope list \<times> u64" where
  "write_live_attach_initial s request pane_id seq =
     (let actor = request_actor_for_pane request pane_id;
          response = request_surface_response request s pane_id;
          surface_frame = Option.bind response (\<lambda>r. surface_response_frame s pane_id r (seq + 3));
          surface_state = (if surface_frame \<noteq> None then Surface_Delivery.attach_surface_state response else AttachCurrent);
          frames =
            [workspace_tree_frame s local_client seq,
             presence_update_frame s local_client (seq + 1) actor,
             attach_status_frame s local_client (seq + 2) pane_id surface_state]
      in case surface_frame of None \<Rightarrow> (frames, seq + 3) | Some f \<Rightarrow> (frames @ [f], seq + 4))"

subsection \<open>A client that is attached once\<close>

datatype attached_client_frame = AttachedScrollback scrollback_fetch_summary | AttachedInput input_summary
datatype attached_client_read = AttachedFrame attached_client_frame | AttachedNoFrame | AttachedClosed

definition attached_client_frame_of :: "envelope \<Rightarrow> (serve_error, attached_client_read) res" where
  \<comment> \<open>the match on the body in \<open>read_attached_client_frame_from_stream\<close>\<close>
  "attached_client_frame_of e =
     (case en_body e of
        BodyInput _ \<Rightarrow>
          (case input_summary_from_frame e of Inl x \<Rightarrow> Inl (ServeFrame x) | Inr i \<Rightarrow> Inr (AttachedFrame (AttachedInput i)))
      | BodyFetch _ \<Rightarrow>
          (case scrollback_fetch_from_frame e of
             Inl x \<Rightarrow> Inl (ServeFrame x) | Inr f \<Rightarrow> Inr (AttachedFrame (AttachedScrollback f)))
      | _ \<Rightarrow> Inl ServeUnexpected)"

fun read_attached_client_frame :: "bool \<Rightarrow> frame_read \<Rightarrow> (serve_error, attached_client_read) res" where
  \<comment> \<open>the first argument: the stream was polled with a timeout, where an empty stream is no frame\<close>
  "read_attached_client_frame polled (FrameRead e) = attached_client_frame_of e"
| "read_attached_client_frame polled ReadEof = Inr AttachedClosed"
| "read_attached_client_frame polled ReadReset = Inr AttachedClosed"
| "read_attached_client_frame True ReadTimedOut = Inr AttachedNoFrame"
| "read_attached_client_frame False ReadTimedOut = Inl (ServeRead ReadTimedOut)"
| "read_attached_client_frame polled ReadFailed = Inl (ServeRead ReadFailed)"

definition process_one_shot_input ::
  "'e terminal_engine \<Rightarrow> 'h process_host \<Rightarrow> session \<times> 'e pane_engines \<times> 'h \<Rightarrow> input_summary \<Rightarrow>
     ((session \<times> 'e pane_engines \<times> 'h) \<times> envelope list \<times> bool) option" where
  \<comment> \<open>with the frames written and whether the connection goes on\<close>
  "process_one_shot_input eops ops st i =
     (case st of (s, engines, h) \<Rightarrow>
        if surface_version s (is_pane_id i) = None then
          Some (st, [pane_not_found_error_with_input_seq s 4 (is_pane_id i) (is_input_seq i)], False)
        else case forwarding_rejection i s of
          Some rejection \<Rightarrow>
            Some (st, [protocol_error s 4 ErrPermissionDenied (rejection_message rejection) (Some (is_pane_id i))
                         (is_input_seq i)], False)
        | None \<Rightarrow>
            (case forwarded_bytes eops i s engines of
               (engines1, Inl e) \<Rightarrow>
                 Some ((s, engines1, h),
                       [protocol_error s 4 ErrUnknown (forwarding_error_text i e) (Some (is_pane_id i)) (is_input_seq i)],
                       False)
             | (engines1, Inr bytes) \<Rightarrow>
                 (case ph_write ops h (is_pane_id i) bytes of
                    (h1, Inl e) \<Rightarrow>
                      if input_write_target_exited e (is_pane_id i) then Some ((s, engines1, h1), [], False)
                      else Some ((s, engines1, h1),
                             [protocol_error s 4 ErrUnknown
                                (lit ''input forwarding failed: '' @ host_error_text (ph_kind_debug ops) e)
                                (Some (is_pane_id i)) (is_input_seq i)], False)
                  | (h1, Inr _) \<Rightarrow>
                      Option.bind (poll_pane_output_with_host_and_engines eops ops (s, engines1, h1) (is_pane_id i))
                        (\<lambda>(st2, r).
                           case r of
                             Inl e \<Rightarrow> Some (st2, [host_output_error ops (fst st2) 4 (is_pane_id i) e], False)
                           | Inr _ \<Rightarrow> Some (st2, [], True)))))"

fun attached_loop ::
  "'e terminal_engine \<Rightarrow> 'h process_host \<Rightarrow> session_actor_info \<Rightarrow> ('e, 'h) server \<Rightarrow> u64 \<Rightarrow> bool \<Rightarrow> frame_read list \<Rightarrow>
     (('e, 'h) server \<times> envelope list \<times> (serve_error, unit) res) option" where
  \<comment> \<open>the loop of \<open>serve_attached_client\<close>; a stream that has nothing more is closed\<close>
  "attached_loop eops ops actor sv seq wait [] = Some (sv, [], Inr ())"
| "attached_loop eops ops actor sv seq wait (r # rs) =
     (case read_attached_client_frame (\<not> wait) r of
        Inl e \<Rightarrow> Some (sv, [], Inl e)
      | Inr AttachedNoFrame \<Rightarrow> Some (sv, [], Inr ())
      | Inr AttachedClosed \<Rightarrow> Some (sv, [], Inr ())
      | Inr (AttachedFrame (AttachedInput i)) \<Rightarrow>
          if \<not> input_allowed actor then
            Some (sv, [protocol_error (sv_session sv) seq ErrPermissionDenied
                         (lit ''input rejected: attach is read-only'') (Some (is_pane_id i)) (is_input_seq i)], Inr ())
          else (case sv_host sv of
             None \<Rightarrow> attached_loop eops ops actor sv seq True rs
           | Some h \<Rightarrow>
               (case process_one_shot_input eops ops (sv_session sv, sv_engines sv, h) i of
                  None \<Rightarrow> None
                | Some ((s1, engines1, h1), frames, goes_on) \<Rightarrow>
                    (let sv1 = sv\<lparr>sv_session := s1, sv_engines := engines1, sv_host := Some h1\<rparr> in
                     if \<not> goes_on then Some (sv1, frames, Inr ())
                     else (case attached_loop eops ops actor sv1 seq True rs of
                        None \<Rightarrow> None | Some (sv2, more_frames, x) \<Rightarrow> Some (sv2, frames @ more_frames, x)))))
      | Inr (AttachedFrame (AttachedScrollback f)) \<Rightarrow>
          (case scrollback_fetch_error_code (sv_session sv) f of
             Some code \<Rightarrow>
               (case attached_loop eops ops actor sv (seq + 1) True rs of
                  None \<Rightarrow> None
                | Some (sv2, more_frames, x) \<Rightarrow>
                    Some (sv2, scrollback_fetch_error (sv_session sv) seq f code # more_frames, x))
           | None \<Rightarrow>
               (case scrollback_chunk_frame_for_pane (sv_session sv) local_client seq (sf_pane_id f) (sf_start_line f)
                       (sf_line_count f) of
                  Some chunk \<Rightarrow>
                    (case attached_loop eops ops actor sv (seq + 1) False rs of
                       None \<Rightarrow> None | Some (sv2, more_frames, x) \<Rightarrow> Some (sv2, chunk # more_frames, x))
                | None \<Rightarrow> Some (sv, [pane_not_found_error (sv_session sv) seq (sf_pane_id f)], Inr ()))))"

definition serve_attached_client ::
  "'e terminal_engine \<Rightarrow> 'h process_host \<Rightarrow> attach_request \<Rightarrow> ('e, 'h) server \<Rightarrow> frame_read list \<Rightarrow>
     (('e, 'h) server \<times> envelope list \<times> (serve_error, unit) res) option" where
  "serve_attached_client eops ops request sv reads =
     (case write_attach_handshake (sv_session sv) request 1 of
        (s, frames, _, None) \<Rightarrow> Some (sv\<lparr>sv_session := s\<rparr>, frames, Inr ())
      | (s, frames, seq, Some (_, actor)) \<Rightarrow>
          (case attached_loop eops ops actor (sv\<lparr>sv_session := s\<rparr>) seq True reads of
             None \<Rightarrow> None | Some (sv1, more_frames, x) \<Rightarrow> Some (sv1, frames @ more_frames, x)))"

subsection \<open>The health probe\<close>

definition heartbeat :: "session \<Rightarrow> ustring \<Rightarrow> presence_summary" where
  "heartbeat s pane_id =
     \<lparr>pr_actor_id = lit ''nmuxd'', pr_user_id = ss_id s, pr_display_name = lit ''nmuxd'', pr_mode = AttachReadOnly,
      pr_kind = PresenceHeartbeat, pr_focused_pane_id = Some pane_id\<rparr>"

definition health_check :: "'h process_host \<Rightarrow> session \<Rightarrow> 'h \<Rightarrow> ustring \<Rightarrow> 'h \<times> envelope" where
  \<comment> \<open>the tail of both variants: the process must run\<close>
  "health_check ops s h pane_id =
     (case ph_check ops h pane_id of
        (h1, Inl e) \<Rightarrow> (h1, retryable_error s 1 ErrUnknown (host_error_text (ph_kind_debug ops) e) (Some pane_id) 0)
      | (h1, Inr _) \<Rightarrow> (h1, presence_frame (heartbeat s pane_id) (ss_id s) local_client 1))"

definition serve_health_probe ::
  "'e terminal_engine \<Rightarrow> 'h process_host \<Rightarrow> (nat \<Rightarrow> nat) \<Rightarrow> presence_summary \<Rightarrow> ('e, 'h) server \<Rightarrow>
     (('e, 'h) server \<times> envelope) option" where
  "serve_health_probe eops ops clock probe sv =
     (case presence_target_pane_id (sv_session sv) (pr_focused_pane_id probe) of
        None \<Rightarrow> Some (sv, target_not_found_error (sv_session sv) 1 (pr_focused_pane_id probe))
      | Some pane_id \<Rightarrow>
          (case sv_host sv of
             None \<Rightarrow> Some (sv, presence_frame (heartbeat (sv_session sv) pane_id) (ss_id (sv_session sv)) local_client 1)
           | Some h \<Rightarrow>
               Option.bind (poll_panes_output_with_host_until_quiet eops ops clock (leaf_pane_ids (sv_session sv))
                   (sv_session sv, sv_engines sv, h))
                 (\<lambda>((s1, engines1, h1), r).
                    case r of
                      Inl e \<Rightarrow>
                        Some (sv\<lparr>sv_session := s1, sv_engines := engines1, sv_host := Some h1\<rparr>,
                              retryable_error s1 1 ErrUnknown (host_error_text (ph_kind_debug ops) e)
                                (Some (host_error_pane_id e)) 0)
                    | Inr _ \<Rightarrow>
                        (case health_check ops s1 h1 pane_id of
                           (h2, frame) \<Rightarrow>
                             Some (sv\<lparr>sv_session := s1, sv_engines := engines1, sv_host := Some h2\<rparr>, frame)))))"

definition serve_health_probe_with_session_actor ::
  "'e terminal_engine \<Rightarrow> 'h process_host \<Rightarrow> (nat \<Rightarrow> nat) \<Rightarrow> presence_summary \<Rightarrow> 'e session_actor \<times> 'h \<Rightarrow>
     (('e session_actor \<times> 'h) \<times> envelope) option" where
  "serve_health_probe_with_session_actor eops ops clock probe st =
     (let s = actor_session (fst st) in
      case presence_target_pane_id s (pr_focused_pane_id probe) of
        None \<Rightarrow> Some (st, target_not_found_error s 1 (pr_focused_pane_id probe))
      | Some pane_id \<Rightarrow>
          Option.bind (poll_panes_output_with_session_actor_until_quiet eops ops 0 clock (leaf_pane_ids s) st)
            (\<lambda>((a1, h1), r).
               case r of
                 Inl e \<Rightarrow>
                   Some ((a1, h1), retryable_error (actor_session a1) 1 ErrUnknown (host_error_text (ph_kind_debug ops) e)
                                    (Some (host_error_pane_id e)) 0)
               | Inr _ \<Rightarrow>
                   (case health_check ops (actor_session a1) h1 pane_id of
                      (h2, frame) \<Rightarrow> Some ((a1, h2), frame))))"

subsection \<open>One connection\<close>

definition read_initial :: "frame_read list \<Rightarrow> (serve_error, client_initial_frame \<times> frame_read list) res" where
  \<comment> \<open>\<open>read_client_initial_frame(stream)?\<close>\<close>
  "read_initial reads =
     (case read_frame_from reads of
        Inl _ \<Rightarrow> Inl (ServeRead (case reads of [] \<Rightarrow> ReadEof | r # _ \<Rightarrow> r))
      | Inr (e, rest) \<Rightarrow>
          (case read_client_initial_frame e of Inl x \<Rightarrow> Inl (ServeRequest x) | Inr i \<Rightarrow> Inr (i, rest)))"

definition command_end :: "control_command_outcome \<Rightarrow> (serve_error, unit) res" where
  "command_end outcome = (case outcome of OutcomeContinue \<Rightarrow> Inr () | OutcomeShutdown \<Rightarrow> Inl ServeSessionShutdown)"

definition serve_stream_once ::
  "'e terminal_engine \<Rightarrow> 'h process_host \<Rightarrow> (nat \<Rightarrow> nat) \<Rightarrow> ('e, 'h) server \<Rightarrow> frame_read list \<Rightarrow>
     (('e, 'h) server \<times> envelope list \<times> (serve_error, unit) res) option" where
  \<comment> \<open>\<open>serve_stream_impl\<close> with \<open>live = false\<close>; without a host it is \<open>serve_next\<close>\<close>
  "serve_stream_once eops ops clock sv reads =
     (case read_initial reads of
        Inl e \<Rightarrow> Some (sv, [], Inl e)
      | Inr (InitialControl command, _) \<Rightarrow>
          (case serve_control_command ops (sv_session sv) (sv_host sv) command of
             (s1, h1, frame, outcome) \<Rightarrow> Some (sv\<lparr>sv_session := s1, sv_host := h1\<rparr>, [frame], command_end outcome))
      | Inr (InitialHealthProbe probe, _) \<Rightarrow>
          map_option (\<lambda>(sv1, frame). (sv1, [frame], Inr ())) (serve_health_probe eops ops clock probe sv)
      | Inr (InitialAttach target request, rest) \<Rightarrow>
          (case attach_target_session_mismatch (sv_session sv) target of
             Some t \<Rightarrow> Some (sv, [attach_session_not_found_error (sv_session sv) 1 t], Inr ())
           | None \<Rightarrow>
               (case sv_host sv of
                  None \<Rightarrow> serve_attached_client eops ops request sv rest
                | Some h \<Rightarrow>
                    (case attach_target_pane_id (sv_session sv) request of
                       (s1, None) \<Rightarrow>
                         Some (sv\<lparr>sv_session := s1\<rparr>, [target_not_found_error s1 1 (aq_focused_pane_id request)], Inr ())
                     | (s1, Some pane_id) \<Rightarrow>
                         Option.bind (poll_pane_output_with_host_and_engines eops ops (s1, sv_engines sv, h) pane_id)
                           (\<lambda>((s2, engines2, h2), r).
                              let sv2 = sv\<lparr>sv_session := s2, sv_engines := engines2, sv_host := Some h2\<rparr> in
                              case r of
                                Inl e \<Rightarrow> Some (sv2, [host_output_error ops s2 1 pane_id e], Inr ())
                              | Inr _ \<Rightarrow> serve_attached_client eops ops request sv2 rest)))))"

definition serve_stream_once_with_session_actor ::
  "'e terminal_engine \<Rightarrow> 'h process_host \<Rightarrow> (nat \<Rightarrow> nat) \<Rightarrow> 'e session_actor \<times> 'h \<Rightarrow>
     client_initial_frame \<Rightarrow> frame_read list \<Rightarrow>
     (('e session_actor \<times> 'h) \<times> envelope list \<times> (serve_error, unit) res) option" where
  \<comment> \<open>\<open>serve_stream_impl_with_session_actor_initial\<close> with \<open>live = false\<close>; the attach works on the actor's
     session and engines themselves (\<open>session_and_engines_mut\<close>)\<close>
  "serve_stream_once_with_session_actor eops ops clock st initial reads =
     (case st of (a, h) \<Rightarrow>
        (case initial of
           InitialControl command \<Rightarrow>
             (case serve_control_command_with_session_actor eops ops a (Some h) command of
                (a1, h1, frame, outcome) \<Rightarrow>
                  Some ((a1, case h1 of Some h2 \<Rightarrow> h2 | None \<Rightarrow> h), [frame], command_end outcome))
         | InitialHealthProbe probe \<Rightarrow>
             map_option (\<lambda>(st1, frame). (st1, [frame], Inr ()))
               (serve_health_probe_with_session_actor eops ops clock probe (a, h))
         | InitialAttach target request \<Rightarrow>
             (case attach_target_session_mismatch (actor_session a) target of
                Some t \<Rightarrow> Some ((a, h), [attach_session_not_found_error (actor_session a) 1 t], Inr ())
              | None \<Rightarrow>
                  (case attach_target_pane_id (actor_session a) request of
                     (s1, focus) \<Rightarrow>
                       (let a1 = a\<lparr>sa_core := (sa_core a)\<lparr>sc_session := s1\<rparr>\<rparr> in
                        case focus of
                          None \<Rightarrow> Some ((a1, h), [target_not_found_error s1 1 (aq_focused_pane_id request)], Inr ())
                        | Some pane_id \<Rightarrow>
                            Option.bind
                              (poll_panes_output_with_session_actor_once eops ops 0 (a1, h) [pane_id] [pane_id])
                              (\<lambda>((a2, h2), r).
                                 case r of
                                   Inl e \<Rightarrow> Some ((a2, h2), [host_output_error ops (actor_session a2) 1 pane_id e], Inr ())
                                 | Inr _ \<Rightarrow>
                                     map_option
                                       (\<lambda>(sv, frames, x).
                                          ((a2\<lparr>sa_core := (sa_core a2)\<lparr>sc_session := sv_session sv,
                                               sc_engines := sv_engines sv\<rparr>\<rparr>,
                                            case sv_host sv of Some h3 \<Rightarrow> h3 | None \<Rightarrow> h2), frames, x))
                                       (serve_attached_client eops ops request
                                          \<lparr>sv_session = actor_session a2, sv_engines = sc_engines (sa_core a2),
                                           sv_host = Some h2\<rparr> reads)))))))"

subsection \<open>What is written\<close>

definition numbered :: "u64 \<Rightarrow> envelope list \<Rightarrow> bool" where
  \<comment> \<open>the frames carry consecutive numbers from the given one on\<close>
  "numbered seq frames \<longleftrightarrow> map en_seq frames = [seq ..< seq + length frames]"

lemma numbered_simps [simp]:
  "numbered seq []" "numbered seq (f # fs) \<longleftrightarrow> en_seq f = seq \<and> numbered (seq + 1) fs"
  by (auto simp: numbered_def upt_rec [of seq])

lemma numbered_append: "numbered seq (fs @ gs) \<longleftrightarrow> numbered seq fs \<and> numbered (seq + length fs) gs"
  by (induction fs arbitrary: seq) auto

lemma envelope_number [simp]: "en_seq (session_envelope s c seq body) = seq" "en_seq (frame_envelope k c seq body) = seq"
  by (simp_all add: session_envelope_def frame_envelope_def)

lemma error_numbers [simp]:
  "en_seq (protocol_error s seq code message k n) = seq"
  "en_seq (retryable_error s seq code message k n) = seq"
  "en_seq (pane_not_found_error s seq p) = seq"
  "en_seq (active_pane_not_found_error s seq) = seq"
  "en_seq (scrollback_fetch_error s seq f code) = seq"
  "en_seq (target_not_found_error s seq focused) = seq"
  by (auto simp: protocol_error_def retryable_error_def pane_not_found_error_def pane_not_found_error_with_input_seq_def
      active_pane_not_found_error_def scrollback_fetch_error_def target_not_found_error_def error_frame_with_context_def
      split: option.split)

lemma frame_numbers [simp]:
  "en_seq (workspace_tree_frame s c seq) = seq"
  "en_seq (presence_update_frame s c seq actor) = seq"
  "en_seq (attach_status_frame s c seq p state) = seq"
  "en_seq (presence_frame presence session c seq) = seq"
  by (simp_all add: workspace_tree_frame_def presence_update_frame_def attach_status_frame_def presence_frame_def)

lemma surface_frame_number:
  assumes "surface_response_frame s k response seq = Some f" shows "en_seq f = seq"
  using assms
  by (cases response; cases "pane_surface s k")
    (auto simp: surface_response_frame_def pane_surface_frame_for_pane_def pane_surface_patch_frame_for_pane_def Let_def)

lemma scrollback_frame_number:
  assumes "scrollback_chunk_frame_for_pane s c seq k start count = Some f" shows "en_seq f = seq"
  using assms by (auto simp: scrollback_chunk_frame_for_pane_def Let_def split: if_splits option.splits)

lemma handshake_numbered:
  assumes "write_attach_handshake s request seq = (s', frames, seq', x)"
  shows "numbered seq frames \<and> seq' = seq + length frames \<and> s' = fst (attach_target_pane_id s request)"
proof (cases "attach_target_pane_id s request")
  case (Pair s1 target)
  show ?thesis
  proof (cases target)
    case None
    with assms Pair show ?thesis by (auto simp: write_attach_handshake_def)
  next
    case (Some k)
    let ?f = "Option.bind (request_surface_response request s1 k) (\<lambda>r. surface_response_frame s1 k r (seq + 3))"
    show ?thesis
    proof (cases ?f)
      case None
      with assms Pair Some show ?thesis by (auto simp: write_attach_handshake_def Let_def)
    next
      case f: (Some f)
      then have "en_seq f = seq + 3" by (auto simp: bind_eq_Some_conv dest: surface_frame_number)
      with f assms Pair Some show ?thesis by (auto simp: write_attach_handshake_def Let_def)
    qed
  qed
qed

lemma handshake_actor_mode:
  assumes "write_attach_handshake s request seq = (s', frames, seq', Some (k, actor))"
  shows "ac_mode actor = aq_mode request \<and> ac_focused_pane_id actor \<noteq> None"
  using assms
  by (auto simp: write_attach_handshake_def request_actor_for_pane_def request_actor_def Let_def
      split: prod.splits option.splits if_splits)

subsection \<open>A read-only client\<close>

lemma read_only_loop:
  assumes "\<not> input_allowed actor"
  shows "\<exists>frames x. attached_loop eops ops actor sv seq wait rs = Some (sv, frames, x) \<and> numbered seq frames"
proof (induction rs arbitrary: seq wait)
  case (Cons r rs)
  show ?case
  proof (cases "read_attached_client_frame (\<not> wait) r")
    case (Inr y)
    show ?thesis
    proof (cases y)
      case (AttachedFrame a)
      show ?thesis
      proof (cases a)
        case (AttachedScrollback f)
        show ?thesis
        proof (cases "scrollback_fetch_error_code (sv_session sv) f")
          case None
          with Inr AttachedFrame AttachedScrollback Cons.IH [of "seq + 1" False] show ?thesis
            by (auto split: option.split dest: scrollback_frame_number)
        next
          case (Some code)
          with Inr AttachedFrame AttachedScrollback Cons.IH [of "seq + 1" True] show ?thesis by auto
        qed
      next
        case (AttachedInput i)
        with assms Inr AttachedFrame show ?thesis by simp
      qed
    qed (use Inr in simp_all)
  qed simp
qed simp

lemma read_only_attach:
  assumes "aq_mode request \<noteq> AttachReadWrite"
  shows "\<exists>frames x. serve_attached_client eops ops request sv reads =
     Some (sv\<lparr>sv_session := fst (attach_target_pane_id (sv_session sv) request)\<rparr>, frames, x) \<and> numbered 1 frames"
proof (cases "write_attach_handshake (sv_session sv) request 1")
  case (fields s frames seq target)
  note hs = handshake_numbered [OF fields]
  show ?thesis
  proof (cases target)
    case None
    with hs fields show ?thesis by (simp add: serve_attached_client_def)
  next
    case (Some ka)
    obtain k actor where ka: "ka = (k, actor)" by (cases ka)
    with Some fields handshake_actor_mode [of _ _ _ s frames seq k actor] assms
    have "\<not> input_allowed actor" by (auto simp: input_allowed_def)
    from read_only_loop [OF this, of eops ops "sv\<lparr>sv_session := s\<rparr>" seq True reads] hs ka Some fields
    show ?thesis by (auto simp: serve_attached_client_def numbered_append)
  qed
qed

lemma attach_target_session:
  "fst (attach_target_pane_id s request) = s \<or>
   (\<exists>k. aq_focused_pane_id request = Some k \<and> fst (attach_target_pane_id s request) = fst (switch_tab s k))"
  by (auto simp: attach_target_pane_id_def split: option.split)

subsection \<open>A client that may write\<close>

lemma one_shot_errors_have_number_four:
  assumes "process_one_shot_input eops ops st i = Some (st', frames, b)"
  shows "\<forall>f \<in> set frames. en_seq f = 4"
proof -
  have host: "en_seq (host_output_error ops s seq k e) = seq" for s seq k e by (simp add: host_output_error_def)
  have "frames = [] \<or> (\<exists>f. frames = [f] \<and> en_seq f = 4)"
    using assms host
    by (cases st)
      (auto simp: process_one_shot_input_def pane_not_found_error_with_input_seq_def bind_eq_Some_conv Let_def
        split: prod.splits if_split_asm option.split_asm sum.split_asm, metis sumE)
  then show ?thesis by auto
qed

subsection \<open>Every connection is served\<close>

lemma attach_target_commanded: "commanded s (fst (attach_target_pane_id s request))"
  using attach_target_session [of s request] commanded_steps(1,5) by metis

lemma handshake_commanded: "write_attach_handshake s request seq = (s', x) \<Longrightarrow> commanded s s'"
  using handshake_numbered [of s request seq s'] attach_target_commanded [of s request] by (metis prod_cases3)

definition served :: "('s \<Rightarrow> bool) \<Rightarrow> ('s \<times> 'r) option \<Rightarrow> bool" where
  \<comment> \<open>the handler returns, in a good state\<close>
  "served P x \<longleftrightarrow> (\<exists>st r. x = Some (st, r) \<and> P st)"

lemma served_simps [simp]: "served P (Some x) \<longleftrightarrow> P (fst x)" "\<not> served P None"
  by (cases x; simp add: served_def) (simp add: served_def)

lemma servedE: "served P x \<Longrightarrow> (\<And>st r. x = Some (st, r) \<Longrightarrow> P st \<Longrightarrow> thesis) \<Longrightarrow> thesis"
  by (auto simp: served_def)

lemma served_mono: "served P x \<Longrightarrow> (\<And>st. P st \<Longrightarrow> Q st) \<Longrightarrow> served Q x"
  by (auto simp: served_def)

definition clock_passes :: "nat \<Rightarrow> (nat \<Rightarrow> nat) \<Rightarrow> bool" where
  "clock_passes d clock \<longleftrightarrow> (\<exists>N. \<forall>m \<ge> N. clock 0 + d \<le> clock m)"

lemma health_check_number: "health_check ops s h k = (h', f) \<Longrightarrow> en_seq f = 1"
  by (auto simp: health_check_def split: prod.splits sum.splits)

definition tended :: "'e session_actor \<Rightarrow> 'e session_actor \<times> 'h \<Rightarrow> bool" where
  \<comment> \<open>the actor rests and its session is what became of the first one's\<close>
  "tended a st \<longleftrightarrow> rests (fst st) \<and> commanded (actor_session a) (actor_session (fst st))"

lemma tended_refl: "rests a \<Longrightarrow> tended a (a, h)"
  by (simp add: tended_def commanded_steps)

context pump_source
begin

lemma direct_poll_served: "served (\<lambda>st'. commanded (fst st) (fst st')) (poll_pane_output_with_host_and_engines eops ops st k)"
  using direct_poll_ends [of eops st k] direct_poll_commanded [of eops ops st k] by (auto simp: served_def)

lemma direct_poll_keeps:
  assumes "commanded s (fst st)"
  shows "\<exists>st' r. poll_pane_output_with_host_and_engines eops ops st k = Some (st', r) \<and> commanded s (fst st')"
  using direct_poll_ends [of eops st k] direct_poll_commanded [of eops ops st k] commanded_steps(2) [OF assms] by blast

lemma one_shot_served: "served (\<lambda>st'. commanded (fst st) (fst st')) (process_one_shot_input eops ops st i)"
proof -
  obtain s es h where st: "st = (s, es, h)" by (cases st)
  obtain es1 b where fwd: "forwarded_bytes eops i s es = (es1, b)" by (cases "forwarded_bytes eops i s es")
  show ?thesis
  proof (cases "surface_version s (is_pane_id i) = None \<or> forwarding_rejection i s \<noteq> None")
    case True
    then show ?thesis by (auto simp: process_one_shot_input_def st commanded_steps(1))
  next
    case go: False
    show ?thesis
    proof (cases b)
      case (Inl e)
      with go fwd show ?thesis by (auto simp: process_one_shot_input_def st commanded_steps(1))
    next
      case (Inr bytes)
      obtain h1 x where w: "ph_write ops h (is_pane_id i) bytes = (h1, x)" by (cases "ph_write ops h (is_pane_id i) bytes")
      obtain st2 r where "poll_pane_output_with_host_and_engines eops ops (s, es1, h1) (is_pane_id i) = Some (st2, r)"
        "commanded s (fst st2)" using direct_poll_served [of "(s, es1, h1)" eops "is_pane_id i"] by (auto elim: servedE)
      with go fwd Inr w show ?thesis
        by (cases x; cases r) (auto simp: process_one_shot_input_def st commanded_steps(1))
    qed
  qed
qed

lemma loop_served: "served (\<lambda>sv'. commanded (sv_session sv) (sv_session sv')) (attached_loop eops ops actor sv seq wait rs)"
proof (induction rs arbitrary: sv seq wait)
  case (Cons r rs)
  show ?case
  proof (cases "read_attached_client_frame (\<not> wait) r")
    case (Inr y)
    show ?thesis
    proof (cases y)
      case (AttachedFrame a)
      show ?thesis
      proof (cases a)
        case (AttachedScrollback f)
        with Inr AttachedFrame Cons.IH [of sv "seq + 1" True] Cons.IH [of sv "seq + 1" False] show ?thesis
          by (auto simp: commanded_steps(1) split: option.split elim!: servedE)
      next
        case (AttachedInput i)
        show ?thesis
        proof (cases "input_allowed actor \<and> sv_host sv \<noteq> None")
          case False
          with Inr AttachedFrame AttachedInput Cons.IH [of sv seq True] show ?thesis
            by (auto simp: commanded_steps(1) split: option.split)
        next
          case True
          then obtain h where h: "sv_host sv = Some h" by blast
          obtain s1 es1 h1 frames b where
            one: "process_one_shot_input eops ops (sv_session sv, sv_engines sv, h) i = Some ((s1, es1, h1), frames, b)"
              "commanded (sv_session sv) s1"
            using one_shot_served [of "(sv_session sv, sv_engines sv, h)" eops i]
            by (auto simp: served_def)
          let ?sv = "sv\<lparr>sv_session := s1, sv_engines := es1, sv_host := Some h1\<rparr>"
          from Cons.IH [of ?sv seq True] obtain sv2 fs x where
            "attached_loop eops ops actor ?sv seq True rs = Some (sv2, fs, x)" "commanded s1 (sv_session sv2)"
            by (auto simp: served_def)
          with commanded_steps(2) [OF one(2)] True h one Inr AttachedFrame AttachedInput show ?thesis
            by (auto simp: Let_def)
        qed
      qed
    qed (use Inr in \<open>simp_all add: commanded_steps\<close>)
  qed (simp add: commanded_steps)
qed (simp add: commanded_steps)

lemma attach_served:
  "served (\<lambda>sv'. commanded (sv_session sv) (sv_session sv')) (serve_attached_client eops ops request sv reads)"
proof -
  obtain s frames seq target where hs: "write_attach_handshake (sv_session sv) request 1 = (s, frames, seq, target)"
    by (metis prod_cases4)
  note c = handshake_commanded [OF hs]
  show ?thesis
  proof (cases target)
    case None
    with hs c show ?thesis by (simp add: serve_attached_client_def)
  next
    case (Some ka)
    obtain k actor where ka: "ka = (k, actor)" by (cases ka)
    obtain sv1 fs x where "attached_loop eops ops actor (sv\<lparr>sv_session := s\<rparr>) seq True reads = Some (sv1, fs, x)"
      "commanded s (sv_session sv1)"
      using loop_served [of "sv\<lparr>sv_session := s\<rparr>" eops actor seq True reads] by (auto simp: served_def)
    with hs Some ka commanded_steps(2) [OF c] show ?thesis by (simp add: serve_attached_client_def split: prod.split)
  qed
qed

lemma probe_served:
  assumes "clock_passes LIVE_HOST_OUTPUT_POLL_DEADLINE clock"
  shows "\<exists>sv' f. serve_health_probe eops ops clock probe sv = Some (sv', f) \<and> en_seq f = 1 \<and>
    commanded (sv_session sv) (sv_session sv')"
proof (cases "presence_target_pane_id (sv_session sv) (pr_focused_pane_id probe)")
  case None
  then show ?thesis by (simp add: serve_health_probe_def commanded_steps)
next
  case (Some k)
  from assms obtain N where N: "\<And>m. N \<le> m \<Longrightarrow> clock 0 + LIVE_HOST_OUTPUT_POLL_DEADLINE \<le> clock m"
    by (auto simp: clock_passes_def)
  show ?thesis
  proof (cases "sv_host sv")
    case None
    with Some show ?thesis by (simp add: serve_health_probe_def commanded_steps)
  next
    case h: (Some h)
    let ?P = "\<lambda>st. commanded (sv_session sv) (fst st)"
    have "quiet_result ?P False (poll_panes_output_with_host_until_quiet eops ops clock (leaf_pane_ids (sv_session sv))
        (sv_session sv, sv_engines sv, h))"
      unfolding poll_panes_output_with_host_until_quiet_def poll_until_quiet_def
      by (rule until_quiet_ends [OF direct_poll_keeps _ N]) (simp_all add: commanded_steps)
    then obtain s1 es1 h1 r where "poll_panes_output_with_host_until_quiet eops ops clock (leaf_pane_ids (sv_session sv))
        (sv_session sv, sv_engines sv, h) = Some ((s1, es1, h1), r)" "commanded (sv_session sv) s1"
      by (auto simp: quiet_result_def)
    with Some h show ?thesis
      by (cases r; cases "health_check ops s1 h1 k") (auto simp: serve_health_probe_def dest: health_check_number)
  qed
qed

lemma actor_poll_served:
  assumes "tended a st" shows "\<exists>st' r. poll_pane_output_with_session_actor eops ops ms st k = Some (st', r) \<and> tended a st'"
  using actor_poll_commanded [of st eops ms k] assms commanded_steps(2) by (auto simp: tended_def)

lemma actor_probe_served:
  assumes "rests a" and "clock_passes LIVE_HOST_OUTPUT_POLL_DEADLINE clock"
  shows "\<exists>st' f. serve_health_probe_with_session_actor eops ops clock probe (a, h) = Some (st', f) \<and> en_seq f = 1 \<and>
    tended a st'"
proof (cases "presence_target_pane_id (actor_session a) (pr_focused_pane_id probe)")
  case None
  with assms(1) show ?thesis by (simp add: serve_health_probe_with_session_actor_def tended_refl)
next
  case (Some k)
  from assms obtain N where N: "\<And>m. N \<le> m \<Longrightarrow> clock 0 + LIVE_HOST_OUTPUT_POLL_DEADLINE \<le> clock m"
    by (auto simp: clock_passes_def)
  have "quiet_result (tended a) False
      (poll_panes_output_with_session_actor_until_quiet eops ops 0 clock (leaf_pane_ids (actor_session a)) (a, h))"
    unfolding poll_panes_output_with_session_actor_until_quiet_def poll_until_quiet_def
    by (rule until_quiet_ends [OF actor_poll_served tended_refl [OF assms(1)] N])
  then obtain a1 h1 r where
    "poll_panes_output_with_session_actor_until_quiet eops ops 0 clock (leaf_pane_ids (actor_session a)) (a, h) =
       Some ((a1, h1), r)" "tended a (a1, h1)" by (auto simp: quiet_result_def)
  with Some show ?thesis
    by (cases r; cases "health_check ops (actor_session a1) h1 k")
      (auto simp: serve_health_probe_with_session_actor_def tended_def dest: health_check_number)
qed

lemma command_tended:
  assumes "rests a" and "control_command_ok c"
    and "serve_control_command_with_session_actor eops ops a h c = (a', h', f, x)"
  shows "rests a' \<and> commanded (actor_session a) (actor_session a')"
  using served_commands_agree [OF assms(1), of eops ops h c] assms(2,3)
    command_keeps_session [of c "actor_session a" ops h] serve_command_session(1) [of ops "actor_session a" h c]
  by (auto simp: agrees_def control_command_ok_def commanded_steps(1) split: if_splits)

lemma connection_served:
  assumes "rests a" and "clock_passes LIVE_HOST_OUTPUT_POLL_DEADLINE clock"
    and "\<And>c. initial = InitialControl c \<Longrightarrow> control_command_ok c"
  shows "\<exists>st' frames x. serve_stream_once_with_session_actor eops ops clock (a, h) initial reads = Some (st', frames, x) \<and>
    tended a st'"
proof (cases initial)
  case (InitialControl c)
  obtain a1 h1 f x where s: "serve_control_command_with_session_actor eops ops a (Some h) c = (a1, h1, f, x)"
    by (metis prod_cases4)
  from command_tended [OF assms(1) assms(3) [OF InitialControl] s] InitialControl s show ?thesis
    by (simp add: serve_stream_once_with_session_actor_def tended_def)
next
  case (InitialHealthProbe probe)
  with actor_probe_served [OF assms(1,2), of eops probe h] show ?thesis
    by (auto simp: serve_stream_once_with_session_actor_def)
next
  case (InitialAttach target request)
  show ?thesis
  proof (cases "attach_target_session_mismatch (actor_session a) target")
    case (Some t)
    with InitialAttach assms(1) show ?thesis by (simp add: serve_stream_once_with_session_actor_def tended_refl)
  next
    case None
    obtain s1 focus where target: "attach_target_pane_id (actor_session a) request = (s1, focus)"
      by (cases "attach_target_pane_id (actor_session a) request")
    let ?a = "a\<lparr>sa_core := (sa_core a)\<lparr>sc_session := s1\<rparr>\<rparr>"
    have a1: "tended a (?a, h)"
      using assms(1) attach_target_commanded [of "actor_session a" request] target
      by (simp add: tended_def rests_iff actor_session_def)
    show ?thesis
    proof (cases focus)
      case no: None
      with a1 InitialAttach None target show ?thesis by (simp add: serve_stream_once_with_session_actor_def)
    next
      case (Some k)
      have "\<exists>st' r. poll_panes_output_with_session_actor_once eops ops 0 (?a, h) [k] [k] = Some (st', r) \<and> tended a st'"
        unfolding poll_panes_output_with_session_actor_once_def by (rule poll_once_ends [OF actor_poll_served a1])
      then obtain a2 h2 r where p:
        "poll_panes_output_with_session_actor_once eops ops 0 (?a, h) [k] [k] = Some ((a2, h2), r)" "tended a (a2, h2)"
        by auto
      let ?sv = "\<lparr>sv_session = actor_session a2, sv_engines = sc_engines (sa_core a2), sv_host = Some h2\<rparr>"
      from attach_served [of ?sv eops request reads] obtain sv fs x where
        sv: "serve_attached_client eops ops request ?sv reads = Some (sv, fs, x)"
          "commanded (actor_session a2) (sv_session sv)" by (auto simp: served_def)
      let ?b = "a2\<lparr>sa_core := (sa_core a2)\<lparr>sc_session := sv_session sv, sc_engines := sv_engines sv\<rparr>\<rparr>"
      have "tended a (?b, h')" for h'
        using p(2) commanded_steps(2) [OF _ sv(2)] by (simp add: tended_def rests_iff actor_session_def)
      with p sv(1) InitialAttach None target Some show ?thesis
        by (cases r) (auto simp: serve_stream_once_with_session_actor_def Let_def)
    qed
  qed
qed

end

end
