(* ===== verification/Attach_Handshake.thy ===== *)
theory Attach_Handshake
  imports Serving Client_Cache
begin

text \<open>
  The client's half of an attach (\<open>attach_from_stream\<close> of \<open>crates/nmux-cli/src/local.rs\<close>): the frames it
  reads until it has the workspace, its own presence, the status of the surface and, unless the status says that
  its copy is current, the surface. The lemmas put it behind \<open>write_attach_handshake\<close>: what the server writes
  is accepted, and rendering it shows the pane as the server has it.
\<close>

subsection \<open>Reading\<close>

fun read_until_presence :: "workspace_summary \<Rightarrow> frame_read list \<Rightarrow> (workspace_summary \<times> presence_summary) reads" where
  "read_until_presence w [] = Inl (ReadStream ReadEof)"
| "read_until_presence w (FrameRead e # rest) =
     (case en_body e of
        BodyPresence _ \<Rightarrow> bind_res (decoded (presence_from_frame e)) (\<lambda>p. Inr ((w, p), rest))
      | BodyWorkspace _ \<Rightarrow> bind_res (decoded (workspace_summary_from_frame e)) (\<lambda>w1. read_until_presence w1 rest)
      | BodyError _ \<Rightarrow> server_error e
      | _ \<Rightarrow> Inl ReadUnexpected)"
| "read_until_presence w (r # rest) = Inl (ReadStream r)"

fun read_until_status :: "workspace_summary \<Rightarrow> frame_read list \<Rightarrow> (workspace_summary \<times> attach_status_summary) reads" where
  "read_until_status w [] = Inl (ReadStream ReadEof)"
| "read_until_status w (FrameRead e # rest) =
     (case en_body e of
        BodyAttachStatus _ \<Rightarrow> bind_res (decoded (attach_status_from_frame e)) (\<lambda>s. Inr ((w, s), rest))
      | BodyWorkspace _ \<Rightarrow> bind_res (decoded (workspace_summary_from_frame e)) (\<lambda>w1. read_until_status w1 rest)
      | BodyError _ \<Rightarrow> server_error e
      | _ \<Rightarrow> Inl ReadUnexpected)"
| "read_until_status w (r # rest) = Inl (ReadStream r)"

fun read_until_surface :: "workspace_summary \<Rightarrow> frame_read list \<Rightarrow> (workspace_summary \<times> surface_update) reads" where
  "read_until_surface w [] = Inl (ReadStream ReadEof)"
| "read_until_surface w (FrameRead e # rest) =
     (case en_body e of
        BodySnapshot _ \<Rightarrow> bind_res (decoded (surface_update_from_frame e)) (\<lambda>u. Inr ((w, u), rest))
      | BodyPatch _ \<Rightarrow> bind_res (decoded (surface_update_from_frame e)) (\<lambda>u. Inr ((w, u), rest))
      | BodyWorkspace _ \<Rightarrow> bind_res (decoded (workspace_summary_from_frame e)) (\<lambda>w1. read_until_surface w1 rest)
      | BodyError _ \<Rightarrow> server_error e
      | _ \<Rightarrow> Inl ReadUnexpected)"
| "read_until_surface w (r # rest) = Inl (ReadStream r)"

definition read_attach_surface ::
  "workspace_summary \<Rightarrow> attach_status_summary \<Rightarrow> frame_read list \<Rightarrow> (workspace_summary \<times> surface_update option) reads" where
  "read_attach_surface w status reads =
     (case as_surface_state status of
        AttachCurrent \<Rightarrow> Inr ((w, None), reads)
      | AttachCode n \<Rightarrow> Inl (ReadSurfaceState (AttachCode n))
      | _ \<Rightarrow>
          bind_res (read_until_surface w reads) (\<lambda>((w1, u), rest).
          bind_res (decoded (validate_attach_surface_update (as_pane_id status) (as_surface_state status) u)) (\<lambda>_.
            Inr ((w1, Some u), rest))))"

definition attach_from_stream :: "frame_read list \<Rightarrow> attach_snapshot reads" where
  "attach_from_stream reads =
     bind_res (read_frame_from reads) (\<lambda>(e, reads1).
     bind_res (case en_body e of BodyError _ \<Rightarrow> server_error e | _ \<Rightarrow> decoded (workspace_summary_from_frame e)) (\<lambda>w1.
     bind_res (read_until_presence w1 reads1) (\<lambda>((w2, presence), reads2).
     bind_res (read_until_status w2 reads2) (\<lambda>((w3, status), reads3).
     bind_res (read_attach_surface w3 status reads3) (\<lambda>((w4, surface), reads4).
       Inr (\<lparr>at_workspace = w4, at_presence = presence, at_status = status, at_surface = surface,
             at_scrollback = None\<rparr>, reads4))))))"

subsection \<open>An attach reads what is written for it\<close>


lemma read_presence_frame:
  assumes "presence_from_frame (presence_update_frame s c seq a) = Inr p"
  shows "read_until_presence w (FrameRead (presence_update_frame s c seq a) # rest) = Inr ((w, p), rest)"
  using assms by (auto simp: presence_from_frame_def presence_update_frame_def session_envelope_def)

lemma read_status_frame:
  assumes "attach_status_from_frame (attach_status_frame s c seq k x) = Inr st"
  shows "read_until_status w (FrameRead (attach_status_frame s c seq k x) # rest) = Inr ((w, st), rest)"
  using assms by (auto simp: attach_status_from_frame_def attach_status_frame_def session_envelope_def)

lemma read_surface_frame:
  assumes "surface_update_from_frame e = Inr u"
  shows "read_until_surface w (FrameRead e # rest) = Inr ((w, u), rest)"
  using assms by (auto simp: surface_update_from_frame_def split: envelope_body.splits)

lemma first_workspace_frame:
  assumes "workspace_summary_from_frame e = Inr w"
  shows "(case en_body e of BodyError _ \<Rightarrow> server_error e | _ \<Rightarrow> decoded (workspace_summary_from_frame e)) = Inr w"
  using assms by (auto simp: workspace_summary_from_frame_def split: envelope_body.splits)

declare read_until_presence.simps [simp del] read_until_status.simps [simp del] read_until_surface.simps [simp del]

lemma attach_reads:
  assumes "workspace_summary_from_frame e1 = Inr w"
    and "\<And>w rest. read_until_presence w (FrameRead e2 # rest) = Inr ((w, p), rest)"
    and "\<And>w rest. read_until_status w (FrameRead e3 # rest) = Inr ((w, st), rest)"
    and "read_attach_surface w st reads = Inr ((w, u), rest)"
  shows "attach_from_stream (FrameRead e1 # FrameRead e2 # FrameRead e3 # reads) =
    Inr (\<lparr>at_workspace = w, at_presence = p, at_status = st, at_surface = u, at_scrollback = None\<rparr>, rest)"
  by (simp add: attach_from_stream_def first_workspace_frame [OF assms(1)] assms(2-4))

definition cache_behind :: "client_attach_state \<Rightarrow> ustring \<Rightarrow> pane_data \<Rightarrow> bool" where
  \<comment> \<open>the client's cache has nothing of the pane, or its copy at an earlier point of a run of updates\<close>
  "cache_behind st k p' \<longleftrightarrow> cached st k = None \<or> (\<exists>p ss. cached st k = Some (client_of p) \<and> p' = pane_run p ss \<and> pane_ok p \<and>
      pane_sendable p \<and> pn_surface_version p + length ss \<le> U64_MAX \<and> steps_ok p ss \<and> diff_still_there p ss)"

lemma attach_surface_update_Some:
  "attach_surface_update s k seq (Some r) = Some u \<longleftrightarrow>
     (\<exists>e. surface_response_frame s k r seq = Some e \<and> surface_update_from_frame e = Inr u)"
proof (cases "surface_response_frame s k r seq")
  case (Some e)
  then show ?thesis by (cases "surface_update_from_frame e") (simp_all add: attach_surface_update_def)
qed (simp add: attach_surface_update_def)

lemma attach_surface_sent:
  assumes "session_pane_data s k = Some p'" and "pane_ok p'" and "pane_sendable p'" and "cache_behind st k p'"
    and "surface_response (known_pairs st) s k = Some r"
  shows "\<exists>e u. surface_response_frame s k r seq = Some e \<and> surface_update_from_frame e = Inr u \<and>
    attach_surface_update s k seq (Some r) = Some u \<and>
    validate_attach_surface_update k (Surface_Delivery.attach_surface_state (Some r)) u = Inr ()"
proof -
  let ?a = "\<lparr>at_workspace = undefined, at_presence = undefined,
    at_status = \<lparr>as_pane_id = k, as_surface_version = pn_surface_version p',
      as_surface_state = Surface_Delivery.attach_surface_state (Some r)\<rparr>,
    at_surface = attach_surface_update s k seq (Some r), at_scrollback = None\<rparr>"
  have state: "Surface_Delivery.attach_surface_state (Some r) \<noteq> AttachCurrent"
    by (cases r) (simp_all add: Surface_Delivery.attach_surface_state_def)
  from attach_catches_up [OF assms(1-3) assms(4) [unfolded cache_behind_def] assms(5) [symmetric], of ?a seq]
  obtain st' x where "render_attach_surface st ?a = (st', Inr x)"
    by (auto simp: render_attach_def Let_def split: prod.splits sum.splits)
  with state obtain u where u: "attach_surface_update s k seq (Some r) = Some u"
    "validate_attach_surface_update k (Surface_Delivery.attach_surface_state (Some r)) u = Inr ()"
    by (auto simp: render_attach_surface_def Let_def split: option.splits sum.splits)
  then show ?thesis using attach_surface_update_Some by blast
qed

lemma attached_session_ok:
  assumes "workspace_ok s" and "workspace_named s"
  shows "workspace_ok (fst (attach_target_pane_id s request))" and "workspace_named (fst (attach_target_pane_id s request))"
  using assms attach_target_session [of s request] switch_tab_ok switch_close_named(1) by metis+

lemma request_known_response:
  "aq_known_surfaces request = known_surfaces st \<Longrightarrow> request_surface_response request s k = surface_response (known_pairs st) s k"
  by (simp add: request_surface_response_def known_pairs_def)

lemma request_actor_presence:
  assumes "attach_request_ok request" and "k \<noteq> []"
  shows "\<exists>p. presence_from_frame (presence_update_frame s c seq (request_actor_for_pane request k)) = Inr p \<and>
    pr_actor_id p = aq_actor_id request \<and> pr_mode p = aq_mode request"
proof -
  let ?a = "request_actor_for_pane request k"
  have "ac_id ?a = aq_actor_id request" "ac_user_id ?a = aq_user_id request" "ac_mode ?a = aq_mode request"
    "ac_display_name ?a = aq_display_name request" "ac_focused_pane_id ?a \<noteq> Some []"
    using assms by (auto simp: request_actor_for_pane_def request_actor_def attach_request_ok_def Let_def)
  with assms(1) presence_frame_decodes [of ?a s c seq] show ?thesis by (auto simp: attach_request_ok_def)
qed

lemma handshake_found:
  assumes "attach_target_pane_id s0 request = (s, Some k)"
  shows "\<exists>frames seq'. write_attach_handshake s0 request seq = (s, frames, seq', Some (k, request_actor_for_pane request k))"
  using assms
  by (cases "Option.bind (request_surface_response request s k) (\<lambda>r. surface_response_frame s k r (seq + 3))")
    (simp_all add: write_attach_handshake_def Let_def)

lemma handshake_frames:
  assumes "write_attach_handshake s0 request seq = (s, frames, seq', Some (k, actor))"
  shows "frames = workspace_tree_frame s local_client seq # presence_update_frame s local_client (seq + 1) actor #
      attach_status_frame s local_client (seq + 2) k
        (Surface_Delivery.attach_surface_state (request_surface_response request s k)) #
      (case Option.bind (request_surface_response request s k) (\<lambda>r. surface_response_frame s k r (seq + 3)) of
         None \<Rightarrow> [] | Some f \<Rightarrow> [f])"
    and "actor = request_actor_for_pane request k" and "s = fst (attach_target_pane_id s0 request)"
  using assms by (auto simp: write_attach_handshake_def Let_def split: prod.splits option.splits)

lemma handshake_read:
  assumes hs: "write_attach_handshake s0 request seq = (s, frames, seq', Some (k, actor))"
    and s0: "workspace_ok s0" "workspace_named s0"
    and request: "attach_request_ok request" "aq_known_surfaces request = known_surfaces st"
    and pane: "session_pane_data s k = Some p'" "pane_ok p'" "pane_sendable p'" "cache_behind st k p'"
  shows "\<exists>a. attach_from_stream (map FrameRead frames @ rest) = Inr (a, rest) \<and>
    wk_session_id (at_workspace a) = ss_id s \<and> wk_tab_id (at_workspace a) = ss_active_tab_id s \<and>
    pr_actor_id (at_presence a) = aq_actor_id request \<and>
    at_status a = \<lparr>as_pane_id = k, as_surface_version = pn_surface_version p',
      as_surface_state = Surface_Delivery.attach_surface_state (request_surface_response request s k)\<rparr> \<and>
    at_surface a = attach_surface_update s k (seq + 3) (request_surface_response request s k)"
proof -
  note frames = handshake_frames [OF hs]
  let ?r = "request_surface_response request s k"
  note r = request_known_response [OF request(2), of s k]
  have "pn_id p' = k" using ws.look_key [OF pane(1)] .
  then have k: "k \<noteq> []" using pane(3) by (auto simp: pane_sendable_def)
  from workspace_frame_decodes [OF attached_session_ok [OF s0, of request], of local_client seq] frames(3)
  obtain w where w: "workspace_summary_from_frame (workspace_tree_frame s local_client seq) = Inr w"
    "wk_session_id w = ss_id s" "wk_tab_id w = ss_active_tab_id s"
    by (auto simp: find_tab_def find_Some_iff)
  from request_actor_presence [OF request(1) k, of s local_client "seq + 1"] frames(2) obtain p where
    p: "presence_from_frame (presence_update_frame s local_client (seq + 1) actor) = Inr p"
      "pr_actor_id p = aq_actor_id request" by blast
  have known: "attach_surface_state_known (Surface_Delivery.attach_surface_state ?r)"
    by (simp add: Surface_Delivery.attach_surface_state_def split: option.split surface_response.split)
  let ?st = "\<lparr>as_pane_id = k, as_surface_version = pn_surface_version p',
    as_surface_state = Surface_Delivery.attach_surface_state ?r\<rparr>"
  have status: "attach_status_from_frame (attach_status_frame s local_client (seq + 2) k
      (Surface_Delivery.attach_surface_state ?r)) = Inr ?st"
    using attach_status_frame_decodes [OF k known] pane(1) by (simp add: surface_version_def)
  have surface: "read_attach_surface w ?st (map FrameRead (case Option.bind ?r (\<lambda>r. surface_response_frame s k r (seq + 3)) of
      None \<Rightarrow> [] | Some f \<Rightarrow> [f]) @ rest) = Inr ((w, attach_surface_update s k (seq + 3) ?r), rest)"
  proof (cases ?r)
    case None
    then show ?thesis
      by (simp add: read_attach_surface_def Surface_Delivery.attach_surface_state_def attach_surface_update_def)
  next
    case (Some x)
    from attach_surface_sent [OF pane, of x "seq + 3"] Some r obtain e u where
      e: "surface_response_frame s k x (seq + 3) = Some e" "surface_update_from_frame e = Inr u"
        "attach_surface_update s k (seq + 3) (Some x) = Some u"
        "validate_attach_surface_update k (Surface_Delivery.attach_surface_state (Some x)) u = Inr ()" by auto
    then show ?thesis
      by (cases x) (simp_all add: Some read_attach_surface_def Surface_Delivery.attach_surface_state_def read_surface_frame)
  qed
  have reads: "map FrameRead frames @ rest = FrameRead (workspace_tree_frame s local_client seq) #
      FrameRead (presence_update_frame s local_client (seq + 1) actor) #
      FrameRead (attach_status_frame s local_client (seq + 2) k (Surface_Delivery.attach_surface_state ?r)) #
      map FrameRead (case Option.bind ?r (\<lambda>r. surface_response_frame s k r (seq + 3)) of None \<Rightarrow> [] | Some f \<Rightarrow> [f]) @ rest"
    by (simp only: frames(1) list.map append_Cons)
  show ?thesis
    unfolding reads attach_reads [OF w(1) read_presence_frame [OF p(1)] read_status_frame [OF status] surface]
    using w(2,3) p(2) by simp
qed

lemma attach_is_shown:
  assumes "write_attach_handshake s0 request seq = (s, frames, seq', Some (k, actor))"
    and "workspace_ok s0" and "workspace_named s0"
    and "attach_request_ok request" and "aq_known_surfaces request = known_surfaces st"
    and "session_pane_data s k = Some p'" and "pane_ok p'" and "pane_sendable p'" and "cache_behind st k p'"
  shows "\<exists>a st' r. attach_from_stream (map FrameRead frames @ rest) = Inr (a, rest) \<and>
    wk_session_id (at_workspace a) = ss_id s \<and> wk_tab_id (at_workspace a) = ss_active_tab_id s \<and>
    pr_actor_id (at_presence a) = aq_actor_id request \<and>
    render_attach st a = (st', Inr r) \<and> cached st' k = Some (client_of p') \<and>
    ra_surface_text r = Some (render_text (client_of p'))"
proof -
  from handshake_read [OF assms] obtain a where a: "attach_from_stream (map FrameRead frames @ rest) = Inr (a, rest)"
    "wk_session_id (at_workspace a) = ss_id s" "wk_tab_id (at_workspace a) = ss_active_tab_id s"
    "pr_actor_id (at_presence a) = aq_actor_id request"
    "at_status a = \<lparr>as_pane_id = k, as_surface_version = pn_surface_version p',
      as_surface_state = Surface_Delivery.attach_surface_state (request_surface_response request s k)\<rparr>"
    "at_surface a = attach_surface_update s k (seq + 3) (request_surface_response request s k)" by blast
  from attach_catches_up [OF assms(6-8) assms(9) [unfolded cache_behind_def] request_known_response [OF assms(5)] a(5,6)]
    a(1-4) show ?thesis by blast
qed

lemma attach_refused:
  assumes "write_attach_handshake s0 request seq = (s, frames, seq', None)"
    and "workspace_ok s0" and "attach_request_ok request"
  shows "\<exists>t message. aq_focused_pane_id request = Some t \<and> s = s0 \<and>
    attach_from_stream (map FrameRead frames @ rest) =
      Inl (ServerSaid \<lparr>er_code = ErrPaneNotFound, er_message = message, er_retryable = False, er_pane_id = Some t,
        er_input_seq = 0\<rparr>)"
proof -
  from assms(1) have target: "attach_target_pane_id s0 request = (s, None)"
    and frames: "frames = [target_not_found_error s seq (aq_focused_pane_id request)]"
    by (auto simp: write_attach_handshake_def Let_def split: prod.splits option.splits)
  from assms(2) obtain t where t: "find_tab s0 (ss_active_tab_id s0) = Some t" by (auto simp: workspace_ok_def)
  then have "t \<in> set (ss_tabs s0)" by (auto simp: find_tab_def find_Some_iff)
  with assms(2) t have "active_pane_id s0 \<noteq> None" by (auto simp: workspace_ok_def tab_ok_def active_pane_id_def)
  show ?thesis
  proof (cases "aq_focused_pane_id request")
    case None
    with target \<open>active_pane_id s0 \<noteq> None\<close> show ?thesis by (simp add: attach_target_pane_id_def)
  next
    case (Some t)
    with assms(3) have "t \<noteq> []" by (auto simp: attach_request_ok_def)
    moreover have "s = s0" using target Some by (auto simp: attach_target_pane_id_def split: if_splits option.splits)
    ultimately show ?thesis
      using Some error_frame_decodes [of ErrPaneNotFound "lit ''pane not found: '' @ t" "Some t" s local_client seq False 0]
      by (simp add: frames attach_from_stream_def target_not_found_error_def pane_not_found_error_def
          pane_not_found_error_with_input_seq_def protocol_error_def server_error_def)
        (simp add: error_frame_with_context_def session_envelope_def server_error_def)
  qed
qed

end
