(* ===== verification/Live_Session.thy ===== *)
theory Live_Session
  imports Serving
begin

text \<open>
  A client that follows the session live over one connection (\<open>serve_live_attached_client\<close> of
  \<open>crates/nmux-cli/src/local.rs\<close> and its variant on a session actor). The source has every function twice, on
  a session with its engines and on an actor; what the two do differently is the record \<open>live_ops\<close>, with an
  instance for each, and the handlers are written once over it.

  The stream of the client is the list of what its reads give; \<open>ReadTimedOut\<close> in it is a moment at which nothing
  has arrived: a poll finds the stream unreadable there, a blocking read waits past it. The environment of a turn
  of the loop says whether the processes have signalled output and what the clock shows. Polls of file
  descriptors and writes to the socket are taken to succeed.

  The lemmas, in the locale \<open>live_session\<close>: every frame to the client carries the next number, the session stays
  well formed and keeps its id, a client that cannot write leaves everything but the output of the processes as
  it is, the loop returns, and after a turn that does not end the connection the client has been sent the current
  version of every pane.
\<close>

subsection \<open>What the two variants do differently\<close>

record 's live_ops =
  lo_session :: "'s \<Rightarrow> session"
  lo_with_session :: "session \<Rightarrow> 's \<Rightarrow> 's"
  lo_forwarded_bytes :: "'s \<Rightarrow> input_summary \<Rightarrow> 's \<times> byte list cres"
  lo_accept_input :: "u64 \<Rightarrow> ustring \<Rightarrow> input_summary \<Rightarrow> byte list \<Rightarrow> 's \<Rightarrow> 's"
  lo_write_input :: "'s \<Rightarrow> ustring \<Rightarrow> byte list \<Rightarrow> 's \<times> (host_error, unit) res"
  lo_resize_host :: "'s \<Rightarrow> ustring \<Rightarrow> u32 \<Rightarrow> u32 \<Rightarrow> 's \<times> (host_error, unit) res"
  lo_commit_resize :: "u64 \<Rightarrow> ustring \<Rightarrow> 's \<Rightarrow> ustring \<Rightarrow> u32 \<Rightarrow> u32 \<Rightarrow> 's \<times> (host_error, bool) res"
  lo_poll :: "u64 \<Rightarrow> 's \<Rightarrow> ustring \<Rightarrow> ('s \<times> (host_error, bool) res) option"
  lo_error_text :: "host_error \<Rightarrow> ustring"

definition direct_live :: "'e terminal_engine \<Rightarrow> 'h process_host \<Rightarrow> (session \<times> 'e pane_engines \<times> 'h) live_ops" where
  "direct_live eops ops =
     \<lparr>lo_session = fst,
      lo_with_session = (\<lambda>s (_, engines, h). (s, engines, h)),
      lo_forwarded_bytes = (\<lambda>(s, engines, h) i.
        case forwarded_bytes eops i s engines of (engines1, r) \<Rightarrow> ((s, engines1, h), r)),
      lo_accept_input = (\<lambda>_ _ _ _ st. st),
      lo_write_input = (\<lambda>(s, engines, h) pane_id bytes.
        case ph_write ops h pane_id bytes of (h1, r) \<Rightarrow> ((s, engines, h1), r)),
      lo_resize_host = (\<lambda>(s, engines, h) pane_id cols rows.
        case ph_resize ops h pane_id cols rows of (h1, r) \<Rightarrow> ((s, engines, h1), r)),
      lo_commit_resize = (\<lambda>_ _ (s, engines, h) pane_id cols rows.
        case commit_pane_resize_with_engine eops s pane_id cols rows (engine_mut eops engines pane_id) of
          (s1, e, changed) \<Rightarrow> ((s1, engine_put engines pane_id e, h), Inr changed)),
      lo_poll = (\<lambda>_. poll_pane_output_with_host_and_engines eops ops),
      lo_error_text = host_error_text (ph_kind_debug ops)\<rparr>"

definition commit_pane_resize_with_session_actor ::
  "'e terminal_engine \<Rightarrow> 'h process_host \<Rightarrow> u64 \<Rightarrow> ustring \<Rightarrow> 'e session_actor \<times> 'h \<Rightarrow> ustring \<Rightarrow> u32 \<Rightarrow> u32 \<Rightarrow>
     ('e session_actor \<times> 'h) \<times> (host_error, bool) res" where
  "commit_pane_resize_with_session_actor eops ops now source_id st pane_id cols rows =
     (case st of (a, h) \<Rightarrow>
        (case drain_ready eops (actor_enqueue a
                \<lparr>pe_source_id = source_id, pe_lane = LaneClient, pe_session_mono_ms = now,
                 pe_event = CommitPaneResize pane_id cols rows\<rparr>) of
           (records, a1) \<Rightarrow>
             (case drain_pane_pty_writes eops (sa_core a1) pane_id of
                (core, writes) \<Rightarrow>
                  (case write_pty_inputs ops h pane_id writes of
                     (h1, Inl e) \<Rightarrow> ((a1\<lparr>sa_core := core\<rparr>, h1), Inl e)
                   | (h1, Inr _) \<Rightarrow>
                       ((a1\<lparr>sa_core := core\<rparr>, h1), Inr (list_ex (\<lambda>r. tr_effects r \<noteq> []) records))))))"

definition accept_pane_input_with_session_actor ::
  "'e terminal_engine \<Rightarrow> u64 \<Rightarrow> ustring \<Rightarrow> input_summary \<Rightarrow> byte list \<Rightarrow> 'e session_actor \<Rightarrow> 'e session_actor" where
  "accept_pane_input_with_session_actor eops now source_id i bytes a =
     snd (drain_ready eops (actor_enqueue a
       \<lparr>pe_source_id = source_id, pe_lane = LaneClient, pe_session_mono_ms = now,
        pe_event = ForwardPaneInput (is_pane_id i) (is_input_seq i) bytes\<rparr>))"

definition actor_live :: "'e terminal_engine \<Rightarrow> 'h process_host \<Rightarrow> ('e session_actor \<times> 'h) live_ops" where
  "actor_live eops ops =
     \<lparr>lo_session = (\<lambda>(a, h). actor_session a),
      lo_with_session = (\<lambda>s (a, h). (a\<lparr>sa_core := (sa_core a)\<lparr>sc_session := s\<rparr>\<rparr>, h)),
      lo_forwarded_bytes = (\<lambda>(a, h) i.
        case forwarded_bytes eops i (actor_session a) (sc_engines (sa_core a)) of
          (engines1, r) \<Rightarrow> ((a\<lparr>sa_core := (sa_core a)\<lparr>sc_engines := engines1\<rparr>\<rparr>, h), r)),
      lo_accept_input = (\<lambda>now source_id i bytes (a, h).
        (accept_pane_input_with_session_actor eops now source_id i bytes a, h)),
      lo_write_input = (\<lambda>(a, h) pane_id bytes. case ph_write ops h pane_id bytes of (h1, r) \<Rightarrow> ((a, h1), r)),
      lo_resize_host = (\<lambda>(a, h) pane_id cols rows.
        case ph_resize ops h pane_id cols rows of (h1, r) \<Rightarrow> ((a, h1), r)),
      lo_commit_resize = commit_pane_resize_with_session_actor eops ops,
      lo_poll = poll_pane_output_with_session_actor eops ops,
      lo_error_text = host_error_text (ph_kind_debug ops)\<rparr>"

subsection \<open>Frames from the client\<close>

datatype live_client_frame =
  ClientScrollback scrollback_fetch_summary
| ClientResize resize_intent_summary
| ClientInput input_summary
| ClientPing ping_summary

datatype live_client_read = ClientFrame live_client_frame | ClientNoFrame | ClientClosed

definition live_client_frame_of :: "envelope \<Rightarrow> (serve_error, live_client_read) res" where
  "live_client_frame_of e =
     (case en_body e of
        BodyResize _ \<Rightarrow>
          (case resize_intent_from_frame e of Inl x \<Rightarrow> Inl (ServeFrame x) | Inr r \<Rightarrow> Inr (ClientFrame (ClientResize r)))
      | BodyFetch _ \<Rightarrow>
          (case scrollback_fetch_from_frame e of
             Inl x \<Rightarrow> Inl (ServeFrame x) | Inr f \<Rightarrow> Inr (ClientFrame (ClientScrollback f)))
      | BodyInput _ \<Rightarrow>
          (case input_summary_from_frame e of Inl x \<Rightarrow> Inl (ServeFrame x) | Inr i \<Rightarrow> Inr (ClientFrame (ClientInput i)))
      | BodyPing _ \<Rightarrow>
          (case ping_from_frame e of Inl x \<Rightarrow> Inl (ServeFrame x) | Inr p \<Rightarrow> Inr (ClientFrame (ClientPing p)))
      | _ \<Rightarrow> Inl ServeUnexpected)"

definition stream_readable :: "frame_read list \<Rightarrow> bool \<times> frame_read list" where
  \<comment> \<open>a poll without a timeout; the end of the stream is readable\<close>
  "stream_readable reads = (case reads of ReadTimedOut # rest \<Rightarrow> (False, rest) | _ \<Rightarrow> (True, reads))"

definition blocking_read :: "frame_read list \<Rightarrow> frame_read \<times> frame_read list" where
  "blocking_read reads =
     (case dropWhile (\<lambda>r. r = ReadTimedOut) reads of [] \<Rightarrow> (ReadEof, []) | r # rest \<Rightarrow> (r, rest))"

definition read_live_client_frame_from_stream ::
  "frame_read list \<Rightarrow> (serve_error, live_client_read) res \<times> frame_read list" where
  "read_live_client_frame_from_stream reads =
     (case blocking_read reads of
        (FrameRead e, rest) \<Rightarrow> (live_client_frame_of e, rest)
      | (ReadTimedOut, rest) \<Rightarrow> (Inr ClientNoFrame, rest)
      | (ReadEof, rest) \<Rightarrow> (Inr ClientClosed, rest)
      | (ReadReset, rest) \<Rightarrow> (Inr ClientClosed, rest)
      | (ReadFailed, rest) \<Rightarrow> (Inl (ServeRead ReadFailed), rest))"

record 's live_stream =
  vs_state :: 's
  vs_reads :: "frame_read list"
  vs_written :: "envelope list"
  vs_seq :: u64
  vs_known :: "(ustring, u64) btree"

definition live_say :: "(u64 \<Rightarrow> envelope) \<Rightarrow> 's live_stream \<Rightarrow> 's live_stream" where
  \<comment> \<open>write the frame with the next number\<close>
  "live_say frame v = v\<lparr>vs_written := vs_written v @ [frame (vs_seq v)], vs_seq := vs_seq v + 1\<rparr>"

datatype frame_end = FrameNext | FrameSkips | FrameReturns | FrameFails serve_error

definition live_resize ::
  "'s live_ops \<Rightarrow> u64 \<Rightarrow> session_actor_info \<Rightarrow> 's live_stream \<Rightarrow> resize_intent_summary \<Rightarrow> 's live_stream \<times> frame_end" where
  "live_resize ops now actor v r =
     (let s = lo_session ops (vs_state v); pane_id = rs_pane_id r in
      if \<not> input_allowed actor then
        (live_say (\<lambda>seq. protocol_error s seq ErrPermissionDenied (lit ''resize rejected: actor is read-only'')
           (Some pane_id) 0) v, FrameReturns)
      else if surface_version s pane_id = None then (live_say (\<lambda>seq. pane_not_found_error s seq pane_id) v, FrameReturns)
      else if \<not> resize_intent_allowed (case pane_resize_policy s pane_id of Some p \<Rightarrow> p | None \<Rightarrow> ResizeFixed) (rs_reason r)
        then (v, FrameSkips)
      else case lo_resize_host ops (vs_state v) pane_id (rs_cols r) (rs_rows r) of
        (st1, Inl e) \<Rightarrow>
          (live_say (\<lambda>seq. protocol_error s seq ErrUnknown (lit ''resize failed: '' @ lo_error_text ops e) (Some pane_id) 0)
             (v\<lparr>vs_state := st1\<rparr>), FrameReturns)
      | (st1, Inr _) \<Rightarrow>
          (case lo_commit_resize ops now (ac_id actor) st1 pane_id (rs_cols r) (rs_rows r) of
             (st2, Inl e) \<Rightarrow> (v\<lparr>vs_state := st2\<rparr>, FrameFails (ServeHost e))
           | (st2, Inr changed) \<Rightarrow>
               (if changed then live_say (workspace_tree_frame (lo_session ops st2) local_client) (v\<lparr>vs_state := st2\<rparr>)
                else v\<lparr>vs_state := st2\<rparr>, FrameNext)))"

definition live_fetch :: "'s live_ops \<Rightarrow> 's live_stream \<Rightarrow> scrollback_fetch_summary \<Rightarrow> 's live_stream \<times> frame_end" where
  "live_fetch ops v f =
     (let s = lo_session ops (vs_state v) in
      case scrollback_fetch_error_code s f of
        Some code \<Rightarrow>
          (live_say (\<lambda>seq. scrollback_fetch_error s seq f code) v,
           if code = ErrStaleVersion then FrameSkips else FrameReturns)
      | None \<Rightarrow>
          (case scrollback_chunk_frame_for_pane s local_client (vs_seq v) (sf_pane_id f) (sf_start_line f) (sf_line_count f) of
             None \<Rightarrow> (live_say (\<lambda>seq. pane_not_found_error s seq (sf_pane_id f)) v, FrameReturns)
           | Some chunk \<Rightarrow> (live_say (\<lambda>_. chunk) v, FrameNext)))"

definition live_frame ::
  "'s live_ops \<Rightarrow> u64 \<Rightarrow> session_actor_info \<Rightarrow> 's live_stream \<Rightarrow> bool \<Rightarrow> input_summary list \<Rightarrow> live_client_frame \<Rightarrow>
     's live_stream \<times> bool \<times> input_summary list \<times> frame_end" where
  \<comment> \<open>with \<open>count_cycle\<close> and the inputs collected\<close>
  "live_frame ops now actor v count_cycle inputs frame =
     (case frame of
        ClientScrollback f \<Rightarrow> (case live_fetch ops v f of (v1, x) \<Rightarrow> (v1, False, inputs, x))
      | ClientResize r \<Rightarrow> (case live_resize ops now actor v r of (v1, x) \<Rightarrow> (v1, False, inputs, x))
      | ClientInput i \<Rightarrow>
          if input_allowed actor then (v, True, inputs @ [i], FrameNext)
          else
            (live_say (\<lambda>seq. protocol_error (lo_session ops (vs_state v)) seq ErrPermissionDenied
               (lit ''input rejected: actor is read-only'') (Some (is_pane_id i)) (is_input_seq i)) v,
             True, inputs, FrameReturns)
      | ClientPing p \<Rightarrow>
          (live_say (\<lambda>seq. ping_frame p (ss_id (lo_session ops (vs_state v))) local_client seq True) v,
           False, inputs, FrameNext))"

datatype reads_end = ReadsDone bool "input_summary list" | ReadsReturn | ReadsFail serve_error

lemma blocking_read_shorter: "blocking_read reads = (r, rest) \<Longrightarrow> r \<noteq> ReadEof \<Longrightarrow> length rest < length reads"
  using length_dropWhile_le [of "\<lambda>r. r = ReadTimedOut" reads]
  by (auto simp: blocking_read_def split: list.splits)

lemma read_frame_shorter:
  "read_live_client_frame_from_stream reads = (Inr (ClientFrame f), rest) \<Longrightarrow> length rest < length reads"
  using blocking_read_shorter [of reads]
  by (auto simp: read_live_client_frame_from_stream_def split: prod.splits frame_read.splits)

lemma stream_readable_length: "length (snd (stream_readable reads)) \<le> length reads"
  by (auto simp: stream_readable_def split: list.split frame_read.split)

lemma live_say_reads [simp]:
  "vs_reads (live_say f v) = vs_reads v" "vs_state (live_say f v) = vs_state v" "vs_known (live_say f v) = vs_known v"
  "vs_seq (live_say f v) = vs_seq v + 1" "vs_written (live_say f v) = vs_written v @ [f (vs_seq v)]"
  by (simp_all add: live_say_def)

lemma live_frame_reads: "live_frame ops now actor v c is f = (v', c', is', x) \<Longrightarrow> vs_reads v' = vs_reads v"
  by (auto simp: live_frame_def live_fetch_def live_resize_def Let_def split: live_client_frame.splits if_splits
      option.splits prod.splits sum.splits)

lemma live_turn_shorter:
  assumes "read_live_client_frame_from_stream (vs_reads v) = (Inr (ClientFrame f), rest)"
    and "live_frame ops now actor (v\<lparr>vs_reads := rest\<rparr>) c is f = (v1, c1, is1, x)"
  shows "length (vs_reads v1) < length (vs_reads v)"
  using read_frame_shorter [OF assms(1)] live_frame_reads [OF assms(2)] by simp

lemma readable_shorter: "stream_readable reads = (b, rest) \<Longrightarrow> length rest \<le> length reads"
  using stream_readable_length [of reads] by simp

function live_reads ::
  "'s live_ops \<Rightarrow> u64 \<Rightarrow> session_actor_info \<Rightarrow> 's live_stream \<Rightarrow> bool \<Rightarrow> input_summary list \<Rightarrow> 's live_stream \<times> reads_end" where
  \<comment> \<open>the loop over \<open>read_live_client_frame_from_stream\<close>; a frame that skips goes on without a look whether
     there is another\<close>
  "live_reads ops now actor v count_cycle inputs =
     (case read_live_client_frame_from_stream (vs_reads v) of
        (Inl e, rest) \<Rightarrow> (v\<lparr>vs_reads := rest\<rparr>, ReadsFail e)
      | (Inr ClientNoFrame, rest) \<Rightarrow> (v\<lparr>vs_reads := rest\<rparr>, ReadsDone count_cycle inputs)
      | (Inr ClientClosed, rest) \<Rightarrow> (v\<lparr>vs_reads := rest\<rparr>, ReadsReturn)
      | (Inr (ClientFrame f), rest) \<Rightarrow>
          (case live_frame ops now actor (v\<lparr>vs_reads := rest\<rparr>) count_cycle inputs f of
             (v1, count1, inputs1, FrameFails e) \<Rightarrow> (v1, ReadsFail e)
           | (v1, count1, inputs1, FrameReturns) \<Rightarrow> (v1, ReadsReturn)
           | (v1, count1, inputs1, FrameSkips) \<Rightarrow> live_reads ops now actor v1 count1 inputs1
           | (v1, count1, inputs1, FrameNext) \<Rightarrow>
               (case stream_readable (vs_reads v1) of
                  (True, rest1) \<Rightarrow> live_reads ops now actor (v1\<lparr>vs_reads := rest1\<rparr>) count1 inputs1
                | (False, rest1) \<Rightarrow> (v1\<lparr>vs_reads := rest1\<rparr>, ReadsDone count1 inputs1))))"
  by pat_completeness auto
termination
  by (relation "measure (\<lambda>(ops, now, actor, v, c, is). length (vs_reads v))")
    (auto simp: eq_commute [of "(_, _)"] intro: live_turn_shorter le_less_trans [OF readable_shorter])

declare live_reads.simps [simp del]

subsection \<open>Input to the processes\<close>

fun live_inputs ::
  "'s live_ops \<Rightarrow> u64 \<Rightarrow> session_actor_info \<Rightarrow> 's live_stream \<Rightarrow> input_summary list \<Rightarrow> ustring option \<Rightarrow>
     's live_stream \<times> ustring option \<times> bool" where
  \<comment> \<open>with the pane of the last input and whether the connection goes on\<close>
  "live_inputs ops now actor v [] pane = (v, pane, True)"
| "live_inputs ops now actor v (i # is) pane =
     (let s = lo_session ops (vs_state v); k = is_pane_id i in
      if surface_version s k = None then
        (live_say (\<lambda>seq. pane_not_found_error_with_input_seq s seq k (is_input_seq i)) v, Some k, False)
      else case forwarding_rejection i s of
        Some rejection \<Rightarrow>
          (live_say (\<lambda>seq. protocol_error s seq ErrPermissionDenied (rejection_message rejection) (Some k)
             (is_input_seq i)) v, Some k, False)
      | None \<Rightarrow>
          (case lo_forwarded_bytes ops (vs_state v) i of
             (st1, Inl e) \<Rightarrow>
               (live_say (\<lambda>seq. protocol_error s seq ErrUnknown (forwarding_error_text i e) (Some k) (is_input_seq i))
                  (v\<lparr>vs_state := st1\<rparr>), Some k, False)
           | (st1, Inr bytes) \<Rightarrow>
               (case lo_write_input ops (lo_accept_input ops now (ac_id actor) i bytes st1) k bytes of
                  (st2, Inl e) \<Rightarrow>
                    if input_write_target_exited e k then (v\<lparr>vs_state := st2\<rparr>, Some k, False)
                    else
                      (live_say (\<lambda>seq. protocol_error s seq ErrUnknown
                          (lit ''input forwarding failed: '' @ lo_error_text ops e) (Some k) (is_input_seq i))
                         (v\<lparr>vs_state := st2\<rparr>), Some k, False)
                | (st2, Inr _) \<Rightarrow> live_inputs ops now actor (v\<lparr>vs_state := st2\<rparr>) is (Some k))))"

subsection \<open>Output of the processes\<close>

definition LIVE_POST_INPUT_POLL_TIMEOUT :: nat where "LIVE_POST_INPUT_POLL_TIMEOUT = 100"
definition LIVE_POST_INPUT_COALESCE_DEADLINE :: nat where "LIVE_POST_INPUT_COALESCE_DEADLINE = 250"

partial_function (option) until_poll_quiet ::
  "('s \<Rightarrow> ustring \<Rightarrow> ('s \<times> (host_error, bool) res) option) \<Rightarrow> (nat \<Rightarrow> nat) \<Rightarrow> ustring list \<Rightarrow> nat \<Rightarrow> nat \<Rightarrow>
     's \<Rightarrow> nat \<Rightarrow> nat option \<Rightarrow> bool \<Rightarrow> ('s \<times> (host_error, bool) res) option" where
  \<comment> \<open>the loop of \<open>poll_panes_output_with_host_until_poll_quiet_state\<close> where the host has a descriptor to
     wait on; \<open>clock n\<close> is what the \<open>n\<close>th call of \<open>Instant::now\<close> gives\<close>
  "until_poll_quiet poll clock pane_ids deadline quiet_timeout st n quiet_since changed =
     Option.bind (poll_each poll st pane_ids False) (\<lambda>(st1, r).
       case r of
         Inl e \<Rightarrow> Some (st1, Inl e)
       | Inr cycle_changed \<Rightarrow>
           if cycle_changed then
             (if deadline \<le> clock n then Some (st1, Inr True)
              else until_poll_quiet poll clock pane_ids deadline quiet_timeout st1 (n + 1) None True)
           else if changed then
             (let (quiet_start, n1) = (case quiet_since of Some q \<Rightarrow> (q, n) | None \<Rightarrow> (clock n, n + 1)) in
              if quiet_timeout \<le> clock n1 - quiet_start then Some (st1, Inr True)
              else if deadline \<le> clock (n1 + 1) then Some (st1, Inr changed)
              else until_poll_quiet poll clock pane_ids deadline quiet_timeout st1 (n1 + 2) (Some quiet_start) changed)
           else if deadline \<le> clock n then Some (st1, Inr False)
           else if deadline \<le> clock (n + 1) then Some (st1, Inr changed)
           else until_poll_quiet poll clock pane_ids deadline quiet_timeout st1 (n + 3) quiet_since changed)"

definition poll_until_poll_quiet_state ::
  "('s \<Rightarrow> ustring \<Rightarrow> ('s \<times> (host_error, bool) res) option) \<Rightarrow> bool \<Rightarrow> (nat \<Rightarrow> nat) \<Rightarrow> ustring list \<Rightarrow> 's \<Rightarrow>
     nat \<Rightarrow> bool \<Rightarrow> ('s \<times> (host_error, bool) res) option" where
  \<comment> \<open>both variants, over their poll; \<open>notifies\<close>: the host has a descriptor\<close>
  "poll_until_poll_quiet_state poll notifies clock pane_ids st quiet_timeout initial_changed =
     (if \<not> notifies then poll_until_quiet poll clock pane_ids st
      else if initial_changed then
        until_poll_quiet poll clock pane_ids (clock 0 + LIVE_POST_INPUT_COALESCE_DEADLINE) quiet_timeout st 2
          (Some (clock 1)) True
      else
        until_poll_quiet poll clock pane_ids (clock 0 + LIVE_POST_INPUT_COALESCE_DEADLINE) quiet_timeout st 1 None False)"

record live_env =
  \<comment> \<open>what one turn of the loop finds: output has been signalled, the clock of the polls, the time of the session\<close>
  le_host_ready :: bool
  le_clock :: "nat \<Rightarrow> nat"
  le_now :: u64

datatype turn_end = TurnGoesOn bool | TurnEnds "(serve_error, unit) res"

definition poll_live_client_sources :: "bool \<Rightarrow> live_env \<Rightarrow> frame_read list \<Rightarrow> bool \<times> bool \<times> frame_read list" where
  \<comment> \<open>the poll at the start of a turn and the second one, for the client, when only the host was ready\<close>
  "poll_live_client_sources notifies env reads =
     (let host_output = (notifies \<and> le_host_ready env) in
      case stream_readable reads of
        (client_input, rest) \<Rightarrow>
          if host_output \<and> \<not> client_input
          then (case stream_readable rest of (client_input1, rest1) \<Rightarrow> (client_input1, host_output, rest1))
          else (client_input, host_output, rest))"

definition live_surfaces :: "'s live_ops \<Rightarrow> ustring list \<Rightarrow> 's live_stream \<Rightarrow> 's live_stream" where
  "live_surfaces ops leafs v =
     (case write_changed_surface_frames (lo_session ops (vs_state v)) (vs_seq v) leafs (vs_known v) of
        (frames, seq, known) \<Rightarrow> v\<lparr>vs_written := vs_written v @ frames, vs_seq := seq, vs_known := known\<rparr>)"

definition live_host_error :: "'s live_ops \<Rightarrow> host_error \<Rightarrow> 's live_stream \<Rightarrow> 's live_stream" where
  "live_host_error ops e v =
     live_say (\<lambda>seq. protocol_error (lo_session ops (vs_state v)) seq ErrUnknown
       (lit ''output polling failed: '' @ lo_error_text ops e) (Some (host_error_pane_id e)) 0) v"

definition live_settle ::
  "'s live_ops \<Rightarrow> bool \<Rightarrow> ustring list \<Rightarrow> live_env \<Rightarrow> bool \<Rightarrow> bool \<Rightarrow> 's live_stream \<Rightarrow>
     ('s live_stream \<times> turn_end) option" where
  \<comment> \<open>the wait for quiet and the frames after it; \<open>hold\<close>: there was input, the turns are limited and the host
     notifies; \<open>count\<close>: the turn counts anyway\<close>
  "live_settle ops notifies leafs env hold count v =
     Option.bind
       (if hold
        then poll_until_poll_quiet_state (lo_poll ops (le_now env)) notifies (le_clock env) leafs (vs_state v)
               LIVE_POST_INPUT_POLL_TIMEOUT False
        else if notifies then Some (vs_state v, Inr False)
        else poll_until_quiet (lo_poll ops (le_now env)) (le_clock env) leafs (vs_state v))
       (\<lambda>(st, r).
          case r of
            Inl e \<Rightarrow> Some (live_host_error ops e (v\<lparr>vs_state := st\<rparr>), TurnEnds (Inr ()))
          | Inr changed \<Rightarrow> Some (live_surfaces ops leafs (v\<lparr>vs_state := st\<rparr>), TurnGoesOn (count \<or> changed)))"

definition live_output ::
  "'s live_ops \<Rightarrow> bool \<Rightarrow> bool \<Rightarrow> ustring list \<Rightarrow> session_actor_info \<Rightarrow> live_env \<Rightarrow> bool \<Rightarrow> bool \<Rightarrow> ustring option \<Rightarrow>
     's live_stream \<Rightarrow> ('s live_stream \<times> turn_end) option" where
  \<comment> \<open>the part of a turn after the input, from the first poll on\<close>
  "live_output ops notifies bounded leafs actor env host_output count_cycle input_pane v =
     (let had_input = (input_pane \<noteq> None); hold = (had_input \<and> bounded \<and> notifies) in
      Option.bind
        (if had_input \<or> host_output
         then poll_once (lo_poll ops (le_now env)) (vs_state v) leafs (option_list input_pane)
         else Some (vs_state v, Inr False))
        (\<lambda>(st, r).
           case r of
             Inl e \<Rightarrow> Some (live_host_error ops e (v\<lparr>vs_state := st\<rparr>), TurnEnds (Inr ()))
           | Inr fast_changed \<Rightarrow>
               live_settle ops notifies leafs env hold
                 (count_cycle \<or> fast_changed \<or> host_output \<and> ac_mode actor = AttachReadOnly)
                 (if fast_changed \<and> \<not> hold then live_surfaces ops leafs (v\<lparr>vs_state := st\<rparr>) else v\<lparr>vs_state := st\<rparr>)))"

definition live_turn ::
  "'s live_ops \<Rightarrow> bool \<Rightarrow> bool \<Rightarrow> ustring list \<Rightarrow> session_actor_info \<Rightarrow> live_env \<Rightarrow> 's live_stream \<Rightarrow>
     ('s live_stream \<times> turn_end) option" where
  "live_turn ops notifies bounded leafs actor env v =
     (case poll_live_client_sources notifies env (vs_reads v) of
        (client_input, host_output, rest) \<Rightarrow>
          (case (if client_input then live_reads ops (le_now env) actor (v\<lparr>vs_reads := rest\<rparr>) False []
                 else (v\<lparr>vs_reads := rest\<rparr>, ReadsDone False [])) of
             (v1, ReadsReturn) \<Rightarrow> Some (v1, TurnEnds (Inr ()))
           | (v1, ReadsFail e) \<Rightarrow> Some (v1, TurnEnds (Inl e))
           | (v1, ReadsDone count_cycle inputs) \<Rightarrow>
               (case live_inputs ops (le_now env) actor v1 inputs None of
                  (v2, pane, False) \<Rightarrow> Some (v2, TurnEnds (Inr ()))
                | (v2, pane, True) \<Rightarrow>
                    live_output ops notifies bounded leafs actor env host_output count_cycle pane v2)))"

fun live_loop ::
  "'s live_ops \<Rightarrow> bool \<Rightarrow> usize \<Rightarrow> ustring list \<Rightarrow> session_actor_info \<Rightarrow> live_env list \<Rightarrow> usize \<Rightarrow> 's live_stream \<Rightarrow>
     ('s live_stream \<times> (serve_error, unit) res option) option" where
  \<comment> \<open>as many turns as there are environments; \<open>None\<close> in the result: the loop goes on after them.
     A limit of \<open>usize::MAX\<close> is none\<close>
  "live_loop ops notifies cycles leafs actor [] completed v =
     Some (v, if completed < cycles then None else Some (Inr ()))"
| "live_loop ops notifies cycles leafs actor (env # envs) completed v =
     (if completed < cycles then
        (case live_turn ops notifies (cycles \<noteq> U64_MAX) leafs actor env v of
           None \<Rightarrow> None
         | Some (v1, TurnEnds r) \<Rightarrow> Some (v1, Some r)
         | Some (v1, TurnGoesOn counted) \<Rightarrow>
             live_loop ops notifies cycles leafs actor envs (if counted then completed + 1 else completed) v1)
      else Some (v, Some (Inr ())))"

definition known_surface_versions_from_request :: "attach_request \<Rightarrow> (ustring, u64) btree" where
  "known_surface_versions_from_request request =
     foldl (\<lambda>m k. bt_put (ks_pane_id k) (ks_version k) m) [] (aq_known_surfaces request)"

definition known_after_attach :: "attach_request \<Rightarrow> session \<Rightarrow> ustring \<Rightarrow> (ustring, u64) btree" where
  "known_after_attach request s pane_id =
     (let known = known_surface_versions_from_request request in
      case surface_version s pane_id of Some current \<Rightarrow> bt_put pane_id current known | None \<Rightarrow> known)"

definition serve_live ::
  "'s live_ops \<Rightarrow> bool \<Rightarrow> attach_request \<Rightarrow> usize \<Rightarrow> live_env list \<Rightarrow> 's \<Rightarrow> frame_read list \<Rightarrow>
     ('s live_stream \<times> (serve_error, unit) res option) option" where
  "serve_live ops notifies request cycles envs st reads =
     (case write_attach_handshake (lo_session ops st) request 1 of
        (s, frames, seq, target) \<Rightarrow>
          (let v = \<lparr>vs_state = lo_with_session ops s st, vs_reads = reads, vs_written = frames, vs_seq = seq,
                    vs_known = []\<rparr> in
           case target of
             None \<Rightarrow> Some (v, Some (Inr ()))
           | Some (pane_id, actor) \<Rightarrow>
               live_loop ops notifies cycles (leaf_pane_ids s) actor envs 0
                 (v\<lparr>vs_known := known_after_attach request s pane_id\<rparr>)))"

definition serve_live_attached_client where
  "serve_live_attached_client eops ops = serve_live (direct_live eops ops)"

definition serve_live_attached_client_with_session_actor where
  "serve_live_attached_client_with_session_actor eops ops = serve_live (actor_live eops ops)"

lemma until_poll_quiet_ends:
  assumes poll: "\<And>st k. P st \<Longrightarrow> \<exists>st' r. poll st k = Some (st', r) \<and> P st'" and "P st"
    and clock: "\<And>m. N \<le> m \<Longrightarrow> deadline \<le> clock m"
  shows "quiet_result P c (until_poll_quiet poll clock ks deadline quiet st n q c)"
  using \<open>P st\<close>
proof (induction "N - n" arbitrary: st n q c rule: less_induct)
  case less
  from poll_each_ends [of P poll, OF poll less(2)] obtain st1 r where
    st1: "poll_each poll st ks False = Some (st1, r)" "P st1" by blast
  have rec: "quiet_result P c' (until_poll_quiet poll clock ks deadline quiet st1 m q' c')"
    if "\<not> deadline \<le> clock j" "n \<le> j" "n < m" for j m q' c'
  proof -
    have "j < N" using clock [of j] that(1) by (meson not_le_imp_less)
    then have "N - m < N - n" using that by linarith
    from less(1) [OF this st1(2)] show ?thesis .
  qed
  have weaken: "quiet_result P True x \<Longrightarrow> quiet_result P c x" for x by (auto simp: quiet_result_def)
  note unfold = until_poll_quiet.simps [of poll clock ks deadline quiet st]
  show ?case
  proof (cases r)
    case (Inl e)
    with st1 show ?thesis by (simp add: unfold)
  next
    case (Inr cycle)
    consider "cycle" | "\<not> cycle" "c" "q = None" | s where "\<not> cycle" "c" "q = Some s" | "\<not> cycle" "\<not> c" by (cases q) blast+
    then show ?thesis
    proof cases
      case 1
      with st1 Inr rec [where j = n and m = "n + 1" and q' = None and c' = True] weaken show ?thesis by (simp add: unfold)
    next
      case 2
      with st1 Inr rec [where j = "n + 2" and m = "n + 3"] show ?thesis by (simp add: unfold numeral_eq_Suc)
    next
      case 3
      with st1 Inr rec [where j = "n + 1" and m = "n + 2"] show ?thesis by (simp add: unfold)
    next
      case 4
      with st1 Inr rec [where j = n and m = "n + 3"] show ?thesis by (simp add: unfold)
    qed
  qed
qed

subsection \<open>What the loop relies on\<close>

lemma changed_frames_numbered:
  "write_changed_surface_frames s seq ks known = (frames, seq', known') \<Longrightarrow>
     numbered seq frames \<and> seq' = seq + length frames"
proof (induction s seq ks known arbitrary: frames seq' known' rule: write_changed_surface_frames.induct)
  case (2 s seq k ks known)
  show ?case
  proof (cases "surface_version s k")
    case None
    with 2 show ?thesis by simp
  next
    case (Some current)
    let ?r = "case bt_get known k of Some x \<Rightarrow> surface_response_for_known_version current x
        (case surface_patch_kind s k of Some p \<Rightarrow> p | None \<Rightarrow> PatchReplaceRows) | None \<Rightarrow> Some ResponseSnapshot"
    let ?f = "Option.bind ?r (\<lambda>r. surface_response_frame s k r seq)"
    let ?seq = "case ?f of Some _ \<Rightarrow> seq + 1 | None \<Rightarrow> seq"
    obtain fs n m where rest: "write_changed_surface_frames s ?seq ks (bt_put k current known) = (fs, n, m)"
      by (metis prod_cases3)
    have ih: "numbered ?seq fs \<and> n = ?seq + length fs"
      using "2.IH"(2) [OF Some refl refl refl rest] .
    have res: "frames = option_list ?f @ fs" "seq' = n" using "2.prems" Some rest by (simp_all add: Let_def)
    show ?thesis
    proof (cases ?f)
      case None
      with ih res show ?thesis by (simp add: option_list_def)
    next
      case (Some f)
      then obtain r where "surface_response_frame s k r seq = Some f" by (auto simp: bind_eq_Some_conv)
      with surface_frame_number [OF this] ih res Some show ?thesis by (simp add: option_list_def)
    qed
  qed
qed simp

definition caught_up :: "session \<Rightarrow> ustring list \<Rightarrow> (ustring, u64) btree \<Rightarrow> bool" where
  \<comment> \<open>of every pane that is there, the version sent is the current one\<close>
  "caught_up s leafs known \<longleftrightarrow> list_all (\<lambda>k. surface_version s k = None \<or> bt_get known k = surface_version s k) leafs"

lemma changed_frames_known:
  "write_changed_surface_frames s seq ks known = (frames, seq', known') \<Longrightarrow> bt_sorted known \<Longrightarrow>
     bt_sorted known' \<and>
     (\<forall>k. bt_get known' k = (if k \<in> set ks \<and> surface_version s k \<noteq> None then surface_version s k else bt_get known k))"
proof (induction s seq ks known arbitrary: frames seq' known' rule: write_changed_surface_frames.induct)
  case (2 s seq k ks known)
  show ?case
  proof (cases "surface_version s k")
    case None
    with 2 show ?thesis by auto
  next
    case (Some current)
    let ?r = "case bt_get known k of Some x \<Rightarrow> surface_response_for_known_version current x
        (case surface_patch_kind s k of Some p \<Rightarrow> p | None \<Rightarrow> PatchReplaceRows) | None \<Rightarrow> Some ResponseSnapshot"
    let ?f = "Option.bind ?r (\<lambda>r. surface_response_frame s k r seq)"
    let ?seq = "case ?f of Some _ \<Rightarrow> seq + 1 | None \<Rightarrow> seq"
    obtain fs n m where rest: "write_changed_surface_frames s ?seq ks (bt_put k current known) = (fs, n, m)"
      by (metis prod_cases3)
    have "known' = m" using "2.prems"(1) Some rest by (simp add: Let_def)
    with "2.IH"(2) [OF Some refl refl refl rest bt_sorted_put [OF "2.prems"(2)]] Some show ?thesis
      by (auto simp: bt_get_put [OF "2.prems"(2)])
  qed
qed simp

lemma changed_frames_catch_up:
  "write_changed_surface_frames s seq ks known = (frames, seq', known') \<Longrightarrow> bt_sorted known \<Longrightarrow> caught_up s ks known'"
  using changed_frames_known [of s seq ks known] by (auto simp: caught_up_def list_all_iff)

lemma known_from_request_sorted: "bt_sorted (known_surface_versions_from_request request)"
proof -
  have "bt_sorted (foldl (\<lambda>m k. bt_put (ks_pane_id k) (ks_version k) m) m ks)" if "bt_sorted m" for m and ks :: "known_surface_version list"
    using that by (induction ks arbitrary: m) (simp_all add: bt_sorted_put)
  then show ?thesis by (simp add: known_surface_versions_from_request_def)
qed

lemma known_after_attach_sorted: "bt_sorted (known_after_attach request s k)"
  by (auto simp: known_after_attach_def Let_def known_from_request_sorted bt_sorted_put split: option.split)

lemma read_only_reads:
  assumes "\<not> input_allowed actor" and "live_reads ops now actor v c is = (v', x)"
  shows "vs_state v' = vs_state v \<and> (\<forall>c' is'. x = ReadsDone c' is' \<longrightarrow> is' = is)"
  using assms(2)
proof (induction "length (vs_reads v)" arbitrary: v c rule: less_induct)
  case less
  obtain r rest where read: "read_live_client_frame_from_stream (vs_reads v) = (r, rest)" by fastforce
  note unfold = live_reads.simps [of ops now actor v c "is"] read
  show ?case
  proof (cases "\<exists>f. r = Inr (ClientFrame f)")
    case False
    with less.prems show ?thesis by (auto simp: unfold split: sum.splits live_client_read.splits)
  next
    case True
    then obtain f where f: "r = Inr (ClientFrame f)" by blast
    obtain v1 c1 is1 x1 where fr: "live_frame ops now actor (v\<lparr>vs_reads := rest\<rparr>) c is f = (v1, c1, is1, x1)"
      by (metis prod_cases4)
    have same: "vs_state v1 = vs_state v" "is1 = is"
      using fr assms(1)
      by (cases f; auto simp: live_frame_def live_fetch_def live_resize_def Let_def split: option.splits prod.splits)+
    have short: "length (vs_reads v1) < length (vs_reads v)" using live_turn_shorter [OF read [unfolded f] fr] .
    obtain b rest1 where more: "stream_readable (vs_reads v1) = (b, rest1)" by fastforce
    have short1: "length (vs_reads (v1\<lparr>vs_reads := rest1\<rparr>)) < length (vs_reads v)"
      using short readable_shorter [OF more] by simp
    show ?thesis
    proof (cases x1)
      case FrameNext
      with less.prems less.hyps [OF short1] same show ?thesis by (cases b) (auto simp: unfold f fr more)
    next
      case FrameSkips
      with less.prems less.hyps [OF short] same show ?thesis by (auto simp: unfold f fr)
    qed (use less.prems same in \<open>auto simp: unfold f fr\<close>)
  qed
qed

lemma live_reads_past_wait:
  "live_reads ops now actor (v\<lparr>vs_reads := ReadTimedOut # rest\<rparr>) c is = live_reads ops now actor (v\<lparr>vs_reads := rest\<rparr>) c is"
proof -
  have same: "read_live_client_frame_from_stream (ReadTimedOut # rest) = read_live_client_frame_from_stream rest"
    by (simp add: read_live_client_frame_from_stream_def blocking_read_def)
  obtain r rs where "read_live_client_frame_from_stream rest = (r, rs)" by fastforce
  then show ?thesis
    by (cases r rule: sum.exhaust; cases "projr r")
      (simp_all add: live_reads.simps [of ops now actor _ c "is"] same)
qed

lemma stale_fetch_stalls:
  \<comment> \<open>after the answer to a stale fetch the loop reads on, although nothing has arrived: neither output nor surfaces
     get their turn until the client sends another frame\<close>
  assumes "scrollback_fetch_from_frame e = Inr f" and "en_body e = BodyFetch w"
    and "scrollback_fetch_error_code (lo_session ops (vs_state v)) f = Some ErrStaleVersion"
  shows "live_reads ops now actor (v\<lparr>vs_reads := FrameRead e # ReadTimedOut # rest\<rparr>) c is =
    live_reads ops now actor
      (live_say (\<lambda>seq. scrollback_fetch_error (lo_session ops (vs_state v)) seq f ErrStaleVersion) (v\<lparr>vs_reads := rest\<rparr>))
      False is"
proof -
  have say: "live_say g (v\<lparr>vs_reads := rs\<rparr>) = (live_say g v)\<lparr>vs_reads := rs\<rparr>" for g rs by (simp add: live_say_def)
  show ?thesis
    using assms
    by (subst live_reads.simps)
      (simp add: read_live_client_frame_from_stream_def blocking_read_def live_client_frame_of_def live_frame_def
        live_fetch_def Let_def say live_reads_past_wait)
qed

lemma closing_drops_input:
  \<comment> \<open>a client that closes right after its input: the input is read, but never forwarded\<close>
  assumes "input_allowed actor" and "live_client_frame_of e = Inr (ClientFrame (ClientInput i))" and "vs_reads v = [FrameRead e]"
  shows "live_turn ops notifies bounded leafs actor env v = Some (v\<lparr>vs_reads := []\<rparr>, TurnEnds (Inr ()))"
proof -
  have "live_reads ops now actor (v\<lparr>vs_reads := []\<rparr>) c is = (v\<lparr>vs_reads := []\<rparr>, ReadsReturn)" for now c "is"
    by (simp add: live_reads.simps read_live_client_frame_from_stream_def blocking_read_def)
  then have "live_reads ops now actor (v\<lparr>vs_reads := [FrameRead e]\<rparr>) False [] = (v\<lparr>vs_reads := []\<rparr>, ReadsReturn)" for now
    using assms(1,2)
    by (simp add: live_reads.simps [of ops now actor "v\<lparr>vs_reads := [FrameRead e]\<rparr>"] read_live_client_frame_from_stream_def
        blocking_read_def live_frame_def stream_readable_def)
  then show ?thesis
    using assms(3) by (simp add: live_turn_def poll_live_client_sources_def stream_readable_def Let_def)
qed

definition live_kept :: "'s live_ops \<Rightarrow> ('s \<Rightarrow> bool) \<Rightarrow> session \<Rightarrow> 's \<Rightarrow> bool" where
  \<comment> \<open>a good state whose session came from the given one\<close>
  "live_kept ops good s st \<longleftrightarrow> good st \<and> commanded s (lo_session ops st)"

definition live_tidy :: "'s live_ops \<Rightarrow> ('s \<Rightarrow> bool) \<Rightarrow> session \<Rightarrow> 's live_stream \<Rightarrow> bool" where
  \<comment> \<open>and the frames written are numbered from one on, with the known versions in order\<close>
  "live_tidy ops good s v \<longleftrightarrow>
     live_kept ops good s (vs_state v) \<and> numbered 1 (vs_written v) \<and> vs_seq v = 1 + length (vs_written v) \<and>
     bt_sorted (vs_known v)"

locale live_session =
  fixes ops :: "'s live_ops" and good :: "'s \<Rightarrow> bool"
  assumes with_session: "good st \<Longrightarrow> good (lo_with_session ops s st) \<and> lo_session ops (lo_with_session ops s st) = s"
    and forwarded: "good st \<Longrightarrow> lo_forwarded_bytes ops st i = (st', b) \<Longrightarrow>
      good st' \<and> lo_session ops st' = lo_session ops st"
    and accept_input: "good st \<Longrightarrow> good (lo_accept_input ops now src i bytes st) \<and>
      lo_session ops (lo_accept_input ops now src i bytes st) = lo_session ops st"
    and write_input: "good st \<Longrightarrow> lo_write_input ops st k bytes = (st', w) \<Longrightarrow>
      good st' \<and> lo_session ops st' = lo_session ops st"
    and resize_host: "good st \<Longrightarrow> lo_resize_host ops st k cols rows = (st', w) \<Longrightarrow>
      good st' \<and> lo_session ops st' = lo_session ops st"
    and commit_resize: "good st \<Longrightarrow> lo_commit_resize ops now src st k cols rows = (st', c) \<Longrightarrow>
      good st' \<and> commanded (lo_session ops st) (lo_session ops st')"
    and poll: "good st \<Longrightarrow> \<exists>st' r. lo_poll ops now st k = Some (st', r) \<and> good st' \<and>
      commanded (lo_session ops st) (lo_session ops st')"
begin

abbreviation kept :: "session \<Rightarrow> 's \<Rightarrow> bool" where
  "kept \<equiv> live_kept ops good"

lemma kept_refl: "good st \<Longrightarrow> kept (lo_session ops st) st"
  by (simp add: live_kept_def commanded_steps)

lemma kept_steps:
  assumes "kept s st"
  shows "lo_forwarded_bytes ops st i = (st', b) \<Longrightarrow> kept s st'"
    and "kept s (lo_accept_input ops now src i bytes st)"
    and "lo_write_input ops st k bytes = (st', w) \<Longrightarrow> kept s st'"
    and "lo_resize_host ops st k cols rows = (st', w) \<Longrightarrow> kept s st'"
    and "lo_commit_resize ops now src st k cols rows = (st', c) \<Longrightarrow> kept s st'"
    and "\<exists>st' r. lo_poll ops now st k = Some (st', r) \<and> kept s st'"
proof -
  from assms have g: "good st" and c: "commanded s (lo_session ops st)" by (simp_all add: live_kept_def)
  show "lo_forwarded_bytes ops st i = (st', b) \<Longrightarrow> kept s st'" using forwarded [OF g] c by (simp add: live_kept_def)
  show "kept s (lo_accept_input ops now src i bytes st)" using accept_input [OF g] c by (simp add: live_kept_def)
  show "lo_write_input ops st k bytes = (st', w) \<Longrightarrow> kept s st'" using write_input [OF g] c by (simp add: live_kept_def)
  show "lo_resize_host ops st k cols rows = (st', w) \<Longrightarrow> kept s st'" using resize_host [OF g] c by (simp add: live_kept_def)
  show "lo_commit_resize ops now src st k cols rows = (st', c) \<Longrightarrow> kept s st'"
    using commit_resize [OF g] commanded_steps(2) [OF c] by (simp add: live_kept_def)
  show "\<exists>st' r. lo_poll ops now st k = Some (st', r) \<and> kept s st'"
    using poll [OF g, of now k] commanded_steps(2) [OF c] by (auto simp: live_kept_def)
qed

abbreviation tidy :: "session \<Rightarrow> 's live_stream \<Rightarrow> bool" where
  "tidy \<equiv> live_tidy ops good"

lemma tidy_say: "tidy s v \<Longrightarrow> en_seq (f (vs_seq v)) = vs_seq v \<Longrightarrow> tidy s (live_say f v)"
  by (simp add: live_tidy_def numbered_append)

lemma tidy_state: "tidy s v \<Longrightarrow> kept s st \<Longrightarrow> tidy s (v\<lparr>vs_state := st\<rparr>)"
  "tidy s v \<Longrightarrow> tidy s (v\<lparr>vs_reads := rest\<rparr>)" "tidy s v \<Longrightarrow> kept s (vs_state v)"
  by (simp_all add: live_tidy_def)

lemma pane_not_found_number [simp]: "en_seq (pane_not_found_error_with_input_seq s seq k n) = seq"
  by (simp add: pane_not_found_error_with_input_seq_def)

lemma pong_number [simp]: "en_seq (ping_frame p session c seq b) = seq"
  by (simp add: ping_frame_def)

lemma live_fetch_tidy: "tidy s v \<Longrightarrow> live_fetch ops v f = (v', x) \<Longrightarrow> tidy s v'"
  by (auto simp: live_fetch_def Let_def scrollback_frame_number intro!: tidy_say split: option.splits)

lemma live_resize_tidy:
  assumes v: "tidy s v" and r: "live_resize ops now actor v r = (v', x)" shows "tidy s v'"
proof -
  obtain st1 w where h: "lo_resize_host ops (vs_state v) (rs_pane_id r) (rs_cols r) (rs_rows r) = (st1, w)"
    by fastforce
  obtain st2 c where m: "lo_commit_resize ops now (ac_id actor) st1 (rs_pane_id r) (rs_cols r) (rs_rows r) = (st2, c)"
    by fastforce
  have k1: "kept s st1" using kept_steps(4) [OF tidy_state(3) [OF v] h] .
  have k2: "kept s st2" using kept_steps(5) [OF k1 m] .
  show ?thesis
    using r v k1 k2 h m
    by (auto simp: live_resize_def Let_def intro!: tidy_say tidy_state split: if_splits sum.splits)
qed

lemma live_frame_tidy:
  assumes v: "tidy s v" and f: "live_frame ops now actor v c is f = (v', c', is', x)" shows "tidy s v'"
proof (cases f)
  case (ClientScrollback g)
  with f live_fetch_tidy [OF v, of g] show ?thesis by (auto simp: live_frame_def split: prod.splits)
next
  case (ClientResize r)
  with f live_resize_tidy [OF v, of now actor r] show ?thesis by (auto simp: live_frame_def split: prod.splits)
next
  case (ClientInput i)
  with f v show ?thesis by (auto simp: live_frame_def intro!: tidy_say split: if_splits)
next
  case (ClientPing p)
  with f v show ?thesis by (auto simp: live_frame_def intro!: tidy_say)
qed

lemma live_reads_tidy: "tidy s v \<Longrightarrow> live_reads ops now actor v c is = (v', x) \<Longrightarrow> tidy s v'"
proof (induction "length (vs_reads v)" arbitrary: v c "is" rule: less_induct)
  case less
  obtain r rest where read: "read_live_client_frame_from_stream (vs_reads v) = (r, rest)" by fastforce
  note unfold = live_reads.simps [of ops now actor v c "is"] read
  show ?case
  proof (cases "\<exists>f. r = Inr (ClientFrame f)")
    case False
    with less.prems show ?thesis
      by (auto simp: unfold tidy_state split: sum.splits live_client_read.splits)
  next
    case True
    then obtain f where f: "r = Inr (ClientFrame f)" by blast
    obtain v1 c1 is1 x1 where fr: "live_frame ops now actor (v\<lparr>vs_reads := rest\<rparr>) c is f = (v1, c1, is1, x1)"
      by (metis prod_cases4)
    have t: "tidy s v1" using live_frame_tidy [OF tidy_state(2) [OF less.prems(1)] fr] .
    have short: "length (vs_reads v1) < length (vs_reads v)" using live_turn_shorter [OF read [unfolded f] fr] .
    obtain b rest1 where more: "stream_readable (vs_reads v1) = (b, rest1)" by fastforce
    have short1: "length (vs_reads (v1\<lparr>vs_reads := rest1\<rparr>)) < length (vs_reads v)"
      using short readable_shorter [OF more] by simp
    note ih = less.hyps [OF short t] less.hyps [OF short1 tidy_state(2) [OF t]]
    show ?thesis
    proof (cases x1)
      case FrameNext
      with less.prems(2) ih(2) t show ?thesis
        by (cases b) (auto simp: unfold f fr more tidy_state)
    next
      case FrameSkips
      with less.prems(2) ih(1) show ?thesis by (simp add: unfold f fr)
    qed (use less.prems(2) t in \<open>simp_all add: unfold f fr\<close>)
  qed
qed

lemma live_inputs_tidy:
  assumes "tidy s v" and "live_inputs ops now actor v is p = (v', p', b)" shows "tidy s v'"
  using assms
proof (induction "is" arbitrary: v p)
  case (Cons i "is")
  let ?s = "lo_session ops (vs_state v)" and ?k = "is_pane_id i"
  show ?case
  proof (cases "surface_version ?s ?k = None \<or> forwarding_rejection i ?s \<noteq> None")
    case True
    with Cons.prems show ?thesis by (auto simp: Let_def intro!: tidy_say split: if_splits)
  next
    case False
    then have go: "surface_version ?s ?k \<noteq> None" "forwarding_rejection i ?s = None" by simp_all
    obtain st1 bytes where fwd: "lo_forwarded_bytes ops (vs_state v) i = (st1, bytes)" by fastforce
    have k1: "kept s st1" using kept_steps(1) [OF tidy_state(3) [OF Cons.prems(1)] fwd] .
    show ?thesis
    proof (cases bytes)
      case (Inl e)
      with go fwd Cons.prems k1 show ?thesis by (auto simp: Let_def intro!: tidy_say tidy_state)
    next
      case (Inr bs)
      obtain st2 w where wr: "lo_write_input ops (lo_accept_input ops now (ac_id actor) i bs st1) ?k bs = (st2, w)"
        by fastforce
      have k2: "kept s st2" using kept_steps(3) [OF kept_steps(2) [OF k1] wr] .
      show ?thesis
      proof (cases w)
        case (Inl e)
        with go fwd Inr wr Cons.prems k2 show ?thesis
          by (auto simp: Let_def intro!: tidy_say tidy_state split: if_splits)
      next
        case (Inr u)
        have "live_inputs ops now actor (v\<lparr>vs_state := st2\<rparr>) is (Some ?k) = (v', p', b)"
          using Cons.prems(2) go fwd \<open>bytes = Inr bs\<close> wr Inr by (simp add: Let_def)
        from Cons.IH [OF tidy_state(1) [OF Cons.prems(1) k2] this] show ?thesis .
      qed
    qed
  qed
qed simp

lemma live_surfaces_tidy:
  assumes "tidy s v" shows "tidy s (live_surfaces ops leafs v)"
proof -
  obtain fs n m where w: "write_changed_surface_frames (lo_session ops (vs_state v)) (vs_seq v) leafs (vs_known v) = (fs, n, m)"
    by (metis prod_cases3)
  from changed_frames_numbered [OF w] changed_frames_known [OF w] assms w show ?thesis
    by (simp add: live_surfaces_def live_tidy_def numbered_append)
qed

lemma polls_end:
  assumes "kept s st"
  shows "\<exists>st' r. lo_poll ops now st k = Some (st', r) \<and> kept s st'"
    and "\<exists>st' r. poll_once (lo_poll ops now) st ks ps = Some (st', r) \<and> kept s st'"
    and "clock_passes LIVE_POST_INPUT_COALESCE_DEADLINE clock \<Longrightarrow>
      \<exists>st' r. poll_until_quiet (lo_poll ops now) clock ks st = Some (st', r) \<and> kept s st'"
    and "clock_passes LIVE_POST_INPUT_COALESCE_DEADLINE clock \<Longrightarrow>
      \<exists>st' r. poll_until_poll_quiet_state (lo_poll ops now) notifies clock ks st q c = Some (st', r) \<and> kept s st'"
proof -
  show "\<exists>st' r. lo_poll ops now st k = Some (st', r) \<and> kept s st'" by (rule kept_steps(6) [OF assms])
  show "\<exists>st' r. poll_once (lo_poll ops now) st ks ps = Some (st', r) \<and> kept s st'"
    by (rule poll_once_ends [OF kept_steps(6) assms])
next
  assume "clock_passes LIVE_POST_INPUT_COALESCE_DEADLINE clock"
  then obtain N where N: "\<And>m. N \<le> m \<Longrightarrow> clock 0 + LIVE_POST_INPUT_COALESCE_DEADLINE \<le> clock m"
    by (auto simp: clock_passes_def)
  have N': "clock 0 + LIVE_HOST_OUTPUT_POLL_DEADLINE \<le> clock m" if "N \<le> m" for m
    using N [OF that] by (simp add: LIVE_POST_INPUT_COALESCE_DEADLINE_def LIVE_HOST_OUTPUT_POLL_DEADLINE_def)
  have quiet: "quiet_result (kept s) False (poll_until_quiet (lo_poll ops now) clock ks st)"
    unfolding poll_until_quiet_def by (rule until_quiet_ends [OF kept_steps(6) assms N'])
  then show "\<exists>st' r. poll_until_quiet (lo_poll ops now) clock ks st = Some (st', r) \<and> kept s st'"
    by (auto simp: quiet_result_def)
  have poll: "quiet_result (kept s) c (until_poll_quiet (lo_poll ops now) clock ks
      (clock 0 + LIVE_POST_INPUT_COALESCE_DEADLINE) q st n x c)" for n x
    by (rule until_poll_quiet_ends [OF kept_steps(6) assms N])
  show "\<exists>st' r. poll_until_poll_quiet_state (lo_poll ops now) notifies clock ks st q c = Some (st', r) \<and> kept s st'"
    using quiet poll [of 2 "Some (clock 1)"] poll [of 1 None]
    by (cases notifies; cases c) (auto simp: poll_until_poll_quiet_state_def quiet_result_def simp del: One_nat_def)
qed

lemma live_settle_ends:
  assumes v: "tidy s v" and clock: "clock_passes LIVE_POST_INPUT_COALESCE_DEADLINE (le_clock env)"
  shows "\<exists>v' x. live_settle ops notifies leafs env hold count v = Some (v', x) \<and> tidy s v'"
proof -
  let ?poll = "lo_poll ops (le_now env)"
  note k = tidy_state(3) [OF v]
  obtain st r where polled: "(if hold then poll_until_poll_quiet_state ?poll notifies (le_clock env) leafs (vs_state v)
        LIVE_POST_INPUT_POLL_TIMEOUT False
      else if notifies then Some (vs_state v, Inr False) else poll_until_quiet ?poll (le_clock env) leafs (vs_state v)) =
      Some (st, r)" "kept s st"
    using polls_end(3) [OF k clock, of "le_now env" leafs] k
      polls_end(4) [OF k clock, of "le_now env" notifies leafs LIVE_POST_INPUT_POLL_TIMEOUT False]
    by (cases hold; cases notifies) fastforce+
  have "tidy s (v\<lparr>vs_state := st\<rparr>)" using tidy_state(1) [OF v polled(2)] .
  then have "tidy s (live_host_error ops e (v\<lparr>vs_state := st\<rparr>))" "tidy s (live_surfaces ops leafs (v\<lparr>vs_state := st\<rparr>))" for e
    by (simp_all add: live_host_error_def tidy_say live_surfaces_tidy)
  then show ?thesis unfolding live_settle_def polled(1) by (cases r) simp_all
qed

lemma live_output_ends:
  assumes v: "tidy s v" and clock: "clock_passes LIVE_POST_INPUT_COALESCE_DEADLINE (le_clock env)"
  shows "\<exists>v' x. live_output ops notifies bounded leafs actor env host count pane v = Some (v', x) \<and> tidy s v'"
proof -
  let ?poll = "lo_poll ops (le_now env)" and ?had = "pane \<noteq> None"
  obtain st r where polled: "(if ?had \<or> host then poll_once ?poll (vs_state v) leafs (option_list pane)
      else Some (vs_state v, Inr False)) = Some (st, r)" "kept s st"
    using polls_end(2) [OF tidy_state(3) [OF v], of "le_now env" leafs "option_list pane"] tidy_state(3) [OF v]
    by (cases "?had \<or> host") fastforce+
  have v1: "tidy s (v\<lparr>vs_state := st\<rparr>)" using tidy_state(1) [OF v polled(2)] .
  then have "tidy s (live_host_error ops e (v\<lparr>vs_state := st\<rparr>))" "tidy s (live_surfaces ops leafs (v\<lparr>vs_state := st\<rparr>))" for e
    by (simp_all add: live_host_error_def tidy_say live_surfaces_tidy)
  note t = this v1
  show ?thesis
  proof (cases r)
    case (Inl e)
    with t(1) show ?thesis unfolding live_output_def Let_def polled(1) by simp
  next
    case (Inr fast)
    let ?hold = "?had \<and> bounded \<and> notifies"
    have "tidy s (if fast \<and> \<not> ?hold then live_surfaces ops leafs (v\<lparr>vs_state := st\<rparr>) else v\<lparr>vs_state := st\<rparr>)"
      using t by simp
    from live_settle_ends [OF this clock, of notifies leafs ?hold
        "count \<or> fast \<or> host \<and> ac_mode actor = AttachReadOnly"]
    show ?thesis unfolding live_output_def Let_def polled(1) Inr by simp
  qed
qed

lemma live_turn_ends:
  assumes v: "tidy s v" and clock: "clock_passes LIVE_POST_INPUT_COALESCE_DEADLINE (le_clock env)"
  shows "\<exists>v' x. live_turn ops notifies bounded leafs actor env v = Some (v', x) \<and> tidy s v'"
proof -
  obtain c host rest where src: "poll_live_client_sources notifies env (vs_reads v) = (c, host, rest)" by (metis prod_cases3)
  let ?reads = "if c then live_reads ops (le_now env) actor (v\<lparr>vs_reads := rest\<rparr>) False [] else (v\<lparr>vs_reads := rest\<rparr>, ReadsDone False [])"
  obtain v1 x1 where reads: "?reads = (v1, x1)" by fastforce
  have v1: "tidy s v1" using reads live_reads_tidy [OF tidy_state(2) [OF v]] v by (auto simp: tidy_state split: if_splits)
  show ?thesis
  proof (cases x1)
    case (ReadsDone count inputs)
    obtain v2 pane b where inp: "live_inputs ops (le_now env) actor v1 inputs None = (v2, pane, b)" by (metis prod_cases3)
    have v2: "tidy s v2" using live_inputs_tidy [OF v1 inp] .
    show ?thesis
      using src reads ReadsDone inp v2 live_output_ends [OF v2 clock]
      by (cases b) (simp_all add: live_turn_def)
  qed (use src reads v1 in \<open>simp_all add: live_turn_def\<close>)
qed

lemma live_settle_catches_up:
  assumes "tidy s v" and "live_settle ops notifies leafs env hold count v = Some (v', TurnGoesOn c)"
  shows "caught_up (lo_session ops (vs_state v')) leafs (vs_known v')"
proof -
  obtain st r where "(case r of Inl e \<Rightarrow> Some (live_host_error ops e (v\<lparr>vs_state := st\<rparr>), TurnEnds (Inr ()))
      | Inr changed \<Rightarrow> Some (live_surfaces ops leafs (v\<lparr>vs_state := st\<rparr>), TurnGoesOn (count \<or> changed))) =
      Some (v', TurnGoesOn c)"
    using assms(2) by (auto simp: live_settle_def bind_eq_Some_conv simp del: sum.case)
  then have v': "v' = live_surfaces ops leafs (v\<lparr>vs_state := st\<rparr>)" by (cases r) auto
  obtain fs n m where w: "write_changed_surface_frames (lo_session ops st) (vs_seq v) leafs (vs_known v) = (fs, n, m)"
    by (metis prod_cases3)
  with changed_frames_catch_up [OF w] assms(1) show ?thesis by (simp add: v' live_surfaces_def live_tidy_def)
qed

lemma live_output_catches_up:
  assumes v: "tidy s v" and out: "live_output ops notifies bounded leafs actor env host count pane v = Some (v', TurnGoesOn c)"
  shows "caught_up (lo_session ops (vs_state v')) leafs (vs_known v')"
proof -
  obtain v1 hold count' where "live_settle ops notifies leafs env hold count' v1 = Some (v', TurnGoesOn c)" "tidy s v1"
  proof -
    obtain st r where polled: "(if pane \<noteq> None \<or> host then poll_once (lo_poll ops (le_now env)) (vs_state v) leafs (option_list pane)
        else Some (vs_state v, Inr False)) = Some (st, r)" "kept s st"
      using polls_end(2) [OF tidy_state(3) [OF v], of "le_now env" leafs "option_list pane"] tidy_state(3) [OF v]
      by (cases "pane \<noteq> None \<or> host") fastforce+
    have v1: "tidy s (v\<lparr>vs_state := st\<rparr>)" using tidy_state(1) [OF v polled(2)] .
    obtain fast where r: "r = Inr fast"
      using out unfolding live_output_def Let_def polled(1) by (cases r) simp_all
    let ?hold = "pane \<noteq> None \<and> bounded \<and> notifies"
    let ?v1 = "if fast \<and> \<not> ?hold then live_surfaces ops leafs (v\<lparr>vs_state := st\<rparr>) else v\<lparr>vs_state := st\<rparr>"
    have "tidy s ?v1" using v1 live_surfaces_tidy by simp
    moreover have "live_settle ops notifies leafs env ?hold
        (count \<or> fast \<or> host \<and> ac_mode actor = AttachReadOnly) ?v1 = Some (v', TurnGoesOn c)"
      using out unfolding live_output_def Let_def polled(1) r by simp
    ultimately show ?thesis using that by blast
  qed
  then show ?thesis using live_settle_catches_up by blast
qed

lemma live_turn_catches_up:
  assumes v: "tidy s v" and turn: "live_turn ops notifies bounded leafs actor env v = Some (v', TurnGoesOn c)"
  shows "caught_up (lo_session ops (vs_state v')) leafs (vs_known v')"
proof -
  obtain cl host rest where src: "poll_live_client_sources notifies env (vs_reads v) = (cl, host, rest)" by (metis prod_cases3)
  let ?reads = "if cl then live_reads ops (le_now env) actor (v\<lparr>vs_reads := rest\<rparr>) False [] else (v\<lparr>vs_reads := rest\<rparr>, ReadsDone False [])"
  obtain v1 x1 where reads: "?reads = (v1, x1)" by fastforce
  have v1: "tidy s v1" using reads live_reads_tidy [OF tidy_state(2) [OF v]] v by (auto simp: tidy_state split: if_splits)
  obtain count inputs where x1: "x1 = ReadsDone count inputs"
    using turn src reads by (cases x1) (simp_all add: live_turn_def)
  obtain v2 pane b where inp: "live_inputs ops (le_now env) actor v1 inputs None = (v2, pane, b)" by (metis prod_cases3)
  have "live_output ops notifies bounded leafs actor env host count pane v2 = Some (v', TurnGoesOn c)"
    using turn src reads x1 inp by (cases b) (simp_all add: live_turn_def)
  from live_output_catches_up [OF live_inputs_tidy [OF v1 inp] this] show ?thesis .
qed

lemma read_only_turn_writes_nothing:
  assumes "\<not> input_allowed actor"
    and "(if cl then live_reads ops now actor (v\<lparr>vs_reads := rest\<rparr>) False [] else (v\<lparr>vs_reads := rest\<rparr>, ReadsDone False [])) = (v1, x)"
  shows "vs_state v1 = vs_state v \<and> (\<forall>c is. x = ReadsDone c is \<longrightarrow> is = [])"
  using read_only_reads [OF assms(1), of ops now "v\<lparr>vs_reads := rest\<rparr>" False "[]" v1 x] assms(2) by (auto split: if_splits)

lemma live_loop_ends:
  assumes "tidy s v" and "\<And>env. env \<in> set envs \<Longrightarrow> clock_passes LIVE_POST_INPUT_COALESCE_DEADLINE (le_clock env)"
  shows "\<exists>v' x. live_loop ops notifies cycles leafs actor envs n v = Some (v', x) \<and> tidy s v'"
  using assms
proof (induction envs arbitrary: n v)
  case (Cons env envs)
  have "clock_passes LIVE_POST_INPUT_COALESCE_DEADLINE (le_clock env)" using Cons.prems(2) by simp
  from live_turn_ends [OF Cons.prems(1) this, of notifies "cycles \<noteq> U64_MAX" leafs actor] obtain v1 x1 where
    t: "live_turn ops notifies (cycles \<noteq> U64_MAX) leafs actor env v = Some (v1, x1)" "tidy s v1" by blast
  have ih: "\<exists>v' x. live_loop ops notifies cycles leafs actor envs m v1 = Some (v', x) \<and> tidy s v'" for m
    using Cons.IH [OF t(2)] Cons.prems(2) by simp
  show ?case using t Cons.prems(1) ih by (cases x1) simp_all
qed simp

lemma serve_live_ends:
  assumes "good st" and "\<And>env. env \<in> set envs \<Longrightarrow> clock_passes LIVE_POST_INPUT_COALESCE_DEADLINE (le_clock env)"
  shows "\<exists>v x. serve_live ops notifies request cycles envs st reads = Some (v, x) \<and> tidy (lo_session ops st) v"
proof -
  obtain s frames seq target where hs: "write_attach_handshake (lo_session ops st) request 1 = (s, frames, seq, target)"
    by (metis prod_cases4)
  have t: "tidy (lo_session ops st) \<lparr>vs_state = lo_with_session ops s st, vs_reads = reads, vs_written = frames,
      vs_seq = seq, vs_known = known\<rparr>" if "bt_sorted known" for known
    using handshake_numbered [OF hs] handshake_commanded [OF hs] with_session [OF assms(1), of s] that
    by (simp add: live_tidy_def live_kept_def)
  show ?thesis
  proof (cases target)
    case None
    with hs t show ?thesis by (simp add: serve_live_def)
  next
    case (Some x)
    obtain k actor where x: "x = (k, actor)" by fastforce
    from live_loop_ends [OF t [OF known_after_attach_sorted] assms(2), of envs notifies cycles "leaf_pane_ids s" actor 0]
      hs Some x show ?thesis
      by (simp add: serve_live_def)
  qed
qed

end


subsection \<open>Both variants keep it\<close>

lemma bump_named [simp]: "workspace_named (bump s) = workspace_named s"
  by (simp add: bump_def workspace_named_def)

lemma resize_commanded: "commanded s (fst (commit_pane_resize_with_engine eops s k c r e))"
proof -
  have "pane_named (resize_pane_data c r u d)" if "pane_named d" for d u
    using that by (simp add: resize_pane_data_def pane_named_def frame_simps)
  then have "workspace_named (fst (commit_pane_resize_with_engine eops s k c r e))" if "workspace_named s"
    using that by (auto simp: commit_pane_resize_with_engine_def intro!: pane_mut_or_named split: option.split prod.split)
  moreover have "ss_id (fst (commit_pane_resize_with_engine eops s k c r e)) = ss_id s"
    by (auto simp: commit_pane_resize_with_engine_def harmless_resize frame_simps split: option.split prod.split)
  ultimately show ?thesis by (simp add: commanded_def commit_pane_resize_ok)
qed

lemma actor_resize_result:
  assumes "rests a" and "commit_pane_resize_with_session_actor eops ops now src (a, h) k c r = ((a', h'), x)"
  shows "rests a' \<and>
    actor_session a' = fst (commit_pane_resize_with_engine eops (actor_session a) k c r (engine_mut eops (sc_engines (sa_core a)) k))"
proof -
  let ?p = "\<lparr>pe_source_id = src, pe_lane = LaneClient, pe_session_mono_ms = now, pe_event = CommitPaneResize k c r\<rparr>"
  obtain core t where acc: "accept_pending eops (sa_core a) ?p = (core, t)" by fastforce
  have core: "sc_session core =
      fst (commit_pane_resize_with_engine eops (actor_session a) k c r (engine_mut eops (sc_engines (sa_core a)) k))"
    using acc by (auto simp: accept_pending_def apply_accepted_def Let_def apply_pane_resize_event_def actor_session_def
        split: prod.splits)
  from drain_one [OF assms(1) acc] obtain a1 where
    d: "drain_ready eops (actor_enqueue a ?p) = ([trace_record_from_transition t], a1)" "rests a1" "sa_core a1 = core" by blast
  obtain core2 ws where w: "drain_pane_pty_writes eops core k = (core2, ws)" by fastforce
  have core2: "sc_session core2 = sc_session core" using w by (auto simp: drain_pane_pty_writes_def split: prod.splits)
  have a': "a' = a1\<lparr>sa_core := core2\<rparr>"
    using assms(2) d w by (auto simp: commit_pane_resize_with_session_actor_def split: prod.splits sum.splits)
  with d(2) core core2 show ?thesis by (simp add: rests_iff actor_session_def)
qed

lemma actor_input_result:
  assumes "rests a"
  shows "rests (accept_pane_input_with_session_actor eops now src i bs a) \<and>
    actor_session (accept_pane_input_with_session_actor eops now src i bs a) = actor_session a"
proof -
  let ?p = "\<lparr>pe_source_id = src, pe_lane = LaneClient, pe_session_mono_ms = now,
      pe_event = ForwardPaneInput (is_pane_id i) (is_input_seq i) bs\<rparr>"
  obtain core t where acc: "accept_pending eops (sa_core a) ?p = (core, t)" by fastforce
  have core: "sc_session core = actor_session a"
    using acc by (auto simp: accept_pending_def apply_accepted_def Let_def workspace_step_def actor_session_def)
  from drain_one [OF assms acc] obtain a1 where
    "drain_ready eops (actor_enqueue a ?p) = ([trace_record_from_transition t], a1)" "rests a1" "sa_core a1 = core" by blast
  with core show ?thesis by (simp add: accept_pane_input_with_session_actor_def actor_session_def)
qed

sublocale pump_source \<subseteq> direct: live_session "direct_live eops ops" "\<lambda>_. True" for eops
proof
  fix now st k
  show "\<exists>st' r. lo_poll (direct_live eops ops) now st k = Some (st', r) \<and> True \<and>
      commanded (lo_session (direct_live eops ops) st) (lo_session (direct_live eops ops) st')"
    using direct_poll_served [of st eops k] by (auto simp: direct_live_def served_def)
next
  fix now src st k cols rows st' c
  assume "lo_commit_resize (direct_live eops ops) now src st k cols rows = (st', c)"
  then show "True \<and> commanded (lo_session (direct_live eops ops) st) (lo_session (direct_live eops ops) st')"
    using resize_commanded [of "fst st" eops k cols rows]
    by (auto simp: direct_live_def split: prod.splits) (metis fst_conv)
qed (auto simp: direct_live_def split: prod.splits)

sublocale pump_source \<subseteq> actor: live_session "actor_live eops ops" "\<lambda>st. rests (fst st)" for eops
proof
  fix now k and st :: "'a session_actor \<times> 'h"
  assume "rests (fst st)"
  then show "\<exists>st' r. lo_poll (actor_live eops ops) now st k = Some (st', r) \<and> rests (fst st') \<and>
      commanded (lo_session (actor_live eops ops) st) (lo_session (actor_live eops ops) st')"
    using actor_poll_commanded [of st eops now k] by (auto simp: actor_live_def case_prod_beta)
next
  fix now src k cols rows c and st st' :: "'a session_actor \<times> 'h"
  assume "rests (fst st)" and "lo_commit_resize (actor_live eops ops) now src st k cols rows = (st', c)"
  then show "rests (fst st') \<and> commanded (lo_session (actor_live eops ops) st) (lo_session (actor_live eops ops) st')"
    using actor_resize_result [of "fst st" eops ops now src "snd st" k cols rows "fst st'" "snd st'" c] resize_commanded
    by (simp add: actor_live_def case_prod_beta)
next
  fix now src i bytes and st :: "'a session_actor \<times> 'h"
  assume "rests (fst st)"
  then show "rests (fst (lo_accept_input (actor_live eops ops) now src i bytes st)) \<and>
      lo_session (actor_live eops ops) (lo_accept_input (actor_live eops ops) now src i bytes st) =
      lo_session (actor_live eops ops) st"
    using actor_input_result [of "fst st" eops now src i bytes] by (simp add: actor_live_def case_prod_beta)
qed (auto simp: actor_live_def rests_iff actor_session_def split: prod.splits)

end
