(* ===== verification/Async_Output.thy ===== *)
theory Async_Output
  imports Requests Wire_Frames
begin

text \<open>
  The queues between the session and the socket of a client that follows it live
  (\<open>crates/nmux-cli/src/local/async_live.rs\<close>): reliable frames wait in a bounded queue, and of the surfaces only
  the latest signal of each pane is kept. The task that writes to the socket takes reliable frames first; the
  task that reads from it turns frames into events. A frame is a value of the type \<open>'f\<close> with its length
  \<open>len\<close>; the two tasks and the session take turns, so that a reservation and its send are one step.

  The lemmas: the bytes counted are the bytes queued and neither they nor the frames pass their bounds, a refused
  frame leaves the queue as it was, frames come out in the order they went in, the writer ends when the session
  has dropped the queue and has then written all of it, and the reader ends on every stream.
\<close>

subsection \<open>The queues\<close>

datatype client_output_error =
  ReliableFrameQueueFull usize usize
| ReliableByteQueueFull usize usize usize
| SurfaceByteQueueFull usize usize
| ReliableQueueClosed
| SurfaceQueueClosed
| OutputWire wire_error
| OutputIo

record 'f surface_signal =
  sg_pane_id :: ustring
  sg_version :: u64
  sg_snapshot_required :: bool
  sg_snapshot_frame :: "'f option"
  sg_patch_frame :: "(u64 \<times> 'f) option"

record 'f signal_set =
  sm_generation :: u64
  sm_panes :: "(ustring, 'f surface_signal) btree"

definition signal_set_default :: "'f signal_set" where
  "signal_set_default = \<lparr>sm_generation = 0, sm_panes = []\<rparr>"

record 'f client_output =
  \<comment> \<open>both ends of the queue and of the watch; a watch holds the last value sent and whether it was seen\<close>
  co_queue :: "'f list"
  co_pending_bytes :: usize
  co_latest :: "'f signal_set"
  co_watched :: "'f signal_set"
  co_unseen :: bool
  co_frame_cap :: usize
  co_byte_cap :: usize
  co_surface_byte_cap :: usize
  co_sender_gone :: bool
  co_receiver_gone :: bool
  co_reliable_closed :: bool
  co_surface_closed :: bool

definition output_new :: "usize \<Rightarrow> usize \<Rightarrow> 'f client_output" where
  "output_new frame_cap byte_cap =
     \<lparr>co_queue = [], co_pending_bytes = 0, co_latest = signal_set_default, co_watched = signal_set_default,
      co_unseen = False, co_frame_cap = frame_cap, co_byte_cap = byte_cap, co_surface_byte_cap = byte_cap,
      co_sender_gone = False, co_receiver_gone = False, co_reliable_closed = False, co_surface_closed = False\<rparr>"

definition reserve_reliable_bytes :: "'f client_output \<Rightarrow> usize \<Rightarrow> (client_output_error, 'f client_output) res" where
  "reserve_reliable_bytes o1 frame_len =
     (case checked_add_u64 (co_pending_bytes o1) frame_len of
        None \<Rightarrow> Inl (ReliableByteQueueFull (co_byte_cap o1) (co_pending_bytes o1) frame_len)
      | Some next_bytes \<Rightarrow>
          if co_byte_cap o1 < next_bytes
          then Inl (ReliableByteQueueFull (co_byte_cap o1) (co_pending_bytes o1) frame_len)
          else Inr (o1\<lparr>co_pending_bytes := next_bytes\<rparr>))"

definition release_reliable_bytes :: "'f client_output \<Rightarrow> usize \<Rightarrow> 'f client_output" where
  "release_reliable_bytes o1 frame_len = o1\<lparr>co_pending_bytes := co_pending_bytes o1 - frame_len\<rparr>"

definition try_send_reliable ::
  "('f \<Rightarrow> usize) \<Rightarrow> 'f client_output \<Rightarrow> 'f \<Rightarrow> 'f client_output \<times> (client_output_error, unit) res" where
  \<comment> \<open>a queue whose receiver is gone is closed before it is full\<close>
  "try_send_reliable len o1 frame =
     (case reserve_reliable_bytes o1 (len frame) of
        Inl e \<Rightarrow> (o1, Inl e)
      | Inr o2 \<Rightarrow>
          if co_receiver_gone o2 then (release_reliable_bytes o2 (len frame), Inl ReliableQueueClosed)
          else if co_frame_cap o2 \<le> length (co_queue o2)
            then (release_reliable_bytes o2 (len frame), Inl (ReliableFrameQueueFull (co_frame_cap o2) (len frame)))
          else (o2\<lparr>co_queue := co_queue o2 @ [frame]\<rparr>, Inr ()))"

definition signal_bytes :: "('f \<Rightarrow> usize) \<Rightarrow> 'f surface_signal \<Rightarrow> usize" where
  "signal_bytes len sg =
     (case sg_snapshot_frame sg of Some f \<Rightarrow> len f | None \<Rightarrow> 0) +
     (case sg_patch_frame sg of Some p \<Rightarrow> len (snd p) | None \<Rightarrow> 0)"

definition surface_signal_set_bytes :: "('f \<Rightarrow> usize) \<Rightarrow> 'f signal_set \<Rightarrow> usize" where
  "surface_signal_set_bytes len sm = sum_list (map (\<lambda>e. signal_bytes len (snd e)) (sm_panes sm))"

definition snapshots_only :: "'f signal_set \<Rightarrow> 'f signal_set" where
  \<comment> \<open>the loop over \<open>values_mut\<close> in \<open>enforce_surface_budget\<close>\<close>
  "snapshots_only sm =
     sm\<lparr>sm_panes := map (\<lambda>(k, sg). (k, sg\<lparr>sg_snapshot_required := True, sg_patch_frame := None\<rparr>)) (sm_panes sm)\<rparr>"

definition enforce_surface_budget ::
  "('f \<Rightarrow> usize) \<Rightarrow> 'f client_output \<Rightarrow> 'f client_output \<times> (client_output_error, unit) res" where
  "enforce_surface_budget len o1 =
     (if surface_signal_set_bytes len (co_latest o1) \<le> co_surface_byte_cap o1 then (o1, Inr ())
      else
        (let o2 = o1\<lparr>co_latest := snapshots_only (co_latest o1)\<rparr>;
             pending = surface_signal_set_bytes len (co_latest o2)
         in if pending \<le> co_surface_byte_cap o2 then (o2, Inr ())
            else (o2, Inl (SurfaceByteQueueFull (co_surface_byte_cap o2) pending))))"

definition update_surface_signal ::
  "('f \<Rightarrow> usize) \<Rightarrow> 'f client_output \<Rightarrow> ustring \<Rightarrow> u64 \<Rightarrow> bool \<Rightarrow> 'f option \<Rightarrow> (u64 \<times> 'f) option \<Rightarrow>
     'f client_output \<times> (client_output_error, unit) res" where
  "update_surface_signal len o1 pane_id version snapshot_required snapshot_frame patch_frame =
     (let panes = sm_panes (co_latest o1);
          required = (snapshot_required \<or>
            (case bt_get panes pane_id of Some pending \<Rightarrow> sg_snapshot_required pending | None \<Rightarrow> False));
          latest = \<lparr>sm_generation = sat_add_u64 (sm_generation (co_latest o1)) 1,
            sm_panes = bt_put pane_id
              \<lparr>sg_pane_id = pane_id, sg_version = version, sg_snapshot_required = required,
               sg_snapshot_frame = snapshot_frame, sg_patch_frame = patch_frame\<rparr> panes\<rparr>
      in case enforce_surface_budget len (o1\<lparr>co_latest := latest\<rparr>) of
           (o2, Inl e) \<Rightarrow> (o2, Inl e)
         | (o2, Inr _) \<Rightarrow>
             if co_receiver_gone o2 then (o2, Inl SurfaceQueueClosed)
             else (o2\<lparr>co_watched := co_latest o2, co_unseen := True\<rparr>, Inr ()))"

definition signal_surface_changed where
  "signal_surface_changed len o1 pane_id version = update_surface_signal len o1 pane_id version False None None"

definition signal_surface_frame_bundle where
  "signal_surface_frame_bundle len o1 pane_id version snapshot_frame patch_frame =
     update_surface_signal len o1 pane_id version False (Some snapshot_frame) patch_frame"

definition require_surface_snapshot where
  "require_surface_snapshot len o1 pane_id version = update_surface_signal len o1 pane_id version True None None"

definition require_surface_snapshot_frame where
  "require_surface_snapshot_frame len o1 pane_id version snapshot_frame =
     update_surface_signal len o1 pane_id version True (Some snapshot_frame) None"

datatype 'f write_event = WriteReliable 'f | WriteSurface "'f signal_set" | WriteClosed

definition next_reliable :: "('f \<Rightarrow> usize) \<Rightarrow> 'f client_output \<Rightarrow> ('f \<times> 'f client_output) option" where
  \<comment> \<open>a frame that waits, with its bytes released\<close>
  "next_reliable len o1 =
     (case co_queue o1 of [] \<Rightarrow> None
      | frame # rest \<Rightarrow> Some (frame, release_reliable_bytes (o1\<lparr>co_queue := rest\<rparr>) (len frame)))"

function recv_write_event :: "('f \<Rightarrow> usize) \<Rightarrow> 'f client_output \<Rightarrow> ('f write_event \<times> 'f client_output) option" where
  \<comment> \<open>\<open>None\<close>: neither branch of the \<open>select!\<close> is ready, the task waits\<close>
  "recv_write_event len o1 =
     (if co_reliable_closed o1 \<and> co_surface_closed o1 then Some (WriteClosed, o1)
      else if \<not> co_reliable_closed o1 \<and> co_queue o1 \<noteq> [] then
        map_option (\<lambda>(frame, o2). (WriteReliable frame, o2)) (next_reliable len o1)
      else if \<not> co_reliable_closed o1 \<and> co_sender_gone o1 then
        recv_write_event len (o1\<lparr>co_reliable_closed := True\<rparr>)
      else if \<not> co_surface_closed o1 \<and> co_unseen o1 then
        Some (WriteSurface (co_watched o1), o1\<lparr>co_unseen := False\<rparr>)
      else if \<not> co_surface_closed o1 \<and> co_sender_gone o1 then
        recv_write_event len (o1\<lparr>co_surface_closed := True\<rparr>)
      else None)"
  by pat_completeness auto
termination
  by (relation "measure (\<lambda>(len, o1). of_bool (\<not> co_reliable_closed o1) + of_bool (\<not> co_surface_closed o1))") auto

declare recv_write_event.simps [simp del]

definition output_dropped :: "'f client_output \<Rightarrow> 'f client_output" where
  \<comment> \<open>the session's end is dropped\<close>
  "output_dropped o1 = o1\<lparr>co_sender_gone := True\<rparr>"

subsection \<open>The writer\<close>

record 'f frame_source =
  fs_patch_kind :: "ustring \<Rightarrow> patch_kind"
  fs_snapshot_frame :: "ustring \<Rightarrow> u64 \<Rightarrow> 'f option"
  fs_patch_frame :: "ustring \<Rightarrow> u64 \<Rightarrow> u64 \<Rightarrow> 'f option"

definition bundled_frame_source :: "'f frame_source" where
  "bundled_frame_source =
     \<lparr>fs_patch_kind = (\<lambda>_. PatchFullRefreshRequired), fs_snapshot_frame = (\<lambda>_ _. None), fs_patch_frame = (\<lambda>_ _ _. None)\<rparr>"

record write_task_state =
  wt_next_seq :: u64
  wt_known :: "(ustring, u64) btree"

definition bundled_surface_frame_for_signal :: "write_task_state \<Rightarrow> 'f surface_signal \<Rightarrow> 'f option" where
  "bundled_surface_frame_for_signal st sg =
     (case (if sg_snapshot_required sg then None
            else Option.bind (bt_get (wt_known st) (sg_pane_id sg)) (\<lambda>known.
                 Option.bind (sg_patch_frame sg) (\<lambda>patch.
                   if fst patch = known \<and> checked_add_u64 known 1 = Some (sg_version sg) then Some (snd patch) else None))) of
        Some frame \<Rightarrow> Some frame
      | None \<Rightarrow> sg_snapshot_frame sg)"

definition surface_frame_for_signal :: "'f frame_source \<Rightarrow> write_task_state \<Rightarrow> 'f surface_signal \<Rightarrow> 'f option" where
  "surface_frame_for_signal src st sg =
     (case bundled_surface_frame_for_signal st sg of
        Some frame \<Rightarrow> Some frame
      | None \<Rightarrow>
          (case bt_get (wt_known st) (sg_pane_id sg) of
             Some known \<Rightarrow>
               if \<not> sg_snapshot_required sg \<and> checked_add_u64 known 1 = Some (sg_version sg) \<and>
                 fs_patch_kind src (sg_pane_id sg) \<noteq> PatchFullRefreshRequired
               then fs_patch_frame src (sg_pane_id sg) known (wt_next_seq st)
               else fs_snapshot_frame src (sg_pane_id sg) (wt_next_seq st)
           | None \<Rightarrow> fs_snapshot_frame src (sg_pane_id sg) (wt_next_seq st)))"

type_synonym ('w, 'f) frame_writer = "'w \<Rightarrow> 'f \<Rightarrow> 'w \<times> (client_output_error, unit) res"

definition async_write_default_frame ::
  "(byte list \<Rightarrow> u32 option) \<Rightarrow> ('w \<Rightarrow> byte list \<Rightarrow> 'w \<times> bool) \<Rightarrow> ('w, byte list) frame_writer" where
  \<comment> \<open>\<open>write_all\<close> says what the socket holds afterwards and whether it took all of it\<close>
  "async_write_default_frame root write_all w frame =
     (case write_default_frame root [] frame of
        Inl e \<Rightarrow> (w, Inl (OutputWire e))
      | Inr validated \<Rightarrow> (case write_all w validated of (w', taken) \<Rightarrow> (w', if taken then Inr () else Inl OutputIo)))"

fun write_surface_signals ::
  "('w, 'f) frame_writer \<Rightarrow> 'f frame_source \<Rightarrow> 'w \<Rightarrow> write_task_state \<Rightarrow> 'f surface_signal list \<Rightarrow>
     'w \<times> write_task_state \<times> (client_output_error, unit) res" where
  "write_surface_signals send src w st [] = (w, st, Inr ())"
| "write_surface_signals send src w st (sg # sgs) =
     (if bt_get (wt_known st) (sg_pane_id sg) = Some (sg_version sg) then write_surface_signals send src w st sgs
      else case surface_frame_for_signal src st sg of
        None \<Rightarrow> write_surface_signals send src w st sgs
      | Some frame \<Rightarrow>
          (case send w frame of
             (w1, Inl e) \<Rightarrow> (w1, st, Inl e)
           | (w1, Inr _) \<Rightarrow>
               write_surface_signals send src w1
                 \<lparr>wt_next_seq = sat_add_u64 (wt_next_seq st) 1,
                  wt_known = bt_put (sg_pane_id sg) (sg_version sg) (wt_known st)\<rparr> sgs))"

datatype task_state = TaskGoesOn | TaskWaits | TaskEnded "(client_output_error, unit) res"

definition write_task_step ::
  "('f \<Rightarrow> usize) \<Rightarrow> ('w, 'f) frame_writer \<Rightarrow> 'f frame_source \<Rightarrow> 'w \<times> write_task_state \<times> 'f client_output \<Rightarrow>
     ('w \<times> write_task_state \<times> 'f client_output) \<times> task_state" where
  \<comment> \<open>one turn of the loop of \<open>run_client_write_task\<close>\<close>
  "write_task_step len send src t =
     (case t of (w, st, o1) \<Rightarrow>
        (case recv_write_event len o1 of
           None \<Rightarrow> (t, TaskWaits)
         | Some (WriteClosed, o2) \<Rightarrow> ((w, st, o2), TaskEnded (Inr ()))
         | Some (WriteReliable frame, o2) \<Rightarrow>
             (case send w frame of
                (w1, Inl e) \<Rightarrow> ((w1, st, o2), TaskEnded (Inl e))
              | (w1, Inr _) \<Rightarrow> ((w1, st, o2), TaskGoesOn))
         | Some (WriteSurface sm, o2) \<Rightarrow>
             (case write_surface_signals send src w st (map snd (sm_panes sm)) of
                (w1, st1, Inl e) \<Rightarrow> ((w1, st1, o2), TaskEnded (Inl e))
              | (w1, st1, Inr _) \<Rightarrow> ((w1, st1, o2), TaskGoesOn))))"

definition output_left :: "'f client_output \<Rightarrow> nat" where
  "output_left o1 = length (co_queue o1) + (if co_unseen o1 then 1 else 0)"

lemma recv_write_event_left:
  "recv_write_event len o1 = Some (ev, o2) \<Longrightarrow> ev \<noteq> WriteClosed \<Longrightarrow> output_left o2 < output_left o1"
proof (induction len o1 rule: recv_write_event.induct)
  case (1 len o1)
  from "1.prems" show ?case
    using "1.IH" by (subst (asm) recv_write_event.simps)
      (auto simp: next_reliable_def output_left_def release_reliable_bytes_def split: if_splits list.splits)
qed

lemma write_task_step_left: "write_task_step len send src (w, st, o1) = ((w', st', o2), TaskGoesOn) \<Longrightarrow> output_left o2 < output_left o1"
  using recv_write_event_left [of len o1]
  by (auto simp: write_task_step_def split: option.splits prod.splits write_event.splits sum.splits)

function run_client_write_task ::
  "('f \<Rightarrow> usize) \<Rightarrow> ('w, 'f) frame_writer \<Rightarrow> 'f frame_source \<Rightarrow> 'w \<times> write_task_state \<times> 'f client_output \<Rightarrow>
     ('w \<times> write_task_state \<times> 'f client_output) \<times> (client_output_error, unit) res option" where
  \<comment> \<open>until it ends or, with \<open>None\<close>, waits for the session\<close>
  "run_client_write_task len send src t =
     (case write_task_step len send src t of
        (t', TaskWaits) \<Rightarrow> (t', None)
      | (t', TaskEnded r) \<Rightarrow> (t', Some r)
      | (t', TaskGoesOn) \<Rightarrow> run_client_write_task len send src t')"
  by pat_completeness auto
termination
  by (relation "measure (\<lambda>(len, send, src, w, st, o1). output_left o1)") (auto dest!: write_task_step_left [OF sym])

declare run_client_write_task.simps [simp del]

subsection \<open>The reader\<close>

datatype io_kind = IoUnexpectedEof | IoConnectionReset | IoBrokenPipe | IoOther

type_synonym byte_stream = "byte list \<times> io_kind"
  \<comment> \<open>the bytes that arrive and the error of a read past them\<close>

datatype client_input_error =
  \<comment> \<open>\<open>Wire\<close> of the source is one of the three in the middle, by its text\<close>
  EventQueueClosed
| InputIo io_kind
| InputFrameTooLarge usize usize
| InputInvalid
| InputDecode client_error
| InputUnexpectedFrame

datatype client_input_event =
  EventResize resize_intent_summary
| EventScrollback scrollback_fetch_summary
| EventInput input_summary
| EventPing ping_summary
| EventClosed

definition async_read_exact ::
  "nat \<Rightarrow> byte_stream \<Rightarrow> (client_input_error, byte list \<times> byte_stream) res" where
  "async_read_exact n stream =
     (if length (fst stream) < n then Inl (InputIo (snd stream))
      else Inr (take n (fst stream), drop n (fst stream), snd stream))"

definition async_read_default_frame ::
  "(byte list \<Rightarrow> envelope option) \<Rightarrow> byte_stream \<Rightarrow> (client_input_error, envelope \<times> byte_stream) res" where
  \<comment> \<open>\<open>verify\<close> is the FlatBuffers verifier with the accessors of what it accepts\<close>
  "async_read_default_frame verify stream =
     bind_res (async_read_exact 4 stream) (\<lambda>(prefix, stream).
     let payload_len = le_value prefix in
     if DEFAULT_MAX_FRAME_LEN < payload_len then Inl (InputFrameTooLarge payload_len DEFAULT_MAX_FRAME_LEN)
     else
       bind_res (async_read_exact payload_len stream) (\<lambda>(payload, stream).
       case verify (prefix @ payload) of None \<Rightarrow> Inl InputInvalid | Some e \<Rightarrow> Inr (e, stream)))"

definition decoded_event :: "('a \<Rightarrow> client_input_event) \<Rightarrow> 'a cres \<Rightarrow> (client_input_error, client_input_event) res" where
  "decoded_event event_of r = (case r of Inl e \<Rightarrow> Inl (InputDecode e) | Inr x \<Rightarrow> Inr (event_of x))"

definition client_input_event_from_frame :: "envelope \<Rightarrow> (client_input_error, client_input_event) res" where
  "client_input_event_from_frame e =
     (case en_body e of
        BodyResize _ \<Rightarrow> decoded_event EventResize (resize_intent_from_frame e)
      | BodyFetch _ \<Rightarrow> decoded_event EventScrollback (scrollback_fetch_from_frame e)
      | BodyInput _ \<Rightarrow> decoded_event EventInput (input_summary_from_frame e)
      | BodyPing _ \<Rightarrow> decoded_event EventPing (ping_from_frame e)
      | _ \<Rightarrow> Inl InputUnexpectedFrame)"

definition async_read_closed_error :: "client_input_error \<Rightarrow> bool" where
  "async_read_closed_error e \<longleftrightarrow> e \<in> {InputIo IoUnexpectedEof, InputIo IoConnectionReset, InputIo IoBrokenPipe}"

lemma async_read_shorter:
  "async_read_default_frame verify stream = Inr (e, stream') \<Longrightarrow> length (fst stream') < length (fst stream)"
  by (auto simp: async_read_default_frame_def async_read_exact_def Let_def bind_res_Inr_iff
      split: if_splits option.splits)

function run_client_read_task ::
  "(byte list \<Rightarrow> envelope option) \<Rightarrow> nat \<Rightarrow> byte_stream \<Rightarrow> client_input_event list \<times> (client_input_error, unit) res" where
  \<comment> \<open>the events sent; \<open>room\<close> is how many the session takes before it drops its end\<close>
  "run_client_read_task verify room stream =
     (case async_read_default_frame verify stream of
        Inl e \<Rightarrow>
          if async_read_closed_error e then (if room = 0 then [] else [EventClosed], Inr ()) else ([], Inl e)
      | Inr (frame, rest) \<Rightarrow>
          (case client_input_event_from_frame frame of
             Inl e \<Rightarrow> ([], Inl e)
           | Inr event \<Rightarrow>
               if room = 0 then ([], Inl EventQueueClosed)
               else (case run_client_read_task verify (room - 1) rest of (events, r) \<Rightarrow> (event # events, r))))"
  by pat_completeness auto
termination
  by (relation "measure (\<lambda>(verify, room, stream). length (fst stream))") (auto dest: async_read_shorter)

declare run_client_read_task.simps [simp del]

subsection \<open>The queue keeps its bounds and its order\<close>

definition panes_ok :: "'f signal_set \<Rightarrow> bool" where
  "panes_ok sm \<longleftrightarrow> bt_sorted (sm_panes sm) \<and> (\<forall>e \<in> set (sm_panes sm). sg_pane_id (snd e) = fst e)"

definition output_ok :: "('f \<Rightarrow> usize) \<Rightarrow> 'f client_output \<Rightarrow> bool" where
  "output_ok len o1 \<longleftrightarrow>
     co_pending_bytes o1 = sum_list (map len (co_queue o1)) \<and> co_pending_bytes o1 \<le> co_byte_cap o1 \<and>
     length (co_queue o1) \<le> co_frame_cap o1 \<and> panes_ok (co_latest o1) \<and> panes_ok (co_watched o1) \<and>
     surface_signal_set_bytes len (co_watched o1) \<le> co_surface_byte_cap o1 \<and>
     (co_reliable_closed o1 \<longrightarrow> co_sender_gone o1 \<and> co_queue o1 = []) \<and>
     (co_surface_closed o1 \<longrightarrow> co_sender_gone o1 \<and> \<not> co_unseen o1)"

lemma output_new_ok: "output_ok len (output_new frame_cap byte_cap)"
  by (simp add: output_ok_def output_new_def panes_ok_def signal_set_default_def surface_signal_set_bytes_def)

lemma try_send_result:
  assumes "try_send_reliable len o1 frame = (o2, r)"
  shows "case r of
      Inr _ \<Rightarrow> o2 = o1\<lparr>co_queue := co_queue o1 @ [frame], co_pending_bytes := co_pending_bytes o1 + len frame\<rparr> \<and>
        co_pending_bytes o1 + len frame \<le> co_byte_cap o1 \<and> length (co_queue o1) < co_frame_cap o1 \<and> \<not> co_receiver_gone o1
    | Inl e \<Rightarrow> o2 = o1"
  using assms
  by (auto simp: try_send_reliable_def reserve_reliable_bytes_def release_reliable_bytes_def checked_add_u64_def
      split: if_splits option.splits sum.splits)

lemma try_send_ok:
  assumes "output_ok len o1" and "\<not> co_sender_gone o1" and "try_send_reliable len o1 frame = (o2, r)"
  shows "output_ok len o2"
  using try_send_result [OF assms(3)] assms(1,2) by (auto simp: output_ok_def split: sum.splits)

lemma snapshots_only_ok: "panes_ok sm \<Longrightarrow> panes_ok (snapshots_only sm)"
  by (force simp: panes_ok_def snapshots_only_def bt_sorted_def comp_def case_prod_beta)

lemma set_bt_put_in: "e \<in> set (bt_put k v m) \<Longrightarrow> e = (k, v) \<or> e \<in> set m"
  by (induction k v m rule: bt_put.induct) (auto split: if_splits)

lemma panes_ok_put:
  "panes_ok sm \<Longrightarrow> sg_pane_id sg = k \<Longrightarrow> panes_ok \<lparr>sm_generation = n, sm_panes = bt_put k sg (sm_panes sm)\<rparr>"
  using set_bt_put_in by (fastforce simp: panes_ok_def bt_sorted_put)

lemma enforce_budget_result:
  assumes "enforce_surface_budget len o1 = (o2, r)"
  shows "(o2 = o1 \<or> o2 = o1\<lparr>co_latest := snapshots_only (co_latest o1)\<rparr>) \<and>
    (r = Inr () \<longrightarrow> surface_signal_set_bytes len (co_latest o2) \<le> co_surface_byte_cap o2)"
  using assms by (auto simp: enforce_surface_budget_def Let_def split: if_splits)

definition merged_signal where
  \<comment> \<open>the set with the new signal in place of the pane's old one\<close>
  "merged_signal o1 pane_id version snapshot_required snapshot_frame patch_frame =
     \<lparr>sm_generation = sat_add_u64 (sm_generation (co_latest o1)) 1,
      sm_panes = bt_put pane_id
        \<lparr>sg_pane_id = pane_id, sg_version = version,
         sg_snapshot_required = (snapshot_required \<or>
           (case bt_get (sm_panes (co_latest o1)) pane_id of Some pending \<Rightarrow> sg_snapshot_required pending | None \<Rightarrow> False)),
         sg_snapshot_frame = snapshot_frame, sg_patch_frame = patch_frame\<rparr> (sm_panes (co_latest o1))\<rparr>"

lemma update_signal_result:
  assumes "update_surface_signal len o1 pane_id version required snapshot patch = (o2, r)"
  defines "new \<equiv> merged_signal o1 pane_id version required snapshot patch"
  shows "\<exists>sm. (sm = new \<or> sm = snapshots_only new) \<and>
    (case r of
       Inr _ \<Rightarrow> \<not> co_receiver_gone o1 \<and> o2 = o1\<lparr>co_latest := sm, co_watched := sm, co_unseen := True\<rparr> \<and>
         surface_signal_set_bytes len sm \<le> co_surface_byte_cap o1
     | Inl e \<Rightarrow> o2 = o1\<lparr>co_latest := sm\<rparr>)"
proof -
  obtain o3 r3 where b: "enforce_surface_budget len (o1\<lparr>co_latest := new\<rparr>) = (o3, r3)" by fastforce
  have "update_surface_signal len o1 pane_id version required snapshot patch =
      (case (o3, r3) of (o2, Inl e) \<Rightarrow> (o2, Inl e)
       | (o2, Inr _) \<Rightarrow> if co_receiver_gone o2 then (o2, Inl SurfaceQueueClosed)
          else (o2\<lparr>co_watched := co_latest o2, co_unseen := True\<rparr>, Inr ()))"
    using b by (simp add: update_surface_signal_def Let_def new_def merged_signal_def)
  then show ?thesis using enforce_budget_result [OF b] assms(1) by (cases r3) (auto split: if_splits)
qed

lemma update_signal_ok:
  assumes "output_ok len o1" and "\<not> co_sender_gone o1"
    and "update_surface_signal len o1 pane_id version required snapshot patch = (o2, r)"
  shows "output_ok len o2"
proof -
  have "panes_ok (merged_signal o1 pane_id version required snapshot patch)"
    using assms(1) by (simp add: merged_signal_def output_ok_def panes_ok_put)
  with update_signal_result [OF assms(3)] snapshots_only_ok obtain sm where "panes_ok sm"
    and "case r of
       Inr _ \<Rightarrow> \<not> co_receiver_gone o1 \<and> o2 = o1\<lparr>co_latest := sm, co_watched := sm, co_unseen := True\<rparr> \<and>
         surface_signal_set_bytes len sm \<le> co_surface_byte_cap o1
     | Inl e \<Rightarrow> o2 = o1\<lparr>co_latest := sm\<rparr>" by metis
  then show ?thesis using assms(1,2) by (cases r) (simp_all add: output_ok_def)
qed

lemma recv_cases:
  assumes "output_ok len o1"
  shows "case co_queue o1 of
      frame # rest \<Rightarrow> recv_write_event len o1 =
        Some (WriteReliable frame, o1\<lparr>co_queue := rest, co_pending_bytes := co_pending_bytes o1 - len frame\<rparr>)
    | [] \<Rightarrow>
        if co_unseen o1 then recv_write_event len o1 =
          Some (WriteSurface (co_watched o1), o1\<lparr>co_unseen := False, co_reliable_closed := co_sender_gone o1\<rparr>)
        else if co_sender_gone o1 then recv_write_event len o1 =
          Some (WriteClosed, o1\<lparr>co_reliable_closed := True, co_surface_closed := True\<rparr>)
        else recv_write_event len o1 = None"
proof -
  let ?r = "o1\<lparr>co_reliable_closed := True\<rparr>" and ?s = "o1\<lparr>co_surface_closed := True\<rparr>"
    and ?rs = "o1\<lparr>co_reliable_closed := True, co_surface_closed := True\<rparr>"
  note unfold = recv_write_event.simps [of len o1] recv_write_event.simps [of len ?r]
    recv_write_event.simps [of len ?s] recv_write_event.simps [of len ?rs] next_reliable_def release_reliable_bytes_def
  have same: "co_reliable_closed o1 \<Longrightarrow> ?r = o1" "co_surface_closed o1 \<Longrightarrow> ?rs = ?r" "\<not> co_reliable_closed o1 \<Longrightarrow>
      o1\<lparr>co_reliable_closed := False\<rparr> = o1"
    by (cases o1; simp)+
  note ok = assms [unfolded output_ok_def]
  show ?thesis
  proof (cases "co_queue o1")
    case (Cons f rest)
    with ok show ?thesis by (simp add: unfold)
  next
    case Nil
    with ok same show ?thesis
      by (cases "co_unseen o1"; cases "co_sender_gone o1"; cases "co_reliable_closed o1"; cases "co_surface_closed o1")
        (simp_all add: unfold)
  qed
qed

lemma recv_ok: "output_ok len o1 \<Longrightarrow> recv_write_event len o1 = Some (ev, o2) \<Longrightarrow> output_ok len o2"
  using recv_cases [of len o1] by (auto simp: output_ok_def split: list.splits if_splits)

inductive queue_run ::
  "('f \<Rightarrow> usize) \<Rightarrow> usize \<Rightarrow> usize \<Rightarrow> 'f list \<Rightarrow> 'f list \<Rightarrow> 'f client_output \<Rightarrow> bool"
  for len frame_cap byte_cap where
  \<comment> \<open>a queue after any use of it, with the reliable frames taken in and those handed out\<close>
  queue_run_new: "queue_run len frame_cap byte_cap [] [] (output_new frame_cap byte_cap)"
| queue_run_send: "queue_run len frame_cap byte_cap ins outs o1 \<Longrightarrow> \<not> co_sender_gone o1 \<Longrightarrow>
    try_send_reliable len o1 frame = (o2, r) \<Longrightarrow>
    queue_run len frame_cap byte_cap (ins @ (case r of Inl _ \<Rightarrow> [] | Inr _ \<Rightarrow> [frame])) outs o2"
| queue_run_signal: "queue_run len frame_cap byte_cap ins outs o1 \<Longrightarrow> \<not> co_sender_gone o1 \<Longrightarrow>
    update_surface_signal len o1 pane_id version required snapshot patch = (o2, r) \<Longrightarrow>
    queue_run len frame_cap byte_cap ins outs o2"
| queue_run_recv: "queue_run len frame_cap byte_cap ins outs o1 \<Longrightarrow> recv_write_event len o1 = Some (ev, o2) \<Longrightarrow>
    queue_run len frame_cap byte_cap ins (outs @ (case ev of WriteReliable frame \<Rightarrow> [frame] | _ \<Rightarrow> [])) o2"
| queue_run_dropped: "queue_run len frame_cap byte_cap ins outs o1 \<Longrightarrow>
    queue_run len frame_cap byte_cap ins outs (output_dropped o1)"
| queue_run_receiver: "queue_run len frame_cap byte_cap ins outs o1 \<Longrightarrow>
    queue_run len frame_cap byte_cap ins outs (o1\<lparr>co_receiver_gone := True\<rparr>)"

lemma recv_order:
  assumes "output_ok len o1" and "recv_write_event len o1 = Some (ev, o2)"
  shows "co_queue o1 = (case ev of WriteReliable frame \<Rightarrow> [frame] | _ \<Rightarrow> []) @ co_queue o2 \<and>
    co_frame_cap o2 = co_frame_cap o1 \<and> co_byte_cap o2 = co_byte_cap o1 \<and> co_surface_byte_cap o2 = co_surface_byte_cap o1"
  using recv_cases [OF assms(1)] assms(2)
  by (cases "co_queue o1"; cases "co_unseen o1"; cases "co_sender_gone o1") auto

lemma queue_run_ok:
  "queue_run len frame_cap byte_cap ins outs o1 \<Longrightarrow>
     output_ok len o1 \<and> ins = outs @ co_queue o1 \<and> co_frame_cap o1 = frame_cap \<and> co_byte_cap o1 = byte_cap \<and>
     co_surface_byte_cap o1 = byte_cap"
proof (induction rule: queue_run.induct)
  case queue_run_new
  show ?case using output_new_ok by (simp add: output_new_def)
next
  case (queue_run_send ins outs o1 frame o2 r)
  with try_send_ok [OF _ _ queue_run_send(3)] try_send_result [OF queue_run_send(3)] show ?case by (cases r) simp_all
next
  case (queue_run_signal ins outs o1 pane_id version required snapshot patch o2 r)
  with update_signal_ok [OF _ _ queue_run_signal(3)] update_signal_result [OF queue_run_signal(3)] show ?case
    by (cases r) auto
next
  case (queue_run_recv ins outs o1 ev o2)
  with recv_ok [OF _ queue_run_recv(2)] recv_order [OF _ queue_run_recv(2)] show ?case by simp
next
  case (queue_run_dropped ins outs o1)
  then show ?case by (auto simp: output_dropped_def output_ok_def)
qed (simp_all add: output_ok_def)

subsection \<open>The writer writes all it was given\<close>

definition sent :: "('w, 'f) frame_writer \<Rightarrow> 'w \<Rightarrow> 'f list \<Rightarrow> 'w" where
  "sent send w frames = foldl (\<lambda>w f. fst (send w f)) w frames"

definition never_fails :: "('w, 'f) frame_writer \<Rightarrow> bool" where
  "never_fails send \<longleftrightarrow> (\<forall>w f. snd (send w f) = Inr ())"

lemma never_failsD: "never_fails send \<Longrightarrow> send w f = (fst (send w f), Inr ())"
  by (metis never_fails_def prod.collapse)

lemma write_signals_never_fail:
  "never_fails send \<Longrightarrow> \<exists>w' st'. write_surface_signals send src w st sgs = (w', st', Inr ())"
proof (induction sgs arbitrary: w st)
  case (Cons sg sgs)
  note ih = Cons.IH [OF Cons.prems]
  show ?case
  proof (cases "surface_frame_for_signal src st sg")
    case (Some f)
    obtain w1 where "send w f = (w1, Inr ())" using never_failsD [OF Cons.prems] by blast
    with Some ih show ?thesis by simp
  qed (use ih in simp)
qed simp

definition signals_written where
  \<comment> \<open>the socket and the state after the set that waits, if one does\<close>
  "signals_written send src w st o1 =
     (if co_unseen o1
      then (case write_surface_signals send src w st (map snd (sm_panes (co_watched o1))) of (w', st', _) \<Rightarrow> (w', st'))
      else (w, st))"

definition output_emptied :: "'f client_output \<Rightarrow> 'f client_output" where
  "output_emptied o1 =
     o1\<lparr>co_queue := [], co_pending_bytes := 0, co_unseen := False, co_reliable_closed := co_sender_gone o1,
        co_surface_closed := co_sender_gone o1\<rparr>"

lemma run_when_queue_empty:
  assumes "output_ok len o1" and "co_queue o1 = []" and "\<not> co_unseen o1"
  shows "run_client_write_task len send src (w, st, o1) =
    ((w, st, output_emptied o1), if co_sender_gone o1 then Some (Inr ()) else None)"
proof -
  let ?t = "(w, st, o1)"
  have step: "write_task_step len send src ?t =
      (if co_sender_gone o1 then ((w, st, output_emptied o1), TaskEnded (Inr ())) else (?t, TaskWaits))"
  proof (cases "co_sender_gone o1")
    case True
    have "o1\<lparr>co_reliable_closed := True, co_surface_closed := True\<rparr> = output_emptied o1"
      using assms True by (cases o1) (simp add: output_ok_def output_emptied_def)
    with recv_cases [OF assms(1)] assms(2,3) True show ?thesis by (simp add: write_task_step_def)
  next
    case False
    with recv_cases [OF assms(1)] assms(2,3) show ?thesis by (simp add: write_task_step_def)
  qed
  have "\<not> co_sender_gone o1 \<Longrightarrow> output_emptied o1 = o1"
    using assms by (cases o1) (simp add: output_ok_def output_emptied_def)
  with step show ?thesis by (subst run_client_write_task.simps) simp
qed

lemma run_writes_all:
  assumes "output_ok len o1" and "never_fails send"
    and "signals_written send src (sent send w (co_queue o1)) st o1 = (w', st')"
  shows "run_client_write_task len send src (w, st, o1) =
    ((w', st', output_emptied o1), if co_sender_gone o1 then Some (Inr ()) else None)"
  using assms(1,3)
proof (induction "co_queue o1" arbitrary: o1 w)
  case Nil
  note q = Nil(1) [symmetric]
  show ?case
  proof (cases "co_unseen o1")
    case True
    let ?o = "o1\<lparr>co_unseen := False, co_reliable_closed := co_sender_gone o1\<rparr>"
    have recv: "recv_write_event len o1 = Some (WriteSurface (co_watched o1), ?o)"
      using recv_cases [OF Nil(2)] q True by simp
    obtain w1 st1 where ws: "write_surface_signals send src w st (map snd (sm_panes (co_watched o1))) = (w1, st1, Inr ())"
      using write_signals_never_fail [OF assms(2)] by blast
    have "w1 = w'" "st1 = st'" using Nil(3) True ws q by (simp_all add: signals_written_def sent_def)
    then have step: "write_task_step len send src (w, st, o1) = ((w', st', ?o), TaskGoesOn)"
      using recv ws by (simp add: write_task_step_def)
    have "output_emptied ?o = output_emptied o1" by (simp add: output_emptied_def)
    then show ?thesis
      using run_when_queue_empty [OF recv_ok [OF Nil(2) recv], of send src w' st'] q step
      by (simp add: run_client_write_task.simps [of len send src "(w, st, o1)"])
  next
    case False
    then have "w = w'" "st = st'" using Nil(3) q by (simp_all add: signals_written_def sent_def)
    then show ?thesis using run_when_queue_empty [OF Nil(2) q False, of send src w st] by simp
  qed
next
  case (Cons f rest)
  note q = Cons(2) [symmetric]
  let ?o = "o1\<lparr>co_queue := rest, co_pending_bytes := co_pending_bytes o1 - len f\<rparr>"
  have recv: "recv_write_event len o1 = Some (WriteReliable f, ?o)" using recv_cases [OF Cons(3)] q by simp
  obtain w1 where w1: "send w f = (w1, Inr ())" using never_failsD [OF assms(2)] by blast
  then have step: "write_task_step len send src (w, st, o1) = ((fst (send w f), st, ?o), TaskGoesOn)"
    using recv by (simp add: write_task_step_def)
  have "signals_written send src (sent send (fst (send w f)) (co_queue ?o)) st ?o = (w', st')"
    using Cons(4) q by (auto simp: signals_written_def sent_def split: if_splits)
  from Cons(1) [OF _ recv_ok [OF Cons(3) recv] this] step show ?case
    by (simp add: run_client_write_task.simps [of len send src "(w, st, o1)"] output_emptied_def)
qed

subsection \<open>The reader takes every frame\<close>

lemma async_read_framed:
  assumes "framed frame" and "length frame \<le> DEFAULT_MAX_FRAME_LEN + 4" and "verify frame = Some e"
  shows "async_read_default_frame verify (frame @ rest, kind) = Inr (e, rest, kind)"
  using assms by (auto simp: async_read_default_frame_def async_read_exact_def framed_def Let_def)

definition client_sends :: "(byte list \<Rightarrow> envelope option) \<Rightarrow> byte list \<Rightarrow> client_input_event \<Rightarrow> bool" where
  "client_sends verify frame event \<longleftrightarrow> framed frame \<and> length frame \<le> DEFAULT_MAX_FRAME_LEN + 4 \<and>
     (\<exists>e. verify frame = Some e \<and> client_input_event_from_frame e = Inr event)"

lemma reader_takes_every_frame:
  assumes "list_all2 (client_sends verify) frames events" and "length events < room" and "kind \<noteq> IoOther"
  shows "run_client_read_task verify room (concat frames, kind) = (events @ [EventClosed], Inr ())"
  using assms(1,2)
proof (induction frames events arbitrary: room rule: list_all2_induct)
  case Nil
  then show ?case
    using assms(3)
    by (cases kind) (simp_all add: run_client_read_task.simps async_read_default_frame_def async_read_exact_def
        async_read_closed_error_def)
next
  case (Cons f fs ev evs)
  then obtain e where "async_read_default_frame verify (f @ concat fs, kind) = Inr (e, concat fs, kind)"
    "client_input_event_from_frame e = Inr ev"
    using async_read_framed by (metis client_sends_def)
  with Cons show ?case by (simp add: run_client_read_task.simps [of verify room])
qed

lemma foreign_version_accepted:
  \<comment> \<open>the reader of a live client does not look at the protocol version, which \<open>wire::read_default_frame\<close> refuses\<close>
  assumes "framed frame" and "length frame \<le> DEFAULT_MAX_FRAME_LEN + 4" and "verify frame = Some e"
    and "root frame = Some (en_protocol_version e)" and "en_protocol_version e \<noteq> PROTOCOL_VERSION"
  shows "async_read_default_frame verify (frame @ rest, kind) = Inr (e, rest, kind)"
    and "read_default_frame root (frame @ rest) = Inl (ProtocolVersionUnsupported (en_protocol_version e) PROTOCOL_VERSION)"
  using assms async_read_framed
  by (auto simp: read_default_frame_def read_frame_def read_exact_def validate_protocol_version_def framed_def Let_def)

end
