(* ===== verification/Live_Clients.thy ===== *)
theory Live_Clients
  imports Live_Session Async_Output
begin

text \<open>
  The clients that follow one session at the same time (\<open>LiveAttachedClient\<close> and the functions on it in
  \<open>crates/nmux-cli/src/local.rs\<close>): the frames queued for a client, the inventory of the clients, the size of a
  pane that several clients look at, and what is done with the frames a client has sent. A client that was
  refused at once keeps its socket (\<open>LegacyTransport\<close>), every other one has a queue for each direction.

  The lemmas: whatever is queued, a client's queue keeps its bounds and its numbers go up by one for each frame
  taken, a pane gets the least width and the least height of the clients that may write, a client that may not
  write changes nothing, and draining a client ends, on a good state, with what it asked for.
\<close>

subsection \<open>A client\<close>

datatype live_transport =
  LegacyTransport "frame_read list" "envelope list"
    \<comment> \<open>what the socket will give and what was written to it\<close>
| AsyncTransport "client_input_event list" bool "envelope client_output"
    \<comment> \<open>the events that wait, whether the reader has ended, and the output\<close>

record live_client =
  lc_transport :: live_transport
  lc_connection_id :: ustring
  lc_actor :: session_actor_info
  lc_hostname :: ustring
  lc_client_kind :: ustring
  lc_inventory_subscribed :: bool
  lc_connected_at_mono_ms :: u64
  lc_last_seen_mono_ms :: u64
  lc_last_input_mono_ms :: "u64 option"
  lc_seq :: u64
  lc_known_surface_versions :: "(ustring, u64) btree"
  lc_frontend_resize_constraints :: "(ustring, u32 \<times> u32) btree"
  lc_completed_cycles :: usize

definition inventory_entry :: "live_client \<Rightarrow> client_connection" where
  "inventory_entry c =
     \<lparr>cl_connection_id = lc_connection_id c, cl_actor_id = ac_id (lc_actor c), cl_user_id = ac_user_id (lc_actor c),
      cl_display_name = ac_display_name (lc_actor c), cl_hostname = lc_hostname c, cl_client_kind = lc_client_kind c,
      cl_mode = ac_mode (lc_actor c), cl_focused_pane_id = ac_focused_pane_id (lc_actor c),
      cl_connected_at_mono_ms = lc_connected_at_mono_ms c, cl_last_seen_mono_ms = lc_last_seen_mono_ms c,
      cl_last_input_mono_ms = lc_last_input_mono_ms c\<rparr>"

datatype live_error =
  LiveServe serve_error
| LiveBrokenPipe
| LiveQueue client_output_error

definition live_client_output_error :: "client_output_error \<Rightarrow> live_error" where
  "live_client_output_error e =
     (case e of ReliableQueueClosed \<Rightarrow> LiveBrokenPipe | SurfaceQueueClosed \<Rightarrow> LiveBrokenPipe | _ \<Rightarrow> LiveQueue e)"

definition is_socket_closed :: "live_error \<Rightarrow> bool" where
  \<comment> \<open>\<open>ReadFailed\<close> stands for the kinds of error that are not a closed socket\<close>
  "is_socket_closed e \<longleftrightarrow> e \<in> {LiveBrokenPipe, LiveServe (ServeRead ReadEof), LiveServe (ServeRead ReadReset)}"

subsection \<open>Frames for a client\<close>

definition queue_reliable_frame_to_live_client ::
  "(envelope \<Rightarrow> usize) \<Rightarrow> live_client \<Rightarrow> envelope \<Rightarrow> live_client \<times> (live_error, unit) res" where
  "queue_reliable_frame_to_live_client len c frame =
     (case lc_transport c of
        AsyncTransport events ended output \<Rightarrow>
          (case try_send_reliable len output frame of
             (output1, Inl e) \<Rightarrow> (c\<lparr>lc_transport := AsyncTransport events ended output1\<rparr>, Inl (live_client_output_error e))
           | (output1, Inr _) \<Rightarrow>
               (c\<lparr>lc_transport := AsyncTransport events ended output1, lc_seq := lc_seq c + 1\<rparr>, Inr ()))
      | LegacyTransport reads written \<Rightarrow>
          (c\<lparr>lc_transport := LegacyTransport reads (written @ [frame]), lc_seq := lc_seq c + 1\<rparr>, Inr ()))"

definition write_client_inventory_snapshot_to_client ::
  "(envelope \<Rightarrow> usize) \<Rightarrow> live_client \<Rightarrow> session \<Rightarrow> u64 \<Rightarrow> client_connection list \<Rightarrow> live_client \<times> (live_error, unit) res" where
  "write_client_inventory_snapshot_to_client len c s version clients =
     (if \<not> lc_inventory_subscribed c then (c, Inr ())
      else queue_reliable_frame_to_live_client len c
        (client_inventory_snapshot_frame \<lparr>ci_version = version, ci_clients = clients\<rparr> (ss_id s) local_client (lc_seq c)))"

fun signal_bundles ::
  "(envelope \<Rightarrow> usize) \<Rightarrow> session \<Rightarrow> envelope client_output \<times> u64 \<times> (ustring, u64) btree \<Rightarrow> ustring list \<Rightarrow>
     (envelope client_output \<times> u64 \<times> (ustring, u64) btree) \<times> (live_error, unit) res" where
  \<comment> \<open>the branch of \<open>signal_changed_surface_frames_to_live_client\<close> for a client with queues\<close>
  "signal_bundles len s st [] = (st, Inr ())"
| "signal_bundles len s (output, seq, known) (pane_id # pane_ids) =
     (case surface_version s pane_id of
        None \<Rightarrow> signal_bundles len s (output, seq, known) pane_ids
      | Some current \<Rightarrow>
          if bt_get known pane_id = Some current then signal_bundles len s (output, seq, known) pane_ids
          else (case surface_frame_bundle_for_pane s pane_id seq of
             None \<Rightarrow> signal_bundles len s (output, seq, known) pane_ids
           | Some bundle \<Rightarrow>
               (case signal_surface_frame_bundle len output pane_id (fb_version bundle) (fb_snapshot bundle)
                       (fb_patch bundle) of
                  (output1, Inl e) \<Rightarrow> ((output1, seq, known), Inl (live_client_output_error e))
                | (output1, Inr _) \<Rightarrow>
                    signal_bundles len s (output1, seq + 1, bt_put pane_id current known) pane_ids)))"

definition signal_changed_surface_frames_to_live_client ::
  "(envelope \<Rightarrow> usize) \<Rightarrow> live_client \<Rightarrow> session \<Rightarrow> ustring list \<Rightarrow> live_client \<times> (live_error, unit) res" where
  "signal_changed_surface_frames_to_live_client len c s pane_ids =
     (case lc_transport c of
        LegacyTransport reads written \<Rightarrow>
          (case write_changed_surface_frames s (lc_seq c) pane_ids (lc_known_surface_versions c) of
             (frames, seq, known) \<Rightarrow>
               (c\<lparr>lc_transport := LegacyTransport reads (written @ frames), lc_seq := seq,
                  lc_known_surface_versions := known\<rparr>, Inr ()))
      | AsyncTransport events ended output \<Rightarrow>
          (case signal_bundles len s (output, lc_seq c, lc_known_surface_versions c) pane_ids of
             ((output1, seq, known), r) \<Rightarrow>
               (c\<lparr>lc_transport := AsyncTransport events ended output1, lc_seq := seq,
                  lc_known_surface_versions := known\<rparr>, r)))"

definition with_first :: "'a \<Rightarrow> 'a list \<times> 'r \<Rightarrow> 'a list \<times> 'r" where
  "with_first x r = (x # fst r, snd r)"

fun patch_subscribers ::
  "(envelope \<Rightarrow> usize) \<Rightarrow> (u64 \<Rightarrow> envelope) \<Rightarrow> live_client list \<Rightarrow> live_client list \<times> (live_error, unit) res" where
  \<comment> \<open>the loop over the clients; one whose socket is closed is passed over\<close>
  "patch_subscribers len frame [] = ([], Inr ())"
| "patch_subscribers len frame (c # cs) =
     (if \<not> lc_inventory_subscribed c then with_first c (patch_subscribers len frame cs)
      else
        (case queue_reliable_frame_to_live_client len c (frame (lc_seq c)) of
           (c1, Inl e) \<Rightarrow>
             if is_socket_closed e then with_first c1 (patch_subscribers len frame cs) else (c1 # cs, Inl e)
         | (c1, Inr _) \<Rightarrow> with_first c1 (patch_subscribers len frame cs)))"

definition write_client_inventory_patch_to_subscribers ::
  "(envelope \<Rightarrow> usize) \<Rightarrow> live_client list \<Rightarrow> session \<Rightarrow> client_inventory_patch \<Rightarrow>
     live_client list \<times> (live_error, unit) res" where
  "write_client_inventory_patch_to_subscribers len clients s patch =
     (if ip_joined patch = [] \<and> ip_updated patch = [] \<and> ip_left_connection_ids patch = [] then (clients, Inr ())
      else patch_subscribers len (client_inventory_patch_frame patch (ss_id s) local_client) clients)"

definition write_presence_to_live_client ::
  "(envelope \<Rightarrow> usize) \<Rightarrow> live_client \<Rightarrow> session \<Rightarrow> session_actor_info \<Rightarrow> live_client \<times> (live_error, unit) res" where
  "write_presence_to_live_client len c s actor =
     queue_reliable_frame_to_live_client len c (presence_update_frame s local_client (lc_seq c) actor)"

definition queue_protocol_error_to_live_client ::
  "(envelope \<Rightarrow> usize) \<Rightarrow> live_client \<Rightarrow> session \<Rightarrow> error_code \<Rightarrow> ustring \<Rightarrow> ustring option \<Rightarrow> u64 \<Rightarrow>
     live_client \<times> (live_error, unit) res" where
  "queue_protocol_error_to_live_client len c s code message pane_id input_seq =
     queue_reliable_frame_to_live_client len c
       (error_frame_with_context s local_client (lc_seq c) code message False pane_id input_seq)"

definition queue_pane_not_found_error_to_live_client ::
  "(envelope \<Rightarrow> usize) \<Rightarrow> live_client \<Rightarrow> session \<Rightarrow> ustring \<Rightarrow> u64 \<Rightarrow> live_client \<times> (live_error, unit) res" where
  "queue_pane_not_found_error_to_live_client len c s pane_id input_seq =
     queue_protocol_error_to_live_client len c s ErrPaneNotFound (lit ''pane not found: '' @ pane_id) (Some pane_id) input_seq"

definition queue_host_output_error_to_live_client ::
  "(envelope \<Rightarrow> usize) \<Rightarrow> (host_error \<Rightarrow> ustring) \<Rightarrow> live_client \<Rightarrow> session \<Rightarrow> ustring \<Rightarrow> host_error \<Rightarrow>
     live_client \<times> (live_error, unit) res" where
  "queue_host_output_error_to_live_client len error_text c s pane_id e =
     queue_protocol_error_to_live_client len c s ErrUnknown (lit ''output polling failed: '' @ error_text e) (Some pane_id) 0"

definition queue_scrollback_fetch_error_to_live_client ::
  "(envelope \<Rightarrow> usize) \<Rightarrow> live_client \<Rightarrow> session \<Rightarrow> scrollback_fetch_summary \<Rightarrow> error_code \<Rightarrow>
     live_client \<times> (live_error, unit) res" where
  "queue_scrollback_fetch_error_to_live_client len c s f code =
     (case scrollback_version s (sf_pane_id f) of
        None \<Rightarrow> queue_pane_not_found_error_to_live_client len c s (sf_pane_id f) 0
      | Some current \<Rightarrow>
          queue_protocol_error_to_live_client len c s code
            (lit ''stale scrollback version for '' @ sf_pane_id f @ lit '': client='' @ dec_str (sf_known_version f) @
             lit '' server='' @ dec_str current) (Some (sf_pane_id f)) 0)"

definition queue_pong_frame_to_live_client ::
  "(envelope \<Rightarrow> usize) \<Rightarrow> live_client \<Rightarrow> session \<Rightarrow> ping_summary \<Rightarrow> live_client \<times> (live_error, unit) res" where
  "queue_pong_frame_to_live_client len c s ping =
     queue_reliable_frame_to_live_client len c (ping_frame ping (ss_id s) local_client (lc_seq c) True)"

subsection \<open>The size of a pane that several clients look at\<close>

definition smaller_size :: "u32 \<times> u32 \<Rightarrow> u32 \<times> u32 \<Rightarrow> u32 \<times> u32" where
  "smaller_size x y = (min (fst x) (fst y), min (snd x) (snd y))"

definition smallest_read_write_frontend_resize :: "live_client list \<Rightarrow> ustring \<Rightarrow> (u32 \<times> u32) option" where
  "smallest_read_write_frontend_resize clients pane_id =
     (case List.map_filter (\<lambda>c. bt_get (lc_frontend_resize_constraints c) pane_id)
             (filter (\<lambda>c. input_allowed (lc_actor c)) clients) of
        [] \<Rightarrow> None
      | first # rest \<Rightarrow> Some (foldl smaller_size first rest))"

definition apply_frontend_resize ::
  "'s live_ops \<Rightarrow> u64 \<Rightarrow> live_client list \<Rightarrow> 's \<Rightarrow> ustring \<Rightarrow> 's \<times> (live_error, bool) res" where
  "apply_frontend_resize ops now clients st pane_id =
     (case smallest_read_write_frontend_resize clients pane_id of
        None \<Rightarrow> (st, Inr False)
      | Some (cols, rows) \<Rightarrow>
          if pane_size (lo_session ops st) pane_id = Some (cols, rows) then (st, Inr False)
          else (case lo_resize_host ops st pane_id cols rows of
             (st1, Inl e) \<Rightarrow> (st1, Inl (LiveServe (ServeHost e)))
           | (st1, Inr _) \<Rightarrow>
               (case lo_commit_resize ops now (pane_id @ lit '':frontend-resize'') st1 pane_id cols rows of
                  (st2, Inl e) \<Rightarrow> (st2, Inl (LiveServe (ServeHost e)))
                | (st2, Inr changed) \<Rightarrow> (st2, Inr changed))))"

definition apply_concurrent_frontend_resize where
  "apply_concurrent_frontend_resize eops ops = apply_frontend_resize (direct_live eops ops) 0"

definition apply_concurrent_frontend_resize_with_session_actor where
  "apply_concurrent_frontend_resize_with_session_actor eops ops = apply_frontend_resize (actor_live eops ops)"

subsection \<open>What a client has sent\<close>

definition read_live_client_frame :: "live_client \<Rightarrow> live_client \<times> (live_error, live_client_read) res" where
  "read_live_client_frame c =
     (case lc_transport c of
        LegacyTransport reads written \<Rightarrow>
          (case read_live_client_frame_from_stream reads of
             (r, rest) \<Rightarrow>
               (c\<lparr>lc_transport := LegacyTransport rest written\<rparr>,
                case r of Inl e \<Rightarrow> Inl (LiveServe e) | Inr x \<Rightarrow> Inr x))
      | AsyncTransport [] ended output \<Rightarrow> (c, Inr (if ended then ClientClosed else ClientNoFrame))
      | AsyncTransport (event # events) ended output \<Rightarrow>
          (c\<lparr>lc_transport := AsyncTransport events ended output\<rparr>,
           Inr (case event of
                  EventInput i \<Rightarrow> ClientFrame (ClientInput i)
                | EventResize r \<Rightarrow> ClientFrame (ClientResize r)
                | EventScrollback f \<Rightarrow> ClientFrame (ClientScrollback f)
                | EventPing p \<Rightarrow> ClientFrame (ClientPing p)
                | EventClosed \<Rightarrow> ClientClosed)))"

definition live_client_has_more_input :: "live_client \<Rightarrow> bool \<times> live_client" where
  "live_client_has_more_input c =
     (case lc_transport c of
        AsyncTransport _ _ _ \<Rightarrow> (True, c)
      | LegacyTransport reads written \<Rightarrow>
          (case stream_readable reads of (ready, rest) \<Rightarrow> (ready, c\<lparr>lc_transport := LegacyTransport rest written\<rparr>)))"

definition forward_live_input ::
  "'s live_ops \<Rightarrow> (envelope \<Rightarrow> usize) \<Rightarrow> u64 \<Rightarrow> live_client \<Rightarrow> 's \<Rightarrow> input_summary \<Rightarrow>
     live_client \<times> 's \<times> (live_error, unit) res" where
  "forward_live_input ops len now c st i =
     (let s = lo_session ops st; k = is_pane_id i; with_state = (\<lambda>st (c, r). (c, st, r)) in
      if surface_version s k = None then
        with_state st (queue_pane_not_found_error_to_live_client len c s k (is_input_seq i))
      else case forwarding_rejection i s of
        Some rejection \<Rightarrow>
          with_state st (queue_protocol_error_to_live_client len c s ErrPermissionDenied (rejection_message rejection)
            (Some k) (is_input_seq i))
      | None \<Rightarrow>
          (case lo_forwarded_bytes ops st i of
             (st1, Inl e) \<Rightarrow>
               with_state st1 (queue_protocol_error_to_live_client len c s ErrUnknown (forwarding_error_text i e) (Some k)
                 (is_input_seq i))
           | (st1, Inr bytes) \<Rightarrow>
               (case lo_write_input ops (lo_accept_input ops now (ac_id (lc_actor c)) i bytes st1) k bytes of
                  (st2, Inl e) \<Rightarrow>
                    if input_write_target_exited e k then (c, st2, Inr ())
                    else
                      with_state st2 (queue_protocol_error_to_live_client len c s ErrUnknown
                        (lit ''input forwarding failed: '' @ lo_error_text ops e) (Some k) (is_input_seq i))
                | (st2, Inr _) \<Rightarrow> (c, st2, Inr ()))))"

record drain_status =
  ds_had_input :: bool
  ds_input_pane_ids :: "ustring list"
  ds_frontend_resize_pane_ids :: "ustring list"
  ds_changed_workspace :: bool
  ds_close_after_drain :: bool

definition drain_status_new :: drain_status where
  "drain_status_new =
     \<lparr>ds_had_input = False, ds_input_pane_ids = [], ds_frontend_resize_pane_ids = [], ds_changed_workspace = False,
      ds_close_after_drain = False\<rparr>"

datatype client_drain = DrainOpen drain_status | DrainClosed | DrainFails live_error

datatype drain_end = DrainNext | DrainSkips | DrainStops client_drain

definition close_after :: "live_client \<times> (live_error, unit) res \<Rightarrow> live_client \<times> drain_end" where
  \<comment> \<open>\<open>queue(..)?; return Ok(ClientDrainStatus::Closed)\<close>\<close>
  "close_after r = (fst r, DrainStops (case snd r of Inl e \<Rightarrow> DrainFails e | Inr _ \<Rightarrow> DrainClosed))"

definition go_on_after :: "drain_end \<Rightarrow> live_client \<times> (live_error, unit) res \<Rightarrow> live_client \<times> drain_end" where
  \<comment> \<open>\<open>queue(..)?\<close> with what follows it\<close>
  "go_on_after next r = (fst r, case snd r of Inl e \<Rightarrow> DrainStops (DrainFails e) | Inr _ \<Rightarrow> next)"

definition drain_fetch ::
  "(envelope \<Rightarrow> usize) \<Rightarrow> live_client \<Rightarrow> session \<Rightarrow> scrollback_fetch_summary \<Rightarrow> live_client \<times> drain_end" where
  "drain_fetch len c s f =
     (case scrollback_fetch_error_code s f of
        Some code \<Rightarrow>
          (let r = queue_scrollback_fetch_error_to_live_client len c s f code in
           if code = ErrStaleVersion then go_on_after DrainSkips r else close_after r)
      | None \<Rightarrow>
          (case scrollback_chunk_frame_for_pane s local_client (lc_seq c) (sf_pane_id f) (sf_start_line f) (sf_line_count f) of
             None \<Rightarrow> close_after (queue_pane_not_found_error_to_live_client len c s (sf_pane_id f) 0)
           | Some chunk \<Rightarrow> go_on_after DrainNext (queue_reliable_frame_to_live_client len c chunk)))"

definition drain_resize ::
  "'s live_ops \<Rightarrow> bool \<Rightarrow> (envelope \<Rightarrow> usize) \<Rightarrow> u64 \<Rightarrow> live_client \<times> 's \<times> drain_status \<Rightarrow> resize_intent_summary \<Rightarrow>
     (live_client \<times> 's \<times> drain_status) \<times> drain_end" where
  \<comment> \<open>\<open>refused_skips\<close>: the variant on an actor goes on to the next frame without a look whether there is one\<close>
  "drain_resize ops refused_skips len now d r =
     (case d of (c, st, ds) \<Rightarrow>
        (let s = lo_session ops st; k = rs_pane_id r; keep = (\<lambda>(c, x). ((c, st, ds), x)) in
         if \<not> input_allowed (lc_actor c) then
           keep (close_after (queue_protocol_error_to_live_client len c s ErrPermissionDenied
             (lit ''resize rejected: actor is read-only'') (Some k) 0))
         else if surface_version s k = None then
           keep (close_after (queue_pane_not_found_error_to_live_client len c s k 0))
         else if \<not> resize_intent_allowed (case pane_resize_policy s k of Some p \<Rightarrow> p | None \<Rightarrow> ResizeFixed) (rs_reason r)
           then (d, if refused_skips then DrainSkips else DrainNext)
         else if rs_reason r = ReasonFrontendViewport then
           ((c\<lparr>lc_frontend_resize_constraints := bt_put k (rs_cols r, rs_rows r) (lc_frontend_resize_constraints c)\<rparr>, st,
             ds\<lparr>ds_frontend_resize_pane_ids := ds_frontend_resize_pane_ids ds @ [k]\<rparr>), DrainSkips)
         else case lo_resize_host ops st k (rs_cols r) (rs_rows r) of
           (st1, Inl e) \<Rightarrow>
             (case close_after (queue_protocol_error_to_live_client len c s ErrUnknown
                      (lit ''resize failed: '' @ lo_error_text ops e) (Some k) 0) of
                (c1, x) \<Rightarrow> ((c1, st1, ds), x))
         | (st1, Inr _) \<Rightarrow>
             (case lo_commit_resize ops now (ac_id (lc_actor c)) st1 k (rs_cols r) (rs_rows r) of
                (st2, Inl e) \<Rightarrow> ((c, st2, ds), DrainStops (DrainFails (LiveServe (ServeHost e))))
              | (st2, Inr changed) \<Rightarrow>
                  ((c, st2, ds\<lparr>ds_changed_workspace := ds_changed_workspace ds \<or> changed\<rparr>), DrainNext))))"

definition drain_input ::
  "'s live_ops \<Rightarrow> (envelope \<Rightarrow> usize) \<Rightarrow> u64 \<Rightarrow> live_client \<times> 's \<times> drain_status \<Rightarrow> input_summary \<Rightarrow>
     (live_client \<times> 's \<times> drain_status) \<times> drain_end" where
  "drain_input ops len now d i =
     (case d of (c, st, ds) \<Rightarrow>
        if \<not> input_allowed (lc_actor c) then
          (case close_after (queue_protocol_error_to_live_client len c (lo_session ops st) ErrPermissionDenied
                   (lit ''input rejected: actor is read-only'') (Some (is_pane_id i)) (is_input_seq i)) of
             (c1, x) \<Rightarrow> ((c1, st, ds), x))
        else (case forward_live_input ops len now c st i of
          (c1, st1, Inl e) \<Rightarrow> ((c1, st1, ds), DrainStops (DrainFails e))
        | (c1, st1, Inr _) \<Rightarrow>
            ((c1, st1, ds\<lparr>ds_had_input := True, ds_input_pane_ids := ds_input_pane_ids ds @ [is_pane_id i]\<rparr>), DrainNext)))"

definition drain_frame ::
  "'s live_ops \<Rightarrow> bool \<Rightarrow> (envelope \<Rightarrow> usize) \<Rightarrow> u64 \<Rightarrow> live_client \<times> 's \<times> drain_status \<Rightarrow> live_client_frame \<Rightarrow>
     (live_client \<times> 's \<times> drain_status) \<times> drain_end" where
  "drain_frame ops refused_skips len now d frame =
     (case d of (c, st, ds) \<Rightarrow>
        (let c1 = c\<lparr>lc_last_seen_mono_ms := now\<rparr>; s = lo_session ops st in
         case frame of
           ClientScrollback f \<Rightarrow> (case drain_fetch len c1 s f of (c2, x) \<Rightarrow> ((c2, st, ds), x))
         | ClientResize r \<Rightarrow> drain_resize ops refused_skips len now (c1, st, ds) r
         | ClientInput i \<Rightarrow> drain_input ops len now (c1\<lparr>lc_last_input_mono_ms := Some now\<rparr>, st, ds) i
         | ClientPing p \<Rightarrow>
             (case go_on_after DrainNext (queue_pong_frame_to_live_client len c1 s p) of (c2, x) \<Rightarrow> ((c2, st, ds), x))))"

definition input_left :: "live_client \<Rightarrow> nat" where
  "input_left c = (case lc_transport c of LegacyTransport reads _ \<Rightarrow> length reads | AsyncTransport events _ _ \<Rightarrow> length events)"

lemma queue_input_left [simp]: "input_left (fst (queue_reliable_frame_to_live_client len c frame)) = input_left c"
  by (simp add: queue_reliable_frame_to_live_client_def input_left_def split: live_transport.split prod.split sum.split)

lemma queues_input_left [simp]:
  "input_left (fst (queue_protocol_error_to_live_client len c s code message k n)) = input_left c"
  "input_left (fst (queue_pane_not_found_error_to_live_client len c s p n)) = input_left c"
  "input_left (fst (queue_scrollback_fetch_error_to_live_client len c s f code)) = input_left c"
  "input_left (fst (queue_pong_frame_to_live_client len c s ping)) = input_left c"
  by (simp_all add: queue_protocol_error_to_live_client_def queue_pane_not_found_error_to_live_client_def
      queue_scrollback_fetch_error_to_live_client_def queue_pong_frame_to_live_client_def split: option.split)

lemma ends_fst [simp]: "fst (close_after r) = fst r" "fst (go_on_after x r) = fst r"
  by (simp_all add: close_after_def go_on_after_def)

lemma input_left_fields [simp]:
  "input_left (c\<lparr>lc_last_seen_mono_ms := n\<rparr>) = input_left c" "input_left (c\<lparr>lc_last_input_mono_ms := m\<rparr>) = input_left c"
  "input_left (c\<lparr>lc_frontend_resize_constraints := x\<rparr>) = input_left c"
  by (simp_all add: input_left_def)

lemma drain_fetch_input_left [simp]: "input_left (fst (drain_fetch len c s f)) = input_left c"
  by (simp add: drain_fetch_def Let_def split: option.split)

lemma drain_resize_input_left: "input_left (fst (fst (drain_resize ops b len now d r))) = input_left (fst d)"
  by (simp add: drain_resize_def Let_def case_prod_beta split: sum.split)

lemma forward_input_left [simp]: "input_left (fst (forward_live_input ops len now c st i)) = input_left c"
  by (simp add: forward_live_input_def Let_def case_prod_beta split: sum.split option.split)

lemma drain_input_input_left: "input_left (fst (fst (drain_input ops len now d i))) = input_left (fst d)"
  using forward_input_left [of ops len now "fst d" "fst (snd d)" i]
  by (auto simp: drain_input_def case_prod_beta split: sum.split)

lemma drain_frame_input_left: "input_left (fst (fst (drain_frame ops b len now d frame))) = input_left (fst d)"
  by (simp add: drain_frame_def Let_def case_prod_beta drain_resize_input_left drain_input_input_left
      split: live_client_frame.split)

lemma read_client_shorter:
  "read_live_client_frame c = (c1, Inr (ClientFrame f)) \<Longrightarrow> input_left c1 < input_left c"
  using read_frame_shorter
  by (auto simp: read_live_client_frame_def input_left_def split: live_transport.splits list.splits prod.splits sum.splits
      client_input_event.splits if_splits)

lemma more_input_shorter: "live_client_has_more_input c = (b, c1) \<Longrightarrow> input_left c1 \<le> input_left c"
  using stream_readable_length
  by (auto simp: live_client_has_more_input_def input_left_def split: live_transport.splits prod.splits)
    (metis snd_conv)

lemma drain_turn_shorter:
  assumes "read_live_client_frame c = (c1, Inr (ClientFrame f))"
    and "drain_frame ops b len now (c1, st, ds) f = (d2, x)"
  shows "input_left (fst d2) < input_left c"
  using read_client_shorter [OF assms(1)] drain_frame_input_left [of ops b len now "(c1, st, ds)" f] assms(2) by simp

lemma drain_more_shorter:
  assumes "read_live_client_frame c = (c1, Inr (ClientFrame f))"
    and "drain_frame ops b len now (c1, st, ds) f = ((c2, st2, ds2), x)" and "live_client_has_more_input c2 = (ready, c3)"
  shows "input_left c3 < input_left c"
  using drain_turn_shorter [OF assms(1,2)] more_input_shorter [OF assms(3)] by simp

function drain_clients_frames ::
  "'s live_ops \<Rightarrow> bool \<Rightarrow> (envelope \<Rightarrow> usize) \<Rightarrow> u64 \<Rightarrow> live_client \<times> 's \<times> drain_status \<Rightarrow>
     (live_client \<times> 's) \<times> client_drain" where
  "drain_clients_frames ops refused_skips len now d =
     (case d of (c, st, ds) \<Rightarrow>
        (case read_live_client_frame c of
           (c1, Inl e) \<Rightarrow> ((c1, st), DrainFails e)
         | (c1, Inr ClientNoFrame) \<Rightarrow> ((c1, st), DrainOpen ds)
         | (c1, Inr ClientClosed) \<Rightarrow> ((c1, st), DrainOpen (ds\<lparr>ds_close_after_drain := True\<rparr>))
         | (c1, Inr (ClientFrame f)) \<Rightarrow>
             (case drain_frame ops refused_skips len now (c1, st, ds) f of
                ((c2, st2, ds2), DrainStops x) \<Rightarrow> ((c2, st2), x)
              | (d2, DrainSkips) \<Rightarrow> drain_clients_frames ops refused_skips len now d2
              | ((c2, st2, ds2), DrainNext) \<Rightarrow>
                  (case live_client_has_more_input c2 of
                     (True, c3) \<Rightarrow> drain_clients_frames ops refused_skips len now (c3, st2, ds2)
                   | (False, c3) \<Rightarrow> ((c3, st2), DrainOpen ds2)))))"
  by pat_completeness auto
termination
  by (relation "measure (\<lambda>(ops, b, len, now, d). input_left (fst d))")
    (auto simp: eq_commute [of "(_, _)"] dest: drain_turn_shorter intro: drain_more_shorter)

declare drain_clients_frames.simps [simp del]

definition drain_live_client_frames where
  "drain_live_client_frames eops ops len now c st =
     drain_clients_frames (direct_live eops ops) False len now (c, st, drain_status_new)"

definition drain_live_client_frames_with_session_actor where
  "drain_live_client_frames_with_session_actor eops ops len now c st =
     drain_clients_frames (actor_live eops ops) True len now (c, st, drain_status_new)"


subsection \<open>The queue of a client\<close>

definition client_queue_ok :: "(envelope \<Rightarrow> usize) \<Rightarrow> live_client \<Rightarrow> bool" where
  \<comment> \<open>the output, if it has one, keeps its bounds, and the session still holds its end\<close>
  "client_queue_ok len c \<longleftrightarrow>
     (case lc_transport c of LegacyTransport _ _ \<Rightarrow> True
      | AsyncTransport _ _ output \<Rightarrow> output_ok len output \<and> \<not> co_sender_gone output)"

lemma queue_ok_fields [simp]:
  "client_queue_ok len (c\<lparr>lc_last_seen_mono_ms := n\<rparr>) = client_queue_ok len c"
  "client_queue_ok len (c\<lparr>lc_last_input_mono_ms := m\<rparr>) = client_queue_ok len c"
  "client_queue_ok len (c\<lparr>lc_frontend_resize_constraints := x\<rparr>) = client_queue_ok len c"
  "client_queue_ok len (c\<lparr>lc_completed_cycles := k\<rparr>) = client_queue_ok len c"
  by (simp_all add: client_queue_ok_def)

lemma queue_result:
  assumes "queue_reliable_frame_to_live_client len c frame = (c', r)"
  shows "(client_queue_ok len c \<longrightarrow> client_queue_ok len c') \<and>
    lc_seq c' = (case r of Inr _ \<Rightarrow> lc_seq c + 1 | Inl _ \<Rightarrow> lc_seq c) \<and> lc_actor c' = lc_actor c \<and>
    lc_connection_id c' = lc_connection_id c \<and>
    lc_known_surface_versions c' = lc_known_surface_versions c \<and>
    lc_frontend_resize_constraints c' = lc_frontend_resize_constraints c"
proof (cases "lc_transport c")
  case (LegacyTransport reads written)
  with assms show ?thesis by (auto simp: queue_reliable_frame_to_live_client_def client_queue_ok_def)
next
  case (AsyncTransport events ended out0)
  obtain out1 x where send: "try_send_reliable len out0 frame = (out1, x)" by fastforce
  have gone: "co_sender_gone out1 = co_sender_gone out0"
    using try_send_result [OF send] by (auto split: sum.splits)
  with assms AsyncTransport send try_send_ok [OF _ _ send] show ?thesis
    by (auto simp: queue_reliable_frame_to_live_client_def client_queue_ok_def split: sum.splits)
qed

lemma queue_keeps [simp]:
  "client_queue_ok len c \<Longrightarrow> client_queue_ok len (fst (queue_reliable_frame_to_live_client len c frame))"
  "lc_actor (fst (queue_reliable_frame_to_live_client len c frame)) = lc_actor c"
  using queue_result [of len c frame] by (metis prod.collapse)+

lemma queues_keep [simp]:
  "client_queue_ok len c \<Longrightarrow> client_queue_ok len (fst (queue_protocol_error_to_live_client len c s code message k n))"
  "client_queue_ok len c \<Longrightarrow> client_queue_ok len (fst (queue_pane_not_found_error_to_live_client len c s p n))"
  "client_queue_ok len c \<Longrightarrow> client_queue_ok len (fst (queue_scrollback_fetch_error_to_live_client len c s f code))"
  "client_queue_ok len c \<Longrightarrow> client_queue_ok len (fst (queue_pong_frame_to_live_client len c s ping))"
  "client_queue_ok len c \<Longrightarrow> client_queue_ok len (fst (queue_host_output_error_to_live_client len text c s p e))"
  "client_queue_ok len c \<Longrightarrow> client_queue_ok len (fst (write_presence_to_live_client len c s actor))"
  "client_queue_ok len c \<Longrightarrow> client_queue_ok len (fst (write_client_inventory_snapshot_to_client len c s v cs))"
  "lc_actor (fst (queue_protocol_error_to_live_client len c s code message k n)) = lc_actor c"
  "lc_actor (fst (queue_pane_not_found_error_to_live_client len c s p n)) = lc_actor c"
  "lc_actor (fst (queue_scrollback_fetch_error_to_live_client len c s f code)) = lc_actor c"
  "lc_actor (fst (queue_pong_frame_to_live_client len c s ping)) = lc_actor c"
  by (simp_all add: queue_protocol_error_to_live_client_def queue_pane_not_found_error_to_live_client_def
      queue_scrollback_fetch_error_to_live_client_def queue_pong_frame_to_live_client_def
      queue_host_output_error_to_live_client_def write_presence_to_live_client_def
      write_client_inventory_snapshot_to_client_def split: option.split)

lemma patch_subscribers_ok:
  "list_all (client_queue_ok len) cs \<Longrightarrow> list_all (client_queue_ok len) (fst (patch_subscribers len frame cs))"
proof (induction cs)
  case (Cons c cs)
  obtain c1 r where q: "queue_reliable_frame_to_live_client len c (frame (lc_seq c)) = (c1, r)" by fastforce
  with queue_result [OF q] Cons show ?case by (cases r) (auto simp: with_first_def)
qed simp

lemma patch_subscribers_length: "length (fst (patch_subscribers len frame cs)) = length cs"
  by (induction cs) (auto simp: with_first_def split: prod.split sum.split)

lemma signal_bundles_ok:
  "signal_bundles len s st ks = (st', r) \<Longrightarrow> output_ok len (fst st) \<Longrightarrow> \<not> co_sender_gone (fst st) \<Longrightarrow>
     output_ok len (fst st') \<and> \<not> co_sender_gone (fst st')"
proof (induction len s st ks rule: signal_bundles.induct)
  case (2 len s out0 seq known k ks)
  show ?case
  proof (cases "surface_version s k = None \<or> bt_get known k = surface_version s k \<or> surface_frame_bundle_for_pane s k seq = None")
    case True
    with 2 show ?thesis by (auto split: option.splits)
  next
    case False
    then obtain cur bd where b: "surface_version s k = Some cur" "bt_get known k \<noteq> Some cur"
      "surface_frame_bundle_for_pane s k seq = Some bd" by auto
    obtain out1 x where u: "signal_surface_frame_bundle len out0 k (fb_version bd) (fb_snapshot bd) (fb_patch bd) =
        (out1, x)" by fastforce
    note u' = u [unfolded signal_surface_frame_bundle_def]
    have ok: "output_ok len out1" using update_signal_ok [OF _ _ u'] "2.prems"(2,3) by simp
    have gone: "\<not> co_sender_gone out1" using update_signal_result [OF u'] "2.prems"(3) by (cases x) auto
    show ?thesis
    proof (cases x)
      case (Inl e)
      with "2.prems"(1) b u ok gone show ?thesis by auto
    next
      case (Inr y)
      have "signal_bundles len s (out1, seq + 1, bt_put k cur known) ks = (st', r)"
        using "2.prems"(1) b u Inr by simp
      from "2.IH"(4) [OF b(1,2,3) u [symmetric] Inr this] ok gone show ?thesis by simp
    qed
  qed
qed simp

lemma signal_changed_ok:
  assumes "client_queue_ok len c" shows "client_queue_ok len (fst (signal_changed_surface_frames_to_live_client len c s ks))"
proof (cases "lc_transport c")
  case (AsyncTransport events ended out0)
  obtain out1 n m r where b: "signal_bundles len s (out0, lc_seq c, lc_known_surface_versions c) ks = ((out1, n, m), r)"
    by (metis prod_cases4 prod.collapse)
  from signal_bundles_ok [OF b] assms AsyncTransport b show ?thesis
    by (simp add: signal_changed_surface_frames_to_live_client_def client_queue_ok_def)
qed (simp add: signal_changed_surface_frames_to_live_client_def client_queue_ok_def split: prod.split)


subsection \<open>Draining a client\<close>

lemma read_client_keeps:
  "client_queue_ok len (fst (read_live_client_frame c)) = client_queue_ok len c"
  "lc_actor (fst (read_live_client_frame c)) = lc_actor c"
  by (auto simp: read_live_client_frame_def client_queue_ok_def split: live_transport.split list.split prod.split)

lemma more_input_keeps:
  "client_queue_ok len (snd (live_client_has_more_input c)) = client_queue_ok len c"
  "lc_actor (snd (live_client_has_more_input c)) = lc_actor c"
  by (auto simp: live_client_has_more_input_def client_queue_ok_def split: live_transport.split prod.split)

lemma read_only_drain_frame:
  assumes "\<not> input_allowed (lc_actor (fst d))"
  shows "fst (snd (fst (drain_frame ops b len now d f))) = fst (snd d)"
    and "lc_actor (fst (fst (drain_frame ops b len now d f))) = lc_actor (fst d)"
  using assms
  by (auto simp: drain_frame_def drain_fetch_def drain_resize_def drain_input_def Let_def case_prod_beta
      split: live_client_frame.split option.split)

lemma read_only_drain:
  assumes "\<not> input_allowed (lc_actor (fst d))"
  shows "snd (fst (drain_clients_frames ops b len now d)) = fst (snd d)"
  using assms
proof (induction "input_left (fst d)" arbitrary: d rule: less_induct)
  case less
  obtain c st ds where d: "d = (c, st, ds)" by (cases d)
  obtain c1 r where read: "read_live_client_frame c = (c1, r)" by fastforce
  have actor: "lc_actor c1 = lc_actor c" using read_client_keeps(2) [of c] read by simp
  note unfold = drain_clients_frames.simps [of ops b len now "(c, st, ds)"] d read
  show ?case
  proof (cases "\<exists>f. r = Inr (ClientFrame f)")
    case False
    then show ?thesis by (auto simp: unfold split: sum.splits live_client_read.splits)
  next
    case True
    then obtain f where f: "r = Inr (ClientFrame f)" by blast
    obtain c2 st2 ds2 x where fr: "drain_frame ops b len now (c1, st, ds) f = ((c2, st2, ds2), x)"
      by (metis prod_cases4 prod.collapse)
    have ro: "\<not> input_allowed (lc_actor (fst (c1, st, ds)))" using less.prems actor d by simp
    have same: "st2 = st" "lc_actor c2 = lc_actor c"
      using read_only_drain_frame [OF ro, of ops b len now f] fr actor by simp_all
    obtain ready c3 where more: "live_client_has_more_input c2 = (ready, c3)" by fastforce
    have actor3: "lc_actor c3 = lc_actor c" using more_input_keeps(2) [of c2] more same by simp
    note read' = read [unfolded f]
    have s2: "input_left (fst (c2, st2, ds2)) < input_left (fst d)" using drain_turn_shorter [OF read' fr] d by simp
    have s3: "input_left (fst (c3, st2, ds2)) < input_left (fst d)" using drain_more_shorter [OF read' fr more] d by simp
    show ?thesis
    proof (cases x)
      case DrainNext
      with less.hyps [OF s3] less.prems actor3 same d show ?thesis
        by (cases ready) (simp_all add: unfold f fr more)
    next
      case DrainSkips
      with less.hyps [OF s2] less.prems same d show ?thesis by (simp add: unfold f fr)
    next
      case (DrainStops y)
      with same show ?thesis by (simp add: unfold f fr)
    qed
  qed
qed

lemma ends_queue_ok [simp]:
  "client_queue_ok len c \<Longrightarrow> client_queue_ok len (fst (drain_fetch len c s f))"
  by (simp add: drain_fetch_def Let_def split: option.split)

lemma forward_queue_ok:
  "client_queue_ok len c \<Longrightarrow> client_queue_ok len (fst (forward_live_input ops len now c st i))"
  by (simp add: forward_live_input_def Let_def case_prod_beta split: sum.split option.split)

lemma drain_frame_queue_ok:
  assumes "client_queue_ok len (fst d)" shows "client_queue_ok len (fst (fst (drain_frame ops b len now d f)))"
proof -
  have resize: "client_queue_ok len (fst (fst (drain_resize ops b len now e r)))" if "client_queue_ok len (fst e)" for e r
    using that by (simp add: drain_resize_def Let_def case_prod_beta split: sum.split)
  have input_ok: "client_queue_ok len (fst (fst (drain_input ops len now e i)))" if "client_queue_ok len (fst e)" for e i
    using that forward_queue_ok [OF that, of ops now "fst (snd e)" i]
    by (auto simp: drain_input_def case_prod_beta split: sum.split)
  from assms resize input_ok show ?thesis
    by (simp add: drain_frame_def Let_def case_prod_beta split: live_client_frame.split)
qed

context live_session
begin

lemma forward_kept:
  assumes "kept s st" shows "kept s (fst (snd (forward_live_input ops len now c st i)))"
proof -
  obtain st1 bytes where fwd: "lo_forwarded_bytes ops st i = (st1, bytes)" by fastforce
  note k1 = kept_steps(1) [OF assms fwd]
  obtain st2 w where wr: "\<And>bs. bytes = Inr bs \<Longrightarrow>
      lo_write_input ops (lo_accept_input ops now (ac_id (lc_actor c)) i bs st1) (is_pane_id i) bs = (st2, w)"
    by (cases bytes) (auto, metis surj_pair)
  have k2: "kept s st2" if "bytes = Inr bs" for bs
    using kept_steps(3) [OF kept_steps(2) [OF k1] wr [OF that]] .
  show ?thesis
    using assms k1 k2 fwd wr
    by (cases bytes; cases w)
      (auto simp: forward_live_input_def Let_def case_prod_beta split: option.split)
qed

lemma drain_resize_kept:
  assumes "kept s (fst (snd d))" shows "kept s (fst (snd (fst (drain_resize ops b len now d r))))"
proof -
  obtain c st ds where d: "d = (c, st, ds)" by (cases d)
  obtain st1 w where h: "lo_resize_host ops st (rs_pane_id r) (rs_cols r) (rs_rows r) = (st1, w)" by fastforce
  obtain st2 x where m: "lo_commit_resize ops now (ac_id (lc_actor c)) st1 (rs_pane_id r) (rs_cols r) (rs_rows r) = (st2, x)"
    by fastforce
  have k: "kept s st1" "kept s st2"
    using kept_steps(4) [OF _ h] kept_steps(5) [OF _ m] assms d by auto
  then show ?thesis
    using assms h m d by (cases w; cases x) (auto simp: drain_resize_def Let_def case_prod_beta)
qed

lemma drain_frame_kept:
  assumes "kept s (fst (snd d))" shows "kept s (fst (snd (fst (drain_frame ops b len now d f))))"
proof (cases f)
  case (ClientResize r)
  then show ?thesis
    using drain_resize_kept [of s "(fst d\<lparr>lc_last_seen_mono_ms := now\<rparr>, snd d)" b len now r] assms
    by (simp add: drain_frame_def Let_def case_prod_beta)
next
  case (ClientInput i)
  let ?c = "fst d\<lparr>lc_last_seen_mono_ms := now, lc_last_input_mono_ms := Some now\<rparr>"
  from forward_kept [OF assms, of len now ?c i] ClientInput assms show ?thesis
    by (auto simp: drain_frame_def drain_input_def Let_def case_prod_beta split: sum.split)
qed (use assms in \<open>simp_all add: drain_frame_def Let_def case_prod_beta\<close>)

lemma drain_kept:
  assumes "kept s (fst (snd d))" and "client_queue_ok len (fst d)"
  shows "kept s (snd (fst (drain_clients_frames ops b len now d))) \<and>
    client_queue_ok len (fst (fst (drain_clients_frames ops b len now d)))"
  using assms
proof (induction "input_left (fst d)" arbitrary: d rule: less_induct)
  case less
  obtain c st ds where d: "d = (c, st, ds)" by (cases d)
  obtain c1 r where read: "read_live_client_frame c = (c1, r)" by fastforce
  have q1: "client_queue_ok len c1" using read_client_keeps(1) [of len c] read less.prems d by simp
  note unfold = drain_clients_frames.simps [of ops b len now "(c, st, ds)"] d read
  show ?case
  proof (cases "\<exists>f. r = Inr (ClientFrame f)")
    case False
    with less.prems q1 show ?thesis by (auto simp: unfold split: sum.splits live_client_read.splits)
  next
    case True
    then obtain f where f: "r = Inr (ClientFrame f)" by blast
    obtain c2 st2 ds2 x where fr: "drain_frame ops b len now (c1, st, ds) f = ((c2, st2, ds2), x)"
      by (metis prod_cases4 prod.collapse)
    have k2: "kept s st2" and q2: "client_queue_ok len c2"
      using drain_frame_kept [of s "(c1, st, ds)" b len now f] drain_frame_queue_ok [of len "(c1, st, ds)" ops b now f]
        fr less.prems q1 d by simp_all
    obtain ready c3 where more: "live_client_has_more_input c2 = (ready, c3)" by fastforce
    have q3: "client_queue_ok len c3" using more_input_keeps(1) [of len c2] more q2 by simp
    note read' = read [unfolded f]
    have s2: "input_left (fst (c2, st2, ds2)) < input_left (fst d)" using drain_turn_shorter [OF read' fr] d by simp
    have s3: "input_left (fst (c3, st2, ds2)) < input_left (fst d)" using drain_more_shorter [OF read' fr more] d by simp
    show ?thesis
    proof (cases x)
      case DrainNext
      with less.hyps [OF s3] k2 q3 show ?thesis by (cases ready) (simp_all add: unfold f fr more)
    next
      case DrainSkips
      with less.hyps [OF s2] k2 q2 show ?thesis by (simp add: unfold f fr)
    next
      case (DrainStops y)
      with k2 q2 show ?thesis by (simp add: unfold f fr)
    qed
  qed
qed

lemma apply_resize_kept:
  assumes "kept s st" shows "kept s (fst (apply_frontend_resize ops now clients st k))"
proof (cases "smallest_read_write_frontend_resize clients k")
  case (Some x)
  obtain cols rows where x: "x = (cols, rows)" by (cases x)
  obtain st1 w where h: "lo_resize_host ops st k cols rows = (st1, w)" by fastforce
  obtain st2 y where m: "lo_commit_resize ops now (k @ lit '':frontend-resize'') st1 k cols rows = (st2, y)" by fastforce
  have "kept s st1" "kept s st2"
    using kept_steps(4) [OF assms h] kept_steps(5) [OF kept_steps(4) [OF assms h] m] by auto
  with assms Some x h m show ?thesis
    by (cases w; cases y) (auto simp: apply_frontend_resize_def)
qed (use assms in \<open>simp add: apply_frontend_resize_def\<close>)

end


subsection \<open>The least size wins\<close>

definition wanted_sizes :: "live_client list \<Rightarrow> ustring \<Rightarrow> (u32 \<times> u32) set" where
  \<comment> \<open>what the clients that may write have asked for\<close>
  "wanted_sizes clients k =
     set (List.map_filter (\<lambda>c. if input_allowed (lc_actor c) then bt_get (lc_frontend_resize_constraints c) k else None) clients)"

lemma foldl_smaller_size:
  "foldl smaller_size x xs = (Min (fst ` set (x # xs)), Min (snd ` set (x # xs)))"
proof (induction xs arbitrary: x)
  case (Cons y ys)
  have "Min (f ` set (smaller_size x y # ys)) = Min (f ` set (x # y # ys))" if "f (smaller_size x y) = min (f x) (f y)" for f :: "u32 \<times> u32 \<Rightarrow> nat"
    using that by (cases "ys = []") (simp_all add: Min_insert2 min.assoc)
  with Cons [of "smaller_size x y"] show ?case by (simp add: smaller_size_def)
qed simp

lemma smallest_size:
  "smallest_read_write_frontend_resize clients k =
     (if wanted_sizes clients k = {} then None
      else Some (Min (fst ` wanted_sizes clients k), Min (snd ` wanted_sizes clients k)))"
proof -
  let ?sizes = "List.map_filter (\<lambda>c. bt_get (lc_frontend_resize_constraints c) k) (filter (\<lambda>c. input_allowed (lc_actor c)) clients)"
  have "?sizes = List.map_filter (\<lambda>c. if input_allowed (lc_actor c) then bt_get (lc_frontend_resize_constraints c) k else None) clients"
    by (induction clients) (simp_all add: List.map_filter_simps split: option.split)
  then have w: "wanted_sizes clients k = set ?sizes" by (simp add: wanted_sizes_def)
  show ?thesis
    by (cases ?sizes) (simp_all add: smallest_read_write_frontend_resize_def w foldl_smaller_size)
qed

locale live_sizing = live_session +
  assumes commit_sizes: "good st \<Longrightarrow> lo_commit_resize ops now src st k cols rows = (st', Inr b) \<Longrightarrow>
    pane_size (lo_session ops st) k \<noteq> None \<Longrightarrow> pane_size (lo_session ops st') k = Some (cols, rows)"
begin

lemma least_size_wins:
  assumes "good st" and "pane_size (lo_session ops st) k \<noteq> None" and "wanted_sizes clients k \<noteq> {}"
    and "apply_frontend_resize ops now clients st k = (st', Inr changed)"
  shows "pane_size (lo_session ops st') k =
    Some (Min (fst ` wanted_sizes clients k), Min (snd ` wanted_sizes clients k))"
proof -
  let ?c = "Min (fst ` wanted_sizes clients k)" and ?r = "Min (snd ` wanted_sizes clients k)"
  have want: "smallest_read_write_frontend_resize clients k = Some (?c, ?r)" using assms(3) by (simp add: smallest_size)
  show ?thesis
  proof (cases "pane_size (lo_session ops st) k = Some (?c, ?r)")
    case True
    with assms(4) want show ?thesis by (simp add: apply_frontend_resize_def)
  next
    case False
    obtain st1 w where h: "lo_resize_host ops st k ?c ?r = (st1, w)" by fastforce
    obtain st2 y where m: "lo_commit_resize ops now (k @ lit '':frontend-resize'') st1 k ?c ?r = (st2, y)" by fastforce
    note s1 = resize_host [OF assms(1) h]
    obtain b where y: "y = Inr b" and st': "st' = st2"
      using assms(4) want False h m by (cases w; cases y) (auto simp: apply_frontend_resize_def)
    from commit_sizes [OF _ m [unfolded y]] s1 assms(2) st' show ?thesis by simp
  qed
qed

end

lemma interim_commit_sizes:
  assumes "pane_size s k \<noteq> None"
  shows "pane_size (fst (commit_pane_resize_with_engine interim_engine s k c r e)) k = Some (c, r)"
proof -
  obtain p where p: "session_pane_data s k = Some p" using assms by (auto simp: pane_size_def)
  obtain u where u: "te_resize interim_engine e (terminal_input_of_pane p) c r = (e, Some u)"
    by (auto simp: interim_engine_def interim_resize_def)
  have size_after: "pn_cols (resize_pane_data c r u p) = c \<and> pn_rows (resize_pane_data c r u p) = r"
    by (simp add: resize_pane_data_def apply_terminal_update_frame)
  show ?thesis
    using p u size_after
    by (auto simp: commit_pane_resize_with_engine_def pane_size_def pane_mut_or_look harmless_step split: prod.split)
qed

sublocale pump_source \<subseteq> interim_direct: live_sizing "direct_live interim_engine ops" "\<lambda>_. True"
proof
  fix now src st k cols rows st' b
  assume "lo_commit_resize (direct_live interim_engine ops) now src st k cols rows = (st', Inr b)"
    and "pane_size (lo_session (direct_live interim_engine ops) st) k \<noteq> None"
  then show "pane_size (lo_session (direct_live interim_engine ops) st') k = Some (cols, rows)"
    using interim_commit_sizes [of "fst st" k cols rows "engine_mut interim_engine (fst (snd st)) k"]
    by (auto simp: direct_live_def split: prod.splits)
qed

sublocale pump_source \<subseteq> interim_actor: live_sizing "actor_live interim_engine ops" "\<lambda>st. rests (fst st)"
proof
  fix now src k cols rows b and st st' :: "ansi_state session_actor \<times> 'h"
  assume "rests (fst st)" and "lo_commit_resize (actor_live interim_engine ops) now src st k cols rows = (st', Inr b)"
    and "pane_size (lo_session (actor_live interim_engine ops) st) k \<noteq> None"
  then show "pane_size (lo_session (actor_live interim_engine ops) st') k = Some (cols, rows)"
    using actor_resize_result [of "fst st" interim_engine ops now src "snd st" k cols rows "fst st'" "snd st'" "Inr b"]
      interim_commit_sizes
    by (simp add: actor_live_def case_prod_beta)
qed


subsection \<open>The two variants drain alike\<close>

definition live_agree :: "'e session_actor \<times> 'h \<Rightarrow> session \<times> 'e pane_engines \<times> 'h \<Rightarrow> bool" where
  "live_agree x y \<longleftrightarrow> rests (fst x) \<and> held (fst x) = (fst y, fst (snd y)) \<and> snd x = snd (snd y)"

definition same_result :: "('a \<Rightarrow> 'b \<Rightarrow> bool) \<Rightarrow> 'a \<times> 'r \<Rightarrow> 'b \<times> 'r \<Rightarrow> bool" where
  "same_result R x y \<longleftrightarrow> R (fst x) (fst y) \<and> snd x = snd y"

lemma same_resultE:
  assumes "same_result R x y"
  obtains a b r where "x = (a, r)" "y = (b, r)" "R a b"
  using assms by (cases x; cases y) (simp add: same_result_def)

definition is_async :: "live_client \<Rightarrow> bool" where
  "is_async c \<longleftrightarrow> (\<exists>events ended out1. lc_transport c = AsyncTransport events ended out1)"

definition drain_ends_alike :: "drain_end \<Rightarrow> drain_end \<Rightarrow> bool" where
  \<comment> \<open>where there is always a next frame to look at, skipping the look makes no difference\<close>
  "drain_ends_alike x y \<longleftrightarrow> x = y \<or> x \<in> {DrainNext, DrainSkips} \<and> y \<in> {DrainNext, DrainSkips}"

lemma queue_async [simp]:
  "is_async (fst (queue_reliable_frame_to_live_client len c frame)) = is_async c"
  by (auto simp: queue_reliable_frame_to_live_client_def is_async_def split: live_transport.split prod.split sum.split)

lemma queues_async [simp]:
  "is_async (fst (queue_protocol_error_to_live_client len c s code message k n)) = is_async c"
  "is_async (fst (queue_pane_not_found_error_to_live_client len c s p n)) = is_async c"
  "is_async (fst (queue_scrollback_fetch_error_to_live_client len c s f code)) = is_async c"
  "is_async (fst (queue_pong_frame_to_live_client len c s ping)) = is_async c"
  "is_async (c\<lparr>lc_last_seen_mono_ms := now\<rparr>) = is_async c" "is_async (c\<lparr>lc_last_input_mono_ms := x\<rparr>) = is_async c"
  "is_async (c\<lparr>lc_frontend_resize_constraints := z\<rparr>) = is_async c"
  by (simp_all add: queue_protocol_error_to_live_client_def queue_pane_not_found_error_to_live_client_def
      queue_scrollback_fetch_error_to_live_client_def queue_pong_frame_to_live_client_def split: option.split)
    (simp_all add: is_async_def)

lemma read_client_async: "is_async c \<Longrightarrow> is_async (fst (read_live_client_frame c))"
  by (auto simp: is_async_def read_live_client_frame_def split: list.split)

lemma drain_frame_async: "is_async (fst d) \<Longrightarrow> is_async (fst (fst (drain_frame ops b len now d f)))"
proof -
  assume a: "is_async (fst d)"
  have fetch: "is_async (fst (drain_fetch len c s g))" if "is_async c" for c s g
    using that by (simp add: drain_fetch_def Let_def split: option.split)
  have resize: "is_async (fst (fst (drain_resize ops b len now e r)))" if "is_async (fst e)" for e r
    using that by (simp add: drain_resize_def Let_def case_prod_beta split: sum.split)
  have fwd: "is_async (fst (forward_live_input ops len now c st i))" if "is_async c" for c st i
    using that by (simp add: forward_live_input_def Let_def case_prod_beta split: sum.split option.split)
  have inp: "is_async (fst (fst (drain_input ops len now e i)))" if "is_async (fst e)" for e i
    using that fwd [OF that, of "fst (snd e)" i] by (auto simp: drain_input_def case_prod_beta split: sum.split)
  from a fetch resize inp show ?thesis by (simp add: drain_frame_def Let_def case_prod_beta split: live_client_frame.split)
qed

locale live_simulation =
  fixes opsA :: "'a live_ops" and opsB :: "'b live_ops" and R :: "'a \<Rightarrow> 'b \<Rightarrow> bool"
  assumes sim_session: "R a b \<Longrightarrow> lo_session opsA a = lo_session opsB b"
    and sim_forwarded: "R a b \<Longrightarrow> same_result R (lo_forwarded_bytes opsA a i) (lo_forwarded_bytes opsB b i)"
    and sim_accept: "R a b \<Longrightarrow> R (lo_accept_input opsA now src i bytes a) (lo_accept_input opsB now src i bytes b)"
    and sim_write: "R a b \<Longrightarrow> same_result R (lo_write_input opsA a k bytes) (lo_write_input opsB b k bytes)"
    and sim_resize: "R a b \<Longrightarrow> same_result R (lo_resize_host opsA a k cols rows) (lo_resize_host opsB b k cols rows)"
    and sim_commit: "R a b \<Longrightarrow>
      same_result R (lo_commit_resize opsA now src a k cols rows) (lo_commit_resize opsB now src b k cols rows)"
    and sim_text: "lo_error_text opsA = lo_error_text opsB"
begin

abbreviation RD :: "live_client \<times> 'a \<times> drain_status \<Rightarrow> live_client \<times> 'b \<times> drain_status \<Rightarrow> bool" where
  "RD x y \<equiv> fst x = fst y \<and> R (fst (snd x)) (fst (snd y)) \<and> snd (snd x) = snd (snd y)"

lemma sim_forward:
  assumes "R a b"
  shows "fst (forward_live_input opsA len now c a i) = fst (forward_live_input opsB len now c b i) \<and>
    same_result R (snd (forward_live_input opsA len now c a i)) (snd (forward_live_input opsB len now c b i))"
proof -
  obtain a1 b1 r where f: "lo_forwarded_bytes opsA a i = (a1, r)" "lo_forwarded_bytes opsB b i = (b1, r)" "R a1 b1"
    using sim_forwarded [OF assms, of i] by (rule same_resultE)
  show ?thesis
  proof (cases r)
    case (Inl e)
    with f assms sim_session [OF assms] show ?thesis
      by (auto simp: forward_live_input_def Let_def case_prod_beta same_result_def split: option.split)
  next
    case (Inr bytes)
    obtain a2 b2 w where w:
      "lo_write_input opsA (lo_accept_input opsA now (ac_id (lc_actor c)) i bytes a1) (is_pane_id i) bytes = (a2, w)"
      "lo_write_input opsB (lo_accept_input opsB now (ac_id (lc_actor c)) i bytes b1) (is_pane_id i) bytes = (b2, w)" "R a2 b2"
      using sim_write [OF sim_accept [OF f(3), of now "ac_id (lc_actor c)" i bytes], of "is_pane_id i" bytes]
      by (rule same_resultE)
    with f Inr assms sim_session [OF assms] sim_text show ?thesis
      by (cases w) (auto simp: forward_live_input_def Let_def case_prod_beta same_result_def split: option.split)
  qed
qed

lemma sim_drain_resize:
  assumes "R a b"
  shows "RD (fst (drain_resize opsA x len now (c, a, ds) r)) (fst (drain_resize opsB y len now (c, b, ds) r)) \<and>
    drain_ends_alike (snd (drain_resize opsA x len now (c, a, ds) r)) (snd (drain_resize opsB y len now (c, b, ds) r))"
proof -
  let ?k = "rs_pane_id r"
  obtain a1 b1 w where h: "lo_resize_host opsA a ?k (rs_cols r) (rs_rows r) = (a1, w)"
    "lo_resize_host opsB b ?k (rs_cols r) (rs_rows r) = (b1, w)" "R a1 b1"
    using sim_resize [OF assms] by (rule same_resultE)
  obtain a2 b2 m where m: "lo_commit_resize opsA now (ac_id (lc_actor c)) a1 ?k (rs_cols r) (rs_rows r) = (a2, m)"
    "lo_commit_resize opsB now (ac_id (lc_actor c)) b1 ?k (rs_cols r) (rs_rows r) = (b2, m)" "R a2 b2"
    using sim_commit [OF h(3)] by (rule same_resultE)
  show ?thesis
    using h m assms sim_session [OF assms] sim_text
    by (cases w; cases m) (auto simp: drain_resize_def Let_def case_prod_beta drain_ends_alike_def)
qed

lemma sim_drain_frame:
  assumes "R a b"
  shows "RD (fst (drain_frame opsA x len now (c, a, ds) f)) (fst (drain_frame opsB y len now (c, b, ds) f)) \<and>
    drain_ends_alike (snd (drain_frame opsA x len now (c, a, ds) f)) (snd (drain_frame opsB y len now (c, b, ds) f))"
proof (cases f)
  case (ClientResize r)
  with sim_drain_resize [OF assms] show ?thesis by (simp add: drain_frame_def Let_def)
next
  case (ClientInput i)
  let ?c = "c\<lparr>lc_last_seen_mono_ms := now, lc_last_input_mono_ms := Some now\<rparr>"
  obtain c1 a1 b1 w where "forward_live_input opsA len now ?c a i = (c1, a1, w)" "forward_live_input opsB len now ?c b i = (c1, b1, w)"
    "R a1 b1"
    using sim_forward [OF assms, of len now ?c i]
    by (metis same_resultE fst_conv snd_conv prod.collapse)
  with ClientInput assms sim_session [OF assms] show ?thesis
    by (cases w) (auto simp: drain_frame_def drain_input_def Let_def case_prod_beta drain_ends_alike_def)
qed (use assms sim_session [OF assms] in \<open>auto simp: drain_frame_def Let_def case_prod_beta drain_ends_alike_def\<close>)

lemma sim_drain:
  assumes "R a b" and "is_async c"
  shows "fst (fst (drain_clients_frames opsA x len now (c, a, ds))) = fst (fst (drain_clients_frames opsB y len now (c, b, ds))) \<and>
    R (snd (fst (drain_clients_frames opsA x len now (c, a, ds)))) (snd (fst (drain_clients_frames opsB y len now (c, b, ds)))) \<and>
    snd (drain_clients_frames opsA x len now (c, a, ds)) = snd (drain_clients_frames opsB y len now (c, b, ds))"
  using assms
proof (induction "input_left c" arbitrary: c a b ds rule: less_induct)
  case less
  obtain c1 r where read: "read_live_client_frame c = (c1, r)" by fastforce
  have async1: "is_async c1" using read_client_async [OF less.prems(2)] read by (metis fst_conv)
  note unfold = drain_clients_frames.simps [of opsA x len now "(c, a, ds)"] drain_clients_frames.simps [of opsB y len now "(c, b, ds)"] read
  show ?case
  proof (cases "\<exists>f. r = Inr (ClientFrame f)")
    case False
    with less.prems show ?thesis by (cases r) (auto simp: unfold split: live_client_read.split)
  next
    case True
    then obtain f where f: "r = Inr (ClientFrame f)" by blast
    obtain c2 a2 ds2 xa where fa: "drain_frame opsA x len now (c1, a, ds) f = ((c2, a2, ds2), xa)"
      by (metis prod_cases4 prod.collapse)
    obtain b2 xb where fb: "drain_frame opsB y len now (c1, b, ds) f = ((c2, b2, ds2), xb)"
      and R2: "R a2 b2" and alike: "drain_ends_alike xa xb"
      using sim_drain_frame [OF less.prems(1), of x len now c1 ds f y] fa by (metis fst_conv prod.collapse snd_conv)
    have async2: "is_async c2" using drain_frame_async [of "(c1, a, ds)" opsA x len now f] async1 fa by simp
    have more: "live_client_has_more_input c2 = (True, c2)"
      using async2 by (auto simp: is_async_def live_client_has_more_input_def)
    have short: "input_left c2 < input_left c" using drain_turn_shorter [OF read [unfolded f] fa] by simp
    note ih = less.hyps [OF short R2 async2, of ds2]
    show ?thesis
      using alike ih R2 by (cases xa; cases xb) (auto simp: unfold f fa fb more drain_ends_alike_def)
  qed
qed

end

lemma no_answers_commit:
  assumes "\<And>e. te_drain_pty_writes eops e = (e, [])" and "live_agree x y"
  shows "same_result live_agree (lo_commit_resize (actor_live eops ops) now src x k c r)
    (lo_commit_resize (direct_live eops ops) now src y k c r)"
proof -
  obtain a h where x: "x = (a, h)" by (cases x)
  obtain s es where y: "y = (s, es, h)" using assms(2) x by (cases y) (auto simp: live_agree_def)
  have a: "rests a" "actor_session a = s" "sc_engines (sa_core a) = es"
    using assms(2) by (auto simp: x y live_agree_def held_def actor_session_def)
  let ?p = "\<lparr>pe_source_id = src, pe_lane = LaneClient, pe_session_mono_ms = now, pe_event = CommitPaneResize k c r\<rparr>"
  obtain s1 e1 ch where cm: "commit_pane_resize_with_engine eops s k c r (engine_mut eops es k) = (s1, e1, ch)"
    by (metis prod_cases3)
  obtain core t where acc: "accept_pending eops (sa_core a) ?p = (core, t)" by fastforce
  have core: "sc_session core = s1" "sc_engines core = engine_put es k e1" "tn_effects t \<noteq> [] \<longleftrightarrow> ch"
    using acc a cm by (auto simp: accept_pending_def apply_accepted_def Let_def apply_pane_resize_event_def actor_session_def
        split: prod.splits if_splits)
  from drain_one [OF a(1) acc] obtain a1 where
    d: "drain_ready eops (actor_enqueue a ?p) = ([trace_record_from_transition t], a1)" "rests a1" "sa_core a1 = core" by blast
  have again: "engine_put (engine_put es k e1) k (engine_mut eops (engine_put es k e1) k) = engine_put es k e1"
    by (simp add: engine_mut_put) (simp add: engine_put_def)
  have w: "drain_pane_pty_writes eops core k = (core\<lparr>sc_engines := engine_put es k e1\<rparr>, [])"
    by (simp add: drain_pane_pty_writes_def assms(1) core(2) again)
  show ?thesis
    using d w cm core
    by (simp add: x y actor_live_def direct_live_def commit_pane_resize_with_session_actor_def same_result_def live_agree_def
        held_def rests_iff trace_record_from_transition_def)
qed

lemma accept_agree:
  assumes "live_agree x y"
  shows "live_agree (lo_accept_input (actor_live eops ops) now src i bytes x) (lo_accept_input (direct_live eops ops) now src i bytes y)"
proof -
  obtain a h where x: "x = (a, h)" by (cases x)
  have rest: "rests a" using assms by (simp add: x live_agree_def)
  let ?p = "\<lparr>pe_source_id = src, pe_lane = LaneClient, pe_session_mono_ms = now,
      pe_event = ForwardPaneInput (is_pane_id i) (is_input_seq i) bytes\<rparr>"
  obtain core t where acc: "accept_pending eops (sa_core a) ?p = (core, t)" by fastforce
  have core: "sc_session core = sc_session (sa_core a)" "sc_engines core = sc_engines (sa_core a)"
    using acc by (auto simp: accept_pending_def apply_accepted_def Let_def workspace_step_def)
  from drain_one [OF rest acc] obtain a1 where
    "drain_ready eops (actor_enqueue a ?p) = ([trace_record_from_transition t], a1)" "rests a1" "sa_core a1 = core" by blast
  with core assms show ?thesis
    by (simp add: x actor_live_def direct_live_def accept_pane_input_with_session_actor_def live_agree_def held_def case_prod_beta)
qed

interpretation interim_variants: live_simulation "actor_live interim_engine ops" "direct_live interim_engine ops" live_agree for ops
proof
  fix x :: "ansi_state session_actor \<times> 'a" and y now src k cols rows
  assume "live_agree x y"
  then show "same_result live_agree (lo_commit_resize (actor_live interim_engine ops) now src x k cols rows)
      (lo_commit_resize (direct_live interim_engine ops) now src y k cols rows)"
    by (intro no_answers_commit) (simp_all add: interim_engine_def)
qed (auto simp: accept_agree,
    auto simp: live_agree_def actor_live_def direct_live_def same_result_def held_def actor_session_def rests_iff
      split: prod.splits)

lemma interim_drains_agree:
  assumes "live_agree (a, h) (s, es, h)" and "is_async c"
  shows "fst (fst (drain_live_client_frames_with_session_actor interim_engine ops len now c (a, h))) =
      fst (fst (drain_live_client_frames interim_engine ops len now c (s, es, h))) \<and>
    live_agree (snd (fst (drain_live_client_frames_with_session_actor interim_engine ops len now c (a, h))))
      (snd (fst (drain_live_client_frames interim_engine ops len now c (s, es, h)))) \<and>
    snd (drain_live_client_frames_with_session_actor interim_engine ops len now c (a, h)) =
      snd (drain_live_client_frames interim_engine ops len now c (s, es, h))"
  unfolding drain_live_client_frames_with_session_actor_def drain_live_client_frames_def
  by (rule interim_variants.sim_drain [OF assms])

end
