(* ===== verification/Async_Delivery.thy ===== *)
theory Async_Delivery
  imports Live_Clients Client_Cache
begin

text \<open>
  What a live client shows, from the engines of the panes to the cache of the client: the session signals the
  surfaces that changed (\<open>signal_changed_surface_frames_to_live_client\<close>), the watch keeps only the latest
  signal of each pane, the task that writes decides by the version it wrote last whether the patch of the signal
  or its snapshot goes to the socket, and the client applies what it receives. The steps interleave in any order:
  output and resizes of any pane, signals, other frames, single turns of the writer.

  The result: no frame is refused, and a client that has been sent the current version of a pane, with nothing
  left unseen, holds exactly the server's copy of it. The run is counted: versions must not reach the end of
  their 64 bits, where the source saturates.
\<close>

record delivery =
  dv_session :: session
  dv_engines :: "ustring \<Rightarrow> ansi_state"
  dv_output :: "envelope client_output"
  dv_seq :: u64
  dv_known :: "(ustring, u64) btree"
  dv_writer :: write_task_state
  dv_cache :: client_attach_state
  dv_intact :: bool
    \<comment> \<open>the client has refused nothing\<close>

definition client_receives :: "client_attach_state \<times> bool \<Rightarrow> envelope \<Rightarrow> client_attach_state \<times> bool" where
  "client_receives x frame =
     (case live_frame_read frame of
        Inl _ \<Rightarrow> (fst x, False)
      | Inr (LiveUpdate u) \<Rightarrow>
          (case apply_surface_update (fst x) u of (st, r) \<Rightarrow> (st, case r of Inl _ \<Rightarrow> False | Inr _ \<Rightarrow> snd x))
      | Inr _ \<Rightarrow> x)"

definition to_client :: "(client_attach_state \<times> bool, envelope) frame_writer" where
  \<comment> \<open>a socket that takes every frame, with the client at its other end\<close>
  "to_client x frame = (client_receives x frame, Inr ())"

definition other_frame :: "envelope \<Rightarrow> bool" where
  \<comment> \<open>a frame the client understands that is no update of a surface\<close>
  "other_frame frame \<longleftrightarrow> (case live_frame_read frame of Inl _ \<Rightarrow> False | Inr (LiveUpdate _) \<Rightarrow> False | Inr _ \<Rightarrow> True)"

definition written_turn :: "(envelope \<Rightarrow> usize) \<Rightarrow> delivery \<Rightarrow> delivery" where
  \<comment> \<open>one turn of the task that writes\<close>
  "written_turn len d =
     (case write_task_step len to_client bundled_frame_source ((dv_cache d, dv_intact d), dv_writer d, dv_output d) of
        (((cache, intact), writer, out1), _) \<Rightarrow>
          d\<lparr>dv_cache := cache, dv_intact := intact, dv_writer := writer, dv_output := out1\<rparr>)"

inductive delivers :: "(envelope \<Rightarrow> usize) \<Rightarrow> nat \<Rightarrow> delivery \<Rightarrow> delivery \<Rightarrow> bool" for len where
  delivers_none: "delivers len 0 d d"
| delivers_engine: "delivers len n d d1 \<Longrightarrow>
    session_engine_step interim_engine k x (dv_session d1, dv_engines d1 k) = (s, e) \<Longrightarrow>
    delivers len (Suc n) d (d1\<lparr>dv_session := s, dv_engines := (dv_engines d1)(k := e)\<rparr>)"
| delivers_signal: "delivers len n d d1 \<Longrightarrow>
    signal_bundles len (dv_session d1) (dv_output d1, dv_seq d1, dv_known d1) ks = ((out1, seq, known), Inr ()) \<Longrightarrow>
    delivers len n d (d1\<lparr>dv_output := out1, dv_seq := seq, dv_known := known\<rparr>)"
| delivers_other: "delivers len n d d1 \<Longrightarrow> other_frame frame \<Longrightarrow>
    try_send_reliable len (dv_output d1) frame = (out1, Inr ()) \<Longrightarrow>
    delivers len n d (d1\<lparr>dv_output := out1, dv_seq := dv_seq d1 + 1\<rparr>)"
| delivers_written: "delivers len n d d1 \<Longrightarrow> delivers len n d (written_turn len d1)"

subsection \<open>What holds of each pane on the way\<close>

definition carries :: "envelope surface_signal \<Rightarrow> ustring \<Rightarrow> pane_data \<Rightarrow> bool" where
  \<comment> \<open>the signal was made from this state of the pane\<close>
  "carries sg k q \<longleftrightarrow>
     sg_pane_id sg = k \<and> pn_id q = k \<and> sg_version sg = pn_surface_version q \<and>
     (\<exists>f. sg_snapshot_frame sg = Some f \<and> en_body f = BodySnapshot (pane_snapshot q)) \<and>
     (\<forall>b f. sg_patch_frame sg = Some (b, f) \<longrightarrow>
        Suc b = pn_surface_version q \<and> pn_last_patch_kind q \<noteq> PatchFullRefreshRequired \<and> en_body f = BodyPatch (pane_patch q b))"

definition pane_leads :: "pane_data \<Rightarrow> pane_step list \<Rightarrow> pane_data \<Rightarrow> bool" where
  "pane_leads q ss p \<longleftrightarrow> interim_accepts q \<and> p = pane_run q ss \<and> steps_ok q ss"

definition client_trails :: "nat \<Rightarrow> client_pane option \<Rightarrow> u64 option \<Rightarrow> pane_data \<Rightarrow> nat \<Rightarrow> bool" where
  \<comment> \<open>what the writer believes the client has is what it has, and leads to this state of the pane\<close>
  "client_trails bound copy known q more_steps \<longleftrightarrow>
     (case known of None \<Rightarrow> True
      | Some v \<Rightarrow> \<exists>c ss. copy = Some (client_of c) \<and> v = pn_surface_version c \<and> pane_leads c ss q \<and>
          pn_surface_version c + length ss + more_steps \<le> bound)"

definition pane_on_the_way ::
  "nat \<Rightarrow> ustring \<Rightarrow> client_pane option \<Rightarrow> u64 option \<Rightarrow> envelope surface_signal option \<Rightarrow> pane_data \<Rightarrow> bool" where
  "pane_on_the_way bound k copy known signal p \<longleftrightarrow>
     interim_accepts p \<and> pn_surface_version p \<le> bound \<and>
     (case signal of
        None \<Rightarrow> client_trails bound copy known p 0
      | Some sg \<Rightarrow> \<exists>q ss. carries sg k q \<and> pane_leads q ss p \<and> pn_surface_version q + length ss \<le> bound \<and>
          client_trails bound copy known q (length ss))"

definition signal_for :: "delivery \<Rightarrow> ustring \<Rightarrow> envelope surface_signal option" where
  "signal_for d k = bt_get (sm_panes (co_watched (dv_output d))) k"

definition known_agrees :: "delivery \<Rightarrow> ustring \<Rightarrow> bool" where
  \<comment> \<open>what the session takes for sent is the last signal, or what the writer has written\<close>
  "known_agrees d k \<longleftrightarrow> bt_get (dv_known d) k =
     (case signal_for d k of Some sg \<Rightarrow> Some (sg_version sg) | None \<Rightarrow> bt_get (wt_known (dv_writer d)) k)"

definition pane_in_flight :: "nat \<Rightarrow> delivery \<Rightarrow> ustring \<Rightarrow> bool" where
  "pane_in_flight bound d k \<longleftrightarrow>
     (case session_pane_data (dv_session d) k of
        None \<Rightarrow> signal_for d k = None
      | Some p \<Rightarrow>
          pane_on_the_way bound k (cached (dv_cache d) k) (bt_get (wt_known (dv_writer d)) k) (signal_for d k) p)"

definition on_the_way :: "(envelope \<Rightarrow> usize) \<Rightarrow> nat \<Rightarrow> delivery \<Rightarrow> bool" where
  "on_the_way len bound d \<longleftrightarrow>
     dv_intact d \<and> output_ok len (dv_output d) \<and> \<not> co_sender_gone (dv_output d) \<and>
     co_latest (dv_output d) = co_watched (dv_output d) \<and> list_all other_frame (co_queue (dv_output d)) \<and>
     bt_sorted (dv_known d) \<and> bt_sorted (wt_known (dv_writer d)) \<and>
     (\<forall>k. known_agrees d k) \<and>
     (\<not> co_unseen (dv_output d) \<longrightarrow>
        (\<forall>k sg. signal_for d k = Some sg \<longrightarrow> bt_get (wt_known (dv_writer d)) k = Some (sg_version sg))) \<and>
     (\<forall>k. pane_in_flight bound d k)"

lemma on_the_way_engine_pane:
  assumes "pane_on_the_way bound k copy known sg p" and "bound < U64_MAX" and "engine_step interim_engine e p x = (e', o1)"
  shows "pane_on_the_way (Suc bound) k copy known sg (case o1 of None \<Rightarrow> p | Some st \<Rightarrow> pane_step p st)"
proof -
  have weaken: "client_trails (Suc bound) copy known q m" if "client_trails bound copy known q m" for q m
    using that unfolding client_trails_def by (cases known) fastforce+
  have longer: "client_trails (Suc bound) copy known q (Suc m)" if "client_trails bound copy known q m" for q m
    using that unfolding client_trails_def by (cases known) fastforce+
  have acc: "interim_accepts p" and v: "pn_surface_version p \<le> bound" using assms(1) by (simp_all add: pane_on_the_way_def)
  show ?thesis
  proof (cases o1)
    case None
    with assms(1) weaken show ?thesis by (fastforce simp: pane_on_the_way_def split: option.splits)
  next
    case (Some st)
    note ok = interim.engine_step_ok [OF acc assms(3) [unfolded Some]]
    have good: "steps_ok p [st]" "interim_accepts (pane_step p st)"
      using ok interim.accepts_ok [of "pane_step p st"] by simp_all
    have lead: "pane_leads q (ss @ [st]) (pane_step p st)" if "pane_leads q ss p" for q ss
      using that good(1) by (auto simp: pane_leads_def steps_ok_append pane_run_append)
    have "pn_surface_version (pane_step p st) \<le> Suc bound"
      using pane_step_version [of p st] v assms(2) by auto
    moreover have "client_trails (Suc bound) copy known (pane_step p st) 0" if h: "client_trails bound copy known p 0"
    proof (cases known)
      case (Some n)
      then obtain c ss where "copy = Some (client_of c)" "n = pn_surface_version c" "pane_leads c ss p"
        "pn_surface_version c + length ss \<le> bound" using h by (auto simp: client_trails_def)
      with lead Some show ?thesis by (auto simp: client_trails_def intro!: exI [of _ c] exI [of _ "ss @ [st]"])
    qed (simp add: client_trails_def)
    moreover have "\<exists>q ss. carries g k q \<and> pane_leads q ss (pane_step p st) \<and> pn_surface_version q + length ss \<le> Suc bound \<and>
        client_trails (Suc bound) copy known q (length ss)"
      if "carries g k q" "pane_leads q ss p" "pn_surface_version q + length ss \<le> bound" "client_trails bound copy known q (length ss)"
      for g q ss
      using that lead longer by (intro exI [of _ q] exI [of _ "ss @ [st]"]) simp
    ultimately show ?thesis
      using assms(1) good(2) Some by (auto simp: pane_on_the_way_def split: option.splits)
  qed
qed


subsection \<open>What the client makes of a frame\<close>

definition takes_over :: "client_attach_state \<Rightarrow> envelope \<Rightarrow> ustring \<Rightarrow> client_pane \<Rightarrow> client_attach_state \<Rightarrow> bool" where
  \<comment> \<open>the client accepts the frame, has the copy then, and every other pane as before\<close>
  "takes_over st f k c st' \<longleftrightarrow>
     (\<forall>b. client_receives (st, b) f = (st', b)) \<and> cached st' k = Some c \<and> (\<forall>j. j \<noteq> k \<longrightarrow> cached st' j = cached st j)"

lemma update_taken:
  assumes "live_frame_read f = Inr (LiveUpdate u)" and "su_pane_id u = k"
    and "case cached st k of Some x \<Rightarrow> client_apply_update x u = Inr c
      | None \<Rightarrow> su_kind u = UpdateSnapshot \<and> client_from_snapshot u = Inr c"
  shows "\<exists>st'. takes_over st f k c st'"
proof -
  obtain st' t where up: "apply_surface_update_styled st u False = (st', Inr t)"
    using assms(2,3) by (auto simp: apply_surface_update_styled_def split: option.splits)
  from apply_surface_update_styled_Inr [OF up] assms(2,3)
  have "cached st' k = Some c" "\<forall>j. j \<noteq> k \<longrightarrow> cached st' j = cached st j"
    by (auto split: option.splits)
  moreover have "client_receives (st, b) f = (st', b)" for b
    using assms(1) up by (simp add: client_receives_def apply_surface_update_def)
  ultimately show ?thesis by (auto simp: takes_over_def)
qed

lemma snapshot_received:
  assumes "interim_accepts q" and "pn_id q = k" and "en_body f = BodySnapshot (pane_snapshot q)"
  shows "\<exists>st'. takes_over st f k (client_of q) st'"
proof -
  have ok: "pane_ok q" "pane_sendable q" using assms(1) by (simp_all add: interim_accepts_def)
  note syncs = snapshot_syncs [OF ok(2) pane_ok_rows [OF ok(1)]]
  show ?thesis
  proof (rule update_taken)
    show "live_frame_read f = Inr (LiveUpdate (snapshot_summary q))"
      using assms(3) syncs by (simp add: live_frame_read_def surface_update_from_frame_def)
    show "su_pane_id (snapshot_summary q) = k" using assms(2) by (simp add: snapshot_summary_def)
    show "case cached st k of Some x \<Rightarrow> client_apply_update x (snapshot_summary q) = Inr (client_of q)
      | None \<Rightarrow> su_kind (snapshot_summary q) = UpdateSnapshot \<and> client_from_snapshot (snapshot_summary q) = Inr (client_of q)"
      using syncs by (auto simp: client_apply_update_def snapshot_summary_def split: option.split)
  qed
qed

lemma leads_quiet:
  assumes "pane_leads c ss q" and "interim_accepts q" and "pn_surface_version c + length ss \<le> U64_MAX"
  shows "pane_ok c" "pane_sendable c" "diff_still_there c ss"
    "pn_surface_version q = pn_surface_version c \<Longrightarrow> client_of q = client_of c"
  using assms quiet_run_copy [of c ss] by (auto simp: pane_leads_def interim_accepts_def diff_still_there_def)

lemma patch_received:
  assumes lead: "pane_leads c ss q" and q: "interim_accepts q" "pn_id q = k"
    and v: "pn_surface_version c + length ss \<le> U64_MAX" "pn_surface_version q = Suc (pn_surface_version c)"
    and kind: "pn_last_patch_kind q \<noteq> PatchFullRefreshRequired"
    and copy: "cached st k = Some (client_of c)"
    and body: "en_body f = BodyPatch (pane_patch q (pn_surface_version c))"
  shows "\<exists>st'. takes_over st f k (client_of q) st'"
proof -
  have run: "q = pane_run c ss" and steps: "steps_ok c ss" using lead by (simp_all add: pane_leads_def)
  note c = leads_quiet [OF lead q(1) v(1)]
  have "pn_surface_version q \<le> U64_MAX" using v run by (cases ss) simp_all
  then have "surface_response_for_known_version (pn_surface_version q) (pn_surface_version c) (pn_last_patch_kind q) =
      Some (ResponsePatch (pn_surface_version c))"
    using v(2) kind by (simp add: surface_response_for_known_version_def checked_add_u64_def)
  with response_keeps_copy [OF c(1) v(1) steps c(2,3) run] obtain u where
    u: "patch_update (pane_patch q (pn_surface_version c)) = Inr u" "client_apply_update (client_of c) u = Inr (client_of q)"
    by (auto simp: client_after_def bind_res_Inr_iff)
  have "su_pane_id u = k"
    using u(2) update_kinds(2) [OF u(1)] cached_key [OF copy] client_apply_patch_elim(1)
    by (auto simp: client_apply_update_def)
  then show ?thesis
    using u copy body
    by (intro update_taken [where u = u]) (simp_all add: live_frame_read_def surface_update_from_frame_def)
qed

subsection \<open>A turn of the writer\<close>

definition has_written :: "client_attach_state \<times> write_task_state \<Rightarrow> ustring \<Rightarrow> pane_data \<Rightarrow>
    client_attach_state \<times> write_task_state \<Rightarrow> bool" where
  \<comment> \<open>the client has this state of the pane and the writer knows it; every other pane is as before\<close>
  "has_written x k q y \<longleftrightarrow>
     cached (fst y) k = Some (client_of q) \<and> bt_get (wt_known (snd y)) k = Some (pn_surface_version q) \<and>
     bt_sorted (wt_known (snd y)) \<and>
     (\<forall>j. j \<noteq> k \<longrightarrow> cached (fst y) j = cached (fst x) j \<and> bt_get (wt_known (snd y)) j = bt_get (wt_known (snd x)) j)"

lemma signal_written:
  assumes sg: "carries sg k q" and q: "interim_accepts q" and sorted: "bt_sorted (wt_known w)"
    and trails: "client_trails bound (cached st k) (bt_get (wt_known w) k) q m" and bound: "bound \<le> U64_MAX"
  shows "\<exists>st' w'. write_surface_signals to_client bundled_frame_source (st, b) w (sg # sgs) =
      write_surface_signals to_client bundled_frame_source (st', b) w' sgs \<and> has_written (st, w) k q (st', w')"
proof -
  let ?v = "pn_surface_version q"
  obtain f where f: "sg_snapshot_frame sg = Some f" "en_body f = BodySnapshot (pane_snapshot q)"
    and ids: "sg_pane_id sg = k" "pn_id q = k" "sg_version sg = ?v" using sg by (auto simp: carries_def)
  have send: ?thesis
    if "surface_frame_for_signal bundled_frame_source w sg = Some g" and "takes_over st g k (client_of q) st'"
      and "bt_get (wt_known w) k \<noteq> Some ?v" for g st'
    using that ids sorted
    by (intro exI [of _ st'] exI [of _ "\<lparr>wt_next_seq = sat_add_u64 (wt_next_seq w) 1, wt_known = bt_put k ?v (wt_known w)\<rparr>"])
      (simp add: to_client_def takes_over_def has_written_def bt_get_put bt_sorted_put)
  obtain st1 where snap: "takes_over st f k (client_of q) st1" using snapshot_received [OF q ids(2) f(2)] by blast
  show ?thesis
  proof (cases "bt_get (wt_known w) k")
    case None
    then have "surface_frame_for_signal bundled_frame_source w sg = Some f"
      using f ids by (simp add: surface_frame_for_signal_def bundled_surface_frame_for_signal_def)
    then show ?thesis using snap None by (intro send) simp_all
  next
    case (Some n)
    with trails obtain c ss where c: "cached st k = Some (client_of c)" "n = pn_surface_version c" "pane_leads c ss q"
      "pn_surface_version c + length ss \<le> U64_MAX" using bound by (auto simp: client_trails_def)
    show ?thesis
    proof (cases "n = ?v")
      case True
      with c leads_quiet(4) [OF c(3) q c(4)] Some ids sorted show ?thesis
        by (intro exI [of _ st] exI [of _ w]) (simp add: has_written_def)
    next
      case False
      show ?thesis
      proof (cases "bundled_surface_frame_for_signal w sg = Some f")
        case True
        with f snap Some \<open>n \<noteq> ?v\<close> show ?thesis by (intro send) (simp_all add: surface_frame_for_signal_def)
      next
        case other: False
        then obtain g where g: "sg_patch_frame sg = Some (n, g)" "checked_add_u64 n 1 = Some ?v"
          "bundled_surface_frame_for_signal w sg = Some g"
          using Some f ids
          by (auto simp: bundled_surface_frame_for_signal_def split: option.splits if_splits bind_splits)
        with sg c have "pn_last_patch_kind q \<noteq> PatchFullRefreshRequired" "?v = Suc (pn_surface_version c)"
          "en_body g = BodyPatch (pane_patch q (pn_surface_version c))"
          by (auto simp: carries_def)
        with patch_received [OF c(3) q ids(2) c(4)] c(1) obtain st2 where "takes_over st g k (client_of q) st2" by blast
        with g Some False show ?thesis by (intro send) (simp_all add: surface_frame_for_signal_def)
      qed
    qed
  qed
qed

lemma signal_set_written:
  assumes "distinct (map sg_pane_id sgs)" and "bt_sorted (wt_known w)" and bound: "bound \<le> U64_MAX"
    and "\<And>sg. sg \<in> set sgs \<Longrightarrow> carries sg (sg_pane_id sg) (q sg) \<and> interim_accepts (q sg) \<and>
      client_trails bound (cached st (sg_pane_id sg)) (bt_get (wt_known w) (sg_pane_id sg)) (q sg) (m sg)"
  shows "\<exists>st' w'. write_surface_signals to_client bundled_frame_source (st, b) w sgs = ((st', b), w', Inr ()) \<and>
    bt_sorted (wt_known w') \<and>
    (\<forall>k. k \<notin> sg_pane_id ` set sgs \<longrightarrow> cached st' k = cached st k \<and> bt_get (wt_known w') k = bt_get (wt_known w) k) \<and>
    (\<forall>sg \<in> set sgs. cached st' (sg_pane_id sg) = Some (client_of (q sg)) \<and>
      bt_get (wt_known w') (sg_pane_id sg) = Some (pn_surface_version (q sg)))"
  using assms(1,2,4)
proof (induction sgs arbitrary: st w)
  case (Cons sg sgs)
  let ?k = "sg_pane_id sg"
  have "carries sg ?k (q sg)" "interim_accepts (q sg)"
    "client_trails bound (cached st ?k) (bt_get (wt_known w) ?k) (q sg) (m sg)"
    using Cons.prems(3) by simp_all
  from signal_written [OF this(1,2) Cons.prems(2) this(3) bound, of b sgs] obtain st1 w1 where
    first: "write_surface_signals to_client bundled_frame_source (st, b) w (sg # sgs) =
      write_surface_signals to_client bundled_frame_source (st1, b) w1 sgs" and wrote: "has_written (st, w) ?k (q sg) (st1, w1)"
    by blast
  have others: "cached st1 j = cached st j" "bt_get (wt_known w1) j = bt_get (wt_known w) j" if "j \<noteq> ?k" for j
    using wrote that by (simp_all add: has_written_def)
  have later: "sg_pane_id g \<noteq> ?k" if "g \<in> set sgs" for g
  proof -
    have "sg_pane_id g \<in> sg_pane_id ` set sgs" using that by (rule imageI)
    moreover have "?k \<notin> sg_pane_id ` set sgs" using Cons.prems(1) by simp
    ultimately show ?thesis by metis
  qed
  have "carries g (sg_pane_id g) (q g) \<and> interim_accepts (q g) \<and>
      client_trails bound (cached st1 (sg_pane_id g)) (bt_get (wt_known w1) (sg_pane_id g)) (q g) (m g)"
    if "g \<in> set sgs" for g
    using Cons.prems(3) [of g] that others [OF later [OF that]] by simp
  with Cons.IH [of w1 st1] Cons.prems(1) wrote obtain st' w' where
    rest: "write_surface_signals to_client bundled_frame_source (st1, b) w1 sgs = ((st', b), w', Inr ())" "bt_sorted (wt_known w')"
    "\<forall>k. k \<notin> sg_pane_id ` set sgs \<longrightarrow> cached st' k = cached st1 k \<and> bt_get (wt_known w') k = bt_get (wt_known w1) k"
    "\<forall>g \<in> set sgs. cached st' (sg_pane_id g) = Some (client_of (q g)) \<and>
      bt_get (wt_known w') (sg_pane_id g) = Some (pn_surface_version (q g))"
    by (auto simp: has_written_def)
  have "?k \<notin> sg_pane_id ` set sgs" using Cons.prems(1) by simp
  with rest(3) wrote have "cached st' ?k = Some (client_of (q sg)) \<and> bt_get (wt_known w') ?k = Some (pn_surface_version (q sg))"
    by (simp add: has_written_def)
  with first rest others show ?case by (intro exI [of _ st'] exI [of _ w']) auto
qed simp

subsection \<open>Every step keeps what holds on the way\<close>

lemma panes_ok_sets:
  assumes "panes_ok sm"
  shows "distinct (map sg_pane_id (map snd (sm_panes sm)))"
    "sg \<in> snd ` set (sm_panes sm) \<longleftrightarrow> bt_get (sm_panes sm) (sg_pane_id sg) = Some sg"
    "bt_get (sm_panes sm) k = Some sg \<Longrightarrow> sg_pane_id sg = k"
proof -
  have s: "bt_sorted (sm_panes sm)" and ids: "\<forall>e \<in> set (sm_panes sm). sg_pane_id (snd e) = fst e"
    using assms by (simp_all add: panes_ok_def)
  have same: "map sg_pane_id (map snd (sm_panes sm)) = map fst (sm_panes sm)" using ids by simp
  show "distinct (map sg_pane_id (map snd (sm_panes sm)))"
    unfolding same using s by (simp add: bt_sorted_def strict_sorted_iff)
  show "bt_get (sm_panes sm) k = Some sg \<Longrightarrow> sg_pane_id sg = k"
    using ids bt_get_in [OF s, of k sg] by auto
  show "sg \<in> snd ` set (sm_panes sm) \<longleftrightarrow> bt_get (sm_panes sm) (sg_pane_id sg) = Some sg"
    using ids bt_get_in [OF s, of "sg_pane_id sg" sg] by (auto simp: image_iff) (metis snd_conv prod.collapse)
qed

lemma client_trails_mono: "client_trails bound copy known q m \<Longrightarrow> bound \<le> bound' \<Longrightarrow> client_trails bound' copy known q m"
  unfolding client_trails_def by (cases known) fastforce+

lemma pane_on_the_way_mono:
  "pane_on_the_way bound k copy known sg p \<Longrightarrow> bound \<le> bound' \<Longrightarrow> pane_on_the_way bound' k copy known sg p"
  using client_trails_mono [of bound copy known _ _ bound']
  by (cases sg) (fastforce simp: pane_on_the_way_def)+

lemma session_engine_step_others:
  assumes "j \<noteq> k \<or> session_pane_data s k = None"
  shows "session_pane_data (fst (session_engine_step ops k x (s, e))) j = session_pane_data s j"
  using assms
  by (cases "session_pane_data s k")
    (auto simp: session_engine_step_def apply_pane_output_with_engine_def commit_pane_resize_with_engine_def
      pane_mut_or_look harmless_step split: engine_op.splits prod.splits option.splits)

lemma on_the_way_engine:
  assumes way: "on_the_way len bound d" and bound: "bound < U64_MAX"
    and step: "session_engine_step interim_engine k x (dv_session d, dv_engines d k) = (s, e)"
  shows "on_the_way len (Suc bound) (d\<lparr>dv_session := s, dv_engines := es\<rparr>)"
proof -
  let ?d = "d\<lparr>dv_session := s, dv_engines := es\<rparr>"
  have s: "s = fst (session_engine_step interim_engine k x (dv_session d, dv_engines d k))" using step by simp
  have "pane_in_flight (Suc bound) ?d j" for j
  proof (cases "j = k \<and> session_pane_data (dv_session d) k \<noteq> None")
    case False
    then have "session_pane_data s j = session_pane_data (dv_session d) j"
      unfolding s by (intro session_engine_step_others) auto
    moreover have "pane_in_flight bound d j" using way by (simp add: on_the_way_def)
    ultimately show ?thesis
      using pane_on_the_way_mono [of bound _ _ _ _ _ "Suc bound"]
      by (auto simp: pane_in_flight_def signal_for_def split: option.splits)
  next
    case True
    then obtain p where j: "j = k" and p: "session_pane_data (dv_session d) k = Some p" by auto
    obtain e' o1 where eng: "engine_step interim_engine (dv_engines d k) p x = (e', o1)" by fastforce
    have "session_pane_data s k = Some (case o1 of None \<Rightarrow> p | Some st \<Rightarrow> pane_step p st)"
      using session_engine_step_look [OF p eng] unfolding s by simp
    moreover have "pane_in_flight bound d k" using way by (simp add: on_the_way_def)
    ultimately show ?thesis
      using on_the_way_engine_pane [OF _ bound eng] p j by (simp add: pane_in_flight_def signal_for_def)
  qed
  moreover have "known_agrees ?d j = known_agrees d j" for j
    by (simp add: known_agrees_def signal_for_def split: option.split)
  ultimately show ?thesis using way by (simp add: on_the_way_def signal_for_def)
qed

subsubsection \<open>Signals\<close>

definition stripped :: "envelope surface_signal \<Rightarrow> envelope surface_signal" where
  "stripped sg = sg\<lparr>sg_snapshot_required := True, sg_patch_frame := None\<rparr>"

lemma carries_stripped: "carries sg k q \<Longrightarrow> carries (stripped sg) k q"
  by (simp add: carries_def stripped_def)

lemma stripped_version [simp]: "sg_version (stripped sg) = sg_version sg"
  by (simp add: stripped_def)

lemma snapshots_only_get: "bt_get (sm_panes (snapshots_only sm)) k = map_option stripped (bt_get (sm_panes sm) k)"
proof -
  have "map_of (map (\<lambda>(k, sg). (k, sg\<lparr>sg_snapshot_required := True, sg_patch_frame := None\<rparr>)) m) k =
      map_option stripped (map_of m k)" for m
    by (induction m) (auto simp: stripped_def)
  then show ?thesis by (simp add: snapshots_only_def bt_get_def)
qed

lemma bundle_of_pane:
  assumes "session_pane_data s k = Some p" and "surface_frame_bundle_for_pane s k seq = Some bd"
    and "sg_pane_id sg = k" and "sg_version sg = fb_version bd" and "sg_snapshot_frame sg = Some (fb_snapshot bd)"
    and "sg_patch_frame sg = fb_patch bd"
  shows "carries sg k p" and "fb_version bd = pn_surface_version p"
  using assms ws.look_key [OF assms(1)]
  by (auto simp: surface_frame_bundle_for_pane_def pane_surface_frame_eq [OF assms(1)] pane_surface_patch_frame_eq [OF assms(1)]
      surface_version_def surface_patch_kind_def carries_def session_envelope_def checked_sub_def Let_def
      split: if_splits bind_splits)

lemma pane_signalled:
  assumes "pane_on_the_way bound k copy known old p" and "carries sg k p"
  shows "pane_on_the_way bound k copy known (Some sg) p"
proof -
  have p: "interim_accepts p" "pn_surface_version p \<le> bound" using assms(1) by (simp_all add: pane_on_the_way_def)
  have "client_trails bound copy known p 0"
  proof (cases old)
    case None
    with assms(1) show ?thesis by (simp add: pane_on_the_way_def)
  next
    case (Some g)
    with assms(1) obtain q ss where q: "pane_leads q ss p" and trails: "client_trails bound copy known q (length ss)"
      by (auto simp: pane_on_the_way_def)
    show ?thesis
    proof (cases known)
      case (Some v)
      with trails obtain c cs where c: "copy = Some (client_of c)" "v = pn_surface_version c" "pane_leads c cs q"
        "pn_surface_version c + length cs + length ss \<le> bound" by (auto simp: client_trails_def)
      have "pane_leads c (cs @ ss) p" using c(3) q by (simp add: pane_leads_def pane_run_append steps_ok_append)
      with c Some show ?thesis by (auto simp: client_trails_def intro!: exI [of _ c] exI [of _ "cs @ ss"])
    qed (simp add: client_trails_def)
  qed
  moreover have "pane_leads p [] p" using p by (simp add: pane_leads_def)
  ultimately show ?thesis
    using p assms(2) unfolding pane_on_the_way_def
    by simp (intro exI [of _ p] exI [of _ "[]"] conjI; simp)
qed

lemma flight_cong:
  assumes "dv_session d' = dv_session d" and "dv_cache d' = dv_cache d" and "dv_writer d' = dv_writer d"
    and "signal_for d' k = signal_for d k \<or>
      (\<exists>sg. signal_for d k = Some sg \<and> signal_for d' k = Some (stripped sg))"
    and "pane_in_flight bound d k"
  shows "pane_in_flight bound d' k"
proof (cases "signal_for d' k = signal_for d k")
  case True
  with assms show ?thesis by (simp add: pane_in_flight_def split: option.splits)
next
  case False
  with assms(4) obtain sg where sg: "signal_for d k = Some sg" "signal_for d' k = Some (stripped sg)" by blast
  with assms(1-3,5) show ?thesis
    by (auto simp: pane_in_flight_def pane_on_the_way_def split: option.splits) (blast intro: carries_stripped)
qed

lemma on_the_way_signal:
  assumes way: "on_the_way len bound d" and p: "session_pane_data (dv_session d) k = Some p"
    and fb: "surface_frame_bundle_for_pane (dv_session d) k seq = Some bd"
    and sent: "signal_surface_frame_bundle len (dv_output d) k (fb_version bd) (fb_snapshot bd) (fb_patch bd) = (out1, Inr x)"
  shows "on_the_way len bound (d\<lparr>dv_output := out1, dv_seq := n, dv_known := bt_put k (pn_surface_version p) (dv_known d)\<rparr>)"
    (is "on_the_way len bound ?d")
proof -
  note sent' = sent [unfolded signal_surface_frame_bundle_def]
  let ?new = "merged_signal (dv_output d) k (fb_version bd) False (Some (fb_snapshot bd)) (fb_patch bd)"
  let ?panes = "sm_panes (co_watched (dv_output d))"
  have out0: "co_latest (dv_output d) = co_watched (dv_output d)" "output_ok len (dv_output d)" "\<not> co_sender_gone (dv_output d)"
    "bt_sorted (dv_known d)" using way by (simp_all add: on_the_way_def)
  from update_signal_result [OF sent'] obtain sm where sm: "sm = ?new \<or> sm = snapshots_only ?new"
    and out1: "out1 = (dv_output d)\<lparr>co_latest := sm, co_watched := sm, co_unseen := True\<rparr>" by auto
  have sorted: "bt_sorted ?panes" using out0 by (simp add: output_ok_def panes_ok_def)
  define sg where "sg = \<lparr>sg_pane_id = k, sg_version = fb_version bd,
      sg_snapshot_required = (case bt_get ?panes k of None \<Rightarrow> False | Some old \<Rightarrow> sg_snapshot_required old),
      sg_snapshot_frame = Some (fb_snapshot bd), sg_patch_frame = fb_patch bd\<rparr>"
  then have sg: "sg_pane_id sg = k" "sg_version sg = fb_version bd" "sg_snapshot_frame sg = Some (fb_snapshot bd)"
    "sg_patch_frame sg = fb_patch bd" and new: "sm_panes ?new = bt_put k sg ?panes"
    by (simp_all add: merged_signal_def out0(1))
  note carried = bundle_of_pane [OF p fb sg]
  have signal: "signal_for ?d j = (if j = k then Some (if sm = ?new then sg else stripped sg)
      else if sm = ?new then signal_for d j else map_option stripped (signal_for d j))" for j
    using sm by (auto simp: signal_for_def out1 new snapshots_only_get bt_get_put [OF sorted])
  have "pane_in_flight bound ?d j" for j
  proof (cases "j = k")
    case False
    have "pane_in_flight bound d j" using way by (simp add: on_the_way_def)
    moreover have "signal_for ?d j = signal_for d j \<or> (\<exists>g. signal_for d j = Some g \<and> signal_for ?d j = Some (stripped g))"
      unfolding signal using False by (cases "signal_for d j") auto
    ultimately show ?thesis by (intro flight_cong [of ?d d]) simp_all
  next
    case True
    have "pane_in_flight bound d k" using way by (simp add: on_the_way_def)
    with p pane_signalled [OF _ carried(1)] pane_signalled [OF _ carries_stripped [OF carried(1)]] signal [of k] True
    show ?thesis by (auto simp: pane_in_flight_def)
  qed
  moreover have "known_agrees ?d j" for j
  proof -
    have "known_agrees d j" using way by (simp add: on_the_way_def)
    then show ?thesis
      unfolding known_agrees_def signal using carried(2) sg(2) out0(4)
      by (cases "signal_for d j") (auto simp: bt_get_put)
  qed
  ultimately show ?thesis
    using way update_signal_ok [OF out0(2,3) sent'] out1 by (simp add: on_the_way_def bt_sorted_put)
qed

lemma on_the_way_bundles:
  "on_the_way len bound (d\<lparr>dv_output := fst st, dv_seq := fst (snd st), dv_known := snd (snd st)\<rparr>) \<Longrightarrow>
     signal_bundles len (dv_session d) st ks = ((out1, n, m), Inr x) \<Longrightarrow>
     on_the_way len bound (d\<lparr>dv_output := out1, dv_seq := n, dv_known := m\<rparr>)"
proof (induction len "dv_session d" st ks rule: signal_bundles.induct)
  case (2 len out0 seq known k ks)
  let ?d = "d\<lparr>dv_output := out0, dv_seq := seq, dv_known := known\<rparr>"
  show ?case
  proof (cases "surface_version (dv_session d) k = None \<or> bt_get known k = surface_version (dv_session d) k \<or>
      surface_frame_bundle_for_pane (dv_session d) k seq = None")
    case True
    with 2 show ?thesis by (auto split: option.splits)
  next
    case False
    then obtain cur bd where b: "surface_version (dv_session d) k = Some cur" "bt_get known k \<noteq> Some cur"
      "surface_frame_bundle_for_pane (dv_session d) k seq = Some bd" by auto
    then obtain p where p: "session_pane_data (dv_session d) k = Some p" "cur = pn_surface_version p"
      by (auto simp: surface_version_def)
    obtain out2 y where u: "signal_surface_frame_bundle len out0 k (fb_version bd) (fb_snapshot bd) (fb_patch bd) = (out2, y)"
      by fastforce
    then obtain z where y: "y = Inr z" using "2.prems"(2) b by (cases y) auto
    have rest: "signal_bundles len (dv_session d) (out2, seq + 1, bt_put k cur known) ks = ((out1, n, m), Inr x)"
      using "2.prems"(2) b u y by simp
    have "on_the_way len bound (?d\<lparr>dv_output := out2, dv_seq := seq + 1, dv_known := bt_put k (pn_surface_version p) known\<rparr>)"
      using on_the_way_signal [of len bound ?d k p seq bd out2 z "seq + 1"] "2.prems"(1) p b u y by simp
    with "2.hyps"(4) [OF b u [symmetric] y _ rest] p show ?thesis by simp
  qed
qed simp

subsubsection \<open>Other frames and the writer\<close>

lemma flights_same:
  assumes "dv_session d' = dv_session d" "dv_cache d' = dv_cache d" "dv_writer d' = dv_writer d" "dv_known d' = dv_known d"
    "co_watched (dv_output d') = co_watched (dv_output d)"
  shows "pane_in_flight bound d' k = pane_in_flight bound d k" "known_agrees d' k = known_agrees d k"
    "signal_for d' k = signal_for d k"
  using assms by (simp_all add: pane_in_flight_def known_agrees_def signal_for_def split: option.split)

lemma on_the_way_output:
  assumes way: "on_the_way len bound d"
    and same: "dv_session d' = dv_session d" "dv_cache d' = dv_cache d" "dv_writer d' = dv_writer d" "dv_known d' = dv_known d"
    and "dv_intact d'" and "co_watched (dv_output d') = co_watched (dv_output d)"
    and "co_latest (dv_output d') = co_latest (dv_output d)" and "co_unseen (dv_output d') = co_unseen (dv_output d)"
    and "output_ok len (dv_output d')" and "\<not> co_sender_gone (dv_output d')"
    and "list_all other_frame (co_queue (dv_output d'))"
  shows "on_the_way len bound d'"
proof -
  have "\<forall>k. pane_in_flight bound d' k" "\<forall>k. known_agrees d' k" "\<And>k. signal_for d' k = signal_for d k"
    using way flights_same [OF same assms(7)] by (simp_all add: on_the_way_def del: all_simps)
  with way assms show ?thesis by (simp add: on_the_way_def)
qed

lemma on_the_way_other:
  assumes way: "on_the_way len bound d" and "other_frame frame" and send: "try_send_reliable len (dv_output d) frame = (out1, Inr x)"
  shows "on_the_way len bound (d\<lparr>dv_output := out1, dv_seq := n\<rparr>)"
proof -
  have "out1 = (dv_output d)\<lparr>co_queue := co_queue (dv_output d) @ [frame],
      co_pending_bytes := co_pending_bytes (dv_output d) + len frame\<rparr>"
    using try_send_result [OF send] by simp
  moreover have "output_ok len out1" using way try_send_ok [OF _ _ send] by (simp add: on_the_way_def)
  ultimately show ?thesis using way assms(2) by (intro on_the_way_output [OF way]) (simp_all add: on_the_way_def)
qed

definition in_flight :: "nat \<Rightarrow> delivery \<Rightarrow> envelope surface_signal \<Rightarrow> pane_data \<Rightarrow> pane_step list \<Rightarrow> bool" where
  \<comment> \<open>the pane state of a signal and the steps since\<close>
  "in_flight bound d sg q ss \<longleftrightarrow>
     carries sg (sg_pane_id sg) q \<and> interim_accepts q \<and> pn_surface_version q + length ss \<le> bound \<and>
     client_trails bound (cached (dv_cache d) (sg_pane_id sg)) (bt_get (wt_known (dv_writer d)) (sg_pane_id sg)) q (length ss) \<and>
     (\<exists>p. session_pane_data (dv_session d) (sg_pane_id sg) = Some p \<and> pane_leads q ss p \<and> interim_accepts p \<and>
        pn_surface_version p \<le> bound)"

lemma signal_in_flight:
  assumes "on_the_way len bound d" and "signal_for d k = Some sg"
  shows "\<exists>q ss. in_flight bound d sg q ss"
proof -
  have k: "sg_pane_id sg = k"
    using assms panes_ok_sets(3) [of "co_watched (dv_output d)" k sg] by (simp add: on_the_way_def output_ok_def signal_for_def)
  have "pane_in_flight bound d k" using assms(1) by (simp add: on_the_way_def)
  with assms(2) k show ?thesis
    by (auto simp: pane_in_flight_def pane_on_the_way_def in_flight_def pane_leads_def split: option.splits)
qed

lemma in_flight_arrived:
  assumes "in_flight bound d sg q ss" and "signal_for d' (sg_pane_id sg) = Some sg" and "dv_session d' = dv_session d"
    and "cached (dv_cache d') (sg_pane_id sg) = Some (client_of q)"
    and "bt_get (wt_known (dv_writer d')) (sg_pane_id sg) = Some (pn_surface_version q)"
  shows "pane_in_flight bound d' (sg_pane_id sg)"
proof -
  from assms(1) obtain p where p: "session_pane_data (dv_session d) (sg_pane_id sg) = Some p" "pane_leads q ss p"
    "interim_accepts p" "pn_surface_version p \<le> bound" and q: "carries sg (sg_pane_id sg) q" "interim_accepts q"
    "pn_surface_version q + length ss \<le> bound"
    by (auto simp: in_flight_def)
  have "client_trails bound (Some (client_of q)) (Some (pn_surface_version q)) q (length ss)"
    using q by (auto simp: client_trails_def pane_leads_def intro!: exI [of _ q] exI [of _ "[]"])
  with assms(2-5) p q show ?thesis by (auto simp: pane_in_flight_def pane_on_the_way_def)
qed

lemma on_the_way_signals_written:
  assumes way: "on_the_way len bound d" and bound: "bound \<le> U64_MAX"
    and out1: "output_ok len out1" "\<not> co_sender_gone out1" "co_queue out1 = co_queue (dv_output d)"
      "co_watched out1 = co_watched (dv_output d)" "co_latest out1 = co_latest (dv_output d)"
  shows "\<exists>cache w. write_surface_signals to_client bundled_frame_source (dv_cache d, dv_intact d) (dv_writer d)
        (map snd (sm_panes (co_watched (dv_output d)))) = ((cache, True), w, Inr ()) \<and>
      on_the_way len bound (d\<lparr>dv_cache := cache, dv_intact := True, dv_writer := w, dv_output := out1\<rparr>)"
proof -
  let ?sgs = "map snd (sm_panes (co_watched (dv_output d)))"
  have ok: "panes_ok (co_watched (dv_output d))" "dv_intact d" "bt_sorted (wt_known (dv_writer d))"
    using way by (simp_all add: on_the_way_def output_ok_def)
  have listed: "sg \<in> set ?sgs \<longleftrightarrow> signal_for d (sg_pane_id sg) = Some sg" for sg
    using panes_ok_sets(2) [OF ok(1), of sg] by (simp add: signal_for_def)
  have named: "signal_for d k = Some sg \<Longrightarrow> sg_pane_id sg = k" for k sg
    using panes_ok_sets(3) [OF ok(1)] by (simp add: signal_for_def)
  have "\<forall>sg \<in> set ?sgs. \<exists>q ss. in_flight bound d sg q ss" using signal_in_flight [OF way] listed by blast
  then obtain q ss where q: "\<And>sg. sg \<in> set ?sgs \<Longrightarrow> in_flight bound d sg (q sg) (ss sg)" by metis
  have "carries sg (sg_pane_id sg) (q sg) \<and> interim_accepts (q sg) \<and>
      client_trails bound (cached (dv_cache d) (sg_pane_id sg)) (bt_get (wt_known (dv_writer d)) (sg_pane_id sg)) (q sg)
        (length (ss sg))" if "sg \<in> set ?sgs" for sg
    using q [OF that] by (simp add: in_flight_def)
  from signal_set_written [OF panes_ok_sets(1) [OF ok(1)] ok(3) bound this, where b = True] obtain cache w where
    wrote: "write_surface_signals to_client bundled_frame_source (dv_cache d, True) (dv_writer d) ?sgs = ((cache, True), w, Inr ())"
    and sorted: "bt_sorted (wt_known w)"
    and others: "\<And>k. k \<notin> sg_pane_id ` set ?sgs \<Longrightarrow> cached cache k = cached (dv_cache d) k \<and>
      bt_get (wt_known w) k = bt_get (wt_known (dv_writer d)) k"
    and arrived: "\<And>sg. sg \<in> set ?sgs \<Longrightarrow> cached cache (sg_pane_id sg) = Some (client_of (q sg)) \<and>
      bt_get (wt_known w) (sg_pane_id sg) = Some (pn_surface_version (q sg))"
    by blast
  let ?d = "d\<lparr>dv_cache := cache, dv_intact := True, dv_writer := w, dv_output := out1\<rparr>"
  have signal: "signal_for ?d k = signal_for d k" for k using out1(4) by (simp add: signal_for_def)
  have version: "sg_version sg = pn_surface_version (q sg)" if "sg \<in> set ?sgs" for sg
    using q [OF that] by (simp add: in_flight_def carries_def)
  have each: "pane_in_flight bound ?d k \<and> known_agrees ?d k \<and>
      (\<forall>sg. signal_for d k = Some sg \<longrightarrow> bt_get (wt_known w) k = Some (sg_version sg))" for k
  proof -
    have old: "pane_in_flight bound d k" "known_agrees d k" using way by (simp_all add: on_the_way_def)
    show ?thesis
    proof (cases "signal_for d k")
      case None
      then have "k \<notin> sg_pane_id ` set ?sgs" using listed by force
      from others [OF this] old None signal show ?thesis
        by (simp add: pane_in_flight_def known_agrees_def split: option.splits)
    next
      case (Some sg)
      then have mem: "sg \<in> set ?sgs" and k: "sg_pane_id sg = k" using listed named by auto
      have "pane_in_flight bound ?d (sg_pane_id sg)"
        using in_flight_arrived [OF q [OF mem], of ?d] arrived [OF mem] signal Some k by simp
      with arrived [OF mem] version [OF mem] old(2) Some k signal show ?thesis by (simp add: known_agrees_def)
    qed
  qed
  have "on_the_way len bound ?d"
    using way out1 sorted each signal by (simp add: on_the_way_def)
  with wrote ok(2) show ?thesis by auto
qed

lemma on_the_way_written:
  assumes way: "on_the_way len bound d" and bound: "bound \<le> U64_MAX"
  shows "on_the_way len bound (written_turn len d)"
proof -
  let ?o = "dv_output d"
  have ok: "output_ok len ?o" "\<not> co_sender_gone ?o" "dv_intact d" "list_all other_frame (co_queue ?o)"
    using way by (simp_all add: on_the_way_def)
  note recv = recv_cases [OF ok(1)]
  show ?thesis
  proof (cases "co_queue ?o")
    case (Cons f rest)
    let ?o1 = "?o\<lparr>co_queue := rest, co_pending_bytes := co_pending_bytes ?o - len f\<rparr>"
    have r: "recv_write_event len ?o = Some (WriteReliable f, ?o1)" using recv Cons by simp
    have other: "other_frame f" using ok(4) Cons by simp
    have "client_receives x f = x" for x
      using other by (cases x) (auto simp: client_receives_def other_frame_def split: sum.splits live_surface_read.splits)
    then have "written_turn len d = d\<lparr>dv_output := ?o1\<rparr>" using r by (simp add: written_turn_def write_task_step_def to_client_def)
    then show ?thesis
      using ok Cons recv_ok [OF ok(1) r] by (simp add: on_the_way_output [OF way])
  next
    case Nil
    show ?thesis
    proof (cases "co_unseen ?o")
      case True
      let ?o1 = "?o\<lparr>co_unseen := False, co_reliable_closed := False\<rparr>"
      have r: "recv_write_event len ?o = Some (WriteSurface (co_watched ?o), ?o1)" using recv Nil True ok(2) by simp
      from on_the_way_signals_written [OF way bound recv_ok [OF ok(1) r]] ok(2) obtain cache w where
        "write_surface_signals to_client bundled_frame_source (dv_cache d, dv_intact d) (dv_writer d)
          (map snd (sm_panes (co_watched ?o))) = ((cache, True), w, Inr ())"
        "on_the_way len bound (d\<lparr>dv_cache := cache, dv_intact := True, dv_writer := w, dv_output := ?o1\<rparr>)" by auto
      with r show ?thesis by (simp add: written_turn_def write_task_step_def)
    next
      case False
      with recv Nil ok(2) have "recv_write_event len ?o = None" by simp
      then have "written_turn len d = d" by (simp add: written_turn_def write_task_step_def)
      with way show ?thesis by simp
    qed
  qed
qed

subsection \<open>A live client shows the panes\<close>

lemma delivers_on_the_way:
  "delivers len n d d' \<Longrightarrow> on_the_way len bound d \<Longrightarrow> bound + n \<le> U64_MAX \<Longrightarrow> on_the_way len (bound + n) d'"
proof (induction rule: delivers.induct)
  case (delivers_engine n d d1 k x s e)
  then have "on_the_way len (bound + n) d1" by simp
  from on_the_way_engine [OF this _ delivers_engine(2)] delivers_engine(5) show ?case by simp
next
  case (delivers_signal n d d1 out1 seq known ks)
  with on_the_way_bundles [where d = d1 and st = "(dv_output d1, dv_seq d1, dv_known d1)" and bound = "bound + n"] show ?case by simp
next
  case (delivers_other n d d1 frame out1)
  with on_the_way_other [of len "bound + n" d1 frame out1] show ?case by simp
next
  case (delivers_written n d d1)
  with on_the_way_written show ?case by simp
qed simp

lemma live_client_in_step:
  assumes "on_the_way len bound d" and "delivers len n d d'" and "bound + n \<le> U64_MAX"
    and "session_pane_data (dv_session d') k = Some p" and "bt_get (dv_known d') k = Some (pn_surface_version p)"
    and "\<not> co_unseen (dv_output d')"
  shows "dv_intact d' \<and> cached (dv_cache d') k = Some (client_of p)"
proof -
  note way = delivers_on_the_way [OF assms(2,1,3)]
  have flight: "pane_in_flight (bound + n) d' k" and known: "known_agrees d' k"
    using way by (simp_all add: on_the_way_def)
  have written: "bt_get (wt_known (dv_writer d')) k = Some (pn_surface_version p)"
    using way known assms(5,6) by (cases "signal_for d' k") (simp_all add: known_agrees_def on_the_way_def)
  have "\<exists>c ss m. cached (dv_cache d') k = Some (client_of c) \<and> pn_surface_version p = pn_surface_version c \<and>
      pane_leads c ss p \<and> pn_surface_version c + length ss \<le> bound + n"
  proof (cases "signal_for d' k")
    case None
    with flight assms(4) written show ?thesis
      by (auto simp: pane_in_flight_def pane_on_the_way_def client_trails_def)
  next
    case (Some sg)
    with flight assms(4) obtain q ss where q: "pane_leads q ss p"
      "client_trails (bound + n) (cached (dv_cache d') k) (Some (pn_surface_version p)) q (length ss)"
      using written by (auto simp: pane_in_flight_def pane_on_the_way_def)
    then obtain c cs where c: "cached (dv_cache d') k = Some (client_of c)" "pn_surface_version p = pn_surface_version c"
      "pane_leads c cs q" "pn_surface_version c + length cs + length ss \<le> bound + n"
      by (auto simp: client_trails_def)
    moreover have "pane_leads c (cs @ ss) p" using c(3) q(1) by (simp add: pane_leads_def pane_run_append steps_ok_append)
    ultimately show ?thesis by (intro exI [of _ c] exI [of _ "cs @ ss"]) simp
  qed
  moreover have "interim_accepts p" using flight assms(4) by (simp add: pane_in_flight_def pane_on_the_way_def)
  ultimately show ?thesis
    using leads_quiet(4) assms(3) way by (fastforce simp: on_the_way_def)
qed

subsection \<open>A signalled pane arrives\<close>

lemma written_turn_frame [simp]:
  "dv_session (written_turn len d) = dv_session d" "dv_known (written_turn len d) = dv_known d"
  by (simp_all add: written_turn_def case_prod_beta)

lemma written_turn_output:
  "dv_output (written_turn len d) = (case recv_write_event len (dv_output d) of None \<Rightarrow> dv_output d | Some x \<Rightarrow> snd x)"
proof (cases "recv_write_event len (dv_output d)")
  case (Some x)
  then show ?thesis
    by (cases x; cases "fst x")
      (auto simp: written_turn_def write_task_step_def to_client_def split: prod.split sum.split)
qed (simp add: written_turn_def write_task_step_def)

lemma writer_catches_up:
  assumes "on_the_way len bound d" and "bound \<le> U64_MAX"
  shows "\<exists>m. on_the_way len bound ((written_turn len ^^ m) d) \<and> \<not> co_unseen (dv_output ((written_turn len ^^ m) d)) \<and>
    dv_session ((written_turn len ^^ m) d) = dv_session d \<and> dv_known ((written_turn len ^^ m) d) = dv_known d"
  using assms(1)
proof (induction "output_left (dv_output d)" arbitrary: d)
  case 0
  then have "\<not> co_unseen (dv_output d)" by (simp add: output_left_def split: if_splits)
  with 0 show ?case by (intro exI [of _ 0]) simp
next
  case (Suc l)
  have ok: "output_ok len (dv_output d)" "\<not> co_sender_gone (dv_output d)" using Suc.prems by (simp_all add: on_the_way_def)
  have "l = output_left (dv_output (written_turn len d))"
    using recv_cases [OF ok(1)] ok(2) Suc(2)
    by (cases "co_queue (dv_output d)"; cases "co_unseen (dv_output d)") (simp_all add: written_turn_output output_left_def)
  from Suc(1) [OF this on_the_way_written [OF Suc.prems assms(2)]] obtain m where
    "on_the_way len bound ((written_turn len ^^ m) (written_turn len d))"
    "\<not> co_unseen (dv_output ((written_turn len ^^ m) (written_turn len d)))"
    "dv_session ((written_turn len ^^ m) (written_turn len d)) = dv_session d"
    "dv_known ((written_turn len ^^ m) (written_turn len d)) = dv_known d" by auto
  then show ?case by (intro exI [of _ "Suc m"]) (simp add: funpow_swap1)
qed

lemma bundles_known:
  "signal_bundles len s st ks = ((out1, n, known), Inr x) \<Longrightarrow> bt_sorted (snd (snd st)) \<Longrightarrow>
     bt_sorted known \<and>
     (\<forall>k. bt_get known k = (if k \<in> set ks \<and> surface_version s k \<noteq> None then surface_version s k else bt_get (snd (snd st)) k))"
proof (induction len s st ks rule: signal_bundles.induct)
  case (2 len s out0 seq known0 k ks)
  show ?case
  proof (cases "surface_version s k = None \<or> bt_get known0 k = surface_version s k")
    case True
    with 2 show ?thesis by (auto split: option.splits)
  next
    case False
    then obtain cur p where b: "surface_version s k = Some cur" "bt_get known0 k \<noteq> Some cur" "session_pane_data s k = Some p"
      by (auto simp: surface_version_def)
    then obtain bd where bd: "surface_frame_bundle_for_pane s k seq = Some bd"
      by (auto simp: surface_frame_bundle_for_pane_def surface_version_def pane_surface_frame_eq Let_def)
    obtain out2 y where u: "signal_surface_frame_bundle len out0 k (fb_version bd) (fb_snapshot bd) (fb_patch bd) = (out2, y)"
      by fastforce
    then obtain z where y: "y = Inr z" using "2.prems"(1) b bd by (cases y) auto
    have rest: "signal_bundles len s (out2, seq + 1, bt_put k cur known0) ks = ((out1, n, known), Inr x)"
      using "2.prems"(1) b u y bd by simp
    with "2.IH"(4) [OF b(1,2) bd u [symmetric] y rest] "2.prems"(2) b(1)
    show ?thesis by (auto simp: bt_get_put bt_sorted_put)
  qed
qed simp

definition delivery_start ::
  "session \<Rightarrow> (ustring \<Rightarrow> ansi_state) \<Rightarrow> usize \<Rightarrow> usize \<Rightarrow> u64 \<Rightarrow> (ustring, u64) btree \<Rightarrow> client_attach_state \<Rightarrow> delivery" where
  \<comment> \<open>a client whose handshake is done, with what it is known to have\<close>
  "delivery_start s engines frame_cap byte_cap seq known cache =
     \<lparr>dv_session = s, dv_engines = engines, dv_output = output_new frame_cap byte_cap, dv_seq = seq, dv_known = known,
      dv_writer = \<lparr>wt_next_seq = seq, wt_known = known\<rparr>, dv_cache = cache, dv_intact = True\<rparr>"

definition start_ok :: "nat \<Rightarrow> session \<Rightarrow> (ustring, u64) btree \<Rightarrow> client_attach_state \<Rightarrow> bool" where
  \<comment> \<open>what the client is known to have it has, and each of its copies leads to the pane\<close>
  "start_ok bound s known cache \<longleftrightarrow>
     bt_sorted known \<and>
     (\<forall>k p. session_pane_data s k = Some p \<longrightarrow> interim_accepts p \<and> pn_surface_version p \<le> bound \<and>
        client_trails bound (cached cache k) (bt_get known k) p 0)"

lemma delivery_start_on_the_way:
  assumes "start_ok bound s known cache"
  shows "on_the_way len bound (delivery_start s engines frame_cap byte_cap seq known cache)"
    (is "on_the_way len bound ?d")
proof -
  have none: "signal_for ?d k = None" for k
    by (simp add: signal_for_def delivery_start_def output_new_def signal_set_default_def)
  have "known_agrees ?d k" for k using none [of k] by (simp add: known_agrees_def delivery_start_def)
  moreover have "pane_in_flight bound ?d k" for k
    using none [of k] assms
    by (auto simp: pane_in_flight_def pane_on_the_way_def delivery_start_def start_ok_def split: option.split)
  moreover have "output_ok len (output_new frame_cap byte_cap)" by (rule output_new_ok)
  ultimately show ?thesis
    using assms none by (simp add: on_the_way_def start_ok_def) (simp add: delivery_start_def output_new_def)
qed

lemma signalled_pane_arrives:
  assumes "start_ok bound s known0 cache"
    and run: "delivers len n (delivery_start s engines frame_cap byte_cap seq0 known0 cache) d" and bound: "bound + n \<le> U64_MAX"
    and signal: "signal_bundles len (dv_session d) (dv_output d, dv_seq d, dv_known d) ks = ((out1, seq, known), Inr ())"
    and p: "k \<in> set ks" "session_pane_data (dv_session d) k = Some p"
  shows "\<exists>m. let d' = (written_turn len ^^ m) (d\<lparr>dv_output := out1, dv_seq := seq, dv_known := known\<rparr>) in
    dv_intact d' \<and> cached (dv_cache d') k = Some (client_of p)"
proof -
  let ?d = "d\<lparr>dv_output := out1, dv_seq := seq, dv_known := known\<rparr>"
  note way = delivers_on_the_way [OF run delivery_start_on_the_way [OF assms(1)] bound]
  have signalled: "on_the_way len (bound + n) ?d"
    using on_the_way_bundles [where d = d and st = "(dv_output d, dv_seq d, dv_known d)", OF _ signal] way by simp
  have "bt_get known k = Some (pn_surface_version p)"
    using bundles_known [OF signal] way p by (simp add: on_the_way_def surface_version_def)
  moreover from writer_catches_up [OF signalled bound] obtain m where
    "on_the_way len (bound + n) ((written_turn len ^^ m) ?d)" "\<not> co_unseen (dv_output ((written_turn len ^^ m) ?d))"
    "dv_session ((written_turn len ^^ m) ?d) = dv_session d" "dv_known ((written_turn len ^^ m) ?d) = known"
    by auto
  ultimately show ?thesis
    using live_client_in_step [OF _ delivers_none, of len "bound + n" "(written_turn len ^^ m) ?d" k p] bound p(2)
    by (auto simp: Let_def intro!: exI [of _ m])
qed

end
