(* ===== verification/Daemon.thy ===== *)
theory Daemon
  imports Serving
begin

text \<open>
  The daemon (\<open>crates/nmux-cli/src/daemon.rs\<close>): the session it builds from its arguments, the start of its
  processes, and the loop that serves one connection after the other on a registry of sessions which share one
  host. A connection is what can be read from it and what the clock answers while it is served. Binding the
  socket, the readiness report and the parsing of the arguments are not part of the model; the arguments are a
  record.

  The lemmas: the session built is well formed, the loop never gets stuck and keeps the registry well formed,
  and a connection touches no session but the one it names.
\<close>

subsection \<open>The first session\<close>

datatype host_kind_arg = HostLocal | HostSandbox | HostContainer

record daemon_args =
  da_session_id :: ustring
  da_endpoint :: ustring
  da_command :: "ustring option"
  da_working_dir :: "ustring option"
  da_env :: "(ustring \<times> ustring) list"
  da_initial_size :: "(u32 \<times> u32) option"
  da_initial_tabs :: usize
  da_active_tab_id :: "ustring option"
  da_initial_split :: "split_axis option"
  da_resize_policy :: resize_policy
  da_host_kind :: host_kind_arg
  da_sandbox_profile :: "ustring option"
  da_container_image :: "ustring option"

datatype daemon_error = DaemonServe serve_error | DaemonText ustring | DaemonHost host_error

definition apply_initial_host_kind :: "host_spec \<Rightarrow> daemon_args \<Rightarrow> (daemon_error, host_spec) res" where
  "apply_initial_host_kind host args =
     (case da_host_kind args of
        HostLocal \<Rightarrow> Inr (host\<lparr>hs_id := lit ''local'', hs_kind := LocalKind\<rparr>)
      | HostSandbox \<Rightarrow>
          (case da_sandbox_profile args of
             None \<Rightarrow> Inl (DaemonText (lit ''--host sandbox requires --sandbox-profile''))
           | Some profile \<Rightarrow> Inr (host\<lparr>hs_id := lit ''sandbox'', hs_kind := SandboxKind profile\<rparr>))
      | HostContainer \<Rightarrow>
          (case da_container_image args of
             None \<Rightarrow> Inl (DaemonText (lit ''--host container requires --container-image''))
           | Some name \<Rightarrow> Inr (host\<lparr>hs_id := lit ''container'', hs_kind := ContainerKind name\<rparr>)))"

definition initial_command :: "daemon_args \<Rightarrow> pane_data \<Rightarrow> pane_data" where
  \<comment> \<open>what the arguments change in the first pane, but for the host kind\<close>
  "initial_command args p =
     (let host = pn_host p;
          cmd1 = (case da_command args of
                    None \<Rightarrow> hs_command host
                  | Some command \<Rightarrow> (command_spec_new (lit ''sh''))\<lparr>cmd_args := [lit ''-lc'', command]\<rparr>);
          p2 = (case da_initial_size args of None \<Rightarrow> p | Some (cols, rows) \<Rightarrow> p\<lparr>pn_cols := cols, pn_rows := rows\<rparr>);
          cmd2 = (case da_initial_size args of None \<Rightarrow> cmd1 | Some sz \<Rightarrow> cmd1\<lparr>cmd_initial_size := Some sz\<rparr>);
          cmd3 = (case da_working_dir args of None \<Rightarrow> cmd2 | Some dir \<Rightarrow> cmd2\<lparr>cmd_working_dir := Some dir\<rparr>);
          cmd4 = cmd3\<lparr>cmd_env := cmd_env cmd3 @ da_env args\<rparr>
      in p2\<lparr>pn_host := host\<lparr>hs_command := cmd4\<rparr>\<rparr>)"

definition first_session :: "daemon_args \<Rightarrow> ustring \<Rightarrow> ustring option \<Rightarrow> (daemon_error, session) res" where
  "first_session args session_id title =
     (let p = initial_command args initial_pane in
      bind_res (apply_initial_host_kind (pn_host p) args) (\<lambda>host.
        Inr (session_initial\<lparr>ss_id := session_id,
               ss_tabs := [\<lparr>tb_id = lit ''tab-1'', tb_title = (case title of Some t \<Rightarrow> t | None \<Rightarrow> lit ''local''),
                            tb_active_pane_id = lit ''pane-1'', tb_root = Pane (p\<lparr>pn_host := host\<rparr>) []\<rparr>]\<rparr>)))"

definition changed_or :: "(daemon_error, unit) res \<Rightarrow> 'e session_core \<times> session_effect list \<Rightarrow> (daemon_error, 'e session_core) res" where
  \<comment> \<open>an event that had no effect is an error, unless the first argument excuses it\<close>
  "changed_or otherwise r = (if snd r = [] then bind_res otherwise (\<lambda>_. Inr (fst r)) else Inr (fst r))"

fun add_initial_tabs :: "'e terminal_engine \<Rightarrow> nat list \<Rightarrow> 'e session_core \<Rightarrow> (daemon_error, 'e session_core) res" where
  "add_initial_tabs eops [] core = Inr core"
| "add_initial_tabs eops (n # ns) core =
     (case session_pane_host (sc_session core) (lit ''pane-1'') of
        None \<Rightarrow> Inl (DaemonText (lit ''initial pane missing host''))
      | Some host \<Rightarrow>
          (let tab_id = lit ''tab-'' @ dec_str n in
           bind_res (changed_or (Inl (DaemonText (lit ''failed to create initial tab '' @ dec_str n)))
               (apply_event eops core (AddTab tab_id tab_id (lit ''tab-'' @ dec_str n @ lit ''-pane-1'') host)))
             (add_initial_tabs eops ns)))"

definition switch_initial_tab ::
  "'e terminal_engine \<Rightarrow> daemon_args \<Rightarrow> 'e session_core \<Rightarrow> (daemon_error, 'e session_core) res" where
  "switch_initial_tab eops args core =
     (case da_active_tab_id args of
        None \<Rightarrow> Inr core
      | Some tab_id \<Rightarrow>
          (let r = apply_event eops core (SwitchTab tab_id) in
           changed_or (if ss_active_tab_id (sc_session (fst r)) \<noteq> tab_id
                       then Inl (DaemonText (lit ''failed to switch to initial tab '' @ tab_id)) else Inr ()) r))"

definition split_initial_pane ::
  "'e terminal_engine \<Rightarrow> daemon_args \<Rightarrow> 'e session_core \<Rightarrow> (daemon_error, 'e session_core) res" where
  "split_initial_pane eops args core =
     (case da_initial_split args of
        None \<Rightarrow> Inr core
      | Some axis \<Rightarrow>
          bind_res (ok_or (DaemonText (lit ''active pane missing before initial split'')) (active_pane_id (sc_session core)))
            (\<lambda>active.
          bind_res (ok_or (DaemonText (lit ''active pane missing host'')) (session_pane_host (sc_session core) active))
            (\<lambda>host.
             changed_or (Inl (DaemonText (lit ''failed to create initial split pane'')))
               (apply_event eops core (SplitPane active axis (lit ''pane-2'') host)))))"

definition prepare_pane ::
  "'e terminal_engine \<Rightarrow> daemon_args \<Rightarrow> ustring option \<Rightarrow> 'e session_core \<Rightarrow> ustring \<Rightarrow> 'e session_core" where
  \<comment> \<open>the body of the last loop: the policy, then the environment of the process\<close>
  "prepare_pane eops args origin core pane_id =
     (let core1 = fst (apply_event eops core (SetPaneResizePolicy pane_id (da_resize_policy args)))
      in core1\<lparr>sc_session := fst (set_pane_nmux_environment (sc_session core1) pane_id (da_endpoint args) origin)\<rparr>)"

definition build_daemon_session_core ::
  "'e terminal_engine \<Rightarrow> daemon_args \<Rightarrow> ustring option \<Rightarrow> ustring \<Rightarrow> ustring option \<Rightarrow> (daemon_error, 'e session_core) res" where
  \<comment> \<open>\<open>origin\<close> is what \<open>inherited_nmux_origin\<close> finds in the daemon's own environment\<close>
  "build_daemon_session_core eops args origin session_id title =
     bind_res (first_session args session_id title) (\<lambda>s.
     bind_res (add_initial_tabs eops [2 ..< da_initial_tabs args + 1] (core_new s)) (\<lambda>core1.
     bind_res (switch_initial_tab eops args core1) (\<lambda>core2.
     bind_res (split_initial_pane eops args core2) (\<lambda>core3.
       Inr (foldl (prepare_pane eops args origin) core3 (leaf_pane_ids (sc_session core3)))))))"

subsection \<open>Its processes\<close>

fun start_panes :: "'h process_host \<Rightarrow> session \<Rightarrow> 'h \<Rightarrow> ustring list \<Rightarrow> 'h \<times> (daemon_error, unit) res" where
  "start_panes ops s h [] = (h, Inr ())"
| "start_panes ops s h (k # ks) =
     (case session_pane_host s k of
        None \<Rightarrow> (h, Inl (DaemonText (lit ''pane '' @ k @ lit '' missing host'')))
      | Some spec \<Rightarrow>
          (case ph_start ops h k spec of
             (h1, Inl e) \<Rightarrow> (h1, Inl (DaemonHost e))
           | (h1, Inr _) \<Rightarrow> start_panes ops s h1 ks))"

partial_function (option) wait_for_panes_output ::
  "('s \<Rightarrow> ustring \<Rightarrow> ('s \<times> (host_error, bool) res) option) \<Rightarrow> (nat \<Rightarrow> nat) \<Rightarrow> ustring list \<Rightarrow> nat \<Rightarrow> 's \<Rightarrow> nat \<Rightarrow>
     ('s \<times> (host_error, unit) res) option" where
  "wait_for_panes_output poll clock pane_ids deadline st n =
     (if deadline \<le> clock n then Some (st, Inr ())
      else Option.bind (poll_each poll st pane_ids False) (\<lambda>(st1, r).
        case r of
          Inl e \<Rightarrow> Some (st1, Inl e)
        | Inr changed \<Rightarrow>
            if changed then Some (st1, Inr ()) else wait_for_panes_output poll clock pane_ids deadline st1 (n + 1)))"

definition DAEMON_TRACE_RING_CAP :: usize where "DAEMON_TRACE_RING_CAP = 1024"

definition create_daemon_session_actor ::
  "'e terminal_engine \<Rightarrow> 'h process_host \<Rightarrow> daemon_args \<Rightarrow> ustring option \<Rightarrow> (nat \<Rightarrow> nat) \<Rightarrow> ustring \<Rightarrow> ustring option \<Rightarrow> 'h \<Rightarrow>
     ('h \<times> (daemon_error, 'e session_actor) res) option" where
  "create_daemon_session_actor eops ops args origin clock session_id title h =
     (case build_daemon_session_core eops args origin session_id title of
        Inl e \<Rightarrow> Some (h, Inl e)
      | Inr core \<Rightarrow>
          (let pane_ids = leaf_pane_ids (sc_session core); scoped = scoped_ops session_id ops in
           case start_panes scoped (sc_session core) h pane_ids of
             (h1, Inl e) \<Rightarrow> Some (h1, Inl e)
           | (h1, Inr _) \<Rightarrow>
               Option.bind
                 (wait_for_panes_output (poll_pane_output_with_session_actor eops scoped 0) clock pane_ids
                    (clock 0 + 200) (actor_new core DAEMON_TRACE_RING_CAP, h1) 1)
                 (\<lambda>((a, h2), r). Some (h2, case r of Inl e \<Rightarrow> Inl (DaemonHost e) | Inr _ \<Rightarrow> Inr a))))"

fun stop_all_panes :: "'h process_host \<Rightarrow> 'h \<Rightarrow> ustring list \<Rightarrow> 'h \<times> (daemon_error, unit) res" where
  \<comment> \<open>\<open>stop_panes\<close> of the daemon\<close>
  "stop_all_panes ops h [] = (h, Inr ())"
| "stop_all_panes ops h (k # ks) =
     (case ph_stop ops h k of
        (h1, Inl e) \<Rightarrow> (h1, Inl (DaemonHost e))
      | (h1, Inr _) \<Rightarrow> stop_all_panes ops h1 ks)"

subsection \<open>One connection on the registry\<close>

type_synonym ('e, 'h) daemon_state = "'e session_registry \<times> 'h"
type_synonym ('e, 'h) daemon_step = "(('e, 'h) daemon_state \<times> envelope list \<times> (daemon_error, unit) res) option"

record connection =
  cn_clock :: "nat \<Rightarrow> nat"
  cn_reads :: "frame_read list"

definition initial_target_session_id :: "client_initial_frame \<Rightarrow> ustring option" where
  "initial_target_session_id initial =
     (case initial of
        InitialAttach target _ \<Rightarrow> target
      | InitialControl command \<Rightarrow> cm_session_id command
      | InitialHealthProbe _ \<Rightarrow> None)"

definition missing_session :: "ustring \<Rightarrow> daemon_error" where
  "missing_session session_id = DaemonText (lit ''daemon session '' @ session_id @ lit '' missing from registry'')"

definition answer_with_fallback ::
  "('e, 'h) daemon_state \<Rightarrow> ustring \<Rightarrow> (session \<Rightarrow> envelope) \<Rightarrow> ('e, 'h) daemon_step" where
  \<comment> \<open>an error frame is made from the default session\<close>
  "answer_with_fallback st default_id frame =
     (case registry_get (fst st) default_id of
        None \<Rightarrow> Some (st, [], Inl (missing_session default_id))
      | Some a \<Rightarrow> Some (st, [frame (actor_session a)], Inr ()))"

definition serve_session_new_command ::
  "'e terminal_engine \<Rightarrow> 'h process_host \<Rightarrow> daemon_args \<Rightarrow> ustring option \<Rightarrow> (nat \<Rightarrow> nat) \<Rightarrow> control_command \<Rightarrow>
     ('e, 'h) daemon_state \<Rightarrow> ('e, 'h) daemon_step" where
  "serve_session_new_command eops ops args origin clock command st =
     (case (case cm_session_id command of Some [] \<Rightarrow> None | x \<Rightarrow> x) of
        None \<Rightarrow>
          answer_with_fallback st (da_session_id args)
            (\<lambda>s. protocol_error s 1 ErrSessionNotFound (lit ''session new requires a non-empty session id'') None
                   (cm_command_seq command))
      | Some session_id \<Rightarrow>
          if registry_get (fst st) session_id \<noteq> None then
            answer_with_fallback st (da_session_id args)
              (\<lambda>s. protocol_error s 1 ErrUnknown (lit ''session already exists: '' @ session_id) None (cm_command_seq command))
          else
            Option.bind (create_daemon_session_actor eops ops args origin clock session_id (cm_title command) (snd st))
              (\<lambda>(h1, r).
                 case r of
                   Inl e \<Rightarrow> Some ((fst st, h1), [], Inl e)
                 | Inr a \<Rightarrow>
                     (case registry_insert (fst st) a of
                        (reg, False) \<Rightarrow> Some ((reg, h1), [], Inl (DaemonText (lit ''duplicate daemon session id '' @ session_id)))
                      | (reg, True) \<Rightarrow> Some ((reg, h1), [workspace_tree_frame (actor_session a) local_client 1], Inr ()))))"

definition registry_inventory :: "ustring \<Rightarrow> 'e session_registry \<Rightarrow> session_inventory" where
  "registry_inventory active_session_id reg =
     \<lparr>sn_active_session_id = active_session_id,
      sn_sessions = map (\<lambda>(k, a). \<lparr>si_session_id = k, si_title = session_title (actor_session a)\<rparr>) reg\<rparr>"

definition serve_session_list_command :: "ustring \<Rightarrow> 'e session_registry \<Rightarrow> envelope" where
  "serve_session_list_command active_session_id reg =
     session_inventory_frame (registry_inventory active_session_id reg) local_client 1"

definition serve_on_session ::
  "'e terminal_engine \<Rightarrow> 'h process_host \<Rightarrow> (nat \<Rightarrow> nat) \<Rightarrow> client_initial_frame \<Rightarrow> frame_read list \<Rightarrow> ustring \<Rightarrow>
     'e session_actor \<Rightarrow> ('e, 'h) daemon_state \<Rightarrow> ('e, 'h) daemon_step" where
  \<comment> \<open>the actor is served where it stands in the registry\<close>
  "serve_on_session eops ops clock initial reads session_id a st =
     map_option (\<lambda>((a1, h1), frames, x).
        ((bt_put session_id a1 (fst st), h1), frames, case x of Inl e \<Rightarrow> Inl (DaemonServe e) | Inr _ \<Rightarrow> Inr ()))
       (serve_stream_once_with_session_actor eops (scoped_ops session_id ops) clock (a, snd st) initial reads)"

definition serve_unix_registry_once ::
  "'e terminal_engine \<Rightarrow> 'h process_host \<Rightarrow> daemon_args \<Rightarrow> ustring option \<Rightarrow> ustring \<Rightarrow> connection \<Rightarrow>
     ('e, 'h) daemon_state \<Rightarrow> ('e, 'h) daemon_step" where
  "serve_unix_registry_once eops ops args origin default_id c st =
     (case read_initial (cn_reads c) of
        Inl e \<Rightarrow> Some (st, [], Inl (DaemonServe e))
      | Inr (initial, rest) \<Rightarrow>
          (let target = (case initial_target_session_id initial of Some t \<Rightarrow> t | None \<Rightarrow> default_id);
               serve = (case registry_get (fst st) target of
                  None \<Rightarrow>
                    answer_with_fallback st default_id
                      (\<lambda>s. protocol_error s 1 ErrSessionNotFound (lit ''session not found: '' @ target) None 0)
                | Some a \<Rightarrow> serve_on_session eops ops (cn_clock c) initial rest target a st)
           in case initial of
                InitialControl command \<Rightarrow>
                  if cm_kind command = CommandSessionNew then
                    serve_session_new_command eops ops args origin (cn_clock c) command st
                  else if cm_kind command = CommandSessionList then
                    Some (st, [serve_session_list_command default_id (fst st)], Inr ())
                  else serve
              | _ \<Rightarrow> serve))"

subsection \<open>The loop\<close>

datatype daemon_end = Waiting | Finished "(daemon_error, unit) res"

fun registry_loop ::
  "'e terminal_engine \<Rightarrow> 'h process_host \<Rightarrow> daemon_args \<Rightarrow> ustring option \<Rightarrow> ustring \<Rightarrow> connection list \<Rightarrow>
     ('e, 'h) daemon_state \<Rightarrow> (('e, 'h) daemon_state \<times> envelope list list \<times> daemon_end) option" where
  \<comment> \<open>the last loop of \<open>run_from_iter\<close> on a Unix socket; when all connections are served it waits for more\<close>
  "registry_loop eops ops args origin default_id [] st = Some (st, [], Waiting)"
| "registry_loop eops ops args origin default_id (c # cs) st =
     (case serve_unix_registry_once eops ops args origin default_id c st of
        None \<Rightarrow> None
      | Some (st1, frames, Inr _) \<Rightarrow>
          map_option (\<lambda>(st2, fss, x). (st2, frames # fss, x)) (registry_loop eops ops args origin default_id cs st1)
      | Some (st1, frames, Inl e) \<Rightarrow>
          if e = DaemonServe ServeSessionShutdown then
            (case registry_get (fst st1) default_id of
               None \<Rightarrow> Some (st1, [frames], Finished (Inr ()))
             | Some a \<Rightarrow>
                 (case stop_all_panes (scoped_ops default_id ops) (snd st1) (leaf_pane_ids (actor_session a)) of
                    (h2, r) \<Rightarrow> Some ((fst st1, h2), [frames], Finished r)))
          else Some (st1, [frames], Finished (Inl e)))"

definition daemon_run ::
  "'e terminal_engine \<Rightarrow> 'h process_host \<Rightarrow> daemon_args \<Rightarrow> ustring option \<Rightarrow> (nat \<Rightarrow> nat) \<Rightarrow> connection list \<Rightarrow> 'h \<Rightarrow>
     (('e, 'h) daemon_state \<times> envelope list list \<times> daemon_end) option" where
  \<comment> \<open>\<open>run_from_iter\<close> without a live or one-shot option, on a Unix socket that is bound\<close>
  "daemon_run eops ops args origin clock cs h =
     (let session_id = da_session_id args in
      Option.bind (create_daemon_session_actor eops ops args origin clock session_id None h) (\<lambda>(h1, r).
        case r of
          Inl e \<Rightarrow> Some (([], h1), [], Finished (Inl e))
        | Inr a \<Rightarrow>
            (case registry_insert [] a of
               (reg, False) \<Rightarrow>
                 Some ((reg, h1), [], Finished (Inl (DaemonText (lit ''duplicate daemon session id '' @ session_id))))
             | (reg, True) \<Rightarrow> registry_loop eops ops args origin session_id cs (reg, h1))))"

subsection \<open>The session built is well formed\<close>

lemma first_session_ok:
  assumes "first_session args sid title = Inr s" shows "workspace_ok s \<and> ss_id s = sid"
proof -
  obtain p where s: "s = session_initial\<lparr>ss_id := sid,
      ss_tabs := [\<lparr>tb_id = lit ''tab-1'', tb_title = (case title of Some t \<Rightarrow> t | None \<Rightarrow> lit ''local''),
        tb_active_pane_id = lit ''pane-1'', tb_root = Pane p []\<rparr>]\<rparr>"
    and p: "pn_id p = lit ''pane-1''" "pane_aligned p = pane_aligned initial_pane"
  proof -
    let ?p = "initial_command args initial_pane"
    from assms obtain host where "apply_initial_host_kind (pn_host ?p) args = Inr host"
      and s: "s = session_initial\<lparr>ss_id := sid,
        ss_tabs := [\<lparr>tb_id = lit ''tab-1'', tb_title = (case title of Some t \<Rightarrow> t | None \<Rightarrow> lit ''local''),
          tb_active_pane_id = lit ''pane-1'', tb_root = Pane (?p\<lparr>pn_host := host\<rparr>) []\<rparr>]\<rparr>"
      by (auto simp: first_session_def Let_def bind_res_Inr_iff)
    moreover have "pn_id ?p = lit ''pane-1''" "pane_aligned (?p\<lparr>pn_host := host\<rparr>) = pane_aligned initial_pane"
      by (simp_all add: initial_command_def Let_def pane_aligned_def surface_rows_aligned_def scrollback_rows_ok_def
          patch_meta_ok_def initial_pane_def split: option.split prod.split)
    ultimately show ?thesis by (intro that [of "?p\<lparr>pn_host := host\<rparr>"]) auto
  qed
  show ?thesis
    using p initial_pane_ok
    by (simp add: s workspace_ok_def session_initial_def find_tab_def leaf_pane_ids_def session_panes_def tab_ok_def
        pane_ok_def)
qed

definition built :: "ustring \<Rightarrow> 'e session_core \<Rightarrow> bool" where
  "built sid core \<longleftrightarrow> workspace_ok (sc_session core) \<and> ss_id (sc_session core) = sid"

lemma apply_event_ok:
  assumes "built sid core" and "ev = AddTab t title p host \<or> ev = SwitchTab t \<or> ev = SplitPane p axis n host \<or>
    ev = SetPaneResizePolicy p policy"
  shows "built sid (fst (apply_event eops core ev))"
proof -
  have "ss_id (fst (set_pane_resize_policy s p policy)) = ss_id s" for s
    by (auto simp: set_pane_resize_policy_def frame_simps harmless_policy split: option.split)
  then have "ss_id (sc_session (fst (apply_event eops core ev))) = ss_id (sc_session core)"
    using assms(2) by (auto simp: apply_event_def accept_def accept_pending_def apply_accepted_def Let_def case_prod_beta)
  with assms(1) show ?thesis
    using accept_pending_workspace_ok [of core eops]
    by (simp add: built_def apply_event_def accept_def case_prod_beta)
qed

lemma changed_or_built:
  "changed_or x r = Inr core \<Longrightarrow> built sid (fst r) \<Longrightarrow> built sid core"
  by (auto simp: changed_or_def bind_res_Inr_iff split: if_splits)

lemma initial_tabs_built: "add_initial_tabs eops ns core = Inr core' \<Longrightarrow> built sid core \<Longrightarrow> built sid core'"
proof (induction ns arbitrary: core)
  case (Cons n ns)
  from Cons.prems(1) obtain host core1 where
    "changed_or (Inl (DaemonText (lit ''failed to create initial tab '' @ dec_str n)))
       (apply_event eops core (AddTab (lit ''tab-'' @ dec_str n) (lit ''tab-'' @ dec_str n)
         (lit ''tab-'' @ dec_str n @ lit ''-pane-1'') host)) = Inr core1"
    and next1: "add_initial_tabs eops ns core1 = Inr core'"
    by (auto simp: Let_def bind_res_Inr_iff split: option.splits)
  then have "built sid core1" using apply_event_ok [OF Cons.prems(2)] changed_or_built by blast
  with Cons.IH [OF next1] show ?case by simp
qed simp

lemma switch_built:
  assumes "switch_initial_tab eops args core = Inr core'" and "built sid core" shows "built sid core'"
proof (cases "da_active_tab_id args")
  case (Some k)
  then obtain x where "changed_or x (apply_event eops core (SwitchTab k)) = Inr core'"
    using assms(1) unfolding switch_initial_tab_def Let_def Some option.case by blast
  with apply_event_ok [OF assms(2)] changed_or_built show ?thesis by blast
qed (use assms in \<open>simp add: switch_initial_tab_def\<close>)

lemma split_built:
  assumes "split_initial_pane eops args core = Inr core'" and "built sid core" shows "built sid core'"
proof (cases "da_initial_split args")
  case (Some axis)
  with assms(1) obtain k host where "changed_or (Inl (DaemonText (lit ''failed to create initial split pane'')))
      (apply_event eops core (SplitPane k axis (lit ''pane-2'') host)) = Inr core'"
    by (auto simp: split_initial_pane_def bind_res_Inr_iff)
  with apply_event_ok [OF assms(2)] changed_or_built show ?thesis by blast
qed (use assms in \<open>simp add: split_initial_pane_def\<close>)

lemma prepare_panes_built:
  "built sid core \<Longrightarrow> built sid (foldl (prepare_pane eops args origin) core ks)"
proof (induction ks arbitrary: core)
  case (Cons k ks)
  have env: "ss_id (fst (set_pane_nmux_environment s k e o')) = ss_id s" for s e o'
    by (auto simp: set_pane_nmux_environment_def session_pane_mut_ok(1) [OF _ harmless_environment] split: option.split)
  have "built sid (fst (apply_event eops core (SetPaneResizePolicy k (da_resize_policy args))))"
    using apply_event_ok [OF Cons.prems] by blast
  then have "built sid (prepare_pane eops args origin core k)"
    by (simp add: prepare_pane_def Let_def built_def env set_pane_nmux_environment_ok)
  with Cons.IH show ?case by simp
qed simp

lemma build_ok:
  assumes "build_daemon_session_core eops args origin sid title = Inr core" shows "built sid core"
proof -
  from assms obtain s core1 core2 core3 where
    s: "first_session args sid title = Inr s" "add_initial_tabs eops [2 ..< da_initial_tabs args + 1] (core_new s) = Inr core1"
      "switch_initial_tab eops args core1 = Inr core2" "split_initial_pane eops args core2 = Inr core3"
    and core: "core = foldl (prepare_pane eops args origin) core3 (leaf_pane_ids (sc_session core3))"
    by (auto simp: build_daemon_session_core_def bind_res_Inr_iff)
  have "built sid (core_new s)" using first_session_ok [OF s(1)] by (simp add: built_def core_new_def)
  then have "built sid core1" by (rule initial_tabs_built [OF s(2)])
  then have "built sid core2" by (rule switch_built [OF s(3)])
  then have "built sid core3" by (rule split_built [OF s(4)])
  then show ?thesis unfolding core by (rule prepare_panes_built)
qed

subsection \<open>The registry stays well formed\<close>

definition actor_ok :: "ustring \<Rightarrow> 'e session_actor \<Rightarrow> bool" where
  "actor_ok k a \<longleftrightarrow> ss_id (actor_session a) = k \<and> rests a \<and> workspace_ok (actor_session a)"

definition registry_ok :: "'e session_registry \<Rightarrow> bool" where
  \<comment> \<open>a sorted table of actors at rest with well formed sessions, each under the id of its session\<close>
  "registry_ok reg \<longleftrightarrow> bt_sorted reg \<and> (\<forall>k a. bt_get reg k = Some a \<longrightarrow> actor_ok k a)"

definition initial_ok :: "client_initial_frame \<Rightarrow> bool" where
  "initial_ok initial \<longleftrightarrow> (\<forall>c. initial = InitialControl c \<longrightarrow> control_command_ok c)"

lemma read_initial_ok: "read_initial reads = Inr (initial, rest) \<Longrightarrow> initial_ok initial"
  by (auto simp: read_initial_def read_client_initial_frame_def initial_ok_def bind_res_Inr_iff
      dest!: control_command_decoded_ok split: sum.splits envelope_body.splits if_splits)

lemma registry_put_ok:
  assumes "registry_ok reg" and "actor_ok k a" shows "registry_ok (bt_put k a reg)"
  using assms by (auto simp: registry_ok_def bt_get_put bt_sorted_put)

lemma registry_insert_ok:
  assumes "registry_ok reg" and "actor_ok k a" and "bt_get reg k = None"
  shows "registry_insert reg a = (bt_put k a reg, True)"
  using assms(2,3) by (simp add: registry_insert_def actor_ok_def actor_session_def)

definition touches_only :: "ustring \<Rightarrow> ('e, 'h) daemon_state \<Rightarrow> ('e, 'h) daemon_state \<Rightarrow> bool" where
  \<comment> \<open>the registry stays well formed, no session is lost, and only the one with this id may have changed\<close>
  "touches_only k st st' \<longleftrightarrow> registry_ok (fst st') \<and> (\<forall>j. registry_get (fst st) j \<noteq> None \<longrightarrow> registry_get (fst st') j \<noteq> None) \<and>
     (\<forall>j. j \<noteq> k \<longrightarrow> registry_get (fst st') j = registry_get (fst st) j)"

lemma touches_only_refl: "registry_ok (fst st) \<Longrightarrow> touches_only k st st"
  "registry_ok reg \<Longrightarrow> touches_only k (reg, h) (reg, h')"
  by (simp_all add: touches_only_def)

lemma touches_only_put:
  assumes "registry_ok reg" and "actor_ok k a" shows "touches_only k (reg, h) (bt_put k a reg, h')"
  using registry_put_ok [OF assms] assms(1) by (simp add: touches_only_def registry_get_def registry_ok_def bt_get_put)

lemma fallback_served:
  assumes "registry_ok (fst st)" shows "served (touches_only k st) (answer_with_fallback st default_id frame)"
  using assms by (auto simp: answer_with_fallback_def touches_only_refl split: option.split)

lemma wait_ends:
  assumes poll: "\<And>st k. P st \<Longrightarrow> \<exists>st' r. poll st k = Some (st', r) \<and> P st'" and "P st"
    and clock: "\<And>m. N \<le> m \<Longrightarrow> deadline \<le> clock m"
  shows "\<exists>st' r. wait_for_panes_output poll clock ks deadline st n = Some (st', r) \<and> P st'"
  using \<open>P st\<close>
proof (induction "N - n" arbitrary: st n rule: less_induct)
  case less
  show ?case
  proof (cases "deadline \<le> clock n")
    case True
    with less(2) show ?thesis by (simp add: wait_for_panes_output.simps [of poll clock ks deadline st])
  next
    case False
    then have "N - (n + 1) < N - n" using clock [of n] by (cases "N \<le> n") auto
    note IH = less(1) [OF this]
    obtain st1 r where "poll_each poll st ks False = Some (st1, r)" "P st1"
      using poll_each_ends [of P poll, OF poll less(2)] by blast
    with False IH [of st1] show ?thesis
      by (cases r) (auto simp: wait_for_panes_output.simps [of poll clock ks deadline st])
  qed
qed

context pump_source
begin

lemma on_scope: "pump_source (scoped_ops s ops) (\<lambda>h k. pending h (host_pane_id s k))"
  by (intro pump_source.intro scoped_output output_source_axioms)

lemma create_actor_ends:
  assumes "clock_passes 200 clock"
  shows "\<exists>h' r. create_daemon_session_actor eops ops args origin clock sid title h = Some (h', r) \<and>
    (\<forall>a. r = Inr a \<longrightarrow> actor_ok sid a)"
proof (cases "build_daemon_session_core eops args origin sid title")
  case (Inl e)
  then show ?thesis by (simp add: create_daemon_session_actor_def)
next
  case (Inr core)
  let ?ks = "leaf_pane_ids (sc_session core)" and ?a = "actor_new core DAEMON_TRACE_RING_CAP"
  obtain h1 r1 where start: "start_panes (scoped_ops sid ops) (sc_session core) h ?ks = (h1, r1)"
    by (cases "start_panes (scoped_ops sid ops) (sc_session core) h ?ks")
  show ?thesis
  proof (cases r1)
    case (Inl e)
    with Inr start show ?thesis by (simp add: create_daemon_session_actor_def Let_def)
  next
    case started: (Inr u)
    have a: "rests ?a" "actor_session ?a = sc_session core"
      by (simp_all add: rests_iff actor_new_def scheduler_new_def actor_session_def)
    from assms obtain N where N: "\<And>m. N \<le> m \<Longrightarrow> clock 0 + 200 \<le> clock m" by (auto simp: clock_passes_def)
    have "\<exists>st r. wait_for_panes_output (poll_pane_output_with_session_actor eops (scoped_ops sid ops) 0) clock ?ks
        (clock 0 + 200) (?a, h1) 1 = Some (st, r) \<and> tended ?a st"
      by (rule wait_ends [OF pump_source.actor_poll_served [OF on_scope] tended_refl [OF a(1)] N])
    then obtain a2 h2 r2 where
      "wait_for_panes_output (poll_pane_output_with_session_actor eops (scoped_ops sid ops) 0) clock ?ks
        (clock 0 + 200) (?a, h1) 1 = Some ((a2, h2), r2)" "rests a2" "commanded (sc_session core) (actor_session a2)"
      using a(2) by (auto simp: tended_def)
    with Inr start started build_ok [OF Inr] show ?thesis
      by (cases r2) (auto simp: create_daemon_session_actor_def Let_def actor_ok_def built_def commanded_def)
  qed
qed

lemma session_new_served:
  assumes "registry_ok (fst st)" and "clock_passes 200 clock" and "control_command_ok command"
  shows "served (touches_only (case cm_session_id command of Some k \<Rightarrow> k | None \<Rightarrow> default_id) st)
    (serve_session_new_command eops ops args origin clock command st)"
proof (cases "cm_session_id command")
  case None
  with fallback_served [OF assms(1)] show ?thesis by (simp add: serve_session_new_command_def)
next
  case (Some k)
  with assms(3) have k: "(case cm_session_id command of Some [] \<Rightarrow> None | x \<Rightarrow> x) = Some k"
    by (auto simp: control_command_ok_def split: list.split)
  show ?thesis
  proof (cases "registry_get (fst st) k")
    case (Some a)
    with k \<open>cm_session_id command = Some k\<close> fallback_served [OF assms(1)] show ?thesis
      by (simp add: serve_session_new_command_def)
  next
    case new: None
    obtain h1 r where created:
      "create_daemon_session_actor eops ops args origin clock k (cm_title command) (snd st) = Some (h1, r)"
      "\<forall>a. r = Inr a \<longrightarrow> actor_ok k a"
      using create_actor_ends [OF assms(2), of eops args origin k "cm_title command" "snd st"] by blast
    obtain reg h where st: "st = (reg, h)" by (cases st)
    show ?thesis
    proof (cases r)
      case (Inl e)
      with k new created Some assms(1) show ?thesis
        by (simp add: serve_session_new_command_def touches_only_refl(2) st)
    next
      case (Inr a)
      then have a: "actor_ok k a" using created(2) by simp
      from registry_insert_ok [OF _ a, of reg] assms(1) new
      have "registry_insert reg a = (bt_put k a reg, True)" by (simp add: st registry_get_def)
      with touches_only_put [OF _ a] assms(1) k new created(1) Inr Some show ?thesis
        by (simp add: serve_session_new_command_def st)
    qed
  qed
qed

lemma on_session_served:
  assumes "registry_ok (fst st)" and "registry_get (fst st) k = Some a" and "clock_passes 200 clock" and "initial_ok initial"
  shows "served (touches_only k st) (serve_on_session eops ops clock initial reads k a st)"
proof -
  have a: "actor_ok k a" using assms(1,2) by (simp add: registry_ok_def registry_get_def)
  have clock: "clock_passes LIVE_HOST_OUTPUT_POLL_DEADLINE clock"
    using assms(3) by (fastforce simp: clock_passes_def LIVE_HOST_OUTPUT_POLL_DEADLINE_def)
  have "\<exists>st' frames x. serve_stream_once_with_session_actor eops (scoped_ops k ops) clock (a, snd st) initial reads =
      Some (st', frames, x) \<and> tended a st'"
    by (rule pump_source.connection_served [OF on_scope _ clock]) (use a assms(4) in \<open>auto simp: actor_ok_def initial_ok_def\<close>)
  then obtain a1 h1 frames x where
    "serve_stream_once_with_session_actor eops (scoped_ops k ops) clock (a, snd st) initial reads = Some ((a1, h1), frames, x)"
    "tended a (a1, h1)" by auto
  moreover from this(2) a have "actor_ok k a1" by (simp add: tended_def actor_ok_def commanded_def)
  ultimately show ?thesis
    using touches_only_put [OF assms(1), of k a1 "snd st" h1] by (auto simp: serve_on_session_def)
qed

lemma connection_touches_one:
  assumes "registry_ok (fst st)" and "clock_passes 200 (cn_clock c)"
  shows "served (touches_only (case read_initial (cn_reads c) of
      Inr (initial, _) \<Rightarrow> (case initial_target_session_id initial of Some k \<Rightarrow> k | None \<Rightarrow> default_id) | Inl _ \<Rightarrow> default_id) st)
    (serve_unix_registry_once eops ops args origin default_id c st)"
proof (cases "read_initial (cn_reads c)")
  case (Inl e)
  with assms(1) show ?thesis by (simp add: serve_unix_registry_once_def touches_only_refl)
next
  case (Inr x)
  obtain initial rest where x: "x = (initial, rest)" by (cases x)
  then have ok: "initial_ok initial" using Inr read_initial_ok by blast
  let ?k = "case initial_target_session_id initial of Some k \<Rightarrow> k | None \<Rightarrow> default_id"
  let ?serve = "case registry_get (fst st) ?k of
      None \<Rightarrow> answer_with_fallback st default_id
        (\<lambda>s. protocol_error s 1 ErrSessionNotFound (lit ''session not found: '' @ ?k) None 0)
    | Some a \<Rightarrow> serve_on_session eops ops (cn_clock c) initial rest ?k a st"
  have serve: "served (touches_only ?k st) ?serve"
    using fallback_served [OF assms(1)] on_session_served [OF assms(1) _ assms(2) ok] by (auto split: option.split)
  have once: "serve_unix_registry_once eops ops args origin default_id c st =
      (case initial of
         InitialControl command \<Rightarrow>
           if cm_kind command = CommandSessionNew
           then serve_session_new_command eops ops args origin (cn_clock c) command st
           else if cm_kind command = CommandSessionList
           then Some (st, [serve_session_list_command default_id (fst st)], Inr ())
           else ?serve
       | _ \<Rightarrow> ?serve)"
    by (simp add: serve_unix_registry_once_def Inr x Let_def)
  have "served (touches_only ?k st) (serve_unix_registry_once eops ops args origin default_id c st)"
  proof (cases initial)
    case (InitialControl command)
    with ok have "control_command_ok command" by (simp add: initial_ok_def)
    from session_new_served [OF assms this, of default_id eops args origin] InitialControl
    have "served (touches_only ?k st) (serve_session_new_command eops ops args origin (cn_clock c) command st)"
      by (simp add: initial_target_session_id_def)
    moreover have "touches_only ?k st st" using assms(1) by (rule touches_only_refl)
    ultimately show ?thesis using serve InitialControl unfolding once by simp
  qed (use serve in \<open>simp_all add: once\<close>)
  then show ?thesis by (simp add: Inr x)
qed

lemma registry_loop_ends:
  "registry_ok (fst st) \<Longrightarrow> list_all (\<lambda>c. clock_passes 200 (cn_clock c)) cs \<Longrightarrow>
     served (\<lambda>st'. registry_ok (fst st') \<and> (\<forall>k. registry_get (fst st) k \<noteq> None \<longrightarrow> registry_get (fst st') k \<noteq> None))
       (registry_loop eops ops args origin default_id cs st)"
proof (induction cs arbitrary: st)
  case (Cons c cs)
  from connection_touches_one [OF Cons.prems(1), of c] Cons.prems(2) obtain k st1 frames r where
    once: "serve_unix_registry_once eops ops args origin default_id c st = Some (st1, frames, r)"
      "touches_only k st st1" by (fastforce simp: served_def)
  then have ok: "registry_ok (fst st1)" and kept: "\<forall>k. registry_get (fst st) k \<noteq> None \<longrightarrow> registry_get (fst st1) k \<noteq> None"
    by (simp_all add: touches_only_def)
  show ?case
  proof (cases r)
    case (Inl e)
    with once(1) ok kept show ?thesis by (auto split: option.split prod.split)
  next
    case (Inr u)
    with Cons.IH [OF ok] Cons.prems(2) kept once(1) show ?thesis by (auto elim!: servedE)
  qed
qed simp

lemma daemon_run_ends:
  assumes "clock_passes 200 clock" and "list_all (\<lambda>c. clock_passes 200 (cn_clock c)) cs"
  shows "served (\<lambda>st. registry_ok (fst st)) (daemon_run eops ops args origin clock cs h)"
proof -
  let ?id = "da_session_id args"
  obtain h1 r where a: "create_daemon_session_actor eops ops args origin clock ?id None h = Some (h1, r)"
    "\<forall>a. r = Inr a \<longrightarrow> actor_ok ?id a"
    using create_actor_ends [OF assms(1), of eops args origin ?id None h] by blast
  show ?thesis
  proof (cases r)
    case (Inl e)
    with a(1) show ?thesis by (simp add: daemon_run_def Let_def registry_ok_def)
  next
    case (Inr x)
    with a(2) have x: "actor_ok ?id x" by simp
    have empty: "registry_ok []" by (simp add: registry_ok_def)
    then have ins: "registry_insert [] x = (bt_put ?id x [], True)" by (rule registry_insert_ok [OF _ x]) simp
    have "registry_ok (bt_put ?id x [])" by (rule registry_put_ok [OF empty x])
    with registry_loop_ends [of "(bt_put ?id x [], h1)" cs eops args origin ?id] assms(2) a(1) Inr ins show ?thesis
      by (auto simp: daemon_run_def Let_def elim: served_mono)
  qed
qed

end

subsection \<open>How the loop ends\<close>

lemma unreadable_connection_ends_daemon:
  assumes "read_initial (cn_reads c) = Inl e"
  shows "registry_loop eops ops args origin default_id (c # cs) st = Some (st, [[]], Finished (Inl (DaemonServe e)))"
proof -
  have "e \<noteq> ServeSessionShutdown" using assms by (auto simp: read_initial_def split: sum.splits)
  with assms show ?thesis by (simp add: serve_unix_registry_once_def)
qed

lemma kill_shuts_down:
  assumes "actor_ok k a" and "cm_kind c = CommandSessionKill" and "cm_session_id c = Some k"
  shows "\<exists>a' f. serve_stream_once_with_session_actor eops ops clock (a, h) (InitialControl c) reads =
    Some ((a', h), [f], Inl ServeSessionShutdown) \<and> actor_session a' = actor_session a"
proof -
  have "rests a" and id: "ss_id (actor_session a) = k" using assms(1) by (simp_all add: actor_ok_def)
  then have "actor_session (enqueue_lifecycle_session_event eops a c (RequestSessionShutdown (Some k))) = actor_session a"
    using enqueue_on_rest(2) [of a "RequestSessionShutdown (Some k)" "(actor_session a, False)" eops c]
    by (simp add: workspace_event_def)
  with assms(2,3) id show ?thesis
    by (simp add: serve_stream_once_with_session_actor_def serve_control_command_with_session_actor_def
        actor_control_command_def apply_session_kill_command_def command_end_def)
qed

lemma kill_ends_daemon:
  assumes "registry_ok (fst st)" and "registry_get (fst st) k = Some a"
    and "read_initial (cn_reads c) = Inr (InitialControl cmd, rest)"
    and "cm_kind cmd = CommandSessionKill" and "cm_session_id cmd = Some k"
    and "registry_get (fst st) default_id = Some d"
  shows "\<exists>reg fss. registry_loop eops ops args origin default_id (c # cs) st =
    (case stop_all_panes (scoped_ops default_id ops) (snd st) (leaf_pane_ids (actor_session d)) of
       (h, r) \<Rightarrow> Some ((reg, h), fss, Finished r))"
proof -
  have ok: "actor_ok k a" using assms(1,2) by (simp add: registry_ok_def registry_get_def)
  from kill_shuts_down [OF ok assms(4,5), of eops "scoped_ops k ops" "cn_clock c" "snd st" rest] obtain a' f where
    s: "serve_stream_once_with_session_actor eops (scoped_ops k ops) (cn_clock c) (a, snd st) (InitialControl cmd) rest =
      Some ((a', snd st), [f], Inl ServeSessionShutdown)" "actor_session a' = actor_session a" by blast
  then have once: "serve_unix_registry_once eops ops args origin default_id c st =
      Some ((bt_put k a' (fst st), snd st), [f], Inl (DaemonServe ServeSessionShutdown))"
    using assms(2-5) by (simp add: serve_unix_registry_once_def initial_target_session_id_def serve_on_session_def)
  have sorted: "bt_sorted (fst st)" using assms(1) by (simp add: registry_ok_def)
  obtain d' where "registry_get (bt_put k a' (fst st)) default_id = Some d'" "actor_session d' = actor_session d"
    using assms(2,6) s(2) sorted by (cases "default_id = k") (auto simp: registry_get_def bt_get_put)
  with once show ?thesis by (auto split: prod.split)
qed

lemma stop_all_keeps_others:
  assumes "pane_supervisor ops running" and "\<And>h k h' e. ph_stop ops h k = (h', Inl e) \<Longrightarrow> running h' = running h"
    and "x \<in> running h" and "\<forall>k \<in> set ks. x \<noteq> host_pane_id sid k"
  shows "x \<in> running (fst (stop_all_panes (scoped_ops sid ops) h ks))"
  using assms(3,4)
proof (induction ks arbitrary: h)
  case (Cons k ks)
  obtain h1 r where stop: "ph_stop ops h (host_pane_id sid k) = (h1, r)" by (cases "ph_stop ops h (host_pane_id sid k)")
  have scoped: "fst (ph_stop (scoped_ops sid ops) h k) = h1" by (simp add: scoped_ops_def scoped_iff stop)
  have "x \<in> running h1" if "r = Inr p" for p
    using pane_supervisor.stop_ok [OF assms(1) stop [unfolded that]] Cons.prems by auto
  moreover have "x \<in> running h1" if "r = Inl e" for e
    using assms(2) [OF stop [unfolded that]] Cons.prems by simp
  ultimately have "x \<in> running h1" by (cases r) auto
  with Cons scoped show ?case
    by (cases "ph_stop (scoped_ops sid ops) h k"; cases "snd (ph_stop (scoped_ops sid ops) h k)") auto
qed simp

lemma inventory_is_read:
  assumes "registry_ok reg" and "registry_get reg default_id \<noteq> None"
    and "\<And>k a. registry_get reg k = Some a \<Longrightarrow> k \<noteq> [] \<and> session_title (actor_session a) \<noteq> []"
  shows "read_session_inventory_command_response [FrameRead (serve_session_list_command default_id reg)] =
      Inr (registry_inventory default_id reg, [])"
    and "map si_session_id (sn_sessions (registry_inventory default_id reg)) = map fst reg"
    and "sorted (map fst reg)" and "distinct (map fst reg)"
proof -
  have "default_id \<noteq> []" using assms(2,3) by blast
  have "\<forall>x \<in> set (sn_sessions (registry_inventory default_id reg)). si_session_id x \<noteq> [] \<and> si_title x \<noteq> []"
  proof
    fix x assume "x \<in> set (sn_sessions (registry_inventory default_id reg))"
    then obtain k a where x: "x = \<lparr>si_session_id = k, si_title = session_title (actor_session a)\<rparr>" and "(k, a) \<in> set reg"
      by (auto simp: registry_inventory_def)
    then have "registry_get reg k = Some a"
      using bt_get_in [of reg k a] assms(1) by (simp add: registry_get_def registry_ok_def)
    with assms(3) x show "si_session_id x \<noteq> [] \<and> si_title x \<noteq> []" by simp
  qed
  with \<open>default_id \<noteq> []\<close>
  have "session_inventory_from_frame (serve_session_list_command default_id reg) = Inr (registry_inventory default_id reg)"
    unfolding serve_session_list_command_def by (intro session_inventory_decodes) (simp_all add: registry_inventory_def)
  then show "read_session_inventory_command_response [FrameRead (serve_session_list_command default_id reg)] =
      Inr (registry_inventory default_id reg, [])"
    by (simp add: serve_session_list_command_def session_inventory_frame_def frame_envelope_def)
  show "map si_session_id (sn_sessions (registry_inventory default_id reg)) = map fst reg"
    by (simp add: registry_inventory_def case_prod_beta)
  show "sorted (map fst reg)" "distinct (map fst reg)"
    using assms(1) by (simp_all add: registry_ok_def bt_sorted_def strict_sorted_iff)
qed

end
