(* ===== verification/Live_Loop.thy ===== *)
theory Live_Loop
  imports Live_Clients Daemon
begin

text \<open>
  The loop that serves any number of clients of one session at the same time
  (\<open>serve_live_concurrent_n_with_host_and_engines\<close>, \<open>serve_live_concurrent_n_with_session_actor\<close> and
  \<open>accept_live_client\<close> in \<open>crates/nmux-cli/src/local.rs\<close>): a turn accepts connections, reads what clients have
  sent, sizes the panes, polls the processes, tells every client what changed, and lets go of clients that are gone
  or done. What a turn finds (connections, news from the clients, time, output signalled) is an argument.

  The lemmas: on the hosts that read output in order, and with a clock that goes on, every turn returns; the session
  stays what became of the first one, the queues of all clients keep their bounds, and no two clients share a
  connection id. A connection whose first frame cannot be read ends the loop for all.
\<close>

subsection \<open>A new connection\<close>

record 's accept_ops =
  \<comment> \<open>what the two variants of the loop do with a first frame that is no attach\<close>
  ap_command :: "'s \<Rightarrow> control_command \<Rightarrow> 's \<times> envelope \<times> control_command_outcome"
  ap_probe :: "(nat \<Rightarrow> nat) \<Rightarrow> presence_summary \<Rightarrow> 's \<Rightarrow> ('s \<times> envelope) option"

definition direct_accept ::
  "'e terminal_engine \<Rightarrow> 'h process_host \<Rightarrow> (session \<times> 'e pane_engines \<times> 'h) accept_ops" where
  "direct_accept eops ops =
     \<lparr>ap_command = (\<lambda>(s, engines, h) c.
        case serve_control_command ops s (Some h) c of
          (s1, h1, frame, outcome) \<Rightarrow> ((s1, engines, case h1 of Some h2 \<Rightarrow> h2 | None \<Rightarrow> h), frame, outcome)),
      ap_probe = (\<lambda>clock probe (s, engines, h).
        map_option
          (\<lambda>(sv, frame). ((sv_session sv, sv_engines sv, case sv_host sv of Some h1 \<Rightarrow> h1 | None \<Rightarrow> h), frame))
          (serve_health_probe eops ops clock probe \<lparr>sv_session = s, sv_engines = engines, sv_host = Some h\<rparr>))\<rparr>"

definition actor_accept :: "'e terminal_engine \<Rightarrow> 'h process_host \<Rightarrow> ('e session_actor \<times> 'h) accept_ops" where
  "actor_accept eops ops =
     \<lparr>ap_command = (\<lambda>(a, h) c.
        case serve_control_command_with_session_actor eops ops a (Some h) c of
          (a1, h1, frame, outcome) \<Rightarrow> ((a1, case h1 of Some h2 \<Rightarrow> h2 | None \<Rightarrow> h), frame, outcome)),
      ap_probe = serve_health_probe_with_session_actor eops ops\<rparr>"

datatype live_accept = AcceptAttached live_client | AcceptCommand | AcceptShutdown

definition ASYNC_LIVE_RELIABLE_FRAME_CAP :: usize where "ASYNC_LIVE_RELIABLE_FRAME_CAP = 256"
definition ASYNC_LIVE_RELIABLE_BYTE_CAP :: usize where "ASYNC_LIVE_RELIABLE_BYTE_CAP = 8 * 1024 * 1024"

definition new_live_client ::
  "live_transport \<Rightarrow> ustring \<Rightarrow> session_actor_info \<Rightarrow> attach_request \<Rightarrow> u64 \<Rightarrow> u64 \<Rightarrow> (ustring, u64) btree \<Rightarrow> usize \<Rightarrow>
     live_client" where
  "new_live_client transport connection_id actor request now seq known completed =
     \<lparr>lc_transport = transport, lc_connection_id = connection_id, lc_actor = actor,
      lc_hostname = aq_hostname request, lc_client_kind = aq_client_kind request,
      lc_inventory_subscribed = aq_subscribe_client_inventory request, lc_connected_at_mono_ms = now,
      lc_last_seen_mono_ms = now, lc_last_input_mono_ms = None, lc_seq = seq, lc_known_surface_versions = known,
      lc_frontend_resize_constraints = [], lc_completed_cycles = completed\<rparr>"

definition accept_live_client ::
  "'s live_ops \<Rightarrow> 's accept_ops \<Rightarrow> (nat \<Rightarrow> nat) \<Rightarrow> ustring \<Rightarrow> u64 \<Rightarrow> 's \<Rightarrow> frame_read list \<Rightarrow>
     ('s \<times> envelope list \<times> (live_error, live_accept) res) option" where
  \<comment> \<open>with the frames written to the connection; a client that is refused keeps its socket and counts as done\<close>
  "accept_live_client ops aops clock connection_id now st reads =
     (case read_initial reads of
        Inl e \<Rightarrow> Some (st, [], Inl (LiveServe e))
      | Inr (InitialControl command, _) \<Rightarrow>
          (case ap_command aops st command of
             (st1, frame, outcome) \<Rightarrow>
               Some (st1, [frame],
                 Inr (case outcome of OutcomeContinue \<Rightarrow> AcceptCommand | OutcomeShutdown \<Rightarrow> AcceptShutdown)))
      | Inr (InitialHealthProbe probe, _) \<Rightarrow>
          map_option (\<lambda>(st1, frame). (st1, [frame], Inr AcceptCommand)) (ap_probe aops clock probe st)
      | Inr (InitialAttach target request, rest) \<Rightarrow>
          (let s = lo_session ops st;
               refused = (\<lambda>frame actor. Inr (AcceptAttached
                 (new_live_client (LegacyTransport rest [frame]) connection_id actor request now 2 [] U64_MAX)))
           in case attach_target_session_mismatch s target of
             Some t \<Rightarrow> Some (st, [attach_session_not_found_error s 1 t], Inr AcceptCommand)
           | None \<Rightarrow>
               (case attach_target_pane_id s request of
                  (s1, None) \<Rightarrow>
                    (let frame = target_not_found_error s1 1 (aq_focused_pane_id request)
                     in Some (lo_with_session ops s1 st, [frame], refused frame (request_actor request)))
                | (s1, Some pane_id) \<Rightarrow>
                    (let actor = request_actor_for_pane request pane_id in
                     Option.bind (poll_until_quiet (lo_poll ops now) clock (leaf_pane_ids s) (lo_with_session ops s1 st))
                       (\<lambda>(st2, r).
                          let s2 = lo_session ops st2 in
                          case r of
                            Inl e \<Rightarrow>
                              (let frame = protocol_error s2 1 ErrUnknown (lit ''output polling failed: '' @ lo_error_text ops e)
                                     (Some (host_error_pane_id e)) 0
                               in Some (st2, [frame], refused frame actor))
                          | Inr _ \<Rightarrow>
                              (case write_live_attach_initial s2 request pane_id 1 of
                                 (frames, seq) \<Rightarrow>
                                   Some (st2, frames, Inr (AcceptAttached
                                     (new_live_client
                                        (AsyncTransport [] False
                                          (output_new ASYNC_LIVE_RELIABLE_FRAME_CAP ASYNC_LIVE_RELIABLE_BYTE_CAP))
                                        connection_id actor request now seq
                                        (known_after_attach request s2 pane_id) 0)))))))))"

subsection \<open>The state of the loop\<close>

datatype connection_limit = Bounded usize | Unbounded

definition accepts_more :: "connection_limit \<Rightarrow> usize \<Rightarrow> bool" where
  "accepts_more limit accepted = (case limit of Bounded n \<Rightarrow> accepted < n | Unbounded \<Rightarrow> True)"

record 's live_service =
  ll_state :: 's
  ll_clients :: "live_client list"
  ll_accepted :: usize
  ll_inventory_version :: u64
  ll_next_connection_id :: u64
  ll_answers :: "envelope list list"
    \<comment> \<open>what was written to each accepted connection before it was handed to its transport\<close>

datatype loop_step = LoopGoesOn | LoopEnds "(live_error, unit) res"

definition and_then :: "'l \<times> ('e, 'a) res \<Rightarrow> ('l \<Rightarrow> 'a \<Rightarrow> 'l \<times> ('e, 'b) res) \<Rightarrow> 'l \<times> ('e, 'b) res" where
  \<comment> \<open>the question mark: the state is what it was at the error\<close>
  "and_then x f = (case x of (l, Inl e) \<Rightarrow> (l, Inl e) | (l, Inr a) \<Rightarrow> f l a)"

definition publish_patch ::
  "'s live_ops \<Rightarrow> (envelope \<Rightarrow> usize) \<Rightarrow> client_connection list \<Rightarrow> client_connection list \<Rightarrow> ustring list \<Rightarrow>
     's live_service \<Rightarrow> 's live_service \<times> (live_error, unit) res" where
  "publish_patch ops len joined updated left l =
     (case write_client_inventory_patch_to_subscribers len (ll_clients l) (lo_session ops (ll_state l))
             \<lparr>ip_base_version = ll_inventory_version l, ip_version = ll_inventory_version l + 1, ip_joined = joined,
              ip_updated = updated, ip_left_connection_ids = left\<rparr> of
        (clients, r) \<Rightarrow> (l\<lparr>ll_clients := clients, ll_inventory_version := ll_inventory_version l + 1\<rparr>, r))"

definition publish_left ::
  "'s live_ops \<Rightarrow> (envelope \<Rightarrow> usize) \<Rightarrow> ustring list \<Rightarrow> 's live_service \<Rightarrow> 's live_service \<times> (live_error, unit) res" where
  "publish_left ops len left l = (if left = [] then (l, Inr ()) else publish_patch ops len [] [] left l)"

definition publish_updates ::
  "'s live_ops \<Rightarrow> (envelope \<Rightarrow> usize) \<Rightarrow> client_connection list \<Rightarrow> 's live_service \<Rightarrow> 's live_service \<times> (live_error, unit) res" where
  "publish_updates ops len updates l = (if updates = [] then (l, Inr ()) else publish_patch ops len [] updates [] l)"

definition join_client ::
  "'s live_ops \<Rightarrow> (envelope \<Rightarrow> usize) \<Rightarrow> live_client \<Rightarrow> 's live_service \<Rightarrow> 's live_service \<times> (live_error, unit) res" where
  \<comment> \<open>presence goes both ways, errors of it are dropped; then the inventories\<close>
  "join_client ops len c l =
     (let s = lo_session ops (ll_state l); existing = ll_clients l in
      and_then
        (publish_patch ops len [inventory_entry c] [] []
           (l\<lparr>ll_accepted := ll_accepted l + 1, ll_next_connection_id := ll_next_connection_id l + 1,
              ll_clients := map (\<lambda>e. fst (write_presence_to_live_client len e s (lc_actor c))) existing\<rparr>))
        (\<lambda>l1 _.
           let c1 = foldl (\<lambda>c e. fst (write_presence_to_live_client len c s (lc_actor e))) c existing in
           case write_client_inventory_snapshot_to_client len c1 s (ll_inventory_version l1)
                  (map inventory_entry (ll_clients l1 @ [c1])) of
             (c2, r) \<Rightarrow> (l1\<lparr>ll_clients := ll_clients l1 @ [c2]\<rparr>, r)))"

definition connection_name :: "u64 \<Rightarrow> ustring" where
  "connection_name n = lit ''conn-'' @ dec_str n"

fun accept_clients ::
  "'s live_ops \<Rightarrow> 's accept_ops \<Rightarrow> (envelope \<Rightarrow> usize) \<Rightarrow> connection_limit \<Rightarrow> u64 \<Rightarrow>
     ((nat \<Rightarrow> nat) \<times> frame_read list) list \<Rightarrow> 's live_service \<Rightarrow> ('s live_service \<times> loop_step) option" where
  \<comment> \<open>the connections that wait, each with the clock of its polls; after them \<open>accept\<close> would block\<close>
  "accept_clients ops aops len limit now [] l = Some (l, LoopGoesOn)"
| "accept_clients ops aops len limit now ((clock, reads) # waiting) l =
     Option.bind
       (accept_live_client ops aops clock (connection_name (ll_next_connection_id l)) now (ll_state l) reads)
       (\<lambda>(st, frames, r).
          let l1 = l\<lparr>ll_state := st, ll_answers := ll_answers l @ [frames]\<rparr> in
          case r of
            Inl e \<Rightarrow> Some (l1, LoopEnds (Inl e))
          | Inr AcceptShutdown \<Rightarrow> Some (l1, LoopEnds (Inl (LiveServe ServeSessionShutdown)))
          | Inr AcceptCommand \<Rightarrow>
              (let l2 = l1\<lparr>ll_accepted := ll_accepted l1 + 1\<rparr> in
               if accepts_more limit (ll_accepted l2) then accept_clients ops aops len limit now waiting l2
               else Some (l2, LoopGoesOn))
          | Inr (AcceptAttached c) \<Rightarrow>
              (case join_client ops len c l1 of
                 (l2, Inl e) \<Rightarrow> Some (l2, LoopEnds (Inl e))
               | (l2, Inr _) \<Rightarrow>
                   if accepts_more limit (ll_accepted l2) then accept_clients ops aops len limit now waiting l2
                   else Some (l2, LoopGoesOn)))"

subsection \<open>News from the clients\<close>

record client_news =
  \<comment> \<open>what happened to a client's transport since the last turn\<close>
  nw_events :: "client_input_event list"
  nw_reader_ended :: bool
  nw_reads :: "frame_read list"
  nw_writer_turns :: nat
  nw_hung_up :: bool

definition writer_takes :: "(envelope \<Rightarrow> usize) \<Rightarrow> envelope client_output \<Rightarrow> envelope client_output" where
  "writer_takes len output = (case recv_write_event len output of None \<Rightarrow> output | Some x \<Rightarrow> snd x)"

definition hear_news :: "(envelope \<Rightarrow> usize) \<Rightarrow> client_news \<Rightarrow> live_client \<Rightarrow> live_client" where
  "hear_news len news c =
     c\<lparr>lc_transport :=
       (case lc_transport c of
          LegacyTransport reads written \<Rightarrow> LegacyTransport (reads @ nw_reads news) written
        | AsyncTransport events ended output \<Rightarrow>
            (let output1 = (writer_takes len ^^ nw_writer_turns news) output in
             AsyncTransport (if ended then events else events @ nw_events news) (ended \<or> nw_reader_ended news)
               (output1\<lparr>co_receiver_gone := co_receiver_gone output1 \<or> nw_hung_up news\<rparr>)))\<rparr>"

record live_loop_env =
  ce_waiting :: "((nat \<Rightarrow> nat) \<times> frame_read list) list"
    \<comment> \<open>the connections that wait at the listener, if it is ready\<close>
  ce_news :: "ustring \<Rightarrow> client_news"
  ce_readable :: "nat list"
    \<comment> \<open>the clients that the poll found ready\<close>
  ce_host_ready :: bool
  ce_clock :: "nat \<Rightarrow> nat"
  ce_now :: u64

subsection \<open>What the clients have sent\<close>

definition mark_readable :: "nat list \<Rightarrow> live_client list \<Rightarrow> (bool \<times> live_client) list" where
  \<comment> \<open>a client on a socket that the poll missed is asked again\<close>
  "mark_readable ready clients =
     map (\<lambda>(i, c).
            if i \<in> set ready then (True, c)
            else case lc_transport c of
              AsyncTransport _ _ _ \<Rightarrow> (False, c)
            | LegacyTransport reads written \<Rightarrow>
                (case stream_readable reads of
                   (b, rest) \<Rightarrow> (b, c\<lparr>lc_transport := LegacyTransport rest written\<rparr>)))
       (enumerate 0 clients)"

record loop_drain =
  ld_had_input :: bool
  ld_input_pane_ids :: "ustring list"
  ld_resize_pane_ids :: "ustring list"
  ld_changed_workspace :: bool
  ld_updates :: "client_connection list"

definition loop_drain_new :: loop_drain where
  "loop_drain_new =
     \<lparr>ld_had_input = False, ld_input_pane_ids = [], ld_resize_pane_ids = [], ld_changed_workspace = False, ld_updates = []\<rparr>"

definition resize_keys :: "live_client \<Rightarrow> ustring list" where
  "resize_keys c = map fst (lc_frontend_resize_constraints c)"

definition note_drained :: "live_client \<Rightarrow> client_drain \<Rightarrow> loop_drain \<Rightarrow> (live_error, bool \<times> loop_drain) res" where
  \<comment> \<open>the match on the outcome: whether the client is to be closed, and what the turn has to do\<close>
  "note_drained c outcome d =
     (case outcome of
        DrainOpen ds \<Rightarrow>
          Inr (ds_close_after_drain ds,
            \<lparr>ld_had_input = ld_had_input d \<or> ds_had_input ds,
             ld_input_pane_ids = ld_input_pane_ids d @ ds_input_pane_ids ds,
             ld_resize_pane_ids = ld_resize_pane_ids d @ ds_frontend_resize_pane_ids ds,
             ld_changed_workspace = ld_changed_workspace d \<or> ds_changed_workspace ds,
             ld_updates = ld_updates d @ (if ds_had_input ds then [inventory_entry c] else [])\<rparr>)
      | DrainClosed \<Rightarrow> Inr (True, d\<lparr>ld_resize_pane_ids := ld_resize_pane_ids d @ resize_keys c\<rparr>)
      | DrainFails e \<Rightarrow>
          if is_socket_closed e then Inr (True, d\<lparr>ld_resize_pane_ids := ld_resize_pane_ids d @ resize_keys c\<rparr>)
          else Inl e)"

fun drain_clients ::
  "'s live_ops \<Rightarrow> bool \<Rightarrow> (envelope \<Rightarrow> usize) \<Rightarrow> u64 \<Rightarrow> (bool \<times> live_client) list \<Rightarrow> 's \<Rightarrow> loop_drain \<Rightarrow>
     ((live_client \<times> bool) list \<times> 's) \<times> (live_error, loop_drain) res" where
  \<comment> \<open>the clients with the mark of those to be closed\<close>
  "drain_clients ops refused_skips len now [] st d = (([], st), Inr d)"
| "drain_clients ops refused_skips len now ((readable, c) # cs) st d =
     (if \<not> readable then
        (case drain_clients ops refused_skips len now cs st d of ((rest, st1), r) \<Rightarrow> (((c, False) # rest, st1), r))
      else case drain_clients_frames ops refused_skips len now (c, st, drain_status_new) of
        ((c1, st1), outcome) \<Rightarrow>
          (case note_drained c1 outcome d of
             Inl e \<Rightarrow> (((c1, False) # map (\<lambda>x. (snd x, False)) cs, st1), Inl e)
           | Inr (closed, d1) \<Rightarrow>
               (case drain_clients ops refused_skips len now cs st1 d1 of
                  ((rest, st2), r) \<Rightarrow> (((c1, closed) # rest, st2), r))))"

definition closed_of :: "(live_client \<times> bool) list \<Rightarrow> live_client list" where
  "closed_of flagged = map fst (filter snd flagged)"

definition open_of :: "(live_client \<times> bool) list \<Rightarrow> live_client list" where
  "open_of flagged = map fst (filter (\<lambda>x. \<not> snd x) flagged)"

fun resize_all ::
  "'s live_ops \<Rightarrow> u64 \<Rightarrow> live_client list \<Rightarrow> 's \<Rightarrow> ustring list \<Rightarrow> bool \<Rightarrow> 's \<times> (live_error, bool) res" where
  "resize_all ops now clients st [] changed = (st, Inr changed)"
| "resize_all ops now clients st (k # ks) changed =
     and_then (apply_frontend_resize ops now clients st k) (\<lambda>st1 x. resize_all ops now clients st1 ks (changed \<or> x))"

definition loop_resize ::
  "'s live_ops \<Rightarrow> u64 \<Rightarrow> ustring list \<Rightarrow> bool \<Rightarrow> 's live_service \<Rightarrow> 's live_service \<times> (live_error, bool) res" where
  "loop_resize ops now ks changed l =
     (case resize_all ops now (ll_clients l) (ll_state l) ks changed of (st, r) \<Rightarrow> (l\<lparr>ll_state := st\<rparr>, r))"

definition after_drain ::
  "'s live_ops \<Rightarrow> (envelope \<Rightarrow> usize) \<Rightarrow> u64 \<Rightarrow> (live_client \<times> bool) list \<Rightarrow> loop_drain \<Rightarrow> 's live_service \<Rightarrow>
     's live_service \<times> (live_error, bool) res" where
  \<comment> \<open>panes are sized with the clients that leave and again without them; with whether the workspace has changed\<close>
  "after_drain ops len now flagged d l =
     and_then
       (loop_resize ops now (remdups_adj (sort (ld_resize_pane_ids d))) (ld_changed_workspace d)
          (l\<lparr>ll_clients := map fst flagged\<rparr>))
       (\<lambda>l1 changed1.
     and_then (publish_left ops len (map lc_connection_id (closed_of flagged)) (l1\<lparr>ll_clients := open_of flagged\<rparr>))
       (\<lambda>l2 _.
     and_then (loop_resize ops now (concat (map resize_keys (closed_of flagged))) changed1 l2)
       (\<lambda>l3 changed3.
     and_then
       (publish_updates ops len
          (filter (\<lambda>u. \<exists>c \<in> set (ll_clients l3). lc_connection_id c = cl_connection_id u) (ld_updates d)) l3)
       (\<lambda>l4 _. (l4, Inr changed3)))))"

subsection \<open>What the clients are told\<close>

definition tell_client ::
  "(envelope \<Rightarrow> usize) \<Rightarrow> session \<Rightarrow> ustring list \<Rightarrow> bool \<Rightarrow> live_client \<Rightarrow> live_client \<times> (live_error, unit) res" where
  "tell_client len s leafs changed_workspace c =
     and_then
       (if changed_workspace then queue_reliable_frame_to_live_client len c (workspace_tree_frame s local_client (lc_seq c))
        else (c, Inr ()))
       (\<lambda>c1 _. signal_changed_surface_frames_to_live_client len c1 s leafs)"

fun tell_clients ::
  "(live_client \<Rightarrow> live_client \<times> (live_error, unit) res) \<Rightarrow> (live_client \<Rightarrow> live_client \<times> bool) \<Rightarrow>
     (live_client \<times> bool) list \<Rightarrow> (live_client \<times> bool) list \<times> (live_error, unit) res" where
  \<comment> \<open>\<open>count\<close> counts the turn for a client that was told and says whether it is done\<close>
  "tell_clients tell count [] = ([], Inr ())"
| "tell_clients tell count ((c, closed) # cs) =
     (case tell c of
        (c1, Inl e) \<Rightarrow>
          if is_socket_closed e then with_first (c1, True) (tell_clients tell count cs) else ((c1, closed) # cs, Inl e)
      | (c1, Inr _) \<Rightarrow>
          (case count c1 of (c2, finished) \<Rightarrow> with_first (c2, closed \<or> finished) (tell_clients tell count cs)))"

definition count_turn :: "bool \<Rightarrow> bool \<Rightarrow> usize \<Rightarrow> live_client \<Rightarrow> live_client \<times> bool" where
  "count_turn counts host_output cycles c =
     (let completed = (if counts \<or> host_output \<and> ac_mode (lc_actor c) = AttachReadOnly
                       then sat_add_u64 (lc_completed_cycles c) 1 else lc_completed_cycles c)
      in (c\<lparr>lc_completed_cycles := completed\<rparr>, cycles \<le> completed))"

definition loop_host_error ::
  "'s live_ops \<Rightarrow> (envelope \<Rightarrow> usize) \<Rightarrow> host_error \<Rightarrow> 's live_service \<Rightarrow> 's live_service \<times> loop_step" where
  \<comment> \<open>every client is told, and the loop ends\<close>
  "loop_host_error ops len e l =
     (l\<lparr>ll_clients := map (\<lambda>c. fst (queue_host_output_error_to_live_client len (lo_error_text ops) c
          (lo_session ops (ll_state l)) (host_error_pane_id e) e)) (ll_clients l)\<rparr>,
      LoopEnds (Inr ()))"

definition end_turn ::
  "'s live_ops \<Rightarrow> (envelope \<Rightarrow> usize) \<Rightarrow> u64 \<Rightarrow> (live_client \<times> bool) list \<Rightarrow> 's live_service \<Rightarrow> 's live_service \<times> loop_step" where
  \<comment> \<open>clients that are gone or done are let go\<close>
  "end_turn ops len now flagged l =
     (case and_then
             (loop_resize ops now (concat (map resize_keys (closed_of flagged))) False (l\<lparr>ll_clients := open_of flagged\<rparr>))
             (\<lambda>l1 _. publish_left ops len (map lc_connection_id (closed_of flagged)) l1) of
        (l2, Inl e) \<Rightarrow> (l2, LoopEnds (Inl e))
      | (l2, Inr _) \<Rightarrow> (l2, LoopGoesOn))"

definition loop_settle ::
  "'s live_ops \<Rightarrow> bool \<Rightarrow> usize \<Rightarrow> (envelope \<Rightarrow> usize) \<Rightarrow> live_loop_env \<Rightarrow> ustring list \<Rightarrow> bool \<Rightarrow> bool \<Rightarrow> bool \<Rightarrow> bool \<Rightarrow>
     bool \<Rightarrow> (live_client \<times> bool) list \<Rightarrow> 's live_service \<Rightarrow> ('s live_service \<times> loop_step) option" where
  "loop_settle ops notifies cycles len env leafs hold had_input host_output changed_workspace fast_changed flagged l =
     Option.bind
       (if hold
        then poll_until_poll_quiet_state (lo_poll ops (ce_now env)) notifies (ce_clock env) leafs (ll_state l)
               LIVE_POST_INPUT_POLL_TIMEOUT False
        else if notifies then Some (ll_state l, Inr False)
        else poll_until_quiet (lo_poll ops (ce_now env)) (ce_clock env) leafs (ll_state l))
       (\<lambda>(st, r).
          let l1 = l\<lparr>ll_state := st, ll_clients := map fst flagged\<rparr> in
          case r of
            Inl e \<Rightarrow> Some (loop_host_error ops len e l1)
          | Inr changed \<Rightarrow>
              (case tell_clients (tell_client len (lo_session ops st) leafs changed_workspace)
                      (count_turn (had_input \<or> fast_changed \<or> changed \<or> changed_workspace) host_output cycles) flagged of
                 (flagged1, Inl e) \<Rightarrow> Some (l1\<lparr>ll_clients := map fst flagged1\<rparr>, LoopEnds (Inl e))
               | (flagged1, Inr _) \<Rightarrow> Some (end_turn ops len (ce_now env) flagged1 l1)))"

definition loop_output ::
  "'s live_ops \<Rightarrow> bool \<Rightarrow> usize \<Rightarrow> (envelope \<Rightarrow> usize) \<Rightarrow> live_loop_env \<Rightarrow> loop_drain \<Rightarrow> bool \<Rightarrow> 's live_service \<Rightarrow>
     ('s live_service \<times> loop_step) option" where
  "loop_output ops notifies cycles len env d changed_workspace l =
     (let leafs = leaf_pane_ids (lo_session ops (ll_state l)); had_input = ld_had_input d;
          host_output = (notifies \<and> ce_host_ready env); hold = (had_input \<and> cycles \<noteq> U64_MAX \<and> notifies) in
      Option.bind
        (if had_input \<or> host_output
         then poll_once (lo_poll ops (ce_now env)) (ll_state l) leafs (ld_input_pane_ids d)
         else Some (ll_state l, Inr False))
        (\<lambda>(st, r).
           let l1 = l\<lparr>ll_state := st\<rparr>; flagged = map (\<lambda>c. (c, False)) (ll_clients l);
               settle = loop_settle ops notifies cycles len env leafs hold had_input host_output in
           case r of
             Inl e \<Rightarrow> Some (loop_host_error ops len e l1)
           | Inr fast_changed \<Rightarrow>
               if fast_changed \<and> \<not> hold then
                 (case tell_clients (tell_client len (lo_session ops st) leafs changed_workspace) (\<lambda>c. (c, False)) flagged of
                    (flagged1, Inl e) \<Rightarrow> Some (l1\<lparr>ll_clients := map fst flagged1\<rparr>, LoopEnds (Inl e))
                  | (flagged1, Inr _) \<Rightarrow> settle False fast_changed flagged1 l1)
               else settle changed_workspace fast_changed flagged l1))"

definition loop_turn ::
  "'s live_ops \<Rightarrow> 's accept_ops \<Rightarrow> bool \<Rightarrow> bool \<Rightarrow> connection_limit \<Rightarrow> usize \<Rightarrow> (envelope \<Rightarrow> usize) \<Rightarrow> live_loop_env \<Rightarrow>
     's live_service \<Rightarrow> ('s live_service \<times> loop_step) option" where
  "loop_turn ops aops refused_skips notifies limit cycles len env l =
     (let l0 = l\<lparr>ll_clients := map (\<lambda>c. hear_news len (ce_news env (lc_connection_id c)) c) (ll_clients l)\<rparr> in
      Option.bind
        (if accepts_more limit (ll_accepted l0) then accept_clients ops aops len limit (ce_now env) (ce_waiting env) l0
         else Some (l0, LoopGoesOn))
        (\<lambda>(l1, x).
           case x of
             LoopEnds r \<Rightarrow> Some (l1, LoopEnds r)
           | LoopGoesOn \<Rightarrow>
               (case drain_clients ops refused_skips len (ce_now env) (mark_readable (ce_readable env) (ll_clients l1))
                       (ll_state l1) loop_drain_new of
                  ((flagged, st), Inl e) \<Rightarrow>
                    Some (l1\<lparr>ll_state := st, ll_clients := map fst flagged\<rparr>, LoopEnds (Inl e))
                | ((flagged, st), Inr d) \<Rightarrow>
                    (case after_drain ops len (ce_now env) flagged d (l1\<lparr>ll_state := st\<rparr>) of
                       (l2, Inl e) \<Rightarrow> Some (l2, LoopEnds (Inl e))
                     | (l2, Inr changed) \<Rightarrow> loop_output ops notifies cycles len env d changed l2))))"

fun live_clients_loop ::
  "'s live_ops \<Rightarrow> 's accept_ops \<Rightarrow> bool \<Rightarrow> bool \<Rightarrow> connection_limit \<Rightarrow> usize \<Rightarrow> (envelope \<Rightarrow> usize) \<Rightarrow> live_loop_env list \<Rightarrow>
     's live_service \<Rightarrow> ('s live_service \<times> (live_error, unit) res option) option" where
  \<comment> \<open>as many turns as there are environments; \<open>None\<close> in the result: the loop goes on after them\<close>
  "live_clients_loop ops aops refused_skips notifies limit cycles len [] l =
     Some (l, if accepts_more limit (ll_accepted l) \<or> ll_clients l \<noteq> [] then None else Some (Inr ()))"
| "live_clients_loop ops aops refused_skips notifies limit cycles len (env # envs) l =
     (if accepts_more limit (ll_accepted l) \<or> ll_clients l \<noteq> [] then
        (case loop_turn ops aops refused_skips notifies limit cycles len env l of
           None \<Rightarrow> None
         | Some (l1, LoopEnds r) \<Rightarrow> Some (l1, Some r)
         | Some (l1, LoopGoesOn) \<Rightarrow>
             live_clients_loop ops aops refused_skips notifies limit cycles len envs l1)
      else Some (l, Some (Inr ())))"

definition live_loop_start :: "'s \<Rightarrow> 's live_service" where
  "live_loop_start st =
     \<lparr>ll_state = st, ll_clients = [], ll_accepted = 0, ll_inventory_version = 0, ll_next_connection_id = 1, ll_answers = []\<rparr>"

definition serve_live_concurrent_n_with_host_and_engines where
  "serve_live_concurrent_n_with_host_and_engines eops ops notifies limit cycles len envs st =
     live_clients_loop (direct_live eops ops) (direct_accept eops ops) False notifies limit cycles len envs (live_loop_start st)"

definition serve_live_concurrent_n_with_session_actor where
  "serve_live_concurrent_n_with_session_actor eops ops notifies limit cycles len envs st =
     live_clients_loop (actor_live eops ops) (actor_accept eops ops) True notifies limit cycles len envs (live_loop_start st)"

subsection \<open>The clients keep their bounds and their names\<close>

definition same_client :: "(envelope \<Rightarrow> usize) \<Rightarrow> live_client \<Rightarrow> live_client \<Rightarrow> bool" where
  \<comment> \<open>the same connection of the same user, its queue still within its bounds\<close>
  "same_client len c c' \<longleftrightarrow> lc_connection_id c' = lc_connection_id c \<and> lc_actor c' = lc_actor c \<and>
     (client_queue_ok len c \<longrightarrow> client_queue_ok len c')"

definition clients_ok :: "(envelope \<Rightarrow> usize) \<Rightarrow> u64 \<Rightarrow> live_client list \<Rightarrow> bool" where
  \<comment> \<open>every queue keeps its bounds, and no two clients have the same id, of those given out so far\<close>
  "clients_ok len n cs \<longleftrightarrow> list_all (client_queue_ok len) cs \<and> distinct (map lc_connection_id cs) \<and>
     lc_connection_id ` set cs \<subseteq> connection_name ` {..<n}"

lemma same_client_refl [simp]: "same_client len c c" by (simp add: same_client_def)

lemma same_client_trans: "same_client len a b \<Longrightarrow> same_client len b c \<Longrightarrow> same_client len a c"
  by (auto simp: same_client_def)

lemma connection_name_inj [simp]: "connection_name m = connection_name n \<longleftrightarrow> m = n"
  by (simp add: connection_name_def dec_str_inj)

lemma clients_ok_names: "connection_name n \<notin> lc_connection_id ` set cs" if "clients_ok len n cs"
  using that by (auto simp: clients_ok_def)

lemma clients_ok_empty [simp]: "clients_ok len n []" by (simp add: clients_ok_def)

lemma clients_ok_same:
  assumes "clients_ok len n cs" and "list_all2 (same_client len) cs cs'" shows "clients_ok len n cs'"
proof -
  have "map lc_connection_id cs' = map lc_connection_id cs \<and>
      (list_all (client_queue_ok len) cs \<longrightarrow> list_all (client_queue_ok len) cs')"
    using assms(2) by (induction rule: list_all2_induct) (auto simp: same_client_def)
  with assms(1) show ?thesis unfolding clients_ok_def by (metis list.set_map)
qed

lemma clients_ok_some:
  assumes "clients_ok len n (map fst flagged)"
  shows "clients_ok len n (open_of flagged)"
  using assms distinct_map_filter [of "\<lambda>x. lc_connection_id (fst x)" flagged "\<lambda>x. \<not> snd x"]
  by (auto simp: clients_ok_def open_of_def list_all_iff comp_def image_subset_iff)

lemma clients_ok_join:
  assumes "clients_ok len n cs" and "client_queue_ok len c" and "lc_connection_id c = connection_name n"
  shows "clients_ok len (n + 1) (cs @ [c])"
  using assms clients_ok_names [OF assms(1)] by (auto simp: clients_ok_def)

lemma same_queue [simp]: "same_client len c (fst (queue_reliable_frame_to_live_client len c frame))"
  using queue_result [of len c frame] by (auto simp: same_client_def intro: prod.collapse [symmetric])

lemma same_queues [simp]:
  "same_client len c (fst (queue_protocol_error_to_live_client len c s code message k n))"
  "same_client len c (fst (queue_pane_not_found_error_to_live_client len c s p n))"
  "same_client len c (fst (queue_scrollback_fetch_error_to_live_client len c s f code))"
  "same_client len c (fst (queue_pong_frame_to_live_client len c s ping))"
  "same_client len c (fst (queue_host_output_error_to_live_client len text c s p e))"
  "same_client len c (fst (write_presence_to_live_client len c s actor))"
  "same_client len c (fst (write_client_inventory_snapshot_to_client len c s v cs))"
  by (simp_all add: queue_protocol_error_to_live_client_def queue_pane_not_found_error_to_live_client_def
      queue_scrollback_fetch_error_to_live_client_def queue_pong_frame_to_live_client_def
      queue_host_output_error_to_live_client_def write_presence_to_live_client_def
      write_client_inventory_snapshot_to_client_def split: option.split)

lemma same_fields [simp]:
  "same_client len c (c'\<lparr>lc_last_seen_mono_ms := n\<rparr>) = same_client len c c'"
  "same_client len c (c'\<lparr>lc_last_input_mono_ms := m\<rparr>) = same_client len c c'"
  "same_client len c (c'\<lparr>lc_frontend_resize_constraints := x\<rparr>) = same_client len c c'"
  "same_client len c (c'\<lparr>lc_completed_cycles := k\<rparr>) = same_client len c c'"
  "same_client len (c\<lparr>lc_last_seen_mono_ms := n\<rparr>) c' = same_client len c c'"
  "same_client len (c\<lparr>lc_last_input_mono_ms := m\<rparr>) c' = same_client len c c'"
  by (simp_all add: same_client_def)

lemma same_signal [simp]: "same_client len c (fst (signal_changed_surface_frames_to_live_client len c s ks))"
  using signal_changed_ok [of len c s ks]
  by (auto simp: same_client_def signal_changed_surface_frames_to_live_client_def split: live_transport.split prod.split)

lemma same_read [simp]: "same_client len c (fst (read_live_client_frame c))"
  using read_client_keeps(1) [of len c]
  by (auto simp: same_client_def read_live_client_frame_def split: live_transport.split list.split prod.split)

lemma same_more [simp]: "same_client len c (snd (live_client_has_more_input c))"
  using more_input_keeps(1) [of len c]
  by (auto simp: same_client_def live_client_has_more_input_def split: live_transport.split prod.split)

lemma same_forward [simp]: "same_client len c (fst (forward_live_input ops len now c st i))"
  by (simp add: forward_live_input_def Let_def case_prod_beta split: sum.split option.split)

lemma same_drain_frame: "same_client len (fst d) (fst (fst (drain_frame ops b len now d f)))"
proof -
  have fetch: "same_client len c (fst (drain_fetch len c s g))" for c s g
    by (simp add: drain_fetch_def Let_def split: option.split)
  have resize: "same_client len (fst e) (fst (fst (drain_resize ops b len now e r)))" for e r
    by (simp add: drain_resize_def Let_def case_prod_beta split: sum.split)
  have input_same: "same_client len (fst e) (fst (fst (drain_input ops len now e i)))" for e i
    using same_forward [of len "fst e" ops now "fst (snd e)" i] by (auto simp: drain_input_def case_prod_beta split: sum.split)
  show ?thesis
    using fetch [of "fst d\<lparr>lc_last_seen_mono_ms := now\<rparr>"] resize [of "(fst d\<lparr>lc_last_seen_mono_ms := now\<rparr>, snd d)"]
      input_same [of "(fst d\<lparr>lc_last_seen_mono_ms := now, lc_last_input_mono_ms := Some now\<rparr>, snd d)"]
    by (simp add: drain_frame_def Let_def case_prod_beta split: live_client_frame.split)
      (metis (no_types, lifting) same_fields(5) same_queues(4))
qed

lemma same_drain: "same_client len (fst d) (fst (fst (drain_clients_frames ops b len now d)))"
proof (induction "input_left (fst d)" arbitrary: d rule: less_induct)
  case less
  obtain c st ds where d: "d = (c, st, ds)" by (cases d)
  obtain c1 r where read: "read_live_client_frame c = (c1, r)" by fastforce
  have c1: "same_client len c c1" using same_read [of len c] read by simp
  note unfold = drain_clients_frames.simps [of ops b len now "(c, st, ds)"] d read
  show ?case
  proof (cases "\<exists>f. r = Inr (ClientFrame f)")
    case False
    with c1 show ?thesis by (auto simp: unfold split: sum.splits live_client_read.splits)
  next
    case True
    then obtain f where f: "r = Inr (ClientFrame f)" by blast
    obtain c2 st2 ds2 x where fr: "drain_frame ops b len now (c1, st, ds) f = ((c2, st2, ds2), x)"
      by (metis prod_cases4 prod.collapse)
    have c2: "same_client len c c2"
      using same_drain_frame [of len "(c1, st, ds)" ops b now f] fr same_client_trans [OF c1] by simp
    obtain ready c3 where more: "live_client_has_more_input c2 = (ready, c3)" by fastforce
    have c3: "same_client len c c3" using same_more [of len c2] more same_client_trans [OF c2] by simp
    note read' = read [unfolded f]
    have s2: "input_left (fst (c2, st2, ds2)) < input_left (fst d)" using drain_turn_shorter [OF read' fr] d by simp
    have s3: "input_left (fst (c3, st2, ds2)) < input_left (fst d)" using drain_more_shorter [OF read' fr more] d by simp
    show ?thesis
    proof (cases x)
      case DrainNext
      with less.hyps [OF s3] c3 same_client_trans [OF c3] show ?thesis by (cases ready) (simp_all add: unfold f fr more)
    next
      case DrainSkips
      with less.hyps [OF s2] same_client_trans [OF c2] show ?thesis by (simp add: unfold f fr)
    next
      case (DrainStops y)
      with c2 show ?thesis by (simp add: unfold f fr)
    qed
  qed
qed

lemma same_patch: "list_all2 (same_client len) cs (fst (patch_subscribers len frame cs))"
proof (induction cs)
  case (Cons c cs)
  obtain c1 r where q: "queue_reliable_frame_to_live_client len c (frame (lc_seq c)) = (c1, r)" by fastforce
  have "same_client len c c1" using same_queue [of len c "frame (lc_seq c)"] q by simp
  with Cons q show ?case by (cases r) (auto simp: with_first_def list.rel_refl)
qed simp

lemma same_patches: "list_all2 (same_client len) cs (fst (write_client_inventory_patch_to_subscribers len cs s patch))"
  using same_patch by (simp add: write_client_inventory_patch_to_subscribers_def list.rel_refl)

lemma writer_takes_ok:
  assumes "output_ok len o1 \<and> \<not> co_sender_gone o1"
  shows "output_ok len ((writer_takes len ^^ n) o1) \<and> \<not> co_sender_gone ((writer_takes len ^^ n) o1)"
proof (induction n)
  case (Suc n)
  let ?o = "(writer_takes len ^^ n) o1"
  have "co_sender_gone o2 = co_sender_gone ?o" if "recv_write_event len ?o = Some (ev, o2)" for ev o2
    using recv_cases [OF conjunct1 [OF Suc]] that by (auto split: list.splits if_splits)
  with Suc recv_ok [of len ?o] have "output_ok len (writer_takes len ?o) \<and> \<not> co_sender_gone (writer_takes len ?o)"
    unfolding writer_takes_def [of len ?o] by (auto split: option.split)
  then show ?case by simp
qed (use assms in simp)

lemma gone_receiver_ok [simp]: "output_ok len (o1\<lparr>co_receiver_gone := b\<rparr>) = output_ok len o1"
  by (simp add: output_ok_def)

lemma same_news: "same_client len c (hear_news len news c)"
proof (cases "lc_transport c")
  case (AsyncTransport events ended out0)
  with writer_takes_ok [of len out0 "nw_writer_turns news"] show ?thesis
    by (simp add: same_client_def hear_news_def client_queue_ok_def Let_def gone_receiver_ok)
qed (simp add: same_client_def hear_news_def client_queue_ok_def)

lemma same_marks: "list_all2 (same_client len) cs (map snd (mark_readable ready cs))"
  by (auto simp: mark_readable_def list_all2_conv_all_nth nth_enumerate_eq same_client_def client_queue_ok_def case_prod_beta
      split: live_transport.split)

lemma same_tell: "same_client len c (fst (tell_client len s leafs changed c))"
proof -
  obtain c1 r where q: "(if changed then queue_reliable_frame_to_live_client len c (workspace_tree_frame s local_client (lc_seq c))
      else (c, Inr ())) = (c1, r :: (live_error, unit) res)" by fastforce
  have "same_client len c c1"
    using q by (metis fst_conv same_queue same_client_refl)
  from same_client_trans [OF this same_signal] this q show ?thesis
    by (simp add: tell_client_def and_then_def split: sum.split)
qed

lemma same_tells:
  assumes "\<And>c. same_client len c (fst (tell c))" and "\<And>c. same_client len c (fst (count c))"
  shows "list_all2 (same_client len) (map fst flagged) (map fst (fst (tell_clients tell count flagged)))"
proof (induction flagged)
  case (Cons x flagged)
  obtain c closed where x: "x = (c, closed)" by fastforce
  obtain c1 r where t: "tell c = (c1, r)" by fastforce
  obtain c2 f where n: "count c1 = (c2, f)" by fastforce
  have "same_client len c c1" "same_client len c c2"
    using assms(1) [of c] assms(2) [of c1] t n same_client_trans by fastforce+
  with Cons x t n show ?case by (cases r) (auto simp: with_first_def list.rel_refl)
qed simp

lemma same_count: "same_client len c (fst (count_turn counts host cycles c))"
  by (simp add: count_turn_def Let_def)

context live_session
begin

lemma drains_kept:
  assumes "kept s st" and "list_all (client_queue_ok len) (map snd cs)"
  shows "kept s (snd (fst (drain_clients ops b len now cs st d))) \<and>
    list_all2 (same_client len) (map snd cs) (map fst (fst (fst (drain_clients ops b len now cs st d))))"
  using assms
proof (induction cs arbitrary: st d)
  case (Cons x cs)
  obtain readable c where x: "x = (readable, c)" by fastforce
  show ?case
  proof (cases readable)
    case False
    with Cons x show ?thesis by (auto simp: case_prod_beta)
  next
    case True
    obtain c1 st1 y where dr: "drain_clients_frames ops b len now (c, st, drain_status_new) = ((c1, st1), y)"
      by (metis prod.collapse)
    have k: "kept s st1" and c: "same_client len c c1"
      using drain_kept [of s "(c, st, drain_status_new)" len b now] same_drain [of len "(c, st, drain_status_new)" ops b now]
        Cons.prems dr x by simp_all
    have rest: "list_all (client_queue_ok len) (map snd cs)" using Cons.prems(2) by simp
    have refl: "list_all2 (same_client len) (map snd cs) (map (fst \<circ> (\<lambda>x. (snd x, False))) cs)"
      by (simp add: list_all2_map1 list_all2_map2 list.rel_refl)
    note ih = Cons.IH [OF k rest]
    show ?thesis
    proof (cases "note_drained c1 y d")
      case (Inl e)
      with True x dr k c refl show ?thesis by simp
    next
      case (Inr z)
      obtain closed d1 where "z = (closed, d1)" by fastforce
      with True x dr c Inr ih [of d1] show ?thesis by (simp add: case_prod_beta)
    qed
  qed
qed simp

lemma resizes_kept: "kept s st \<Longrightarrow> kept s (fst (resize_all ops now clients st ks changed))"
proof (induction ks arbitrary: st changed)
  case (Cons k ks)
  obtain st1 r where "apply_frontend_resize ops now clients st k = (st1, r)" by fastforce
  with apply_resize_kept [OF Cons.prems, of now clients k] Cons.IH show ?case
    by (simp add: and_then_def split: sum.split)
qed simp

end

subsection \<open>Every turn returns\<close>

lemma and_then_keeps:
  assumes "and_then x f = (l', r)" and "\<And>l1 y. x = (l1, y) \<Longrightarrow> P l1"
    and "\<And>l1 y a. x = (l1, y) \<Longrightarrow> f l1 a = (l', r) \<Longrightarrow> P l'"
  shows "P l'"
  using assms by (auto simp: and_then_def split: prod.splits sum.splits)

lemma publish_result:
  assumes "publish_patch ops len joined updated left l = (l', r)"
  shows "\<exists>cs v. l' = l\<lparr>ll_clients := cs, ll_inventory_version := v\<rparr> \<and> list_all2 (same_client len) (ll_clients l) cs"
  using assms same_patches
  by (auto simp: publish_patch_def split: prod.splits) (metis fst_conv)

lemma publishes_result:
  "publish_left ops len left l = (l', r) \<Longrightarrow>
     \<exists>cs v. l' = l\<lparr>ll_clients := cs, ll_inventory_version := v\<rparr> \<and> list_all2 (same_client len) (ll_clients l) cs"
  "publish_updates ops len updates l = (l', r) \<Longrightarrow>
     \<exists>cs v. l' = l\<lparr>ll_clients := cs, ll_inventory_version := v\<rparr> \<and> list_all2 (same_client len) (ll_clients l) cs"
proof -
  have refl: "\<exists>cs v. l = l\<lparr>ll_clients := cs, ll_inventory_version := v\<rparr> \<and> list_all2 (same_client len) (ll_clients l) cs"
    by (rule exI [of _ "ll_clients l"], rule exI [of _ "ll_inventory_version l"]) (simp add: list.rel_refl)
  show "publish_left ops len left l = (l', r) \<Longrightarrow>
     \<exists>cs v. l' = l\<lparr>ll_clients := cs, ll_inventory_version := v\<rparr> \<and> list_all2 (same_client len) (ll_clients l) cs"
    using refl publish_result [of ops len "[]" "[]" left l l' r] by (auto simp: publish_left_def split: if_splits)
  show "publish_updates ops len updates l = (l', r) \<Longrightarrow>
     \<exists>cs v. l' = l\<lparr>ll_clients := cs, ll_inventory_version := v\<rparr> \<and> list_all2 (same_client len) (ll_clients l) cs"
    using refl publish_result [of ops len "[]" updates "[]" l l' r] by (auto simp: publish_updates_def split: if_splits)
qed

definition loop_kept :: "'s live_ops \<Rightarrow> ('s \<Rightarrow> bool) \<Rightarrow> (envelope \<Rightarrow> usize) \<Rightarrow> session \<Rightarrow> 's live_service \<Rightarrow> bool" where
  "loop_kept ops good len s l \<longleftrightarrow>
     live_kept ops good s (ll_state l) \<and> clients_ok len (ll_next_connection_id l) (ll_clients l)"

lemma presence_folds_same: "same_client len c (foldl (\<lambda>c e. fst (write_presence_to_live_client len c s (a e))) c es)"
proof (induction es arbitrary: c)
  case (Cons e es)
  show ?case using same_client_trans [OF same_queues(6) Cons.IH] by simp
qed simp

lemma join_result:
  assumes "join_client ops len c l = (l', r)" and "clients_ok len (ll_next_connection_id l) (ll_clients l)"
    and "client_queue_ok len c" and "lc_connection_id c = connection_name (ll_next_connection_id l)"
  shows "ll_state l' = ll_state l \<and> clients_ok len (ll_next_connection_id l') (ll_clients l')"
proof -
  let ?s = "lo_session ops (ll_state l)" and ?n = "ll_next_connection_id l"
  let ?l0 = "l\<lparr>ll_accepted := ll_accepted l + 1, ll_next_connection_id := ?n + 1,
    ll_clients := map (\<lambda>e. fst (write_presence_to_live_client len e ?s (lc_actor c))) (ll_clients l)\<rparr>"
  obtain l1 x where p: "publish_patch ops len [inventory_entry c] [] [] ?l0 = (l1, x)" by fastforce
  obtain cs v where l1: "l1 = ?l0\<lparr>ll_clients := cs, ll_inventory_version := v\<rparr>"
    "list_all2 (same_client len) (ll_clients ?l0) cs" using publish_result [OF p] by blast
  have "list_all2 (same_client len) (ll_clients l) (ll_clients ?l0)" by (simp add: list_all2_map2 list.rel_refl)
  then have cs: "clients_ok len ?n cs" using clients_ok_same [OF clients_ok_same [OF assms(2)] l1(2)] by blast
  then have next_ok: "clients_ok len (?n + 1) cs" by (auto simp: clients_ok_def)
  let ?c1 = "foldl (\<lambda>c e. fst (write_presence_to_live_client len c ?s (lc_actor e))) c (ll_clients l)"
  obtain c2 y where snap: "write_client_inventory_snapshot_to_client len ?c1 ?s (ll_inventory_version l1)
      (map inventory_entry (ll_clients l1 @ [?c1])) = (c2, y)" by fastforce
  have "same_client len ?c1 c2" using same_queues(7) snap by (metis fst_conv)
  then have "same_client len c c2" using same_client_trans [OF presence_folds_same] by blast
  then have join: "clients_ok len (?n + 1) (cs @ [c2])"
    using clients_ok_join [OF cs, of c2] assms(3,4) by (simp add: same_client_def)
  show ?thesis
  proof (cases x)
    case (Inl e)
    with assms(1) p l1 next_ok show ?thesis by (auto simp: join_client_def Let_def and_then_def)
  next
    case (Inr u)
    with assms(1) p l1 snap join show ?thesis by (auto simp: join_client_def Let_def and_then_def)
  qed
qed

context live_session
begin

abbreviation looped :: "(envelope \<Rightarrow> usize) \<Rightarrow> session \<Rightarrow> 's live_service \<Rightarrow> bool" where
  "looped \<equiv> loop_kept ops good"

lemma looped_clients:
  "looped len s l \<Longrightarrow> list_all2 (same_client len) (ll_clients l) cs \<Longrightarrow> looped len s (l\<lparr>ll_clients := cs\<rparr>)"
  "looped len s l \<Longrightarrow> list_all2 (same_client len) (ll_clients l) cs \<Longrightarrow>
     looped len s (l\<lparr>ll_clients := cs, ll_inventory_version := v\<rparr>)"
  "looped len s l \<Longrightarrow> kept s st \<Longrightarrow> looped len s (l\<lparr>ll_state := st\<rparr>)"
  "looped len s (l\<lparr>ll_clients := map fst flagged\<rparr>) \<Longrightarrow> looped len s (l\<lparr>ll_clients := open_of flagged\<rparr>)"
  using clients_ok_same clients_ok_some by (auto simp: loop_kept_def)

lemma publishes_looped:
  assumes "looped len s l"
  shows "publish_left ops len left l = (l', r) \<Longrightarrow> looped len s l'"
    and "publish_updates ops len updates l = (l', r) \<Longrightarrow> looped len s l'"
  using publishes_result looped_clients(2) [OF assms] by blast+

lemma loop_resize_looped: "looped len s l \<Longrightarrow> loop_resize ops now ks changed l = (l', r) \<Longrightarrow> looped len s l'"
  using resizes_kept [of s "ll_state l" now "ll_clients l" ks changed] looped_clients(3) [of len s l]
  by (auto simp: loop_resize_def loop_kept_def split: prod.splits)

lemma after_drain_looped:
  assumes l: "looped len s (l\<lparr>ll_clients := map fst flagged\<rparr>)" and "after_drain ops len now flagged d l = (l', r)"
  shows "looped len s l'"
proof -
  have reopened: "looped len s (l1\<lparr>ll_clients := open_of flagged\<rparr>)"
    if "loop_resize ops now ks changed (l\<lparr>ll_clients := map fst flagged\<rparr>) = (l1, x)" for ks changed l1 x
  proof -
    have "looped len s l1" using loop_resize_looped [OF l that] .
    moreover have "l1 = l1\<lparr>ll_clients := map fst flagged\<rparr>" using that by (auto simp: loop_resize_def split: prod.splits)
    ultimately show ?thesis using looped_clients(4) by metis
  qed
  from assms(2) show ?thesis
    unfolding after_drain_def
  proof (rule and_then_keeps)
    fix l1 x assume r1: "loop_resize ops now (remdups_adj (sort (ld_resize_pane_ids d))) (ld_changed_workspace d)
        (l\<lparr>ll_clients := map fst flagged\<rparr>) = (l1, x)"
    then show "looped len s l1" by (rule loop_resize_looped [OF l])
    fix changed1
    assume "and_then (publish_left ops len (map lc_connection_id (closed_of flagged)) (l1\<lparr>ll_clients := open_of flagged\<rparr>))
       (\<lambda>l2 _. and_then (loop_resize ops now (concat (map resize_keys (closed_of flagged))) changed1 l2)
       (\<lambda>l3 changed3. and_then
         (publish_updates ops len
            (filter (\<lambda>u. \<exists>c \<in> set (ll_clients l3). lc_connection_id c = cl_connection_id u) (ld_updates d)) l3)
         (\<lambda>l4 _. (l4, Inr changed3)))) = (l', r)"
    then show "looped len s l'"
    proof (rule and_then_keeps)
      fix l2 y assume "publish_left ops len (map lc_connection_id (closed_of flagged)) (l1\<lparr>ll_clients := open_of flagged\<rparr>) = (l2, y)"
      then show l2: "looped len s l2" by (rule publishes_looped(1) [OF reopened [OF r1]])
      assume "and_then (loop_resize ops now (concat (map resize_keys (closed_of flagged))) changed1 l2)
        (\<lambda>l3 changed3. and_then
          (publish_updates ops len
             (filter (\<lambda>u. \<exists>c \<in> set (ll_clients l3). lc_connection_id c = cl_connection_id u) (ld_updates d)) l3)
          (\<lambda>l4 _. (l4, Inr changed3))) = (l', r)"
      then show "looped len s l'"
        by (rule and_then_keeps, use loop_resize_looped [OF l2] in blast)
          (erule and_then_keeps, auto dest: publishes_looped(2) [OF loop_resize_looped [OF l2]])
    qed
  qed
qed

lemma end_turn_looped:
  assumes l: "looped len s (l\<lparr>ll_clients := map fst flagged\<rparr>)" and "end_turn ops len now flagged l = (l', x)"
  shows "looped len s l'"
proof -
  obtain l2 r where a: "and_then
      (loop_resize ops now (concat (map resize_keys (closed_of flagged))) False (l\<lparr>ll_clients := open_of flagged\<rparr>))
      (\<lambda>l1 _. publish_left ops len (map lc_connection_id (closed_of flagged)) l1) = (l2, r)" by fastforce
  have "looped len s (l\<lparr>ll_clients := open_of flagged\<rparr>)" using looped_clients(4) [OF l] by simp
  note r1 = loop_resize_looped [OF this]
  have "looped len s l2" using a by (rule and_then_keeps) (auto dest: r1 publishes_looped(1) [OF r1])
  with a assms(2) show ?thesis by (auto simp: end_turn_def split: sum.splits)
qed

lemma host_error_looped: "looped len s l \<Longrightarrow> looped len s (fst (loop_host_error ops len e l))"
  by (auto simp: loop_host_error_def list_all2_map2 list.rel_refl intro!: looped_clients(1))

lemma loop_settle_ends:
  assumes l: "looped len s (l\<lparr>ll_clients := map fst flagged\<rparr>)"
    and clock: "clock_passes LIVE_POST_INPUT_COALESCE_DEADLINE (ce_clock env)"
  shows "\<exists>l' x. loop_settle ops notifies cycles len env leafs hold had host changed fast flagged l = Some (l', x) \<and>
    looped len s l'"
proof -
  let ?poll = "lo_poll ops (ce_now env)"
  have k: "kept s (ll_state l)" using l by (simp add: loop_kept_def)
  obtain st r where polled: "(if hold then poll_until_poll_quiet_state ?poll notifies (ce_clock env) leafs (ll_state l)
        LIVE_POST_INPUT_POLL_TIMEOUT False
      else if notifies then Some (ll_state l, Inr False) else poll_until_quiet ?poll (ce_clock env) leafs (ll_state l)) =
      Some (st, r)" "kept s st"
    using polls_end(3) [OF k clock, of "ce_now env" leafs] k
      polls_end(4) [OF k clock, of "ce_now env" notifies leafs LIVE_POST_INPUT_POLL_TIMEOUT False]
    by (cases hold; cases notifies) fastforce+
  let ?l1 = "l\<lparr>ll_state := st, ll_clients := map fst flagged\<rparr>"
  have l1: "looped len s ?l1" using l polled(2) by (simp add: loop_kept_def)
  show ?thesis
  proof (cases r)
    case (Inl e)
    with polled(1) host_error_looped [OF l1, of e] show ?thesis
      unfolding loop_settle_def by (cases "loop_host_error ops len e ?l1") simp
  next
    case (Inr ch)
    let ?tell = "tell_client len (lo_session ops st) leafs changed"
      and ?count = "count_turn (had \<or> fast \<or> ch \<or> changed) host cycles"
    obtain flagged1 y where t: "tell_clients ?tell ?count flagged = (flagged1, y)" by fastforce
    have "list_all2 (same_client len) (map fst flagged) (map fst flagged1)"
      using same_tells [of len ?tell ?count flagged] t same_tell same_count by simp
    then have l2: "looped len s (?l1\<lparr>ll_clients := map fst flagged1\<rparr>)" using looped_clients(1) [OF l1] by simp
    obtain l3 z where en: "end_turn ops len (ce_now env) flagged1 ?l1 = (l3, z)" by fastforce
    show ?thesis
      using polled(1) Inr t l2 en end_turn_looped [OF l2 en] unfolding loop_settle_def by (cases y) simp_all
  qed
qed

lemma loop_output_ends:
  assumes l: "looped len s l" and clock: "clock_passes LIVE_POST_INPUT_COALESCE_DEADLINE (ce_clock env)"
  shows "\<exists>l' x. loop_output ops notifies cycles len env d changed l = Some (l', x) \<and> looped len s l'"
proof -
  let ?poll = "lo_poll ops (ce_now env)" and ?had = "ld_had_input d" and ?leafs = "leaf_pane_ids (lo_session ops (ll_state l))"
  let ?host = "notifies \<and> ce_host_ready env" and ?hold = "ld_had_input d \<and> cycles \<noteq> U64_MAX \<and> notifies"
  have k: "kept s (ll_state l)" using l by (simp add: loop_kept_def)
  obtain st r where polled: "(if ?had \<or> ?host then poll_once ?poll (ll_state l) ?leafs (ld_input_pane_ids d)
      else Some (ll_state l, Inr False)) = Some (st, r)" "kept s st"
    using polls_end(2) [OF k, of "ce_now env" ?leafs "ld_input_pane_ids d"] k by (cases "?had \<or> ?host") fastforce+
  let ?l1 = "l\<lparr>ll_state := st\<rparr>" and ?flagged = "map (\<lambda>c. (c, False)) (ll_clients l)"
  have l1: "looped len s ?l1" using looped_clients(3) [OF l polled(2)] .
  have same: "map fst ?flagged = ll_clients ?l1" by (simp add: comp_def)
  show ?thesis
  proof (cases r)
    case (Inl e)
    with polled(1) host_error_looped [OF l1, of e] show ?thesis
      unfolding loop_output_def Let_def by (cases "loop_host_error ops len e ?l1") simp
  next
    case (Inr fast)
    let ?tell = "tell_client len (lo_session ops st) ?leafs changed" and ?count = "\<lambda>c. (c, False)"
    obtain flagged1 y where t: "tell_clients ?tell ?count ?flagged = (flagged1, y)" by fastforce
    have "list_all2 (same_client len) (ll_clients ?l1) (map fst flagged1)"
      using same_tells [of len ?tell ?count ?flagged] t same_tell same by simp
    then have l2: "looped len s (?l1\<lparr>ll_clients := map fst flagged1\<rparr>)" using looped_clients(1) [OF l1] by blast
    have l1': "looped len s (?l1\<lparr>ll_clients := map fst ?flagged\<rparr>)" using l1 by (simp add: same del: map_map)
    note settles = loop_settle_ends [OF l1' clock, of notifies cycles ?leafs ?hold ?had ?host changed fast]
      loop_settle_ends [OF l2 clock, of notifies cycles ?leafs ?hold ?had ?host False fast]
    show ?thesis
    proof (cases "fast \<and> \<not> ?hold")
      case True
      then have hold: "?hold = False" by blast
      show ?thesis
        using polled(1) Inr t l2 settles(2) True unfolding loop_output_def Let_def hold by (cases y) simp_all
    next
      case False
      then have no: "(fast \<and> \<not> ?hold) = False" by blast
      show ?thesis
        using settles(1)
        by (simp only: loop_output_def Let_def polled(1) Option.bind.simps prod.case Inr sum.case no if_False)
    qed
  qed
qed

end

definition env_clocks_pass :: "live_loop_env \<Rightarrow> bool" where
  \<comment> \<open>time goes on while a turn polls the processes\<close>
  "env_clocks_pass env \<longleftrightarrow> clock_passes LIVE_POST_INPUT_COALESCE_DEADLINE (ce_clock env) \<and>
     list_all (\<lambda>x. clock_passes LIVE_POST_INPUT_COALESCE_DEADLINE (fst x)) (ce_waiting env)"

lemma clock_passes_sooner: "clock_passes d clock \<Longrightarrow> e \<le> d \<Longrightarrow> clock_passes e clock"
  unfolding clock_passes_def by (meson add_left_mono le_trans)

locale live_looping = live_session +
  fixes aops :: "'a accept_ops"
  assumes command: "good st \<Longrightarrow> control_command_ok c \<Longrightarrow> ap_command aops st c = (st', f, x) \<Longrightarrow>
      good st' \<and> commanded (lo_session ops st) (lo_session ops st')"
    and probe: "good st \<Longrightarrow> clock_passes LIVE_HOST_OUTPUT_POLL_DEADLINE clock \<Longrightarrow>
      \<exists>st' f. ap_probe aops clock p st = Some (st', f) \<and> good st' \<and> commanded (lo_session ops st) (lo_session ops st')"
begin

lemma accept_ends:
  assumes k: "kept s st" and clock: "clock_passes LIVE_POST_INPUT_COALESCE_DEADLINE clock"
  shows "\<exists>st' frames r. accept_live_client ops aops clock name now st reads = Some (st', frames, r) \<and> kept s st' \<and>
    (\<forall>c. r = Inr (AcceptAttached c) \<longrightarrow> lc_connection_id c = name \<and> client_queue_ok len c)"
proof (cases "read_initial reads")
  case (Inl e)
  with k show ?thesis by (simp add: accept_live_client_def)
next
  case (Inr x)
  obtain initial rest where x: "x = (initial, rest)" by fastforce
  have g: "good st" and c: "commanded s (lo_session ops st)" using k by (simp_all add: live_kept_def)
  have new_ok: "lc_connection_id (new_live_client t name actor request now seq known n) = name \<and>
      client_queue_ok len (new_live_client t name actor request now seq known n)"
    if "t = LegacyTransport rs ws \<or> t = AsyncTransport [] False (output_new cap bytes)" for t actor request seq known n rs ws cap bytes
    using that output_new_ok [of len cap bytes] by (auto simp: new_live_client_def client_queue_ok_def output_new_def)
  show ?thesis
  proof (cases initial)
    case (InitialControl command)
    then have ok: "control_command_ok command" using read_initial_ok [of reads initial rest] Inr x by (simp add: initial_ok_def)
    obtain st1 f y where cmd: "ap_command aops st command = (st1, f, y)" by (metis prod_cases3)
    have "kept s st1" using command [OF g ok cmd] commanded_steps(2) [OF c] by (simp add: live_kept_def)
    with Inr x InitialControl cmd show ?thesis by (cases y) (simp_all add: accept_live_client_def)
  next
    case (InitialHealthProbe p)
    have "clock_passes LIVE_HOST_OUTPUT_POLL_DEADLINE clock"
      using clock by (rule clock_passes_sooner) (simp add: LIVE_POST_INPUT_COALESCE_DEADLINE_def LIVE_HOST_OUTPUT_POLL_DEADLINE_def)
    from probe [OF g this, of p] obtain st1 f where
      "ap_probe aops clock p st = Some (st1, f)" "good st1" "commanded (lo_session ops st) (lo_session ops st1)" by blast
    with commanded_steps(2) [OF c] Inr x InitialHealthProbe show ?thesis
      by (simp add: accept_live_client_def live_kept_def)
  next
    case (InitialAttach target request)
    let ?s = "lo_session ops st"
    show ?thesis
    proof (cases "attach_target_session_mismatch ?s target")
      case (Some t)
      with k Inr x InitialAttach show ?thesis by (simp add: accept_live_client_def)
    next
      case None
      obtain s1 focus where target: "attach_target_pane_id ?s request = (s1, focus)" by fastforce
      have "commanded ?s s1" using attach_target_commanded [of ?s request] target by simp
      then have k1: "kept s (lo_with_session ops s1 st)"
        using with_session [OF g, of s1] commanded_steps(2) [OF c] by (simp add: live_kept_def)
      show ?thesis
      proof (cases focus)
        case no: None
        with k1 Inr x InitialAttach None target new_ok show ?thesis by (simp add: accept_live_client_def Let_def)
      next
        case (Some pane)
        from polls_end(3) [OF k1 clock, of now "leaf_pane_ids ?s"] obtain st2 r where
          polled: "poll_until_quiet (lo_poll ops now) clock (leaf_pane_ids ?s) (lo_with_session ops s1 st) = Some (st2, r)"
            "kept s st2" by blast
        obtain frames seq where hand: "write_live_attach_initial (lo_session ops st2) request pane 1 = (frames, seq)"
          by fastforce
        show ?thesis
          using Inr x InitialAttach None target Some polled hand new_ok
          by (cases r) (simp_all add: accept_live_client_def Let_def)
      qed
    qed
  qed
qed

lemma accepts_end:
  assumes "looped len s l"
    and "\<And>x. x \<in> set waiting \<Longrightarrow> clock_passes LIVE_POST_INPUT_COALESCE_DEADLINE (fst x)"
  shows "\<exists>l' x. accept_clients ops aops len limit now waiting l = Some (l', x) \<and> looped len s l'"
  using assms
proof (induction waiting arbitrary: l)
  case (Cons w waiting)
  obtain clock reads where w: "w = (clock, reads)" by fastforce
  have k: "kept s (ll_state l)" and cs: "clients_ok len (ll_next_connection_id l) (ll_clients l)"
    using Cons.prems(1) by (simp_all add: loop_kept_def)
  have "clock_passes LIVE_POST_INPUT_COALESCE_DEADLINE clock" using Cons.prems(2) [of w] w by simp
  from accept_ends [OF k this, of "connection_name (ll_next_connection_id l)" now reads len] obtain st frames r where
    acc: "accept_live_client ops aops clock (connection_name (ll_next_connection_id l)) now (ll_state l) reads =
      Some (st, frames, r)" "kept s st"
      "\<And>c. r = Inr (AcceptAttached c) \<Longrightarrow>
        lc_connection_id c = connection_name (ll_next_connection_id l) \<and> client_queue_ok len c" by blast
  let ?l1 = "l\<lparr>ll_state := st, ll_answers := ll_answers l @ [frames]\<rparr>"
  have l1: "looped len s ?l1" using acc(2) cs by (simp add: loop_kept_def)
  have ih: "\<exists>l' x. accept_clients ops aops len limit now waiting l2 = Some (l', x) \<and> looped len s l'" if "looped len s l2" for l2
    using Cons.IH [OF that] Cons.prems(2) by simp
  show ?case
  proof (cases r)
    case (Inl e)
    with acc(1) l1 w show ?thesis by simp
  next
    case (Inr y)
    show ?thesis
    proof (cases y)
      case (AcceptAttached c)
      obtain l2 z where j: "join_client ops len c ?l1 = (l2, z)" by fastforce
      have l2: "looped len s l2"
        using join_result [OF j] cs acc(2) acc(3) [of c] Inr AcceptAttached by (simp add: loop_kept_def)
      with acc(1) w Inr AcceptAttached j ih [OF l2] show ?thesis by (cases z) simp_all
    next
      case AcceptCommand
      have "looped len s (?l1\<lparr>ll_accepted := n\<rparr>)" for n using l1 by (simp add: loop_kept_def)
      with acc(1) w Inr AcceptCommand ih show ?thesis by (simp add: Let_def)
    next
      case AcceptShutdown
      with acc(1) w Inr l1 show ?thesis by simp
    qed
  qed
qed simp

lemma turn_ends:
  assumes l: "looped len s l" and env: "env_clocks_pass env"
  shows "\<exists>l' x. loop_turn ops aops refused_skips notifies limit cycles len env l = Some (l', x) \<and> looped len s l'"
proof -
  let ?l0 = "l\<lparr>ll_clients := map (\<lambda>c. hear_news len (ce_news env (lc_connection_id c)) c) (ll_clients l)\<rparr>"
  have l0: "looped len s ?l0"
    using l by (rule looped_clients(1)) (simp add: list_all2_map2 list.rel_refl same_news)
  have clocks: "clock_passes LIVE_POST_INPUT_COALESCE_DEADLINE (ce_clock env)"
    "\<And>x. x \<in> set (ce_waiting env) \<Longrightarrow> clock_passes LIVE_POST_INPUT_COALESCE_DEADLINE (fst x)"
    using env by (auto simp: env_clocks_pass_def list_all_iff)
  obtain l1 x where acc: "(if accepts_more limit (ll_accepted ?l0)
        then accept_clients ops aops len limit (ce_now env) (ce_waiting env) ?l0
        else Some (?l0, LoopGoesOn)) = Some (l1, x)" "looped len s l1"
    using accepts_end [OF l0 clocks(2), of "ce_waiting env" limit "ce_now env"] l0
    by (cases "accepts_more limit (ll_accepted ?l0)") fastforce+
  show ?thesis
  proof (cases x)
    case (LoopEnds r)
    with acc show ?thesis unfolding loop_turn_def Let_def acc(1) by simp
  next
    case LoopGoesOn
    let ?marks = "mark_readable (ce_readable env) (ll_clients l1)"
    obtain flagged st r where dr: "drain_clients ops refused_skips len (ce_now env) ?marks (ll_state l1) loop_drain_new =
        ((flagged, st), r)" by (metis prod.collapse)
    have k: "kept s (ll_state l1)" and cs: "clients_ok len (ll_next_connection_id l1) (ll_clients l1)"
      using acc(2) by (simp_all add: loop_kept_def)
    have marked: "clients_ok len (ll_next_connection_id l1) (map snd ?marks)" using clients_ok_same [OF cs same_marks] .
    have d: "kept s st" "list_all2 (same_client len) (map snd ?marks) (map fst flagged)"
      using drains_kept [OF k, of len ?marks refused_skips "ce_now env" loop_drain_new] marked dr
      by (simp_all add: clients_ok_def)
    have l2: "looped len s (l1\<lparr>ll_state := st, ll_clients := map fst flagged\<rparr>)"
      using clients_ok_same [OF marked d(2)] d(1) by (simp add: loop_kept_def)
    then have l2': "looped len s ((l1\<lparr>ll_state := st\<rparr>)\<lparr>ll_clients := map fst flagged\<rparr>)" by simp
    show ?thesis
    proof (cases r)
      case (Inl e)
      with LoopGoesOn dr l2 show ?thesis unfolding loop_turn_def Let_def acc(1) by simp
    next
      case (Inr drained)
      obtain l3 y where ad: "after_drain ops len (ce_now env) flagged drained (l1\<lparr>ll_state := st\<rparr>) = (l3, y)" by fastforce
      note l3 = after_drain_looped [OF l2' ad]
      show ?thesis
        using LoopGoesOn dr Inr ad l3 loop_output_ends [OF l3 clocks(1)]
        unfolding loop_turn_def Let_def acc(1) by (cases y) simp_all
    qed
  qed
qed

lemma loop_ends:
  assumes "looped len s l" and "\<And>env. env \<in> set envs \<Longrightarrow> env_clocks_pass env"
  shows "\<exists>l' x. live_clients_loop ops aops refused_skips notifies limit cycles len envs l = Some (l', x) \<and> looped len s l'"
  using assms
proof (induction envs arbitrary: l)
  case (Cons env envs)
  have "env_clocks_pass env" using Cons.prems(2) by simp
  from turn_ends [OF Cons.prems(1) this, of refused_skips notifies limit cycles] obtain l1 x where
    t: "loop_turn ops aops refused_skips notifies limit cycles len env l = Some (l1, x)" "looped len s l1" by blast
  have ih: "\<exists>l' x. live_clients_loop ops aops refused_skips notifies limit cycles len envs l1 = Some (l', x) \<and> looped len s l'"
    using Cons.IH [OF t(2)] Cons.prems(2) by simp
  show ?case using t Cons.prems(1) ih by (cases x) simp_all
qed simp

lemma service_ends:
  assumes "good st" and "\<And>env. env \<in> set envs \<Longrightarrow> env_clocks_pass env"
  shows "\<exists>l' x. live_clients_loop ops aops refused_skips notifies limit cycles len envs (live_loop_start st) = Some (l', x) \<and>
    looped len (lo_session ops st) l'"
  by (rule loop_ends [OF _ assms(2)]) (simp_all add: loop_kept_def live_loop_start_def kept_refl [OF assms(1)])

end

subsection \<open>Both variants of the loop\<close>

sublocale pump_source \<subseteq> direct_loop: live_looping "direct_live eops ops" "\<lambda>_. True" "direct_accept eops ops" for eops
proof
  fix c f x and st st' :: "session \<times> 'a pane_engines \<times> 'h"
  assume ok: "control_command_ok c" and cmd: "ap_command (direct_accept eops ops) st c = (st', f, x)"
  obtain s es h where st: "st = (s, es, h)" by (cases st)
  obtain s1 h1 f1 x1 where serve: "serve_control_command ops s (Some h) c = (s1, h1, f1, x1)" by (metis prod_cases4)
  have "commanded s s1"
    using command_keeps_session [of c s ops "Some h"] serve_command_session(1) [of ops s "Some h" c] ok serve
    by (auto simp: control_command_ok_def commanded_steps(1) split: if_splits)
  with cmd st serve show "True \<and> commanded (lo_session (direct_live eops ops) st) (lo_session (direct_live eops ops) st')"
    by (auto simp: direct_accept_def direct_live_def)
next
  fix clock p and st :: "session \<times> 'a pane_engines \<times> 'h"
  assume "clock_passes LIVE_HOST_OUTPUT_POLL_DEADLINE clock"
  from probe_served [OF this, of eops p "\<lparr>sv_session = fst st, sv_engines = fst (snd st), sv_host = Some (snd (snd st))\<rparr>"]
  show "\<exists>st' f. ap_probe (direct_accept eops ops) clock p st = Some (st', f) \<and> True \<and>
      commanded (lo_session (direct_live eops ops) st) (lo_session (direct_live eops ops) st')"
    by (auto simp: direct_accept_def direct_live_def case_prod_beta)
qed

sublocale pump_source \<subseteq> actor_loop: live_looping "actor_live eops ops" "\<lambda>st. rests (fst st)" "actor_accept eops ops" for eops
proof
  fix c f x and st st' :: "'a session_actor \<times> 'h"
  assume "rests (fst st)" and ok: "control_command_ok c" and cmd: "ap_command (actor_accept eops ops) st c = (st', f, x)"
  moreover obtain a1 h1 f1 x1 where
    serve: "serve_control_command_with_session_actor eops ops (fst st) (Some (snd st)) c = (a1, h1, f1, x1)"
    by (metis prod_cases4)
  ultimately show "rests (fst st') \<and> commanded (lo_session (actor_live eops ops) st) (lo_session (actor_live eops ops) st')"
    using command_tended [OF _ ok serve] by (auto simp: actor_accept_def actor_live_def case_prod_beta)
next
  fix clock p and st :: "'a session_actor \<times> 'h"
  assume "rests (fst st)" and "clock_passes LIVE_HOST_OUTPUT_POLL_DEADLINE clock"
  from actor_probe_served [OF this, of eops p "snd st"]
  show "\<exists>st' f. ap_probe (actor_accept eops ops) clock p st = Some (st', f) \<and> rests (fst st') \<and>
      commanded (lo_session (actor_live eops ops) st) (lo_session (actor_live eops ops) st')"
    by (auto simp: actor_accept_def actor_live_def tended_def case_prod_beta)
qed

subsection \<open>What one client does to the others\<close>

lemma tell_clients_apart:
  assumes "\<And>c e. c \<in> set (map fst flagged) \<Longrightarrow> snd (tell c) = Inl e \<Longrightarrow> is_socket_closed e"
  shows "tell_clients tell count flagged =
    (map (\<lambda>(c, closed). case tell c of
        (c1, Inl _) \<Rightarrow> (c1, True) | (c1, Inr _) \<Rightarrow> (fst (count c1), closed \<or> snd (count c1))) flagged, Inr ())"
  using assms
proof (induction flagged)
  case (Cons x flagged)
  obtain c closed where x: "x = (c, closed)" by fastforce
  obtain c1 r where t: "tell c = (c1, r)" by fastforce
  have ih: "tell_clients tell count flagged =
      (map (\<lambda>(c, closed). case tell c of
        (c1, Inl _) \<Rightarrow> (c1, True) | (c1, Inr _) \<Rightarrow> (fst (count c1), closed \<or> snd (count c1))) flagged, Inr ())"
    by (rule Cons.IH) (use Cons.prems in auto)
  show ?case using ih Cons.prems [of c] x t by (cases r) (simp_all add: with_first_def case_prod_beta)
qed simp

definition queue_full :: "live_client \<Rightarrow> bool" where
  \<comment> \<open>the client is connected and has as many frames before it as its queue can hold\<close>
  "queue_full c \<longleftrightarrow> (\<exists>events ended output. lc_transport c = AsyncTransport events ended output \<and>
     \<not> co_receiver_gone output \<and> co_frame_cap output \<le> length (co_queue output))"

lemma full_queue_fails:
  assumes "queue_full c" shows "\<exists>e. snd (queue_reliable_frame_to_live_client len c frame) = Inl e \<and> \<not> is_socket_closed e"
proof -
  obtain events ended o1 where c: "lc_transport c = AsyncTransport events ended o1" "\<not> co_receiver_gone o1"
    "co_frame_cap o1 \<le> length (co_queue o1)" using assms by (auto simp: queue_full_def)
  have "\<exists>e. snd (try_send_reliable len o1 frame) = Inl e \<and> e \<noteq> ReliableQueueClosed \<and> e \<noteq> SurfaceQueueClosed"
    using c(2,3) by (auto simp: try_send_reliable_def reserve_reliable_bytes_def split: sum.split option.split)
  then show ?thesis
    using c(1) by (auto simp: queue_reliable_frame_to_live_client_def live_client_output_error_def is_socket_closed_def
        split: prod.split client_output_error.split)
qed

lemma full_queue_stops_telling:
  assumes "c \<in> set (map fst flagged)" and "queue_full c"
  shows "\<exists>e. snd (tell_clients (tell_client len s leafs True) count flagged) = Inl e"
  using assms(1)
proof (induction flagged)
  case (Cons x flagged)
  obtain d closed where x: "x = (d, closed)" by fastforce
  obtain d1 r where t: "tell_client len s leafs True d = (d1, r)" by fastforce
  have "\<exists>e. r = Inl e \<and> \<not> is_socket_closed e" if "d = c"
    using full_queue_fails [OF assms(2), of len "workspace_tree_frame s local_client (lc_seq c)"] t that
    by (auto simp: tell_client_def and_then_def split: prod.splits sum.splits)
  with Cons x t show ?case by (cases r) (auto simp: with_first_def split: prod.split)
qed simp

context live_session
begin

lemma full_queue_ends_loop:
  assumes "looped len s (l\<lparr>ll_clients := map fst flagged\<rparr>)"
    and "clock_passes LIVE_POST_INPUT_COALESCE_DEADLINE (ce_clock env)"
    and "c \<in> set (map fst flagged)" and "queue_full c"
  shows "\<exists>l' r. loop_settle ops notifies cycles len env leafs hold had host True fast flagged l = Some (l', LoopEnds r)"
proof -
  obtain l' x where settle: "loop_settle ops notifies cycles len env leafs hold had host True fast flagged l = Some (l', x)"
    using loop_settle_ends [OF assms(1,2)] by blast
  obtain st r where polled: "(if hold
        then poll_until_poll_quiet_state (lo_poll ops (ce_now env)) notifies (ce_clock env) leafs (ll_state l)
               LIVE_POST_INPUT_POLL_TIMEOUT False
        else if notifies then Some (ll_state l, Inr False)
        else poll_until_quiet (lo_poll ops (ce_now env)) (ce_clock env) leafs (ll_state l)) = Some (st, r)"
    using settle by (auto simp: loop_settle_def bind_eq_Some_conv simp del: split_paired_Ex)
  show ?thesis
  proof (cases r)
    case (Inl e)
    with settle polled show ?thesis by (auto simp: loop_settle_def loop_host_error_def)
  next
    case (Inr ch)
    obtain fl y where t: "tell_clients (tell_client len (lo_session ops st) leafs True)
        (count_turn (had \<or> fast \<or> ch \<or> True) host cycles) flagged = (fl, y)" by fastforce
    obtain e where "y = Inl e" using full_queue_stops_telling [OF assms(3,4)] t by (metis snd_conv)
    with polled Inr t show ?thesis unfolding loop_settle_def polled by simp
  qed
qed

end

lemma unreadable_connection_ends_loop:
  "read_initial reads = Inl e \<Longrightarrow>
     accept_clients ops aops len limit now ((clock, reads) # waiting) l =
       Some (l\<lparr>ll_answers := ll_answers l @ [[]]\<rparr>, LoopEnds (Inl (LiveServe e)))"
  by (simp add: accept_live_client_def)

end
