(* ===== verification/Screen.thy ===== *)
theory Screen
  imports Client_Cache
begin

text \<open>
  The full screen of the client (\<open>crates/nmux-cli/src/bin/nmux/tui.rs\<close>): a menu line, the tree of the windows, the
  panes in their boxes, and an overlay on top. The source draws into a buffer of the library ratatui; here the
  calls that change the buffer are recorded in their order (\<open>draw\<close>), together with the regions a mouse can
  hit, and the buffer itself is a parameter. Coordinates are \<open>u16\<close>; a rectangle of the library is its four
  fields, and none of those made here reaches past the greatest coordinate.

  The lemmas: the areas of sibling panes lie in the area of their parent and do not meet; the content area that a
  client reports as the size of a pane is the one the screen shows for it, and the one the mouse hits there; the
  contents of a pane are drawn inside its area; and no control character of a pane gets to the terminal.
\<close>

subsection \<open>Rectangles\<close>

type_synonym u16 = nat

definition U16_MAX :: nat where "U16_MAX = 65535"

definition sat_add_u16 :: "u16 \<Rightarrow> u16 \<Rightarrow> u16" where
  "sat_add_u16 a b = min (a + b) U16_MAX"

definition as_u16 :: "nat \<Rightarrow> u16" where
  "as_u16 n = n mod 65536"

record rect =
  rc_x :: u16
  rc_y :: u16
  rc_width :: u16
  rc_height :: u16

definition rect_new :: "u16 \<Rightarrow> u16 \<Rightarrow> u16 \<Rightarrow> u16 \<Rightarrow> rect" where
  "rect_new x y w h = \<lparr>rc_x = x, rc_y = y, rc_width = w, rc_height = h\<rparr>"

definition rect_contains :: "rect \<Rightarrow> u16 \<Rightarrow> u16 \<Rightarrow> bool" where
  "rect_contains r x y \<longleftrightarrow> rc_x r \<le> x \<and> rc_y r \<le> y \<and> x < sat_add_u16 (rc_x r) (rc_width r) \<and> y < sat_add_u16 (rc_y r) (rc_height r)"

definition inset :: "rect \<Rightarrow> u16 \<Rightarrow> rect option" where
  "inset area margin =
     (let double = min (margin * 2) U16_MAX in
      if rc_width area \<le> double \<or> rc_height area \<le> double then None
      else Some (rect_new (rc_x area + margin) (rc_y area + margin) (rc_width area - double) (rc_height area - double)))"

definition MENU_HEIGHT :: u16 where "MENU_HEIGHT = 1"
definition TREE_MIN_WIDTH :: u16 where "TREE_MIN_WIDTH = 18"
definition TREE_MAX_WIDTH :: u16 where "TREE_MAX_WIDTH = 28"

definition clamp :: "nat \<Rightarrow> nat \<Rightarrow> nat \<Rightarrow> nat" where
  "clamp v lo hi = max lo (min v hi)"

definition tree_width_for :: "u16 \<Rightarrow> workspace_pane_summary option \<Rightarrow> u16" where
  "tree_width_for width root =
     (if root = None \<or> width < 64 then 0 else clamp (width div 4) TREE_MIN_WIDTH TREE_MAX_WIDTH)"

subsection \<open>Menus and overlays\<close>

datatype menu_action = MenuSessions | MenuNewSession | MenuWindows | MenuClipboard

definition MENU_ACTIONS :: "menu_action list" where
  "MENU_ACTIONS = [MenuSessions, MenuNewSession, MenuWindows, MenuClipboard]"

datatype overlay_action = OverlaySwitchTab ustring | OverlaySwitchSession ustring | OverlayFocusPane ustring

record overlay_line =
  ol_text :: ustring
  ol_action :: "overlay_action option"

record tui_overlay =
  ov_title :: ustring
  ov_lines :: "overlay_line list"
  ov_selected :: "usize option"

definition position_of :: "('a \<Rightarrow> bool) \<Rightarrow> 'a list \<Rightarrow> nat option" where
  "position_of P xs = find (\<lambda>i. P (xs ! i)) [0..<length xs]"

definition selectable_overlay_index :: "tui_overlay \<Rightarrow> usize option" where
  "selectable_overlay_index ov = position_of (\<lambda>l. ol_action l \<noteq> None) (ov_lines ov)"

definition selectable_lines :: "tui_overlay \<Rightarrow> usize list" where
  "selectable_lines ov = filter (\<lambda>i. ol_action (ov_lines ov ! i) \<noteq> None) [0..<length (ov_lines ov)]"

definition move_overlay_selection :: "tui_overlay \<Rightarrow> int \<Rightarrow> tui_overlay" where
  \<comment> \<open>the list is shorter than the range of an \<open>i32\<close>\<close>
  "move_overlay_selection ov delta =
     (let selectable = selectable_lines ov in
      if selectable = [] then ov\<lparr>ov_selected := None\<rparr>
      else
        (let current = (case Option.bind (ov_selected ov) (\<lambda>s. position_of (\<lambda>i. i = s) selectable) of
               Some p \<Rightarrow> p | None \<Rightarrow> 0)
         in ov\<lparr>ov_selected := Some (selectable ! nat ((int current + delta) mod int (length selectable)))\<rparr>))"

definition selected_overlay_action :: "tui_overlay \<Rightarrow> overlay_action option" where
  "selected_overlay_action ov =
     Option.bind (ov_selected ov) (\<lambda>i. if i < length (ov_lines ov) then ol_action (ov_lines ov ! i) else None)"

datatype hit_target =
  HitMenu menu_action
| HitPane ustring
| HitPaneContent ustring
| HitWindowTreePane ustring
| HitOverlay overlay_action
| HitBackground

record hit_region =
  hr_rect :: rect
  hr_target :: hit_target

definition hit_test_region :: "hit_region list \<Rightarrow> u16 \<Rightarrow> u16 \<Rightarrow> hit_region option" where
  "hit_test_region hits x y = find (\<lambda>h. rect_contains (hr_rect h) x y) (rev hits)"

definition hit_test :: "hit_region list \<Rightarrow> u16 \<Rightarrow> u16 \<Rightarrow> hit_target option" where
  "hit_test hits x y = map_option hr_target (hit_test_region hits x y)"

subsection \<open>Visible text\<close>

fun skip_string :: "bool \<Rightarrow> ustring \<Rightarrow> ustring" where
  \<comment> \<open>the rest behind a string sequence, which a bell or an escape with a backslash ends\<close>
  "skip_string escape_pending [] = []"
| "skip_string True (ch # cs) = (if ch = 92 then cs else skip_string (ch = 27) cs)"
| "skip_string False (ch # cs) = (if ch = 7 then cs else skip_string (ch = 27) cs)"

definition skip_escape_sequence :: "ustring \<Rightarrow> ustring" where
  \<comment> \<open>the rest behind an escape sequence\<close>
  "skip_escape_sequence cs =
     (case cs of
        [] \<Rightarrow> []
      | kind # rest \<Rightarrow>
          if kind = 91 then
            (case dropWhile (\<lambda>ch. \<not> (0x40 \<le> ch \<and> ch \<le> 0x7E)) rest of [] \<Rightarrow> [] | _ # rest' \<Rightarrow> rest')
          else if kind \<in> {93, 80, 95, 94, 88, 71} then skip_string False rest
          else rest)"

lemma skip_string_length: "length (skip_string b cs) \<le> length cs"
  by (induction b cs rule: skip_string.induct) auto

lemma skip_escape_length: "length (skip_escape_sequence cs) \<le> length cs"
  using skip_string_length [of False "tl cs"] length_dropWhile_le [of "\<lambda>ch. \<not> (0x40 \<le> ch \<and> ch \<le> 0x7E)" "tl cs"]
  by (auto simp: skip_escape_sequence_def split: list.split)

function terminal_visible_text :: "ustring \<Rightarrow> ustring" where
  "terminal_visible_text [] = []"
| "terminal_visible_text (ch # cs) =
     (if ch = 27 then terminal_visible_text (skip_escape_sequence cs)
      else if ch = 9 then 32 # terminal_visible_text cs
      else if is_control ch then terminal_visible_text cs
      else ch # terminal_visible_text cs)"
  by pat_completeness auto
termination
  by (relation "measure length") (auto simp: le_imp_less_Suc skip_escape_length)

lemma visible_text_printable: "list_all (\<lambda>ch. \<not> is_control ch) (terminal_visible_text cs)"
  by (induction cs rule: terminal_visible_text.induct) (auto simp: is_control_def)

lemma visible_text_id: "list_all (\<lambda>ch. \<not> is_control ch) cs \<Longrightarrow> terminal_visible_text cs = cs"
  by (induction cs) (auto simp: is_control_def)

definition truncate_chars :: "ustring \<Rightarrow> usize \<Rightarrow> ustring" where
  "truncate_chars v width = take width v"

definition clipped_box_title :: "ustring \<Rightarrow> u16 \<Rightarrow> ustring" where
  "clipped_box_title title width = 32 # truncate_chars title (width - 4) @ [32]"

subsection \<open>Drawing\<close>

datatype color = ColorWhite | ColorBlack | ColorYellow | ColorCyan | ColorRgb nat nat nat

datatype modifier = ModBold | ModItalic | ModDim | ModSlowBlink | ModReversed | ModHidden | ModCrossedOut | ModUnderlined

record cell_style =
  st_fg :: "color option"
  st_bg :: "color option"
  st_modifiers :: "modifier list"

definition plain_style :: "color \<Rightarrow> cell_style" where
  "plain_style c = \<lparr>st_fg = Some c, st_bg = None, st_modifiers = []\<rparr>"

definition style_on :: "color \<Rightarrow> color \<Rightarrow> cell_style" where
  "style_on fg bg = \<lparr>st_fg = Some fg, st_bg = Some bg, st_modifiers = []\<rparr>"

definition add_modifier :: "modifier \<Rightarrow> cell_style \<Rightarrow> cell_style" where
  "add_modifier m st = st\<lparr>st_modifiers := st_modifiers st @ [m]\<rparr>"

datatype draw =
  DrawCell u16 u16 ustring cell_style
    \<comment> \<open>the cell's symbol and style, if the cell is in the buffer\<close>
| DrawBlock rect "ustring option" cell_style
    \<comment> \<open>the library's box with round borders, its title, and the style of its border\<close>

type_synonym paint = "draw list \<times> hit_region list"

definition paint_then :: "paint \<Rightarrow> paint \<Rightarrow> paint" where
  "paint_then p q = (fst p @ fst q, snd p @ snd q)"

definition draws :: "draw list \<Rightarrow> paint" where "draws ds = (ds, [])"

definition hit :: "rect \<Rightarrow> hit_target \<Rightarrow> paint" where
  "hit r t = ([], [\<lparr>hr_rect = r, hr_target = t\<rparr>])"

definition fill_rect :: "rect \<Rightarrow> ustring \<Rightarrow> cell_style \<Rightarrow> draw list" where
  "fill_rect area symbol style =
     concat (map (\<lambda>y. map (\<lambda>x. DrawCell x y symbol style) [rc_x area..<rc_x area + rc_width area])
       [rc_y area..<rc_y area + rc_height area])"

definition paint_background :: "rect \<Rightarrow> draw list" where
  "paint_background area = fill_rect area [32] (style_on (ColorRgb 203 213 225) (ColorRgb 17 19 24))"

definition write_text :: "u16 \<Rightarrow> u16 \<Rightarrow> u16 \<Rightarrow> ustring \<Rightarrow> cell_style \<Rightarrow> draw list" where
  "write_text x y width t style =
     map (\<lambda>(offset, ch). DrawCell (x + offset) y [ch] style) (enumerate 0 (take width (terminal_visible_text t)))"

definition draw_vertical_rule :: "u16 \<Rightarrow> u16 \<Rightarrow> u16 \<Rightarrow> draw list" where
  "draw_vertical_rule x y height =
     map (\<lambda>row. DrawCell x row [0x2502] (style_on (ColorRgb 71 85 105) (ColorRgb 17 19 24))) [y..<sat_add_u16 y height]"

record pane_chrome_state =
  pc_read_only :: bool
  pc_scrollback :: bool

definition pane_chrome_default :: pane_chrome_state where
  "pane_chrome_default = \<lparr>pc_read_only = False, pc_scrollback = False\<rparr>"

definition box_badges :: "bool \<Rightarrow> pane_chrome_state \<Rightarrow> ustring list" where
  "box_badges active chrome =
     (if active then [lit ''active''] else []) @ (if pc_scrollback chrome then [lit ''scroll''] else []) @
     (if pc_read_only chrome then [lit ''ro''] else [])"

definition draw_box :: "rect \<Rightarrow> ustring \<Rightarrow> bool \<Rightarrow> pane_chrome_state \<Rightarrow> draw list" where
  "draw_box area title active chrome =
     (if rc_width area = 0 \<or> rc_height area = 0 then []
      else
        (let border = style_on (if active then ColorRgb 94 234 212 else ColorRgb 100 116 139) (ColorRgb 17 19 24);
             badges = box_badges active chrome
         in if 4 < rc_width area then
              [DrawBlock area (Some (clipped_box_title
                 (if badges = [] then title else title @ 32 # join_with 32 badges) (rc_width area))) border]
            else [DrawBlock area None border]))"

subsection \<open>The contents of a pane\<close>

definition rgba_color :: "u32 \<Rightarrow> color" where
  "rgba_color rgba = ColorRgb (rgba div 2 ^ 24 mod 256) (rgba div 2 ^ 16 mod 256) (rgba div 2 ^ 8 mod 256)"

definition style_modifiers :: "u32 \<Rightarrow> modifier list" where
  "style_modifiers flags =
     map snd (filter (\<lambda>(i, m). bit flags i)
       [(0, ModBold), (1, ModItalic), (2, ModDim), (3, ModSlowBlink), (4, ModReversed), (5, ModHidden), (6, ModCrossedOut)]) @
     (if list_ex (bit flags) [8..<13] then [ModUnderlined] else [])"

definition run_style :: "cell_run \<Rightarrow> pane_style list \<Rightarrow> cell_style" where
  "run_style run styles =
     (if length styles \<le> cr_style_id run then plain_style ColorWhite
      else
        (let style = styles ! cr_style_id run in
         \<lparr>st_fg = Some (if ps_fg style \<noteq> 0 then rgba_color (ps_fg style) else ColorWhite),
          st_bg = (if ps_bg style \<noteq> 0 then Some (rgba_color (ps_bg style)) else None),
          st_modifiers = style_modifiers (ps_flags style)\<rparr>))"

fun run_cells :: "u16 \<Rightarrow> cell_style \<Rightarrow> u16 \<Rightarrow> u16 \<Rightarrow> byte list \<Rightarrow> ustring \<Rightarrow> draw list \<times> u16" where
  \<comment> \<open>the loop of \<open>render_cell_run\<close> over the characters and their widths\<close>
  "run_cells max_x style x y widths [] = ([], x)"
| "run_cells max_x style x y widths (ch # cs) =
     (if max_x \<le> x then ([], x)
      else
        (let width = (case widths of [] \<Rightarrow> 1 | w # _ \<Rightarrow> unat w) in
         if width = 0 then run_cells max_x style x y (tl widths) cs
         else
           (case run_cells max_x style (sat_add_u16 x width) y (tl widths) cs of
              (ds, x1) \<Rightarrow> ((if is_control ch then ds else DrawCell x y [ch] style # ds), x1))))"

definition render_cell_run :: "u16 \<Rightarrow> u16 \<Rightarrow> rect \<Rightarrow> cell_run \<Rightarrow> pane_style list \<Rightarrow> draw list \<times> u16" where
  "render_cell_run x y area run styles =
     run_cells (sat_add_u16 (rc_x area) (rc_width area)) (run_style run styles) x y (cr_cell_widths run) (cr_text run)"

fun row_cells :: "rect \<Rightarrow> pane_style list \<Rightarrow> u16 \<Rightarrow> u16 \<Rightarrow> cell_run list \<Rightarrow> draw list" where
  "row_cells area styles x y [] = []"
| "row_cells area styles x y (run # runs) =
     (case render_cell_run x y area run styles of
        (ds, x1) \<Rightarrow> ds @ (if sat_add_u16 (rc_x area) (rc_width area) \<le> x1 then [] else row_cells area styles x1 y runs))"

definition surface_row :: "rect \<Rightarrow> pane_style list \<Rightarrow> row_update \<Rightarrow> draw list" where
  "surface_row area styles row =
     (let row_offset = min (ru_row row) U16_MAX in
      if rc_height area \<le> row_offset then []
      else if ru_runs row = [] then
        write_text (rc_x area) (rc_y area + row_offset) (rc_width area) (ru_text row) (plain_style ColorWhite)
      else row_cells area styles (rc_x area) (rc_y area + row_offset) (ru_runs row))"

definition render_structured_surface :: "rect \<Rightarrow> rendered_surface_summary \<Rightarrow> draw list" where
  "render_structured_surface area surface =
     concat (map (surface_row area (rs_styles surface)) (rs_row_updates surface))"

definition render_surface_text :: "rect \<Rightarrow> ustring \<Rightarrow> draw list" where
  "render_surface_text area t =
     concat (map (\<lambda>(offset, line). write_text (rc_x area) (rc_y area + offset) (rc_width area) line (plain_style ColorWhite))
       (enumerate 0 (take (rc_height area) (str_lines t))))"

definition render_leaf_pane ::
  "rect \<Rightarrow> ustring \<Rightarrow> bool \<Rightarrow> ustring \<Rightarrow> rendered_surface_summary option \<Rightarrow> pane_chrome_state \<Rightarrow> paint" where
  "render_leaf_pane area pane_id active surface_text summary chrome =
     paint_then (paint_then (draws (draw_box area pane_id active chrome)) (hit area (HitPane pane_id)))
       (case inset area 1 of
          None \<Rightarrow> draws []
        | Some inner \<Rightarrow>
            paint_then (hit inner (HitPaneContent pane_id))
              (draws (case summary of Some s \<Rightarrow> render_structured_surface inner s
                      | None \<Rightarrow> render_surface_text inner surface_text)))"

subsection \<open>The tree of panes\<close>

fun spans :: "nat \<Rightarrow> nat \<Rightarrow> u16 \<Rightarrow> u16 \<Rightarrow> nat \<Rightarrow> (u16 \<times> u16) list" where
  \<comment> \<open>start and length of the children left from an index on: an equal share of what remains, all of it for the last\<close>
  "spans count index start remaining 0 = []"
| "spans count index start remaining (Suc n) =
     (let remaining_children = count - as_u16 index;
          len = (if remaining_children \<le> 1 then remaining else remaining div remaining_children)
      in (start, len) # spans count (index + 1) (sat_add_u16 start len) (remaining - len) n)"

definition child_areas :: "split_axis \<Rightarrow> rect \<Rightarrow> nat \<Rightarrow> rect list" where
  "child_areas axis area n =
     (let count = as_u16 (max n 1) in
      case axis of
        AxisVertical \<Rightarrow>
          map (\<lambda>(x, width). rect_new x (rc_y area) width (rc_height area)) (spans count 0 (rc_x area) (rc_width area) n)
      | AxisHorizontal \<Rightarrow>
          map (\<lambda>(y, height). rect_new (rc_x area) y (rc_width area) height) (spans count 0 (rc_y area) (rc_height area) n)
      | _ \<Rightarrow> replicate n area)"

record frame_input =
  fi_workspace :: workspace_summary
  fi_active_surface_text :: ustring
  fi_pane_surfaces :: "(ustring, ustring) btree option"
  fi_pane_surface_summaries :: "(ustring, rendered_surface_summary) btree option"
  fi_pane_chrome :: "(ustring, pane_chrome_state) btree option"
  fi_overlay :: "tui_overlay option"

definition opt_get :: "('k, 'v) btree option \<Rightarrow> 'k \<Rightarrow> 'v option" where
  "opt_get m k = Option.bind m (\<lambda>m. bt_get m k)"

definition chrome_of :: "frame_input \<Rightarrow> ustring \<Rightarrow> pane_chrome_state" where
  "chrome_of i k = (case opt_get (fi_pane_chrome i) k of Some c \<Rightarrow> c | None \<Rightarrow> pane_chrome_default)"

fun render_pane_node :: "frame_input \<Rightarrow> rect \<Rightarrow> workspace_pane_summary \<Rightarrow> paint"
  and render_pane_nodes :: "frame_input \<Rightarrow> rect list \<Rightarrow> workspace_pane_summary list \<Rightarrow> paint" where
  "render_pane_node i area (WorkspacePaneSummary pane_id cols rows policy axis children) =
     (if rc_width area = 0 \<or> rc_height area = 0 then draws []
      else if children = [] then
        (let active = (pane_id = wk_pane_id (fi_workspace i)) in
         render_leaf_pane area pane_id active
           (if active then fi_active_surface_text i
            else case opt_get (fi_pane_surfaces i) pane_id of Some t \<Rightarrow> t | None \<Rightarrow> lit ''(surface not cached)'')
           (opt_get (fi_pane_surface_summaries i) pane_id) (chrome_of i pane_id))
      else render_pane_nodes i (child_areas axis area (length children)) children)"
| "render_pane_nodes i (area # areas) (child # children) =
     paint_then (render_pane_node i area child) (render_pane_nodes i areas children)"
| "render_pane_nodes i areas children = draws []"

fun pane_content_rect_for_node :: "workspace_pane_summary \<Rightarrow> rect \<Rightarrow> ustring \<Rightarrow> rect option"
  and pane_content_rect_for_nodes :: "workspace_pane_summary list \<Rightarrow> rect list \<Rightarrow> ustring \<Rightarrow> rect option" where
  "pane_content_rect_for_node (WorkspacePaneSummary pid cols rows policy axis children) area pane_id =
     (if rc_width area = 0 \<or> rc_height area = 0 then None
      else if children = [] then (if pid = pane_id then inset area 1 else None)
      else pane_content_rect_for_nodes children (child_areas axis area (length children)) pane_id)"
| "pane_content_rect_for_nodes (child # children) (area # areas) pane_id =
     (case pane_content_rect_for_node child area pane_id of
        Some r \<Rightarrow> Some r
      | None \<Rightarrow> pane_content_rect_for_nodes children areas pane_id)"
| "pane_content_rect_for_nodes children areas pane_id = None"

subsection \<open>The screen\<close>

fun menu_items :: "rect \<Rightarrow> cell_style \<Rightarrow> u16 \<Rightarrow> (ustring \<times> menu_action) list \<Rightarrow> paint" where
  "menu_items area style x [] = draws []"
| "menu_items area style x ((label, action) # items) =
     (if rc_x area + rc_width area \<le> x then draws []
      else
        (let item_width = min (as_u16 (length label)) (rc_x area + rc_width area - x) in
         paint_then
           (paint_then (draws (write_text x (rc_y area) (rc_x area + rc_width area - x) label (add_modifier ModBold style)))
              (hit (rect_new x (rc_y area) item_width (rc_height area)) (HitMenu action)))
           (menu_items area style (sat_add_u16 x item_width) items)))"

definition render_menu :: "rect \<Rightarrow> paint" where
  "render_menu area =
     (let style = style_on (ColorRgb 226 232 240) (ColorRgb 32 36 42) in
      paint_then (draws (fill_rect area [32] style))
        (menu_items area style (rc_x area)
           [(lit '' Sessions '', MenuSessions), (lit '' New Session '', MenuNewSession), (lit '' Windows '', MenuWindows),
            (lit '' Clipboard '', MenuClipboard)]))"

definition tree_line ::
  "workspace_summary \<Rightarrow> rect \<Rightarrow> u16 \<Rightarrow> ustring \<Rightarrow> u32 \<Rightarrow> u32 \<Rightarrow> bool \<Rightarrow> u16 \<Rightarrow> paint" where
  "tree_line w area depth pane_id cols rows is_leaf row =
     (let active = (pane_id = wk_pane_id w);
          label = replicate (min (depth * 2) U16_MAX) 32 @ (if is_leaf then lit ''- '' else lit ''+ '') @ pane_id @
            (if active then [] else 32 # dec_str cols @ lit ''x'' @ dec_str rows);
          style = (if active then style_on ColorBlack ColorCyan else plain_style ColorWhite)
      in paint_then (draws (write_text (rc_x area) row (rc_width area) label style))
           (hit (rect_new (rc_x area) row (rc_width area) 1) (HitWindowTreePane pane_id)))"

fun render_tree_node ::
    "workspace_summary \<Rightarrow> rect \<Rightarrow> u16 \<Rightarrow> workspace_pane_summary \<Rightarrow> u16 \<Rightarrow> paint \<times> u16"
  and render_tree_nodes ::
    "workspace_summary \<Rightarrow> rect \<Rightarrow> u16 \<Rightarrow> workspace_pane_summary list \<Rightarrow> u16 \<Rightarrow> paint \<times> u16" where
  \<comment> \<open>with the next free row\<close>
  "render_tree_node w area depth (WorkspacePaneSummary pane_id cols rows policy axis children) row =
     (if rc_y area + rc_height area \<le> row then (draws [], row)
      else case render_tree_nodes w area (depth + 1) children (sat_add_u16 row 1) of
        (p, row1) \<Rightarrow> (paint_then (tree_line w area depth pane_id cols rows (children = []) row) p, row1))"
| "render_tree_nodes w area depth [] row = (draws [], row)"
| "render_tree_nodes w area depth (pane # panes) row =
     (case render_tree_node w area depth pane row of
        (p, row1) \<Rightarrow>
          (case render_tree_nodes w area depth panes row1 of (q, row2) \<Rightarrow> (paint_then p q, row2)))"

definition render_window_tree :: "rect \<Rightarrow> workspace_summary \<Rightarrow> paint" where
  "render_window_tree area w =
     paint_then (draws (draw_box area (lit ''windows'') False pane_chrome_default))
       (case inset area 1 of
          None \<Rightarrow> draws []
        | Some inner \<Rightarrow>
            paint_then
              (draws (write_text (rc_x inner) (rc_y inner) (rc_width inner) (wk_tab_id w)
                 (add_modifier ModBold (plain_style ColorYellow))))
              (case wk_pane_tree w of
                 None \<Rightarrow> draws []
               | Some root \<Rightarrow> fst (render_tree_node w inner 0 root (sat_add_u16 (rc_y inner) 1))))"

definition overlay_area_for :: "rect \<Rightarrow> tui_overlay \<Rightarrow> rect" where
  "overlay_area_for area ov =
     (let max_line_width = foldl max (as_u16 (length (ov_title ov))) (map (\<lambda>l. as_u16 (length (ol_text l))) (ov_lines ov));
          width = clamp (sat_add_u16 max_line_width 4) 12 (max (rc_width area - 2) 12);
          height = clamp (sat_add_u16 (as_u16 (length (ov_lines ov))) 4) 5 (max (rc_height area - 2) 5)
      in rect_new (rc_x area + (rc_width area - width) div 2) (rc_y area + (rc_height area - height) div 2) width height)"

definition overlay_row :: "rect \<Rightarrow> tui_overlay \<Rightarrow> nat \<times> overlay_line \<Rightarrow> paint" where
  "overlay_row inner ov x =
     (case x of (offset, line) \<Rightarrow>
        (let row = rc_y inner + offset;
             selected = (ov_selected ov = Some offset \<and> ol_action line \<noteq> None);
             style = (if selected then style_on ColorBlack ColorCyan else style_on ColorWhite ColorBlack)
         in paint_then (draws (write_text (rc_x inner) row (rc_width inner) (ol_text line) style))
              (case ol_action line of None \<Rightarrow> draws []
               | Some action \<Rightarrow> hit (rect_new (rc_x inner) row (rc_width inner) 1) (HitOverlay action))))"

definition render_overlay :: "rect \<Rightarrow> tui_overlay \<Rightarrow> paint" where
  "render_overlay area ov =
     (if rc_width area < 12 \<or> rc_height area < 5 then draws []
      else
        (let overlay_area = overlay_area_for area ov in
         paint_then (draws (fill_rect overlay_area [32] (style_on ColorWhite ColorBlack) @
             draw_box overlay_area (ov_title ov) True pane_chrome_default))
           (case inset overlay_area 1 of
              None \<Rightarrow> draws []
            | Some inner \<Rightarrow>
                foldr (\<lambda>x p. paint_then (overlay_row inner ov x) p)
                  (enumerate 0 (take (rc_height inner) (ov_lines ov))) (draws []))))"

definition split_screen :: "rect \<Rightarrow> workspace_pane_summary option \<Rightarrow> rect \<times> rect" where
  \<comment> \<open>below the menu: the tree of the windows and the panes\<close>
  "split_screen area root =
     (let body = rect_new (rc_x area) (rc_y area + MENU_HEIGHT) (rc_width area) (rc_height area - MENU_HEIGHT);
          tree_width = tree_width_for (rc_width body) root
      in if tree_width = 0 then (rect_new (rc_x body) (rc_y body) 0 (rc_height body), body)
         else (rect_new (rc_x body) (rc_y body) tree_width (rc_height body),
               rect_new (sat_add_u16 (sat_add_u16 (rc_x body) tree_width) 1) (rc_y body)
                 (rc_width body - sat_add_u16 tree_width 1) (rc_height body)))"

definition render_panes :: "frame_input \<Rightarrow> rect \<Rightarrow> paint" where
  "render_panes i area =
     (let w = fi_workspace i in
      case wk_pane_tree w of
        Some root \<Rightarrow> render_pane_node i area root
      | None \<Rightarrow> render_leaf_pane area (wk_pane_id w) True (fi_active_surface_text i)
          (opt_get (fi_pane_surface_summaries i) (wk_pane_id w)) (chrome_of i (wk_pane_id w)))"

definition render_workspace_to_buffer :: "rect \<Rightarrow> frame_input \<Rightarrow> paint" where
  "render_workspace_to_buffer area i =
     (let background = paint_then (draws (paint_background area)) (hit area HitBackground) in
      if rc_width area = 0 \<or> rc_height area = 0 then background
      else
        (let menu = render_menu (rect_new (rc_x area) (rc_y area) (rc_width area) (min MENU_HEIGHT (rc_height area))) in
         if rc_height area \<le> MENU_HEIGHT then paint_then background menu
         else
           (case split_screen area (wk_pane_tree (fi_workspace i)) of
              (tree_area, pane_area) \<Rightarrow>
                paint_then (paint_then background menu)
                  (paint_then
                     (if rc_width tree_area = 0 then draws []
                      else paint_then (render_window_tree tree_area (fi_workspace i))
                        (draws (draw_vertical_rule (rc_x tree_area + rc_width tree_area) (rc_y tree_area) (rc_height tree_area))))
                     (paint_then (render_panes i pane_area)
                        (case fi_overlay i of None \<Rightarrow> draws [] | Some ov \<Rightarrow> render_overlay area ov))))))"

definition pane_content_rect :: "workspace_summary \<Rightarrow> u16 \<Rightarrow> u16 \<Rightarrow> ustring \<Rightarrow> rect option" where
  "pane_content_rect w cols rows pane_id =
     (if cols = 0 \<or> rows \<le> MENU_HEIGHT then None
      else
        (let pane_area = snd (split_screen (rect_new 0 0 cols rows) (wk_pane_tree w)) in
         case wk_pane_tree w of
           Some root \<Rightarrow> pane_content_rect_for_node root pane_area pane_id
         | None \<Rightarrow> if wk_pane_id w = pane_id then inset pane_area 1 else None))"

record tui_frame =
  tf_text :: ustring
  tf_hits :: "hit_region list"

definition trim_end :: "ustring \<Rightarrow> ustring" where
  "trim_end s = rev (dropWhile is_whitespace (rev s))"

definition buffer_to_string :: "(u16 \<Rightarrow> u16 \<Rightarrow> ustring option) \<Rightarrow> rect \<Rightarrow> ustring" where
  "buffer_to_string symbol area =
     join_with 10 (map (\<lambda>y. trim_end (concat (map (\<lambda>x. case symbol x y of Some t \<Rightarrow> t | None \<Rightarrow> [])
       [rc_x area..<rc_x area + rc_width area]))) [rc_y area..<rc_y area + rc_height area])"

definition render_workspace_frame ::
  "(rect \<Rightarrow> draw list \<Rightarrow> u16 \<Rightarrow> u16 \<Rightarrow> ustring option) \<Rightarrow> frame_input \<Rightarrow> u16 \<Rightarrow> u16 \<Rightarrow> tui_frame" where
  \<comment> \<open>\<open>buffer\<close>: the symbols of the library's buffer after these calls\<close>
  "render_workspace_frame buffer i cols rows =
     (let area = rect_new 0 0 cols rows; p = render_workspace_to_buffer area i in
      \<lparr>tf_text = buffer_to_string (buffer area (fst p)) area, tf_hits = snd p\<rparr>)"

subsection \<open>Areas\<close>

definition fits :: "rect \<Rightarrow> bool" where
  "fits r \<longleftrightarrow> rc_x r + rc_width r \<le> U16_MAX \<and> rc_y r + rc_height r \<le> U16_MAX"

definition within :: "rect \<Rightarrow> rect \<Rightarrow> bool" where
  "within r a \<longleftrightarrow> rc_x a \<le> rc_x r \<and> rc_x r + rc_width r \<le> rc_x a + rc_width a \<and>
     rc_y a \<le> rc_y r \<and> rc_y r + rc_height r \<le> rc_y a + rc_height a"

definition apart :: "rect \<Rightarrow> rect \<Rightarrow> bool" where
  "apart a b \<longleftrightarrow> (\<forall>x y. \<not> (rect_contains a x y \<and> rect_contains b x y))"

lemma rect_new_fields [simp]:
  "rc_x (rect_new x y w h) = x" "rc_y (rect_new x y w h) = y" "rc_width (rect_new x y w h) = w"
  "rc_height (rect_new x y w h) = h"
  by (simp_all add: rect_new_def)

lemma rect_contains_iff:
  "fits r \<Longrightarrow> rect_contains r x y \<longleftrightarrow>
     rc_x r \<le> x \<and> x < rc_x r + rc_width r \<and> rc_y r \<le> y \<and> y < rc_y r + rc_height r"
  by (auto simp: rect_contains_def fits_def sat_add_u16_def)

lemma within_refl [simp]: "within a a" by (simp add: within_def)

lemma within_trans: "within a b \<Longrightarrow> within b c \<Longrightarrow> within a c" by (simp add: within_def)

lemma within_fits: "within r a \<Longrightarrow> fits a \<Longrightarrow> fits r" by (simp add: within_def fits_def)

lemma within_contains: "within r a \<Longrightarrow> fits a \<Longrightarrow> rect_contains r x y \<Longrightarrow> rect_contains a x y"
  using within_fits by (auto simp: rect_contains_iff within_def)

lemma inset_within: "inset area m = Some r \<Longrightarrow> fits area \<Longrightarrow> within r area"
  by (auto simp: inset_def within_def fits_def Let_def min_def split: if_splits)

lemma spans_length [simp]: "length (spans count index start remaining n) = n"
  by (induction n arbitrary: index start remaining) (simp_all add: Let_def)

lemma spans_inside:
  "start + remaining \<le> U16_MAX \<Longrightarrow> (p, l) \<in> set (spans count index start remaining n) \<Longrightarrow>
     start \<le> p \<and> p + l \<le> start + remaining"
proof (induction n arbitrary: index start remaining)
  case (Suc n)
  let ?c = "count - as_u16 index"
  let ?l = "if ?c \<le> 1 then remaining else remaining div ?c"
  have l: "?l \<le> remaining" by simp
  have s: "sat_add_u16 start ?l = start + ?l" using Suc.prems(1) l by (simp add: sat_add_u16_def)
  from Suc.prems(2) consider "(p, l) = (start, ?l)"
    | "(p, l) \<in> set (spans count (index + 1) (start + ?l) (remaining - ?l) n)"
    by (auto simp: Let_def s [simplified])
  then show ?case
  proof cases
    case 2
    from Suc.IH [OF _ this] Suc.prems(1) l show ?thesis by linarith
  qed (use l in auto)
qed simp

lemma spans_sorted:
  "start + remaining \<le> U16_MAX \<Longrightarrow> sorted_wrt (\<lambda>a b. fst a + snd a \<le> fst b) (spans count index start remaining n)"
proof (induction n arbitrary: index start remaining)
  case (Suc n)
  let ?c = "count - as_u16 index"
  let ?l = "if ?c \<le> 1 then remaining else remaining div ?c"
  have l: "?l \<le> remaining" by simp
  have s: "sat_add_u16 start ?l = start + ?l" using Suc.prems(1) l by (simp add: sat_add_u16_def)
  have b: "start + ?l + (remaining - ?l) \<le> U16_MAX" using Suc.prems(1) l by linarith
  have "spans count index start remaining (Suc n) =
      (start, ?l) # spans count (index + 1) (start + ?l) (remaining - ?l) n"
    using s by (simp add: Let_def)
  with Suc.IH [OF b] spans_inside [OF b] show ?case by (auto simp del: spans.simps)
qed simp

lemma child_areas_length [simp]: "length (child_areas axis area n) = n"
  by (simp add: child_areas_def Let_def split: split_axis.split)

lemma child_areas_within: "fits area \<Longrightarrow> a \<in> set (child_areas axis area n) \<Longrightarrow> within a area"
  by (auto simp: child_areas_def Let_def fits_def within_def dest: spans_inside split: split_axis.splits)

lemma child_areas_apart:
  assumes "fits area" and "axis = AxisVertical \<or> axis = AxisHorizontal"
  shows "sorted_wrt apart (child_areas axis area n)"
proof -
  have inside: "fits (rect_new p y l h)" if "p + l \<le> U16_MAX" "y + h \<le> U16_MAX" for p y l h
    using that by (simp add: fits_def)
  let ?c = "as_u16 (max n 1)"
  let ?v = "spans ?c 0 (rc_x area) (rc_width area) n" and ?h = "spans ?c 0 (rc_y area) (rc_height area) n"
  have b: "rc_x area + rc_width area \<le> U16_MAX" "rc_y area + rc_height area \<le> U16_MAX"
    using assms(1) by (simp_all add: fits_def)
  have "sorted_wrt (\<lambda>s t. apart (rect_new (fst s) (rc_y area) (snd s) (rc_height area))
      (rect_new (fst t) (rc_y area) (snd t) (rc_height area))) ?v"
    by (rule sorted_wrt_mono_rel [OF _ spans_sorted [OF b(1)]])
      (use b spans_inside [OF b(1)] in \<open>fastforce simp: apart_def rect_contains_iff fits_def\<close>)
  moreover have "sorted_wrt (\<lambda>s t. apart (rect_new (rc_x area) (fst s) (rc_width area) (snd s))
      (rect_new (rc_x area) (fst t) (rc_width area) (snd t))) ?h"
    by (rule sorted_wrt_mono_rel [OF _ spans_sorted [OF b(2)]])
      (use b spans_inside [OF b(2)] in \<open>fastforce simp: apart_def rect_contains_iff fits_def\<close>)
  ultimately show ?thesis using assms(2) by (auto simp: child_areas_def Let_def sorted_wrt_map case_prod_beta)
qed

subsection \<open>What the mouse hits\<close>

lemma paint_simps [simp]:
  "fst (paint_then p q) = fst p @ fst q" "snd (paint_then p q) = snd p @ snd q"
  "fst (draws ds) = ds" "snd (draws ds) = []" "fst (hit r t) = []" "snd (hit r t) = [\<lparr>hr_rect = r, hr_target = t\<rparr>]"
  by (simp_all add: paint_then_def draws_def hit_def)

definition content_hit :: "ustring \<Rightarrow> rect \<Rightarrow> hit_region" where
  "content_hit k r = \<lparr>hr_rect = r, hr_target = HitPaneContent k\<rparr>"

lemma leaf_hits:
  "snd (render_leaf_pane area k active t summary chrome) =
     \<lparr>hr_rect = area, hr_target = HitPane k\<rparr> # (case inset area 1 of None \<Rightarrow> [] | Some r \<Rightarrow> [content_hit k r])"
  by (auto simp: render_leaf_pane_def content_hit_def split: option.split)

lemma pane_hits_within:
  "fits area \<Longrightarrow> h \<in> set (snd (render_pane_node i area p)) \<Longrightarrow> within (hr_rect h) area"
  "(\<And>a. a \<in> set areas \<Longrightarrow> fits a) \<Longrightarrow> h \<in> set (snd (render_pane_nodes i areas ps)) \<Longrightarrow>
     \<exists>a \<in> set areas. within (hr_rect h) a"
proof (induction i area p and i areas ps rule: render_pane_node_render_pane_nodes.induct)
  case (1 i area pane_id cols rows policy axis children)
  show ?case
  proof (cases "children = []")
    case True
    with 1 show ?thesis
      by (auto simp: leaf_hits content_hit_def Let_def dest: inset_within [OF sym] split: if_splits option.splits)
  next
    case False
    have fit: "fits a" if "a \<in> set (child_areas axis area (length children))" for a
      using child_areas_within [OF "1.prems"(1) that] within_fits "1.prems"(1) by blast
    from False 1 obtain a where "a \<in> set (child_areas axis area (length children))" "within (hr_rect h) a"
      using fit by (auto split: if_splits)
    then show ?thesis using child_areas_within [OF "1.prems"(1)] within_trans by blast
  qed
next
  case (2 i area areas child children)
  from "2.prems"(2) consider "h \<in> set (snd (render_pane_node i area child))"
    | "h \<in> set (snd (render_pane_nodes i areas children))" by auto
  then show ?case using 2 by cases auto
qed auto

lemma content_rect_is_hit:
  "find (\<lambda>h. hr_target h = HitPaneContent k) (snd (render_pane_node i area p)) =
     map_option (content_hit k) (pane_content_rect_for_node p area k)"
  "find (\<lambda>h. hr_target h = HitPaneContent k) (snd (render_pane_nodes i areas ps)) =
     map_option (content_hit k) (pane_content_rect_for_nodes ps areas k)"
proof (induction i area p and i areas ps rule: render_pane_node_render_pane_nodes.induct)
  case (1 i area pane_id cols rows policy axis children)
  then show ?case by (auto simp: leaf_hits content_hit_def Let_def split: option.split)
next
  case (2 i area areas child children)
  then show ?case by (auto simp: find_append split: option.split)
qed auto

lemma content_rect_within:
  assumes "fits area" and "pane_content_rect_for_node p area k = Some r" shows "within r area"
proof -
  have "find (\<lambda>h. hr_target h = HitPaneContent k) (snd (render_pane_node i area p)) = Some (content_hit k r)" for i
    using content_rect_is_hit(1) [of k i area p] assms(2) by simp
  then have "content_hit k r \<in> set (snd (render_pane_node i area p))" for i by (metis find_Some_iff nth_mem)
  from pane_hits_within(1) [OF assms(1) this] show ?thesis by (simp add: content_hit_def)
qed

fun well_split :: "workspace_pane_summary \<Rightarrow> bool" where
  "well_split (WorkspacePaneSummary pane_id cols rows policy axis children) \<longleftrightarrow>
     (children \<noteq> [] \<longrightarrow> axis = AxisVertical \<or> axis = AxisHorizontal) \<and> list_all well_split children"

lemma front_is_content:
  "well_split p \<Longrightarrow> fits area \<Longrightarrow> pane_content_rect_for_node p area k = Some r \<Longrightarrow> rect_contains r x y \<Longrightarrow>
     hit_test_region (snd (render_pane_node i area p)) x y = Some (content_hit k r)"
  "list_all well_split ps \<Longrightarrow> (\<And>a. a \<in> set areas \<Longrightarrow> fits a) \<Longrightarrow> sorted_wrt apart areas \<Longrightarrow>
     pane_content_rect_for_nodes ps areas k = Some r \<Longrightarrow> rect_contains r x y \<Longrightarrow>
     hit_test_region (snd (render_pane_nodes i areas ps)) x y = Some (content_hit k r)"
proof (induction i area p and i areas ps rule: render_pane_node_render_pane_nodes.induct)
  case (1 i area pane_id cols rows policy axis children)
  show ?case
  proof (cases "children = []")
    case True
    with "1.prems" show ?thesis
      by (auto simp: leaf_hits content_hit_def hit_test_region_def Let_def split: if_splits)
  next
    case False
    have fit: "fits a" if "a \<in> set (child_areas axis area (length children))" for a
      using child_areas_within [OF "1.prems"(2) that] within_fits "1.prems"(2) by blast
    have "sorted_wrt apart (child_areas axis area (length children))"
      using child_areas_apart [OF "1.prems"(2)] "1.prems"(1) False by simp
    with False 1 fit show ?thesis by (auto split: if_splits)
  qed
next
  case (2 i area areas child children)
  have fit: "fits area" using "2.prems"(2) by simp
  show ?case
  proof (cases "pane_content_rect_for_node child area k")
    case None
    with 2 show ?thesis by (simp add: hit_test_region_def find_append)
  next
    case (Some q)
    then have q: "q = r" using "2.prems"(4) by simp
    have "rect_contains area x y"
      using within_contains [OF content_rect_within [OF fit Some] fit] "2.prems"(5) q by simp
    then have other: "\<not> rect_contains a x y" if "a \<in> set areas" for a
      using "2.prems"(3) that by (auto simp: apart_def)
    have "\<not> rect_contains (hr_rect h) x y" if h: "h \<in> set (snd (render_pane_nodes i areas children))" for h
    proof -
      obtain a where a: "a \<in> set areas" "within (hr_rect h) a"
        using pane_hits_within(2) [OF _ h] "2.prems"(2) by auto
      then have "fits a" using "2.prems"(2) by simp
      with a other show ?thesis using within_contains by blast
    qed
    then have none: "find (\<lambda>h. rect_contains (hr_rect h) x y) (rev (snd (render_pane_nodes i areas children))) = None"
      by (simp add: find_None_iff)
    have "hit_test_region (snd (render_pane_node i area child)) x y = Some (content_hit k r)"
      using "2.IH"(1) [OF _ fit] Some q "2.prems" by simp
    with none show ?thesis by (simp add: hit_test_region_def find_append)
  qed
qed auto

subsection \<open>The size of a pane is what the screen shows\<close>

lemma menu_targets: "h \<in> set (snd (menu_items area style x items)) \<Longrightarrow> \<exists>a. hr_target h = HitMenu a"
  by (induction items arbitrary: x) (auto simp: Let_def split: if_splits)

lemma tree_targets:
  "h \<in> set (snd (fst (render_tree_node w area depth p row))) \<Longrightarrow> \<exists>k. hr_target h = HitWindowTreePane k"
  "h \<in> set (snd (fst (render_tree_nodes w area depth ps row))) \<Longrightarrow> \<exists>k. hr_target h = HitWindowTreePane k"
  by (induction w area depth p row and w area depth ps row rule: render_tree_node_render_tree_nodes.induct)
    (auto simp: tree_line_def Let_def split: if_splits prod.splits)

lemma window_tree_targets: "h \<in> set (snd (render_window_tree area w)) \<Longrightarrow> \<exists>k. hr_target h = HitWindowTreePane k"
  using tree_targets(1) by (fastforce simp: render_window_tree_def split: option.splits)

lemma find_skips: "(\<And>h. h \<in> set xs \<Longrightarrow> \<not> P h) \<Longrightarrow> find P (xs @ ys) = find P ys"
  by (induction xs) auto

lemma tree_width_bounds: "tree_width_for width root \<le> 28 \<and> (tree_width_for width root \<noteq> 0 \<longrightarrow> 64 \<le> width)"
  by (auto simp: tree_width_for_def clamp_def TREE_MIN_WIDTH_def TREE_MAX_WIDTH_def)

lemma pane_area_within:
  assumes "fits area" and "MENU_HEIGHT < rc_height area"
  shows "within (snd (split_screen area root)) area \<and> within (fst (split_screen area root)) area"
proof -
  let ?t = "tree_width_for (rc_width area) root"
  have "sat_add_u16 (sat_add_u16 (rc_x area) ?t) 1 = rc_x area + ?t + 1 \<and> sat_add_u16 ?t 1 = ?t + 1" if "?t \<noteq> 0"
    using that tree_width_bounds [of "rc_width area" root] assms(1) by (simp add: sat_add_u16_def fits_def U16_MAX_def)
  then show ?thesis
    using assms tree_width_bounds [of "rc_width area" root]
    by (auto simp: split_screen_def Let_def within_def MENU_HEIGHT_def)
qed

lemma panes_content:
  "find (\<lambda>h. hr_target h = HitPaneContent k) (snd (render_panes i area)) =
     map_option (content_hit k)
       (case wk_pane_tree (fi_workspace i) of
          Some root \<Rightarrow> pane_content_rect_for_node root area k
        | None \<Rightarrow> if wk_pane_id (fi_workspace i) = k then inset area 1 else None)"
  by (auto simp: render_panes_def Let_def content_rect_is_hit leaf_hits content_hit_def split: option.split)

lemma screen_hits:
  assumes "rc_width area \<noteq> 0" and "MENU_HEIGHT < rc_height area" and "fi_overlay i = None"
  obtains before where
    "snd (render_workspace_to_buffer area i) =
       before @ snd (render_panes i (snd (split_screen area (wk_pane_tree (fi_workspace i)))))"
    and "\<And>h k. h \<in> set before \<Longrightarrow> hr_target h \<noteq> HitPaneContent k"
proof -
  obtain tree_area pane_area where split: "split_screen area (wk_pane_tree (fi_workspace i)) = (tree_area, pane_area)" by fastforce
  let ?menu = "snd (render_menu (rect_new (rc_x area) (rc_y area) (rc_width area) (min MENU_HEIGHT (rc_height area))))"
  let ?tree = "snd (if rc_width tree_area = 0 then draws [] else paint_then (render_window_tree tree_area (fi_workspace i))
    (draws (draw_vertical_rule (rc_x tree_area + rc_width tree_area) (rc_y tree_area) (rc_height tree_area))))"
  let ?before = "(\<lparr>hr_rect = area, hr_target = HitBackground\<rparr> # ?menu) @ ?tree"
  have menu: "\<exists>a. hr_target h = HitMenu a" if "h \<in> set ?menu" for h
    using that menu_targets by (auto simp: render_menu_def Let_def simp del: menu_items.simps)
  have tree: "\<exists>k. hr_target h = HitWindowTreePane k" if "h \<in> set ?tree" for h
    using that window_tree_targets [of h tree_area "fi_workspace i"] by (auto split: if_splits)
  have "snd (render_workspace_to_buffer area i) = ?before @ snd (render_panes i pane_area)"
    using assms split by (simp add: render_workspace_to_buffer_def Let_def)
  moreover have "hr_target h \<noteq> HitPaneContent k" if "h \<in> set ?before" for h k
    using that menu [of h] tree [of h] by auto
  ultimately show ?thesis using that [of ?before] split by simp
qed

lemma content_rect_on_screen:
  assumes "cols \<noteq> 0" and "MENU_HEIGHT < rows" and "fi_overlay i = None"
  shows "find (\<lambda>h. hr_target h = HitPaneContent k) (tf_hits (render_workspace_frame buffer i cols rows)) =
    map_option (content_hit k) (pane_content_rect (fi_workspace i) cols rows k)"
proof -
  let ?area = "rect_new 0 0 cols rows"
  obtain before where b: "snd (render_workspace_to_buffer ?area i) =
      before @ snd (render_panes i (snd (split_screen ?area (wk_pane_tree (fi_workspace i)))))"
    "\<And>h. h \<in> set before \<Longrightarrow> hr_target h \<noteq> HitPaneContent k"
    by (rule screen_hits [of ?area i]) (use assms that in auto)
  have "find (\<lambda>h. hr_target h = HitPaneContent k) (before @ ys) = find (\<lambda>h. hr_target h = HitPaneContent k) ys" for ys
    using b(2) by (rule find_skips)
  with b(1) assms(1,2) show ?thesis
    by (simp add: render_workspace_frame_def Let_def panes_content pane_content_rect_def)
qed

lemma front_pane_content:
  assumes "cols \<le> U16_MAX" and "rows \<le> U16_MAX" and "fi_overlay i = None"
    and split: "\<And>root. wk_pane_tree (fi_workspace i) = Some root \<Longrightarrow> well_split root"
    and r: "pane_content_rect (fi_workspace i) cols rows k = Some r" and "rect_contains r x y"
  shows "hit_test_region (tf_hits (render_workspace_frame buffer i cols rows)) x y = Some (content_hit k r)"
proof -
  let ?area = "rect_new 0 0 cols rows" and ?root = "wk_pane_tree (fi_workspace i)"
  let ?panes = "snd (split_screen ?area ?root)"
  have size: "cols \<noteq> 0" "MENU_HEIGHT < rows" using r by (auto simp: pane_content_rect_def split: if_splits)
  have fit: "fits ?area" using assms(1,2) by (simp add: fits_def)
  have panes: "fits ?panes" using pane_area_within [OF fit, of ?root] within_fits [OF _ fit] size by simp
  obtain before where b: "snd (render_workspace_to_buffer ?area i) = before @ snd (render_panes i ?panes)"
    by (rule screen_hits [of ?area i]) (use size assms(3) that in auto)
  have "hit_test_region (snd (render_panes i ?panes)) x y = Some (content_hit k r)"
  proof (cases ?root)
    case None
    with r size have "inset ?panes 1 = Some r" "wk_pane_id (fi_workspace i) = k"
      by (auto simp: pane_content_rect_def Let_def split: if_splits)
    with None assms(6) show ?thesis
      by (simp add: render_panes_def Let_def leaf_hits hit_test_region_def content_hit_def)
  next
    case (Some root)
    with r size have "pane_content_rect_for_node root ?panes k = Some r" by (simp add: pane_content_rect_def Let_def)
    from front_is_content(1) [OF split [OF Some] panes this assms(6)] Some show ?thesis
      by (simp add: render_panes_def Let_def)
  qed
  with b show ?thesis by (simp add: render_workspace_frame_def Let_def hit_test_region_def find_append)
qed

subsection \<open>What is drawn\<close>

definition cell_printable :: "draw \<Rightarrow> bool" where
  "cell_printable d \<longleftrightarrow> (case d of DrawCell _ _ symbol _ \<Rightarrow> list_all (\<lambda>ch. \<not> is_control ch) symbol | DrawBlock _ _ _ \<Rightarrow> True)"

definition drawn_in :: "rect \<Rightarrow> draw \<Rightarrow> bool" where
  "drawn_in area d \<longleftrightarrow> (case d of DrawCell x y _ _ \<Rightarrow> rect_contains area x y | DrawBlock r _ _ \<Rightarrow> within r area)"

definition neat :: "rect \<Rightarrow> draw list \<Rightarrow> bool" where
  \<comment> \<open>inside the area and without control characters\<close>
  "neat area ds \<longleftrightarrow> list_all (\<lambda>d. cell_printable d \<and> drawn_in area d) ds"

lemma neat_simps [simp]:
  "neat area []" "neat area (ds @ es) \<longleftrightarrow> neat area ds \<and> neat area es"
  "neat area (d # ds) \<longleftrightarrow> cell_printable d \<and> drawn_in area d \<and> neat area ds"
  by (simp_all add: neat_def)

lemma neat_within: "neat a ds \<Longrightarrow> within a b \<Longrightarrow> fits b \<Longrightarrow> neat b ds"
  using within_contains within_trans
  by (fastforce simp: neat_def list_all_iff drawn_in_def split: draw.splits)

lemma neat_concat: "(\<And>ds. ds \<in> set dss \<Longrightarrow> neat area ds) \<Longrightarrow> neat area (concat dss)"
  by (induction dss) auto

lemma neat_fill: "fits area \<Longrightarrow> within r area \<Longrightarrow> \<not> is_control ch \<Longrightarrow> neat area (fill_rect r [ch] style)"
  by (auto simp: neat_def list_all_iff fill_rect_def cell_printable_def drawn_in_def rect_contains_iff within_def)

lemma neat_write:
  assumes "fits area" and "rc_x area \<le> x" and "x + width \<le> rc_x area + rc_width area" and "rc_y area \<le> y"
    and "y < rc_y area + rc_height area"
  shows "neat area (write_text x y width t style)"
proof -
  let ?cs = "take width (terminal_visible_text t)"
  have "\<not> is_control ch \<and> offset < width" if "(offset, ch) \<in> set (enumerate 0 ?cs)" for offset ch
  proof -
    have "offset < length ?cs" "ch \<in> set ?cs" using that by (auto simp: in_set_enumerate_eq intro: nth_mem)
    then show ?thesis using visible_text_printable [of t] by (auto simp: list_all_iff dest: in_set_takeD)
  qed
  then show ?thesis
    using assms by (fastforce simp: neat_def list_all_iff write_text_def cell_printable_def drawn_in_def rect_contains_iff)
qed

lemma neat_box: "within r area \<Longrightarrow> neat area (draw_box r title active chrome)"
  by (simp add: draw_box_def Let_def cell_printable_def drawn_in_def)

lemma neat_run_cells:
  assumes "fits area" and "rc_x area \<le> x" and "max_x \<le> rc_x area + rc_width area" and "rc_y area \<le> y"
    and "y < rc_y area + rc_height area"
  shows "neat area (fst (run_cells max_x style x y widths cs)) \<and> rc_x area \<le> snd (run_cells max_x style x y widths cs)"
  using assms
proof (induction max_x style x y widths cs rule: run_cells.induct)
  case (2 max_x style x y widths ch cs)
  let ?w = "case widths of [] \<Rightarrow> 1 | w # _ \<Rightarrow> unat w"
  have "rc_x area \<le> sat_add_u16 x ?w" if "x < max_x"
    using that "2.prems" by (auto simp: sat_add_u16_def fits_def)
  with 2 show ?case
    by (auto simp: Let_def cell_printable_def drawn_in_def rect_contains_iff not_le split: prod.split)
qed simp

lemma neat_row_cells:
  assumes "fits area" and "rc_x area \<le> x" and "rc_y area \<le> y" and "y < rc_y area + rc_height area"
  shows "neat area (row_cells area styles x y runs)"
  using assms
proof (induction area styles x y runs rule: row_cells.induct)
  case (2 area styles x y run runs)
  have m: "sat_add_u16 (rc_x area) (rc_width area) \<le> rc_x area + rc_width area" by (simp add: sat_add_u16_def)
  obtain ds x1 where r: "render_cell_run x y area run styles = (ds, x1)" by fastforce
  have "neat area ds" "rc_x area \<le> x1"
    using neat_run_cells [OF "2.prems"(1,2) m "2.prems"(3,4), of "run_style run styles" "cr_cell_widths run" "cr_text run"] r
    by (simp_all add: render_cell_run_def)
  with 2 r show ?case by simp
qed simp

lemma neat_surface:
  assumes "fits area"
  shows "neat area (render_structured_surface area s)" and "neat area (render_surface_text area t)"
proof -
  show "neat area (render_structured_surface area s)"
    unfolding render_structured_surface_def
    using assms by (intro neat_concat) (auto simp: surface_row_def Let_def intro!: neat_write neat_row_cells)
  have "offset < rc_height area" if "(offset, line) \<in> set (enumerate 0 (take (rc_height area) (str_lines t)))" for offset line
    using that by (simp add: in_set_enumerate_eq)
  then show "neat area (render_surface_text area t)"
    unfolding render_surface_text_def using assms by (intro neat_concat) (auto intro!: neat_write)
qed

lemma neat_leaf:
  assumes "fits area" shows "neat area (fst (render_leaf_pane area k active t summary chrome))"
proof -
  have "neat area (render_structured_surface r s) \<and> neat area (render_surface_text r t)" if "inset area 1 = Some r" for r s
    using inset_within [OF that assms] within_fits assms neat_surface [of r] neat_within by blast
  then show ?thesis by (auto simp: render_leaf_pane_def neat_box split: option.split)
qed

lemma neat_panes:
  "fits area \<Longrightarrow> neat area (fst (render_pane_node i area p))"
  "(\<And>a. a \<in> set areas \<Longrightarrow> within a area) \<Longrightarrow> fits area \<Longrightarrow> neat area (fst (render_pane_nodes i areas ps))"
proof (induction i area p and i areas ps arbitrary: and area rule: render_pane_node_render_pane_nodes.induct)
  case (1 i area pane_id cols rows policy axis children)
  then show ?case using neat_leaf child_areas_within by (auto simp: Let_def)
next
  case (2 i a areas child children)
  have "within a area" "fits a" using "2.prems" within_fits by auto
  with 2 neat_within show ?case by auto
qed auto

lemma neat_menu_items:
  assumes "fits area" and "0 < rc_height area" and "rc_x area \<le> x"
  shows "neat area (fst (menu_items area style x items))"
  using assms(3)
proof (induction items arbitrary: x)
  case (Cons item items)
  obtain label action where item: "item = (label, action)" by fastforce
  let ?w = "min (as_u16 (length label)) (rc_x area + rc_width area - x)"
  have "rc_x area \<le> sat_add_u16 x ?w" if "x < rc_x area + rc_width area"
    using that Cons.prems assms(1) by (auto simp: sat_add_u16_def fits_def)
  with Cons assms item show ?case by (auto simp: Let_def not_le intro!: neat_write)
qed simp

lemma neat_menu: "fits area \<Longrightarrow> 0 < rc_height area \<Longrightarrow> neat area (fst (render_menu area))"
  by (simp add: render_menu_def Let_def neat_fill neat_menu_items is_control_def del: menu_items.simps)

lemma neat_tree:
  "fits area \<Longrightarrow> rc_y area \<le> row \<Longrightarrow>
     neat area (fst (fst (render_tree_node w area depth p row))) \<and> row \<le> snd (render_tree_node w area depth p row)"
  "fits area \<Longrightarrow> rc_y area \<le> row \<Longrightarrow>
     neat area (fst (fst (render_tree_nodes w area depth ps row))) \<and> row \<le> snd (render_tree_nodes w area depth ps row)"
proof (induction w area depth p row and w area depth ps row rule: render_tree_node_render_tree_nodes.induct)
  case (1 w area depth pane_id cols rows policy axis children row)
  show ?case
  proof (cases "rc_y area + rc_height area \<le> row")
    case False
    have row: "sat_add_u16 row 1 = row + 1" using False "1.prems"(1) by (simp add: sat_add_u16_def fits_def)
    have "neat area (fst (tree_line w area depth pane_id cols rows (children = []) row))"
      using False "1.prems" by (simp add: tree_line_def Let_def neat_write)
    with False row 1 show ?thesis by (fastforce split: prod.split)
  qed simp
next
  case (3 w area depth pane panes row)
  obtain p row1 where n: "render_tree_node w area depth pane row = (p, row1)" by fastforce
  obtain q row2 where ns: "render_tree_nodes w area depth panes row1 = (q, row2)" by fastforce
  from 3 n have "neat area (fst p)" "row \<le> row1" by simp_all
  moreover from this(2) 3 n ns have "neat area (fst q)" "row1 \<le> row2" by simp_all
  ultimately show ?case using n ns by simp
qed simp

lemma neat_window_tree:
  assumes "fits area" shows "neat area (fst (render_window_tree area w))"
proof -
  have "neat area (write_text (rc_x r) (rc_y r) (rc_width r) t style)" "neat area (fst (fst (render_tree_node w r 0 p (sat_add_u16 (rc_y r) 1))))"
    if "inset area 1 = Some r" for r t style p
  proof -
    have r: "within r area" "fits r" "0 < rc_height r" using inset_within [OF that assms] within_fits assms that
      by (auto simp: inset_def Let_def split: if_splits)
    have "rc_y r \<le> sat_add_u16 (rc_y r) 1" using r(2,3) by (simp add: sat_add_u16_def fits_def)
    from neat_tree(1) [OF r(2) this] show "neat area (fst (fst (render_tree_node w r 0 p (sat_add_u16 (rc_y r) 1))))"
      using neat_within [OF _ r(1) assms] by blast
    have "neat r (write_text (rc_x r) (rc_y r) (rc_width r) t style)" using r by (intro neat_write) auto
    then show "neat area (write_text (rc_x r) (rc_y r) (rc_width r) t style)" using neat_within [OF _ r(1) assms] by blast
  qed
  then show ?thesis by (auto simp: render_window_tree_def neat_box split: option.split)
qed

lemma overlay_within:
  assumes "12 \<le> rc_width area" and "5 \<le> rc_height area" shows "within (overlay_area_for area ov) area"
proof -
  have "clamp v lo (max (w - 2) lo) \<le> w" if "lo \<le> w" for v w lo :: nat using that by (auto simp: clamp_def)
  note this [OF assms(1)] this [OF assms(2)]
  then show ?thesis
    by (auto simp: overlay_area_for_def Let_def within_def) (meson add_le_mono div_le_dividend le_diff_conv2 le_trans order_refl)+
qed

lemma neat_overlay_rows:
  assumes "fits area" and "\<And>offset line. (offset, line) \<in> set xs \<Longrightarrow> offset < rc_height area"
  shows "neat area (fst (foldr (\<lambda>x p. paint_then (overlay_row area ov x) p) xs (draws [])))"
  using assms(2)
proof (induction xs)
  case (Cons x xs)
  obtain offset line where x: "x = (offset, line)" by fastforce
  have "offset < rc_height area" using Cons.prems [of offset line] x by simp
  then have "neat area (fst (overlay_row area ov x))"
    using assms(1) x by (auto simp: overlay_row_def Let_def intro!: neat_write split: option.split)
  moreover have "neat area (fst (foldr (\<lambda>x p. paint_then (overlay_row area ov x) p) xs (draws [])))"
    by (rule Cons.IH) (use Cons.prems in auto)
  ultimately show ?case by simp
qed simp

lemma neat_overlay:
  assumes "fits area" shows "neat area (fst (render_overlay area ov))"
proof (cases "rc_width area < 12 \<or> rc_height area < 5")
  case False
  let ?o = "overlay_area_for area ov"
  have o: "within ?o area" using overlay_within [of area ov] False by simp
  have rows: "neat area (fst (foldr (\<lambda>x p. paint_then (overlay_row r ov x) p)
      (enumerate 0 (take (rc_height r) (ov_lines ov))) (draws [])))" if "inset ?o 1 = Some r" for r
  proof -
    have fo: "fits ?o" using within_fits [OF o assms] .
    have r: "within r ?o" "fits r" using inset_within [OF that fo] within_fits [OF _ fo] by auto
    have "neat r (fst (foldr (\<lambda>x p. paint_then (overlay_row r ov x) p)
        (enumerate 0 (take (rc_height r) (ov_lines ov))) (draws [])))"
      by (rule neat_overlay_rows [OF r(2)]) (simp add: in_set_enumerate_eq)
    then show ?thesis using neat_within within_trans [OF r(1) o] assms by blast
  qed
  show ?thesis
    using False rows neat_fill [OF assms o] neat_box [OF o]
    by (auto simp: render_overlay_def Let_def is_control_def split: option.split)
qed (simp add: render_overlay_def)

lemma neat_rule:
  assumes "fits area" and "rc_x area \<le> x" and "x < rc_x area + rc_width area" and "rc_y area \<le> y"
    and "y + h \<le> rc_y area + rc_height area"
  shows "neat area (draw_vertical_rule x y h)"
  using assms
  by (auto simp: neat_def list_all_iff draw_vertical_rule_def cell_printable_def drawn_in_def rect_contains_iff sat_add_u16_def
      is_control_def)

lemma screen_neat:
  assumes fit: "fits area" shows "neat area (fst (render_workspace_to_buffer area i))"
proof (cases "rc_width area = 0 \<or> rc_height area = 0")
  case True
  with neat_fill [OF fit within_refl] show ?thesis
    by (auto simp: render_workspace_to_buffer_def paint_background_def is_control_def)
next
  case False
  let ?m = "rect_new (rc_x area) (rc_y area) (rc_width area) (min MENU_HEIGHT (rc_height area))"
  have background: "neat area (paint_background area)"
    using neat_fill [OF fit within_refl] by (simp add: paint_background_def is_control_def)
  have m: "within ?m area" "0 < rc_height ?m" using False by (auto simp: within_def MENU_HEIGHT_def)
  have menu: "neat area (fst (render_menu ?m))" using neat_within [OF neat_menu [OF within_fits [OF m(1) fit] m(2)] m(1) fit] .
  show ?thesis
  proof (cases "rc_height area \<le> MENU_HEIGHT")
    case True
    with False background menu show ?thesis by (simp add: render_workspace_to_buffer_def Let_def)
  next
    case tall: False
    let ?root = "wk_pane_tree (fi_workspace i)"
    obtain tree panes where split: "split_screen area ?root = (tree, panes)" by fastforce
    have w: "within tree area" "within panes area"
      using pane_area_within [OF fit, of ?root] tall split by simp_all
    note t = neat_within [OF neat_window_tree [OF within_fits [OF w(1) fit]] w(1) fit, of "fi_workspace i"]
    have rule: "neat area (draw_vertical_rule (rc_x tree + rc_width tree) (rc_y tree) (rc_height tree))" if "rc_width tree \<noteq> 0"
    proof (rule neat_rule [OF fit])
      have "64 \<le> rc_width area \<and> rc_width tree \<le> 28 \<and> rc_x tree = rc_x area"
        using that split tree_width_bounds [of "rc_width area" ?root] by (auto simp: split_screen_def Let_def split: if_splits)
      then show "rc_x tree + rc_width tree < rc_x area + rc_width area" by simp
    qed (use w(1) in \<open>auto simp: within_def\<close>)
    have "neat panes (fst (render_panes i panes))"
      using neat_panes(1) neat_leaf within_fits [OF w(2) fit] by (simp add: render_panes_def Let_def split: option.split)
    then have "neat area (fst (render_panes i panes))" using neat_within w(2) fit by blast
    with False tall split background menu t rule neat_overlay [OF fit] show ?thesis
      by (auto simp: render_workspace_to_buffer_def Let_def split: option.split)
  qed
qed

end
