(* ===== verification/Client_Input.thy ===== *)
theory Client_Input
  imports Screen Requests
begin

text \<open>
  What the interactive client makes of the bytes its terminal sends, and of the mouse
  (\<open>crates/nmux-cli/src/bin/nmux.rs\<close>): the byte that detaches, pastes in brackets, mouse reports in SGR form, the
  keys of the menus, and everything else, which goes to the program in the pane as it is; then the size the client
  reports for its pane, the focus, the menus and overlays as a state machine, and where a mouse event goes.

  The lemmas: the pieces handed on are the input, byte for byte and in order; a mouse report that the server's
  encoder wrote is read back as the event; the pane a mouse event goes to is the one drawn there, with
  coordinates inside it; and the overlay's selection is always a line that does something.
\<close>

subsection \<open>Bytes of the terminal\<close>

definition STDIN_BYTES_DETACH :: byte where "STDIN_BYTES_DETACH = 0x1D"
definition BRACKETED_PASTE_START :: "byte list" where "BRACKETED_PASTE_START = [0x1B, 0x5B, 0x32, 0x30, 0x30, 0x7E]"
definition BRACKETED_PASTE_END :: "byte list" where "BRACKETED_PASTE_END = [0x1B, 0x5B, 0x32, 0x30, 0x31, 0x7E]"
definition SGR_MOUSE_START :: "byte list" where "SGR_MOUSE_START = [0x1B, 0x5B, 0x3C]"

datatype detach_key = CtrlRightBracket | DetachKeyNone

definition detach_byte :: "detach_key \<Rightarrow> byte option" where
  "detach_byte k = (case k of CtrlRightBracket \<Rightarrow> Some STDIN_BYTES_DETACH | DetachKeyNone \<Rightarrow> None)"

datatype stdin_key =
  KeyUp | KeyDown | KeyLeft | KeyRight | KeyEnter | KeyEscape | KeyTab | KeyBackTab | KeyOpenMenu menu_action

record stdin_key_input =
  sk_key :: stdin_key
  sk_bytes :: "byte list"

record sgr_mouse_input =
  sm_row :: u32
  sm_col :: u32
  sm_button :: wire_mouse_button
  sm_action :: wire_mouse_action
  sm_modifiers :: u32

datatype stdin_forward =
  ForwardRaw "byte list"
| ForwardPaste ustring
| ForwardMouse sgr_mouse_input
| ForwardKey stdin_key_input

definition split_stdin_bytes_for_detach :: "byte list \<Rightarrow> byte option \<Rightarrow> byte list option \<times> bool" where
  "split_stdin_bytes_for_detach input detach =
     (case detach of
        None \<Rightarrow> (Some input, False)
      | Some b \<Rightarrow>
          if b \<notin> set input then (Some input, False)
          else (let before = takeWhile (\<lambda>x. x \<noteq> b) input in (if before = [] then None else Some before, True)))"

definition find_bytes :: "byte list \<Rightarrow> byte list \<Rightarrow> nat option" where
  "find_bytes haystack needle =
     (if needle = [] then Some 0
      else find (\<lambda>i. take (length needle) (drop i haystack) = needle) [0..<length haystack + 1 - length needle])"

definition tui_key_candidates :: "(byte list \<times> stdin_key) list" where
  "tui_key_candidates =
     [([0x1B, 0x5B, 0x41], KeyUp), ([0x1B, 0x5B, 0x42], KeyDown), ([0x1B, 0x5B, 0x43], KeyRight), ([0x1B, 0x5B, 0x44], KeyLeft),
      ([0x1B, 0x5B, 0x5A], KeyBackTab), ([0x0D], KeyEnter), ([0x0A], KeyEnter), ([0x09], KeyTab),
      ([0x1B, 0x73], KeyOpenMenu MenuSessions), ([0x1B, 0x6E], KeyOpenMenu MenuNewSession),
      ([0x1B, 0x77], KeyOpenMenu MenuWindows), ([0x1B, 0x63], KeyOpenMenu MenuClipboard), ([0x1B], KeyEscape)]"

definition parse_tui_key_sequence :: "byte list \<Rightarrow> (stdin_key_input \<times> nat) option" where
  "parse_tui_key_sequence input =
     map_option (\<lambda>(bytes, key). (\<lparr>sk_key = key, sk_bytes = bytes\<rparr>, length bytes))
       (find (\<lambda>(bytes, _). take (length bytes) input = bytes) tui_key_candidates)"

definition find_tui_key_sequence :: "byte list \<Rightarrow> (nat \<times> stdin_key_input \<times> nat) option" where
  "find_tui_key_sequence input =
     Option.bind (find (\<lambda>start. parse_tui_key_sequence (drop start input) \<noteq> None) [0..<length input])
       (\<lambda>start. map_option (\<lambda>(key, len). (start, key, start + len)) (parse_tui_key_sequence (drop start input)))"

definition sgr_button :: "nat \<Rightarrow> wire_mouse_button" where
  "sgr_button code =
     (if bit code 6 then (if bit code 0 then WireWheelDown else WireWheelUp)
      else if code mod 4 = 0 then WireButtonLeft
      else if code mod 4 = 1 then WireButtonMiddle
      else if code mod 4 = 2 then WireButtonRight
      else WireButtonNone)"

definition sgr_action :: "byte \<Rightarrow> nat \<Rightarrow> wire_mouse_action" where
  "sgr_action final code =
     (if final = 0x6D then WireRelease else if bit code 5 then WireMotion else WirePress)"

definition sgr_modifiers :: "nat \<Rightarrow> u32" where
  "sgr_modifiers code = of_bool (bit code 2) + 2 * of_bool (bit code 4) + 4 * of_bool (bit code 3)"

definition sgr_report :: "byte list \<Rightarrow> byte \<Rightarrow> sgr_mouse_input option" where
  \<comment> \<open>the parameters between \<open>ESC [ <\<close> and the final byte\<close>
  "sgr_report params final =
     Option.bind (from_utf8 params) (\<lambda>t.
       case map parse_u32 (split_on 59 t) of
         [Some code, Some x, Some y] \<Rightarrow>
           if x = 0 \<or> y = 0 then None
           else Some \<lparr>sm_row = y - 1, sm_col = x - 1, sm_button = sgr_button code, sm_action = sgr_action final code,
             sm_modifiers = sgr_modifiers code\<rparr>
       | _ \<Rightarrow> None)"

abbreviation sgr_param :: "byte \<Rightarrow> bool" where
  "sgr_param b \<equiv> b \<noteq> 0x4D \<and> b \<noteq> 0x6D"

definition parse_sgr_mouse_sequence :: "byte list \<Rightarrow> (sgr_mouse_input \<times> nat) option" where
  "parse_sgr_mouse_sequence input =
     (if take 3 input \<noteq> SGR_MOUSE_START then None
      else
        (let body = drop 3 input; params = takeWhile sgr_param body in
         case drop (length params) body of
           [] \<Rightarrow> None
         | final # _ \<Rightarrow> map_option (\<lambda>m. (m, 3 + length params + 1)) (sgr_report params final)))"

function find_sgr_mouse_from :: "nat \<Rightarrow> byte list \<Rightarrow> (nat \<times> sgr_mouse_input \<times> nat) option" where
  "find_sgr_mouse_from search_offset input =
     (if length input \<le> search_offset then None
      else case find_bytes (drop search_offset input) SGR_MOUSE_START of
        None \<Rightarrow> None
      | Some start_rel \<Rightarrow>
          (case parse_sgr_mouse_sequence (drop (search_offset + start_rel) input) of
             Some (mouse, len) \<Rightarrow> Some (search_offset + start_rel, mouse, search_offset + start_rel + len)
           | None \<Rightarrow> find_sgr_mouse_from (search_offset + start_rel + 1) input))"
  by pat_completeness auto
termination
  by (relation "measure (\<lambda>(off, input). length input - off)") auto

declare find_sgr_mouse_from.simps [simp del]

definition find_sgr_mouse_sequence :: "byte list \<Rightarrow> (nat \<times> sgr_mouse_input \<times> nat) option" where
  "find_sgr_mouse_sequence = find_sgr_mouse_from 0"

definition next_structured_stdin_forward ::
  "(nat \<times> stdin_forward \<times> nat) option \<Rightarrow> (nat \<times> stdin_forward \<times> nat) option \<Rightarrow> (nat \<times> stdin_forward \<times> nat) option \<Rightarrow>
     (nat \<times> stdin_forward \<times> nat) option" where
  \<comment> \<open>the first of those that start first\<close>
  "next_structured_stdin_forward paste mouse key =
     (case List.map_filter id [paste, mouse, key] of
        [] \<Rightarrow> None
      | c # cs \<Rightarrow> Some (foldl (\<lambda>best c. if fst c < fst best then c else best) c cs))"

definition next_forward :: "byte list \<Rightarrow> (nat \<times> stdin_forward \<times> nat) option" where
  "next_forward input =
     next_structured_stdin_forward
       (map_option (\<lambda>start. (start, ForwardRaw [], 0)) (find_bytes input BRACKETED_PASTE_START))
       (map_option (\<lambda>(start, mouse, e). (start, ForwardMouse mouse, e)) (find_sgr_mouse_sequence input))
       (map_option (\<lambda>(start, key, e). (start, ForwardKey key, e)) (find_tui_key_sequence input))"

lemma find_upt: "find P [0..<n] = Some i \<Longrightarrow> P i \<and> i < n"
  by (auto simp: find_Some_iff)

lemma find_bytes_SomeD:
  assumes "find_bytes haystack needle = Some i" and "needle \<noteq> []"
  shows "take (length needle) (drop i haystack) = needle \<and> i + length needle \<le> length haystack"
  using assms by (auto simp: find_bytes_def dest!: find_upt split: if_splits)

lemma parse_key_len: "parse_tui_key_sequence input = Some (key, len) \<Longrightarrow> len = length (sk_bytes key) \<and> 0 < len \<and> take len input = sk_bytes key"
  by (auto simp: parse_tui_key_sequence_def tui_key_candidates_def split: if_splits)

lemma parse_sgr_report:
  assumes "\<forall>b \<in> set params. sgr_param b" and "\<not> sgr_param final"
  shows "parse_sgr_mouse_sequence (SGR_MOUSE_START @ params @ final # rest) =
    map_option (\<lambda>m. (m, 3 + length params + 1)) (sgr_report params final)"
proof -
  have "takeWhile sgr_param (params @ final # rest) = params"
    using assms by (simp add: takeWhile_append2)
  then show ?thesis by (simp add: parse_sgr_mouse_sequence_def SGR_MOUSE_START_def)
qed

lemma parse_sgr_shape:
  assumes "parse_sgr_mouse_sequence input = Some (mouse, len)"
  obtains params final rest where "input = SGR_MOUSE_START @ params @ final # rest" and "\<forall>b \<in> set params. sgr_param b"
    and "\<not> sgr_param final" and "len = 3 + length params + 1" and "sgr_report params final = Some mouse"
proof -
  let ?params = "takeWhile sgr_param (drop 3 input)"
  have "drop (length ?params) (drop 3 input) \<noteq> []"
    using assms by (auto simp: parse_sgr_mouse_sequence_def Let_def split: if_splits)
  then obtain final rest where d: "drop (length ?params) (drop 3 input) = final # rest" by (meson list.exhaust)
  have start: "take 3 input = SGR_MOUSE_START" using assms by (simp add: parse_sgr_mouse_sequence_def split: if_splits)
  have kept: "take (length ?params) (drop 3 input) = ?params" by (rule takeWhile_eq_take [symmetric])
  have body: "drop 3 input = ?params @ final # rest"
    by (rule trans [OF append_take_drop_id [symmetric] arg_cong2 [where f = append, OF kept d]])
  have "\<not> sgr_param final" using hd_dropWhile [of sgr_param "drop 3 input"] unfolding dropWhile_eq_drop d by simp
  moreover have "sgr_report ?params final = Some mouse" "len = 3 + length ?params + 1"
    using assms d start by (auto simp: parse_sgr_mouse_sequence_def Let_def)
  moreover have "input = SGR_MOUSE_START @ ?params @ final # rest"
    using body start by (metis append_take_drop_id)
  ultimately show ?thesis using that set_takeWhileD by fast
qed

lemma parse_sgr_len: "parse_sgr_mouse_sequence input = Some (mouse, len) \<Longrightarrow> 0 < len \<and> len \<le> length input"
  by (elim parse_sgr_shape) (simp add: SGR_MOUSE_START_def)

lemma parse_sgr_take:
  assumes "parse_sgr_mouse_sequence input = Some (mouse, len)"
  shows "parse_sgr_mouse_sequence (take len input) = Some (mouse, len)"
proof -
  from assms obtain params final rest where s: "input = SGR_MOUSE_START @ params @ final # rest" "\<forall>b \<in> set params. sgr_param b"
    "\<not> sgr_param final" "len = 3 + length params + 1" "sgr_report params final = Some mouse" by (rule parse_sgr_shape)
  then have "take len input = SGR_MOUSE_START @ params @ [final]" by (simp add: SGR_MOUSE_START_def eval_nat_numeral)
  then show ?thesis using parse_sgr_report [OF s(2,3), of "[]"] s(4,5) by simp
qed

lemma find_key_bounds:
  assumes "find_tui_key_sequence input = Some (start, key, e)"
  shows "start < e \<and> e \<le> length input \<and> take (e - start) (drop start input) = sk_bytes key"
proof -
  from assms obtain len where p: "parse_tui_key_sequence (drop start input) = Some (key, len)" "e = start + len" "start < length input"
    by (auto simp: find_tui_key_sequence_def bind_eq_Some_conv dest!: find_upt)
  note k = parse_key_len [OF p(1)]
  then have "length (take len (drop start input)) = len" by metis
  then have "min (length (drop start input)) len = len" by (simp only: length_take)
  then have "len \<le> length (drop start input)" by (simp only: min_def split: if_split_asm)
  with k p show ?thesis by auto
qed

lemma find_sgr_bounds:
  "find_sgr_mouse_from off input = Some (start, mouse, e) \<Longrightarrow>
     off \<le> start \<and> start < e \<and> e \<le> length input \<and>
     parse_sgr_mouse_sequence (drop start input) = Some (mouse, e - start)"
proof (induction off input rule: find_sgr_mouse_from.induct)
  case (1 off input)
  note unfold = find_sgr_mouse_from.simps [of off input]
  have "off < length input" using "1.prems" by (simp add: unfold split: if_splits)
  obtain rel where rel: "find_bytes (drop off input) SGR_MOUSE_START = Some rel"
    using "1.prems" by (auto simp: unfold split: if_splits option.splits)
  show ?case
  proof (cases "parse_sgr_mouse_sequence (drop (off + rel) input)")
    case None
    have "off + rel + 1 \<le> start \<and> start < e \<and> e \<le> length input \<and>
        parse_sgr_mouse_sequence (drop start input) = Some (mouse, e - start)"
      using "1.IH" [OF _ rel None] "1.prems" \<open>off < length input\<close> rel None by (simp add: unfold)
    then show ?thesis by simp
  next
    case (Some x)
    obtain m len where x: "x = (m, len)" by fastforce
    with Some "1.prems" rel \<open>off < length input\<close> have "start = off + rel" "m = mouse" "e = off + rel + len"
      by (simp_all add: unfold)
    moreover have "0 < len" "len \<le> length (drop (off + rel) input)" using parse_sgr_len Some x by blast+
    ultimately show ?thesis using Some x by auto
  qed
qed

lemma next_forward_cases:
  assumes "next_forward input = Some (start, f, e)"
  shows "(f = ForwardRaw [] \<and> find_bytes input BRACKETED_PASTE_START = Some start) \<or>
    (\<exists>mouse. f = ForwardMouse mouse \<and> find_sgr_mouse_sequence input = Some (start, mouse, e)) \<or>
    (\<exists>key. f = ForwardKey key \<and> find_tui_key_sequence input = Some (start, key, e))"
  using assms
  by (auto simp: next_forward_def next_structured_stdin_forward_def List.map_filter_simps split: option.splits if_splits)

lemma next_forward_end:
  "next_forward input = Some (start, f, e) \<Longrightarrow> (\<exists>m. f = ForwardMouse m) \<or> (\<exists>k. f = ForwardKey k) \<Longrightarrow>
     start < e \<and> e \<le> length input"
  using next_forward_cases [of input start f e] find_sgr_bounds [of 0 input start _ e] find_key_bounds [of input start _ e]
  by (auto simp: find_sgr_mouse_sequence_def)

function forwards_loop :: "byte list \<Rightarrow> stdin_forward list" where
  \<comment> \<open>the loop of \<open>stdin_byte_forwards\<close> over the bytes from the offset on\<close>
  "forwards_loop input =
     (if input = [] then []
      else case next_forward input of
        None \<Rightarrow> [ForwardRaw input]
      | Some (start, ForwardMouse m, e) \<Rightarrow> ForwardRaw (take start input) # ForwardMouse m # forwards_loop (drop e input)
      | Some (start, ForwardKey k, e) \<Rightarrow> ForwardRaw (take start input) # ForwardKey k # forwards_loop (drop e input)
      | Some (start, _, _) \<Rightarrow>
          ForwardRaw (take start input) #
          (let body = drop (start + length BRACKETED_PASTE_START) input in
           case find_bytes body BRACKETED_PASTE_END of
             None \<Rightarrow> [ForwardRaw (drop start input)]
           | Some e \<Rightarrow>
               (case from_utf8 (take e body) of
                  Some t \<Rightarrow> ForwardPaste t
                | None \<Rightarrow> ForwardRaw (BRACKETED_PASTE_START @ take (e + length BRACKETED_PASTE_END) body)) #
               forwards_loop (drop (e + length BRACKETED_PASTE_END) body)))"
  by pat_completeness auto
termination
  by (relation "measure length") (auto dest: next_forward_end simp: BRACKETED_PASTE_START_def neq_Nil_conv)

declare forwards_loop.simps [simp del]

definition stdin_byte_forwards :: "byte list \<Rightarrow> stdin_forward list" where
  "stdin_byte_forwards input = filter (\<lambda>f. f \<noteq> ForwardRaw []) (forwards_loop input)"

subsection \<open>Nothing the terminal sends is lost\<close>

definition stands_for :: "stdin_forward \<Rightarrow> byte list \<Rightarrow> bool" where
  \<comment> \<open>what is handed on, and the bytes it came from\<close>
  "stands_for f bs \<longleftrightarrow>
     (case f of
        ForwardRaw raw \<Rightarrow> bs = raw
      | ForwardPaste t \<Rightarrow> \<exists>inner. bs = BRACKETED_PASTE_START @ inner @ BRACKETED_PASTE_END \<and> from_utf8 inner = Some t
      | ForwardMouse m \<Rightarrow> parse_sgr_mouse_sequence bs = Some (m, length bs)
      | ForwardKey k \<Rightarrow> bs = sk_bytes k)"

lemma pieces_cons: "stands_for f p \<Longrightarrow> \<exists>ps. list_all2 stands_for fs ps \<and> concat ps = bs \<Longrightarrow>
    \<exists>ps. list_all2 stands_for (f # fs) ps \<and> concat ps = p @ bs"
  by (metis concat.simps(2) list.rel_inject(2))

lemma forwards_cover: "\<exists>ps. list_all2 stands_for (forwards_loop input) ps \<and> concat ps = input"
proof (induction input rule: measure_induct_rule [of length])
  case (less input)
  have raw: "stands_for (ForwardRaw bs) bs" for bs by (simp add: stands_for_def)
  note unfold = forwards_loop.simps [of input]
  have one: "\<exists>ps. list_all2 stands_for [ForwardRaw bs] ps \<and> concat ps = bs" for bs
    by (rule exI [of _ "[bs]"]) (simp add: raw)
  show ?case
  proof (cases "input = [] \<or> next_forward input = None")
    case True
    with one [of input] show ?thesis by (auto simp: unfold)
  next
    case False
    then obtain start f e where n: "next_forward input = Some (start, f, e)" "input \<noteq> []" by auto
    from next_forward_cases [OF n(1)] consider
      (paste) "f = ForwardRaw []" "find_bytes input BRACKETED_PASTE_START = Some start"
      | (mouse) m where "f = ForwardMouse m" "find_sgr_mouse_sequence input = Some (start, m, e)"
      | (key) k where "f = ForwardKey k" "find_tui_key_sequence input = Some (start, k, e)" by blast
    then show ?thesis
    proof cases
      case mouse
      note b = find_sgr_bounds [OF mouse(2) [unfolded find_sgr_mouse_sequence_def]]
      have p: "stands_for f (take (e - start) (drop start input))"
        using parse_sgr_take [of "drop start input" m "e - start"] b mouse(1) by (auto simp: stands_for_def min_def)
      have "take start input @ take (e - start) (drop start input) @ drop e input = input"
        using b by (metis append_take_drop_id drop_drop le_add_diff_inverse2 less_imp_le)
      moreover have "length (drop e input) < length input" using b by auto
      ultimately show ?thesis
        using pieces_cons [OF raw pieces_cons [OF p less.IH], of "drop e input" "take start input"] mouse n by (simp add: unfold)
    next
      case key
      note b = find_key_bounds [OF key(2)]
      have p: "stands_for f (take (e - start) (drop start input))" using b key(1) by (simp add: stands_for_def)
      have "take start input @ take (e - start) (drop start input) @ drop e input = input"
        using b by (metis append_take_drop_id drop_drop le_add_diff_inverse2 less_imp_le)
      moreover have "length (drop e input) < length input" using b by auto
      ultimately show ?thesis
        using pieces_cons [OF raw pieces_cons [OF p less.IH], of "drop e input" "take start input"] key n by (simp add: unfold)
    next
      case paste
      let ?body = "drop (start + length BRACKETED_PASTE_START) input"
      have "BRACKETED_PASTE_START \<noteq> []" by (simp add: BRACKETED_PASTE_START_def)
      note b = find_bytes_SomeD [OF paste(2) this]
      have whole: "take start input @ BRACKETED_PASTE_START @ ?body = input"
        using b by (metis append_take_drop_id drop_drop add.commute)
      show ?thesis
      proof (cases "find_bytes ?body BRACKETED_PASTE_END")
        case None
        then show ?thesis
          using pieces_cons [OF raw one, of "take start input" "drop start input"] n paste by (simp add: unfold Let_def)
      next
        case (Some q)
        have "BRACKETED_PASTE_END \<noteq> []" by (simp add: BRACKETED_PASTE_END_def)
        note c = find_bytes_SomeD [OF Some this]
        let ?f = "case from_utf8 (take q ?body) of Some t \<Rightarrow> ForwardPaste t
          | None \<Rightarrow> ForwardRaw (BRACKETED_PASTE_START @ take (q + length BRACKETED_PASTE_END) ?body)"
        have inner: "take (q + length BRACKETED_PASTE_END) ?body = take q ?body @ BRACKETED_PASTE_END"
          using c by (simp add: take_add)
        have p: "stands_for ?f (BRACKETED_PASTE_START @ take (q + length BRACKETED_PASTE_END) ?body)"
          unfolding inner by (auto simp: stands_for_def split: option.split)
        have "take start input @ (BRACKETED_PASTE_START @ take (q + length BRACKETED_PASTE_END) ?body) @
            drop (q + length BRACKETED_PASTE_END) ?body = input"
          using whole by (metis append.assoc append_take_drop_id)
        moreover have "length (drop (q + length BRACKETED_PASTE_END) ?body) < length input"
          using n(2) by (cases input) (auto simp: BRACKETED_PASTE_START_def)
        ultimately show ?thesis
          using pieces_cons [OF raw pieces_cons [OF p less.IH], of "drop (q + length BRACKETED_PASTE_END) ?body" "take start input"]
            n paste Some by (simp add: unfold Let_def)
      qed
    qed
  qed
qed

lemma stdin_covered:
  "\<exists>ps. list_all2 stands_for (stdin_byte_forwards input) ps \<and> concat ps = input"
proof -
  have empty: "stands_for (ForwardRaw []) p \<Longrightarrow> p = []" for p by (simp add: stands_for_def)
  have "\<exists>qs. list_all2 stands_for (filter (\<lambda>f. f \<noteq> ForwardRaw []) fs) qs \<and> concat qs = concat ps"
    if "list_all2 stands_for fs ps" for fs ps
    using that
  proof (induction rule: list_all2_induct)
    case (Cons f fs p ps)
    then obtain qs where "list_all2 stands_for (filter (\<lambda>f. f \<noteq> ForwardRaw []) fs) qs" "concat qs = concat ps" by blast
    with Cons.hyps show ?case
      using empty [of p] pieces_cons [of f p "filter (\<lambda>f. f \<noteq> ForwardRaw []) fs" "concat ps"] by (cases "f = ForwardRaw []") auto
  qed simp
  then show ?thesis using forwards_cover [of input] unfolding stdin_byte_forwards_def by metis
qed

subsection \<open>Mouse reports are read as they were written\<close>

definition wire_button_of :: "mouse_button \<Rightarrow> wire_mouse_button" where
  "wire_button_of b =
     (case b of ButtonNone \<Rightarrow> WireButtonNone | ButtonLeft \<Rightarrow> WireButtonLeft | ButtonMiddle \<Rightarrow> WireButtonMiddle
      | ButtonRight \<Rightarrow> WireButtonRight | ButtonWheelUp \<Rightarrow> WireWheelUp | ButtonWheelDown \<Rightarrow> WireWheelDown)"

definition wire_action_of :: "mouse_action \<Rightarrow> wire_mouse_action" where
  "wire_action_of a = (case a of MousePress \<Rightarrow> WirePress | MouseRelease \<Rightarrow> WireRelease | MouseMotion \<Rightarrow> WireMotion)"

definition read_mouse :: "mouse_terminal_input \<Rightarrow> sgr_mouse_input" where
  \<comment> \<open>the event as the client reads it; the report has no bit for the super key\<close>
  "read_mouse i =
     \<lparr>sm_row = mi_row i, sm_col = mi_col i, sm_button = wire_button_of (mi_button i), sm_action = wire_action_of (mi_action i),
      sm_modifiers = mi_modifiers i mod 8\<rparr>"

definition mouse_code_bits :: "mouse_button \<Rightarrow> bool \<Rightarrow> bool \<Rightarrow> bool \<Rightarrow> bool \<Rightarrow> nat" where
  "mouse_code_bits b motion shift alt ctrl =
     mouse_button_code b + 32 * of_bool motion + 4 * of_bool shift + 8 * of_bool alt + 16 * of_bool ctrl"

lemma mouse_code_is_bits:
  "mouse_code i = mouse_code_bits (mi_button i) (mi_action i = MouseMotion) (bit (mi_modifiers i) 0) (bit (mi_modifiers i) 2)
     (bit (mi_modifiers i) 1)"
  by (simp add: mouse_code_def mouse_code_bits_def Let_def)

lemma mouse_code_read:
  "sgr_button (mouse_code_bits b m s a c) = wire_button_of b"
  "bit (mouse_code_bits b m s a c) 5 = m"
  "sgr_modifiers (mouse_code_bits b m s a c) = of_bool s + 2 * of_bool c + 4 * of_bool a"
  by (cases b; cases m; cases s; cases a; cases c;
      simp add: mouse_code_bits_def mouse_button_code_def sgr_button_def wire_button_of_def bit_iff_odd sgr_modifiers_def)+

lemma mod_8_bits: "n mod 8 = of_bool (bit n 0) + 2 * of_bool (bit n 1) + 4 * of_bool (bit (n :: nat) 2)"
proof -
  have "n mod 8 = n mod 2 + 2 * (n div 2 mod 2) + 4 * (n div 4 mod 2)"
    using mod_mult2_eq [of n 2 4] mod_mult2_eq [of "n div 2" 2 2] div_mult2_eq [of n 2 2] by simp
  then show ?thesis by (simp add: bit_iff_odd of_bool_odd_eq_mod_2)
qed

lemma ascii_chars: "list_all (\<lambda>c. c < 128) s \<Longrightarrow> utf8_bytes s = map of_nat s"
  by (induction s) (simp_all add: utf8_char_def)

lemma sgr_mouse_round_trip:
  assumes "encode_sgr_mouse_input i = Some bs" and "mi_mouse_format i = FormatSgr" and "mi_row i < U32_MAX" and "mi_col i < U32_MAX"
  shows "parse_sgr_mouse_sequence (bs @ rest) = Some (read_mouse i, length bs)"
proof -
  let ?code = "mouse_code i" and ?x = "mi_col i + 1" and ?y = "mi_row i + 1" and ?release = "mi_action i = MouseRelease"
  let ?params = "dec_str ?code @ 59 # dec_str ?x @ 59 # dec_str ?y"
  let ?final = "if ?release then 0x6D else 0x4D :: byte"
  have seq: "bs = utf8_bytes (sgr_sequence ?code ?x ?y ?release)"
    using assms by (auto simp: encode_sgr_mouse_input_def mouse_position_def checked_add_u32_def split: if_splits)
  have digit: "48 \<le> c \<and> c \<le> 57" if "c \<in> set (dec_str n)" for c n
    using dec_str_digits [OF that] by (simp add: is_digit_def)
  have ascii: "list_all (\<lambda>c. c < 128) ?params" using digit by (fastforce simp: list_all_iff)
  have bs: "bs = SGR_MOUSE_START @ utf8_bytes ?params @ [?final]"
    by (auto simp: seq sgr_sequence_def SGR_MOUSE_START_def lit_def utf8_char_def)
  have plain: "sgr_param b" if "b \<in> set (utf8_bytes ?params)" for b
  proof -
    from that have "b \<in> of_nat ` set ?params" unfolding ascii_chars [OF ascii] by auto
    then obtain c where c: "c \<in> set ?params" "b = of_nat c" by blast
    then have "48 \<le> c \<and> c \<le> 59" using digit by fastforce
    then have "unat b = c" using c(2) by (simp add: unat_of_nat)
    then show ?thesis using \<open>48 \<le> c \<and> c \<le> 59\<close> by auto
  qed
  have decoded: "from_utf8 (utf8_bytes ?params) = Some ?params"
    using ascii by (intro from_utf8_bytes) (rule list.pred_mono_strong, assumption, simp add: scalar_def)
  have "59 \<notin> set (dec_str n)" for n using digit [of 59 n] by auto
  then have parts: "split_on 59 ?params = [dec_str ?code, dec_str ?x, dec_str ?y]"
    by (simp add: split_on_append_sep split_on_no_sep)
  have "?code \<le> U32_MAX"
    by (auto simp: mouse_code_is_bits mouse_code_bits_def mouse_button_code_def U32_MAX_def of_bool_def split: mouse_button.split)
  then have numbers: "parse_u32 (dec_str ?code) = Some ?code" "parse_u32 (dec_str ?x) = Some ?x" "parse_u32 (dec_str ?y) = Some ?y"
    using assms(3,4) by (simp_all add: parse_u32_dec_str)
  have event: "sgr_button ?code = wire_button_of (mi_button i)" "sgr_action ?final ?code = wire_action_of (mi_action i)"
    "sgr_modifiers ?code = mi_modifiers i mod 8"
    by (cases "mi_action i";
        simp add: mouse_code_is_bits mouse_code_read sgr_action_def wire_action_of_def mod_8_bits)+
  have "sgr_report (utf8_bytes ?params) ?final = Some (read_mouse i)"
    using decoded parts numbers event by (simp add: sgr_report_def read_mouse_def)
  moreover have "bs @ rest = SGR_MOUSE_START @ utf8_bytes ?params @ ?final # rest" "length bs = 3 + length (utf8_bytes ?params) + 1"
    unfolding bs by (simp_all add: SGR_MOUSE_START_def)
  ultimately show ?thesis
    using parse_sgr_report [of "utf8_bytes ?params" ?final rest] plain by simp
qed

subsection \<open>The size of the pane\<close>

definition frontend_resize_pane_size :: "workspace_summary \<Rightarrow> ustring \<Rightarrow> u32 \<Rightarrow> u32 \<Rightarrow> bool \<Rightarrow> u32 \<times> u32" where
  "frontend_resize_pane_size w pane_id terminal_cols terminal_rows ratatui_redraw =
     (if \<not> ratatui_redraw then (terminal_cols, terminal_rows)
      else
        (let cols = min (max terminal_cols 1) U16_MAX; rows = min (max (terminal_rows - 1) 1) U16_MAX in
         case pane_content_rect w cols rows pane_id of
           Some r \<Rightarrow> (max (rc_width r) 1, max (rc_height r) 1)
         | None \<Rightarrow> (terminal_cols, terminal_rows)))"

fun apply_frontend_pane_size :: "ustring \<Rightarrow> u32 \<Rightarrow> u32 \<Rightarrow> workspace_pane_summary \<Rightarrow> workspace_pane_summary \<times> bool"
  and apply_frontend_pane_sizes ::
    "ustring \<Rightarrow> u32 \<Rightarrow> u32 \<Rightarrow> workspace_pane_summary list \<Rightarrow> workspace_pane_summary list \<times> bool" where
  "apply_frontend_pane_size k cols rows (WorkspacePaneSummary pane_id c r policy axis children) =
     (if pane_id = k then (WorkspacePaneSummary pane_id cols rows policy axis children, True)
      else case apply_frontend_pane_sizes k cols rows children of
        (children1, found) \<Rightarrow> (WorkspacePaneSummary pane_id c r policy axis children1, found))"
| "apply_frontend_pane_sizes k cols rows [] = ([], False)"
| "apply_frontend_pane_sizes k cols rows (p # ps) =
     (case apply_frontend_pane_size k cols rows p of
        (p1, True) \<Rightarrow> (p1 # ps, True)
      | (p1, False) \<Rightarrow> (case apply_frontend_pane_sizes k cols rows ps of (ps1, found) \<Rightarrow> (p1 # ps1, found)))"

definition apply_frontend_workspace_size :: "workspace_summary \<Rightarrow> ustring \<Rightarrow> u32 \<Rightarrow> u32 \<Rightarrow> workspace_summary" where
  "apply_frontend_workspace_size w pane_id cols rows =
     w\<lparr>wk_cols := cols, wk_rows := rows,
       wk_pane_tree := map_option (\<lambda>t. fst (apply_frontend_pane_size pane_id cols rows t)) (wk_pane_tree w)\<rparr>"

subsection \<open>Panes and tabs of a workspace\<close>

fun collect_leaf_panes :: "workspace_pane_summary \<Rightarrow> workspace_pane_summary list" where
  "collect_leaf_panes (WorkspacePaneSummary pane_id cols rows policy axis children) =
     (if children = [] then [WorkspacePaneSummary pane_id cols rows policy axis children]
      else concat (map collect_leaf_panes children))"

definition root_of :: "workspace_summary \<Rightarrow> workspace_pane_summary" where
  "root_of w = WorkspacePaneSummary (wk_pane_id w) (wk_cols w) (wk_rows w) (wk_policy w) AxisNone []"

definition workspace_panes :: "workspace_summary \<Rightarrow> workspace_pane_summary list" where
  "workspace_panes w = (case wk_pane_tree w of None \<Rightarrow> [root_of w] | Some root \<Rightarrow> collect_leaf_panes root)"

definition workspace_tabs :: "workspace_summary \<Rightarrow> workspace_tab_summary list" where
  "workspace_tabs w =
     (if wk_tabs w \<noteq> [] then wk_tabs w
      else [\<lparr>wt_tab_id = wk_tab_id w, wt_title = wk_tab_id w, wt_active_pane_id = wk_pane_id w,
             wt_root = (case wk_pane_tree w of Some root \<Rightarrow> root | None \<Rightarrow> root_of w)\<rparr>])"

definition preserve_live_client_focus :: "workspace_summary \<Rightarrow> ustring \<Rightarrow> workspace_summary" where
  "preserve_live_client_focus w pane_id =
     (if pane_id \<in> wp_id ` set (workspace_panes w) then w\<lparr>wk_pane_id := pane_id\<rparr> else w)"

subsection \<open>Menus\<close>

definition overlay_text :: "ustring \<Rightarrow> overlay_line" where
  "overlay_text t = \<lparr>ol_text = t, ol_action = None\<rparr>"

definition marked_line :: "bool \<Rightarrow> ustring \<Rightarrow> overlay_action \<Rightarrow> overlay_line" where
  \<comment> \<open>a line with a star for what is current, and an action for the others\<close>
  "marked_line current t action =
     \<lparr>ol_text = (if current then lit ''* '' else lit ''  '') @ t, ol_action = (if current then None else Some action)\<rparr>"

definition session_overlay_lines :: "workspace_summary \<Rightarrow> session_inventory option \<Rightarrow> overlay_line list" where
  "session_overlay_lines w inventory =
     (case inventory of
        None \<Rightarrow> [overlay_text (lit ''session '' @ wk_session_id w)]
      | Some inventory1 \<Rightarrow>
          map (\<lambda>x. marked_line (si_session_id x = wk_session_id w) (si_session_id x @ 32 # si_title x)
            (OverlaySwitchSession (si_session_id x))) (sn_sessions inventory1))"

definition window_overlay_lines :: "workspace_summary \<Rightarrow> overlay_line list" where
  "window_overlay_lines w =
     overlay_text (lit ''tab '' @ wk_tab_id w) #
     map (\<lambda>t. marked_line (wt_tab_id t = wk_tab_id w) (wt_tab_id t @ 32 # wt_title t) (OverlaySwitchTab (wt_tab_id t))) (workspace_tabs w) @
     map (\<lambda>p. marked_line (wp_id p = wk_pane_id w) (wp_id p @ 32 # dec_str (wp_cols p) @ lit ''x'' @ dec_str (wp_rows p))
       (OverlayFocusPane (wp_id p))) (workspace_panes w)"

definition menu_overlay_for_action_with_session_inventory ::
  "menu_action \<Rightarrow> workspace_summary \<Rightarrow> terminal_modes \<Rightarrow> session_inventory option \<Rightarrow> tui_overlay" where
  "menu_overlay_for_action_with_session_inventory action w modes inventory =
     (case (case action of
              MenuSessions \<Rightarrow> (lit ''sessions'', session_overlay_lines w inventory)
            | MenuNewSession \<Rightarrow> (lit ''new session'', [overlay_text (lit ''new named session'')])
            | MenuWindows \<Rightarrow> (lit ''windows'', window_overlay_lines w)
            | MenuClipboard \<Rightarrow>
                (lit ''clipboard'', [overlay_text (if tm_bracketed_paste modes then lit ''pane bracketed paste enabled''
                   else lit ''nmux paste forwarding enabled'')])) of
        (title, ls) \<Rightarrow> \<lparr>ov_title = title, ov_lines = ls, ov_selected = position_of (\<lambda>l. ol_action l \<noteq> None) ls\<rparr>)"

definition menu_overlay_for_action :: "menu_action \<Rightarrow> workspace_summary \<Rightarrow> terminal_modes \<Rightarrow> tui_overlay" where
  "menu_overlay_for_action action w modes = menu_overlay_for_action_with_session_inventory action w modes None"

definition menu_index :: "menu_action \<Rightarrow> usize option" where
  "menu_index action = position_of (\<lambda>a. a = action) MENU_ACTIONS"

definition cycle_live_menu :: "usize option \<Rightarrow> int \<Rightarrow> usize option" where
  "cycle_live_menu active delta =
     Some (nat ((int (case active of Some i \<Rightarrow> i | None \<Rightarrow> 0) + delta) mod int (length MENU_ACTIONS)))"

record menu_state =
  mu_active_menu_index :: "usize option"
  mu_active_overlay :: "tui_overlay option"

datatype key_effect =
  EffectRepaint
| EffectNewSession
    \<comment> \<open>the command for a new session, whose workspace is shown\<close>
| EffectRun overlay_action

datatype key_handling = KeyHandled | KeyForward "byte list"

definition open_live_menu_overlay ::
  "(unit \<Rightarrow> session_inventory option) \<Rightarrow> workspace_summary \<Rightarrow> terminal_modes \<Rightarrow> menu_action \<Rightarrow> menu_state \<Rightarrow>
     (menu_state \<times> key_effect list) option" where
  \<comment> \<open>\<open>fetch\<close>: the answer of the server about its sessions; \<open>None\<close>: that failed, and the error is returned\<close>
  "open_live_menu_overlay fetch w modes action m =
     (if action = MenuNewSession
      then Some (\<lparr>mu_active_menu_index = None, mu_active_overlay = None\<rparr>, [EffectNewSession, EffectRepaint])
      else
        Option.bind (if action = MenuSessions then map_option Some (fetch ()) else Some None)
          (\<lambda>inventory.
             let ov = menu_overlay_for_action_with_session_inventory action w modes inventory in
             Some (m\<lparr>mu_active_overlay := Some (ov\<lparr>ov_selected := selectable_overlay_index ov\<rparr>)\<rparr>, [EffectRepaint])))"

definition handle_overlay_key :: "stdin_key_input \<Rightarrow> tui_overlay \<Rightarrow> menu_state \<Rightarrow> menu_state \<times> key_effect list \<times> key_handling" where
  \<comment> \<open>the keys while an overlay is open\<close>
  "handle_overlay_key key ov m =
     (if sk_key key \<in> {KeyUp, KeyBackTab} then
        (m\<lparr>mu_active_overlay := Some (move_overlay_selection ov (-1))\<rparr>, [EffectRepaint], KeyHandled)
      else if sk_key key \<in> {KeyDown, KeyTab} then
        (m\<lparr>mu_active_overlay := Some (move_overlay_selection ov 1)\<rparr>, [EffectRepaint], KeyHandled)
      else if sk_key key = KeyEnter then
        (case selected_overlay_action ov of
           Some action \<Rightarrow> (\<lparr>mu_active_menu_index = None, mu_active_overlay = None\<rparr>, [EffectRun action], KeyHandled)
         | None \<Rightarrow> (m, [], KeyHandled))
      else (m, [], KeyForward (sk_bytes key)))"

definition menu_after_key :: "stdin_key \<Rightarrow> usize option \<Rightarrow> usize option option" where
  \<comment> \<open>the keys while a menu is active: which menu is active then, or that the key is no key of the menu\<close>
  "menu_after_key key active =
     (if key \<in> {KeyLeft, KeyBackTab} then Some (cycle_live_menu active (-1))
      else if key \<in> {KeyRight, KeyTab} then Some (cycle_live_menu active 1)
      else if key \<in> {KeyDown, KeyEnter} then Some active
      else None)"

definition handle_live_tui_key ::
  "(unit \<Rightarrow> session_inventory option) \<Rightarrow> workspace_summary \<Rightarrow> terminal_modes \<Rightarrow> bool \<Rightarrow> bool \<Rightarrow> stdin_key_input \<Rightarrow> menu_state \<Rightarrow>
     (menu_state \<times> key_effect list \<times> key_handling) option" where
  "handle_live_tui_key fetch w modes output_json redraw key m =
     (let opened = (\<lambda>action m. map_option (\<lambda>(m1, fx). (m1, fx, KeyHandled)) (open_live_menu_overlay fetch w modes action m)) in
      if output_json \<or> \<not> redraw then Some (m, [], KeyForward (sk_bytes key))
      else if sk_key key = KeyEscape then
        (if mu_active_overlay m \<noteq> None then Some (m\<lparr>mu_active_overlay := None\<rparr>, [EffectRepaint], KeyHandled)
         else if mu_active_menu_index m \<noteq> None then Some (m\<lparr>mu_active_menu_index := None\<rparr>, [EffectRepaint], KeyHandled)
         else Some (m, [], KeyForward (sk_bytes key)))
      else case sk_key key of
        KeyOpenMenu action \<Rightarrow> opened action (m\<lparr>mu_active_menu_index := menu_index action\<rparr>)
      | _ \<Rightarrow>
          (case mu_active_overlay m of
             Some ov \<Rightarrow> Some (handle_overlay_key key ov m)
           | None \<Rightarrow>
               (case mu_active_menu_index m of
                  None \<Rightarrow> Some (m, [], KeyForward (sk_bytes key))
                | Some _ \<Rightarrow>
                    (case menu_after_key (sk_key key) (mu_active_menu_index m) of
                       None \<Rightarrow> Some (m, [], KeyForward (sk_bytes key))
                     | Some active \<Rightarrow>
                         opened (MENU_ACTIONS ! (case active of Some i \<Rightarrow> i | None \<Rightarrow> 0)) (m\<lparr>mu_active_menu_index := active\<rparr>)))))"

subsection \<open>Where a mouse event goes\<close>

datatype live_scroll_direction = ScrollUp | ScrollDown

datatype live_mouse_dispatch =
  DispatchFocusPane ustring
| DispatchMenu menu_action
| DispatchOverlay overlay_action
| DispatchPaneMouse ustring mouse_input_spec
| DispatchPaneScroll ustring live_scroll_direction u16
| DispatchClearOverlay

definition sgr_mouse_is_primary_press :: "sgr_mouse_input \<Rightarrow> bool" where
  "sgr_mouse_is_primary_press mouse \<longleftrightarrow> sm_action mouse = WirePress \<and> sm_button mouse = WireButtonLeft"

definition sgr_mouse_scroll_direction :: "sgr_mouse_input \<Rightarrow> live_scroll_direction option" where
  "sgr_mouse_scroll_direction mouse =
     (if sm_action mouse \<noteq> WirePress then None
      else if sm_button mouse = WireWheelUp then Some ScrollUp
      else if sm_button mouse = WireWheelDown then Some ScrollDown
      else None)"

definition dispatch_frame ::
  "workspace_summary \<Rightarrow> ustring \<Rightarrow> (ustring, ustring) btree option \<Rightarrow> tui_overlay option \<Rightarrow> frame_input" where
  "dispatch_frame w active_surface_text pane_surfaces overlay =
     \<lparr>fi_workspace = w, fi_active_surface_text = active_surface_text, fi_pane_surfaces = pane_surfaces,
      fi_pane_surface_summaries = None, fi_pane_chrome = None, fi_overlay = overlay\<rparr>"

definition live_mouse_dispatch_for_workspace_size ::
  "(rect \<Rightarrow> draw list \<Rightarrow> u16 \<Rightarrow> u16 \<Rightarrow> ustring option) \<Rightarrow> sgr_mouse_input \<Rightarrow> frame_input \<Rightarrow>
     (ustring, terminal_modes) btree option \<Rightarrow> terminal_modes \<Rightarrow> u16 \<Rightarrow> u16 \<Rightarrow> live_mouse_dispatch option" where
  "live_mouse_dispatch_for_workspace_size buffer mouse i pane_modes active_modes cols rows =
     (let frame = render_workspace_frame buffer i (max cols 1) (max (rows - 1) 1); x = sm_col mouse; y = sm_row mouse in
      if U16_MAX < x \<or> U16_MAX < y then None
      else Option.bind (hit_test_region (tf_hits frame) x y) (\<lambda>hit.
        case hr_target hit of
          HitPaneContent pane_id \<Rightarrow>
            (let modes = (case opt_get pane_modes pane_id of
                   Some m \<Rightarrow> m
                 | None \<Rightarrow> if pane_id = wk_pane_id (fi_workspace i) then active_modes else terminal_modes_default)
             in if tm_mouse_tracking modes then
                  Some (DispatchPaneMouse pane_id
                    \<lparr>ms_row = y - rc_y (hr_rect hit), ms_col = x - rc_x (hr_rect hit), ms_pixel_x = None, ms_pixel_y = None,
                     ms_button = sm_button mouse, ms_action = sm_action mouse, ms_modifiers = sm_modifiers mouse\<rparr>)
                else case sgr_mouse_scroll_direction mouse of
                  Some d \<Rightarrow> Some (DispatchPaneScroll pane_id d (max (rc_height (hr_rect hit)) 1))
                | None \<Rightarrow>
                    if pane_id \<noteq> wk_pane_id (fi_workspace i) \<and> sgr_mouse_is_primary_press mouse
                    then Some (DispatchFocusPane pane_id) else None)
        | target \<Rightarrow>
            if \<not> sgr_mouse_is_primary_press mouse then None
            else (case target of
              HitPane pane_id \<Rightarrow> Some (DispatchFocusPane pane_id)
            | HitWindowTreePane pane_id \<Rightarrow> Some (DispatchFocusPane pane_id)
            | HitMenu action \<Rightarrow> Some (DispatchMenu action)
            | HitOverlay action \<Rightarrow> Some (DispatchOverlay action)
            | _ \<Rightarrow> Some DispatchClearOverlay)))"

definition live_mouse_dispatch_for_workspace ::
  "(rect \<Rightarrow> draw list \<Rightarrow> u16 \<Rightarrow> u16 \<Rightarrow> ustring option) \<Rightarrow> (u32 \<times> u32) option \<Rightarrow> sgr_mouse_input \<Rightarrow> frame_input \<Rightarrow>
     (ustring, terminal_modes) btree option \<Rightarrow> terminal_modes \<Rightarrow> live_mouse_dispatch option" where
  \<comment> \<open>at the size of the terminal, if that is known\<close>
  "live_mouse_dispatch_for_workspace buffer terminal_size mouse i pane_modes active_modes =
     (case (case terminal_size of Some s \<Rightarrow> s | None \<Rightarrow> (80, 24)) of
        (cols, rows) \<Rightarrow>
          live_mouse_dispatch_for_workspace_size buffer mouse i pane_modes active_modes (min (max cols 1) U16_MAX)
            (min (max rows 1) U16_MAX))"

datatype mouse_effect =
  MouseRepaint
| MouseNewSession
| MouseRun overlay_action
| MouseSend ustring mouse_input_spec
| MouseScroll ustring live_scroll_direction u16

definition no_menu :: menu_state where
  "no_menu = \<lparr>mu_active_menu_index = None, mu_active_overlay = None\<rparr>"

definition handle_mouse_menu ::
  "(unit \<Rightarrow> session_inventory option) \<Rightarrow> workspace_summary \<Rightarrow> terminal_modes \<Rightarrow> bool \<Rightarrow> menu_action \<Rightarrow> menu_state \<Rightarrow>
     (menu_state \<times> mouse_effect list) option" where
  \<comment> \<open>a menu is clicked; \<open>repaint\<close>: the screen is drawn and nothing is printed as JSON\<close>
  "handle_mouse_menu fetch w modes repaint action m =
     (let painted = (if repaint then [MouseRepaint] else []) in
      if action = MenuNewSession then Some (no_menu, MouseNewSession # painted)
      else
        Option.bind (if action = MenuSessions then map_option Some (fetch ()) else Some None)
          (\<lambda>inventory.
             let ov = (case inventory of
                   None \<Rightarrow> menu_overlay_for_action action w modes
                 | Some _ \<Rightarrow> menu_overlay_for_action_with_session_inventory action w modes inventory)
             in Some (\<lparr>mu_active_menu_index = menu_index action, mu_active_overlay = Some ov\<rparr>, painted)))"

definition handle_mouse_dispatch ::
  "(unit \<Rightarrow> session_inventory option) \<Rightarrow> workspace_summary \<Rightarrow> terminal_modes \<Rightarrow> bool \<Rightarrow> live_mouse_dispatch option \<Rightarrow> menu_state \<Rightarrow>
     (menu_state \<times> mouse_effect list) option" where
  \<comment> \<open>what the loop of the client does for a mouse event\<close>
  "handle_mouse_dispatch fetch w modes repaint d m =
     (case d of
        None \<Rightarrow> Some (m, [])
      | Some (DispatchFocusPane pane_id) \<Rightarrow> Some (no_menu, [MouseRun (OverlayFocusPane pane_id)])
      | Some (DispatchPaneMouse pane_id mouse) \<Rightarrow> Some (no_menu, [MouseSend pane_id mouse])
      | Some (DispatchPaneScroll pane_id direction rows) \<Rightarrow> Some (no_menu, [MouseScroll pane_id direction rows])
      | Some (DispatchMenu action) \<Rightarrow> handle_mouse_menu fetch w modes repaint action m
      | Some (DispatchOverlay action) \<Rightarrow> Some (no_menu, [MouseRun action])
      | Some DispatchClearOverlay \<Rightarrow>
          let painted = (if repaint then [MouseRepaint] else []) in
          if mu_active_overlay m \<noteq> None then Some (m\<lparr>mu_active_overlay := None\<rparr>, painted)
          else if mu_active_menu_index m \<noteq> None then Some (m\<lparr>mu_active_menu_index := None\<rparr>, painted)
          else Some (m, []))"

subsection \<open>The mouse modes of the client's terminal\<close>

definition host_mouse_mode_disable_sequence :: ustring where
  "host_mouse_mode_disable_sequence =
     27 # lit ''[?1000l'' @ 27 # lit ''[?1002l'' @ 27 # lit ''[?1003l'' @ 27 # lit ''[?1006l'' @ 27 # lit ''[?1016l''"

definition host_mouse_mode_enable_sequence :: "terminal_modes \<Rightarrow> ustring" where
  "host_mouse_mode_enable_sequence modes =
     (if \<not> tm_mouse_tracking modes then 27 # lit ''[?1000h'' @ 27 # lit ''[?1006h''
      else
        (let tracking = (case tm_mouse_tracking_mode modes of
               TrackX10 \<Rightarrow> 27 # lit ''[?1000h'' | TrackNormal \<Rightarrow> 27 # lit ''[?1000h'' | TrackButton \<Rightarrow> 27 # lit ''[?1002h''
             | TrackAny \<Rightarrow> 27 # lit ''[?1003h'' | _ \<Rightarrow> [])
         in if tracking = [] then []
            else case tm_mouse_format modes of
              FormatSgr \<Rightarrow> tracking @ 27 # lit ''[?1006h''
            | FormatSgrPixels \<Rightarrow> tracking @ 27 # lit ''[?1006h'' @ 27 # lit ''[?1016h''
            | _ \<Rightarrow> tracking))"

definition sync_host_mouse_modes :: "terminal_modes \<Rightarrow> terminal_modes option \<Rightarrow> terminal_modes option \<times> ustring" where
  \<comment> \<open>the modes mirrored then, and what is printed\<close>
  "sync_host_mouse_modes modes current =
     (if current = Some modes then (current, [])
      else (Some modes, host_mouse_mode_disable_sequence @ host_mouse_mode_enable_sequence modes))"

subsection \<open>Mouse events fit the pane\<close>

lemma resize_is_content_rect:
  assumes "pane_content_rect w (min (max cols 1) U16_MAX) (min (max (rows - 1) 1) U16_MAX) k = Some r"
  shows "frontend_resize_pane_size w k cols rows True = (max (rc_width r) 1, max (rc_height r) 1)"
  using assms by (simp add: frontend_resize_pane_size_def Let_def)

lemma screen_size_same:
  assumes "rows \<le> U16_MAX"
  shows "max (min (max rows 1) U16_MAX - 1) 1 = min (max (rows - 1) 1) U16_MAX" "max (min (max cols 1) U16_MAX) 1 = min (max cols 1) U16_MAX"
  using assms by (auto simp: U16_MAX_def)

lemma mouse_goes_to_pane:
  assumes "rows \<le> U16_MAX" and "fi_overlay i = None"
    and "\<And>root. wk_pane_tree (fi_workspace i) = Some root \<Longrightarrow> well_split root"
    and r: "pane_content_rect (fi_workspace i) (min (max cols 1) U16_MAX) (min (max (rows - 1) 1) U16_MAX) k = Some r"
    and inside: "rect_contains r (sm_col mouse) (sm_row mouse)"
    and tracking: "tm_mouse_tracking (case opt_get pane_modes k of Some m \<Rightarrow> m
      | None \<Rightarrow> if k = wk_pane_id (fi_workspace i) then active_modes else terminal_modes_default)"
  shows "live_mouse_dispatch_for_workspace buffer (Some (cols, rows)) mouse i pane_modes active_modes =
      Some (DispatchPaneMouse k
        \<lparr>ms_row = sm_row mouse - rc_y r, ms_col = sm_col mouse - rc_x r, ms_pixel_x = None, ms_pixel_y = None,
         ms_button = sm_button mouse, ms_action = sm_action mouse, ms_modifiers = sm_modifiers mouse\<rparr>)"
    and "sm_row mouse - rc_y r < snd (frontend_resize_pane_size (fi_workspace i) k cols rows True)"
    and "sm_col mouse - rc_x r < fst (frontend_resize_pane_size (fi_workspace i) k cols rows True)"
proof -
  let ?c = "min (max cols 1) U16_MAX" and ?r = "min (max (rows - 1) 1) U16_MAX"
  have small: "sm_col mouse < U16_MAX" "sm_row mouse < U16_MAX"
    using inside by (auto simp: rect_contains_def sat_add_u16_def)
  have "hit_test_region (tf_hits (render_workspace_frame buffer i ?c ?r)) (sm_col mouse) (sm_row mouse) = Some (content_hit k r)"
    by (rule front_pane_content [OF _ _ assms(2,3) r inside]) simp_all
  with small tracking show "live_mouse_dispatch_for_workspace buffer (Some (cols, rows)) mouse i pane_modes active_modes =
      Some (DispatchPaneMouse k
        \<lparr>ms_row = sm_row mouse - rc_y r, ms_col = sm_col mouse - rc_x r, ms_pixel_x = None, ms_pixel_y = None,
         ms_button = sm_button mouse, ms_action = sm_action mouse, ms_modifiers = sm_modifiers mouse\<rparr>)"
    by (simp add: live_mouse_dispatch_for_workspace_def live_mouse_dispatch_for_workspace_size_def Let_def
        screen_size_same [OF assms(1)] content_hit_def del: One_nat_def)
  show "sm_row mouse - rc_y r < snd (frontend_resize_pane_size (fi_workspace i) k cols rows True)"
    "sm_col mouse - rc_x r < fst (frontend_resize_pane_size (fi_workspace i) k cols rows True)"
    using inside by (auto simp: resize_is_content_rect [OF r] rect_contains_def sat_add_u16_def)
qed

subsection \<open>Menus stay in order\<close>

definition overlay_ok :: "tui_overlay \<Rightarrow> bool" where
  \<comment> \<open>the selection is a line that does something, if there is one\<close>
  "overlay_ok ov \<longleftrightarrow>
     (if selectable_lines ov = [] then ov_selected ov = None else selected_overlay_action ov \<noteq> None)"

definition menu_ok :: "menu_state \<Rightarrow> bool" where
  "menu_ok m \<longleftrightarrow> (\<forall>i. mu_active_menu_index m = Some i \<longrightarrow> i < length MENU_ACTIONS) \<and>
     (\<forall>ov. mu_active_overlay m = Some ov \<longrightarrow> overlay_ok ov)"

lemma position_of_Some: "position_of P xs = Some i \<Longrightarrow> i < length xs \<and> P (xs ! i)"
  by (auto simp: position_of_def dest!: find_upt)

lemma position_of_None: "position_of P xs = None \<Longrightarrow> x \<in> set xs \<Longrightarrow> \<not> P x"
  by (auto simp: position_of_def find_None_iff in_set_conv_nth)

lemma selectable_line: "i \<in> set (selectable_lines ov) \<Longrightarrow> i < length (ov_lines ov) \<and> ol_action (ov_lines ov ! i) \<noteq> None"
  by (auto simp: selectable_lines_def)

lemma fresh_overlay_ok: "overlay_ok (ov\<lparr>ov_selected := selectable_overlay_index ov\<rparr>)"
proof (cases "selectable_overlay_index ov")
  case None
  then have "selectable_lines ov = []"
    using position_of_None [of "\<lambda>l. ol_action l \<noteq> None" "ov_lines ov"]
    by (auto simp: selectable_overlay_index_def selectable_lines_def filter_empty_conv)
  with None show ?thesis by (simp add: overlay_ok_def selectable_lines_def)
next
  case (Some i)
  then have "i < length (ov_lines ov)" "ol_action (ov_lines ov ! i) \<noteq> None"
    using position_of_Some by (auto simp: selectable_overlay_index_def)
  then show ?thesis using Some by (auto simp: overlay_ok_def selected_overlay_action_def selectable_lines_def filter_empty_conv)
qed

lemma moved_overlay_ok: "overlay_ok (move_overlay_selection ov d)"
proof (cases "selectable_lines ov = []")
  case True
  then show ?thesis by (simp add: move_overlay_selection_def overlay_ok_def selectable_lines_def)
next
  case False
  obtain n where n: "move_overlay_selection ov d = ov\<lparr>ov_selected := Some (selectable_lines ov ! n)\<rparr>" "n < length (selectable_lines ov)"
  proof -
    let ?n = "nat ((int (case Option.bind (ov_selected ov) (\<lambda>s. position_of (\<lambda>i. i = s) (selectable_lines ov)) of
        Some p \<Rightarrow> p | None \<Rightarrow> 0) + d) mod int (length (selectable_lines ov)))"
    have "?n < length (selectable_lines ov)" using False by (simp add: nat_less_iff)
    with that [of ?n] False show ?thesis by (simp add: move_overlay_selection_def Let_def)
  qed
  then have "selectable_lines ov ! n \<in> set (selectable_lines ov)" by simp
  from selectable_line [OF this] n False show ?thesis
    by (auto simp: overlay_ok_def selected_overlay_action_def selectable_lines_def)
qed

lemma menu_index_ok: "menu_index action = Some i \<Longrightarrow> i < length MENU_ACTIONS"
  using position_of_Some by (auto simp: menu_index_def)

lemma cycle_ok: "cycle_live_menu active d = Some i \<Longrightarrow> i < length MENU_ACTIONS"
  by (auto simp: cycle_live_menu_def MENU_ACTIONS_def nat_less_iff)

lemma open_menu_ok:
  assumes "open_live_menu_overlay fetch w modes action m = Some (m', fx)"
    and "\<forall>i. mu_active_menu_index m = Some i \<longrightarrow> i < length MENU_ACTIONS"
  shows "menu_ok m'"
  using assms
  by (auto simp: open_live_menu_overlay_def menu_ok_def bind_eq_Some_conv Let_def fresh_overlay_ok split: if_splits)

lemma overlay_key_ok: "menu_ok m \<Longrightarrow> handle_overlay_key key ov m = (m', fx, h) \<Longrightarrow> menu_ok m'"
  by (auto simp: handle_overlay_key_def menu_ok_def moved_overlay_ok split: if_splits option.splits)

lemma menu_after_key_ok:
  "menu_after_key key active = Some active' \<Longrightarrow> \<forall>i. active = Some i \<longrightarrow> i < length MENU_ACTIONS \<Longrightarrow>
     active' = Some j \<Longrightarrow> j < length MENU_ACTIONS"
  using cycle_ok by (fastforce simp: menu_after_key_def split: if_splits)

lemma key_keeps_menu:
  assumes "menu_ok m" and "handle_live_tui_key fetch w modes json redraw key m = Some (m', fx, h)"
  shows "menu_ok m'"
proof -
  have idx: "\<forall>i. mu_active_menu_index m = Some i \<longrightarrow> i < length MENU_ACTIONS" using assms(1) by (simp add: menu_ok_def)
  have opened: "menu_ok m2" if "map_option (\<lambda>(m1, fx). (m1, fx, KeyHandled)) (open_live_menu_overlay fetch w modes action
      (m\<lparr>mu_active_menu_index := active\<rparr>)) = Some (m2, fy, hy)" "\<forall>i. active = Some i \<longrightarrow> i < length MENU_ACTIONS"
    for action active m2 fy hy
    using that open_menu_ok by fastforce
  consider "json \<or> \<not> redraw \<or> sk_key key = KeyEscape" | action where "\<not> (json \<or> \<not> redraw)" "sk_key key = KeyOpenMenu action"
    | "\<not> (json \<or> \<not> redraw)" "sk_key key \<noteq> KeyEscape" "\<And>action. sk_key key \<noteq> KeyOpenMenu action" by blast
  then show ?thesis
  proof cases
    case 1
    with assms show ?thesis by (auto simp: handle_live_tui_key_def Let_def menu_ok_def split: if_splits)
  next
    case 2
    with assms(2) show ?thesis
      using opened [where active = "menu_index action"] menu_index_ok by (auto simp: handle_live_tui_key_def Let_def)
  next
    case 3
    then have run: "handle_live_tui_key fetch w modes json redraw key m =
        (case mu_active_overlay m of
             Some ov \<Rightarrow> Some (handle_overlay_key key ov m)
           | None \<Rightarrow>
               (case mu_active_menu_index m of
                  None \<Rightarrow> Some (m, [], KeyForward (sk_bytes key))
                | Some _ \<Rightarrow>
                    (case menu_after_key (sk_key key) (mu_active_menu_index m) of
                       None \<Rightarrow> Some (m, [], KeyForward (sk_bytes key))
                     | Some active \<Rightarrow>
                         map_option (\<lambda>(m1, fx). (m1, fx, KeyHandled)) (open_live_menu_overlay fetch w modes
                           (MENU_ACTIONS ! (case active of Some i \<Rightarrow> i | None \<Rightarrow> 0)) (m\<lparr>mu_active_menu_index := active\<rparr>)))))"
      by (cases "sk_key key") (auto simp: handle_live_tui_key_def Let_def)
    have after: "\<forall>j. active = Some j \<longrightarrow> j < length MENU_ACTIONS"
      if "menu_after_key (sk_key key) (mu_active_menu_index m) = Some active" for active
      using menu_after_key_ok [OF that idx] by blast
    show ?thesis
      using assms overlay_key_ok [OF assms(1)] opened after unfolding run
      by (auto split: option.splits)
  qed
qed

lemma mouse_keeps_menu:
  assumes "menu_ok m" and "handle_mouse_dispatch fetch w modes repaint d m = Some (m', fx)"
  shows "menu_ok m'"
proof -
  have fresh: "overlay_ok (menu_overlay_for_action_with_session_inventory action w modes inventory)" for action inventory
  proof -
    let ?ov = "menu_overlay_for_action_with_session_inventory action w modes inventory"
    have "?ov\<lparr>ov_selected := selectable_overlay_index ?ov\<rparr> = ?ov"
      by (simp add: menu_overlay_for_action_with_session_inventory_def selectable_overlay_index_def split: prod.split)
    then show ?thesis using fresh_overlay_ok [of ?ov] by simp
  qed
  have none: "menu_ok no_menu" by (simp add: menu_ok_def no_menu_def)
  have clicked: "menu_ok m2" if "handle_mouse_menu fetch w modes repaint action m = Some (m2, fy)" for action m2 fy
    using that none fresh menu_index_ok
    by (auto simp: handle_mouse_menu_def Let_def bind_eq_Some_conv menu_ok_def menu_overlay_for_action_def split: if_splits option.splits)
  from assms show ?thesis
    using none clicked
    by (cases d) (auto simp: handle_mouse_dispatch_def menu_ok_def Let_def split: live_mouse_dispatch.splits if_splits)
qed

inductive menus_reached :: "menu_state \<Rightarrow> bool" where
  \<comment> \<open>the menus of a client at any moment of its loop\<close>
  at_start: "menus_reached no_menu"
| key: "menus_reached m \<Longrightarrow> handle_live_tui_key fetch w modes json redraw key m = Some (m', fx, h) \<Longrightarrow> menus_reached m'"
| mouse: "menus_reached m \<Longrightarrow> handle_mouse_dispatch fetch w modes repaint d m = Some (m', fy) \<Longrightarrow> menus_reached m'"

lemma menus_reached_ok: "menus_reached m \<Longrightarrow> menu_ok m"
  by (induction rule: menus_reached.induct) (simp add: menu_ok_def no_menu_def, erule (1) key_keeps_menu, erule (1) mouse_keeps_menu)

lemma escape_leaves_menu_active:
  \<comment> \<open>the overlay is closed, the menu behind it is not: the next return key opens it again\<close>
  assumes "redraw" and "mu_active_overlay m = Some ov" and "mu_active_menu_index m = Some i"
  shows "handle_live_tui_key fetch w modes False redraw \<lparr>sk_key = KeyEscape, sk_bytes = [0x1B]\<rparr> m =
      Some (m\<lparr>mu_active_overlay := None\<rparr>, [EffectRepaint], KeyHandled)"
    and "handle_live_tui_key fetch w modes False redraw \<lparr>sk_key = KeyEnter, sk_bytes = [0x0D]\<rparr> (m\<lparr>mu_active_overlay := None\<rparr>) =
      map_option (\<lambda>(m1, fx). (m1, fx, KeyHandled)) (open_live_menu_overlay fetch w modes (MENU_ACTIONS ! i) (m\<lparr>mu_active_overlay := None\<rparr>))"
proof -
  have m: "m\<lparr>mu_active_overlay := None, mu_active_menu_index := Some i\<rparr> = m\<lparr>mu_active_overlay := None\<rparr>"
    using assms(3) by (cases m) simp
  show "handle_live_tui_key fetch w modes False redraw \<lparr>sk_key = KeyEscape, sk_bytes = [0x1B]\<rparr> m =
      Some (m\<lparr>mu_active_overlay := None\<rparr>, [EffectRepaint], KeyHandled)"
    using assms by (simp add: handle_live_tui_key_def)
  show "handle_live_tui_key fetch w modes False redraw \<lparr>sk_key = KeyEnter, sk_bytes = [0x0D]\<rparr> (m\<lparr>mu_active_overlay := None\<rparr>) =
      map_option (\<lambda>(m1, fx). (m1, fx, KeyHandled)) (open_live_menu_overlay fetch w modes (MENU_ACTIONS ! i) (m\<lparr>mu_active_overlay := None\<rparr>))"
    using assms by (simp add: handle_live_tui_key_def menu_after_key_def m)
qed

end
