(* ===== verification/Client_View.thy ===== *)
theory Client_View
  imports Client_Input Speculative_Echo
begin

text \<open>
  What the interactive client shows (\<open>crates/nmux-cli/src/bin/nmux.rs\<close>): the state of its screen
  (\<open>LiveSurfaceState\<close>), how surface updates, a change of the focus, the scrolling of a pane and a guess of the echo
  change it, and the counters of its status bar (the clients that are attached, the time to the server and back,
  the frames drawn).

  The lemmas: the text shown for the pane in focus is the one of its copy in the cache, unless the pane is scrolled
  or a guess waits for its answer; the modes mirrored to the terminal are those of this pane; and one request for
  the time is on its way at most.
\<close>

subsection \<open>The clients that are attached\<close>

record client_inventory_cache =
  cv_version :: u64
  cv_clients :: "(ustring, client_connection) btree"

definition client_inventory_cache_default :: client_inventory_cache where
  "client_inventory_cache_default = \<lparr>cv_version = 0, cv_clients = []\<rparr>"

definition inventory_apply_snapshot :: "client_inventory_snapshot \<Rightarrow> client_inventory_cache \<Rightarrow> client_inventory_cache" where
  "inventory_apply_snapshot s i =
     \<lparr>cv_version = ci_version s, cv_clients = fold (\<lambda>c m. bt_put (cl_connection_id c) c m) (ci_clients s) []\<rparr>"

definition inventory_apply_patch :: "client_inventory_patch \<Rightarrow> client_inventory_cache \<Rightarrow> client_inventory_cache option" where
  \<comment> \<open>\<open>None\<close>: the patch is for another version\<close>
  "inventory_apply_patch p i =
     (if ip_base_version p \<noteq> cv_version i then None
      else Some \<lparr>cv_version = ip_version p,
        cv_clients = fold (\<lambda>c m. bt_put (cl_connection_id c) c m) (ip_joined p @ ip_updated p)
          (fold bt_del (ip_left_connection_ids p) (cv_clients i))\<rparr>)"

definition inventory_count :: "client_inventory_cache \<Rightarrow> usize" where
  "inventory_count i = length (cv_clients i)"

definition inventory_read :: "live_surface_read \<Rightarrow> client_inventory_cache \<Rightarrow> client_inventory_cache" where
  \<comment> \<open>what is done with the frames that came in between\<close>
  "inventory_read r i =
     (case r of
        LiveClientInventorySnapshot s \<Rightarrow> inventory_apply_snapshot s i
      | LiveClientInventoryPatch p \<Rightarrow> (case inventory_apply_patch p i of Some i1 \<Rightarrow> i1 | None \<Rightarrow> i)
      | _ \<Rightarrow> i)"

subsection \<open>The time to the server and back\<close>

type_synonym millis = nat

definition LIVE_RTT_PING_INTERVAL :: millis where "LIVE_RTT_PING_INTERVAL = 1000"
definition LIVE_RTT_PING_TIMEOUT :: millis where "LIVE_RTT_PING_TIMEOUT = 5000"
definition STATUS_FPS_WINDOW :: millis where "STATUS_FPS_WINDOW = 2000"

record rtt_tracker =
  rt_actor_id :: ustring
  rt_pending :: "(u64 \<times> millis) option"
    \<comment> \<open>the number of the ping and when it was sent\<close>
  rt_next_ping_at :: millis

definition rtt_tracker_new :: "millis \<Rightarrow> ustring \<Rightarrow> rtt_tracker" where
  "rtt_tracker_new now actor_id = \<lparr>rt_actor_id = actor_id, rt_pending = None, rt_next_ping_at = now\<rparr>"

definition send_ping_with_sequence :: "client_frame_sequence \<Rightarrow> ustring \<Rightarrow> envelope \<times> u64 \<times> client_frame_sequence" where
  "send_ping_with_sequence q actor_id =
     (case next_ping_seq q of
        (ping_seq, q1) \<Rightarrow>
          (case next_envelope_seq q1 of
             (seq, q2) \<Rightarrow>
               (ping_frame \<lparr>pi_actor_id = actor_id, pi_ping_seq = ping_seq\<rparr> (ss_id session_initial) local_client seq False,
                ping_seq, q2)))"

definition maybe_send_ping ::
  "millis \<Rightarrow> rtt_tracker \<Rightarrow> client_frame_sequence \<Rightarrow> rtt_tracker \<times> client_frame_sequence \<times> envelope list" where
  "maybe_send_ping now t q =
     (if option_is_some_and (\<lambda>p. now - snd p < LIVE_RTT_PING_TIMEOUT) (rt_pending t) then (t, q, [])
      else if now < rt_next_ping_at t then (t, q, [])
      else
        (case send_ping_with_sequence q (rt_actor_id t) of
           (frame, seq, q1) \<Rightarrow>
             (t\<lparr>rt_pending := Some (seq, now), rt_next_ping_at := now + LIVE_RTT_PING_INTERVAL\<rparr>, q1, [frame])))"

definition record_pong :: "millis \<Rightarrow> ping_summary \<Rightarrow> rtt_tracker \<Rightarrow> rtt_tracker \<times> millis option" where
  "record_pong now pong t =
     (if pi_actor_id pong \<noteq> rt_actor_id t then (t, None)
      else case rt_pending t of
        None \<Rightarrow> (t, None)
      | Some (seq, sent_at) \<Rightarrow>
          if pi_ping_seq pong \<noteq> seq then (t, None) else (t\<lparr>rt_pending := None\<rparr>, Some (now - sent_at)))"

definition rendered_fps_record :: "millis \<Rightarrow> bool \<Rightarrow> millis list \<Rightarrow> millis list \<times> u32 option" where
  \<comment> \<open>\<open>RenderedFps::record\<close> over the times of the frames drawn, oldest first\<close>
  "rendered_fps_record now rendered drawn =
     (let drawn = dropWhile (\<lambda>t. STATUS_FPS_WINDOW < now - t) (if rendered then drawn @ [now] else drawn) in
      (drawn, if drawn = [] then None
              else Some (min (max (length drawn * 1000 div max STATUS_FPS_WINDOW 1) 1) U32_MAX)))"

lemma fps_window:
  assumes "sorted drawn" and "\<forall>t \<in> set drawn. t \<le> now" and "rendered_fps_record now rendered drawn = (drawn', r)"
  shows "drawn' = filter (\<lambda>t. now - t \<le> STATUS_FPS_WINDOW) (drawn @ (if rendered then [now] else []))"
    and "sorted drawn'" and "r = None \<longleftrightarrow> drawn' = []"
proof -
  let ?ts = "drawn @ (if rendered then [now] else [])"
  have s: "sorted ?ts" using assms(1,2) by (simp add: sorted_append)
  have "dropWhile (\<lambda>t. STATUS_FPS_WINDOW < now - t) xs = filter (\<lambda>t. now - t \<le> STATUS_FPS_WINDOW) xs" if "sorted xs" for xs
    using that
  proof (induction xs)
    case (Cons x xs)
    then show ?case
    proof (cases "STATUS_FPS_WINDOW < now - x")
      case False
      then have "\<forall>t \<in> set xs. now - t \<le> STATUS_FPS_WINDOW" using Cons.prems by fastforce
      with False show ?thesis by (simp add: filter_True)
    qed simp
  qed simp
  from this [OF s] have t: "drawn' = filter (\<lambda>t. now - t \<le> STATUS_FPS_WINDOW) ?ts"
    using assms(3) by (auto simp: rendered_fps_record_def Let_def split: if_splits)
  then show "drawn' = filter (\<lambda>t. now - t \<le> STATUS_FPS_WINDOW) ?ts" .
  show "sorted drawn'" using t s sorted_wrt_filter by blast
  show "r = None \<longleftrightarrow> drawn' = []" using assms(3) by (auto simp: rendered_fps_record_def Let_def split: if_splits)
qed

lemma pong_answers_ping:
  assumes "maybe_send_ping now t q = (t1, q1, [frame])" and "ping_from_frame frame = Inr p" and "rt_actor_id t \<noteq> []"
  shows "record_pong later p t1 = (t1\<lparr>rt_pending := None\<rparr>, Some (later - now))"
    and "later - now < LIVE_RTT_PING_TIMEOUT \<Longrightarrow> maybe_send_ping later t1 q1 = (t1, q1, [])"
proof -
  let ?p = "\<lparr>pi_actor_id = rt_actor_id t, pi_ping_seq = fq_next_ping_seq q\<rparr>"
  from assms(1) have t1: "t1 = t\<lparr>rt_pending := Some (fq_next_ping_seq q, now), rt_next_ping_at := now + LIVE_RTT_PING_INTERVAL\<rparr>"
    and frame: "frame = ping_frame ?p (ss_id session_initial) local_client (fq_next_envelope_seq q) False"
    by (auto simp: maybe_send_ping_def send_ping_with_sequence_def next_ping_seq_def next_envelope_seq_def split: if_splits)
  have "p = ?p" using assms(2,3) ping_decodes(1) [of ?p "ss_id session_initial"] by (simp add: frame)
  then show "record_pong later p t1 = (t1\<lparr>rt_pending := None\<rparr>, Some (later - now))"
    by (simp add: record_pong_def t1)
  show "later - now < LIVE_RTT_PING_TIMEOUT \<Longrightarrow> maybe_send_ping later t1 q1 = (t1, q1, [])"
    by (simp add: maybe_send_ping_def t1 option_is_some_and_def)
qed

subsection \<open>The state of the screen\<close>

record scrollback_view =
  vw_start_line :: u64
  vw_line_count :: u32
  vw_total_lines :: u64

record live_surface_state =
  ls_metadata :: metadata_summary
  ls_modes :: terminal_modes
  ls_text :: ustring
  ls_pane_surfaces :: "(ustring, ustring) btree"
  ls_pane_summaries :: "(ustring, rendered_surface_summary) btree"
  ls_pane_modes :: "(ustring, terminal_modes) btree"
  ls_scrollback_views :: "(ustring, scrollback_view) btree"

record live_screen =
  sv_attached :: ustring
  sv_workspace :: workspace_summary
  sv_surfaces :: live_surface_state
  sv_cache :: client_attach_state
  sv_echo :: echo_overlay
  sv_inventory :: client_inventory_cache
  sv_mirror :: "terminal_modes option option"
    \<comment> \<open>the modes mirrored to the terminal, where they are mirrored\<close>
  sv_rtt :: "rtt_tracker option"
  sv_sequence :: client_frame_sequence

record screen_args =
  sg_redraw :: bool
  sg_output_json :: bool
  sg_styled :: bool
  sg_compositor :: bool
    \<comment> \<open>the output is a terminal: \<open>redraw_state\<close> is there\<close>

datatype screen_effect =
  PaintScreen "tui_overlay option"
| PrintSurface metadata_summary ustring
| PrintMetadata metadata_summary
| PrintWorkspaceLine
| PrintJson
| PaintGuess ustring
    \<comment> \<open>a guess of the echo is drawn, without the surfaces of the other panes\<close>
| WriteMouseModes ustring

datatype screen_error =
  ScreenCache cache_error
| ScreenServer error_summary
| ScreenRead read_error

definition surface_not_cached :: ustring where
  "surface_not_cached = lit ''(surface not cached)''"

definition print_live_surface :: "screen_args \<Rightarrow> live_surface_state \<Rightarrow> tui_overlay option \<Rightarrow> screen_effect list" where
  \<comment> \<open>\<open>print_live_surface_with_overlay\<close>\<close>
  "print_live_surface args s overlay =
     (if sg_redraw args then [PaintScreen overlay] else [PrintSurface (ls_metadata s) (ls_text s)])"

datatype live_update_print_kind = UpdatePrintSurface | UpdatePrintMetadata | UpdatePrintNone

definition live_update_print_kind :: "metadata_summary \<Rightarrow> metadata_summary \<Rightarrow> surface_update \<Rightarrow> bool \<Rightarrow> live_update_print_kind" where
  "live_update_print_kind previous_metadata metadata u redraw =
     (if su_kind u = UpdateSnapshot \<or> su_patch_kind u = Some PatchReplaceRows then UpdatePrintSurface
      else if redraw \<and> metadata \<noteq> previous_metadata then UpdatePrintMetadata
      else if \<not> redraw \<and> metadata \<noteq> previous_metadata then UpdatePrintMetadata
      else UpdatePrintNone)"

definition print_live_update ::
  "screen_args \<Rightarrow> metadata_summary \<Rightarrow> live_surface_state \<Rightarrow> surface_update \<Rightarrow> screen_effect list" where
  "print_live_update args previous_metadata s u =
     (case live_update_print_kind previous_metadata (ls_metadata s) u (sg_redraw args) of
        UpdatePrintSurface \<Rightarrow> print_live_surface args s None
      | UpdatePrintMetadata \<Rightarrow>
          if sg_redraw args then (if sg_compositor args then [PaintScreen None] else [])
          else [PrintMetadata (ls_metadata s)]
      | UpdatePrintNone \<Rightarrow> [])"

definition mirror_modes :: "terminal_modes \<Rightarrow> terminal_modes option option \<Rightarrow> terminal_modes option option \<times> screen_effect list" where
  "mirror_modes modes mirror =
     (case mirror of
        None \<Rightarrow> (None, [])
      | Some current \<Rightarrow>
          (case sync_host_mouse_modes modes current of
             (current1, out) \<Rightarrow> (Some current1, if out = [] then [] else [WriteMouseModes out])))"

subsection \<open>Surface updates\<close>

definition store_update ::
  "surface_update \<Rightarrow> ustring \<Rightarrow> client_attach_state \<Rightarrow> ustring \<Rightarrow> live_surface_state \<Rightarrow> live_surface_state" where
  \<comment> \<open>an update of a pane whose surface is now drawn as the text\<close>
  "store_update u t cache active s =
     (let k = su_pane_id u;
          s1 = s\<lparr>ls_pane_surfaces := bt_put k t (ls_pane_surfaces s),
                 ls_pane_summaries := (case cached_rendered_surface_summary cache k of
                     Some summary \<Rightarrow> bt_put k summary (ls_pane_summaries s) | None \<Rightarrow> ls_pane_summaries s),
                 ls_pane_modes := bt_put k (su_modes u) (ls_pane_modes s),
                 ls_scrollback_views := bt_del k (ls_scrollback_views s)\<rparr>
      in if k = active then
           s1\<lparr>ls_metadata := \<lparr>md_title = su_title u, md_working_directory = su_working_directory u\<rparr>,
              ls_modes := su_modes u, ls_text := t\<rparr>
         else case bt_get (ls_pane_surfaces s1) active of Some active_text \<Rightarrow> s1\<lparr>ls_text := active_text\<rparr> | None \<Rightarrow> s1)"

definition take_surface_update :: "screen_args \<Rightarrow> surface_update \<Rightarrow> live_screen \<Rightarrow> (screen_error, live_screen \<times> screen_effect list) res" where
  \<comment> \<open>what \<open>process_surface_update\<close> does before it prints\<close>
  "take_surface_update args u v =
     (case apply_surface_update_styled (sv_cache v) u (sg_styled args) of
        (_, Inl e) \<Rightarrow> Inl (ScreenCache e)
      | (cache, Inr t) \<Rightarrow>
          (let active = wk_pane_id (sv_workspace v) in
           case (if su_pane_id u = active then mirror_modes (su_modes u) (sv_mirror v) else (sv_mirror v, [])) of
             (mirror, fx) \<Rightarrow>
               Inr (v\<lparr>sv_echo := fst (reconcile_update (sv_echo v) u), sv_cache := cache, sv_mirror := mirror,
                      sv_surfaces := store_update u t cache active (sv_surfaces v)\<rparr>, fx)))"

definition process_surface_update :: "screen_args \<Rightarrow> surface_update \<Rightarrow> live_screen \<Rightarrow> (screen_error, live_screen \<times> screen_effect list) res" where
  "process_surface_update args u v =
     bind_res (take_surface_update args u v) (\<lambda>(v1, fx).
       Inr (v1, fx @ (if sg_output_json args then [PrintJson]
                      else print_live_update args (ls_metadata (sv_surfaces v)) (sv_surfaces v1) u)))"

fun take_surface_updates :: "screen_args \<Rightarrow> surface_update list \<Rightarrow> live_screen \<Rightarrow> (screen_error, live_screen \<times> screen_effect list) res" where
  \<comment> \<open>the updates that came while scrollback was awaited\<close>
  "take_surface_updates args [] v = Inr (v, [])"
| "take_surface_updates args (u # us) v =
     bind_res (take_surface_update args u v) (\<lambda>(v1, fx).
     bind_res (take_surface_updates args us v1) (\<lambda>(v2, fx'). Inr (v2, fx @ fx')))"

subsection \<open>The focus\<close>

definition restore_live_pane_surface :: "screen_args \<Rightarrow> ustring \<Rightarrow> live_screen \<Rightarrow> live_screen" where
  "restore_live_pane_surface args k v =
     (let s = sv_surfaces v;
          t = (case cached_surface_text_styled (sv_cache v) k (sg_styled args) of Some t \<Rightarrow> t | None \<Rightarrow> surface_not_cached);
          s1 = s\<lparr>ls_scrollback_views := bt_del k (ls_scrollback_views s),
                 ls_pane_surfaces := bt_put k t (ls_pane_surfaces s),
                 ls_pane_summaries := (case cached_rendered_surface_summary (sv_cache v) k of
                     Some summary \<Rightarrow> bt_put k summary (ls_pane_summaries s) | None \<Rightarrow> ls_pane_summaries s)\<rparr>
      in v\<lparr>sv_surfaces := (if k = wk_pane_id (sv_workspace v) then s1\<lparr>ls_text := t\<rparr> else s1)\<rparr>)"

definition switch_live_surface_to_workspace_pane :: "screen_args \<Rightarrow> live_screen \<Rightarrow> live_screen \<times> screen_effect list" where
  "switch_live_surface_to_workspace_pane args v =
     (let k = wk_pane_id (sv_workspace v); s = sv_surfaces v; cache = sv_cache v;
          t = (case cached_surface_text_styled cache k (sg_styled args) of Some t \<Rightarrow> t | None \<Rightarrow> surface_not_cached);
          modes = (case cached_surface_summary cache k of Some c \<Rightarrow> cc_modes c | None \<Rightarrow> terminal_modes_default);
          s1 = s\<lparr>ls_pane_surfaces := bt_put k t (ls_pane_surfaces s),
                 ls_pane_summaries := (case cached_rendered_surface_summary cache k of
                     Some summary \<Rightarrow> bt_put k summary (ls_pane_summaries s) | None \<Rightarrow> ls_pane_summaries s),
                 ls_scrollback_views := bt_del k (ls_scrollback_views s), ls_text := t,
                 ls_metadata := (case cached_surface_metadata cache k of Some m \<Rightarrow> m
                     | None \<Rightarrow> \<lparr>md_title = [], md_working_directory = []\<rparr>),
                 ls_modes := modes, ls_pane_modes := bt_put k modes (ls_pane_modes s)\<rparr>
      in case mirror_modes modes (sv_mirror v) of (mirror, fx) \<Rightarrow> (v\<lparr>sv_surfaces := s1, sv_mirror := mirror\<rparr>, fx))"

definition focus_live_client_pane :: "screen_args \<Rightarrow> ustring \<Rightarrow> live_screen \<Rightarrow> live_screen \<times> screen_effect list \<times> bool" where
  "focus_live_client_pane args pane_id v =
     (if pane_id = sv_attached v then (v, [], False)
      else if pane_id \<notin> wp_id ` set (workspace_panes (sv_workspace v)) then (v, [], False)
      else
        (case switch_live_surface_to_workspace_pane args
            (v\<lparr>sv_attached := pane_id, sv_workspace := (sv_workspace v)\<lparr>wk_pane_id := pane_id\<rparr>\<rparr>) of
           (v1, fx) \<Rightarrow>
             if sg_output_json args then (v1, fx, False)
             else if sg_redraw args then (v1, fx @ print_live_surface args (sv_surfaces v1) None, True)
             else (v1, fx @ [PrintWorkspaceLine], True)))"

definition take_command_workspace :: "screen_args \<Rightarrow> workspace_summary \<Rightarrow> live_screen \<Rightarrow> live_screen \<times> screen_effect list" where
  \<comment> \<open>the answer to a command of a menu (a new session, a switched tab) becomes the workspace\<close>
  "take_command_workspace args w v =
     switch_live_surface_to_workspace_pane args (v\<lparr>sv_workspace := w, sv_attached := wk_pane_id w\<rparr>)"

definition key_command_workspace :: "screen_args \<Rightarrow> workspace_summary \<Rightarrow> live_screen \<Rightarrow> live_screen \<times> screen_effect list" where
  \<comment> \<open>for a menu opened with a key\<close>
  "key_command_workspace args w v =
     (case take_command_workspace args w v of (v1, fx) \<Rightarrow> (v1, fx @ print_live_surface args (sv_surfaces v1) None))"

definition mouse_command_workspace :: "screen_args \<Rightarrow> workspace_summary \<Rightarrow> live_screen \<Rightarrow> live_screen \<times> screen_effect list" where
  \<comment> \<open>for a menu opened with the mouse\<close>
  "mouse_command_workspace args w v =
     (case take_command_workspace args w v of
        (v1, fx) \<Rightarrow>
          (v1, fx @ (if sg_redraw args \<and> \<not> sg_output_json args then print_live_surface args (sv_surfaces v1) None else [])))"

definition repaint_speculative_echo ::
  "(text_attribute \<Rightarrow> ustring) \<Rightarrow> screen_args \<Rightarrow> bool \<Rightarrow> u64 \<Rightarrow> ustring \<Rightarrow> live_screen \<Rightarrow>
     live_screen \<times> screen_effect list" where
  \<comment> \<open>what is typed for the pane the client is attached to\<close>
  "repaint_speculative_echo a args enabled input_seq t v =
     (if \<not> enabled then (v, [])
      else case render_speculative_echo a (sv_cache v) (sv_echo v) (sv_attached v) input_seq t (sg_styled args) of
        (echo, None) \<Rightarrow> (v\<lparr>sv_echo := echo\<rparr>, [])
      | (echo, Some predicted) \<Rightarrow>
          (v\<lparr>sv_echo := echo, sv_surfaces := (sv_surfaces v)\<lparr>ls_text := predicted\<rparr>\<rparr>, [PaintGuess predicted]))"

subsection \<open>Scrolling\<close>

definition send_scrollback_fetch ::
  "client_frame_sequence \<Rightarrow> ustring \<Rightarrow> u64 \<Rightarrow> u32 \<Rightarrow> u64 \<Rightarrow> envelope \<times> client_frame_sequence" where
  \<comment> \<open>\<open>send_scrollback_fetch_with_known_version\<close>\<close>
  "send_scrollback_fetch q pane_id start_line line_count known =
     (case next_envelope_seq q of
        (seq, q1) \<Rightarrow>
          (scrollback_fetch_frame session_initial
             \<lparr>ic_connection_id = local_client, ic_seq = seq, ic_actor_id = lit ''local-actor'', ic_pane_id = pane_id, ic_input_seq = 0\<rparr>
             start_line line_count known, q1))"

record scrollback_conversation =
  sb_reads :: "frame_read list"
    \<comment> \<open>what the client reads\<close>
  sb_sent :: "envelope list"
  sb_sequence :: client_frame_sequence
  sb_updates :: "surface_update list"
  sb_live :: "live_surface_read list"

definition sb_fetch :: "ustring \<Rightarrow> u64 \<Rightarrow> u32 \<Rightarrow> u64 \<Rightarrow> scrollback_conversation \<Rightarrow> scrollback_conversation" where
  "sb_fetch pane_id start_line line_count known b =
     (case send_scrollback_fetch (sb_sequence b) pane_id start_line line_count known of
        (frame, q) \<Rightarrow> b\<lparr>sb_sent := sb_sent b @ [frame], sb_sequence := q\<rparr>)"

definition sb_read :: "scrollback_conversation \<Rightarrow> (read_error, scrollback_read \<times> scrollback_conversation) res" where
  "sb_read b =
     bind_res (read_scrollback_response_from_stream (sb_reads b) (Some (sb_updates b)) (Some (sb_live b)))
       (\<lambda>((r, us, ls), rest). Inr (r, b\<lparr>sb_reads := rest, sb_updates := the us, sb_live := the ls\<rparr>))"

definition read_scrollback_chunk_with_stale_retry ::
  "ustring \<Rightarrow> u64 \<Rightarrow> u32 \<Rightarrow> scrollback_conversation \<Rightarrow> (read_error, scrollback_chunk_summary \<times> scrollback_conversation) res" where
  "read_scrollback_chunk_with_stale_retry pane_id start_line line_count b =
     bind_res (sb_read b) (\<lambda>(r, b1).
       case r of
         ScrollbackReadChunk chunk \<Rightarrow> Inr (chunk, b1)
       | ScrollbackReadError e \<Rightarrow>
           if er_code e \<noteq> ErrStaleVersion then Inl (ServerSaid e)
           else
             bind_res (sb_read (sb_fetch pane_id start_line line_count 0 b1)) (\<lambda>(r, b2).
               case r of ScrollbackReadChunk chunk \<Rightarrow> Inr (chunk, b2) | ScrollbackReadError e \<Rightarrow> Inl (ServerSaid e)))"

definition fetch_scrollback_chunk ::
  "(u64 \<Rightarrow> u32 \<Rightarrow> u64) \<Rightarrow> ustring \<Rightarrow> u64 \<Rightarrow> u32 \<Rightarrow> u32 option \<Rightarrow> scrollback_conversation \<Rightarrow>
     (read_error, scrollback_chunk_summary \<times> scrollback_conversation) res" where
  \<comment> \<open>\<open>fetch_scrollback_chunk_with_selection_and_pending_live\<close>: the tail is found by asking for the first line first\<close>
  "fetch_scrollback_chunk known_version_for pane_id start_line line_count tail_count b =
     bind_res (case tail_count of
         None \<Rightarrow> Inr (start_line, line_count, b)
       | Some tail \<Rightarrow>
           bind_res (read_scrollback_chunk_with_stale_retry pane_id 1 1 (sb_fetch pane_id 1 1 0 b)) (\<lambda>(probe, b1).
             Inr (if tail < sc_total_lines probe then sc_total_lines probe - tail + 1 else 1, tail, b1)))
       (\<lambda>(start_line, line_count, b1).
         read_scrollback_chunk_with_stale_retry pane_id start_line line_count
           (sb_fetch pane_id start_line line_count (known_version_for start_line line_count) b1))"

definition scrollback_max_start :: "u64 \<Rightarrow> u32 \<Rightarrow> u64" where
  "scrollback_max_start total_lines line_count =
     (let line_count = max line_count 1 in if line_count < total_lines then total_lines - line_count + 1 else 1)"

definition render_scrollback_view_text :: "scrollback_chunk_summary \<Rightarrow> ustring" where
  "render_scrollback_view_text chunk = join_with 10 (map sl_text (sc_lines chunk))"

definition render_scrollback_view_summary :: "scrollback_chunk_summary \<Rightarrow> rendered_surface_summary" where
  "render_scrollback_view_summary chunk =
     \<lparr>rendered_surface_summary.rs_pane_id = sc_pane_id chunk, rendered_surface_summary.rs_version = sc_scrollback_version chunk,
      rendered_surface_summary.rs_cols = min (Max (insert 0 (set (map (\<lambda>l. length (sl_text l)) (sc_lines chunk))))) U32_MAX,
      rendered_surface_summary.rs_rows = min (length (sc_lines chunk)) U32_MAX,
      rendered_surface_summary.rs_colors = sc_colors chunk, rendered_surface_summary.rs_styles = sc_styles chunk, rendered_surface_summary.rs_hyperlinks = sc_hyperlinks chunk,
      rendered_surface_summary.rs_row_updates = map (\<lambda>(i, l). \<lparr>ru_row = min i U32_MAX, ru_text = sl_text l, ru_runs = sl_runs l,
          ru_dirty_hash = sl_dirty_hash l, ru_row_state_hash = sl_row_state_hash l, ru_semantic_prompt = sl_semantic_prompt l,
          ru_dirty = sl_dirty l, ru_kitty = sl_kitty l\<rparr>) (enumerate 0 (sc_lines chunk))\<rparr>"

definition store_scrollback_view :: "ustring \<Rightarrow> scrollback_chunk_summary \<Rightarrow> live_screen \<Rightarrow> live_screen" where
  "store_scrollback_view k chunk v =
     (let s = sv_surfaces v; t = render_scrollback_view_text chunk;
          s1 = s\<lparr>ls_pane_surfaces := bt_put k t (ls_pane_surfaces s),
                 ls_pane_summaries := bt_put k (render_scrollback_view_summary chunk) (ls_pane_summaries s),
                 ls_scrollback_views := bt_put k
                   \<lparr>vw_start_line = sc_start_line chunk, vw_line_count = min (length (sc_lines chunk)) U32_MAX,
                    vw_total_lines = sc_total_lines chunk\<rparr> (ls_scrollback_views s)\<rparr>
      in v\<lparr>sv_cache := cache_scrollback_chunk (sv_cache v) chunk,
           sv_surfaces := (if k = wk_pane_id (sv_workspace v) then s1\<lparr>ls_text := t\<rparr> else s1)\<rparr>)"

datatype scroll_target = ScrollNowhere | ScrollToSurface | ScrollTo u64 "u32 option"

definition scroll_target :: "live_scroll_direction \<Rightarrow> u32 \<Rightarrow> scrollback_view option \<Rightarrow> scroll_target" where
  \<comment> \<open>the first line to show, or the last lines\<close>
  "scroll_target direction line_count existing =
     (case direction of
        ScrollUp \<Rightarrow>
          (case existing of
             None \<Rightarrow> ScrollTo 1 (Some line_count)
           | Some view \<Rightarrow> if 1 < vw_start_line view then ScrollTo (vw_start_line view - 1) None else ScrollNowhere)
      | ScrollDown \<Rightarrow>
          (case existing of
             None \<Rightarrow> ScrollNowhere
           | Some view \<Rightarrow>
               if scrollback_max_start (vw_total_lines view) (vw_line_count view) \<le> vw_start_line view then ScrollToSurface
               else ScrollTo (vw_start_line view + 1) None))"

definition scroll_live_pane_view ::
  "screen_args \<Rightarrow> socket_identity option \<Rightarrow> ustring \<Rightarrow> live_scroll_direction \<Rightarrow> u16 \<Rightarrow> frame_read list \<Rightarrow> live_screen \<Rightarrow>
     (screen_error, live_screen \<times> screen_effect list \<times> bool \<times> envelope list \<times> frame_read list) res" where
  \<comment> \<open>with the frames sent, and what is left to read\<close>
  "scroll_live_pane_view args scope pane_id direction visible_rows reads v =
     (if sg_output_json args \<or> \<not> sg_redraw args then Inr (v, [], False, [], reads)
      else
        (let line_count = max visible_rows 1 in
         case scroll_target direction line_count (bt_get (ls_scrollback_views (sv_surfaces v)) pane_id) of
           ScrollNowhere \<Rightarrow> Inr (v, [], False, [], reads)
         | ScrollToSurface \<Rightarrow>
             (let v1 = restore_live_pane_surface args pane_id v
              in Inr (v1, print_live_surface args (sv_surfaces v1) None, True, [], reads))
         | ScrollTo start_line tail_count \<Rightarrow>
             (case fetch_scrollback_chunk
                 (\<lambda>s n. case cached_scrollback_version_for_scope (sv_cache v) scope pane_id s n of Some x \<Rightarrow> x | None \<Rightarrow> 0)
                 pane_id start_line line_count tail_count
                 \<lparr>sb_reads = reads, sb_sent = [], sb_sequence = sv_sequence v, sb_updates = [], sb_live = []\<rparr> of
                Inl e \<Rightarrow> Inl (ScreenRead e)
              | Inr (chunk, b) \<Rightarrow>
                  bind_res (take_surface_updates args (sb_updates b)
                      (v\<lparr>sv_sequence := sb_sequence b, sv_inventory := fold inventory_read (sb_live b) (sv_inventory v)\<rparr>))
                    (\<lambda>(v1, fx).
                      if sc_lines chunk = [] then Inr (v1, fx, False, sb_sent b, sb_reads b)
                      else
                        (let v2 = store_scrollback_view pane_id chunk v1
                         in Inr (v2, fx @ print_live_surface args (sv_surfaces v2) None, True, sb_sent b, sb_reads b))))))"

subsection \<open>Frames that come in\<close>

datatype screen_read_end = ReadMore | ReadPause | ReadServerGone

definition screen_read ::
  "screen_args \<Rightarrow> millis \<Rightarrow> tui_overlay option \<Rightarrow> live_surface_read \<Rightarrow> live_screen \<Rightarrow>
     (screen_error, live_screen \<times> screen_effect list \<times> screen_read_end) res" where
  \<comment> \<open>the match on a frame in the loop of the client\<close>
  "screen_read args now overlay r v =
     (let repaint = (\<lambda>v1. if sg_compositor args then print_live_surface args (sv_surfaces v1) overlay else []) in
      case r of
        LiveWorkspace w \<Rightarrow>
          (let v1 = v\<lparr>sv_workspace := preserve_live_client_focus w (sv_attached v)\<rparr>
           in Inr (v1, if sg_output_json args then [PrintJson]
                       else if sg_redraw args then print_live_surface args (sv_surfaces v1) overlay
                       else [PrintWorkspaceLine], ReadMore))
      | LivePresence p \<Rightarrow> Inr (v, if sg_output_json args then [PrintJson] else [], ReadMore)
      | LiveClientInventorySnapshot s \<Rightarrow>
          (let v1 = v\<lparr>sv_inventory := inventory_apply_snapshot s (sv_inventory v)\<rparr> in Inr (v1, repaint v1, ReadMore))
      | LiveClientInventoryPatch p \<Rightarrow>
          (case inventory_apply_patch p (sv_inventory v) of
             None \<Rightarrow> Inr (v, [], ReadMore)
           | Some i \<Rightarrow> (let v1 = v\<lparr>sv_inventory := i\<rparr> in Inr (v1, repaint v1, ReadMore)))
      | LivePong pong \<Rightarrow>
          (case sv_rtt v of
             None \<Rightarrow> Inr (v, [], ReadMore)
           | Some tracker \<Rightarrow>
               (case record_pong now pong tracker of
                  (tracker1, rtt) \<Rightarrow>
                    Inr (v\<lparr>sv_rtt := Some tracker1\<rparr>, if rtt = None then [] else repaint v, ReadMore)))
      | LiveUpdate u \<Rightarrow> bind_res (process_surface_update args u v) (\<lambda>(v1, fx). Inr (v1, fx, ReadMore))
      | LiveError e \<Rightarrow> Inl (ScreenServer e)
      | LiveNoFrame \<Rightarrow> Inr (v, [], ReadPause)
      | LiveClosed \<Rightarrow> Inr (v, [], ReadServerGone))"

subsection \<open>The screen after an attach\<close>

definition seed_panes :: "(ustring \<Rightarrow> 'v option) \<Rightarrow> workspace_summary \<Rightarrow> (ustring, 'v) btree \<Rightarrow> (ustring, 'v) btree" where
  \<comment> \<open>the panes of the workspace that have no entry get the one from the cache\<close>
  "seed_panes lookup w m =
     fold (\<lambda>p m. if bt_get m (wp_id p) \<noteq> None then m
                 else case lookup (wp_id p) of Some x \<Rightarrow> bt_put (wp_id p) x m | None \<Rightarrow> m) (workspace_panes w) m"

definition seed_cached_pane_surfaces ::
  "client_attach_state \<Rightarrow> bool \<Rightarrow> workspace_summary \<Rightarrow> (ustring, ustring) btree \<Rightarrow> (ustring, ustring) btree" where
  "seed_cached_pane_surfaces cache styled = seed_panes (\<lambda>k. cached_surface_text_styled cache k styled)"

definition seed_cached_pane_surface_summaries ::
  "client_attach_state \<Rightarrow> workspace_summary \<Rightarrow> (ustring, rendered_surface_summary) btree \<Rightarrow> (ustring, rendered_surface_summary) btree" where
  "seed_cached_pane_surface_summaries cache = seed_panes (cached_rendered_surface_summary cache)"

definition seed_cached_pane_modes ::
  "client_attach_state \<Rightarrow> workspace_summary \<Rightarrow> (ustring, terminal_modes) btree \<Rightarrow> (ustring, terminal_modes) btree" where
  "seed_cached_pane_modes cache = seed_panes (cached_surface_modes cache)"

definition resize_policy_label :: "resize_policy \<Rightarrow> ustring" where
  "resize_policy_label p =
     (case p of ResizeFixed \<Rightarrow> lit ''fixed'' | ResizeLeader \<Rightarrow> lit ''leader'' | ResizeActiveClient \<Rightarrow> lit ''active-client''
      | ResizeManual \<Rightarrow> lit ''manual'' | _ \<Rightarrow> lit ''unknown'')"

definition workspace_display_line :: "workspace_summary \<Rightarrow> ustring" where
  "workspace_display_line w =
     lit ''session='' @ wk_session_id w @ lit '' tab='' @ wk_tab_id w @ lit '' pane='' @ wk_pane_id w @ lit '' size='' @
     dec_str (wk_cols w) @ lit ''x'' @ dec_str (wk_rows w) @ lit '' resize='' @ resize_policy_label (wk_policy w)"

definition attach_text :: "screen_args \<Rightarrow> rendered_attach \<Rightarrow> client_attach_state \<Rightarrow> ustring option" where
  \<comment> \<open>with styles for a terminal\<close>
  "attach_text args r cache =
     (if sg_styled args \<and> ra_surface_text r \<noteq> None
      then cached_surface_text_styled cache (as_pane_id (ra_status r)) True else ra_surface_text r)"

definition attach_surfaces :: "screen_args \<Rightarrow> rendered_attach \<Rightarrow> client_attach_state \<Rightarrow> live_surface_state" where
  "attach_surfaces args r cache =
     (let k = as_pane_id (ra_status r); w = ra_workspace r; rendered = attach_text args r cache;
          modes = (if rendered = None then (case cached_surface_summary cache k of Some c \<Rightarrow> cc_modes c | None \<Rightarrow> ra_modes r) else ra_modes r);
          t = (case (if rendered = None then cached_surface_text_styled cache k (sg_styled args) else rendered) of
              Some t \<Rightarrow> t | None \<Rightarrow> workspace_display_line w)
      in \<lparr>ls_metadata = (if rendered = None then (case cached_surface_metadata cache k of Some m \<Rightarrow> m
              | None \<Rightarrow> \<lparr>md_title = [], md_working_directory = []\<rparr>) else ra_surface_metadata r),
          ls_modes = modes, ls_text = t,
          ls_pane_surfaces = seed_cached_pane_surfaces cache (sg_styled args) w [(k, t)],
          ls_pane_summaries = seed_cached_pane_surface_summaries cache w [(k, ra_surface r)],
          ls_pane_modes = seed_cached_pane_modes cache w [(k, modes)], ls_scrollback_views = []\<rparr>)"

definition screen_start ::
  "screen_args \<Rightarrow> rendered_attach \<Rightarrow> client_attach_state \<Rightarrow> echo_overlay \<Rightarrow> client_inventory_cache \<Rightarrow>
     terminal_modes option option \<Rightarrow> rtt_tracker option \<Rightarrow> client_frame_sequence \<Rightarrow> live_screen" where
  \<comment> \<open>the screen of a client that has attached, also when it has changed the session\<close>
  "screen_start args r cache echo inventory mirror rtt q =
     (let s = attach_surfaces args r cache in
      \<lparr>sv_attached = as_pane_id (ra_status r), sv_workspace = ra_workspace r, sv_surfaces = s, sv_cache = cache,
       sv_echo = echo, sv_inventory = inventory, sv_mirror = fst (mirror_modes (ls_modes s) mirror), sv_rtt = rtt,
       sv_sequence = q\<rparr>)"

subsection \<open>The screen shows the cache\<close>

definition cached_text :: "screen_args \<Rightarrow> client_attach_state \<Rightarrow> ustring \<Rightarrow> ustring" where
  "cached_text args cache k =
     (case cached_surface_text_styled cache k (sg_styled args) of Some t \<Rightarrow> t | None \<Rightarrow> surface_not_cached)"

definition surfaces_ok :: "screen_args \<Rightarrow> client_attach_state \<Rightarrow> live_surface_state \<Rightarrow> bool" where
  \<comment> \<open>every text kept for a pane that is not scrolled is the one of the cache\<close>
  "surfaces_ok args cache s \<longleftrightarrow>
     bt_sorted (ls_pane_surfaces s) \<and> bt_sorted (ls_pane_modes s) \<and> bt_sorted (ls_scrollback_views s) \<and>
     (\<forall>k t. bt_get (ls_pane_surfaces s) k = Some t \<longrightarrow> bt_get (ls_scrollback_views s) k = None \<longrightarrow> t = cached_text args cache k)"

definition focus_ok :: "ustring \<Rightarrow> echo_overlay \<Rightarrow> live_surface_state \<Rightarrow> bool" where
  \<comment> \<open>the text and the modes shown are those of the pane in focus, but for a guess that waits\<close>
  "focus_ok active echo s \<longleftrightarrow>
     (\<exists>t. bt_get (ls_pane_surfaces s) active = Some t \<and> (ls_text s = t \<or> eo_prediction echo \<noteq> None)) \<and>
     bt_get (ls_pane_modes s) active = Some (ls_modes s)"

definition mirror_ok :: "terminal_modes \<Rightarrow> terminal_modes option option \<Rightarrow> bool" where
  "mirror_ok modes mirror \<longleftrightarrow> mirror = None \<or> mirror = Some (Some modes)"

definition screen_ok :: "screen_args \<Rightarrow> live_screen \<Rightarrow> bool" where
  "screen_ok args v \<longleftrightarrow>
     sv_attached v = wk_pane_id (sv_workspace v) \<and> surfaces_ok args (sv_cache v) (sv_surfaces v) \<and>
     focus_ok (sv_attached v) (sv_echo v) (sv_surfaces v) \<and> mirror_ok (ls_modes (sv_surfaces v)) (sv_mirror v)"

lemma mirror_modes_ok: "mirror_modes modes mirror = (mirror1, fx) \<Longrightarrow> mirror_ok modes mirror1"
  by (auto simp: mirror_modes_def mirror_ok_def sync_host_mouse_modes_def split: option.splits if_splits)

lemma surfaces_ok_store:
  assumes "surfaces_ok args cache s" and "\<And>j. j \<noteq> k \<Longrightarrow> cached cache1 j = cached cache j"
    and "bt_sorted views" and "\<And>j. j \<noteq> k \<Longrightarrow> bt_get views j = bt_get (ls_scrollback_views s) j"
    and "bt_get views k = None \<Longrightarrow> t = cached_text args cache1 k" and "bt_sorted modes"
    and "ls_pane_surfaces s1 = bt_put k t (ls_pane_surfaces s)" and "ls_pane_modes s1 = modes" and "ls_scrollback_views s1 = views"
  shows "surfaces_ok args cache1 s1"
proof -
  have "cached_text args cache1 j = cached_text args cache j" if "j \<noteq> k" for j
    using assms(2) [OF that] by (simp add: cached_text_def cached_surface_text_styled_def)
  then show ?thesis
    using assms by (auto simp: surfaces_ok_def bt_get_put bt_sorted_put split: if_splits)
qed

lemma store_update_fields:
  "ls_pane_surfaces (store_update u t cache active s) = bt_put (su_pane_id u) t (ls_pane_surfaces s)"
  "ls_pane_modes (store_update u t cache active s) = bt_put (su_pane_id u) (su_modes u) (ls_pane_modes s)"
  "ls_scrollback_views (store_update u t cache active s) = bt_del (su_pane_id u) (ls_scrollback_views s)"
  "ls_modes (store_update u t cache active s) = (if su_pane_id u = active then su_modes u else ls_modes s)"
  by (simp_all add: store_update_def Let_def split: option.split)

lemma store_update_text:
  assumes "bt_sorted (ls_pane_surfaces s)" and "bt_get (ls_pane_surfaces s) active = Some t0"
  shows "bt_get (ls_pane_surfaces (store_update u t cache active s)) active = Some (ls_text (store_update u t cache active s))"
  using assms by (simp add: store_update_def Let_def bt_get_put)

lemma take_update_ok:
  assumes "screen_ok args v" and "take_surface_update args u v = Inr (v1, fx)"
  shows "screen_ok args v1"
proof -
  let ?active = "wk_pane_id (sv_workspace v)"
  obtain cache t mirror where up: "apply_surface_update_styled (sv_cache v) u (sg_styled args) = (cache, Inr t)"
    and mirror: "(if su_pane_id u = ?active then mirror_modes (su_modes u) (sv_mirror v) else (sv_mirror v, [])) = (mirror, fx)"
    and v1: "v1 = v\<lparr>sv_echo := fst (reconcile_update (sv_echo v) u), sv_cache := cache, sv_mirror := mirror,
      sv_surfaces := store_update u t cache ?active (sv_surfaces v)\<rparr>"
    using assms(2) by (auto simp: take_surface_update_def Let_def split: prod.splits sum.splits)
  have ok: "surfaces_ok args (sv_cache v) (sv_surfaces v)" "focus_ok ?active (sv_echo v) (sv_surfaces v)"
    "mirror_ok (ls_modes (sv_surfaces v)) (sv_mirror v)" "sv_attached v = ?active"
    using assms(1) by (auto simp: screen_ok_def)
  from apply_surface_update_styled_Inr [OF up]
  have shown: "t = cached_text args cache (su_pane_id u)" and others: "\<And>j. j \<noteq> su_pane_id u \<Longrightarrow> cached cache j = cached (sv_cache v) j"
    by (auto simp: cached_text_def cached_surface_text_styled_def)
  let ?s = "store_update u t cache ?active (sv_surfaces v)"
  have "surfaces_ok args cache ?s"
    by (rule surfaces_ok_store [OF ok(1) others])
      (use ok(1) shown in \<open>auto simp: store_update_fields surfaces_ok_def bt_get_del bt_sorted_del bt_sorted_put\<close>)
  moreover have "focus_ok ?active echo ?s" for echo
  proof -
    obtain t0 where "bt_get (ls_pane_surfaces (sv_surfaces v)) ?active = Some t0" using ok(2) by (auto simp: focus_ok_def)
    with ok(1) have "bt_get (ls_pane_surfaces ?s) ?active = Some (ls_text ?s)"
      by (simp add: store_update_text surfaces_ok_def)
    with ok(1,2) show ?thesis by (auto simp: focus_ok_def surfaces_ok_def store_update_fields(2,4) bt_get_put)
  qed
  moreover have "mirror_ok (ls_modes ?s) mirror"
    using ok(3) mirror mirror_modes_ok by (auto simp: store_update_fields split: if_splits)
  ultimately show ?thesis using ok(4) by (simp add: screen_ok_def v1)
qed

lemma take_updates_ok: "screen_ok args v \<Longrightarrow> take_surface_updates args us v = Inr (v1, fx) \<Longrightarrow> screen_ok args v1"
  by (induction us arbitrary: v fx) (auto simp: bind_res_Inr_iff dest: take_update_ok)

lemma restore_ok:
  assumes "screen_ok args v" shows "screen_ok args (restore_live_pane_surface args k v)"
proof -
  have "surfaces_ok args (sv_cache v) (sv_surfaces (restore_live_pane_surface args k v))"
    by (rule surfaces_ok_store [where s = "sv_surfaces v" and cache = "sv_cache v" and k = k and t = "cached_text args (sv_cache v) k"])
      (use assms in \<open>auto simp: screen_ok_def surfaces_ok_def restore_live_pane_surface_def Let_def cached_text_def
        bt_get_del bt_sorted_del bt_sorted_put\<close>)
  then show ?thesis
    using assms
    by (auto simp: screen_ok_def focus_ok_def surfaces_ok_def restore_live_pane_surface_def Let_def bt_get_put)
qed

lemma switch_ok:
  assumes "surfaces_ok args (sv_cache v) (sv_surfaces v)" and "sv_attached v = wk_pane_id (sv_workspace v)"
    and "switch_live_surface_to_workspace_pane args v = (v1, fx)"
  shows "screen_ok args v1"
proof -
  let ?k = "wk_pane_id (sv_workspace v)"
  have "surfaces_ok args (sv_cache v) (sv_surfaces v1)"
    by (rule surfaces_ok_store [where s = "sv_surfaces v" and cache = "sv_cache v" and k = ?k and t = "cached_text args (sv_cache v) ?k"])
      (use assms in \<open>auto simp: surfaces_ok_def switch_live_surface_to_workspace_pane_def Let_def cached_text_def
        bt_get_del bt_sorted_del bt_sorted_put split: prod.splits\<close>)
  with assms show ?thesis
    using mirror_modes_ok
    by (fastforce simp: screen_ok_def focus_ok_def surfaces_ok_def switch_live_surface_to_workspace_pane_def Let_def bt_get_put
        split: prod.splits)
qed

lemma focus_keeps_ok:
  assumes "screen_ok args v" and "focus_live_client_pane args k v = (v1, fx, b)"
  shows "screen_ok args v1"
  using assms switch_ok [of args "v\<lparr>sv_attached := k, sv_workspace := (sv_workspace v)\<lparr>wk_pane_id := k\<rparr>\<rparr>"]
  by (auto simp: focus_live_client_pane_def screen_ok_def split: prod.splits if_splits)

lemma switch_moves:
  assumes "switch_live_surface_to_workspace_pane args v = (v1, fx)"
  shows "sv_attached v1 = sv_attached v" "sv_workspace v1 = sv_workspace v" "sv_cache v1 = sv_cache v" "sv_echo v1 = sv_echo v"
    and "sv_mirror v1 = None \<longleftrightarrow> sv_mirror v = None"
    and "ls_scrollback_views (sv_surfaces v1) = bt_del (wk_pane_id (sv_workspace v)) (ls_scrollback_views (sv_surfaces v))"
proof -
  let ?v = "fst (switch_live_surface_to_workspace_pane args v)"
  have "sv_attached ?v = sv_attached v \<and> sv_workspace ?v = sv_workspace v \<and> sv_cache ?v = sv_cache v \<and> sv_echo ?v = sv_echo v"
    "ls_scrollback_views (sv_surfaces ?v) = bt_del (wk_pane_id (sv_workspace v)) (ls_scrollback_views (sv_surfaces v))"
    by (simp_all add: switch_live_surface_to_workspace_pane_def Let_def case_prod_beta)
  moreover have "fst (mirror_modes modes mirror) = None \<longleftrightarrow> mirror = None" for modes mirror
    by (simp add: mirror_modes_def split: option.split prod.split)
  then have "sv_mirror ?v = None \<longleftrightarrow> sv_mirror v = None"
    by (simp add: switch_live_surface_to_workspace_pane_def Let_def case_prod_beta)
  ultimately show "sv_attached v1 = sv_attached v" "sv_workspace v1 = sv_workspace v" "sv_cache v1 = sv_cache v"
    "sv_echo v1 = sv_echo v" "sv_mirror v1 = None \<longleftrightarrow> sv_mirror v = None"
    "ls_scrollback_views (sv_surfaces v1) = bt_del (wk_pane_id (sv_workspace v)) (ls_scrollback_views (sv_surfaces v))"
    using assms by simp_all
qed

lemma focus_moves:
  assumes "focus_live_client_pane args k v = (v1, fx, b)" and "k \<in> wp_id ` set (workspace_panes (sv_workspace v))"
  shows "sv_attached v1 = k" and "sv_cache v1 = sv_cache v" and "sv_echo v1 = sv_echo v"
    and "sv_mirror v1 = None \<longleftrightarrow> sv_mirror v = None" and "wk_pane_tree (sv_workspace v1) = wk_pane_tree (sv_workspace v)"
    and "ls_scrollback_views (sv_surfaces v) = [] \<Longrightarrow> ls_scrollback_views (sv_surfaces v1) = []"
proof -
  let ?v = "v\<lparr>sv_attached := k, sv_workspace := (sv_workspace v)\<lparr>wk_pane_id := k\<rparr>\<rparr>"
  obtain v2 fx2 where sw: "switch_live_surface_to_workspace_pane args ?v = (v2, fx2)" by fastforce
  have "v1 = (if k = sv_attached v then v else v2)" using assms by (auto simp: focus_live_client_pane_def sw split: if_splits)
  then show "sv_attached v1 = k" "sv_cache v1 = sv_cache v" "sv_echo v1 = sv_echo v"
    "sv_mirror v1 = None \<longleftrightarrow> sv_mirror v = None" "wk_pane_tree (sv_workspace v1) = wk_pane_tree (sv_workspace v)"
    "ls_scrollback_views (sv_surfaces v) = [] \<Longrightarrow> ls_scrollback_views (sv_surfaces v1) = []"
    using switch_moves [OF sw] by (auto simp: bt_del_def)
qed

lemma command_workspace_ok:
  assumes "screen_ok args v" and "take_command_workspace args w v = (v1, fx)"
  shows "screen_ok args v1"
  using assms switch_ok [of args "v\<lparr>sv_workspace := w, sv_attached := wk_pane_id w\<rparr>"]
  by (auto simp: take_command_workspace_def screen_ok_def)

lemma predict_leaves_prediction:
  "predict_printable_key a ov c input_seq t = (ov', Some r) \<Longrightarrow> eo_prediction ov' \<noteq> None"
  by (auto simp: predict_printable_key_def Let_def split: if_splits option.splits)

lemma speculation_ok:
  assumes "screen_ok args v" shows "screen_ok args (fst (repaint_speculative_echo a args enabled input_seq t v))"
proof -
  have keeps: "eo_prediction ov \<noteq> None \<Longrightarrow> predict_printable_key a ov c input_seq t = (ov', r) \<Longrightarrow> eo_prediction ov' \<noteq> None" for ov ov' c r
    by (simp add: predict_printable_key_def)
  have same: "focus_ok k echo s \<Longrightarrow> (eo_prediction echo \<noteq> None \<Longrightarrow> eo_prediction echo' \<noteq> None) \<Longrightarrow> focus_ok k echo' s" for k echo echo' s
    by (auto simp: focus_ok_def)
  have waits: "focus_ok k echo s \<Longrightarrow> eo_prediction echo' \<noteq> None \<Longrightarrow> focus_ok k echo' (s\<lparr>ls_text := x\<rparr>)" for k echo echo' s x
    by (auto simp: focus_ok_def)
  show ?thesis
  proof (cases "cached (sv_cache v) (sv_attached v)")
    case None
    with assms show ?thesis by (simp add: repaint_speculative_echo_def render_speculative_echo_def)
  next
    case (Some c)
    obtain ov r where p: "predict_printable_key a (sv_echo v) c input_seq t = (ov, r)" by fastforce
    with Some assms keeps [of "sv_echo v" c ov r] predict_leaves_prediction [of a "sv_echo v" c input_seq t ov]
    show ?thesis
      by (auto simp: repaint_speculative_echo_def render_speculative_echo_def screen_ok_def surfaces_ok_def
          intro: same waits split: option.split)
  qed
qed

lemma store_view_ok:
  assumes "screen_ok args v" shows "screen_ok args (store_scrollback_view k chunk v)"
proof -
  let ?v = "store_scrollback_view k chunk v"
  have "surfaces_ok args (sv_cache ?v) (sv_surfaces ?v)"
    by (rule surfaces_ok_store [where s = "sv_surfaces v" and cache = "sv_cache v" and k = k and t = "render_scrollback_view_text chunk"])
      (use assms in \<open>auto simp: screen_ok_def surfaces_ok_def store_scrollback_view_def Let_def bt_get_put bt_sorted_put
        cached_cong [OF cache_scrollback_chunk_surfaces(1)] split: if_splits\<close>)
  then show ?thesis
    using assms by (auto simp: screen_ok_def focus_ok_def surfaces_ok_def store_scrollback_view_def Let_def bt_get_put)
qed

lemma scroll_ok:
  assumes "screen_ok args v" and "scroll_live_pane_view args scope k direction n rs v = Inr (v1, fx, b, sent, rest)"
  shows "screen_ok args v1"
proof -
  have same: "screen_ok args (v\<lparr>sv_sequence := q, sv_inventory := i\<rparr>)" for q i using assms(1) by (auto simp: screen_ok_def)
  show ?thesis
    using assms restore_ok [OF assms(1)]
    by (auto simp: scroll_live_pane_view_def Let_def bind_res_Inr_iff store_view_ok split: if_splits scroll_target.splits sum.splits
        dest!: take_updates_ok [OF same])
qed

lemma read_ok:
  assumes "screen_ok args v" and "screen_read args now overlay r v = Inr (v1, fx, e)"
    and "\<And>w. r = LiveWorkspace w \<Longrightarrow> sv_attached v \<in> wp_id ` set (workspace_panes w)"
  shows "screen_ok args v1"
proof (cases r)
  case (LiveUpdate u)
  with assms(1,2) take_update_ok show ?thesis
    by (auto simp: screen_read_def process_surface_update_def bind_res_Inr_iff split: prod.splits)
qed (use assms in \<open>auto simp: screen_read_def screen_ok_def preserve_live_client_focus_def Let_def split: option.splits prod.splits\<close>)

lemma seed_panes_get:
  assumes "bt_sorted m"
  shows "bt_sorted (seed_panes lookup w m)"
    and "bt_get m k = Some x \<Longrightarrow> bt_get (seed_panes lookup w m) k = Some x"
    and "bt_get (seed_panes lookup w m) k = Some x \<Longrightarrow> bt_get m k = Some x \<or> lookup k = Some x"
proof -
  let ?f = "\<lambda>p m. if bt_get m (wp_id p) \<noteq> None then m
    else case lookup (wp_id p) of Some x \<Rightarrow> bt_put (wp_id p) x m | None \<Rightarrow> m"
  have "bt_sorted (fold ?f ps m) \<and> (bt_get m k = Some x \<longrightarrow> bt_get (fold ?f ps m) k = Some x) \<and>
      (bt_get (fold ?f ps m) k = Some x \<longrightarrow> bt_get m k = Some x \<or> lookup k = Some x)" for ps
    using assms
  proof (induction ps arbitrary: m)
    case (Cons p ps)
    have "bt_sorted (?f p m)" "bt_get m k = Some x \<Longrightarrow> bt_get (?f p m) k = Some x"
      "bt_get (?f p m) k = Some x \<Longrightarrow> bt_get m k = Some x \<or> lookup k = Some x"
      using Cons.prems by (auto simp: bt_sorted_put bt_get_put split: option.splits if_splits)
    with Cons.IH [of "?f p m"] show ?case by auto
  qed simp
  from this [of "workspace_panes w"]
  show "bt_sorted (seed_panes lookup w m)" "bt_get m k = Some x \<Longrightarrow> bt_get (seed_panes lookup w m) k = Some x"
    "bt_get (seed_panes lookup w m) k = Some x \<Longrightarrow> bt_get m k = Some x \<or> lookup k = Some x"
    by (simp_all add: seed_panes_def)
qed

lemma single_entry: "bt_sorted [(k, y)]" "bt_get [(k, y)] j = (if j = k then Some y else None)"
  by (simp_all add: bt_get_def)

lemma start_ok:
  assumes "render_attach s0 snapshot = (cache, Inr r)" and "wk_pane_id (ra_workspace r) = as_pane_id (ra_status r)"
  shows "screen_ok args (screen_start args r cache echo inventory mirror rtt q)"
proof -
  let ?k = "as_pane_id (ra_status r)" and ?w = "ra_workspace r" and ?s = "attach_surfaces args r cache"
  have "ra_status r = at_status snapshot"
    using assms(1) by (auto simp: render_attach_def Let_def split: prod.splits sum.splits option.splits)
  with render_attach_Inr [OF assms(1)] obtain c where c: "cached cache ?k = Some c" "ra_surface_text r = Some (render_text c)"
    by auto
  have drawn: "attach_text args r cache = Some (render_surface (sg_styled args) c)"
    using c by (simp add: attach_text_def cached_surface_text_styled_def render_surface_def)
  then have t: "ls_text ?s = cached_text args cache ?k"
    using c(1) by (simp add: attach_surfaces_def Let_def cached_text_def cached_surface_text_styled_def)
  have fields: "ls_pane_surfaces ?s = seed_cached_pane_surfaces cache (sg_styled args) ?w [(?k, ls_text ?s)]"
    "ls_pane_modes ?s = seed_cached_pane_modes cache ?w [(?k, ls_modes ?s)]" "ls_scrollback_views ?s = []"
    by (simp_all add: attach_surfaces_def Let_def)
  have kept: "x = cached_text args cache j" if "bt_get (ls_pane_surfaces ?s) j = Some x" for j x
    using seed_panes_get(3) [OF single_entry(1) that [unfolded fields seed_cached_pane_surfaces_def]] t
    by (auto simp: cached_text_def single_entry(2) split: if_splits)
  have "surfaces_ok args cache ?s"
    unfolding surfaces_ok_def
  proof (intro conjI allI impI)
    show "bt_sorted (ls_pane_surfaces ?s)" "bt_sorted (ls_pane_modes ?s)" "bt_sorted (ls_scrollback_views ?s)"
      unfolding fields seed_cached_pane_surfaces_def seed_cached_pane_modes_def by (rule seed_panes_get(1) [OF single_entry(1)])+ simp
  qed (rule kept)
  moreover have "focus_ok ?k echo ?s"
    using seed_panes_get(2) [of "[(?k, ls_text ?s)]" ?k "ls_text ?s"] seed_panes_get(2) [of "[(?k, ls_modes ?s)]" ?k "ls_modes ?s"]
    by (simp add: focus_ok_def fields seed_cached_pane_surfaces_def seed_cached_pane_modes_def bt_get_def)
  moreover have "mirror_ok (ls_modes ?s) (fst (mirror_modes (ls_modes ?s) mirror))"
    using mirror_modes_ok by (metis prod.collapse)
  ultimately show ?thesis using assms(2) by (simp add: screen_ok_def screen_start_def Let_def)
qed

inductive screen_runs :: "(text_attribute \<Rightarrow> ustring) \<Rightarrow> screen_args \<Rightarrow> live_screen \<Rightarrow> bool" for a args where
  \<comment> \<open>the screen of a client through its life; the pane it is attached to stays in the workspace\<close>
  runs_start: "render_attach s0 snapshot = (cache, Inr r) \<Longrightarrow> wk_pane_id (ra_workspace r) = as_pane_id (ra_status r) \<Longrightarrow>
    screen_runs a args (screen_start args r cache echo inventory mirror rtt q)"
| runs_read: "screen_runs a args v \<Longrightarrow> screen_read args now overlay r v = Inr (v1, fx, e) \<Longrightarrow>
    (\<And>w. r = LiveWorkspace w \<Longrightarrow> sv_attached v \<in> wp_id ` set (workspace_panes w)) \<Longrightarrow> screen_runs a args v1"
| runs_scroll: "screen_runs a args v \<Longrightarrow> scroll_live_pane_view args scope k direction n rs v = Inr (v1, fx, b, sent, rest) \<Longrightarrow>
    screen_runs a args v1"
| runs_focus: "screen_runs a args v \<Longrightarrow> focus_live_client_pane args k v = (v1, fx, b) \<Longrightarrow> screen_runs a args v1"
| runs_key_command: "screen_runs a args v \<Longrightarrow> key_command_workspace args w v = (v1, fx) \<Longrightarrow> screen_runs a args v1"
| runs_mouse_command: "screen_runs a args v \<Longrightarrow> mouse_command_workspace args w v = (v1, fx) \<Longrightarrow> screen_runs a args v1"
| runs_typed: "screen_runs a args v \<Longrightarrow> screen_runs a args (fst (repaint_speculative_echo a args enabled input_seq t v))"
| runs_resized: "screen_runs a args v \<Longrightarrow>
    screen_runs a args (v\<lparr>sv_workspace := apply_frontend_workspace_size (sv_workspace v) (sv_attached v) cols rows\<rparr>)"

lemma screen_runs_ok: "screen_runs a args v \<Longrightarrow> screen_ok args v"
proof (induction rule: screen_runs.induct)
  case (runs_resized v cols rows)
  then show ?case by (auto simp: screen_ok_def apply_frontend_workspace_size_def)
next
  case (runs_key_command v w v1 fx)
  then show ?case by (auto simp: key_command_workspace_def dest: command_workspace_ok split: prod.splits)
next
  case (runs_mouse_command v w v1 fx)
  then show ?case by (auto simp: mouse_command_workspace_def dest: command_workspace_ok split: prod.splits)
qed (blast intro: start_ok read_ok scroll_ok focus_keeps_ok speculation_ok)+

lemma closed_pane_strands_client:
  \<comment> \<open>a workspace without the pane the client is attached to changes neither this pane nor what is shown\<close>
  assumes "screen_read args now overlay (LiveWorkspace w) v = Inr (v1, fx, e)"
    and "sv_attached v \<notin> wp_id ` set (workspace_panes w)"
  shows "sv_attached v1 = sv_attached v" and "sv_workspace v1 = w" and "sv_surfaces v1 = sv_surfaces v"
  using assms by (auto simp: screen_read_def preserve_live_client_focus_def Let_def)

lemma update_hides_overlay:
  \<comment> \<open>a snapshot of any pane is painted without the overlay that is open\<close>
  assumes "screen_read args now (Some ov) (LiveUpdate u) v = Inr (v1, fx, e)" and "su_kind u = UpdateSnapshot"
    and "sg_redraw args" and "\<not> sg_output_json args"
  shows "last fx = PaintScreen None" and "PaintScreen (Some ov) \<notin> set fx"
  using assms
  by (auto simp: screen_read_def process_surface_update_def take_surface_update_def bind_res_Inr_iff print_live_update_def
      live_update_print_kind_def print_live_surface_def mirror_modes_def Let_def split: prod.splits sum.splits option.splits if_splits)

lemma pong_breaks_scrolling:
  \<comment> \<open>an answer to a ping that comes while scrollback is awaited ends the client\<close>
  assumes "en_body e = BodyPong p"
  shows "read_scrollback_response_from_stream (FrameRead e # rest) us ls = Inl ReadUnexpected"
  using assms by simp

lemma scrolling_drops_workspace:
  \<comment> \<open>a workspace frame that comes while scrollback is awaited is not applied\<close>
  assumes "en_body e = BodyWorkspace w"
  shows "read_scrollback_response_from_stream (FrameRead e # rest) us ls = read_scrollback_response_from_stream rest us ls"
  using assms by simp

end
