(* ===== verification/Spec2Isabelle.thy ===== *)
theory Spec2Isabelle
  imports Surface_Limits Speculative_Echo Trace_Container Wire_Frames Tmux_Adapter Attach_Handshake Async_Delivery Live_Loop Client_View
begin

text \<open>
  A model of nmux, a terminal multiplexer whose server keeps the state of terminals and streams it to
  attached clients, as far as it is decided in Rust code of this repository. What the code reads from sockets,
  processes and clocks is an argument of the model, what it writes a result.

  The program. A server holds a session: tabs, each a binary tree of panes, each pane the visible rows,
  styles, colours, modes and scrollback of one terminal (\<open>crates/nmux-core/src/session.rs\<close>). Events
  from hosts and clients are queued, ordered by a deterministic scheduler, accepted one at a time and
  recorded; process output goes through a terminal engine (\<open>terminal.rs\<close>). What a client sees
  goes out in frames: the workspace, snapshots of panes, patches against a version, scrollback chunks. The
  client (\<open>crates/nmux-cli/src/local.rs\<close> and \<open>local/surface.rs\<close>) checks and decodes them,
  keeps a copy of each pane, and sends input frames, which the server checks and turns into bytes for the
  program in the pane.

  The theories, in the order of their dependence.

  \<^item> Prelude: integers of Rust as \<open>nat\<close> with the saturating and checked additions written out,
    results, list helpers. Rust_Text: strings as lists of code points, UTF-8, numbers as text, lines.
    Ordered_Map: the BTreeMap of the standard library.
  \<^item> Protocol: the enumerations of the wire schema with their codes (generated code).
  \<^item> Terminal_Types, Interim_Engine, Key_Encoding: the engine interface, the built-in text engine with
    its escape sequence parser, the encoding of keys and mouse events (\<open>terminal.rs\<close>).
  \<^item> Host_Spec: what a pane runs (\<open>host.rs\<close>).
  \<^item> Pane_Update: \<open>apply_terminal_update\<close>, which versions a pane and classifies the change.
    Pane_Tree: the tree and its splits. Workspace: the operations of \<open>Session\<close>. Session_Core:
    \<open>SessionCore\<close>, scheduler, trace, replay, actors, registry.
  \<^item> Frames: the frame functions of \<open>Session\<close> up to the values given to the FlatBuffers builder; a
    frame is an \<open>envelope\<close> with optional fields, as the generated accessors present it.
  \<^item> Client_Surface, Client_Laws: the client's decoding, its copy of a pane, snapshots, patches, rendering.
    Surface_Sync, Surface_Delivery: the copy against the pane, which frame the server chooses. Surface_Limits:
    the updates for which the copy goes wrong. Messages: the other frames and what is forwarded to a pane.
  \<^item> State_File, Client_State: the text format of the client's state file, written and read
    (\<open>local/state_file.rs\<close>, \<open>local/client_state.rs\<close>). Client_Cache: the operations on the
    cache in that file, up to rendering an attach. Speculative_Echo: guesses of the echo
    (\<open>speculative_echo.rs\<close>).
  \<^item> Trace_Container: the trace file (\<open>replay.rs\<close>). Wire_Frames: length prefixed frames on a stream
    (\<open>crates/nmux-proto/src/wire.rs\<close>). Tmux_Adapter: tmux inventories as sessions (\<open>tmux.rs\<close>).

  \<^item> Host_Interface: the traits of a host (\<open>host.rs\<close>) as a record of operations, the hosts that need no
    operating system, and the locales \<open>pane_supervisor\<close> (which panes run after an operation) and
    \<open>output_source\<close> (output is read in order, without loss). Local_Hosts: the hosts that run processes, over a
    record of what the operating system answers, and the view of one session on a shared host (\<open>daemon.rs\<close>).
  \<^item> Requests: attach requests, control commands, pings, presence and inventories as frames, and the client's
    reading of answers. Control_Commands: splits, tabs and the end of a session, on a session and through an
    actor (\<open>local/control.rs\<close>). Output_Pump: the way of process output into a session, directly or through
    the bounded handoff of an actor (\<open>local.rs\<close>). Serving: one connection, from its first frame to its end.
    Attach_Handshake: what the client reads while it attaches. Daemon: the session built from the arguments, the
    registry of sessions and the loop over connections (\<open>daemon.rs\<close>).

  \<^item> Async_Output: the queues between the session and the socket of a client that follows it live, and the tasks
    that write to and read from the socket (\<open>local/async_live.rs\<close>). Live_Session: the loop that serves one
    such client, on a session and on an actor, over a record \<open>live_ops\<close> of what the two variants do differently
    (\<open>local.rs\<close>). Live_Clients: several clients on one session, their queues, their common pane size and the
    frames they send. Live_Loop: the loop around them, from the connections it accepts to the clients it lets go.
    Async_Delivery: the interleaving of all of it, up to the client's cache.

  \<^item> Screen: the full screen of the client, its panes, menus and overlays and what the mouse can hit
    (\<open>crates/nmux-cli/src/bin/nmux/tui.rs\<close>). Client_Input: the bytes of the client's terminal, mouse reports, the
    menus as a state machine, and where a mouse event goes (\<open>crates/nmux-cli/src/bin/nmux.rs\<close>). Client_View: what
    the client shows, as updates, workspaces, scrolling, a change of the focus and guesses of the echo change it.

  What is shown. The client follows the server: through any run of outputs and resizes, the one frame chosen
  for the client's version makes its copy equal to the pane (C1, C10,
  C11); an attach, from the first
  frame the server writes to the text the client shows, gives the server's pane whatever the client's cache held
  (C2, C19); a client that follows the session live gets every pane that
  is signalled, however its queue, the writer and the session interleave (C3), and its
  queue stays bounded and in order (C18). The loop around one live client serves it through any
  number of turns and sends every version (C7, C9), and so does
  the loop around any number of them (C8), but one that does not read ends it for all
  (C24); several clients share a pane at its least size, one without the right to write changes nothing, and both variants of the
  server do the same (C25, C23, C17). The daemon
  never gets stuck over any connections, its registry stays well formed, and a connection touches one session only
  (C4, C6); exactly the panes of a workspace run, commands do
  the same on a session and on its actor, and their answers are read as they were meant
  (C5, C16, C20); output reaches the session in
  order and in bounded pieces, a health probe is answered, a read-only client is harmless (C14,
  C21, C22). Sessions stay well formed, replay rebuilds them, and
  every queued event is accepted once and in order (C12, C13,
  C26). Messages survive the wire, and a paste cannot escape from its brackets
  (C34, C35, C36). The client's cache survives its file (C15).
  The client hands on what is typed without loss, reads mouse reports as they were written and sends them to the
  pane that is drawn there, reports the size it draws, draws nothing outside its screen and no control character,
  and its menus stay in order (C28, C33, C29,
  C30, C31, C32); through its life it shows
  what its cache holds (C27). The speculative echo shows what typing
  would show (C37). Frames, traces and tmux inventories
  keep what they carry (C38, C39, C40).

  Integers. Rust's \<open>u32\<close>, \<open>u64\<close> and \<open>usize\<close> are \<open>nat\<close>; every addition that can wrap,
  saturate or fail is written with its bound, and theorems that need it assume the version has not
  reached the maximum. Hashes are 64-bit words.

  Loops and time. Loops of the source are structural recursions or folds; draining a queue is a recursive function
  with a termination proof. A loop that may not end on an arbitrary host (reading until nothing comes, polling
  until it is quiet, waiting for the first output) is a \<open>partial_function\<close> whose result is \<open>None\<close> when it
  does not end; on an \<open>output_source\<close> and with a clock that passes its deadline it is shown to end. A clock is
  the function from the number of a call of \<open>Instant::now\<close> to its answer in milliseconds. Writes to a socket
  are taken to succeed: the source ends the handler at the first one that fails.

  Not modelled: the FlatBuffers encoding itself (the generated accessors are taken to return what was put
  in), the libghostty engine (any engine is allowed, as a parameter), poll descriptors, threads and their wakers, the socket file and the TCP listener, argument parsing, the order in which the loop
  of the client polls its terminal and its socket, its status bar, the buffer of the drawing library (the calls on it are
  recorded), and the build and measurement tools.
\<close>
section \<open>Panes reach their clients\<close>

lemma initial_pane_accepted:
  "session_pane_data session_initial (lit ''pane-1'') = Some initial_pane" "interim_accepts initial_pane"
proof -
  show "session_pane_data session_initial (lit ''pane-1'') = Some initial_pane"
    by (simp add: session_pane_data_def session_pane_def session_initial_def) (simp add: initial_pane_def Let_def)
  show "interim_accepts initial_pane"
    using initial_pane_ok
    by (simp add: interim_accepts_def pane_sendable_def)
      (simp add: initial_pane_def Let_def runs_sendable_def terminal_modes_default_def lit_def)
qed

lemma initial_pane_facts:
  "pane_ok initial_pane" "pane_sendable initial_pane" "pn_surface_version initial_pane = 2"
  using initial_pane_accepted(2) by (simp_all add: interim_accepts_def) (simp add: initial_pane_def Let_def)

text \<open>C1: start a session, feed the first pane any sequence of output chunks and resizes, let a
  client take a copy, feed the pane any further outputs and resizes: the one frame the server then
  writes for the client's version (none, a patch or a snapshot) is accepted and makes the client's
  copy equal to the pane again.\<close>

theorem client_follows_session:
  assumes "length xs + length ys < U64_MAX - 1"
    and "(s, e) = fold (session_engine_step interim_engine (lit ''pane-1'')) xs (session_initial, Ground)"
    and "(s', e') = fold (session_engine_step interim_engine (lit ''pane-1'')) ys (s, e)"
  shows "\<exists>p p'. session_pane_data s (lit ''pane-1'') = Some p \<and> session_pane_data s' (lit ''pane-1'') = Some p' \<and>
    receive_frame (client_of p) (changed_frame s' seq (lit ''pane-1'') (pn_surface_version p)) = Inr (client_of p')"
proof -
  obtain e1 ss where run: "engine_run interim_engine Ground initial_pane xs = (e1, ss)" by fastforce
  from session_run_look [OF initial_pane_accepted(1) run] assms(2)
  have look: "session_pane_data s (lit ''pane-1'') = Some (pane_run initial_pane ss)" by auto
  have acc: "interim_accepts (pane_run initial_pane ss)" and len: "length ss \<le> length xs"
    using interim.engine_run_ok [OF initial_pane_accepted(2) run] by simp_all
  have "pn_surface_version (pane_run initial_pane ss) \<le> 2 + length ss"
    using pane_run_version_le [of initial_pane ss] assms(1) len initial_pane_facts(3) by simp
  then have v: "pn_surface_version (pane_run initial_pane ss) + length ys \<le> U64_MAX" using assms(1) len by simp
  have "s' = fst (fold (session_engine_step interim_engine (lit ''pane-1'')) ys (s, e))"
    using assms(3) by (metis fst_conv)
  from interim_session_delivers [OF look acc v this, of seq] look show ?thesis by blast
qed

theorem client_follows_session_witness:
  "\<exists>s e s' e' p p'.
     (s, e) = fold (session_engine_step interim_engine (lit ''pane-1'')) [OpOutput [0x41, 0x0A]] (session_initial, Ground) \<and>
     (s', e') = fold (session_engine_step interim_engine (lit ''pane-1'')) [OpOutput [0x42], OpResize 40 12] (s, e) \<and>
     session_pane_data s' (lit ''pane-1'') = Some p' \<and>
     receive_frame (client_of p) (changed_frame s' 7 (lit ''pane-1'') (pn_surface_version p)) = Inr (client_of p')"
proof -
  let ?f = "session_engine_step interim_engine (lit ''pane-1'')"
  obtain s e where s: "(s, e) = fold ?f [OpOutput [0x41, 0x0A]] (session_initial, Ground)" by (metis prod.exhaust)
  obtain s' e' where s': "(s', e') = fold ?f [OpOutput [0x42], OpResize 40 12] (s, e)" by (metis prod.exhaust)
  have "length [OpOutput [0x41, 0x0A]] + length [OpOutput [0x42], OpResize 40 12] < U64_MAX - 1"
    by (simp add: U64_MAX_def)
  from client_follows_session [OF this s s', of 7] s s' show ?thesis by blast
qed

text \<open>The snapshot frame of a pane, decoded, builds the copy of the pane.\<close>

theorem snapshot_frame_builds_copy:
  assumes "session_pane_data s k = Some p" and "pane_sendable p" and "pane_ok p"
  shows "\<exists>f. pane_surface_frame_for_pane s conn seq k = Some f \<and>
    bind_res (surface_update_from_frame f) client_from_snapshot = Inr (client_of p)"
  using snapshot_syncs [OF assms(2) pane_ok_rows [OF assms(3)]] pane_surface_frame_eq [OF assms(1), of conn seq]
  by (simp add: surface_update_from_frame_def session_envelope_def)

theorem snapshot_frame_builds_copy_witness:
  "\<exists>f. pane_surface_frame_for_pane session_initial (lit ''c'') 1 (lit ''pane-1'') = Some f \<and>
    bind_res (surface_update_from_frame f) client_from_snapshot = Inr (client_of initial_pane)"
  by (rule snapshot_frame_builds_copy [OF initial_pane_accepted(1) initial_pane_facts(2,1)])

text \<open>C11: for any engine, an update the session classified as incremental, sent as a patch and
  applied to the copy of the pane before it, gives the copy of the pane after it, as long as the
  update has no fewer rows and its palette is no proper prefix of the old one.\<close>

theorem patch_advances_copy:
  assumes "pane_ok p" and "pn_surface_version p < U64_MAX" and "update_grows p u"
    and "p' = fst (apply_terminal_update p u False)" and "pane_sendable p'"
    and "pn_surface_version p' \<noteq> pn_surface_version p" and "pn_last_patch_kind p' \<noteq> PatchFullRefreshRequired"
  shows "bind_res (patch_update (pane_patch p' (pn_surface_version p))) (client_apply_patch (client_of p)) =
    Inr (client_of p')"
  using patch_syncs [OF assms(1-4,6,7,5)] by simp

definition titled :: "pane_data \<Rightarrow> terminal_update" where
  \<comment> \<open>an engine's answer that only sets the title\<close>
  "titled p =
     (let i = terminal_input_of_pane p in
      (terminal_update_plain PatchReplaceRows (ti_surface i) (ti_cursor i) (ti_surface_lines i) (ti_scrollback_lines i))
        \<lparr>tu_title := lit ''t''\<rparr>)"

theorem patch_advances_copy_witness:
  "bind_res (patch_update (pane_patch (fst (apply_terminal_update initial_pane (titled initial_pane) False)) 2))
     (client_apply_patch (client_of initial_pane)) =
   Inr (client_of (fst (apply_terminal_update initial_pane (titled initial_pane) False)))"
proof -
  let ?u = "titled initial_pane"
  let ?p = "fst (apply_terminal_update initial_pane ?u False)"
  have u: "tu_surface_lines ?u = pn_surface_lines initial_pane" "tu_colors ?u = pn_colors initial_pane"
    "tu_surface_row_runs ?u = pn_surface_row_runs initial_pane" "tu_title ?u \<noteq> pn_terminal_title initial_pane"
    "tu_surface_semantic_prompts ?u = pn_surface_semantic_prompts initial_pane"
    "tu_surface_dirty_rows ?u = pn_surface_dirty_rows initial_pane" "tu_surface_kitty ?u = pn_surface_kitty initial_pane"
    "tu_surface ?u = pn_surface initial_pane" "tu_styles ?u = pn_styles initial_pane"
    "cursor_of_terminal_cursor (tu_cursor ?u) = pn_cursor initial_pane" "tu_modes ?u = pn_modes initial_pane"
    by (simp_all add: titled_def Let_def terminal_update_plain_def terminal_input_of_pane_def plain_row_runs_def
        plain_row_semantic_prompts_def plain_row_dirty_flags_def plain_row_kitty_placeholders_def
        cursor_of_terminal_cursor_def terminal_cursor_of_cursor_def)
      (simp_all add: initial_pane_def Let_def lit_def)
  have grows: "update_grows initial_pane ?u" by (simp add: update_grows_def u palette_grows_def)
  have "rows_kept initial_pane ?u"
    using pane_ok_rows [OF initial_pane_facts(1)]
    by (auto simp: rows_kept_def u surface_rows_ok_def surface_rows_aligned_def row_runs_for_lines_id row_vectors_for_lines_id)
  moreover have count: "\<not> ch_row_count (patch_changes initial_pane ?u False)" by (simp add: patch_changes_def)
  ultimately have sc: "surface_changed (patch_changes initial_pane ?u False)"
    and kind: "terminal_patch_kind (patch_changes initial_pane ?u False) = PatchCursorOnly"
    using u count
    by (simp_all add: surface_changed_iff patch_changes_fields terminal_patch_kind_def rows_changed_iff)
  have send: "pane_sendable ?p"
    using initial_pane_facts(2) \<open>rows_kept initial_pane ?u\<close> pane_ok_rows [OF initial_pane_facts(1)]
    by (simp add: pane_sendable_def apply_terminal_update_frame apply_terminal_update_surface u
        rows_kept_same [OF pane_ok_rows [OF initial_pane_facts(1)]])
  have "bind_res (patch_update (pane_patch ?p (pn_surface_version initial_pane))) (client_apply_patch (client_of initial_pane)) =
      Inr (client_of ?p)"
  proof (rule patch_advances_copy [OF initial_pane_facts(1) _ grows refl send])
    show "pn_surface_version initial_pane < U64_MAX" by (simp add: initial_pane_facts U64_MAX_def)
    show "pn_surface_version ?p \<noteq> pn_surface_version initial_pane"
      using sc by (simp add: apply_terminal_update_version initial_pane_facts sat_add_u64_def U64_MAX_def)
    show "pn_last_patch_kind ?p \<noteq> PatchFullRefreshRequired"
      using sc kind by (simp add: apply_terminal_update_patch)
  qed
  then show ?thesis by (simp add: initial_pane_facts)
qed



section \<open>The session core\<close>

text \<open>C13: every session reached from the initial one by accepting events, whatever the engine, has
  its active tab, an existing active pane in every tab, distinct tab and leaf ids, binary split
  trees, and panes whose row vectors run in parallel.\<close>

theorem accepted_events_keep_workspace:
  "workspace_ok (sc_session (fst (accept_all ops (core_new session_initial) ps)))"
proof -
  have "workspace_ok (sc_session core) \<Longrightarrow> workspace_ok (sc_session (fst (accept_all ops core ps)))" for core
  proof (induction ps arbitrary: core)
    case (Cons p ps)
    have "workspace_ok (sc_session (fst (accept_pending ops core p)))"
      using Cons.prems by (simp add: accept_pending_def Let_def case_prod_beta apply_accepted_workspace_ok)
    from Cons.IH [OF this] show ?case by (simp add: case_prod_beta)
  qed simp
  then show ?thesis using initial_workspace_ok by (simp add: core_new_def)
qed

text \<open>An event that reports no effect has not changed anything a client can see.\<close>

theorem silent_event_invisible:
  assumes "\<forall>p \<in> set (session_panes (sc_session core)). pane_ok p"
    and "snd (apply_accepted ops core a) = []"
  shows "same_view (sc_session core) (sc_session (fst (apply_accepted ops core a)))"
  by (rule silent_event_same_view [OF assms])

theorem silent_event_invisible_witness:
  "same_view session_initial (sc_session (fst (apply_accepted interim_engine (core_new session_initial)
     \<lparr>ae_metadata = \<lparr>am_event_index = 1, am_session_mono_ms = 0, am_source_id = lit ''a'', am_lane = LaneControl\<rparr>,
      ae_event = CommitPaneResize (lit ''pane-1'') 80 24\<rparr>)))"
proof -
  let ?a = "\<lparr>ae_metadata = \<lparr>am_event_index = 1, am_session_mono_ms = 0, am_source_id = lit ''a'', am_lane = LaneControl\<rparr>,
      ae_event = CommitPaneResize (lit ''pane-1'') 80 24\<rparr>"
  have size: "pn_cols initial_pane = 80" "pn_rows initial_pane = 24" by (simp_all add: initial_pane_def Let_def)
  have "snd (apply_accepted interim_engine (core_new session_initial) ?a) = []"
    by (simp add: apply_accepted_def apply_pane_resize_event_def commit_pane_resize_with_engine_def core_new_def
        initial_pane_accepted(1) size)
  moreover have "\<forall>p \<in> set (session_panes session_initial). pane_ok p"
    using initial_pane_facts(1) by (simp add: session_panes_def session_initial_def)
  ultimately show ?thesis using silent_event_invisible [of "core_new session_initial" interim_engine ?a]
    by (simp add: core_new_def)
qed

text \<open>C12: replaying the accepted events of a run on the session the run started from gives the same
  session, the same engines and the same trace records.\<close>

theorem replay_rebuilds_run:
  assumes "accept_all ops (core_new s) ps = (core, ts)"
  shows "replay_accepted_events ops s (map tn_accepted ts) = (core, map trace_record_from_transition ts)"
  by (rule replay_rebuilds [OF assms])

definition sample_events :: "pending_event list" where
  "sample_events =
     [\<lparr>pe_source_id = lit ''b'', pe_lane = LaneControl, pe_session_mono_ms = 5,
       pe_event = SwitchTab (lit ''tab-2'')\<rparr>,
      \<lparr>pe_source_id = lit ''a'', pe_lane = LaneControl, pe_session_mono_ms = 6,
       pe_event = FocusPane (lit ''pane-1'')\<rparr>]"

theorem replay_rebuilds_run_witness:
  "\<exists>core ts. accept_all interim_engine (core_new session_initial) sample_events = (core, ts) \<and> length ts = 2 \<and>
     replay_accepted_events interim_engine session_initial (map tn_accepted ts) =
       (core, map trace_record_from_transition ts)"
proof -
  obtain core ts where run: "accept_all interim_engine (core_new session_initial) sample_events = (core, ts)"
    by fastforce
  then have "length ts = 2" by (auto simp: sample_events_def case_prod_beta)
  with run replay_rebuilds_run [OF run] show ?thesis by blast
qed

text \<open>Event indices are consecutive, in the order of acceptance.\<close>

theorem event_indices_consecutive:
  assumes "accept_all ops core ps = (core', ts)" and "sc_next_event_index core + length ps \<le> U64_MAX"
  shows "map (\<lambda>t. am_event_index (ae_metadata (tn_accepted t))) ts =
    [sc_next_event_index core ..< sc_next_event_index core + length ps]"
  using accept_all_indices [OF assms] by simp

theorem event_indices_consecutive_witness:
  "\<exists>core' ts. accept_all interim_engine (core_new session_initial) sample_events = (core', ts) \<and>
     map (\<lambda>t. am_event_index (ae_metadata (tn_accepted t))) ts =
       [sc_next_event_index (core_new session_initial :: ansi_state session_core) ..<
        sc_next_event_index (core_new session_initial :: ansi_state session_core) + 2]"
proof -
  obtain core' ts where run: "accept_all interim_engine (core_new session_initial) sample_events = (core', ts)"
    by fastforce
  have "sc_next_event_index (core_new session_initial :: ansi_state session_core) + length sample_events \<le> U64_MAX"
    by (simp add: core_new_def sample_events_def U64_MAX_def)
  from event_indices_consecutive [OF run this] run show ?thesis by (auto simp: sample_events_def)
qed

text \<open>C26: draining an actor ends with an empty scheduler, and each source's events have been accepted
  in the order that source queued them.\<close>

theorem drain_empties_in_order:
  assumes "scheduler_ok (sa_scheduler a)" and "drain_ready ops a = (rs, a')"
  shows "sa_scheduler a' = [] \<and>
    (\<forall>k. map record_event (filter (\<lambda>r. record_source r = k) rs) = map pe_event (scheduler_waiting (sa_scheduler a) k))"
  using drain_ready_fifo [OF assms] by blast

theorem drain_empties_in_order_witness:
  "\<exists>rs a'. drain_ready interim_engine
       (actor_enqueue (actor_new (core_new session_initial) 4) (hd sample_events)) = (rs, a') \<and>
     sa_scheduler a' = [] \<and>
     map record_event (filter (\<lambda>r. record_source r = lit ''b'') rs) = [SwitchTab (lit ''tab-2'')]"
proof -
  let ?a = "actor_enqueue (actor_new (core_new session_initial) 4) (hd sample_events) :: ansi_state session_actor"
  obtain rs a' where run: "drain_ready interim_engine ?a = (rs, a')" by fastforce
  have q: "sa_scheduler ?a = [(lit ''b'', [hd sample_events])]"
    by (simp add: actor_enqueue_def actor_new_def scheduler_push_def scheduler_new_def sample_events_def bt_get_def)
  then have "scheduler_ok (sa_scheduler ?a)" by (simp add: scheduler_ok_def bt_sorted_def sample_events_def)
  from drain_empties_in_order [OF this run] run q show ?thesis
    by (auto simp: scheduler_waiting_def bt_get_def sample_events_def)
qed

text \<open>What the scheduler hands out next is the head of its source's queue, and no other head has
  a more urgent lane, or the same lane and a smaller source id.\<close>

theorem scheduler_pops_most_urgent:
  assumes "scheduler_ok q" and "scheduler_pop_next q = Some (e, q')"
  shows "(\<exists>es. bt_get q (pe_source_id e) = Some (e # es) \<and> scheduler_waiting q' (pe_source_id e) = es) \<and>
    (\<forall>k f fs. bt_get q k = Some (f # fs) \<longrightarrow>
       (lane_priority (pe_lane e), pe_source_id e) \<le> (lane_priority (pe_lane f), k))"
proof -
  from scheduler_pop_Some [OF assms] obtain es where es: "bt_get q (pe_source_id e) = Some (e # es)"
    "q' = (if es = [] then bt_del (pe_source_id e) q else bt_put (pe_source_id e) es q)"
    "\<forall>k f fs. bt_get q k = Some (f # fs) \<longrightarrow>
         (lane_priority (pe_lane e), pe_source_id e) \<le> (lane_priority (pe_lane f), k)" by blast
  have "bt_sorted q" using assms(1) by (simp add: scheduler_ok_def)
  with es have "scheduler_waiting q' (pe_source_id e) = es"
    by (simp add: scheduler_waiting_def bt_get_del bt_get_put)
  with es show ?thesis by blast
qed

theorem scheduler_pops_most_urgent_witness:
  "\<exists>e q'. scheduler_pop_next (scheduler_push scheduler_new (hd sample_events)) = Some (e, q') \<and>
     bt_get (scheduler_push scheduler_new (hd sample_events)) (pe_source_id e) = Some [e]"
proof -
  let ?q = "scheduler_push scheduler_new (hd sample_events)"
  have q: "?q = [(lit ''b'', [hd sample_events])]"
    by (simp add: scheduler_push_def scheduler_new_def sample_events_def bt_get_def)
  then have ok: "scheduler_ok ?q" by (simp add: scheduler_ok_def bt_sorted_def sample_events_def)
  obtain e q' where pop: "scheduler_pop_next ?q = Some (e, q')"
    unfolding q by (auto simp: scheduler_pop_next_def scheduler_candidates_def bt_get_def)
  from scheduler_pops_most_urgent [OF ok pop] have "\<exists>es. bt_get ?q (pe_source_id e) = Some (e # es)" by blast
  then have "bt_get ?q (pe_source_id e) = Some [e]" unfolding q by (auto simp: bt_get_def split: if_splits)
  with pop show ?thesis by blast
qed

text \<open>The trace ring holds the last records pushed to it, as many as its capacity allows.\<close>

theorem trace_ring_is_suffix:
  "rg_records (foldl trace_ring_push (trace_ring_new cap) rs) = last_n cap rs"
  using trace_ring_fold by blast

text \<open>An accepted split puts the new pane right behind the split one, and no other leaf moves.\<close>

theorem split_inserts_behind:
  assumes "workspace_ok s" and "snd (split_pane s k axis n h)"
  shows "\<exists>us vs. leaf_pane_ids s = us @ k # vs \<and> leaf_pane_ids (fst (split_pane s k axis n h)) = us @ k # n # vs"
  by (rule split_pane_leaves [OF assms])

theorem split_inserts_behind_witness:
  "\<exists>us vs. leaf_pane_ids session_initial = us @ lit ''pane-1'' # vs \<and>
     leaf_pane_ids (fst (split_pane session_initial (lit ''pane-1'') AxisVertical (lit ''p2'')
       (host_spec_local (lit ''h'') (command_spec_new (lit ''sh''))))) = us @ lit ''pane-1'' # lit ''p2'' # vs"
proof (rule split_inserts_behind [OF initial_workspace_ok])
  show "snd (split_pane session_initial (lit ''pane-1'') AxisVertical (lit ''p2'')
       (host_spec_local (lit ''h'') (command_spec_new (lit ''sh''))))"
    by (simp add: split_pane_def session_initial_def session_pane_def)
      (simp add: initial_pane_def Let_def split_child_sizes_def)
qed

section \<open>Panes\<close>

text \<open>Whatever an engine answers and however a pane is resized, its row vectors stay parallel,
  the runs spell the lines, no more rows are kept than the pane is high, and the rows named in the
  last patch exist.\<close>

theorem updates_keep_pane_ok: "pane_ok (pane_run initial_pane ss)"
  by (rule pane_run_ok [OF initial_pane_facts(1)])

text \<open>While a pane's version stands still, what its clients hold of it does not change.\<close>

theorem same_version_same_copy:
  assumes "pane_ok p" and "pn_surface_version p + length ss \<le> U64_MAX"
    and "pn_surface_version (pane_run p ss) = pn_surface_version p"
  shows "client_of (pane_run p ss) = client_of p"
  by (rule quiet_run_copy [OF assms])

theorem same_version_same_copy_witness: "client_of (pane_run initial_pane []) = client_of initial_pane"
  by (rule same_version_same_copy [OF initial_pane_facts(1)]) (simp_all add: initial_pane_facts U64_MAX_def)

text \<open>The kind of patch of a reported update: a resize, a change of surface kind or styles, or of
  colours together with rows, is a full refresh; otherwise rows win over colours, colours over modes.
  What the engine asked for plays no part.\<close>

theorem patch_kind_decided:
  assumes "surface_changed (patch_changes p u False)"
  shows "terminal_patch_kind (patch_changes p u False) =
    (if pn_surface p \<noteq> tu_surface u \<or> pn_styles p \<noteq> tu_styles u \<or> pn_colors p \<noteq> tu_colors u \<and> \<not> rows_kept p u
     then PatchFullRefreshRequired
     else if \<not> rows_kept p u then PatchReplaceRows
     else if pn_colors p \<noteq> tu_colors u then PatchColorOnly
     else if pn_modes p \<noteq> tu_modes u then PatchModeOnly
     else PatchCursorOnly)"
proof -
  have count: "\<not> ch_row_count (patch_changes p u False)" by (simp add: patch_changes_def)
  then show ?thesis
    using assms
    by (auto simp: terminal_patch_kind_def surface_changed_iff patch_changes_fields rows_changed_iff)
qed

theorem patch_kind_decided_witness:
  "terminal_patch_kind (patch_changes initial_pane ((titled initial_pane)\<lparr>tu_surface := SurfaceAlternate\<rparr>) False) =
     PatchFullRefreshRequired"
proof -
  let ?u = "(titled initial_pane)\<lparr>tu_surface := SurfaceAlternate\<rparr>"
  have diff: "pn_surface initial_pane \<noteq> tu_surface ?u" by (simp add: initial_pane_def Let_def)
  then have "surface_changed (patch_changes initial_pane ?u False)" by (simp add: surface_changed_iff patch_changes_fields)
  from patch_kind_decided [OF this] diff show ?thesis by simp
qed

text \<open>A palette difference is absent exactly for equal palettes, starts within the old palette and
  rebuilds the new palette on the old one.\<close>

theorem palette_diff_rebuilds:
  "case make_palette_diff old new of
     None \<Rightarrow> new = old
   | Some d \<Rightarrow> new \<noteq> old \<and> pd_start d \<le> length old \<and> take (pd_start d) old @ pd_colors d = new"
  using make_palette_diff_None_iff [of old new] make_palette_diff_rebuilds [of old new]
  by (cases "make_palette_diff old new") auto

text \<open>A split shares out the pane's size without loss, in halves that differ by at most one cell and
  are never empty, and is refused when the pane is too small.\<close>

theorem split_sizes_share_out:
  "case split_child_sizes cols rows axis of
     None \<Rightarrow> \<not> (axis = AxisHorizontal \<and> 2 \<le> rows) \<and> \<not> (axis = AxisVertical \<and> 2 \<le> cols)
   | Some (c1, r1, c2, r2) \<Rightarrow>
       axis = AxisHorizontal \<and> c1 = cols \<and> c2 = cols \<and> r1 + r2 = rows \<and> 0 < r1 \<and> r1 \<le> r2 \<and> r2 \<le> Suc r1 \<or>
       axis = AxisVertical \<and> r1 = rows \<and> r2 = rows \<and> c1 + c2 = cols \<and> 0 < c1 \<and> c1 \<le> c2 \<and> c2 \<le> Suc c1"
proof (cases "split_child_sizes cols rows axis")
  case None
  then show ?thesis by (auto simp: split_child_sizes_def Let_def split: if_splits)
next
  case (Some x)
  obtain c1 r1 c2 r2 where "x = (c1, r1, c2, r2)" by (metis prod_cases4)
  with Some split_child_sizes_Some [of cols rows axis c1 r1 c2 r2] show ?thesis by simp
qed

text \<open>The bytes hashed for a row determine its runs and its metadata.\<close>

theorem row_hash_input_injective:
  assumes "list_all run_encodable rs" and "list_all run_encodable qs"
    and "row_semantic_prompt_known (rm_semantic_prompt m)" and "row_semantic_prompt_known (rm_semantic_prompt n)"
  shows "row_state_bytes rs m = row_state_bytes qs n \<longleftrightarrow> rs = qs \<and> m = n"
  using row_state_bytes_inj [OF assms] by blast

theorem row_hash_input_injective_witness:
  "row_state_bytes [cell_run_plain (lit ''a'')] \<lparr>rm_semantic_prompt = RowNone, rm_dirty = False, rm_kitty = False\<rparr> \<noteq>
   row_state_bytes [cell_run_plain (lit ''a'')] \<lparr>rm_semantic_prompt = RowNone, rm_dirty = True, rm_kitty = False\<rparr>"
proof -
  have enc: "list_all run_encodable [cell_run_plain (lit ''a'')]"
    by (simp add: run_encodable_def cell_run_plain_def lit_def scalar_def U64_MAX_def U32_MAX_def)
  show ?thesis by (subst row_hash_input_injective [OF enc enc]) simp_all
qed

section \<open>The interim engine\<close>

text \<open>Merging process output into the lines, with its flags and two buffers, is folding the
  normalised text into a list of lines one character at a time.\<close>

theorem merge_is_line_fold:
  "merge_interim_pty_output prev app output = merge_spec prev app (normalize_newlines (utf8_lossy output))"
  by (rule merge_interim_is_spec)

text \<open>Output that arrives in two pieces, cut between characters and free of carriage returns,
  gives the lines and the cursor column of the output in one piece.\<close>

theorem merge_ignores_chunking:
  assumes "list_all scalar s" and "list_all scalar t" and "13 \<notin> set s" and "13 \<notin> set t"
    and "s \<noteq> []" and "t \<noteq> []" and "app \<Longrightarrow> prev \<noteq> [] \<Longrightarrow> last prev \<noteq> []"
    and "merge_interim_pty_output prev app (utf8_bytes s) = (ls, col)"
  shows "merge_interim_pty_output ls (0 < col) (utf8_bytes t) = merge_interim_pty_output prev app (utf8_bytes (s @ t))"
proof -
  have norm: "normalize_newlines (utf8_lossy (utf8_bytes x)) = x" if "list_all scalar x" "13 \<notin> set x" for x
    using that by (simp add: utf8_lossy_bytes normalize_newlines_id)
  have st: "list_all scalar (s @ t)" "13 \<notin> set (s @ t)" using assms(1-4) by simp_all
  have "merge_spec prev app s = (ls, col)" using assms(8) norm [OF assms(1,3)] by (simp add: merge_interim_is_spec)
  from merge_spec_append [OF assms(5,6,7) this] show ?thesis
    unfolding merge_interim_is_spec norm [OF assms(2,4)] norm [OF st] .
qed

theorem merge_ignores_chunking_witness:
  "merge_interim_pty_output (fst (merge_interim_pty_output [] False (utf8_bytes [97, 10])))
      (0 < snd (merge_interim_pty_output [] False (utf8_bytes [97, 10]))) (utf8_bytes [98]) =
    merge_interim_pty_output [] False (utf8_bytes ([97, 10] @ [98]))"
  by (rule merge_ignores_chunking) (simp_all add: scalar_def)

text \<open>A mouse sequence determines the event: two events with the same bytes have the same button,
  action, position and modifiers.\<close>

theorem mouse_sequence_determines_event:
  assumes "encode_sgr_mouse_input i = Some bs" and "encode_sgr_mouse_input j = Some bs"
  shows "mi_button i = mi_button j \<and> mi_action i = mi_action j \<and> mouse_position i = mouse_position j \<and>
    (\<forall>b < 3. bit (mi_modifiers i) b = bit (mi_modifiers j) b)"
  by (rule sgr_mouse_determines_event [OF assms])

definition sample_mouse :: "u32 \<Rightarrow> mouse_terminal_input" where
  "sample_mouse m =
     \<lparr>mi_row = 2, mi_col = 3, mi_pixel_x = None, mi_pixel_y = None, mi_button = ButtonLeft, mi_action = MousePress,
      mi_modifiers = m, mi_mouse_format = FormatSgr, mi_cols = 80, mi_rows = 24\<rparr>"

theorem mouse_sequence_determines_event_witness:
  \<comment> \<open>modifiers beyond the third bit are not part of the sequence\<close>
  "mouse_position (sample_mouse 1) = mouse_position (sample_mouse 9) \<and>
    (\<exists>bs. encode_sgr_mouse_input (sample_mouse 1) = Some bs \<and> encode_sgr_mouse_input (sample_mouse 9) = Some bs)"
proof -
  have "\<exists>bs. encode_sgr_mouse_input (sample_mouse 1) = Some bs \<and> encode_sgr_mouse_input (sample_mouse 9) = Some bs"
    by (simp add: encode_sgr_mouse_input_def sample_mouse_def mouse_position_def checked_add_u32_def U32_MAX_def Let_def
        mouse_code_def bit_iff_odd)
  then show ?thesis using mouse_sequence_determines_event by blast
qed

text \<open>The modifier parameter of a key sequence determines the modifiers.\<close>

theorem modifier_param_injective:
  assumes "m < 16" and "n < 16" and "xterm_modifier_param m = xterm_modifier_param n"
  shows "m = n"
  by (rule xterm_modifier_param_inj [OF assms])

theorem modifier_param_injective_witness: "xterm_modifier_param 2 \<noteq> xterm_modifier_param 4"
  using modifier_param_injective [of 2 4] by auto

section \<open>The client\<close>

text \<open>An accepted patch keeps the pane, its size, its styles and the alignment of the row vectors,
  takes over the version, and touches no row it does not name; unless it is a row patch it touches none.\<close>

theorem accepted_patch_contract:
  assumes "client_apply_patch c u = Inr c'"
  shows "cp_pane_id c' = cp_pane_id c \<and> cp_version c' = su_version u \<and> su_base_version u = Some (cp_version c) \<and>
    cp_rows c' = cp_rows c \<and> cp_cols c' = cp_cols c \<and> cp_styles c' = cp_styles c \<and> (client_ok c \<longrightarrow> client_ok c') \<and>
    (\<forall>i. su_patch_kind u \<noteq> Some PatchReplaceRows \<or> i \<notin> ru_row ` set (su_row_updates u) \<longrightarrow> same_client_row c c' i)"
  using client_apply_patch_contract [OF assms] client_apply_patch_elim(2) [OF assms] by blast

definition cursor_patch :: "client_pane \<Rightarrow> u64 \<Rightarrow> surface_update" where
  "cursor_patch c base =
     \<lparr>su_kind = UpdatePatch, su_pane_id = cp_pane_id c, su_version = Suc (cp_version c), su_base_version = Some base,
      su_patch_kind = Some PatchCursorOnly, su_cols = None, su_rows = None, su_surface = None, su_cursor = None,
      su_modes = terminal_modes_default, su_title = [], su_working_directory = [], su_colors = None,
      su_row_updates = [], su_styles = [], su_hyperlinks = [], su_text = []\<rparr>"

theorem accepted_patch_contract_witness:
  "\<exists>c'. client_apply_patch (client_of initial_pane) (cursor_patch (client_of initial_pane) 2) = Inr c' \<and>
     cp_version c' = 3 \<and> (\<forall>i. same_client_row (client_of initial_pane) c' i)"
proof -
  let ?c = "client_of initial_pane" and ?u = "cursor_patch (client_of initial_pane) 2"
  have v: "cp_version ?c = 2" by (simp add: client_of_def initial_pane_facts)
  have "client_apply_patch ?c ?u = Inr (set_client_meta ?u ?c)"
    by (simp add: client_apply_patch_def cursor_patch_def v validate_patch_kind_def validate_palette_diff_scope_def
        validate_cursor_summary_def validate_terminal_mode_summary_def terminal_modes_default_def
        validate_no_row_patch_payload_def colors_unchanged_def)
  from accepted_patch_contract [OF this] this show ?thesis by (auto simp: cursor_patch_def v)
qed

text \<open>A patch of the client's pane that does not start from the client's version is refused.\<close>

theorem stale_patch_is_refused:
  assumes "su_pane_id u = cp_pane_id c" and "su_base_version u \<noteq> Some (cp_version c)"
  shows "client_apply_patch c u = Inl PatchBaseMismatch"
  by (rule stale_patch_refused [OF assms])

theorem stale_patch_is_refused_witness:
  "client_apply_patch (client_of initial_pane) (cursor_patch (client_of initial_pane) 1) = Inl PatchBaseMismatch"
  by (rule stale_patch_is_refused) (simp_all add: cursor_patch_def client_of_def initial_pane_facts)

section \<open>Messages\<close>

text \<open>C34: the workspace frame of a well formed session decodes to the session's tabs, split trees and active
  pane.\<close>

theorem workspace_frame_round_trip:
  assumes "workspace_ok s" and "workspace_named s"
  shows "\<exists>t q. find_tab s (ss_active_tab_id s) = Some t \<and> pane_node (tb_root t) (tb_active_pane_id t) = Some q \<and>
    workspace_summary_from_frame (workspace_tree_frame s conn seq) =
      Inr \<lparr>wk_session_id = ss_id s, wk_tab_id = tb_id t, wk_pane_id = tb_active_pane_id t,
           wk_cols = pn_cols (pane_fields q), wk_rows = pn_rows (pane_fields q),
           wk_policy = pn_resize_policy (pane_fields q), wk_pane_tree = Some (pane_summary (tb_root t)),
           wk_tabs = map tab_summary (ss_tabs s)\<rparr>"
  by (rule workspace_frame_decodes [OF assms])

theorem workspace_frame_round_trip_witness:
  "\<exists>w. workspace_summary_from_frame (workspace_tree_frame session_initial (lit ''c'') 1) = Inr w \<and>
     wk_session_id w = ss_id session_initial \<and> length (wk_tabs w) = 1"
proof -
  have "workspace_named session_initial"
    by (simp add: workspace_named_def session_initial_def pane_named_def)
      (simp add: initial_pane_def Let_def lit_def)
  from workspace_frame_round_trip [OF initial_workspace_ok this, of "lit ''c''" 1] show ?thesis
    by (auto simp: session_initial_def)
qed

text \<open>A mouse event put into an input frame is the mouse event read from it.\<close>

theorem mouse_frame_round_trip:
  assumes "ic_pane_id c \<noteq> []" and "ic_actor_id c \<noteq> []" and "mo_modifiers m < 16"
    and "mo_pixel_x m = None \<longleftrightarrow> mo_pixel_y m = None"
  shows "input_summary_from_frame (mouse_input_frame s c (mouse_spec_of m)) =
    Inr (summary_for c (input_summary_parts_default\<lparr>ip_mouse := Some m, ip_requires_mouse_tracking := True\<rparr>))"
  by (rule mouse_frame_decodes [OF assms])

definition sample_context :: input_context where
  "sample_context = \<lparr>ic_connection_id = lit ''c'', ic_seq = 1, ic_actor_id = lit ''a'', ic_pane_id = lit ''pane-1'', ic_input_seq = 4\<rparr>"

definition wheel :: mouse_summary where
  "wheel = \<lparr>mo_row = 1, mo_col = 2, mo_pixel_x = Some 30, mo_pixel_y = Some 40, mo_button = ButtonWheelUp,
     mo_action = MousePress, mo_modifiers = 5\<rparr>"

theorem mouse_frame_round_trip_witness:
  "input_summary_from_frame (mouse_input_frame session_initial sample_context (mouse_spec_of wheel)) =
    Inr (summary_for sample_context (input_summary_parts_default\<lparr>ip_mouse := Some wheel, ip_requires_mouse_tracking := True\<rparr>))"
  by (rule mouse_frame_round_trip) (simp_all add: sample_context_def wheel_def lit_def)

text \<open>C35: named keys, pastes, raw bytes and focus changes are read as they were written.\<close>

theorem input_frame_round_trip:
  assumes "ic_pane_id c \<noteq> []" and "ic_actor_id c \<noteq> []" and "m < 16"
  shows "input_summary_from_frame (named_key_input_frame_with_modifiers s c k m) =
      Inr (summary_for c (input_summary_parts_default\<lparr>ip_key_name := Some k, ip_key_modifiers := m\<rparr>)) \<and>
    input_summary_from_frame (raw_input_frame s c bs) =
      Inr (summary_for c (input_summary_parts_default\<lparr>ip_bytes := bs\<rparr>)) \<and>
    input_summary_from_frame (paste_input_frame s c t b) =
      Inr (summary_for c (input_summary_parts_default\<lparr>ip_bytes := utf8_bytes t, ip_paste_text := Some t\<rparr>)) \<and>
    input_summary_from_frame (focus_input_frame s c f) =
      Inr (summary_for c (input_summary_parts_default
        \<lparr>ip_bytes := (if f then esc ''[I'' else esc ''[O''), ip_requires_focus_reporting := True\<rparr>))"
  using input_frames_decode [OF assms(1,2)] assms(3) by blast

theorem input_frame_round_trip_witness:
  "input_summary_from_frame (named_key_input_frame_with_modifiers session_initial sample_context (lit ''tab'') 1) =
     Inr (summary_for sample_context (input_summary_parts_default\<lparr>ip_key_name := Some (lit ''tab''), ip_key_modifiers := 1\<rparr>))"
  using input_frame_round_trip [of sample_context 1 session_initial "lit ''tab''"]
  by (simp add: sample_context_def lit_def)

text \<open>C36: the bytes of an accepted bracketed paste contain the closing sequence only at their end: what
  was pasted cannot close the paste and be read as keys.\<close>

theorem bracketed_paste_is_sealed:
  assumes "paste_input_bytes t True = Inr bs" and "list_all scalar t"
  shows "bs = esc ''[200~'' @ utf8_bytes t @ esc ''[201~'' \<and> (\<forall>X Y. bs = X @ esc ''[201~'' @ Y \<longrightarrow> Y = [])"
proof -
  have "bs = esc ''[200~'' @ utf8_bytes t @ esc ''[201~''"
    using assms(1) by (auto simp: paste_input_bytes_def split: if_splits)
  then show ?thesis using paste_ends_once(1) [OF assms] by blast
qed

theorem bracketed_paste_is_sealed_witness:
  "\<not> (\<exists>X Y. Y \<noteq> [] \<and> esc ''[200~'' @ utf8_bytes (lit ''hi'') @ esc ''[201~'' = X @ esc ''[201~'' @ Y)"
proof -
  have "paste_input_bytes (lit ''hi'') True = Inr (esc ''[200~'' @ utf8_bytes (lit ''hi'') @ esc ''[201~'')"
    by (simp add: paste_input_bytes_def contains_def paste_terminator_def lit_def)
  moreover have "list_all scalar (lit ''hi'')" by (simp add: lit_def scalar_def)
  ultimately show ?thesis using bracketed_paste_is_sealed by blast
qed

text \<open>A scrollback chunk read by the client holds exactly the requested lines of the pane that exist,
  numbered from the requested one.\<close>

theorem scrollback_chunk_round_trip:
  assumes "session_pane_data s k = Some p" and "scrollback_rows_ok p" and "scrollback_sendable p"
    and "0 < start" and "0 < n"
  shows "\<exists>e c. scrollback_chunk_frame_for_pane s conn seq k start n = Some e \<and>
    scrollback_chunk_from_frame e = Inr c \<and> sc_pane_id c = k \<and>
    sc_scrollback_version c = pn_scrollback_version p \<and> sc_start_line c = start \<and>
    sc_total_lines c = length (pn_scrollback_lines p) \<and>
    sc_lines c = map (scrollback_line_of p) [start - 1..<min (start - 1 + n) (length (pn_scrollback_lines p))]"
  by (rule scrollback_chunk_decodes [OF assms])

theorem scrollback_chunk_round_trip_witness:
  "\<exists>e c. scrollback_chunk_frame_for_pane session_initial (lit ''c'') 1 (lit ''pane-1'') 1 5 = Some e \<and>
     scrollback_chunk_from_frame e = Inr c \<and>
     sc_lines c = map (scrollback_line_of initial_pane) [0..<length (pn_scrollback_lines initial_pane)]"
proof -
  have "scrollback_rows_ok initial_pane" using initial_pane_facts(1) by (simp add: pane_ok_def pane_aligned_def)
  moreover have "scrollback_sendable initial_pane"
    by (simp add: scrollback_sendable_def initial_pane_def Let_def lit_def U64_MAX_def runs_sendable_def)
  moreover have "length (pn_scrollback_lines initial_pane) \<le> 5" by (simp add: initial_pane_def Let_def)
  ultimately show ?thesis
    using scrollback_chunk_round_trip [OF initial_pane_accepted(1), of 1 5 "lit ''c''" 1] by (auto simp: min_absorb2)
qed

text \<open>A mouse event the forwarding check lets through, for a pane that asked for the SGR format, is
  always written to the pane, whatever the engine.\<close>

theorem accepted_mouse_is_written:
  assumes "session_pane_data s (is_pane_id i) = Some p" and "tm_mouse_format (pn_modes p) = FormatSgr"
    and "pn_cols p \<le> U32_MAX" and "pn_rows p \<le> U32_MAX"
    and "ip_key_name (is_parts i) = None" and "ip_mouse (is_parts i) = Some m"
    and "ip_requires_mouse_tracking (is_parts i)" and "forwarding_rejection i s = None"
  shows "\<exists>bs. snd (forwarded_bytes ops i s engines) = Inr bs"
proof -
  have "mo_row m < pn_rows p" "mo_col m < pn_cols p"
    using assms(1,6-8)
    by (auto simp: forwarding_rejection_def mouse_forwarding_rejection_def pane_size_def pane_mouse_tracking_mode_def
        split: if_splits)
  then show ?thesis
    using assms(1-6)
    by (auto simp: forwarded_bytes_def Let_def pane_size_def pane_mouse_format_def encode_sgr_mouse_input_def
        mouse_position_def checked_add_u32_def split: prod.splits option.splits)
qed

definition clicked :: input_summary where
  "clicked = summary_for sample_context
     (input_summary_parts_default\<lparr>ip_mouse := Some wheel, ip_requires_mouse_tracking := True\<rparr>)"

definition tracking_pane :: pane_data where
  \<comment> \<open>the initial pane after its program asked for mouse tracking in the SGR format\<close>
  "tracking_pane = initial_pane\<lparr>pn_modes := (pn_modes initial_pane)\<lparr>tm_mouse_tracking := True,
      tm_mouse_tracking_mode := TrackNormal, tm_mouse_format := FormatSgr\<rparr>\<rparr>"

definition tracking_session :: session where
  "tracking_session = session_initial\<lparr>ss_tabs :=
     [\<lparr>tb_id = lit ''tab-1'', tb_title = lit ''local'', tb_active_pane_id = lit ''pane-1'', tb_root = Pane tracking_pane []\<rparr>]\<rparr>"

theorem accepted_mouse_is_written_witness:
  "\<exists>bs. snd (forwarded_bytes interim_engine clicked tracking_session engines_new) = Inr bs"
proof -
  let ?p = tracking_pane
  have id: "is_pane_id clicked = lit ''pane-1''" "is_parts clicked =
      input_summary_parts_default\<lparr>ip_mouse := Some wheel, ip_requires_mouse_tracking := True\<rparr>"
    by (simp_all add: clicked_def summary_for_def sample_context_def)
  have i: "pn_cols initial_pane = 80" "pn_rows initial_pane = 24" by (simp_all add: initial_pane_def Let_def)
  have size: "pn_cols ?p = 80" "pn_rows ?p = 24" "pn_id ?p = lit ''pane-1''"
    by (simp_all add: tracking_pane_def) (simp_all add: initial_pane_def Let_def)
  have look: "session_pane_data tracking_session (is_pane_id clicked) = Some ?p"
    by (simp add: tracking_session_def id session_pane_data_def session_pane_def session_initial_def size)
  have none: "forwarding_rejection clicked tracking_session = None"
    using look size
    by (simp add: forwarding_rejection_def mouse_forwarding_rejection_def pane_mouse_tracking_mode_def pane_size_def
        id input_summary_parts_default_def wheel_def mouse_input_allowed_def tracking_pane_def)
  show ?thesis
    by (rule accepted_mouse_is_written [OF look _ _ _ _ _ _ none])
      (simp_all add: i size U32_MAX_def id input_summary_parts_default_def tracking_pane_def)
qed

section \<open>The client's cache, its file and its guesses\<close>




text \<open>C15: what the client writes to its state file it reads back: the scope, every scrollback range and every
  cached surface, where only runs that do not spell their row are replaced by one plain run.\<close>

theorem state_file_round_trip:
  assumes "state_storable s"
  shows "decode_state (encode_state s) = Inr (s\<lparr>ca_surfaces := map reopened (ca_surfaces s)\<rparr>)"
  by (rule decode_encode_state [OF assms])

definition stored_pane :: client_pane where
  "stored_pane = \<lparr>cp_pane_id = lit ''p'', cp_version = 7, cp_cols = 2, cp_rows = 1, cp_surface = SurfaceMain,
     cp_cursor = Some \<lparr>cu_row = 0, cu_col = 1, cu_visible = True, cu_shape = ShapeUnderline, cu_blinking = False\<rparr>,
     cp_modes = terminal_modes_default, cp_title = [233], cp_working_directory = [],
     cp_colors = color_summary_default\<lparr>cs_palette := [1, 4294967295]\<rparr>, cp_styles = default_style_summaries,
     cp_hyperlinks = [], cp_row_text = [lit ''a b''],
     cp_row_runs = [[\<lparr>cr_text = lit ''a b'', cr_cell_widths = [1, 1, 1], cr_style_id = 0, cr_flags = 0,
       cr_hyperlink_id = 0, cr_semantic_content = CellOutput\<rparr>]],
     cp_row_dirty_hashes = [5], cp_row_semantic_prompts = [RowNone], cp_row_dirty = [True], cp_row_kitty = [False],
     cp_row_state_hashes = [6]\<rparr>"

definition stored_state :: client_attach_state where
  "stored_state = \<lparr>ca_scope = Some \<lparr>si_dev = 1, si_ino = 2, si_ctime = -3, si_ctime_nsec = 4\<rparr>, ca_surfaces = [stored_pane],
     ca_scrollbacks = [\<lparr>cb_pane_id = lit ''p'', cb_version = 1, cb_start_line = 1, cb_line_count = 5, cb_total_lines = 9\<rparr>]\<rparr>"

lemma stored_state_storable: "state_storable stored_state"
proof -
  have "surface_storable stored_pane"
    by (simp add: surface_storable_def stored_pane_def client_ok_def run_storable_def colors_storable_def lit_def
        U64_MAX_def U32_MAX_def terminal_modes_default_def color_summary_default_def default_style_summaries_def
        validate_hyperlink_table_def scalar_def validate_cached_row_style_ids_def validate_cached_row_hyperlink_ids_def
        validate_cell_run_style_ids_def validate_cell_run_hyperlink_ids_def)
  then show ?thesis by (simp add: state_storable_def stored_state_def lit_def U64_MAX_def U32_MAX_def scalar_def)
qed

theorem state_file_round_trip_witness:
  "decode_state (encode_state stored_state) = Inr (stored_state\<lparr>ca_surfaces := map reopened (ca_surfaces stored_state)\<rparr>)"
  by (rule state_file_round_trip [OF stored_state_storable])

text \<open>Whatever a state file holds, a surface read from it has parallel row vectors, a valid hyperlink table, a
  style table, and runs that spell its rows and refer only to entries of both tables.\<close>

theorem decoded_surfaces_checked:
  assumes "decode_state encoded = Inr s" and "c \<in> set (ca_surfaces s)"
  shows "surface_checked c"
proof -
  from assms(1) obtain ls where "decode_lines client_attach_state_default ls = Inr s"
    by (auto simp: decode_state_def split: list.split_asm if_split_asm)
  from decode_lines_checked [OF this] assms(2) show ?thesis by (simp add: client_attach_state_default_def)
qed

theorem decoded_surfaces_checked_witness: "surface_checked (reopened stored_pane)"
  by (rule decoded_surfaces_checked [OF decode_encode_state [OF stored_state_storable]]) (simp add: stored_state_def)

text \<open>Over any sequence of keys and server updates the counters of the speculative echo stay in their bounds, and
  no prediction is pending while predictions are suppressed.\<close>

theorem echo_counters_bounded:
  assumes "echo_step\<^sup>*\<^sup>* echo_overlay_default ov"
  shows "eo_consecutive_misses ov \<le> MAX_CONSECUTIVE_MISSES \<and> eo_suppressed_keys ov < RECOVERY_PREDICTABLE_KEYS \<and>
    \<not> (prediction_suppressed ov \<and> eo_prediction ov \<noteq> None)"
  using echo_reachable_ok [OF assms] by (auto simp: echo_ok_def echo_counters)

definition echo_pane :: client_pane where
  "echo_pane = stored_pane\<lparr>cp_row_text := [lit ''a'']\<rparr>"

definition echo_refresh :: surface_update where
  \<comment> \<open>a snapshot, which every pending prediction loses against\<close>
  "echo_refresh = \<lparr>su_kind = UpdateSnapshot, su_pane_id = lit ''p'', su_version = 8, su_base_version = None, su_patch_kind = None,
     su_cols = None, su_rows = None, su_surface = None, su_cursor = None, su_modes = terminal_modes_default, su_title = [],
     su_working_directory = [], su_colors = None, su_row_updates = [], su_styles = [], su_hyperlinks = [], su_text = []\<rparr>"

definition echo_missed :: "echo_overlay \<Rightarrow> echo_overlay" where
  \<comment> \<open>a key predicted and lost\<close>
  "echo_missed ov = fst (reconcile_update (fst (predict_printable_key (\<lambda>_. []) ov echo_pane 5 (lit ''b''))) echo_refresh)"

lemma echo_missed_reachable:
  assumes "echo_step\<^sup>*\<^sup>* ov0 ov" shows "echo_step\<^sup>*\<^sup>* ov0 (echo_missed ov)"
proof -
  have "echo_step ov (fst (predict_printable_key (\<lambda>_. []) ov echo_pane 5 (lit ''b'')))"
    by (rule echo_step.key [OF surjective_pairing])
  moreover have "echo_step x (fst (reconcile_update x echo_refresh))" for x
    by (rule echo_step.update [OF surjective_pairing])
  ultimately show ?thesis using assms unfolding echo_missed_def by (meson rtranclp.rtrancl_into_rtrancl)
qed

lemma echo_pane_predictable: "predictable echo_pane (lit ''b'')"
  by (simp add: predictable_def echo_pane_def stored_pane_def single_predictable_char_def lit_def is_control_def is_ascii_def get_def)

lemma predict_echo_pane:
  "eo_prediction ov = None \<Longrightarrow> \<not> prediction_suppressed ov \<Longrightarrow>
    predict_printable_key a ov echo_pane 5 (lit ''b'') =
      (let ov = ov\<lparr>eo_prediction := Some \<lparr>ep_pane_id = lit ''p'', ep_base_version = 7, ep_input_seq = 5, ep_row = 0,
         ep_col = Suc 0, ep_text = [98]\<rparr>\<rparr> in (ov, echo_render a ov echo_pane))"
  by (simp add: predict_printable_key_def echo_pane_def stored_pane_def single_predictable_char_def lit_def
      is_control_def is_ascii_def get_def)

lemma echo_missed_eq:
  "eo_prediction ov = None \<Longrightarrow> \<not> prediction_suppressed ov \<Longrightarrow>
    echo_missed ov = ov\<lparr>eo_prediction := None, eo_consecutive_misses := sat_add_u8 (eo_consecutive_misses ov) 1,
      eo_suppressed_keys := 0\<rparr>"
  by (simp add: echo_missed_def predict_echo_pane Let_def reconcile_update_def clear_mismatched_def echo_refresh_def)

lemma echo_missed_twice:
  "echo_missed (echo_missed echo_overlay_default) = \<lparr>eo_prediction = None, eo_consecutive_misses = 2, eo_suppressed_keys = 0\<rparr>"
  by (simp add: echo_missed_eq echo_counters echo_overlay_default_def)

lemma echo_missed_twice_reachable: "echo_step\<^sup>*\<^sup>* echo_overlay_default (echo_missed (echo_missed echo_overlay_default))"
  by (intro echo_missed_reachable rtranclp.rtrancl_refl)

theorem echo_counters_bounded_witness:
  "eo_consecutive_misses (echo_missed (echo_missed echo_overlay_default)) \<le> MAX_CONSECUTIVE_MISSES"
  using echo_counters_bounded [OF echo_missed_twice_reachable] by blast

text \<open>Suppressed predictions come back: after four further predictable keys one is predicted again.\<close>

theorem suppression_is_lifted:
  assumes "echo_step\<^sup>*\<^sup>* echo_overlay_default ov" and "prediction_suppressed ov"
    and "\<forall>(c, input_seq, t) \<in> set ks. predictable c t" and "length ks = 4"
  shows "eo_prediction (fold (\<lambda>(c, input_seq, t) ov. fst (predict_printable_key a ov c input_seq t)) ks ov) \<noteq> None"
  by (rule suppression_ends [OF echo_reachable_ok [OF assms(1)] assms(2-)])

theorem suppression_is_lifted_witness:
  "eo_prediction (fold (\<lambda>(c, input_seq, t) ov. fst (predict_printable_key (\<lambda>_. []) ov c input_seq t))
     (replicate 4 (echo_pane, 5, lit ''b'')) (echo_missed (echo_missed echo_overlay_default))) \<noteq> None"
  by (rule suppression_is_lifted [OF echo_missed_twice_reachable])
    (simp_all add: echo_missed_twice echo_counters echo_pane_predictable)

text \<open>C37: the text shown for a predicted key is the rendering of the surface with that character typed at the
  cursor.\<close>

theorem prediction_shows_typed_surface:
  assumes "predict_printable_key a ov c input_seq t = (ov', Some shown)"
  shows "\<exists>ch cur. t = [ch] \<and> cp_cursor c = Some cur \<and> shown = render_text (typed c (cu_row cur) ch)"
  by (rule prediction_is_typed_surface [OF assms])

theorem prediction_shows_typed_surface_witness:
  "\<exists>cur. cp_cursor echo_pane = Some cur \<and>
    snd (predict_printable_key (\<lambda>_. []) echo_overlay_default echo_pane 5 (lit ''b'')) =
      Some (render_text (typed echo_pane (cu_row cur) 98))"
proof -
  have "\<exists>ov shown. predict_printable_key (\<lambda>_. []) echo_overlay_default echo_pane 5 (lit ''b'') = (ov, Some shown)"
    by (simp add: predict_echo_pane echo_counters echo_overlay_default_def echo_render_def render_with_speculative_style_def)
      (simp add: echo_pane_def stored_pane_def get_def lit_def)
  then obtain ov shown where p: "predict_printable_key (\<lambda>_. []) echo_overlay_default echo_pane 5 (lit ''b'') = (ov, Some shown)"
    by blast
  from prediction_shows_typed_surface [OF p] p show ?thesis by (auto simp: lit_def)
qed

section \<open>Frames, traces and tmux sessions\<close>

text \<open>C38: frames written one after another are read back in order and to the last byte, whatever follows.\<close>

theorem stream_round_trip:
  assumes "write_frames root max_len [] fs = Inr w" and "\<forall>f \<in> set fs. framed f"
  shows "read_frames root max_len (length fs) (w @ rest) = Inr (fs, rest)"
  by (rule frames_round_trip [OF assms])

theorem stream_round_trip_witness:
  "read_frames (\<lambda>_. Some PROTOCOL_VERSION) 2 2 ([1, 0, 0, 0, 9, 0, 0, 0, 0] @ [7]) = Inr ([[1, 0, 0, 0, 9], [0, 0, 0, 0]], [7])"
proof -
  have "write_frames (\<lambda>_. Some PROTOCOL_VERSION) 2 [] [[1, 0, 0, 0, 9], [0, 0, 0, 0]] = Inr [1, 0, 0, 0, 9, 0, 0, 0, 0]"
    by (simp add: write_frame_def validate_protocol_version_def)
  from stream_round_trip [OF this, of "[7]"] show ?thesis by (simp add: framed_def numeral_2_eq_2 del: read_frames.simps)
qed

text \<open>C39: a trace file determines, record by record, the metadata, the kind of event and the effects.\<close>

theorem trace_file_determines_records:
  assumes "write_trace rs = write_trace qs" and "\<forall>r \<in> set rs. record_storable r" and "\<forall>q \<in> set qs. record_storable q"
  shows "map record_view rs = map record_view qs"
  by (rule trace_determines_records [OF assms])

definition traced :: "ustring \<Rightarrow> trace_record" where
  "traced tab = \<lparr>tr_accepted = \<lparr>ae_metadata = \<lparr>am_event_index = 3, am_session_mono_ms = 2, am_source_id = lit ''s'', am_lane = LanePane\<rparr>,
       ae_event = SwitchTab tab\<rparr>, tr_effects = [PaneResized 3 (lit ''p'') 8 4]\<rparr>"

theorem trace_file_determines_records_witness:
  \<comment> \<open>records that differ in what the file does not keep, the target of the event\<close>
  "map record_view [traced (lit ''t'')] = map record_view [traced (lit ''u'')]"
proof -
  have "record_storable (traced tab)" for tab
    by (simp add: record_storable_def traced_def encode_accepted_event_def encode_effects_def Let_def scalar_def lit_def
      utf8_char_def escape_char_def escape_field_def dec_str.simps [of 3] dec_str.simps [of 2] dec_str.simps [of 8] dec_str.simps [of 4]
      effect_known_def effect_scalar_def)
  moreover have "write_trace [traced (lit ''t'')] = write_trace [traced (lit ''u'')]"
    by (simp add: write_trace_def write_record_def traced_def encode_accepted_event_def)
  ultimately show ?thesis
    using trace_file_determines_records [of "[traced (lit ''t'')]" "[traced (lit ''u'')]"] by simp
qed

text \<open>C40: the session built from the inventory of a tmux session whose windows have distinct ids without colons is a
  well formed workspace with one tab per window.\<close>

theorem tmux_session_well_formed:
  assumes "to_nmux_session t = Inr s" and "distinct (map tw_id (tx_windows t))"
    and "\<forall>w \<in> set (tx_windows t). 58 \<notin> set (tw_id w)"
  shows "workspace_ok s \<and> map tb_title (ss_tabs s) = map tw_title (tx_windows t)"
  using to_nmux_session_ok [OF assms] by blast
definition tmux_inventory :: tmux_session where
  "tmux_inventory = \<lparr>tx_name = lit ''work'', tx_windows = [\<lparr>tw_id = lit ''@1'', tw_title = lit ''main'', tw_active = True,
     tw_panes = [\<lparr>tp_id = lit ''%1'', tp_title = [], tp_cols = 80, tp_rows = 24, tp_active = False\<rparr>]\<rparr>]\<rparr>"

theorem tmux_session_well_formed_witness:
  "\<exists>s. to_nmux_session tmux_inventory = Inr s \<and> workspace_ok s \<and> map tb_title (ss_tabs s) = [lit ''main'']"
proof -
  obtain s where s: "to_nmux_session tmux_inventory = Inr s"
    by (simp add: to_nmux_session_def tmux_inventory_def window_to_tab_def tmux_active_pane_def ok_or_def get_def)
  have "distinct (map tw_id (tx_windows tmux_inventory))" "\<forall>w \<in> set (tx_windows tmux_inventory). 58 \<notin> set (tw_id w)"
    by (simp_all add: tmux_inventory_def lit_def)
  from tmux_session_well_formed [OF s this] s show ?thesis by (simp add: tmux_inventory_def)
qed

section \<open>Attaching\<close>


definition plain_request :: attach_request where
  \<comment> \<open>a client without a cache that asks for no pane\<close>
  "plain_request =
     \<lparr>aq_actor_id = lit ''a'', aq_user_id = lit ''u'', aq_display_name = lit ''n'', aq_mode = AttachReadOnly,
      aq_focused_pane_id = None, aq_known_surfaces = [], aq_hostname = lit ''h'', aq_client_kind = lit ''nmux'',
      aq_subscribe_client_inventory = False\<rparr>"

lemma initial_named: "workspace_named session_initial"
  by (simp add: session_initial_def workspace_named_def pane_named_def lit_def) (simp add: initial_pane_def Let_def lit_def)


text \<open>C22: a client that attaches without the right to write changes nothing of the server but, at most, the active tab:
  it is served to its end whatever it sends, and the frames it gets are numbered from one without a gap.\<close>

theorem read_only_client_is_harmless:
  assumes "aq_mode request \<noteq> AttachReadWrite"
  shows "\<exists>frames x s. serve_attached_client eops ops request sv reads = Some (sv\<lparr>sv_session := s\<rparr>, frames, x) \<and>
    numbered 1 frames \<and>
    (s = sv_session sv \<or> (\<exists>k. aq_focused_pane_id request = Some k \<and> s = fst (switch_tab (sv_session sv) k)))"
  using read_only_attach [OF assms, of eops ops sv reads] attach_target_session [of "sv_session sv" request] by blast

theorem read_only_client_is_harmless_witness:
  "\<exists>frames x s. serve_attached_client interim_engine (planning_ops (\<lambda>_. [])) plain_request
      \<lparr>sv_session = session_initial, sv_engines = engines_new, sv_host = Some planning_host_default\<rparr>
      [FrameRead (raw_input_frame session_initial sample_context [7]), ReadTimedOut] =
    Some (\<lparr>sv_session = s, sv_engines = engines_new, sv_host = Some planning_host_default\<rparr>, frames, x) \<and>
    numbered 1 frames \<and> (s = session_initial \<or> (\<exists>k. aq_focused_pane_id plain_request = Some k \<and>
      s = fst (switch_tab session_initial k)))"
  using read_only_client_is_harmless [of plain_request interim_engine "planning_ops (\<lambda>_. [])"
      "\<lparr>sv_session = session_initial, sv_engines = engines_new, sv_host = Some planning_host_default\<rparr>"
      "[FrameRead (raw_input_frame session_initial sample_context [7]), ReadTimedOut]"]
  by (simp add: plain_request_def)

section \<open>Commands\<close>


definition sample_command :: "control_command_kind \<Rightarrow> control_command" where
  "sample_command kind =
     \<lparr>cm_actor_id = lit ''a'', cm_command_seq = 3, cm_kind = kind, cm_pane_id = None, cm_tab_id = None,
      cm_split_axis = AxisVertical, cm_title = Some (lit ''t''), cm_session_id = None\<rparr>"

definition started_host :: planning_host where
  "started_host = fst (planning_start planning_host_default (lit ''pane-1'') (host_spec_local (lit ''h'') (command_spec_new (lit ''sh''))))"




text \<open>C16: on an actor that has nothing queued a command does the same as on the session itself: the same session and
  process host after it, the same frame for the client, and the actor rests again.\<close>

theorem actor_commands_agree:
  assumes "rests a" and "serve_control_command_with_session_actor eops ops a h c = (a', r)"
  shows "rests a' \<and> serve_control_command ops (actor_session a) h c = (actor_session a', r)"
  using served_commands_agree [OF assms(1), of eops ops h c] assms(2)
  by (cases "serve_control_command ops (actor_session a) h c") (simp add: agrees_def)

definition idle_actor :: "ansi_state session_actor" where
  "idle_actor = actor_new (core_new session_initial) 16"

theorem actor_commands_agree_witness:
  "\<exists>a' r. serve_control_command_with_session_actor interim_engine (planning_ops (\<lambda>_. [])) idle_actor (Some started_host)
      (sample_command CommandPaneSplit) = (a', r) \<and> rests a' \<and>
    serve_control_command (planning_ops (\<lambda>_. [])) (actor_session idle_actor) (Some started_host)
      (sample_command CommandPaneSplit) = (actor_session a', r)"
proof -
  have "rests idle_actor" by (simp add: rests_iff idle_actor_def actor_new_def scheduler_new_def)
  then show ?thesis
    using actor_commands_agree [of idle_actor interim_engine "planning_ops (\<lambda>_. [])" "Some started_host"
        "sample_command CommandPaneSplit"]
    by (cases "serve_control_command_with_session_actor interim_engine (planning_ops (\<lambda>_. [])) idle_actor
        (Some started_host) (sample_command CommandPaneSplit)") auto
qed

text \<open>C20: the client of a command reads exactly what happened: the workspace after the command, or the error with its
  code, message, pane and the number of the command.\<close>

theorem command_answer_is_read:
  assumes "workspace_ok s" and "workspace_named s" and "control_command_ok c" and "cm_kind c \<noteq> CommandSessionList"
    and "apply_control_command ops s h c = (s1, h1, r)" and "serve_control_command ops s h c = (s1, h1, frame, outcome)"
  shows "case r of
      Inr x \<Rightarrow> outcome = x \<and> (\<exists>w. workspace_summary_from_frame frame = Inr w \<and> wk_tabs w = map tab_summary (ss_tabs s1) \<and>
        wk_tab_id w = ss_active_tab_id s1 \<and> read_control_command_response (FrameRead frame # rest) = Inr (w, rest))
    | Inl e \<Rightarrow> outcome = OutcomeContinue \<and> read_control_command_response (FrameRead frame # rest) =
        Inl (ServerSaid \<lparr>er_code = ce_code e, er_message = ce_message e, er_retryable = False,
                         er_pane_id = ce_pane_id e, er_input_seq = cm_command_seq c\<rparr>)"
  by (rule control_reply_read [OF assms])

theorem command_answer_is_read_witness:
  "\<exists>message frame. serve_control_command (planning_ops (\<lambda>_. [])) session_initial (None :: planning_host option)
      (sample_command CommandPaneSplit) = (session_initial, None, frame, OutcomeContinue) \<and>
    read_control_command_response [FrameRead frame] =
      Inl (ServerSaid \<lparr>er_code = ErrUnknown, er_message = message, er_retryable = False, er_pane_id = None,
        er_input_seq = 3\<rparr>)"
proof -
  let ?c = "sample_command CommandPaneSplit"
  have ok: "control_command_ok ?c" "cm_kind ?c \<noteq> CommandSessionList"
    by (simp_all add: sample_command_def control_command_ok_def lit_def)
  have "apply_control_command (planning_ops (\<lambda>_. [])) session_initial None ?c =
      (session_initial, None, Inl (control_unknown (lit ''pane split requires a process host'') None))"
    by (simp add: apply_control_command_def sample_command_def)
  moreover obtain frame where "serve_control_command (planning_ops (\<lambda>_. [])) session_initial None ?c =
      (session_initial, None, frame, OutcomeContinue)"
    by (simp add: serve_control_command_def apply_control_command_def sample_command_def)
  ultimately show ?thesis
    using command_answer_is_read [OF initial_workspace_ok initial_named ok, of "planning_ops (\<lambda>_. [])" None session_initial
        None "Inl (control_unknown (lit ''pane split requires a process host'') None)" frame OutcomeContinue "[]"]
    by (auto simp: control_unknown_def sample_command_def)
qed

section \<open>Processes and their output\<close>

text \<open>C14: polling a pane whose process runs on a pseudo terminal ends, and the session of the actor is then what
  applying the pending bytes gives, in order and in pieces that are not empty and at most 65536 bytes long; when the
  poll succeeds these are all the bytes.\<close>

theorem output_reaches_session:
  assumes "rests a"
  shows "\<exists>a' h' r bss. poll_pane_output_with_session_actor eops (pty_ops os macos runtime_var debug) ms (a, h) k =
      Some ((a', h'), r) \<and> rests a' \<and>
    list_all output_piece_ok bss \<and> actor_session a' = fst (apply_pieces eops (held a) k bss) \<and>
    (\<forall>b. r = Inr b \<longrightarrow> concat bss = pty_pending h k)"
  by (rule pty_pump.actor_poll_ends [OF assms])

definition quiet_os :: "unit child_os" where
  \<comment> \<open>children that run and take all input\<close>
  "quiet_os =
     \<lparr>co_open = (\<lambda>_ _. Inr ()), co_spawn = (\<lambda>_. Inr ()), co_try_wait = (\<lambda>c. (c, Inr False)), co_write = (\<lambda>c _. (c, Inr ())),
      co_resize = (\<lambda>c _ _. (c, Inr ())), co_kill = (\<lambda>c. (c, Inr ())), co_wait = (\<lambda>c. (c, Inr ()))\<rparr>"

definition pumped_host :: "unit local_pty_host" where
  "pumped_host =
     pump_chunk (fst (pty_start quiet_os False None Map.empty (lit ''pane-1'')
       (host_spec_local (lit ''h'') (command_spec_new (lit ''sh''))))) (lit ''pane-1'') [104, 105]"

theorem output_reaches_session_witness:
  "\<exists>a' h' r bss. poll_pane_output_with_session_actor interim_engine (pty_ops quiet_os False None (\<lambda>_. [])) 5
      (idle_actor, pumped_host) (lit ''pane-1'') = Some ((a', h'), r) \<and> rests a' \<and>
    list_all output_piece_ok bss \<and>
    actor_session a' = fst (apply_pieces interim_engine (held idle_actor) (lit ''pane-1'') bss) \<and>
    (\<forall>b. r = Inr b \<longrightarrow> concat bss = pty_pending pumped_host (lit ''pane-1''))"
  by (rule output_reaches_session) (simp add: rests_iff idle_actor_def actor_new_def scheduler_new_def)



lemma idle_actor_rests: "rests idle_actor"
  by (simp add: rests_iff idle_actor_def actor_new_def scheduler_new_def)

lemma steady_clock: "clock_passes 200 (\<lambda>n. 10 * n)" "clock_passes LIVE_HOST_OUTPUT_POLL_DEADLINE (\<lambda>n. 10 * n)"
  by (auto simp: clock_passes_def LIVE_HOST_OUTPUT_POLL_DEADLINE_def intro: exI [of _ 20] exI [of _ 12])


section \<open>The daemon\<close>


definition sample_args :: daemon_args where
  "sample_args =
     \<lparr>da_session_id = lit ''work'', da_endpoint = lit ''/tmp/s'', da_command = None, da_working_dir = None, da_env = [],
      da_initial_size = Some (100, 30), da_initial_tabs = 2, da_active_tab_id = None,
      da_initial_split = Some AxisVertical, da_resize_policy = ResizeLeader, da_host_kind = HostLocal,
      da_sandbox_profile = None, da_container_image = None\<rparr>"

definition sample_connections :: "connection list" where
  "sample_connections =
     [\<lparr>cn_clock = \<lambda>n. 10 * n, cn_reads = [FrameRead (attach_request_frame plain_request None), ReadEof]\<rparr>,
      \<lparr>cn_clock = \<lambda>n. 10 * n, cn_reads = [FrameRead (control_command_frame (sample_command CommandTabNew))]\<rparr>]"


text \<open>C6: a connection can change no session but the one its first frame names, or the default session where it
  names none: every other session is as it was, no session is lost, and the connection is served to its end.\<close>

theorem connection_touches_its_session_only:
  assumes "registry_ok reg" and "clock_passes 200 (cn_clock c)"
    and "read_initial (cn_reads c) = Inr (initial, rest)"
    and "target = (case initial_target_session_id initial of Some k \<Rightarrow> k | None \<Rightarrow> default_id)"
  shows "\<exists>reg' h' frames x. serve_unix_registry_once eops (pty_ops os macos runtime_var debug) args origin default_id c (reg, h) =
      Some ((reg', h'), frames, x) \<and> registry_ok reg' \<and>
    (\<forall>j. registry_get reg j \<noteq> None \<longrightarrow> registry_get reg' j \<noteq> None) \<and>
    (\<forall>j. j \<noteq> target \<longrightarrow> registry_get reg' j = registry_get reg j)"
  using pty_pump.connection_touches_one [of "(reg, h)" c default_id eops os macos runtime_var debug args origin] assms
  by (auto simp: served_def touches_only_def)

definition two_sessions :: "ansi_state session_registry" where
  "two_sessions =
     [(lit ''local'', idle_actor), (lit ''other'', actor_new (core_new (session_initial\<lparr>ss_id := lit ''other''\<rparr>)) 16)]"

lemma two_sessions_ok: "registry_ok two_sessions"
proof -
  have "workspace_ok (session_initial\<lparr>ss_id := k\<rparr>)" for k
    using initial_workspace_ok
    by (simp add: workspace_ok_def find_tab_def leaf_pane_ids_def session_panes_def)
  moreover have "lit ''local'' < lit ''other''" by (simp add: lit_def)
  ultimately show ?thesis
    using idle_actor_rests initial_workspace_ok
    by (auto simp: registry_ok_def two_sessions_def bt_get_def actor_ok_def idle_actor_def actor_new_def core_new_def
        actor_session_def session_initial_def rests_iff scheduler_new_def split: if_splits)
qed

theorem connection_touches_its_session_only_witness:
  "\<exists>reg' h' frames x. serve_unix_registry_once interim_engine (pty_ops quiet_os False None (\<lambda>_. [])) sample_args None
      (lit ''local'') (hd sample_connections) (two_sessions, pumped_host) = Some ((reg', h'), frames, x) \<and> registry_ok reg' \<and>
    registry_get reg' (lit ''other'') = registry_get two_sessions (lit ''other'')"
proof -
  have read: "read_initial (cn_reads (hd sample_connections)) = Inr (InitialAttach None plain_request, [ReadEof])"
    using initial_frames_decode(1) [of plain_request None]
    by (simp add: read_initial_def sample_connections_def attach_request_ok_def plain_request_def lit_def)
  have "clock_passes 200 (cn_clock (hd sample_connections))" by (simp add: sample_connections_def steady_clock)
  then obtain reg' h' frames x where "serve_unix_registry_once interim_engine (pty_ops quiet_os False None (\<lambda>_. [])) sample_args
      None (lit ''local'') (hd sample_connections) (two_sessions, pumped_host) = Some ((reg', h'), frames, x)" "registry_ok reg'"
    "\<forall>j. j \<noteq> lit ''local'' \<longrightarrow> registry_get reg' j = registry_get two_sessions j"
    using connection_touches_its_session_only [OF two_sessions_ok _ read, where target = "lit ''local''"]
    by (auto simp: initial_target_session_id_def) blast
  then show ?thesis by auto
qed

section \<open>Clients that follow a session live\<close>

text \<open>C3: whatever order the output and the resizes of any panes, the signals for a client, other frames for it and the
  turns of the task that writes to its socket come in, the client refuses nothing it is sent; and once a pane is
  signalled, the client holds exactly the server's copy of it after some turns of that task, however many versions
  were skipped on the way and whatever the budget of the queue made of the patches.\<close>

theorem signalled_pane_reaches_client:
  assumes "start_ok bound s known0 cache"
    and "delivers len n (delivery_start s engines frame_cap byte_cap seq0 known0 cache) d" and "bound + n \<le> U64_MAX"
    and "signal_bundles len (dv_session d) (dv_output d, dv_seq d, dv_known d) ks = ((out1, seq, known), Inr ())"
    and "k \<in> set ks" and "session_pane_data (dv_session d) k = Some p"
  shows "\<exists>m. let d' = (written_turn len ^^ m) (d\<lparr>dv_output := out1, dv_seq := seq, dv_known := known\<rparr>) in
    dv_intact d' \<and> cached (dv_cache d') k = Some (client_of p)"
  by (rule signalled_pane_arrives [OF assms])

definition empty_start :: delivery where
  "empty_start =
     delivery_start session_initial (\<lambda>_. Ground) 4 64 6 [] client_attach_state_default"

lemma empty_start_ok: "start_ok 2 session_initial [] client_attach_state_default"
proof -
  have only: "p = initial_pane" if "session_pane_data session_initial k = Some p" for k p
    using ws.look_in_contents [OF that] by (simp add: session_panes_def session_initial_def)
  show ?thesis
    unfolding start_ok_def
  proof (intro conjI allI impI)
    fix k p assume "session_pane_data session_initial k = Some p"
    then have p: "p = initial_pane" by (rule only)
    show "interim_accepts p" "pn_surface_version p \<le> 2"
      "client_trails 2 (cached client_attach_state_default k) (bt_get [] k) p 0"
      using initial_pane_accepted(2) initial_pane_facts(3) by (simp_all add: p client_trails_def)
  qed simp
qed

lemma first_signal_taken:
  assumes "session_pane_data s k = Some p"
  shows "\<exists>out1 seq known. signal_bundles (\<lambda>_. 1) s (output_new 4 64, n, []) [k] = ((out1, seq, known), Inr ())"
proof -
  obtain bd where bd: "surface_frame_bundle_for_pane s k n = Some bd"
    using assms by (auto simp: surface_frame_bundle_for_pane_def surface_version_def pane_surface_frame_eq Let_def)
  have "surface_signal_set_bytes (\<lambda>_. 1) (merged_signal (output_new 4 64) k v False (Some f) x) \<le> 64" for v f and x :: "(u64 \<times> envelope) option"
    by (simp add: merged_signal_def surface_signal_set_bytes_def signal_bytes_def output_new_def signal_set_default_def
        split: option.split)
  then obtain out1 where
    "signal_surface_frame_bundle (\<lambda>_. 1) (output_new 4 64) k (fb_version bd) (fb_snapshot bd) (fb_patch bd) = (out1, Inr ())"
    by (simp add: signal_surface_frame_bundle_def update_surface_signal_def enforce_surface_budget_def Let_def merged_signal_def)
      (simp add: output_new_def)
  with bd assms show ?thesis by (simp add: surface_version_def)
qed

theorem signalled_pane_reaches_client_witness:
  "\<exists>d p out1 seq known m. delivers (\<lambda>_. 1) 1 empty_start d \<and> session_pane_data (dv_session d) (lit ''pane-1'') = Some p \<and>
    signal_bundles (\<lambda>_. 1) (dv_session d) (dv_output d, dv_seq d, dv_known d) [lit ''pane-1''] = ((out1, seq, known), Inr ()) \<and>
    (let d' = (written_turn (\<lambda>_. 1) ^^ m) (d\<lparr>dv_output := out1, dv_seq := seq, dv_known := known\<rparr>) in
     dv_intact d' \<and> cached (dv_cache d') (lit ''pane-1'') = Some (client_of p))"
proof -
  let ?k = "lit ''pane-1''" and ?x = "OpOutput [104, 105]"
  obtain s e where step: "session_engine_step interim_engine ?k ?x (session_initial, Ground) = (s, e)" by fastforce
  let ?d = "empty_start\<lparr>dv_session := s, dv_engines := (dv_engines empty_start)(?k := e)\<rparr>"
  have start: "dv_session empty_start = session_initial" "dv_engines empty_start = (\<lambda>_. Ground)"
    "dv_output empty_start = output_new 4 64" "dv_seq empty_start = 6" "dv_known empty_start = []"
    by (simp_all add: empty_start_def delivery_start_def)
  obtain e1 o1 where "engine_step interim_engine Ground initial_pane ?x = (e1, o1)" by fastforce
  from session_engine_step_look [OF initial_pane_accepted(1) this] step obtain p where p: "session_pane_data s ?k = Some p"
    by simp
  have run: "delivers (\<lambda>_. 1) 1 empty_start ?d"
    using delivers_engine [OF delivers_none, of ?k ?x empty_start s e] step start by simp
  obtain out1 seq known where signal:
    "signal_bundles (\<lambda>_. 1) (dv_session ?d) (dv_output ?d, dv_seq ?d, dv_known ?d) [?k] = ((out1, seq, known), Inr ())"
    using first_signal_taken [OF p, of 6] start by auto
  from signalled_pane_reaches_client [OF empty_start_ok run [unfolded empty_start_def] _ signal [unfolded empty_start_def], of ?k p]
    p obtain m where "let d' = (written_turn (\<lambda>_. 1) ^^ m) (?d\<lparr>dv_output := out1, dv_seq := seq, dv_known := known\<rparr>) in
     dv_intact d' \<and> cached (dv_cache d') ?k = Some (client_of p)"
    by (auto simp: empty_start_def U64_MAX_def)
  with run signal p show ?thesis by (intro exI [of _ ?d] exI) auto
qed

text \<open>C7: for every connection that follows the session live through the session's actor, whatever its client sends and the
  processes print: the handshake and any number of turns end, the actor rests between them with its session well
  formed and under its id, and the frames written are numbered from one without a gap.\<close>

theorem live_connection_is_served:
  assumes "rests a" and "list_all (\<lambda>env. clock_passes LIVE_POST_INPUT_COALESCE_DEADLINE (le_clock env)) envs"
  shows "\<exists>v x. serve_live_attached_client_with_session_actor eops (pty_ops os macos runtime_var debug) notifies request
      cycles envs (a, h) reads = Some (v, x) \<and>
    rests (fst (vs_state v)) \<and> commanded (actor_session a) (actor_session (fst (vs_state v))) \<and>
    numbered 1 (vs_written v) \<and> vs_seq v = 1 + length (vs_written v)"
proof -
  let ?ops = "actor_live eops (pty_ops os macos runtime_var debug)"
  have "\<exists>v x. serve_live ?ops notifies request cycles envs (a, h) reads = Some (v, x) \<and>
      live_tidy ?ops (\<lambda>st. rests (fst st)) (lo_session ?ops (a, h)) v"
    using assms by (intro pty_pump.actor.serve_live_ends) (simp_all add: list_all_iff)
  then show ?thesis
    by (auto simp: serve_live_attached_client_with_session_actor_def live_tidy_def live_kept_def actor_live_def case_prod_beta)
qed

definition sample_live_env :: live_env where
  "sample_live_env = \<lparr>le_host_ready = True, le_clock = \<lambda>n. 10 * n, le_now = 7\<rparr>"

lemma sample_env_passes: "clock_passes LIVE_POST_INPUT_COALESCE_DEADLINE (le_clock sample_live_env)"
  by (auto simp: clock_passes_def sample_live_env_def LIVE_POST_INPUT_COALESCE_DEADLINE_def intro: exI [of _ 25])

theorem live_connection_is_served_witness:
  "\<exists>v x. serve_live_attached_client_with_session_actor interim_engine (pty_ops quiet_os False None (\<lambda>_. [])) True
      plain_request 5 [sample_live_env, sample_live_env] (idle_actor, pumped_host)
      [FrameRead (raw_input_frame session_initial sample_context [7]), ReadTimedOut] = Some (v, x) \<and>
    rests (fst (vs_state v)) \<and> commanded (actor_session idle_actor) (actor_session (fst (vs_state v))) \<and>
    numbered 1 (vs_written v) \<and> vs_seq v = 1 + length (vs_written v)"
  by (rule live_connection_is_served [OF idle_actor_rests]) (simp add: sample_env_passes)




definition sample_loop_env :: "((nat \<Rightarrow> nat) \<times> frame_read list) list \<Rightarrow> live_loop_env" where
  "sample_loop_env waiting =
     \<lparr>ce_waiting = waiting,
      ce_news = \<lambda>_. \<lparr>nw_events = [], nw_reader_ended = False, nw_reads = [], nw_writer_turns = 3, nw_hung_up = False\<rparr>,
      ce_readable = [0, 1], ce_host_ready = True, ce_clock = \<lambda>n. 10 * n, ce_now = 7\<rparr>"



text \<open>C24: a client that is connected but does not read ends the service of all: when its queue is as full as it may be and
  the workspace has changed, the turn ends the loop.\<close>

theorem full_queue_ends_service:
  assumes "loop_kept (actor_live eops (pty_ops os macos runtime_var debug)) (\<lambda>st. rests (fst st)) len s
      (l\<lparr>ll_clients := map fst flagged\<rparr>)"
    and "clock_passes LIVE_POST_INPUT_COALESCE_DEADLINE (ce_clock env)"
    and "c \<in> set (map fst flagged)" and "queue_full c"
  shows "\<exists>l' r. loop_settle (actor_live eops (pty_ops os macos runtime_var debug)) notifies cycles len env leafs hold had_input
      host_output True fast_changed flagged l = Some (l', LoopEnds r)"
  by (rule pty_pump.actor.full_queue_ends_loop [OF assms])

text \<open>C25: a pane that several clients look at gets the least width and the least height that a client with the right to
  write has asked for, whatever the others asked for.\<close>

theorem smallest_frontend_wins:
  assumes "rests a" and "pane_size (actor_session a) k \<noteq> None" and "wanted_sizes clients k \<noteq> {}"
    and "apply_concurrent_frontend_resize_with_session_actor interim_engine (pty_ops os macos runtime_var debug) now clients
      (a, h) k = (st, Inr changed)"
  shows "pane_size (actor_session (fst st)) k =
    Some (Min (fst ` wanted_sizes clients k), Min (snd ` wanted_sizes clients k))"
proof -
  let ?ops = "actor_live interim_engine (pty_ops os macos runtime_var debug)"
  have "pane_size (lo_session ?ops st) k = Some (Min (fst ` wanted_sizes clients k), Min (snd ` wanted_sizes clients k))"
    using assms
    by (intro pty_pump.interim_actor.least_size_wins [where st = "(a, h)" and now = now and changed = changed])
      (simp_all add: apply_concurrent_frontend_resize_with_session_actor_def actor_live_def)
  then show ?thesis by (simp add: actor_live_def case_prod_beta)
qed

definition sample_live_client :: "attach_mode \<Rightarrow> u32 \<Rightarrow> u32 \<Rightarrow> live_client" where
  \<comment> \<open>a client that asked for a size, with an input that waits\<close>
  "sample_live_client mode cols rows =
     \<lparr>lc_transport = AsyncTransport
        [EventInput \<lparr>is_pane_id = lit ''pane-1'', is_actor_id = lit ''a'', is_input_seq = 1, is_text = [],
          is_parts = input_summary_parts_default\<lparr>ip_bytes := [7]\<rparr>\<rparr>]
        False (output_new 4 64),
      lc_connection_id = lit ''c'', lc_actor = initial_actor mode,
      lc_hostname = [], lc_client_kind = [], lc_inventory_subscribed = False, lc_connected_at_mono_ms = 0,
      lc_last_seen_mono_ms = 0, lc_last_input_mono_ms = None, lc_seq = 6, lc_known_surface_versions = [],
      lc_frontend_resize_constraints = [(lit ''pane-1'', cols, rows)], lc_completed_cycles = 0\<rparr>"

theorem smallest_frontend_wins_witness:
  "\<exists>st changed. apply_concurrent_frontend_resize_with_session_actor interim_engine (pty_ops quiet_os False None (\<lambda>_. [])) 7
      [sample_live_client AttachReadWrite 80 50, sample_live_client AttachReadOnly 20 10, sample_live_client AttachReadWrite 120 24]
      (idle_actor, pumped_host) (lit ''pane-1'') = (st, Inr changed) \<and>
    pane_size (actor_session (fst st)) (lit ''pane-1'') = Some (80, 24)"
proof -
  let ?cs = "[sample_live_client AttachReadWrite 80 50, sample_live_client AttachReadOnly 20 10, sample_live_client AttachReadWrite 120 24]"
  have allowed: "input_allowed (lc_actor (sample_live_client m c r)) \<longleftrightarrow> m = AttachReadWrite"
    "bt_get (lc_frontend_resize_constraints (sample_live_client m c r)) (lit ''pane-1'') = Some (c, r)" for m c r
    by (simp_all add: sample_live_client_def input_allowed_def initial_actor_def bt_get_def)
  then have wanted: "wanted_sizes ?cs (lit ''pane-1'') = {(80, 50), (120, 24)}"
    by (simp add: wanted_sizes_def List.map_filter_simps)
  have size_now: "pane_size (actor_session idle_actor) (lit ''pane-1'') = Some (80, 24)"
    using initial_pane_accepted(1)
    by (simp add: pane_size_def idle_actor_def actor_new_def core_new_def actor_session_def) (simp add: initial_pane_def Let_def)
  have resized: "apply_concurrent_frontend_resize_with_session_actor interim_engine (pty_ops quiet_os False None (\<lambda>_. [])) 7 ?cs
      (idle_actor, pumped_host) (lit ''pane-1'') = ((idle_actor, pumped_host), Inr False)"
    using smallest_size [of ?cs "lit ''pane-1''"] wanted size_now
    by (simp add: apply_concurrent_frontend_resize_with_session_actor_def apply_frontend_resize_def actor_live_def)
  have "pane_size (actor_session (fst (idle_actor, pumped_host))) (lit ''pane-1'') =
      Some (Min (fst ` wanted_sizes ?cs (lit ''pane-1'')), Min (snd ` wanted_sizes ?cs (lit ''pane-1'')))"
    using wanted size_now by (intro smallest_frontend_wins [OF idle_actor_rests _ _ resized]) simp_all
  with wanted resized show ?thesis by (intro exI [of _ "(idle_actor, pumped_host)"] exI [of _ False]) simp
qed

definition stuck_client :: live_client where
  \<comment> \<open>a client that does not read, with room for one frame\<close>
  "stuck_client = sample_live_client AttachReadWrite 80 24
     \<lparr>lc_connection_id := connection_name 1,
      lc_transport := AsyncTransport [] False
        ((output_new 1 64)\<lparr>co_queue := [workspace_tree_frame session_initial local_client 5], co_pending_bytes := 8\<rparr>)\<rparr>"

theorem full_queue_ends_service_witness:
  "\<exists>l' r. loop_settle (actor_live interim_engine (pty_ops quiet_os False None (\<lambda>_. []))) True 5 (\<lambda>_. 8) (sample_loop_env [])
      [lit ''pane-1''] False False True True False [(stuck_client, False)]
      (live_loop_start (idle_actor, pumped_host)\<lparr>ll_next_connection_id := 2\<rparr>) = Some (l', LoopEnds r)"
proof (rule full_queue_ends_service [where c = stuck_client and s = session_initial])
  show "clock_passes LIVE_POST_INPUT_COALESCE_DEADLINE (ce_clock (sample_loop_env []))"
    by (auto simp: clock_passes_def sample_loop_env_def LIVE_POST_INPUT_COALESCE_DEADLINE_def intro: exI [of _ 25])
  show "queue_full stuck_client"
    by (auto simp: queue_full_def stuck_client_def output_new_def)
  have "client_queue_ok (\<lambda>_. 8) stuck_client"
    using output_new_ok [of "\<lambda>_. 8" 1 64]
    by (simp add: client_queue_ok_def stuck_client_def output_ok_def output_new_def)
  moreover have "lc_connection_id stuck_client = connection_name 1" by (simp add: stuck_client_def)
  ultimately show "loop_kept (actor_live interim_engine (pty_ops quiet_os False None (\<lambda>_. []))) (\<lambda>st. rests (fst st)) (\<lambda>_. 8)
      session_initial ((live_loop_start (idle_actor, pumped_host)\<lparr>ll_next_connection_id := 2\<rparr>)
        \<lparr>ll_clients := map fst [(stuck_client, False)]\<rparr>)"
    using idle_actor_rests
    by (simp add: loop_kept_def live_kept_def live_loop_start_def actor_live_def actor_session_def idle_actor_def
        actor_new_def core_new_def commanded_def clients_ok_def)
qed simp



text \<open>C23: a live client without the right to write changes nothing: whatever it has sent, draining it leaves the session,
  the engines and the processes as they were.\<close>

theorem read_only_live_client_is_harmless:
  assumes "\<not> input_allowed (lc_actor c)"
  shows "snd (fst (drain_live_client_frames_with_session_actor eops ops len now c st)) = st \<and>
    snd (fst (drain_live_client_frames eops ops len now c st')) = st'"
  using assms
  by (simp add: drain_live_client_frames_with_session_actor_def drain_live_client_frames_def read_only_drain)

theorem read_only_live_client_is_harmless_witness:
  "snd (fst (drain_live_client_frames_with_session_actor interim_engine (pty_ops quiet_os False None (\<lambda>_. [])) (\<lambda>_. 1) 7
      (sample_live_client AttachReadOnly 80 24) (idle_actor, pumped_host))) = (idle_actor, pumped_host)"
  by (rule conjunct1 [OF read_only_live_client_is_harmless])
    (simp add: sample_live_client_def input_allowed_def initial_actor_def)

text \<open>C18: however a client's output queue is used, its frames and their bytes stay within their bounds, and so do the
  bytes of the surfaces that wait; the reliable frames handed to the socket are, in order and each once, those that
  were accepted, but for the ones that still wait.\<close>

theorem output_queue_is_bounded:
  assumes "queue_run len frame_cap byte_cap ins outs o1"
  shows "length (co_queue o1) \<le> frame_cap \<and> co_pending_bytes o1 = sum_list (map len (co_queue o1)) \<and>
    co_pending_bytes o1 \<le> byte_cap \<and> surface_signal_set_bytes len (co_watched o1) \<le> byte_cap \<and>
    ins = outs @ co_queue o1"
  using queue_run_ok [OF assms] by (auto simp: output_ok_def)

theorem output_queue_is_bounded_witness:
  "\<exists>o1. queue_run (\<lambda>f. length f) 2 8 [lit ''abc'', lit ''defg''] [lit ''abc''] o1 \<and>
    length (co_queue o1) \<le> 2 \<and> co_pending_bytes o1 = sum_list (map length (co_queue o1)) \<and> co_pending_bytes o1 \<le> 8 \<and>
    surface_signal_set_bytes length (co_watched o1) \<le> 8 \<and> [lit ''abc'', lit ''defg''] = [lit ''abc''] @ co_queue o1"
proof -
  let ?o0 = "output_new 2 8 :: ustring client_output"
  let ?o1 = "?o0\<lparr>co_queue := [lit ''abc''], co_pending_bytes := 3\<rparr>"
  let ?o2 = "?o0\<lparr>co_queue := [lit ''abc'', lit ''defg''], co_pending_bytes := 7\<rparr>"
  have "try_send_reliable length ?o0 (lit ''abc'') = (?o1, Inr ())" "try_send_reliable length ?o1 (lit ''defg'') = (?o2, Inr ())"
    by (simp_all add: try_send_reliable_def reserve_reliable_bytes_def checked_add_u64_def U64_MAX_def output_new_def lit_def)
  from queue_run_send [OF queue_run_send [OF queue_run_new _ this(1)] _ this(2)]
  have two: "queue_run length 2 8 [lit ''abc'', lit ''defg''] [] ?o2" by (simp add: output_new_def)
  have "recv_write_event length ?o2 = Some (WriteReliable (lit ''abc''), ?o0\<lparr>co_queue := [lit ''defg''], co_pending_bytes := 4\<rparr>)"
    using recv_cases [of length ?o2] queue_run_ok [OF two] by (simp add: lit_def)
  from queue_run_recv [OF two this]
  have run: "queue_run length 2 8 [lit ''abc'', lit ''defg''] [lit ''abc''] (?o0\<lparr>co_queue := [lit ''defg''], co_pending_bytes := 4\<rparr>)"
    by simp
  from output_queue_is_bounded [OF run] run show ?thesis by blast
qed

section \<open>The client's screen and its input\<close>

text \<open>C28: nothing the client's terminal sends is lost: the pieces that the client hands on (raw bytes, pastes, mouse
  reports, keys) stand for consecutive pieces of the input, in order, which together are the whole input.\<close>

theorem stdin_is_covered:
  "\<exists>ps. list_all2 stands_for (stdin_byte_forwards input) ps \<and> concat ps = input"
  by (rule stdin_covered)

text \<open>C33: a mouse report that the server's encoder writes in the SGR format, whatever follows it, is read by a client
  (one that runs in a pane of another nmux) as the event it reports: same cell, button and action, and the modifiers
  up to the super key, for which the format has no bit.\<close>

theorem mouse_report_round_trip:
  assumes "encode_sgr_mouse_input i = Some bs" and "mi_mouse_format i = FormatSgr" and "mi_row i < U32_MAX" and "mi_col i < U32_MAX"
  shows "parse_sgr_mouse_sequence (bs @ rest) = Some (read_mouse i, length bs)"
  by (rule sgr_mouse_round_trip [OF assms])

definition sample_report :: mouse_terminal_input where
  "sample_report =
     \<lparr>mi_row = 4, mi_col = 30, mi_pixel_x = None, mi_pixel_y = None, mi_button = ButtonLeft, mi_action = MousePress,
      mi_modifiers = 2, mi_mouse_format = FormatSgr, mi_cols = 80, mi_rows = 24\<rparr>"

theorem mouse_report_round_trip_witness:
  "\<exists>bs. encode_sgr_mouse_input sample_report = Some bs \<and>
    parse_sgr_mouse_sequence (bs @ [0x41]) =
      Some (\<lparr>sm_row = 4, sm_col = 30, sm_button = WireButtonLeft, sm_action = WirePress, sm_modifiers = 2\<rparr>, length bs)"
proof -
  obtain bs where bs: "encode_sgr_mouse_input sample_report = Some bs"
    by (simp add: encode_sgr_mouse_input_def sample_report_def mouse_position_def checked_add_u32_def U32_MAX_def)
  have "read_mouse sample_report =
      \<lparr>sm_row = 4, sm_col = 30, sm_button = WireButtonLeft, sm_action = WirePress, sm_modifiers = 2\<rparr>"
    by (simp add: read_mouse_def sample_report_def wire_button_of_def wire_action_of_def)
  with mouse_report_round_trip [OF bs, of "[0x41]"] bs show ?thesis
    by (simp add: sample_report_def U32_MAX_def)
qed

text \<open>C29: a mouse event in the contents of a pane whose program follows the mouse goes to this pane, as the cell of the
  pane it happened on, and this cell is inside the size the client has reported for the pane.\<close>

theorem mouse_event_reaches_its_pane:
  assumes "rows \<le> U16_MAX" and "fi_overlay i = None"
    and "\<And>root. wk_pane_tree (fi_workspace i) = Some root \<Longrightarrow> well_split root"
    and "pane_content_rect (fi_workspace i) (min (max cols 1) U16_MAX) (min (max (rows - 1) 1) U16_MAX) k = Some r"
    and "rect_contains r (sm_col mouse) (sm_row mouse)"
    and "tm_mouse_tracking (case opt_get pane_modes k of Some m \<Rightarrow> m
      | None \<Rightarrow> if k = wk_pane_id (fi_workspace i) then active_modes else terminal_modes_default)"
  shows "\<exists>x y. sm_col mouse = rc_x r + x \<and> sm_row mouse = rc_y r + y \<and>
    x < fst (frontend_resize_pane_size (fi_workspace i) k cols rows True) \<and>
    y < snd (frontend_resize_pane_size (fi_workspace i) k cols rows True) \<and>
    live_mouse_dispatch_for_workspace buffer (Some (cols, rows)) mouse i pane_modes active_modes =
      Some (DispatchPaneMouse k
        \<lparr>ms_row = y, ms_col = x, ms_pixel_x = None, ms_pixel_y = None,
         ms_button = sm_button mouse, ms_action = sm_action mouse, ms_modifiers = sm_modifiers mouse\<rparr>)"
  using mouse_goes_to_pane(1) [OF assms, of buffer] mouse_goes_to_pane(2,3) [OF assms] assms(5)
  by (intro exI [of _ "sm_col mouse - rc_x r"] exI [of _ "sm_row mouse - rc_y r"]) (simp add: rect_contains_def)

definition two_panes :: workspace_summary where
  "two_panes =
     \<lparr>wk_session_id = lit ''s'', wk_tab_id = lit ''tab-1'', wk_pane_id = lit ''pane-1'', wk_cols = 80, wk_rows = 24,
      wk_policy = ResizeFixed,
      wk_pane_tree = Some (WorkspacePaneSummary (lit ''split'') 80 24 ResizeFixed AxisVertical
        [WorkspacePaneSummary (lit ''pane-1'') 40 24 ResizeFixed AxisNone [],
         WorkspacePaneSummary (lit ''pane-2'') 40 24 ResizeFixed AxisNone []]), wk_tabs = []\<rparr>"

definition two_panes_screen :: frame_input where
  "two_panes_screen = dispatch_frame two_panes (lit ''a'') None None"

definition blank_buffer :: "rect \<Rightarrow> draw list \<Rightarrow> u16 \<Rightarrow> u16 \<Rightarrow> ustring option" where
  "blank_buffer area ds x y = None"

lemma two_panes_rect: "pane_content_rect two_panes 80 23 (lit ''pane-2'') = Some (rect_new 51 2 28 20)"
  by (simp add: two_panes_def pane_content_rect_def MENU_HEIGHT_def split_screen_def Let_def tree_width_for_def clamp_def
      TREE_MIN_WIDTH_def TREE_MAX_WIDTH_def sat_add_u16_def U16_MAX_def child_areas_def as_u16_def inset_def lit_def)
    (simp add: rect_new_def inset_def numeral_2_eq_2 [symmetric])

theorem mouse_event_reaches_its_pane_witness:
  "\<exists>x y. 60 = 51 + x \<and> 5 = 2 + y \<and> x < (28 :: nat) \<and> y < (20 :: nat) \<and>
    live_mouse_dispatch_for_workspace blank_buffer (Some (80, 24))
        \<lparr>sm_row = 5, sm_col = 60, sm_button = WireButtonLeft, sm_action = WirePress, sm_modifiers = 0\<rparr> two_panes_screen
        (Some [(lit ''pane-2'', terminal_modes_default\<lparr>tm_mouse_tracking := True\<rparr>)]) terminal_modes_default =
      Some (DispatchPaneMouse (lit ''pane-2'')
        \<lparr>ms_row = y, ms_col = x, ms_pixel_x = None, ms_pixel_y = None,
         ms_button = WireButtonLeft, ms_action = WirePress, ms_modifiers = 0\<rparr>)"
proof -
  let ?mouse = "\<lparr>sm_row = 5, sm_col = 60, sm_button = WireButtonLeft, sm_action = WirePress, sm_modifiers = 0\<rparr>"
  have two: "fi_workspace two_panes_screen = two_panes" "fi_overlay two_panes_screen = None"
    by (simp_all add: two_panes_screen_def dispatch_frame_def)
  have rect: "pane_content_rect two_panes (min (max 80 1) U16_MAX) (min (max (24 - 1) 1) U16_MAX) (lit ''pane-2'') =
      Some (rect_new 51 2 28 20)"
    using two_panes_rect by (simp add: U16_MAX_def)
  have split: "well_split root" if "wk_pane_tree two_panes = Some root" for root
    using that by (auto simp: two_panes_def)
  have inside: "rect_contains (rect_new 51 2 28 20) (sm_col ?mouse) (sm_row ?mouse)"
    by (simp add: rect_contains_def sat_add_u16_def U16_MAX_def)
  have modes: "opt_get (Some [(lit ''pane-2'', terminal_modes_default\<lparr>tm_mouse_tracking := True\<rparr>)]) (lit ''pane-2'') =
      Some (terminal_modes_default\<lparr>tm_mouse_tracking := True\<rparr>)"
    by (simp add: opt_get_def bt_get_def)
  have size: "frontend_resize_pane_size two_panes (lit ''pane-2'') 80 24 True = (28, 20)"
    using resize_is_content_rect [OF rect] by simp
  from mouse_event_reaches_its_pane [where rows = 24 and i = two_panes_screen and cols = 80 and k = "lit ''pane-2''"
      and r = "rect_new 51 2 28 20" and mouse = ?mouse and active_modes = terminal_modes_default and buffer = blank_buffer
      and pane_modes = "Some [(lit ''pane-2'', terminal_modes_default\<lparr>tm_mouse_tracking := True\<rparr>)]"]
  show ?thesis using two rect split inside modes size by (simp add: U16_MAX_def)
qed

text \<open>C30: the size the client reports for a pane is the size of the area its screen gives to the contents of the pane.\<close>

theorem reported_size_is_drawn:
  assumes "0 < cols" and "cols \<le> U16_MAX" and "MENU_HEIGHT + 1 < rows" and "rows \<le> U16_MAX" and "fi_overlay i = None"
    and "find (\<lambda>h. hr_target h = HitPaneContent k) (tf_hits (render_workspace_frame buffer i cols (rows - 1))) = Some h"
  shows "frontend_resize_pane_size (fi_workspace i) k cols rows True = (max (rc_width (hr_rect h)) 1, max (rc_height (hr_rect h)) 1)"
proof -
  have "map_option (content_hit k) (pane_content_rect (fi_workspace i) cols (rows - 1) k) = Some h"
    using content_rect_on_screen [of cols "rows - 1" i k buffer] assms by simp
  then obtain r where r: "pane_content_rect (fi_workspace i) cols (rows - 1) k = Some r" "h = content_hit k r" by auto
  have "min (max cols 1) U16_MAX = cols" "min (max (rows - 1) 1) U16_MAX = rows - 1" using assms(1-4) by auto
  with r resize_is_content_rect [of "fi_workspace i" cols rows k r] show ?thesis by (simp add: content_hit_def)
qed

theorem reported_size_is_drawn_witness:
  "\<exists>h. find (\<lambda>h. hr_target h = HitPaneContent (lit ''pane-2'')) (tf_hits (render_workspace_frame blank_buffer two_panes_screen 80 23)) = Some h \<and>
    (28, 20) = (max (rc_width (hr_rect h)) 1, max (rc_height (hr_rect h)) 1)"
proof -
  have two: "fi_workspace two_panes_screen = two_panes" "fi_overlay two_panes_screen = None"
    by (simp_all add: two_panes_screen_def dispatch_frame_def)
  have drawn: "find (\<lambda>h. hr_target h = HitPaneContent (lit ''pane-2'')) (tf_hits (render_workspace_frame blank_buffer two_panes_screen 80 (24 - 1))) =
      Some (content_hit (lit ''pane-2'') (rect_new 51 2 28 20))"
    using content_rect_on_screen [of 80 23 two_panes_screen "lit ''pane-2''" blank_buffer] two_panes_rect two by (simp add: MENU_HEIGHT_def)
  have "frontend_resize_pane_size two_panes (lit ''pane-2'') 80 24 True = (28, 20)"
    using resize_is_content_rect [of two_panes 80 24 "lit ''pane-2''" "rect_new 51 2 28 20"] two_panes_rect
    by (simp add: U16_MAX_def)
  with reported_size_is_drawn [OF _ _ _ _ _ drawn] drawn two show ?thesis by (simp add: U16_MAX_def MENU_HEIGHT_def)
qed



text \<open>C32: over any keys and mouse events the active menu is one of the menus, and the selection of an open overlay is a line
  that does something, if there is one.\<close>

theorem menus_stay_in_order:
  assumes "menus_reached m"
  shows "(\<forall>n. mu_active_menu_index m = Some n \<longrightarrow> n < length MENU_ACTIONS) \<and>
    (\<forall>ov. mu_active_overlay m = Some ov \<longrightarrow>
      (if selectable_lines ov = [] then ov_selected ov = None else selected_overlay_action ov \<noteq> None))"
  using menus_reached_ok [OF assms] by (simp add: menu_ok_def overlay_ok_def)

theorem menus_stay_in_order_witness:
  "\<exists>(m :: menu_state) ov. mu_active_overlay m = Some ov \<and> mu_active_menu_index m = Some 2 \<and>
    2 < length MENU_ACTIONS \<and> selected_overlay_action ov = Some (OverlayFocusPane (lit ''pane-2''))"
proof -
  let ?ov = "menu_overlay_for_action MenuWindows two_panes terminal_modes_default"
  let ?m = "\<lparr>mu_active_menu_index = menu_index MenuWindows, mu_active_overlay = Some ?ov\<rparr>"
  have "handle_mouse_dispatch (\<lambda>_. None) two_panes terminal_modes_default True (Some (DispatchMenu MenuWindows)) no_menu =
      Some (?m, [MouseRepaint])"
    by (simp add: handle_mouse_dispatch_def handle_mouse_menu_def)
  with menus_reached.at_start have m: "menus_reached ?m" by (rule menus_reached.mouse)
  have "menu_index MenuWindows = Some 2"
    by (simp add: menu_index_def position_of_def MENU_ACTIONS_def upt_rec numeral_2_eq_2)
  moreover have "selected_overlay_action ?ov = Some (OverlayFocusPane (lit ''pane-2''))"
    by (simp add: menu_overlay_for_action_def menu_overlay_for_action_with_session_inventory_def window_overlay_lines_def
        two_panes_def workspace_tabs_def workspace_panes_def marked_line_def overlay_text_def position_of_def upt_rec
        selected_overlay_action_def lit_def)
  ultimately have "mu_active_overlay ?m = Some ?ov \<and> mu_active_menu_index ?m = Some 2 \<and>
      2 < length MENU_ACTIONS \<and>
      selected_overlay_action ?ov = Some (OverlayFocusPane (lit ''pane-2''))"
    using menus_stay_in_order [OF m] by simp
  then show ?thesis by blast
qed





end
